(* ===== verification/Prelude.thy ===== *)
theory Prelude
  imports Complex_Main "HOL-Library.Monad_Syntax"
begin

text \<open>
  The vocabulary every component of the development shares: error results, the lookups of
  JavaScript arrays, insertion-ordered dictionaries (the JavaScript Map), and decimal rendering.
  Facts that evaluate the model on concrete inputs are collected in js_eval, the laws of
  dictionaries in dict_laws, and the facts about error results in result_simps.
\<close>

named_theorems js_eval
named_theorems dict_laws
named_theorems result_simps

section \<open>Results: a thrown error is the left summand\<close>

type_synonym ('e, 'a) result = "'e + 'a"

definition throw :: "'e \<Rightarrow> ('e, 'a) result" where
  "throw e = Inl e"

definition return_ok :: "'a \<Rightarrow> ('e, 'a) result" where
  "return_ok x = Inr x"

fun and_then :: "('e, 'a) result \<Rightarrow> ('a \<Rightarrow> ('e, 'b) result) \<Rightarrow> ('e, 'b) result" where
  "and_then (Inl e) f = Inl e"
| "and_then (Inr x) f = f x"

definition guard_ok :: "bool \<Rightarrow> 'e \<Rightarrow> ('e, unit) result" where
  "guard_ok b e = (if b then Inr () else Inl e)"

fun opt_or_throw :: "'e \<Rightarrow> 'a option \<Rightarrow> ('e, 'a) result" where
  "opt_or_throw e None = Inl e"
| "opt_or_throw e (Some x) = Inr x"

lemma and_then_Inr_iff [result_simps]:
  "and_then r f = Inr y \<longleftrightarrow> (\<exists>x. r = Inr x \<and> f x = Inr y)"
  by (cases r) auto

lemma and_then_Inl_iff [result_simps]:
  "and_then r f = Inl e \<longleftrightarrow> r = Inl e \<or> (\<exists>x. r = Inr x \<and> f x = Inl e)"
  by (cases r) auto

lemma guard_ok_Inr_iff [result_simps]: "guard_ok b e = Inr u \<longleftrightarrow> b"
  by (simp add: guard_ok_def)

lemma guard_ok_Inl_iff [result_simps]: "guard_ok b e = Inl e' \<longleftrightarrow> \<not> b \<and> e' = e"
  by (auto simp add: guard_ok_def)

lemma opt_or_throw_Inr_iff [result_simps]: "opt_or_throw e p = Inr x \<longleftrightarrow> p = Some x"
  by (cases p) auto

lemma opt_or_throw_Inl_iff [result_simps]: "opt_or_throw e p = Inl e' \<longleftrightarrow> p = None \<and> e' = e"
  by (cases p) auto

lemma return_ok_simps [result_simps]:
  "return_ok x = Inr y \<longleftrightarrow> x = y" "return_ok x \<noteq> Inl e"
  "throw e = Inl e' \<longleftrightarrow> e = e'" "throw e \<noteq> Inr y"
  by (simp_all add: return_ok_def throw_def)

text \<open>A loop whose body may throw: the first error stops it.\<close>

fun map_result :: "('a \<Rightarrow> ('e, 'b) result) \<Rightarrow> 'a list \<Rightarrow> ('e, 'b list) result" where
  "map_result f [] = Inr []"
| "map_result f (x # xs) =
     and_then (f x) (\<lambda>y. and_then (map_result f xs) (\<lambda>ys. Inr (y # ys)))"

lemma map_result_Inr_iff [result_simps]:
  "map_result f xs = Inr ys \<longleftrightarrow> list_all2 (\<lambda>x y. f x = Inr y) xs ys"
  by (induction xs arbitrary: ys) (auto simp add: result_simps list_all2_Cons1)

lemma map_result_length: "map_result f xs = Inr ys \<Longrightarrow> length ys = length xs"
  by (simp add: map_result_Inr_iff list_all2_lengthD)

section \<open>Arrays\<close>

text \<open>Reading out of range gives undefined, modelled by None.\<close>

fun nth_opt :: "'a list \<Rightarrow> nat \<Rightarrow> 'a option" where
  "nth_opt [] i = None"
| "nth_opt (x # xs) 0 = Some x"
| "nth_opt (x # xs) (Suc i) = nth_opt xs i"

lemma nth_opt_conv: "nth_opt xs i = (if i < length xs then Some (xs ! i) else None)"
  by (induction xs i rule: nth_opt.induct) auto

lemma nth_opt_Some_iff: "nth_opt xs i = Some x \<longleftrightarrow> i < length xs \<and> xs ! i = x"
  by (auto simp add: nth_opt_conv)

lemma nth_opt_None_iff: "nth_opt xs i = None \<longleftrightarrow> length xs \<le> i"
  by (auto simp add: nth_opt_conv)

fun find_index_from :: "nat \<Rightarrow> (nat \<Rightarrow> 'a \<Rightarrow> bool) \<Rightarrow> 'a list \<Rightarrow> nat option" where
  "find_index_from k p [] = None"
| "find_index_from k p (x # xs) = (if p k x then Some k else find_index_from (Suc k) p xs)"

definition find_index :: "(nat \<Rightarrow> 'a \<Rightarrow> bool) \<Rightarrow> 'a list \<Rightarrow> nat option" where
  "find_index p xs = find_index_from 0 p xs"

lemma find_index_from_Some:
  "find_index_from k p xs = Some i \<Longrightarrow>
   k \<le> i \<and> i < k + length xs \<and> p i (xs ! (i - k)) \<and> (\<forall>j. k \<le> j \<longrightarrow> j < i \<longrightarrow> \<not> p j (xs ! (j - k)))"
proof (induction k p xs rule: find_index_from.induct)
  case (2 k p x xs)
  show ?case
  proof (cases "p k x")
    case True
    with 2 show ?thesis by auto
  next
    case False
    with 2 have ih: "Suc k \<le> i \<and> i < Suc k + length xs \<and> p i (xs ! (i - Suc k)) \<and>
      (\<forall>j. Suc k \<le> j \<longrightarrow> j < i \<longrightarrow> \<not> p j (xs ! (j - Suc k)))" by simp
    have "\<not> p j ((x # xs) ! (j - k))" if "k \<le> j" "j < i" for j
      using that ih False by (cases "j = k") (auto simp add: nth_Cons' Suc_diff_le)
    moreover have "(x # xs) ! (i - k) = xs ! (i - Suc k)"
      using ih by (simp add: nth_Cons' )
    ultimately show ?thesis using ih by simp
  qed
qed simp

lemma find_index_from_None:
  "find_index_from k p xs = None \<longleftrightarrow> (\<forall>j < length xs. \<not> p (k + j) (xs ! j))"
  by (induction k p xs rule: find_index_from.induct)
    (simp_all add: All_less_Suc2)

lemma find_index_Some:
  "find_index p xs = Some i \<Longrightarrow> i < length xs \<and> p i (xs ! i) \<and> (\<forall>j<i. \<not> p j (xs ! j))"
  using find_index_from_Some [of 0 p xs i] by (simp add: find_index_def)

lemma find_index_None: "find_index p xs = None \<longleftrightarrow> (\<forall>j < length xs. \<not> p j (xs ! j))"
  by (simp add: find_index_def find_index_from_None)

section \<open>Decimal rendering of a natural number\<close>

definition digit_char :: "nat \<Rightarrow> char" where
  "digit_char d = char_of (48 + d)"

fun show_nat :: "nat \<Rightarrow> string" where
  "show_nat n = (if n < 10 then [digit_char n] else show_nat (n div 10) @ [digit_char (n mod 10)])"

declare show_nat.simps [simp del]

definition read_digits :: "string \<Rightarrow> nat" where
  "read_digits s = fold (\<lambda>c acc. 10 * acc + (of_char c - 48)) s 0"

lemma of_digit_char: "d < 10 \<Longrightarrow> (of_char (digit_char d) :: nat) = 48 + d"
  by (simp add: digit_char_def)

lemma read_show_nat: "read_digits (show_nat n) = n"
proof (induction n rule: show_nat.induct)
  case (1 n)
  then show ?case
    by (subst show_nat.simps) (auto simp add: of_digit_char read_digits_def)
qed

lemma show_nat_inject [simp]: "show_nat m = show_nat n \<longleftrightarrow> m = n"
  by (metis read_show_nat)

section \<open>Dictionaries\<close>

text \<open>
  A JavaScript Map or plain object: association pairs in insertion order, one per key. Writing an
  existing key keeps its place, writing a new key appends, deleting removes.
\<close>

type_synonym ('k, 'v) dict = "('k \<times> 'v) list"

fun dict_get :: "('k, 'v) dict \<Rightarrow> 'k \<Rightarrow> 'v option" where
  "dict_get [] k = None"
| "dict_get ((k', v) # d) k = (if k' = k then Some v else dict_get d k)"

fun dict_set :: "('k, 'v) dict \<Rightarrow> 'k \<Rightarrow> 'v \<Rightarrow> ('k, 'v) dict" where
  "dict_set [] k v = [(k, v)]"
| "dict_set ((k', w) # d) k v = (if k' = k then (k, v) # d else (k', w) # dict_set d k v)"

definition dict_del :: "('k, 'v) dict \<Rightarrow> 'k \<Rightarrow> ('k, 'v) dict" where
  "dict_del d k = filter (\<lambda>p. fst p \<noteq> k) d"

definition dict_has :: "('k, 'v) dict \<Rightarrow> 'k \<Rightarrow> bool" where
  "dict_has d k \<longleftrightarrow> dict_get d k \<noteq> None"

definition dict_ok :: "('k, 'v) dict \<Rightarrow> bool" where
  "dict_ok d \<longleftrightarrow> distinct (map fst d)"

text \<open>What a client of a dictionary may rely on.\<close>

locale dictionary =
  fixes get :: "'d \<Rightarrow> 'k \<Rightarrow> 'v option"
    and put :: "'d \<Rightarrow> 'k \<Rightarrow> 'v \<Rightarrow> 'd"
    and del :: "'d \<Rightarrow> 'k \<Rightarrow> 'd"
  assumes get_put: "get (put d k v) j = (if j = k then Some v else get d j)"
    and get_del: "get (del d k) j = (if j = k then None else get d j)"
begin

lemma get_put_same: "get (put d k v) k = Some v"
  by (simp add: get_put)

lemma get_put_other: "j \<noteq> k \<Longrightarrow> get (put d k v) j = get d j"
  by (simp add: get_put)

text \<open>Writing a list of pairs in order: a key reads the last value written for it.\<close>

lemma get_fold_put:
  "get (fold (\<lambda>p d. put d (fst p) (snd p)) ps d) k =
     (case map_of (rev ps) k of Some v \<Rightarrow> Some v | None \<Rightarrow> get d k)"
  by (induction ps arbitrary: d) (auto simp add: get_put map_add_def split: option.splits)

lemma get_fold_put_notin:
  "k \<notin> fst ` set ps \<Longrightarrow> get (fold (\<lambda>p d. put d (fst p) (snd p)) ps d) k = get d k"
  by (induction ps arbitrary: d) (auto simp add: get_put)

lemma get_fold_del:
  "get (fold (\<lambda>j d. del d j) ks d) k = (if k \<in> set ks then None else get d k)"
  by (induction ks arbitrary: d) (auto simp add: get_del)

end

lemma dict_get_set [dict_laws]: "dict_get (dict_set d k v) j = (if j = k then Some v else dict_get d j)"
  by (induction d k v rule: dict_set.induct) auto

lemma dict_get_del [dict_laws]: "dict_get (dict_del d k) j = (if j = k then None else dict_get d j)"
  by (induction d) (auto simp add: dict_del_def)

interpretation js_map: dictionary dict_get dict_set dict_del
  by unfold_locales (simp_all add: dict_laws)

lemma dict_get_map_of: "dict_get d k = map_of d k"
  by (induction d k rule: dict_get.induct) auto

lemma dict_values: "dict_ok d \<Longrightarrow> b \<in> set (map snd d) \<longleftrightarrow> (\<exists>k. dict_get d k = Some b)"
  by (force simp add: dict_ok_def dict_get_map_of dest: map_of_SomeD)

lemma dict_set_keys: "fst ` set (dict_set d k v) = insert k (fst ` set d)"
  by (induction d k v rule: dict_set.induct) auto

lemma dict_ok_set: "dict_ok d \<Longrightarrow> dict_ok (dict_set d k v)"
  unfolding dict_ok_def
proof (induction d k v rule: dict_set.induct)
  case (2 k' w d k v)
  then show ?case using dict_set_keys [of d k v] by auto
qed simp

lemma dict_ok_del: "dict_ok d \<Longrightarrow> dict_ok (dict_del d k)"
  by (simp add: dict_ok_def dict_del_def distinct_map_filter)

lemma dict_ok_Nil [simp]: "dict_ok []"
  by (simp add: dict_ok_def)

lemma find_unique: "x \<in> set xs \<Longrightarrow> P x \<Longrightarrow> (\<And>y. y \<in> set xs \<Longrightarrow> P y \<Longrightarrow> y = x) \<Longrightarrow> find P xs = Some x"
proof (induction xs)
  case (Cons a xs)
  show ?case
  proof (cases "P a")
    case True
    with Cons.prems(3) [of a] show ?thesis by simp
  next
    case False
    then have "x \<in> set xs" using Cons.prems(1,2) by auto
    from Cons.IH [OF this Cons.prems(2)] Cons.prems(3) False show ?thesis by simp
  qed
qed simp

section \<open>Exceptions of the language and of the libraries\<close>

datatype js_error = RangeError | TypeError | ErrorMsg string

text \<open>The decimal text of a bigint.\<close>

definition show_int :: "int \<Rightarrow> string" where
  "show_int n = (if n < 0 then ''-'' @ show_nat (nat (- n)) else show_nat (nat n))"

text \<open>The wire amount reads back as the floored atomic amount.\<close>

lemma show_int_nonneg: "0 \<le> n \<Longrightarrow> read_digits (show_int n) = nat n"
  by (simp add: show_int_def read_show_nat)

end
