(* ===== verification/JsNumber.thy ===== *)
theory JsNumber
  imports Prelude
begin

text \<open>
  The JavaScript number: IEEE-754 binary64 with round to nearest, ties to even. A finite number is
  the rational it denotes; the two zeros are one value. The operations compute the exact rational
  result and round it once, as the hardware does, so every bound that is proved about the model
  accounts for rounding, overflow to infinity and NaN.
\<close>

section \<open>Rounding to nearest even\<close>

definition rne :: "rat \<Rightarrow> int" where
  "rne x = (let f = \<lfloor>x\<rfloor>; d = x - of_int f in
     if d < 1/2 then f else if 1/2 < d then f + 1 else if even f then f else f + 1)"

lemma rne_of_int [simp]: "rne (of_int n) = n"
  by (simp add: rne_def Let_def)

lemma rne_bounds: "\<lfloor>x\<rfloor> \<le> rne x" "rne x \<le> \<lfloor>x\<rfloor> + 1"
  by (simp_all add: rne_def Let_def)

lemma rne_mono: assumes "x \<le> y" shows "rne x \<le> rne y"
proof (cases "\<lfloor>x\<rfloor> = \<lfloor>y\<rfloor>")
  case True
  then show ?thesis using assms by (auto simp add: rne_def Let_def)
next
  case False
  then have "\<lfloor>x\<rfloor> + 1 \<le> \<lfloor>y\<rfloor>" using floor_mono [OF assms] by simp
  then show ?thesis using rne_bounds [of x] rne_bounds [of y] by linarith
qed

lemma rne_error: "\<bar>of_int (rne x) - x\<bar> \<le> 1/2"
proof -
  have lo: "of_int \<lfloor>x\<rfloor> \<le> x" and hi: "x < of_int \<lfloor>x\<rfloor> + 1" by linarith+
  have "(rne x = \<lfloor>x\<rfloor> \<and> x - of_int \<lfloor>x\<rfloor> \<le> 1/2) \<or> (rne x = \<lfloor>x\<rfloor> + 1 \<and> 1/2 \<le> x - of_int \<lfloor>x\<rfloor>)"
    unfolding rne_def Let_def by (simp split: if_split)
  then show ?thesis
  proof (elim disjE conjE)
    assume r: "rne x = \<lfloor>x\<rfloor>" and d: "x - of_int \<lfloor>x\<rfloor> \<le> 1/2"
    show ?thesis unfolding r using lo d by linarith
  next
    assume r: "rne x = \<lfloor>x\<rfloor> + 1" and d: "1/2 \<le> x - of_int \<lfloor>x\<rfloor>"
    show ?thesis unfolding r using hi d by simp
  qed
qed

lemma rne_minus: "rne (- x) = - rne x"
proof (cases "x = of_int \<lfloor>x\<rfloor>")
  case True
  then show ?thesis by (metis rne_of_int of_int_minus)
next
  case False
  define f where "f = \<lfloor>x\<rfloor>"
  have lo: "of_int f < x" using False f_def by (metis less_eq_rat_def of_int_floor_le)
  have hi: "x < of_int f + 1" using f_def by linarith
  have neg: "\<lfloor>- x\<rfloor> = - f - 1" using lo hi by (simp add: floor_eq_iff)
  have pos: "\<lfloor>x\<rfloor> = f" by (simp add: f_def)
  show ?thesis unfolding rne_def Let_def neg pos using lo hi by (auto simp add: field_simps)
qed

lemma rne_nonneg: "0 \<le> x \<Longrightarrow> 0 \<le> rne x"
  using rne_mono [of 0 x] rne_of_int [of 0] by simp

section \<open>The binary exponent\<close>

fun bits :: "nat \<Rightarrow> nat" where
  "bits n = (if n = 0 then 0 else Suc (bits (n div 2)))"

declare bits.simps [simp del]

lemma bits_zero [simp, js_eval]: "bits 0 = 0"
  by (simp add: bits.simps)

lemma bits_numeral [js_eval]: "bits (numeral k) = Suc (bits (numeral k div 2))"
  by (simp add: bits.simps [of "numeral k"])

lemma bits_one [js_eval]: "bits (Suc 0) = 1" "bits 1 = 1"
  by (simp_all add: bits.simps [of "Suc 0"])

lemma bits_upper: "n < 2 ^ bits n"
proof (induction n rule: bits.induct)
  case (1 n)
  show ?case
  proof (cases "n = 0")
    case False
    with 1 have "n div 2 < 2 ^ bits (n div 2)" by simp
    then have "n < 2 * 2 ^ bits (n div 2)" by linarith
    with False show ?thesis by (simp add: bits.simps [of n])
  qed simp
qed

lemma bits_lower: "0 < n \<Longrightarrow> 2 ^ (bits n - 1) \<le> n"
proof (induction n rule: bits.induct)
  case (1 n)
  show ?case
  proof (cases "n = 1")
    case True
    then show ?thesis by (simp add: js_eval)
  next
    case False
    with 1 have pos: "0 < n div 2" by auto
    with 1 have ih: "2 ^ (bits (n div 2) - 1) \<le> n div 2" by auto
    obtain b where b: "bits (n div 2) = Suc b"
      using pos by (simp add: bits.simps [of "n div 2"])
    from ih b have "2 * 2 ^ b \<le> n" by simp
    with 1 b show ?thesis by (simp add: bits.simps [of n])
  qed
qed

text \<open>The exponent of the binade a non-zero rational lies in.\<close>

definition expo :: "rat \<Rightarrow> int" where
  "expo q = (let a = \<bar>q\<bar> in
     if 1 \<le> a then int (bits (nat \<lfloor>a\<rfloor>)) - 1 else - int (bits (nat (\<lceil>1 / a\<rceil> - 1))))"

lemma expo_minus [simp]: "expo (- q) = expo q"
  by (simp add: expo_def)

lemma expo_bounds:
  assumes "0 < q"
  shows "2 powi expo q \<le> q" and "q < 2 powi (expo q + 1)"
proof -
  have "2 powi expo q \<le> q \<and> q < 2 powi (expo q + 1)"
  proof (cases "1 \<le> q")
    case True
    define n where "n = nat \<lfloor>q\<rfloor>"
    have n: "0 < n" "of_nat n \<le> q" "q < of_nat n + 1"
      using True by (simp_all add: n_def) linarith+
    obtain b where b: "bits n = Suc b" using n(1) by (simp add: bits.simps [of n])
    have e: "expo q = int b" using True assms b by (simp add: expo_def Let_def n_def)
    have "(2::rat) ^ b \<le> of_nat n"
      using bits_lower [OF n(1)] b by (metis diff_Suc_1 of_nat_le_iff of_nat_numeral of_nat_power)
    moreover have "(of_nat n :: rat) + 1 \<le> 2 ^ Suc b"
      using bits_upper [of n] b by (metis Suc_leI of_nat_Suc of_nat_le_iff of_nat_numeral of_nat_power add.commute)
    ultimately have "2 ^ b \<le> q" and "q < 2 ^ Suc b" using n by linarith+
    moreover have "(2::rat) powi expo q = 2 ^ b" "(2::rat) powi (expo q + 1) = 2 ^ Suc b"
      unfolding e by (simp_all add: power_int_add power_int_of_nat)
    ultimately show ?thesis by simp
  next
    case False
    define n where "n = nat (\<lceil>1 / q\<rceil> - 1)"
    have gt: "1 < 1 / q" using False assms by simp
    then have c: "1 < \<lceil>1 / q\<rceil>" by (simp add: less_ceiling_iff)
    have n: "0 < n" "of_nat n < 1 / q" "1 / q \<le> of_nat n + 1"
      using c by (simp_all add: n_def) linarith+
    obtain b where b: "bits n = Suc b" using n(1) by (simp add: bits.simps [of n])
    have e: "expo q = - int (Suc b)" using False assms b by (simp add: expo_def Let_def n_def)
    have "(2::rat) ^ b \<le> of_nat n"
      using bits_lower [OF n(1)] b by (metis diff_Suc_1 of_nat_le_iff of_nat_numeral of_nat_power)
    then have lo: "2 ^ b < 1 / q" using n by linarith
    have "(of_nat n :: rat) + 1 \<le> 2 ^ Suc b"
      using bits_upper [of n] b by (metis Suc_leI of_nat_Suc of_nat_le_iff of_nat_numeral of_nat_power add.commute)
    then have hi: "1 / q \<le> 2 ^ Suc b" using n by linarith
    have "1 / (2::rat) ^ Suc b \<le> q" using hi assms by (simp add: field_simps)
    moreover have "q < 1 / 2 ^ b" using lo assms by (simp add: field_simps)
    moreover have "(2::rat) powi expo q = 1 / 2 ^ Suc b"
      unfolding e by (simp add: power_int_minus power_int_of_nat inverse_eq_divide del: of_nat_Suc)
    moreover have "(2::rat) powi (expo q + 1) = 1 / 2 ^ b"
      unfolding e by (simp add: power_int_minus power_int_of_nat inverse_eq_divide)
    ultimately show ?thesis by simp
  qed
  then show "2 powi expo q \<le> q" and "q < 2 powi (expo q + 1)" by auto
qed

lemma powi_two_mono: "a \<le> b \<Longrightarrow> (2::rat) powi a \<le> 2 powi b"
  by (simp add: power_int_increasing)

lemma expo_mono: assumes "0 < q" "q \<le> r" shows "expo q \<le> expo r"
proof (rule ccontr)
  assume "\<not> expo q \<le> expo r"
  then have "expo r + 1 \<le> expo q" by simp
  then have "(2::rat) powi (expo r + 1) \<le> 2 powi expo q" by (rule powi_two_mono)
  then show False using expo_bounds(1) [of q] expo_bounds(2) [of r] assms by linarith
qed

section \<open>Numbers and the rounding of a rational\<close>

datatype jsnum = NaN | PInf | NInf | Num rat

text \<open>The distance between the doubles of the binade of q, not below the subnormal spacing.\<close>

definition ulp :: "rat \<Rightarrow> rat" where
  "ulp q = 2 powi (max (expo q) (- 1022) - 52)"

definition rnd :: "rat \<Rightarrow> rat" where
  "rnd q = (if q = 0 then 0 else of_int (rne (q / ulp q)) * ulp q)"

definition fl :: "rat \<Rightarrow> jsnum" where
  "fl q = (let r = rnd q in
     if 2 ^ 1024 \<le> r then PInf else if r \<le> - (2 ^ 1024) then NInf else Num r)"

text \<open>The finite doubles: at most 53 bits of significand, an exponent of at least -1074.\<close>

definition is_double :: "rat \<Rightarrow> bool" where
  "is_double q \<longleftrightarrow> (\<exists>m e. q = of_int m * 2 powi e \<and> \<bar>m\<bar> < 2 ^ 53 \<and> - 1074 \<le> e)"

lemma ulp_pos [simp]: "0 < ulp q"
  by (simp add: ulp_def)

lemma ulp_nonneg [simp]: "0 \<le> ulp q" "\<bar>ulp q\<bar> = ulp q" "ulp q \<noteq> 0"
  using ulp_pos [of q] by (simp_all add: less_imp_le del: ulp_pos)

lemma ulp_minus [simp]: "ulp (- q) = ulp q"
  by (simp add: ulp_def)

lemma rnd_zero [simp]: "rnd 0 = 0"
  by (simp add: rnd_def)

lemma rnd_minus: "rnd (- q) = - rnd q"
  using rne_minus [of "q / ulp q"] by (simp add: rnd_def)

lemma powi_is_multiple:
  assumes "a \<le> b" shows "(2::rat) powi b = of_int (2 ^ nat (b - a)) * 2 powi a"
proof -
  have "(2::rat) powi b = 2 powi (b - a) * 2 powi a" by (simp add: power_int_add [symmetric])
  moreover have "(2::rat) powi (b - a) = of_int (2 ^ nat (b - a))"
    using assms power_int_of_nat [of "2::rat" "nat (b - a)"] by simp
  ultimately show ?thesis by simp
qed

text \<open>A multiple of the spacing is its own rounding.\<close>

lemma rnd_multiple:
  assumes "q = of_int k * ulp q" shows "rnd q = q"
proof (cases "q = 0")
  case False
  have "q / ulp q = of_int k" using assms ulp_pos [of q] by (metis less_irrefl nonzero_mult_div_cancel_right)
  then have "rne (q / ulp q) = k" by simp
  then show ?thesis using assms False by (simp add: rnd_def)
qed simp

lemma expo_lt_of_bound:
  assumes "0 < q" "q < 2 powi e" shows "expo q < e"
proof (rule ccontr)
  assume "\<not> expo q < e"
  then have "(2::rat) powi e \<le> 2 powi expo q" by (simp add: powi_two_mono)
  then show False using expo_bounds(1) [OF assms(1)] assms(2) by linarith
qed

lemma rnd_double:
  assumes "is_double q" shows "rnd q = q"
proof (cases "q = 0")
  case False
  obtain m e where q: "q = of_int m * 2 powi e" and m: "\<bar>m\<bar> < 2 ^ 53" and e: "- 1074 \<le> e"
    using assms by (auto simp add: is_double_def)
  have "\<bar>q\<bar> = of_int \<bar>m\<bar> * 2 powi e" by (simp add: q abs_mult)
  also have "\<dots> < 2 ^ 53 * 2 powi e"
    using m by (metis mult_less_cancel_right_pos of_int_less_iff of_int_numeral of_int_power zero_less_numeral zero_less_power_int)
  also have "\<dots> = 2 powi (53 + e)"
    using power_int_of_nat [of "2::rat" 53] by (simp add: power_int_add)
  finally have "\<bar>q\<bar> < 2 powi (53 + e)" .
  then have "expo \<bar>q\<bar> < 53 + e" using False by (intro expo_lt_of_bound) simp_all
  then have "max (expo q) (- 1022) - 52 \<le> e"
    using e by (cases "0 \<le> q") (simp_all add: abs_if split: if_splits)
  from powi_is_multiple [OF this]
  have "q = of_int (m * 2 ^ nat (e - (max (expo q) (- 1022) - 52))) * ulp q"
    by (simp add: q [symmetric] ulp_def) (simp add: q)
  then show ?thesis by (rule rnd_multiple)
qed simp

lemma rnd_mono_pos:
  assumes q: "0 < q" and qr: "q \<le> r" shows "rnd q \<le> rnd r"
proof (cases "max (expo q) (- 1022) = max (expo r) (- 1022)")
  case True
  then have u: "ulp q = ulp r" by (simp add: ulp_def)
  have "q / ulp r \<le> r / ulp r" using qr by (intro divide_right_mono) simp_all
  then have "rne (q / ulp r) \<le> rne (r / ulp r)" by (rule rne_mono)
  then show ?thesis using q qr u ulp_pos [of r] by (simp add: rnd_def)
next
  case False
  let ?M = "max (expo q) (- 1022)"
  have er: "?M + 1 \<le> expo r" "expo r = max (expo r) (- 1022)"
    using False expo_mono [OF q qr] by auto
  define B :: rat where "B = 2 powi (?M + 1)"
  define C :: rat where "C = 2 powi (expo r)"
  have "q < 2 powi (expo q + 1)" using expo_bounds(2) [OF q] .
  also have "\<dots> \<le> B" unfolding B_def by (rule powi_two_mono) simp
  finally have qB: "q / ulp q \<le> B / ulp q" by (intro divide_right_mono) simp_all
  obtain k where "B = of_int k * ulp q"
    using powi_is_multiple [of "?M - 52" "?M + 1"] by (auto simp add: B_def ulp_def)
  then have k: "B / ulp q = of_int k" using ulp_pos [of q] by (simp add: less_imp_neq [symmetric])
  have "rne (q / ulp q) \<le> k" using rne_mono [OF qB] k by simp
  then have "rnd q \<le> of_int k * ulp q" using q by (simp add: rnd_def)
  also have "\<dots> = B" using k ulp_pos [of q] by (simp add: field_simps)
  also have "\<dots> \<le> C" unfolding B_def C_def by (rule powi_two_mono) (rule er(1))
  also have "\<dots> \<le> rnd r"
  proof -
    obtain j where "C = of_int j * ulp r"
      using powi_is_multiple [of "expo r - 52" "expo r"] er(2) by (auto simp add: C_def ulp_def)
    then have j: "C / ulp r = of_int j" using ulp_pos [of r] by (simp add: less_imp_neq [symmetric])
    have "C \<le> r" unfolding C_def using expo_bounds(1) [of r] q qr by simp
    then have "C / ulp r \<le> r / ulp r" by (intro divide_right_mono) simp_all
    from rne_mono [OF this] j have "j \<le> rne (r / ulp r)" by simp
    then have "of_int j * ulp r \<le> rnd r" using q qr by (simp add: rnd_def)
    then show ?thesis using j ulp_pos [of r] by (simp add: field_simps)
  qed
  finally show ?thesis .
qed

lemma rnd_nonneg: "0 \<le> q \<Longrightarrow> 0 \<le> rnd q"
  by (simp add: rnd_def rne_nonneg less_imp_le)

lemma rnd_mono: assumes "q \<le> r" shows "rnd q \<le> rnd r"
proof (cases "0 < q")
  case True
  then show ?thesis using assms by (rule rnd_mono_pos)
next
  case False
  then have "rnd q \<le> 0" using rnd_nonneg [of "- q"] by (simp add: rnd_minus)
  show ?thesis
  proof (cases "0 \<le> r")
    case True
    then show ?thesis using rnd_nonneg [of r] \<open>rnd q \<le> 0\<close> by linarith
  next
    case False
    then have "rnd (- r) \<le> rnd (- q)" using assms by (intro rnd_mono_pos) auto
    then show ?thesis by (simp add: rnd_minus)
  qed
qed

lemma rnd_error: "\<bar>rnd q - q\<bar> \<le> ulp q / 2"
proof (cases "q = 0")
  case True
  then show ?thesis using ulp_pos [of 0] by (simp add: less_imp_le)
next
  case False
  have "rnd q - q = (of_int (rne (q / ulp q)) - q / ulp q) * ulp q"
    using False ulp_pos [of q] by (simp add: rnd_def field_simps less_imp_neq [symmetric])
  then have "\<bar>rnd q - q\<bar> = \<bar>of_int (rne (q / ulp q)) - q / ulp q\<bar> * ulp q"
    by (simp only: abs_mult ulp_nonneg)
  also have "\<dots> \<le> (1/2) * ulp q"
    using rne_error ulp_pos [of q] by (intro mult_right_mono) (simp_all add: less_imp_le)
  finally show ?thesis by simp
qed

lemma is_double_of_int: assumes "\<bar>n\<bar> \<le> 2 ^ 53" shows "is_double (of_int n)"
proof (cases "\<bar>n\<bar> = 2 ^ 53")
  case True
  then have "n = 2 ^ 53 \<or> n = - (2 ^ 53)" by linarith
  moreover have "(2::rat) powi 1 = 2" by simp
  ultimately show ?thesis unfolding is_double_def
    by (elim disjE) (rule exI [of _ "2 ^ 52"], rule exI [of _ 1], simp,
        rule exI [of _ "- (2 ^ 52)"], rule exI [of _ 1], simp)
next
  case False
  then have "\<bar>n\<bar> < 2 ^ 53" using assms by linarith
  then show ?thesis unfolding is_double_def
    by (intro exI [of _ n] exI [of _ 0] conjI) simp_all
qed

lemma rnd_of_int: "\<bar>n\<bar> \<le> 2 ^ 53 \<Longrightarrow> rnd (of_int n) = of_int n"
  by (simp add: rnd_double is_double_of_int)

lemma is_double_minus: assumes "is_double q" shows "is_double (- q)"
proof -
  obtain m e where "q = of_int m * 2 powi e" "\<bar>m\<bar> < 2 ^ 53" "- 1074 \<le> e"
    using assms by (auto simp add: is_double_def)
  then have "- q = of_int (- m) * 2 powi e" "\<bar>- m\<bar> < 2 ^ 53" "- 1074 \<le> e" by simp_all
  then show ?thesis unfolding is_double_def by blast
qed

section \<open>Comparison\<close>

text \<open>The relational operators: every comparison with NaN is false.\<close>

fun js_lt :: "jsnum \<Rightarrow> jsnum \<Rightarrow> bool" where
  "js_lt (Num a) (Num b) \<longleftrightarrow> a < b"
| "js_lt NInf (Num b) \<longleftrightarrow> True"
| "js_lt NInf PInf \<longleftrightarrow> True"
| "js_lt (Num a) PInf \<longleftrightarrow> True"
| "js_lt _ _ \<longleftrightarrow> False"

definition js_eq :: "jsnum \<Rightarrow> jsnum \<Rightarrow> bool" where
  "js_eq x y \<longleftrightarrow> x = y \<and> x \<noteq> NaN"

definition js_le :: "jsnum \<Rightarrow> jsnum \<Rightarrow> bool" where
  "js_le x y \<longleftrightarrow> js_lt x y \<or> js_eq x y"

abbreviation js_gt :: "jsnum \<Rightarrow> jsnum \<Rightarrow> bool" where "js_gt x y \<equiv> js_lt y x"
abbreviation js_ge :: "jsnum \<Rightarrow> jsnum \<Rightarrow> bool" where "js_ge x y \<equiv> js_le y x"

fun is_finite :: "jsnum \<Rightarrow> bool" where
  "is_finite (Num q) \<longleftrightarrow> True"
| "is_finite _ \<longleftrightarrow> False"

definition is_integer :: "jsnum \<Rightarrow> bool" where
  "is_integer x = (case x of Num q \<Rightarrow> of_int \<lfloor>q\<rfloor> = q | _ \<Rightarrow> False)"

text \<open>The value of a number in a condition: false for zero and NaN.\<close>

definition truthy :: "jsnum \<Rightarrow> bool" where
  "truthy x \<longleftrightarrow> x \<noteq> NaN \<and> x \<noteq> Num 0"

lemma js_le_simps [simp]:
  "js_le (Num a) (Num b) \<longleftrightarrow> a \<le> b" "js_le NInf PInf" "js_le (Num a) PInf" "js_le NInf (Num b)"
  "js_le PInf PInf" "js_le NInf NInf" "\<not> js_le NaN x" "\<not> js_le x NaN"
  "\<not> js_le PInf (Num a)" "\<not> js_le (Num a) NInf" "\<not> js_le PInf NInf"
  by (auto simp add: js_le_def js_eq_def)

lemma js_eq_simps [simp]:
  "js_eq (Num a) (Num b) \<longleftrightarrow> a = b" "\<not> js_eq NaN x" "\<not> js_eq x NaN"
  by (auto simp add: js_eq_def)

lemma js_lt_NaN [simp]: "\<not> js_lt NaN x" "\<not> js_lt x NaN"
  by (cases x; simp)+

lemma js_le_infinities: "js_le NInf x \<longleftrightarrow> x \<noteq> NaN" "js_le x PInf \<longleftrightarrow> x \<noteq> NaN"
  by (cases x; simp)+

lemma js_le_refl: "x \<noteq> NaN \<Longrightarrow> js_le x x"
  by (simp add: js_le_def js_eq_def)

lemma js_le_trans: "js_le x y \<Longrightarrow> js_le y z \<Longrightarrow> js_le x z"
  by (cases x; cases y; cases z) auto

lemma js_lt_le_trans: "js_lt x y \<Longrightarrow> js_le y z \<Longrightarrow> js_lt x z"
  by (cases x; cases y; cases z) auto

lemma js_le_lt_trans: "js_le x y \<Longrightarrow> js_lt y z \<Longrightarrow> js_lt x z"
  by (cases x; cases y; cases z) auto

lemma js_lt_imp_le: "js_lt x y \<Longrightarrow> js_le x y"
  by (simp add: js_le_def)

lemma js_not_lt: "x \<noteq> NaN \<Longrightarrow> y \<noteq> NaN \<Longrightarrow> \<not> js_lt x y \<longleftrightarrow> js_le y x"
  by (cases x; cases y) auto

section \<open>Arithmetic\<close>

fun js_neg :: "jsnum \<Rightarrow> jsnum" where
  "js_neg NaN = NaN"
| "js_neg PInf = NInf"
| "js_neg NInf = PInf"
| "js_neg (Num a) = Num (- a)"

fun js_add :: "jsnum \<Rightarrow> jsnum \<Rightarrow> jsnum" where
  "js_add (Num a) (Num b) = fl (a + b)"
| "js_add NaN _ = NaN"
| "js_add _ NaN = NaN"
| "js_add PInf NInf = NaN"
| "js_add NInf PInf = NaN"
| "js_add PInf _ = PInf"
| "js_add _ PInf = PInf"
| "js_add NInf _ = NInf"
| "js_add _ NInf = NInf"

definition js_sub :: "jsnum \<Rightarrow> jsnum \<Rightarrow> jsnum" where
  "js_sub x y = js_add x (js_neg y)"

definition inf_of_sign :: "rat \<Rightarrow> jsnum" where
  "inf_of_sign q = (if q = 0 then NaN else if 0 < q then PInf else NInf)"

fun js_mul :: "jsnum \<Rightarrow> jsnum \<Rightarrow> jsnum" where
  "js_mul (Num a) (Num b) = fl (a * b)"
| "js_mul NaN _ = NaN"
| "js_mul _ NaN = NaN"
| "js_mul PInf (Num b) = inf_of_sign b"
| "js_mul (Num a) PInf = inf_of_sign a"
| "js_mul NInf (Num b) = inf_of_sign (- b)"
| "js_mul (Num a) NInf = inf_of_sign (- a)"
| "js_mul PInf PInf = PInf"
| "js_mul NInf NInf = PInf"
| "js_mul _ _ = NInf"

fun js_div :: "jsnum \<Rightarrow> jsnum \<Rightarrow> jsnum" where
  "js_div (Num a) (Num b) = (if b = 0 then inf_of_sign a else fl (a / b))"
| "js_div NaN _ = NaN"
| "js_div _ NaN = NaN"
| "js_div (Num a) _ = Num 0"
| "js_div PInf (Num b) = (if b < 0 then NInf else PInf)"
| "js_div NInf (Num b) = (if b < 0 then PInf else NInf)"
| "js_div _ _ = NaN"

fun js_floor :: "jsnum \<Rightarrow> jsnum" where
  "js_floor (Num a) = Num (of_int \<lfloor>a\<rfloor>)"
| "js_floor x = x"

fun js_ceil :: "jsnum \<Rightarrow> jsnum" where
  "js_ceil (Num a) = Num (of_int \<lceil>a\<rceil>)"
| "js_ceil x = x"

text \<open>Math.round rounds halves towards plus infinity.\<close>

fun js_round :: "jsnum \<Rightarrow> jsnum" where
  "js_round (Num a) = Num (of_int \<lfloor>a + 1/2\<rfloor>)"
| "js_round x = x"

fun js_abs :: "jsnum \<Rightarrow> jsnum" where
  "js_abs (Num a) = Num \<bar>a\<bar>"
| "js_abs NaN = NaN"
| "js_abs _ = PInf"

definition js_min :: "jsnum \<Rightarrow> jsnum \<Rightarrow> jsnum" where
  "js_min x y = (if x = NaN \<or> y = NaN then NaN else if js_lt y x then y else x)"

definition js_max :: "jsnum \<Rightarrow> jsnum \<Rightarrow> jsnum" where
  "js_max x y = (if x = NaN \<or> y = NaN then NaN else if js_lt x y then y else x)"

text \<open>The power 10 ** k for a natural exponent, correctly rounded.\<close>

definition js_pow10 :: "nat \<Rightarrow> jsnum" where
  "js_pow10 k = fl (10 ^ k)"

section \<open>Laws of the rounded operations\<close>

lemma fl_zero [simp, js_eval]: "fl 0 = Num 0"
  by (simp add: fl_def)

lemma fl_not_NaN [simp]: "fl q \<noteq> NaN"
  by (simp add: fl_def Let_def)

lemma fl_double: "is_double q \<Longrightarrow> \<bar>q\<bar> < 2 ^ 1024 \<Longrightarrow> fl q = Num q"
  by (simp add: fl_def Let_def rnd_double abs_less_iff del: power_numeral)

lemma pow53_lt_pow1024: "(2::rat) ^ 53 < 2 ^ 1024"
  by (rule power_strict_increasing) simp_all

lemma fl_of_int:
  assumes "\<bar>n\<bar> \<le> 2 ^ 53" shows "fl (of_int n) = Num (of_int n)"
proof (rule fl_double [OF is_double_of_int [OF assms]])
  have "\<bar>of_int n :: rat\<bar> \<le> 2 ^ 53"
    using assms by (metis of_int_abs of_int_le_iff of_int_numeral of_int_power)
  then show "\<bar>of_int n :: rat\<bar> < 2 ^ 1024" using pow53_lt_pow1024 by (rule le_less_trans)
qed

lemma fl_numeral [js_eval]: "(numeral k :: int) \<le> 2 ^ 53 \<Longrightarrow> fl (numeral k) = Num (numeral k)"
  using fl_of_int [of "numeral k"] by simp

lemma fl_neg_numeral [js_eval]: "(numeral k :: int) \<le> 2 ^ 53 \<Longrightarrow> fl (- numeral k) = Num (- numeral k)"
  using fl_of_int [of "- numeral k"] by simp

lemma fl_one [js_eval]: "fl 1 = Num 1" "fl (- 1) = Num (- 1)"
  using fl_of_int [of 1] fl_of_int [of "- 1"] by simp_all

lemma fl_mono: assumes "q \<le> r" shows "js_le (fl q) (fl r)"
proof -
  define B :: rat where "B = 2 ^ 1024"
  have "0 < B" by (simp add: B_def)
  then show ?thesis using rnd_mono [OF assms] unfolding fl_def Let_def B_def [symmetric] by auto
qed

lemma fl_minus: "fl (- q) = js_neg (fl q)"
proof -
  define B :: rat where "B = 2 ^ 1024"
  have "0 < B" by (simp add: B_def)
  then show ?thesis unfolding fl_def Let_def B_def [symmetric] by (auto simp add: rnd_minus)
qed

lemma js_le_0_fl: "0 \<le> q \<Longrightarrow> js_le (Num 0) (fl q)"
  using fl_mono [of 0 q] by simp

lemma js_fl_le_0: "q \<le> 0 \<Longrightarrow> js_le (fl q) (Num 0)"
  using fl_mono [of q 0] by simp

text \<open>Rounding stays below (above) every double above (below) the exact value.\<close>

lemma fl_le_double: "q \<le> d \<Longrightarrow> fl d = Num d \<Longrightarrow> js_le (fl q) (Num d)"
  using fl_mono [of q d] by simp

lemma fl_ge_double: "d \<le> q \<Longrightarrow> fl d = Num d \<Longrightarrow> js_le (Num d) (fl q)"
  using fl_mono [of d q] by simp

lemma js_mul_nonneg: "js_le (Num 0) x \<Longrightarrow> js_le (Num 0) y \<Longrightarrow> js_mul x y \<noteq> NaN \<Longrightarrow> js_le (Num 0) (js_mul x y)"
  by (cases x; cases y) (auto simp add: inf_of_sign_def js_le_0_fl split: if_splits)

lemma js_add_nonneg: "js_le (Num 0) x \<Longrightarrow> js_le (Num 0) y \<Longrightarrow> js_le (Num 0) (js_add x y)"
  by (cases x; cases y) (auto simp add: js_le_0_fl)

lemma js_add_commute: "js_add x y = js_add y x"
  by (cases x; cases y) (auto simp add: add.commute)

lemma js_mul_commute: "js_mul x y = js_mul y x"
  by (cases x; cases y) (auto simp add: mult.commute)

lemma js_add_mono:
  "js_le x x' \<Longrightarrow> js_add x y \<noteq> NaN \<Longrightarrow> js_add x' y \<noteq> NaN \<Longrightarrow> js_le (js_add x y) (js_add x' y)"
  by (cases x; cases x'; cases y) (simp_all add: fl_mono js_le_refl js_le_infinities)

lemma js_min_le: "x \<noteq> NaN \<Longrightarrow> y \<noteq> NaN \<Longrightarrow> js_le (js_min x y) x \<and> js_le (js_min x y) y"
  by (cases x; cases y) (auto simp add: js_min_def)

lemma js_max_ge: "x \<noteq> NaN \<Longrightarrow> y \<noteq> NaN \<Longrightarrow> js_le x (js_max x y) \<and> js_le y (js_max x y)"
  by (cases x; cases y) (auto simp add: js_max_def)

section \<open>Bigint\<close>

text \<open>BigInt(x) throws a RangeError unless x is an integral number.\<close>

definition to_bigint :: "jsnum \<Rightarrow> (js_error, int) result" where
  "to_bigint x = (case x of Num q \<Rightarrow> if of_int \<lfloor>q\<rfloor> = q then Inr \<lfloor>q\<rfloor> else Inl RangeError | _ \<Rightarrow> Inl RangeError)"

text \<open>Powers of ten with an integral exponent, correctly rounded.\<close>

definition js_pow10_int :: "int \<Rightarrow> jsnum" where
  "js_pow10_int k = fl (10 powi k)"

lemma to_bigint_Inr_iff [result_simps]: "to_bigint x = Inr n \<longleftrightarrow> x = Num (of_int n)"
  by (cases x) (auto simp add: to_bigint_def)

lemma to_bigint_Inl_iff [result_simps]: "to_bigint x = Inl e \<longleftrightarrow> e = RangeError \<and> \<not> is_integer x"
  by (cases x) (auto simp add: to_bigint_def is_integer_def)

lemma js_floor_integer: "is_finite x \<longleftrightarrow> is_integer (js_floor x)"
  by (cases x) (simp_all add: is_integer_def)

section \<open>Scaling by an integer and back\<close>

lemma rnd_relative:
  assumes "2 powi (- 1022) \<le> q"
  shows "\<bar>rnd q - q\<bar> \<le> q / 2 ^ 53"
proof -
  have pos: "0 < q" using assms zero_less_power_int [of "2::rat" "- 1022"] by linarith
  have "- 1022 \<le> expo q"
  proof (rule ccontr)
    assume "\<not> - 1022 \<le> expo q"
    then have "(2::rat) powi (expo q + 1) \<le> 2 powi (- 1022)" by (intro powi_two_mono) simp
    then show False using expo_bounds(2) [OF pos] assms by linarith
  qed
  then have "ulp q = 2 powi (expo q + (- 52))" by (simp add: ulp_def max_def)
  also have "\<dots> = 2 powi expo q * 2 powi (- 52)" by (rule power_int_add) simp
  also have "(2::rat) powi (- 52) = 1 / 2 ^ 52" by (simp only: power_int_minus power_int_numeral inverse_eq_divide)
  finally have "ulp q / 2 = 2 powi expo q / 2 ^ 53" by simp
  also have "\<dots> \<le> q / 2 ^ 53" using expo_bounds(1) [OF pos] by (intro divide_right_mono) simp_all
  finally have "ulp q / 2 \<le> q / 2 ^ 53" .
  then show ?thesis using rnd_error [of q] by linarith
qed

lemma is_double_eighth: "\<bar>m\<bar> < 2 ^ 53 \<Longrightarrow> is_double (of_int m / 8)"
  unfolding is_double_def by (intro exI [of _ m] exI [of _ "- 3"]) (simp add: power_int_minus)

lemma js_round_near:
  assumes "js_le (Num (of_int n - 1/8)) x" "js_le x (Num (of_int n + 1/8))"
  shows "js_round x = Num (of_int n)"
proof -
  obtain r where r: "x = Num r" using assms by (cases x) (auto simp add: js_le_def js_eq_def)
  then have "of_int n - 1/8 \<le> r" "r \<le> of_int n + 1/8" using assms by simp_all
  then have "\<lfloor>r + 1/2\<rfloor> = n" by (intro floor_unique) linarith+
  then show ?thesis by (simp add: r)
qed

text \<open>Dividing by a power and multiplying it back loses less than half a unit.\<close>

lemma scaled_roundtrip:
  assumes n: "1 \<le> n" "n \<le> 2 ^ 49" and p: "1 \<le> p" "p \<le> 2 ^ 53"
  shows "js_round (js_mul (js_div (Num (of_int n)) (Num (of_int p))) (Num (of_int p))) = Num (of_int n)"
proof -
  define q where "q = (of_int n / of_int p :: rat)"
  have P: "(1::rat) \<le> of_int p" "(of_int p :: rat) \<le> 2 ^ 53"
    using p by (simp, metis of_int_le_iff of_int_numeral of_int_power)
  have N: "(1::rat) \<le> of_int n" "(of_int n :: rat) \<le> 2 ^ 49"
    using n by (simp, metis of_int_le_iff of_int_numeral of_int_power)
  have N53: "(of_int n :: rat) + 1 < 2 ^ 53" using N(2) by simp
  have qp: "q * of_int p = of_int n" using P(1) by (simp add: q_def)
  have "(2::rat) powi (- 1022) \<le> 2 powi (- 53)" by (rule powi_two_mono) simp
  also have "\<dots> = 1 / 2 ^ 53" by (simp only: power_int_minus power_int_numeral inverse_eq_divide)
  also have "\<dots> \<le> 1 / of_int p" using P by (intro divide_left_mono) auto
  also have "\<dots> \<le> q" unfolding q_def using N(1) P(1) by (intro divide_right_mono) auto
  finally have lo: "2 powi (- 1022) \<le> q" .
  have "0 \<le> q" using N(1) P(1) by (simp add: q_def)
  have "q * 1 \<le> q * of_int p" using P(1) \<open>0 \<le> q\<close> by (intro mult_left_mono) simp_all
  then have "q \<le> of_int n" using qp by simp
  then have "rnd q \<le> of_int n" using rnd_mono [of q "of_int n"] rnd_of_int [of n] n by simp
  moreover obtain B :: rat where B: "2 ^ 1024 = B" by blast
  moreover have "2 ^ 53 < B" using pow53_lt_pow1024 unfolding B .
  ultimately have "rnd q < 2 ^ 1024" "- (2 ^ 1024) < rnd q"
    using N53 rnd_nonneg [OF \<open>0 \<le> q\<close>] unfolding B by (linarith, linarith)
  then have fq: "fl q = Num (rnd q)" by (simp add: fl_def Let_def)
  have "\<bar>rnd q * of_int p - of_int n\<bar> = \<bar>rnd q - q\<bar> * of_int p"
    using P(1) by (simp add: qp [symmetric] left_diff_distrib [symmetric] abs_mult)
  also have "\<dots> \<le> q / 2 ^ 53 * of_int p" using rnd_relative [OF lo] P(1) by (intro mult_right_mono) simp_all
  also have "\<dots> = of_int n / 2 ^ 53" using qp by (simp add: field_simps)
  also have "\<dots> \<le> 1/8" using N(2) by simp
  finally have b: "of_int n - 1/8 \<le> rnd q * of_int p" "rnd q * of_int p \<le> of_int n + 1/8" by linarith+
  have d: "is_double (of_int n - 1/8)" "is_double (of_int n + 1/8)"
    using is_double_eighth [of "8 * n - 1"] is_double_eighth [of "8 * n + 1"] n by (simp_all add: field_simps)
  have f: "fl (of_int n - 1/8) = Num (of_int n - 1/8)" "fl (of_int n + 1/8) = Num (of_int n + 1/8)"
    using N(1) N53 \<open>2 ^ 53 < B\<close> by (intro fl_double d; unfold B; linarith)+
  show ?thesis using js_round_near [OF fl_ge_double [OF b(1) f(1)] fl_le_double [OF b(2) f(2)]] P(1)
    by (simp add: q_def [symmetric] fq)
qed
end
