(* ===== verification/Types.thy ===== *)
theory Types
  imports JsNumber
begin

text \<open>
  The automation schema of src/src/lib/types.ts: tokens, assets, oracles, triggers and actions,
  their in-flight drafts, cadence, chain links, and the helpers that clamp durations and decide
  whether a draft is complete. A public key is its base58 text. An absent or null field is None.
\<close>

type_synonym pubkey = string

section \<open>Tokens, assets and oracles\<close>

datatype metadata_source = Canonical | Devnet | Mainnet | Manual

record tokenRef =
  tr_mint :: string
  tr_symbol :: string
  tr_name :: string
  tr_logo :: "string option"
  tr_decimals :: nat
  tr_metadataSource :: metadata_source
  tr_tokenProgram :: "string option"

datatype assetClass = Crypto | Equity | Commodity | FX | Metal

record assetRef =
  as_symbol :: string
  as_displaySymbol :: string
  as_name :: string
  as_class :: assetClass
  as_logo :: "string option"
  as_mint :: "string option"
  as_decimals :: "nat option"
  as_metadataSource :: "metadata_source option"

datatype quoteRef = QuoteUsd | QuoteAsset assetRef

datatype 'a specificOrAny = Specific 'a | AnyValue

datatype oracleSource =
  OraclePyth string string "bool option"
| OracleJupiter string string
| OracleSwitchboard string

section \<open>Triggers and actions\<close>

datatype comparator = Above | Below
datatype amountDirection = AtLeast | AtMost
datatype timeUnit = Minutes | Hours | Days
datatype fillDirection = Grow | Drop

datatype trigger =
  AssetPrice assetRef quoteRef comparator jsnum oracleSource
| AccountTransfer string "tokenRef specificOrAny"
| AccountSwap string "tokenRef specificOrAny" "jsnum specificOrAny" amountDirection
| TimeElapsed jsnum timeUnit
| PriceRelativeToFill pubkey fillDirection jsnum

datatype triggerKind = KAssetPrice | KAccountTransfer | KAccountSwap | KTimeElapsed | KPriceRelativeToFill

fun trigger_kind :: "trigger \<Rightarrow> triggerKind" where
  "trigger_kind (AssetPrice _ _ _ _ _) = KAssetPrice"
| "trigger_kind (AccountTransfer _ _) = KAccountTransfer"
| "trigger_kind (AccountSwap _ _ _ _) = KAccountSwap"
| "trigger_kind (TimeElapsed _ _) = KTimeElapsed"
| "trigger_kind (PriceRelativeToFill _ _ _) = KPriceRelativeToFill"

record swapAction =
  sw_inputToken :: tokenRef
  sw_outputToken :: tokenRef
  sw_amount :: jsnum
  sw_linkedDownstream :: "string option"
  sw_consumeUpstreamOutput :: "bool option"

datatype action = Transfer tokenRef jsnum string | Swap swapAction

datatype actionKind = KTransfer | KSwap

fun action_kind :: "action \<Rightarrow> actionKind" where
  "action_kind (Transfer _ _ _) = KTransfer"
| "action_kind (Swap _) = KSwap"

section \<open>Cadence, loops and chain links\<close>

datatype cadence = Once | Repeat jsnum | Until jsnum

definition DEFAULT_CADENCE :: cadence where "DEFAULT_CADENCE = Once"
definition DEFAULT_MIN_INTERVAL_SECS :: jsnum where "DEFAULT_MIN_INTERVAL_SECS = Num 0"

datatype triggerOperator = TAnd | TOr
datatype actionOperator = AThen | AAnd

definition MAX_CHAIN_LENGTH :: nat where "MAX_CHAIN_LENGTH = 5"
definition DEFAULT_LOOP_CYCLES :: jsnum where "DEFAULT_LOOP_CYCLES = Num 10"
definition INFINITE_LOOP_UNIX_DEADLINE :: jsnum where "INFINITE_LOOP_UNIX_DEADLINE = Num 4102444800"
definition SELF_LOOP_INFINITE_FUND_CYCLES :: jsnum where "SELF_LOOP_INFINITE_FUND_CYCLES = Num 100"

datatype loopMode = Frequency jsnum | Infinite

datatype chainLinkTarget = RuleTarget string | LoopBack

record chainLink =
  cl_chainId :: string
  cl_position :: nat
  cl_total :: nat
  cl_next :: "chainLinkTarget option"
  cl_isHead :: bool
  cl_fundingError :: "string option"

datatype chainLinkClass = MatchedMints | InvertedPair | BridgeRequired

text \<open>The resolved rule the builder hands to the deposit flow and to the chain library.\<close>

record builderResult =
  br_triggers :: "trigger list"
  br_triggerOperators :: "triggerOperator list"
  br_actions :: "action list"
  br_actionOperators :: "actionOperator list"
  br_cadence :: cadence
  br_minIntervalSecs :: jsnum

text \<open>The persisted automation; the type of its triggers is a parameter for stored records.\<close>

record 't automation_of =
  au_id :: string
  au_schemaVersion :: int
  au_triggers :: "'t list"
  au_triggerOperators :: "triggerOperator list"
  au_actions :: "action list"
  au_actionOperators :: "actionOperator list"
  au_cadence :: cadence
  au_minIntervalSecs :: jsnum
  au_running :: bool
  au_runs :: jsnum
  au_lastCheck :: string
  au_createdAt :: string
  au_pubkey :: "string option"
  au_signature :: "string option"
  au_nonce :: "string option"
  au_executedAt :: "string option"
  au_closedAt :: "string option"
  au_link :: "chainLink option"

type_synonym automation = "trigger automation_of"

text \<open>The truth value of an optional string: present and not empty.\<close>

definition str_truthy :: "string option \<Rightarrow> bool" where
  "str_truthy s = (case s of None \<Rightarrow> False | Some t \<Rightarrow> t \<noteq> [])"

definition isCompleted :: "'t automation_of \<Rightarrow> bool" where
  "isCompleted a = str_truthy (au_executedAt a)"

definition isClosed :: "'t automation_of \<Rightarrow> bool" where
  "isClosed a = str_truthy (au_closedAt a)"

definition isTerminal :: "'t automation_of \<Rightarrow> bool" where
  "isTerminal a \<longleftrightarrow> isCompleted a \<or> isClosed a"

section \<open>Durations\<close>

definition MAX_TIME_ELAPSED_SECS :: jsnum where
  "MAX_TIME_ELAPSED_SECS = Num (366 * 24 * 60 * 60)"

fun UI_MAX_TIME_ELAPSED_BY_UNIT :: "timeUnit \<Rightarrow> jsnum" where
  "UI_MAX_TIME_ELAPSED_BY_UNIT Minutes = Num (30 * 24 * 60)"
| "UI_MAX_TIME_ELAPSED_BY_UNIT Hours = Num (30 * 24)"
| "UI_MAX_TIME_ELAPSED_BY_UNIT Days = Num 30"

definition clampTimeElapsed :: "jsnum option \<Rightarrow> timeUnit \<Rightarrow> jsnum option" where
  "clampTimeElapsed v u = (case v of None \<Rightarrow> None
     | Some x \<Rightarrow> Some (js_min (js_max x (Num 1)) (UI_MAX_TIME_ELAPSED_BY_UNIT u)))"

definition unit_secs :: "timeUnit \<Rightarrow> jsnum" where
  "unit_secs u = (if u = Minutes then Num 60 else if u = Hours then Num 3600 else Num 86400)"

definition timeElapsedToSecs :: "jsnum \<Rightarrow> timeUnit \<Rightarrow> jsnum" where
  "timeElapsedToSecs v u = js_floor (js_mul v (unit_secs u))"

section \<open>Drafts\<close>

datatype draftTrigger =
  DEmptyTrigger
| DAssetPrice "assetRef option" quoteRef comparator "jsnum option" "oracleSource option"
| DAccountTransfer "string option" "tokenRef option specificOrAny"
| DAccountSwap "string option" "tokenRef option specificOrAny" "jsnum option specificOrAny" amountDirection
| DTimeElapsed "jsnum option" timeUnit
| DPriceRelativeToFill "pubkey option" fillDirection "jsnum option"

record draftSwap =
  ds_inputToken :: "tokenRef option"
  ds_outputToken :: "tokenRef option"
  ds_amount :: "jsnum option"
  ds_linkedDownstream :: "string option"
  ds_consumeUpstreamOutput :: "bool option"

datatype draftAction =
  DEmptyAction
| DTransfer "tokenRef option" "jsnum option" "string option"
| DSwap draftSwap

definition EMPTY_TRIGGER :: draftTrigger where "EMPTY_TRIGGER = DEmptyTrigger"
definition EMPTY_ACTION :: draftAction where "EMPTY_ACTION = DEmptyAction"

text \<open>A selector is filled when it is any or its specific value is present.\<close>

fun any_or_present :: "'a option specificOrAny \<Rightarrow> bool" where
  "any_or_present AnyValue = True"
| "any_or_present (Specific v) = (v \<noteq> None)"

definition positive :: "jsnum option \<Rightarrow> bool" where
  "positive v = (case v of None \<Rightarrow> False | Some x \<Rightarrow> js_gt x (Num 0))"

fun any_or_positive :: "jsnum option specificOrAny \<Rightarrow> bool" where
  "any_or_positive AnyValue = True"
| "any_or_positive (Specific v) = positive v"

fun isTriggerComplete :: "draftTrigger \<Rightarrow> bool" where
  "isTriggerComplete DEmptyTrigger = False"
| "isTriggerComplete (DAssetPrice asset q c threshold orc) =
     (asset \<noteq> None \<and> positive threshold \<and> orc \<noteq> None)"
| "isTriggerComplete (DAccountTransfer acct token) = (str_truthy acct \<and> any_or_present token)"
| "isTriggerComplete (DAccountSwap acct token amount d) =
     (str_truthy acct \<and> any_or_present token \<and> any_or_positive amount)"
| "isTriggerComplete (DTimeElapsed v u) = (case v of
       None \<Rightarrow> False
     | Some x \<Rightarrow> if js_le x (Num 0) then False
         else (let secs = timeElapsedToSecs x u in
           js_gt secs (Num 0) \<and> js_le secs MAX_TIME_ELAPSED_SECS))"
| "isTriggerComplete (DPriceRelativeToFill up d bps) = (up \<noteq> None \<and> positive bps)"

fun isActionComplete :: "draftAction \<Rightarrow> bool" where
  "isActionComplete DEmptyAction = False"
| "isActionComplete (DTransfer token amount dest) =
     (token \<noteq> None \<and> positive amount \<and> str_truthy dest)"
| "isActionComplete (DSwap d) =
     (ds_inputToken d \<noteq> None \<and> ds_outputToken d \<noteq> None \<and> ds_amount d \<noteq> None \<and>
      (ds_consumeUpstreamOutput d = Some True \<or> positive (ds_amount d)))"

text \<open>The coercion the type guards license: the same object, read at the resolved type.\<close>

fun resolved_selector :: "'a option specificOrAny \<Rightarrow> 'a specificOrAny option" where
  "resolved_selector AnyValue = Some AnyValue"
| "resolved_selector (Specific None) = None"
| "resolved_selector (Specific (Some x)) = Some (Specific x)"

fun trigger_of_draft :: "draftTrigger \<Rightarrow> trigger option" where
  "trigger_of_draft DEmptyTrigger = None"
| "trigger_of_draft (DAssetPrice a q c t orc) =
     Option.bind a (\<lambda>a'. Option.bind t (\<lambda>t'. Option.bind orc (\<lambda>o'. Some (AssetPrice a' q c t' o'))))"
| "trigger_of_draft (DAccountTransfer acct tok) =
     Option.bind acct (\<lambda>a'. Option.bind (resolved_selector tok) (\<lambda>t'. Some (AccountTransfer a' t')))"
| "trigger_of_draft (DAccountSwap acct tok amt d) =
     Option.bind acct (\<lambda>a'. Option.bind (resolved_selector tok) (\<lambda>t'.
       Option.bind (resolved_selector amt) (\<lambda>m'. Some (AccountSwap a' t' m' d))))"
| "trigger_of_draft (DTimeElapsed v u) = Option.bind v (\<lambda>v'. Some (TimeElapsed v' u))"
| "trigger_of_draft (DPriceRelativeToFill up d bps) =
     Option.bind up (\<lambda>u'. Option.bind bps (\<lambda>b'. Some (PriceRelativeToFill u' d b')))"

fun action_of_draft :: "draftAction \<Rightarrow> action option" where
  "action_of_draft DEmptyAction = None"
| "action_of_draft (DTransfer tok amt dest) =
     Option.bind tok (\<lambda>t'. Option.bind amt (\<lambda>a'. Option.bind dest (\<lambda>d'. Some (Transfer t' a' d'))))"
| "action_of_draft (DSwap d) =
     Option.bind (ds_inputToken d) (\<lambda>i. Option.bind (ds_outputToken d) (\<lambda>out.
       Option.bind (ds_amount d) (\<lambda>a. Some (Swap \<lparr>sw_inputToken = i, sw_outputToken = out,
         sw_amount = a, sw_linkedDownstream = ds_linkedDownstream d,
         sw_consumeUpstreamOutput = ds_consumeUpstreamOutput d\<rparr>))))"

section \<open>The guards are sound\<close>

lemma resolved_selector_Some: "any_or_present s \<Longrightarrow> \<exists>t. resolved_selector s = Some t"
  by (cases s) auto

lemma any_or_positive_present: "any_or_positive s \<Longrightarrow> any_or_present s"
  by (cases s) (auto simp add: positive_def split: option.splits)

lemma positive_Some: "positive v \<longleftrightarrow> (\<exists>x. v = Some x \<and> js_lt (Num 0) x)"
  by (cases v) (simp_all add: positive_def)

lemma str_truthy_Some: "str_truthy s \<longleftrightarrow> (\<exists>t. s = Some t \<and> t \<noteq> [])"
  by (cases s) (simp_all add: str_truthy_def)

text \<open>What a resolved trigger or action guarantees to the code behind the guards.\<close>

fun specific_all :: "('a \<Rightarrow> bool) \<Rightarrow> 'a specificOrAny \<Rightarrow> bool" where
  "specific_all p AnyValue = True"
| "specific_all p (Specific x) = p x"

fun trigger_wf :: "trigger \<Rightarrow> bool" where
  "trigger_wf (AssetPrice a q c t orc) = js_lt (Num 0) t"
| "trigger_wf (AccountTransfer acct tok) = (acct \<noteq> [])"
| "trigger_wf (AccountSwap acct tok amt d) = (acct \<noteq> [] \<and> specific_all (js_lt (Num 0)) amt)"
| "trigger_wf (TimeElapsed v u) =
     (js_le (Num 1) (timeElapsedToSecs v u) \<and> js_le (timeElapsedToSecs v u) MAX_TIME_ELAPSED_SECS)"
| "trigger_wf (PriceRelativeToFill up d bps) = js_lt (Num 0) bps"

fun action_wf :: "action \<Rightarrow> bool" where
  "action_wf (Transfer tok amt dest) = (js_lt (Num 0) amt \<and> dest \<noteq> [])"
| "action_wf (Swap s) = (sw_consumeUpstreamOutput s = Some True \<or> js_lt (Num 0) (sw_amount s))"

lemma floor_positive_ge_1: "js_lt (Num 0) (js_floor x) \<Longrightarrow> js_le (Num 1) (js_floor x)"
  by (cases x) auto

lemma isTriggerComplete_resolves:
  assumes "isTriggerComplete d"
  shows "\<exists>t. trigger_of_draft d = Some t \<and> trigger_wf t"
proof (cases d)
  case (DAccountSwap acct tok amt dir)
  then obtain a where "acct = Some a" "a \<noteq> []"
    using assms by (auto simp add: str_truthy_Some)
  moreover obtain t where "resolved_selector tok = Some t"
    using assms DAccountSwap resolved_selector_Some [of tok] by auto
  moreover obtain m where "resolved_selector amt = Some m" "specific_all (js_lt (Num 0)) m"
    using assms DAccountSwap by (cases amt) (auto simp add: positive_Some)
  ultimately show ?thesis using DAccountSwap by simp
next
  case (DAccountTransfer acct tok)
  then show ?thesis using assms resolved_selector_Some by (fastforce simp add: str_truthy_Some)
next
  case (DTimeElapsed v u)
  then show ?thesis using assms
    by (auto simp add: Let_def timeElapsedToSecs_def floor_positive_ge_1 split: option.splits if_splits)
qed (use assms in \<open>auto simp add: positive_Some\<close>)

lemma isActionComplete_resolves:
  assumes "isActionComplete d"
  shows "\<exists>a. action_of_draft d = Some a \<and> action_wf a"
proof (cases d)
  case (DSwap s)
  then show ?thesis using assms by (auto simp add: positive_Some)
qed (use assms in \<open>auto simp add: positive_Some str_truthy_Some\<close>)

section \<open>Clamping\<close>

lemma unit_limit_ge_1: "js_le (Num 1) (UI_MAX_TIME_ELAPSED_BY_UNIT u)" "UI_MAX_TIME_ELAPSED_BY_UNIT u \<noteq> NaN"
  by (cases u; simp)+

lemma js_clamp_range:
  assumes "x \<noteq> NaN" "lo \<noteq> NaN" "hi \<noteq> NaN" "js_le lo hi"
  shows "js_le lo (js_min (js_max x lo) hi) \<and> js_le (js_min (js_max x lo) hi) hi"
  using assms by (cases x; cases lo; cases hi) (auto simp add: js_min_def js_max_def)

lemma clamp_range:
  assumes "clampTimeElapsed v u = Some x" "x \<noteq> NaN"
  shows "js_le (Num 1) x \<and> js_le x (UI_MAX_TIME_ELAPSED_BY_UNIT u)"
proof -
  obtain y where y: "v = Some y" "x = js_min (js_max y (Num 1)) (UI_MAX_TIME_ELAPSED_BY_UNIT u)"
    using assms(1) by (auto simp add: clampTimeElapsed_def split: option.splits)
  have "y \<noteq> NaN" using y(2) assms(2) by (auto simp add: js_min_def js_max_def)
  from js_clamp_range [OF this _ unit_limit_ge_1(2) unit_limit_ge_1(1)] show ?thesis
    unfolding y(2) by simp
qed

lemma floor_fl_range:
  assumes lo: "1 \<le> q" and hi: "q \<le> 2592000"
  shows "js_lt (Num 0) (js_floor (fl q)) \<and> js_le (js_floor (fl q)) (Num 2592000)"
proof -
  have l: "js_le (Num 1) (fl q)" by (rule fl_ge_double [OF lo]) (rule fl_one)
  have h: "js_le (fl q) (Num 2592000)" by (rule fl_le_double [OF hi]) (simp add: js_eval)
  obtain r where r: "fl q = Num r" "1 \<le> r" "r \<le> 2592000"
    using l h by (cases "fl q") auto
  have "0 < \<lfloor>r\<rfloor>" using r(2) by linarith
  moreover have "of_int \<lfloor>r\<rfloor> \<le> (2592000 :: rat)" using r(3) by linarith
  ultimately show ?thesis by (simp add: r(1))
qed

text \<open>Every duration the editor accepts makes a complete trigger, whatever its fraction.\<close>

lemma clamped_is_complete:
  assumes "clampTimeElapsed v u = Some x" "x \<noteq> NaN"
  shows "isTriggerComplete (DTimeElapsed (Some x) u)"
proof -
  have range: "js_le (Num 1) x" "js_le x (UI_MAX_TIME_ELAPSED_BY_UNIT u)"
    using clamp_range [OF assms] by auto
  obtain q where q: "x = Num q" "1 \<le> q" using range by (cases x; cases u) auto
  obtain k where k: "unit_secs u = Num k" "1 \<le> q * k" "q * k \<le> 2592000"
    using range q by (cases u) (auto simp add: unit_secs_def)
  have "js_le (Num 2592000) MAX_TIME_ELAPSED_SECS" by (simp add: MAX_TIME_ELAPSED_SECS_def)
  then show ?thesis
    using q floor_fl_range [OF k(2,3)] js_le_trans
    by (auto simp add: Let_def timeElapsedToSecs_def k(1))
qed

end
