(* ===== verification/Catalog.thy ===== *)
theory Catalog
  imports Types
begin

text \<open>
  The builder catalog (src/src/lib/catalog.ts) and the support flags (src/src/lib/support.ts):
  which action kinds each trigger kind admits, the action menu derived from them, and the check
  the save validator runs. A JavaScript Set of kinds is the list of its members.
\<close>

record actionKindMeta =
  ak_kind :: actionKind
  ak_label :: string
  ak_availableWithoutTrigger :: bool
  ak_empty :: draftAction

record triggerKindMeta =
  tk_kind :: triggerKind
  tk_label :: string
  tk_empty :: draftTrigger
  tk_compatibleActions :: "actionKind list"

datatype triggerCategoryId = CatAssetPrice | CatTrackAccount | CatTime

record triggerCategoryMeta =
  tc_id :: triggerCategoryId
  tc_label :: string
  tc_kinds :: "triggerKindMeta list"

definition TRANSFER_ACTION :: actionKindMeta where
  "TRANSFER_ACTION = \<lparr>ak_kind = KTransfer, ak_label = ''Transfer'', ak_availableWithoutTrigger = True,
     ak_empty = DTransfer None None None\<rparr>"

definition SWAP_ACTION :: actionKindMeta where
  "SWAP_ACTION = \<lparr>ak_kind = KSwap, ak_label = ''Swap'', ak_availableWithoutTrigger = True,
     ak_empty = DSwap \<lparr>ds_inputToken = None, ds_outputToken = None, ds_amount = None,
       ds_linkedDownstream = None, ds_consumeUpstreamOutput = None\<rparr>\<rparr>"

definition ACTION_KINDS :: "actionKindMeta list" where
  "ACTION_KINDS = [TRANSFER_ACTION, SWAP_ACTION]"

definition GENERAL_ACTIONS :: "actionKind list" where
  "GENERAL_ACTIONS = [KTransfer, KSwap]"

definition ASSET_PRICE :: triggerKindMeta where
  "ASSET_PRICE = \<lparr>tk_kind = KAssetPrice, tk_label = ''Asset price'',
     tk_empty = DAssetPrice None QuoteUsd Below None None, tk_compatibleActions = GENERAL_ACTIONS\<rparr>"

definition ACCOUNT_TRANSFER :: triggerKindMeta where
  "ACCOUNT_TRANSFER = \<lparr>tk_kind = KAccountTransfer, tk_label = ''Transfers'',
     tk_empty = DAccountTransfer None AnyValue, tk_compatibleActions = GENERAL_ACTIONS\<rparr>"

definition ACCOUNT_SWAP :: triggerKindMeta where
  "ACCOUNT_SWAP = \<lparr>tk_kind = KAccountSwap, tk_label = ''Swaps'',
     tk_empty = DAccountSwap None AnyValue AnyValue AtLeast, tk_compatibleActions = GENERAL_ACTIONS\<rparr>"

definition TIME_ELAPSED :: triggerKindMeta where
  "TIME_ELAPSED = \<lparr>tk_kind = KTimeElapsed, tk_label = ''Time elapsed'',
     tk_empty = DTimeElapsed None Minutes, tk_compatibleActions = GENERAL_ACTIONS\<rparr>"

definition PRICE_RELATIVE_TO_FILL :: triggerKindMeta where
  "PRICE_RELATIVE_TO_FILL = \<lparr>tk_kind = KPriceRelativeToFill, tk_label = ''Relative to upstream fill'',
     tk_empty = DPriceRelativeToFill None Grow None, tk_compatibleActions = [KSwap]\<rparr>"

definition TRIGGER_CATEGORIES :: "triggerCategoryMeta list" where
  "TRIGGER_CATEGORIES =
    [\<lparr>tc_id = CatAssetPrice, tc_label = ''Asset Price'', tc_kinds = [ASSET_PRICE, PRICE_RELATIVE_TO_FILL]\<rparr>,
     \<lparr>tc_id = CatTrackAccount, tc_label = ''Account Activity'', tc_kinds = [ACCOUNT_TRANSFER, ACCOUNT_SWAP]\<rparr>,
     \<lparr>tc_id = CatTime, tc_label = ''Time'', tc_kinds = [TIME_ELAPSED]\<rparr>]"

definition TRIGGER_KINDS :: "triggerKindMeta list" where
  "TRIGGER_KINDS = concat (map tc_kinds TRIGGER_CATEGORIES)"

definition findTriggerCategoryForKind :: "triggerKind \<Rightarrow> triggerCategoryMeta option" where
  "findTriggerCategoryForKind k = find (\<lambda>c. list_ex (\<lambda>m. tk_kind m = k) (tc_kinds c)) TRIGGER_CATEGORIES"

definition findTriggerMeta :: "triggerKind \<Rightarrow> triggerKindMeta option" where
  "findTriggerMeta k = find (\<lambda>t. tk_kind t = k) TRIGGER_KINDS"

definition findActionMeta :: "actionKind \<Rightarrow> actionKindMeta option" where
  "findActionMeta k = find (\<lambda>a. ak_kind a = k) ACTION_KINDS"

text \<open>The compatible actions of a trigger kind; an unknown kind admits none.\<close>

definition compatible_set :: "triggerKind \<Rightarrow> actionKind list" where
  "compatible_set k = (case findTriggerMeta k of Some m \<Rightarrow> remdups (tk_compatibleActions m) | None \<Rightarrow> [])"

fun reduce1 :: "('a \<Rightarrow> 'a \<Rightarrow> 'a) \<Rightarrow> 'a \<Rightarrow> 'a list \<Rightarrow> 'a" where
  "reduce1 f acc [] = acc"
| "reduce1 f acc (x # xs) = reduce1 f (f acc x) xs"

fun actionsForTriggers :: "triggerKind list \<Rightarrow> actionKindMeta list" where
  "actionsForTriggers [] = filter ak_availableWithoutTrigger ACTION_KINDS"
| "actionsForTriggers (k # ks) =
    (let intersection = reduce1 (\<lambda>acc s. filter (\<lambda>x. x \<in> set s) acc)
           (compatible_set k) (map compatible_set ks)
     in filter (\<lambda>a. ak_kind a \<in> set intersection) ACTION_KINDS)"

definition actionsAreCompatible :: "triggerKind list \<Rightarrow> actionKind list \<Rightarrow> bool" where
  "actionsAreCompatible ks acts =
    (let allowed = map ak_kind (actionsForTriggers ks) in list_all (\<lambda>k. k \<in> set allowed) acts)"

section \<open>Support flags\<close>

fun SUPPORTED_TRIGGER_KINDS :: "triggerKind \<Rightarrow> bool" where
  "SUPPORTED_TRIGGER_KINDS KAccountTransfer = True"
| "SUPPORTED_TRIGGER_KINDS KAccountSwap = True"
| "SUPPORTED_TRIGGER_KINDS KAssetPrice = True"
| "SUPPORTED_TRIGGER_KINDS KTimeElapsed = True"
| "SUPPORTED_TRIGGER_KINDS KPriceRelativeToFill = True"

fun SUPPORTED_ACTION_KINDS :: "actionKind \<Rightarrow> bool" where
  "SUPPORTED_ACTION_KINDS KTransfer = True"
| "SUPPORTED_ACTION_KINDS KSwap = True"

definition isTriggerSupported :: "triggerKind \<Rightarrow> bool" where
  "isTriggerSupported k = SUPPORTED_TRIGGER_KINDS k"

definition isActionSupported :: "actionKind \<Rightarrow> bool" where
  "isActionSupported k = SUPPORTED_ACTION_KINDS k"

definition isTriggerCategorySupported :: "triggerCategoryMeta \<Rightarrow> bool" where
  "isTriggerCategorySupported c = list_ex (\<lambda>m. isTriggerSupported (tk_kind m)) (tc_kinds c)"

section \<open>The menu\<close>

lemmas catalog_defs = TRANSFER_ACTION_def SWAP_ACTION_def ACTION_KINDS_def GENERAL_ACTIONS_def
  ASSET_PRICE_def ACCOUNT_TRANSFER_def ACCOUNT_SWAP_def TIME_ELAPSED_def PRICE_RELATIVE_TO_FILL_def
  TRIGGER_CATEGORIES_def TRIGGER_KINDS_def

lemma findTriggerMeta_kind: "findTriggerMeta k = Some m \<Longrightarrow> tk_kind m = k"
  by (auto simp add: findTriggerMeta_def find_Some_iff)

lemma findTriggerMeta_total: "\<exists>m. findTriggerMeta k = Some m"
  by (cases k) (simp_all add: findTriggerMeta_def catalog_defs)

lemma findTriggerCategory_total:
  "\<exists>c. findTriggerCategoryForKind k = Some c \<and> (\<exists>m \<in> set (tc_kinds c). findTriggerMeta k = Some m)"
  by (cases k) (simp_all add: findTriggerCategoryForKind_def findTriggerMeta_def catalog_defs)

lemma findActionMeta_total: "\<exists>m. findActionMeta k = Some m \<and> ak_kind m = k"
  by (cases k) (simp_all add: findActionMeta_def catalog_defs)

lemma compatible_set_cases:
  "set (compatible_set k) = (if k = KPriceRelativeToFill then {KSwap} else {KTransfer, KSwap})"
  by (cases k) (simp_all add: compatible_set_def findTriggerMeta_def catalog_defs)

lemma reduce1_filter:
  "set (reduce1 (\<lambda>acc s. filter (\<lambda>x. x \<in> set s) acc) acc ss) = {x \<in> set acc. \<forall>s \<in> set ss. x \<in> set s}"
  by (induction ss arbitrary: acc) auto

lemma all_kinds_listed: "k \<in> ak_kind ` set ACTION_KINDS"
  by (cases k) (simp_all add: catalog_defs)

lemma menu_kinds_general:
  "k \<in> ak_kind ` set (actionsForTriggers ks) \<longleftrightarrow> (\<forall>t \<in> set ks. k \<in> set (compatible_set t))"
proof (cases ks)
  case Nil
  then show ?thesis by (cases k) (simp_all add: catalog_defs)
next
  case (Cons t ts)
  have "k \<in> ak_kind ` {a \<in> set ACTION_KINDS. P (ak_kind a)} \<longleftrightarrow> P k" for P
    using all_kinds_listed [of k] by auto
  from this [of "\<lambda>x. x \<in> set (compatible_set t) \<and> (\<forall>s\<in>set ts. x \<in> set (compatible_set s))"]
  show ?thesis using Cons by (simp add: Let_def reduce1_filter set_filter)
qed

text \<open>An empty template is never complete, so a freshly picked kind cannot be saved as it is.\<close>

lemma templates_incomplete:
  "findTriggerMeta k = Some m \<Longrightarrow> \<not> isTriggerComplete (tk_empty m)"
  "findActionMeta a = Some n \<Longrightarrow> \<not> isActionComplete (ak_empty n)"
  by (cases k; auto simp add: findTriggerMeta_def catalog_defs positive_def str_truthy_def)
    (cases a; auto simp add: findActionMeta_def catalog_defs positive_def)

section \<open>Properties\<close>

text \<open>Compatibility of triggers and actions. A combination is admitted exactly when no transfer is paired with a
  trigger relative to an earlier fill; the menu of a trigger list offers exactly the action kinds every trigger
  admits, each kind of the schema has one entry with an empty template, and no template passes its guard.\<close>

theorem compatibility_exact:
  "actionsAreCompatible ks acts = list_all (\<lambda>a. list_all (\<lambda>t. \<not> (a = KTransfer \<and> t = KPriceRelativeToFill)) ks) acts
   \<and> ak_kind ` set (actionsForTriggers ks) = {k. list_all (\<lambda>t. k \<in> set (compatible_set t)) ks}
   \<and> (\<exists>m. findTriggerMeta k = Some m \<and> tk_kind m = k \<and> \<not> isTriggerComplete (tk_empty m))
   \<and> (\<exists>n. findActionMeta l = Some n \<and> ak_kind n = l \<and> \<not> isActionComplete (ak_empty n))"
proof (intro conjI)
  have "a \<in> set (compatible_set t) \<longleftrightarrow> \<not> (a = KTransfer \<and> t = KPriceRelativeToFill)" for a t
    unfolding compatible_set_cases by (cases a) auto
  then show "actionsAreCompatible ks acts = list_all (\<lambda>a. list_all (\<lambda>t. \<not> (a = KTransfer \<and> t = KPriceRelativeToFill)) ks) acts"
    unfolding actionsAreCompatible_def Let_def list_all_iff set_map menu_kinds_general by simp
  show "ak_kind ` set (actionsForTriggers ks) = {k. list_all (\<lambda>t. k \<in> set (compatible_set t)) ks}"
    using menu_kinds_general [of _ ks] by (auto simp add: list_all_iff simp del: actionsForTriggers.simps)
  show "\<exists>m. findTriggerMeta k = Some m \<and> tk_kind m = k \<and> \<not> isTriggerComplete (tk_empty m)"
    using findTriggerMeta_total [of k] findTriggerMeta_kind [of k] templates_incomplete(1) [of k] by blast
  show "\<exists>n. findActionMeta l = Some n \<and> ak_kind n = l \<and> \<not> isActionComplete (ak_empty n)"
    using findActionMeta_total [of l] templates_incomplete(2) [of l] by blast
qed

end
