(* ===== verification/Automations.thy ===== *)
theory Automations
  imports Catalog
begin

text \<open>
  src/src/lib/automations.ts: the migration of stored triggers, operator back-filling, loading and
  saving per wallet, freezing of drafts and the constructor of an automation record. A stored
  trigger is untyped JSON, so the migrations work on JSON objects. The parser of the local storage
  text, Date.parse and the clock are parameters.
\<close>

section \<open>JSON objects and the migrations\<close>

datatype json =
  JNull
| JBool bool
| JNumber jsnum
| JString string
| JArray "json list"
| JObject "(string \<times> json) list"

text \<open>Reading a property: undefined is None; a non-object has no properties.\<close>

fun jprop :: "json \<Rightarrow> string \<Rightarrow> json option" where
  "jprop (JObject d) k = dict_get d k"
| "jprop _ k = None"

definition is_jstring :: "json option \<Rightarrow> string \<Rightarrow> bool" where
  "is_jstring j s \<longleftrightarrow> j = Some (JString s)"

text \<open>The short name of a stored token: its symbol, else four characters of its mint, else a mark.\<close>

definition nonempty_string :: "json option \<Rightarrow> string option" where
  "nonempty_string j = (case j of Some (JString s) \<Rightarrow> if s = [] then None else Some s | _ \<Rightarrow> None)"

definition stored_display :: "json \<Rightarrow> string" where
  "stored_display tok = (case nonempty_string (jprop tok ''symbol'') of
       Some s \<Rightarrow> s
     | None \<Rightarrow> (case nonempty_string (jprop tok ''mint'') of
           Some m \<Rightarrow> take 4 m
         | None \<Rightarrow> ''?''))"

fun jfields :: "json \<Rightarrow> (string \<times> json) list" where
  "jfields (JObject d) = d"
| "jfields _ = []"

text \<open>The object spread of a stored token with the asset fields written over it.\<close>

definition stored_asset :: "json \<Rightarrow> json" where
  "stored_asset tok = (let display = stored_display tok in
     JObject (dict_set (dict_set (dict_set (jfields tok)
       ''symbol'' (JString (case nonempty_string (jprop tok ''symbol'') of Some s \<Rightarrow> s | None \<Rightarrow> display)))
       ''assetClass'' (JString ''Crypto''))
       ''displaySymbol'' (JString display)))"

definition migrate_token :: "(string, json) dict \<Rightarrow> (string, json) dict" where
  "migrate_token out = (if dict_has out ''token'' \<and> \<not> dict_has out ''asset'' then
     dict_del (dict_set out ''asset'' (case dict_get out ''token'' of Some tok \<Rightarrow> stored_asset tok | None \<Rightarrow> JNull))
       ''token''
     else out)"

definition migrate_quote :: "(string, json) dict \<Rightarrow> (string, json) dict" where
  "migrate_quote out = (case dict_get out ''quote'' of
       Some q \<Rightarrow> if is_jstring (jprop q ''kind'') ''token'' then
           dict_set out ''quote''
             (JObject [(''kind'', JString ''asset''), (''asset'', stored_asset q)])
         else out
     | None \<Rightarrow> out)"

definition migrateAssetPriceTrigger :: "json \<Rightarrow> json" where
  "migrateAssetPriceTrigger t = (if \<not> is_jstring (jprop t ''kind'') ''asset_price'' then t
     else JObject (migrate_quote (migrate_token (jfields t))))"

definition migrateAccountSwapTrigger :: "json \<Rightarrow> json" where
  "migrateAccountSwapTrigger t = (if \<not> is_jstring (jprop t ''kind'') ''account_swap'' then t
     else if is_jstring (jprop t ''amountDirection'') ''at_least'' \<or>
             is_jstring (jprop t ''amountDirection'') ''at_most'' then t
     else JObject (dict_set (jfields t) ''amountDirection'' (JString ''at_least'')))"

section \<open>Operators and timestamps\<close>

definition DEFAULT_TRIGGER_OP :: triggerOperator where "DEFAULT_TRIGGER_OP = TAnd"
definition DEFAULT_ACTION_OP :: actionOperator where "DEFAULT_ACTION_OP = AThen"

text \<open>The loop that pushes the fallback until the expected length is reached.\<close>

function pad_to :: "'a list \<Rightarrow> nat \<Rightarrow> 'a \<Rightarrow> 'a list" where
  "pad_to safe n fallback =
     (if length safe < n then pad_to (safe @ [fallback]) n fallback else safe)"
  by auto
termination by (relation "measure (\<lambda>(safe, n, f). n - length safe)") auto

declare pad_to.simps [simp del]

definition fillOperators :: "'a list option \<Rightarrow> nat \<Rightarrow> 'a \<Rightarrow> 'a list" where
  "fillOperators ops expectedLength fallback =
     pad_to (case ops of Some os \<Rightarrow> take expectedLength os | None \<Rightarrow> []) expectedLength fallback"

record clock_env =
  parse_date :: "string \<Rightarrow> jsnum"
  now_iso :: string
  fresh_id :: string

definition normalizeTimestamp :: "clock_env \<Rightarrow> string option \<Rightarrow> string \<Rightarrow> string" where
  "normalizeTimestamp E v fallback =
     (if str_truthy v \<and> is_finite (parse_date E (the v)) then the v
      else if is_finite (parse_date E fallback) then fallback
      else now_iso E)"

definition storageKey :: "string option \<Rightarrow> string" where
  "storageKey owner = (if str_truthy owner then ''sotama:automations:v2:'' @ the owner
     else ''sotama:automations:v2:__none__'')"

section \<open>Loading and saving\<close>

text \<open>A stored record: the fields written by earlier versions of the program may be absent.\<close>

record stored_automation =
  st_record :: "json automation_of"
  st_triggerOperators :: "triggerOperator list option"
  st_actionOperators :: "actionOperator list option"
  st_cadence :: "cadence option"
  st_minIntervalSecs :: "jsnum option"
  st_lastCheck :: "string option"

definition upgrade_stored :: "clock_env \<Rightarrow> stored_automation \<Rightarrow> json automation_of" where
  "upgrade_stored E s = (let a = st_record s in a\<lparr>
     au_triggers := map migrateAccountSwapTrigger (map migrateAssetPriceTrigger (au_triggers a)),
     au_triggerOperators := fillOperators (st_triggerOperators s)
       (max 0 (length (au_triggers a) - 1)) DEFAULT_TRIGGER_OP,
     au_actionOperators := fillOperators (st_actionOperators s)
       (max 0 (length (au_actions a) - 1)) DEFAULT_ACTION_OP,
     au_cadence := (case st_cadence s of Some c \<Rightarrow> c | None \<Rightarrow> DEFAULT_CADENCE),
     au_minIntervalSecs := (case st_minIntervalSecs s of Some m \<Rightarrow> m | None \<Rightarrow> DEFAULT_MIN_INTERVAL_SECS),
     au_lastCheck := normalizeTimestamp E (st_lastCheck s) (au_createdAt a)\<rparr>)"

text \<open>
  The local storage is a dictionary of texts. Parsing may throw (None) or give something that is
  not an array (the inner None); both load as no automations.
\<close>

type_synonym storage = "(string, string) dict"

definition loadAutomations ::
  "clock_env \<Rightarrow> (string \<Rightarrow> stored_automation list option option) \<Rightarrow> bool \<Rightarrow> storage \<Rightarrow> string option
    \<Rightarrow> json automation_of list" where
  "loadAutomations E parse in_browser ls owner =
     (if \<not> in_browser \<or> \<not> str_truthy owner then []
      else case dict_get ls (storageKey owner) of
        None \<Rightarrow> []
      | Some raw \<Rightarrow> if raw = [] then [] else
          (case parse raw of
             Some (Some items) \<Rightarrow>
               map (upgrade_stored E) (filter (\<lambda>s. au_schemaVersion (st_record s) = 3) items)
           | _ \<Rightarrow> []))"

text \<open>Writing may throw (a full quota); the error is swallowed and the storage is unchanged.\<close>

definition saveAutomations ::
  "(automation list \<Rightarrow> string) \<Rightarrow> (storage \<Rightarrow> string \<Rightarrow> bool) \<Rightarrow> bool \<Rightarrow> storage \<Rightarrow> string option
    \<Rightarrow> automation list \<Rightarrow> storage" where
  "saveAutomations stringify quota_ok in_browser ls owner items =
     (if \<not> in_browser \<or> \<not> str_truthy owner then ls
      else let s = stringify items in
        if quota_ok ls s then dict_set ls (storageKey owner) s else ls)"

section \<open>Freezing drafts and making a record\<close>

fun freeze_loop :: "('d \<Rightarrow> bool) \<Rightarrow> ('d \<Rightarrow> 'r option) \<Rightarrow> 'd list \<Rightarrow> 'r list \<Rightarrow> 'r list option" where
  "freeze_loop ok resolve [] out = Some out"
| "freeze_loop ok resolve (d # ds) out =
     (if \<not> ok d then None
      else case resolve d of
        Some r \<Rightarrow> freeze_loop ok resolve ds (out @ [r])
      | None \<Rightarrow> None)"

definition freezeTriggers :: "draftTrigger list \<Rightarrow> trigger list option" where
  "freezeTriggers drafts = (if drafts = [] then None
     else freeze_loop isTriggerComplete trigger_of_draft drafts [])"

definition freezeActions :: "draftAction list \<Rightarrow> action list option" where
  "freezeActions drafts = (if drafts = [] then None
     else freeze_loop isActionComplete action_of_draft drafts [])"

record overrides =
  ov_id :: "string option"
  ov_running :: "bool option"
  ov_runs :: "jsnum option"
  ov_lastCheck :: "string option"
  ov_createdAt :: "string option"
  ov_pubkey :: "string option"
  ov_signature :: "string option"
  ov_nonce :: "string option"
  ov_executedAt :: "string option"
  ov_closedAt :: "string option"

definition or_else :: "'a option \<Rightarrow> 'a \<Rightarrow> 'a" where
  "or_else p d = (case p of Some x \<Rightarrow> x | None \<Rightarrow> d)"

definition makeAutomation ::
  "clock_env \<Rightarrow> trigger list \<Rightarrow> action list \<Rightarrow> triggerOperator list \<Rightarrow> actionOperator list \<Rightarrow> cadence
    \<Rightarrow> jsnum \<Rightarrow> overrides \<Rightarrow> automation" where
  "makeAutomation E ts as tops aops cad mini ov = \<lparr>
     au_id = or_else (ov_id ov) (fresh_id E),
     au_schemaVersion = 3,
     au_triggers = ts,
     au_triggerOperators = fillOperators (Some tops) (max 0 (length ts - 1)) DEFAULT_TRIGGER_OP,
     au_actions = as,
     au_actionOperators = fillOperators (Some aops) (max 0 (length as - 1)) DEFAULT_ACTION_OP,
     au_cadence = cad,
     au_minIntervalSecs = mini,
     au_running = or_else (ov_running ov) True,
     au_runs = or_else (ov_runs ov) (Num 0),
     au_lastCheck = normalizeTimestamp E (ov_lastCheck ov) (now_iso E),
     au_createdAt = or_else (ov_createdAt ov) (now_iso E),
     au_pubkey = ov_pubkey ov,
     au_signature = ov_signature ov,
     au_nonce = ov_nonce ov,
     au_executedAt = ov_executedAt ov,
     au_closedAt = ov_closedAt ov,
     au_link = None\<rparr>"

section \<open>Lemmas\<close>

lemma pad_to_eq: "pad_to safe n f = safe @ replicate (n - length safe) f"
proof (induction safe n f rule: pad_to.induct)
  case (1 safe n f)
  show ?case
  proof (cases "length safe < n")
    case True
    then obtain m where m: "n - length safe = Suc m" "n - length (safe @ [f]) = m"
      by (cases "n - length safe") auto
    from 1 [OF True] show ?thesis
      unfolding m by (simp add: pad_to.simps [of safe n f] True)
  qed (simp add: pad_to.simps [of safe n f])
qed

lemma fillOperators_eq:
  "fillOperators ops n f = (let os = (case ops of Some os \<Rightarrow> os | None \<Rightarrow> []) in
     take n os @ replicate (n - length os) f)"
  by (simp add: fillOperators_def pad_to_eq Let_def min_def split: option.splits)

lemma length_fillOperators: "length (fillOperators ops n f) = n"
  by (simp add: fillOperators_eq Let_def)

text \<open>The invariant of a record: the current schema and one operator between adjacent items.\<close>

definition record_wf :: "'t automation_of \<Rightarrow> bool" where
  "record_wf a \<longleftrightarrow> au_schemaVersion a = 3 \<and>
     length (au_triggerOperators a) = length (au_triggers a) - 1 \<and>
     length (au_actionOperators a) = length (au_actions a) - 1"

lemma make_wf: "record_wf (makeAutomation E ts as tops aops cad mini ov)"
  by (simp add: record_wf_def makeAutomation_def length_fillOperators)

lemma upgrade_wf: "au_schemaVersion (st_record s) = 3 \<Longrightarrow> record_wf (upgrade_stored E s)"
  by (simp add: record_wf_def upgrade_stored_def Let_def length_fillOperators)

lemma storageKey_inj:
  assumes "str_truthy a" "str_truthy b" "storageKey a = storageKey b" shows "a = b"
  using assms by (auto simp add: storageKey_def str_truthy_def split: option.splits)

lemma freeze_loop_Some:
  "freeze_loop c r ds out = Some rs \<longleftrightarrow>
     (\<exists>ys. rs = out @ ys \<and> list_all2 (\<lambda>d y. c d \<and> r d = Some y) ds ys)"
proof (induction c r ds out arbitrary: rs rule: freeze_loop.induct)
  case (2 c r d ds out)
  then show ?case by (auto simp add: list_all2_Cons1 split: option.splits)
qed auto

lemma freeze_loop_complete:
  assumes "\<And>d. c d \<Longrightarrow> \<exists>y. r d = Some y"
  shows "freeze_loop c r ds out = None \<longleftrightarrow> \<not> list_all c ds"
  using assms by (induction c r ds out rule: freeze_loop.induct) (fastforce split: option.splits)+

lemma migrate_kind:
  "jprop (migrateAssetPriceTrigger t) ''kind'' = jprop t ''kind''"
  "jprop (migrateAccountSwapTrigger t) ''kind'' = jprop t ''kind''"
  by (cases t; auto simp add: migrateAssetPriceTrigger_def migrateAccountSwapTrigger_def migrate_quote_def
      migrate_token_def dict_laws split: option.splits)+

lemma migrateAccountSwap_idem:
  "migrateAccountSwapTrigger (migrateAccountSwapTrigger t) = migrateAccountSwapTrigger t"
  by (auto simp add: migrateAccountSwapTrigger_def is_jstring_def dict_laws)

lemma migrate_token_has:
  "dict_has (migrate_token d) ''token'' \<longrightarrow> dict_has (migrate_token d) ''asset''"
  by (simp add: migrate_token_def dict_has_def dict_laws)

lemma migrate_quote_get:
  "j \<noteq> ''quote'' \<Longrightarrow> dict_get (migrate_quote d) j = dict_get d j"
  by (simp add: migrate_quote_def dict_laws split: option.splits)

lemma migrate_quote_idem: "migrate_quote (migrate_quote d) = migrate_quote d"
  by (simp add: migrate_quote_def dict_laws is_jstring_def split: option.splits)

lemma migrateAssetPrice_idem:
  "migrateAssetPriceTrigger (migrateAssetPriceTrigger t) = migrateAssetPriceTrigger t"
proof (cases "is_jstring (jprop t ''kind'') ''asset_price''")
  case True
  let ?m = "migrate_quote (migrate_token (jfields t))"
  have "is_jstring (jprop (migrateAssetPriceTrigger t) ''kind'') ''asset_price''"
    using True by (simp add: migrate_kind)
  moreover have "migrate_token ?m = ?m"
    using migrate_token_has [of "jfields t"]
    by (auto simp add: migrate_token_def [of ?m] dict_has_def migrate_quote_get)
  ultimately show ?thesis using True
    by (simp add: migrateAssetPriceTrigger_def migrate_quote_idem)
next
  case False
  then show ?thesis by (simp add: migrateAssetPriceTrigger_def)
qed

lemma freeze_loop_map:
  assumes "\<And>d. c d \<Longrightarrow> \<exists>y. r d = Some y"
  shows "freeze_loop c r ds out = (if list_all c ds then Some (out @ map (\<lambda>d. the (r d)) ds) else None)"
  using assms
proof (induction ds arbitrary: out)
  case (Cons d ds)
  show ?case
  proof (cases "c d")
    case True
    then obtain y where "r d = Some y" using Cons.prems by blast
    with Cons.IH [OF Cons.prems] True show ?thesis by simp
  qed simp
qed simp

definition migrated :: "json \<Rightarrow> json" where
  "migrated t = migrateAccountSwapTrigger (migrateAssetPriceTrigger t)"

lemma migrated_kind: "jprop (migrated t) ''kind'' = jprop t ''kind''"
  by (simp add: migrated_def migrate_kind)

lemma migrated_idem: "migrated (migrated t) = migrated t"
proof (cases "is_jstring (jprop t ''kind'') ''account_swap''")
  case True
  then have n: "\<not> is_jstring (jprop t ''kind'') ''asset_price''" by (auto simp add: is_jstring_def)
  have "migrateAssetPriceTrigger (migrated t) = migrated t"
    using n by (simp add: migrateAssetPriceTrigger_def [of "migrated t"] migrated_kind)
  moreover have "migrated t = migrateAccountSwapTrigger t" using n by (simp add: migrated_def migrateAssetPriceTrigger_def)
  ultimately show ?thesis by (metis migrated_def migrateAccountSwap_idem)
next
  case False
  then have m: "migrated t = migrateAssetPriceTrigger t"
    by (simp add: migrated_def migrateAccountSwapTrigger_def migrate_kind)
  have "migrateAccountSwapTrigger (migrateAssetPriceTrigger t) = migrateAssetPriceTrigger t"
    using False by (simp add: migrateAccountSwapTrigger_def migrate_kind)
  then show ?thesis unfolding m by (simp add: migrated_def migrateAssetPrice_idem)
qed

section \<open>Properties\<close>

text \<open>Freezing drafts. The lists of a rule freeze exactly when they are not empty and every draft passes its
  completeness guard; the result resolves the drafts one by one in order, and every resolved trigger and action
  is well formed (positive amounts, prices and percentages, a duration within the program's limit, non-empty
  addresses).\<close>

theorem freeze_exact:
  "freezeTriggers ds = (if ds \<noteq> [] \<and> list_all isTriggerComplete ds then Some (map (\<lambda>d. the (trigger_of_draft d)) ds) else None)
   \<and> freezeActions es = (if es \<noteq> [] \<and> list_all isActionComplete es then Some (map (\<lambda>d. the (action_of_draft d)) es) else None)
   \<and> list_all trigger_wf (case freezeTriggers ds of Some ts \<Rightarrow> ts | None \<Rightarrow> [])
   \<and> list_all action_wf (case freezeActions es of Some as \<Rightarrow> as | None \<Rightarrow> [])"
proof -
  have t: "freezeTriggers ds = (if ds \<noteq> [] \<and> list_all isTriggerComplete ds then Some (map (\<lambda>d. the (trigger_of_draft d)) ds) else None)"
    using isTriggerComplete_resolves by (subst freezeTriggers_def, subst freeze_loop_map) fastforce+
  have a: "freezeActions es = (if es \<noteq> [] \<and> list_all isActionComplete es then Some (map (\<lambda>d. the (action_of_draft d)) es) else None)"
    using isActionComplete_resolves by (subst freezeActions_def, subst freeze_loop_map) fastforce+
  have tw: "trigger_wf (the (trigger_of_draft d))" if "isTriggerComplete d" for d
    using isTriggerComplete_resolves [OF that] by auto
  have aw: "action_wf (the (action_of_draft d))" if "isActionComplete d" for d
    using isActionComplete_resolves [OF that] by auto
  have "list_all trigger_wf (case freezeTriggers ds of Some ts \<Rightarrow> ts | None \<Rightarrow> [])"
    unfolding t by (auto simp add: list_all_iff tw)
  moreover have "list_all action_wf (case freezeActions es of Some as \<Rightarrow> as | None \<Rightarrow> [])"
    unfolding a by (auto simp add: list_all_iff aw)
  ultimately show ?thesis using t a by blast
qed

text \<open>What loading yields. Whatever the storage holds, for whichever wallet, every loaded record has the current
  schema version and exactly one operator between two adjacent triggers and between two adjacent actions, and a
  record made from frozen lists has too.\<close>

theorem loaded_records_wf:
  "list_all record_wf (loadAutomations E parse in_browser ls w)
   \<and> record_wf (makeAutomation E ts as tops aops cad mini ov)"
proof -
  have "list_all record_wf (map (upgrade_stored E) (filter (\<lambda>s. au_schemaVersion (st_record s) = 3) items))" for items
    by (auto simp add: list_all_iff intro: upgrade_wf)
  then show ?thesis
    by (auto simp add: loadAutomations_def make_wf Let_def split: option.split)
qed

text \<open>Wallets do not see each other. Saving for one wallet changes nothing that another wallet loads, and what a
  wallet loads after saving is what it wrote, upgraded; when the write is refused, it still loads what it had.\<close>

theorem wallet_isolation:
  assumes "a \<noteq> b"
  shows "loadAutomations E parse in_browser (saveAutomations stringify quota_ok in_browser ls (Some a) items) (Some b)
       = loadAutomations E parse in_browser ls (Some b)
   \<and> loadAutomations E parse True (saveAutomations stringify quota_ok True ls (Some a) items) (Some a)
       = (if a \<noteq> [] \<and> quota_ok ls (stringify items)
          then loadAutomations E parse True [(storageKey (Some a), stringify items)] (Some a)
          else loadAutomations E parse True ls (Some a))"
proof -
  have "storageKey (Some a) \<noteq> storageKey (Some b)" if "a \<noteq> []" "b \<noteq> []"
    using storageKey_inj [of "Some a" "Some b"] that assms by (auto simp add: str_truthy_def)
  then show ?thesis
    by (auto simp add: loadAutomations_def saveAutomations_def Let_def dict_laws str_truthy_def)
qed

definition demo_clock :: clock_env where
  "demo_clock = \<lparr>parse_date = (\<lambda>_. NaN), now_iso = ''now'', fresh_id = ''id''\<rparr>"

theorem wallet_isolation_witness:
  "loadAutomations demo_clock (\<lambda>_. Some (Some [])) True
       (saveAutomations (\<lambda>_. ''[]'') (\<lambda>_ _. True) True [(storageKey (Some ''B''), ''[1]'')] (Some ''A'') []) (Some ''B'')
     = loadAutomations demo_clock (\<lambda>_. Some (Some [])) True [(storageKey (Some ''B''), ''[1]'')] (Some ''B'')"
proof -
  have "''A'' \<noteq> ''B''" by simp
  from wallet_isolation [OF this, of demo_clock "\<lambda>_. Some (Some [])" True "\<lambda>_. ''[]''" "\<lambda>_ _. True"
      "[(storageKey (Some ''B''), ''[1]'')]" "[]"]
  show ?thesis by (rule conjunct1)
qed

text \<open>Migrations are stable. Migrating a stored trigger twice is migrating it once, the kind never changes, a
  migrated price trigger that had a token has an asset, and a migrated watched swap has one of the two size
  comparators.\<close>

theorem migration_stable:
  "migrated (migrated t) = migrated t \<and> jprop (migrated t) ''kind'' = jprop t ''kind''
   \<and> \<not> (is_jstring (jprop t ''kind'') ''asset_price'' \<and> jprop t ''token'' \<noteq> None \<and> jprop (migrated t) ''asset'' = None)
   \<and> \<not> (is_jstring (jprop t ''kind'') ''account_swap'' \<and> \<not> is_jstring (jprop (migrated t) ''amountDirection'') ''at_least''
         \<and> \<not> is_jstring (jprop (migrated t) ''amountDirection'') ''at_most'')"
proof (intro conjI notI)
  show "migrated (migrated t) = migrated t" by (rule migrated_idem)
  show "jprop (migrated t) ''kind'' = jprop t ''kind''" by (rule migrated_kind)
next
  assume h: "is_jstring (jprop t ''kind'') ''asset_price'' \<and> jprop t ''token'' \<noteq> None \<and> jprop (migrated t) ''asset'' = None"
  then have "jprop (migrateAssetPriceTrigger t) ''kind'' = Some (JString ''asset_price'')"
    by (simp add: migrate_kind is_jstring_def)
  then have "migrated t = migrateAssetPriceTrigger t"
    by (simp add: migrated_def migrateAccountSwapTrigger_def is_jstring_def)
  then have "migrated t = JObject (migrate_quote (migrate_token (jfields t)))"
    using h by (simp add: migrateAssetPriceTrigger_def)
  moreover have "dict_has (jfields t) ''token''" using h by (cases t) (auto simp add: dict_has_def)
  then have "dict_has (migrate_token (jfields t)) ''asset''"
    by (auto simp add: migrate_token_def dict_has_def dict_laws split: option.split)
  ultimately show False using h by (simp add: migrate_quote_get dict_has_def)
next
  assume h: "is_jstring (jprop t ''kind'') ''account_swap'' \<and> \<not> is_jstring (jprop (migrated t) ''amountDirection'') ''at_least''
         \<and> \<not> is_jstring (jprop (migrated t) ''amountDirection'') ''at_most''"
  then have "migrated t = migrateAccountSwapTrigger t"
    by (auto simp add: migrated_def migrateAssetPriceTrigger_def is_jstring_def)
  then show False using h by (auto simp add: migrateAccountSwapTrigger_def is_jstring_def dict_laws split: if_splits)
qed

end
