(* ===== verification/Router.thy ===== *)
theory Router
  imports Types
begin

text \<open>
  src/src/lib/jupiter-trigger-router.ts and src/src/lib/keeper.ts: the choice of the venue a rule
  executes on, and the submission that carries the decision. The HTTP boundary is a parameter.
\<close>

datatype keeperReason =
  RMultipleTriggers
| RMultipleActions
| RTriggerNotAssetPrice
| RActionNotSwap
| RLoopedCadence
| RLinkedDownstream
| RLinkedChain
| RQuoteNotUsd
| RAssetNotCrypto
| RTriggerAssetNoMint
| RTriggerMintNotInSwap
| RSwapSameInputOutput
| RNonPositiveAmount

record jupiterTriggerParams =
  jp_inputMint :: string
  jp_outputMint :: string
  jp_triggerMint :: string
  jp_triggerCondition :: comparator
  jp_triggerPriceUsd :: jsnum
  jp_inputAmount :: string

datatype routeDecision = ToJupiter jupiterTriggerParams | ToKeeper keeperReason

definition link_chainId :: "automation \<Rightarrow> string option" where
  "link_chainId a = map_option cl_chainId (au_link a)"

definition atomic_of_ui :: "jsnum \<Rightarrow> nat \<Rightarrow> jsnum" where
  "atomic_of_ui amount decimals = js_floor (js_mul amount (js_pow10 decimals))"

text \<open>The swap checks of the router, after the shape of the rule is known.\<close>

definition route_swap ::
  "assetRef \<Rightarrow> quoteRef \<Rightarrow> comparator \<Rightarrow> jsnum \<Rightarrow> swapAction \<Rightarrow> cadence \<Rightarrow> (js_error, routeDecision) result" where
  "route_swap asset quote cmp threshold sw cad =
    (if cad \<noteq> Once then Inr (ToKeeper RLoopedCadence)
     else if str_truthy (sw_linkedDownstream sw) then Inr (ToKeeper RLinkedDownstream)
     else if quote \<noteq> QuoteUsd then Inr (ToKeeper RQuoteNotUsd)
     else if as_class asset \<noteq> Crypto then Inr (ToKeeper RAssetNotCrypto)
     else if \<not> str_truthy (as_mint asset) then Inr (ToKeeper RTriggerAssetNoMint)
     else let triggerMint = the (as_mint asset);
              inputMint = tr_mint (sw_inputToken sw);
              outputMint = tr_mint (sw_outputToken sw)
       in if inputMint = outputMint then Inr (ToKeeper RSwapSameInputOutput)
       else if triggerMint \<noteq> inputMint \<and> triggerMint \<noteq> outputMint then Inr (ToKeeper RTriggerMintNotInSwap)
       else if \<not> js_gt (sw_amount sw) (Num 0) then Inr (ToKeeper RNonPositiveAmount)
       else and_then (to_bigint (atomic_of_ui (sw_amount sw) (tr_decimals (sw_inputToken sw))))
         (\<lambda>raw. Inr (ToJupiter \<lparr>jp_inputMint = inputMint, jp_outputMint = outputMint,
            jp_triggerMint = triggerMint, jp_triggerCondition = cmp, jp_triggerPriceUsd = threshold,
            jp_inputAmount = show_int raw\<rparr>)))"

definition routeAutomation :: "automation \<Rightarrow> (js_error, routeDecision) result" where
  "routeAutomation a =
    (if str_truthy (link_chainId a) then Inr (ToKeeper RLinkedChain)
     else case au_triggers a of
       [t] \<Rightarrow> (case au_actions a of
           [act] \<Rightarrow> (case t of
               AssetPrice asset quote cmp threshold orc \<Rightarrow> (case act of
                   Swap sw \<Rightarrow> route_swap asset quote cmp threshold sw (au_cadence a)
                 | Transfer _ _ _ \<Rightarrow> Inr (ToKeeper RActionNotSwap))
             | _ \<Rightarrow> Inr (ToKeeper RTriggerNotAssetPrice))
         | _ \<Rightarrow> Inr (ToKeeper RMultipleActions))
     | _ \<Rightarrow> Inr (ToKeeper RMultipleTriggers))"

section \<open>Submission\<close>

datatype submitStatus = Pending | Active | Rejected

record keeperResponse =
  kr_id :: string
  kr_status :: submitStatus
  kr_forwardedToKeeper :: bool

record submitResult =
  sr_base :: keeperResponse
  sr_decision :: routeDecision

datatype httpResponse = HttpOk keeperResponse | HttpFail nat

text \<open>The POST either throws or gives a response; a response that is not ok throws.\<close>

definition submitAutomation ::
  "bool \<Rightarrow> (automation \<Rightarrow> (js_error, httpResponse) result) \<Rightarrow> automation \<Rightarrow> (js_error, submitResult) result" where
  "submitAutomation demo post a =
    and_then (routeAutomation a) (\<lambda>decision.
      if demo then Inr \<lparr>sr_base = \<lparr>kr_id = au_id a, kr_status = Active, kr_forwardedToKeeper = False\<rparr>,
        sr_decision = decision\<rparr>
      else and_then (post a) (\<lambda>res. case res of
          HttpFail n \<Rightarrow> Inl (ErrorMsg (''Submit failed: '' @ show_nat n))
        | HttpOk k \<Rightarrow> Inr \<lparr>sr_base = k, sr_decision = decision\<rparr>))"

definition deleteAutomation ::
  "bool \<Rightarrow> (string \<Rightarrow> (js_error, nat option) result) \<Rightarrow> string \<Rightarrow> (js_error, unit) result" where
  "deleteAutomation demo send_delete i =
    (if demo then Inr ()
     else and_then (send_delete i) (\<lambda>failed_status. case failed_status of
         None \<Rightarrow> Inr ()
       | Some n \<Rightarrow> if n = 404 then Inr () else Inl (ErrorMsg (''Delete failed: '' @ show_nat n))))"

section \<open>Lemmas\<close>

text \<open>Eligibility for the Jupiter venue, read off the documentation of the router.\<close>

definition jupiter_eligible :: "automation \<Rightarrow> assetRef \<Rightarrow> comparator \<Rightarrow> jsnum \<Rightarrow> swapAction \<Rightarrow> bool" where
  "jupiter_eligible a asset cmp threshold sw \<longleftrightarrow>
     \<not> str_truthy (link_chainId a) \<and>
     (\<exists>orc. au_triggers a = [AssetPrice asset QuoteUsd cmp threshold orc]) \<and>
     au_actions a = [Swap sw] \<and> au_cadence a = Once \<and>
     \<not> str_truthy (sw_linkedDownstream sw) \<and> as_class asset = Crypto \<and> str_truthy (as_mint asset) \<and>
     tr_mint (sw_inputToken sw) \<noteq> tr_mint (sw_outputToken sw) \<and>
     the (as_mint asset) \<in> {tr_mint (sw_inputToken sw), tr_mint (sw_outputToken sw)} \<and>
     js_lt (Num 0) (sw_amount sw)"

definition params_of :: "assetRef \<Rightarrow> comparator \<Rightarrow> jsnum \<Rightarrow> swapAction \<Rightarrow> int \<Rightarrow> jupiterTriggerParams" where
  "params_of asset cmp threshold sw raw = \<lparr>jp_inputMint = tr_mint (sw_inputToken sw),
     jp_outputMint = tr_mint (sw_outputToken sw), jp_triggerMint = the (as_mint asset),
     jp_triggerCondition = cmp, jp_triggerPriceUsd = threshold, jp_inputAmount = show_int raw\<rparr>"

lemma route_swap_jupiter:
  "route_swap asset quote cmp threshold sw cad = Inr (ToJupiter p) \<longleftrightarrow>
     cad = Once \<and> quote = QuoteUsd \<and>
     \<not> str_truthy (sw_linkedDownstream sw) \<and> as_class asset = Crypto \<and> str_truthy (as_mint asset) \<and>
     tr_mint (sw_inputToken sw) \<noteq> tr_mint (sw_outputToken sw) \<and>
     the (as_mint asset) \<in> {tr_mint (sw_inputToken sw), tr_mint (sw_outputToken sw)} \<and>
     js_lt (Num 0) (sw_amount sw) \<and>
     (\<exists>raw. atomic_of_ui (sw_amount sw) (tr_decimals (sw_inputToken sw)) = Num (of_int raw) \<and>
        p = params_of asset cmp threshold sw raw)"
  by (auto simp add: route_swap_def Let_def result_simps params_of_def)

lemma routeAutomation_jupiter:
  "routeAutomation a = Inr (ToJupiter p) \<longleftrightarrow>
     (\<exists>asset cmp threshold sw raw. jupiter_eligible a asset cmp threshold sw \<and>
        atomic_of_ui (sw_amount sw) (tr_decimals (sw_inputToken sw)) = Num (of_int raw) \<and>
        p = params_of asset cmp threshold sw raw)"
  by (auto simp add: routeAutomation_def jupiter_eligible_def route_swap_jupiter
      split: list.splits trigger.splits action.splits)

lemma routeAutomation_error:
  "routeAutomation a = Inl e \<longleftrightarrow>
     e = RangeError \<and> (\<exists>asset cmp threshold sw. jupiter_eligible a asset cmp threshold sw \<and>
        \<not> is_integer (atomic_of_ui (sw_amount sw) (tr_decimals (sw_inputToken sw))))"
  by (auto simp add: routeAutomation_def jupiter_eligible_def route_swap_def Let_def result_simps
      split: list.splits trigger.splits action.splits if_splits)

lemma atomic_nonneg:
  assumes "js_lt (Num 0) x" "atomic_of_ui x d = Num (of_int n)" shows "0 \<le> n"
proof -
  have "js_mul x (js_pow10 d) \<noteq> NaN" using assms(2) by (auto simp add: atomic_of_ui_def)
  moreover have "js_le (Num 0) (js_pow10 d)" by (simp add: js_pow10_def js_le_0_fl)
  ultimately have "js_le (Num 0) (js_mul x (js_pow10 d))"
    by (intro js_mul_nonneg js_lt_imp_le [OF assms(1)])
  then show ?thesis using assms(2) by (cases "js_mul x (js_pow10 d)") (auto simp add: atomic_of_ui_def)
qed

section \<open>Properties\<close>

text \<open>C30: The venue of a rule. A rule goes to the Jupiter venue exactly when it is not part of a chain and is a single
  dollar price trigger on a crypto asset with a single unlinked one-shot swap of two different tokens, one of them
  the watched one, of a positive amount; the parameters then carry its mints, its condition and its amount in
  base units, which is not negative. Routing fails only for such a rule whose amount overflows.\<close>

theorem routing_exact:
  "(routeAutomation a = Inr (ToJupiter p) \<longleftrightarrow>
     (\<exists>asset cmp threshold sw raw. jupiter_eligible a asset cmp threshold sw \<and> 0 \<le> raw \<and>
        atomic_of_ui (sw_amount sw) (tr_decimals (sw_inputToken sw)) = Num (of_int raw) \<and>
        p = params_of asset cmp threshold sw raw))
   \<and> (routeAutomation a = Inl e \<longleftrightarrow> e = RangeError \<and> (\<exists>asset cmp threshold sw. jupiter_eligible a asset cmp threshold sw \<and>
        \<not> is_integer (atomic_of_ui (sw_amount sw) (tr_decimals (sw_inputToken sw)))))"
proof -
  have "0 \<le> raw" if "jupiter_eligible a asset cmp threshold sw"
    "atomic_of_ui (sw_amount sw) (tr_decimals (sw_inputToken sw)) = Num (of_int raw)" for asset cmp threshold sw raw
    using that atomic_nonneg by (auto simp add: jupiter_eligible_def)
  then show ?thesis unfolding routeAutomation_jupiter routeAutomation_error by blast
qed

text \<open>The keeper boundary. A submission succeeds exactly when routing does and, outside the demo, the server
  accepts; its result carries the venue chosen by the router and, outside the demo, the server's answer. Deleting
  a rule the server does not know succeeds.\<close>

theorem submit_exact:
  "(submitAutomation demo post a = Inr r \<longleftrightarrow> routeAutomation a = Inr (sr_decision r) \<and>
     (if demo then sr_base r = \<lparr>kr_id = au_id a, kr_status = Active, kr_forwardedToKeeper = False\<rparr>
      else post a = Inr (HttpOk (sr_base r))))
   \<and> deleteAutomation False (\<lambda>_. Inr (Some 404)) i = Inr ()"
proof -
  obtain b d where r: "r = \<lparr>sr_base = b, sr_decision = d\<rparr>" by (cases r) auto
  have "submitAutomation demo post a = Inr r \<longleftrightarrow> routeAutomation a = Inr (sr_decision r) \<and>
     (if demo then sr_base r = \<lparr>kr_id = au_id a, kr_status = Active, kr_forwardedToKeeper = False\<rparr>
      else post a = Inr (HttpOk (sr_base r)))"
    unfolding r by (cases "routeAutomation a"; cases "post a")
      (auto simp add: submitAutomation_def split: httpResponse.splits)
  then show ?thesis by (simp add: deleteAutomation_def)
qed

text \<open>Dust orders. The guard on the amount looks at the number of the form, not at the base units: an otherwise
  eligible rule that sells less than one base unit is sent to the venue with an amount of zero.\<close>

theorem dust_is_routed:
  assumes "jupiter_eligible a asset cmp threshold sw" "sw_amount sw = Num q" "q * 10 ^ tr_decimals (sw_inputToken sw) < 1 / 2"
    "tr_decimals (sw_inputToken sw) \<le> 15"
  shows "\<exists>p. routeAutomation a = Inr (ToJupiter p) \<and> jp_inputAmount p = ''0''"
proof -
  let ?d = "tr_decimals (sw_inputToken sw)"
  have q: "0 < q" using assms(1,2) by (simp add: jupiter_eligible_def)
  have "(10::int) ^ ?d \<le> 2 ^ 53" using power_increasing [OF assms(4), of "10 :: int"] by simp
  then have p: "js_pow10 ?d = Num (10 ^ ?d)" using fl_of_int [of "10 ^ ?d"] by (simp add: js_pow10_def)
  have half: "fl (1/2) = Num (1/2)" using is_double_eighth [of 4] pow53_lt_pow1024 by (intro fl_double) simp_all
  have "js_le (Num 0) (fl (q * 10 ^ ?d))" using q by (intro js_le_0_fl) simp
  moreover have "js_le (fl (q * 10 ^ ?d)) (Num (1/2))" using assms(3) by (intro fl_le_double half) simp
  ultimately obtain r where r: "fl (q * 10 ^ ?d) = Num r" "0 \<le> r" "r \<le> 1/2" by (cases "fl (q * 10 ^ ?d)") auto
  then have "\<lfloor>r\<rfloor> = 0" by (simp add: floor_eq_iff)
  then have "atomic_of_ui (sw_amount sw) ?d = Num (of_int 0)" by (simp add: atomic_of_ui_def assms(2) p r(1))
  then have "routeAutomation a = Inr (ToJupiter (params_of asset cmp threshold sw 0))"
    unfolding routeAutomation_jupiter using assms(1) by blast
  moreover have "show_int 0 = ''0''" by code_simp
  ultimately show ?thesis by (simp add: params_of_def)
qed

definition demo_ref :: "string \<Rightarrow> tokenRef" where
  "demo_ref m = \<lparr>tr_mint = m, tr_symbol = m, tr_name = m, tr_logo = None, tr_decimals = 6, tr_metadataSource = Manual,
     tr_tokenProgram = None\<rparr>"

definition demo_dust_swap :: swapAction where
  "demo_dust_swap = \<lparr>sw_inputToken = demo_ref ''USDC'', sw_outputToken = demo_ref ''SOL'', sw_amount = Num (1 / 2 ^ 30),
     sw_linkedDownstream = None, sw_consumeUpstreamOutput = None\<rparr>"

definition demo_asset :: assetRef where
  "demo_asset = \<lparr>as_symbol = ''SOL'', as_displaySymbol = ''SOL'', as_name = ''Solana'', as_class = Crypto, as_logo = None,
     as_mint = Some ''SOL'', as_decimals = None, as_metadataSource = None\<rparr>"

definition demo_dust :: automation where
  "demo_dust = \<lparr>au_id = ''d'', au_schemaVersion = 3,
     au_triggers = [AssetPrice demo_asset QuoteUsd Above (Num 100) (OracleSwitchboard ''SOL'')],
     au_triggerOperators = [], au_actions = [Swap demo_dust_swap], au_actionOperators = [], au_cadence = Once,
     au_minIntervalSecs = Num 60, au_running = True, au_runs = Num 0, au_lastCheck = ''now'', au_createdAt = ''now'',
     au_pubkey = None, au_signature = None, au_nonce = None, au_executedAt = None, au_closedAt = None, au_link = None\<rparr>"

theorem dust_is_routed_witness:
  "\<exists>p. routeAutomation demo_dust = Inr (ToJupiter p) \<and> jp_inputAmount p = ''0''"
proof (rule dust_is_routed [where asset = demo_asset and cmp = Above and threshold = "Num 100" and sw = demo_dust_swap
      and q = "1 / 2 ^ 30"])
  show "jupiter_eligible demo_dust demo_asset Above (Num 100) demo_dust_swap"
    by (simp add: jupiter_eligible_def demo_dust_def demo_asset_def demo_dust_swap_def demo_ref_def str_truthy_def link_chainId_def)
qed (simp_all add: demo_dust_swap_def demo_ref_def)

end
