(* ===== verification/Program.thy ===== *)
theory Program
  imports Types
begin

text \<open>
  src/src/lib/program.ts: addresses derived from seeds, the on-chain forms of triggers, actions and
  cadences, and the instruction builders. The libraries (web3.js, bn.js, the Anchor client) are the
  fields of a solana record; an instruction is kept in the structured form the builders hand to the
  Anchor client, which may refuse to encode it.
\<close>

section \<open>The libraries\<close>

datatype seed = SeedText string | SeedKey pubkey | SeedU64 int

text \<open>An event of the program as the log parser yields it; older clients name the key pubkey.\<close>

record programEvent =
  ev_name :: string
  ev_automation :: "pubkey option"
  ev_pubkey :: "pubkey option"
  ev_nonce :: int

record solana =
  parse_pubkey :: "string \<Rightarrow> pubkey option"
  hex_pubkey :: "string \<Rightarrow> pubkey option"
  find_pda :: "seed list \<Rightarrow> pubkey \<Rightarrow> pubkey"
  new_bn :: "jsnum \<Rightarrow> (js_error, int) result"
  parse_logs :: "string list \<Rightarrow> programEvent list"

definition SOTAMA_SYSTEM_PROGRAM :: pubkey where
  "SOTAMA_SYSTEM_PROGRAM = ''11111111111111111111111111111111''"

definition SPL_TOKEN_PROGRAM_ID :: pubkey where
  "SPL_TOKEN_PROGRAM_ID = ''TokenkegQfeZyiNwAJbNbGKPFXCWuBvf9Ss623VQ5DA''"

definition TOKEN_2022_PROGRAM_ID :: pubkey where
  "TOKEN_2022_PROGRAM_ID = ''TokenzQdBNbLqP5VEhdkAS6EPFLC1PHnBqCXEpPxuEb''"

definition ASSOCIATED_TOKEN_PROGRAM_ID :: pubkey where
  "ASSOCIATED_TOKEN_PROGRAM_ID = ''ATokenGPvbdGVxr1b2hvZbsiqW5xWH25efTNsLJA8knL''"

definition isKnownTokenProgram :: "pubkey \<Rightarrow> bool" where
  "isKnownTokenProgram p \<longleftrightarrow> p = SPL_TOKEN_PROGRAM_ID \<or> p = TOKEN_2022_PROGRAM_ID"

text \<open>getAccountInfo: the call may throw; a missing account is None; otherwise its owner.\<close>

type_synonym account_info = "pubkey \<Rightarrow> (js_error, pubkey option) result"

definition resolveMintTokenProgram :: "account_info \<Rightarrow> pubkey \<Rightarrow> (js_error, pubkey) result" where
  "resolveMintTokenProgram info mint = and_then (info mint) (\<lambda>r. case r of
       None \<Rightarrow> Inl (ErrorMsg (''Mint '' @ mint @ '' does not exist on-chain''))
     | Some own \<Rightarrow> if \<not> isKnownTokenProgram own
         then Inl (ErrorMsg (''Mint '' @ mint @ '' is owned by '' @ own @ ''; not a known SPL token program''))
         else Inr own)"

section \<open>Derived addresses\<close>

definition isProgramConfigured :: "pubkey option \<Rightarrow> bool" where
  "isProgramConfigured prog \<longleftrightarrow> prog \<noteq> None"

definition mustProgramId :: "pubkey option \<Rightarrow> (js_error, pubkey) result" where
  "mustProgramId prog = opt_or_throw (ErrorMsg ''NEXT_PUBLIC_SOTAMA_PROGRAM_ID is not set.'') prog"

definition configPda :: "solana \<Rightarrow> pubkey \<Rightarrow> pubkey" where
  "configPda S prog = find_pda S [SeedText ''config''] prog"

text \<open>The nonce is written as an unsigned 64-bit number, which throws out of range.\<close>

definition automationPda :: "solana \<Rightarrow> pubkey \<Rightarrow> int \<Rightarrow> pubkey \<Rightarrow> (js_error, pubkey) result" where
  "automationPda S own nonce prog =
     (if 0 \<le> nonce \<and> nonce < 2 ^ 64
      then Inr (find_pda S [SeedText ''automation'', SeedKey own, SeedU64 nonce] prog)
      else Inl RangeError)"

definition associatedTokenAddressForProgram :: "solana \<Rightarrow> pubkey \<Rightarrow> pubkey \<Rightarrow> pubkey \<Rightarrow> pubkey" where
  "associatedTokenAddressForProgram S own mint tokenProgram =
     find_pda S [SeedKey own, SeedKey tokenProgram, SeedKey mint] ASSOCIATED_TOKEN_PROGRAM_ID"

definition associatedTokenAddress :: "solana \<Rightarrow> pubkey \<Rightarrow> pubkey \<Rightarrow> pubkey" where
  "associatedTokenAddress S own mint = associatedTokenAddressForProgram S own mint SPL_TOKEN_PROGRAM_ID"

section \<open>On-chain forms\<close>

record assetPriceSpec =
  op_feed :: pubkey
  op_quoteMint :: "pubkey option"
  op_comparator :: int
  op_threshold :: int
  op_expo :: int
  op_source :: int

datatype onChainTriggerSpec =
  OcAccountActivity pubkey "pubkey option" int
| OcAssetPrice assetPriceSpec
| OcTimeElapsed jsnum
| OcPriceRelativeToFill pubkey int jsnum

record swapSpec =
  os_inputMint :: pubkey
  os_outputMint :: pubkey
  os_destination :: pubkey
  os_amountIn :: int
  os_minAmountOut :: int
  os_linkedDownstream :: "pubkey option"
  os_linkFeeDeposit :: int
  os_consumeUpstreamOutput :: bool

datatype onChainActionSpec =
  OcTransferSol pubkey int
| OcTransferSpl pubkey pubkey int
| OcSwap swapSpec

datatype onChainCadence = OcOnce | OcRepeat jsnum | OcUntil int

definition cadenceToOnChain :: "solana \<Rightarrow> cadence \<Rightarrow> (js_error, onChainCadence) result" where
  "cadenceToOnChain S c = (case c of
       Once \<Rightarrow> Inr OcOnce
     | Repeat n \<Rightarrow> Inr (OcRepeat n)
     | Until d \<Rightarrow> and_then (new_bn S d) (\<lambda>b. Inr (OcUntil b)))"

section \<open>Instructions\<close>

type_synonym accounts = "(string \<times> pubkey) list"

record createArgs =
  ca_trigger :: onChainTriggerSpec
  ca_action :: onChainActionSpec
  ca_cadence :: onChainCadence
  ca_minIntervalSecs :: jsnum

record linkedArgs =
  la_enableFeeTopup :: bool
  la_seedAmount :: int
  la_bridgeEnabled :: bool

datatype instruction =
  IxCreateAutomation createArgs accounts
| IxCreateAutomationSpl createArgs accounts
| IxCreateAutomationSwap createArgs bool accounts
| IxCreateAutomationSwapLinked createArgs linkedArgs accounts
| IxCloseAutomation accounts
| IxCloseAutomationSpl accounts
| IxCloseAutomationSwap accounts
| IxCreateAta pubkey pubkey pubkey pubkey pubkey
| IxSystemTransfer pubkey pubkey int
| IxSyncNative pubkey pubkey

text \<open>The Anchor client: the error with which it refuses to encode an instruction, if it does.\<close>

type_synonym anchor = "instruction \<Rightarrow> js_error option"

definition encode_ix :: "anchor \<Rightarrow> instruction \<Rightarrow> (js_error, instruction) result" where
  "encode_ix A ix = (case A ix of Some e \<Rightarrow> Inl e | None \<Rightarrow> Inr ix)"

record built =
  bt_ix :: instruction
  bt_automation :: pubkey
  bt_ownerAta :: pubkey
  bt_automationAta :: pubkey

definition buildCreateAutomationIx ::
  "solana \<Rightarrow> anchor \<Rightarrow> pubkey \<Rightarrow> pubkey \<Rightarrow> pubkey \<Rightarrow> createArgs \<Rightarrow> int \<Rightarrow> (js_error, instruction \<times> pubkey) result" where
  "buildCreateAutomationIx S A prog own keeper args nonce =
     and_then (automationPda S own nonce prog) (\<lambda>automation.
     and_then (encode_ix A (IxCreateAutomation args
        [(''owner'', own), (''config'', configPda S prog), (''automation'', automation),
         (''keeper'', keeper), (''systemProgram'', SOTAMA_SYSTEM_PROGRAM)])) (\<lambda>ix.
     Inr (ix, automation)))"

definition token_accounts ::
  "solana \<Rightarrow> pubkey \<Rightarrow> pubkey \<Rightarrow> pubkey \<Rightarrow> pubkey \<Rightarrow> pubkey \<Rightarrow> (pubkey \<times> pubkey)" where
  "token_accounts S prog own automation mint tokenProgram =
     (associatedTokenAddressForProgram S own mint tokenProgram,
      associatedTokenAddressForProgram S automation mint tokenProgram)"

definition buildCreateAutomationSplIx ::
  "solana \<Rightarrow> anchor \<Rightarrow> pubkey \<Rightarrow> pubkey \<Rightarrow> pubkey \<Rightarrow> createArgs \<Rightarrow> pubkey \<Rightarrow> int \<Rightarrow> pubkey option
    \<Rightarrow> (js_error, built) result" where
  "buildCreateAutomationSplIx S A prog own keeper args mint nonce tokenProgram =
     (let tp = (case tokenProgram of Some p \<Rightarrow> p | None \<Rightarrow> SPL_TOKEN_PROGRAM_ID) in
      and_then (automationPda S own nonce prog) (\<lambda>automation.
      let (ownerAta, automationAta) = token_accounts S prog own automation mint tp in
      and_then (encode_ix A (IxCreateAutomationSpl args
        [(''owner'', own), (''config'', configPda S prog), (''automation'', automation), (''mint'', mint),
         (''ownerAta'', ownerAta), (''automationAta'', automationAta), (''keeper'', keeper),
         (''tokenProgram'', tp), (''systemProgram'', SOTAMA_SYSTEM_PROGRAM)])) (\<lambda>ix.
      Inr \<lparr>bt_ix = ix, bt_automation = automation, bt_ownerAta = ownerAta, bt_automationAta = automationAta\<rparr>)))"

definition swap_accounts ::
  "solana \<Rightarrow> pubkey \<Rightarrow> pubkey \<Rightarrow> pubkey \<Rightarrow> pubkey \<Rightarrow> pubkey \<Rightarrow> pubkey \<Rightarrow> accounts" where
  "swap_accounts S prog own keeper automation mint tp =
     [(''owner'', own), (''config'', configPda S prog), (''automation'', automation), (''inputMint'', mint),
      (''ownerInputAta'', fst (token_accounts S prog own automation mint tp)),
      (''automationInputAta'', snd (token_accounts S prog own automation mint tp)),
      (''keeper'', keeper), (''tokenProgram'', tp), (''systemProgram'', SOTAMA_SYSTEM_PROGRAM)]"

definition buildCreateAutomationSwapIx ::
  "solana \<Rightarrow> anchor \<Rightarrow> pubkey \<Rightarrow> pubkey \<Rightarrow> pubkey \<Rightarrow> createArgs \<Rightarrow> pubkey \<Rightarrow> int \<Rightarrow> pubkey option
    \<Rightarrow> (js_error, built) result" where
  "buildCreateAutomationSwapIx S A prog own keeper args mint nonce tokenProgram =
     (let tp = (case tokenProgram of Some p \<Rightarrow> p | None \<Rightarrow> SPL_TOKEN_PROGRAM_ID) in
      and_then (automationPda S own nonce prog) (\<lambda>automation.
      and_then (encode_ix A (IxCreateAutomationSwap args False (swap_accounts S prog own keeper automation mint tp))) (\<lambda>ix.
      Inr \<lparr>bt_ix = ix, bt_automation = automation,
        bt_ownerAta = fst (token_accounts S prog own automation mint tp),
        bt_automationAta = snd (token_accounts S prog own automation mint tp)\<rparr>)))"

definition buildCreateAutomationSwapLinkedIx ::
  "solana \<Rightarrow> anchor \<Rightarrow> pubkey \<Rightarrow> pubkey \<Rightarrow> pubkey \<Rightarrow> createArgs \<Rightarrow> linkedArgs \<Rightarrow> pubkey \<Rightarrow> int \<Rightarrow> pubkey option
    \<Rightarrow> (js_error, built) result" where
  "buildCreateAutomationSwapLinkedIx S A prog own keeper args la mint nonce tokenProgram =
     (let tp = (case tokenProgram of Some p \<Rightarrow> p | None \<Rightarrow> SPL_TOKEN_PROGRAM_ID) in
      and_then (automationPda S own nonce prog) (\<lambda>automation.
      and_then (encode_ix A (IxCreateAutomationSwapLinked args la (swap_accounts S prog own keeper automation mint tp))) (\<lambda>ix.
      Inr \<lparr>bt_ix = ix, bt_automation = automation,
        bt_ownerAta = fst (token_accounts S prog own automation mint tp),
        bt_automationAta = snd (token_accounts S prog own automation mint tp)\<rparr>)))"

definition buildCloseAutomationIx ::
  "solana \<Rightarrow> anchor \<Rightarrow> pubkey \<Rightarrow> pubkey \<Rightarrow> pubkey \<Rightarrow> pubkey \<Rightarrow> (js_error, instruction) result" where
  "buildCloseAutomationIx S A prog own automation treasury =
     encode_ix A (IxCloseAutomation [(''owner'', own), (''automation'', automation),
        (''config'', configPda S prog), (''treasury'', treasury)])"

definition buildCloseAutomationSplIx ::
  "solana \<Rightarrow> anchor \<Rightarrow> pubkey \<Rightarrow> pubkey \<Rightarrow> pubkey \<Rightarrow> pubkey \<Rightarrow> pubkey \<Rightarrow> pubkey option
    \<Rightarrow> (js_error, instruction \<times> pubkey \<times> pubkey) result" where
  "buildCloseAutomationSplIx S A prog own automation mint treasury tokenProgram =
     (let tp = (case tokenProgram of Some p \<Rightarrow> p | None \<Rightarrow> SPL_TOKEN_PROGRAM_ID);
          (ownerAta, automationAta) = token_accounts S prog own automation mint tp in
      and_then (encode_ix A (IxCloseAutomationSpl [(''owner'', own), (''automation'', automation),
        (''config'', configPda S prog), (''treasury'', treasury), (''mint'', mint),
        (''ownerAta'', ownerAta), (''automationAta'', automationAta), (''tokenProgram'', tp)])) (\<lambda>ix.
      Inr (ix, ownerAta, automationAta)))"

definition buildCloseAutomationSwapIx ::
  "solana \<Rightarrow> anchor \<Rightarrow> pubkey \<Rightarrow> pubkey \<Rightarrow> pubkey \<Rightarrow> pubkey \<Rightarrow> pubkey \<Rightarrow> pubkey option
    \<Rightarrow> (js_error, instruction \<times> pubkey \<times> pubkey) result" where
  "buildCloseAutomationSwapIx S A prog own automation inputMint treasury tokenProgram =
     (let tp = (case tokenProgram of Some p \<Rightarrow> p | None \<Rightarrow> SPL_TOKEN_PROGRAM_ID);
          (ownerAta, automationAta) = token_accounts S prog own automation inputMint tp in
      and_then (encode_ix A (IxCloseAutomationSwap [(''owner'', own), (''automation'', automation),
        (''config'', configPda S prog), (''treasury'', treasury), (''inputMint'', inputMint),
        (''ownerInputAta'', ownerAta), (''automationInputAta'', automationAta), (''tokenProgram'', tp)])) (\<lambda>ix.
      Inr (ix, ownerAta, automationAta)))"

lemma encode_ix_Inr [result_simps]: "encode_ix A ix = Inr ix' \<longleftrightarrow> A ix = None \<and> ix' = ix"
  by (auto simp add: encode_ix_def split: option.splits)

lemma automationPda_Inr [result_simps]:
  "automationPda S own nonce prog = Inr p \<longleftrightarrow> 0 \<le> nonce \<and> nonce < 2 ^ 64 \<and>
     p = find_pda S [SeedText ''automation'', SeedKey own, SeedU64 nonce] prog"
  by (auto simp add: automationPda_def)

section \<open>Creation events\<close>

definition is_created_event :: "programEvent \<Rightarrow> bool" where
  "is_created_event e \<longleftrightarrow> ev_name e = ''AutomationCreated'' \<or> ev_name e = ''automationCreated''"

definition event_key :: "programEvent \<Rightarrow> pubkey option" where
  "event_key e = (case ev_automation e of Some p \<Rightarrow> Some p | None \<Rightarrow> ev_pubkey e)"

fun first_created :: "programEvent list \<Rightarrow> (pubkey \<times> string) option" where
  "first_created [] = None"
| "first_created (e # es) = (if is_created_event e then
      (case event_key e of None \<Rightarrow> first_created es | Some p \<Rightarrow> Some (p, show_int (ev_nonce e)))
    else first_created es)"

definition parseAutomationCreated :: "solana \<Rightarrow> string list \<Rightarrow> (pubkey \<times> string) option" where
  "parseAutomationCreated S logs = first_created (parse_logs S logs)"

section \<open>Documented behaviour of the libraries\<close>

text \<open>
  bn.js: an integer below 2 to the 53 in magnitude is taken exactly, and a number that is not below
  that bound (NaN and the infinities included) is refused.
\<close>

definition bn_documented :: "solana \<Rightarrow> bool" where
  "bn_documented S \<longleftrightarrow> (\<forall>n. \<bar>n\<bar> < 2 ^ 53 \<longrightarrow> new_bn S (Num (of_int n)) = Inr n) \<and>
     (\<forall>x. \<not> js_lt (js_abs x) (Num (2 ^ 53)) \<longrightarrow> (\<exists>e. new_bn S x = Inl e))"

text \<open>Program derived addresses of one owner: different nonces give different addresses.\<close>

definition pda_documented :: "solana \<Rightarrow> bool" where
  "pda_documented S \<longleftrightarrow> (\<forall>own prog m n. 0 \<le> m \<longrightarrow> 0 \<le> n \<longrightarrow>
     find_pda S [SeedText ''automation'', SeedKey own, SeedU64 m] prog =
     find_pda S [SeedText ''automation'', SeedKey own, SeedU64 n] prog \<longrightarrow> m = n)"

text \<open>A small instance of the libraries, for evaluation.\<close>

definition demo_bn :: "jsnum \<Rightarrow> (js_error, int) result" where
  "demo_bn x = (case x of Num q \<Rightarrow> if \<bar>q\<bar> < 2 ^ 53 then Inr \<lfloor>q\<rfloor> else Inl RangeError | _ \<Rightarrow> Inl RangeError)"

definition demo_pda :: "seed list \<Rightarrow> pubkey \<Rightarrow> pubkey" where
  "demo_pda seeds p = concat (map (\<lambda>s. case s of SeedText t \<Rightarrow> ''t'' @ t | SeedKey k \<Rightarrow> ''k'' @ k
     | SeedU64 n \<Rightarrow> ''n'' @ show_int n) seeds) @ ''@'' @ p"

definition demo_solana :: solana where
  "demo_solana = \<lparr>parse_pubkey = (\<lambda>s. if s = [] then None else Some s),
     hex_pubkey = (\<lambda>s. if s = [] then None else Some s),
     find_pda = demo_pda, new_bn = demo_bn, parse_logs = (\<lambda>_. [])\<rparr>"

lemma demo_bn_documented: "bn_documented demo_solana"
  unfolding bn_documented_def
proof (intro conjI allI impI)
  fix n :: int
  assume n: "\<bar>n\<bar> < 2 ^ 53"
  then have "\<bar>of_int n :: rat\<bar> < 2 ^ 53"
    by (metis of_int_abs of_int_less_iff of_int_numeral of_int_power)
  then show "new_bn demo_solana (Num (of_int n)) = Inr n"
    by (simp add: demo_solana_def demo_bn_def)
next
  fix x
  assume "\<not> js_lt (js_abs x) (Num (2 ^ 53))"
  then show "\<exists>e. new_bn demo_solana x = Inl e"
    by (cases x) (auto simp add: demo_solana_def demo_bn_def)
qed

lemma show_int_inject: "0 \<le> m \<Longrightarrow> 0 \<le> n \<Longrightarrow> show_int m = show_int n \<longleftrightarrow> m = n"
  by (metis nat_eq_iff2 nat_0_le show_int_nonneg)

lemma demo_pda_documented: "pda_documented demo_solana"
  by (simp add: pda_documented_def demo_solana_def demo_pda_def show_int_inject)

end
