(* ===== verification/JsString.thy ===== *)
theory JsString
  imports Prelude "HOL-Library.Sublist"
begin

text \<open>
  The string methods of JavaScript the code calls, on ASCII text: case mapping, prefixes, suffixes,
  searching and slicing.
\<close>

definition upper_char :: "char \<Rightarrow> char" where
  "upper_char c = (let n = of_char c :: nat in if 97 \<le> n \<and> n \<le> 122 then char_of (n - 32) else c)"

definition lower_char :: "char \<Rightarrow> char" where
  "lower_char c = (let n = of_char c :: nat in if 65 \<le> n \<and> n \<le> 90 then char_of (n + 32) else c)"

definition to_upper :: "string \<Rightarrow> string" where
  "to_upper s = map upper_char s"

definition to_lower :: "string \<Rightarrow> string" where
  "to_lower s = map lower_char s"

definition starts_with :: "string \<Rightarrow> string \<Rightarrow> bool" where
  "starts_with s p \<longleftrightarrow> prefix p s"

definition ends_with :: "string \<Rightarrow> string \<Rightarrow> bool" where
  "ends_with s p \<longleftrightarrow> suffix p s"

fun str_includes :: "string \<Rightarrow> string \<Rightarrow> bool" where
  "str_includes s p = (prefix p s \<or> (case s of [] \<Rightarrow> False | _ # t \<Rightarrow> str_includes t p))"

declare str_includes.simps [simp del]

definition index_of_char :: "string \<Rightarrow> char \<Rightarrow> nat option" where
  "index_of_char s c = find_index (\<lambda>i x. x = c) s"

definition last_index_of_char :: "string \<Rightarrow> char \<Rightarrow> nat option" where
  "last_index_of_char s c = map_option (\<lambda>i. length s - Suc i) (index_of_char (rev s) c)"

text \<open>slice(a, b) for bounds inside the string.\<close>

definition slice :: "string \<Rightarrow> nat \<Rightarrow> nat \<Rightarrow> string" where
  "slice s a b = drop a (take b s)"

definition is_space :: "char \<Rightarrow> bool" where
  "is_space c \<longleftrightarrow> (of_char c :: nat) \<in> {9, 10, 11, 12, 13, 32, 160}"

definition trim :: "string \<Rightarrow> string" where
  "trim s = rev (dropWhile is_space (rev (dropWhile is_space s)))"

lemma upper_char_idem: "upper_char (upper_char c) = upper_char c"
proof -
  have "(of_char c :: nat) < 256" by simp
  then show ?thesis by (auto simp add: upper_char_def Let_def)
qed

lemma to_upper_idem: "to_upper (to_upper s) = to_upper s"
  by (simp add: to_upper_def upper_char_idem)

lemma str_includes_iff: "str_includes s p \<longleftrightarrow> (\<exists>a b. s = a @ p @ b)"
proof (induction s)
  case Nil
  then show ?case by (auto simp add: str_includes.simps)
next
  case (Cons x s)
  note IH = Cons.IH
  show ?case
  proof
    assume "str_includes (x # s) p"
    then consider "prefix p (x # s)" | "str_includes s p" by (auto simp add: str_includes.simps [of "x # s"])
    then show "\<exists>a b. x # s = a @ p @ b"
    proof cases
      case 1
      then obtain b where "x # s = [] @ p @ b" by (auto simp add: prefix_def)
      then show ?thesis by blast
    next
      case 2
      then obtain a b where "s = a @ p @ b" using Cons by blast
      then have "x # s = (x # a) @ p @ b" by simp
      then show ?thesis by blast
    qed
  next
    assume "\<exists>a b. x # s = a @ p @ b"
    then obtain a b where ab: "x # s = a @ p @ b" by blast
    have step: "str_includes (x # s) p \<longleftrightarrow> prefix p (x # s) \<or> str_includes s p"
      by (simp add: str_includes.simps [of "x # s"])
    show "str_includes (x # s) p"
    proof (cases a)
      case Nil
      then show ?thesis using ab step by (auto simp add: prefix_def)
    next
      case (Cons y a')
      then have "s = a' @ p @ b" using ab by simp
      then show ?thesis using step IH by blast
    qed
  qed
qed

lemma index_of_char_Some:
  "index_of_char s c = Some i \<Longrightarrow> i < length s \<and> s ! i = c \<and> c \<notin> set (take i s)"
  using find_index_Some [of "\<lambda>i x. x = c" s i]
  by (auto simp add: index_of_char_def in_set_conv_nth)

lemma last_index_of_char_Some:
  "last_index_of_char s c = Some i \<Longrightarrow> i < length s \<and> s ! i = c \<and> c \<notin> set (drop (Suc i) s)"
proof -
  assume "last_index_of_char s c = Some i"
  then obtain j where j: "index_of_char (rev s) c = Some j" "i = length s - Suc j"
    by (auto simp add: last_index_of_char_def)
  from index_of_char_Some [OF j(1)] have "j < length s" "rev s ! j = c" "c \<notin> set (take j (rev s))"
    by auto
  then show ?thesis using j(2) by (auto simp add: rev_nth take_rev Suc_diff_Suc)
qed

lemma index_of_char_append: "c \<notin> set a \<Longrightarrow> index_of_char (a @ c # b) c = Some (length a)"
proof (cases "index_of_char (a @ c # b) c")
  case None
  then have "\<forall>j < length (a @ c # b). (a @ c # b) ! j \<noteq> c"
    by (simp only: index_of_char_def find_index_None)
  from spec [OF this, of "length a"] show "c \<notin> set a \<Longrightarrow> ?thesis" by simp
next
  case (Some i)
  assume c: "c \<notin> set a"
  from index_of_char_Some [OF Some] have i: "(a @ c # b) ! i = c" "c \<notin> set (take i (a @ c # b))" by auto
  have "\<not> i < length a" using i(1) c by (auto simp add: nth_append)
  moreover have "\<not> length a < i"
  proof
    assume "length a < i"
    then have "c \<in> set (take i (a @ c # b))" by (cases "i - length a") auto
    with i(2) show False by simp
  qed
  ultimately show ?thesis using Some by simp
qed

lemma last_index_of_char_append: "c \<notin> set b \<Longrightarrow> last_index_of_char (a @ c # b) c = Some (length a)"
  using index_of_char_append [of c "rev b" "rev a"] by (simp add: last_index_of_char_def)

lemma index_of_char_None: "index_of_char s c = None \<longleftrightarrow> c \<notin> set s"
  by (auto simp add: index_of_char_def find_index_None in_set_conv_nth)

lemma last_index_of_char_None: "last_index_of_char s c = None \<longleftrightarrow> c \<notin> set s"
  by (simp add: last_index_of_char_def index_of_char_None)

end
