(* ===== verification/Oracles.thy ===== *)
theory Oracles
  imports Types JsString
begin

text \<open>
  src/src/lib/assets.ts, src/src/lib/oracles.ts and the price calls of src/src/lib/jupiter.ts: the
  catalog of popular assets, the parsing of Pyth symbols, the lookup of feeds in the Hermes
  registry, the resolvers and their priority, and the price stream with its polling fallback. The
  HTTP services are parameters: a request gives the decoded body, or None when it throws, is not ok
  or has the wrong shape (the code maps all three to the same result).
\<close>

section \<open>Assets\<close>

fun ASSET_CLASS_LABELS :: "assetClass \<Rightarrow> string" where
  "ASSET_CLASS_LABELS Crypto = ''Crypto''"
| "ASSET_CLASS_LABELS Equity = ''Equity''"
| "ASSET_CLASS_LABELS Commodity = ''Commodity''"
| "ASSET_CLASS_LABELS FX = ''FX''"
| "ASSET_CLASS_LABELS Metal = ''Metal''"

definition CLASSES_COMING_SOON :: "assetClass list" where
  "CLASSES_COMING_SOON = [Commodity]"

definition displaySymbolFromBase :: "string \<Rightarrow> string" where
  "displaySymbolFromBase base = (case index_of_char base CHR ''.'' of
       None \<Rightarrow> base
     | Some dot \<Rightarrow> drop (Suc dot) base)"

definition parsePythSymbol :: "string \<Rightarrow> (string \<times> string) option" where
  "parsePythSymbol symbol = (case last_index_of_char symbol CHR ''/'' of
       None \<Rightarrow> None
     | Some slash \<Rightarrow> let quote = drop (Suc slash) symbol in
         (case index_of_char symbol CHR ''.'' of
            None \<Rightarrow> None
          | Some dot \<Rightarrow> if slash \<le> dot then None
              else let base = slice symbol (Suc dot) slash in
                if base = [] then None else Some (base, quote)))"

type_synonym asset_extras = "string option \<times> nat option \<times> metadata_source option"

definition no_extras :: asset_extras where
  "no_extras = (None, None, None)"

definition canonical_extras :: "string \<Rightarrow> nat \<Rightarrow> asset_extras" where
  "canonical_extras m d = (Some m, Some d, Some Canonical)"

definition mk_asset :: "string \<Rightarrow> string \<Rightarrow> string \<Rightarrow> assetClass \<Rightarrow> asset_extras \<Rightarrow> assetRef" where
  "mk_asset symb disp nm cl ex = \<lparr>as_symbol = symb, as_displaySymbol = disp, as_name = nm,
     as_class = cl, as_logo = None, as_mint = fst ex, as_decimals = fst (snd ex),
     as_metadataSource = snd (snd ex)\<rparr>"

fun POPULAR_ASSETS :: "assetClass \<Rightarrow> assetRef list" where
  "POPULAR_ASSETS Crypto = [
     mk_asset ''SOL'' ''SOL'' ''Solana'' Crypto (canonical_extras ''So11111111111111111111111111111111111111112'' 9),
     mk_asset ''BTC'' ''BTC'' ''Bitcoin'' Crypto no_extras,
     mk_asset ''ETH'' ''ETH'' ''Ethereum'' Crypto no_extras,
     mk_asset ''USDC'' ''USDC'' ''USD Coin'' Crypto (canonical_extras ''EPjFWdd5AufqSSqeM2qN1xzybapC8G4wEGGkZwyTDt1v'' 6),
     mk_asset ''JUP'' ''JUP'' ''Jupiter'' Crypto (canonical_extras ''JUPyiwrYJFskUPiHa7hkeR8VUtAeFoSYbKedZNsDvCN'' 6),
     mk_asset ''BONK'' ''BONK'' ''Bonk'' Crypto (canonical_extras ''DezXAZ8z7PnrnRJjz3wXBoRgixCa6xjnB7YaB1pPB263'' 5),
     mk_asset ''WIF'' ''WIF'' ''dogwifhat'' Crypto (canonical_extras ''EKpQGSJtjMFqKZ9KQanSqYXRcF8fBopzLHYxdM65zcjm'' 6),
     mk_asset ''PYTH'' ''PYTH'' ''Pyth Network'' Crypto (canonical_extras ''HZ1JovNiVvGrGNiiYvEozEVgZ58xaU3RKwX8eACQBCt3'' 6)]"
| "POPULAR_ASSETS Equity = [
     mk_asset ''US.NVDA'' ''NVDA'' ''NVIDIA Corp'' Equity no_extras,
     mk_asset ''US.AAPL'' ''AAPL'' ''Apple Inc'' Equity no_extras,
     mk_asset ''US.MSFT'' ''MSFT'' ''Microsoft Corp'' Equity no_extras,
     mk_asset ''US.TSLA'' ''TSLA'' ''Tesla Inc'' Equity no_extras,
     mk_asset ''US.AMZN'' ''AMZN'' ''Amazon.com Inc'' Equity no_extras,
     mk_asset ''US.GOOGL'' ''GOOGL'' ''Alphabet Inc'' Equity no_extras,
     mk_asset ''US.META'' ''META'' ''Meta Platforms Inc'' Equity no_extras,
     mk_asset ''US.NFLX'' ''NFLX'' ''Netflix Inc'' Equity no_extras,
     mk_asset ''US.SPY'' ''SPY'' ''SPDR S&P 500 ETF'' Equity no_extras,
     mk_asset ''US.QQQ'' ''QQQ'' ''Invesco QQQ Trust'' Equity no_extras]"
| "POPULAR_ASSETS Commodity = [
     mk_asset ''WTI'' ''WTI'' ''Crude Oil (WTI)'' Commodity no_extras,
     mk_asset ''BRENT'' ''BRENT'' ''Crude Oil (Brent)'' Commodity no_extras,
     mk_asset ''NG'' ''NG'' ''Natural Gas'' Commodity no_extras,
     mk_asset ''CORN'' ''CORN'' ''Corn'' Commodity no_extras,
     mk_asset ''WHEAT'' ''WHEAT'' ''Wheat'' Commodity no_extras,
     mk_asset ''SOYB'' ''SOYB'' ''Soybeans'' Commodity no_extras]"
| "POPULAR_ASSETS FX = [
     mk_asset ''USD'' ''USD'' ''US Dollar'' FX no_extras,
     mk_asset ''EUR'' ''EUR'' ''Euro'' FX no_extras,
     mk_asset ''GBP'' ''GBP'' ''British Pound'' FX no_extras,
     mk_asset ''JPY'' ''JPY'' ''Japanese Yen'' FX no_extras,
     mk_asset ''CHF'' ''CHF'' ''Swiss Franc'' FX no_extras,
     mk_asset ''CAD'' ''CAD'' ''Canadian Dollar'' FX no_extras,
     mk_asset ''AUD'' ''AUD'' ''Australian Dollar'' FX no_extras,
     mk_asset ''NZD'' ''NZD'' ''New Zealand Dollar'' FX no_extras,
     mk_asset ''SGD'' ''SGD'' ''Singapore Dollar'' FX no_extras]"
| "POPULAR_ASSETS Metal = [
     mk_asset ''XAU'' ''XAU'' ''Gold'' Metal no_extras,
     mk_asset ''XAG'' ''XAG'' ''Silver'' Metal no_extras,
     mk_asset ''XPD'' ''XPD'' ''Palladium'' Metal no_extras,
     mk_asset ''XPT'' ''XPT'' ''Platinum'' Metal no_extras]"

declare POPULAR_ASSETS.simps [simp del]

section \<open>Feeds\<close>

record feedAttributes =
  fa_asset_type :: "string option"
  fa_base :: "string option"
  fa_quote_currency :: "string option"
  fa_symbol :: "string option"
  fa_display_symbol :: "string option"
  fa_description :: "string option"
  fa_generic_symbol :: "string option"

record feedEntry =
  fe_id :: string
  fe_attributes :: "feedAttributes option"

definition attr :: "(feedAttributes \<Rightarrow> string option) \<Rightarrow> feedEntry \<Rightarrow> string option" where
  "attr sel f = Option.bind (fe_attributes f) sel"

text \<open>The first of several optional texts that is present and not empty (the operator ||).\<close>

fun first_truthy :: "string option list \<Rightarrow> string option" where
  "first_truthy [] = None"
| "first_truthy (p # ps) = (if str_truthy p then p else first_truthy ps)"

definition first_present :: "'a option \<Rightarrow> 'a option \<Rightarrow> 'a option" where
  "first_present p q = (case p of Some x \<Rightarrow> Some x | None \<Rightarrow> q)"

definition default_to :: "'a \<Rightarrow> 'a option \<Rightarrow> 'a" where
  "default_to d p = (case p of Some x \<Rightarrow> x | None \<Rightarrow> d)"

definition normalizeFeedId :: "string \<Rightarrow> string" where
  "normalizeFeedId i = (if starts_with i ''0x'' then drop 2 i else i)"

definition assetClassFromFeed :: "feedEntry \<Rightarrow> assetClass" where
  "assetClassFromFeed f =
    (let t = to_lower (default_to [] (attr fa_asset_type f)) in
     if t = ''equity'' then Equity
     else if t = ''commodity'' then Commodity
     else if t = ''fx'' then FX
     else if t = ''metal'' then Metal
     else Crypto)"

fun ASSET_CLASS_TO_QUERY_TYPE :: "assetClass \<Rightarrow> string" where
  "ASSET_CLASS_TO_QUERY_TYPE Crypto = ''crypto''"
| "ASSET_CLASS_TO_QUERY_TYPE Equity = ''equity''"
| "ASSET_CLASS_TO_QUERY_TYPE Commodity = ''commodity''"
| "ASSET_CLASS_TO_QUERY_TYPE FX = ''fx''"
| "ASSET_CLASS_TO_QUERY_TYPE Metal = ''metal''"

definition feedBase :: "feedEntry \<Rightarrow> string option" where
  "feedBase f = (if str_truthy (attr fa_base f) then attr fa_base f
     else if \<not> str_truthy (attr fa_symbol f) then None
     else map_option fst (parsePythSymbol (the (attr fa_symbol f))))"

definition feedQuote :: "feedEntry \<Rightarrow> string option" where
  "feedQuote f = (if str_truthy (attr fa_quote_currency f) then attr fa_quote_currency f
     else if \<not> str_truthy (attr fa_symbol f) then None
     else map_option snd (parsePythSymbol (the (attr fa_symbol f))))"

definition isMainSessionFeed :: "feedEntry \<Rightarrow> bool" where
  "isMainSessionFeed f = ends_with (default_to [] (attr fa_symbol f)) ''/USD''"

text \<open>The three kinds of request the code sends to the registry.\<close>

datatype feedQuery = QueryById string | QueryText string | QueryTextClass string string

type_synonym hermes = "feedQuery \<Rightarrow> feedEntry list option"

record pythFeedMetadata =
  pm_feedId :: string
  pm_symbol :: string
  pm_base :: "string option"
  pm_quote :: "string option"
  pm_description :: string
  pm_assetClass :: assetClass

definition metadata_of_feed :: "string \<Rightarrow> feedEntry \<Rightarrow> pythFeedMetadata" where
  "metadata_of_feed i m =
    (let symbol = default_to [] (attr fa_symbol m);
         parsed = (if symbol \<noteq> [] then parsePythSymbol symbol else None);
         base = first_present (feedBase m) (map_option fst parsed);
         quote = first_present (feedQuote m) (map_option snd parsed)
     in \<lparr>pm_feedId = i,
       pm_symbol = (if symbol \<noteq> [] then symbol
          else default_to (take 6 i) base @ ''/'' @ default_to ''USD'' quote),
       pm_base = base, pm_quote = quote,
       pm_description = default_to i (first_truthy [attr fa_description m, attr fa_generic_symbol m, base]),
       pm_assetClass = assetClassFromFeed m\<rparr>)"

definition lookupPythFeedMetadata :: "hermes \<Rightarrow> string \<Rightarrow> pythFeedMetadata option" where
  "lookupPythFeedMetadata H feedId =
    (let i = normalizeFeedId feedId in
     case H (QueryById i) of
       None \<Rightarrow> None
     | Some feeds \<Rightarrow> map_option (metadata_of_feed i)
         (first_present (find (\<lambda>f. normalizeFeedId (fe_id f) = i) feeds) (nth_opt feeds 0)))"

section \<open>Search by class\<close>

record cand =
  cd_feed :: feedEntry
  cd_ticker :: string
  cd_inverted :: bool

definition cand_of :: "feedEntry \<Rightarrow> cand option" where
  "cand_of f = (if \<not> str_truthy (feedBase f) \<or> \<not> str_truthy (feedQuote f) then None
     else let base = the (feedBase f); quote = the (feedQuote f) in
       if to_upper quote = ''USD'' then Some \<lparr>cd_feed = f, cd_ticker = base, cd_inverted = False\<rparr>
       else if to_upper base = ''USD'' then Some \<lparr>cd_feed = f, cd_ticker = quote, cd_inverted = True\<rparr>
       else None)"

definition better_cand :: "cand option \<Rightarrow> cand \<Rightarrow> bool" where
  "better_cand existing c = (case existing of
       None \<Rightarrow> True
     | Some e \<Rightarrow> if cd_inverted e \<and> \<not> cd_inverted c then True
         else if \<not> cd_inverted e \<and> cd_inverted c then False
         else \<not> isMainSessionFeed (cd_feed e) \<and> isMainSessionFeed (cd_feed c))"

fun group_feeds :: "feedEntry list \<Rightarrow> (string, cand) dict \<Rightarrow> (string, cand) dict" where
  "group_feeds [] d = d"
| "group_feeds (f # fs) d = (case cand_of f of
       None \<Rightarrow> group_feeds fs d
     | Some c \<Rightarrow> if better_cand (dict_get d (cd_ticker c)) c
         then group_feeds fs (dict_set d (cd_ticker c) c) else group_feeds fs d)"

definition popularBySymbol :: "assetClass \<Rightarrow> (string, assetRef) dict" where
  "popularBySymbol cl = fold (\<lambda>p d. dict_set d (fst p) (snd p))
     (map (\<lambda>a. (to_upper (as_symbol a), a)) (POPULAR_ASSETS cl)) []"

definition found_asset :: "assetClass \<Rightarrow> string \<Rightarrow> cand \<Rightarrow> assetRef" where
  "found_asset cl ticker c = (case dict_get (popularBySymbol cl) (to_upper ticker) of
       Some p \<Rightarrow> p
     | None \<Rightarrow> mk_asset ticker (displaySymbolFromBase ticker)
         (default_to [] (first_truthy [attr fa_description (cd_feed c), attr fa_generic_symbol (cd_feed c)]))
         cl no_extras)"

fun emit_assets :: "assetClass \<Rightarrow> (string, cand) dict \<Rightarrow> string list \<Rightarrow> assetRef list" where
  "emit_assets cl [] seen = []"
| "emit_assets cl ((ticker, c) # d) seen =
     (if ticker \<in> set seen then emit_assets cl d seen
      else found_asset cl ticker c # emit_assets cl d (ticker # seen))"

definition searchFeedsByClass :: "hermes \<Rightarrow> assetClass \<Rightarrow> string \<Rightarrow> assetRef list" where
  "searchFeedsByClass H cl query =
    (case H (QueryTextClass (trim query) (ASSET_CLASS_TO_QUERY_TYPE cl)) of
       None \<Rightarrow> []
     | Some feeds \<Rightarrow> emit_assets cl (group_feeds feeds []) [])"

section \<open>Pair and asset lookups\<close>

definition upper_opt :: "string option \<Rightarrow> string option" where
  "upper_opt s = map_option to_upper s"

record foundFeed =
  ff_feedId :: string
  ff_symbol :: string
  ff_inverted :: bool

definition lookupDirectPairFeed :: "hermes \<Rightarrow> string \<Rightarrow> string \<Rightarrow> (string \<times> string) option" where
  "lookupDirectPairFeed H baseSymbol quoteSymbol =
    (let upper = to_upper baseSymbol; quoteUpper = to_upper quoteSymbol in
     case H (QueryText upper) of
       None \<Rightarrow> None
     | Some feeds \<Rightarrow>
        (case find (\<lambda>f. upper_opt (feedBase f) = Some upper \<and> upper_opt (feedQuote f) = Some quoteUpper) feeds of
           Some m \<Rightarrow> Some (normalizeFeedId (fe_id m),
             default_to (upper @ ''/'' @ quoteUpper) (attr fa_symbol m))
         | None \<Rightarrow> None))"

definition lookupPairFeed :: "hermes \<Rightarrow> assetRef \<Rightarrow> assetRef \<Rightarrow> foundFeed option" where
  "lookupPairFeed H base quote =
    (case lookupDirectPairFeed H (as_displaySymbol base) (as_displaySymbol quote) of
       Some d \<Rightarrow> Some \<lparr>ff_feedId = fst d, ff_symbol = snd d, ff_inverted = False\<rparr>
     | None \<Rightarrow> (case lookupDirectPairFeed H (as_displaySymbol quote) (as_displaySymbol base) of
           Some d \<Rightarrow> Some \<lparr>ff_feedId = fst d, ff_symbol = snd d, ff_inverted = True\<rparr>
         | None \<Rightarrow> None))"

definition direct_match :: "assetRef \<Rightarrow> feedEntry \<Rightarrow> bool" where
  "direct_match asset f \<longleftrightarrow>
     (upper_opt (feedBase f) = Some (to_upper (as_symbol asset)) \<or>
      upper_opt (feedBase f) = Some (to_upper (as_displaySymbol asset))) \<and>
     upper_opt (feedQuote f) = Some ''USD''"

definition inverted_match :: "assetRef \<Rightarrow> feedEntry \<Rightarrow> bool" where
  "inverted_match asset f \<longleftrightarrow> upper_opt (feedBase f) = Some ''USD'' \<and>
     (upper_opt (feedQuote f) = Some (to_upper (as_symbol asset)) \<or>
      upper_opt (feedQuote f) = Some (to_upper (as_displaySymbol asset)))"

definition choose_feed :: "assetRef \<Rightarrow> feedEntry list \<Rightarrow> foundFeed option" where
  "choose_feed asset feeds =
    (let directCandidates = filter (direct_match asset) feeds in
     case first_present (find isMainSessionFeed directCandidates) (nth_opt directCandidates 0) of
       Some d \<Rightarrow> Some \<lparr>ff_feedId = normalizeFeedId (fe_id d),
         ff_symbol = default_to (default_to (as_symbol asset) (feedBase d) @ ''/USD'') (attr fa_symbol d),
         ff_inverted = False\<rparr>
     | None \<Rightarrow> (case nth_opt (filter (inverted_match asset) feeds) 0 of
           Some i \<Rightarrow> Some \<lparr>ff_feedId = normalizeFeedId (fe_id i),
             ff_symbol = default_to (''USD/'' @ default_to (as_symbol asset) (feedQuote i)) (attr fa_symbol i),
             ff_inverted = True\<rparr>
         | None \<Rightarrow> None))"

definition lookupFeedForAsset :: "hermes \<Rightarrow> assetRef \<Rightarrow> foundFeed option" where
  "lookupFeedForAsset H asset =
    (case H (QueryTextClass (as_displaySymbol asset) (ASSET_CLASS_TO_QUERY_TYPE (as_class asset))) of
       None \<Rightarrow> None
     | Some feeds \<Rightarrow> choose_feed asset feeds)"

section \<open>Jupiter prices\<close>

text \<open>The decoded price body: for a mint, an entry whose USD price may be missing.\<close>

type_synonym jupiter_prices = "string list \<Rightarrow> (string \<Rightarrow> jsnum option option) option"

definition valid_usd :: "jsnum option \<Rightarrow> bool" where
  "valid_usd p = (case p of None \<Rightarrow> False | Some x \<Rightarrow> is_finite x \<and> \<not> js_le x (Num 0))"

definition fetchJupiterPriceUSD :: "jupiter_prices \<Rightarrow> string \<Rightarrow> (jsnum \<times> int) option" where
  "fetchJupiterPriceUSD J mint = (if mint = [] then None
     else case J [mint] of
       None \<Rightarrow> None
     | Some body \<Rightarrow> (case body mint of
           None \<Rightarrow> None
         | Some usd \<Rightarrow> if valid_usd usd then Some (the usd, - 6) else None))"

fun collect_prices :: "(string \<Rightarrow> jsnum option option) \<Rightarrow> string list \<Rightarrow> (string, jsnum) dict \<Rightarrow> (string, jsnum) dict" where
  "collect_prices body [] out = out"
| "collect_prices body (m # ms) out =
     (let usd = Option.bind (body m) id in
      collect_prices body ms (if valid_usd usd then dict_set out m (the usd) else out))"

text \<open>The distinct elements in order of first occurrence: Array.from(new Set(xs)).\<close>

fun uniq_from :: "'a list \<Rightarrow> 'a list \<Rightarrow> 'a list" where
  "uniq_from seen [] = []"
| "uniq_from seen (x # xs) = (if x \<in> set seen then uniq_from seen xs else x # uniq_from (x # seen) xs)"

definition fetchJupiterPricesBatchUSD :: "jupiter_prices \<Rightarrow> string list \<Rightarrow> (string, jsnum) dict" where
  "fetchJupiterPricesBatchUSD J mints =
    (let uniq = uniq_from [] (filter (\<lambda>m. m \<noteq> []) mints) in
     if uniq = [] then []
     else case J uniq of None \<Rightarrow> [] | Some body \<Rightarrow> collect_prices body uniq [])"

section \<open>The resolvers\<close>

definition pyth_source :: "foundFeed \<Rightarrow> oracleSource" where
  "pyth_source f = OraclePyth (ff_feedId f) (ff_symbol f) (Some (ff_inverted f))"

definition resolvePyth :: "hermes \<Rightarrow> assetRef \<Rightarrow> quoteRef \<Rightarrow> oracleSource option" where
  "resolvePyth H asset quote = (case quote of
       QuoteUsd \<Rightarrow> if as_symbol asset = ''USD'' then None
         else map_option pyth_source (lookupFeedForAsset H asset)
     | QuoteAsset q \<Rightarrow> if as_symbol asset = as_symbol q then None
         else (case lookupPairFeed H asset q of
             Some pair \<Rightarrow> Some (pyth_source pair)
           | None \<Rightarrow> map_option pyth_source (lookupFeedForAsset H asset)))"

definition quote_display :: "quoteRef \<Rightarrow> string" where
  "quote_display q = (case q of QuoteUsd \<Rightarrow> ''USD'' | QuoteAsset a \<Rightarrow> as_displaySymbol a)"

definition resolveJupiter :: "hermes \<Rightarrow> jupiter_prices \<Rightarrow> assetRef \<Rightarrow> quoteRef \<Rightarrow> oracleSource option" where
  "resolveJupiter H J asset quote =
    (if \<not> str_truthy (as_mint asset) then None
     else if (case quote of QuoteUsd \<Rightarrow> False
              | QuoteAsset q \<Rightarrow> \<not> str_truthy (as_mint q) \<and> lookupFeedForAsset H q = None) then None
     else (case fetchJupiterPriceUSD J (the (as_mint asset)) of
         None \<Rightarrow> None
       | Some _ \<Rightarrow> Some (OracleJupiter (the (as_mint asset))
           (as_displaySymbol asset @ ''/'' @ quote_display quote))))"

fun first_hit :: "('q \<Rightarrow> 'r option) list \<Rightarrow> 'q \<Rightarrow> 'r option" where
  "first_hit [] q = None"
| "first_hit (r # rs) q = (case r q of Some hit \<Rightarrow> Some hit | None \<Rightarrow> first_hit rs q)"

definition resolveOracleForPair :: "hermes \<Rightarrow> jupiter_prices \<Rightarrow> assetRef \<Rightarrow> quoteRef \<Rightarrow> oracleSource" where
  "resolveOracleForPair H J asset quote =
    default_to (OracleSwitchboard (as_symbol asset))
      (first_hit [\<lambda>p. resolvePyth H (fst p) (snd p), \<lambda>p. resolveJupiter H J (fst p) (snd p)] (asset, quote))"

section \<open>Live prices\<close>

record parsedPrice =
  pp_price :: string
  pp_conf :: string
  pp_expo :: int
  pp_publish_time :: jsnum

record priceUpdate =
  pu_price :: jsnum
  pu_confidence :: jsnum
  pu_publishTime :: jsnum

text \<open>Number(s) for the decimal texts of the wire is a parameter.\<close>

definition parsedToUpdate :: "(string \<Rightarrow> jsnum) \<Rightarrow> parsedPrice option \<Rightarrow> priceUpdate option" where
  "parsedToUpdate num p = (case p of None \<Rightarrow> None
     | Some q \<Rightarrow> let scale = js_pow10_int (pp_expo q) in
         Some \<lparr>pu_price = js_mul (num (pp_price q)) scale, pu_confidence = js_mul (num (pp_conf q)) scale,
           pu_publishTime = js_mul (pp_publish_time q) (Num 1000)\<rparr>)"

type_synonym latest = "string \<Rightarrow> parsedPrice list option option"

text \<open>The body may lack the parsed array (the inner None).\<close>

definition fetchPythLatest :: "(string \<Rightarrow> jsnum) \<Rightarrow> latest \<Rightarrow> string \<Rightarrow> priceUpdate option" where
  "fetchPythLatest num L feedId = (case L (normalizeFeedId feedId) of
       None \<Rightarrow> None
     | Some body \<Rightarrow> parsedToUpdate num (Option.bind body (\<lambda>ps. nth_opt ps 0)))"

definition fetchPairPrice ::
  "hermes \<Rightarrow> (string \<Rightarrow> jsnum) \<Rightarrow> latest \<Rightarrow> assetRef \<Rightarrow> quoteRef \<Rightarrow> (jsnum \<times> bool) option" where
  "fetchPairPrice H num L asset quote = (case quote of
       QuoteUsd \<Rightarrow> Option.bind (lookupFeedForAsset H asset) (\<lambda>found.
         Option.bind (fetchPythLatest num L (ff_feedId found)) (\<lambda>p. Some (pu_price p, True)))
     | QuoteAsset q \<Rightarrow>
        (case Option.bind (lookupDirectPairFeed H (as_symbol asset) (as_symbol q))
                (\<lambda>d. fetchPythLatest num L (fst d)) of
           Some p \<Rightarrow> Some (pu_price p, True)
         | None \<Rightarrow> Option.bind (lookupFeedForAsset H asset) (\<lambda>b. Option.bind (lookupFeedForAsset H q) (\<lambda>qf.
             Option.bind (fetchPythLatest num L (ff_feedId b)) (\<lambda>bp.
               Option.bind (fetchPythLatest num L (ff_feedId qf)) (\<lambda>qp.
                 if js_eq (pu_price qp) (Num 0) then None
                 else Some (js_div (pu_price bp) (pu_price qp), False)))))))"

section \<open>The price stream\<close>

text \<open>
  subscribePythStream as a machine. Its state: the alive flag, whether the event source is open,
  whether an interval is installed, the fetches in flight (the seed, the first tick of startPoll,
  ticks of the interval), the updates and the modes handed to the callbacks.
\<close>

datatype streamMode = Live | Polling

record stream =
  sm_alive :: bool
  sm_esOpen :: bool
  sm_poll :: bool
  sm_seed :: bool
  sm_starting :: nat
  sm_ticks :: nat
  sm_updates :: "priceUpdate list"
  sm_modes :: "streamMode list"

datatype streamEvent =
  SeedDone "priceUpdate option"
| Message "priceUpdate option"
| SourceError
| FirstTickDone "priceUpdate option"
| IntervalFires
| TickDone "priceUpdate option"
| CloseStream

definition deliver :: "priceUpdate option \<Rightarrow> stream \<Rightarrow> stream" where
  "deliver u s = (case u of
       Some x \<Rightarrow> if sm_alive s then s\<lparr>sm_updates := sm_updates s @ [x]\<rparr> else s
     | None \<Rightarrow> s)"

text \<open>startPoll runs until its first await: the mode is reported and, while alive, a fetch starts.
  The interval is installed when that first tick returns.\<close>

definition startPoll :: "stream \<Rightarrow> stream" where
  "startPoll s = s\<lparr>sm_modes := sm_modes s @ [Polling], sm_starting := Suc (sm_starting s)\<rparr>"

definition subscribePythStream :: "bool \<Rightarrow> stream" where
  "subscribePythStream source_ok =
    (let s = \<lparr>sm_alive = True, sm_esOpen = False, sm_poll = False, sm_seed = True, sm_starting = 0,
        sm_ticks = 0, sm_updates = [], sm_modes = []\<rparr>
     in if source_ok then s\<lparr>sm_esOpen := True, sm_modes := [Live]\<rparr> else startPoll s)"

text \<open>One event; None when the event cannot happen in the state.\<close>

fun stream_event :: "streamEvent \<Rightarrow> stream \<Rightarrow> stream option" where
  "stream_event (SeedDone u) s = (if sm_seed s then Some ((deliver u s)\<lparr>sm_seed := False\<rparr>) else None)"
| "stream_event (Message u) s = (if sm_esOpen s then Some (deliver u s) else None)"
| "stream_event SourceError s = (if sm_esOpen s then
      (let s' = s\<lparr>sm_esOpen := False\<rparr> in Some (if sm_alive s' then startPoll s' else s')) else None)"
| "stream_event (FirstTickDone u) s = (if 0 < sm_starting s then
      Some ((deliver u s)\<lparr>sm_starting := sm_starting s - 1, sm_poll := True\<rparr>) else None)"
| "stream_event IntervalFires s = (if sm_poll s then
      Some (if sm_alive s then s\<lparr>sm_ticks := Suc (sm_ticks s)\<rparr> else s) else None)"
| "stream_event (TickDone u) s = (if 0 < sm_ticks s then
      Some ((deliver u s)\<lparr>sm_ticks := sm_ticks s - 1\<rparr>) else None)"
| "stream_event CloseStream s = Some (s\<lparr>sm_alive := False, sm_esOpen := False, sm_poll := False\<rparr>)"

inductive stream_reach :: "stream \<Rightarrow> bool" where
  stream_start: "stream_reach (subscribePythStream ok)"
| stream_next: "stream_reach s \<Longrightarrow> stream_event e s = Some s' \<Longrightarrow> stream_reach s'"

section \<open>Lemmas\<close>

inductive_cases stream_reachE: "stream_reach s"

lemma parsePythSymbol_build:
  assumes "CHR ''.'' \<notin> set pre" "CHR ''/'' \<notin> set q" "b \<noteq> []"
  shows "parsePythSymbol (pre @ ''.'' @ b @ ''/'' @ q) = Some (b, q)"
proof -
  have "last_index_of_char (pre @ ''.'' @ b @ ''/'' @ q) CHR ''/'' = Some (length (pre @ ''.'' @ b))"
    using last_index_of_char_append [OF assms(2), of "pre @ ''.'' @ b"] by simp
  moreover have "index_of_char (pre @ ''.'' @ b @ ''/'' @ q) CHR ''.'' = Some (length pre)"
    using index_of_char_append [OF assms(1), of "b @ ''/'' @ q"] by simp
  ultimately show ?thesis using assms(3) by (simp add: parsePythSymbol_def Let_def slice_def)
qed

lemma parsePythSymbol_split:
  assumes "parsePythSymbol s = Some (b, q)"
  shows "\<exists>pre. s = pre @ ''.'' @ b @ ''/'' @ q \<and> CHR ''.'' \<notin> set pre \<and> CHR ''/'' \<notin> set q \<and> b \<noteq> []"
proof -
  obtain i j where ij: "last_index_of_char s CHR ''/'' = Some j" "index_of_char s CHR ''.'' = Some i" "i < j"
    "b = slice s (Suc i) j" "q = drop (Suc j) s" "b \<noteq> []"
    using assms by (auto simp add: parsePythSymbol_def Let_def split: option.splits if_splits)
  have i: "i < length s" "s ! i = CHR ''.''" "CHR ''.'' \<notin> set (take i s)"
    using index_of_char_Some [OF ij(2)] by auto
  have j: "j < length s" "s ! j = CHR ''/''" "CHR ''/'' \<notin> set (drop (Suc j) s)"
    using last_index_of_char_Some [OF ij(1)] by auto
  have b: "b = drop (Suc i) (take j s)" using ij(4) by (simp add: slice_def)
  have "take j s = take i (take j s) @ take j s ! i # drop (Suc i) (take j s)"
    by (rule id_take_nth_drop) (use ij(3) j(1) in simp)
  then have t: "take j s = take i s @ CHR ''.'' # b"
    unfolding b using i(2) ij(3) by (simp add: min_def)
  have "s = take j s @ s ! j # drop (Suc j) s" using j(1) by (rule id_take_nth_drop)
  then have "s = (take i s @ CHR ''.'' # b) @ CHR ''/'' # q"
    unfolding t [symmetric] ij(5) j(2) .
  then have "s = take i s @ ''.'' @ b @ ''/'' @ q" by simp
  then show ?thesis using i j ij by blast
qed

lemma upper_opt_Some: "upper_opt p = Some u \<longleftrightarrow> (\<exists>x. p = Some x \<and> to_upper x = u)"
  by (cases p) (auto simp add: upper_opt_def)

lemma first_present_Some: "first_present p q = Some x \<longleftrightarrow> p = Some x \<or> (p = None \<and> q = Some x)"
  by (cases p) (auto simp add: first_present_def)

lemma nth_opt_0: "nth_opt xs 0 = Some x \<longleftrightarrow> (\<exists>ys. xs = x # ys)" "nth_opt xs 0 = None \<longleftrightarrow> xs = []"
  by (cases xs; auto)+

lemma find_member: "find p xs = Some x \<Longrightarrow> x \<in> set xs \<and> p x"
  by (induction xs) (auto split: if_splits)

lemma nth_opt_0_member: "nth_opt xs 0 = Some x \<Longrightarrow> x \<in> set xs"
  by (cases xs) auto

lemma choose_feed_direct:
  assumes "choose_feed a feeds = Some r" "\<not> ff_inverted r"
  shows "\<exists>f \<in> set feeds. direct_match a f \<and> ff_feedId r = normalizeFeedId (fe_id f) \<and>
    (isMainSessionFeed f \<or> (\<forall>g \<in> set feeds. direct_match a g \<longrightarrow> \<not> isMainSessionFeed g))"
proof -
  let ?c = "filter (direct_match a) feeds"
  obtain f where f: "first_present (find isMainSessionFeed ?c) (nth_opt ?c 0) = Some f"
      "ff_feedId r = normalizeFeedId (fe_id f)"
    using assms by (auto simp add: choose_feed_def Let_def split: option.splits)
  from f(1) consider "find isMainSessionFeed ?c = Some f" | "find isMainSessionFeed ?c = None" "nth_opt ?c 0 = Some f"
    by (auto simp add: first_present_Some)
  then show ?thesis
  proof cases
    case 1
    then have "f \<in> set ?c" "isMainSessionFeed f" by (auto dest: find_member)
    then show ?thesis using f(2) by auto
  next
    case 2
    then have "f \<in> set ?c" "\<forall>g \<in> set ?c. \<not> isMainSessionFeed g"
      by (auto simp add: find_None_iff dest: nth_opt_0_member)
    then show ?thesis using f(2) by auto
  qed
qed

lemma choose_feed_inverted:
  assumes "choose_feed a feeds = Some r" "ff_inverted r"
  shows "(\<forall>f \<in> set feeds. \<not> direct_match a f) \<and>
    (\<exists>f \<in> set feeds. inverted_match a f \<and> ff_feedId r = normalizeFeedId (fe_id f))"
proof -
  let ?c = "filter (direct_match a) feeds"
  have none: "first_present (find isMainSessionFeed ?c) (nth_opt ?c 0) = None"
    using assms by (auto simp add: choose_feed_def Let_def split: option.splits)
  then have "?c = []" by (cases ?c) (auto simp add: first_present_def split: option.splits)
  moreover obtain f where "nth_opt (filter (inverted_match a) feeds) 0 = Some f" "ff_feedId r = normalizeFeedId (fe_id f)"
    using assms none by (auto simp add: choose_feed_def Let_def split: option.splits)
  moreover from this have "f \<in> set feeds" "inverted_match a f"
    by (auto dest!: nth_opt_0_member)
  ultimately show ?thesis by (auto simp add: filter_empty_conv)
qed

lemma choose_feed_None:
  "choose_feed a feeds = None \<longleftrightarrow> (\<forall>f \<in> set feeds. \<not> direct_match a f \<and> \<not> inverted_match a f)"
proof -
  let ?c = "filter (direct_match a) feeds" and ?i = "filter (inverted_match a) feeds"
  have "first_present (find isMainSessionFeed ?c) (nth_opt ?c 0) = None \<longleftrightarrow> ?c = []"
    by (cases ?c) (simp_all add: first_present_def split: option.splits)
  then have "choose_feed a feeds = None \<longleftrightarrow> ?c = [] \<and> ?i = []"
    by (auto simp add: choose_feed_def Let_def nth_opt_0(2) split: option.splits)
  then show ?thesis by (auto simp add: filter_empty_conv)
qed

text \<open>Grouping keeps one candidate per ticker, direct whenever the feeds have a direct one.\<close>

lemma group_feeds_ok: "dict_ok d \<Longrightarrow> dict_ok (group_feeds fs d)"
  by (induction fs d rule: group_feeds.induct) (auto simp add: dict_ok_set split: option.splits)

lemma group_feeds_source:
  "dict_get (group_feeds fs d) t = Some c \<Longrightarrow>
     dict_get d t = Some c \<or> (\<exists>f \<in> set fs. cand_of f = Some c \<and> cd_ticker c = t)"
  by (induction fs d rule: group_feeds.induct) (auto simp add: dict_laws split: option.splits if_splits)

lemma group_feeds_keeps_direct:
  "dict_get d t = Some e \<Longrightarrow> \<not> cd_inverted e \<Longrightarrow>
     \<exists>c. dict_get (group_feeds fs d) t = Some c \<and> \<not> cd_inverted c"
proof (induction fs d arbitrary: e rule: group_feeds.induct)
  case (2 f fs d)
  show ?case
  proof (cases "cand_of f")
    case (Some c)
    show ?thesis
    proof (cases "better_cand (dict_get d (cd_ticker c)) c")
      case True
      have "\<exists>e'. dict_get (dict_set d (cd_ticker c) c) t = Some e' \<and> \<not> cd_inverted e'"
        using 2(4,5) True by (auto simp add: dict_laws better_cand_def)
      then show ?thesis using 2(2) Some True by auto
    qed (use 2 Some in auto)
  qed (use 2 in simp)
qed simp

lemma group_feeds_direct:
  assumes "f \<in> set fs" "cand_of f = Some c" "\<not> cd_inverted c"
  shows "\<exists>c'. dict_get (group_feeds fs d) (cd_ticker c) = Some c' \<and> \<not> cd_inverted c'"
  using assms
proof (induction fs d rule: group_feeds.induct)
  case (2 g fs d)
  show ?case
  proof (cases "g = f")
    case True
    let ?d = "if better_cand (dict_get d (cd_ticker c)) c then dict_set d (cd_ticker c) c else d"
    have "\<exists>e. dict_get ?d (cd_ticker c) = Some e \<and> \<not> cd_inverted e"
      using 2 by (auto simp add: dict_laws better_cand_def split: option.splits)
    then obtain e where "dict_get ?d (cd_ticker c) = Some e" "\<not> cd_inverted e" by blast
    from group_feeds_keeps_direct [OF this] show ?thesis using True 2 by (auto split: if_splits)
  next
    case False
    then show ?thesis using 2 by (auto split: option.splits)
  qed
qed simp

lemma emit_assets_eq:
  "dict_ok d \<Longrightarrow> fst ` set d \<inter> set seen = {} \<Longrightarrow> emit_assets cl d seen = map (\<lambda>p. found_asset cl (fst p) (snd p)) d"
proof (induction cl d seen rule: emit_assets.induct)
  case (2 cl ticker c d seen)
  then show ?case by (auto simp add: dict_ok_def)
qed simp

lemma search_eq:
  "searchFeedsByClass H cl query =
     (case H (QueryTextClass (trim query) (ASSET_CLASS_TO_QUERY_TYPE cl)) of None \<Rightarrow> []
      | Some feeds \<Rightarrow> map (\<lambda>p. found_asset cl (fst p) (snd p)) (group_feeds feeds []))"
  by (simp add: searchFeedsByClass_def emit_assets_eq group_feeds_ok split: option.splits)

lemma deliver_closed: "\<not> sm_alive s \<Longrightarrow> deliver u s = s"
  by (simp add: deliver_def split: option.splits)

lemma deliver_fields [simp]:
  "sm_alive (deliver u s) = sm_alive s" "sm_poll (deliver u s) = sm_poll s"
  "sm_esOpen (deliver u s) = sm_esOpen s" "sm_starting (deliver u s) = sm_starting s"
  by (simp_all add: deliver_def split: option.splits)

lemma closed_stays:
  assumes "stream_event e s = Some s'" "\<not> sm_alive s"
  shows "\<not> sm_alive s' \<and> sm_updates s' = sm_updates s \<and> sm_modes s' = sm_modes s"
  using assms by (cases e) (auto simp add: deliver_closed Let_def split: if_splits)

text \<open>At most one polling loop is ever started, and only without an open event source.\<close>

definition stream_inv :: "stream \<Rightarrow> bool" where
  "stream_inv s \<longleftrightarrow> sm_starting s \<le> 1 \<and>
     (sm_esOpen s \<longrightarrow> sm_starting s = 0 \<and> \<not> sm_poll s) \<and>
     (sm_poll s \<longrightarrow> sm_starting s = 0)"

lemma stream_inv_reach: "stream_reach s \<Longrightarrow> stream_inv s"
proof (induction rule: stream_reach.induct)
  case (stream_start ok)
  then show ?case by (simp add: stream_inv_def subscribePythStream_def startPoll_def Let_def)
next
  case (stream_next s e s')
  then show ?case
    by (cases e) (auto simp add: stream_inv_def startPoll_def Let_def split: if_splits)
qed

lemma group_feeds_keeps: "dict_get d t = Some e \<Longrightarrow> \<exists>c. dict_get (group_feeds fs d) t = Some c"
proof (induction fs d arbitrary: e rule: group_feeds.induct)
  case (2 f fs d)
  show ?case
  proof (cases "cand_of f")
    case (Some c)
    have "\<exists>e'. dict_get (dict_set d (cd_ticker c) c) t = Some e'" using 2(4) by (simp add: dict_laws)
    then show ?thesis using 2(2,3,4) Some by (cases "better_cand (dict_get d (cd_ticker c)) c") auto
  qed (use 2 in simp)
qed simp

lemma group_feeds_has: "f \<in> set fs \<Longrightarrow> cand_of f = Some c \<Longrightarrow> \<exists>c'. dict_get (group_feeds fs d) (cd_ticker c) = Some c'"
proof (induction fs d rule: group_feeds.induct)
  case (2 g fs d)
  show ?case
  proof (cases "g = f")
    case True
    let ?d = "if better_cand (dict_get d (cd_ticker c)) c then dict_set d (cd_ticker c) c else d"
    have "\<exists>e. dict_get ?d (cd_ticker c) = Some e" by (auto simp add: dict_laws better_cand_def split: option.splits)
    then obtain e where "dict_get ?d (cd_ticker c) = Some e" by blast
    from group_feeds_keeps [OF this] show ?thesis using True 2(4,5) by (auto split: if_splits)
  next
    case False
    then show ?thesis using 2 by (auto split: option.splits)
  qed
qed simp

lemma dict_keyed_values:
  "dict_ok d \<Longrightarrow> (\<And>k v. dict_get d k = Some v \<Longrightarrow> key v = k) \<Longrightarrow> map fst d = map key (map snd d)"
  by (auto simp add: dict_ok_def dict_get_map_of)

text \<open>A run of events.\<close>

fun stream_run :: "streamEvent list \<Rightarrow> stream \<Rightarrow> stream option" where
  "stream_run [] s = Some s"
| "stream_run (e # es) s = Option.bind (stream_event e s) (stream_run es)"

lemma stream_run_closed: "stream_run es s = Some s' \<Longrightarrow> \<not> sm_alive s \<Longrightarrow>
    \<not> sm_alive s' \<and> sm_updates s' = sm_updates s \<and> sm_modes s' = sm_modes s"
proof (induction es s rule: stream_run.induct)
  case (2 e es s)
  then obtain t where "stream_event e s = Some t" "stream_run es t = Some s'" by (auto simp add: bind_eq_Some_conv)
  with 2 closed_stays [of e s t] show ?case by auto
qed simp

lemma stream_run_reach: "stream_reach s \<Longrightarrow> stream_run es s = Some s' \<Longrightarrow> stream_reach s'"
proof (induction es s rule: stream_run.induct)
  case (2 e es s)
  then obtain t where "stream_event e s = Some t" "stream_run es t = Some s'" by (auto simp add: bind_eq_Some_conv)
  with 2 stream_next show ?case by blast
qed simp

section \<open>Properties\<close>

text \<open>Reading a feed symbol. A Pyth symbol is split into base and quote exactly when it is a prefix without a
  dot, a dot, a non-empty base, a slash and a quote without a slash, and then into those two.\<close>

theorem parsePythSymbol_exact:
  "parsePythSymbol s = Some (b, q) \<longleftrightarrow>
    (\<exists>pre. s = pre @ ''.'' @ b @ ''/'' @ q \<and> CHR ''.'' \<notin> set pre \<and> CHR ''/'' \<notin> set q \<and> b \<noteq> [])"
  using parsePythSymbol_build parsePythSymbol_split by blast

text \<open>The feed of an asset. Whatever the registry lists, the chosen feed is one of its feeds and quotes the
  asset against the dollar; a feed quoted the other way round is chosen, and marked inverted, only when no feed
  quotes the asset directly, and an extended-session feed only when no direct feed is a regular one.\<close>

theorem lookupFeedForAsset_choice:
  assumes "lookupFeedForAsset H a = Some r"
  shows "\<exists>feeds f. H (QueryTextClass (as_displaySymbol a) (ASSET_CLASS_TO_QUERY_TYPE (as_class a))) = Some feeds \<and>
    f \<in> set feeds \<and> ff_feedId r = normalizeFeedId (fe_id f) \<and>
    (if ff_inverted r then inverted_match a f \<and> \<not> list_ex (direct_match a) feeds
     else direct_match a f \<and> (isMainSessionFeed f \<or> \<not> list_ex (\<lambda>g. direct_match a g \<and> isMainSessionFeed g) feeds))"
proof -
  obtain feeds where f: "H (QueryTextClass (as_displaySymbol a) (ASSET_CLASS_TO_QUERY_TYPE (as_class a))) = Some feeds"
    "choose_feed a feeds = Some r" using assms by (auto simp add: lookupFeedForAsset_def split: option.splits)
  show ?thesis
  proof (cases "ff_inverted r")
    case True
    with choose_feed_inverted [OF f(2)] f(1) show ?thesis by (auto simp add: list_ex_iff)
  next
    case False
    from choose_feed_direct [OF f(2) this] obtain g where "g \<in> set feeds" "direct_match a g"
      "ff_feedId r = normalizeFeedId (fe_id g)"
      "isMainSessionFeed g \<or> (\<forall>h \<in> set feeds. direct_match a h \<longrightarrow> \<not> isMainSessionFeed h)" by blast
    with f(1) False show ?thesis by (intro exI [of _ feeds] exI [of _ g]) (auto simp add: list_ex_iff)
  qed
qed

definition demo_feed :: "string \<Rightarrow> string \<Rightarrow> string \<Rightarrow> feedEntry" where
  "demo_feed i b q = \<lparr>fe_id = ''0x'' @ i, fe_attributes = Some \<lparr>fa_asset_type = None, fa_base = Some b,
     fa_quote_currency = Some q, fa_symbol = Some (''Crypto.'' @ b @ ''/'' @ q), fa_display_symbol = None,
     fa_description = None, fa_generic_symbol = None\<rparr>\<rparr>"

theorem lookupFeedForAsset_choice_witness:
  "lookupFeedForAsset (\<lambda>_. Some [demo_feed ''a1'' ''USD'' ''JPY'']) (mk_asset ''JPY'' ''JPY'' ''Yen'' FX no_extras)
     = Some \<lparr>ff_feedId = ''a1'', ff_symbol = ''Crypto.USD/JPY'', ff_inverted = True\<rparr>
   \<and> inverted_match (mk_asset ''JPY'' ''JPY'' ''Yen'' FX no_extras) (demo_feed ''a1'' ''USD'' ''JPY'')"
proof -
  have l: "lookupFeedForAsset (\<lambda>_. Some [demo_feed ''a1'' ''USD'' ''JPY'']) (mk_asset ''JPY'' ''JPY'' ''Yen'' FX no_extras)
     = Some \<lparr>ff_feedId = ''a1'', ff_symbol = ''Crypto.USD/JPY'', ff_inverted = True\<rparr>" by code_simp
  from lookupFeedForAsset_choice [OF l] l show ?thesis by auto
qed

text \<open>The asset list of a class. From the feeds of the registry the search lists every ticker quoted against
  the dollar once, each backed by a feed of that ticker; an inverted feed backs a ticker only when no feed quotes
  that ticker directly.\<close>

theorem searchFeedsByClass_listing:
  assumes "H (QueryTextClass (trim query) (ASSET_CLASS_TO_QUERY_TYPE cl)) = Some feeds"
  shows "\<exists>cands. searchFeedsByClass H cl query = map (\<lambda>c. found_asset cl (cd_ticker c) c) cands \<and>
    distinct (map cd_ticker cands) \<and>
    cd_ticker ` set cands = {cd_ticker c | c f. f \<in> set feeds \<and> cand_of f = Some c} \<and>
    list_all (\<lambda>c. list_ex (\<lambda>f. cand_of f = Some c) feeds \<and>
      \<not> (cd_inverted c \<and> list_ex (\<lambda>f. \<exists>d. cand_of f = Some d \<and> cd_ticker d = cd_ticker c \<and> \<not> cd_inverted d) feeds)) cands"
proof -
  let ?g = "group_feeds feeds []"
  have ok: "dict_ok ?g" by (simp add: group_feeds_ok)
  have src: "\<exists>f \<in> set feeds. cand_of f = Some c \<and> cd_ticker c = t" if "dict_get ?g t = Some c" for t c
    using group_feeds_source [OF that] by simp
  have keys: "map fst ?g = map cd_ticker (map snd ?g)"
    by (rule dict_keyed_values [OF ok]) (use src in blast)
  have get: "dict_get ?g (cd_ticker c) = Some c" if c: "c \<in> snd ` set ?g" for c
  proof -
    from c obtain p where p: "p \<in> set ?g" "c = snd p" by (rule imageE)
    then have "dict_get ?g (fst p) = Some c" using ok by (simp add: dict_get_map_of dict_ok_def)
    moreover from this src have "cd_ticker c = fst p" by blast
    ultimately show ?thesis by simp
  qed
  have s: "searchFeedsByClass H cl query = map (\<lambda>c. found_asset cl (cd_ticker c) c) (map snd ?g)"
  proof -
    have "cd_ticker (snd p) = fst p" if "p \<in> set ?g" for p
      using that ok src [of "fst p" "snd p"] by (auto simp add: dict_get_map_of dict_ok_def)
    then have "map (\<lambda>p. found_asset cl (fst p) (snd p)) ?g = map (\<lambda>p. found_asset cl (cd_ticker (snd p)) (snd p)) ?g"
      by (intro map_cong) simp_all
    then show ?thesis by (simp add: search_eq assms comp_def)
  qed
  moreover have "distinct (map cd_ticker (map snd ?g))" using ok unfolding keys [symmetric] dict_ok_def .
  moreover have "cd_ticker ` set (map snd ?g) = {cd_ticker c | c f. f \<in> set feeds \<and> cand_of f = Some c}"
  proof (intro equalityI subsetI)
    fix t
    assume "t \<in> cd_ticker ` set (map snd ?g)"
    then obtain c where "c \<in> snd ` set ?g" "t = cd_ticker c" by auto
    with get src show "t \<in> {cd_ticker c | c f. f \<in> set feeds \<and> cand_of f = Some c}" by blast
  next
    fix t
    assume "t \<in> {cd_ticker c | c f. f \<in> set feeds \<and> cand_of f = Some c}"
    then obtain c f where "f \<in> set feeds" "cand_of f = Some c" "t = cd_ticker c" by blast
    with group_feeds_has [of f feeds c "[]"] obtain c' where g: "dict_get ?g t = Some c'" by blast
    then have "(t, c') \<in> set ?g" by (simp add: dict_get_map_of map_of_SomeD)
    moreover have "cd_ticker c' = t" using src [OF g] by blast
    ultimately show "t \<in> cd_ticker ` set (map snd ?g)" by force
  qed
  moreover have "list_all (\<lambda>c. list_ex (\<lambda>f. cand_of f = Some c) feeds \<and>
      \<not> (cd_inverted c \<and> list_ex (\<lambda>f. \<exists>d. cand_of f = Some d \<and> cd_ticker d = cd_ticker c \<and> \<not> cd_inverted d) feeds)) (map snd ?g)"
    unfolding list_all_iff list_ex_iff
  proof (intro ballI conjI notI)
    fix c
    assume "c \<in> set (map snd ?g)"
    then have c: "dict_get ?g (cd_ticker c) = Some c" using get by simp
    show "\<exists>f \<in> set feeds. cand_of f = Some c" using src [OF c] by blast
    assume "cd_inverted c \<and> (\<exists>f \<in> set feeds. \<exists>d. cand_of f = Some d \<and> cd_ticker d = cd_ticker c \<and> \<not> cd_inverted d)"
    with group_feeds_direct c show False by (metis option.inject)
  qed
  ultimately show ?thesis by blast
qed

theorem searchFeedsByClass_listing_witness:
  "length (searchFeedsByClass (\<lambda>_. Some [demo_feed ''a1'' ''USD'' ''ABC'', demo_feed ''b2'' ''ABC'' ''USD'']) FX ''abc'') = 1"
proof -
  let ?fs = "[demo_feed ''a1'' ''USD'' ''ABC'', demo_feed ''b2'' ''ABC'' ''USD'']"
  have c: "cand_of (demo_feed ''a1'' ''USD'' ''ABC'') = Some \<lparr>cd_feed = demo_feed ''a1'' ''USD'' ''ABC'', cd_ticker = ''ABC'', cd_inverted = True\<rparr>"
    "cand_of (demo_feed ''b2'' ''ABC'' ''USD'') = Some \<lparr>cd_feed = demo_feed ''b2'' ''ABC'' ''USD'', cd_ticker = ''ABC'', cd_inverted = False\<rparr>"
    by code_simp+
  obtain cands where cands: "searchFeedsByClass (\<lambda>_. Some ?fs) FX ''abc'' = map (\<lambda>c. found_asset FX (cd_ticker c) c) cands"
    "distinct (map cd_ticker cands)" "cd_ticker ` set cands = {cd_ticker c | c f. f \<in> set ?fs \<and> cand_of f = Some c}"
    using searchFeedsByClass_listing [of "\<lambda>_. Some ?fs" "''abc''" FX ?fs] by blast
  have one: "cd_ticker c = ''ABC''" if "f \<in> set ?fs" "cand_of f = Some c" for c f
    using that c by auto
  have "''ABC'' \<in> {cd_ticker c | c f. f \<in> set ?fs \<and> cand_of f = Some c}"
  proof -
    have "demo_feed ''a1'' ''USD'' ''ABC'' \<in> set ?fs" by simp
    with c(1) have "cd_ticker \<lparr>cd_feed = demo_feed ''a1'' ''USD'' ''ABC'', cd_ticker = ''ABC'', cd_inverted = True\<rparr>
        \<in> {cd_ticker c | c f. f \<in> set ?fs \<and> cand_of f = Some c}" by blast
    then show ?thesis by simp
  qed
  then have "{cd_ticker c | c f. f \<in> set ?fs \<and> cand_of f = Some c} = {''ABC''}" using one by blast
  with cands(2,3) have "card (set (map cd_ticker cands)) = 1" "distinct (map cd_ticker cands)" by simp_all
  then have "length (map cd_ticker cands) = 1" by (metis distinct_card)
  then show ?thesis by (simp add: cands(1))
qed

text \<open>Closing a price stream. After a subscription is closed, at whatever moment, no update and no mode change
  reaches the subscriber whatever events follow, and at most one first poll is in flight.\<close>

theorem stream_close_silent:
  assumes "stream_reach s" "stream_run (CloseStream # es) s = Some s'"
  shows "sm_updates s' = sm_updates s \<and> sm_modes s' = sm_modes s \<and> \<not> sm_alive s' \<and> sm_starting s' \<le> 1"
proof -
  have "stream_reach s'" using stream_run_reach [OF assms] .
  with stream_inv_reach have "sm_starting s' \<le> 1" by (simp add: stream_inv_def)
  then show ?thesis using assms(2) stream_run_closed [of es "s\<lparr>sm_alive := False, sm_esOpen := False, sm_poll := False\<rparr>" s'] by simp
qed

definition demo_update :: priceUpdate where
  "demo_update = \<lparr>pu_price = Num 5, pu_confidence = Num 1, pu_publishTime = Num 9\<rparr>"

theorem stream_close_silent_witness:
  "\<exists>s'. stream_run [CloseStream, SeedDone (Some demo_update)] (subscribePythStream True) = Some s' \<and> sm_updates s' = []"
proof -
  obtain s' where r: "stream_run [CloseStream, SeedDone (Some demo_update)] (subscribePythStream True) = Some s'"
    by (simp add: subscribePythStream_def deliver_def)
  from stream_close_silent [OF stream_start r] r show ?thesis by (simp add: subscribePythStream_def)
qed

text \<open>An interval that outlives its subscription. If the source fails and the stream is closed while the first
  poll is in flight, that poll installs its interval afterwards: the closed stream keeps a timer that nothing
  clears.\<close>

theorem stream_close_leak:
  "\<exists>s. stream_run [SourceError, CloseStream, FirstTickDone u, IntervalFires, IntervalFires] (subscribePythStream True) = Some s
     \<and> stream_reach s \<and> \<not> sm_alive s \<and> sm_poll s"
proof -
  let ?es = "[SourceError, CloseStream, FirstTickDone u, IntervalFires, IntervalFires]"
  obtain s where s: "stream_run ?es (subscribePythStream True) = Some s" "\<not> sm_alive s" "sm_poll s"
    by (simp add: subscribePythStream_def startPoll_def Let_def deliver_closed)
  then show ?thesis using stream_run_reach [OF stream_start] by blast
qed

end
