(* ===== verification/Chains.thy ===== *)
theory Chains
  imports Program Oracles
begin

text \<open>
  The pure part of src/src/lib/linked-chains.ts: classification of adjacent rules, validation of a
  draft, detection of cycles, the time fee, the cadence of a loop, and the encoding of a trigger and
  of a swap for the program. A node refers to its successor by index, as the drafts do.
\<close>

definition SOL_MINT_STR :: string where
  "SOL_MINT_STR = ''So11111111111111111111111111111111111111112''"

definition LAMPORTS_PER_SOL :: int where
  "LAMPORTS_PER_SOL = 1000000000"

text \<open>The link of a node: a rule index, or None for a terminal rule.\<close>

record chainNodeDraft =
  nd_result :: builderResult
  nd_next :: "int option"

text \<open>Indexing an array with a number that may be negative or too large.\<close>

definition nth_int :: "'a list \<Rightarrow> int \<Rightarrow> 'a option" where
  "nth_int xs i = (if i < 0 then None else nth_opt xs (nat i))"

definition first_action :: "builderResult \<Rightarrow> action option" where
  "first_action r = nth_opt (br_actions r) 0"

definition first_trigger :: "builderResult \<Rightarrow> trigger option" where
  "first_trigger r = nth_opt (br_triggers r) 0"

definition as_swap :: "action option \<Rightarrow> swapAction option" where
  "as_swap a = (case a of Some (Swap s) \<Rightarrow> Some s | _ \<Rightarrow> None)"

abbreviation in_mint :: "swapAction \<Rightarrow> string" where "in_mint s \<equiv> tr_mint (sw_inputToken s)"
abbreviation out_mint :: "swapAction \<Rightarrow> string" where "out_mint s \<equiv> tr_mint (sw_outputToken s)"

definition classifyChainLink :: "builderResult \<Rightarrow> builderResult \<Rightarrow> chainLinkClass" where
  "classifyChainLink upstream downstream =
    (case (as_swap (first_action upstream), as_swap (first_action downstream)) of
       (Some up, Some down) \<Rightarrow>
         let isInverted = in_mint up = out_mint down \<and> out_mint up = in_mint down;
             isMatched = out_mint up = in_mint down
         in if isInverted \<and> isMatched \<and> in_mint up = out_mint up then MatchedMints
            else if isInverted then InvertedPair
            else if isMatched then MatchedMints
            else BridgeRequired
     | _ \<Rightarrow> BridgeRequired)"

section \<open>Validation\<close>

datatype chainValidationError =
  NonSwapAction nat
| HeadMustHaveSeedAmount nat
| PrtfRequiresChainPosition nat
| PrtfRequiresConsumeUpstream nat

fun check_actions :: "nat \<Rightarrow> chainNodeDraft list \<Rightarrow> chainValidationError option" where
  "check_actions i [] = None"
| "check_actions i (nd # nds) =
     (if as_swap (first_action (nd_result nd)) = None \<or> length (br_actions (nd_result nd)) \<noteq> 1
      then Some (NonSwapAction i) else check_actions (Suc i) nds)"

definition is_prtf :: "trigger option \<Rightarrow> bool" where
  "is_prtf t = (case t of Some (PriceRelativeToFill _ _ _) \<Rightarrow> True | _ \<Rightarrow> False)"

definition consumes_upstream :: "builderResult \<Rightarrow> bool" where
  "consumes_upstream r = (case as_swap (first_action r) of
       Some s \<Rightarrow> sw_consumeUpstreamOutput s = Some True | None \<Rightarrow> False)"

fun check_prtf :: "nat \<Rightarrow> chainNodeDraft list \<Rightarrow> chainValidationError option" where
  "check_prtf i [] = None"
| "check_prtf i (nd # nds) =
     (if \<not> is_prtf (first_trigger (nd_result nd)) then check_prtf (Suc i) nds
      else if i = 0 then Some (PrtfRequiresChainPosition i)
      else if \<not> consumes_upstream (nd_result nd) then Some (PrtfRequiresConsumeUpstream i)
      else check_prtf (Suc i) nds)"

text \<open>The loop over the links between the two checks has no effect.\<close>

definition validateChainDraft :: "chainNodeDraft list \<Rightarrow> chainValidationError option" where
  "validateChainDraft nodes = (case check_actions 0 nodes of
       Some e \<Rightarrow> Some e
     | None \<Rightarrow> check_prtf 0 nodes)"

section \<open>Cycles\<close>

definition next_of :: "chainNodeDraft list \<Rightarrow> int \<Rightarrow> int option" where
  "next_of nodes i = Option.bind (nth_int nodes i) nd_next"

text \<open>The walk from a start: the visited indices and where it stopped (None at a terminal).\<close>

lemma next_of_in_range: "next_of nodes i = Some j \<Longrightarrow> 0 \<le> i \<and> nat i < length nodes"
  by (auto simp add: next_of_def nth_int_def nth_opt_Some_iff bind_eq_Some_conv split: if_splits)

function walk :: "chainNodeDraft list \<Rightarrow> int option \<Rightarrow> int list \<Rightarrow> int list \<times> int option" where
  "walk nodes None visited = (visited, None)"
| "walk nodes (Some c) visited =
     (if c \<in> set visited then (visited, Some c)
      else walk nodes (next_of nodes c) (visited @ [c]))"
  by pat_completeness auto

text \<open>Every step but the last visits a new index of the array.\<close>

termination
proof (relation "measure (\<lambda>(nodes, cur, visited).
    2 * card ({0..<int (length nodes)} - set visited) + (if cur = None then 0 else 1))")
  fix nodes :: "chainNodeDraft list" and c :: int and visited :: "int list"
  assume c: "c \<notin> set visited"
  show "((nodes, next_of nodes c, visited @ [c]), nodes, Some c, visited)
      \<in> measure (\<lambda>(nodes, cur, visited).
          2 * card ({0..<int (length nodes)} - set visited) + (if cur = None then 0 else 1))"
  proof (cases "next_of nodes c")
    case None
    have "card ({0..<int (length nodes)} - set (visited @ [c])) \<le> card ({0..<int (length nodes)} - set visited)"
      by (intro card_mono) auto
    then show ?thesis using None by simp
  next
    case (Some j)
    have "c \<in> {0..<int (length nodes)} - set visited"
      using next_of_in_range [OF Some] c by auto
    moreover have "{0..<int (length nodes)} - set (visited @ [c]) = ({0..<int (length nodes)} - set visited) - {c}"
      by auto
    ultimately have "card ({0..<int (length nodes)} - set (visited @ [c])) < card ({0..<int (length nodes)} - set visited)"
      using card_Diff1_less [of "{0..<int (length nodes)} - set visited" c] by simp
    then show ?thesis using Some by simp
  qed
qed simp

definition index_in :: "'a list \<Rightarrow> 'a \<Rightarrow> nat" where
  "index_in xs x = (case find_index (\<lambda>i y. y = x) xs of Some i \<Rightarrow> i | None \<Rightarrow> length xs)"

fun cycle_from :: "chainNodeDraft list \<Rightarrow> nat list \<Rightarrow> int list" where
  "cycle_from nodes [] = []"
| "cycle_from nodes (start # starts) =
     (case walk nodes (Some (int start)) [] of
        (visited, Some c) \<Rightarrow> drop (index_in visited c) visited
      | (visited, None) \<Rightarrow> cycle_from nodes starts)"

definition findCycleNodes :: "chainNodeDraft list \<Rightarrow> int list" where
  "findCycleNodes nodes = cycle_from nodes [0..<length nodes]"

section \<open>Fees and loops\<close>

definition TIME_FEE_MAX_DAYS :: int where "TIME_FEE_MAX_DAYS = 30"
definition SECS_PER_DAY :: int where "SECS_PER_DAY = 86400"

definition estimateTimeFee :: "int \<Rightarrow> cadence \<Rightarrow> int \<Rightarrow> (js_error, int) result" where
  "estimateTimeFee nowSec c lamportsPerDay = (case c of
       Until d \<Rightarrow> and_then (to_bigint d) (\<lambda>deadline.
         let delta = deadline - nowSec in
         if delta \<le> 0 then Inr (1 * lamportsPerDay)
         else let ceilDays = (delta + SECS_PER_DAY - 1) div SECS_PER_DAY in
           Inr ((if ceilDays < TIME_FEE_MAX_DAYS then ceilDays else TIME_FEE_MAX_DAYS) * lamportsPerDay))
     | _ \<Rightarrow> Inr (TIME_FEE_MAX_DAYS * lamportsPerDay))"

fun loopModeToCadence :: "loopMode \<Rightarrow> cadence" where
  "loopModeToCadence (Frequency cycles) = Repeat cycles"
| "loopModeToCadence Infinite = Until INFINITE_LOOP_UNIX_DEADLINE"

section \<open>Encoding a trigger\<close>

definition tryPubkey :: "solana \<Rightarrow> string option \<Rightarrow> pubkey option" where
  "tryPubkey S addr = (case addr of None \<Rightarrow> None
     | Some a \<Rightarrow> if a = [] then None else parse_pubkey S a)"

definition feedIdToPubkey :: "solana \<Rightarrow> string \<Rightarrow> pubkey option" where
  "feedIdToPubkey S feedId = hex_pubkey S (if starts_with feedId ''0x'' then drop 2 feedId else feedId)"

fun token_mint :: "solana \<Rightarrow> tokenRef specificOrAny \<Rightarrow> pubkey option" where
  "token_mint S (Specific t) = tryPubkey S (Some (tr_mint t))"
| "token_mint S AnyValue = None"

text \<open>The feed of an oracle with its source byte, default exponent and orientation.\<close>

definition oracle_feed :: "solana \<Rightarrow> oracleSource \<Rightarrow> (pubkey \<times> int \<times> int \<times> bool) option" where
  "oracle_feed S orc = (case orc of
       OraclePyth feedId symb inverted \<Rightarrow>
         Option.bind (feedIdToPubkey S feedId) (\<lambda>f. Some (f, 0, - 8, inverted = Some True))
     | OracleJupiter mint symb \<Rightarrow> Option.bind (tryPubkey S (Some mint)) (\<lambda>m. Some (m, 1, - 6, False))
     | OracleSwitchboard symb \<Rightarrow> None)"

definition pair_resolved :: "oracleSource \<Rightarrow> string \<Rightarrow> bool" where
  "pair_resolved orc quoteTicker = (case orc of
       OraclePyth feedId symb inverted \<Rightarrow>
         str_includes (to_upper symb) (''/'' @ quoteTicker) \<or> str_includes (to_upper symb) (quoteTicker @ ''/'')
     | _ \<Rightarrow> False)"

text \<open>The second leg of the price: the quote mint and the exponent.\<close>

definition quote_leg :: "hermes \<Rightarrow> solana \<Rightarrow> oracleSource \<Rightarrow> int \<Rightarrow> quoteRef \<Rightarrow> (pubkey option \<times> int) option" where
  "quote_leg H S orc defaultExpo quote = (case quote of
       QuoteUsd \<Rightarrow> Some (None, defaultExpo)
     | QuoteAsset q \<Rightarrow>
         if pair_resolved orc (to_upper (as_displaySymbol q)) then Some (None, defaultExpo)
         else if str_truthy (as_mint q) then
           Option.bind (tryPubkey S (as_mint q)) (\<lambda>m. Some (Some m, - 6))
         else Option.bind (lookupFeedForAsset H q) (\<lambda>qf.
           Option.bind (feedIdToPubkey S (ff_feedId qf)) (\<lambda>m. Some (Some m, - 6))))"

definition encoded_threshold :: "bool \<Rightarrow> jsnum \<Rightarrow> int \<Rightarrow> jsnum" where
  "encoded_threshold inverted threshold ex =
     js_round (js_mul (if inverted then js_div (Num 1) threshold else threshold) (js_pow10_int (- ex)))"

definition encoded_comparator :: "bool \<Rightarrow> comparator \<Rightarrow> int" where
  "encoded_comparator inverted cmp = (let userIntent = (if cmp = Below then 0 else 1) in
     if inverted then (if userIntent = 0 then 1 else 0) else userIntent)"

definition buildPriceSpec ::
  "hermes \<Rightarrow> solana \<Rightarrow> quoteRef \<Rightarrow> comparator \<Rightarrow> jsnum \<Rightarrow> oracleSource
    \<Rightarrow> (js_error, onChainTriggerSpec option) result" where
  "buildPriceSpec H S quote cmp threshold orc = (case oracle_feed S orc of
       None \<Rightarrow> Inr None
     | Some (feed, source, defaultExpo, inverted) \<Rightarrow> (case quote_leg H S orc defaultExpo quote of
           None \<Rightarrow> Inr None
         | Some (quoteMint, ex) \<Rightarrow>
             if inverted \<and> js_le threshold (Num 0) then Inr None
             else and_then (new_bn S (encoded_threshold inverted threshold ex)) (\<lambda>bn.
               Inr (Some (OcAssetPrice \<lparr>op_feed = feed, op_quoteMint = quoteMint,
                 op_comparator = encoded_comparator inverted cmp, op_threshold = bn, op_expo = ex,
                 op_source = source\<rparr>)))))"

definition buildTriggerSpec ::
  "hermes \<Rightarrow> solana \<Rightarrow> trigger \<Rightarrow> (js_error, onChainTriggerSpec option) result" where
  "buildTriggerSpec H S t = (case t of
       AccountTransfer acct token \<Rightarrow>
         Inr (Option.bind (tryPubkey S (Some acct)) (\<lambda>a. Some (OcAccountActivity a (token_mint S token) 0)))
     | AccountSwap acct token amount dir \<Rightarrow>
         Inr (Option.bind (tryPubkey S (Some acct)) (\<lambda>a. Some (OcAccountActivity a (token_mint S token) 1)))
     | AssetPrice asset quote cmp threshold orc \<Rightarrow> buildPriceSpec H S quote cmp threshold orc
     | TimeElapsed v u \<Rightarrow> (let secs = timeElapsedToSecs v u in
         if \<not> js_gt secs (Num 0) \<or> js_gt secs MAX_TIME_ELAPSED_SECS then Inr None
         else Inr (Some (OcTimeElapsed secs)))
     | PriceRelativeToFill up dir bps \<Rightarrow>
         if up = [] \<or> \<not> js_gt bps (Num 0) then Inr None
         else Inr (Some (OcPriceRelativeToFill up (if dir = Grow then 1 else 0) bps)))"

section \<open>Encoding a swap\<close>

definition U64_MAX :: int where "U64_MAX = 18446744073709551615"

definition buildSwapAction ::
  "solana \<Rightarrow> pubkey \<Rightarrow> action \<Rightarrow> pubkey option \<Rightarrow> (js_error, swapSpec option) result" where
  "buildSwapAction S destination a linkedDownstream = (case a of
       Transfer _ _ _ \<Rightarrow> Inr None
     | Swap s \<Rightarrow> (case (tryPubkey S (Some (in_mint s)), tryPubkey S (Some (out_mint s))) of
           (Some i, Some out) \<Rightarrow>
             let consume = (sw_consumeUpstreamOutput s = Some True) in
             and_then (if consume then Inr U64_MAX
                 else new_bn S (js_round (js_mul (sw_amount s) (js_pow10 (tr_decimals (sw_inputToken s)))))) (\<lambda>amountIn.
             Inr (Some \<lparr>os_inputMint = i, os_outputMint = out, os_destination = destination,
               os_amountIn = amountIn, os_minAmountOut = 0, os_linkedDownstream = linkedDownstream,
               os_linkFeeDeposit = 0, os_consumeUpstreamOutput = consume\<rparr>))
         | _ \<Rightarrow> Inr None))"

section \<open>Lemmas on classification and validation\<close>

lemma classify_cases:
  assumes "as_swap (first_action u) = Some up" "as_swap (first_action d) = Some down"
  shows "classifyChainLink u d = BridgeRequired \<longleftrightarrow> out_mint up \<noteq> in_mint down"
    and "classifyChainLink u d = InvertedPair \<longleftrightarrow>
           out_mint up = in_mint down \<and> in_mint up = out_mint down \<and> in_mint up \<noteq> out_mint up"
    and "classifyChainLink u d = MatchedMints \<longleftrightarrow>
           out_mint up = in_mint down \<and> (in_mint up \<noteq> out_mint down \<or> in_mint up = out_mint up)"
  using assms by (auto simp add: classifyChainLink_def Let_def)

lemma classify_not_swap:
  "as_swap (first_action u) = None \<or> as_swap (first_action d) = None \<Longrightarrow> classifyChainLink u d = BridgeRequired"
  by (auto simp add: classifyChainLink_def split: option.splits)

definition single_swap :: "chainNodeDraft \<Rightarrow> bool" where
  "single_swap nd \<longleftrightarrow> (\<exists>s. br_actions (nd_result nd) = [Swap s])"

lemma single_swap_iff:
  "single_swap nd \<longleftrightarrow> as_swap (first_action (nd_result nd)) \<noteq> None \<and> length (br_actions (nd_result nd)) = 1"
  by (cases "br_actions (nd_result nd)")
    (auto simp add: single_swap_def as_swap_def first_action_def split: action.splits)

lemma check_actions_None: "check_actions i nds = None \<longleftrightarrow> list_all single_swap nds"
  by (induction i nds rule: check_actions.induct) (auto simp add: single_swap_iff)

lemma check_actions_Some:
  "check_actions i nds = Some e \<Longrightarrow>
     \<exists>k < length nds. e = NonSwapAction (i + k) \<and> \<not> single_swap (nds ! k) \<and> (\<forall>j<k. single_swap (nds ! j))"
proof (induction i nds rule: check_actions.induct)
  case (2 i nd nds)
  show ?case
  proof (cases "single_swap nd")
    case True
    with 2 obtain k where "k < length nds" "e = NonSwapAction (Suc i + k)" "\<not> single_swap (nds ! k)"
        "\<forall>j<k. single_swap (nds ! j)" by (auto simp add: single_swap_iff)
    then show ?thesis using True by (intro exI [of _ "Suc k"]) (auto simp add: All_less_Suc2)
  next
    case False
    then show ?thesis using 2(2) by (intro exI [of _ 0]) (auto simp add: single_swap_iff split: if_splits)
  qed
qed simp

lemma check_prtf_None:
  "check_prtf i nds = None \<longleftrightarrow>
     (\<forall>k < length nds. is_prtf (first_trigger (nd_result (nds ! k))) \<longrightarrow>
        0 < i + k \<and> consumes_upstream (nd_result (nds ! k)))"
proof (induction i nds rule: check_prtf.induct)
  case (2 i nd nds)
  then show ?case by (auto simp add: All_less_Suc2)
qed simp

section \<open>Lemmas on cycles\<close>

fun iter_next :: "chainNodeDraft list \<Rightarrow> nat \<Rightarrow> int \<Rightarrow> int option" where
  "iter_next nodes 0 i = Some i"
| "iter_next nodes (Suc n) i = Option.bind (next_of nodes i) (iter_next nodes n)"

definition on_cycle :: "chainNodeDraft list \<Rightarrow> int \<Rightarrow> bool" where
  "on_cycle nodes i \<longleftrightarrow> (\<exists>n>0. iter_next nodes n i = Some i)"

lemma iter_next_add: "iter_next nodes (m + n) i = Option.bind (iter_next nodes m i) (iter_next nodes n)"
  by (induction m arbitrary: i) (auto split: bind_splits)

lemma iter_next_Suc: "iter_next nodes (Suc n) i = Option.bind (iter_next nodes n i) (next_of nodes)"
  using iter_next_add [of nodes n 1 i] by (simp cong: Option.bind_cong)

text \<open>The visited list of a walk is the orbit of its start, up to where it stopped.\<close>

definition orbit :: "chainNodeDraft list \<Rightarrow> int \<Rightarrow> int list \<Rightarrow> int option \<Rightarrow> bool" where
  "orbit nodes s vs cur \<longleftrightarrow> (\<forall>k < length vs. iter_next nodes k s = Some (vs ! k)) \<and>
     iter_next nodes (length vs) s = cur"

lemma orbit_Nil: "orbit nodes s [] (Some s)"
  by (simp add: orbit_def)

lemma orbit_step: "orbit nodes s vs (Some c) \<Longrightarrow> orbit nodes s (vs @ [c]) (next_of nodes c)"
  by (auto simp add: orbit_def nth_append less_Suc_eq iter_next_Suc simp del: iter_next.simps)

lemma walk_orbit:
  "walk nodes cur vs = (vs', cur') \<Longrightarrow> orbit nodes s vs cur \<Longrightarrow> distinct vs \<Longrightarrow>
     orbit nodes s vs' cur' \<and> distinct vs' \<and> (\<forall>c. cur' = Some c \<longrightarrow> c \<in> set vs')"
proof (induction nodes cur vs rule: walk.induct)
  case (2 nodes c visited)
  show ?case
  proof (cases "c \<in> set visited")
    case False
    then show ?thesis using 2 orbit_step [OF 2(3)] by simp
  qed (use 2 in auto)
qed simp

lemma index_in_nth: "x \<in> set xs \<Longrightarrow> index_in xs x < length xs \<and> xs ! index_in xs x = x"
proof -
  assume "x \<in> set xs"
  then obtain i where "find_index (\<lambda>i y. y = x) xs = Some i"
    by (cases "find_index (\<lambda>i y. y = x) xs") (auto simp add: find_index_None in_set_conv_nth)
  then show ?thesis using find_index_Some [of "\<lambda>i y. y = x" xs i] by (simp add: index_in_def)
qed

lemma orbit_tail_on_cycle:
  assumes o: "orbit nodes s vs (Some c)" and c: "c \<in> set vs" and m: "m \<in> set (drop (index_in vs c) vs)"
  shows "on_cycle nodes m"
proof -
  let ?a = "index_in vs c" and ?n = "length vs"
  have a: "?a < ?n" "vs ! ?a = c" using index_in_nth [OF c] by auto
  obtain k where k: "?a \<le> k" "k < ?n" "m = vs ! k"
    using m a by (auto simp add: in_set_conv_nth) (metis add.commute le_add2 less_diff_conv)
  have m_k: "iter_next nodes k s = Some m" using o k by (auto simp add: orbit_def)
  have "iter_next nodes (?n - k) m = Some c"
    using o k m_k iter_next_add [of nodes k "?n - k" s] by (auto simp add: orbit_def)
  moreover have "iter_next nodes (k - ?a) c = Some m"
    using o a k m_k iter_next_add [of nodes ?a "k - ?a" s] by (auto simp add: orbit_def)
  ultimately have "iter_next nodes ((?n - k) + (k - ?a)) m = Some m"
    by (simp add: iter_next_add)
  then show ?thesis using k unfolding on_cycle_def by (intro exI [of _ "(?n - k) + (k - ?a)"]) simp
qed

lemma on_cycle_never_stops: "on_cycle nodes i \<Longrightarrow> iter_next nodes n i \<noteq> None"
proof -
  assume "on_cycle nodes i"
  then obtain p where p: "p > 0" "iter_next nodes p i = Some i" by (auto simp add: on_cycle_def)
  have "iter_next nodes (p * k) i = Some i" for k
    by (induction k) (auto simp add: iter_next_add p)
  from this [of n] have "Option.bind (iter_next nodes n i) (iter_next nodes (p * n - n)) = Some i"
    using p iter_next_add [of nodes n "p * n - n" i] by (cases p) auto
  then show ?thesis by (metis bind.bind_lzero option.distinct(1))
qed

lemma on_cycle_in_range: "on_cycle nodes i \<Longrightarrow> 0 \<le> i \<and> nat i < length nodes"
proof -
  assume "on_cycle nodes i"
  then obtain n where "iter_next nodes (Suc n) i = Some i" by (auto simp add: on_cycle_def gr0_conv_Suc)
  then obtain j where "next_of nodes i = Some j" by (auto simp add: bind_eq_Some_conv)
  then show ?thesis by (rule next_of_in_range)
qed

lemma cycle_from_sound: "m \<in> set (cycle_from nodes starts) \<Longrightarrow> on_cycle nodes m"
proof (induction nodes starts rule: cycle_from.induct)
  case (2 nodes start starts)
  obtain vs cur where w: "walk nodes (Some (int start)) [] = (vs, cur)" by fastforce
  from walk_orbit [OF w orbit_Nil] have o: "orbit nodes (int start) vs cur" "\<forall>c. cur = Some c \<longrightarrow> c \<in> set vs"
    by auto
  show ?case
  proof (cases cur)
    case (Some c)
    then show ?thesis using 2(2) w o orbit_tail_on_cycle [of nodes "int start" vs c m] by simp
  qed (use 2 w in simp)
qed simp

lemma cycle_from_complete:
  "cycle_from nodes starts = [] \<Longrightarrow> start \<in> set starts \<Longrightarrow> \<not> on_cycle nodes (int start)"
proof (induction nodes starts rule: cycle_from.induct)
  case (2 nodes st starts)
  obtain vs cur where w: "walk nodes (Some (int st)) [] = (vs, cur)" by fastforce
  from walk_orbit [OF w orbit_Nil] have o: "orbit nodes (int st) vs cur" "\<forall>c. cur = Some c \<longrightarrow> c \<in> set vs"
    by auto
  show ?case
  proof (cases cur)
    case None
    then have "iter_next nodes (length vs) (int st) = None" using o by (auto simp add: orbit_def)
    then have "\<not> on_cycle nodes (int st)" using on_cycle_never_stops [of nodes "int st" "length vs"] by blast
    then show ?thesis using 2 w None by auto
  next
    case (Some c)
    then have "drop (index_in vs c) vs \<noteq> []" using o index_in_nth [of c vs] by simp
    then show ?thesis using 2(2) w Some by simp
  qed
qed simp

text \<open>The shape the builder makes: every card but the last feeds the next one.\<close>

definition forward_chain :: "chainNodeDraft list \<Rightarrow> bool" where
  "forward_chain nodes \<longleftrightarrow> (\<forall>i. Suc i < length nodes \<longrightarrow> nd_next (nodes ! i) = Some (int (Suc i)))"

lemma next_of_nat: "i < length nodes \<Longrightarrow> next_of nodes (int i) = nd_next (nodes ! i)"
  by (simp add: next_of_def nth_int_def nth_opt_conv)

lemma walk_forward:
  assumes "forward_chain nodes" "k < length nodes"
  shows "walk nodes (Some (int k)) (map int [0..<k]) =
     walk nodes (next_of nodes (int (length nodes - 1))) (map int [0..<length nodes])"
  using assms(2)
proof (induction "length nodes - k" arbitrary: k)
  case (Suc n)
  show ?case
  proof (cases "Suc k = length nodes")
    case True
    then have last: "length nodes - 1 = k" by simp
    have "map int [0..<length nodes] = map int [0..<k] @ [int k]"
      unfolding True [symmetric] by simp
    moreover have "int k \<notin> set (map int [0..<k])" by auto
    ultimately show ?thesis unfolding last by simp
  next
    case False
    then have "next_of nodes (int k) = Some (int (Suc k))"
      using assms(1) Suc(3) by (auto simp add: next_of_nat forward_chain_def)
    then show ?thesis using Suc(1) [of "Suc k"] Suc(2,3) False by auto
  qed
qed simp

lemma index_in_upt: "t < n \<Longrightarrow> index_in (map int [0..<n]) (int t) = t"
proof -
  assume t: "t < n"
  then have "int t \<in> set (map int [0..<n])" by auto
  from index_in_nth [OF this] show ?thesis by auto
qed

lemma findCycleNodes_forward:
  assumes f: "forward_chain nodes" and ne: "nodes \<noteq> []"
    and last: "nd_next (last nodes) = Some (int t)" and t: "t < length nodes"
  shows "findCycleNodes nodes = map int [t..<length nodes]"
proof -
  have pos: "0 < length nodes" using ne by simp
  have "next_of nodes (int (length nodes - 1)) = Some (int t)"
    using last pos ne next_of_nat [of "length nodes - 1" nodes] by (simp add: last_conv_nth)
  then have "walk nodes (Some (int 0)) [] = (map int [0..<length nodes], Some (int t))"
    using walk_forward [OF f pos] t by simp
  then have "cycle_from nodes (0 # [1..<length nodes]) = drop (index_in (map int [0..<length nodes]) (int t)) (map int [0..<length nodes])"
    by (simp del: walk.simps upt.simps)
  moreover have "[0..<length nodes] = 0 # [1..<length nodes]" using pos by (simp add: upt_conv_Cons)
  ultimately have "findCycleNodes nodes = drop (index_in (map int [0..<length nodes]) (int t)) (map int [0..<length nodes])"
    unfolding findCycleNodes_def by metis
  then show ?thesis unfolding index_in_upt [OF t] drop_map by simp
qed

section \<open>Properties\<close>

lemma cycle_from_rotate: "map (next_of nodes) (cycle_from nodes starts) = map Some (rotate1 (cycle_from nodes starts))
    \<and> distinct (cycle_from nodes starts)"
proof (induction nodes starts rule: cycle_from.induct)
  case (2 nodes start starts)
  obtain vs cur where w: "walk nodes (Some (int start)) [] = (vs, cur)" by fastforce
  from walk_orbit [OF w orbit_Nil] have o: "orbit nodes (int start) vs cur" "distinct vs"
    "\<forall>c. cur = Some c \<longrightarrow> c \<in> set vs" by auto
  show ?case
  proof (cases cur)
    case (Some c)
    let ?a = "index_in vs c"
    have a: "?a < length vs" "vs ! ?a = c" using index_in_nth [of c vs] o(3) Some by auto
    have nxt: "next_of nodes (vs ! k) = iter_next nodes (Suc k) (int start)" if "k < length vs" for k
      using o(1) that iter_next_Suc [of nodes k "int start"] by (simp add: orbit_def del: iter_next.simps)
    have ne: "drop ?a vs \<noteq> []" using a(1) by simp
    have "map (next_of nodes) (drop ?a vs) = map Some (rotate1 (drop ?a vs))"
    proof (rule nth_equalityI)
      fix k
      assume "k < length (map (next_of nodes) (drop ?a vs))"
      then have k: "?a + k < length vs" by simp
      show "map (next_of nodes) (drop ?a vs) ! k = map Some (rotate1 (drop ?a vs)) ! k"
      proof (cases "Suc (?a + k) = length vs")
        case True
        then have "Suc k = length (drop ?a vs)" by simp
        then have "rotate1 (drop ?a vs) ! k = drop ?a vs ! 0" using nth_rotate1 [of k "drop ?a vs"] k by simp
        moreover have "next_of nodes (vs ! (?a + k)) = Some c" using nxt [OF k] o(1) Some unfolding True by (simp add: orbit_def)
        ultimately show ?thesis using k a by simp
      next
        case False
        then have s: "Suc (?a + k) < length vs" using k by simp
        then have "rotate1 (drop ?a vs) ! k = drop ?a vs ! Suc k" using nth_rotate1 [of k "drop ?a vs"] by simp
        moreover have "next_of nodes (vs ! (?a + k)) = Some (vs ! Suc (?a + k))"
          using nxt [OF k] o(1) s by (simp add: orbit_def del: iter_next.simps)
        ultimately show ?thesis using k by simp
      qed
    qed simp
    then show ?thesis using w Some o(2) by simp
  qed (use 2 w in simp)
qed simp

text \<open>C29: Detecting a loop. The search answers nothing exactly when no card lies on a cycle of next pointers;
  otherwise it answers one whole cycle: distinct cards, each feeding the one listed after it and the last one
  feeding the first.\<close>

theorem findCycleNodes_exact:
  "(findCycleNodes nodes = [] \<longleftrightarrow> {i. on_cycle nodes i} = {})
   \<and> set (findCycleNodes nodes) \<subseteq> {i. on_cycle nodes i}
   \<and> distinct (findCycleNodes nodes)
   \<and> map (next_of nodes) (findCycleNodes nodes) = map Some (rotate1 (findCycleNodes nodes))"
proof -
  have "\<not> on_cycle nodes i" if "findCycleNodes nodes = []" for i
  proof
    assume c: "on_cycle nodes i"
    then have "0 \<le> i" "nat i < length nodes" using on_cycle_in_range by blast+
    then have "nat i \<in> set [0..<length nodes]" "int (nat i) = i" by simp_all
    then show False using cycle_from_complete [of nodes "[0..<length nodes]" "nat i"] that c
      by (simp add: findCycleNodes_def)
  qed
  moreover have "on_cycle nodes i" if "i \<in> set (findCycleNodes nodes)" for i
    using that cycle_from_sound unfolding findCycleNodes_def by blast
  ultimately show ?thesis using cycle_from_rotate [of nodes "[0..<length nodes]"]
    by (fastforce simp add: findCycleNodes_def)
qed

text \<open>Validation of a chain draft. A draft passes exactly when every card holds one action, a swap, and every
  card waiting for an earlier fill has a card before it and spends that card's output; a failing draft reports
  the first card without a single swap, before any complaint about fills. The declared error for a head without
  a seed amount is never reported.\<close>

theorem validateChainDraft_exact:
  "(validateChainDraft nodes = None \<longleftrightarrow> list_all single_swap nodes \<and>
      list_all (\<lambda>k. if is_prtf (first_trigger (nd_result (nodes ! k))) then 0 < k \<and> consumes_upstream (nd_result (nodes ! k))
        else True) [0..<length nodes])
   \<and> (list_all single_swap nodes \<noteq> (\<exists>k < length nodes. validateChainDraft nodes = Some (NonSwapAction k) \<and>
        list_all single_swap (take k nodes) \<and> \<not> single_swap (nodes ! k)))
   \<and> validateChainDraft nodes \<notin> Some ` range HeadMustHaveSeedAmount"
proof -
  have first: "\<exists>k < length nodes. validateChainDraft nodes = Some (NonSwapAction k) \<and>
      list_all single_swap (take k nodes) \<and> \<not> single_swap (nodes ! k)" if "\<not> list_all single_swap nodes"
  proof -
    from that obtain e where e: "check_actions 0 nodes = Some e" using check_actions_None [of 0 nodes] by auto
    from check_actions_Some [OF this] obtain k where "k < length nodes" "e = NonSwapAction k"
      "\<not> single_swap (nodes ! k)" "\<forall>j<k. single_swap (nodes ! j)" by auto
    then show ?thesis using e by (intro exI [of _ k]) (auto simp add: validateChainDraft_def list_all_length)
  qed
  have all: "\<not> (\<exists>k < length nodes. validateChainDraft nodes = Some (NonSwapAction k) \<and>
      list_all single_swap (take k nodes) \<and> \<not> single_swap (nodes ! k))" if "list_all single_swap nodes"
    using that by (auto simp add: list_all_length)
  have none: "validateChainDraft nodes = None \<longleftrightarrow> check_actions 0 nodes = None \<and> check_prtf 0 nodes = None"
    by (simp add: validateChainDraft_def split: option.split)
  have "check_prtf i nds \<noteq> Some (HeadMustHaveSeedAmount k)" for i nds k
    by (induction i nds rule: check_prtf.induct) auto
  moreover have "check_actions i nds \<noteq> Some (HeadMustHaveSeedAmount k)" for i nds k
    by (induction i nds rule: check_actions.induct) auto
  ultimately have head: "validateChainDraft nodes \<notin> Some ` range HeadMustHaveSeedAmount"
    by (auto simp add: validateChainDraft_def split: option.splits)
  show ?thesis
  proof (intro conjI)
    show "validateChainDraft nodes = None \<longleftrightarrow> list_all single_swap nodes \<and>
      list_all (\<lambda>k. if is_prtf (first_trigger (nd_result (nodes ! k))) then 0 < k \<and> consumes_upstream (nd_result (nodes ! k))
        else True) [0..<length nodes]"
      unfolding none check_actions_None check_prtf_None by (auto simp add: list_all_iff)
  qed (use first all head in \<open>blast+\<close>)
qed

lemma days_up: "(n + 86399) div 86400 = \<lceil>(of_int n :: rat) / 86400\<rceil>"
proof (rule ceiling_unique [symmetric])
  define q r where "q = (n + 86399) div 86400" and "r = (n + 86399) mod 86400"
  have q: "n + 86399 = 86400 * q + r" "0 \<le> r" "r < 86400" by (simp_all add: q_def r_def)
  have "86400 * q < n + 86400" using q(1,2) by linarith
  then have "(of_int (86400 * q) :: rat) < of_int (n + 86400)" by (simp only: of_int_less_iff)
  then show "of_int ((n + 86399) div 86400) - 1 < (of_int n :: rat) / 86400"
    unfolding q_def [symmetric] by (simp add: field_simps)
  have "n \<le> 86400 * q" using q(1,3) by linarith
  then have "(of_int n :: rat) \<le> of_int (86400 * q)" by (simp only: of_int_le_iff)
  then show "(of_int n :: rat) / 86400 \<le> of_int ((n + 86399) div 86400)"
    unfolding q_def [symmetric] by (simp add: field_simps)
qed

text \<open>The time fee. A rule with a deadline pays for the days left, rounded up, at least one and at most thirty;
  a rule with any other cadence pays for thirty.\<close>

theorem estimateTimeFee_exact:
  "estimateTimeFee nowSec (Until (Num (of_int d))) perDay =
     Inr (max 1 (min 30 \<lceil>(of_int (d - nowSec) :: rat) / 86400\<rceil>) * perDay)
   \<and> estimateTimeFee nowSec Once perDay = Inr (30 * perDay) \<and> estimateTimeFee nowSec (Repeat n) perDay = Inr (30 * perDay)"
proof -
  have "(d - nowSec + 86399) div 86400 = \<lceil>(of_int (d - nowSec) :: rat) / 86400\<rceil>" by (rule days_up)
  moreover have "to_bigint (Num (of_int d)) = Inr d" by (simp add: to_bigint_Inr_iff)
  moreover have "\<lceil>(of_int (d - nowSec) :: rat) / 86400\<rceil> \<le> 0 \<longleftrightarrow> d - nowSec \<le> 0"
    by (simp add: ceiling_le_zero divide_le_0_iff del: of_int_diff)
  ultimately show ?thesis
    by (auto simp add: estimateTimeFee_def Let_def TIME_FEE_MAX_DAYS_def SECS_PER_DAY_def min_def max_def)
qed

text \<open>Durations from the editor to the program. Whatever number the editor holds, once clamped it passes the
  completeness guard and is published as a whole number of seconds between one and thirty days.\<close>

theorem editor_duration_encodes:
  assumes "clampTimeElapsed v u = Some x" "x \<noteq> NaN"
  shows "isTriggerComplete (DTimeElapsed (Some x) u) \<and> (\<exists>n. 1 \<le> n \<and> n \<le> 2592000 \<and>
    buildTriggerSpec H S (TimeElapsed x u) = Inr (Some (OcTimeElapsed (Num (of_int n)))))"
proof -
  have range: "js_le (Num 1) x" "js_le x (UI_MAX_TIME_ELAPSED_BY_UNIT u)" using clamp_range [OF assms] by auto
  obtain q where q: "x = Num q" "1 \<le> q" using range by (cases x; cases u) auto
  obtain k where k: "unit_secs u = Num k" "1 \<le> q * k" "q * k \<le> 2592000"
    using range q by (cases u) (auto simp add: unit_secs_def)
  obtain r where r: "fl (q * k) = Num r" using floor_fl_range [OF k(2,3)] by (cases "fl (q * k)") auto
  have e: "timeElapsedToSecs x u = Num (of_int \<lfloor>r\<rfloor>)" by (simp add: timeElapsedToSecs_def q(1) k(1) r)
  have n: "1 \<le> \<lfloor>r\<rfloor>" "(of_int \<lfloor>r\<rfloor> :: rat) \<le> 2592000" using floor_fl_range [OF k(2,3)] r by auto
  then have "\<lfloor>r\<rfloor> \<le> 2592000" by (simp only: of_int_le_numeral_iff)
  moreover have "buildTriggerSpec H S (TimeElapsed x u) = Inr (Some (OcTimeElapsed (Num (of_int \<lfloor>r\<rfloor>))))"
    using n by (simp add: buildTriggerSpec_def Let_def e MAX_TIME_ELAPSED_SECS_def)
  ultimately show ?thesis using n(1) clamped_is_complete [OF assms] by blast
qed

theorem editor_duration_encodes_witness:
  "\<exists>n. 1 \<le> n \<and> n \<le> 2592000 \<and> buildTriggerSpec (\<lambda>_. None) demo_solana (TimeElapsed (Num 30) Days)
     = Inr (Some (OcTimeElapsed (Num (of_int n))))"
  using editor_duration_encodes [of "Some (Num 900)" Days "Num 30" "\<lambda>_. None" demo_solana]
  by (simp add: clampTimeElapsed_def js_min_def js_max_def)

end
