(* ===== verification/ChainCreate.thy ===== *)
theory ChainCreate
  imports Chains
begin

text \<open>
  sendChainCreate of src/src/lib/linked-chains.ts: the plan (derived addresses, destinations, one
  setup and one create instruction per rule), the balance check, the submission in batches with its
  partial failures, and the recovery of the created keys from the logs. The
  calls of the RPC connection are the fields of a record; the transactions handed to the wallet are
  returned as a trace, so that what was attempted before a failure is part of the result.
\<close>

datatype chainError =
  NotConfigured
| NodeNotSwap nat
| TriggerNotEncoded nat
| ActionNotEncoded nat
| NotEnoughSol int int
| NonceTaken
| Thrown js_error

definition lift_js :: "(js_error, 'a) result \<Rightarrow> (chainError, 'a) result" where
  "lift_js r = (case r of Inl e \<Rightarrow> Inl (Thrown e) | Inr x \<Rightarrow> Inr x)"

record programConfig =
  pc_keeper :: pubkey
  pc_treasury :: pubkey
  pc_automationCount :: int
  pc_timeFeeLamportsPerDay :: int

text \<open>
  The connection: the config fetch, account owners, the balance, the wall clock, the first
  blockhash of the chain batches, the outcome of the k-th transaction (signing, sending and
  confirming, or the failure of one of them), and the logs of a confirmed transaction.
\<close>

record rpc =
  rpc_config :: "(js_error, programConfig) result"
  rpc_info :: account_info
  rpc_balance :: "(js_error, int) result"
  rpc_nowSec :: int
  rpc_chainBlockhash :: "(js_error, unit) result"
  rpc_send :: "nat \<Rightarrow> (js_error, string) result"
  rpc_logs :: "string \<Rightarrow> (js_error, string list) result"

section \<open>The plan of one rule\<close>

text \<open>The context computed before the loop over the rules.\<close>

record chainCtx =
  cx_owner :: pubkey
  cx_programId :: pubkey
  cx_config :: programConfig
  cx_startNonce :: int
  cx_nodes :: "chainNodeDraft list"
  cx_loopMode :: "loopMode option"
  cx_nodePdas :: "pubkey list"

definition destination_of :: "chainCtx \<Rightarrow> chainNodeDraft \<Rightarrow> pubkey option" where
  "destination_of C nd = (if length (cx_nodes C) = 1 then Some (cx_owner C)
     else case nd_next nd of None \<Rightarrow> Some (cx_owner C)
       | Some j \<Rightarrow> nth_int (cx_nodePdas C) j)"

definition linked_downstream :: "chainCtx \<Rightarrow> chainNodeDraft \<Rightarrow> pubkey option" where
  "linked_downstream C nd = (if length (cx_nodes C) > 1 then
       (case nd_next nd of None \<Rightarrow> None | Some j \<Rightarrow> nth_int (cx_nodePdas C) j)
     else None)"

definition cycle_members :: "chainCtx \<Rightarrow> int list" where
  "cycle_members C = (if cx_loopMode C \<noteq> None
     then if length (cx_nodes C) = 1 then [0] else findCycleNodes (cx_nodes C) else [])"

definition link_class :: "chainCtx \<Rightarrow> nat \<Rightarrow> chainLinkClass option" where
  "link_class C i = (if i = 0 then None
     else Some (classifyChainLink (nd_result (cx_nodes C ! (i - 1))) (nd_result (cx_nodes C ! i))))"

definition resolve_trigger :: "chainCtx \<Rightarrow> nat \<Rightarrow> trigger \<Rightarrow> trigger" where
  "resolve_trigger C i t = (case t of
       PriceRelativeToFill up dir bps \<Rightarrow>
         if i > 0 then PriceRelativeToFill (cx_nodePdas C ! (i - 1)) dir bps else t
     | _ \<Rightarrow> t)"

text \<open>The head cannot consume an upstream output.\<close>

definition safe_swap :: "nat \<Rightarrow> swapAction \<Rightarrow> swapAction" where
  "safe_swap i s = (if i = 0 \<and> sw_consumeUpstreamOutput s = Some True
     then s\<lparr>sw_consumeUpstreamOutput := Some False\<rparr> else s)"

definition seed_amount :: "solana \<Rightarrow> chainCtx \<Rightarrow> nat \<Rightarrow> int \<Rightarrow> (js_error, int) result" where
  "seed_amount S C i amountIn =
    (if i \<noteq> 0 then Inr 0
     else case (length (cx_nodes C) = 1, cx_loopMode C) of
       (True, Some m) \<Rightarrow> and_then (new_bn S (case m of Frequency cycles \<Rightarrow> cycles | Infinite \<Rightarrow> SELF_LOOP_INFINITE_FUND_CYCLES))
         (\<lambda>n. Inr (amountIn * n))
     | _ \<Rightarrow> Inr amountIn)"

definition token_program_of :: "solana \<Rightarrow> account_info \<Rightarrow> tokenRef \<Rightarrow> pubkey \<Rightarrow> (js_error, pubkey) result" where
  "token_program_of S info tok mint = (if str_truthy (tr_tokenProgram tok)
     then opt_or_throw (ErrorMsg ''Invalid public key input'') (parse_pubkey S (the (tr_tokenProgram tok)))
     else resolveMintTokenProgram info mint)"

definition create_ata :: "solana \<Rightarrow> pubkey \<Rightarrow> pubkey \<Rightarrow> pubkey \<Rightarrow> pubkey \<Rightarrow> instruction" where
  "create_ata S payer own mint tp = IxCreateAta payer (associatedTokenAddressForProgram S own mint tp) own mint tp"

text \<open>The setup instructions of a rule, in the order the code pushes them.\<close>

definition wrap_ixs :: "solana \<Rightarrow> pubkey \<Rightarrow> int \<Rightarrow> instruction list" where
  "wrap_ixs S own lamports =
    (let wsol = associatedTokenAddressForProgram S own SOL_MINT_STR SPL_TOKEN_PROGRAM_ID in
     [create_ata S own own SOL_MINT_STR SPL_TOKEN_PROGRAM_ID,
      IxSystemTransfer own wsol lamports,
      IxSyncNative wsol SPL_TOKEN_PROGRAM_ID])"

definition setup_ixs ::
  "solana \<Rightarrow> chainCtx \<Rightarrow> nat \<Rightarrow> swapSpec \<Rightarrow> pubkey \<Rightarrow> int \<Rightarrow> pubkey \<Rightarrow> pubkey \<Rightarrow> instruction list" where
  "setup_ixs S C i sp dest seed inTp outTp =
     (if os_inputMint sp \<noteq> SOL_MINT_STR
      then [create_ata S (cx_owner C) (cx_owner C) (os_inputMint sp) inTp] else []) @
     (if i = 0 \<and> os_inputMint sp = SOL_MINT_STR then wrap_ixs S (cx_owner C) seed else []) @
     [create_ata S (cx_owner C) (cx_nodePdas C ! i) (os_inputMint sp) inTp,
      create_ata S (cx_owner C) dest (os_outputMint sp) outTp,
      create_ata S (cx_owner C) (pc_treasury (cx_config C)) (os_outputMint sp) outTp]"

definition effective_cadence :: "chainCtx \<Rightarrow> nat \<Rightarrow> cadence \<Rightarrow> cadence" where
  "effective_cadence C i c = (case cx_loopMode C of
       Some m \<Rightarrow> if int i \<in> set (cycle_members C) then loopModeToCadence m else c
     | None \<Rightarrow> c)"

definition bridge_enabled :: "chainCtx \<Rightarrow> nat \<Rightarrow> chainNodeDraft \<Rightarrow> bool" where
  "bridge_enabled C i nd \<longleftrightarrow> link_class C i = Some BridgeRequired \<or>
     (nd_next nd = Some (int i) \<and> classifyChainLink (nd_result nd) (nd_result nd) = BridgeRequired)"

record nodePlan =
  np_setup :: "instruction list"
  np_ix :: instruction
  np_seed :: int
  np_fee :: int
  np_wrap :: int

definition encode_node ::
  "hermes \<Rightarrow> solana \<Rightarrow> chainCtx \<Rightarrow> nat \<Rightarrow> chainNodeDraft
    \<Rightarrow> (chainError, onChainTriggerSpec \<times> swapAction \<times> swapSpec) result" where
  "encode_node H S C i nd =
    (case (first_trigger (nd_result nd), as_swap (first_action (nd_result nd))) of
       (Some t, Some sw) \<Rightarrow>
         and_then (lift_js (buildTriggerSpec H S (resolve_trigger C i t))) (\<lambda>ot.
         and_then (opt_or_throw (TriggerNotEncoded i) ot) (\<lambda>trig.
         and_then (lift_js (buildSwapAction S (case destination_of C nd of Some d \<Rightarrow> d | None \<Rightarrow> [])
             (Swap (safe_swap i sw)) (linked_downstream C nd))) (\<lambda>os.
         and_then (opt_or_throw (ActionNotEncoded i) os) (\<lambda>sp.
         Inr (trig, sw, sp)))))
     | _ \<Rightarrow> Inl (NodeNotSwap i))"

text \<open>An undefined destination makes the derivation of its token account throw.\<close>

definition plan_node ::
  "hermes \<Rightarrow> solana \<Rightarrow> anchor \<Rightarrow> rpc \<Rightarrow> chainCtx \<Rightarrow> nat \<Rightarrow> chainNodeDraft \<Rightarrow> (chainError, nodePlan) result" where
  "plan_node H S A R C i nd =
     and_then (encode_node H S C i nd) (\<lambda>(trig, sw, sp).
     and_then (lift_js (seed_amount S C i (os_amountIn sp))) (\<lambda>seed.
     and_then (lift_js (token_program_of S (rpc_info R) (sw_inputToken sw) (os_inputMint sp))) (\<lambda>inTp.
     and_then (lift_js (token_program_of S (rpc_info R) (sw_outputToken sw) (os_outputMint sp))) (\<lambda>outTp.
     and_then (opt_or_throw (Thrown TypeError) (destination_of C nd)) (\<lambda>dest.
     let cad = effective_cadence C i (br_cadence (nd_result nd)) in
     and_then (lift_js (estimateTimeFee (rpc_nowSec R) cad (pc_timeFeeLamportsPerDay (cx_config C)))) (\<lambda>fee.
     and_then (lift_js (cadenceToOnChain S cad)) (\<lambda>ocad.
     and_then (lift_js (buildCreateAutomationSwapLinkedIx S A (cx_programId C) (cx_owner C)
         (pc_keeper (cx_config C))
         \<lparr>ca_trigger = trig, ca_action = OcSwap sp, ca_cadence = ocad,
          ca_minIntervalSecs = br_minIntervalSecs (nd_result nd)\<rparr>
         \<lparr>la_enableFeeTopup = True, la_seedAmount = seed, la_bridgeEnabled = bridge_enabled C i nd\<rparr>
         (os_inputMint sp) (cx_startNonce C + int i) (Some inTp))) (\<lambda>bt.
     Inr \<lparr>np_setup = setup_ixs S C i sp dest seed inTp outTp, np_ix = bt_ix bt, np_seed = seed,
       np_fee = fee,
       np_wrap = (if i = 0 \<and> os_inputMint sp = SOL_MINT_STR then seed else 0)\<rparr>))))))))"

fun plan_nodes ::
  "hermes \<Rightarrow> solana \<Rightarrow> anchor \<Rightarrow> rpc \<Rightarrow> chainCtx \<Rightarrow> nat \<Rightarrow> chainNodeDraft list \<Rightarrow> (chainError, nodePlan list) result" where
  "plan_nodes H S A R C i [] = Inr []"
| "plan_nodes H S A R C i (nd # nds) =
     and_then (plan_node H S A R C i nd) (\<lambda>p.
     and_then (plan_nodes H S A R C (Suc i) nds) (\<lambda>ps. Inr (p # ps)))"

section \<open>The balance check\<close>

definition ATA_RENT_LAMPORTS :: int where "ATA_RENT_LAMPORTS = 2039280"
definition TX_FEE_LAMPORTS :: int where "TX_FEE_LAMPORTS = 5000"
definition CHAIN_BATCH_SIZE :: nat where "CHAIN_BATCH_SIZE = 2"

definition estimated_sol :: "nodePlan list \<Rightarrow> int" where
  "estimated_sol ps =
    (let setup = concat (map np_setup ps);
         chainTxCount = (int (length ps) + int CHAIN_BATCH_SIZE - 1) div int CHAIN_BATCH_SIZE;
         txCount = (if setup \<noteq> [] then 1 else 0) + chainTxCount
     in sum_list (map np_fee ps) + sum_list (map np_wrap ps) +
        ATA_RENT_LAMPORTS * int (length setup) + TX_FEE_LAMPORTS * txCount)"

definition preflight :: "rpc \<Rightarrow> nodePlan list \<Rightarrow> (chainError, unit) result" where
  "preflight R ps = and_then (lift_js (rpc_balance R)) (\<lambda>bal.
     guard_ok (estimated_sol ps \<le> bal) (NotEnoughSol (estimated_sol ps) bal))"

section \<open>Submission\<close>

function batches_of :: "nat \<Rightarrow> 'a list \<Rightarrow> 'a list list" where
  "batches_of n xs = (if xs = [] \<or> n = 0 then [] else take n xs # batches_of n (drop n xs))"
  by auto
termination by (relation "measure (\<lambda>(n, xs). length xs)") auto

declare batches_of.simps [simp del]

definition error_text :: "js_error \<Rightarrow> string" where
  "error_text e = (case e of ErrorMsg m \<Rightarrow> m | RangeError \<Rightarrow> ''RangeError'' | TypeError \<Rightarrow> ''TypeError'')"

definition is_collision :: "js_error \<Rightarrow> bool" where
  "is_collision e \<longleftrightarrow> str_includes (error_text e) ''already in use'' \<or>
     str_includes (error_text e) ''0x0'' \<or> str_includes (error_text e) ''AlreadyInitialized''"

definition batch_error :: "js_error \<Rightarrow> chainError" where
  "batch_error e = (if is_collision e then NonceTaken else Thrown e)"

text \<open>The batches from the k-th transaction on: what was attempted, and the signatures or the error.\<close>

fun send_batches ::
  "rpc \<Rightarrow> nat \<Rightarrow> instruction list list \<Rightarrow> instruction list list \<times> (chainError, string list) result" where
  "send_batches R k [] = ([], Inr [])"
| "send_batches R k (b # bs) = (case rpc_send R k of
       Inl e \<Rightarrow> ([b], Inl (batch_error e))
     | Inr sig \<Rightarrow> (case send_batches R (Suc k) bs of
           (tr, Inl e) \<Rightarrow> (b # tr, Inl e)
         | (tr, Inr sigs) \<Rightarrow> (b # tr, Inr (sig # sigs))))"

definition submit_all ::
  "rpc \<Rightarrow> nodePlan list \<Rightarrow> instruction list list \<times> (chainError, string list) result" where
  "submit_all R ps =
    (let setup = concat (map np_setup ps); bs = batches_of CHAIN_BATCH_SIZE (map np_ix ps);
         continue = (\<lambda>k. case rpc_chainBlockhash R of
            Inl e \<Rightarrow> ([], Inl (Thrown e))
          | Inr _ \<Rightarrow> send_batches R k bs)
     in if setup = [] then continue 0
        else case rpc_send R 0 of
          Inl e \<Rightarrow> ([setup], Inl (Thrown e))
        | Inr _ \<Rightarrow> (case continue 1 of (tr, r) \<Rightarrow> (setup # tr, r)))"

section \<open>The created keys\<close>

fun created_events :: "programEvent list \<Rightarrow> (pubkey \<times> string) list" where
  "created_events [] = []"
| "created_events (e # es) = (if is_created_event e then
      (case event_key e of None \<Rightarrow> created_events es
        | Some p \<Rightarrow> (p, show_int (ev_nonce e)) # created_events es)
    else created_events es)"

definition parseAllAutomationCreated :: "solana \<Rightarrow> string list \<Rightarrow> (pubkey \<times> string) list" where
  "parseAllAutomationCreated S logs = created_events (parse_logs S logs)"

fun collect_events :: "solana \<Rightarrow> rpc \<Rightarrow> string list \<Rightarrow> (js_error, (pubkey \<times> string) list) result" where
  "collect_events S R [] = Inr []"
| "collect_events S R (sig # sigs) = and_then (rpc_logs R sig) (\<lambda>logs.
     and_then (collect_events S R sigs) (\<lambda>es. Inr (parseAllAutomationCreated S logs @ es)))"

definition derived_key :: "chainCtx \<Rightarrow> nat \<Rightarrow> pubkey \<times> string" where
  "derived_key C i = (cx_nodePdas C ! i, show_int (cx_startNonce C + int i))"

text \<open>Missing events are filled with derived keys from the number of events found.\<close>

definition fill_events :: "chainCtx \<Rightarrow> (pubkey \<times> string) list \<Rightarrow> (pubkey \<times> string) list" where
  "fill_events C es = take (length (cx_nodes C))
     (es @ map (derived_key C) [length es..<length (cx_nodes C)])"

record createdNode =
  cn_pubkey :: pubkey
  cn_nonce :: string
  cn_seedAmount :: string

record chainCreateResult =
  cc_signature :: string
  cc_nodes :: "createdNode list"

definition created_nodes :: "chainCtx \<Rightarrow> nodePlan list \<Rightarrow> (pubkey \<times> string) list \<Rightarrow> createdNode list" where
  "created_nodes C ps es = map (\<lambda>(e, p). \<lparr>cn_pubkey = fst e, cn_nonce = snd e,
     cn_seedAmount = show_int (np_seed p)\<rparr>) (zip (fill_events C es) ps)"

section \<open>The whole flow\<close>

definition node_pdas :: "solana \<Rightarrow> pubkey \<Rightarrow> int \<Rightarrow> pubkey \<Rightarrow> nat \<Rightarrow> (js_error, pubkey list) result" where
  "node_pdas S own start prog n = map_result (\<lambda>i. automationPda S own (start + int i) prog) [0..<n]"

definition make_ctx ::
  "solana \<Rightarrow> rpc \<Rightarrow> pubkey option \<Rightarrow> pubkey \<Rightarrow> chainNodeDraft list \<Rightarrow> loopMode option \<Rightarrow> (chainError, chainCtx) result" where
  "make_ctx S R prog own nodes loop =
     and_then (opt_or_throw NotConfigured prog) (\<lambda>programId.
     and_then (lift_js (rpc_config R)) (\<lambda>config.
     and_then (lift_js (node_pdas S own (pc_automationCount config) programId (length nodes))) (\<lambda>pdas.
     Inr \<lparr>cx_owner = own, cx_programId = programId, cx_config = config,
       cx_startNonce = pc_automationCount config, cx_nodes = nodes, cx_loopMode = loop,
       cx_nodePdas = pdas\<rparr>)))"

definition plan_chain ::
  "hermes \<Rightarrow> solana \<Rightarrow> anchor \<Rightarrow> rpc \<Rightarrow> pubkey option \<Rightarrow> pubkey \<Rightarrow> chainNodeDraft list \<Rightarrow> loopMode option
    \<Rightarrow> (chainError, chainCtx \<times> nodePlan list) result" where
  "plan_chain H S A R prog own nodes loop =
     and_then (make_ctx S R prog own nodes loop) (\<lambda>C.
     and_then (plan_nodes H S A R C 0 nodes) (\<lambda>ps.
     and_then (preflight R ps) (\<lambda>_. Inr (C, ps))))"

definition finish_chain ::
  "solana \<Rightarrow> rpc \<Rightarrow> chainCtx \<Rightarrow> nodePlan list \<Rightarrow> string list \<Rightarrow> (chainError, chainCreateResult) result" where
  "finish_chain S R C ps sigs =
     and_then (lift_js (collect_events S R sigs)) (\<lambda>es.
     Inr \<lparr>cc_signature = (if sigs = [] then [] else last sigs), cc_nodes = created_nodes C ps es\<rparr>)"

definition sendChainCreate ::
  "hermes \<Rightarrow> solana \<Rightarrow> anchor \<Rightarrow> rpc \<Rightarrow> pubkey option \<Rightarrow> pubkey \<Rightarrow> chainNodeDraft list \<Rightarrow> loopMode option
    \<Rightarrow> instruction list list \<times> (chainError, chainCreateResult) result" where
  "sendChainCreate H S A R prog own nodes loop =
    (case plan_chain H S A R prog own nodes loop of
       Inl e \<Rightarrow> ([], Inl e)
     | Inr (C, ps) \<Rightarrow> (case submit_all R ps of
           (tr, Inl e) \<Rightarrow> (tr, Inl e)
         | (tr, Inr sigs) \<Rightarrow> (tr, finish_chain S R C ps sigs)))"

section \<open>Lemmas on the plan\<close>

lemma lift_js_simps [result_simps]:
  "lift_js r = Inr x \<longleftrightarrow> r = Inr x" "lift_js r = Inl e \<longleftrightarrow> (\<exists>e'. r = Inl e' \<and> e = Thrown e')"
  by (cases r; auto simp add: lift_js_def)+

lemma plan_nodes_nth:
  "plan_nodes H S A R C i nds = Inr ps \<Longrightarrow>
     length ps = length nds \<and> (\<forall>k < length nds. plan_node H S A R C (i + k) (nds ! k) = Inr (ps ! k))"
proof (induction H S A R C i nds arbitrary: ps rule: plan_nodes.induct)
  case (2 H S A R C i nd nds)
  from 2(2) obtain p qs where p: "plan_node H S A R C i nd = Inr p"
      "plan_nodes H S A R C (Suc i) nds = Inr qs" "ps = p # qs" by (auto simp add: result_simps)
  from 2(1) [OF p(2)] p show ?case by (auto simp add: nth_Cons split: nat.splits)
qed simp

lemma make_ctx_facts:
  assumes "make_ctx S R prog own nodes loop = Inr C"
  shows "cx_owner C = own" "cx_nodes C = nodes" "cx_loopMode C = loop" "prog = Some (cx_programId C)"
    "rpc_config R = Inr (cx_config C)" "cx_startNonce C = pc_automationCount (cx_config C)"
    "length (cx_nodePdas C) = length nodes"
    "\<And>i. i < length nodes \<Longrightarrow> automationPda S own (cx_startNonce C + int i) (cx_programId C) = Inr (cx_nodePdas C ! i)"
proof -
  from assms obtain pid cfg pdas where c: "prog = Some pid" "rpc_config R = Inr cfg"
      "node_pdas S own (pc_automationCount cfg) pid (length nodes) = Inr pdas"
      "C = \<lparr>cx_owner = own, cx_programId = pid, cx_config = cfg, cx_startNonce = pc_automationCount cfg,
            cx_nodes = nodes, cx_loopMode = loop, cx_nodePdas = pdas\<rparr>"
    by (auto simp add: make_ctx_def result_simps)
  then show "cx_owner C = own" "cx_nodes C = nodes" "cx_loopMode C = loop" "prog = Some (cx_programId C)"
    "rpc_config R = Inr (cx_config C)" "cx_startNonce C = pc_automationCount (cx_config C)" by simp_all
  have l: "list_all2 (\<lambda>i p. automationPda S own (pc_automationCount cfg + int i) pid = Inr p) [0..<length nodes] pdas"
    using c(3) by (simp add: node_pdas_def map_result_Inr_iff)
  then show "length (cx_nodePdas C) = length nodes" using c(4) by (auto dest: list_all2_lengthD)
  show "automationPda S own (cx_startNonce C + int i) (cx_programId C) = Inr (cx_nodePdas C ! i)"
    if "i < length nodes" for i
    using list_all2_nthD [OF l, of i] that c(4) by simp
qed

text \<open>What a successful plan of one rule consists of.\<close>

definition node_facts ::
  "hermes \<Rightarrow> solana \<Rightarrow> rpc \<Rightarrow> chainCtx \<Rightarrow> nat \<Rightarrow> chainNodeDraft \<Rightarrow> nodePlan \<Rightarrow> onChainTriggerSpec \<Rightarrow>
   swapAction \<Rightarrow> swapSpec \<Rightarrow> pubkey \<Rightarrow> onChainCadence \<Rightarrow> pubkey \<Rightarrow> pubkey \<Rightarrow> bool" where
  "node_facts H S R C i nd p trig sw sp dest ocad inTp outTp \<longleftrightarrow>
     encode_node H S C i nd = Inr (trig, sw, sp) \<and>
     seed_amount S C i (os_amountIn sp) = Inr (np_seed p) \<and>
     token_program_of S (rpc_info R) (sw_inputToken sw) (os_inputMint sp) = Inr inTp \<and>
     token_program_of S (rpc_info R) (sw_outputToken sw) (os_outputMint sp) = Inr outTp \<and>
     destination_of C nd = Some dest \<and>
     estimateTimeFee (rpc_nowSec R) (effective_cadence C i (br_cadence (nd_result nd)))
       (pc_timeFeeLamportsPerDay (cx_config C)) = Inr (np_fee p) \<and>
     cadenceToOnChain S (effective_cadence C i (br_cadence (nd_result nd))) = Inr ocad \<and>
     np_setup p = setup_ixs S C i sp dest (np_seed p) inTp outTp \<and>
     np_ix p = IxCreateAutomationSwapLinked
       \<lparr>ca_trigger = trig, ca_action = OcSwap sp, ca_cadence = ocad,
        ca_minIntervalSecs = br_minIntervalSecs (nd_result nd)\<rparr>
       \<lparr>la_enableFeeTopup = True, la_seedAmount = np_seed p, la_bridgeEnabled = bridge_enabled C i nd\<rparr>
       (swap_accounts S (cx_programId C) (cx_owner C) (pc_keeper (cx_config C))
          (find_pda S [SeedText ''automation'', SeedKey (cx_owner C), SeedU64 (cx_startNonce C + int i)] (cx_programId C))
          (os_inputMint sp) inTp)"

lemma plan_node_facts:
  assumes "plan_node H S A R C i nd = Inr p"
  shows "\<exists>trig sw sp dest ocad inTp outTp. node_facts H S R C i nd p trig sw sp dest ocad inTp outTp"
proof -
  obtain trig sw sp where e: "encode_node H S C i nd = Inr (trig, sw, sp)"
    using assms by (auto simp add: plan_node_def result_simps)
  show ?thesis using assms
    by (auto simp add: plan_node_def Let_def result_simps e node_facts_def buildCreateAutomationSwapLinkedIx_def)
qed

lemma encode_node_facts:
  assumes "encode_node H S C i nd = Inr (trig, sw, sp)"
  shows "as_swap (first_action (nd_result nd)) = Some sw"
    and "\<exists>t. first_trigger (nd_result nd) = Some t \<and> buildTriggerSpec H S (resolve_trigger C i t) = Inr (Some trig)"
    and "buildSwapAction S (case destination_of C nd of Some d \<Rightarrow> d | None \<Rightarrow> [])
      (Swap (safe_swap i sw)) (linked_downstream C nd) = Inr (Some sp)"
  using assms by (auto simp add: encode_node_def result_simps split: option.splits)

lemma buildSwapAction_Some:
  assumes "buildSwapAction S d (Swap s) l = Inr (Some sp)"
  shows "os_destination sp = d" "os_linkedDownstream sp = l" "os_minAmountOut sp = 0"
    "tryPubkey S (Some (in_mint s)) = Some (os_inputMint sp)"
    "tryPubkey S (Some (out_mint s)) = Some (os_outputMint sp)"
    "os_consumeUpstreamOutput sp \<longleftrightarrow> sw_consumeUpstreamOutput s = Some True"
    "sw_consumeUpstreamOutput s = Some True \<Longrightarrow> os_amountIn sp = U64_MAX"
    "sw_consumeUpstreamOutput s \<noteq> Some True \<Longrightarrow>
       new_bn S (js_round (js_mul (sw_amount s) (js_pow10 (tr_decimals (sw_inputToken s))))) = Inr (os_amountIn sp)"
  using assms by (auto simp add: buildSwapAction_def Let_def result_simps split: option.splits if_splits)

lemma safe_swap_head: "sw_consumeUpstreamOutput (safe_swap 0 s) \<noteq> Some True"
  by (simp add: safe_swap_def)

lemma safe_swap_fields [simp]:
  "sw_inputToken (safe_swap i s) = sw_inputToken s" "sw_outputToken (safe_swap i s) = sw_outputToken s"
  "sw_amount (safe_swap i s) = sw_amount s"
  by (simp_all add: safe_swap_def)

lemma seed_amount_downstream: "seed_amount S C (Suc i) a = Inr s \<Longrightarrow> s = 0"
  by (simp add: seed_amount_def)

section \<open>Lemmas on submission\<close>

lemma batches_step:
  "xs = [] \<Longrightarrow> batches_of n xs = []"
  "xs \<noteq> [] \<Longrightarrow> 0 < n \<Longrightarrow> batches_of n xs = take n xs # batches_of n (drop n xs)"
  by (simp_all add: batches_of.simps [of n xs] batches_of.simps [of n "[]"])




text \<open>A failure stops at the transaction that failed; the ones before it were confirmed.\<close>

lemma send_batches_fail:
  "send_batches R k bs = (tr, Inl e) \<Longrightarrow>
     \<exists>n < length bs. tr = take (Suc n) bs \<and> (\<forall>j<n. \<exists>sig. rpc_send R (k + j) = Inr sig) \<and>
       (\<exists>e'. rpc_send R (k + n) = Inl e' \<and> e = batch_error e')"
proof (induction R k bs arbitrary: tr rule: send_batches.induct)
  case (2 R k b bs)
  show ?case
  proof (cases "rpc_send R k")
    case (Inl e')
    then show ?thesis using 2(2) by (intro exI [of _ 0]) auto
  next
    case (Inr sig)
    obtain tr' where s: "send_batches R (Suc k) bs = (tr', Inl e)" "tr = b # tr'"
      using 2(2) Inr by (auto split: prod.splits sum.splits)
    from 2(1) [OF Inr s(1)] obtain n where "n < length bs" "tr' = take (Suc n) bs"
        "\<forall>j<n. \<exists>sig. rpc_send R (Suc k + j) = Inr sig" "\<exists>e'. rpc_send R (Suc k + n) = Inl e' \<and> e = batch_error e'"
      by blast
    then show ?thesis using s(2) Inr by (intro exI [of _ "Suc n"]) (auto simp add: All_less_Suc2)
  qed
qed simp

lemma fill_events_length: "length (fill_events C es) = length (cx_nodes C)"
  by (simp add: fill_events_def min_def)

section \<open>A concrete chain, for evaluation\<close>

definition demo_token :: "string \<Rightarrow> tokenRef" where
  "demo_token m = \<lparr>tr_mint = m, tr_symbol = m, tr_name = m, tr_logo = None, tr_decimals = 6,
     tr_metadataSource = Mainnet, tr_tokenProgram = None\<rparr>"

definition demo_swap :: "string \<Rightarrow> string \<Rightarrow> swapAction" where
  "demo_swap i out = \<lparr>sw_inputToken = demo_token i, sw_outputToken = demo_token out,
     sw_amount = Num 2, sw_linkedDownstream = None, sw_consumeUpstreamOutput = None\<rparr>"

definition demo_rule :: "string \<Rightarrow> string \<Rightarrow> builderResult" where
  "demo_rule i out = \<lparr>br_triggers = [TimeElapsed (Num 5) Minutes], br_triggerOperators = [],
     br_actions = [Swap (demo_swap i out)],
     br_actionOperators = [], br_cadence = Once, br_minIntervalSecs = Num 0\<rparr>"

definition demo_nodes :: "chainNodeDraft list" where
  "demo_nodes = [\<lparr>nd_result = demo_rule ''U'' ''T'', nd_next = Some 1\<rparr>,
     \<lparr>nd_result = demo_rule ''T'' ''U'', nd_next = Some 0\<rparr>]"

definition demo_rpc :: rpc where
  "demo_rpc = \<lparr>rpc_config = Inr \<lparr>pc_keeper = ''K'', pc_treasury = ''Y'', pc_automationCount = 7,
       pc_timeFeeLamportsPerDay = 1000\<rparr>,
     rpc_info = (\<lambda>_. Inr (Some SPL_TOKEN_PROGRAM_ID)), rpc_balance = Inr 1000000000, rpc_nowSec = 0,
     rpc_chainBlockhash = Inr (), rpc_send = (\<lambda>k. Inr (show_nat k)), rpc_logs = (\<lambda>_. Inr [])\<rparr>"

definition demo_hermes :: hermes where
  "demo_hermes = (\<lambda>_. None)"

definition demo_anchor :: anchor where
  "demo_anchor = (\<lambda>_. None)"

lemmas demo_defs = demo_token_def demo_swap_def demo_rule_def demo_nodes_def demo_rpc_def demo_hermes_def demo_anchor_def
  demo_solana_def

lemma demo_encode_ok:
  "i = 0 \<or> i = 1 \<Longrightarrow> destination_of C nd \<noteq> None \<Longrightarrow> nd_result nd = demo_rule a b \<Longrightarrow> a \<noteq> [] \<Longrightarrow> b \<noteq> [] \<Longrightarrow>
     \<exists>trig sw sp. encode_node demo_hermes demo_solana C i nd = Inr (trig, sw, sp)"
  by (auto simp add: encode_node_def demo_defs first_trigger_def first_action_def as_swap_def resolve_trigger_def
      buildTriggerSpec_def timeElapsedToSecs_def unit_secs_def MAX_TIME_ELAPSED_SECS_def js_eval lift_js_def
      buildSwapAction_def safe_swap_def tryPubkey_def js_pow10_def demo_bn_def Let_def)

lemma demo_cycle: "findCycleNodes demo_nodes = [0, 1]"
  by (simp add: findCycleNodes_def demo_nodes_def next_of_def nth_int_def index_in_def find_index_def upt_rec)

lemma demo_plan:
  "\<exists>C ps. plan_chain demo_hermes demo_solana demo_anchor demo_rpc (Some ''P'') ''O'' demo_nodes
     (Some (Frequency (Num 3))) = Inr (C, ps)"
  by (simp add: plan_chain_def make_ctx_def node_pdas_def automationPda_def demo_nodes_def lift_js_def upt_rec
      demo_rpc_def plan_node_def encode_node_def first_trigger_def first_action_def as_swap_def
      resolve_trigger_def buildTriggerSpec_def timeElapsedToSecs_def unit_secs_def MAX_TIME_ELAPSED_SECS_def
      js_eval buildSwapAction_def safe_swap_def tryPubkey_def js_pow10_def demo_bn_def Let_def demo_rule_def
      demo_token_def demo_swap_def demo_solana_def seed_amount_def token_program_of_def str_truthy_def
      resolveMintTokenProgram_def isKnownTokenProgram_def destination_of_def nth_int_def effective_cadence_def
      cycle_members_def demo_cycle [unfolded demo_nodes_def demo_rule_def demo_token_def demo_swap_def]
      estimateTimeFee_def cadenceToOnChain_def buildCreateAutomationSwapLinkedIx_def encode_ix_def
      demo_anchor_def preflight_def guard_ok_def estimated_sol_def setup_ixs_def SOL_MINT_STR_def
      create_ata_def ATA_RENT_LAMPORTS_def TX_FEE_LAMPORTS_def TIME_FEE_MAX_DAYS_def CHAIN_BATCH_SIZE_def)

section \<open>The plan as a whole\<close>

lemma plan_chain_parts:
  assumes "plan_chain H S A R prog own nodes loop = Inr (C, ps)"
  shows "make_ctx S R prog own nodes loop = Inr C" "plan_nodes H S A R C 0 nodes = Inr ps"
    "preflight R ps = Inr ()"
  using assms by (auto simp add: plan_chain_def result_simps)

lemma plan_chain_node:
  assumes "plan_chain H S A R prog own nodes loop = Inr (C, ps)" "i < length nodes"
  obtains trig sw sp dest ocad inTp outTp where
    "node_facts H S R C i (nodes ! i) (ps ! i) trig sw sp dest ocad inTp outTp"
  using plan_nodes_nth [OF plan_chain_parts(2) [OF assms(1)]] assms(2) plan_node_facts
  by (metis add_0)

lemma destination_cases:
  assumes "destination_of C nd = Some d"
  shows "d = (if length (cx_nodes C) = 1 \<or> nd_next nd = None then cx_owner C
      else cx_nodePdas C ! nat (the (nd_next nd)))"
    "length (cx_nodes C) \<noteq> 1 \<Longrightarrow> nd_next nd = Some j \<Longrightarrow>
       0 \<le> j \<and> nat j < length (cx_nodePdas C) \<and> d = cx_nodePdas C ! nat j"
  using assms by (auto simp add: destination_of_def nth_int_def nth_opt_Some_iff split: option.splits if_splits)

text \<open>The create instruction of rule i, read off a successful plan.\<close>

definition create_ix ::
  "solana \<Rightarrow> chainCtx \<Rightarrow> nat \<Rightarrow> onChainTriggerSpec \<Rightarrow> swapSpec \<Rightarrow> onChainCadence \<Rightarrow> pubkey \<Rightarrow> int \<Rightarrow> instruction" where
  "create_ix S C i trig sp ocad inTp seed = IxCreateAutomationSwapLinked
     \<lparr>ca_trigger = trig, ca_action = OcSwap sp, ca_cadence = ocad,
      ca_minIntervalSecs = br_minIntervalSecs (nd_result (cx_nodes C ! i))\<rparr>
     \<lparr>la_enableFeeTopup = True, la_seedAmount = seed, la_bridgeEnabled = bridge_enabled C i (cx_nodes C ! i)\<rparr>
     (swap_accounts S (cx_programId C) (cx_owner C) (pc_keeper (cx_config C)) (cx_nodePdas C ! i)
        (os_inputMint sp) inTp)"

lemma plan_chain_create_ix:
  assumes p: "plan_chain H S A R prog own nodes loop = Inr (C, ps)" and i: "i < length nodes"
    and f: "node_facts H S R C i (nodes ! i) (ps ! i) trig sw sp dest ocad inTp outTp"
  shows "np_ix (ps ! i) = create_ix S C i trig sp ocad inTp (np_seed (ps ! i))"
proof -
  note c = make_ctx_facts [OF plan_chain_parts(1) [OF p]]
  have "cx_nodePdas C ! i =
      find_pda S [SeedText ''automation'', SeedKey own, SeedU64 (cx_startNonce C + int i)] (cx_programId C)"
    using c(8) [OF i] by (simp add: result_simps)
  then show ?thesis using f c(1,2) by (simp add: node_facts_def create_ix_def)
qed

section \<open>Properties\<close>

text \<open>C1: Wiring of a planned chain. Every rule of the draft gets exactly one create instruction, in
  order, on the address derived from its own nonce; its swap pays out to the address of the rule it
  links to (to the owner when it is terminal or the only rule), and only the head carries a seed.\<close>

theorem chain_plan_wiring:
  assumes "plan_chain H S A R prog own nodes loop = Inr (C, ps)" "i < length nodes"
  shows "length ps = length nodes \<and>
    (\<exists>trig sp ocad inTp. np_ix (ps ! i) = create_ix S C i trig sp ocad inTp (np_seed (ps ! i)) \<and>
       automationPda S own (cx_startNonce C + int i) (cx_programId C) = Inr (cx_nodePdas C ! i) \<and>
       os_destination sp = (if length nodes = 1 \<or> nd_next (nodes ! i) = None then own
          else cx_nodePdas C ! nat (the (nd_next (nodes ! i)))) \<and>
       (i = 0 \<or> np_seed (ps ! i) = 0))"
proof -
  note c = make_ctx_facts [OF plan_chain_parts(1) [OF assms(1)]]
  obtain trig sw sp dest ocad inTp outTp where
    f: "node_facts H S R C i (nodes ! i) (ps ! i) trig sw sp dest ocad inTp outTp"
    using plan_chain_node [OF assms] .
  have dest: "destination_of C (nodes ! i) = Some dest" and
    e: "encode_node H S C i (nodes ! i) = Inr (trig, sw, sp)" and
    seed: "seed_amount S C i (os_amountIn sp) = Inr (np_seed (ps ! i))"
    using f by (simp_all add: node_facts_def)
  have "os_destination sp = dest"
    using buildSwapAction_Some(1) [OF encode_node_facts(3) [OF e]] dest by simp
  moreover have "i = 0 \<or> np_seed (ps ! i) = 0"
    using seed seed_amount_downstream by (cases i) auto
  moreover have "length ps = length nodes" using plan_nodes_nth [OF plan_chain_parts(2) [OF assms(1)]] by simp
  moreover note plan_chain_create_ix [OF assms f] destination_cases(1) [OF dest] c(1,2) c(8) [OF assms(2)]
  ultimately show ?thesis
    by (intro conjI exI [of _ trig] exI [of _ sp] exI [of _ ocad] exI [of _ inTp]) simp_all
qed

theorem chain_plan_wiring_witness:
  "\<exists>C ps trig sp ocad inTp. plan_chain demo_hermes demo_solana demo_anchor demo_rpc (Some ''P'') ''O'' demo_nodes
     (Some (Frequency (Num 3))) = Inr (C, ps) \<and>
     np_ix (ps ! 1) = create_ix demo_solana C 1 trig sp ocad inTp 0 \<and> os_destination sp = cx_nodePdas C ! 0"
proof -
  obtain C ps where p: "plan_chain demo_hermes demo_solana demo_anchor demo_rpc (Some ''P'') ''O'' demo_nodes
     (Some (Frequency (Num 3))) = Inr (C, ps)" using demo_plan by blast
  have "1 < length demo_nodes" "nd_next (demo_nodes ! 1) = Some 0" "length demo_nodes \<noteq> 1"
    by (simp_all add: demo_nodes_def)
  with chain_plan_wiring [OF p, of 1] obtain trig sp ocad inTp where
    "np_ix (ps ! 1) = create_ix demo_solana C 1 trig sp ocad inTp 0" "os_destination sp = cx_nodePdas C ! 0"
    by auto
  with p show ?thesis by blast
qed

definition ix_account :: "instruction \<Rightarrow> string \<Rightarrow> pubkey option" where
  "ix_account ix k = (case ix of IxCreateAutomationSwapLinked args la acc \<Rightarrow> dict_get acc k | _ \<Rightarrow> None)"

lemma create_ix_input_ata:
  "ix_account (create_ix S C i trig sp ocad inTp seed) ''automationInputAta'' =
     Some (associatedTokenAddressForProgram S (cx_nodePdas C ! i) (os_inputMint sp) inTp)"
  by (simp add: ix_account_def create_ix_def swap_accounts_def token_accounts_def)

text \<open>C25: Hand-over between linked rules. When the output token of a rule is the input token of the rule
  it links to, the token account the setup creates for its output is the input account of that rule.\<close>

theorem chain_handover:
  assumes p: "plan_chain H S A R prog own nodes loop = Inr (C, ps)"
    and ij: "i < length nodes" "j < length nodes" "length nodes \<noteq> 1" "nd_next (nodes ! i) = Some (int j)"
    and a: "as_swap (first_action (nd_result (nodes ! i))) = Some a"
    and b: "as_swap (first_action (nd_result (nodes ! j))) = Some b"
    and tok: "sw_outputToken a = sw_inputToken b"
  shows "\<exists>mint tp. create_ata S own (cx_nodePdas C ! j) mint tp \<in> set (np_setup (ps ! i)) \<and>
    ix_account (np_ix (ps ! j)) ''automationInputAta'' =
      Some (associatedTokenAddressForProgram S (cx_nodePdas C ! j) mint tp)"
proof -
  note c = make_ctx_facts [OF plan_chain_parts(1) [OF p]]
  obtain trig sw sp dest ocad inTp outTp where
    f: "node_facts H S R C i (nodes ! i) (ps ! i) trig sw sp dest ocad inTp outTp"
    using plan_chain_node [OF p ij(1)] .
  obtain trig' sw' sp' dest' ocad' inTp' outTp' where
    f': "node_facts H S R C j (nodes ! j) (ps ! j) trig' sw' sp' dest' ocad' inTp' outTp'"
    using plan_chain_node [OF p ij(2)] .
  have e: "encode_node H S C i (nodes ! i) = Inr (trig, sw, sp)"
    and e': "encode_node H S C j (nodes ! j) = Inr (trig', sw', sp')"
    using f f' by (simp_all add: node_facts_def)
  have sws: "sw = a" "sw' = b" using encode_node_facts(1) [OF e] encode_node_facts(1) [OF e'] a b by simp_all
  have mint: "os_outputMint sp = os_inputMint sp'"
    using buildSwapAction_Some(5) [OF encode_node_facts(3) [OF e]]
      buildSwapAction_Some(4) [OF encode_node_facts(3) [OF e']] sws tok by simp
  have tp: "outTp = inTp'" using f f' sws tok mint by (simp add: node_facts_def)
  have "dest = cx_nodePdas C ! j"
    using destination_cases(2) [of C "nodes ! i" dest "int j"] f ij c(2) by (simp add: node_facts_def)
  then have "create_ata S own (cx_nodePdas C ! j) (os_outputMint sp) outTp \<in> set (np_setup (ps ! i))"
    using f c(1) by (simp add: node_facts_def setup_ixs_def)
  then show ?thesis
    using plan_chain_create_ix [OF p ij(2) f'] mint tp by (auto simp add: create_ix_input_ata)
qed

theorem chain_handover_witness:
  "\<exists>C ps mint tp. plan_chain demo_hermes demo_solana demo_anchor demo_rpc (Some ''P'') ''O'' demo_nodes
     (Some (Frequency (Num 3))) = Inr (C, ps) \<and>
     create_ata demo_solana ''O'' (cx_nodePdas C ! 1) mint tp \<in> set (np_setup (ps ! 0)) \<and>
     ix_account (np_ix (ps ! 1)) ''automationInputAta'' =
       Some (associatedTokenAddressForProgram demo_solana (cx_nodePdas C ! 1) mint tp)"
proof -
  obtain C ps where p: "plan_chain demo_hermes demo_solana demo_anchor demo_rpc (Some ''P'') ''O'' demo_nodes
     (Some (Frequency (Num 3))) = Inr (C, ps)" using demo_plan by blast
  have "\<exists>mint tp. create_ata demo_solana ''O'' (cx_nodePdas C ! 1) mint tp \<in> set (np_setup (ps ! 0)) \<and>
     ix_account (np_ix (ps ! 1)) ''automationInputAta'' =
       Some (associatedTokenAddressForProgram demo_solana (cx_nodePdas C ! 1) mint tp)"
    by (rule chain_handover [OF p, where a = "demo_swap ''U'' ''T''" and b = "demo_swap ''T'' ''U''"])
      (simp_all add: demo_nodes_def demo_rule_def first_action_def as_swap_def demo_swap_def)
  with p show ?thesis by blast
qed

section \<open>Submission as a whole\<close>

text \<open>The transactions of a plan, in order: the setup, then the batches of create instructions.\<close>

definition schedule :: "nodePlan list \<Rightarrow> instruction list list" where
  "schedule ps = (let setup = concat (map np_setup ps) in
     (if setup = [] then [] else [setup]) @ batches_of CHAIN_BATCH_SIZE (map np_ix ps))"




lemma submit_all_fail:
  assumes "submit_all R ps = (tr, Inl e)"
  shows "prefix tr (schedule ps)" and
    "e = NonceTaken \<longrightarrow> (\<exists>e'. tr \<noteq> [] \<and> last tr \<in> set (batches_of CHAIN_BATCH_SIZE (map np_ix ps)) \<and>
       rpc_send R (length tr - 1) = Inl e' \<and> is_collision e')"
proof -
  let ?s = "concat (map np_setup ps)" and ?b = "batches_of CHAIN_BATCH_SIZE (map np_ix ps)"
  let ?k = "if ?s = [] then 0 else 1 :: nat"
  consider (first) e' where "?s \<noteq> []" "rpc_send R 0 = Inl e'" "tr = [?s]" "e = Thrown e'"
    | (hash) e' where "tr = (if ?s = [] then [] else [?s])" "e = Thrown e'"
    | (batch) tr' where "send_batches R ?k ?b = (tr', Inl e)" "tr = (if ?s = [] then [] else [?s]) @ tr'"
    using assms by (auto simp add: submit_all_def Let_def split: if_splits sum.splits prod.splits)
  then have "prefix tr (schedule ps) \<and> (e = NonceTaken \<longrightarrow> (\<exists>e'. tr \<noteq> [] \<and> last tr \<in> set ?b \<and>
       rpc_send R (length tr - 1) = Inl e' \<and> is_collision e'))"
  proof cases
    case batch
    from send_batches_fail [OF batch(1)] obtain n e' where n: "n < length ?b" "tr' = take (Suc n) ?b"
      "rpc_send R (?k + n) = Inl e'" "e = batch_error e'" by blast
    have len: "length tr - 1 = ?k + n" using batch(2) n by simp
    have "last tr = ?b ! n" using batch(2) n by (simp add: take_Suc_conv_app_nth)
    then have "last tr \<in> set ?b" using n by simp
    moreover have "e = NonceTaken \<longrightarrow> is_collision e'" using n(4) by (simp add: batch_error_def)
    moreover have "tr \<noteq> []" using batch(2) n by (cases ?b) auto
    moreover have "prefix tr (schedule ps)"
      using batch(2) n(2) by (auto simp add: schedule_def Let_def take_is_prefix)
    ultimately show ?thesis using n(3) unfolding len by blast
  qed (auto simp add: schedule_def Let_def)
  then show "prefix tr (schedule ps)" and "e = NonceTaken \<longrightarrow> (\<exists>e'. tr \<noteq> [] \<and> last tr \<in> set ?b \<and>
       rpc_send R (length tr - 1) = Inl e' \<and> is_collision e')" by auto
qed


lemma sendChainCreate_cases:
  assumes "sendChainCreate H S A R prog own nodes loop = (tr, r)"
  shows "(\<exists>e. plan_chain H S A R prog own nodes loop = Inl e \<and> tr = [] \<and> r = Inl e) \<or>
    (\<exists>C ps. plan_chain H S A R prog own nodes loop = Inr (C, ps) \<and>
       ((\<exists>e. submit_all R ps = (tr, Inl e) \<and> r = Inl e) \<or>
        (\<exists>sigs. submit_all R ps = (tr, Inr sigs) \<and> r = finish_chain S R C ps sigs)))"
  using assms by (auto simp add: sendChainCreate_def split: sum.splits prod.splits)


text \<open>The concrete chain is created: its three transactions are accepted.\<close>

definition demo_plan_of :: "(chainCtx \<times> nodePlan list)" where
  "demo_plan_of = (case plan_chain demo_hermes demo_solana demo_anchor demo_rpc (Some ''P'') ''O'' demo_nodes
     (Some (Frequency (Num 3))) of Inr p \<Rightarrow> p | Inl _ \<Rightarrow> undefined)"



lemma finish_demo: "\<exists>res. finish_chain demo_solana demo_rpc C ps sigs = Inr res"
proof -
  have "collect_events demo_solana demo_rpc sigs = Inr []"
    by (induction sigs) (simp_all add: demo_rpc_def demo_solana_def parseAllAutomationCreated_def)
  then show ?thesis by (simp add: finish_chain_def lift_js_def)
qed



text \<open>The retry hint is honest about where the flow stopped: the error that reports a taken sequence
  number is raised only by a failed batch of create instructions (never by the plan, the balance check or
  the setup transaction), and the message of that failure is one of the recognised collision texts.\<close>

theorem collision_only_from_batch:
  assumes "sendChainCreate H S A R prog own nodes loop = (tr, Inl NonceTaken)"
  shows "\<exists>C ps e. plan_chain H S A R prog own nodes loop = Inr (C, ps) \<and> tr \<noteq> [] \<and>
    last tr \<in> set (batches_of CHAIN_BATCH_SIZE (map np_ix ps)) \<and>
    rpc_send R (length tr - 1) = Inl e \<and> is_collision e"
proof -
  have plan: "plan_chain H S A R prog own nodes loop \<noteq> Inl NonceTaken"
  proof
    assume "plan_chain H S A R prog own nodes loop = Inl NonceTaken"
    then obtain C where "plan_nodes H S A R C 0 nodes = Inl NonceTaken"
      by (auto simp add: plan_chain_def make_ctx_def preflight_def result_simps)
    moreover have "plan_nodes H S A R C i nds \<noteq> Inl NonceTaken" for i nds
    proof (induction nds arbitrary: i)
      case (Cons nd nds)
      have "encode_node H S C i nd \<noteq> Inl NonceTaken"
        by (auto simp add: encode_node_def result_simps split: option.splits)
      then have "plan_node H S A R C i nd \<noteq> Inl NonceTaken"
        by (auto simp add: plan_node_def Let_def result_simps)
      then show ?case using Cons by (auto simp add: result_simps)
    qed simp
    ultimately show False by blast
  qed
  have "finish_chain S R C ps sigs \<noteq> Inl NonceTaken" for C ps sigs
    by (auto simp add: finish_chain_def result_simps)
  with sendChainCreate_cases [OF assms] plan obtain C ps where
    "plan_chain H S A R prog own nodes loop = Inr (C, ps)" "submit_all R ps = (tr, Inl NonceTaken)"
    by force
  then show ?thesis using submit_all_fail(2) by blast
qed

definition collide_rpc :: rpc where
  "collide_rpc = demo_rpc\<lparr>rpc_send := (\<lambda>k. if k = 0 then Inr ''s'' else Inl (ErrorMsg ''already in use''))\<rparr>"

text \<open>The plan does not depend on what will happen to the transactions.\<close>

lemma plan_node_send [simp]: "plan_node H S A (R\<lparr>rpc_send := f\<rparr>) C i nd = plan_node H S A R C i nd"
  by (simp add: plan_node_def)

lemma plan_nodes_send [simp]: "plan_nodes H S A (R\<lparr>rpc_send := f\<rparr>) C i nds = plan_nodes H S A R C i nds"
  by (induction nds arbitrary: i) simp_all

lemma plan_chain_send [simp]:
  "plan_chain H S A (R\<lparr>rpc_send := f\<rparr>) prog own nodes loop = plan_chain H S A R prog own nodes loop"
  by (simp add: plan_chain_def make_ctx_def preflight_def)

lemma collide_submit:
  assumes "concat (map np_setup ps) \<noteq> []" "ps \<noteq> []"
  shows "\<exists>tr. submit_all collide_rpc ps = (tr, Inl NonceTaken)"
proof -
  obtain b bs where b: "batches_of CHAIN_BATCH_SIZE (map np_ix ps) = b # bs"
    using assms(2) by (simp add: batches_step CHAIN_BATCH_SIZE_def)
  have "is_collision (ErrorMsg ''already in use'')"
    by (auto simp add: is_collision_def error_text_def str_includes_iff)
  then show ?thesis
    using assms(1) b
    by (simp add: submit_all_def Let_def collide_rpc_def demo_rpc_def batch_error_def del: concat_eq_Nil_conv)
qed

theorem collision_only_from_batch_witness:
  "\<exists>tr C ps e. sendChainCreate demo_hermes demo_solana demo_anchor collide_rpc (Some ''P'') ''O'' demo_nodes
     (Some (Frequency (Num 3))) = (tr, Inl NonceTaken) \<and>
   plan_chain demo_hermes demo_solana demo_anchor collide_rpc (Some ''P'') ''O'' demo_nodes
     (Some (Frequency (Num 3))) = Inr (C, ps) \<and> tr \<noteq> [] \<and> rpc_send collide_rpc (length tr - 1) = Inl e \<and>
   is_collision e"
proof -
  obtain C ps where p: "plan_chain demo_hermes demo_solana demo_anchor demo_rpc (Some ''P'') ''O'' demo_nodes
     (Some (Frequency (Num 3))) = Inr (C, ps)" using demo_plan by blast
  have i: "0 < length demo_nodes" by (simp add: demo_nodes_def)
  obtain trig sw sp dest ocad inTp outTp where
    "node_facts demo_hermes demo_solana demo_rpc C 0 (demo_nodes ! 0) (ps ! 0) trig sw sp dest ocad inTp outTp"
    using plan_chain_node [OF p i] .
  then have "np_setup (ps ! 0) \<noteq> []" by (simp add: node_facts_def setup_ixs_def)
  moreover have "length ps = length demo_nodes" using plan_nodes_nth [OF plan_chain_parts(2) [OF p]] by simp
  ultimately have "concat (map np_setup ps) \<noteq> []" "ps \<noteq> []" using i by (cases ps; auto)+
  then obtain tr where "submit_all collide_rpc ps = (tr, Inl NonceTaken)" using collide_submit by blast
  moreover have "plan_chain demo_hermes demo_solana demo_anchor collide_rpc (Some ''P'') ''O'' demo_nodes
     (Some (Frequency (Num 3))) = Inr (C, ps)" using p by (simp add: collide_rpc_def)
  ultimately have "sendChainCreate demo_hermes demo_solana demo_anchor collide_rpc (Some ''P'') ''O'' demo_nodes
     (Some (Frequency (Num 3))) = (tr, Inl NonceTaken)" by (simp add: sendChainCreate_def)
  from collision_only_from_batch [OF this] this show ?thesis by blast
qed

section \<open>Loops, bridges and seeds\<close>

text \<open>Loop override. In a chain as the builder makes it (every card feeds the next, the last links back
  to card t) the rules from t on carry the cadence of the loop, and the warm-up rules before t keep their
  own cadence.\<close>

theorem loop_cadence_override:
  assumes p: "plan_chain H S A R prog own nodes (Some m) = Inr (C, ps)"
    and n: "1 < length nodes" "forward_chain nodes" "nd_next (last nodes) = Some (int t)" "t < length nodes"
    and i: "i < length nodes"
  shows "\<exists>trig sp ocad inTp. np_ix (ps ! i) = create_ix S C i trig sp ocad inTp (np_seed (ps ! i)) \<and>
    cadenceToOnChain S (if t \<le> i then loopModeToCadence m else br_cadence (nd_result (nodes ! i))) = Inr ocad"
proof -
  note c = make_ctx_facts [OF plan_chain_parts(1) [OF p]]
  obtain trig sw sp dest ocad inTp outTp where
    f: "node_facts H S R C i (nodes ! i) (ps ! i) trig sw sp dest ocad inTp outTp"
    using plan_chain_node [OF p i] .
  have "nodes \<noteq> []" using n by auto
  then have "cycle_members C = map int [t..<length nodes]"
    using findCycleNodes_forward [OF n(2) _ n(3,4)] c(2,3) n(1) by (simp add: cycle_members_def)
  then have "effective_cadence C i (br_cadence (nd_result (nodes ! i))) =
      (if t \<le> i then loopModeToCadence m else br_cadence (nd_result (nodes ! i)))"
    using c(3) i by (auto simp add: effective_cadence_def)
  then have "cadenceToOnChain S (if t \<le> i then loopModeToCadence m else br_cadence (nd_result (nodes ! i))) = Inr ocad"
    using f by (simp add: node_facts_def)
  then show ?thesis using plan_chain_create_ix [OF p i f] by blast
qed

theorem loop_cadence_override_witness:
  "\<exists>C ps trig sp ocad inTp. plan_chain demo_hermes demo_solana demo_anchor demo_rpc (Some ''P'') ''O'' demo_nodes
     (Some (Frequency (Num 3))) = Inr (C, ps) \<and>
     np_ix (ps ! 1) = create_ix demo_solana C 1 trig sp ocad inTp (np_seed (ps ! 1)) \<and> ocad = OcRepeat (Num 3)"
proof -
  obtain C ps where p: "plan_chain demo_hermes demo_solana demo_anchor demo_rpc (Some ''P'') ''O'' demo_nodes
     (Some (Frequency (Num 3))) = Inr (C, ps)" using demo_plan by blast
  have n: "1 < length demo_nodes" "forward_chain demo_nodes" "nd_next (last demo_nodes) = Some (int 0)"
    "0 < length demo_nodes" by (auto simp add: demo_nodes_def forward_chain_def)
  from loop_cadence_override [OF p n n(1)] p show ?thesis by (auto simp add: cadenceToOnChain_def)
qed

text \<open>The bridge flag of a rule is set exactly when tokens would otherwise be stranded: the rule before
  it pays out another mint than it consumes, or it links to itself with different mints.\<close>

theorem bridge_exactly_on_mismatch:
  assumes "make_ctx S R prog own nodes loop = Inr C" "i < length nodes"
    and "\<And>k. k < length nodes \<Longrightarrow> as_swap (first_action (nd_result (nodes ! k))) = Some (sw k)"
  shows "bridge_enabled C i (nodes ! i) \<longleftrightarrow>
    (0 < i \<and> out_mint (sw (i - 1)) \<noteq> in_mint (sw i)) \<or>
    (nd_next (nodes ! i) = Some (int i) \<and> out_mint (sw i) \<noteq> in_mint (sw i))"
  using classify_cases(1) [OF assms(3) assms(3), of i i] classify_cases(1) [OF assms(3) assms(3), of "i - 1" i]
    assms(2) make_ctx_facts(2) [OF assms(1)]
  by (auto simp add: bridge_enabled_def link_class_def)

theorem bridge_exactly_on_mismatch_witness:
  "\<exists>C. make_ctx demo_solana demo_rpc (Some ''P'') ''O'' demo_nodes None = Inr C \<and>
     \<not> bridge_enabled C 1 (demo_nodes ! 1)"
proof -
  obtain C where c: "make_ctx demo_solana demo_rpc (Some ''P'') ''O'' demo_nodes None = Inr C"
    by (simp add: make_ctx_def demo_rpc_def node_pdas_def automationPda_def demo_nodes_def lift_js_def upt_rec)
  have "\<And>k. k < length demo_nodes \<Longrightarrow> as_swap (first_action (nd_result (demo_nodes ! k))) =
      Some (if k = 0 then demo_swap ''U'' ''T'' else demo_swap ''T'' ''U'')"
    by (auto simp add: demo_nodes_def demo_rule_def first_action_def as_swap_def less_Suc_eq)
  from bridge_exactly_on_mismatch [OF c _ this, of 1] c show ?thesis
    by (auto simp add: demo_nodes_def demo_swap_def demo_token_def)
qed

text \<open>Deposit of a self-loop. A single rule in a loop of k cycles is seeded with k times its amount, and
  in an endless loop with one hundred times its amount; the amount is the rule's own, never the sentinel of a
  rule that consumes its upstream.\<close>

theorem self_loop_seed:
  assumes p: "plan_chain H S A R prog own [nd] (Some m) = Inr (C, ps)"
    and bn: "bn_documented S" and k: "m = Frequency (Num (of_int k)) \<and> \<bar>k\<bar> < 2 ^ 53 \<or> m = Infinite \<and> k = 100"
  shows "\<exists>trig sp ocad inTp. np_ix (ps ! 0) = create_ix S C 0 trig sp ocad inTp (np_seed (ps ! 0)) \<and>
    np_seed (ps ! 0) = os_amountIn sp * k \<and> \<not> os_consumeUpstreamOutput sp"
proof -
  note c = make_ctx_facts [OF plan_chain_parts(1) [OF p]]
  have i: "0 < length [nd]" by simp
  obtain trig sw sp dest ocad inTp outTp where
    f: "node_facts H S R C 0 ([nd] ! 0) (ps ! 0) trig sw sp dest ocad inTp outTp"
    using plan_chain_node [OF p i] .
  have "\<bar>k\<bar> < 2 ^ 53" using k by auto
  then have "new_bn S (Num (of_int k)) = Inr k" using bn unfolding bn_documented_def by blast
  then have "np_seed (ps ! 0) = os_amountIn sp * k"
    using f c(2,3) k by (auto simp add: node_facts_def seed_amount_def SELF_LOOP_INFINITE_FUND_CYCLES_def)
  moreover have "encode_node H S C 0 nd = Inr (trig, sw, sp)" using f by (simp add: node_facts_def)
  ultimately show ?thesis
    using plan_chain_create_ix [OF p i f] buildSwapAction_Some(6) [OF encode_node_facts(3)] safe_swap_head by blast
qed

definition demo_single :: chainNodeDraft where
  "demo_single = \<lparr>nd_result = demo_rule ''U'' ''T'', nd_next = Some 0\<rparr>"

lemma demo_single_plan:
  "\<exists>C ps. plan_chain demo_hermes demo_solana demo_anchor demo_rpc (Some ''P'') ''O'' [demo_single]
     (Some (Frequency (Num 3))) = Inr (C, ps)"
  by (simp add: plan_chain_def make_ctx_def node_pdas_def automationPda_def demo_single_def lift_js_def upt_rec
      demo_rpc_def plan_node_def encode_node_def first_trigger_def first_action_def as_swap_def
      resolve_trigger_def buildTriggerSpec_def timeElapsedToSecs_def unit_secs_def MAX_TIME_ELAPSED_SECS_def
      js_eval buildSwapAction_def safe_swap_def tryPubkey_def js_pow10_def demo_bn_def Let_def demo_rule_def
      demo_token_def demo_swap_def demo_solana_def seed_amount_def token_program_of_def str_truthy_def
      resolveMintTokenProgram_def isKnownTokenProgram_def destination_of_def effective_cadence_def
      cycle_members_def estimateTimeFee_def cadenceToOnChain_def buildCreateAutomationSwapLinkedIx_def
      encode_ix_def demo_anchor_def preflight_def guard_ok_def estimated_sol_def setup_ixs_def SOL_MINT_STR_def
      create_ata_def ATA_RENT_LAMPORTS_def TX_FEE_LAMPORTS_def TIME_FEE_MAX_DAYS_def CHAIN_BATCH_SIZE_def)

theorem self_loop_seed_witness:
  "\<exists>C ps trig sp ocad inTp. plan_chain demo_hermes demo_solana demo_anchor demo_rpc (Some ''P'') ''O'' [demo_single]
     (Some (Frequency (Num 3))) = Inr (C, ps) \<and>
     np_ix (ps ! 0) = create_ix demo_solana C 0 trig sp ocad inTp (np_seed (ps ! 0)) \<and>
     np_seed (ps ! 0) = os_amountIn sp * 3"
proof -
  obtain C ps where p: "plan_chain demo_hermes demo_solana demo_anchor demo_rpc (Some ''P'') ''O'' [demo_single]
     (Some (Frequency (Num 3))) = Inr (C, ps)" using demo_single_plan by blast
  have "Frequency (Num 3) = Frequency (Num (of_int 3)) \<and> \<bar>3 :: int\<bar> < 2 ^ 53 \<or> Frequency (Num 3) = Infinite \<and> (3::int) = 100"
    by simp
  from self_loop_seed [OF p demo_bn_documented this] p show ?thesis by blast
qed

section \<open>The keys reported back\<close>

lemma fill_events_derived:
  assumes "k \<le> length (cx_nodes C)"
  shows "fill_events C (map (derived_key C) [0..<k]) = map (derived_key C) [0..<length (cx_nodes C)]"
proof -
  have "[0..<k] @ [k..<length (cx_nodes C)] = [0..<length (cx_nodes C)]"
    using upt_add_eq_append [of 0 k "length (cx_nodes C) - k"] assms by simp
  then have "map (derived_key C) [0..<k] @ map (derived_key C) [k..<length (cx_nodes C)] =
      map (derived_key C) [0..<length (cx_nodes C)]" by (metis map_append)
  then show ?thesis by (simp add: fill_events_def)
qed

text \<open>Keys reported by a successful call. If the logs yield the creation events of the first k rules and of
  no other, whatever k is, the result names every rule of the chain under its own derived address and nonce,
  with its own seed.\<close>

theorem created_keys_complete:
  assumes p: "plan_chain H S A R prog own nodes loop = Inr (C, ps)"
    and f: "finish_chain S R C ps sigs = Inr res"
    and es: "collect_events S R sigs = Inr (map (derived_key C) [0..<k])" "k \<le> length nodes"
    and i: "i < length nodes"
  shows "length (cc_nodes res) = length nodes \<and>
    cn_pubkey (cc_nodes res ! i) = cx_nodePdas C ! i \<and>
    cn_nonce (cc_nodes res ! i) = show_int (cx_startNonce C + int i) \<and>
    cn_seedAmount (cc_nodes res ! i) = show_int (np_seed (ps ! i))"
proof -
  have c: "cx_nodes C = nodes" by (rule make_ctx_facts(2) [OF plan_chain_parts(1) [OF p]])
  have len: "length ps = length nodes" using plan_nodes_nth [OF plan_chain_parts(2) [OF p]] by simp
  have "cc_nodes res = created_nodes C ps (map (derived_key C) [0..<k])"
    using f es(1) by (auto simp add: finish_chain_def result_simps)
  then show ?thesis
    using fill_events_derived [of k C] es(2) i c len by (simp add: created_nodes_def derived_key_def)
qed

theorem created_keys_complete_witness:
  "\<exists>C ps res. plan_chain demo_hermes demo_solana demo_anchor demo_rpc (Some ''P'') ''O'' demo_nodes
     (Some (Frequency (Num 3))) = Inr (C, ps) \<and> finish_chain demo_solana demo_rpc C ps [] = Inr res \<and>
     cn_pubkey (cc_nodes res ! 1) = cx_nodePdas C ! 1"
proof -
  obtain C ps where p: "plan_chain demo_hermes demo_solana demo_anchor demo_rpc (Some ''P'') ''O'' demo_nodes
     (Some (Frequency (Num 3))) = Inr (C, ps)" using demo_plan by blast
  obtain res where f: "finish_chain demo_solana demo_rpc C ps [] = Inr res" using finish_demo by blast
  have "collect_events demo_solana demo_rpc [] = Inr (map (derived_key C) [0..<0])" by simp
  from created_keys_complete [OF p f this, of 1] p f show ?thesis by (auto simp add: demo_nodes_def)
qed

text \<open>Keys reported when an earlier batch loses its events. With three rules, if the logs of the first batch
  are lost and only the event of the third rule is read, the result names the third rule twice and the first
  rule not at all: the fallback fills by position, not by what is missing.\<close>

theorem created_keys_shift:
  "length (cx_nodes C) = 3 \<and> length ps = 3 \<and> collect_events S R sigs = Inr [derived_key C 2] \<Longrightarrow>
   \<exists>res. finish_chain S R C ps sigs = Inr res \<and>
     map cn_pubkey (cc_nodes res) = [cx_nodePdas C ! 2, cx_nodePdas C ! 1, cx_nodePdas C ! 2]"
proof -
  assume a: "length (cx_nodes C) = 3 \<and> length ps = 3 \<and> collect_events S R sigs = Inr [derived_key C 2]"
  have "fill_events C [derived_key C 2] = [derived_key C 2, derived_key C 1, derived_key C 2]"
    using a by (simp add: fill_events_def upt_rec numeral_3_eq_3 numeral_2_eq_2)
  moreover obtain p q r where "ps = [p, q, r]"
    using a by (auto simp add: numeral_3_eq_3 length_Suc_conv)
  ultimately show ?thesis
    using a by (simp add: finish_chain_def lift_js_def created_nodes_def derived_key_def)
qed

definition shift_solana :: solana where
  "shift_solana = demo_solana\<lparr>parse_logs := (\<lambda>ls. if ls = [] then [] else
     [\<lparr>ev_name = ''AutomationCreated'', ev_automation = Some ''c'', ev_pubkey = None, ev_nonce = 9\<rparr>])\<rparr>"

definition shift_rpc :: rpc where
  "shift_rpc = demo_rpc\<lparr>rpc_logs := (\<lambda>sig. Inr (if sig = ''2'' then [''log''] else []))\<rparr>"

definition shift_ctx :: chainCtx where
  "shift_ctx = \<lparr>cx_owner = ''O'', cx_programId = ''P'', cx_config = \<lparr>pc_keeper = ''K'', pc_treasury = ''Y'',
     pc_automationCount = 7, pc_timeFeeLamportsPerDay = 1000\<rparr>, cx_startNonce = 7,
     cx_nodes = [demo_single, demo_single, demo_single], cx_loopMode = None, cx_nodePdas = [''a'', ''b'', ''c'']\<rparr>"

theorem created_keys_shift_witness:
  "\<exists>res. finish_chain shift_solana shift_rpc shift_ctx
      (replicate 3 \<lparr>np_setup = [], np_ix = IxSyncNative [] [], np_seed = 0, np_fee = 0, np_wrap = 0\<rparr>) [''1'', ''2''] = Inr res \<and>
    map cn_pubkey (cc_nodes res) = [''c'', ''b'', ''c'']"
proof -
  have "collect_events shift_solana shift_rpc [''1'', ''2''] = Inr [derived_key shift_ctx 2]"
    by (simp add: shift_solana_def shift_rpc_def shift_ctx_def parseAllAutomationCreated_def is_created_event_def
        event_key_def derived_key_def)
  from created_keys_shift [of shift_ctx "replicate 3 \<lparr>np_setup = [], np_ix = IxSyncNative [] [], np_seed = 0,
      np_fee = 0, np_wrap = 0\<rparr>" shift_solana shift_rpc "[''1'', ''2'']"] this
  show ?thesis by (simp add: shift_ctx_def)
qed

end
