(* ===== verification/Tokens.thy ===== *)
theory Tokens
  imports Oracles "HOL-Library.Word"
begin

text \<open>
  src/src/lib/tokens.ts and the metadata call of src/src/lib/jupiter.ts: the scan of a Token-2022 mint
  for the transfer hook, the canonical mints, the two-level cache, and the resolution of a pasted
  address through cache, canonical table, Jupiter and the asset RPCs. The state is the pair of caches;
  the services, the clock and the build flags are the fields of a record.
\<close>

unbundle bit_operations_syntax

section \<open>The extension list of a mint account\<close>

definition EXTENSION_TYPE_TRANSFER_HOOK :: int where
  "EXTENSION_TYPE_TRANSFER_HOOK = 14"

type_synonym byte = "8 word"

text \<open>raw[i] | (raw[i + 1] << 8)\<close>

definition u16_at :: "byte list \<Rightarrow> nat \<Rightarrow> int" where
  "u16_at raw i = uint (raw ! i) OR push_bit 8 (uint (raw ! Suc i))"

function scan_tlv :: "byte list \<Rightarrow> nat \<Rightarrow> bool" where
  "scan_tlv raw offset =
     (if length raw < offset + 4 then False
      else let extType = u16_at raw offset; extLen = u16_at raw (offset + 2) in
        if extType = EXTENSION_TYPE_TRANSFER_HOOK then True
        else if extType = 0 then False
        else scan_tlv raw (offset + (4 + nat extLen)))"
  by auto
termination by (relation "measure (\<lambda>(raw, offset). Suc (length raw) - offset)") auto

declare scan_tlv.simps [simp del]

definition mintBytesContainTransferHook :: "byte list \<Rightarrow> bool" where
  "mintBytesContainTransferHook raw = (if length raw \<le> 165 then False else scan_tlv raw 166)"

text \<open>The account data, or None when the account is missing or the call throws.\<close>

definition mintHasTransferHook :: "(string \<Rightarrow> byte list option) \<Rightarrow> string \<Rightarrow> bool" where
  "mintHasTransferHook account_data mint = (case account_data mint of
       None \<Rightarrow> False
     | Some bytes \<Rightarrow> mintBytesContainTransferHook bytes)"

section \<open>Canonical mints\<close>

definition STATIC_LOGO :: "string \<Rightarrow> string" where
  "STATIC_LOGO slug = ''https://raw.githubusercontent.com/solana-labs/token-list/main/assets/mainnet/'' @
     slug @ ''/logo.png''"

definition JUP_CDN :: "string \<Rightarrow> string" where
  "JUP_CDN file = ''https://static.jup.ag/icons/'' @ file"

definition canonical_token :: "string \<Rightarrow> string \<Rightarrow> string \<Rightarrow> string \<Rightarrow> nat \<Rightarrow> string \<times> tokenRef" where
  "canonical_token mint symb nm logo dec = (mint, \<lparr>tr_mint = mint, tr_symbol = symb, tr_name = nm,
     tr_logo = Some logo, tr_decimals = dec, tr_metadataSource = Canonical, tr_tokenProgram = None\<rparr>)"

definition SOL_MINT :: string where "SOL_MINT = ''So11111111111111111111111111111111111111112''"
definition USDC_MINT :: string where "USDC_MINT = ''EPjFWdd5AufqSSqeM2qN1xzybapC8G4wEGGkZwyTDt1v''"

definition CANONICAL_MINTS :: "(string, tokenRef) dict" where
  "CANONICAL_MINTS = [
     canonical_token SOL_MINT ''SOL'' ''Solana'' (STATIC_LOGO SOL_MINT) 9,
     canonical_token USDC_MINT ''USDC'' ''USD Coin'' (STATIC_LOGO USDC_MINT) 6,
     canonical_token ''Es9vMFrzaCERmJfrF4H2FYD4KCoNkY11McCe8BenwNYB'' ''USDT'' ''Tether USD''
       (STATIC_LOGO ''Es9vMFrzaCERmJfrF4H2FYD4KCoNkY11McCe8BenwNYB'') 6,
     canonical_token ''JUPyiwrYJFskUPiHa7hkeR8VUtAeFoSYbKedZNsDvCN'' ''JUP'' ''Jupiter'' (JUP_CDN ''jup.png'') 6,
     canonical_token ''DezXAZ8z7PnrnRJjz3wXBoRgixCa6xjnB7YaB1pPB263'' ''BONK'' ''Bonk''
       (STATIC_LOGO ''DezXAZ8z7PnrnRJjz3wXBoRgixCa6xjnB7YaB1pPB263'') 5,
     canonical_token ''jtojtomepa8beP8AuQc6eXt5FriJwfFMwQx2v2f9mCL'' ''JTO'' ''Jito''
       (STATIC_LOGO ''jtojtomepa8beP8AuQc6eXt5FriJwfFMwQx2v2f9mCL'') 9,
     canonical_token ''HZ1JovNiVvGrGNiiYvEozEVgZ58xaU3RKwX8eACQBCt3'' ''PYTH'' ''Pyth Network''
       (STATIC_LOGO ''HZ1JovNiVvGrGNiiYvEozEVgZ58xaU3RKwX8eACQBCt3'') 6,
     canonical_token ''85VBFQZC9TZkfaptBWjvUw7YbZjy52A6mjtPGjstQAmQ'' ''W'' ''Wormhole''
       (STATIC_LOGO ''85VBFQZC9TZkfaptBWjvUw7YbZjy52A6mjtPGjstQAmQ'') 6]"

definition CANONICAL_DEVNET_MINTS :: "(string, tokenRef) dict" where
  "CANONICAL_DEVNET_MINTS = [
     canonical_token ''4zMMC9srt5Ri5X14GAgXhaHii3GnPAEERYPJgZJDncDU'' ''USDC'' ''USD Coin (Test)''
       (STATIC_LOGO USDC_MINT) 6]"

definition POPULAR_TOKENS :: "tokenRef list" where
  "POPULAR_TOKENS = map snd CANONICAL_MINTS"

definition is_base58 :: "char \<Rightarrow> bool" where
  "is_base58 c = (let n = of_char c :: nat in
     (49 \<le> n \<and> n \<le> 57) \<or> (65 \<le> n \<and> n \<le> 72) \<or> (74 \<le> n \<and> n \<le> 78) \<or> (80 \<le> n \<and> n \<le> 90) \<or>
     (97 \<le> n \<and> n \<le> 107) \<or> (109 \<le> n \<and> n \<le> 122))"

definition isValidMintCandidate :: "string \<Rightarrow> bool" where
  "isValidMintCandidate input = (let t = trim input in
     32 \<le> length t \<and> length t \<le> 44 \<and> list_all is_base58 t)"

section \<open>The cache\<close>

record cacheEntry =
  ce_token :: tokenRef
  ce_cachedAt :: jsnum

text \<open>The in-memory map and the local storage; a page without local storage has None.\<close>

record tokenState =
  ts_memory :: "(string, cacheEntry) dict"
  ts_disk :: "(string, cacheEntry) dict option"

definition CACHE_TTL_MS :: jsnum where
  "CACHE_TTL_MS = Num (24 * 60 * 60 * 1000)"

definition loadStorageCache :: "tokenState \<Rightarrow> (string, cacheEntry) dict" where
  "loadStorageCache s = (case ts_disk s of None \<Rightarrow> [] | Some d \<Rightarrow> d)"

definition saveStorageCache :: "bool \<Rightarrow> (string, cacheEntry) dict \<Rightarrow> tokenState \<Rightarrow> tokenState" where
  "saveStorageCache quota_ok d s = (case ts_disk s of None \<Rightarrow> s
     | Some _ \<Rightarrow> if quota_ok then s\<lparr>ts_disk := Some d\<rparr> else s)"

definition fresh :: "jsnum \<Rightarrow> cacheEntry \<Rightarrow> bool" where
  "fresh now e \<longleftrightarrow> js_lt (js_sub now (ce_cachedAt e)) CACHE_TTL_MS"

definition readCache :: "jsnum \<Rightarrow> string \<Rightarrow> tokenState \<Rightarrow> tokenRef option \<times> tokenState" where
  "readCache now mint s =
    (case dict_get (ts_memory s) mint of
       Some e \<Rightarrow> if fresh now e then (Some (ce_token e), s) else
         (case dict_get (loadStorageCache s) mint of
            Some d \<Rightarrow> if fresh now d then (Some (ce_token d), s\<lparr>ts_memory := dict_set (ts_memory s) mint d\<rparr>)
              else (None, s)
          | None \<Rightarrow> (None, s))
     | None \<Rightarrow> (case dict_get (loadStorageCache s) mint of
            Some d \<Rightarrow> if fresh now d then (Some (ce_token d), s\<lparr>ts_memory := dict_set (ts_memory s) mint d\<rparr>)
              else (None, s)
          | None \<Rightarrow> (None, s)))"

definition writeCache :: "jsnum \<Rightarrow> bool \<Rightarrow> tokenRef \<Rightarrow> tokenState \<Rightarrow> tokenState" where
  "writeCache now quota_ok token s =
    (let entry = \<lparr>ce_token = token, ce_cachedAt = now\<rparr>;
         s' = s\<lparr>ts_memory := dict_set (ts_memory s) (tr_mint token) entry\<rparr>
     in saveStorageCache quota_ok (dict_set (loadStorageCache s') (tr_mint token) entry) s')"

section \<open>Metadata services\<close>

record jupiterTokenMetadata =
  jm_mint :: string
  jm_symbol :: string
  jm_name :: string
  jm_logo :: "string option"
  jm_decimals :: nat
  jm_tokenProgram :: "string option"

record jupiterTokenSearchResult =
  js_id :: "string option"
  js_address :: "string option"
  js_symbol :: "string option"
  js_name :: "string option"
  js_decimals :: "nat option"
  js_icon :: "string option"
  js_logoURI :: "string option"
  js_tokenProgram :: "string option"

definition metadata_of_hit :: "string \<Rightarrow> jupiterTokenSearchResult \<Rightarrow> jupiterTokenMetadata option" where
  "metadata_of_hit mint h = (if \<not> str_truthy (js_symbol h) then None
     else case js_decimals h of None \<Rightarrow> None
       | Some d \<Rightarrow> Some \<lparr>jm_mint = mint, jm_symbol = the (js_symbol h),
           jm_name = (if str_truthy (js_name h) then the (js_name h) else the (js_symbol h)),
           jm_logo = first_truthy [js_icon h, js_logoURI h], jm_decimals = d,
           jm_tokenProgram = js_tokenProgram h\<rparr>)"

definition fetchJupiterTokenMetadata ::
  "(string \<Rightarrow> jupiterTokenSearchResult list option) \<Rightarrow> string \<Rightarrow> jupiterTokenMetadata option" where
  "fetchJupiterTokenMetadata search mint = (if mint = [] then None
     else case search mint of None \<Rightarrow> None
       | Some hits \<Rightarrow> Option.bind (find (\<lambda>t. first_present (js_id t) (js_address t) = Some mint) hits)
           (metadata_of_hit mint))"

record dasAsset =
  da_tokenSymbol :: "string option"
  da_metaSymbol :: "string option"
  da_metaName :: "string option"
  da_decimals :: "nat option"
  da_image :: "string option"
  da_files :: "(string option \<times> string option) list"

definition dasToTokenRef :: "string \<Rightarrow> dasAsset option \<Rightarrow> metadata_source \<Rightarrow> tokenRef option" where
  "dasToTokenRef mint asset src = (case asset of None \<Rightarrow> None
     | Some a \<Rightarrow> (case (first_truthy [da_tokenSymbol a, da_metaSymbol a], da_decimals a) of
         (Some symb, Some d) \<Rightarrow> Some \<lparr>tr_mint = mint, tr_symbol = symb,
           tr_name = (if str_truthy (da_metaName a) then the (da_metaName a) else symb),
           tr_logo = first_truthy [da_image a,
             Option.bind (find (\<lambda>f. str_truthy (snd f)) (da_files a)) snd,
             Option.bind (find (\<lambda>f. str_truthy (fst f)) (da_files a)) fst],
           tr_decimals = d, tr_metadataSource = src, tr_tokenProgram = None\<rparr>
       | _ \<Rightarrow> None))"

section \<open>Resolution\<close>

definition REGULAR_SPL_TOKEN_PROGRAM :: string where
  "REGULAR_SPL_TOKEN_PROGRAM = ''TokenkegQfeZyiNwAJbNbGKPFXCWuBvf9Ss623VQ5DA''"
definition TOKEN_2022_PROGRAM :: string where
  "TOKEN_2022_PROGRAM = ''TokenzQdBNbLqP5VEhdkAS6EPFLC1PHnBqCXEpPxuEb''"

datatype resolveResult =
  ResolvedOk tokenRef
| ResolvedManual string
| ResolvedInvalid
| TransferHookUnsupported string string string
| UnknownTokenProgram string string string string

record tokenEnv =
  te_now :: jsnum
  te_quota :: bool
  te_demo :: bool
  te_search :: "string \<Rightarrow> jupiterTokenSearchResult list option"
  te_account :: "string \<Rightarrow> byte list option"
  te_devnetDas :: "string \<Rightarrow> dasAsset option"
  te_mainnetDas :: "(string \<Rightarrow> dasAsset option) option"

definition ok_cached :: "tokenEnv \<Rightarrow> tokenRef \<Rightarrow> tokenState \<Rightarrow> resolveResult \<times> tokenState" where
  "ok_cached E token s = (ResolvedOk token, writeCache (te_now E) (te_quota E) token s)"

definition resolve_jupiter :: "tokenEnv \<Rightarrow> jupiterTokenMetadata \<Rightarrow> tokenState \<Rightarrow> resolveResult \<times> tokenState" where
  "resolve_jupiter E j s =
    (if str_truthy (jm_tokenProgram j) \<and> jm_tokenProgram j \<noteq> Some REGULAR_SPL_TOKEN_PROGRAM \<and>
        jm_tokenProgram j \<noteq> Some TOKEN_2022_PROGRAM
     then (UnknownTokenProgram (jm_mint j) (jm_symbol j) (jm_name j) (the (jm_tokenProgram j)), s)
     else if jm_tokenProgram j = Some TOKEN_2022_PROGRAM \<and> \<not> te_demo E \<and>
        mintHasTransferHook (te_account E) (jm_mint j)
     then (TransferHookUnsupported (jm_mint j) (jm_symbol j) (jm_name j), s)
     else ok_cached E \<lparr>tr_mint = jm_mint j, tr_symbol = jm_symbol j, tr_name = jm_name j,
        tr_logo = jm_logo j, tr_decimals = jm_decimals j, tr_metadataSource = Mainnet,
        tr_tokenProgram = jm_tokenProgram j\<rparr> s)"

definition resolve_das :: "tokenEnv \<Rightarrow> string \<Rightarrow> tokenState \<Rightarrow> resolveResult \<times> tokenState" where
  "resolve_das E mint s =
    (case dasToTokenRef mint (te_devnetDas E mint) Devnet of
       Some t \<Rightarrow> ok_cached E t s
     | None \<Rightarrow> (case te_mainnetDas E of
         None \<Rightarrow> (ResolvedManual mint, s)
       | Some das \<Rightarrow> (case dasToTokenRef mint (das mint) Mainnet of
           Some t \<Rightarrow> ok_cached E t s
         | None \<Rightarrow> (ResolvedManual mint, s))))"

definition resolveToken :: "tokenEnv \<Rightarrow> string \<Rightarrow> tokenState \<Rightarrow> resolveResult \<times> tokenState" where
  "resolveToken E input s =
    (let mint = trim input in
     if \<not> isValidMintCandidate mint then (ResolvedInvalid, s)
     else case readCache (te_now E) mint s of
       (Some t, s1) \<Rightarrow> (ResolvedOk t, s1)
     | (None, s1) \<Rightarrow> (case dict_get CANONICAL_MINTS mint of
         Some t \<Rightarrow> ok_cached E t s1
       | None \<Rightarrow> (case dict_get CANONICAL_DEVNET_MINTS mint of
           Some t \<Rightarrow> ok_cached E t s1
         | None \<Rightarrow> (case fetchJupiterTokenMetadata (te_search E) mint of
             Some j \<Rightarrow> resolve_jupiter E j s1
           | None \<Rightarrow> if te_demo E then (ResolvedManual mint, s1) else resolve_das E mint s1))))"

definition manualTokenRef ::
  "jsnum \<Rightarrow> bool \<Rightarrow> string \<Rightarrow> string \<Rightarrow> nat \<Rightarrow> string option \<Rightarrow> tokenState \<Rightarrow> tokenRef \<times> tokenState" where
  "manualTokenRef now quota_ok mint symb dec nm s =
    (let sy = take 12 (to_upper symb);
         t = \<lparr>tr_mint = mint, tr_symbol = (if sy = [] then ''TOKEN'' else sy),
           tr_name = (if str_truthy nm then the nm else symb), tr_logo = None, tr_decimals = dec,
           tr_metadataSource = Manual, tr_tokenProgram = None\<rparr>
     in (t, writeCache now quota_ok t s))"

fun metadataSourceLabel :: "metadata_source \<Rightarrow> string" where
  "metadataSourceLabel Canonical = ''canonical''"
| "metadataSourceLabel Devnet = ''test network''"
| "metadataSourceLabel Mainnet = ''on-chain''"
| "metadataSourceLabel Manual = ''entered manually''"

section \<open>Lemmas on the extension scan\<close>

definition u16_bytes :: "nat \<Rightarrow> byte list" where
  "u16_bytes n = [word_of_nat (n mod 256), word_of_nat (n div 256)]"

text \<open>An extension record: a type, a length and that many bytes.\<close>

definition tlv_bytes :: "nat \<times> byte list \<Rightarrow> byte list" where
  "tlv_bytes r = u16_bytes (fst r) @ u16_bytes (length (snd r)) @ snd r"

definition tlv_wf :: "nat \<times> byte list \<Rightarrow> bool" where
  "tlv_wf r \<longleftrightarrow> 0 < fst r \<and> fst r < 65536 \<and> length (snd r) < 65536"

lemma or_shift_eq_add:
  fixes a b :: int
  assumes "0 \<le> a" "a < 256" shows "a OR push_bit 8 b = a + 256 * b"
proof -
  have "a = take_bit 8 a" using assms by (simp add: take_bit_int_eq_self)
  then have "\<not> bit a n \<or> \<not> bit (push_bit 8 b) n" for n
    by (metis bit_push_bit_iff bit_take_bit_iff not_le)
  then have "a OR push_bit 8 b = a + push_bit 8 b" by (rule disjunctive_add [symmetric])
  then show ?thesis by (simp add: push_bit_eq_mult)
qed

lemma u16_bytes_length [simp]: "length (u16_bytes n) = 2"
  by (simp add: u16_bytes_def)

lemma u16_at_bytes:
  assumes "n < 65536" "i = length pre" shows "u16_at (pre @ u16_bytes n @ post) i = int n"
proof -
  have lo: "uint (word_of_nat (n mod 256) :: byte) = int (n mod 256)"
    by (simp add: unsigned_of_nat take_bit_eq_mod)
  have "n div 256 < 256" using assms(1) by (simp add: less_mult_imp_div_less)
  then have hi: "uint (word_of_nat (n div 256) :: byte) = int (n div 256)"
    by (simp add: unsigned_of_nat take_bit_eq_mod)
  have "u16_at (pre @ u16_bytes n @ post) i = uint (word_of_nat (n mod 256) :: byte) OR push_bit 8 (uint (word_of_nat (n div 256) :: byte))"
    unfolding u16_at_def assms(2) by (simp add: u16_bytes_def nth_append)
  also have "\<dots> = int (n mod 256) + 256 * int (n div 256)"
    unfolding lo hi by (rule or_shift_eq_add) simp_all
  finally show ?thesis using mod_mult_div_eq [of n 256] by (metis of_nat_add of_nat_mult of_nat_numeral)
qed

lemma scan_tlv_step:
  assumes "tlv_wf r" "i = length pre"
  shows "scan_tlv (pre @ tlv_bytes r @ post) i \<longleftrightarrow>
     fst r = 14 \<or> scan_tlv (pre @ tlv_bytes r @ post) (i + length (tlv_bytes r))"
proof -
  have ty: "u16_at (pre @ tlv_bytes r @ post) i = int (fst r)"
    using u16_at_bytes [of "fst r" i pre "u16_bytes (length (snd r)) @ snd r @ post"] assms
    by (simp add: tlv_bytes_def tlv_wf_def)
  have len: "u16_at (pre @ tlv_bytes r @ post) (i + 2) = int (length (snd r))"
    using u16_at_bytes [of "length (snd r)" "i + 2" "pre @ u16_bytes (fst r)" "snd r @ post"] assms
    by (simp add: tlv_bytes_def tlv_wf_def)
  have "\<not> length (pre @ tlv_bytes r @ post) < i + 4" "length (tlv_bytes r) = 4 + length (snd r)"
    using assms(2) by (simp_all add: tlv_bytes_def)
  then show ?thesis
    using assms(1) by (subst scan_tlv.simps) (simp add: ty len len [simplified] tlv_wf_def EXTENSION_TYPE_TRANSFER_HOOK_def add.assoc)
qed

lemma scan_tlv_zeros: "i = length pre \<Longrightarrow> \<not> scan_tlv (pre @ replicate k 0) i"
  by (subst scan_tlv.simps)
    (auto simp add: u16_at_def nth_append Let_def EXTENSION_TYPE_TRANSFER_HOOK_def)

lemma scan_tlv_records:
  "list_all tlv_wf rs \<Longrightarrow> i = length pre \<Longrightarrow>
     scan_tlv (pre @ concat (map tlv_bytes rs) @ replicate k 0) i \<longleftrightarrow> 14 \<in> fst ` set rs"
proof (induction rs arbitrary: pre i)
  case Nil
  then show ?case by (simp add: scan_tlv_zeros)
next
  case (Cons r rs)
  have "scan_tlv (pre @ tlv_bytes r @ concat (map tlv_bytes rs) @ replicate k 0) (i + length (tlv_bytes r)) \<longleftrightarrow>
      14 \<in> fst ` set rs"
    using Cons.IH [of "i + length (tlv_bytes r)" "pre @ tlv_bytes r"] Cons.prems by simp
  then show ?case using scan_tlv_step [of r i pre "concat (map tlv_bytes rs) @ replicate k 0"] Cons.prems
    by auto
qed

section \<open>Lemmas on the cache\<close>

definition keyed :: "(string, cacheEntry) dict \<Rightarrow> bool" where
  "keyed d \<longleftrightarrow> (\<forall>m e. dict_get d m = Some e \<longrightarrow> tr_mint (ce_token e) = m)"

definition cache_inv :: "tokenState \<Rightarrow> bool" where
  "cache_inv s \<longleftrightarrow> keyed (ts_memory s) \<and> keyed (loadStorageCache s)"

lemma keyed_set: "keyed d \<Longrightarrow> tr_mint (ce_token e) = m \<Longrightarrow> keyed (dict_set d m e)"
  by (simp add: keyed_def dict_laws)

lemma writeCache_inv: "cache_inv s \<Longrightarrow> cache_inv (writeCache now q t s)"
  by (auto simp add: cache_inv_def writeCache_def Let_def saveStorageCache_def loadStorageCache_def keyed_set
      split: option.splits)

lemma readCache_inv:
  assumes "cache_inv s" "readCache now m s = (r, s')"
  shows "cache_inv s' \<and> (\<forall>t. r = Some t \<longrightarrow> tr_mint t = m)"
proof -
  have mem: "dict_get (ts_memory s) m = Some e \<Longrightarrow> tr_mint (ce_token e) = m" for e
    using assms(1) by (simp add: cache_inv_def keyed_def)
  have disk: "dict_get (loadStorageCache s) m = Some e \<Longrightarrow> tr_mint (ce_token e) = m" for e
    using assms(1) by (simp add: cache_inv_def keyed_def)
  have upd: "dict_get (loadStorageCache s) m = Some e \<Longrightarrow> cache_inv (s\<lparr>ts_memory := dict_set (ts_memory s) m e\<rparr>)" for e
    using assms(1) disk [of e] by (simp add: cache_inv_def keyed_set loadStorageCache_def)
  show ?thesis using assms mem disk upd
    by (auto simp add: readCache_def split: option.splits if_splits)
qed

lemma dict_get_keyed: "list_all (\<lambda>p. tr_mint (snd p) = fst p) d \<Longrightarrow> dict_get d m = Some t \<Longrightarrow> tr_mint t = m"
  by (induction d m rule: dict_get.induct) (auto split: if_splits)

lemma canonical_keyed:
  "list_all (\<lambda>p. tr_mint (snd p) = fst p) CANONICAL_MINTS"
  "list_all (\<lambda>p. tr_mint (snd p) = fst p) CANONICAL_DEVNET_MINTS"
  by (simp_all add: CANONICAL_MINTS_def CANONICAL_DEVNET_MINTS_def canonical_token_def)

lemmas canonical_keys = dict_get_keyed [OF canonical_keyed(1)] dict_get_keyed [OF canonical_keyed(2)]

lemma metadata_mint: "fetchJupiterTokenMetadata f m = Some j \<Longrightarrow> jm_mint j = m"
  by (auto simp add: fetchJupiterTokenMetadata_def metadata_of_hit_def bind_eq_Some_conv split: if_splits option.splits)

lemma das_mint: "dasToTokenRef m a src = Some t \<Longrightarrow> tr_mint t = m"
  by (auto simp add: dasToTokenRef_def split: option.splits)

lemma ok_cached_inv:
  "cache_inv s \<Longrightarrow> ok_cached E t s = (r, s') \<Longrightarrow> cache_inv s' \<and> r = ResolvedOk t"
  by (auto simp add: ok_cached_def writeCache_inv)

lemma resolve_jupiter_inv:
  "cache_inv s \<Longrightarrow> resolve_jupiter E j s = (r, s') \<Longrightarrow>
     cache_inv s' \<and> (\<forall>t. r = ResolvedOk t \<longrightarrow> tr_mint t = jm_mint j)"
  by (auto simp add: resolve_jupiter_def ok_cached_def writeCache_inv split: if_splits)

lemma resolve_das_inv:
  "cache_inv s \<Longrightarrow> resolve_das E m s = (r, s') \<Longrightarrow>
     cache_inv s' \<and> (\<forall>t. r = ResolvedOk t \<longrightarrow> tr_mint t = m)"
  by (auto simp add: resolve_das_def ok_cached_def writeCache_inv das_mint split: option.splits)

lemma writeCache_get: "dict_get (ts_memory (writeCache now q t s)) (tr_mint t) = Some \<lparr>ce_token = t, ce_cachedAt = now\<rparr>"
  by (simp add: writeCache_def Let_def saveStorageCache_def dict_laws split: option.splits)

section \<open>Properties\<close>

text \<open>The transfer-hook scan. On a mint account whose extension area is a list of well-formed records
  (followed by any amount of zero padding), the scan answers whether one of the records is a transfer hook.\<close>

theorem hook_scan_correct:
  assumes "list_all tlv_wf rs" "length base = 166"
  shows "mintBytesContainTransferHook (base @ concat (map tlv_bytes rs) @ replicate k 0) \<longleftrightarrow> 14 \<in> fst ` set rs"
  using scan_tlv_records [OF assms(1), of 166 base k] assms(2) by (simp add: mintBytesContainTransferHook_def)

theorem hook_scan_correct_witness:
  "mintBytesContainTransferHook (replicate 166 0 @ concat (map tlv_bytes [(1, [7, 7]), (14, [9])]) @ replicate 3 0)"
  using hook_scan_correct [of "[(1, [7, 7]), (14, [9])]" "replicate 166 0" 3] by (simp add: tlv_wf_def)

text \<open>Resolution answers for the address it was asked about and keeps the caches keyed by address: from
  caches whose entries are stored under their own mint, every resolved token has the mint of the trimmed input,
  and the caches left behind are again stored under their own mints.\<close>

theorem resolveToken_mint:
  assumes "cache_inv s" "resolveToken E input s = (r, s')"
  shows "cache_inv s' \<and> (\<forall>t. r = ResolvedOk t \<longrightarrow> tr_mint t = trim input)"
proof (cases "isValidMintCandidate (trim input)")
  case True
  obtain c s1 where c: "readCache (te_now E) (trim input) s = (c, s1)" by fastforce
  have inv: "cache_inv s1" "\<forall>t. c = Some t \<longrightarrow> tr_mint t = trim input"
    using readCache_inv [OF assms(1) c] by auto
  show ?thesis
    using assms(2) True c inv ok_cached_inv [OF inv(1)] resolve_jupiter_inv [OF inv(1)] resolve_das_inv [OF inv(1)]
      canonical_keys metadata_mint
    by (fastforce simp add: resolveToken_def Let_def split: option.splits if_splits)
qed (use assms in \<open>auto simp add: resolveToken_def Let_def\<close>)

theorem resolveToken_mint_witness:
  "\<exists>t s'. resolveToken \<lparr>te_now = Num 0, te_quota = True, te_demo = True, te_search = (\<lambda>_. None),
       te_account = (\<lambda>_. None), te_devnetDas = (\<lambda>_. None), te_mainnetDas = None\<rparr> SOL_MINT
     \<lparr>ts_memory = [], ts_disk = None\<rparr> = (ResolvedOk t, s') \<and> tr_mint t = SOL_MINT"
proof -
  have t: "trim SOL_MINT = SOL_MINT" by (simp add: trim_def SOL_MINT_def is_space_def)
  have v: "isValidMintCandidate SOL_MINT"
    unfolding isValidMintCandidate_def t Let_def by (simp add: SOL_MINT_def is_base58_def)
  have inv: "cache_inv \<lparr>ts_memory = [], ts_disk = None\<rparr>"
    by (simp add: cache_inv_def keyed_def loadStorageCache_def)
  obtain r s' where r: "resolveToken \<lparr>te_now = Num 0, te_quota = True, te_demo = True, te_search = (\<lambda>_. None),
       te_account = (\<lambda>_. None), te_devnetDas = (\<lambda>_. None), te_mainnetDas = None\<rparr> SOL_MINT
     \<lparr>ts_memory = [], ts_disk = None\<rparr> = (r, s')" by fastforce
  then obtain u where "r = ResolvedOk u"
    by (auto simp add: resolveToken_def t v Let_def readCache_def loadStorageCache_def CANONICAL_MINTS_def
        canonical_token_def ok_cached_def)
  then show ?thesis using resolveToken_mint [OF inv r] r t by auto
qed

text \<open>A token entered by hand hides every other source. Until the day of its cache entry is over, the
  address resolves to what the user typed, with the typed decimals, even for the canonical mints and without the
  transfer-hook probe.\<close>

theorem manual_entry_shadows:
  assumes "manualTokenRef now q mint symb dec nm s = (t, s')" "isValidMintCandidate mint" "trim mint = mint"
    "js_lt (js_sub (te_now E) now) CACHE_TTL_MS"
  shows "resolveToken E mint s' = (ResolvedOk t, s') \<and> tr_decimals t = dec"
proof -
  have s: "s' = writeCache now q t s" "tr_mint t = mint" "tr_decimals t = dec"
    using assms(1) by (auto simp add: manualTokenRef_def Let_def)
  have "dict_get (ts_memory s') mint = Some \<lparr>ce_token = t, ce_cachedAt = now\<rparr>"
    using writeCache_get [of now q t s] s by simp
  then have "readCache (te_now E) mint s' = (Some t, s')"
    using assms(4) by (simp add: readCache_def fresh_def)
  then show ?thesis using assms(2,3) s(3) by (simp add: resolveToken_def Let_def)
qed

theorem manual_entry_shadows_witness:
  "\<exists>t s'. resolveToken \<lparr>te_now = Num 1000, te_quota = True, te_demo = False, te_search = (\<lambda>_. None),
       te_account = (\<lambda>_. None), te_devnetDas = (\<lambda>_. None), te_mainnetDas = None\<rparr> SOL_MINT s' = (ResolvedOk t, s') \<and>
     tr_decimals t = 2"
proof -
  obtain t s' where m: "manualTokenRef (Num 0) True SOL_MINT ''x'' 2 None \<lparr>ts_memory = [], ts_disk = None\<rparr> = (t, s')"
    by fastforce
  have t: "trim SOL_MINT = SOL_MINT" by (simp add: trim_def SOL_MINT_def is_space_def)
  have v: "isValidMintCandidate SOL_MINT"
    unfolding isValidMintCandidate_def t Let_def by (simp add: SOL_MINT_def is_base58_def)
  have "js_lt (js_sub (te_now \<lparr>te_now = Num 1000, te_quota = True, te_demo = False, te_search = (\<lambda>_. None),
       te_account = (\<lambda>_. None), te_devnetDas = (\<lambda>_. None), te_mainnetDas = None\<rparr>) (Num 0)) CACHE_TTL_MS"
    by (simp add: js_sub_def js_eval CACHE_TTL_MS_def)
  from manual_entry_shadows [OF m v t this] show ?thesis by blast
qed

end
