(* ===== verification/OnChain.thy ===== *)
theory OnChain
  imports Chains Tokens "HOL-Library.Multiset"
begin

text \<open>
  src/src/lib/on-chain-automations.ts: the decoding of program accounts into automation records, the
  reconstruction of chain links from the swaps' downstream keys, and the merge of the on-chain records
  with the local ones. An account is the typed value the Anchor client decodes, so the checks that a
  field is present always succeed here. The RPC reads, the token resolution, the Hermes registry and
  the date functions are the fields of a record.
\<close>

section \<open>Numbers of the chain\<close>

text \<open>Number(bn.toString()): the nearest double of the integer.\<close>

definition num_bn :: "int \<Rightarrow> jsnum" where
  "num_bn n = fl (of_int n)"

text \<open>The remainder operator on finite numbers, which is exact.\<close>

definition js_rem :: "jsnum \<Rightarrow> jsnum \<Rightarrow> jsnum" where
  "js_rem x y = (case (x, y) of
       (Num a, Num b) \<Rightarrow> if b = 0 then NaN
         else Num (a - b * of_int (if 0 \<le> a / b then \<lfloor>a / b\<rfloor> else \<lceil>a / b\<rceil>))
     | (Num a, PInf) \<Rightarrow> Num a | (Num a, NInf) \<Rightarrow> Num a
     | _ \<Rightarrow> NaN)"

record chainReads =
  cr_info :: "pubkey \<Rightarrow> (pubkey \<times> byte list) option"
  cr_resolve :: "string \<Rightarrow> resolveResult option"
  cr_hermes :: hermes
  cr_hex :: "pubkey \<Rightarrow> string option"
  cr_nowIso :: string
  cr_iso :: "jsnum \<Rightarrow> string option"
  cr_dateMs :: "string \<Rightarrow> int"

definition unixIso :: "chainReads \<Rightarrow> jsnum \<Rightarrow> string \<Rightarrow> (js_error, string) result" where
  "unixIso E sec fallback = (if is_finite sec \<and> js_gt sec (Num 0)
     then opt_or_throw RangeError (cr_iso E (js_mul sec (Num 1000))) else Inr fallback)"

definition baseUnitsToUi :: "int \<Rightarrow> nat \<Rightarrow> jsnum" where
  "baseUnitsToUi raw decimals = (let v = num_bn raw in
     if \<not> is_finite v then Num 0 else js_div v (js_pow10 decimals))"

section \<open>Tokens and assets\<close>

record mintBasics =
  mb_decimals :: nat
  mb_tokenProgram :: string

definition tokenToAsset :: "tokenRef \<Rightarrow> assetRef" where
  "tokenToAsset t = \<lparr>as_symbol = tr_symbol t, as_displaySymbol = tr_symbol t, as_name = tr_name t,
     as_class = Crypto, as_logo = tr_logo t, as_mint = Some (tr_mint t), as_decimals = Some (tr_decimals t),
     as_metadataSource = Some (tr_metadataSource t)\<rparr>"

definition fallbackToken :: "string \<Rightarrow> mintBasics option \<Rightarrow> tokenRef" where
  "fallbackToken mint basics = \<lparr>tr_mint = mint, tr_symbol = ''TOK-'' @ take 4 mint,
     tr_name = ''Token '' @ take 4 mint, tr_logo = None,
     tr_decimals = (case basics of Some b \<Rightarrow> mb_decimals b | None \<Rightarrow> 0),
     tr_metadataSource = Manual, tr_tokenProgram = map_option mb_tokenProgram basics\<rparr>"

definition fallbackAsset :: "string \<Rightarrow> assetRef" where
  "fallbackAsset label = mk_asset label label label Crypto no_extras"

definition pythAsset :: "string \<Rightarrow> string option \<Rightarrow> assetClass \<Rightarrow> assetRef" where
  "pythAsset symb description cl = mk_asset symb (displaySymbolFromBase symb)
     (if str_truthy description then the description else displaySymbolFromBase symb) cl no_extras"

definition is_upper_letter :: "char \<Rightarrow> bool" where
  "is_upper_letter c = (let n = of_char c :: nat in 65 \<le> n \<and> n \<le> 90)"

definition quoteAssetClass :: "string \<Rightarrow> assetClass" where
  "quoteAssetClass symb = (let upper = to_upper symb in
     if upper \<in> {''XAU'', ''XAG'', ''XPD'', ''XPT''} then Metal
     else if length upper = 3 \<and> list_all is_upper_letter upper then FX
     else Crypto)"

definition fetchMintBasics :: "chainReads \<Rightarrow> string \<Rightarrow> mintBasics option" where
  "fetchMintBasics E mint = (case cr_info E mint of
       None \<Rightarrow> None
     | Some (own, bytes) \<Rightarrow> if \<not> isKnownTokenProgram own \<or> length bytes \<le> 44 then None
         else Some \<lparr>mb_decimals = unat (bytes ! 44), mb_tokenProgram = own\<rparr>)"

definition resolveOnChainToken :: "chainReads \<Rightarrow> string \<Rightarrow> tokenRef" where
  "resolveOnChainToken E mint = (let basics = fetchMintBasics E mint in
     case cr_resolve E mint of
       Some (ResolvedOk t) \<Rightarrow> t\<lparr>
         tr_decimals := (case basics of Some b \<Rightarrow> mb_decimals b | None \<Rightarrow> tr_decimals t),
         tr_tokenProgram := first_present (tr_tokenProgram t) (map_option mb_tokenProgram basics)\<rparr>
     | _ \<Rightarrow> fallbackToken mint basics)"

definition resolveQuoteRef :: "chainReads \<Rightarrow> pubkey \<Rightarrow> quoteRef" where
  "resolveQuoteRef E key =
    (if key = [] then QuoteUsd
     else case fetchMintBasics E key of
       Some _ \<Rightarrow> QuoteAsset (tokenToAsset (resolveOnChainToken E key))
     | None \<Rightarrow> (case Option.bind (cr_hex E key) (lookupPythFeedMetadata (cr_hermes E)) of
         None \<Rightarrow> QuoteAsset (fallbackAsset (''Feed '' @ take 4 key))
       | Some feed \<Rightarrow> if str_truthy (pm_base feed)
           then QuoteAsset (pythAsset (the (pm_base feed)) (Some (pm_description feed)) (pm_assetClass feed))
           else QuoteAsset (fallbackAsset (''Feed '' @ take 4 key))))"

section \<open>Decoding\<close>

definition thresholdToUi :: "int \<Rightarrow> int \<Rightarrow> jsnum" where
  "thresholdToUi threshold ex = (let raw = num_bn threshold in
     if \<not> is_finite raw then Num 0 else js_mul raw (js_pow10_int ex))"

definition timeElapsedFromSecs :: "jsnum \<Rightarrow> jsnum \<times> timeUnit" where
  "timeElapsedFromSecs secs =
    (if js_eq (js_rem secs (Num 86400)) (Num 0) then (js_div secs (Num 86400), Days)
     else if js_eq (js_rem secs (Num 3600)) (Num 0) then (js_div secs (Num 3600), Hours)
     else (js_max (Num 1) (js_round (js_div secs (Num 60))), Minutes))"

fun cadenceFromOnChain :: "onChainCadence \<Rightarrow> cadence" where
  "cadenceFromOnChain (OcRepeat n) = Repeat (js_max (Num 1) n)"
| "cadenceFromOnChain (OcUntil d) = Until (num_bn d)"
| "cadenceFromOnChain OcOnce = Once"

definition quote_symbol :: "quoteRef \<Rightarrow> string" where
  "quote_symbol q = (case q of QuoteUsd \<Rightarrow> ''USD'' | QuoteAsset a \<Rightarrow> as_displaySymbol a)"

definition priceFromOnChain :: "chainReads \<Rightarrow> assetPriceSpec \<Rightarrow> trigger option" where
  "priceFromOnChain E spec =
    (let cmp = (if op_comparator spec = 0 then Below else Above);
         fromField = map_option (resolveQuoteRef E) (op_quoteMint spec);
         quote0 = (case fromField of Some q \<Rightarrow> q | None \<Rightarrow> QuoteUsd);
         threshold = thresholdToUi (op_threshold spec) (op_expo spec)
     in if op_source spec = 1 then
          (if op_feed spec = [] then None else
           let asset = tokenToAsset (resolveOnChainToken E (op_feed spec)) in
           Some (AssetPrice asset quote0 cmp threshold
             (OracleJupiter (op_feed spec) (as_displaySymbol asset @ ''/'' @ quote_symbol quote0))))
        else (case cr_hex E (op_feed spec) of
            None \<Rightarrow> None
          | Some feedId \<Rightarrow>
             let feed = lookupPythFeedMetadata (cr_hermes E) feedId;
                 base = (case Option.bind feed pm_base of Some b \<Rightarrow> b | None \<Rightarrow> ''Feed '' @ take 6 feedId);
                 asset = pythAsset base (map_option pm_description feed)
                   (case feed of Some f \<Rightarrow> pm_assetClass f | None \<Rightarrow> Crypto);
                 fq = Option.bind feed pm_quote;
                 quote = (if fromField = None \<and> str_truthy fq \<and> to_upper (the fq) \<noteq> ''USD''
                   then QuoteAsset (pythAsset (the fq) fq (quoteAssetClass (the fq))) else quote0)
             in Some (AssetPrice asset quote cmp threshold (OraclePyth feedId
                  (case feed of Some f \<Rightarrow> pm_symbol f | None \<Rightarrow> as_displaySymbol asset @ ''/USD'') None))))"

definition triggerFromOnChain :: "chainReads \<Rightarrow> onChainTriggerSpec \<Rightarrow> trigger option" where
  "triggerFromOnChain E trig = (case trig of
       OcAccountActivity account mint kind \<Rightarrow>
         if account = [] then None
         else let token = (case mint of Some m \<Rightarrow> if m = [] then AnyValue else Specific (resolveOnChainToken E m)
                                      | None \<Rightarrow> AnyValue)
           in Some (if kind = 1 then AccountSwap account token AnyValue AtLeast else AccountTransfer account token)
     | OcAssetPrice spec \<Rightarrow> priceFromOnChain E spec
     | OcTimeElapsed secs \<Rightarrow> (case timeElapsedFromSecs secs of (v, u) \<Rightarrow> Some (TimeElapsed v u))
     | OcPriceRelativeToFill upstream dir bps \<Rightarrow>
         if upstream = [] then None
         else Some (PriceRelativeToFill upstream (if dir = 1 then Grow else Drop) bps))"

definition actionFromOnChain :: "chainReads \<Rightarrow> onChainActionSpec \<Rightarrow> action option" where
  "actionFromOnChain E act = (case act of
       OcTransferSol destination amount \<Rightarrow>
         if destination = [] then None
         else Some (Transfer (the (dict_get CANONICAL_MINTS SOL_MINT)) (js_div (num_bn amount) (Num (of_int LAMPORTS_PER_SOL))) destination)
     | OcTransferSpl destination mint amount \<Rightarrow>
         if destination = [] \<or> mint = [] then None
         else let token = resolveOnChainToken E mint in
           Some (Transfer token (baseUnitsToUi amount (tr_decimals token)) destination)
     | OcSwap spec \<Rightarrow>
         if os_inputMint spec = [] \<or> os_outputMint spec = [] then None
         else let inputToken = resolveOnChainToken E (os_inputMint spec);
                  outputToken = resolveOnChainToken E (os_outputMint spec);
                  consume = os_consumeUpstreamOutput spec \<or> os_amountIn spec = U64_MAX
           in Some (Swap \<lparr>sw_inputToken = inputToken, sw_outputToken = outputToken,
                sw_amount = (if consume then Num 0 else baseUnitsToUi (os_amountIn spec) (tr_decimals inputToken)),
                sw_linkedDownstream = (case os_linkedDownstream spec of Some d \<Rightarrow> if d = [] then None else Some d
                                       | None \<Rightarrow> None),
                sw_consumeUpstreamOutput = Some consume\<rparr>))"

record onChainAccount =
  oa_trigger :: onChainTriggerSpec
  oa_action :: onChainActionSpec
  oa_cadence :: onChainCadence
  oa_executions :: int
  oa_minIntervalSecs :: jsnum
  oa_finished :: bool
  oa_createdAt :: int
  oa_executedAt :: int
  oa_nonce :: int

definition automationFromOnChain ::
  "chainReads \<Rightarrow> pubkey \<times> onChainAccount \<Rightarrow> (js_error, automation option) result" where
  "automationFromOnChain E row = (let a = snd row in
     case (triggerFromOnChain E (oa_trigger a), actionFromOnChain E (oa_action a)) of
       (Some t, Some act) \<Rightarrow>
         and_then (unixIso E (num_bn (oa_createdAt a)) (cr_nowIso E)) (\<lambda>createdAt.
         and_then (if oa_finished a
             then and_then (unixIso E (num_bn (oa_executedAt a)) (cr_nowIso E)) (\<lambda>t. Inr (Some t)) else Inr None)
           (\<lambda>executedAt.
         Inr (Some \<lparr>au_id = ''onchain_'' @ fst row, au_schemaVersion = 3, au_triggers = [t],
           au_triggerOperators = [], au_actions = [act], au_actionOperators = [],
           au_cadence = cadenceFromOnChain (oa_cadence a), au_minIntervalSecs = oa_minIntervalSecs a,
           au_running = (\<not> oa_finished a), au_runs = num_bn (oa_executions a), au_lastCheck = cr_nowIso E,
           au_createdAt = createdAt, au_pubkey = Some (fst row), au_signature = None,
           au_nonce = Some (show_int (oa_nonce a)), au_executedAt = executedAt, au_closedAt = None,
           au_link = None\<rparr>)))
     | _ \<Rightarrow> Inr None)"

section \<open>Reconstruction of chain links\<close>

record linkMaps =
  lm_next :: "(string, string) dict"
  lm_prev :: "(string, string) dict"
  lm_neighbors :: "(string, string list) dict"

text \<open>A JavaScript Set is the list of its members in insertion order.\<close>

definition set_add :: "'a \<Rightarrow> 'a list \<Rightarrow> 'a list" where
  "set_add x xs = (if x \<in> set xs then xs else xs @ [x])"

definition neighbors_of :: "linkMaps \<Rightarrow> string \<Rightarrow> string list" where
  "neighbors_of M i = (case dict_get (lm_neighbors M) i of Some ns \<Rightarrow> ns | None \<Rightarrow> [])"

definition join :: "string \<Rightarrow> string \<Rightarrow> linkMaps \<Rightarrow> linkMaps" where
  "join i j M = (let a = set_add j (neighbors_of M i); b = set_add i (neighbors_of M j) in
     M\<lparr>lm_neighbors := dict_set (dict_set (lm_neighbors M) i a) j b\<rparr>)"

definition by_pubkey :: "automation list \<Rightarrow> (string, automation) dict" where
  "by_pubkey items = fold (\<lambda>a d. if str_truthy (au_pubkey a) then dict_set d (the (au_pubkey a)) a else d) items []"

definition connect :: "(string, automation) dict \<Rightarrow> automation \<Rightarrow> string option \<Rightarrow> linkMaps \<Rightarrow> linkMaps" where
  "connect byPubkey from toPubkey M =
    (if \<not> str_truthy toPubkey then M
     else case dict_get byPubkey (the toPubkey) of
       None \<Rightarrow> M
     | Some to \<Rightarrow> join (au_id from) (au_id to)
         (M\<lparr>lm_next := dict_set (lm_next M) (au_id from) (au_id to),
            lm_prev := dict_set (lm_prev M) (au_id to) (au_id from)\<rparr>))"

definition link_item :: "(string, automation) dict \<Rightarrow> automation \<Rightarrow> linkMaps \<Rightarrow> linkMaps" where
  "link_item byPubkey item M =
    (let M1 = (case nth_opt (au_actions item) 0 of
           Some (Swap s) \<Rightarrow> connect byPubkey item (sw_linkedDownstream s) M
         | _ \<Rightarrow> M)
     in case nth_opt (au_triggers item) 0 of
       Some (PriceRelativeToFill up dir bps) \<Rightarrow> (case dict_get byPubkey up of
           Some upstream \<Rightarrow> if dict_has (lm_prev M1) (au_id item) then M1
             else join (au_id item) (au_id upstream) M1
         | None \<Rightarrow> M1)
     | _ \<Rightarrow> M1)"

definition link_maps :: "automation list \<Rightarrow> linkMaps" where
  "link_maps items = fold (link_item (by_pubkey items)) items
     \<lparr>lm_next = [], lm_prev = [], lm_neighbors = []\<rparr>"

definition by_id :: "automation list \<Rightarrow> (string, automation) dict" where
  "by_id items = fold (\<lambda>a d. dict_set d (au_id a) a) items []"

text \<open>The nonces are decimal texts, as the decoding writes them.\<close>

definition nonce_of :: "(string, automation) dict \<Rightarrow> string \<Rightarrow> nat" where
  "nonce_of byId i = (case Option.bind (dict_get byId i) au_nonce of Some s \<Rightarrow> read_digits s | None \<Rightarrow> 0)"

definition sort_ids :: "(string, automation) dict \<Rightarrow> string list \<Rightarrow> string list" where
  "sort_ids byId ids = sort_key (nonce_of byId) ids"

text \<open>Visiting the neighbours of a node: the unvisited ones are marked and pushed.\<close>

fun push_all :: "string list \<Rightarrow> string list \<Rightarrow> string list \<Rightarrow> string list \<times> string list" where
  "push_all [] visited stack = (visited, stack)"
| "push_all (n # ns) visited stack =
     (if n \<in> set visited then push_all ns visited stack else push_all ns (n # visited) (stack @ [n]))"

lemma push_all_card:
  assumes "push_all ns visited stack = (v', st')" "finite U" "set ns \<subseteq> U"
  shows "length st' + 2 * card (U - set v') \<le> length stack + 2 * card (U - set visited)"
  using assms(1,3)
proof (induction ns visited stack rule: push_all.induct)
  case (2 n ns visited stack)
  show ?case
  proof (cases "n \<in> set visited")
    case False
    have "card ((U - set visited) - {n}) = card (U - set visited) - 1" "0 < card (U - set visited)"
      using 2(4) False assms(2) by (auto simp add: card_gt_0_iff)
    moreover have "U - set (n # visited) = (U - set visited) - {n}" by auto
    ultimately have "length (stack @ [n]) + 2 * card (U - set (n # visited)) \<le> length stack + 2 * card (U - set visited)"
      by simp
    then show ?thesis using 2(2) False 2(3,4) by simp
  qed (use 2 in simp)
qed simp

function component_loop ::
  "linkMaps \<Rightarrow> string list \<Rightarrow> string list \<Rightarrow> string list \<Rightarrow> string list \<times> string list" where
  "component_loop M visited stack members =
     (if stack = [] then (visited, members)
      else let cur = last stack; r = push_all (neighbors_of M cur) visited (butlast stack)
        in component_loop M (fst r) (snd r) (members @ [cur]))"
  by auto
termination
proof (relation "measure (\<lambda>(M, visited, stack, members).
    length stack + 2 * card ((\<Union>p \<in> set (lm_neighbors M). set (snd p)) - set visited))")
  fix M :: linkMaps and visited stack members :: "string list" and x r
  assume ne: "stack \<noteq> []" and x: "x = last stack" and r: "r = push_all (neighbors_of M x) visited (butlast stack)"
  let ?U = "\<Union>p \<in> set (lm_neighbors M). set (snd p)"
  have "set (neighbors_of M x) \<subseteq> ?U"
  proof
    fix n
    assume "n \<in> set (neighbors_of M x)"
    then obtain ns where "dict_get (lm_neighbors M) x = Some ns" "n \<in> set ns"
      by (cases "dict_get (lm_neighbors M) x") (simp_all add: neighbors_of_def)
    then have "(x, ns) \<in> set (lm_neighbors M)" by (simp add: dict_get_map_of map_of_SomeD)
    with \<open>n \<in> set ns\<close> show "n \<in> ?U" by (intro UN_I [of "(x, ns)"]) simp_all
  qed
  then have "length (snd r) + 2 * card (?U - set (fst r)) \<le> length (butlast stack) + 2 * card (?U - set visited)"
    using push_all_card [of "neighbors_of M x" visited "butlast stack" "fst r" "snd r" ?U] r by simp
  also have "\<dots> < length stack + 2 * card (?U - set visited)" using ne by simp
  finally show "((M, fst r, snd r, members @ [x]), M, visited, stack, members) \<in> measure (\<lambda>(M, visited, stack, members).
    length stack + 2 * card ((\<Union>p \<in> set (lm_neighbors M). set (snd p)) - set visited))" by simp
qed simp

declare component_loop.simps [simp del]

text \<open>Following the links from the start, inside the component.\<close>

function follow :: "linkMaps \<Rightarrow> string list \<Rightarrow> string option \<Rightarrow> string list \<Rightarrow> string list" where
  "follow M members None order = order"
| "follow M members (Some cur) order =
     (if cur = [] \<or> cur \<in> set order \<or> cur \<notin> set members then order
      else follow M members (dict_get (lm_next M) cur) (order @ [cur]))"
  by pat_completeness auto
termination
proof (relation "measure (\<lambda>(M, members, cur, order).
    2 * card (set members - set order) + (if cur = None then 0 else 1))")
  fix M :: linkMaps and members :: "string list" and cur :: string and order :: "string list"
  assume "\<not> (cur = [] \<or> cur \<in> set order \<or> cur \<notin> set members)"
  then have "card (set members - set (order @ [cur])) < card (set members - set order)"
    by (intro psubset_card_mono) auto
  then show "((M, members, dict_get (lm_next M) cur, order @ [cur]), M, members, Some cur, order) \<in>
    measure (\<lambda>(M, members, cur, order). 2 * card (set members - set order) + (if cur = None then 0 else 1))" by simp
qed simp

text \<open>The order of a component: from a node without predecessor, else from the smallest nonce (and then
  the component is left sorted), the linked nodes first, the others after them.\<close>

definition order_component :: "linkMaps \<Rightarrow> (string, automation) dict \<Rightarrow> string list \<Rightarrow> string list" where
  "order_component M byId members =
    (case find (\<lambda>c. \<not> dict_has (lm_prev M) c) members of
       Some start \<Rightarrow> (let order = follow M members (Some start) [] in order @ filter (\<lambda>c. c \<notin> set order) members)
     | None \<Rightarrow> (let members' = sort_ids byId members; order = follow M members' (nth_opt members' 0) []
         in order @ filter (\<lambda>c. c \<notin> set order) members'))"

definition chain_id_of :: "(string, automation) dict \<Rightarrow> string list \<Rightarrow> string" where
  "chain_id_of byId order = ''chain_'' @ (case Option.bind (dict_get byId (hd order)) au_pubkey of
     Some p \<Rightarrow> take 12 p | None \<Rightarrow> hd order)"

definition link_of :: "linkMaps \<Rightarrow> string \<Rightarrow> nat \<Rightarrow> string \<Rightarrow> nat \<Rightarrow> chainLink" where
  "link_of M chainId n i pos = \<lparr>cl_chainId = chainId, cl_position = pos, cl_total = n,
     cl_next = (case dict_get (lm_next M) i of Some j \<Rightarrow> if j = [] then None else Some (RuleTarget j) | None \<Rightarrow> None),
     cl_isHead = (pos = 0), cl_fundingError = None\<rparr>"

fun patch_order ::
  "linkMaps \<Rightarrow> (string, automation) dict \<Rightarrow> string \<Rightarrow> nat \<Rightarrow> nat \<Rightarrow> string list \<Rightarrow> (string, automation) dict
    \<Rightarrow> (string, automation) dict" where
  "patch_order M byId chainId n pos [] patched = patched"
| "patch_order M byId chainId n pos (i # is) patched =
     patch_order M byId chainId n (Suc pos) is
       (case dict_get byId i of None \<Rightarrow> patched
        | Some item \<Rightarrow> dict_set patched (au_id item) (item\<lparr>au_link := Some (link_of M chainId n (au_id item) pos)\<rparr>))"

fun patch_components ::
  "linkMaps \<Rightarrow> (string, automation) dict \<Rightarrow> string list \<Rightarrow> string list \<Rightarrow> (string, automation) dict
    \<Rightarrow> (string, automation) dict" where
  "patch_components M byId [] visited patched = patched"
| "patch_components M byId (i # is) visited patched =
     (if i \<in> set visited then patch_components M byId is visited patched
      else let r = component_loop M (i # visited) [i] []; members = snd r in
        if length members \<le> 1 then patch_components M byId is (fst r) patched
        else let order = order_component M byId members in
          patch_components M byId is (fst r)
            (patch_order M byId (chain_id_of byId order) (length order) 0 order patched))"

definition reconstructChainLinks :: "automation list \<Rightarrow> automation list" where
  "reconstructChainLinks items =
    (let M = link_maps items; byId = by_id items;
         patched = patch_components M byId (sort_ids byId (map fst byId)) [] byId
     in map (\<lambda>a. case dict_get patched (au_id a) of Some b \<Rightarrow> b | None \<Rightarrow> a) items)"

section \<open>Fetching and merging\<close>

definition newest_first :: "chainReads \<Rightarrow> automation list \<Rightarrow> automation list" where
  "newest_first E items = sort_key (\<lambda>a. - cr_dateMs E (au_createdAt a)) items"

definition fetchOwnedOnChainAutomations ::
  "chainReads \<Rightarrow> bool \<Rightarrow> automation list \<Rightarrow> bool \<Rightarrow> (js_error, (pubkey \<times> onChainAccount) list) result
    \<Rightarrow> (js_error, automation list) result" where
  "fetchOwnedOnChainAutomations E demo seeds configured rows =
    (if demo then Inr seeds
     else if \<not> configured then Inr []
     else and_then rows (\<lambda>rs. and_then (map_result (automationFromOnChain E) rs) (\<lambda>built.
       Inr (reconstructChainLinks (newest_first E (map the (filter (\<lambda>b. b \<noteq> None) built)))))))"

definition key_for :: "automation \<Rightarrow> string" where
  "key_for a = (case au_pubkey a of Some p \<Rightarrow> p | None \<Rightarrow> au_id a)"

definition or_zero :: "jsnum \<Rightarrow> jsnum" where
  "or_zero x = (if truthy x then x else Num 0)"

text \<open>The spread of both records: the local fields win, except the ones the chain decides. A field that is None stands
  for an absent one; a property that is present and undefined, which a spread would copy, is not told apart.\<close>

definition merge_pair :: "automation \<Rightarrow> automation \<Rightarrow> automation" where
  "merge_pair onChain item = item\<lparr>
     au_runs := js_max (or_zero (au_runs item)) (or_zero (au_runs onChain)),
     au_running := au_running onChain,
     au_lastCheck := au_lastCheck onChain,
     au_createdAt := (if au_createdAt onChain \<noteq> [] then au_createdAt onChain else au_createdAt item),
     au_nonce := first_present (au_nonce onChain) (au_nonce item),
     au_signature := first_present (au_signature item) (au_signature onChain),
     au_link := first_present (au_link item) (au_link onChain),
     au_executedAt := au_executedAt onChain,
     au_closedAt := None\<rparr>"

definition merge_local :: "automation \<Rightarrow> (string, automation) dict \<Rightarrow> (string, automation) dict" where
  "merge_local item byKey =
    (case (if str_truthy (au_pubkey item) then dict_get byKey (key_for item) else None) of
       None \<Rightarrow> dict_set byKey (key_for item) item
     | Some onChain \<Rightarrow> dict_set byKey (key_for item) (merge_pair onChain item))"

definition mergeOnChainAutomations :: "chainReads \<Rightarrow> automation list \<Rightarrow> automation list \<Rightarrow> automation list" where
  "mergeOnChainAutomations E local remote =
    newest_first E (map snd (fold merge_local local (fold (\<lambda>a d. dict_set d (key_for a) a) remote [])))"

section \<open>Lemmas on decoding\<close>

lemma js_rem_int:
  assumes "0 \<le> s" "0 < k" shows "js_rem (Num (of_int s)) (Num (of_int k)) = Num (of_int (s mod k))"
proof -
  have "(of_int s :: rat) / of_int k \<ge> 0" using assms by simp
  moreover have "\<lfloor>(of_int s :: rat) / of_int k\<rfloor> = s div k" by (rule floor_divide_of_int_eq)
  moreover have "(of_int s :: rat) - of_int k * of_int (s div k) = of_int (s mod k)"
    by (metis minus_mult_div_eq_mod of_int_diff of_int_mult)
  ultimately show ?thesis using assms by (simp add: js_rem_def)
qed

lemma js_rem_int_numeral:
  "0 \<le> s \<Longrightarrow> js_rem (Num (of_int s)) (Num (numeral w)) = Num (of_int (s mod numeral w))"
  using js_rem_int [of s "numeral w"] by simp

lemma js_div_int_exact:
  assumes "\<bar>j\<bar> \<le> 2 ^ 53" "s = numeral w * j"
  shows "js_div (Num (of_int s)) (Num (numeral w)) = Num (of_int j)"
  using fl_of_int [OF assms(1)] assms(2) by simp

lemma js_mul_int_exact:
  assumes "\<bar>j * numeral w\<bar> \<le> 2 ^ 53"
  shows "js_mul (Num (of_int j)) (Num (numeral w)) = Num (of_int (j * numeral w))"
  using fl_of_int [OF assms] by simp

lemma timeElapsedFromSecs_minutes:
  assumes s: "1 \<le> s" "s \<le> 2 ^ 53" "60 dvd s"
  shows "case timeElapsedFromSecs (Num (of_int s)) of (v, u) \<Rightarrow> timeElapsedToSecs v u = Num (of_int s)"
proof -
  obtain j where j: "s = 60 * j" using s(3) by auto
  have jb: "1 \<le> j" "\<bar>j\<bar> \<le> 2 ^ 53" using j s(1,2) by simp_all
  have rem: "js_rem (Num (of_int s)) (Num 86400) = Num (of_int (s mod 86400))"
    "js_rem (Num (of_int s)) (Num 3600) = Num (of_int (s mod 3600))"
    using js_rem_int_numeral [of s] s(1) by simp_all
  consider (d) a where "s = 86400 * a" | (h) a where "s mod 86400 \<noteq> 0" "s = 3600 * a" | (m) "s mod 86400 \<noteq> 0" "s mod 3600 \<noteq> 0"
    by (metis dvdE mod_0_imp_dvd)
  then show ?thesis
  proof cases
    case d
    have "\<bar>a\<bar> \<le> 2 ^ 53" "\<bar>a * 86400\<bar> \<le> 2 ^ 53" using d s(1,2) by simp_all
    from js_div_int_exact [OF this(1) d] js_mul_int_exact [OF this(2)] show ?thesis
      unfolding timeElapsedFromSecs_def rem by (simp add: d timeElapsedToSecs_def unit_secs_def mult.commute)
  next
    case h
    have "\<bar>a\<bar> \<le> 2 ^ 53" "\<bar>a * 3600\<bar> \<le> 2 ^ 53" using h s(1,2) by simp_all
    from js_div_int_exact [OF this(1) h(2)] js_mul_int_exact [OF this(2)] h(1) show ?thesis
      unfolding timeElapsedFromSecs_def rem by (simp add: h(2) timeElapsedToSecs_def unit_secs_def mult.commute)
  next
    case m
    have d: "js_div (Num (of_int s)) (Num 60) = Num (of_int j)" using js_div_int_exact [OF jb(2) j] .
    have r: "js_round (Num (of_int j)) = Num (of_int j)" by (simp add: floor_eq_iff)
    have mx: "js_max (Num 1) (Num (of_int j)) = Num (of_int j)" using jb(1) by (auto simp add: js_max_def)
    have "\<bar>j * 60\<bar> \<le> 2 ^ 53" using j s(1,2) by simp
    from js_mul_int_exact [OF this] m show ?thesis
      unfolding timeElapsedFromSecs_def rem d r mx by (simp add: j timeElapsedToSecs_def unit_secs_def mult.commute)
  qed
qed

section \<open>Lemmas on links\<close>

lemma by_id_get: "dict_get (by_id items) i = map_of (rev (map (\<lambda>a. (au_id a, a)) items)) i"
  using js_map.get_fold_put [of "map (\<lambda>a. (au_id a, a)) items" "[]" i]
  by (simp add: by_id_def fold_map comp_def split: option.splits)

lemma by_id_keyed: "dict_get (by_id items) i = Some a \<Longrightarrow> au_id a = i \<and> a \<in> set items"
  by (auto simp add: by_id_get dest!: map_of_SomeD)

lemma by_id_distinct: "distinct (map au_id items) \<Longrightarrow> a \<in> set items \<Longrightarrow> dict_get (by_id items) (au_id a) = Some a"
proof -
  assume d: "distinct (map au_id items)" "a \<in> set items"
  then have "distinct (map fst (rev (map (\<lambda>a. (au_id a, a)) items)))"
    by (simp add: comp_def rev_map [symmetric])
  from map_of_is_SomeI [OF this] d(2) show ?thesis by (simp add: by_id_get)
qed

text \<open>A patched record is the record of its id, or that record with a link whose position is in range.\<close>

definition patched_from :: "linkMaps \<Rightarrow> automation \<Rightarrow> automation \<Rightarrow> bool" where
  "patched_from M item b \<longleftrightarrow> b = item \<or>
     (\<exists>chainId n pos. pos < n \<and> b = item\<lparr>au_link := Some (link_of M chainId n (au_id item) pos)\<rparr>)"

definition patched_inv :: "linkMaps \<Rightarrow> (string, automation) dict \<Rightarrow> (string, automation) dict \<Rightarrow> bool" where
  "patched_inv M byId d \<longleftrightarrow> (\<forall>i b. dict_get d i = Some b \<longrightarrow> (\<exists>item. dict_get byId i = Some item \<and> patched_from M item b)) \<and>
     (\<forall>i. dict_get byId i \<noteq> None \<longrightarrow> dict_get d i \<noteq> None)"

lemma patch_order_inv:
  assumes "\<And>i a. dict_get byId i = Some a \<Longrightarrow> au_id a = i"
  shows "patched_inv M byId d \<Longrightarrow> pos + length is \<le> n \<Longrightarrow> patched_inv M byId (patch_order M byId c n pos is d)"
proof (induction "is" arbitrary: pos d)
  case (Cons i "is")
  show ?case
  proof (cases "dict_get byId i")
    case None
    then show ?thesis using Cons by simp
  next
    case (Some item)
    then have i: "au_id item = i" using assms by blast
    have "patched_from M item (item\<lparr>au_link := Some (link_of M c n (au_id item) pos)\<rparr>)"
      unfolding patched_from_def using Cons.prems(2) by (intro disjI2 exI [of _ c] exI [of _ n] exI [of _ pos]) simp
    then have "patched_inv M byId (dict_set d (au_id item) (item\<lparr>au_link := Some (link_of M c n (au_id item) pos)\<rparr>))"
      using Cons.prems(1) Some i by (auto simp add: patched_inv_def dict_laws)
    then show ?thesis using Cons.IH [of _ "Suc pos"] Cons.prems(2) Some by simp
  qed
qed simp

lemma patch_components_inv:
  assumes "\<And>i a. dict_get byId i = Some a \<Longrightarrow> au_id a = i"
  shows "patched_inv M byId d \<Longrightarrow> patched_inv M byId (patch_components M byId ids visited d)"
  by (induction ids arbitrary: visited d) (auto simp add: Let_def patch_order_inv [OF assms])

lemma reconstruct_items:
  assumes "distinct (map au_id items)"
  shows "list_all2 (patched_from (link_maps items)) items (reconstructChainLinks items)"
proof -
  let ?M = "link_maps items" and ?B = "by_id items"
  let ?p = "patch_components ?M ?B (sort_ids ?B (map fst ?B)) [] ?B"
  have key: "dict_get ?B i = Some a \<Longrightarrow> au_id a = i" for i a using by_id_keyed by blast
  have "patched_inv ?M ?B ?B" by (auto simp add: patched_inv_def patched_from_def)
  from patch_components_inv [OF key this] have inv: "patched_inv ?M ?B ?p" .
  have "patched_from ?M a (case dict_get ?p (au_id a) of Some b \<Rightarrow> b | None \<Rightarrow> a)" if "a \<in> set items" for a
  proof -
    have a: "dict_get ?B (au_id a) = Some a" using by_id_distinct [OF assms that] .
    then obtain b where b: "dict_get ?p (au_id a) = Some b" using inv unfolding patched_inv_def by blast
    then obtain item where "dict_get ?B (au_id a) = Some item" "patched_from ?M item b"
      using inv unfolding patched_inv_def by blast
    then show ?thesis using a b by simp
  qed
  then show ?thesis by (simp add: reconstructChainLinks_def Let_def list_all2_map2 list_all2_same)
qed

lemma follow_set: "distinct order \<Longrightarrow> set order \<subseteq> set ms \<Longrightarrow>
    distinct (follow M ms cur order) \<and> set (follow M ms cur order) \<subseteq> set ms \<and> prefix order (follow M ms cur order)"
proof (induction M ms cur order rule: follow.induct)
  case (2 M ms cur order)
  show ?case
  proof (cases "cur = [] \<or> cur \<in> set order \<or> cur \<notin> set ms")
    case False
    then show ?thesis using 2 by (auto dest: append_prefixD)
  qed (use 2 in auto)
qed simp

lemma order_rest_mset:
  assumes "distinct ms" "distinct order" "set order \<subseteq> set ms"
  shows "mset (order @ filter (\<lambda>c. c \<notin> set order) ms) = mset ms"
proof -
  have "distinct (order @ filter (\<lambda>c. c \<notin> set order) ms)" using assms by auto
  moreover have "set (order @ filter (\<lambda>c. c \<notin> set order) ms) = set ms" using assms(3) by auto
  ultimately show ?thesis using assms(1) set_eq_iff_mset_eq_distinct by metis
qed

section \<open>Lemmas on merging\<close>

lemma merge_pair_key: "key_for (merge_pair oc item) = key_for item"
  by (cases "au_pubkey item") (simp_all add: key_for_def merge_pair_def)

definition merged :: "(string, automation) dict \<Rightarrow> automation \<Rightarrow> automation" where
  "merged d item = (case (if str_truthy (au_pubkey item) then dict_get d (key_for item) else None) of
     None \<Rightarrow> item | Some oc \<Rightarrow> merge_pair oc item)"

lemma merge_local_eq: "merge_local item d = dict_set d (key_for item) (merged d item)"
  by (simp add: merge_local_def merged_def split: option.splits)

lemma merged_other: "key_for item \<noteq> k \<Longrightarrow> merged (dict_set d k v) item = merged d item"
  by (simp add: merged_def dict_laws)

lemma fold_merge_ok: "dict_ok d \<Longrightarrow> dict_ok (fold merge_local ls d)"
  by (induction ls arbitrary: d) (auto simp add: merge_local_eq dict_ok_set)

lemma fold_merge_notin: "k \<notin> key_for ` set ls \<Longrightarrow> dict_get (fold merge_local ls d) k = dict_get d k"
  by (induction ls arbitrary: d) (auto simp add: merge_local_eq dict_laws)

lemma fold_merge_in:
  "distinct (map key_for ls) \<Longrightarrow> item \<in> set ls \<Longrightarrow>
     dict_get (fold merge_local ls d) (key_for item) = Some (merged d item)"
proof (induction ls arbitrary: d)
  case (Cons l ls)
  show ?case
  proof (cases "item = l")
    case True
    have "key_for l \<notin> key_for ` set ls" using Cons.prems(1) by simp
    from fold_merge_notin [OF this, of "merge_local l d"] True show ?thesis
      by (simp add: dict_laws) (simp add: merge_local_eq dict_laws)
  next
    case False
    then have i: "item \<in> set ls" using Cons.prems by simp
    then have "key_for item \<in> key_for ` set ls" by simp
    then have "key_for item \<noteq> key_for l" using Cons.prems(1) by auto
    with i show ?thesis using Cons by (simp add: merge_local_eq merged_other)
  qed
qed simp

lemma remote_get:
  assumes "distinct (map key_for rs)" "r \<in> set rs"
  shows "dict_get (fold (\<lambda>a d. dict_set d (key_for a) a) rs []) (key_for r) = Some r"
proof -
  have "map_of (rev (map (\<lambda>a. (key_for a, a)) rs)) (key_for r) = Some r"
    by (rule map_of_is_SomeI) (use assms in \<open>simp_all add: comp_def rev_map [symmetric]\<close>)
  then show ?thesis
    using js_map.get_fold_put [of "map (\<lambda>a. (key_for a, a)) rs" "[]" "key_for r"] by (simp add: fold_map comp_def)
qed

lemma dict_get_snd: "dict_get d k = Some v \<Longrightarrow> v \<in> snd ` set d"
  by (induction d k rule: dict_get.induct) (auto split: if_splits)

text \<open>A local record as the merge leaves it: united with the remote record of its key, when it has one.\<close>

definition united :: "automation list \<Rightarrow> automation \<Rightarrow> automation" where
  "united remote l = (case (if str_truthy (au_pubkey l) then find (\<lambda>r. key_for r = key_for l) remote else None) of
     None \<Rightarrow> l | Some oc \<Rightarrow> merge_pair oc l)"

lemma remote_fold_get:
  "distinct (map key_for rs) \<Longrightarrow> dict_get (fold (\<lambda>a d. dict_set d (key_for a) a) rs []) k = find (\<lambda>r. key_for r = k) rs"
proof -
  assume d: "distinct (map key_for rs)"
  show ?thesis
  proof (cases "find (\<lambda>r. key_for r = k) rs")
    case (Some r)
    then have "r \<in> set rs" "key_for r = k" by (auto simp add: find_Some_iff)
    with remote_get [OF d this(1)] Some show ?thesis by simp
  next
    case None
    then have n: "k \<notin> key_for ` set rs" by (auto simp add: find_None_iff)
    have "k \<notin> key_for ` set xs \<Longrightarrow> dict_get (fold (\<lambda>a d. dict_set d (key_for a) a) xs d) k = dict_get d k" for xs d
      by (induction xs arbitrary: d) (auto simp add: dict_laws)
    from this [OF n, of "[]"] None show ?thesis by simp
  qed
qed

lemma remote_fold_ok: "dict_ok (fold (\<lambda>a d. dict_set d (key_for a) a) rs [])"
proof -
  have "dict_ok d \<Longrightarrow> dict_ok (fold (\<lambda>a d. dict_set d (key_for a) a) rs d)" for d
    by (induction rs arbitrary: d) (simp_all add: dict_ok_set)
  then show ?thesis by simp
qed

definition merge_dict :: "automation list \<Rightarrow> automation list \<Rightarrow> (string, automation) dict" where
  "merge_dict local remote = fold merge_local local (fold (\<lambda>a d. dict_set d (key_for a) a) remote [])"

lemma merge_dict_get:
  assumes "distinct (map key_for local)" "distinct (map key_for remote)"
  shows "dict_get (merge_dict local remote) k = (case find (\<lambda>l. key_for l = k) local of
     Some l \<Rightarrow> Some (united remote l) | None \<Rightarrow> find (\<lambda>r. key_for r = k) remote)"
proof (cases "find (\<lambda>l. key_for l = k) local")
  case (Some l)
  then have "l \<in> set local" "key_for l = k" by (auto simp add: find_Some_iff)
  with fold_merge_in [OF assms(1) this(1)] Some show ?thesis
    by (simp add: merge_dict_def merged_def united_def remote_fold_get [OF assms(2)])
next
  case None
  then have "k \<notin> key_for ` set local" by (auto simp add: find_None_iff)
  from fold_merge_notin [OF this] None show ?thesis by (simp add: merge_dict_def remote_fold_get [OF assms(2)])
qed

lemma merge_dict_ok: "dict_ok (merge_dict local remote)"
  by (simp add: merge_dict_def fold_merge_ok remote_fold_ok)

lemma united_key: "key_for (united remote l) = key_for l"
  by (simp add: united_def merge_pair_key split: option.split)

lemma find_key: "distinct (map key_for ls) \<Longrightarrow> l \<in> set ls \<Longrightarrow> find (\<lambda>x. key_for x = key_for l) ls = Some l"
  by (rule find_unique) (auto simp add: distinct_map inj_on_def)

text \<open>The values of the merged map, when no key repeats on either side.\<close>

lemma merge_dict_values:
  assumes "distinct (map key_for local)" "distinct (map key_for remote)"
  shows "set (map snd (merge_dict local remote)) =
    united remote ` set local \<union> {r \<in> set remote. key_for r \<notin> key_for ` set local}"
proof (rule set_eqI)
  fix b
  have "(\<exists>k. dict_get (merge_dict local remote) k = Some b) \<longleftrightarrow>
      (\<exists>l \<in> set local. b = united remote l) \<or> (b \<in> set remote \<and> key_for b \<notin> key_for ` set local)" (is "?L \<longleftrightarrow> ?R")
  proof
    assume ?L
    then obtain k where k: "dict_get (merge_dict local remote) k = Some b" by blast
    show ?R
    proof (cases "find (\<lambda>l. key_for l = k) local")
      case (Some l)
      then have "l \<in> set local" by (auto simp add: find_Some_iff)
      with Some k show ?thesis by (auto simp add: merge_dict_get [OF assms])
    next
      case None
      then have "k \<notin> key_for ` set local" by (auto simp add: find_None_iff)
      with None k show ?thesis by (auto simp add: merge_dict_get [OF assms] find_Some_iff)
    qed
  next
    assume ?R
    then show ?L
    proof (elim disjE bexE conjE)
      fix l
      assume "l \<in> set local" "b = united remote l"
      then have "dict_get (merge_dict local remote) (key_for l) = Some b"
        by (simp add: merge_dict_get [OF assms] find_key [OF assms(1)])
      then show ?L by blast
    next
      assume b: "b \<in> set remote" "key_for b \<notin> key_for ` set local"
      then have "find (\<lambda>l. key_for l = key_for b) local = None" unfolding find_None_iff by (metis imageI)
      then have "dict_get (merge_dict local remote) (key_for b) = Some b"
        by (simp add: merge_dict_get [OF assms] find_key [OF assms(2) b(1)])
      then show ?L by blast
    qed
  qed
  then show "b \<in> set (map snd (merge_dict local remote)) \<longleftrightarrow>
      b \<in> united remote ` set local \<union> {r \<in> set remote. key_for r \<notin> key_for ` set local}"
    unfolding dict_values [OF merge_dict_ok] by blast
qed

lemma merge_dict_keys:
  assumes "distinct (map key_for local)" "distinct (map key_for remote)"
  shows "distinct (map key_for (map snd (merge_dict local remote)))"
proof -
  have "key_for (snd p) = fst p" if p: "p \<in> set (merge_dict local remote)" for p
  proof -
    have "dict_get (merge_dict local remote) (fst p) = Some (snd p)"
      using p merge_dict_ok [of local remote] by (simp add: dict_get_map_of dict_ok_def)
    then show ?thesis
      by (auto simp add: merge_dict_get [OF assms] find_Some_iff split: option.splits) (metis united_key)
  qed
  then have "map key_for (map snd (merge_dict local remote)) = map fst (merge_dict local remote)" by simp
  then show ?thesis using merge_dict_ok [of local remote] by (simp only: dict_ok_def)
qed

end
