(* ===== verification/ChainLinks.thy ===== *)
theory ChainLinks
  imports OnChain
begin

text \<open>
  Correctness of the reconstruction of chain links (reconstructChainLinks of
  src/src/lib/on-chain-automations.ts): the search finds the connected component of a rule, the order
  of a component follows the downstream keys, and the rules of a deployed chain, open or looped, get back
  the positions they were deployed with.
\<close>

section \<open>The search of a component\<close>

lemma push_all_new:
  "\<exists>new. snd (push_all ns visited stack) = stack @ new \<and> distinct new \<and> set new \<inter> set visited = {} \<and>
     set new \<subseteq> set ns \<and> set (fst (push_all ns visited stack)) = set visited \<union> set new \<and>
     set ns \<subseteq> set (fst (push_all ns visited stack))"
proof (induction ns visited stack rule: push_all.induct)
  case (2 n ns visited stack)
  show ?case
  proof (cases "n \<in> set visited")
    case True
    then obtain new where "snd (push_all ns visited stack) = stack @ new" "distinct new" "set new \<inter> set visited = {}"
      "set new \<subseteq> set ns" "set (fst (push_all ns visited stack)) = set visited \<union> set new"
      "set ns \<subseteq> set (fst (push_all ns visited stack))" using 2(1) by blast
    with True show ?thesis by (intro exI [of _ new]) auto
  next
    case False
    then obtain new where "snd (push_all ns (n # visited) (stack @ [n])) = (stack @ [n]) @ new" "distinct new"
      "set new \<inter> set (n # visited) = {}" "set new \<subseteq> set ns"
      "set (fst (push_all ns (n # visited) (stack @ [n]))) = set (n # visited) \<union> set new"
      "set ns \<subseteq> set (fst (push_all ns (n # visited) (stack @ [n])))" using 2(2) by blast
    with False show ?thesis by (intro exI [of _ "n # new"]) auto
  qed
qed simp

text \<open>What the loop maintains: what is marked is the old part, the members and the stack, without
  repetition, and the neighbours of a member are marked.\<close>

definition loop_inv :: "linkMaps \<Rightarrow> string set \<Rightarrow> string list \<Rightarrow> string list \<Rightarrow> string list \<Rightarrow> bool" where
  "loop_inv M old visited stack members \<longleftrightarrow> distinct (members @ stack) \<and> old \<inter> set (members @ stack) = {} \<and>
     set visited = old \<union> set (members @ stack) \<and> (\<forall>m \<in> set members. set (neighbors_of M m) \<subseteq> set visited)"

lemma loop_inv_step:
  assumes "loop_inv M old visited stack members" "stack \<noteq> []"
  shows "loop_inv M old (fst (push_all (neighbors_of M (last stack)) visited (butlast stack)))
    (snd (push_all (neighbors_of M (last stack)) visited (butlast stack))) (members @ [last stack])"
proof -
  obtain st x where st: "stack = st @ [x]" using assms(2) by (cases stack rule: rev_cases) auto
  obtain new where "snd (push_all (neighbors_of M x) visited st) = st @ new" "distinct new" "set new \<inter> set visited = {}"
    "set (fst (push_all (neighbors_of M x) visited st)) = set visited \<union> set new"
    "set (neighbors_of M x) \<subseteq> set (fst (push_all (neighbors_of M x) visited st))"
    using push_all_new [of "neighbors_of M x" visited st] by blast
  note new = this
  have inv: "distinct (members @ st @ [x])" "old \<inter> set (members @ st @ [x]) = {}"
    "set visited = old \<union> set (members @ st @ [x])"
    using assms(1) unfolding st loop_inv_def by simp_all
  have nb: "\<And>m. m \<in> set members \<Longrightarrow> set (neighbors_of M m) \<subseteq> set visited"
    using assms(1) unfolding loop_inv_def by blast
  have "distinct ((members @ [x]) @ st @ new)" "old \<inter> set ((members @ [x]) @ st @ new) = {}"
    using inv(1,2,3) new(2,3) by auto
  moreover have "set visited \<union> set new = old \<union> set ((members @ [x]) @ st @ new)" using inv(3) by auto
  moreover have "\<forall>m \<in> set (members @ [x]). set (neighbors_of M m) \<subseteq> set visited \<union> set new"
    using nb new(4,5) by auto
  ultimately show ?thesis using new(1,4) unfolding st loop_inv_def by simp
qed

lemma component_loop_inv:
  "loop_inv M old visited stack members \<Longrightarrow>
     loop_inv M old (fst (component_loop M visited stack members)) [] (snd (component_loop M visited stack members)) \<and>
     set members \<union> set stack \<subseteq> set (snd (component_loop M visited stack members))"
proof (induction M visited stack members rule: component_loop.induct)
  case (1 M visited stack members)
  show ?case
  proof (cases "stack = []")
    case True
    with 1(2) show ?thesis by (simp add: component_loop.simps [of M visited "[]"])
  next
    case False
    then obtain st x where st: "stack = st @ [x]" by (cases stack rule: rev_cases) auto
    let ?r = "push_all (neighbors_of M (last stack)) visited (butlast stack)"
    have step: "component_loop M visited stack members = component_loop M (fst ?r) (snd ?r) (members @ [last stack])"
      using False by (simp add: component_loop.simps [of M visited stack] Let_def)
    have "set st \<subseteq> set (snd ?r)" using push_all_new [of "neighbors_of M x" visited st] st by auto
    with 1(1) [OF False refl refl loop_inv_step [OF 1(2) False]] show ?thesis unfolding step using st by auto
  qed
qed

lemma component_loop_within:
  "\<forall>m \<in> C. set (neighbors_of M m) \<subseteq> C \<Longrightarrow> set stack \<union> set members \<subseteq> C \<Longrightarrow> set (snd (component_loop M visited stack members)) \<subseteq> C"
proof (induction M visited stack members rule: component_loop.induct)
  case (1 M visited stack members)
  show ?case
  proof (cases "stack = []")
    case True
    with 1(3) show ?thesis by (simp add: component_loop.simps [of M visited "[]"])
  next
    case False
    then obtain st x where st: "stack = st @ [x]" by (cases stack rule: rev_cases) auto
    let ?r = "push_all (neighbors_of M (last stack)) visited (butlast stack)"
    have step: "component_loop M visited stack members = component_loop M (fst ?r) (snd ?r) (members @ [last stack])"
      using False by (simp add: component_loop.simps [of M visited stack] Let_def)
    have "x \<in> C" "set st \<subseteq> C" using 1(3) st by auto
    moreover obtain new where "snd (push_all (neighbors_of M x) visited st) = st @ new" "set new \<subseteq> set (neighbors_of M x)"
      using push_all_new [of "neighbors_of M x" visited st] by blast
    moreover have "set (neighbors_of M x) \<subseteq> C" using 1(2) \<open>x \<in> C\<close> by blast
    ultimately have "set (snd ?r) \<subseteq> C" unfolding st by auto
    then show ?thesis unfolding step using 1(1) [OF False refl refl 1(2)] 1(3) st by auto
  qed
qed

section \<open>The maps built from the rules\<close>

text \<open>The rule a swap feeds, and the rule a price-relative trigger waits for.\<close>

definition next_rule :: "(string, automation) dict \<Rightarrow> automation \<Rightarrow> automation option" where
  "next_rule B a = (case nth_opt (au_actions a) 0 of
     Some (Swap s) \<Rightarrow> if str_truthy (sw_linkedDownstream s) then dict_get B (the (sw_linkedDownstream s)) else None
   | _ \<Rightarrow> None)"

definition fill_rule :: "(string, automation) dict \<Rightarrow> automation \<Rightarrow> automation option" where
  "fill_rule B a = (case nth_opt (au_triggers a) 0 of
     Some (PriceRelativeToFill up dir bps) \<Rightarrow> dict_get B up | _ \<Rightarrow> None)"

definition add_next :: "automation \<Rightarrow> automation option \<Rightarrow> linkMaps \<Rightarrow> linkMaps" where
  "add_next a b M = (case b of None \<Rightarrow> M | Some to \<Rightarrow> join (au_id a) (au_id to)
     (M\<lparr>lm_next := dict_set (lm_next M) (au_id a) (au_id to), lm_prev := dict_set (lm_prev M) (au_id to) (au_id a)\<rparr>))"

definition add_fill :: "automation \<Rightarrow> automation option \<Rightarrow> linkMaps \<Rightarrow> linkMaps" where
  "add_fill a b M = (case b of None \<Rightarrow> M | Some up \<Rightarrow> if dict_has (lm_prev M) (au_id a) then M else join (au_id a) (au_id up) M)"

lemma link_item_eq: "link_item B a M = add_fill a (fill_rule B a) (add_next a (next_rule B a) M)"
proof -
  have 1: "(case nth_opt (au_actions a) 0 of Some (Swap s) \<Rightarrow> connect B a (sw_linkedDownstream s) M | _ \<Rightarrow> M)
      = add_next a (next_rule B a) M"
    by (simp add: add_next_def next_rule_def connect_def split: option.split action.split)
  show ?thesis unfolding link_item_def 1
    by (simp add: Let_def add_fill_def fill_rule_def split: option.split trigger.split)
qed

lemma neighbors_join: "neighbors_of (join i j M) k =
    (if k = j then set_add i (neighbors_of M j) else if k = i then set_add j (neighbors_of M i) else neighbors_of M k)"
  by (simp add: join_def Let_def neighbors_of_def dict_laws)

lemma neighbors_join_set: "set (neighbors_of (join i j M) k) =
    set (neighbors_of M k) \<union> (if k = i then {j} else {}) \<union> (if k = j then {i} else {})"
  by (auto simp add: neighbors_join set_add_def)

lemma join_other [simp]: "lm_next (join i j M) = lm_next M" "lm_prev (join i j M) = lm_prev M"
  by (simp_all add: join_def Let_def)

lemma next_link_item: "lm_next (link_item B a M) =
    (case next_rule B a of None \<Rightarrow> lm_next M | Some b \<Rightarrow> dict_set (lm_next M) (au_id a) (au_id b))"
  by (simp add: link_item_eq add_fill_def add_next_def split: option.split)

lemma prev_link_item: "lm_prev (link_item B a M) =
    (case next_rule B a of None \<Rightarrow> lm_prev M | Some b \<Rightarrow> dict_set (lm_prev M) (au_id b) (au_id a))"
  by (simp add: link_item_eq add_fill_def add_next_def split: option.split)

lemma neighbors_upd [simp]: "neighbors_of (M\<lparr>lm_next := x, lm_prev := y\<rparr>) k = neighbors_of M k"
  by (simp add: neighbors_of_def)

lemma neighbors_link_item_sub: "j \<in> set (neighbors_of (link_item B a M) i) \<Longrightarrow>
    j \<in> set (neighbors_of M i) \<or> (\<exists>b. (next_rule B a = Some b \<or> fill_rule B a = Some b) \<and>
      (i = au_id a \<and> j = au_id b \<or> i = au_id b \<and> j = au_id a))"
  by (auto simp add: link_item_eq add_fill_def add_next_def neighbors_join_set split: option.splits if_splits)

lemma neighbors_link_item_mono: "set (neighbors_of M i) \<subseteq> set (neighbors_of (link_item B a M) i)"
  by (auto simp add: link_item_eq add_fill_def add_next_def neighbors_join_set split: option.splits)

lemma neighbors_link_item_next: "next_rule B a = Some b \<Longrightarrow>
    au_id b \<in> set (neighbors_of (link_item B a M) (au_id a)) \<and> au_id a \<in> set (neighbors_of (link_item B a M) (au_id b))"
  by (auto simp add: link_item_eq add_fill_def add_next_def neighbors_join_set split: option.splits)

lemma fold_next_notin: "i \<notin> au_id ` set xs \<Longrightarrow> dict_get (lm_next (fold (link_item B) xs M)) i = dict_get (lm_next M) i"
  by (induction xs arbitrary: M) (auto simp add: next_link_item dict_laws split: option.splits)

lemma fold_next: "distinct (map au_id xs) \<Longrightarrow> a \<in> set xs \<Longrightarrow> dict_get (lm_next M) (au_id a) = None \<Longrightarrow>
    dict_get (lm_next (fold (link_item B) xs M)) (au_id a) = map_option au_id (next_rule B a)"
proof (induction xs arbitrary: M)
  case (Cons x xs)
  show ?case
  proof (cases "x = a")
    case True
    have "au_id a \<notin> au_id ` set xs" using Cons.prems(1) True by simp
    from fold_next_notin [OF this] True Cons.prems(3) show ?thesis
      by (simp add: next_link_item dict_laws split: option.split)
  next
    case False
    then have a: "a \<in> set xs" using Cons.prems(2) by simp
    then have "au_id a \<in> au_id ` set xs" by simp
    then have "au_id x \<noteq> au_id a" using Cons.prems(1) by auto
    then have "dict_get (lm_next (link_item B x M)) (au_id a) = None"
      using Cons.prems(3) by (simp add: next_link_item dict_laws split: option.split)
    then show ?thesis using Cons.IH [OF _ a] Cons.prems(1) by simp
  qed
qed simp

lemma fold_prev: "dict_has (lm_prev (fold (link_item B) xs M)) j \<longleftrightarrow>
    dict_has (lm_prev M) j \<or> (\<exists>a \<in> set xs. map_option au_id (next_rule B a) = Some j)"
  by (induction xs arbitrary: M) (auto simp add: prev_link_item dict_has_def dict_laws split: option.splits)

lemma fold_neighbors_sub: "j \<in> set (neighbors_of (fold (link_item B) xs M) i) \<Longrightarrow>
    j \<in> set (neighbors_of M i) \<or> (\<exists>a \<in> set xs. \<exists>b. (next_rule B a = Some b \<or> fill_rule B a = Some b) \<and>
      (i = au_id a \<and> j = au_id b \<or> i = au_id b \<and> j = au_id a))"
proof (induction xs arbitrary: M)
  case (Cons x xs)
  then show ?case using neighbors_link_item_sub [of j B x M i] by fastforce
qed simp

lemma fold_neighbors_mono: "set (neighbors_of M i) \<subseteq> set (neighbors_of (fold (link_item B) xs M) i)"
  by (induction xs arbitrary: M) (use neighbors_link_item_mono in \<open>force+\<close>)

lemma fold_neighbors_next: "a \<in> set xs \<Longrightarrow> next_rule B a = Some b \<Longrightarrow>
    au_id b \<in> set (neighbors_of (fold (link_item B) xs M) (au_id a)) \<and>
    au_id a \<in> set (neighbors_of (fold (link_item B) xs M) (au_id b))"
proof (induction xs arbitrary: M)
  case (Cons x xs)
  then show ?case
    using neighbors_link_item_next [of B x b M] fold_neighbors_mono [of "link_item B x M" _ B xs] by fastforce
qed simp

section \<open>Deployed chains\<close>

text \<open>The rules of a chain among the fetched ones: each swap feeds the next rule, the last one nothing (or the
  first, in a loop), no rule outside is fed by or waits for a rule inside or the reverse, and the nonces of
  a loop ascend. This is how sendChainCreate lays its rules out: one key and one consecutive nonce per rule.\<close>

definition successor :: "bool \<Rightarrow> automation list \<Rightarrow> nat \<Rightarrow> automation option" where
  "successor looped ps i = (if Suc i < length ps then Some (ps ! Suc i) else if looped then Some (ps ! 0) else None)"

definition same_side :: "automation list \<Rightarrow> automation \<Rightarrow> automation option \<Rightarrow> bool" where
  "same_side ps a b = (case b of None \<Rightarrow> True | Some c \<Rightarrow> (a \<in> set ps) = (c \<in> set ps))"

definition deployed_chain :: "automation list \<Rightarrow> automation list \<Rightarrow> bool \<Rightarrow> bool" where
  "deployed_chain items ps looped =
    (2 \<le> length ps \<and> list_all (\<lambda>a. a \<in> set items) ps \<and> distinct (map au_id items) \<and> distinct ps \<and>
     list_all (\<lambda>a. au_id a \<noteq> []) ps \<and>
     list_all (\<lambda>i. next_rule (by_pubkey items) (ps ! i) = successor looped ps i) [0..<length ps] \<and>
     list_all (\<lambda>a. same_side ps a (next_rule (by_pubkey items) a) \<and> same_side ps a (fill_rule (by_pubkey items) a)) items \<and>
     (looped \<longrightarrow> sorted_wrt (<) (map (\<lambda>a. nonce_of (by_id items) (au_id a)) ps)))"

definition rebuilt_link :: "automation list \<Rightarrow> bool \<Rightarrow> nat \<Rightarrow> chainLink" where
  "rebuilt_link ps looped i = \<lparr>
     cl_chainId = ''chain_'' @ (case au_pubkey (ps ! 0) of Some p \<Rightarrow> take 12 p | None \<Rightarrow> au_id (ps ! 0)),
     cl_position = i, cl_total = length ps, cl_next = map_option (\<lambda>a. RuleTarget (au_id a)) (successor looped ps i),
     cl_isHead = (i = 0), cl_fundingError = None\<rparr>"

lemma by_pubkey_value: "dict_get (by_pubkey items) k = Some b \<Longrightarrow> b \<in> set items"
proof -
  have "dict_get (fold (\<lambda>a d. if str_truthy (au_pubkey a) then dict_set d (the (au_pubkey a)) a else d) items d) k = Some b
      \<Longrightarrow> b \<in> set items \<or> dict_get d k = Some b" for d
    by (induction items arbitrary: d) (fastforce simp add: dict_laws split: if_splits)+
  from this [of "[]"] show "dict_get (by_pubkey items) k = Some b \<Longrightarrow> b \<in> set items" by (simp add: by_pubkey_def)
qed

lemma next_rule_in: "next_rule (by_pubkey items) a = Some b \<Longrightarrow> b \<in> set items"
  by (auto simp add: next_rule_def dest: by_pubkey_value split: option.splits action.splits if_splits)

lemma fill_rule_in: "fill_rule (by_pubkey items) a = Some b \<Longrightarrow> b \<in> set items"
  by (auto simp add: fill_rule_def dest: by_pubkey_value split: option.splits trigger.splits)

lemma id_in_iff: "distinct (map au_id items) \<Longrightarrow> set ps \<subseteq> set items \<Longrightarrow> a \<in> set items \<Longrightarrow>
    au_id a \<in> au_id ` set ps \<longleftrightarrow> a \<in> set ps"
  by (auto simp add: distinct_map inj_on_def)

lemma deployed_facts:
  assumes "deployed_chain items ps looped"
  shows "2 \<le> length ps" "set ps \<subseteq> set items" "distinct (map au_id items)" "distinct ps" "distinct (map au_id ps)"
    "\<And>a. a \<in> set ps \<Longrightarrow> au_id a \<noteq> []"
    "\<And>i. i < length ps \<Longrightarrow> next_rule (by_pubkey items) (ps ! i) = successor looped ps i"
    "looped \<Longrightarrow> sorted_wrt (<) (map (\<lambda>a. nonce_of (by_id items) (au_id a)) ps)"
    "\<And>a b. a \<in> set items \<Longrightarrow> next_rule (by_pubkey items) a = Some b \<or> fill_rule (by_pubkey items) a = Some b \<Longrightarrow>
       (a \<in> set ps) = (b \<in> set ps)"
proof -
  show "2 \<le> length ps" "distinct (map au_id items)" "distinct ps" using assms by (simp_all add: deployed_chain_def)
  show sub: "set ps \<subseteq> set items" using assms by (auto simp add: deployed_chain_def list_all_iff)
  show "distinct (map au_id ps)" using assms sub
    by (auto simp add: deployed_chain_def distinct_map intro: inj_on_subset)
  show "au_id a \<noteq> []" if "a \<in> set ps" for a using assms that by (auto simp add: deployed_chain_def list_all_iff)
  show "next_rule (by_pubkey items) (ps ! i) = successor looped ps i" if "i < length ps" for i
    using assms that by (simp add: deployed_chain_def list_all_iff)
  show "sorted_wrt (<) (map (\<lambda>a. nonce_of (by_id items) (au_id a)) ps)" if looped
    using assms that by (simp add: deployed_chain_def)
  show "(a \<in> set ps) = (b \<in> set ps)" if "a \<in> set items"
    "next_rule (by_pubkey items) a = Some b \<or> fill_rule (by_pubkey items) a = Some b" for a b
  proof -
    have "same_side ps a (next_rule (by_pubkey items) a)" "same_side ps a (fill_rule (by_pubkey items) a)"
      using assms that(1) by (auto simp add: deployed_chain_def list_all_iff)
    then show ?thesis using that(2) by (auto simp add: same_side_def)
  qed
qed

lemma chain_head: "deployed_chain items ps looped \<Longrightarrow> 0 < length ps \<and> ps ! 0 \<in> set ps"
  using deployed_facts(1) [of items ps looped] by (cases ps) auto

text \<open>Both the chain and the rest are closed under the neighbours, so a search stays on its side.\<close>

lemma chain_closed:
  assumes "deployed_chain items ps looped" "j \<in> set (neighbors_of (link_maps items) i)"
  shows "(i \<in> au_id ` set ps) = (j \<in> au_id ` set ps)"
proof -
  note F = deployed_facts [OF assms(1)]
  have "neighbors_of \<lparr>lm_next = [], lm_prev = [], lm_neighbors = []\<rparr> i = []" by (simp add: neighbors_of_def)
  with assms(2) fold_neighbors_sub [of j "by_pubkey items" items "\<lparr>lm_next = [], lm_prev = [], lm_neighbors = []\<rparr>" i]
  obtain a b where a: "a \<in> set items" and b: "next_rule (by_pubkey items) a = Some b \<or> fill_rule (by_pubkey items) a = Some b"
    and ij: "i = au_id a \<and> j = au_id b \<or> i = au_id b \<and> j = au_id a"
    unfolding link_maps_def by auto
  have "b \<in> set items" using b next_rule_in fill_rule_in by blast
  with ij F(9) [OF a b] id_in_iff [OF F(3,2) a] id_in_iff [OF F(3,2), of b] show ?thesis by metis
qed

lemma chain_neighbors:
  assumes "deployed_chain items ps looped" "Suc i < length ps"
  shows "au_id (ps ! Suc i) \<in> set (neighbors_of (link_maps items) (au_id (ps ! i)))"
    "au_id (ps ! i) \<in> set (neighbors_of (link_maps items) (au_id (ps ! Suc i)))"
proof -
  note F = deployed_facts [OF assms(1)]
  have "ps ! i \<in> set items" "next_rule (by_pubkey items) (ps ! i) = Some (ps ! Suc i)"
    using F(2,7) assms(2) by (auto simp add: successor_def)
  from fold_neighbors_next [OF this] show "au_id (ps ! Suc i) \<in> set (neighbors_of (link_maps items) (au_id (ps ! i)))"
    "au_id (ps ! i) \<in> set (neighbors_of (link_maps items) (au_id (ps ! Suc i)))" unfolding link_maps_def by auto
qed

lemma chain_connected:
  assumes "deployed_chain items ps looped" "i \<in> S" "i \<in> au_id ` set ps"
    and cl: "\<And>m. m \<in> S \<Longrightarrow> set (neighbors_of (link_maps items) m) \<subseteq> S"
  shows "au_id ` set ps \<subseteq> S"
proof -
  obtain k where k: "k < length ps" "i = au_id (ps ! k)" using assms(3) by (auto simp add: in_set_conv_nth)
  have up: "k \<le> j \<Longrightarrow> j < length ps \<Longrightarrow> au_id (ps ! j) \<in> S" for j
  proof (induction j)
    case (Suc j)
    then show ?case using assms(2) k cl chain_neighbors(1) [OF assms(1) Suc.prems(2)]
      by (cases "k = Suc j") auto
  qed (use assms(2) k in simp)
  have down: "d \<le> k \<Longrightarrow> au_id (ps ! (k - d)) \<in> S" for d
  proof (induction d)
    case (Suc d)
    then have "Suc (k - Suc d) = k - d" "Suc (k - Suc d) < length ps" using k by simp_all
    with Suc cl chain_neighbors(2) [OF assms(1), of "k - Suc d"] show ?case by auto
  qed (use assms(2) k in simp)
  have "au_id (ps ! j) \<in> S" if "j < length ps" for j
    using up [of j] down [of "k - j"] that by (cases "k \<le> j") auto
  then show ?thesis by (auto simp add: in_set_conv_nth)
qed

section \<open>The order of a component\<close>

lemma follow_chain:
  assumes D: "deployed_chain items ps looped" and ms: "set ms = au_id ` set ps"
  shows "k < length ps \<Longrightarrow>
    follow (link_maps items) ms (Some (au_id (ps ! k))) (map au_id (take k ps)) = map au_id ps"
proof (induction "length ps - k" arbitrary: k rule: less_induct)
  case less
  note F = deployed_facts [OF D]
  let ?a = "ps ! k"
  have a: "?a \<in> set ps" using less(2) by simp
  have "au_id ?a \<notin> set (map au_id (take k ps))"
    using F(5) less(2) by (auto simp add: distinct_conv_nth in_set_conv_nth)
  moreover have "au_id ?a \<noteq> []" "au_id ?a \<in> set ms" using F(6) [OF a] ms a by auto
  moreover have "dict_get (lm_next (link_maps items)) (au_id ?a) = map_option au_id (successor looped ps k)"
    using fold_next [OF F(3) subsetD [OF F(2) a], of "\<lparr>lm_next = [], lm_prev = [], lm_neighbors = []\<rparr>" "by_pubkey items"]
      F(7) [OF less(2)] by (simp add: link_maps_def)
  moreover have "map au_id (take k ps) @ [au_id ?a] = map au_id (take (Suc k) ps)"
    using less(2) by (simp add: take_Suc_conv_app_nth)
  ultimately have step: "follow (link_maps items) ms (Some (au_id ?a)) (map au_id (take k ps)) =
      follow (link_maps items) ms (map_option au_id (successor looped ps k)) (map au_id (take (Suc k) ps))" by simp
  show ?case
  proof (cases "Suc k < length ps")
    case True
    then show ?thesis using step less(1) [of "Suc k"] by (simp add: successor_def)
  next
    case False
    then have "take (Suc k) ps = ps" by simp
    moreover have "au_id (ps ! 0) \<in> au_id ` set ps" using chain_head [OF D] by simp
    ultimately show ?thesis using step False by (simp add: successor_def)
  qed
qed

lemma chain_prev:
  assumes "deployed_chain items ps looped" "i < length ps"
  shows "dict_has (lm_prev (link_maps items)) (au_id (ps ! i)) \<longleftrightarrow> 0 < i \<or> looped"
proof -
  note F = deployed_facts [OF assms(1)]
  have P: "dict_has (lm_prev (link_maps items)) j \<longleftrightarrow>
      (\<exists>a \<in> set items. map_option au_id (next_rule (by_pubkey items) a) = Some j)" for j
    using fold_prev by (simp add: link_maps_def dict_has_def)
  show ?thesis
  proof
    assume "0 < i \<or> looped"
    then obtain k where k: "k < length ps" "successor looped ps k = Some (ps ! i)"
    proof (cases i)
      case 0
      then show ?thesis using that [of "length ps - 1"] F(1) \<open>0 < i \<or> looped\<close> by (simp add: successor_def)
    next
      case (Suc j)
      then show ?thesis using that [of j] assms(2) by (simp add: successor_def)
    qed
    have "ps ! k \<in> set items" using F(2) k(1) by auto
    moreover have "map_option au_id (next_rule (by_pubkey items) (ps ! k)) = Some (au_id (ps ! i))" using k F(7) by simp
    ultimately show "dict_has (lm_prev (link_maps items)) (au_id (ps ! i))" unfolding P by blast
  next
    assume "dict_has (lm_prev (link_maps items)) (au_id (ps ! i))"
    then obtain a b where a: "a \<in> set items" "next_rule (by_pubkey items) a = Some b" "au_id b = au_id (ps ! i)"
      unfolding P by auto
    have "b \<in> set items" using next_rule_in a(2) .
    moreover have "ps ! i \<in> set items" using F(2) assms(2) by auto
    ultimately have b: "b = ps ! i" using a(3) F(3) by (auto simp add: distinct_map inj_on_def)
    have "b \<in> set ps" unfolding b using assms(2) by simp
    then have "a \<in> set ps" using F(9) [OF a(1)] a(2) by blast
    then obtain k where k: "k < length ps" "ps ! k = a" by (auto simp add: in_set_conv_nth)
    have "successor looped ps k = Some (ps ! i)" using F(7) [OF k(1)] k(2) a(2) b by simp
    then show "0 < i \<or> looped" using F(4) assms(2) by (auto simp add: successor_def nth_eq_iff_index_eq split: if_splits)
  qed
qed

lemma order_chain:
  assumes D: "deployed_chain items ps looped" and ms: "set ms = au_id ` set ps" "distinct ms"
  shows "order_component (link_maps items) (by_id items) ms = map au_id ps"
proof (cases looped)
  case False
  note F = deployed_facts [OF D]
  have h: "au_id (ps ! 0) \<in> set ms" using ms chain_head [OF D] by simp
  have "find (\<lambda>c. \<not> dict_has (lm_prev (link_maps items)) c) ms = Some (au_id (ps ! 0))"
  proof (rule find_unique [OF h])
    show "\<not> dict_has (lm_prev (link_maps items)) (au_id (ps ! 0))" using chain_prev [OF D, of 0] chain_head [OF D] False by simp
    fix y
    assume "y \<in> set ms" "\<not> dict_has (lm_prev (link_maps items)) y"
    then show "y = au_id (ps ! 0)" using chain_prev [OF D] ms(1) by (auto simp add: in_set_conv_nth)
  qed
  then show ?thesis using follow_chain [OF D ms(1), of 0] chain_head [OF D] ms(1)
    by (simp add: order_component_def Let_def filter_empty_conv del: follow.simps)
next
  case True
  note F = deployed_facts [OF D]
  have "find (\<lambda>c. \<not> dict_has (lm_prev (link_maps items)) c) ms = None"
    unfolding find_None_iff using chain_prev [OF D] ms(1) True by (auto simp add: in_set_conv_nth)
  moreover have "sort_ids (by_id items) ms = map au_id ps"
  proof -
    have "mset ms = mset (map au_id ps)" using ms F(5) by (intro iffD1 [OF set_eq_iff_mset_eq_distinct]) simp_all
    moreover have s: "sorted_wrt (<) (map (nonce_of (by_id items)) (map au_id ps))" using F(8) [OF True] by (simp add: comp_def)
    then have "inj_on (nonce_of (by_id items)) (set ms)"
      using ms(1) by (metis distinct_map list.set_map strict_sorted_iff)
    ultimately show ?thesis unfolding sort_ids_def using s
      by (intro sort_key_inj_key_eq) (simp_all add: strict_sorted_imp_sorted)
  qed
  moreover have "nth_opt (map au_id ps) 0 = Some (au_id (ps ! 0))" using F(1) by (cases ps) simp_all
  ultimately show ?thesis using follow_chain [OF D, of "map au_id ps" 0] chain_head [OF D]
    by (simp add: order_component_def Let_def filter_empty_conv del: follow.simps)
qed

lemma order_component_sub: "set (order_component M B ms) \<subseteq> set ms"
proof -
  have "set (follow M xs cur []) \<subseteq> set xs" for xs cur using follow_set [of "[]" xs M cur] by simp
  from this [of ms] this [of "sort_ids B ms"] have "set (follow M ms cur []) \<subseteq> set ms"
    "set (follow M (sort_ids B ms) cur []) \<subseteq> set ms" for cur by (simp_all add: sort_ids_def)
  moreover have "set (sort_ids B ms) = set ms" by (simp add: sort_ids_def)
  ultimately show ?thesis unfolding order_component_def Let_def
    by (auto simp del: follow.simps split: option.split)
qed

section \<open>Writing the links back\<close>

lemma patch_order_notin:
  assumes key: "\<And>i a. dict_get byId i = Some a \<Longrightarrow> au_id a = i"
  shows "i \<notin> set is \<Longrightarrow> dict_get (patch_order M byId c n pos is d) i = dict_get d i"
proof (induction "is" arbitrary: pos d)
  case (Cons x xs)
  then show ?case using key by (auto simp add: dict_laws split: option.split)
qed simp

lemma patch_order_nth:
  assumes key: "\<And>i a. dict_get byId i = Some a \<Longrightarrow> au_id a = i"
  shows "distinct is \<Longrightarrow> k < length is \<Longrightarrow> dict_get byId (is ! k) = Some a \<Longrightarrow>
    dict_get (patch_order M byId c n pos is d) (is ! k) = Some (a\<lparr>au_link := Some (link_of M c n (is ! k) (pos + k))\<rparr>)"
proof (induction "is" arbitrary: pos d k)
  case (Cons x xs)
  show ?case
  proof (cases k)
    case 0
    then have "x \<notin> set xs" "dict_get byId x = Some a" using Cons.prems by simp_all
    then show ?thesis using 0 key [of x a] patch_order_notin [OF key, where i = x and pos = "Suc pos" and M = M and c = c and n = n] by (simp add: dict_laws)
  next
    case (Suc j)
    then show ?thesis using Cons.IH [of j "Suc pos"] Cons.prems by simp
  qed
qed simp

text \<open>The rules of the chain, once rewritten.\<close>

definition rebuilt :: "automation list \<Rightarrow> bool \<Rightarrow> (string, automation) dict \<Rightarrow> bool" where
  "rebuilt ps looped d \<longleftrightarrow> (\<forall>i < length ps. dict_get d (au_id (ps ! i)) = Some ((ps ! i)\<lparr>au_link := Some (rebuilt_link ps looped i)\<rparr>))"

lemma rebuilt_order:
  assumes D: "deployed_chain items ps looped"
  shows "rebuilt ps looped (patch_order (link_maps items) (by_id items)
    (chain_id_of (by_id items) (map au_id ps)) (length ps) 0 (map au_id ps) d)"
  unfolding rebuilt_def
proof (intro allI impI)
  fix i
  assume i: "i < length ps"
  note F = deployed_facts [OF D]
  have key: "dict_get (by_id items) j = Some a \<Longrightarrow> au_id a = j" for j a using by_id_keyed by blast
  have get: "k < length ps \<Longrightarrow> dict_get (by_id items) (au_id (ps ! k)) = Some (ps ! k)" for k
    using by_id_distinct [OF F(3)] F(2) by (auto simp add: subset_iff)
  have "hd (map au_id ps) = au_id (ps ! 0)" using F(1) by (cases ps) simp_all
  moreover have "dict_get (by_id items) (au_id (ps ! 0)) = Some (ps ! 0)" using get [of 0] chain_head [OF D] by simp
  ultimately have c: "chain_id_of (by_id items) (map au_id ps) = cl_chainId (rebuilt_link ps looped i)"
    by (simp add: chain_id_of_def rebuilt_link_def split: option.split)
  have "dict_get (lm_next (link_maps items)) (au_id (ps ! i)) = map_option au_id (successor looped ps i)"
    using fold_next [OF F(3), of "ps ! i" "\<lparr>lm_next = [], lm_prev = [], lm_neighbors = []\<rparr>" "by_pubkey items"]
      F(2) F(7) [OF i] i by (simp add: link_maps_def subset_iff)
  moreover have "au_id (ps ! 0) \<noteq> []" "Suc i < length ps \<Longrightarrow> au_id (ps ! Suc i) \<noteq> []"
    using F(6) chain_head [OF D] by simp_all
  ultimately have l: "link_of (link_maps items) (cl_chainId (rebuilt_link ps looped i)) (length ps) (au_id (ps ! i)) i
      = rebuilt_link ps looped i"
    by (simp add: link_of_def rebuilt_link_def successor_def)
  show "dict_get (patch_order (link_maps items) (by_id items)
      (chain_id_of (by_id items) (map au_id ps)) (length ps) 0 (map au_id ps) d) (au_id (ps ! i))
      = Some ((ps ! i)\<lparr>au_link := Some (rebuilt_link ps looped i)\<rparr>)"
    using patch_order_nth [OF key F(5), where k = i and a = "ps ! i" and pos = 0] i get [OF i] l
    unfolding c by simp
qed

lemma rebuilt_components:
  assumes D: "deployed_chain items ps looped"
  shows "set visited \<inter> au_id ` set ps = {} \<and> (\<exists>i \<in> set ids. i \<in> au_id ` set ps) \<or>
      au_id ` set ps \<subseteq> set visited \<and> rebuilt ps looped d \<Longrightarrow>
    rebuilt ps looped (patch_components (link_maps items) (by_id items) ids visited d)"
proof (induction ids arbitrary: visited d)
  case (Cons i "is")
  note F = deployed_facts [OF D]
  let ?M = "link_maps items" and ?P = "au_id ` set ps"
  show ?case
  proof (cases "i \<in> set visited")
    case True
    then show ?thesis using Cons.IH [of visited d] Cons.prems by auto
  next
    case False
    let ?r = "component_loop ?M (i # visited) [i] []"
    have key: "dict_get (by_id items) j = Some a \<Longrightarrow> au_id a = j" for j a using by_id_keyed by blast
    have "loop_inv ?M (set visited) (i # visited) [i] []" using False by (auto simp add: loop_inv_def)
    from component_loop_inv [OF this]
    have r: "distinct (snd ?r)" "set visited \<inter> set (snd ?r) = {}" "set (fst ?r) = set visited \<union> set (snd ?r)"
      "\<And>m. m \<in> set (snd ?r) \<Longrightarrow> set (neighbors_of ?M m) \<subseteq> set visited \<union> set (snd ?r)" "i \<in> set (snd ?r)"
      unfolding loop_inv_def by auto
    have sidein: "set (snd ?r) \<subseteq> ?P" if "i \<in> ?P"
    proof (rule component_loop_within)
      show "\<forall>m \<in> ?P. set (neighbors_of ?M m) \<subseteq> ?P" using chain_closed [OF D] by blast
      show "set [i] \<union> set [] \<subseteq> ?P" using that by simp
    qed
    have sideout: "set (snd ?r) \<inter> ?P = {}" if "i \<notin> ?P"
    proof -
      have "set (snd ?r) \<subseteq> - ?P"
      proof (rule component_loop_within)
        show "\<forall>m \<in> - ?P. set (neighbors_of ?M m) \<subseteq> - ?P" using chain_closed [OF D] by blast
        show "set [i] \<union> set [] \<subseteq> - ?P" using that by simp
      qed
      then show ?thesis by blast
    qed
    have keep: "rebuilt ps looped (patch_order ?M (by_id items) c n 0 (order_component ?M (by_id items) (snd ?r)) d)"
      if d: "rebuilt ps looped d" and s: "set (snd ?r) \<inter> ?P = {}" for c n
      unfolding rebuilt_def
    proof (intro allI impI)
      fix k
      assume k: "k < length ps"
      then have "au_id (ps ! k) \<notin> set (order_component ?M (by_id items) (snd ?r))"
        using s order_component_sub [of ?M "by_id items" "snd ?r"] by auto
      from patch_order_notin [OF key this] d k show "dict_get (patch_order ?M (by_id items) c n 0
          (order_component ?M (by_id items) (snd ?r)) d) (au_id (ps ! k)) = Some ((ps ! k)\<lparr>au_link := Some (rebuilt_link ps looped k)\<rparr>)"
        by (simp add: rebuilt_def)
    qed
    show ?thesis
    proof (cases "set visited \<inter> ?P = {} \<and> i \<in> ?P")
      case True
      then have sub: "set (snd ?r) \<subseteq> ?P" using sidein by blast
      have "set (neighbors_of ?M m) \<subseteq> set (snd ?r)" if m: "m \<in> set (snd ?r)" for m
      proof
        fix j
        assume j: "j \<in> set (neighbors_of ?M m)"
        then have "j \<in> ?P" using chain_closed [OF D j] sub m by blast
        then show "j \<in> set (snd ?r)" using r(4) [OF m] j True by blast
      qed
      from chain_connected [OF D r(5) _ this] True sub have P: "set (snd ?r) = ?P" by blast
      have "length (snd ?r) = length ps" using P r(1) F(5) by (metis distinct_card length_map list.set_map)
      moreover have "?P \<subseteq> set (fst ?r)" using r(3) P by blast
      ultimately show ?thesis
        using Cons.IH [of "fst ?r", OF disjI2, OF conjI, OF _ rebuilt_order [OF D]] False F(1)
        by (simp add: Let_def order_chain [OF D P r(1)])
    next
      case out: False
      then have i: "i \<notin> ?P" using Cons.prems False by auto
      note s = sideout [OF i]
      have "set (fst ?r) \<inter> ?P = {} \<and> (\<exists>j \<in> set is. j \<in> ?P) \<or> ?P \<subseteq> set (fst ?r) \<and> rebuilt ps looped d"
        using Cons.prems s r(3) i by auto
      then have "set (fst ?r) \<inter> ?P = {} \<and> (\<exists>j \<in> set is. j \<in> ?P) \<or> ?P \<subseteq> set (fst ?r) \<and>
          rebuilt ps looped (if length (snd ?r) \<le> 1 then d else patch_order ?M (by_id items)
            (chain_id_of (by_id items) (order_component ?M (by_id items) (snd ?r)))
            (length (order_component ?M (by_id items) (snd ?r))) 0 (order_component ?M (by_id items) (snd ?r)) d)"
        using keep [OF _ s] by (simp only: split: if_split) blast
      from Cons.IH [OF this] False show ?thesis by (simp add: Let_def split: if_splits)
    qed
  qed
qed simp

lemma reconstruct_in: "distinct (map au_id items) \<Longrightarrow> a \<in> set items \<Longrightarrow>
    dict_get (patch_components (link_maps items) (by_id items) (sort_ids (by_id items) (map fst (by_id items))) [] (by_id items))
      (au_id a) = Some b \<Longrightarrow> b \<in> set (reconstructChainLinks items)"
  by (force simp add: reconstructChainLinks_def Let_def)

lemma reconstruct_chain:
  assumes D: "deployed_chain items ps looped" and i: "i < length ps"
  shows "(ps ! i)\<lparr>au_link := Some (rebuilt_link ps looped i)\<rparr> \<in> set (reconstructChainLinks items)"
proof -
  note F = deployed_facts [OF D]
  have "dict_get (by_id items) (au_id (ps ! 0)) = Some (ps ! 0)"
    using by_id_distinct [OF F(3)] F(2) chain_head [OF D] by blast
  then have "(au_id (ps ! 0), ps ! 0) \<in> set (by_id items)" by (simp add: dict_get_map_of map_of_SomeD)
  then have "au_id (ps ! 0) \<in> set (sort_ids (by_id items) (map fst (by_id items)))" by (force simp add: sort_ids_def)
  moreover have "au_id (ps ! 0) \<in> au_id ` set ps" using chain_head [OF D] by simp
  ultimately have "rebuilt ps looped (patch_components (link_maps items) (by_id items)
      (sort_ids (by_id items) (map fst (by_id items))) [] (by_id items))"
    by (intro rebuilt_components [OF D] disjI1) auto
  moreover have "ps ! i \<in> set items" using F(2) i by auto
  ultimately show ?thesis using reconstruct_in [OF F(3)] i unfolding rebuilt_def by blast
qed

section \<open>Properties\<close>

text \<open>C27: The chain's round trip. Take a swap the chain decodes, whose mints are valid keys that the token registry
  resolves to tokens of the same mint, of at most 15 decimals on the input side, and whose amount, unless it
  consumes the upstream output, is between 1 and 2 to the 49 base units. Publishing the decoded record again
  encodes the same mints, the same destination and the same downstream key (an empty one becomes none). The
  amount and the consume flag come back unchanged when the flag is set exactly for the deposit sentinel; if
  only one of the two is there, the other is added. The slippage bound and the link deposit do not survive:
  they are encoded as zero.\<close>

theorem swap_republish:
  assumes bn: "bn_documented S"
    and mint: "\<forall>m t. cr_resolve E m = Some (ResolvedOk t) \<longrightarrow> tr_mint t = m"
    and keys: "tryPubkey S (Some (os_inputMint spec)) = Some (os_inputMint spec)"
      "tryPubkey S (Some (os_outputMint spec)) = Some (os_outputMint spec)"
    and amount: "os_consumeUpstreamOutput spec \<or> os_amountIn spec = U64_MAX \<or> 1 \<le> os_amountIn spec \<and> os_amountIn spec \<le> 2 ^ 49"
    and decimals: "tr_decimals (resolveOnChainToken E (os_inputMint spec)) \<le> 15"
  shows "\<exists>s. actionFromOnChain E (OcSwap spec) = Some (Swap s) \<and>
    buildSwapAction S (os_destination spec) (Swap s) (sw_linkedDownstream s) = Inr (Some (spec\<lparr>
      os_amountIn := (if os_consumeUpstreamOutput spec then U64_MAX else os_amountIn spec),
      os_consumeUpstreamOutput := (os_consumeUpstreamOutput spec \<or> os_amountIn spec = U64_MAX),
      os_linkedDownstream := (if os_linkedDownstream spec = Some [] then None else os_linkedDownstream spec),
      os_minAmountOut := 0, os_linkFeeDeposit := 0\<rparr>)) \<and>
    (os_consumeUpstreamOutput spec = (os_amountIn spec = U64_MAX) \<and> os_linkedDownstream spec \<noteq> Some [] \<longrightarrow>
     buildSwapAction S (os_destination spec) (Swap s) (sw_linkedDownstream s) =
       Inr (Some (spec\<lparr>os_minAmountOut := 0, os_linkFeeDeposit := 0\<rparr>)))"
proof -
  have m: "tr_mint (resolveOnChainToken E k) = k" for k
    using mint by (auto simp add: resolveOnChainToken_def fallbackToken_def Let_def split: option.split resolveResult.split)
  have ne: "os_inputMint spec \<noteq> []" "os_outputMint spec \<noteq> []" using keys by (auto simp add: tryPubkey_def)
  let ?in = "resolveOnChainToken E (os_inputMint spec)" and ?out = "resolveOnChainToken E (os_outputMint spec)"
  let ?consume = "os_consumeUpstreamOutput spec \<or> os_amountIn spec = U64_MAX"
  let ?link = "if os_linkedDownstream spec = Some [] then None else os_linkedDownstream spec"
  let ?s = "\<lparr>sw_inputToken = ?in, sw_outputToken = ?out,
      sw_amount = (if ?consume then Num 0 else baseUnitsToUi (os_amountIn spec) (tr_decimals ?in)),
      sw_linkedDownstream = ?link, sw_consumeUpstreamOutput = Some ?consume\<rparr>"
  have dec: "actionFromOnChain E (OcSwap spec) = Some (Swap ?s)"
    using ne by (simp add: actionFromOnChain_def Let_def split: option.split)
  have enc: "new_bn S (js_round (js_mul (baseUnitsToUi (os_amountIn spec) d) (js_pow10 d))) = Inr (os_amountIn spec)"
    if a: "\<not> ?consume" and d: "d \<le> 15" for d
  proof -
    have n: "1 \<le> os_amountIn spec" "os_amountIn spec \<le> 2 ^ 49" using a amount by auto
    have p: "(1::int) \<le> 10 ^ d" "(10::int) ^ d \<le> 2 ^ 53"
      using power_increasing [OF d, of "10 :: int"] by simp_all
    have "js_pow10 d = Num (of_int (10 ^ d))" using fl_of_int [of "10 ^ d"] p by (simp add: js_pow10_def)
    moreover have "num_bn (os_amountIn spec) = Num (of_int (os_amountIn spec))"
      using fl_of_int [of "os_amountIn spec"] n by (simp add: num_bn_def)
    ultimately have "js_round (js_mul (baseUnitsToUi (os_amountIn spec) d) (js_pow10 d)) = Num (of_int (os_amountIn spec))"
      using scaled_roundtrip [OF n p] by (simp add: baseUnitsToUi_def Let_def)
    moreover have "\<bar>os_amountIn spec\<bar> < 2 ^ 53" using n by simp
    ultimately show ?thesis using bn unfolding bn_documented_def by simp
  qed
  let ?spec = "spec\<lparr>os_amountIn := (if os_consumeUpstreamOutput spec then U64_MAX else os_amountIn spec),
      os_consumeUpstreamOutput := ?consume, os_linkedDownstream := ?link, os_minAmountOut := 0, os_linkFeeDeposit := 0\<rparr>"
  have build: "buildSwapAction S (os_destination spec) (Swap ?s) (sw_linkedDownstream ?s) = Inr (Some ?spec)"
    using keys enc [OF _ decimals] by (auto simp add: buildSwapAction_def m Let_def)
  have same: "?spec = spec\<lparr>os_minAmountOut := 0, os_linkFeeDeposit := 0\<rparr>"
    if "os_consumeUpstreamOutput spec = (os_amountIn spec = U64_MAX) \<and> os_linkedDownstream spec \<noteq> Some []"
    using that by (intro swapSpec.equality) simp_all
  have "(os_consumeUpstreamOutput spec = (os_amountIn spec = U64_MAX) \<and> os_linkedDownstream spec \<noteq> Some []) \<longrightarrow>
     buildSwapAction S (os_destination spec) (Swap ?s) (sw_linkedDownstream ?s) =
       Inr (Some (spec\<lparr>os_minAmountOut := 0, os_linkFeeDeposit := 0\<rparr>))"
  proof
    assume h: "os_consumeUpstreamOutput spec = (os_amountIn spec = U64_MAX) \<and> os_linkedDownstream spec \<noteq> Some []"
    show "buildSwapAction S (os_destination spec) (Swap ?s) (sw_linkedDownstream ?s) =
       Inr (Some (spec\<lparr>os_minAmountOut := 0, os_linkFeeDeposit := 0\<rparr>))" by (rule build [unfolded same [OF h]])
  qed
  then show ?thesis using dec build by blast
qed

text \<open>A small instance of the reads, for evaluation: every address is a mint of six decimals and nothing else is
  known.\<close>

definition demo_reads :: chainReads where
  "demo_reads = \<lparr>cr_info = (\<lambda>k. Some (SPL_TOKEN_PROGRAM_ID, replicate 44 0 @ [6, 0])), cr_resolve = (\<lambda>_. None),
     cr_hermes = (\<lambda>_. None), cr_hex = Some, cr_nowIso = ''now'',
     cr_iso = (\<lambda>_. None), cr_dateMs = (\<lambda>s. int (length s))\<rparr>"

lemma demo_token: "tr_decimals (resolveOnChainToken demo_reads m) = 6"
  by (simp add: resolveOnChainToken_def demo_reads_def fallbackToken_def Let_def fetchMintBasics_def
      isKnownTokenProgram_def nth_append)

definition demo_swapSpec :: swapSpec where
  "demo_swapSpec = \<lparr>os_inputMint = ''MintA'', os_outputMint = ''MintB'', os_destination = ''Rule2'',
     os_amountIn = 1500000, os_minAmountOut = 7, os_linkedDownstream = Some ''Rule2'', os_linkFeeDeposit = 9,
     os_consumeUpstreamOutput = False\<rparr>"

theorem swap_republish_witness:
  "\<exists>s. actionFromOnChain demo_reads (OcSwap demo_swapSpec) = Some (Swap s) \<and>
    buildSwapAction demo_solana ''Rule2'' (Swap s) (sw_linkedDownstream s) =
      Inr (Some (demo_swapSpec\<lparr>os_minAmountOut := 0, os_linkFeeDeposit := 0\<rparr>))"
proof -
  have a: "os_consumeUpstreamOutput demo_swapSpec \<or> os_amountIn demo_swapSpec = U64_MAX \<or>
      1 \<le> os_amountIn demo_swapSpec \<and> os_amountIn demo_swapSpec \<le> 2 ^ 49" by (simp add: demo_swapSpec_def)
  have f: "os_consumeUpstreamOutput demo_swapSpec = (os_amountIn demo_swapSpec = U64_MAX)" "os_linkedDownstream demo_swapSpec \<noteq> Some []"
    "os_destination demo_swapSpec = ''Rule2''"
    by (simp_all add: demo_swapSpec_def U64_MAX_def)
  have k: "tryPubkey demo_solana (Some (os_inputMint demo_swapSpec)) = Some (os_inputMint demo_swapSpec)"
    "tryPubkey demo_solana (Some (os_outputMint demo_swapSpec)) = Some (os_outputMint demo_swapSpec)"
    by (simp_all add: demo_swapSpec_def tryPubkey_def demo_solana_def)
  have r: "\<forall>m t. cr_resolve demo_reads m = Some (ResolvedOk t) \<longrightarrow> tr_mint t = m" by (simp add: demo_reads_def)
  show ?thesis
    using swap_republish [OF demo_bn_documented r k a] f by (simp add: demo_token) blast
qed

definition republishable :: "solana \<Rightarrow> onChainTriggerSpec \<Rightarrow> bool" where
  "republishable S t = (case t of
       OcAccountActivity a m k \<Rightarrow> tryPubkey S (Some a) = Some a \<and> (k = 0 \<or> k = 1) \<and>
         (case m of None \<Rightarrow> True | Some x \<Rightarrow> tryPubkey S (Some x) = Some x)
     | OcAssetPrice p \<Rightarrow> False
     | OcTimeElapsed s \<Rightarrow> (case s of Num r \<Rightarrow> r = of_int \<lfloor>r\<rfloor> \<and> 1 \<le> \<lfloor>r\<rfloor> \<and> \<lfloor>r\<rfloor> mod 60 = 0 \<and> js_le s MAX_TIME_ELAPSED_SECS
                                        | _ \<Rightarrow> False)
     | OcPriceRelativeToFill up d bps \<Rightarrow> up \<noteq> [] \<and> (d = 0 \<or> d = 1) \<and> js_gt bps (Num 0))"

text \<open>The chain's round trip for triggers. For a watched account, a duration of whole minutes within the
  program's limit and a condition on an earlier fill, publishing the decoded trigger again encodes the trigger
  the chain had.\<close>

theorem trigger_republish:
  assumes mint: "\<forall>m t. cr_resolve E m = Some (ResolvedOk t) \<longrightarrow> tr_mint t = m" and r: "republishable S spec"
  shows "\<exists>t. triggerFromOnChain E spec = Some t \<and> buildTriggerSpec H S t = Inr (Some spec)"
proof (cases spec)
  case (OcAccountActivity a m k)
  have "tr_mint (resolveOnChainToken E x) = x" for x
    using mint by (auto simp add: resolveOnChainToken_def fallbackToken_def Let_def split: option.split resolveResult.split)
  then show ?thesis using r
    by (auto simp add: OcAccountActivity republishable_def triggerFromOnChain_def buildTriggerSpec_def tryPubkey_def
        split: option.splits if_splits)
next
  case (OcTimeElapsed s)
  then obtain q where s: "s = Num q" "q = of_int \<lfloor>q\<rfloor>" "1 \<le> \<lfloor>q\<rfloor>" "60 dvd \<lfloor>q\<rfloor>" "js_le s MAX_TIME_ELAPSED_SECS"
    using r by (auto simp add: republishable_def split: jsnum.splits)
  define n where "n = \<lfloor>q\<rfloor>"
  have n: "s = Num (of_int n)" "1 \<le> n" "60 dvd n" using s by (simp_all add: n_def)
  have "(of_int n :: rat) \<le> 31622400" using s(5) unfolding n(1) MAX_TIME_ELAPSED_SECS_def by simp
  then have "n \<le> 2 ^ 53" by (simp add: of_int_le_numeral_iff)
  from timeElapsedFromSecs_minutes [OF n(2) this n(3)] obtain v u where vu: "timeElapsedFromSecs (Num (of_int n)) = (v, u)"
    "timeElapsedToSecs v u = Num (of_int n)" by (cases "timeElapsedFromSecs (Num (of_int n))") simp
  have "js_gt (Num (of_int n)) (Num 0)" using n(2) by simp
  moreover have "\<not> js_gt (Num (of_int n)) MAX_TIME_ELAPSED_SECS" using s(5) n(1) by (simp add: MAX_TIME_ELAPSED_SECS_def)
  ultimately show ?thesis using vu
    by (simp add: OcTimeElapsed n(1) triggerFromOnChain_def buildTriggerSpec_def Let_def)
next
  case (OcPriceRelativeToFill up d bps)
  then show ?thesis using r by (auto simp add: republishable_def triggerFromOnChain_def buildTriggerSpec_def)
qed (use r in \<open>simp add: republishable_def\<close>)

theorem trigger_republish_witness:
  "\<exists>t. triggerFromOnChain demo_reads (OcTimeElapsed (Num 5400)) = Some t \<and>
    buildTriggerSpec (\<lambda>_. None) demo_solana t = Inr (Some (OcTimeElapsed (Num 5400)))"
proof -
  have "republishable demo_solana (OcTimeElapsed (Num 5400))" by (simp add: republishable_def MAX_TIME_ELAPSED_SECS_def)
  moreover have "\<forall>m t. cr_resolve demo_reads m = Some (ResolvedOk t) \<longrightarrow> tr_mint t = m" by (simp add: demo_reads_def)
  ultimately show ?thesis using trigger_republish by blast
qed

text \<open>What does not survive the chain. A wait of one and a half minutes is published as 90 seconds and read
  back as two minutes, which would publish 120; the size filter of a watched swap is dropped by the encoding
  and reads back as any amount.\<close>

theorem trigger_lossy:
  "buildTriggerSpec H S (TimeElapsed (Num (3/2)) Minutes) = Inr (Some (OcTimeElapsed (Num 90)))
   \<and> triggerFromOnChain E (OcTimeElapsed (Num 90)) = Some (TimeElapsed (Num 2) Minutes)
   \<and> buildTriggerSpec H S (TimeElapsed (Num 2) Minutes) = Inr (Some (OcTimeElapsed (Num 120)))
   \<and> (\<exists>spec. buildTriggerSpec H demo_solana (AccountSwap ''Whale'' AnyValue (Specific (Num 500)) AtMost) = Inr (Some spec)
        \<and> triggerFromOnChain E spec = Some (AccountSwap ''Whale'' AnyValue AnyValue AtLeast))"
proof -
  have f: "fl (3/2) = Num (3/2)" using is_double_eighth [of 12] pow53_lt_pow1024 by (intro fl_double) simp_all
  have "timeElapsedToSecs (Num (3/2)) Minutes = Num 90" "timeElapsedToSecs (Num 2) Minutes = Num 120"
    by (simp_all add: timeElapsedToSecs_def unit_secs_def js_eval)
  moreover have "timeElapsedFromSecs (Num 90) = (Num 2, Minutes)"
  proof -
    have z: "\<lfloor>1 / 40 :: rat\<rfloor> = 0" "\<lfloor>1 / 960 :: rat\<rfloor> = 0" by (simp_all add: floor_eq_iff)
    show ?thesis by (simp add: timeElapsedFromSecs_def js_rem_def js_eval f js_max_def z)
  qed
  ultimately show ?thesis
    by (simp add: buildTriggerSpec_def triggerFromOnChain_def Let_def MAX_TIME_ELAPSED_SECS_def tryPubkey_def demo_solana_def)
qed

text \<open>C20: A chain comes back from the chain as it was laid out. Whatever else the wallet owns, the rules of a
  deployed chain, open or looped and fetched in any order, get back one chain identifier, the length of the
  chain, their positions, their successors and the head flag; nothing else of them changes, and no record is
  lost, added or reordered.\<close>

theorem deployed_chain_rebuilt:
  assumes "deployed_chain items ps looped"
  shows "map au_id (reconstructChainLinks items) = map au_id items \<and>
    (\<forall>i < length ps. (ps ! i)\<lparr>au_link := Some (rebuilt_link ps looped i)\<rparr> \<in> set (reconstructChainLinks items))"
proof (intro conjI allI impI)
  note F = deployed_facts [OF assms]
  have "au_id a = au_id b" if "patched_from M a b" for M a b using that by (auto simp add: patched_from_def)
  with reconstruct_items [OF F(3)] show "map au_id (reconstructChainLinks items) = map au_id items"
    by (auto simp add: list_all2_conv_all_nth intro!: nth_equalityI)
qed (rule reconstruct_chain [OF assms])

text \<open>Two rules of a loop, fetched after an unrelated one and in the wrong order.\<close>

definition demo_record :: "string \<Rightarrow> string \<Rightarrow> string option \<Rightarrow> automation" where
  "demo_record key nonce downstream = \<lparr>au_id = ''onchain_'' @ key, au_schemaVersion = 3,
     au_triggers = [TimeElapsed (Num 5) Minutes], au_triggerOperators = [],
     au_actions = [Swap \<lparr>sw_inputToken = fallbackToken ''MintA'' None, sw_outputToken = fallbackToken ''MintB'' None,
       sw_amount = Num 1, sw_linkedDownstream = downstream, sw_consumeUpstreamOutput = Some False\<rparr>],
     au_actionOperators = [], au_cadence = Once, au_minIntervalSecs = Num 60, au_running = True, au_runs = Num 0,
     au_lastCheck = ''now'', au_createdAt = ''now'', au_pubkey = Some key, au_signature = None, au_nonce = Some nonce,
     au_executedAt = None, au_closedAt = None, au_link = None\<rparr>"

definition demo_items :: "automation list" where
  "demo_items = [demo_record ''Z'' ''1'' None, demo_record ''B'' ''8'' (Some ''A''), demo_record ''A'' ''7'' (Some ''B'')]"

lemma demo_items_deployed:
  "deployed_chain demo_items [demo_record ''A'' ''7'' (Some ''B''), demo_record ''B'' ''8'' (Some ''A'')] True"
  by code_simp

theorem deployed_chain_rebuilt_witness:
  "(demo_record ''B'' ''8'' (Some ''A''))\<lparr>au_link := Some \<lparr>cl_chainId = ''chain_A'', cl_position = 1, cl_total = 2,
     cl_next = Some (RuleTarget ''onchain_A''), cl_isHead = False, cl_fundingError = None\<rparr>\<rparr>
   \<in> set (reconstructChainLinks demo_items)"
proof -
  have "(demo_record ''B'' ''8'' (Some ''A''))\<lparr>au_link := Some (rebuilt_link
      [demo_record ''A'' ''7'' (Some ''B''), demo_record ''B'' ''8'' (Some ''A'')] True 1)\<rparr> \<in> set (reconstructChainLinks demo_items)"
    using deployed_chain_rebuilt [OF demo_items_deployed] by (elim conjE allE [of _ 1]) simp
  then show ?thesis by (simp add: rebuilt_link_def successor_def demo_record_def numeral_2_eq_2)
qed

text \<open>C28: Merging the two sources loses nothing and repeats nothing. When no key repeats on either side, every
  local record appears once, united with the chain's record of the same account if there is one, every chain
  record unknown locally appears once as it is, nothing else appears, and the list is ordered newest first. In
  a united record the chain decides whether the rule runs, its last check and its execution time, and clears a
  close; the identifier, the triggers, the actions and the cadence are those of the local record.\<close>

theorem merge_complete:
  assumes "distinct (map key_for local)" "distinct (map key_for remote)"
  shows "set (mergeOnChainAutomations E local remote) =
      united remote ` set local \<union> {r \<in> set remote. key_for r \<notin> key_for ` set local}
    \<and> distinct (map key_for (mergeOnChainAutomations E local remote))
    \<and> sorted (map (\<lambda>a. - cr_dateMs E (au_createdAt a)) (mergeOnChainAutomations E local remote))
    \<and> (\<forall>l \<in> set local. \<forall>r \<in> set remote. str_truthy (au_pubkey l) \<and> key_for r = key_for l \<longrightarrow>
         (\<exists>a \<in> set (mergeOnChainAutomations E local remote). key_for a = key_for l \<and>
            au_running a = au_running r \<and> au_lastCheck a = au_lastCheck r \<and> au_executedAt a = au_executedAt r \<and> au_closedAt a = None \<and>
            au_id a = au_id l \<and> au_triggers a = au_triggers l \<and> au_actions a = au_actions l \<and> au_cadence a = au_cadence l))"
proof -
  have one: "find (\<lambda>r. key_for r = key_for l) remote = Some r" if "r \<in> set remote" "key_for r = key_for l" for l r
    using that assms(2) by (induction remote) (auto, metis image_eqI)
  have u: "united remote l = merge_pair r l" if "str_truthy (au_pubkey l)" "r \<in> set remote" "key_for r = key_for l" for l r
    using that one by (simp add: united_def)
  have m: "mergeOnChainAutomations E local remote = newest_first E (map snd (merge_dict local remote))"
    by (simp add: mergeOnChainAutomations_def merge_dict_def)
  have "mset (mergeOnChainAutomations E local remote) = mset (map snd (merge_dict local remote))"
    unfolding m newest_first_def by (rule mset_sort)
  then have "distinct (map key_for (mergeOnChainAutomations E local remote))"
    using merge_dict_keys [OF assms] by (metis mset_eq_imp_distinct_iff mset_map)
  moreover have vals: "set (mergeOnChainAutomations E local remote) =
      united remote ` set local \<union> {r \<in> set remote. key_for r \<notin> key_for ` set local}"
    using merge_dict_values [OF assms] unfolding m newest_first_def by simp
  moreover have "sorted (map (\<lambda>a. - cr_dateMs E (au_createdAt a)) (mergeOnChainAutomations E local remote))"
    unfolding m newest_first_def by simp
  moreover have "\<exists>a \<in> set (mergeOnChainAutomations E local remote). key_for a = key_for l \<and>
      au_running a = au_running r \<and> au_lastCheck a = au_lastCheck r \<and> au_executedAt a = au_executedAt r \<and> au_closedAt a = None \<and>
      au_id a = au_id l \<and> au_triggers a = au_triggers l \<and> au_actions a = au_actions l \<and> au_cadence a = au_cadence l"
    if "l \<in> set local" "r \<in> set remote" "str_truthy (au_pubkey l) \<and> key_for r = key_for l" for l r
  proof -
    have "united remote l = merge_pair r l" by (rule u) (use that in auto)
    then have "merge_pair r l \<in> united remote ` set local" using that(1) by (metis imageI)
    then have "merge_pair r l \<in> set (mergeOnChainAutomations E local remote)" unfolding vals by (rule UnI1)
    moreover have "key_for (merge_pair r l) = key_for l" by (rule merge_pair_key)
    ultimately show ?thesis by (intro bexI [of _ "merge_pair r l"]) (simp_all add: merge_pair_def)
  qed
  ultimately show ?thesis by blast
qed

theorem merge_complete_witness:
  "set (mergeOnChainAutomations demo_reads [demo_record ''A'' ''7'' None] [(demo_record ''A'' ''7'' None)\<lparr>au_running := False\<rparr>, demo_record ''Z'' ''1'' None])
    = {(demo_record ''A'' ''7'' None)\<lparr>au_running := False\<rparr>, demo_record ''Z'' ''1'' None}"
proof -
  let ?l = "[demo_record ''A'' ''7'' None]" and ?r = "[(demo_record ''A'' ''7'' None)\<lparr>au_running := False\<rparr>, demo_record ''Z'' ''1'' None]"
  have k: "key_for (demo_record ''A'' ''7'' None) = ''A''" "key_for (demo_record ''Z'' ''1'' None) = ''Z''"
    "key_for ((demo_record ''A'' ''7'' None)\<lparr>au_running := False\<rparr>) = ''A''" by (simp_all add: key_for_def demo_record_def)
  have d: "distinct (map key_for ?l)" "distinct (map key_for ?r)" by (simp_all add: k)
  have u: "united ?r (demo_record ''A'' ''7'' None) = (demo_record ''A'' ''7'' None)\<lparr>au_running := False\<rparr>" by code_simp
  have "{r \<in> set ?r. key_for r \<notin> key_for ` set ?l} = {demo_record ''Z'' ''1'' None}" using k by auto
  with merge_complete [OF d, of demo_reads] u show ?thesis by simp
qed

end
