(* ===== verification/JsNumeric.thy ===== *)
theory JsNumeric
  imports JsNumber JsString "HOL-Library.Multiset"
begin

text \<open>
  What the market packages use of the JavaScript library beyond arithmetic: the stable sort of an
  array by a comparator, sums of arrays, reads of an array at a numeric index, and the texts of a
  number (Number.prototype.toString and toFixed). The comparator a - b orders the doubles; that is
  proved once, for values and for records sorted by a numeric field.
\<close>

section \<open>The doubles are closed under rounding\<close>

text \<open>
  The numbers an operation can deliver other than NaN: the doubles below the overflow threshold and
  the infinities.
\<close>

definition finite_double :: "rat \<Rightarrow> bool" where
  "finite_double q \<longleftrightarrow> is_double q \<and> \<bar>q\<bar> < 2 ^ 1024"

definition is_num :: "jsnum \<Rightarrow> bool" where
  "is_num x \<longleftrightarrow> (case x of Num q \<Rightarrow> finite_double q | NaN \<Rightarrow> False | _ \<Rightarrow> True)"

lemma is_num_simps [simp]:
  "is_num (Num q) \<longleftrightarrow> finite_double q" "\<not> is_num NaN" "is_num PInf" "is_num NInf"
  by (simp_all add: is_num_def)

lemma finite_double_fl: "finite_double q \<Longrightarrow> fl q = Num q"
  by (simp add: finite_double_def fl_double)

lemma finite_double_of_int: assumes "\<bar>n\<bar> \<le> 2 ^ 53" shows "finite_double (of_int n)"
proof -
  have "\<bar>of_int n :: rat\<bar> \<le> 2 ^ 53"
    using assms by (metis of_int_abs of_int_le_iff of_int_numeral of_int_power)
  then have "\<bar>of_int n :: rat\<bar> < 2 ^ 1024" using pow53_lt_pow1024 by (rule le_less_trans)
  then show ?thesis using is_double_of_int [OF assms] by (simp add: finite_double_def)
qed

lemma finite_double_nat: "n \<le> 2 ^ 53 \<Longrightarrow> finite_double (of_nat n)"
  using finite_double_of_int [of "int n"] by (simp add: nat_le_iff)

lemma finite_double_numerals [simp]:
  "finite_double 0" "finite_double 1"
  "(numeral k :: int) \<le> 2 ^ 53 \<Longrightarrow> finite_double (numeral k)"
  "(numeral k :: int) \<le> 2 ^ 53 \<Longrightarrow> finite_double (- numeral k)"
  using finite_double_of_int [of 0] finite_double_of_int [of 1]
    finite_double_of_int [of "numeral k"] finite_double_of_int [of "- numeral k"] by simp_all

lemma is_double_rnd: "is_double (rnd q)"
proof (cases "q = 0")
  case True
  then show ?thesis using is_double_of_int [of 0] by simp
next
  case False
  define e where "e = max (expo q) (- 1022) - 52"
  define n where "n = rne (q / ulp q)"
  have u: "ulp q = 2 powi e" by (simp add: ulp_def e_def)
  have r: "rnd q = of_int n * 2 powi e" using False by (simp add: rnd_def u n_def)
  have "\<bar>q\<bar> < 2 powi (expo q + 1)"
    using expo_bounds(2) [of q] expo_bounds(2) [of "- q"] False by (cases "0 < q") simp_all
  also have "\<dots> \<le> 2 powi (53 + e)" by (rule powi_two_mono) (simp add: e_def)
  also have "\<dots> = 2 ^ 53 * 2 powi e"
    using power_int_of_nat [of "2::rat" 53] by (simp add: power_int_add)
  finally have "\<bar>q / ulp q\<bar> < 2 ^ 53" by (simp add: u abs_divide divide_less_eq)
  then have "q / ulp q \<le> of_int (2 ^ 53)" "of_int (- (2 ^ 53)) \<le> q / ulp q"
    unfolding abs_less_iff by (simp_all only: of_int_minus of_int_power of_int_numeral) linarith+
  then have "rne (q / ulp q) \<le> rne (of_int (2 ^ 53))" "rne (of_int (- (2 ^ 53))) \<le> rne (q / ulp q)"
    using rne_mono by blast+
  then have "n \<le> 2 ^ 53" "- (2 ^ 53) \<le> n" unfolding n_def rne_of_int .
  then consider "\<bar>n\<bar> < 2 ^ 53" | "n = 2 ^ 53" | "n = - (2 ^ 53)" by linarith
  then show ?thesis
  proof cases
    case 1
    moreover have "- 1074 \<le> e" by (simp add: e_def)
    ultimately show ?thesis unfolding is_double_def using r by blast
  next
    case 2
    have "rnd q = of_int (2 ^ 52) * 2 powi (e + 1)" by (simp add: r 2 power_int_add)
    moreover have "\<bar>2 ^ 52 :: int\<bar> < 2 ^ 53" "- 1074 \<le> e + 1" by (simp_all add: e_def)
    ultimately show ?thesis unfolding is_double_def by blast
  next
    case 3
    have "rnd q = of_int (- (2 ^ 52)) * 2 powi (e + 1)" by (simp add: r 3 power_int_add)
    moreover have "\<bar>- (2 ^ 52) :: int\<bar> < 2 ^ 53" "- 1074 \<le> e + 1" by (simp_all add: e_def)
    ultimately show ?thesis unfolding is_double_def by blast
  qed
qed

lemma is_num_fl [simp]: "is_num (fl q)"
proof -
  obtain B :: rat where B: "2 ^ 1024 = B" by blast
  show ?thesis by (simp add: fl_def Let_def is_double_rnd finite_double_def B) linarith
qed

lemma is_num_ops [simp]:
  "js_add x y \<noteq> NaN \<Longrightarrow> is_num (js_add x y)"
  "js_mul x y \<noteq> NaN \<Longrightarrow> is_num (js_mul x y)"
  "js_div x y \<noteq> NaN \<Longrightarrow> is_num (js_div x y)"
  by (cases x; cases y; auto simp add: inf_of_sign_def split: if_splits)+

lemma is_num_neg [simp]: "is_num (js_neg x) \<longleftrightarrow> is_num x"
  by (cases x) (auto simp add: finite_double_def dest: is_double_minus)

text \<open>Subtraction of doubles has the sign of the exact difference: no positive difference underflows.\<close>

lemma double_grid: assumes "is_double q" obtains m where "q = of_int m * 2 powi (- 1074)"
proof -
  obtain m e where "q = of_int m * 2 powi e" and e: "- 1074 \<le> e" using assms by (auto simp add: is_double_def)
  with powi_is_multiple [OF e] have "q = of_int (m * 2 ^ nat (e - (- 1074))) * 2 powi (- 1074)" by simp
  then show ?thesis by (rule that)
qed

lemma fl_diff_pos:
  assumes "is_double p" "is_double q"
  shows "js_lt (Num 0) (fl (p - q)) \<longleftrightarrow> q < p"
proof
  assume pos: "q < p"
  obtain a where a: "p = of_int a * 2 powi (- 1074)" using double_grid [OF assms(1)] .
  obtain b where b: "q = of_int b * 2 powi (- 1074)" using double_grid [OF assms(2)] .
  define t :: rat where "t = 2 powi (- 1074)"
  have t: "0 < t" by (simp add: t_def)
  have d: "p - q = of_int (a - b) * t" by (simp add: a b t_def left_diff_distrib)
  then have "0 < a - b" using pos t by (metis diff_gt_0_iff_gt of_int_0_less_iff zero_less_mult_pos2)
  then have "1 * t \<le> of_int (a - b) * t" using t by (intro mult_right_mono) simp_all
  then have le: "t \<le> p - q" by (simp add: d)
  have dt: "is_double t" unfolding is_double_def t_def by (intro exI [of _ 1] exI [of _ "- 1074"]) simp
  have "t \<le> 1" unfolding t_def using powi_two_mono [of "- 1074" 0] by simp
  also have "(1::rat) < 2 ^ 1024" by (rule one_less_power) simp_all
  finally have "\<bar>t\<bar> < 2 ^ 1024" using t by simp
  then have "fl t = Num t" by (rule fl_double [OF dt])
  then have "js_le (Num t) (fl (p - q))" using fl_mono [OF le] by simp
  moreover have "js_lt (Num 0) (Num t)" using t by simp
  ultimately show "js_lt (Num 0) (fl (p - q))" using js_lt_le_trans by blast
next
  assume "js_lt (Num 0) (fl (p - q))"
  then show "q < p" using js_fl_le_0 [of "p - q"] js_lt_le_trans [of "Num 0" "fl (p - q)" "Num 0"]
    by (cases "p - q \<le> 0") auto
qed

section \<open>Sorting\<close>

text \<open>
  Array.prototype.sort is stable and treats a comparator result that is not positive for (y, x) as
  y stays before x. The definition inserts each element after the last element that does not
  compare greater; with a consistent comparator every stable sort gives this list.
\<close>

fun js_insert :: "('a \<Rightarrow> 'a \<Rightarrow> bool) \<Rightarrow> 'a \<Rightarrow> 'a list \<Rightarrow> 'a list" where
  "js_insert gt x [] = [x]"
| "js_insert gt x (y # ys) = (if gt y x then x # y # ys else y # js_insert gt x ys)"

definition js_sort :: "('a \<Rightarrow> 'a \<Rightarrow> bool) \<Rightarrow> 'a list \<Rightarrow> 'a list" where
  "js_sort gt xs = fold (js_insert gt) xs []"

text \<open>The comparator (a, b) => a - b.\<close>

definition num_gt :: "jsnum \<Rightarrow> jsnum \<Rightarrow> bool" where
  "num_gt x y \<longleftrightarrow> js_lt (Num 0) (js_sub x y)"

lemma mset_js_insert: "mset (js_insert gt x ys) = add_mset x (mset ys)"
  by (induction ys) auto

lemma mset_fold_insert: "mset (fold (js_insert gt) xs ys) = mset xs + mset ys"
  by (induction xs arbitrary: ys) (simp_all add: mset_js_insert)

lemma mset_js_sort [simp]: "mset (js_sort gt xs) = mset xs"
  by (simp add: js_sort_def mset_fold_insert)

lemma set_js_sort [simp]: "set (js_sort gt xs) = set xs"
  by (metis mset_js_sort set_mset_mset)

lemma length_js_sort [simp]: "length (js_sort gt xs) = length xs"
  by (metis mset_js_sort size_mset)

lemma js_insert_last: "\<forall>y \<in> set ys. \<not> gt y x \<Longrightarrow> js_insert gt x ys = ys @ [x]"
  by (induction ys) auto

lemma fold_js_insert_sorted:
  "sorted_wrt (\<lambda>a b. \<not> gt a b) (ys @ xs) \<Longrightarrow> fold (js_insert gt) xs ys = ys @ xs"
  by (induction xs arbitrary: ys) (auto simp add: js_insert_last sorted_wrt_append)

lemma js_sort_sorted_id: "sorted_wrt (\<lambda>a b. \<not> gt a b) xs \<Longrightarrow> js_sort gt xs = xs"
  using fold_js_insert_sorted [of gt "[]" xs] by (simp add: js_sort_def)

text \<open>What a comparator has to promise on the elements it is used for.\<close>

locale comparator =
  fixes gt :: "'a \<Rightarrow> 'a \<Rightarrow> bool" and ok :: "'a \<Rightarrow> bool"
  assumes gt_asym: "ok x \<Longrightarrow> ok y \<Longrightarrow> gt x y \<Longrightarrow> \<not> gt y x"
    and gt_neg_trans: "ok x \<Longrightarrow> ok y \<Longrightarrow> ok z \<Longrightarrow> \<not> gt x y \<Longrightarrow> \<not> gt y z \<Longrightarrow> \<not> gt x z"
begin

lemma insert_sorted:
  "ok x \<Longrightarrow> \<forall>y \<in> set ys. ok y \<Longrightarrow> sorted_wrt (\<lambda>a b. \<not> gt a b) ys \<Longrightarrow>
   sorted_wrt (\<lambda>a b. \<not> gt a b) (js_insert gt x ys)"
proof (induction ys)
  case (Cons y ys)
  have set_ins: "set (js_insert gt x ys) = insert x (set ys)"
    using mset_js_insert [of gt x ys] by (metis set_mset_add_mset_insert set_mset_mset)
  show ?case
  proof (cases "gt y x")
    case True
    then have xy: "\<not> gt x y" using Cons.prems gt_asym by auto
    have "\<not> gt x z" if "z \<in> set ys" for z
      using gt_neg_trans [of x y z] xy Cons.prems that by simp
    then show ?thesis using True xy Cons.prems by simp
  next
    case False
    then show ?thesis using Cons set_ins by auto
  qed
qed simp

lemma sort_sorted: "\<forall>x \<in> set xs. ok x \<Longrightarrow> sorted_wrt (\<lambda>a b. \<not> gt a b) (js_sort gt xs)"
proof -
  have "sorted_wrt (\<lambda>a b. \<not> gt a b) (fold (js_insert gt) xs ys)"
    if "\<forall>x \<in> set xs. ok x" "\<forall>y \<in> set ys. ok y" "sorted_wrt (\<lambda>a b. \<not> gt a b) ys" for ys
    using that
  proof (induction xs arbitrary: ys)
    case (Cons x xs)
    have "set (js_insert gt x ys) = insert x (set ys)"
      using mset_js_insert [of gt x ys] by (metis set_mset_add_mset_insert set_mset_mset)
    then show ?case using Cons insert_sorted by simp
  qed simp
  then show "\<forall>x \<in> set xs. ok x \<Longrightarrow> ?thesis" by (simp add: js_sort_def)
qed

lemma sort_idem: "\<forall>x \<in> set xs. ok x \<Longrightarrow> js_sort gt (js_sort gt xs) = js_sort gt xs"
  using sort_sorted js_sort_sorted_id by blast

end

lemma num_gt_iff: "is_num x \<Longrightarrow> is_num y \<Longrightarrow> num_gt x y \<longleftrightarrow> js_lt y x"
  using fl_diff_pos by (cases x; cases y) (simp_all add: num_gt_def js_sub_def finite_double_def)

interpretation by_value: comparator num_gt is_num
proof unfold_locales
  fix x y assume "is_num x" "is_num y" "num_gt x y"
  then show "\<not> num_gt y x" by (cases x; cases y) (auto simp add: num_gt_iff)
next
  fix x y z assume "is_num x" "is_num y" "is_num z" "\<not> num_gt x y" "\<not> num_gt y z"
  then show "\<not> num_gt x z" by (cases x; cases y; cases z) (auto simp add: num_gt_iff)
qed

text \<open>Sorting records by a numeric field.\<close>

definition gt_on :: "('a \<Rightarrow> jsnum) \<Rightarrow> 'a \<Rightarrow> 'a \<Rightarrow> bool" where
  "gt_on f x y \<longleftrightarrow> num_gt (f x) (f y)"

interpretation by_field: comparator "gt_on f" "\<lambda>x. is_num (f x)" for f :: "'a \<Rightarrow> jsnum"
proof unfold_locales
  fix x y :: 'a assume "is_num (f x)" "is_num (f y)" "gt_on f x y"
  then show "\<not> gt_on f y x" unfolding gt_on_def by (rule by_value.gt_asym)
next
  fix x y z :: 'a assume "is_num (f x)" "is_num (f y)" "is_num (f z)" "\<not> gt_on f x y" "\<not> gt_on f y z"
  then show "\<not> gt_on f x z" unfolding gt_on_def by (rule by_value.gt_neg_trans)
qed

lemma gt_on_iff: "is_num (f x) \<Longrightarrow> is_num (f y) \<Longrightarrow> gt_on f x y \<longleftrightarrow> js_lt (f y) (f x)"
  by (simp add: gt_on_def num_gt_iff)

text \<open>A sorted list reads in order.\<close>

lemma num_sorted_le:
  assumes "\<forall>x \<in> set xs. ok x" "\<forall>x. ok x \<longrightarrow> is_num (f x)"
    "sorted_wrt (\<lambda>a b. \<not> gt_on f a b) xs" "i \<le> j" "j < length xs"
  shows "js_le (f (xs ! i)) (f (xs ! j))"
proof (cases "i = j")
  case True
  have "is_num (f (xs ! j))" using assms by simp
  then show ?thesis using True by (cases "f (xs ! j)") (auto simp add: js_le_refl)
next
  case False
  then have "\<not> gt_on f (xs ! i) (xs ! j)" using assms by (simp add: sorted_wrt_iff_nth_less)
  moreover have n: "is_num (f (xs ! i))" "is_num (f (xs ! j))" using assms by simp_all
  ultimately have "\<not> js_lt (f (xs ! j)) (f (xs ! i))" by (simp add: gt_on_iff)
  then show ?thesis using n js_not_lt [of "f (xs ! j)" "f (xs ! i)"]
    by (cases "f (xs ! i)"; cases "f (xs ! j)") auto
qed

section \<open>Reading and summing arrays\<close>

text \<open>An index that is not a whole number in range reads undefined, which arithmetic turns into NaN.\<close>

definition at_index :: "jsnum list \<Rightarrow> jsnum \<Rightarrow> jsnum" where
  "at_index xs i = (case i of
     Num q \<Rightarrow> if 0 \<le> q \<and> of_int \<lfloor>q\<rfloor> = q then (case nth_opt xs (nat \<lfloor>q\<rfloor>) of Some x \<Rightarrow> x | None \<Rightarrow> NaN) else NaN
   | _ \<Rightarrow> NaN)"

definition js_len :: "'a list \<Rightarrow> jsnum" where
  "js_len xs = Num (of_nat (length xs))"

definition js_count :: "nat \<Rightarrow> jsnum" where
  "js_count n = Num (of_nat n)"

text \<open>let s = 0; for (const v of values) s += v;\<close>

definition js_sum :: "jsnum list \<Rightarrow> jsnum" where
  "js_sum xs = foldl js_add (Num 0) xs"

section \<open>Texts of numbers\<close>

definition pad_left :: "nat \<Rightarrow> string \<Rightarrow> string" where
  "pad_left k s = replicate (k - length s) (CHR ''0'') @ s"

text \<open>The decimal exponent n with 10 powi (n - 1) <= q < 10 powi n, for q > 0.\<close>

definition dec_exponent :: "rat \<Rightarrow> int" where
  "dec_exponent q = (if 1 \<le> q then int (length (show_nat (nat \<lfloor>q\<rfloor>)))
     else 1 - (if \<lceil>1 / q\<rceil> \<le> 1 then 0 else int (length (show_nat (nat (\<lceil>1 / q\<rceil> - 1))))))"

text \<open>The shortest digits that round to the number: at most 17 are needed.\<close>

fun shortest_digits :: "nat \<Rightarrow> nat \<Rightarrow> rat \<Rightarrow> int \<Rightarrow> string \<times> int" where
  "shortest_digits fuel k q n =
     (let s = rne (q / 10 powi (n - int k)) in
      if fuel = 0 \<or> fl (of_int s * 10 powi (n - int k)) = Num q
      then (if s = 10 ^ k then (''1'', n + 1) else (show_int s, n))
      else shortest_digits (fuel - 1) (Suc k) q n)"

declare shortest_digits.simps [simp del]

definition zeros :: "nat \<Rightarrow> string" where
  "zeros k = replicate k (CHR ''0'')"

definition layout_digits :: "string \<Rightarrow> int \<Rightarrow> string" where
  "layout_digits ds n = (let k = int (length ds) in
     if k \<le> n \<and> n \<le> 21 then ds @ zeros (nat (n - k))
     else if 0 < n \<and> n \<le> 21 then take (nat n) ds @ ''.'' @ drop (nat n) ds
     else if - 6 < n \<and> n \<le> 0 then ''0.'' @ zeros (nat (- n)) @ ds
     else (if k = 1 then ds else take 1 ds @ ''.'' @ drop 1 ds)
       @ ''e'' @ (if 0 < n then ''+'' else ''-'') @ show_nat (nat \<bar>n - 1\<bar>))"

definition show_pos :: "rat \<Rightarrow> string" where
  "show_pos q = (case shortest_digits 16 1 q (dec_exponent q) of (ds, n) \<Rightarrow> layout_digits ds n)"

fun show_num :: "jsnum \<Rightarrow> string" where
  "show_num NaN = ''NaN''"
| "show_num PInf = ''Infinity''"
| "show_num NInf = ''-Infinity''"
| "show_num (Num q) = (if q = 0 then ''0'' else if q < 0 then ''-'' @ show_pos (- q) else show_pos q)"

text \<open>toFixed(f): the closest multiple of 10 powi (- f), the larger one for a tie.\<close>

definition fixed_pos :: "nat \<Rightarrow> rat \<Rightarrow> string" where
  "fixed_pos f q = (let n = nat \<lfloor>q * 10 ^ f + 1/2\<rfloor> in
     if f = 0 then show_nat n else show_nat (n div 10 ^ f) @ ''.'' @ pad_left f (show_nat (n mod 10 ^ f)))"

definition to_fixed :: "nat \<Rightarrow> jsnum \<Rightarrow> string" where
  "to_fixed f x = (case x of
     Num q \<Rightarrow> if 10 ^ 21 \<le> \<bar>q\<bar> then show_num x
             else if q < 0 then ''-'' @ fixed_pos f (- q) else fixed_pos f q
   | _ \<Rightarrow> show_num x)"

end
