(* ===== verification/MarketBase.thy ===== *)
theory MarketBase
  imports JsNumeric Types
begin

text \<open>
  The vocabulary of packages/market-core: time regimes, pair configurations, amounts in atomic
  units, effective prices, edges and costs in basis points, the cost waterfall, the
  onchain/underlying orientation of the dashboard, pair classes, quantiles and the rolling window,
  and the profitability summary. Numbers are doubles, atomic amounts are bigints.
\<close>

section \<open>Time regimes and pair configurations (time-regime.ts, pair-config.ts)\<close>

datatype timeRegime = US_EQUITY_REGULAR | US_EQUITY_PREMARKET | US_EQUITY_POSTMARKET
  | US_EQUITY_OVERNIGHT | US_EQUITY_WEEKEND | METAL_ACTIVE | METAL_MAINTENANCE | METAL_WEEKEND
  | CRYPTO_NORMAL | CRYPTO_HIGH_VOL

definition TIME_REGIMES :: "timeRegime list" where
  "TIME_REGIMES = [US_EQUITY_REGULAR, US_EQUITY_PREMARKET, US_EQUITY_POSTMARKET, US_EQUITY_OVERNIGHT,
     US_EQUITY_WEEKEND, METAL_ACTIVE, METAL_MAINTENANCE, METAL_WEEKEND, CRYPTO_NORMAL, CRYPTO_HIGH_VOL]"

fun regime_name :: "timeRegime \<Rightarrow> string" where
  "regime_name US_EQUITY_REGULAR = ''US_EQUITY_REGULAR''"
| "regime_name US_EQUITY_PREMARKET = ''US_EQUITY_PREMARKET''"
| "regime_name US_EQUITY_POSTMARKET = ''US_EQUITY_POSTMARKET''"
| "regime_name US_EQUITY_OVERNIGHT = ''US_EQUITY_OVERNIGHT''"
| "regime_name US_EQUITY_WEEKEND = ''US_EQUITY_WEEKEND''"
| "regime_name METAL_ACTIVE = ''METAL_ACTIVE''"
| "regime_name METAL_MAINTENANCE = ''METAL_MAINTENANCE''"
| "regime_name METAL_WEEKEND = ''METAL_WEEKEND''"
| "regime_name CRYPTO_NORMAL = ''CRYPTO_NORMAL''"
| "regime_name CRYPTO_HIGH_VOL = ''CRYPTO_HIGH_VOL''"

lemma TIME_REGIMES_all: "set TIME_REGIMES = UNIV" "distinct TIME_REGIMES"
  by (auto simp add: TIME_REGIMES_def) (metis timeRegime.exhaust)

datatype pairDirection = BuyTokenized | SellTokenized

fun direction_name :: "pairDirection \<Rightarrow> string" where
  "direction_name BuyTokenized = ''buy_tokenized''"
| "direction_name SellTokenized = ''sell_tokenized''"

definition ACTIVE_QUOTE_SIZES_USD :: "jsnum list" where
  "ACTIVE_QUOTE_SIZES_USD = [Num 250, Num 1000]"

record qualityGate =
  qg_maxPythFreshnessLagMs :: "jsnum option"
  qg_maxQuoteLatencyMs :: "jsnum option"
  qg_maxBasisAgeMs :: "jsnum option"
  qg_maxPriceImpactBps :: "jsnum option"
  qg_maxPythConfidenceBps :: "jsnum option"
  qg_allowedRouters :: "string list option"
  qg_allowedMarketSessions :: "timeRegime list option"

record pairConfig =
  pc_id :: string
  pc_enabled :: bool
  pc_label :: string
  pc_pythSymbol :: string
  pc_pythLazerId :: jsnum
  pc_exponent :: jsnum
  pc_assetClass :: assetClass
  pc_baseMaxLagMs :: "jsnum option"
  pc_tokMint :: string
  pc_tokSymbol :: string
  pc_tokDecimals :: jsnum
  pc_quoteMint :: string
  pc_quoteSymbol :: string
  pc_quoteDecimals :: jsnum
  pc_sizesUsd :: "jsnum list"
  pc_directions :: "pairDirection list"
  pc_quoteIntervalMs :: jsnum
  pc_minPriceMoveBps :: jsnum
  pc_slippageBps :: jsnum
  pc_minNetEdgeBps :: jsnum
  pc_qualityGate :: "qualityGate option"

text \<open>The refinements of PairConfigSchema: what a parsed configuration satisfies.\<close>

definition nonneg_int :: "jsnum \<Rightarrow> bool" where
  "nonneg_int x \<longleftrightarrow> is_integer x \<and> js_ge x (Num 0)"

definition nonneg_num :: "jsnum \<Rightarrow> bool" where
  "nonneg_num x \<longleftrightarrow> js_ge x (Num 0)"

definition opt_ok :: "('a \<Rightarrow> bool) \<Rightarrow> 'a option \<Rightarrow> bool" where
  "opt_ok p v \<longleftrightarrow> (case v of None \<Rightarrow> True | Some x \<Rightarrow> p x)"

definition QualityGateSchema :: "qualityGate option \<Rightarrow> bool" where
  "QualityGateSchema = opt_ok (\<lambda>g.
     opt_ok nonneg_int (qg_maxPythFreshnessLagMs g) \<and> opt_ok nonneg_int (qg_maxQuoteLatencyMs g) \<and>
     opt_ok nonneg_int (qg_maxBasisAgeMs g) \<and> opt_ok nonneg_num (qg_maxPriceImpactBps g) \<and>
     opt_ok nonneg_num (qg_maxPythConfidenceBps g) \<and>
     opt_ok (list_all (\<lambda>r. r \<noteq> [])) (qg_allowedRouters g))"

definition PairConfigSchema :: "pairConfig \<Rightarrow> bool" where
  "PairConfigSchema p \<longleftrightarrow>
     pc_id p \<noteq> [] \<and> pc_label p \<noteq> [] \<and> pc_pythSymbol p \<noteq> [] \<and> nonneg_int (pc_pythLazerId p) \<and>
     is_integer (pc_exponent p) \<and> opt_ok nonneg_int (pc_baseMaxLagMs p) \<and>
     32 \<le> length (pc_tokMint p) \<and> length (pc_tokMint p) \<le> 64 \<and> pc_tokSymbol p \<noteq> [] \<and>
     nonneg_int (pc_tokDecimals p) \<and> js_le (pc_tokDecimals p) (Num 18) \<and>
     32 \<le> length (pc_quoteMint p) \<and> length (pc_quoteMint p) \<le> 64 \<and> pc_quoteSymbol p = ''USDC'' \<and>
     pc_quoteDecimals p = Num 6 \<and>
     list_all (\<lambda>s. s = Num 250 \<or> s = Num 1000) (pc_sizesUsd p) \<and> pc_sizesUsd p \<noteq> [] \<and>
     length (pc_sizesUsd p) \<le> length ACTIVE_QUOTE_SIZES_USD \<and> pc_directions p \<noteq> [] \<and>
     is_integer (pc_quoteIntervalMs p) \<and> js_ge (pc_quoteIntervalMs p) (Num 500) \<and>
     nonneg_num (pc_minPriceMoveBps p) \<and> nonneg_num (pc_slippageBps p) \<and> nonneg_num (pc_minNetEdgeBps p) \<and>
     QualityGateSchema (pc_qualityGate p)"

definition normalizeActiveQuoteSizes :: "jsnum list \<Rightarrow> jsnum list" where
  "normalizeActiveQuoteSizes sizes = filter (\<lambda>s. s \<in> set sizes) ACTIVE_QUOTE_SIZES_USD"

section \<open>Amounts (amount.ts)\<close>

definition bankersRound :: "jsnum \<Rightarrow> jsnum" where
  "bankersRound x = (let f = js_floor x; d = js_sub x f in
     if js_lt d (fl (1/2)) then f
     else if js_gt d (fl (1/2)) then js_add f (Num 1)
     else (case f of Num n \<Rightarrow> if even \<lfloor>n\<rfloor> then f else js_add f (Num 1) | _ \<Rightarrow> js_add f (Num 1)))"

definition uiToAtomic :: "jsnum \<Rightarrow> nat \<Rightarrow> (js_error, int) result" where
  "uiToAtomic ui decimals = (if \<not> is_finite ui \<or> js_lt ui (Num 0) then Inl (ErrorMsg ''bad amount'')
     else to_bigint (bankersRound (js_mul ui (js_pow10 decimals))))"

definition atomicToUi :: "int \<Rightarrow> nat \<Rightarrow> jsnum" where
  "atomicToUi atomic decimals = js_div (fl (of_int atomic)) (js_pow10 decimals)"

definition usdToInputAtomic :: "jsnum \<Rightarrow> jsnum \<Rightarrow> nat \<Rightarrow> (js_error, int) result" where
  "usdToInputAtomic usd priceUsd decimals =
     (if js_le priceUsd (Num 0) then Inl (ErrorMsg ''priceUsd must be > 0'')
      else uiToAtomic (js_div usd priceUsd) decimals)"

section \<open>Effective prices and edges (effective-price.ts, edge.ts)\<close>

definition effectiveBuyPriceUsd :: "jsnum \<Rightarrow> int \<Rightarrow> nat \<Rightarrow> (js_error, jsnum) result" where
  "effectiveBuyPriceUsd inUsd outAtomic outDecimals =
     (let outUi = atomicToUi outAtomic outDecimals in
      if js_le outUi (Num 0) then Inl (ErrorMsg ''zero out'') else Inr (js_div inUsd outUi))"

definition effectiveSellPriceUsd :: "int \<Rightarrow> nat \<Rightarrow> int \<Rightarrow> nat \<Rightarrow> (js_error, jsnum) result" where
  "effectiveSellPriceUsd inAtomic inDecimals outUsdAtomic outUsdDecimals =
     (let inUi = atomicToUi inAtomic inDecimals; outUsd = atomicToUi outUsdAtomic outUsdDecimals in
      if js_le inUi (Num 0) then Inl (ErrorMsg ''zero in'') else Inr (js_div outUsd inUi))"

text \<open>(ratio - 1) * 10000\<close>

definition ratio_bps :: "jsnum \<Rightarrow> jsnum" where
  "ratio_bps r = js_mul (js_sub r (Num 1)) (Num 10000)"

definition buyEdgeBps :: "jsnum \<Rightarrow> jsnum \<Rightarrow> (js_error, jsnum) result" where
  "buyEdgeBps base buy = (if js_le base (Num 0) \<or> js_le buy (Num 0) then Inl (ErrorMsg ''non-positive price'')
     else Inr (ratio_bps (js_div base buy)))"

definition sellEdgeBps :: "jsnum \<Rightarrow> jsnum \<Rightarrow> (js_error, jsnum) result" where
  "sellEdgeBps base sell = (if js_le base (Num 0) \<or> js_le sell (Num 0) then Inl (ErrorMsg ''non-positive price'')
     else Inr (ratio_bps (js_div sell base)))"

section \<open>Costs (cost-model.ts, cost-waterfall.ts)\<close>

record costInputsBps =
  ci_slippageBufferBps :: jsnum
  ci_landingCostBps :: jsnum
  ci_failureBufferBps :: jsnum
  ci_minProfitBps :: jsnum

definition netEdgeBps :: "jsnum \<Rightarrow> costInputsBps \<Rightarrow> jsnum" where
  "netEdgeBps gross c = js_sub (js_sub (js_sub (js_sub gross (ci_slippageBufferBps c)) (ci_landingCostBps c))
     (ci_failureBufferBps c)) (ci_minProfitBps c)"

datatype costStepCode = GROSS | SLIPPAGE_BUFFER | LANDING_COST | FAILURE_BUFFER | REQUIRED_PROFIT | EDGE_AFTER_COST

record costStep =
  cs_code :: costStepCode
  cs_label :: string
  cs_bps :: jsnum

record costWaterfall =
  cw_grossBps :: jsnum
  cw_estimatedExecutionCostBps :: jsnum
  cw_requiredProfitBps :: jsnum
  cw_entryThresholdBps :: jsnum
  cw_edgeAfterCostBps :: jsnum
  cw_steps :: "costStep list"

definition buildCostWaterfall :: "jsnum \<Rightarrow> costInputsBps \<Rightarrow> costWaterfall" where
  "buildCostWaterfall gross c =
    (let exec = js_add (js_add (ci_slippageBufferBps c) (ci_landingCostBps c)) (ci_failureBufferBps c);
         entry = js_add exec (ci_minProfitBps c);
         edge = js_sub gross entry
     in \<lparr> cw_grossBps = gross, cw_estimatedExecutionCostBps = exec, cw_requiredProfitBps = ci_minProfitBps c,
          cw_entryThresholdBps = entry, cw_edgeAfterCostBps = edge,
          cw_steps =
            [\<lparr> cs_code = GROSS, cs_label = ''Gross edge'', cs_bps = gross \<rparr>,
             \<lparr> cs_code = SLIPPAGE_BUFFER, cs_label = ''Slippage buffer'', cs_bps = js_neg (ci_slippageBufferBps c) \<rparr>,
             \<lparr> cs_code = LANDING_COST, cs_label = ''Landing cost'', cs_bps = js_neg (ci_landingCostBps c) \<rparr>,
             \<lparr> cs_code = FAILURE_BUFFER, cs_label = ''Failure buffer'', cs_bps = js_neg (ci_failureBufferBps c) \<rparr>,
             \<lparr> cs_code = REQUIRED_PROFIT, cs_label = ''Required profit'', cs_bps = js_neg (ci_minProfitBps c) \<rparr>,
             \<lparr> cs_code = EDGE_AFTER_COST, cs_label = ''Edge after cost'', cs_bps = edge \<rparr>] \<rparr>)"

datatype costScenarioName = BASE | DOUBLED_COSTS | ROUTE_FAILURE_HAIRCUT

record costScenario =
  sc_name :: costScenarioName
  sc_label :: string
  sc_description :: string
  sc_waterfall :: costWaterfall

definition buildCostScenarios :: "jsnum \<Rightarrow> costInputsBps \<Rightarrow> jsnum option \<Rightarrow> costScenario list" where
  "buildCostScenarios gross c haircut = (let h = (case haircut of None \<Rightarrow> Num 5 | Some x \<Rightarrow> x) in
    [\<lparr> sc_name = BASE, sc_label = ''Base'', sc_description = ''Configured cost assumptions'',
       sc_waterfall = buildCostWaterfall gross c \<rparr>,
     \<lparr> sc_name = DOUBLED_COSTS, sc_label = ''Doubled costs'',
       sc_description = ''All execution costs doubled to model adverse Solana conditions'',
       sc_waterfall = buildCostWaterfall gross
         (c\<lparr> ci_slippageBufferBps := js_mul (ci_slippageBufferBps c) (Num 2),
            ci_landingCostBps := js_mul (ci_landingCostBps c) (Num 2),
            ci_failureBufferBps := js_mul (ci_failureBufferBps c) (Num 2) \<rparr>) \<rparr>,
     \<lparr> sc_name = ROUTE_FAILURE_HAIRCUT, sc_label = ''Route-failure haircut'',
       sc_description = show_num h @ '' bps haircut for an occasional route or maker flip'',
       sc_waterfall = buildCostWaterfall (js_sub gross h) c \<rparr>])"

section \<open>Orientation of the dashboard (display-orientation.ts)\<close>

datatype displayBasisInterpretation = ONCHAIN_CHEAP | AT_PARITY | ONCHAIN_RICH

definition DEFAULT_PARITY_TOLERANCE_BPS :: jsnum where
  "DEFAULT_PARITY_TOLERANCE_BPS = Num 5"

definition underlyingSymbolFromPythSymbol :: "string \<Rightarrow> string" where
  "underlyingSymbolFromPythSymbol s = (let trimmed = trim s in
     if trimmed = [] then []
     else let left = (case last_index_of_char trimmed (CHR ''/'') of Some i \<Rightarrow> slice trimmed 0 i | None \<Rightarrow> trimmed) in
       (case last_index_of_char left (CHR ''.'') of Some i \<Rightarrow> drop (Suc i) left | None \<Rightarrow> left))"

definition pairDisplayLabel :: "pairConfig \<Rightarrow> string" where
  "pairDisplayLabel p = (let u = underlyingSymbolFromPythSymbol (pc_pythSymbol p) in
     if u = [] then pc_label p else pc_tokSymbol p @ ''/'' @ u)"

definition pairRatioLabel :: "pairConfig \<Rightarrow> string" where
  "pairRatioLabel p = pairDisplayLabel p @ '' ratio''"

fun displayRatio :: "jsnum option \<Rightarrow> jsnum option \<Rightarrow> jsnum option" where
  "displayRatio (Some t) (Some b) =
     (if \<not> is_finite t \<or> \<not> is_finite b \<or> js_le t (Num 0) \<or> js_le b (Num 0) then None else Some (js_div t b))"
| "displayRatio _ _ = None"

fun displayBasisBps :: "jsnum option \<Rightarrow> jsnum option" where
  "displayBasisBps None = None"
| "displayBasisBps (Some r) = (if is_finite r then Some (ratio_bps r) else None)"

fun interpretDisplayBasisBps :: "jsnum option \<Rightarrow> jsnum \<Rightarrow> displayBasisInterpretation option" where
  "interpretDisplayBasisBps None tol = None"
| "interpretDisplayBasisBps (Some bps) tol = (if \<not> is_finite bps then None
     else if js_le (js_abs bps) tol then Some AT_PARITY
     else if js_lt bps (Num 0) then Some ONCHAIN_CHEAP else Some ONCHAIN_RICH)"

record displayBasis =
  db_ratio :: "jsnum option"
  db_basisBps :: "jsnum option"
  db_interpretation :: "displayBasisInterpretation option"

definition describeDisplayBasis :: "jsnum option \<Rightarrow> jsnum option \<Rightarrow> jsnum option \<Rightarrow> displayBasis" where
  "describeDisplayBasis token base tol = (let ratio = displayRatio token base; bps = displayBasisBps ratio in
     \<lparr> db_ratio = ratio, db_basisBps = bps,
       db_interpretation = interpretDisplayBasisBps bps
         (case tol of None \<Rightarrow> DEFAULT_PARITY_TOLERANCE_BPS | Some t \<Rightarrow> t) \<rparr>)"

section \<open>Pair classes and the state of the reference (pair-class.ts)\<close>

datatype pairClass = BRIDGED_CRYPTO | TOKENIZED_EQUITY | TOKENIZED_METAL | TOKENIZED_COMMODITY | TOKENIZED_FX

datatype referenceStatus = LIVE_REFERENCE | REFERENCE_CLOSED | REFERENCE_STALE | REFERENCE_UNCERTAIN

fun pairClassForAssetClass :: "assetClass \<Rightarrow> pairClass" where
  "pairClassForAssetClass Crypto = BRIDGED_CRYPTO"
| "pairClassForAssetClass Equity = TOKENIZED_EQUITY"
| "pairClassForAssetClass Metal = TOKENIZED_METAL"
| "pairClassForAssetClass Commodity = TOKENIZED_COMMODITY"
| "pairClassForAssetClass FX = TOKENIZED_FX"

definition inferPairClass :: "pairConfig \<Rightarrow> pairClass" where
  "inferPairClass p = pairClassForAssetClass (pc_assetClass p)"

fun pairClassLabel :: "pairClass \<Rightarrow> string" where
  "pairClassLabel BRIDGED_CRYPTO = ''Bridged crypto''"
| "pairClassLabel TOKENIZED_EQUITY = ''Tokenized equity''"
| "pairClassLabel TOKENIZED_METAL = ''Tokenized metal''"
| "pairClassLabel TOKENIZED_COMMODITY = ''Tokenized commodity''"
| "pairClassLabel TOKENIZED_FX = ''Tokenized FX''"

text \<open>Both bounds present and the lag above the bound.\<close>

definition lag_exceeds :: "jsnum option \<Rightarrow> jsnum option \<Rightarrow> bool" where
  "lag_exceeds lag bound = (case (lag, bound) of (Some l, Some b) \<Rightarrow> js_gt l b | _ \<Rightarrow> False)"

definition referenceStatusFor :: "pairClass \<Rightarrow> timeRegime option \<Rightarrow> jsnum option \<Rightarrow> jsnum option \<Rightarrow> referenceStatus" where
  "referenceStatusFor c regime lag bound = (case regime of
     None \<Rightarrow> REFERENCE_UNCERTAIN
   | Some r \<Rightarrow>
      if lag_exceeds lag bound then REFERENCE_STALE
      else (case c of
        BRIDGED_CRYPTO \<Rightarrow> LIVE_REFERENCE
      | TOKENIZED_EQUITY \<Rightarrow> if r = US_EQUITY_REGULAR then LIVE_REFERENCE else REFERENCE_CLOSED
      | TOKENIZED_METAL \<Rightarrow> if r = METAL_ACTIVE then LIVE_REFERENCE else REFERENCE_CLOSED
      | TOKENIZED_COMMODITY \<Rightarrow> LIVE_REFERENCE
      | TOKENIZED_FX \<Rightarrow> LIVE_REFERENCE))"

fun referenceStatusLabel :: "referenceStatus \<Rightarrow> string" where
  "referenceStatusLabel LIVE_REFERENCE = ''Live reference''"
| "referenceStatusLabel REFERENCE_CLOSED = ''Reference closed''"
| "referenceStatusLabel REFERENCE_STALE = ''Reference stale''"
| "referenceStatusLabel REFERENCE_UNCERTAIN = ''Reference uncertain''"

section \<open>Quantiles and the rolling window (thresholds.ts)\<close>

definition quantile :: "jsnum list \<Rightarrow> jsnum \<Rightarrow> (js_error, jsnum) result" where
  "quantile values q =
    (if values = [] then Inl (ErrorMsg ''empty'')
     else if js_lt q (Num 0) \<or> js_gt q (Num 1) then Inl (ErrorMsg ''q out of range'')
     else let xs = js_sort num_gt values;
              idx = js_mul q (js_count (length xs - 1));
              lo = js_floor idx; hi = js_ceil idx
       in if js_eq lo hi then Inr (at_index xs lo)
          else let loVal = at_index xs lo; hiVal = at_index xs hi
            in Inr (js_add loVal (js_mul (js_sub hiVal loVal) (js_sub idx lo))))"

record rollingWindow =
  rw_buf :: "jsnum list"
  rw_capacity :: jsnum

definition new_window :: "jsnum \<Rightarrow> (js_error, rollingWindow) result" where
  "new_window capacity = (if js_lt capacity (Num 1) then Inl (ErrorMsg ''capacity >= 1'')
     else Inr \<lparr> rw_buf = [], rw_capacity = capacity \<rparr>)"

definition push :: "rollingWindow \<Rightarrow> jsnum \<Rightarrow> rollingWindow" where
  "push w x = (let b = rw_buf w @ [x] in
     w\<lparr> rw_buf := (if js_gt (js_len b) (rw_capacity w) then tl b else b) \<rparr>)"

definition window_q :: "rollingWindow \<Rightarrow> jsnum \<Rightarrow> (js_error, jsnum option) result" where
  "window_q w p = (if rw_buf w = [] then Inr None else map_sum id Some (quantile (rw_buf w) p))"

section \<open>Profitability (profitability.ts)\<close>

record closedSignal =
  sg_entryAt :: jsnum
  sg_exitAt :: jsnum
  sg_pnlUsd :: jsnum
  sg_edgeBps :: jsnum

record profitabilitySummary =
  ps_cumulativePnlUsd :: jsnum
  ps_pnlUsd24h :: jsnum
  ps_pnlUsd7d :: jsnum
  ps_winRate :: jsnum
  ps_avgEdgeBps :: jsnum
  ps_avgHoldSeconds :: jsnum
  ps_maxDrawdownUsd :: jsnum
  ps_signalCount :: nat

definition DAY_MS :: jsnum where "DAY_MS = Num 86400000"
definition WEEK_MS :: jsnum where "WEEK_MS = Num 604800000"

text \<open>The local variables of the loop.\<close>

record pnlLoop =
  pl_equity :: jsnum
  pl_runningMax :: jsnum
  pl_maxDd :: jsnum
  pl_wins :: nat
  pl_edgeSum :: jsnum
  pl_holdSum :: jsnum
  pl_pnl24 :: jsnum
  pl_pnl7 :: jsnum

definition pnl_start :: pnlLoop where
  "pnl_start = \<lparr> pl_equity = Num 0, pl_runningMax = Num 0, pl_maxDd = Num 0, pl_wins = 0,
     pl_edgeSum = Num 0, pl_holdSum = Num 0, pl_pnl24 = Num 0, pl_pnl7 = Num 0 \<rparr>"

definition pnl_step :: "jsnum \<Rightarrow> pnlLoop \<Rightarrow> closedSignal \<Rightarrow> pnlLoop" where
  "pnl_step nowMs s t =
    (let equity = js_add (pl_equity s) (sg_pnlUsd t);
         runningMax = (if js_gt equity (pl_runningMax s) then equity else pl_runningMax s);
         dd = js_sub runningMax equity
     in \<lparr> pl_equity = equity, pl_runningMax = runningMax,
          pl_maxDd = (if js_gt dd (pl_maxDd s) then dd else pl_maxDd s),
          pl_wins = (if js_gt (sg_pnlUsd t) (Num 0) then Suc (pl_wins s) else pl_wins s),
          pl_edgeSum = js_add (pl_edgeSum s) (sg_edgeBps t),
          pl_holdSum = js_add (pl_holdSum s) (js_div (js_sub (sg_exitAt t) (sg_entryAt t)) (Num 1000)),
          pl_pnl24 = (if js_le (js_sub nowMs (sg_exitAt t)) DAY_MS then js_add (pl_pnl24 s) (sg_pnlUsd t) else pl_pnl24 s),
          pl_pnl7 = (if js_le (js_sub nowMs (sg_exitAt t)) WEEK_MS then js_add (pl_pnl7 s) (sg_pnlUsd t) else pl_pnl7 s) \<rparr>)"

definition summarize :: "closedSignal list \<Rightarrow> jsnum \<Rightarrow> profitabilitySummary" where
  "summarize signals nowMs =
    (if signals = [] then
       \<lparr> ps_cumulativePnlUsd = Num 0, ps_pnlUsd24h = Num 0, ps_pnlUsd7d = Num 0, ps_winRate = Num 0,
         ps_avgEdgeBps = Num 0, ps_avgHoldSeconds = Num 0, ps_maxDrawdownUsd = Num 0, ps_signalCount = 0 \<rparr>
     else let xs = js_sort (gt_on sg_exitAt) signals; s = foldl (pnl_step nowMs) pnl_start xs; n = js_len xs
       in \<lparr> ps_cumulativePnlUsd = pl_equity s, ps_pnlUsd24h = pl_pnl24 s, ps_pnlUsd7d = pl_pnl7 s,
            ps_winRate = js_div (js_count (pl_wins s)) n, ps_avgEdgeBps = js_div (pl_edgeSum s) n,
            ps_avgHoldSeconds = js_div (pl_holdSum s) n, ps_maxDrawdownUsd = pl_maxDd s,
            ps_signalCount = length xs \<rparr>)"

section \<open>Rounding half to even\<close>

text \<open>The fractional part of a non-negative double is a double.\<close>

lemma frac_exact:
  assumes "finite_double q" "0 \<le> q"
  shows "fl (q - of_int \<lfloor>q\<rfloor>) = Num (q - of_int \<lfloor>q\<rfloor>)"
proof -
  obtain m e where q: "q = of_int m * 2 powi e" and m: "\<bar>m\<bar> < 2 ^ 53" and e: "- 1074 \<le> e"
    using assms(1) by (auto simp add: finite_double_def is_double_def)
  have m0: "0 \<le> m" using assms(2) q by (metis of_int_0_le_iff zero_le_mult_iff zero_less_numeral zero_less_power_int less_le_not_le)
  have "is_double (q - of_int \<lfloor>q\<rfloor>)"
  proof (cases "0 \<le> e")
    case True
    then have "q = of_int (m * 2 ^ nat e)" using q power_int_of_nat [of "2::rat" "nat e"] by simp
    then have "q - of_int \<lfloor>q\<rfloor> = 0" by (metis floor_of_int diff_self)
    then show ?thesis using is_double_of_int [of 0] by simp
  next
    case False
    define k where "k = nat (- e)"
    have e2: "(2::rat) powi e = 1 / 2 ^ k" using False by (simp add: k_def power_int_def inverse_eq_divide power_one_over)
    have qk: "q = of_int m / of_int (2 ^ k)" by (simp add: q e2)
    have "\<lfloor>q\<rfloor> = m div 2 ^ k" unfolding qk by (rule floor_divide_of_int_eq)
    then have "q - of_int \<lfloor>q\<rfloor> = of_int (m - m div 2 ^ k * 2 ^ k) / of_int (2 ^ k)"
      by (simp add: qk diff_divide_distrib)
    also have "\<dots> = of_int (m mod 2 ^ k) * 2 powi e"
      unfolding minus_div_mult_eq_mod by (simp add: e2)
    finally have "q - of_int \<lfloor>q\<rfloor> = of_int (m mod 2 ^ k) * 2 powi e" .
    moreover have "\<bar>m mod 2 ^ k\<bar> < 2 ^ 53" using m m0 zmod_le_nonneg_dividend [OF m0, of "2 ^ k"] by simp
    ultimately show ?thesis unfolding is_double_def using e by blast
  qed
  moreover have "\<bar>q - of_int \<lfloor>q\<rfloor>\<bar> < 2 ^ 1024"
  proof -
    have "\<bar>q - of_int \<lfloor>q\<rfloor>\<bar> < 2" by linarith
    also have "(2::rat) \<le> 2 ^ 1024" using power_increasing [of 1 1024 "2::rat"] by simp
    finally show ?thesis .
  qed
  ultimately show ?thesis by (rule fl_double)
qed

text \<open>A double from 2 ^ 53 on is a whole number.\<close>

lemma big_double_integral:
  assumes "is_double q" "2 ^ 53 \<le> q" shows "q = of_int \<lfloor>q\<rfloor>"
proof -
  obtain m e where q: "q = of_int m * 2 powi e" and m: "\<bar>m\<bar> < 2 ^ 53"
    using assms(1) by (auto simp add: is_double_def)
  have mr: "(of_int m :: rat) < 2 ^ 53" using m by (metis abs_less_iff of_int_less_iff of_int_numeral of_int_power)
  have "0 \<le> e"
  proof (rule ccontr)
    assume "\<not> 0 \<le> e"
    then have "(2::rat) powi e \<le> 2 powi 0" by (intro powi_two_mono) simp
    then have le1: "(2::rat) powi e \<le> 1" by simp
    have pos: "(0::rat) < 2 powi e" by simp
    show False
    proof (cases "0 \<le> m")
      case True
      then have "of_int m * (2::rat) powi e \<le> of_int m * 1" using le1 by (intro mult_left_mono) simp_all
      then show False using assms(2) mr q by linarith
    next
      case False
      then have "of_int m * (2::rat) powi e < 0" using pos by (simp add: mult_neg_pos)
      then show False using assms(2) q by (simp add: not_less [symmetric])
    qed
  qed
  then have "q = of_int (m * 2 ^ nat e)" using q power_int_of_nat [of "2::rat" "nat e"] by simp
  then show ?thesis by (metis floor_of_int)
qed

lemma half_exact [js_eval]: "fl (1/2) = Num (1/2)"
proof (rule fl_double)
  show "is_double (1/2)" unfolding is_double_def
    by (intro exI [of _ 1] exI [of _ "- 1"]) (simp add: power_int_minus)
  have "(1::rat) < 2 ^ 1024" by (rule one_less_power) simp_all
  then show "\<bar>1/2 :: rat\<bar> < 2 ^ 1024" by simp
qed

lemma bankersRound_rne:
  assumes "finite_double q" "0 \<le> q" shows "bankersRound (Num q) = Num (of_int (rne q))"
proof -
  have d: "js_sub (Num q) (Num (of_int \<lfloor>q\<rfloor>)) = Num (q - of_int \<lfloor>q\<rfloor>)"
    using frac_exact [OF assms] by (simp add: js_sub_def)
  show ?thesis
  proof (cases "q < 2 ^ 53")
    case True
    then have "\<lfloor>q\<rfloor> < 2 ^ 53" using assms(2) by (simp add: floor_less_iff)
    moreover have "0 \<le> \<lfloor>q\<rfloor>" using assms(2) by simp
    ultimately have "\<bar>\<lfloor>q\<rfloor> + 1\<bar> \<le> 2 ^ 53" by linarith
    from fl_of_int [OF this] have "js_add (Num (of_int \<lfloor>q\<rfloor>)) (Num 1) = Num (of_int (\<lfloor>q\<rfloor> + 1))" by simp
    then show ?thesis using d by (simp add: bankersRound_def Let_def half_exact rne_def)
  next
    case False
    then have "q = of_int \<lfloor>q\<rfloor>" using assms by (intro big_double_integral) (simp_all add: finite_double_def)
    then have "q - of_int \<lfloor>q\<rfloor> = 0" "rne q = \<lfloor>q\<rfloor>" by (simp_all add: rne_def Let_def)
    then show ?thesis using d by (simp add: bankersRound_def Let_def half_exact)
  qed
qed

text \<open>The conversion of a display amount to atomic units: it throws exactly for a negative, NaN or
  infinite amount and for one whose scaled value overflows; every other amount becomes the whole
  number nearest to the scaled double, a tie going to the even one, so the error is at most half a
  unit.\<close>

theorem uiToAtomic_nearest:
  assumes "is_num ui"
  shows "(case uiToAtomic ui decimals of
      Inr n \<Rightarrow> \<exists>s. js_mul ui (js_pow10 decimals) = Num s \<and> js_le (Num 0) ui \<and> n = rne s \<and> \<bar>of_int n - s\<bar> \<le> 1/2
    | Inl e \<Rightarrow> \<not> is_finite ui \<or> js_lt ui (Num 0) \<or> \<not> is_finite (js_mul ui (js_pow10 decimals)))"
proof (cases "\<not> is_finite ui \<or> js_lt ui (Num 0)")
  case True
  then show ?thesis by (simp add: uiToAtomic_def)
next
  case False
  then obtain u where u: "ui = Num u" "0 \<le> u" by (cases ui) auto
  have p: "js_le (Num 0) (js_pow10 decimals)" "js_pow10 decimals \<noteq> NaN" "js_pow10 decimals \<noteq> NInf"
    using js_le_0_fl [of "10 ^ decimals"] by (auto simp add: js_pow10_def)
  define x where "x = js_mul ui (js_pow10 decimals)"
  show ?thesis
  proof (cases x)
    case (Num s)
    have "0 \<le> s"
      using js_mul_nonneg [of ui "js_pow10 decimals"] p u Num by (simp add: x_def)
    moreover have "is_num x" unfolding x_def by (rule is_num_ops(2)) (use Num x_def in simp)
    then have "finite_double s" using Num by simp
    ultimately have "uiToAtomic ui decimals = Inr (rne s)"
      using False Num by (simp add: uiToAtomic_def x_def bankersRound_rne to_bigint_def)
    then show ?thesis using Num u rne_error [of s] by (simp add: x_def)
  next
    case NaN
    then have "uiToAtomic ui decimals = Inl RangeError"
      using False by (simp add: uiToAtomic_def x_def bankersRound_def Let_def js_sub_def to_bigint_def)
    then show ?thesis using NaN by (simp add: x_def)
  next
    case PInf
    then have "uiToAtomic ui decimals = Inl RangeError"
      using False by (simp add: uiToAtomic_def x_def bankersRound_def Let_def js_sub_def to_bigint_def)
    then show ?thesis using PInf by (simp add: x_def)
  next
    case NInf
    then show ?thesis using js_mul_nonneg [of ui "js_pow10 decimals"] p u by (simp add: x_def)
  qed
qed

theorem uiToAtomic_nearest_witness:
  "uiToAtomic (Num 250) 6 = Inr 250000000"
proof -
  have "js_mul (Num 250) (js_pow10 6) = Num 250000000" by (simp add: js_pow10_def js_eval)
  then show ?thesis using uiToAtomic_nearest [of "Num 250" 6] rne_of_int [of 250000000]
    by (simp split: sum.splits)
qed

section \<open>The waterfall is the net edge\<close>

lemma eighth_finite: "\<bar>m\<bar> < 2 ^ 53 \<Longrightarrow> fl (of_int m / 8) = Num (of_int m / 8)"
proof (rule fl_double [OF is_double_eighth])
  assume m: "\<bar>m\<bar> < 2 ^ 53"
  have "\<bar>of_int m / 8 :: rat\<bar> \<le> of_int \<bar>m\<bar>" by simp
  also have "\<dots> < 2 ^ 53" using m by (metis of_int_less_iff of_int_numeral of_int_power)
  also have "\<dots> < 2 ^ 1024" by (rule pow53_lt_pow1024)
  finally show "\<bar>of_int m / 8 :: rat\<bar> < 2 ^ 1024" .
qed

lemma eighth_arith:
  "\<bar>a + b\<bar> < 2 ^ 53 \<Longrightarrow> js_add (Num (of_int a / 8)) (Num (of_int b / 8)) = Num (of_int (a + b) / 8)"
  "\<bar>a - b\<bar> < 2 ^ 53 \<Longrightarrow> js_sub (Num (of_int a / 8)) (Num (of_int b / 8)) = Num (of_int (a - b) / 8)"
  using eighth_finite [of "a + b"] eighth_finite [of "a - b"]
  by (simp_all add: js_sub_def add_divide_distrib diff_divide_distrib)

text \<open>The waterfall of the dashboard and the net edge of the recorder are the same number whenever
  the gross edge and the four costs are multiples of an eighth of a basis point: the recorder
  subtracts the costs one after the other, the dashboard adds them first, and neither order rounds.\<close>

theorem waterfall_is_net_edge:
  assumes "gross = Num (of_int g / 8)" "\<bar>g\<bar> \<le> 2 ^ 48"
    and "ci_slippageBufferBps c = Num (of_int s / 8)" "\<bar>s\<bar> \<le> 2 ^ 48"
    and "ci_landingCostBps c = Num (of_int l / 8)" "\<bar>l\<bar> \<le> 2 ^ 48"
    and "ci_failureBufferBps c = Num (of_int f / 8)" "\<bar>f\<bar> \<le> 2 ^ 48"
    and "ci_minProfitBps c = Num (of_int p / 8)" "\<bar>p\<bar> \<le> 2 ^ 48"
  shows "cw_edgeAfterCostBps (buildCostWaterfall gross c) = netEdgeBps gross c \<and>
    netEdgeBps gross c = Num (of_int (g - s - l - f - p) / 8)"
proof -
  obtain B :: int where B: "2 ^ 48 = B" by blast
  have B': "(2::int) ^ 53 = 32 * B" and "0 < B" unfolding B [symmetric] by simp_all
  note b = assms(2,4,6,8,10) [unfolded B] \<open>0 < B\<close>
  have small: "\<bar>s + l\<bar> < 2 ^ 53" "\<bar>s + l + f\<bar> < 2 ^ 53" "\<bar>s + l + f + p\<bar> < 2 ^ 53"
    "\<bar>g - (s + l + f + p)\<bar> < 2 ^ 53" "\<bar>g - s\<bar> < 2 ^ 53" "\<bar>g - s - l\<bar> < 2 ^ 53"
    "\<bar>g - s - l - f\<bar> < 2 ^ 53" "\<bar>g - s - l - f - p\<bar> < 2 ^ 53"
    unfolding B' using b by linarith+
  have n: "netEdgeBps gross c = Num (of_int (g - s - l - f - p) / 8)"
    unfolding netEdgeBps_def assms(1,3,5,7,9) by (simp only: eighth_arith small)
  have "cw_edgeAfterCostBps (buildCostWaterfall gross c) = Num (of_int (g - (s + l + f + p)) / 8)"
    unfolding buildCostWaterfall_def Let_def costWaterfall.simps assms(1,3,5,7,9)
    by (simp only: eighth_arith small)
  then show ?thesis by (simp add: n)
qed

theorem waterfall_is_net_edge_witness:
  defines "c \<equiv> \<lparr> ci_slippageBufferBps = Num 10, ci_landingCostBps = Num 5, ci_failureBufferBps = Num 5,
     ci_minProfitBps = Num 10 \<rparr>"
  shows "cw_edgeAfterCostBps (buildCostWaterfall (Num 42) c) = Num 12"
  using waterfall_is_net_edge [of "Num 42" 336 c 80 40 40 80] by (simp add: c_def)

section \<open>The rolling window\<close>

lemma push_simps:
  "rw_buf (push w x) = (if js_gt (js_len (rw_buf w @ [x])) (rw_capacity w) then tl (rw_buf w @ [x]) else rw_buf w @ [x])"
  "rw_capacity (push w x) = rw_capacity w"
  by (simp_all add: push_def Let_def)

text \<open>The rolling window keeps the most recent samples: after any number of pushes its buffer is
  the suffix of the pushed values of at most the capacity, in the order of arrival.\<close>

theorem window_is_suffix:
  assumes "1 \<le> c"
  shows "\<exists>w. new_window (Num (of_nat c)) = Inr w \<and> rw_buf (foldl push w xs) = drop (length xs - c) xs"
proof -
  define w where "w = \<lparr> rw_buf = [], rw_capacity = Num (of_nat c) \<rparr>"
  have "rw_buf (foldl push w xs) = drop (length xs - c) xs \<and> rw_capacity (foldl push w xs) = Num (of_nat c)"
  proof (induction xs rule: rev_induct)
    case Nil
    then show ?case by (simp add: w_def)
  next
    case (snoc x xs)
    define b where "b = drop (length xs - c) xs @ [x]"
    have len: "length b = min (length xs) c + 1" by (simp add: b_def)
    have "rw_buf (foldl push w (xs @ [x])) = (if c < length b then tl b else b)"
      using snoc of_nat_less_iff [of c "length b", where 'a = rat]
      by (simp add: push_simps b_def [symmetric] js_len_def del: of_nat_less_iff)
    also have "\<dots> = drop (length (xs @ [x]) - c) (xs @ [x])"
    proof (cases "c \<le> length xs")
      case True
      then have "c < length b" by (simp add: len)
      moreover have "tl b = drop (Suc (length xs - c)) (xs @ [x])"
        using True assms by (cases "drop (length xs - c) xs") (auto simp add: b_def drop_Suc tl_drop [symmetric] drop_eq_Nil)
      ultimately show ?thesis using True by (simp add: Suc_diff_le)
    next
      case False
      then show ?thesis by (simp add: len b_def)
    qed
    finally show ?case using snoc by (simp add: push_simps(2))
  qed
  moreover have "new_window (Num (of_nat c)) = Inr w"
    using assms by (simp add: new_window_def w_def not_less)
  ultimately show ?thesis by blast
qed

theorem window_is_suffix_witness:
  "\<exists>w. new_window (Num (of_nat 2)) = Inr w \<and> rw_buf (foldl push w [Num 7, Num 1, Num 5]) = [Num 1, Num 5]"
  using window_is_suffix [of 2 "[Num 7, Num 1, Num 5]"] by simp

section \<open>The largest drawdown\<close>

text \<open>The equity after the first k closed signals.\<close>

definition equity_after :: "closedSignal list \<Rightarrow> nat \<Rightarrow> jsnum" where
  "equity_after xs k = foldl js_add (Num 0) (map sg_pnlUsd (take k xs))"

lemma equity_after_append: "k \<le> length xs \<Longrightarrow> equity_after (xs @ ys) k = equity_after xs k"
  by (simp add: equity_after_def)

lemma js_sub_self: "is_finite x \<Longrightarrow> js_sub x x = Num 0"
  by (cases x) (simp_all add: js_sub_def)

lemma js_sub_mono: "is_finite x \<Longrightarrow> is_finite y \<Longrightarrow> js_le x x' \<Longrightarrow> is_finite x' \<Longrightarrow> js_le (js_sub x y) (js_sub x' y)"
  by (cases x; cases y; cases x') (simp_all add: js_sub_def fl_mono)

lemma js_sub_not_NaN: "is_finite x \<Longrightarrow> is_finite y \<Longrightarrow> js_sub x y \<noteq> NaN"
  by (cases x; cases y) (simp_all add: js_sub_def)

lemma finite_not_NaN: "is_finite x \<Longrightarrow> x \<noteq> NaN"
  by auto

lemma running_max_step:
  assumes "\<And>i. i \<le> n \<Longrightarrow> js_le (e i) m" "\<exists>i\<le>n. m = e i" "e (Suc n) \<noteq> NaN"
  shows "(\<forall>i\<le>Suc n. js_le (e i) (if js_gt (e (Suc n)) m then e (Suc n) else m)) \<and>
    (\<exists>i\<le>Suc n. (if js_gt (e (Suc n)) m then e (Suc n) else m) = e i)"
proof (cases "js_gt (e (Suc n)) m")
  case True
  have "js_le (e i) (e (Suc n))" if "i \<le> Suc n" for i
  proof (cases "i = Suc n")
    case False
    then have "js_le (e i) m" using that assms(1) by simp
    then show ?thesis using js_lt_imp_le [OF True] js_le_trans by blast
  qed (simp add: js_le_refl assms(3))
  then show ?thesis using True by auto
next
  case False
  have "m \<noteq> NaN" using assms(1) [of 0] by auto
  then have "js_le (e (Suc n)) m" using False js_not_lt assms(3) by blast
  then have "js_le (e i) m" if "i \<le> Suc n" for i using that assms(1) by (cases "i = Suc n") simp_all
  then show ?thesis using False assms(2) by (auto intro: le_SucI)
qed

lemma pnl_step_simps:
  "pl_equity (pnl_step n s x) = js_add (pl_equity s) (sg_pnlUsd x)"
  "pl_runningMax (pnl_step n s x) = (if js_gt (js_add (pl_equity s) (sg_pnlUsd x)) (pl_runningMax s)
     then js_add (pl_equity s) (sg_pnlUsd x) else pl_runningMax s)"
  "pl_maxDd (pnl_step n s x) =
    (let dd = js_sub (pl_runningMax (pnl_step n s x)) (pl_equity (pnl_step n s x)) in
     if js_gt dd (pl_maxDd s) then dd else pl_maxDd s)"
  by (simp_all add: pnl_step_def Let_def)

lemma pnl_loop_drawdown:
  fixes nowMs :: jsnum
  assumes "\<forall>k\<le>length xs. is_finite (equity_after xs k)"
  defines "s \<equiv> foldl (pnl_step nowMs) pnl_start xs"
  shows "pl_equity s = equity_after xs (length xs)"
    and "\<forall>i\<le>length xs. js_le (equity_after xs i) (pl_runningMax s)"
    and "\<exists>i\<le>length xs. pl_runningMax s = equity_after xs i"
    and "\<forall>j\<le>length xs. \<forall>i\<le>j. js_le (js_sub (equity_after xs i) (equity_after xs j)) (pl_maxDd s)"
    and "\<exists>j\<le>length xs. \<exists>i\<le>j. pl_maxDd s = js_sub (equity_after xs i) (equity_after xs j)"
  using assms(1) unfolding s_def
proof (induction xs rule: rev_induct)
  case Nil
  { case 1 then show ?case by (simp add: pnl_start_def equity_after_def) }
  { case 2 then show ?case by (simp add: pnl_start_def equity_after_def) }
  { case 3 then show ?case by (simp add: pnl_start_def equity_after_def) }
  { case 4 then show ?case by (simp add: pnl_start_def equity_after_def js_sub_self) }
  { case 5 then show ?case by (simp add: pnl_start_def equity_after_def js_sub_self) }
next
  case (snoc x xs)
  let ?n = "length xs" and ?xs = "xs @ [x]"
  let ?s = "foldl (pnl_step nowMs) pnl_start xs" and ?e = "equity_after (xs @ [x])"
  let ?t = "foldl (pnl_step nowMs) pnl_start ?xs"
  assume fin: "\<forall>k\<le>length ?xs. is_finite (?e k)"
  have old: "equity_after xs k = ?e k" if "k \<le> ?n" for k using that by (simp add: equity_after_append)
  have fin': "\<forall>k\<le>?n. is_finite (equity_after xs k)" using fin old by simp
  note ih = snoc.IH [OF fin']
  have eq: "pl_equity ?t = ?e (Suc ?n)"
    using ih(1) by (simp add: pnl_step_simps equity_after_def)
  have f: "is_finite (?e i)" if "i \<le> Suc ?n" for i using fin that by simp
  have rm: "pl_runningMax ?t = (if js_gt (?e (Suc ?n)) (pl_runningMax ?s) then ?e (Suc ?n) else pl_runningMax ?s)"
    using eq by (simp add: pnl_step_simps)
  have "(\<forall>i\<le>Suc ?n. js_le (?e i) (pl_runningMax ?t)) \<and> (\<exists>i\<le>Suc ?n. pl_runningMax ?t = ?e i)"
    unfolding rm
  proof (rule running_max_step)
    show "js_le (?e i) (pl_runningMax ?s)" if "i \<le> ?n" for i using ih(2) old that by auto
    show "\<exists>i\<le>?n. pl_runningMax ?s = ?e i" using ih(3) old by auto
    show "?e (Suc ?n) \<noteq> NaN" using f [of "Suc ?n"] finite_not_NaN by blast
  qed
  then have max: "\<forall>i\<le>Suc ?n. js_le (?e i) (pl_runningMax ?t)" "\<exists>i\<le>Suc ?n. pl_runningMax ?t = ?e i" by blast+
  define dd where "dd = js_sub (pl_runningMax ?t) (?e (Suc ?n))"
  have md: "pl_maxDd ?t = (if js_gt dd (pl_maxDd ?s) then dd else pl_maxDd ?s)"
    using eq pnl_step_simps(3) [of nowMs ?s x] by (simp add: dd_def Let_def)
  obtain i0 where i0: "i0 \<le> Suc ?n" "pl_runningMax ?t = ?e i0" using max(2) by blast
  have ddN: "dd \<noteq> NaN" unfolding dd_def using i0 f js_sub_not_NaN by simp
  obtain j1 i1 where j1: "j1 \<le> ?n" "i1 \<le> j1" "pl_maxDd ?s = js_sub (?e i1) (?e j1)"
    using ih(5) old by (metis order_trans)
  have mdN: "pl_maxDd ?s \<noteq> NaN" using j1 f js_sub_not_NaN by simp
  have up: "js_le (pl_maxDd ?s) (pl_maxDd ?t)" "js_le dd (pl_maxDd ?t)"
    unfolding md using mdN ddN js_lt_imp_le js_le_refl js_not_lt [of "pl_maxDd ?s" dd] by auto
  have all: "js_le (js_sub (?e i) (?e j)) (pl_maxDd ?t)" if "j \<le> Suc ?n" "i \<le> j" for i j
  proof (cases "j = Suc ?n")
    case True
    have "js_le (js_sub (?e i) (?e j)) dd"
      unfolding dd_def True using max(1) i0 f that True by (intro js_sub_mono) simp_all
    then show ?thesis using up(2) js_le_trans by blast
  next
    case False
    then have "js_le (js_sub (?e i) (?e j)) (pl_maxDd ?s)" using ih(4) old that by auto
    then show ?thesis using up(1) js_le_trans by blast
  qed
  have ex: "\<exists>j\<le>Suc ?n. \<exists>i\<le>j. pl_maxDd ?t = js_sub (?e i) (?e j)"
  proof (cases "js_gt dd (pl_maxDd ?s)")
    case True
    then show ?thesis using i0 md dd_def by auto
  next
    case False
    then have "pl_maxDd ?t = js_sub (?e i1) (?e j1)" "j1 \<le> Suc ?n" using j1 md by simp_all
    then show ?thesis using j1(2) by blast
  qed
  { case 1 then show ?case using eq by simp }
  { case 2 then show ?case using max(1) by simp }
  { case 3 then show ?case using max(2) by simp }
  { case 4 then show ?case using all by simp }
  { case 5 then show ?case using ex by simp }
qed

text \<open>The reported drawdown is the largest fall of the equity curve: for the closed signals in the
  order of their exits, no fall from an earlier equity (the initial zero included) to a later one
  exceeds it, and one fall attains it, as long as the running sums stay finite.\<close>

theorem drawdown_exact:
  assumes "signals \<noteq> []" and "\<forall>k\<le>length signals. is_finite (equity_after (js_sort (gt_on sg_exitAt) signals) k)"
  defines "e \<equiv> equity_after (js_sort (gt_on sg_exitAt) signals)"
  shows "(\<forall>j\<le>length signals. \<forall>i\<le>j. js_le (js_sub (e i) (e j)) (ps_maxDrawdownUsd (summarize signals nowMs))) \<and>
    (\<exists>j\<le>length signals. \<exists>i\<le>j. ps_maxDrawdownUsd (summarize signals nowMs) = js_sub (e i) (e j))"
  using pnl_loop_drawdown(4,5) [of "js_sort (gt_on sg_exitAt) signals" nowMs] assms(1,2)
  by (simp add: summarize_def Let_def e_def)

theorem drawdown_exact_witness:
  defines "t \<equiv> \<lambda>x p. \<lparr> sg_entryAt = Num 0, sg_exitAt = Num x, sg_pnlUsd = Num p, sg_edgeBps = Num 10 \<rparr>"
  shows "js_le (Num 3) (ps_maxDrawdownUsd (summarize [t 2 (- 3), t 1 5] (Num 9)))"
proof -
  let ?l = "[t 2 (- 3), t 1 5]"
  have s: "js_sort (gt_on sg_exitAt) ?l = [t 1 5, t 2 (- 3)]"
    by (simp add: js_sort_def gt_on_def num_gt_def js_sub_def t_def js_eval)
  have e: "equity_after [t 1 5, t 2 (- 3)] 0 = Num 0" "equity_after [t 1 5, t 2 (- 3)] (Suc 0) = Num 5"
    "equity_after [t 1 5, t 2 (- 3)] 2 = Num 2"
    by (simp_all add: equity_after_def t_def js_eval numeral_2_eq_2)
  have "is_finite (equity_after [t 1 5, t 2 (- 3)] k)" if "k \<le> 2" for k
    using e that by (cases k rule: nat.exhaust; cases "k - 1" rule: nat.exhaust) (auto simp add: numeral_2_eq_2)
  then have "\<forall>k\<le>length ?l. is_finite (equity_after (js_sort (gt_on sg_exitAt) ?l) k)" unfolding s by simp
  from drawdown_exact [of ?l, OF _ this, of "Num 9"]
  have "\<forall>j\<le>length ?l. \<forall>i\<le>j. js_le (js_sub (equity_after [t 1 5, t 2 (- 3)] i) (equity_after [t 1 5, t 2 (- 3)] j))
      (ps_maxDrawdownUsd (summarize ?l (Num 9)))"
    unfolding s by blast
  from this [THEN spec [of _ 2], THEN mp, THEN spec [of _ "Suc 0"]] e
  have "js_le (js_sub (Num 5) (Num 2)) (ps_maxDrawdownUsd (summarize ?l (Num 9)))" by simp
  then show ?thesis by (simp add: js_sub_def js_eval)
qed

section \<open>Quantiles\<close>

text \<open>The interpolation on an array already sorted.\<close>

definition interpolate :: "jsnum list \<Rightarrow> jsnum \<Rightarrow> jsnum" where
  "interpolate xs q = (let idx = js_mul q (js_count (length xs - 1)); lo = js_floor idx; hi = js_ceil idx
     in if js_eq lo hi then at_index xs lo
        else js_add (at_index xs lo) (js_mul (js_sub (at_index xs hi) (at_index xs lo)) (js_sub idx lo)))"

lemma quantile_interpolate:
  "values \<noteq> [] \<Longrightarrow> 0 \<le> q \<Longrightarrow> q \<le> 1 \<Longrightarrow> quantile values (Num q) = Inr (interpolate (js_sort num_gt values) (Num q))"
  by (simp add: quantile_def interpolate_def Let_def not_less)

lemma at_index_nat: "i < length xs \<Longrightarrow> at_index xs (Num (of_nat i)) = xs ! i"
  by (simp add: at_index_def nth_opt_conv)

text \<open>The rank stays inside the array.\<close>

lemma rank_bounds:
  assumes "0 \<le> q" "q \<le> 1" "n \<le> 2 ^ 53"
  obtains r where "js_mul (Num q) (js_count n) = Num r" "0 \<le> r" "r \<le> of_nat n" "finite_double r"
proof -
  have n: "fl (of_nat n) = Num (of_nat n)" using finite_double_fl [OF finite_double_nat [OF assms(3)]] .
  have "q * of_nat n \<le> 1 * of_nat n" using assms(2) by (intro mult_right_mono) simp_all
  then have hi: "js_le (fl (q * of_nat n)) (Num (of_nat n))" using n by (intro fl_le_double) simp_all
  have lo: "js_le (Num 0) (fl (q * of_nat n))" using assms(1) by (intro js_le_0_fl) simp
  have "is_num (fl (q * of_nat n))" by simp
  then obtain r where "fl (q * of_nat n) = Num r" "0 \<le> r" "r \<le> of_nat n" "finite_double r"
    using lo hi by (cases "fl (q * of_nat n)") auto
  then show ?thesis using that by (simp add: js_count_def)
qed

lemma frac_below_one: assumes "finite_double r" "0 \<le> r" "r \<noteq> of_int \<lfloor>r\<rfloor>"
  shows "js_sub (Num r) (Num (of_int \<lfloor>r\<rfloor>)) = Num (r - of_int \<lfloor>r\<rfloor>)" "0 < r - of_int \<lfloor>r\<rfloor>" "r - of_int \<lfloor>r\<rfloor> < 1"
  using frac_exact [OF assms(1,2)] assms(3) by (auto simp add: js_sub_def less_le) linarith+

text \<open>Between two whole numbers, the interpolated value does not leave the interval.\<close>

lemma interpolate_step:
  assumes a: "\<bar>a\<bar> \<le> 2 ^ 52" and b: "\<bar>b\<bar> \<le> 2 ^ 52" and ab: "a \<le> b" and f: "0 \<le> f" "f \<le> 1"
  defines "v \<equiv> js_add (Num (of_int a)) (js_mul (js_sub (Num (of_int b)) (Num (of_int a))) (Num f))"
  shows "js_le (Num (of_int a)) v" "js_le v (Num (of_int b))"
proof -
  have "\<bar>b - a\<bar> \<le> 2 ^ 53" using a b by (simp add: abs_le_iff)
  from fl_of_int [OF this] have d: "js_sub (Num (of_int b)) (Num (of_int a)) = Num (of_int (b - a))"
    by (simp add: js_sub_def)
  have fd: "fl (of_int (b - a)) = Num (of_int (b - a))" using fl_of_int \<open>\<bar>b - a\<bar> \<le> 2 ^ 53\<close> by blast
  have "(of_int (b - a) :: rat) * f \<le> of_int (b - a) * 1" using ab f(2) by (intro mult_left_mono) simp_all
  then have up: "js_le (fl (of_int (b - a) * f)) (Num (of_int (b - a)))" using fd by (intro fl_le_double) simp_all
  have lo: "js_le (Num 0) (fl (of_int (b - a) * f))" using ab f by (intro js_le_0_fl) simp
  obtain p where p: "fl (of_int (b - a) * f) = Num p" "0 \<le> p" "p \<le> of_int (b - a)"
    using up lo by (cases "fl (of_int (b - a) * f)") auto
  have v: "v = fl (of_int a + p)" unfolding v_def d using p(1) by simp
  have "\<bar>a\<bar> \<le> 2 ^ 53" "\<bar>b\<bar> \<le> 2 ^ 53" using a b by simp_all
  then have ends: "fl (of_int a) = Num (of_int a)" "fl (of_int b) = Num (of_int b)"
    using fl_of_int by blast+
  show "js_le (Num (of_int a)) v" unfolding v using p(2) ends by (intro fl_ge_double) simp_all
  show "js_le v (Num (of_int b))" unfolding v using p(3) ends by (intro fl_le_double) simp_all
qed

text \<open>The quantile of whole-numbered samples lies between the two neighbouring order statistics of
  its rank q * (n - 1): not below the sample at the rounded-down rank and not above the one at the
  rounded-up rank, in spite of the three roundings of the interpolation. In particular it never
  leaves the range of the samples and never throws.\<close>

theorem quantile_between:
  assumes "ns \<noteq> []" and "\<forall>n \<in> set ns. \<bar>n\<bar> \<le> 2 ^ 52" and "0 \<le> q" "q \<le> 1" and "length ns \<le> 2 ^ 53"
  defines "xs \<equiv> js_sort num_gt (map (\<lambda>n. Num (of_int n)) ns)"
  shows "\<exists>i j v. quantile (map (\<lambda>n. Num (of_int n)) ns) (Num q) = Inr v \<and>
     i \<le> j \<and> j \<le> i + 1 \<and> j < length ns \<and> js_le (xs ! i) v \<and> js_le v (xs ! j) \<and>
     js_floor (js_mul (Num q) (js_count (length ns - 1))) = Num (of_nat i)"
proof -
  let ?vs = "map (\<lambda>n. Num (of_int n)) ns"
  have ok: "\<forall>x \<in> set ?vs. is_num x" using assms(2) by (auto intro!: finite_double_of_int)
  have len: "length xs = length ns" by (simp add: xs_def)
  have elem: "\<exists>n. xs ! i = Num (of_int n) \<and> \<bar>n\<bar> \<le> 2 ^ 52" if "i < length ns" for i
  proof -
    have "xs ! i \<in> set ?vs" using that len by (metis nth_mem set_js_sort xs_def)
    then show ?thesis using assms(2) by auto
  qed
  have srt: "sorted_wrt (\<lambda>a b. \<not> num_gt a b) xs" unfolding xs_def by (rule by_value.sort_sorted [OF ok])
  obtain r where r: "js_mul (Num q) (js_count (length ns - 1)) = Num r" "0 \<le> r"
    "r \<le> of_nat (length ns - 1)" "finite_double r"
    by (rule rank_bounds [OF assms(3,4) le_trans [OF diff_le_self assms(5)]])
  define i where "i = nat \<lfloor>r\<rfloor>"
  have ir: "Num (of_int \<lfloor>r\<rfloor>) = Num (of_nat i)" using r(2) by (simp add: i_def)
  have i: "i < length ns" using r(3) assms(1) by (simp add: i_def floor_less_iff nat_less_iff) (metis One_nat_def Suc_pred' diff_less floor_mono floor_of_nat le_less_trans length_greater_0_conv nat_le_iff nat_less_iff of_nat_less_iff zero_less_one)
  have q: "quantile ?vs (Num q) = Inr (interpolate xs (Num q))"
    using quantile_interpolate [of ?vs q] assms(1,3,4) by (simp add: xs_def)
  show ?thesis
  proof (cases "r = of_int \<lfloor>r\<rfloor>")
    case True
    then have "\<lceil>r\<rceil> = \<lfloor>r\<rfloor>" by (metis ceiling_of_int)
    then have "interpolate xs (Num q) = xs ! i"
      using r(1) ir at_index_nat [of i xs] i len by (simp add: interpolate_def Let_def)
    moreover obtain n where "xs ! i = Num (of_int n)" using elem [OF i] by blast
    ultimately show ?thesis using q i r(1) ir by (intro exI [of _ i] exI [of _ i] exI [of _ "xs ! i"]) simp
  next
    case False
    have c: "\<lceil>r\<rceil> = \<lfloor>r\<rfloor> + 1" using False by (metis ceiling_altdef)
    have jr: "Num (of_int \<lceil>r\<rceil>) = Num (of_nat (Suc i))" using r(2) c by (simp add: i_def)
    have "\<lceil>r\<rceil> \<le> int (length ns - 1)" using r(3) by (simp add: ceiling_le_iff)
    then have j: "Suc i < length ns" using c r(2) assms(1) by (simp add: i_def) linarith
    note fr = frac_below_one [OF r(4) r(2) False]
    obtain a where a: "xs ! i = Num (of_int a)" "\<bar>a\<bar> \<le> 2 ^ 52" using elem [OF i] by blast
    obtain b where b: "xs ! Suc i = Num (of_int b)" "\<bar>b\<bar> \<le> 2 ^ 52" using elem [OF j] by blast
    have "\<not> num_gt (xs ! i) (xs ! Suc i)" using srt j len by (simp add: sorted_wrt_iff_nth_less)
    moreover have "is_num (xs ! i)" "is_num (xs ! Suc i)"
      using a b by (auto intro!: finite_double_of_int)
    ultimately have ab: "a \<le> b" by (simp add: num_gt_iff a b)
    have ne: "\<not> js_eq (Num (of_nat i)) (Num (of_nat (Suc i)))" by simp
    have at: "at_index xs (Num (of_nat i)) = Num (of_int a)" "at_index xs (Num (of_nat (Suc i))) = Num (of_int b)"
      using at_index_nat [of i xs] at_index_nat [of "Suc i" xs] i j len a b by simp_all
    have "interpolate xs (Num q) = js_add (Num (of_int a))
        (js_mul (js_sub (Num (of_int b)) (Num (of_int a))) (Num (r - of_int \<lfloor>r\<rfloor>)))"
      unfolding interpolate_def Let_def len r(1) js_floor.simps js_ceil.simps ir jr at
      using ne fr(1) [unfolded ir] by simp
    then show ?thesis
      using interpolate_step [OF a(2) b(2) ab, of "r - of_int \<lfloor>r\<rfloor>"] fr(2,3) q r(1) ir j a b
      by (intro exI [of _ i] exI [of _ "Suc i"] exI [of _ "interpolate xs (Num q)"]) simp
  qed
qed

theorem quantile_between_witness:
  "\<exists>v. quantile [Num 9, Num 1, Num 4] (Num (1/2)) = Inr v"
  using quantile_between [of "[9, 1, 4]" "1/2"] by auto

end
