(* ===== verification/QuoteQuality.thy ===== *)
theory QuoteQuality
  imports MarketBase
begin

text \<open>
  packages/market-core/src/quote-quality.ts: the thresholds of a pair, the classification of one
  quote by a sequence of gates, and the quality class the observations are stored with. A missing
  reading (null or undefined) is None.
\<close>

datatype quoteQualityStatus = LIVE_ELIGIBLE | STALE_PYTH | STALE_BASIS | QUOTE_LATENCY_TOO_HIGH
  | MISSING_EXIT_QUOTE | UNKNOWN_ROUTER | ROUTE_UNSTABLE | MARKET_SESSION_INVALID
  | PRICE_IMPACT_TOO_HIGH | PYTH_CONFIDENCE_TOO_WIDE | DECIMALS_UNVERIFIED

record quoteQualityThresholds =
  qt_maxPythFreshnessLagMs :: jsnum
  qt_maxQuoteLatencyMs :: jsnum
  qt_maxBasisAgeMs :: jsnum
  qt_maxPriceImpactBps :: jsnum
  qt_maxPythConfidenceBps :: jsnum
  qt_allowedRouters :: "string list"
  qt_allowedMarketSessions :: "timeRegime list"

record quoteQualityInput =
  qi_pythFreshnessLagMs :: "jsnum option"
  qi_quoteRequestMs :: "jsnum option"
  qi_basisAgeMs :: "jsnum option"
  qi_priceImpactPct :: "jsnum option"
  qi_pythConfidenceBps :: "jsnum option"
  qi_router :: "string option"
  qi_timeRegime :: "timeRegime option"
  qi_decimalsVerified :: bool
  qi_hasExitQuote :: "bool option"
  qi_routeStable :: "bool option"

record quoteQualityResult =
  qr_qualityStatus :: quoteQualityStatus
  qr_qualityReason :: string

definition DEFAULT_ALLOWED_MARKET_SESSIONS :: "timeRegime list" where
  "DEFAULT_ALLOWED_MARKET_SESSIONS = [US_EQUITY_REGULAR, METAL_ACTIVE, CRYPTO_NORMAL, CRYPTO_HIGH_VOL]"

definition DEFAULT_QUOTE_QUALITY_THRESHOLDS :: quoteQualityThresholds where
  "DEFAULT_QUOTE_QUALITY_THRESHOLDS =
     \<lparr> qt_maxPythFreshnessLagMs = Num 5000, qt_maxQuoteLatencyMs = Num 1500, qt_maxBasisAgeMs = Num 5000,
       qt_maxPriceImpactBps = Num 50, qt_maxPythConfidenceBps = Num 25, qt_allowedRouters = [],
       qt_allowedMarketSessions = DEFAULT_ALLOWED_MARKET_SESSIONS \<rparr>"

text \<open>overrides?.field ?? fallback.field\<close>

definition override :: "'g option \<Rightarrow> ('g \<Rightarrow> 'a option) \<Rightarrow> 'a \<Rightarrow> 'a" where
  "override g field fallback = (case Option.bind g field of Some x \<Rightarrow> x | None \<Rightarrow> fallback)"

definition buildQuoteQualityThresholds :: "qualityGate option \<Rightarrow> quoteQualityThresholds \<Rightarrow> quoteQualityThresholds" where
  "buildQuoteQualityThresholds g f =
     \<lparr> qt_maxPythFreshnessLagMs = override g qg_maxPythFreshnessLagMs (qt_maxPythFreshnessLagMs f),
       qt_maxQuoteLatencyMs = override g qg_maxQuoteLatencyMs (qt_maxQuoteLatencyMs f),
       qt_maxBasisAgeMs = override g qg_maxBasisAgeMs (qt_maxBasisAgeMs f),
       qt_maxPriceImpactBps = override g qg_maxPriceImpactBps (qt_maxPriceImpactBps f),
       qt_maxPythConfidenceBps = override g qg_maxPythConfidenceBps (qt_maxPythConfidenceBps f),
       qt_allowedRouters = override g qg_allowedRouters (qt_allowedRouters f),
       qt_allowedMarketSessions = override g qg_allowedMarketSessions (qt_allowedMarketSessions f) \<rparr>"

text \<open>The text of a reading in a reason; a value that is not finite counts as missing.\<close>

definition fmt :: "jsnum option \<Rightarrow> string" where
  "fmt v = (case v of Some x \<Rightarrow> if is_finite x then to_fixed 2 x else ''missing'' | None \<Rightarrow> ''missing'')"

definition reason :: "quoteQualityStatus \<Rightarrow> string \<Rightarrow> quoteQualityResult" where
  "reason s r = \<lparr> qr_qualityStatus = s, qr_qualityReason = r \<rparr>"

text \<open>The gate value == null || value > bound.\<close>

definition beyond :: "jsnum option \<Rightarrow> jsnum \<Rightarrow> bool" where
  "beyond v bound \<longleftrightarrow> (case v of None \<Rightarrow> True | Some x \<Rightarrow> js_gt x bound)"

definition priceImpactBps :: "jsnum option \<Rightarrow> jsnum option" where
  "priceImpactBps pct = map_option (\<lambda>p. js_abs (js_mul p (Num 100))) pct"

definition exceeds_text :: "string \<Rightarrow> jsnum option \<Rightarrow> string \<Rightarrow> jsnum \<Rightarrow> string" where
  "exceeds_text what v unit bound = what @ '' '' @ fmt v @ unit @ '' exceeds '' @ show_num bound @ unit"

definition router_blocked :: "string \<Rightarrow> quoteQualityThresholds \<Rightarrow> bool" where
  "router_blocked r T \<longleftrightarrow> qt_allowedRouters T \<noteq> [] \<and> r \<notin> set (qt_allowedRouters T)"

definition classifyQuoteQuality :: "quoteQualityInput \<Rightarrow> quoteQualityThresholds \<Rightarrow> quoteQualityResult" where
  "classifyQuoteQuality i T =
    (if \<not> qi_decimalsVerified i then
       reason DECIMALS_UNVERIFIED ''token mint decimals have not been verified''
     else if beyond (qi_pythFreshnessLagMs i) (qt_maxPythFreshnessLagMs T) then
       reason STALE_PYTH (exceeds_text ''pyth freshness'' (qi_pythFreshnessLagMs i) ''ms'' (qt_maxPythFreshnessLagMs T))
     else if beyond (qi_basisAgeMs i) (qt_maxBasisAgeMs T) then
       reason STALE_BASIS (exceeds_text ''basis age'' (qi_basisAgeMs i) ''ms'' (qt_maxBasisAgeMs T))
     else if beyond (qi_quoteRequestMs i) (qt_maxQuoteLatencyMs T) then
       reason QUOTE_LATENCY_TOO_HIGH (exceeds_text ''quote latency'' (qi_quoteRequestMs i) ''ms'' (qt_maxQuoteLatencyMs T))
     else if (case qi_timeRegime i of None \<Rightarrow> True | Some r \<Rightarrow> r \<notin> set (qt_allowedMarketSessions T)) then
       reason MARKET_SESSION_INVALID (''market regime '' @
         (case qi_timeRegime i of None \<Rightarrow> ''missing'' | Some r \<Rightarrow> regime_name r) @ '' is not live-eligible'')
     else if beyond (priceImpactBps (qi_priceImpactPct i)) (qt_maxPriceImpactBps T) then
       reason PRICE_IMPACT_TOO_HIGH
         (exceeds_text ''price impact'' (priceImpactBps (qi_priceImpactPct i)) ''bps'' (qt_maxPriceImpactBps T))
     else if beyond (qi_pythConfidenceBps i) (qt_maxPythConfidenceBps T) then
       reason PYTH_CONFIDENCE_TOO_WIDE
         (exceeds_text ''pyth confidence'' (qi_pythConfidenceBps i) ''bps'' (qt_maxPythConfidenceBps T))
     else (case qi_router i of
         None \<Rightarrow> reason UNKNOWN_ROUTER ''Jupiter did not return a router''
       | Some r \<Rightarrow>
           if r = [] then reason UNKNOWN_ROUTER ''Jupiter did not return a router''
           else if router_blocked r T then reason UNKNOWN_ROUTER (''router '' @ r @ '' is not allowlisted'')
           else if qi_routeStable i = Some False then
             reason ROUTE_UNSTABLE ''route changed beyond configured stability bounds''
           else if qi_hasExitQuote i = Some False then
             reason MISSING_EXIT_QUOTE ''opposite-side exit quote is unavailable''
           else reason LIVE_ELIGIBLE ''quote passed all live eligibility checks''))"

datatype observationQuality = QLive | QWarm | QStale | QInvalid

fun observationQualityFromStatus :: "quoteQualityStatus \<Rightarrow> observationQuality" where
  "observationQualityFromStatus LIVE_ELIGIBLE = QLive"
| "observationQualityFromStatus STALE_PYTH = QStale"
| "observationQualityFromStatus STALE_BASIS = QStale"
| "observationQualityFromStatus QUOTE_LATENCY_TOO_HIGH = QWarm"
| "observationQualityFromStatus _ = QInvalid"

section \<open>When a quote is live-eligible\<close>

text \<open>A reading that is present and a number, within its bound.\<close>

definition bounded_by :: "jsnum option \<Rightarrow> jsnum \<Rightarrow> bool" where
  "bounded_by v bound \<longleftrightarrow> (\<exists>x. v = Some x \<and> js_le x bound)"

definition readable :: "quoteQualityInput \<Rightarrow> bool" where
  "readable i \<longleftrightarrow> list_all (\<lambda>v. v \<noteq> Some NaN) [qi_pythFreshnessLagMs i, qi_basisAgeMs i, qi_quoteRequestMs i,
     qi_priceImpactPct i, qi_pythConfidenceBps i]"

definition thresholds_ok :: "quoteQualityThresholds \<Rightarrow> bool" where
  "thresholds_ok T \<longleftrightarrow> list_all (\<lambda>x. x \<noteq> NaN) [qt_maxPythFreshnessLagMs T, qt_maxQuoteLatencyMs T,
     qt_maxBasisAgeMs T, qt_maxPriceImpactBps T, qt_maxPythConfidenceBps T]"

lemma beyond_within: "v \<noteq> Some NaN \<Longrightarrow> bound \<noteq> NaN \<Longrightarrow> \<not> beyond v bound \<longleftrightarrow> bounded_by v bound"
  by (cases v) (auto simp add: beyond_def bounded_by_def js_not_lt)

lemma impact_readable: "v \<noteq> Some NaN \<Longrightarrow> priceImpactBps v \<noteq> Some NaN"
proof (cases v)
  case (Some p)
  then show "v \<noteq> Some NaN \<Longrightarrow> ?thesis"
    by (cases p) (auto simp add: priceImpactBps_def inf_of_sign_def fl_def Let_def)
qed (simp add: priceImpactBps_def)

lemma reason_status [simp]: "qr_qualityStatus (reason s r) = s"
  by (simp add: reason_def)

lemma eligible_gates:
  "qr_qualityStatus (classifyQuoteQuality i T) = LIVE_ELIGIBLE \<longleftrightarrow>
     qi_decimalsVerified i \<and> \<not> beyond (qi_pythFreshnessLagMs i) (qt_maxPythFreshnessLagMs T) \<and>
     \<not> beyond (qi_basisAgeMs i) (qt_maxBasisAgeMs T) \<and> \<not> beyond (qi_quoteRequestMs i) (qt_maxQuoteLatencyMs T) \<and>
     (\<exists>r. qi_timeRegime i = Some r \<and> r \<in> set (qt_allowedMarketSessions T)) \<and>
     \<not> beyond (priceImpactBps (qi_priceImpactPct i)) (qt_maxPriceImpactBps T) \<and>
     \<not> beyond (qi_pythConfidenceBps i) (qt_maxPythConfidenceBps T) \<and>
     (\<exists>r. qi_router i = Some r \<and> r \<noteq> [] \<and> \<not> router_blocked r T) \<and>
     qi_routeStable i \<noteq> Some False \<and> qi_hasExitQuote i \<noteq> Some False"
  by (auto simp add: classifyQuoteQuality_def split: option.splits)

text \<open>C31: A quote is live-eligible exactly when every gate passes: decimals verified, the Pyth lag, the
  basis age, the request latency, the price impact and the confidence present and within their
  bounds, the market session allowed, the router named and not excluded by the allow list, the route
  not known to be unstable and the exit quote not known to be missing. An unknown stability or exit
  quote passes. This holds for readings that are not NaN.\<close>

theorem eligible_exact:
  assumes "readable i" and "thresholds_ok T"
  shows "qr_qualityStatus (classifyQuoteQuality i T) = LIVE_ELIGIBLE \<longleftrightarrow>
     qi_decimalsVerified i \<and> bounded_by (qi_pythFreshnessLagMs i) (qt_maxPythFreshnessLagMs T) \<and>
     bounded_by (qi_basisAgeMs i) (qt_maxBasisAgeMs T) \<and> bounded_by (qi_quoteRequestMs i) (qt_maxQuoteLatencyMs T) \<and>
     (\<exists>r. qi_timeRegime i = Some r \<and> r \<in> set (qt_allowedMarketSessions T)) \<and>
     bounded_by (priceImpactBps (qi_priceImpactPct i)) (qt_maxPriceImpactBps T) \<and>
     bounded_by (qi_pythConfidenceBps i) (qt_maxPythConfidenceBps T) \<and>
     (\<exists>r. qi_router i = Some r \<and> r \<noteq> [] \<and> (qt_allowedRouters T = [] \<or> r \<in> set (qt_allowedRouters T))) \<and>
     qi_routeStable i \<noteq> Some False \<and> qi_hasExitQuote i \<noteq> Some False"
  using assms unfolding eligible_gates
  by (simp add: beyond_within impact_readable readable_def thresholds_ok_def router_blocked_def)

definition demo_input :: "jsnum \<Rightarrow> quoteQualityInput" where
  "demo_input x = \<lparr> qi_pythFreshnessLagMs = Some x, qi_quoteRequestMs = Some x, qi_basisAgeMs = Some x,
     qi_priceImpactPct = Some x, qi_pythConfidenceBps = Some x, qi_router = Some ''iris'',
     qi_timeRegime = Some CRYPTO_NORMAL, qi_decimalsVerified = True, qi_hasExitQuote = None, qi_routeStable = None \<rparr>"

theorem eligible_exact_witness:
  "qr_qualityStatus (classifyQuoteQuality (demo_input (Num 0)) DEFAULT_QUOTE_QUALITY_THRESHOLDS) = LIVE_ELIGIBLE"
  using eligible_exact [of "demo_input (Num 0)" DEFAULT_QUOTE_QUALITY_THRESHOLDS]
  by (simp add: readable_def thresholds_ok_def demo_input_def DEFAULT_QUOTE_QUALITY_THRESHOLDS_def bounded_by_def
      priceImpactBps_def DEFAULT_ALLOWED_MARKET_SESSIONS_def js_eval)

text \<open>The numeric gates do not see NaN: a quote whose lag, latency, basis age, price impact and
  confidence are all NaN is live-eligible under the default thresholds, although the text of the
  reasons calls such a reading missing and a reading that is really missing is refused.\<close>

theorem nan_reading_passes:
  "qr_qualityStatus (classifyQuoteQuality (demo_input NaN) DEFAULT_QUOTE_QUALITY_THRESHOLDS) = LIVE_ELIGIBLE \<and>
   fmt (Some NaN) = fmt None \<and>
   qr_qualityStatus (classifyQuoteQuality ((demo_input NaN)\<lparr> qi_pythFreshnessLagMs := None \<rparr>) DEFAULT_QUOTE_QUALITY_THRESHOLDS) = STALE_PYTH"
  by (simp add: classifyQuoteQuality_def demo_input_def DEFAULT_QUOTE_QUALITY_THRESHOLDS_def beyond_def fmt_def
      priceImpactBps_def DEFAULT_ALLOWED_MARKET_SESSIONS_def router_blocked_def)

section \<open>Loosening the thresholds\<close>

definition looser :: "quoteQualityThresholds \<Rightarrow> quoteQualityThresholds \<Rightarrow> bool" where
  "looser T U \<longleftrightarrow> js_le (qt_maxPythFreshnessLagMs T) (qt_maxPythFreshnessLagMs U) \<and>
     js_le (qt_maxQuoteLatencyMs T) (qt_maxQuoteLatencyMs U) \<and> js_le (qt_maxBasisAgeMs T) (qt_maxBasisAgeMs U) \<and>
     js_le (qt_maxPriceImpactBps T) (qt_maxPriceImpactBps U) \<and>
     js_le (qt_maxPythConfidenceBps T) (qt_maxPythConfidenceBps U) \<and>
     (qt_allowedRouters U = [] \<or> qt_allowedRouters T \<noteq> [] \<and> set (qt_allowedRouters T) \<subseteq> set (qt_allowedRouters U)) \<and>
     set (qt_allowedMarketSessions T) \<subseteq> set (qt_allowedMarketSessions U)"

lemma beyond_mono: "js_le a b \<Longrightarrow> \<not> beyond v a \<Longrightarrow> \<not> beyond v b"
  using js_le_lt_trans by (cases v) (auto simp add: beyond_def)

text \<open>Live quotes stay live when every bound is raised and the lists are widened.\<close>

lemma looser_keeps_live:
  assumes "looser T U" "qr_qualityStatus (classifyQuoteQuality i T) = LIVE_ELIGIBLE"
  shows "qr_qualityStatus (classifyQuoteQuality i U) = LIVE_ELIGIBLE"
proof -
  have b: "\<not> beyond v a \<Longrightarrow> \<not> beyond v a'" if "js_le a a'" for v a a' using beyond_mono [OF that] by blast
  show ?thesis using assms unfolding eligible_gates looser_def
    by (auto simp add: router_blocked_def dest: b)
qed

lemma live_iff_eligible: "observationQualityFromStatus s = QLive \<longleftrightarrow> s = LIVE_ELIGIBLE"
  by (cases s) simp_all

end
