(* ===== verification/Backtests.thy ===== *)
theory Backtests
  imports QuoteQuality
begin

text \<open>
  The two replays of packages/market-core: two-size-backtest.ts opens and closes one position per
  quote size and recommends an action, hold-horizon.ts replays the same rows under a maximal holding
  time. Both keep JavaScript maps keyed by the quote size; a step of the model is one iteration of
  the loop over the rows in the order of their time stamps.
\<close>

section \<open>Observations\<close>

record backtestObservation =
  ob_side :: pairDirection
  ob_sizeUsd :: jsnum
  ob_observedAtMs :: jsnum
  ob_basePriceUsd :: jsnum
  ob_tokenPriceUsd :: jsnum
  ob_netBps :: jsnum
  ob_qualityStatus :: "quoteQualityStatus option"

definition computeSpotExitPnlUsd :: "jsnum \<Rightarrow> jsnum \<Rightarrow> jsnum \<Rightarrow> jsnum \<Rightarrow> jsnum" where
  "computeSpotExitPnlUsd sizeUsd tokenUnits exitTokenPriceUsd transactionCostBps =
    (let exitGrossUsd = js_mul tokenUnits exitTokenPriceUsd;
         entryCostsUsd = js_mul sizeUsd (js_div transactionCostBps (Num 10000));
         exitCostsUsd = js_mul exitGrossUsd (js_div transactionCostBps (Num 10000))
     in js_sub (js_sub (js_sub exitGrossUsd sizeUsd) entryCostsUsd) exitCostsUsd)"

section \<open>The two-size replay (two-size-backtest.ts)\<close>

datatype twoSizeRecommendedAction = DO_NOTHING | TRADE_250 | TRADE_1000 | RESEARCH_ONLY_ACTION

datatype twoSizeSkipReason = NON_LIVE | EDGE_BELOW_THRESHOLD | SKIP_MISSING_EXIT_QUOTE | POSITION_ALREADY_OPEN
  | EXIT_NOT_PROFITABLE

record twoSizeBacktestOptions =
  to_minNetEdgeBps :: jsnum
  to_transactionCostBps :: jsnum
  to_minLiveSamples :: jsnum
  to_researchOnly :: "bool option"

record twoSizePosition =
  tp_tokenUnits :: jsnum
  tp_entryAtMs :: jsnum

record twoSizeBacktestSizeResult =
  tr_size :: jsnum
  tr_latestEdgeBps :: "jsnum option"
  tr_pnlUsd :: jsnum
  tr_closedTrades :: nat
  tr_openPositions :: nat

record twoSizeBacktestV2Result =
  tv_edge250Bps :: "jsnum option"
  tv_edge1000Bps :: "jsnum option"
  tv_pnl250 :: jsnum
  tv_pnl1000 :: jsnum
  tv_edgeNext750Bps :: "jsnum option"
  tv_recommendedAction :: twoSizeRecommendedAction
  tv_sizeResults :: "twoSizeBacktestSizeResult list"
  tv_liveEligibleCount :: nat
  tv_skippedSignalReasons :: "(twoSizeSkipReason \<times> nat) list"

definition SIZES :: "jsnum list" where
  "SIZES = [Num 250, Num 1000]"

text \<open>The maps and the counter of the loop.\<close>

record twoSizeState =
  ts_latestBuy :: "(jsnum, backtestObservation) dict"
  ts_latestSell :: "(jsnum, backtestObservation) dict"
  ts_positions :: "(jsnum, twoSizePosition) dict"
  ts_pnl :: "(jsnum, jsnum) dict"
  ts_closed :: "(jsnum, nat) dict"
  ts_skipped :: "(twoSizeSkipReason, nat) dict"
  ts_live :: nat

definition two_size_start :: twoSizeState where
  "two_size_start = \<lparr> ts_latestBuy = [], ts_latestSell = [], ts_positions = [],
     ts_pnl = map (\<lambda>s. (s, Num 0)) SIZES, ts_closed = map (\<lambda>s. (s, 0)) SIZES, ts_skipped = [], ts_live = 0 \<rparr>"

text \<open>map.get(key) ?? default\<close>

definition get_or :: "('k, 'v) dict \<Rightarrow> 'k \<Rightarrow> 'v \<Rightarrow> 'v" where
  "get_or d k v = (case dict_get d k of Some x \<Rightarrow> x | None \<Rightarrow> v)"

definition inc :: "twoSizeSkipReason \<Rightarrow> twoSizeState \<Rightarrow> twoSizeState" where
  "inc r s = s\<lparr> ts_skipped := dict_set (ts_skipped s) r (Suc (get_or (ts_skipped s) r 0)) \<rparr>"

definition maybeOpen :: "twoSizeBacktestOptions \<Rightarrow> backtestObservation \<Rightarrow> twoSizeState \<Rightarrow> twoSizeState" where
  "maybeOpen opts row s =
    (if js_lt (ob_netBps row) (to_minNetEdgeBps opts) then inc EDGE_BELOW_THRESHOLD s
     else if dict_has (ts_positions s) (ob_sizeUsd row) then inc POSITION_ALREADY_OPEN s
     else if \<not> dict_has (ts_latestSell s) (ob_sizeUsd row) then inc SKIP_MISSING_EXIT_QUOTE s
     else if js_le (ob_tokenPriceUsd row) (Num 0) then s
     else s\<lparr> ts_positions := dict_set (ts_positions s) (ob_sizeUsd row)
            \<lparr> tp_tokenUnits = js_div (ob_sizeUsd row) (ob_tokenPriceUsd row), tp_entryAtMs = ob_observedAtMs row \<rparr> \<rparr>)"

definition maybeClose :: "twoSizeBacktestOptions \<Rightarrow> backtestObservation \<Rightarrow> twoSizeState \<Rightarrow> twoSizeState" where
  "maybeClose opts row s = (case dict_get (ts_positions s) (ob_sizeUsd row) of
     None \<Rightarrow> s
   | Some p \<Rightarrow>
      if js_le (ob_observedAtMs row) (tp_entryAtMs p) then s
      else let exitPnl = computeSpotExitPnlUsd (ob_sizeUsd row) (tp_tokenUnits p) (ob_tokenPriceUsd row)
                           (to_transactionCostBps opts)
        in if js_lt exitPnl (Num 0) then inc EXIT_NOT_PROFITABLE s
           else s\<lparr> ts_pnl := dict_set (ts_pnl s) (ob_sizeUsd row) (js_add (get_or (ts_pnl s) (ob_sizeUsd row) (Num 0)) exitPnl),
                  ts_closed := dict_set (ts_closed s) (ob_sizeUsd row) (Suc (get_or (ts_closed s) (ob_sizeUsd row) 0)),
                  ts_positions := dict_del (ts_positions s) (ob_sizeUsd row) \<rparr>)"

definition two_size_step :: "twoSizeBacktestOptions \<Rightarrow> twoSizeState \<Rightarrow> backtestObservation \<Rightarrow> twoSizeState" where
  "two_size_step opts s row =
    (if ob_qualityStatus row \<noteq> Some LIVE_ELIGIBLE then inc NON_LIVE s
     else let s1 = s\<lparr> ts_live := Suc (ts_live s) \<rparr> in
       (case ob_side row of
          BuyTokenized \<Rightarrow> maybeOpen opts row (s1\<lparr> ts_latestBuy := dict_set (ts_latestBuy s1) (ob_sizeUsd row) row \<rparr>)
        | SellTokenized \<Rightarrow> maybeClose opts row (s1\<lparr> ts_latestSell := dict_set (ts_latestSell s1) (ob_sizeUsd row) row \<rparr>)))"

definition marginalNext750EdgeBps ::
  "backtestObservation option \<Rightarrow> backtestObservation option \<Rightarrow> jsnum \<Rightarrow> jsnum option" where
  "marginalNext750EdgeBps b250 b1000 cost = (case (b250, b1000) of
     (Some x, Some y) \<Rightarrow>
       if js_le (ob_basePriceUsd x) (Num 0) \<or> js_le (ob_basePriceUsd y) (Num 0) then None
       else if js_le (ob_tokenPriceUsd x) (Num 0) \<or> js_le (ob_tokenPriceUsd y) (Num 0) then None
       else let out250 = js_div (Num 250) (ob_tokenPriceUsd x);
                out1000 = js_div (Num 1000) (ob_tokenPriceUsd y);
                outNext750 = js_sub out1000 out250
         in if js_le outNext750 (Num 0) then None
            else let marginalPrice = js_div (Num 750) outNext750; base = ob_basePriceUsd y
              in Some (js_sub (js_mul (js_div (js_sub base marginalPrice) base) (Num 10000)) cost)
   | _ \<Rightarrow> None)"

definition or_minus_infinity :: "jsnum option \<Rightarrow> jsnum" where
  "or_minus_infinity v = (case v of Some x \<Rightarrow> x | None \<Rightarrow> NInf)"

definition recommendAction ::
  "jsnum option \<Rightarrow> jsnum option \<Rightarrow> jsnum option \<Rightarrow> nat \<Rightarrow> twoSizeBacktestOptions \<Rightarrow> twoSizeRecommendedAction" where
  "recommendAction e250 e1000 e750 live opts =
    (let edge250 = or_minus_infinity e250; edge1000 = or_minus_infinity e1000; m = to_minNetEdgeBps opts in
     if to_researchOnly opts = Some True \<or> js_lt (js_count live) (to_minLiveSamples opts) then RESEARCH_ONLY_ACTION
     else if js_lt edge250 m \<and> js_lt edge1000 m then DO_NOTHING
     else if js_ge edge1000 m \<and> js_ge (case e750 of Some x \<Rightarrow> x | None \<Rightarrow> edge1000) m then TRADE_1000
     else if js_ge edge250 m then TRADE_250
     else DO_NOTHING)"

definition two_size_rows :: "backtestObservation list \<Rightarrow> backtestObservation list" where
  "two_size_rows obs = js_sort (gt_on ob_observedAtMs) (filter (\<lambda>r. ob_sizeUsd r \<in> set SIZES) obs)"

definition runTwoSizeBacktestV2 :: "backtestObservation list \<Rightarrow> twoSizeBacktestOptions \<Rightarrow> twoSizeBacktestV2Result" where
  "runTwoSizeBacktestV2 obs opts =
    (let s = foldl (two_size_step opts) two_size_start (two_size_rows obs);
         edge = (\<lambda>size. map_option ob_netBps (dict_get (ts_latestBuy s) size));
         e750 = marginalNext750EdgeBps (dict_get (ts_latestBuy s) (Num 250)) (dict_get (ts_latestBuy s) (Num 1000))
                  (to_transactionCostBps opts)
     in \<lparr> tv_edge250Bps = edge (Num 250), tv_edge1000Bps = edge (Num 1000),
          tv_pnl250 = get_or (ts_pnl s) (Num 250) (Num 0), tv_pnl1000 = get_or (ts_pnl s) (Num 1000) (Num 0),
          tv_edgeNext750Bps = e750,
          tv_recommendedAction = recommendAction (edge (Num 250)) (edge (Num 1000)) e750 (ts_live s) opts,
          tv_sizeResults = map (\<lambda>size. \<lparr> tr_size = size, tr_latestEdgeBps = edge size,
             tr_pnlUsd = get_or (ts_pnl s) size (Num 0), tr_closedTrades = get_or (ts_closed s) size 0,
             tr_openPositions = (if dict_has (ts_positions s) size then 1 else 0) \<rparr>) SIZES,
          tv_liveEligibleCount = ts_live s, tv_skippedSignalReasons = ts_skipped s \<rparr>)"

section \<open>The hold-horizon replay (hold-horizon.ts)\<close>

record holdPosition =
  hp_sizeUsd :: jsnum
  hp_tokenUnits :: jsnum
  hp_entryAtMs :: jsnum
  hp_entryRatio :: "jsnum option"

text \<open>MutableSizeResult; the derived fields are filled when the row is finished.\<close>

record mutableSizeResult =
  mr_sizeUsd :: jsnum
  mr_pnlUsd :: jsnum
  mr_closedTrades :: nat
  mr_winningTrades :: nat
  mr_timedOutTrades :: nat
  mr_openPositions :: nat
  mr_deployedUsd :: jsnum
  mr_holdSecondsSum :: jsnum
  mr_deployedUsdSeconds :: jsnum
  mr_ratioMoveBpsSum :: jsnum
  mr_ratioMoveCount :: nat

record holdHorizonSizeResult =
  hs_sizeUsd :: jsnum
  hs_pnlUsd :: jsnum
  hs_closedTrades :: nat
  hs_winningTrades :: nat
  hs_timedOutTrades :: nat
  hs_openPositions :: nat
  hs_deployedUsd :: jsnum
  hs_returnPct :: jsnum
  hs_annualizedReturnPct :: "jsnum option"
  hs_avgRatioMoveBps :: "jsnum option"
  hs_winRate :: jsnum
  hs_avgHoldSeconds :: jsnum

record holdHorizonReplayRow = holdHorizonSizeResult +
  hr_horizonMs :: jsnum
  hr_sampleWindowMs :: jsnum
  hr_horizonCovered :: bool
  hr_sizeResults :: "holdHorizonSizeResult list"

record holdHorizonReplayOptions =
  ho_minNetEdgeBps :: jsnum
  ho_transactionCostBps :: jsnum
  ho_horizonsMs :: "jsnum list"

definition SECONDS_PER_YEAR :: jsnum where
  "SECONDS_PER_YEAR = Num 31536000"

definition computeReturnPct :: "jsnum \<Rightarrow> jsnum \<Rightarrow> jsnum" where
  "computeReturnPct pnl deployed = (if js_eq deployed (Num 0) then Num 0 else js_div pnl deployed)"

definition computeAnnualizedReturnPct :: "jsnum \<Rightarrow> jsnum \<Rightarrow> jsnum option" where
  "computeAnnualizedReturnPct pnl deployedSecs =
    (if js_eq deployedSecs (Num 0) then None else Some (js_div (js_mul pnl SECONDS_PER_YEAR) deployedSecs))"

definition computeAverageRatioMoveBps :: "jsnum \<Rightarrow> nat \<Rightarrow> jsnum option" where
  "computeAverageRatioMoveBps total_bps n = (if n = 0 then None else Some (js_div total_bps (js_count n)))"

definition computeRatio :: "backtestObservation \<Rightarrow> jsnum option" where
  "computeRatio row = (if js_gt (ob_basePriceUsd row) (Num 0) \<and> js_gt (ob_tokenPriceUsd row) (Num 0)
     then Some (js_div (ob_tokenPriceUsd row) (ob_basePriceUsd row)) else None)"

definition computeRatioMoveBps :: "jsnum option \<Rightarrow> jsnum option \<Rightarrow> jsnum option" where
  "computeRatioMoveBps entry exit = (case (entry, exit) of
     (Some a, Some b) \<Rightarrow> if js_le a (Num 0) then None else Some (ratio_bps (js_div b a))
   | _ \<Rightarrow> None)"

record holdState =
  hh_positions :: "(jsnum, holdPosition) dict"
  hh_sellRouteSeen :: "jsnum list"
  hh_results :: "(jsnum, mutableSizeResult) dict"

definition hold_start :: holdState where
  "hold_start = \<lparr> hh_positions = [], hh_sellRouteSeen = [], hh_results = [] \<rparr>"

definition empty_result :: "jsnum \<Rightarrow> mutableSizeResult" where
  "empty_result sz = \<lparr> mr_sizeUsd = sz, mr_pnlUsd = Num 0, mr_closedTrades = 0, mr_winningTrades = 0,
     mr_timedOutTrades = 0, mr_openPositions = 0, mr_deployedUsd = Num 0, mr_holdSecondsSum = Num 0,
     mr_deployedUsdSeconds = Num 0, mr_ratioMoveBpsSum = Num 0, mr_ratioMoveCount = 0 \<rparr>"

definition ensureResult :: "jsnum \<Rightarrow> (jsnum, mutableSizeResult) dict \<Rightarrow> (jsnum, mutableSizeResult) dict" where
  "ensureResult sz d = (if dict_has d sz then d else dict_set d sz (empty_result sz))"

text \<open>ensureResult(results, size) followed by an update of the row it returns.\<close>

definition update_result ::
  "jsnum \<Rightarrow> (mutableSizeResult \<Rightarrow> mutableSizeResult) \<Rightarrow> (jsnum, mutableSizeResult) dict \<Rightarrow> (jsnum, mutableSizeResult) dict" where
  "update_result sz f d = dict_set (ensureResult sz d) sz (f (get_or (ensureResult sz d) sz (empty_result sz)))"

definition maybeOpenHold :: "jsnum \<Rightarrow> backtestObservation \<Rightarrow> holdState \<Rightarrow> holdState" where
  "maybeOpenHold minNetEdgeBps row s =
    (if dict_has (hh_positions s) (ob_sizeUsd row) then s
     else if ob_sizeUsd row \<notin> set (hh_sellRouteSeen s) then s
     else if js_lt (ob_netBps row) minNetEdgeBps then s
     else if js_le (ob_tokenPriceUsd row) (Num 0) then s
     else s\<lparr> hh_positions := dict_set (hh_positions s) (ob_sizeUsd row)
       \<lparr> hp_sizeUsd = ob_sizeUsd row, hp_tokenUnits = js_div (ob_sizeUsd row) (ob_tokenPriceUsd row),
         hp_entryAtMs = ob_observedAtMs row, hp_entryRatio = computeRatio row \<rparr> \<rparr>)"

text \<open>The update of the size result by one closed trade.\<close>

definition book_trade :: "holdPosition \<Rightarrow> backtestObservation \<Rightarrow> jsnum \<Rightarrow> bool \<Rightarrow> mutableSizeResult \<Rightarrow> mutableSizeResult" where
  "book_trade p row pnlUsd timedOut r =
    (let holdSeconds = js_div (js_sub (ob_observedAtMs row) (hp_entryAtMs p)) (Num 1000);
         move = computeRatioMoveBps (hp_entryRatio p) (computeRatio row)
     in r\<lparr> mr_pnlUsd := js_add (mr_pnlUsd r) pnlUsd,
          mr_closedTrades := Suc (mr_closedTrades r),
          mr_winningTrades := (if js_gt pnlUsd (fl (1/100)) then Suc (mr_winningTrades r) else mr_winningTrades r),
          mr_timedOutTrades := (if timedOut \<and> \<not> js_ge pnlUsd (Num 0) then Suc (mr_timedOutTrades r) else mr_timedOutTrades r),
          mr_deployedUsd := js_add (mr_deployedUsd r) (hp_sizeUsd p),
          mr_holdSecondsSum := js_add (mr_holdSecondsSum r) holdSeconds,
          mr_deployedUsdSeconds := js_add (mr_deployedUsdSeconds r) (js_mul (hp_sizeUsd p) holdSeconds),
          mr_ratioMoveBpsSum := (case move of Some m \<Rightarrow> js_add (mr_ratioMoveBpsSum r) m | None \<Rightarrow> mr_ratioMoveBpsSum r),
          mr_ratioMoveCount := (case move of Some m \<Rightarrow> Suc (mr_ratioMoveCount r) | None \<Rightarrow> mr_ratioMoveCount r) \<rparr>)"

definition maybeCloseHold :: "jsnum \<Rightarrow> jsnum \<Rightarrow> backtestObservation \<Rightarrow> holdState \<Rightarrow> holdState" where
  "maybeCloseHold horizonMs cost row s = (case dict_get (hh_positions s) (ob_sizeUsd row) of
     None \<Rightarrow> s
   | Some p \<Rightarrow>
      if js_le (ob_observedAtMs row) (hp_entryAtMs p) then s
      else let pnlUsd = computeSpotExitPnlUsd (hp_sizeUsd p) (hp_tokenUnits p) (ob_tokenPriceUsd row) cost;
               timedOut = js_ge (js_sub (ob_observedAtMs row) (hp_entryAtMs p)) horizonMs
        in if \<not> js_ge pnlUsd (Num 0) \<and> \<not> timedOut then s
           else s\<lparr> hh_results := update_result (ob_sizeUsd row) (book_trade p row pnlUsd timedOut) (hh_results s),
                  hh_positions := dict_del (hh_positions s) (ob_sizeUsd row) \<rparr>)"

definition hold_step :: "holdHorizonReplayOptions \<Rightarrow> jsnum \<Rightarrow> holdState \<Rightarrow> backtestObservation \<Rightarrow> holdState" where
  "hold_step opts horizonMs s row =
    (let s1 = s\<lparr> hh_results := ensureResult (ob_sizeUsd row) (hh_results s) \<rparr> in
     case ob_side row of
       SellTokenized \<Rightarrow> maybeCloseHold horizonMs (ho_transactionCostBps opts) row
         (s1\<lparr> hh_sellRouteSeen := List.insert (ob_sizeUsd row) (hh_sellRouteSeen s1) \<rparr>)
     | BuyTokenized \<Rightarrow> maybeOpenHold (ho_minNetEdgeBps opts) row s1)"

definition count_open :: "(jsnum, holdPosition) dict \<Rightarrow> (jsnum, mutableSizeResult) dict \<Rightarrow> (jsnum, mutableSizeResult) dict" where
  "count_open positions results =
     foldl (\<lambda>d (sz, p). update_result sz (\<lambda>r. r\<lparr> mr_openPositions := Suc (mr_openPositions r) \<rparr>) d) results positions"

definition add_totals :: "mutableSizeResult \<Rightarrow> mutableSizeResult \<Rightarrow> mutableSizeResult" where
  "add_totals acc row = acc\<lparr> mr_pnlUsd := js_add (mr_pnlUsd acc) (mr_pnlUsd row),
     mr_closedTrades := mr_closedTrades acc + mr_closedTrades row,
     mr_winningTrades := mr_winningTrades acc + mr_winningTrades row,
     mr_timedOutTrades := mr_timedOutTrades acc + mr_timedOutTrades row,
     mr_openPositions := mr_openPositions acc + mr_openPositions row,
     mr_deployedUsd := js_add (mr_deployedUsd acc) (mr_deployedUsd row),
     mr_holdSecondsSum := js_add (mr_holdSecondsSum acc) (mr_holdSecondsSum row),
     mr_deployedUsdSeconds := js_add (mr_deployedUsdSeconds acc) (mr_deployedUsdSeconds row),
     mr_ratioMoveBpsSum := js_add (mr_ratioMoveBpsSum acc) (mr_ratioMoveBpsSum row),
     mr_ratioMoveCount := mr_ratioMoveCount acc + mr_ratioMoveCount row \<rparr>"

definition finalizeSizeResult :: "mutableSizeResult \<Rightarrow> holdHorizonSizeResult" where
  "finalizeSizeResult r = \<lparr> hs_sizeUsd = mr_sizeUsd r, hs_pnlUsd = mr_pnlUsd r, hs_closedTrades = mr_closedTrades r,
     hs_winningTrades = mr_winningTrades r, hs_timedOutTrades = mr_timedOutTrades r,
     hs_openPositions = mr_openPositions r, hs_deployedUsd = mr_deployedUsd r,
     hs_returnPct = computeReturnPct (mr_pnlUsd r) (mr_deployedUsd r),
     hs_annualizedReturnPct = computeAnnualizedReturnPct (mr_pnlUsd r) (mr_deployedUsdSeconds r),
     hs_avgRatioMoveBps = computeAverageRatioMoveBps (mr_ratioMoveBpsSum r) (mr_ratioMoveCount r),
     hs_winRate = (if mr_closedTrades r = 0 then Num 0 else js_div (js_count (mr_winningTrades r)) (js_count (mr_closedTrades r))),
     hs_avgHoldSeconds = (if mr_closedTrades r = 0 then Num 0 else js_div (mr_holdSecondsSum r) (js_count (mr_closedTrades r))) \<rparr>"

text \<open>The totals are finished by the same expressions; they carry no size (a zero stands for it).\<close>

definition runOneHorizon ::
  "backtestObservation list \<Rightarrow> jsnum \<Rightarrow> jsnum \<Rightarrow> holdHorizonReplayOptions \<Rightarrow> holdHorizonReplayRow" where
  "runOneHorizon rows horizonMs sampleWindowMs opts =
    (let s = foldl (hold_step opts horizonMs) hold_start rows;
         resultRows = js_sort (gt_on mr_sizeUsd) (map snd (count_open (hh_positions s) (hh_results s)))
     in holdHorizonSizeResult.extend (finalizeSizeResult (foldl add_totals (empty_result (Num 0)) resultRows))
          \<lparr> hr_horizonMs = horizonMs, hr_sampleWindowMs = sampleWindowMs,
            hr_horizonCovered = js_ge sampleWindowMs horizonMs,
            hr_sizeResults = map finalizeSizeResult resultRows \<rparr>)"

definition hold_rows :: "backtestObservation list \<Rightarrow> backtestObservation list" where
  "hold_rows obs = js_sort (gt_on ob_observedAtMs) (filter (\<lambda>r. ob_qualityStatus r = Some LIVE_ELIGIBLE) obs)"

definition runHoldHorizonReplay :: "backtestObservation list \<Rightarrow> holdHorizonReplayOptions \<Rightarrow> holdHorizonReplayRow list" where
  "runHoldHorizonReplay obs opts =
    (let rows = hold_rows obs;
         sampleWindowMs = (if length rows < 2 then Num 0
                           else js_sub (ob_observedAtMs (last rows)) (ob_observedAtMs (hd rows)))
     in map (\<lambda>h. runOneHorizon rows h sampleWindowMs opts) (ho_horizonsMs opts))"

section \<open>The replays keep their books\<close>

definition buys_of :: "jsnum \<Rightarrow> backtestObservation list \<Rightarrow> nat" where
  "buys_of k rows = length (filter (\<lambda>r. ob_qualityStatus r = Some LIVE_ELIGIBLE \<and> ob_side r = BuyTokenized \<and> ob_sizeUsd r = k) rows)"

lemma length_filter_mset: "mset xs = mset ys \<Longrightarrow> length (filter P xs) = length (filter P ys)"
  by (metis mset_filter size_mset)

lemma buys_of_append: "buys_of k (xs @ [x]) = buys_of k xs +
    (if ob_qualityStatus x = Some LIVE_ELIGIBLE \<and> ob_side x = BuyTokenized \<and> ob_sizeUsd x = k then 1 else 0)"
  by (simp add: buys_of_def)

lemma buys_of_filter: "(\<And>r. r \<in> set xs \<Longrightarrow> ob_sizeUsd r = k \<Longrightarrow> ob_qualityStatus r = Some LIVE_ELIGIBLE \<Longrightarrow> P r) \<Longrightarrow>
    buys_of k (filter P xs) = buys_of k xs"
  unfolding buys_of_def filter_filter by (rule arg_cong [where f = length], rule filter_cong) auto

lemma buys_of_sort: "buys_of k (js_sort gt xs) = buys_of k xs"
  unfolding buys_of_def by (rule length_filter_mset) simp

lemma get_or_set: "get_or (dict_set d k v) j w = (if j = k then v else get_or d j w)"
  by (simp add: get_or_def dict_laws)

lemma dict_has_set: "dict_has (dict_set d k v) j \<longleftrightarrow> j = k \<or> dict_has d j"
  by (simp add: dict_has_def dict_laws)

lemma dict_has_del: "dict_has (dict_del d k) j \<longleftrightarrow> j \<noteq> k \<and> dict_has d j"
  by (simp add: dict_has_def dict_laws)

lemma js_add_not_neg: "\<not> js_lt x (Num 0) \<Longrightarrow> \<not> js_lt y (Num 0) \<Longrightarrow> \<not> js_lt (js_add x y) (Num 0)"
proof -
  assume a: "\<not> js_lt x (Num 0)" "\<not> js_lt y (Num 0)"
  show ?thesis
  proof (cases "x = NaN \<or> y = NaN")
    case True
    then show ?thesis by (cases x; cases y) auto
  next
    case False
    then have "js_le (Num 0) x" "js_le (Num 0) y" using a js_not_lt [of x "Num 0"] js_not_lt [of y "Num 0"] by simp_all
    then have le: "js_le (Num 0) (js_add x y)" by (rule js_add_nonneg)
    show ?thesis
    proof
      assume "js_lt (js_add x y) (Num 0)"
      from js_le_lt_trans [OF le this] show False by simp
    qed
  qed
qed

subsection \<open>The two-size replay\<close>

definition two_size_ok :: "nat \<Rightarrow> twoSizeState \<Rightarrow> jsnum \<Rightarrow> bool" where
  "two_size_ok n s k \<longleftrightarrow> \<not> js_lt (get_or (ts_pnl s) k (Num 0)) (Num 0) \<and>
     get_or (ts_closed s) k 0 + (if dict_has (ts_positions s) k then 1 else 0) \<le> n \<and>
     (dict_has (ts_positions s) k \<or> 0 < get_or (ts_closed s) k 0 \<longrightarrow> dict_has (ts_latestSell s) k)"

definition two_size_inv :: "(jsnum \<Rightarrow> nat) \<Rightarrow> twoSizeState \<Rightarrow> bool" where
  "two_size_inv n s \<longleftrightarrow> (\<forall>k. two_size_ok (n k) s k)"

lemma inc_fields [simp]:
  "ts_pnl (inc r s) = ts_pnl s" "ts_closed (inc r s) = ts_closed s" "ts_positions (inc r s) = ts_positions s"
  "ts_latestSell (inc r s) = ts_latestSell s" "ts_latestBuy (inc r s) = ts_latestBuy s" "ts_live (inc r s) = ts_live s"
  by (simp_all add: inc_def)

lemma two_size_inv_start: "two_size_inv (\<lambda>k. buys_of k []) two_size_start"
  by (auto simp add: two_size_inv_def two_size_ok_def two_size_start_def get_or_def dict_has_def buys_of_def SIZES_def)

lemma maybeOpen_inv:
  assumes "two_size_inv n s"
  shows "two_size_inv (\<lambda>k. n k + (if k = ob_sizeUsd row then 1 else 0)) (maybeOpen opts row s)"
  unfolding two_size_inv_def
proof
  fix k
  have "two_size_ok (n k) s k" using assms by (simp add: two_size_inv_def)
  then show "two_size_ok (n k + (if k = ob_sizeUsd row then 1 else 0)) (maybeOpen opts row s) k"
    unfolding two_size_ok_def maybeOpen_def
    by (cases "dict_has (ts_positions s) k") (auto simp add: dict_has_set trans_le_add1 split: if_splits)
qed

lemma maybeClose_inv:
  assumes "two_size_inv n s" "dict_has (ts_latestSell s) (ob_sizeUsd row)"
  shows "two_size_inv n (maybeClose opts row s)"
proof (cases "dict_get (ts_positions s) (ob_sizeUsd row)")
  case None
  then show ?thesis using assms by (simp add: maybeClose_def)
next
  case (Some p)
  have has: "dict_has (ts_positions s) (ob_sizeUsd row)" using Some by (simp add: dict_has_def)
  show ?thesis
  proof (cases "maybeClose opts row s = s \<or> maybeClose opts row s = inc EXIT_NOT_PROFITABLE s")
    case True
    then show ?thesis using assms unfolding two_size_inv_def two_size_ok_def by (elim disjE) simp_all
  next
    case False
    define exitPnl where "exitPnl = computeSpotExitPnlUsd (ob_sizeUsd row) (tp_tokenUnits p) (ob_tokenPriceUsd row)
                           (to_transactionCostBps opts)"
    have pos: "\<not> js_lt exitPnl (Num 0)" and s': "maybeClose opts row s =
      s\<lparr> ts_pnl := dict_set (ts_pnl s) (ob_sizeUsd row) (js_add (get_or (ts_pnl s) (ob_sizeUsd row) (Num 0)) exitPnl),
         ts_closed := dict_set (ts_closed s) (ob_sizeUsd row) (Suc (get_or (ts_closed s) (ob_sizeUsd row) 0)),
         ts_positions := dict_del (ts_positions s) (ob_sizeUsd row) \<rparr>"
      using False Some by (auto simp add: maybeClose_def Let_def exitPnl_def split: if_splits)
    show ?thesis unfolding two_size_inv_def
    proof
      fix k
      have "two_size_ok (n k) s k" using assms by (simp add: two_size_inv_def)
      then show "two_size_ok (n k) (maybeClose opts row s) k"
        using assms(2) has js_add_not_neg [OF _ pos] unfolding s' two_size_ok_def
        by (cases "k = ob_sizeUsd row") (auto simp add: get_or_set dict_has_del)
    qed
  qed
qed

lemma two_size_inv_fields:
  "two_size_inv n (s\<lparr> ts_live := l \<rparr>) \<longleftrightarrow> two_size_inv n s"
  "two_size_inv n (s\<lparr> ts_live := l, ts_latestBuy := d \<rparr>) \<longleftrightarrow> two_size_inv n s"
  by (simp_all add: two_size_inv_def two_size_ok_def)

lemma two_size_step_inv:
  assumes "two_size_inv (\<lambda>k. buys_of k rows) s"
  shows "two_size_inv (\<lambda>k. buys_of k (rows @ [row])) (two_size_step opts s row)"
proof (cases "ob_qualityStatus row = Some LIVE_ELIGIBLE")
  case False
  then show ?thesis using assms by (simp add: two_size_step_def two_size_inv_def two_size_ok_def buys_of_append)
next
  case True
  show ?thesis
  proof (cases "ob_side row")
    case BuyTokenized
    have n: "(\<lambda>k. buys_of k (rows @ [row])) = (\<lambda>k. buys_of k rows + (if k = ob_sizeUsd row then 1 else 0))"
      using True BuyTokenized by (auto simp add: buys_of_append)
    show ?thesis unfolding n using True BuyTokenized assms
      by (simp add: two_size_step_def Let_def maybeOpen_inv two_size_inv_fields)
  next
    case SellTokenized
    have n: "(\<lambda>k. buys_of k (rows @ [row])) = (\<lambda>k. buys_of k rows)"
      using SellTokenized by (simp add: buys_of_append)
    let ?s = "s\<lparr> ts_live := Suc (ts_live s), ts_latestSell := dict_set (ts_latestSell s) (ob_sizeUsd row) row \<rparr>"
    have "two_size_inv (\<lambda>k. buys_of k rows) ?s" using assms by (auto simp add: two_size_inv_def two_size_ok_def dict_has_set)
    then show ?thesis unfolding n using True SellTokenized
      by (simp add: two_size_step_def Let_def maybeClose_inv dict_has_set)
  qed
qed

lemma two_size_run_inv: "two_size_inv (\<lambda>k. buys_of k rows) (foldl (two_size_step opts) two_size_start rows)"
  by (induction rows rule: rev_induct) (simp_all add: two_size_inv_start two_size_step_inv)

text \<open>The two-size replay never reports a loss and never counts a trade it did not open: for each of
  the two sizes the profit is not negative (an exit at a loss is skipped and the position kept), at
  most one position is open, and the closed and open positions together are at most the live-eligible
  buy quotes of that size.\<close>

theorem two_size_books:
  assumes "r \<in> set (tv_sizeResults (runTwoSizeBacktestV2 obs opts))"
  shows "\<not> js_lt (tr_pnlUsd r) (Num 0) \<and> tr_openPositions r \<le> 1 \<and>
    tr_closedTrades r + tr_openPositions r \<le> buys_of (tr_size r) obs"
proof -
  define s where "s = foldl (two_size_step opts) two_size_start (two_size_rows obs)"
  have inv: "two_size_inv (\<lambda>k. buys_of k (two_size_rows obs)) s" unfolding s_def by (rule two_size_run_inv)
  from assms obtain k where k: "k \<in> set SIZES" "tr_size r = k" "tr_pnlUsd r = get_or (ts_pnl s) k (Num 0)"
    "tr_closedTrades r = get_or (ts_closed s) k 0" "tr_openPositions r = (if dict_has (ts_positions s) k then 1 else 0)"
    by (auto simp add: runTwoSizeBacktestV2_def Let_def s_def)
  have "buys_of k (two_size_rows obs) = buys_of k obs"
    using k(1) by (simp add: two_size_rows_def buys_of_sort buys_of_filter)
  moreover have "two_size_ok (buys_of k (two_size_rows obs)) s k" using inv by (simp add: two_size_inv_def)
  ultimately show ?thesis using k by (auto simp add: two_size_ok_def)
qed

definition demo_row :: "pairDirection \<Rightarrow> rat \<Rightarrow> rat \<Rightarrow> backtestObservation" where
  "demo_row side t price = \<lparr> ob_side = side, ob_sizeUsd = Num 250, ob_observedAtMs = Num t, ob_basePriceUsd = Num 10,
     ob_tokenPriceUsd = Num price, ob_netBps = Num 80, ob_qualityStatus = Some LIVE_ELIGIBLE \<rparr>"

theorem two_size_books_witness:
  defines "obs \<equiv> [demo_row SellTokenized 1 10, demo_row BuyTokenized 2 10, demo_row SellTokenized 3 5]"
    and "opts \<equiv> \<lparr> to_minNetEdgeBps = Num 50, to_transactionCostBps = Num 10, to_minLiveSamples = Num 1, to_researchOnly = None \<rparr>"
  shows "\<not> js_lt (tr_pnlUsd (hd (tv_sizeResults (runTwoSizeBacktestV2 obs opts)))) (Num 0)"
proof -
  have "hd (tv_sizeResults (runTwoSizeBacktestV2 obs opts)) \<in> set (tv_sizeResults (runTwoSizeBacktestV2 obs opts))"
    by (simp add: runTwoSizeBacktestV2_def Let_def SIZES_def)
  from two_size_books [OF this] show ?thesis by blast
qed

subsection \<open>The hold-horizon replay\<close>

text \<open>What the result row of a size satisfies, n being the buy quotes of that size seen so far.\<close>

definition trades_ok :: "mutableSizeResult \<Rightarrow> bool" where
  "trades_ok r \<longleftrightarrow> mr_winningTrades r + mr_timedOutTrades r \<le> mr_closedTrades r \<and>
     (mr_timedOutTrades r = 0 \<longrightarrow> \<not> js_lt (mr_pnlUsd r) (Num 0))"

definition hold_ok :: "nat \<Rightarrow> holdState \<Rightarrow> jsnum \<Rightarrow> bool" where
  "hold_ok n s k \<longleftrightarrow> (dict_has (hh_positions s) k \<longrightarrow> dict_has (hh_results s) k \<and> k \<in> set (hh_sellRouteSeen s)) \<and>
     (\<forall>r. dict_get (hh_results s) k = Some r \<longrightarrow> trades_ok r \<and> mr_openPositions r = 0 \<and> mr_sizeUsd r = k \<and>
        mr_closedTrades r + (if dict_has (hh_positions s) k then 1 else 0) \<le> n)"

definition hold_inv :: "(jsnum \<Rightarrow> nat) \<Rightarrow> holdState \<Rightarrow> bool" where
  "hold_inv n s \<longleftrightarrow> (\<forall>k. hold_ok (n k) s k) \<and> dict_ok (hh_results s) \<and> dict_ok (hh_positions s)"

lemma ensureResult_get:
  "dict_get (ensureResult k d) j = (if j = k \<and> \<not> dict_has d k then Some (empty_result k) else dict_get d j)"
  by (auto simp add: ensureResult_def dict_laws)

lemma ensureResult_ok: "dict_ok d \<Longrightarrow> dict_ok (ensureResult k d)"
  by (simp add: ensureResult_def dict_ok_set)

lemma ensureResult_has: "dict_has (ensureResult k d) j \<longleftrightarrow> j = k \<or> dict_has d j"
  by (auto simp add: dict_has_def ensureResult_get)

lemma update_result_get:
  "dict_get (update_result k f d) j = (if j = k then Some (f (get_or d k (empty_result k))) else dict_get d j)"
  by (auto simp add: update_result_def dict_laws ensureResult_get get_or_def dict_has_def split: option.splits)

lemma update_result_ok: "dict_ok d \<Longrightarrow> dict_ok (update_result k f d)"
  by (simp add: update_result_def dict_ok_set ensureResult_ok)

lemma hold_inv_ensure:
  assumes "hold_inv n s" shows "hold_inv n (s\<lparr> hh_results := ensureResult k (hh_results s) \<rparr>)"
proof -
  have "hold_ok (n j) (s\<lparr> hh_results := ensureResult k (hh_results s) \<rparr>) j" for j
  proof -
    have "hold_ok (n j) s j" using assms by (simp add: hold_inv_def)
    then show ?thesis by (auto simp add: hold_ok_def ensureResult_get ensureResult_has empty_result_def trades_ok_def split: if_splits)
  qed
  then show ?thesis using assms by (simp add: hold_inv_def ensureResult_ok)
qed

lemma maybeOpenHold_inv:
  assumes "hold_inv n s" "dict_has (hh_results s) (ob_sizeUsd row)"
  shows "hold_inv (\<lambda>k. n k + (if k = ob_sizeUsd row then 1 else 0)) (maybeOpenHold m row s)"
proof -
  have "hold_ok (n k + (if k = ob_sizeUsd row then 1 else 0)) (maybeOpenHold m row s) k" for k
  proof -
    have "hold_ok (n k) s k" using assms by (simp add: hold_inv_def)
    then show ?thesis using assms(2) unfolding hold_ok_def maybeOpenHold_def
      by (cases "dict_has (hh_positions s) k") (auto simp add: dict_has_set trans_le_add1 split: if_splits)
  qed
  then show ?thesis using assms by (auto simp add: hold_inv_def maybeOpenHold_def dict_ok_set)
qed

text \<open>Booking one trade: a win is a profit, a timed-out trade is not.\<close>

lemma book_trade_ok:
  assumes "trades_ok r" "js_ge pnl (Num 0) \<or> timedOut"
  shows "trades_ok (book_trade p row pnl timedOut r)"
proof -
  have "js_le (Num 0) (fl (1 / 100))" by (rule js_le_0_fl) simp
  then have win: "js_gt pnl (fl (1/100)) \<Longrightarrow> js_ge pnl (Num 0)" using js_le_lt_trans js_lt_imp_le by blast
  have nonneg: "\<not> js_lt (js_add x pnl) (Num 0)" if "js_ge pnl (Num 0)" "\<not> js_lt x (Num 0)" for x
  proof (rule js_add_not_neg [OF that(2)])
    show "\<not> js_lt pnl (Num 0)" using that(1) js_le_lt_trans [of "Num 0" pnl "Num 0"] by auto
  qed
  show ?thesis using assms win nonneg unfolding trades_ok_def book_trade_def Let_def
    by (cases "js_ge pnl (Num 0)") auto
qed

lemma book_trade_fields [simp]:
  "mr_closedTrades (book_trade p row pnl t r) = Suc (mr_closedTrades r)"
  "mr_openPositions (book_trade p row pnl t r) = mr_openPositions r"
  "mr_sizeUsd (book_trade p row pnl t r) = mr_sizeUsd r"
  by (simp_all add: book_trade_def Let_def)

lemma maybeCloseHold_inv:
  assumes "hold_inv n s"
  shows "hold_inv n (maybeCloseHold h c row s)"
proof (cases "dict_get (hh_positions s) (ob_sizeUsd row)")
  case None
  then show ?thesis using assms by (simp add: maybeCloseHold_def)
next
  case (Some p)
  let ?k = "ob_sizeUsd row"
  have has: "dict_has (hh_positions s) ?k" using Some by (simp add: dict_has_def)
  then have "dict_has (hh_results s) ?k" using assms by (auto simp add: hold_inv_def hold_ok_def)
  then obtain r0 where r0: "dict_get (hh_results s) ?k = Some r0" by (auto simp add: dict_has_def)
  show ?thesis
  proof (cases "maybeCloseHold h c row s = s")
    case True
    then show ?thesis using assms by simp
  next
    case False
    obtain pnl t where pt: "js_ge pnl (Num 0) \<or> t" and s': "maybeCloseHold h c row s =
      s\<lparr> hh_results := update_result ?k (book_trade p row pnl t) (hh_results s), hh_positions := dict_del (hh_positions s) ?k \<rparr>"
      using False Some by (auto simp add: maybeCloseHold_def Let_def split: if_splits)
    have "hold_ok (n k) (maybeCloseHold h c row s) k" for k
    proof -
      have "hold_ok (n k) s k" using assms by (simp add: hold_inv_def)
      then show ?thesis using has r0 book_trade_ok [OF _ pt] unfolding s' hold_ok_def
        by (cases "k = ?k") (auto simp add: update_result_get get_or_def dict_has_def dict_laws)
    qed
    then show ?thesis using assms unfolding hold_inv_def s' by (simp add: update_result_ok dict_ok_del)
  qed
qed

lemma hold_inv_seen:
  "hold_inv n s \<Longrightarrow> hold_inv n (s\<lparr> hh_sellRouteSeen := List.insert k (hh_sellRouteSeen s) \<rparr>)"
  by (auto simp add: hold_inv_def hold_ok_def)

lemma hold_step_inv:
  assumes "hold_inv (\<lambda>k. buys_of k rows) s" "ob_qualityStatus row = Some LIVE_ELIGIBLE"
  shows "hold_inv (\<lambda>k. buys_of k (rows @ [row])) (hold_step opts h s row)"
proof -
  let ?s = "s\<lparr> hh_results := ensureResult (ob_sizeUsd row) (hh_results s) \<rparr>"
  have e: "hold_inv (\<lambda>k. buys_of k rows) ?s" using assms(1) by (rule hold_inv_ensure)
  show ?thesis
  proof (cases "ob_side row")
    case BuyTokenized
    have n: "(\<lambda>k. buys_of k (rows @ [row])) = (\<lambda>k. buys_of k rows + (if k = ob_sizeUsd row then 1 else 0))"
      using assms(2) BuyTokenized by (auto simp add: buys_of_append)
    show ?thesis unfolding n using BuyTokenized maybeOpenHold_inv [OF e]
      by (simp add: hold_step_def Let_def ensureResult_has)
  next
    case SellTokenized
    have n: "(\<lambda>k. buys_of k (rows @ [row])) = (\<lambda>k. buys_of k rows)"
      using SellTokenized by (simp add: buys_of_append)
    show ?thesis unfolding n using SellTokenized maybeCloseHold_inv [OF hold_inv_seen [OF e]]
      by (simp add: hold_step_def Let_def)
  qed
qed

lemma hold_run_inv:
  "\<forall>r \<in> set rows. ob_qualityStatus r = Some LIVE_ELIGIBLE \<Longrightarrow>
   hold_inv (\<lambda>k. buys_of k rows) (foldl (hold_step opts h) hold_start rows)"
proof (induction rows rule: rev_induct)
  case Nil
  then show ?case by (simp add: hold_inv_def hold_ok_def hold_start_def dict_has_def)
qed (simp add: hold_step_inv)

lemma count_open_get:
  "distinct (map fst ps) \<Longrightarrow> dict_get (count_open ps d) k =
     (if k \<in> fst ` set ps then Some ((get_or d k (empty_result k))\<lparr> mr_openPositions := Suc (mr_openPositions (get_or d k (empty_result k))) \<rparr>)
      else dict_get d k)"
proof (induction ps arbitrary: d)
  case Nil
  then show ?case by (simp add: count_open_def)
next
  case (Cons p ps)
  obtain j q where p: "p = (j, q)" by (cases p)
  define d' where "d' = update_result j (\<lambda>r. r\<lparr> mr_openPositions := Suc (mr_openPositions r) \<rparr>) d"
  have "count_open (p # ps) d = count_open ps d'" by (simp add: count_open_def d'_def p)
  moreover have "get_or d' k (empty_result k) = get_or d k (empty_result k)" if "k \<noteq> j"
    using that by (simp add: get_or_def d'_def update_result_get)
  moreover have "j \<notin> fst ` set ps" using Cons.prems p by auto
  moreover have "dict_get (count_open ps d') k = (if k \<in> fst ` set ps
      then Some ((get_or d' k (empty_result k))\<lparr> mr_openPositions := Suc (mr_openPositions (get_or d' k (empty_result k))) \<rparr>)
      else dict_get d' k)" using Cons by simp
  moreover have "dict_get d' k = (if k = j then Some ((get_or d k (empty_result k))\<lparr> mr_openPositions :=
      Suc (mr_openPositions (get_or d k (empty_result k))) \<rparr>) else dict_get d k)"
    by (simp add: d'_def update_result_get)
  ultimately show ?case by (cases "k = j") (simp_all add: p)
qed

lemma count_open_ok: "dict_ok d \<Longrightarrow> dict_ok (count_open ps d)"
proof (induction ps arbitrary: d)
  case (Cons p ps)
  then show ?case by (cases p) (simp add: count_open_def update_result_ok)
qed (simp add: count_open_def)

lemma dict_has_keys: "dict_has d k \<longleftrightarrow> k \<in> fst ` set d"
  by (induction d) (auto simp add: dict_has_def)

lemma result_rows_ok:
  assumes "hold_inv n s" "r \<in> set (map snd (count_open (hh_positions s) (hh_results s)))"
  shows "trades_ok r \<and> mr_openPositions r \<le> 1 \<and> mr_closedTrades r + mr_openPositions r \<le> n (mr_sizeUsd r)"
proof -
  have pd: "distinct (map fst (hh_positions s))" using assms(1) by (simp add: hold_inv_def dict_ok_def)
  have dok: "dict_ok (count_open (hh_positions s) (hh_results s))"
    using assms(1) by (intro count_open_ok) (simp add: hold_inv_def)
  obtain k where k: "dict_get (count_open (hh_positions s) (hh_results s)) k = Some r"
    using assms(2) unfolding dict_values [OF dok] by blast
  have ok: "hold_ok (n k) s k" using assms(1) by (simp add: hold_inv_def)
  show ?thesis
  proof (cases "dict_has (hh_positions s) k")
    case True
    then obtain r0 where r0: "dict_get (hh_results s) k = Some r0" using ok by (auto simp add: hold_ok_def dict_has_def)
    then have "r = r0\<lparr> mr_openPositions := Suc (mr_openPositions r0) \<rparr>"
      using k True by (simp add: count_open_get [OF pd] dict_has_keys get_or_def)
    then show ?thesis using ok r0 True by (simp add: hold_ok_def trades_ok_def)
  next
    case False
    then have "dict_get (hh_results s) k = Some r"
      using k by (simp add: count_open_get [OF pd] dict_has_keys)
    then show ?thesis using ok False by (auto simp add: hold_ok_def)
  qed
qed

lemma sum_totals:
  "mr_closedTrades (foldl add_totals acc rs) = mr_closedTrades acc + sum_list (map mr_closedTrades rs)"
  "mr_openPositions (foldl add_totals acc rs) = mr_openPositions acc + sum_list (map mr_openPositions rs)"
  "mr_winningTrades (foldl add_totals acc rs) = mr_winningTrades acc + sum_list (map mr_winningTrades rs)"
  "mr_timedOutTrades (foldl add_totals acc rs) = mr_timedOutTrades acc + sum_list (map mr_timedOutTrades rs)"
  by (induction rs arbitrary: acc) (simp_all add: add_totals_def)

subsection \<open>The ledger of one size\<close>

text \<open>The reference for the replay: one size on its own, as a list of trades (the buy quote that opened and
  the sell quote that closed), with the profit of a trade written out.\<close>

definition trade_pnl :: "holdHorizonReplayOptions \<Rightarrow> backtestObservation \<Rightarrow> backtestObservation \<Rightarrow> jsnum" where
  "trade_pnl opts a b =
    (let gross = js_mul (js_div (ob_sizeUsd a) (ob_tokenPriceUsd a)) (ob_tokenPriceUsd b);
         cost = js_div (ho_transactionCostBps opts) (Num 10000)
     in js_sub (js_sub (js_sub gross (ob_sizeUsd a)) (js_mul (ob_sizeUsd a) cost)) (js_mul gross cost))"

definition may_open :: "holdHorizonReplayOptions \<Rightarrow> bool \<Rightarrow> backtestObservation \<Rightarrow> bool" where
  "may_open opts seen r \<longleftrightarrow> seen \<and> \<not> js_lt (ob_netBps r) (ho_minNetEdgeBps opts) \<and> \<not> js_le (ob_tokenPriceUsd r) (Num 0)"

definition may_close :: "holdHorizonReplayOptions \<Rightarrow> jsnum \<Rightarrow> backtestObservation \<Rightarrow> backtestObservation \<Rightarrow> bool" where
  "may_close opts h a r \<longleftrightarrow> \<not> js_le (ob_observedAtMs r) (ob_observedAtMs a) \<and>
     (js_ge (trade_pnl opts a r) (Num 0) \<or> js_ge (js_sub (ob_observedAtMs r) (ob_observedAtMs a)) h)"

text \<open>Whether a sell quote was seen, the quote the open position was bought at, and the trades.\<close>

type_synonym ledger = "bool \<times> backtestObservation option \<times> (backtestObservation \<times> backtestObservation) list"

definition ledger_step :: "holdHorizonReplayOptions \<Rightarrow> jsnum \<Rightarrow> jsnum \<Rightarrow> ledger \<Rightarrow> backtestObservation \<Rightarrow> ledger" where
  "ledger_step opts h k l r = (case l of (seen, held, ts) \<Rightarrow>
     if ob_sizeUsd r \<noteq> k then l
     else case ob_side r of
       BuyTokenized \<Rightarrow> (seen, if held = None \<and> may_open opts seen r then Some r else held, ts)
     | SellTokenized \<Rightarrow> (case held of
         Some a \<Rightarrow> if may_close opts h a r then (True, None, ts @ [(a, r)]) else (True, held, ts)
       | None \<Rightarrow> (True, None, ts)))"

definition ledger_of :: "holdHorizonReplayOptions \<Rightarrow> jsnum \<Rightarrow> jsnum \<Rightarrow> backtestObservation list \<Rightarrow> ledger" where
  "ledger_of opts h k rows = foldl (ledger_step opts h k) (False, None, []) rows"

text \<open>The counters and sums of a list of trades.\<close>

definition booked :: "holdHorizonReplayOptions \<Rightarrow> jsnum \<Rightarrow> (backtestObservation \<times> backtestObservation) list \<Rightarrow> mutableSizeResult \<Rightarrow> bool" where
  "booked opts k ts r \<longleftrightarrow> mr_sizeUsd r = k \<and> mr_closedTrades r = length ts \<and>
     mr_winningTrades r = length (filter (\<lambda>(a, b). js_gt (trade_pnl opts a b) (fl (1/100))) ts) \<and>
     mr_timedOutTrades r = length (filter (\<lambda>(a, b). \<not> js_ge (trade_pnl opts a b) (Num 0)) ts) \<and>
     mr_pnlUsd r = foldl js_add (Num 0) (map (\<lambda>(a, b). trade_pnl opts a b) ts) \<and>
     mr_deployedUsd r = foldl js_add (Num 0) (map (\<lambda>(a, b). ob_sizeUsd a) ts)"

definition position_at :: "backtestObservation \<Rightarrow> holdPosition" where
  "position_at a = \<lparr> hp_sizeUsd = ob_sizeUsd a, hp_tokenUnits = js_div (ob_sizeUsd a) (ob_tokenPriceUsd a),
     hp_entryAtMs = ob_observedAtMs a, hp_entryRatio = computeRatio a \<rparr>"

definition tracked :: "holdHorizonReplayOptions \<Rightarrow> jsnum \<Rightarrow> holdState \<Rightarrow> ledger \<Rightarrow> bool" where
  "tracked opts k s l \<longleftrightarrow> (case l of (seen, held, ts) \<Rightarrow>
     (seen \<longleftrightarrow> k \<in> set (hh_sellRouteSeen s)) \<and> dict_get (hh_positions s) k = map_option position_at held \<and>
     (case dict_get (hh_results s) k of None \<Rightarrow> held = None \<and> ts = [] | Some r \<Rightarrow> booked opts k ts r))"

lemma trade_pnl_code: "computeSpotExitPnlUsd (ob_sizeUsd a) (js_div (ob_sizeUsd a) (ob_tokenPriceUsd a)) (ob_tokenPriceUsd b)
    (ho_transactionCostBps opts) = trade_pnl opts a b"
  by (simp add: computeSpotExitPnlUsd_def trade_pnl_def Let_def)

lemma booked_trade:
  assumes "booked opts k ts r" "js_ge (trade_pnl opts a b) (Num 0) \<or> late"
  shows "booked opts k (ts @ [(a, b)]) (book_trade (position_at a) b (trade_pnl opts a b) late r)"
  using assms by (auto simp add: booked_def book_trade_def Let_def position_at_def)

lemma close_tracked:
  assumes "tracked opts k s (seen, held, ts)" "ob_sizeUsd r = k" "ob_side r = SellTokenized" "seen" "dict_has (hh_results s) k"
  shows "tracked opts k (maybeCloseHold h (ho_transactionCostBps opts) r s) (ledger_step opts h k (seen, held, ts) r)"
proof (cases held)
  case None
  then show ?thesis using assms by (simp add: maybeCloseHold_def ledger_step_def tracked_def)
next
  case (Some a)
  obtain q where q: "dict_get (hh_results s) k = Some q" "booked opts k ts q"
    using assms(1,5) by (auto simp add: tracked_def dict_has_def)
  have p: "dict_get (hh_positions s) k = Some (position_at a)" using assms(1) Some by (simp add: tracked_def)
  have f: "hp_entryAtMs (position_at a) = ob_observedAtMs a" "computeSpotExitPnlUsd (hp_sizeUsd (position_at a))
      (hp_tokenUnits (position_at a)) (ob_tokenPriceUsd r) (ho_transactionCostBps opts) = trade_pnl opts a r"
    by (simp_all add: position_at_def trade_pnl_code)
  show ?thesis
  proof (cases "may_close opts h a r")
    case True
    then have "booked opts k (ts @ [(a, r)]) (book_trade (position_at a) r (trade_pnl opts a r)
        (js_ge (js_sub (ob_observedAtMs r) (ob_observedAtMs a)) h) q)"
      by (intro booked_trade [OF q(2)]) (simp add: may_close_def)
    then show ?thesis using assms True Some p q
      by (auto simp add: maybeCloseHold_def ledger_step_def tracked_def may_close_def f Let_def update_result_get get_or_def dict_laws)
  next
    case False
    then show ?thesis using assms Some p by (auto simp add: maybeCloseHold_def ledger_step_def tracked_def may_close_def f Let_def)
  qed
qed

lemma open_tracked:
  assumes t: "tracked opts k s (seen, held, ts)" and r: "ob_sizeUsd r = k" "ob_side r = BuyTokenized" and "dict_has (hh_results s) k"
  shows "tracked opts k (maybeOpenHold (ho_minNetEdgeBps opts) r s) (ledger_step opts h k (seen, held, ts) r)"
proof -
  have d: "dict_has (hh_positions s) k \<longleftrightarrow> held \<noteq> None" "k \<in> set (hh_sellRouteSeen s) \<longleftrightarrow> seen"
    using t by (simp_all add: tracked_def dict_has_def)
  obtain q where q: "dict_get (hh_results s) k = Some q" using assms(4) by (auto simp add: dict_has_def)
  show ?thesis
  proof (cases "held = None \<and> may_open opts seen r")
    case True
    then have "maybeOpenHold (ho_minNetEdgeBps opts) r s = s\<lparr> hh_positions := dict_set (hh_positions s) k (position_at r) \<rparr>"
      using d r by (simp add: maybeOpenHold_def may_open_def position_at_def)
    moreover have "ledger_step opts h k (seen, held, ts) r = (seen, Some r, ts)" using True r by (simp add: ledger_step_def)
    ultimately show ?thesis using t q by (simp add: tracked_def dict_laws)
  next
    case False
    then have "maybeOpenHold (ho_minNetEdgeBps opts) r s = s"
      using d r by (auto simp add: maybeOpenHold_def may_open_def)
    moreover have "ledger_step opts h k (seen, held, ts) r = (seen, held, ts)" using False r by (auto simp add: ledger_step_def)
    ultimately show ?thesis using t by simp
  qed
qed

lemma other_tracked:
  assumes "tracked opts k s l" "ob_sizeUsd r \<noteq> k"
  shows "tracked opts k (hold_step opts h s r) (ledger_step opts h k l r)"
proof -
  have "ledger_step opts h k l r = l" using assms(2) by (cases l) (simp add: ledger_step_def)
  moreover have "k \<in> set (hh_sellRouteSeen (hold_step opts h s r)) \<longleftrightarrow> k \<in> set (hh_sellRouteSeen s)"
    "dict_get (hh_positions (hold_step opts h s r)) k = dict_get (hh_positions s) k"
    "dict_get (hh_results (hold_step opts h s r)) k = dict_get (hh_results s) k"
    using assms(2) by (auto simp add: hold_step_def maybeOpenHold_def maybeCloseHold_def Let_def ensureResult_get update_result_get dict_laws
        split: pairDirection.split option.split)
  ultimately show ?thesis using assms(1) by (simp add: tracked_def)
qed

lemma step_tracked:
  assumes t: "tracked opts k s l"
  shows "tracked opts k (hold_step opts h s r) (ledger_step opts h k l r)"
proof (cases "ob_sizeUsd r = k")
  case False
  then show ?thesis using other_tracked [OF t] by simp
next
  case True
  obtain seen held ts where l: "l = (seen, held, ts)" by (cases l)
  let ?s = "s\<lparr> hh_results := ensureResult k (hh_results s) \<rparr>"
  have e: "tracked opts k ?s l" using t
    by (auto simp add: tracked_def l ensureResult_get dict_has_def booked_def empty_result_def split: option.splits)
  have has: "dict_has (hh_results ?s) k" by (simp add: ensureResult_has)
  show ?thesis
  proof (cases "ob_side r")
    case BuyTokenized
    then show ?thesis using open_tracked [OF e [unfolded l] True] has True by (simp add: hold_step_def Let_def l)
  next
    case SellTokenized
    let ?t = "?s\<lparr> hh_sellRouteSeen := List.insert k (hh_sellRouteSeen ?s) \<rparr>"
    have "tracked opts k ?t (True, held, ts)" using e by (simp add: tracked_def l)
    from close_tracked [OF this True SellTokenized] have
      "tracked opts k (maybeCloseHold h (ho_transactionCostBps opts) r ?t) (ledger_step opts h k (True, held, ts) r)"
      using has by simp
    moreover have "ledger_step opts h k (True, held, ts) r = ledger_step opts h k l r"
      using True SellTokenized by (simp add: ledger_step_def l)
    ultimately show ?thesis using True SellTokenized by (simp add: hold_step_def Let_def)
  qed
qed

lemma run_tracked: "tracked opts k (foldl (hold_step opts h) hold_start rows) (ledger_of opts h k rows)"
proof (induction rows rule: rev_induct)
  case Nil
  show ?case by (simp add: tracked_def ledger_of_def hold_start_def)
next
  case (snoc r rows)
  then show ?case using step_tracked [of opts k _ "ledger_of opts h k rows"] by (simp add: ledger_of_def)
qed

text \<open>The rows cover exactly the sizes of the quotes.\<close>

lemma step_sizes: "dict_has (hh_results (hold_step opts h s r)) k \<longleftrightarrow> dict_has (hh_results s) k \<or> k = ob_sizeUsd r"
  by (auto simp add: hold_step_def maybeOpenHold_def maybeCloseHold_def Let_def dict_has_def ensureResult_get update_result_get
      split: pairDirection.splits option.splits if_splits)

lemma run_sizes: "dict_has (hh_results (foldl (hold_step opts h) hold_start rows)) k \<longleftrightarrow> k \<in> ob_sizeUsd ` set rows"
proof (induction rows rule: rev_induct)
  case Nil
  show ?case by (simp add: hold_start_def dict_has_def)
next
  case (snoc r rows)
  then show ?case by (auto simp add: step_sizes)
qed

definition held_count :: "ledger \<Rightarrow> nat" where
  "held_count l = (case l of (seen, held, ts) \<Rightarrow> if held = None then 0 else 1)"

lemma counted_rows:
  assumes inv: "hold_inv n s" and t: "\<And>k. tracked opts k s (L k)" and r: "r \<in> set (map snd (count_open (hh_positions s) (hh_results s)))"
  shows "booked opts (mr_sizeUsd r) (snd (snd (L (mr_sizeUsd r)))) r \<and> mr_openPositions r = held_count (L (mr_sizeUsd r))"
proof -
  have pd: "distinct (map fst (hh_positions s))" using inv by (simp add: hold_inv_def dict_ok_def)
  have dok: "dict_ok (count_open (hh_positions s) (hh_results s))" using inv by (intro count_open_ok) (simp add: hold_inv_def)
  obtain k where k: "dict_get (count_open (hh_positions s) (hh_results s)) k = Some r" using r unfolding dict_values [OF dok] by blast
  obtain seen held ts where l: "L k = (seen, held, ts)" by (cases "L k")
  have h: "dict_has (hh_positions s) k \<longleftrightarrow> held \<noteq> None" using t [of k] by (simp add: tracked_def l dict_has_def)
  have ok: "hold_ok (n k) s k" using inv by (simp add: hold_inv_def)
  have has: "dict_has (hh_positions s) k \<Longrightarrow> dict_has (hh_results s) k" using ok by (simp add: hold_ok_def)
  have mem: "k \<in> fst ` set (hh_positions s) \<longleftrightarrow> held \<noteq> None" using h by (simp add: dict_has_keys)
  obtain q where q: "dict_get (hh_results s) k = Some q" "r = (if held = None then q else q\<lparr> mr_openPositions := Suc (mr_openPositions q) \<rparr>)"
  proof (cases "held = None")
    case True
    then show thesis using that [of r] k by (simp add: count_open_get [OF pd] mem)
  next
    case False
    then obtain q where "dict_get (hh_results s) k = Some q" using has h by (auto simp add: dict_has_def)
    then show thesis using that [of q] k False by (simp add: count_open_get [OF pd] mem get_or_def)
  qed
  have "booked opts k ts q" using t [of k] q(1) by (simp add: tracked_def l)
  moreover have "mr_openPositions q = 0" using ok q(1) by (simp add: hold_ok_def)
  ultimately show ?thesis using q by (cases "held = None") (simp_all add: booked_def l held_count_def)
qed

definition ledger_sound :: "holdHorizonReplayOptions \<Rightarrow> jsnum \<Rightarrow> jsnum \<Rightarrow> backtestObservation list \<Rightarrow> ledger \<Rightarrow> bool" where
  "ledger_sound opts h k rows l \<longleftrightarrow> (case l of (seen, held, ts) \<Rightarrow>
     (\<forall>a. held = Some a \<longrightarrow> ob_side a = BuyTokenized \<and> a \<in> set rows \<and> ob_sizeUsd a = k) \<and>
     (\<forall>a b. (a, b) \<in> set ts \<longrightarrow> may_close opts h a b \<and> ob_side a = BuyTokenized \<and> ob_side b = SellTokenized \<and>
        a \<in> set rows \<and> b \<in> set rows \<and> ob_sizeUsd a = k \<and> ob_sizeUsd b = k))"

lemma ledger_step_sound: "ledger_sound opts h k rows l \<Longrightarrow> ledger_sound opts h k (rows @ [r]) (ledger_step opts h k l r)"
proof -
  assume s: "ledger_sound opts h k rows l"
  obtain seen held ts where l: "l = (seen, held, ts)" by (cases l)
  have later: "ledger_sound opts h k (rows @ [r]) l" using s by (simp add: ledger_sound_def l)
  show "ledger_sound opts h k (rows @ [r]) (ledger_step opts h k l r)"
  proof (cases "ob_sizeUsd r = k")
    case False
    then show ?thesis using later by (simp add: ledger_step_def l)
  next
    case True
    then show ?thesis using later
      by (cases "ob_side r"; cases held) (simp_all add: ledger_step_def l ledger_sound_def)
  qed
qed

lemma ledger_trades: "ledger_sound opts h k rows (ledger_of opts h k rows)"
proof (induction rows rule: rev_induct)
  case Nil
  show ?case by (simp add: ledger_of_def ledger_sound_def)
next
  case (snoc r rows)
  then show ?case using ledger_step_sound by (simp add: ledger_of_def)
qed

lemma sum_amounts:
  "mr_pnlUsd (foldl add_totals acc rs) = foldl js_add (mr_pnlUsd acc) (map mr_pnlUsd rs)"
  "mr_deployedUsd (foldl add_totals acc rs) = foldl js_add (mr_deployedUsd acc) (map mr_deployedUsd rs)"
  by (induction rs arbitrary: acc) (simp_all add: add_totals_def)

text \<open>The rows of one horizon, against the ledgers of their sizes.\<close>

definition row_matches :: "holdHorizonReplayOptions \<Rightarrow> ledger \<Rightarrow> holdHorizonSizeResult \<Rightarrow> bool" where
  "row_matches opts l r \<longleftrightarrow> (case l of (seen, held, ts) \<Rightarrow>
     hs_closedTrades r = length ts \<and> hs_openPositions r = (if held = None then 0 else 1) \<and>
     hs_winningTrades r = length (filter (\<lambda>(a, b). js_gt (trade_pnl opts a b) (fl (1/100))) ts) \<and>
     hs_timedOutTrades r = length (filter (\<lambda>(a, b). \<not> js_ge (trade_pnl opts a b) (Num 0)) ts) \<and>
     hs_pnlUsd r = foldl js_add (Num 0) (map (\<lambda>(a, b). trade_pnl opts a b) ts) \<and>
     hs_deployedUsd r = foldl js_add (Num 0) (map (\<lambda>(a, b). ob_sizeUsd a) ts))"

lemma horizon_rows:
  assumes R: "R = runOneHorizon (hold_rows obs) h w opts"
  shows "hs_sizeUsd ` set (hr_sizeResults R) = ob_sizeUsd ` set (hold_rows obs) \<and>
    (\<forall>r \<in> set (hr_sizeResults R). row_matches opts (ledger_of opts h (hs_sizeUsd r) (hold_rows obs)) r \<and>
       hs_closedTrades r + hs_openPositions r \<le> buys_of (hs_sizeUsd r) obs \<and> (js_lt (hs_pnlUsd r) (Num 0) \<longrightarrow> 0 < hs_timedOutTrades r))"
proof -
  define s where "s = foldl (hold_step opts h) hold_start (hold_rows obs)"
  define rs where "rs = js_sort (gt_on mr_sizeUsd) (map snd (count_open (hh_positions s) (hh_results s)))"
  let ?L = "\<lambda>k. ledger_of opts h k (hold_rows obs)"
  have live: "\<forall>r \<in> set (hold_rows obs). ob_qualityStatus r = Some LIVE_ELIGIBLE" by (simp add: hold_rows_def)
  have inv: "hold_inv (\<lambda>k. buys_of k (hold_rows obs)) s" unfolding s_def by (rule hold_run_inv [OF live])
  have b: "buys_of k (hold_rows obs) = buys_of k obs" for k by (simp add: hold_rows_def buys_of_sort buys_of_filter)
  have sr: "hr_sizeResults R = map finalizeSizeResult rs"
    unfolding R runOneHorizon_def Let_def s_def [symmetric] rs_def [symmetric] by (simp add: holdHorizonSizeResult.defs)
  have tracked: "tracked opts k s (?L k)" for k unfolding s_def by (rule run_tracked)
  have row: "row_matches opts (?L (mr_sizeUsd r)) (finalizeSizeResult r) \<and>
      hs_closedTrades (finalizeSizeResult r) + hs_openPositions (finalizeSizeResult r) \<le> buys_of (mr_sizeUsd r) obs \<and>
      (js_lt (hs_pnlUsd (finalizeSizeResult r)) (Num 0) \<longrightarrow> 0 < hs_timedOutTrades (finalizeSizeResult r))" if "r \<in> set rs" for r
  proof -
    have "row_matches opts (?L (mr_sizeUsd r)) (finalizeSizeResult r)"
      using that counted_rows [OF inv tracked, of r]
      by (cases "?L (mr_sizeUsd r)") (simp add: rs_def row_matches_def booked_def finalizeSizeResult_def held_count_def)
    moreover have "trades_ok r \<and> mr_openPositions r \<le> 1 \<and> mr_closedTrades r + mr_openPositions r \<le> buys_of (mr_sizeUsd r) obs"
      using that result_rows_ok [OF inv, of r] by (simp add: rs_def b)
    ultimately show ?thesis by (auto simp add: finalizeSizeResult_def trades_ok_def)
  qed
  have pd: "distinct (map fst (hh_positions s))" using inv by (simp add: hold_inv_def dict_ok_def)
  have dok: "dict_ok (count_open (hh_positions s) (hh_results s))" using inv by (intro count_open_ok) (simp add: hold_inv_def)
  have keys: "(\<exists>r. dict_get (count_open (hh_positions s) (hh_results s)) k = Some r \<and> mr_sizeUsd r = k) \<longleftrightarrow> dict_has (hh_results s) k"
    "dict_get (count_open (hh_positions s) (hh_results s)) k = Some r \<Longrightarrow> mr_sizeUsd r = k" for k r
  proof -
    have ok: "hold_ok (buys_of k (hold_rows obs)) s k" using inv by (simp add: hold_inv_def)
    show "dict_get (count_open (hh_positions s) (hh_results s)) k = Some r \<Longrightarrow> mr_sizeUsd r = k"
      using ok by (auto simp add: count_open_get [OF pd] dict_has_keys [symmetric] hold_ok_def get_or_def dict_has_def split: if_splits)
    show "(\<exists>r. dict_get (count_open (hh_positions s) (hh_results s)) k = Some r \<and> mr_sizeUsd r = k) \<longleftrightarrow> dict_has (hh_results s) k"
      using ok by (auto simp add: count_open_get [OF pd] dict_has_keys [symmetric] hold_ok_def get_or_def dict_has_def split: if_splits)
  qed
  have "mr_sizeUsd ` set rs = ob_sizeUsd ` set (hold_rows obs)"
  proof -
    have "mr_sizeUsd ` set rs = {k. \<exists>r. dict_get (count_open (hh_positions s) (hh_results s)) k = Some r}"
      unfolding rs_def using dict_values [OF dok] keys(2) by (auto simp add: image_iff) metis
    also have "\<dots> = {k. dict_has (hh_results s) k}" using keys by blast
    finally show ?thesis unfolding s_def run_sizes by simp
  qed
  moreover have "hs_sizeUsd (finalizeSizeResult r) = mr_sizeUsd r" for r by (simp add: finalizeSizeResult_def)
  ultimately show ?thesis unfolding sr using row by (auto simp add: image_image)
qed

lemma horizon_totals:
  assumes R: "R = runOneHorizon (hold_rows obs) h w opts"
  shows "hs_closedTrades R = sum_list (map hs_closedTrades (hr_sizeResults R))"
    "hs_openPositions R = sum_list (map hs_openPositions (hr_sizeResults R))"
    "hs_winningTrades R = sum_list (map hs_winningTrades (hr_sizeResults R))"
    "hs_timedOutTrades R = sum_list (map hs_timedOutTrades (hr_sizeResults R))"
    "hs_pnlUsd R = foldl js_add (Num 0) (map hs_pnlUsd (hr_sizeResults R))"
    "hs_deployedUsd R = foldl js_add (Num 0) (map hs_deployedUsd (hr_sizeResults R))"
proof -
  define s where "s = foldl (hold_step opts h) hold_start (hold_rows obs)"
  define rs where "rs = js_sort (gt_on mr_sizeUsd) (map snd (count_open (hh_positions s) (hh_results s)))"
  have sr: "hr_sizeResults R = map finalizeSizeResult rs"
    unfolding R runOneHorizon_def Let_def s_def [symmetric] rs_def [symmetric] by (simp add: holdHorizonSizeResult.defs)
  have tot: "holdHorizonSizeResult.truncate R = finalizeSizeResult (foldl add_totals (empty_result (Num 0)) rs)"
    unfolding R runOneHorizon_def Let_def s_def [symmetric] rs_def [symmetric] by (simp add: holdHorizonSizeResult.defs)
  have f: "hs_closedTrades R = hs_closedTrades (holdHorizonSizeResult.truncate R)"
    "hs_openPositions R = hs_openPositions (holdHorizonSizeResult.truncate R)"
    "hs_winningTrades R = hs_winningTrades (holdHorizonSizeResult.truncate R)"
    "hs_timedOutTrades R = hs_timedOutTrades (holdHorizonSizeResult.truncate R)"
    "hs_pnlUsd R = hs_pnlUsd (holdHorizonSizeResult.truncate R)"
    "hs_deployedUsd R = hs_deployedUsd (holdHorizonSizeResult.truncate R)"
    by (simp_all add: holdHorizonSizeResult.defs)
  note sums = finalizeSizeResult_def sum_totals sum_amounts empty_result_def comp_def
  show "hs_closedTrades R = sum_list (map hs_closedTrades (hr_sizeResults R))" unfolding f tot sr by (simp add: sums)
  show "hs_openPositions R = sum_list (map hs_openPositions (hr_sizeResults R))" unfolding f tot sr by (simp add: sums)
  show "hs_winningTrades R = sum_list (map hs_winningTrades (hr_sizeResults R))" unfolding f tot sr by (simp add: sums)
  show "hs_timedOutTrades R = sum_list (map hs_timedOutTrades (hr_sizeResults R))" unfolding f tot sr by (simp add: sums)
  show "hs_pnlUsd R = foldl js_add (Num 0) (map hs_pnlUsd (hr_sizeResults R))" unfolding f tot sr by (simp add: sums)
  show "hs_deployedUsd R = foldl js_add (Num 0) (map hs_deployedUsd (hr_sizeResults R))" unfolding f tot sr by (simp add: sums)
qed

text \<open>C35: The books of the hold-horizon replay. There is a row for every configured horizon, in order, and in it a row
  for every size quoted live, which agrees with the ledger of that size alone: its closed and open positions,
  its wins (more than a cent), its timed-out trades (the losing ones), its profit and its deployed amount
  are those of the ledger's trades, each a live buy quote and a live sell quote of the size; a trade that did
  not at least break even was held for the horizon of the row. The closed and open positions are at most the
  live buy quotes of the size, a row with a loss has a timed-out trade, and the totals of the horizon -
  counters, profit and deployed amount - are the sums of its rows.\<close>

theorem hold_horizon_books:
  "map hr_horizonMs (runHoldHorizonReplay obs opts) = ho_horizonsMs opts \<and>
   (\<forall>R \<in> set (runHoldHorizonReplay obs opts).
      hs_sizeUsd ` set (hr_sizeResults R) = ob_sizeUsd ` set (filter (\<lambda>r. ob_qualityStatus r = Some LIVE_ELIGIBLE) obs) \<and>
      (\<forall>r \<in> set (hr_sizeResults R). \<exists>seen held ts.
         ledger_of opts (hr_horizonMs R) (hs_sizeUsd r)
           (js_sort (gt_on ob_observedAtMs) (filter (\<lambda>r. ob_qualityStatus r = Some LIVE_ELIGIBLE) obs)) = (seen, held, ts) \<and>
         row_matches opts (seen, held, ts) r \<and>
         (\<forall>(a, b) \<in> set ts. ob_side a = BuyTokenized \<and> ob_side b = SellTokenized \<and> ob_sizeUsd a = hs_sizeUsd r \<and>
            ob_sizeUsd b = hs_sizeUsd r \<and> {a, b} \<subseteq> {x \<in> set obs. ob_qualityStatus x = Some LIVE_ELIGIBLE} \<and>
            (js_ge (trade_pnl opts a b) (Num 0) \<or> js_ge (js_sub (ob_observedAtMs b) (ob_observedAtMs a)) (hr_horizonMs R))) \<and>
         hs_closedTrades r + hs_openPositions r \<le> buys_of (hs_sizeUsd r) obs \<and>
         (js_lt (hs_pnlUsd r) (Num 0) \<longrightarrow> 0 < hs_timedOutTrades r)) \<and>
      hs_closedTrades R = sum_list (map hs_closedTrades (hr_sizeResults R)) \<and>
      hs_openPositions R = sum_list (map hs_openPositions (hr_sizeResults R)) \<and>
      hs_winningTrades R = sum_list (map hs_winningTrades (hr_sizeResults R)) \<and>
      hs_timedOutTrades R = sum_list (map hs_timedOutTrades (hr_sizeResults R)) \<and>
      hs_pnlUsd R = foldl js_add (Num 0) (map hs_pnlUsd (hr_sizeResults R)) \<and>
      hs_deployedUsd R = foldl js_add (Num 0) (map hs_deployedUsd (hr_sizeResults R)))"
proof (intro conjI ballI)
  show "map hr_horizonMs (runHoldHorizonReplay obs opts) = ho_horizonsMs opts"
    by (simp add: runHoldHorizonReplay_def runOneHorizon_def Let_def comp_def holdHorizonSizeResult.defs)
next
  fix R assume "R \<in> set (runHoldHorizonReplay obs opts)"
  then obtain h w where R: "R = runOneHorizon (hold_rows obs) h w opts"
    by (auto simp add: runHoldHorizonReplay_def Let_def)
  have h: "hr_horizonMs R = h" by (simp add: R runOneHorizon_def Let_def holdHorizonSizeResult.defs)
  note rows = horizon_rows [OF R]
  show "hs_sizeUsd ` set (hr_sizeResults R) = ob_sizeUsd ` set (filter (\<lambda>r. ob_qualityStatus r = Some LIVE_ELIGIBLE) obs)"
    using rows by (simp add: hold_rows_def)
  show "hs_closedTrades R = sum_list (map hs_closedTrades (hr_sizeResults R))" by (rule horizon_totals [OF R])
  show "hs_openPositions R = sum_list (map hs_openPositions (hr_sizeResults R))" by (rule horizon_totals [OF R])
  show "hs_winningTrades R = sum_list (map hs_winningTrades (hr_sizeResults R))" by (rule horizon_totals [OF R])
  show "hs_timedOutTrades R = sum_list (map hs_timedOutTrades (hr_sizeResults R))" by (rule horizon_totals [OF R])
  show "hs_pnlUsd R = foldl js_add (Num 0) (map hs_pnlUsd (hr_sizeResults R))" by (rule horizon_totals [OF R])
  show "hs_deployedUsd R = foldl js_add (Num 0) (map hs_deployedUsd (hr_sizeResults R))" by (rule horizon_totals [OF R])
  fix r assume r: "r \<in> set (hr_sizeResults R)"
  obtain seen held ts where l: "ledger_of opts h (hs_sizeUsd r) (hold_rows obs) = (seen, held, ts)"
    by (cases "ledger_of opts h (hs_sizeUsd r) (hold_rows obs)")
  have sound: "ledger_sound opts h (hs_sizeUsd r) (hold_rows obs) (seen, held, ts)" unfolding l [symmetric] by (rule ledger_trades)
  have "set (hold_rows obs) = {x \<in> set obs. ob_qualityStatus x = Some LIVE_ELIGIBLE}" by (simp add: hold_rows_def)
  then have "\<forall>(a, b) \<in> set ts. ob_side a = BuyTokenized \<and> ob_side b = SellTokenized \<and> ob_sizeUsd a = hs_sizeUsd r \<and>
      ob_sizeUsd b = hs_sizeUsd r \<and> {a, b} \<subseteq> {x \<in> set obs. ob_qualityStatus x = Some LIVE_ELIGIBLE} \<and>
      (js_ge (trade_pnl opts a b) (Num 0) \<or> js_ge (js_sub (ob_observedAtMs b) (ob_observedAtMs a)) h)"
    using sound by (auto simp add: ledger_sound_def may_close_def)
  then show "\<exists>seen held ts.
         ledger_of opts (hr_horizonMs R) (hs_sizeUsd r)
           (js_sort (gt_on ob_observedAtMs) (filter (\<lambda>r. ob_qualityStatus r = Some LIVE_ELIGIBLE) obs)) = (seen, held, ts) \<and>
         row_matches opts (seen, held, ts) r \<and>
         (\<forall>(a, b) \<in> set ts. ob_side a = BuyTokenized \<and> ob_side b = SellTokenized \<and> ob_sizeUsd a = hs_sizeUsd r \<and>
            ob_sizeUsd b = hs_sizeUsd r \<and> {a, b} \<subseteq> {x \<in> set obs. ob_qualityStatus x = Some LIVE_ELIGIBLE} \<and>
            (js_ge (trade_pnl opts a b) (Num 0) \<or> js_ge (js_sub (ob_observedAtMs b) (ob_observedAtMs a)) (hr_horizonMs R))) \<and>
         hs_closedTrades r + hs_openPositions r \<le> buys_of (hs_sizeUsd r) obs \<and>
         (js_lt (hs_pnlUsd r) (Num 0) \<longrightarrow> 0 < hs_timedOutTrades r)"
    using conjunct2 [OF rows, THEN bspec, OF r] unfolding h hold_rows_def [symmetric] l
    by (intro exI [of _ seen] exI [of _ held] exI [of _ ts]) simp
qed

text \<open>A buy at 10 sold at 5, before and after a horizon of one minute.\<close>

theorem hold_horizon_books_witness:
  defines "opts \<equiv> \<lparr> ho_minNetEdgeBps = Num 50, ho_transactionCostBps = Num 10, ho_horizonsMs = [Num 60000] \<rparr>"
  shows "\<exists>R r. runHoldHorizonReplay [demo_row SellTokenized 1 10, demo_row BuyTokenized 2 10, demo_row SellTokenized 60002 5] opts = [R] \<and>
    r \<in> set (hr_sizeResults R) \<and> hs_sizeUsd r = Num 250 \<and> hs_closedTrades r + hs_openPositions r \<le> 1"
proof -
  let ?obs = "[demo_row SellTokenized 1 10, demo_row BuyTokenized 2 10, demo_row SellTokenized 60002 5]"
  obtain R where R: "runHoldHorizonReplay ?obs opts = [R]" by (simp add: runHoldHorizonReplay_def Let_def opts_def)
  have b: "hs_sizeUsd ` set (hr_sizeResults R) = {Num 250}" "\<forall>r \<in> set (hr_sizeResults R). hs_closedTrades r + hs_openPositions r \<le> buys_of (hs_sizeUsd r) ?obs"
    using hold_horizon_books [of ?obs opts] unfolding R by (auto simp add: demo_row_def)
  then obtain r where r: "r \<in> set (hr_sizeResults R)" "hs_sizeUsd r = Num 250" by (metis imageE insertI1)
  have "buys_of (Num 250) ?obs = 1" by (simp add: buys_of_def demo_row_def)
  then show ?thesis using R r b(2) by force
qed

end
