(* ===== verification/Readiness.thy ===== *)
theory Readiness
  imports QuoteQuality
begin

text \<open>
  pair-readiness.ts and route-stability.ts of packages/market-core: the twelve checks of every side
  and size of a pair with the status of the matrix, and the evidence on routers: shares, switches
  per hour, percentiles. String.localeCompare depends on the locale of the host and is the
  parameter lc; its sign orders the texts.
\<close>

section \<open>Pair readiness (pair-readiness.ts)\<close>

datatype pairReadinessStatus = READY | RESEARCH_ONLY | NOT_READY

datatype pairReadinessReasonCode = PYTH_FEED_MISSING | NO_FEED_UPDATES | R_DECIMALS_UNVERIFIED | BUY_ROUTE_MISSING
  | SELL_ROUTE_MISSING | QUOTE_SUCCESS_RATE_LOW | ENTRY_EXIT_ROUTE_MISSING | ROUTER_DISTRIBUTION_UNKNOWN
  | QUOTE_LATENCY_INSUFFICIENT | BASIS_AGE_INSUFFICIENT | MARKET_SESSION_MAPPING_MISSING | SAMPLE_COUNT_LOW

record pairReadinessObservation =
  po_side :: pairDirection
  po_sizeUsd :: jsnum
  po_observedAtMs :: jsnum
  po_pythFeedUpdateTimestampUs :: "jsnum option"
  po_quoteRequestMs :: "jsnum option"
  po_basisAgeMs :: "jsnum option"
  po_timeRegime :: "timeRegime option"
  po_qualityStatus :: "quoteQualityStatus option"

record routerShare =
  rs_router :: string
  rs_count :: nat
  rs_pct :: jsnum

record pairReadinessQuoteStats =
  pq_side :: pairDirection
  pq_sizeUsd :: jsnum
  pq_totalCount :: nat
  pq_okCount :: nat
  pq_routerDistribution :: "routerShare list"

record percentilesResult =
  pe_p50 :: "jsnum option"
  pe_p95 :: "jsnum option"
  pe_p99 :: "jsnum option"

record pairReadinessCheck =
  ck_code :: pairReadinessReasonCode
  ck_passed :: bool
  ck_detail :: string

record pairReadinessRow =
  pr_pairId :: string
  pr_side :: pairDirection
  pr_sizeUsd :: jsnum
  pr_status :: pairReadinessStatus
  pr_reasonCodes :: "pairReadinessReasonCode list"
  pr_sampleCount :: nat
  pr_liveEligibleCount :: nat
  pr_quoteSuccessRate :: "jsnum option"
  pr_oppositeSideLiveCount :: nat
  pr_routerDistribution :: "routerShare list"
  pr_quoteLatencyMs :: percentilesResult
  pr_basisAgeMs :: percentilesResult
  pr_checks :: "pairReadinessCheck list"

record pairReadinessMatrix =
  pm_status :: pairReadinessStatus
  pm_rows :: "pairReadinessRow list"

record pairReadinessOptions =
  ro_minSampleCount :: jsnum
  ro_minQuoteSuccessRate :: jsnum

definition DEFAULT_READINESS_OPTIONS :: pairReadinessOptions where
  "DEFAULT_READINESS_OPTIONS = \<lparr> ro_minSampleCount = Num 20, ro_minQuoteSuccessRate = fl (8/10) \<rparr>"

text \<open>The nearest-rank percentile of a sorted array.\<close>

definition percentile :: "jsnum list \<Rightarrow> jsnum \<Rightarrow> jsnum" where
  "percentile xs q = (if length xs = 1 then at_index xs (Num 0)
     else let idx = js_sub (js_ceil (js_mul q (js_len xs))) (Num 1)
       in at_index xs (js_min (js_count (length xs - 1)) (js_max (Num 0) idx)))"

definition percentiles :: "jsnum list \<Rightarrow> percentilesResult" where
  "percentiles values = (if values = [] then \<lparr> pe_p50 = None, pe_p95 = None, pe_p99 = None \<rparr>
     else let xs = js_sort num_gt values in
       \<lparr> pe_p50 = Some (percentile xs (fl (5/10))), pe_p95 = Some (percentile xs (fl (95/100))),
         pe_p99 = Some (percentile xs (fl (99/100))) \<rparr>)"

definition quoteStatsFor :: "pairReadinessQuoteStats list \<Rightarrow> pairDirection \<Rightarrow> jsnum \<Rightarrow> pairReadinessQuoteStats" where
  "quoteStatsFor rows side sz =
     (case find (\<lambda>r. pq_side r = side \<and> js_eq (pq_sizeUsd r) sz) rows of
        Some r \<Rightarrow> r
      | None \<Rightarrow> \<lparr> pq_side = side, pq_sizeUsd = sz, pq_totalCount = 0, pq_okCount = 0, pq_routerDistribution = [] \<rparr>)"

definition check :: "pairReadinessReasonCode \<Rightarrow> bool \<Rightarrow> string \<Rightarrow> pairReadinessCheck" where
  "check code passed detail = \<lparr> ck_code = code, ck_passed = passed, ck_detail = detail \<rparr>"

definition decimalsVerified :: "pairConfig \<Rightarrow> bool" where
  "decimalsVerified p \<longleftrightarrow> is_integer (pc_tokDecimals p) \<and> js_ge (pc_tokDecimals p) (Num 0) \<and>
     js_le (pc_tokDecimals p) (Num 18) \<and> js_eq (pc_quoteDecimals p) (Num 6)"

definition pct_text :: "jsnum \<Rightarrow> string" where
  "pct_text v = to_fixed 1 (js_mul v (Num 100)) @ ''%''"

fun opposite_side :: "pairDirection \<Rightarrow> pairDirection" where
  "opposite_side BuyTokenized = SellTokenized"
| "opposite_side SellTokenized = BuyTokenized"

definition finite_values :: "('a \<Rightarrow> jsnum option) \<Rightarrow> 'a list \<Rightarrow> jsnum list" where
  "finite_values f rows = filter is_finite (List.map_filter f rows)"

definition is_live :: "quoteQualityStatus option \<Rightarrow> bool" where
  "is_live s \<longleftrightarrow> s = Some LIVE_ELIGIBLE"

definition validPythFeed :: "pairConfig \<Rightarrow> bool" where
  "validPythFeed p \<longleftrightarrow> pc_pythSymbol p \<noteq> [] \<and> is_integer (pc_pythLazerId p) \<and> js_ge (pc_pythLazerId p) (Num 0)"

definition feedUpdatesReceived :: "pairReadinessObservation list \<Rightarrow> bool" where
  "feedUpdatesReceived obs \<longleftrightarrow>
     list_ex (\<lambda>r. js_gt (case po_pythFeedUpdateTimestampUs r of Some t \<Rightarrow> t | None \<Rightarrow> Num 0) (Num 0)) obs"

definition observations_for :: "pairReadinessObservation list \<Rightarrow> pairDirection \<Rightarrow> jsnum \<Rightarrow> pairReadinessObservation list" where
  "observations_for obs side sz = filter (\<lambda>r. po_side r = side \<and> js_eq (po_sizeUsd r) sz) obs"

definition success_rate :: "pairReadinessQuoteStats \<Rightarrow> jsnum option" where
  "success_rate st = (if pq_totalCount st = 0 then None else Some (js_div (js_count (pq_okCount st)) (js_count (pq_totalCount st))))"

definition hasKnownRouter :: "pairReadinessQuoteStats \<Rightarrow> bool" where
  "hasKnownRouter st \<longleftrightarrow> list_ex (\<lambda>r. rs_router r \<noteq> ''UNKNOWN'' \<and> 0 < rs_count r) (pq_routerDistribution st)"

definition readiness_checks :: "pairConfig \<Rightarrow> pairReadinessObservation list \<Rightarrow> pairReadinessQuoteStats list \<Rightarrow>
    pairReadinessOptions \<Rightarrow> pairDirection \<Rightarrow> jsnum \<Rightarrow> pairReadinessCheck list" where
  "readiness_checks p obs stats opts side sz =
    (let own = observations_for obs side sz;
         live = filter (\<lambda>r. is_live (po_qualityStatus r)) own;
         opposite = filter (\<lambda>r. is_live (po_qualityStatus r)) (observations_for obs (opposite_side side) sz);
         st = quoteStatsFor stats side sz;
         buy = quoteStatsFor stats BuyTokenized sz;
         sell = quoteStatsFor stats SellTokenized sz;
         rate = success_rate st
     in [check PYTH_FEED_MISSING (validPythFeed p) ''valid Pyth feed configured'',
         check NO_FEED_UPDATES (feedUpdatesReceived obs) ''Pyth feed updates observed'',
         check R_DECIMALS_UNVERIFIED (decimalsVerified p) ''SPL/USDC decimals are verified'',
         check BUY_ROUTE_MISSING (0 < pq_okCount buy) ''$250/$1000 buy route exists'',
         check SELL_ROUTE_MISSING (0 < pq_okCount sell) ''$250/$1000 sell route exists'',
         check QUOTE_SUCCESS_RATE_LOW (case rate of Some x \<Rightarrow> js_ge x (ro_minQuoteSuccessRate opts) | None \<Rightarrow> False)
           (''quote success rate '' @ (case rate of None \<Rightarrow> ''missing'' | Some x \<Rightarrow> pct_text x)),
         check ENTRY_EXIT_ROUTE_MISSING (0 < pq_okCount buy \<and> 0 < pq_okCount sell \<and> opposite \<noteq> [])
           ''entry and opposite-side exit routes both exist'',
         check ROUTER_DISTRIBUTION_UNKNOWN (hasKnownRouter st) ''router distribution known'',
         check QUOTE_LATENCY_INSUFFICIENT (pe_p50 (percentiles (finite_values po_quoteRequestMs own)) \<noteq> None)
           ''quote latency samples exist'',
         check BASIS_AGE_INSUFFICIENT (pe_p50 (percentiles (finite_values po_basisAgeMs own)) \<noteq> None)
           ''basis age samples exist'',
         check MARKET_SESSION_MAPPING_MISSING (list_ex (\<lambda>r. po_timeRegime r \<noteq> None) own) ''market session mapping exists'',
         check SAMPLE_COUNT_LOW (js_ge (js_count (length live)) (ro_minSampleCount opts))
           (show_nat (length live) @ ''/'' @ show_num (ro_minSampleCount opts) @ '' live-eligible samples'')])"

definition is_critical :: "pairDirection \<Rightarrow> pairReadinessReasonCode \<Rightarrow> bool" where
  "is_critical side code \<longleftrightarrow> code = PYTH_FEED_MISSING \<or> code = NO_FEED_UPDATES \<or> code = R_DECIMALS_UNVERIFIED \<or>
     code = (if side = BuyTokenized then BUY_ROUTE_MISSING else SELL_ROUTE_MISSING)"

definition readiness_row :: "pairConfig \<Rightarrow> pairReadinessObservation list \<Rightarrow> pairReadinessQuoteStats list \<Rightarrow>
    pairReadinessOptions \<Rightarrow> pairDirection \<Rightarrow> jsnum \<Rightarrow> pairReadinessRow" where
  "readiness_row p obs stats opts side sz =
    (let own = observations_for obs side sz;
         checks = readiness_checks p obs stats opts side sz;
         codes = map ck_code (filter (\<lambda>c. \<not> ck_passed c) checks);
         st = quoteStatsFor stats side sz
     in \<lparr> pr_pairId = pc_id p, pr_side = side, pr_sizeUsd = sz,
          pr_status = (if list_ex (is_critical side) codes then NOT_READY else if codes \<noteq> [] then RESEARCH_ONLY else READY),
          pr_reasonCodes = codes, pr_sampleCount = length own,
          pr_liveEligibleCount = length (filter (\<lambda>r. is_live (po_qualityStatus r)) own),
          pr_quoteSuccessRate = success_rate st,
          pr_oppositeSideLiveCount =
            length (filter (\<lambda>r. is_live (po_qualityStatus r)) (observations_for obs (opposite_side side) sz)),
          pr_routerDistribution = pq_routerDistribution st,
          pr_quoteLatencyMs = percentiles (finite_values po_quoteRequestMs own),
          pr_basisAgeMs = percentiles (finite_values po_basisAgeMs own), pr_checks = checks \<rparr>)"

definition buildPairReadinessMatrix :: "pairConfig \<Rightarrow> pairReadinessObservation list \<Rightarrow> pairReadinessQuoteStats list \<Rightarrow>
    jsnum option \<Rightarrow> jsnum option \<Rightarrow> pairReadinessMatrix" where
  "buildPairReadinessMatrix p obs stats minSamples minRate =
    (let opts = \<lparr> ro_minSampleCount = (case minSamples of Some x \<Rightarrow> x | None \<Rightarrow> ro_minSampleCount DEFAULT_READINESS_OPTIONS),
           ro_minQuoteSuccessRate = (case minRate of Some x \<Rightarrow> x | None \<Rightarrow> ro_minQuoteSuccessRate DEFAULT_READINESS_OPTIONS) \<rparr>;
         rows = concat (map (\<lambda>side. map (readiness_row p obs stats opts side) (pc_sizesUsd p)) (pc_directions p))
     in \<lparr> pm_status = (if list_ex (\<lambda>r. pr_status r = NOT_READY) rows then NOT_READY
                      else if list_all (\<lambda>r. pr_status r = READY) rows then READY else RESEARCH_ONLY),
          pm_rows = rows \<rparr>)"

section \<open>Route stability (route-stability.ts)\<close>

datatype quoteRowStatus = QOk | QRateLimited | QError | QStaleRow

record routeStabilityQuoteRow =
  rq_side :: pairDirection
  rq_sizeUsd :: jsnum
  rq_receivedAtMs :: jsnum
  rq_router :: "string option"
  rq_status :: quoteRowStatus
  rq_requestMs :: jsnum
  rq_priceImpactPct :: "jsnum option"
  rq_expiresAtMs :: "jsnum option"
  rq_contextSlot :: "jsnum option"

record routeStabilityRow =
  rr_side :: pairDirection
  rr_sizeUsd :: jsnum
  rr_sampleCount :: nat
  rr_okCount :: nat
  rr_successRate :: "jsnum option"
  rr_routerDistribution :: "routerShare list"
  rr_routerChangesPerHour :: "jsnum option"
  rr_topRouterShare :: "jsnum option"
  rr_routeStable :: bool
  rr_requestLatencyMs :: percentilesResult
  rr_priceImpactBps :: percentilesResult
  rr_quoteExpirySeconds :: percentilesResult
  rr_avgContextSlotAge :: "jsnum option"

record routeStabilitySummary =
  rz_windowMs :: jsnum
  rz_totalSampleCount :: nat
  rz_totalOkCount :: nat
  rz_overallSuccessRate :: "jsnum option"
  rz_topRouter :: "routerShare option"
  rz_routerChangesPerHour :: "jsnum option"
  rz_routeStable :: bool
  rz_perSideSize :: "routeStabilityRow list"

definition DEFAULT_STABLE_ROUTER_SHARE :: jsnum where
  "DEFAULT_STABLE_ROUTER_SHARE = fl (6/10)"

definition DEFAULT_STABLE_MAX_CHANGES_PER_HOUR :: jsnum where
  "DEFAULT_STABLE_MAX_CHANGES_PER_HOUR = Num 6"

definition stability_quantile :: "jsnum list \<Rightarrow> jsnum \<Rightarrow> jsnum" where
  "stability_quantile xs q = (if length xs = 1 then at_index xs (Num 0)
     else let idx = js_mul q (js_count (length xs - 1)); lo = js_floor idx; hi = js_ceil idx
       in if js_eq lo hi then at_index xs lo
          else js_add (at_index xs lo) (js_mul (js_sub (at_index xs hi) (at_index xs lo)) (js_sub idx lo)))"

definition stability_percentiles :: "jsnum list \<Rightarrow> percentilesResult" where
  "stability_percentiles values = (if values = [] then \<lparr> pe_p50 = None, pe_p95 = None, pe_p99 = None \<rparr>
     else let xs = js_sort num_gt values in
       \<lparr> pe_p50 = Some (stability_quantile xs (fl (5/10))), pe_p95 = Some (stability_quantile xs (fl (95/100))),
         pe_p99 = Some (stability_quantile xs (fl (99/100))) \<rparr>)"

definition stability_mean :: "jsnum list \<Rightarrow> jsnum" where
  "stability_mean xs = js_div (js_sum xs) (js_len xs)"

text \<open>groupBy: a Map from the key to the rows, in the order of the first occurrence of each key.\<close>

definition groupBy :: "('a \<Rightarrow> 'k) \<Rightarrow> 'a list \<Rightarrow> ('k, 'a list) dict" where
  "groupBy keyOf rows = foldl (\<lambda>out row. dict_set out (keyOf row)
     ((case dict_get out (keyOf row) of Some l \<Rightarrow> l | None \<Rightarrow> []) @ [row])) [] rows"

definition router_counts :: "routeStabilityQuoteRow list \<Rightarrow> (string, nat) dict" where
  "router_counts rows = foldl (\<lambda>counts row.
     let key = (case rq_router row of Some r \<Rightarrow> r | None \<Rightarrow> ''UNKNOWN'')
     in dict_set counts key ((case dict_get counts key of Some n \<Rightarrow> n | None \<Rightarrow> 0) + 1)) [] rows"

definition share_gt :: "(string \<Rightarrow> string \<Rightarrow> int) \<Rightarrow> routerShare \<Rightarrow> routerShare \<Rightarrow> bool" where
  "share_gt lc a b \<longleftrightarrow> (if rs_count a = rs_count b then 0 < lc (rs_router a) (rs_router b) else rs_count a < rs_count b)"

definition routerDistribution :: "(string \<Rightarrow> string \<Rightarrow> int) \<Rightarrow> routeStabilityQuoteRow list \<Rightarrow> routerShare list" where
  "routerDistribution lc rows = (if rows = [] then []
     else js_sort (share_gt lc) (map (\<lambda>(router, n). \<lparr> rs_router = router, rs_count = n,
        rs_pct = js_div (js_count n) (js_count (length rows)) \<rparr>) (router_counts rows)))"

fun router_changes :: "routeStabilityQuoteRow list \<Rightarrow> nat" where
  "router_changes (a # b # rows) = (if rq_router a \<noteq> rq_router b then 1 else 0) + router_changes (b # rows)"
| "router_changes _ = 0"

definition routerChangesPerHour :: "routeStabilityQuoteRow list \<Rightarrow> jsnum \<Rightarrow> jsnum option" where
  "routerChangesPerHour rows windowMs = (if length rows < 2 \<or> js_le windowMs (Num 0) then None
     else let hours = js_div windowMs (Num 3600000) in
       if js_le hours (Num 0) then None else Some (js_div (js_count (router_changes rows)) hours))"

definition stable_route :: "jsnum \<Rightarrow> jsnum \<Rightarrow> routerShare option \<Rightarrow> jsnum option \<Rightarrow> bool" where
  "stable_route share maxChanges best changes \<longleftrightarrow>
     js_ge (case best of Some t \<Rightarrow> rs_pct t | None \<Rightarrow> Num 0) share \<and>
     js_le (case changes of Some c \<Rightarrow> c | None \<Rightarrow> PInf) maxChanges"

fun first_of :: "'a list \<Rightarrow> 'a option" where
  "first_of [] = None"
| "first_of (x # xs) = Some x"

text \<open>buildSideRow is called on the groups only, which are not empty.\<close>

definition buildSideRow :: "(string \<Rightarrow> string \<Rightarrow> int) \<Rightarrow> routeStabilityQuoteRow list \<Rightarrow> jsnum \<Rightarrow> jsnum \<Rightarrow> jsnum \<Rightarrow> routeStabilityRow" where
  "buildSideRow lc rows windowMs share maxChanges =
    (let ok = filter (\<lambda>r. rq_status r = QOk) rows;
         dist = routerDistribution lc ok; best = first_of dist;
         changes = routerChangesPerHour ok windowMs;
         slots = List.map_filter rq_contextSlot ok
     in \<lparr> rr_side = rq_side (hd rows), rr_sizeUsd = rq_sizeUsd (hd rows), rr_sampleCount = length rows,
          rr_okCount = length ok,
          rr_successRate = (if rows = [] then None else Some (js_div (js_count (length ok)) (js_count (length rows)))),
          rr_routerDistribution = dist, rr_routerChangesPerHour = changes,
          rr_topRouterShare = map_option rs_pct best,
          rr_routeStable = stable_route share maxChanges best changes,
          rr_requestLatencyMs = stability_percentiles (map rq_requestMs ok),
          rr_priceImpactBps = stability_percentiles (filter is_finite
            (List.map_filter (\<lambda>r. map_option (\<lambda>p. js_mul (js_abs p) (Num 100)) (rq_priceImpactPct r)) ok)),
          rr_quoteExpirySeconds = stability_percentiles (filter is_finite
            (List.map_filter (\<lambda>r. map_option (\<lambda>e. js_max (Num 0) (js_div (js_sub e (rq_receivedAtMs r)) (Num 1000)))
              (rq_expiresAtMs r)) ok)),
          rr_avgContextSlotAge = (if slots = [] then None else Some (stability_mean slots)) \<rparr>)"

definition side_row_gt :: "(string \<Rightarrow> string \<Rightarrow> int) \<Rightarrow> routeStabilityRow \<Rightarrow> routeStabilityRow \<Rightarrow> bool" where
  "side_row_gt lc a b \<longleftrightarrow> (let c = lc (direction_name (rr_side a)) (direction_name (rr_side b)) in
     if c = 0 then num_gt (rr_sizeUsd a) (rr_sizeUsd b) else 0 < c)"

definition buildRouteStability :: "(string \<Rightarrow> string \<Rightarrow> int) \<Rightarrow> routeStabilityQuoteRow list \<Rightarrow> jsnum \<Rightarrow> jsnum option \<Rightarrow>
    jsnum option \<Rightarrow> routeStabilitySummary" where
  "buildRouteStability lc rows windowMs stableRouterShare stableMaxChanges =
    (let share = (case stableRouterShare of Some x \<Rightarrow> x | None \<Rightarrow> DEFAULT_STABLE_ROUTER_SHARE);
         maxChanges = (case stableMaxChanges of Some x \<Rightarrow> x | None \<Rightarrow> DEFAULT_STABLE_MAX_CHANGES_PER_HOUR);
         xs = js_sort (gt_on rq_receivedAtMs) rows;
         grouped = groupBy (\<lambda>r. direction_name (rq_side r) @ ''|'' @ show_num (rq_sizeUsd r)) xs;
         perSideSize = js_sort (side_row_gt lc) (map (\<lambda>(k, rs). buildSideRow lc rs windowMs share maxChanges) grouped);
         ok = filter (\<lambda>r. rq_status r = QOk) xs;
         best = first_of (routerDistribution lc ok);
         changes = routerChangesPerHour ok windowMs
     in \<lparr> rz_windowMs = windowMs, rz_totalSampleCount = length xs, rz_totalOkCount = length ok,
          rz_overallSuccessRate = (if xs = [] then None else Some (js_div (js_count (length ok)) (js_count (length xs)))),
          rz_topRouter = best, rz_routerChangesPerHour = changes,
          rz_routeStable = stable_route share maxChanges best changes, rz_perSideSize = perSideSize \<rparr>)"

section \<open>When a pair is ready\<close>

lemma check_simps [simp]: "ck_code (check c b d) = c" "ck_passed (check c b d) \<longleftrightarrow> b"
  by (simp_all add: check_def)

lemma percentiles_present: "pe_p50 (percentiles xs) \<noteq> None \<longleftrightarrow> xs \<noteq> []"
  by (simp add: percentiles_def Let_def)

lemmas percentiles_Some = percentiles_present [unfolded not_None_eq]

definition has_finite :: "('a \<Rightarrow> jsnum option) \<Rightarrow> 'a list \<Rightarrow> bool" where
  "has_finite f rows \<longleftrightarrow> (\<exists>r \<in> set rows. \<exists>x. f r = Some x \<and> is_finite x)"

lemma finite_values_nonempty: "finite_values f rows \<noteq> [] \<longleftrightarrow> has_finite f rows"
  by (induction rows) (auto simp add: finite_values_def has_finite_def List.map_filter_simps split: option.splits)

lemma row_ready:
  "pr_status (readiness_row p obs stats opts side sz) = READY \<longleftrightarrow>
     (\<forall>c \<in> set (readiness_checks p obs stats opts side sz). ck_passed c)"
  by (auto simp add: readiness_row_def Let_def list_ex_iff filter_empty_conv)

lemma failing_codes: "c \<in> set (pr_reasonCodes (readiness_row p obs stats opts side sz)) \<longleftrightarrow>
    (\<exists>k \<in> set (readiness_checks p obs stats opts side sz). ck_code k = c \<and> \<not> ck_passed k)"
  by (auto simp add: readiness_row_def Let_def)

lemma row_critical:
  "pr_status (readiness_row p obs stats opts side sz) = NOT_READY \<longleftrightarrow>
     (\<exists>c \<in> set (readiness_checks p obs stats opts side sz). \<not> ck_passed c \<and> is_critical side (ck_code c))"
  by (auto simp add: readiness_row_def Let_def list_ex_iff)

lemma row_not_ready:
  "pr_status (readiness_row p obs stats opts side sz) = NOT_READY \<longleftrightarrow>
     \<not> validPythFeed p \<or> \<not> feedUpdatesReceived obs \<or> \<not> decimalsVerified p \<or>
     pq_okCount (quoteStatsFor stats side sz) = 0"
  by (cases side) (simp_all add: row_critical readiness_checks_def Let_def is_critical_def)

lemma matrix_status:
  "pm_status (buildPairReadinessMatrix p obs stats ms mr) = NOT_READY \<longleftrightarrow>
     (\<exists>r \<in> set (pm_rows (buildPairReadinessMatrix p obs stats ms mr)). pr_status r = NOT_READY)"
  "pm_status (buildPairReadinessMatrix p obs stats ms mr) = READY \<longleftrightarrow>
     (\<forall>r \<in> set (pm_rows (buildPairReadinessMatrix p obs stats ms mr)). pr_status r = READY)"
  by (auto simp add: buildPairReadinessMatrix_def Let_def list_ex_iff list_all_iff)

text \<open>What one side and size needs beyond the feed and the decimals.\<close>

definition route_ready :: "pairReadinessObservation list \<Rightarrow> pairReadinessQuoteStats list \<Rightarrow> jsnum \<Rightarrow> jsnum \<Rightarrow> pairDirection \<Rightarrow> jsnum \<Rightarrow> bool" where
  "route_ready obs stats minSamples minRate side sz \<longleftrightarrow>
     0 < pq_okCount (quoteStatsFor stats BuyTokenized sz) \<and> 0 < pq_okCount (quoteStatsFor stats SellTokenized sz) \<and>
     (\<exists>x. success_rate (quoteStatsFor stats side sz) = Some x \<and> js_ge x minRate) \<and>
     hasKnownRouter (quoteStatsFor stats side sz) \<and>
     (\<exists>r \<in> set (observations_for obs (opposite_side side) sz). po_qualityStatus r = Some LIVE_ELIGIBLE) \<and>
     has_finite po_quoteRequestMs (observations_for obs side sz) \<and>
     has_finite po_basisAgeMs (observations_for obs side sz) \<and>
     (\<exists>r \<in> set (observations_for obs side sz). po_timeRegime r \<noteq> None) \<and>
     js_ge (js_count (length (filter (\<lambda>r. po_qualityStatus r = Some LIVE_ELIGIBLE) (observations_for obs side sz)))) minSamples"

text \<open>The readiness matrix of a pair with given thresholds: it is READY exactly when the feed, its
  updates and the decimals are in order and every configured side and size has both routes, a
  sufficient success rate, a known router, a live quote on the opposite side, finite latency and
  basis-age samples, a market session and enough live samples; it is NOT_READY exactly when the feed,
  its updates or the decimals are not in order or some configured side has no successful quote.\<close>

theorem readiness_exact:
  assumes "pc_directions p \<noteq> []" and "pc_sizesUsd p \<noteq> []"
  shows "(pm_status (buildPairReadinessMatrix p obs stats (Some minSamples) (Some minRate)) = READY \<longleftrightarrow>
      validPythFeed p \<and> feedUpdatesReceived obs \<and> decimalsVerified p \<and>
      (\<forall>side \<in> set (pc_directions p). \<forall>sz \<in> set (pc_sizesUsd p). route_ready obs stats minSamples minRate side sz)) \<and>
    (pm_status (buildPairReadinessMatrix p obs stats (Some minSamples) (Some minRate)) = NOT_READY \<longleftrightarrow>
      \<not> validPythFeed p \<or> \<not> feedUpdatesReceived obs \<or> \<not> decimalsVerified p \<or>
      (\<exists>side \<in> set (pc_directions p). \<exists>sz \<in> set (pc_sizesUsd p). pq_okCount (quoteStatsFor stats side sz) = 0))"
proof -
  let ?opts = "\<lparr> ro_minSampleCount = minSamples, ro_minQuoteSuccessRate = minRate \<rparr>"
  have rows: "set (pm_rows (buildPairReadinessMatrix p obs stats (Some minSamples) (Some minRate))) =
      {readiness_row p obs stats ?opts side sz |side sz. side \<in> set (pc_directions p) \<and> sz \<in> set (pc_sizesUsd p)}"
    by (auto simp add: buildPairReadinessMatrix_def Let_def)
  have ready: "pr_status (readiness_row p obs stats ?opts side sz) = READY \<longleftrightarrow>
      validPythFeed p \<and> feedUpdatesReceived obs \<and> decimalsVerified p \<and> route_ready obs stats minSamples minRate side sz"
    for side sz
    unfolding row_ready readiness_checks_def Let_def route_ready_def
    by (simp add: percentiles_Some finite_values_nonempty is_live_def list_ex_iff filter_empty_conv
        split: option.split) blast
  obtain d where d: "d \<in> set (pc_directions p)" using assms(1) by (cases "pc_directions p") auto
  obtain z where z: "z \<in> set (pc_sizesUsd p)" using assms(2) by (cases "pc_sizesUsd p") auto
  let ?row = "\<lambda>side sz. readiness_row p obs stats ?opts side sz"
  let ?S = "{?row side sz |side sz. side \<in> set (pc_directions p) \<and> sz \<in> set (pc_sizesUsd p)}"
  have "(\<forall>r \<in> ?S. pr_status r = READY) \<longleftrightarrow>
      (\<forall>side \<in> set (pc_directions p). \<forall>sz \<in> set (pc_sizesUsd p). pr_status (?row side sz) = READY)" by blast
  also have "\<dots> \<longleftrightarrow> validPythFeed p \<and> feedUpdatesReceived obs \<and> decimalsVerified p \<and>
      (\<forall>side \<in> set (pc_directions p). \<forall>sz \<in> set (pc_sizesUsd p). route_ready obs stats minSamples minRate side sz)"
    unfolding ready using d z by blast
  finally have 1: "(\<forall>r \<in> ?S. pr_status r = READY) \<longleftrightarrow> validPythFeed p \<and> feedUpdatesReceived obs \<and> decimalsVerified p \<and>
      (\<forall>side \<in> set (pc_directions p). \<forall>sz \<in> set (pc_sizesUsd p). route_ready obs stats minSamples minRate side sz)" .
  have "(\<exists>r \<in> ?S. pr_status r = NOT_READY) \<longleftrightarrow>
      (\<exists>side \<in> set (pc_directions p). \<exists>sz \<in> set (pc_sizesUsd p). pr_status (?row side sz) = NOT_READY)" by blast
  also have "\<dots> \<longleftrightarrow> \<not> validPythFeed p \<or> \<not> feedUpdatesReceived obs \<or> \<not> decimalsVerified p \<or>
      (\<exists>side \<in> set (pc_directions p). \<exists>sz \<in> set (pc_sizesUsd p). pq_okCount (quoteStatsFor stats side sz) = 0)"
    unfolding row_not_ready using d z by blast
  finally have 2: "(\<exists>r \<in> ?S. pr_status r = NOT_READY) \<longleftrightarrow> \<not> validPythFeed p \<or> \<not> feedUpdatesReceived obs \<or> \<not> decimalsVerified p \<or>
      (\<exists>side \<in> set (pc_directions p). \<exists>sz \<in> set (pc_sizesUsd p). pq_okCount (quoteStatsFor stats side sz) = 0)" .
  show ?thesis unfolding matrix_status rows using 1 2 by (rule conjI)
qed

definition demo_pair :: pairConfig where
  "demo_pair = \<lparr> pc_id = ''wbtc'', pc_enabled = True, pc_label = ''WBTC'', pc_pythSymbol = ''Crypto.BTC/USD'',
     pc_pythLazerId = Num 1, pc_exponent = Num (- 8), pc_assetClass = Crypto, pc_baseMaxLagMs = None,
     pc_tokMint = replicate 43 (CHR ''A''), pc_tokSymbol = ''WBTC'', pc_tokDecimals = Num 8,
     pc_quoteMint = replicate 43 (CHR ''B''), pc_quoteSymbol = ''USDC'', pc_quoteDecimals = Num 6,
     pc_sizesUsd = [Num 250], pc_directions = [BuyTokenized, SellTokenized], pc_quoteIntervalMs = Num 5000,
     pc_minPriceMoveBps = Num 1, pc_slippageBps = Num 50, pc_minNetEdgeBps = Num 10, pc_qualityGate = None \<rparr>"

theorem readiness_exact_witness:
  "pm_status (buildPairReadinessMatrix demo_pair [] [] (Some (Num 20)) (Some (Num 1))) = NOT_READY"
  using readiness_exact [of demo_pair "[]" "[]" "Num 20" "Num 1"]
  by (simp add: demo_pair_def feedUpdatesReceived_def)

section \<open>Shares and switches\<close>

lemma router_counts_step:
  "router_counts (rows @ [row]) = (let key = (case rq_router row of Some r \<Rightarrow> r | None \<Rightarrow> ''UNKNOWN'')
     in dict_set (router_counts rows) key ((case dict_get (router_counts rows) key of Some n \<Rightarrow> n | None \<Rightarrow> 0) + 1))"
  by (simp add: router_counts_def Let_def)

lemma dict_set_total: "sum_list (map snd (dict_set d k (w::nat))) + (case dict_get d k of Some n \<Rightarrow> n | None \<Rightarrow> 0)
    = sum_list (map snd d) + w"
  by (induction d k w rule: dict_set.induct) (auto split: option.splits)

lemma router_counts_total: "sum_list (map snd (router_counts rows)) = length rows"
proof (induction rows rule: rev_induct)
  case Nil
  then show ?case by (simp add: router_counts_def)
next
  case (snoc row rows)
  define key where "key = (case rq_router row of Some r \<Rightarrow> r | None \<Rightarrow> ''UNKNOWN'')"
  define n where "n = (case dict_get (router_counts rows) key of Some n \<Rightarrow> n | None \<Rightarrow> 0)"
  have "router_counts (rows @ [row]) = dict_set (router_counts rows) key (n + 1)"
    by (simp add: router_counts_step Let_def key_def n_def)
  then show ?case using dict_set_total [of "router_counts rows" key "n + 1"] snoc by (simp add: n_def)
qed

text \<open>The shares of the routers add up to the successful quotes.\<close>

lemma distribution_total: "sum_list (map rs_count (routerDistribution lc rows)) = length rows"
proof (cases "rows = []")
  case False
  let ?l = "map (\<lambda>(router, n). \<lparr> rs_router = router, rs_count = n, rs_pct = js_div (js_count n) (js_count (length rows)) \<rparr>)
      (router_counts rows)"
  have "mset (map rs_count (js_sort (share_gt lc) ?l)) = mset (map rs_count ?l)"
    by (simp only: mset_map mset_js_sort)
  then have "sum_list (map rs_count (js_sort (share_gt lc) ?l)) = sum_list (map rs_count ?l)"
    by (simp only: sum_mset_sum_list [symmetric])
  also have "map rs_count ?l = map snd (router_counts rows)" by auto
  finally show ?thesis using False router_counts_total [of rows] by (simp add: routerDistribution_def)
qed (simp add: routerDistribution_def)

lemma router_changes_bound: "router_changes rows \<le> length rows - 1"
  by (induction rows rule: router_changes.induct) auto

lemma router_changes_same: "\<forall>r \<in> set rows. rq_router r = x \<Longrightarrow> router_changes rows = 0"
  by (induction rows rule: router_changes.induct) auto

text \<open>Interleaved buy and sell quotes whose routers differ, one second apart.\<close>

definition demo_quote :: "pairDirection \<Rightarrow> rat \<Rightarrow> string \<Rightarrow> routeStabilityQuoteRow" where
  "demo_quote side t router = \<lparr> rq_side = side, rq_sizeUsd = Num 250, rq_receivedAtMs = Num t, rq_router = Some router,
     rq_status = QOk, rq_requestMs = Num 100, rq_priceImpactPct = None, rq_expiresAtMs = None, rq_contextSlot = Some (Num 300) \<rparr>"

definition demo_quotes :: "routeStabilityQuoteRow list" where
  "demo_quotes = concat (map (\<lambda>t. [demo_quote BuyTokenized (2 * of_nat t) ''iris'', demo_quote SellTokenized (2 * of_nat t + 1) ''okx''])
     [0..<5])"

lemma fl_sixteenth: "\<bar>m\<bar> \<le> 16 \<Longrightarrow> fl (of_int m / 16) = Num (of_int m / 16)"
proof (rule fl_double)
  assume m: "\<bar>m\<bar> \<le> 16"
  show "is_double (of_int m / 16)" unfolding is_double_def using m
    by (intro exI [of _ m] exI [of _ "- 4"]) (simp add: power_int_minus)
  have "\<bar>of_int m / 16 :: rat\<bar> \<le> 1" using m by (simp add: abs_le_iff)
  also have "(1::rat) < 2 ^ 1024" by (rule one_less_power) simp_all
  finally show "\<bar>of_int m / 16 :: rat\<bar> < 2 ^ 1024" .
qed

lemma stable_share_bounds: "js_lt (Num (1/2)) DEFAULT_STABLE_ROUTER_SHARE" "js_le DEFAULT_STABLE_ROUTER_SHARE (Num 1)"
proof -
  have "js_le (Num (9/16)) (fl (6/10))" using fl_sixteenth [of 9] by (intro fl_ge_double) simp_all
  then show "js_lt (Num (1/2)) DEFAULT_STABLE_ROUTER_SHARE"
    using js_lt_le_trans [of "Num (1/2)" "Num (9/16)"] by (simp add: DEFAULT_STABLE_ROUTER_SHARE_def)
  show "js_le DEFAULT_STABLE_ROUTER_SHARE (Num 1)"
    unfolding DEFAULT_STABLE_ROUTER_SHARE_def by (intro fl_le_double) (simp_all add: js_eval)
qed

definition demo_lc :: "string \<Rightarrow> string \<Rightarrow> int" where
  "demo_lc a b = (if a = b then 0 else if a = ''iris'' \<or> a = ''buy_tokenized'' then - 1 else 1)"

definition demo_side :: "pairDirection \<Rightarrow> routeStabilityQuoteRow list" where
  "demo_side side = map (\<lambda>t. demo_quote side (2 * of_nat t + (if side = BuyTokenized then 0 else 1))
     (if side = BuyTokenized then ''iris'' else ''okx'')) [0..<5]"

lemma demo_expand:
  "demo_quotes = [demo_quote BuyTokenized 0 ''iris'', demo_quote SellTokenized 1 ''okx'', demo_quote BuyTokenized 2 ''iris'',
     demo_quote SellTokenized 3 ''okx'', demo_quote BuyTokenized 4 ''iris'', demo_quote SellTokenized 5 ''okx'',
     demo_quote BuyTokenized 6 ''iris'', demo_quote SellTokenized 7 ''okx'', demo_quote BuyTokenized 8 ''iris'',
     demo_quote SellTokenized 9 ''okx'']"
  by (simp add: demo_quotes_def upt_rec)

lemma demo_sorted: "js_sort (gt_on rq_receivedAtMs) demo_quotes = demo_quotes"
proof (rule js_sort_sorted_id)
  show "sorted_wrt (\<lambda>a b. \<not> gt_on rq_receivedAtMs a b) demo_quotes"
    unfolding demo_expand by (simp add: gt_on_iff demo_quote_def)
qed

lemma demo_groups:
  "groupBy (\<lambda>r. direction_name (rq_side r) @ ''|'' @ show_num (rq_sizeUsd r)) demo_quotes =
     [(''buy_tokenized|'' @ show_num (Num 250), demo_side BuyTokenized), (''sell_tokenized|'' @ show_num (Num 250), demo_side SellTokenized)]"
proof -
  obtain z where z: "show_num (Num 250) = z" by blast
  show ?thesis unfolding groupBy_def demo_expand
    by (simp add: demo_quote_def z demo_side_def upt_rec del: show_num.simps)
qed

lemma demo_side_row:
  defines "row \<equiv> \<lambda>side. buildSideRow demo_lc (demo_side side) (Num 3600000) DEFAULT_STABLE_ROUTER_SHARE DEFAULT_STABLE_MAX_CHANGES_PER_HOUR"
  shows "rr_side (row side) = side" "rr_routeStable (row side)" "rr_topRouterShare (row side) = Some (Num 1)"
    "rr_avgContextSlotAge (row side) = Some (Num 300)"
proof -
  let ?r = "if side = BuyTokenized then ''iris'' else ''okx''"
  have ok: "filter (\<lambda>r. rq_status r = QOk) (demo_side side) = demo_side side"
    by (simp add: demo_side_def demo_quote_def filter_id_conv)
  have counts: "router_counts (demo_side side) = [(?r, 5)]"
    by (simp add: router_counts_def demo_side_def demo_quote_def upt_rec)
  have len: "length (demo_side side) = 5" by (simp add: demo_side_def)
  have "demo_side side \<noteq> []" by (simp add: demo_side_def)
  then have dist: "routerDistribution demo_lc (demo_side side) = [\<lparr> rs_router = ?r, rs_count = 5, rs_pct = Num 1 \<rparr>]"
    by (simp add: routerDistribution_def counts len js_sort_def js_count_def js_eval)
  have "router_changes (demo_side side) = 0"
    by (rule router_changes_same [of _ "Some ?r"]) (auto simp add: demo_side_def demo_quote_def)
  then have ch: "routerChangesPerHour (demo_side side) (Num 3600000) = Some (Num 0)"
    by (simp add: routerChangesPerHour_def len Let_def js_count_def js_eval)
  have slots: "List.map_filter rq_contextSlot (demo_side side) = [Num 300, Num 300, Num 300, Num 300, Num 300]"
    by (simp add: demo_side_def demo_quote_def upt_rec List.map_filter_simps)
  show "rr_side (row side) = side" by (simp add: row_def buildSideRow_def Let_def demo_side_def demo_quote_def upt_rec)
  show "rr_routeStable (row side)" using stable_share_bounds(2)
    by (simp add: row_def buildSideRow_def Let_def ok dist ch stable_route_def DEFAULT_STABLE_MAX_CHANGES_PER_HOUR_def)
  show "rr_topRouterShare (row side) = Some (Num 1)" by (simp add: row_def buildSideRow_def Let_def ok dist)
  show "rr_avgContextSlotAge (row side) = Some (Num 300)"
    by (simp add: row_def buildSideRow_def Let_def ok slots stability_mean_def js_sum_def js_len_def js_eval)
qed

text \<open>The stability of a pair mixes its sides: with buy quotes always routed by one maker and sell
  quotes always by another, every side row is stable with a share of one and no switch, yet the pair
  is reported unstable, because the overall switches are counted between consecutive rows of
  different sides and the overall top share is one half. The context slot age of a row is the mean
  slot number, not an age.\<close>

theorem interleaved_sides_unstable:
  "let S = buildRouteStability demo_lc demo_quotes (Num 3600000) None None in
    \<not> rz_routeStable S \<and> rz_routerChangesPerHour S = Some (Num 9) \<and>
    map rr_routeStable (rz_perSideSize S) = [True, True] \<and>
    map rr_topRouterShare (rz_perSideSize S) = [Some (Num 1), Some (Num 1)] \<and>
    map rr_avgContextSlotAge (rz_perSideSize S) = [Some (Num 300), Some (Num 300)]"
proof -
  let ?row = "\<lambda>side. buildSideRow demo_lc (demo_side side) (Num 3600000) DEFAULT_STABLE_ROUTER_SHARE DEFAULT_STABLE_MAX_CHANGES_PER_HOUR"
  have ok: "filter (\<lambda>r. rq_status r = QOk) demo_quotes = demo_quotes"
    by (simp add: demo_quotes_def demo_quote_def filter_id_conv)
  have counts: "router_counts demo_quotes = [(''iris'', 5), (''okx'', 5)]"
    unfolding demo_expand by (simp add: router_counts_def demo_quote_def)
  have len: "length demo_quotes = 10" by (simp add: demo_expand)
  have ne: "demo_quotes \<noteq> []" by (simp add: demo_expand)
  have dist: "first_of (routerDistribution demo_lc demo_quotes) =
      Some \<lparr> rs_router = ''iris'', rs_count = 5, rs_pct = Num (1/2) \<rparr>"
    using half_exact by (simp add: ne routerDistribution_def counts len js_sort_def share_gt_def demo_lc_def js_count_def)
  have "router_changes demo_quotes = 9" unfolding demo_expand by (simp add: demo_quote_def)
  then have ch: "routerChangesPerHour demo_quotes (Num 3600000) = Some (Num 9)"
    by (simp add: routerChangesPerHour_def len Let_def js_count_def js_eval)
  have gt: "\<not> side_row_gt demo_lc (?row BuyTokenized) (?row SellTokenized)"
    by (simp add: side_row_gt_def demo_side_row demo_lc_def)
  have pair: "js_sort (side_row_gt demo_lc) [?row BuyTokenized, ?row SellTokenized] = [?row BuyTokenized, ?row SellTokenized]"
    using gt by (simp add: js_sort_def)
  have rows: "rz_perSideSize (buildRouteStability demo_lc demo_quotes (Num 3600000) None None) = [?row BuyTokenized, ?row SellTokenized]"
    unfolding buildRouteStability_def Let_def demo_sorted demo_groups by (simp add: pair)
  have "rz_routerChangesPerHour (buildRouteStability demo_lc demo_quotes (Num 3600000) None None) = Some (Num 9)"
    by (simp add: buildRouteStability_def Let_def demo_sorted ok ch)
  moreover have "\<not> rz_routeStable (buildRouteStability demo_lc demo_quotes (Num 3600000) None None)"
    using js_lt_le_trans [OF stable_share_bounds(1), of "Num (1/2)"]
    by (auto simp add: buildRouteStability_def Let_def demo_sorted ok ch dist stable_route_def)
  ultimately show ?thesis unfolding Let_def rows by (simp add: demo_side_row)
qed

end
