(* ===== verification/StatSummary.thy ===== *)
theory StatSummary
  imports Readiness
begin

text \<open>
  packages/market-core/src/stat-summary.ts: the statistics of the onchain/underlying ratio of one
  side and size over a window. Math.sqrt and Math.log are implementation-approximated in the
  language standard and are parameters: sq, and ln2 for Math.log(2).
\<close>

record statObservation =
  so_side :: pairDirection
  so_sizeUsd :: jsnum
  so_observedAtMs :: jsnum
  so_basePriceUsd :: jsnum
  so_tokenPriceUsd :: jsnum
  so_qualityStatus :: "quoteQualityStatus option"
  so_timeRegime :: "timeRegime option"

record deviationQuantilesBps =
  dq_p01 :: "jsnum option"
  dq_p05 :: "jsnum option"
  dq_p10 :: "jsnum option"
  dq_p50 :: "jsnum option"
  dq_p90 :: "jsnum option"
  dq_p95 :: "jsnum option"
  dq_p99 :: "jsnum option"

record regimeStatSummary =
  rg_regime :: timeRegime
  rg_fairRatio :: "jsnum option"
  rg_liveSampleCount :: nat
  rg_medianDeviationBps :: "jsnum option"
  rg_p05DeviationBps :: "jsnum option"
  rg_p95DeviationBps :: "jsnum option"

record pairStatSummary =
  ss_windowMs :: jsnum
  ss_side :: pairDirection
  ss_sizeUsd :: jsnum
  ss_liveSampleCount :: nat
  ss_fairRatio :: "jsnum option"
  ss_currentRatio :: "jsnum option"
  ss_currentDeviationBps :: "jsnum option"
  ss_meanRatio :: "jsnum option"
  ss_medianRatio :: "jsnum option"
  ss_ratioMad :: "jsnum option"
  ss_meanDeviationBps :: "jsnum option"
  ss_medianDeviationBps :: "jsnum option"
  ss_deviationQuantilesBps :: deviationQuantilesBps
  ss_currentZScore :: "jsnum option"
  ss_robustZScore :: "jsnum option"
  ss_basisVolBps :: "jsnum option"
  ss_skewBps :: "jsnum option"
  ss_cheapTailCount :: nat
  ss_richTailCount :: nat
  ss_halfLifeSeconds :: "jsnum option"
  ss_opportunityCount :: nat
  ss_avgOpportunityDurationSeconds :: "jsnum option"
  ss_regimeBreakdown :: "regimeStatSummary list"

definition DEFAULT_OPPORTUNITY_THRESHOLD_BPS :: jsnum where
  "DEFAULT_OPPORTUNITY_THRESHOLD_BPS = Num 50"

definition DEFAULT_MIN_HALF_LIFE_SAMPLES :: jsnum where
  "DEFAULT_MIN_HALF_LIFE_SAMPLES = Num 30"

section \<open>Elementary statistics\<close>

text \<open>An element of an array; undefined, out of range, becomes NaN in arithmetic.\<close>

definition elem_at :: "jsnum list \<Rightarrow> nat \<Rightarrow> jsnum" where
  "elem_at xs i = (case nth_opt xs i of Some x \<Rightarrow> x | None \<Rightarrow> NaN)"

definition mean :: "jsnum list \<Rightarrow> jsnum option" where
  "mean xs = (if xs = [] then None else Some (js_div (js_sum xs) (js_len xs)))"

definition median :: "jsnum list \<Rightarrow> jsnum option" where
  "median xs = (if xs = [] then None
     else let s = js_sort num_gt xs; mid = length s div 2 in
       Some (if even (length s) then js_div (js_add (elem_at s (mid - 1)) (elem_at s mid)) (Num 2) else elem_at s mid))"

definition standardDeviation :: "(jsnum \<Rightarrow> jsnum) \<Rightarrow> jsnum list \<Rightarrow> jsnum option" where
  "standardDeviation sq xs = (if length xs < 2 then None
     else case mean xs of
       None \<Rightarrow> None
     | Some m \<Rightarrow> Some (sq (js_div (foldl (\<lambda>s v. js_add s (js_mul (js_sub v m) (js_sub v m))) (Num 0) xs)
                              (js_count (length xs - 1)))))"

definition medianAbsoluteDeviation :: "jsnum list \<Rightarrow> jsnum option \<Rightarrow> jsnum option" where
  "medianAbsoluteDeviation xs med = (case med of
     None \<Rightarrow> None
   | Some m \<Rightarrow> if xs = [] then None else median (map (\<lambda>v. js_abs (js_sub v m)) xs))"

definition stat_quantile :: "jsnum list \<Rightarrow> jsnum \<Rightarrow> jsnum" where
  "stat_quantile xs q = (if length xs = 1 then at_index xs (Num 0)
     else let idx = js_mul q (js_count (length xs - 1)); lo = js_floor idx; hi = js_ceil idx
       in if js_eq lo hi then at_index xs lo
          else js_add (at_index xs lo) (js_mul (js_sub (at_index xs hi) (at_index xs lo)) (js_sub idx lo)))"

definition emptyQuantiles :: deviationQuantilesBps where
  "emptyQuantiles = \<lparr> dq_p01 = None, dq_p05 = None, dq_p10 = None, dq_p50 = None, dq_p90 = None, dq_p95 = None, dq_p99 = None \<rparr>"

definition computeQuantiles :: "jsnum list \<Rightarrow> deviationQuantilesBps" where
  "computeQuantiles values = (if values = [] then emptyQuantiles
     else let s = js_sort num_gt values; ats = (\<lambda>p. Some (stat_quantile s (fl (p / 100)))) in
       \<lparr> dq_p01 = ats 1, dq_p05 = ats 5, dq_p10 = ats 10, dq_p50 = ats 50, dq_p90 = ats 90, dq_p95 = ats 95, dq_p99 = ats 99 \<rparr>)"

definition computeTailSkewBps :: "jsnum list \<Rightarrow> jsnum option" where
  "computeTailSkewBps devs = (if devs = [] then None
     else let cheap = map js_abs (filter (\<lambda>b. js_lt b (Num 0)) devs);
              rich = filter (\<lambda>b. js_gt b (Num 0)) devs;
              med = (\<lambda>xs. case median xs of None \<Rightarrow> Num 0 | Some m \<Rightarrow> m)
       in if cheap = [] \<and> rich = [] then None else Some (js_sub (med rich) (med cheap)))"

section \<open>Mean reversion\<close>

definition linearRegressionSlope :: "jsnum list \<Rightarrow> jsnum list \<Rightarrow> jsnum option" where
  "linearRegressionSlope xs ys = (if xs = [] \<or> length xs \<noteq> length ys then None
     else case (mean xs, mean ys) of
       (Some xMean, Some yMean) \<Rightarrow>
         (case foldl (\<lambda>(num, den) (x, y). let dx = js_sub x xMean in
               (js_add num (js_mul dx (js_sub y yMean)), js_add den (js_mul dx dx))) (Num 0, Num 0) (zip xs ys) of
            (num, den) \<Rightarrow> if js_eq den (Num 0) then None else Some (js_div num den))
     | _ \<Rightarrow> None)"

definition avgTickSpacingSeconds :: "jsnum list \<Rightarrow> jsnum option" where
  "avgTickSpacingSeconds ats = (if length ats < 2 then None
     else case foldl (\<lambda>(sumMs, n) i. let d = js_sub (elem_at ats i) (elem_at ats (i - 1)) in
            if js_gt d (Num 0) then (js_add sumMs d, n + 1) else (sumMs, n)) (Num 0, 0::nat) [1..<length ats] of
          (sumMs, n) \<Rightarrow> if n = 0 then None else Some (js_div (js_div sumMs (js_count n)) (Num 1000)))"

definition estimateHalfLifeSeconds :: "jsnum \<Rightarrow> jsnum list \<Rightarrow> jsnum list \<Rightarrow> jsnum option" where
  "estimateHalfLifeSeconds ln2 devs ats = (if length devs < 2 then None
     else let xs = map (\<lambda>i. elem_at devs (i - 1)) [1..<length devs];
              ys = map (\<lambda>i. js_sub (elem_at devs i) (elem_at devs (i - 1))) [1..<length devs]
       in case linearRegressionSlope xs ys of
            None \<Rightarrow> None
          | Some slope \<Rightarrow>
              if js_ge slope (Num 0) then None
              else let k = js_neg slope in
                if js_le k (Num 0) then None
                else (case avgTickSpacingSeconds ats of
                        None \<Rightarrow> None
                      | Some tick \<Rightarrow> Some (js_mul (js_div ln2 k) tick)))"

section \<open>Opportunities\<close>

record oppLoop =
  ol_in :: bool
  ol_start :: nat
  ol_count :: nat
  ol_duration :: jsnum

definition opp_above :: "jsnum list \<Rightarrow> jsnum \<Rightarrow> nat \<Rightarrow> bool" where
  "opp_above devs thr i \<longleftrightarrow> js_ge (js_abs (elem_at devs i)) thr"

text \<open>Math.max(0, end - start) / 1000, added to the sum of durations.\<close>

definition add_duration :: "jsnum list \<Rightarrow> nat \<Rightarrow> oppLoop \<Rightarrow> oppLoop" where
  "add_duration ats i s = s\<lparr> ol_count := ol_count s + 1,
     ol_duration := js_add (ol_duration s) (js_div (js_max (Num 0) (js_sub (elem_at ats i) (elem_at ats (ol_start s)))) (Num 1000)) \<rparr>"

definition opp_step :: "jsnum list \<Rightarrow> jsnum list \<Rightarrow> jsnum \<Rightarrow> oppLoop \<Rightarrow> nat \<Rightarrow> oppLoop" where
  "opp_step devs ats thr s i = (let ab = opp_above devs thr i in
     if ab \<and> \<not> ol_in s then s\<lparr> ol_in := True, ol_start := i \<rparr>
     else if \<not> ab \<and> ol_in s then add_duration ats (i - 1) (s\<lparr> ol_in := False \<rparr>)
     else s)"

definition summarizeOpportunities :: "jsnum list \<Rightarrow> jsnum list \<Rightarrow> jsnum \<Rightarrow> nat \<times> jsnum option" where
  "summarizeOpportunities devs ats thr = (if devs = [] then (0, None)
     else let s0 = foldl (opp_step devs ats thr) \<lparr> ol_in = False, ol_start = 0, ol_count = 0, ol_duration = Num 0 \<rparr> [0..<length devs];
              s = (if ol_in s0 then add_duration ats (length devs - 1) s0 else s0)
       in (ol_count s, if ol_count s = 0 then None else Some (js_div (ol_duration s) (js_count (ol_count s)))))"

section \<open>The summary\<close>

definition so_ratio :: "statObservation \<Rightarrow> jsnum" where
  "so_ratio r = js_div (so_tokenPriceUsd r) (so_basePriceUsd r)"

definition deviations :: "jsnum list \<Rightarrow> jsnum option \<Rightarrow> jsnum list" where
  "deviations ratios fair = (case fair of None \<Rightarrow> [] | Some f \<Rightarrow> map (\<lambda>r. ratio_bps (js_div r f)) ratios)"

definition buildRegimeBreakdown :: "statObservation list \<Rightarrow> regimeStatSummary list" where
  "buildRegimeBreakdown obs =
    (let grouped = groupBy (\<lambda>r. the (so_timeRegime r)) (filter (\<lambda>r. so_timeRegime r \<noteq> None) obs)
     in js_sort (\<lambda>a b. rg_liveSampleCount a < rg_liveSampleCount b)
          (map (\<lambda>(regime, rows).
             let ratios = map so_ratio rows; fair = median ratios; devs = deviations ratios fair;
                 q = (\<lambda>p. if devs = [] then None else Some (stat_quantile (js_sort num_gt devs) (fl (p / 100))))
             in \<lparr> rg_regime = regime, rg_fairRatio = fair, rg_liveSampleCount = length rows,
                  rg_medianDeviationBps = median devs, rg_p05DeviationBps = q 5, rg_p95DeviationBps = q 95 \<rparr>) grouped))"

definition emptySummary :: "pairDirection \<Rightarrow> jsnum \<Rightarrow> jsnum \<Rightarrow> pairStatSummary" where
  "emptySummary side sz windowMs =
     \<lparr> ss_windowMs = windowMs, ss_side = side, ss_sizeUsd = sz, ss_liveSampleCount = 0, ss_fairRatio = None,
       ss_currentRatio = None, ss_currentDeviationBps = None, ss_meanRatio = None, ss_medianRatio = None,
       ss_ratioMad = None, ss_meanDeviationBps = None, ss_medianDeviationBps = None,
       ss_deviationQuantilesBps = emptyQuantiles, ss_currentZScore = None, ss_robustZScore = None,
       ss_basisVolBps = None, ss_skewBps = None, ss_cheapTailCount = 0, ss_richTailCount = 0,
       ss_halfLifeSeconds = None, ss_opportunityCount = 0, ss_avgOpportunityDurationSeconds = None,
       ss_regimeBreakdown = [] \<rparr>"

definition live_window :: "pairDirection \<Rightarrow> jsnum \<Rightarrow> statObservation list \<Rightarrow> jsnum \<Rightarrow> jsnum \<Rightarrow> statObservation list" where
  "live_window side sz obs nowMs windowMs = js_sort (gt_on so_observedAtMs) (filter (\<lambda>r.
     so_side r = side \<and> js_eq (so_sizeUsd r) sz \<and> is_live (so_qualityStatus r) \<and>
     js_ge (so_observedAtMs r) (js_sub nowMs windowMs) \<and> js_gt (so_basePriceUsd r) (Num 0) \<and> js_gt (so_tokenPriceUsd r) (Num 0)) obs)"

definition z_score :: "jsnum option \<Rightarrow> jsnum option \<Rightarrow> jsnum option" where
  "z_score dev scale = (case (dev, scale) of
     (Some d, Some s) \<Rightarrow> if js_eq s (Num 0) then None else Some (js_div d s)
   | _ \<Rightarrow> None)"

fun last_of :: "'a list \<Rightarrow> 'a option" where
  "last_of [] = None"
| "last_of [x] = Some x"
| "last_of (x # xs) = last_of xs"

definition buildStatSummary :: "(jsnum \<Rightarrow> jsnum) \<Rightarrow> jsnum \<Rightarrow> pairDirection \<Rightarrow> jsnum \<Rightarrow> statObservation list \<Rightarrow> jsnum \<Rightarrow> jsnum \<Rightarrow>
    jsnum option \<Rightarrow> jsnum option \<Rightarrow> pairStatSummary" where
  "buildStatSummary sq ln2 side sz obs nowMs windowMs threshold minSamples =
    (let thr = (case threshold of Some t \<Rightarrow> t | None \<Rightarrow> DEFAULT_OPPORTUNITY_THRESHOLD_BPS);
         minHalf = (case minSamples of Some m \<Rightarrow> m | None \<Rightarrow> DEFAULT_MIN_HALF_LIFE_SAMPLES);
         live = live_window side sz obs nowMs windowMs
     in if live = [] then emptySummary side sz windowMs
        else let ratios = map so_ratio live; fair = median ratios; mad = medianAbsoluteDeviation ratios fair;
                 devs = deviations ratios fair; stddev = standardDeviation sq devs;
                 robustScale = (case (mad, fair) of
                   (Some m, Some f) \<Rightarrow> Some (js_mul (js_mul (js_div m f) (Num 10000)) (fl (14826 / 10000)))
                 | _ \<Rightarrow> None);
                 cur = last_of devs; ats = map so_observedAtMs live;
                 opp = summarizeOpportunities devs ats thr
          in \<lparr> ss_windowMs = windowMs, ss_side = side, ss_sizeUsd = sz, ss_liveSampleCount = length live,
               ss_fairRatio = fair, ss_currentRatio = last_of ratios, ss_currentDeviationBps = cur,
               ss_meanRatio = mean ratios, ss_medianRatio = fair, ss_ratioMad = mad,
               ss_meanDeviationBps = mean devs, ss_medianDeviationBps = median devs,
               ss_deviationQuantilesBps = computeQuantiles devs,
               ss_currentZScore = z_score cur stddev, ss_robustZScore = z_score cur robustScale,
               ss_basisVolBps = stddev, ss_skewBps = computeTailSkewBps devs,
               ss_cheapTailCount = length (filter (\<lambda>b. js_le b (js_neg thr)) devs),
               ss_richTailCount = length (filter (\<lambda>b. js_ge b thr) devs),
               ss_halfLifeSeconds = (if js_ge (js_count (length live)) minHalf then estimateHalfLifeSeconds ln2 devs ats else None),
               ss_opportunityCount = fst opp, ss_avgOpportunityDurationSeconds = snd opp,
               ss_regimeBreakdown = buildRegimeBreakdown live \<rparr>)"

section \<open>One quantile, three implementations\<close>

text \<open>The three interpolating quantiles of the package agree: the one that sorts its input
  (thresholds.ts) returns, for any non-empty array of numbers and any probability, what the private
  copies of stat-summary.ts and route-stability.ts return on the sorted array; the copies' shortcut
  for one sample changes nothing.\<close>

theorem quantiles_agree:
  assumes "values \<noteq> []" and "0 \<le> q" "q \<le> 1"
  shows "quantile values (Num q) = Inr (stat_quantile (js_sort num_gt values) (Num q)) \<and>
    stability_quantile (js_sort num_gt values) (Num q) = stat_quantile (js_sort num_gt values) (Num q)"
proof -
  let ?xs = "js_sort num_gt values"
  have "stat_quantile ?xs (Num q) = interpolate ?xs (Num q)"
  proof (cases "length ?xs = 1")
    case True
    then have "js_mul (Num q) (js_count (length ?xs - 1)) = Num 0" by (simp add: js_count_def)
    then show ?thesis using True by (simp add: stat_quantile_def interpolate_def Let_def)
  next
    case False
    then show ?thesis by (simp add: stat_quantile_def interpolate_def Let_def)
  qed
  then show ?thesis using quantile_interpolate [OF assms]
    by (simp add: stat_quantile_def stability_quantile_def)
qed

theorem quantiles_agree_witness:
  "quantile [Num 7] (Num (1/2)) = Inr (Num 7)"
  using quantiles_agree [of "[Num 7]" "1/2"] by (simp add: stat_quantile_def js_sort_def at_index_def)

section \<open>Opportunities are maximal runs\<close>

text \<open>The reference: the positions where a run above the threshold begins.\<close>

definition run_starts :: "(nat \<Rightarrow> bool) \<Rightarrow> nat \<Rightarrow> nat" where
  "run_starts p n = length (filter (\<lambda>i. p i \<and> (i = 0 \<or> \<not> p (i - 1))) [0..<n])"

lemma opp_loop_inv:
  defines "s0 \<equiv> \<lparr> ol_in = False, ol_start = 0, ol_count = 0, ol_duration = Num 0 \<rparr>"
  shows "ol_count (foldl (opp_step devs ats thr) s0 [0..<n]) +
      (if ol_in (foldl (opp_step devs ats thr) s0 [0..<n]) then 1 else 0) = run_starts (opp_above devs thr) n \<and>
    (ol_in (foldl (opp_step devs ats thr) s0 [0..<n]) \<longleftrightarrow> 0 < n \<and> opp_above devs thr (n - 1))"
proof (induction n)
  case 0
  then show ?case by (simp add: run_starts_def s0_def)
next
  case (Suc n)
  have r: "run_starts (opp_above devs thr) (Suc n) = run_starts (opp_above devs thr) n +
      (if opp_above devs thr n \<and> (n = 0 \<or> \<not> opp_above devs thr (n - 1)) then 1 else 0)"
    by (simp add: run_starts_def)
  show ?case unfolding r using Suc
    by (cases "opp_above devs thr n"; cases "n = 0"; cases "opp_above devs thr (n - 1)")
      (simp_all add: opp_step_def Let_def add_duration_def)
qed

lemma summarize_runs: "fst (summarizeOpportunities devs ats thr) = run_starts (opp_above devs thr) (length devs)"
  using opp_loop_inv [of devs ats thr "length devs"]
  by (auto simp add: summarizeOpportunities_def Let_def add_duration_def run_starts_def)

lemma starts_le: "run_starts p n \<le> length (filter p [0..<n])"
  by (induction n) (auto simp add: run_starts_def)

lemma above_count: "length (filter (opp_above devs thr) [0..<length devs]) = length (filter (\<lambda>b. js_ge (js_abs b) thr) devs)"
proof -
  have "filter (\<lambda>b. js_ge (js_abs b) thr) devs = filter (\<lambda>b. js_ge (js_abs b) thr) (map ((!) devs) [0..<length devs])"
    by (simp only: map_nth)
  also have "length \<dots> = length (filter (\<lambda>i. js_ge (js_abs (devs ! i)) thr) [0..<length devs])"
    by (simp add: filter_map comp_def)
  also have "filter (\<lambda>i. js_ge (js_abs (devs ! i)) thr) [0..<length devs] = filter (opp_above devs thr) [0..<length devs]"
    by (rule filter_cong) (simp_all add: opp_above_def elem_at_def nth_opt_conv)
  finally show ?thesis by simp
qed

lemma tails_count:
  assumes "js_lt (Num 0) thr"
  shows "length (filter (\<lambda>b. js_le b (js_neg thr)) devs) + length (filter (\<lambda>b. js_ge b thr) devs) =
    length (filter (\<lambda>b. js_ge (js_abs b) thr) devs)"
proof (induction devs)
  case (Cons b devs)
  have "js_ge (js_abs b) thr \<longleftrightarrow> js_le b (js_neg thr) \<or> js_ge b thr" "\<not> (js_le b (js_neg thr) \<and> js_ge b thr)"
    using assms by (cases b; cases thr; auto simp add: js_le_def js_eq_def)+
  then show ?case using Cons by auto
qed simp

text \<open>What the summary counts: its opportunities are exactly the maximal runs of consecutive live
  samples whose deviation from the fair ratio reaches the threshold in absolute value, a run at the
  end of the window included, and the cheap and rich tails together are exactly those samples; so
  there are never more opportunities than tail samples, nor more tail samples than live ones.\<close>

theorem opportunities_are_runs:
  fixes sq :: "jsnum \<Rightarrow> jsnum" and ln2 nowMs windowMs sz :: jsnum and side :: pairDirection
    and obs :: "statObservation list" and minSamples :: "jsnum option"
  assumes "js_lt (Num 0) thr"
  defines "S \<equiv> buildStatSummary sq ln2 side sz obs nowMs windowMs (Some thr) minSamples"
    and "devs \<equiv> deviations (map so_ratio (live_window side sz obs nowMs windowMs))
      (median (map so_ratio (live_window side sz obs nowMs windowMs)))"
  shows "ss_opportunityCount S = run_starts (\<lambda>i. js_ge (js_abs (elem_at devs i)) thr) (length devs) \<and>
    ss_cheapTailCount S + ss_richTailCount S = length (filter (\<lambda>b. js_ge (js_abs b) thr) devs) \<and>
    ss_opportunityCount S \<le> ss_cheapTailCount S + ss_richTailCount S \<and>
    ss_cheapTailCount S + ss_richTailCount S \<le> ss_liveSampleCount S"
proof (cases "live_window side sz obs nowMs windowMs = []")
  case True
  then have "devs = []" by (simp add: devs_def median_def deviations_def)
  then show ?thesis using True by (simp add: S_def buildStatSummary_def Let_def emptySummary_def run_starts_def)
next
  case False
  have opp: "ss_opportunityCount S = run_starts (opp_above devs thr) (length devs)"
    using False by (simp add: S_def buildStatSummary_def Let_def devs_def summarize_runs)
  have above: "opp_above devs thr = (\<lambda>i. js_ge (js_abs (elem_at devs i)) thr)" by (simp add: opp_above_def fun_eq_iff)
  have tails: "ss_cheapTailCount S + ss_richTailCount S = length (filter (\<lambda>b. js_ge (js_abs b) thr) devs)"
    using False tails_count [OF assms(1), of devs] by (simp add: S_def buildStatSummary_def Let_def devs_def)
  have "run_starts (opp_above devs thr) (length devs) \<le> length (filter (opp_above devs thr) [0..<length devs])"
    using starts_le .
  moreover have "length devs = ss_liveSampleCount S"
    using False by (simp add: S_def buildStatSummary_def Let_def devs_def deviations_def median_def)
  moreover have "length (filter (\<lambda>b. js_ge (js_abs b) thr) devs) \<le> length devs" by (rule length_filter_le)
  ultimately show ?thesis using opp tails above_count [of devs thr] by (simp add: above)
qed

theorem opportunities_are_runs_witness:
  "ss_opportunityCount (buildStatSummary id (Num 1) BuyTokenized (Num 250) [] (Num 0) (Num 0) (Some (Num 50)) None) = 0"
  using opportunities_are_runs [of "Num 50" id "Num 1" BuyTokenized "Num 250" "[]" "Num 0" "Num 0" None]
  by (simp add: live_window_def js_sort_def median_def deviations_def run_starts_def)

end
