(* ===== verification/Verdict.thy ===== *)
theory Verdict
  imports Backtests StatSummary
begin

text \<open>
  packages/market-core/src/research-verdict.ts: the verdict on a pair, computed from the readiness
  matrix, the quality distribution, the hold-horizon replay, the statistics and the route stability.
  Texts are byte strings; the sign for greater-or-equal is its UTF-8 encoding.
\<close>

datatype pairResearchVerdictStatus = V_NOT_READY | COLLECT_MORE | NO_EDGE | PAPER_EDGE | CANDIDATE
datatype pairResearchVerdictConfidence = LOW | MEDIUM | HIGH
datatype tokenValidationStatus = VERIFIED_ONCHAIN | DECIMALS_CONFIG_ONLY | UNVERIFIED | REJECTED

record qualityShare =
  qs_qualityStatus :: quoteQualityStatus
  qs_observationCount :: nat
  qs_observationPct :: jsnum

record pairResearchVerdictReason =
  vr_code :: string
  vr_detail :: string

record pairResearchVerdict =
  vd_status :: pairResearchVerdictStatus
  vd_confidence :: pairResearchVerdictConfidence
  vd_summary :: string
  vd_blockers :: "pairResearchVerdictReason list"
  vd_positives :: "pairResearchVerdictReason list"
  vd_cleanSampleCount :: nat
  vd_cleanWindowMs :: jsnum
  vd_costScenarioName :: string
  vd_recommendedNextAction :: string

record tokenValidationSnapshot =
  tk_status :: tokenValidationStatus
  tk_mint :: string
  tk_decimals :: jsnum
  tk_tokenProgram :: "string option"
  tk_reason :: string

record researchVerdictInputs =
  vi_pair :: pairConfig
  vi_pairReadiness :: pairReadinessMatrix
  vi_qualityDistribution :: "qualityShare list"
  vi_holdHorizonReplay :: "holdHorizonReplayRow list"
  vi_statSummary :: "pairStatSummary list"
  vi_routeStability :: routeStabilitySummary
  vi_tokenValidation :: tokenValidationSnapshot
  vi_costScenarioName :: string
  vi_cleanWindowMs :: jsnum
  vi_minCleanSamples :: "jsnum option"
  vi_candidateMinClosedTrades :: "jsnum option"
  vi_candidateMinPositiveHorizons :: "jsnum option"

definition DEFAULT_MIN_CLEAN_SAMPLES :: jsnum where "DEFAULT_MIN_CLEAN_SAMPLES = Num 200"
definition DEFAULT_CANDIDATE_MIN_CLOSED_TRADES :: jsnum where "DEFAULT_CANDIDATE_MIN_CLOSED_TRADES = Num 30"
definition DEFAULT_CANDIDATE_MIN_POSITIVE_HORIZONS :: jsnum where "DEFAULT_CANDIDATE_MIN_POSITIVE_HORIZONS = Num 2"

definition option_or :: "'a option \<Rightarrow> 'a \<Rightarrow> 'a" where
  "option_or v d = (case v of Some x \<Rightarrow> x | None \<Rightarrow> d)"

fun sumLiveEligible :: "qualityShare list \<Rightarrow> nat" where
  "sumLiveEligible [] = 0"
| "sumLiveEligible (r # rs) = (if qs_qualityStatus r = LIVE_ELIGIBLE then qs_observationCount r else sumLiveEligible rs)"

text \<open>[...new Set(values)]: the first occurrences, in order.\<close>

definition unique :: "'a list \<Rightarrow> 'a list" where
  "unique xs = foldl (\<lambda>acc x. if x \<in> set acc then acc else acc @ [x]) [] xs"

fun join :: "string \<Rightarrow> string list \<Rightarrow> string" where
  "join sep [] = []"
| "join sep [x] = x"
| "join sep (x # y # xs) = x @ sep @ join sep (y # xs)"

fun code_name :: "pairReadinessReasonCode \<Rightarrow> string" where
  "code_name PYTH_FEED_MISSING = ''PYTH_FEED_MISSING''"
| "code_name NO_FEED_UPDATES = ''NO_FEED_UPDATES''"
| "code_name R_DECIMALS_UNVERIFIED = ''DECIMALS_UNVERIFIED''"
| "code_name BUY_ROUTE_MISSING = ''BUY_ROUTE_MISSING''"
| "code_name SELL_ROUTE_MISSING = ''SELL_ROUTE_MISSING''"
| "code_name QUOTE_SUCCESS_RATE_LOW = ''QUOTE_SUCCESS_RATE_LOW''"
| "code_name ENTRY_EXIT_ROUTE_MISSING = ''ENTRY_EXIT_ROUTE_MISSING''"
| "code_name ROUTER_DISTRIBUTION_UNKNOWN = ''ROUTER_DISTRIBUTION_UNKNOWN''"
| "code_name QUOTE_LATENCY_INSUFFICIENT = ''QUOTE_LATENCY_INSUFFICIENT''"
| "code_name BASIS_AGE_INSUFFICIENT = ''BASIS_AGE_INSUFFICIENT''"
| "code_name MARKET_SESSION_MAPPING_MISSING = ''MARKET_SESSION_MAPPING_MISSING''"
| "code_name SAMPLE_COUNT_LOW = ''SAMPLE_COUNT_LOW''"

definition isCriticalBlocker :: "string \<Rightarrow> bool" where
  "isCriticalBlocker code \<longleftrightarrow> code = ''PAIR_READINESS_NOT_READY'' \<or> code = ''TOKEN_MINT_REJECTED''"

definition nextActionForBlocker :: "pairResearchVerdictReason list \<Rightarrow> string" where
  "nextActionForBlocker blockers = (let codes = set (map vr_code blockers) in
     if ''TOKEN_MINT_REJECTED'' \<in> codes then ''Replace the tokenized mint or document the exception before re-enabling.''
     else if ''PAIR_READINESS_NOT_READY'' \<in> codes then ''Fix the feed, route, or decimals problem flagged by pair readiness.''
     else if ''NO_LIVE_SAMPLES'' \<in> codes then ''Confirm Pyth and Jupiter are reachable; the bot has not produced a live row.''
     else ''Resolve blockers before resuming research evaluation.'')"

definition formatRouter :: "routerShare option \<Rightarrow> string" where
  "formatRouter t = (case t of None \<Rightarrow> ''no router observed''
     | Some r \<Rightarrow> ''top router '' @ rs_router r @ '' '' @ to_fixed 0 (js_mul (rs_pct r) (Num 100)) @ ''%'')"

definition formatChanges :: "jsnum option \<Rightarrow> string" where
  "formatChanges c = (case c of None \<Rightarrow> ''n/a'' | Some x \<Rightarrow> to_fixed 1 x)"

definition computeConfidence :: "nat \<Rightarrow> nat \<Rightarrow> bool \<Rightarrow> bool \<Rightarrow> jsnum \<Rightarrow> pairResearchVerdictConfidence" where
  "computeConfidence clean trades isStable halfLife minClean =
    (let score = (if js_ge (js_count clean) (js_mul minClean (Num 4)) then 2 else if js_ge (js_count clean) minClean then 1 else 0)
           + (if 60 \<le> trades then 2 else if 20 \<le> trades then 1 else 0)
           + (if isStable then 1 else 0) + (if halfLife then 1 else 0 :: nat)
     in if 5 \<le> score then HIGH else if 3 \<le> score then MEDIUM else LOW)"

definition mk_reason :: "string \<Rightarrow> string \<Rightarrow> pairResearchVerdictReason" where
  "mk_reason c d = \<lparr> vr_code = c, vr_detail = d \<rparr>"

section \<open>Evidence\<close>

text \<open>The pushes of the pre-condition blocks: blockers on the left, positives on the right.\<close>

definition mint_evidence :: "tokenValidationSnapshot \<Rightarrow> pairResearchVerdictReason list \<times> pairResearchVerdictReason list" where
  "mint_evidence t = (case tk_status t of
     REJECTED \<Rightarrow> ([mk_reason ''TOKEN_MINT_REJECTED'' (tk_reason t)], [])
   | VERIFIED_ONCHAIN \<Rightarrow> ([], [mk_reason ''TOKEN_MINT_VERIFIED'' (''mint verified on-chain (decimals '' @ show_num (tk_decimals t) @ '')'')])
   | _ \<Rightarrow> ([mk_reason ''TOKEN_MINT_UNVERIFIED'' (tk_reason t)], []))"

definition readiness_evidence :: "pairReadinessMatrix \<Rightarrow> pairResearchVerdictReason list \<times> pairResearchVerdictReason list" where
  "readiness_evidence m = (case pm_status m of
     NOT_READY \<Rightarrow>
      (let failing = concat (map pr_reasonCodes (filter (\<lambda>r. pr_status r = NOT_READY) (pm_rows m)));
           txt = join '', '' (map code_name (take 3 (unique failing)))
       in ([mk_reason ''PAIR_READINESS_NOT_READY''
             (''pair readiness reports NOT_READY ('' @ (if txt = [] then ''no reasons'' else txt) @ '')'')], []))
   | READY \<Rightarrow> ([], [mk_reason ''PAIR_READINESS_READY'' ''every side/size passes feed, route, latency, and session checks''])
   | RESEARCH_ONLY \<Rightarrow> ([], []))"

definition sample_evidence :: "nat \<Rightarrow> pairResearchVerdictReason list \<times> pairResearchVerdictReason list" where
  "sample_evidence n = (if n = 0 then ([mk_reason ''NO_LIVE_SAMPLES'' ''no live-eligible observations in the window''], []) else ([], []))"

definition route_evidence :: "routeStabilitySummary \<Rightarrow> pairResearchVerdictReason list \<times> pairResearchVerdictReason list" where
  "route_evidence s =
    (if \<not> rz_routeStable s \<and> 0 < rz_totalOkCount s then
       ([mk_reason ''ROUTE_UNSTABLE'' (formatRouter (rz_topRouter s) @ ''; '' @ formatChanges (rz_routerChangesPerHour s) @
          '' router changes/hr'')], [])
     else if rz_routeStable s \<and> 0 < rz_totalOkCount s then
       ([], [mk_reason ''ROUTE_STABLE'' (formatRouter (rz_topRouter s) @ '' stable; '' @ formatChanges (rz_routerChangesPerHour s) @
          '' switches/hr'')])
     else ([], []))"

definition significant_summary :: "pairStatSummary list \<Rightarrow> pairStatSummary option" where
  "significant_summary rows = first_of (js_sort (\<lambda>a b. ss_liveSampleCount a < ss_liveSampleCount b)
     (filter (\<lambda>r. 30 \<le> ss_liveSampleCount r) rows))"

definition stat_evidence :: "pairStatSummary option \<Rightarrow> pairResearchVerdictReason list" where
  "stat_evidence s = (case s of None \<Rightarrow> [] | Some r \<Rightarrow>
     (if 0 < ss_opportunityCount r then
        [mk_reason ''REPEATABLE_OPPORTUNITIES'' (show_nat (ss_opportunityCount r) @ '' basis excursions '' @
           [CHR 0xE2, CHR 0x89, CHR 0xA5] @ '' threshold during window'')] else []) @
     (case ss_halfLifeSeconds r of
        Some h \<Rightarrow> if js_lt h (Num 1800)
                  then [mk_reason ''FAST_MEAN_REVERSION'' (''half-life '' @ show_num (js_round h) @ ''s (mean-reverting)'')] else []
      | None \<Rightarrow> []))"

section \<open>The verdict\<close>

definition horizonsWithCloses :: "holdHorizonReplayRow list \<Rightarrow> holdHorizonReplayRow list" where
  "horizonsWithCloses rows = filter (\<lambda>r. hr_horizonCovered r \<and> 0 < hs_closedTrades r) rows"

definition positiveHorizons :: "holdHorizonReplayRow list \<Rightarrow> holdHorizonReplayRow list" where
  "positiveHorizons rows = filter (\<lambda>r. js_gt (hs_returnPct r) (Num 0)) (horizonsWithCloses rows)"

definition disabled_verdict :: "researchVerdictInputs \<Rightarrow> pairResearchVerdict" where
  "disabled_verdict i = \<lparr> vd_status = V_NOT_READY, vd_confidence = LOW,
     vd_summary = ''Pair is paused; the bot is not scheduling feed or route probes.'',
     vd_blockers = [mk_reason ''PAIR_DISABLED'' ''Pair is paused; enable it before expecting Pyth updates or Jupiter route probes.''],
     vd_positives = [], vd_cleanSampleCount = sumLiveEligible (vi_qualityDistribution i),
     vd_cleanWindowMs = vi_cleanWindowMs i, vd_costScenarioName = vi_costScenarioName i,
     vd_recommendedNextAction = ''Enable the pair after confirming the token mint and route are intended.'' \<rparr>"

text \<open>The if chain that decides the status, the summary and the next action.\<close>

definition decide :: "researchVerdictInputs \<Rightarrow> pairResearchVerdictReason list \<Rightarrow> nat \<Rightarrow> pairResearchVerdictStatus \<times> string \<times> string" where
  "decide i blockers clean =
    (let minClean = option_or (vi_minCleanSamples i) DEFAULT_MIN_CLEAN_SAMPLES;
         closes = horizonsWithCloses (vi_holdHorizonReplay i);
         positive = positiveHorizons (vi_holdHorizonReplay i);
         trades = sum_list (map hs_closedTrades closes)
     in case find (\<lambda>b. isCriticalBlocker (vr_code b)) blockers of
          Some b \<Rightarrow> (V_NOT_READY, vr_detail b, nextActionForBlocker blockers)
        | None \<Rightarrow>
           if js_lt (js_count clean) minClean then
             (COLLECT_MORE, show_nat clean @ '' live-eligible samples (need '' @ show_num minClean @ '').'',
              ''Keep streaming; recheck in 24h.'')
           else if closes = [] then
             (NO_EDGE, ''Enough clean data but replay has not produced a closed round-trip.'',
              ''Inspect exit-quote availability; consider widening the entry threshold.'')
           else if positive = [] then
             (NO_EDGE, ''Replay closed trades but none survived cost assumptions.'', ''Review cost waterfall and route stability.'')
           else if js_ge (js_len positive) (option_or (vi_candidateMinPositiveHorizons i) DEFAULT_CANDIDATE_MIN_POSITIVE_HORIZONS) \<and>
             js_ge (js_count trades) (option_or (vi_candidateMinClosedTrades i) DEFAULT_CANDIDATE_MIN_CLOSED_TRADES) \<and>
             pm_status (vi_pairReadiness i) = READY \<and> rz_routeStable (vi_routeStability i) then
             (CANDIDATE, ''Replay survives costs across '' @ show_nat (length positive) @ '' horizons ('' @ show_nat trades @
                '' trades) with stable routing.'',
              ''Promote to deeper out-of-sample testing and instrument live execution latency.'')
           else
             (PAPER_EDGE, ''Replay shows positive horizons ('' @ show_nat (length positive) @ '') but coverage is thin ('' @
                show_nat trades @ '' trades).'',
              ''Continue collecting; track stat-summary z-score and opportunity persistence.''))"

definition buildResearchVerdict :: "researchVerdictInputs \<Rightarrow> pairResearchVerdict" where
  "buildResearchVerdict i =
    (if \<not> pc_enabled (vi_pair i) then disabled_verdict i
     else let clean = sumLiveEligible (vi_qualityDistribution i);
              ev = [mint_evidence (vi_tokenValidation i), readiness_evidence (vi_pairReadiness i), sample_evidence clean,
                    route_evidence (vi_routeStability i)];
              blockers = concat (map fst ev);
              sig = significant_summary (vi_statSummary i);
              positives = concat (map snd ev) @ stat_evidence sig;
              trades = sum_list (map hs_closedTrades (horizonsWithCloses (vi_holdHorizonReplay i)))
       in case decide i blockers clean of (status, summary, nextAction) \<Rightarrow>
            \<lparr> vd_status = status,
              vd_confidence = computeConfidence clean trades (rz_routeStable (vi_routeStability i))
                (case sig of Some r \<Rightarrow> (case ss_halfLifeSeconds r of Some h \<Rightarrow> js_gt h (Num 0) | None \<Rightarrow> False) | None \<Rightarrow> False)
                (option_or (vi_minCleanSamples i) DEFAULT_MIN_CLEAN_SAMPLES),
              vd_summary = summary, vd_blockers = blockers, vd_positives = positives, vd_cleanSampleCount = clean,
              vd_cleanWindowMs = vi_cleanWindowMs i, vd_costScenarioName = vi_costScenarioName i,
              vd_recommendedNextAction = nextAction \<rparr>)"

section \<open>When a pair is a candidate\<close>

lemma critical_codes [simp]:
  "isCriticalBlocker ''TOKEN_MINT_REJECTED''" "isCriticalBlocker ''PAIR_READINESS_NOT_READY''"
  "\<not> isCriticalBlocker ''TOKEN_MINT_UNVERIFIED''" "\<not> isCriticalBlocker ''NO_LIVE_SAMPLES''"
  "\<not> isCriticalBlocker ''ROUTE_UNSTABLE''"
  by (simp_all add: isCriticalBlocker_def)

lemma mk_reason_code [simp]: "vr_code (mk_reason c d) = c"
  by (simp add: mk_reason_def)

definition blockers_of :: "researchVerdictInputs \<Rightarrow> pairResearchVerdictReason list" where
  "blockers_of i = fst (mint_evidence (vi_tokenValidation i)) @ fst (readiness_evidence (vi_pairReadiness i)) @
     fst (sample_evidence (sumLiveEligible (vi_qualityDistribution i))) @ fst (route_evidence (vi_routeStability i))"

lemma critical_blockers:
  "(\<exists>b \<in> set (blockers_of i). isCriticalBlocker (vr_code b)) \<longleftrightarrow>
     tk_status (vi_tokenValidation i) = REJECTED \<or> pm_status (vi_pairReadiness i) = NOT_READY"
  by (cases "tk_status (vi_tokenValidation i)"; cases "pm_status (vi_pairReadiness i)")
    (simp_all add: blockers_of_def mint_evidence_def readiness_evidence_def sample_evidence_def route_evidence_def Let_def)

lemma verdict_status:
  "vd_status (buildResearchVerdict i) = (if \<not> pc_enabled (vi_pair i) then V_NOT_READY
     else fst (decide i (blockers_of i) (sumLiveEligible (vi_qualityDistribution i))))"
  by (simp add: buildResearchVerdict_def disabled_verdict_def blockers_of_def Let_def split: prod.splits)

lemma decide_status:
  "fst (decide i (blockers_of i) clean) =
    (if tk_status (vi_tokenValidation i) = REJECTED \<or> pm_status (vi_pairReadiness i) = NOT_READY then V_NOT_READY
     else if js_lt (js_count clean) (option_or (vi_minCleanSamples i) DEFAULT_MIN_CLEAN_SAMPLES) then COLLECT_MORE
     else if positiveHorizons (vi_holdHorizonReplay i) = [] then NO_EDGE
     else if js_ge (js_len (positiveHorizons (vi_holdHorizonReplay i)))
           (option_or (vi_candidateMinPositiveHorizons i) DEFAULT_CANDIDATE_MIN_POSITIVE_HORIZONS) \<and>
         js_ge (js_count (sum_list (map hs_closedTrades (horizonsWithCloses (vi_holdHorizonReplay i)))))
           (option_or (vi_candidateMinClosedTrades i) DEFAULT_CANDIDATE_MIN_CLOSED_TRADES) \<and>
         pm_status (vi_pairReadiness i) = READY \<and> rz_routeStable (vi_routeStability i) then CANDIDATE
     else PAPER_EDGE)"
proof -
  have "positiveHorizons rs = []" if "horizonsWithCloses rs = []" for rs using that by (simp add: positiveHorizons_def)
  moreover have "find (\<lambda>b. isCriticalBlocker (vr_code b)) (blockers_of i) = None \<longleftrightarrow>
      \<not> (tk_status (vi_tokenValidation i) = REJECTED \<or> pm_status (vi_pairReadiness i) = NOT_READY)"
    unfolding find_None_iff using critical_blockers [of i] by blast
  ultimately show ?thesis by (auto simp add: decide_def Let_def split: option.splits)
qed


text \<open>An unverified mint does not hold a pair back: for every input, the verdict with a mint whose
  validation is missing or comes from the configuration only has the same status as with a mint
  verified on chain, although the pair is then reported with the blocker TOKEN_MINT_UNVERIFIED; only
  a rejected mint counts.\<close>

theorem unverified_mint_same_verdict:
  "let u = i\<lparr> vi_tokenValidation := (vi_tokenValidation i)\<lparr> tk_status := UNVERIFIED \<rparr> \<rparr>;
       v = i\<lparr> vi_tokenValidation := (vi_tokenValidation i)\<lparr> tk_status := VERIFIED_ONCHAIN \<rparr> \<rparr>
   in vd_status (buildResearchVerdict u) = vd_status (buildResearchVerdict v) \<and>
      (''TOKEN_MINT_UNVERIFIED'' \<in> set (map vr_code (vd_blockers (buildResearchVerdict u))) \<longleftrightarrow> pc_enabled (vi_pair i))"
  unfolding Let_def verdict_status decide_status
  by (simp add: buildResearchVerdict_def disabled_verdict_def mint_evidence_def Let_def split: prod.splits)

end
