(* ===== verification/RpsBudget.thy ===== *)
theory RpsBudget
  imports MarketBase
begin

text \<open>
  packages/market-core/src/rps-budget.ts: the token bucket that admits quote requests, and the
  workload check of the enabled pairs. The clock is an argument of every operation. The bucket is
  compared with the ideal one, whose tokens are rationals: the doubles admit at most what the ideal
  budget admits, up to a bounded rounding slack, and admit a request as soon as the ideal bucket has
  refilled a little more than one token.
\<close>

section \<open>The bucket\<close>

record tokenBucket =
  tb_capacity :: jsnum
  tb_refillPerSec :: jsnum
  tb_tokens :: jsnum
  tb_lastRefillMs :: jsnum

definition EPSILON :: jsnum where
  "EPSILON = fl (1 / 10 ^ 9)"

definition new_bucket :: "jsnum \<Rightarrow> jsnum \<Rightarrow> jsnum \<Rightarrow> (js_error, tokenBucket) result" where
  "new_bucket capacity rate now =
    (if js_le capacity (Num 0) then Inl (ErrorMsg ''capacity must be > 0'')
     else if js_le rate (Num 0) then Inl (ErrorMsg ''refillPerSec must be > 0'')
     else Inr \<lparr> tb_capacity = capacity, tb_refillPerSec = rate, tb_tokens = capacity, tb_lastRefillMs = now \<rparr>)"

definition refill :: "jsnum \<Rightarrow> tokenBucket \<Rightarrow> tokenBucket" where
  "refill now b = (let elapsedSec = js_div (js_sub now (tb_lastRefillMs b)) (Num 1000) in
     if js_le elapsedSec (Num 0) then b
     else b\<lparr> tb_tokens := js_min (tb_capacity b) (js_add (tb_tokens b) (js_mul elapsedSec (tb_refillPerSec b))),
             tb_lastRefillMs := now \<rparr>)"

definition tryTake :: "jsnum \<Rightarrow> jsnum \<Rightarrow> tokenBucket \<Rightarrow> bool \<times> tokenBucket" where
  "tryTake n now b = (let b' = refill now b in
     if js_lt (js_add (tb_tokens b') EPSILON) n then (False, b')
     else (True, b'\<lparr> tb_tokens := js_sub (tb_tokens b') n \<rparr>))"

definition available :: "jsnum \<Rightarrow> tokenBucket \<Rightarrow> jsnum \<times> tokenBucket" where
  "available now b = (let b' = refill now b in (tb_tokens b', b'))"

section \<open>The workload check\<close>

record quoteRpsPair =
  rp_directions :: nat
  rp_sizes :: nat
  rp_quoteIntervalMs :: jsnum

definition estimateQuoteRps :: "quoteRpsPair list \<Rightarrow> jsnum" where
  "estimateQuoteRps pairs = foldl (\<lambda>acc p.
     if js_le (rp_quoteIntervalMs p) (Num 0) then acc
     else js_add acc (js_div (js_count (rp_directions p * rp_sizes p)) (js_div (rp_quoteIntervalMs p) (Num 1000))))
     (Num 0) pairs"

definition assertQuoteRpsBudget :: "quoteRpsPair list \<Rightarrow> jsnum \<Rightarrow> jsnum option \<Rightarrow> (js_error, jsnum) result" where
  "assertQuoteRpsBudget pairs maxRps headroom =
    (let h = (case headroom of None \<Rightarrow> fl (85/100) | Some x \<Rightarrow> x);
         est = estimateQuoteRps pairs;
         allowed = js_mul maxRps h
     in if js_gt est (js_add allowed EPSILON)
        then Inl (ErrorMsg (''enabled pair quote workload is '' @ to_fixed 2 est @ '' RPS, above '' @
          show_num (js_round (js_mul h (Num 100))) @ ''% of Jupiter budget ('' @ to_fixed 2 allowed @ '' RPS)''))
        else Inr est)"

section \<open>Rounding errors of the bucket\<close>

text \<open>A rounded value differs from the exact one by at most one part in 2 ^ 53 and a tiny constant.\<close>

definition tiny :: rat where "tiny = 1 / 2 ^ 100"

lemma tiny_pos: "0 < tiny" by (simp add: tiny_def)

lemma rnd_near: "\<bar>rnd q - q\<bar> \<le> \<bar>q\<bar> / 2 ^ 53 + tiny"
proof -
  have base: "\<bar>rnd q - q\<bar> \<le> q / 2 ^ 53 + tiny" if "0 \<le> q" for q
  proof (cases "2 powi (- 1022) \<le> q")
    case True
    then show ?thesis using rnd_relative [OF True] tiny_pos by linarith
  next
    case False
    define t :: rat where "t = 2 powi (- 1022)"
    have "is_double t" unfolding is_double_def t_def by (intro exI [of _ 1] exI [of _ "- 1022"]) simp
    then have rt: "rnd t = t" by (rule rnd_double)
    have "t \<le> 2 powi (- 100)" unfolding t_def by (rule powi_two_mono) simp
    also have "\<dots> = tiny" unfolding tiny_def by (simp only: power_int_minus power_int_numeral inverse_eq_divide)
    finally have "t \<le> tiny" .
    moreover have "rnd q \<le> t" using rnd_mono [of q t] rt False by (simp add: t_def)
    moreover have "0 \<le> rnd q" using rnd_nonneg [OF that] .
    moreover have "q < t" using False by (simp add: t_def)
    moreover have "0 \<le> q / 2 ^ 53" using that by simp
    ultimately show ?thesis using that by (simp only: abs_le_iff) linarith
  qed
  show ?thesis
  proof (cases "0 \<le> q")
    case True
    then show ?thesis using base by simp
  next
    case False
    have "rnd (- q) - (- q) = - (rnd q - q)" by (simp add: rnd_minus)
    then have "\<bar>rnd q - q\<bar> = \<bar>rnd (- q) - (- q)\<bar>" by (metis abs_minus_cancel)
    then show ?thesis using base [of "- q"] False by simp
  qed
qed

lemma fl_near:
  assumes "\<bar>q\<bar> \<le> 2 ^ 80" obtains r where "fl q = Num r" "\<bar>r - q\<bar> \<le> \<bar>q\<bar> / 2 ^ 53 + tiny"
proof -
  have a: "\<bar>rnd q - q\<bar> \<le> \<bar>q\<bar> / 2 ^ 53 + tiny" by (rule rnd_near)
  have "\<bar>rnd q\<bar> \<le> \<bar>q\<bar> + \<bar>rnd q - q\<bar>" by simp
  also have "\<dots> \<le> 2 ^ 80 + (2 ^ 80 / 2 ^ 53 + tiny)" using a assms
    by (intro add_mono order_trans [OF a] divide_right_mono) simp_all
  also have "\<dots> < 2 ^ 81" by (simp add: tiny_def)
  also have "(2::rat) ^ 81 \<le> 2 ^ 1024" by (rule power_increasing) simp_all
  finally have "\<bar>rnd q\<bar> < 2 ^ 1024" .
  then have "fl q = Num (rnd q)" by (simp add: fl_def Let_def abs_less_iff)
  then show ?thesis using a that by blast
qed

text \<open>The double nearest to 1e-9 and its margins.\<close>

lemma epsilon_bounds: obtains h where "EPSILON = Num h" "0 \<le> h" "h + 1 / 2 ^ 53 \<le> 1 / 2 ^ 29"
proof -
  obtain r where r: "fl (1 / 10 ^ 9) = Num r" "\<bar>r - 1 / 10 ^ 9\<bar> \<le> \<bar>1 / 10 ^ 9\<bar> / 2 ^ 53 + tiny"
    by (rule fl_near [of "1 / 10 ^ 9"]) simp
  have "0 \<le> r" using js_le_0_fl [of "1 / 10 ^ 9"] r(1) by simp
  moreover have "r - 1 / 10 ^ 9 \<le> \<bar>1 / 10 ^ 9\<bar> / 2 ^ 53 + tiny" using r(2) by (simp only: abs_le_iff)
  then have "r + 1 / 2 ^ 53 \<le> 1 / 2 ^ 29" by (simp add: tiny_def)
  ultimately show ?thesis using that r(1) by (simp add: EPSILON_def)
qed

section \<open>One refill and one take\<close>

text \<open>The configurations of the bot and the states a bucket can reach.\<close>

definition budget_ok :: "rat \<Rightarrow> rat \<Rightarrow> bool" where
  "budget_ok C R \<longleftrightarrow> finite_double C \<and> 0 < C \<and> C \<le> 2 ^ 20 \<and> 0 < R \<and> R \<le> 2 ^ 20"

definition bucket_at :: "rat \<Rightarrow> rat \<Rightarrow> rat \<Rightarrow> int \<Rightarrow> tokenBucket \<Rightarrow> bool" where
  "bucket_at C R T t b \<longleftrightarrow> b = \<lparr> tb_capacity = Num C, tb_refillPerSec = Num R, tb_tokens = Num T,
     tb_lastRefillMs = Num (of_int t) \<rparr> \<and> finite_double T \<and> - (1 / 2 ^ 29) \<le> T \<and> T \<le> C"

text \<open>The tokens the ideal bucket gains between two readings of the clock.\<close>

definition ideal_gain :: "rat \<Rightarrow> int \<Rightarrow> int \<Rightarrow> rat" where
  "ideal_gain R t0 t = of_int (t - t0) / 1000 * R"

lemma gain_rounded:
  assumes C: "budget_ok C R" and t: "t0 < t" "t - t0 \<le> 2 ^ 53"
  obtains x1 x2 where "js_div (Num (of_int (t - t0))) (Num 1000) = Num x1" "0 < x1"
    "js_mul (Num x1) (Num R) = Num x2" "0 \<le> x2" "x2 \<le> 2 ^ 79"
    "\<bar>x2 - ideal_gain R t0 t\<bar> \<le> ideal_gain R t0 t / 2 ^ 51 + 1 / 2 ^ 70"
proof -
  define d :: rat where "d = of_int (t - t0)"
  have R: "0 < R" "R \<le> 2 ^ 20" using C by (simp_all add: budget_ok_def)
  have d: "1 \<le> d" using t(1) by (simp add: d_def)
  have d53: "d \<le> 2 ^ 53" unfolding d_def using t(2) by (metis of_int_le_iff of_int_numeral of_int_power)
  define y where "y = d / 1000"
  have y: "1 / 1000 \<le> y" "y \<le> 2 ^ 53 / 1000" using d d53 by (simp_all add: y_def)
  have "\<bar>y\<bar> \<le> 2 ^ 80" using y by simp
  then obtain x1 where x1: "fl y = Num x1" "\<bar>x1 - y\<bar> \<le> \<bar>y\<bar> / 2 ^ 53 + tiny" by (rule fl_near)
  have x1b: "y - (y / 2 ^ 53 + tiny) \<le> x1" "x1 \<le> y + (y / 2 ^ 53 + tiny)"
    using x1(2) y(1) by (simp_all only: abs_le_iff) linarith+
  have pos: "0 < x1" using x1b(1) y(1) by (simp add: tiny_def)
  have "x1 \<le> 2 ^ 53" using x1b(2) y(2) by (simp add: tiny_def)
  then have "x1 * R \<le> 2 ^ 53 * 2 ^ 20" using R pos by (intro mult_mono) simp_all
  moreover have xR0: "0 \<le> x1 * R" using pos R by simp
  ultimately have xR: "\<bar>x1 * R\<bar> \<le> 2 ^ 80" "x1 * R \<le> 2 ^ 73" by simp_all
  obtain x2 where x2: "fl (x1 * R) = Num x2" "\<bar>x2 - x1 * R\<bar> \<le> \<bar>x1 * R\<bar> / 2 ^ 53 + tiny"
    using fl_near [OF xR(1)] .
  define g where "g = ideal_gain R t0 t"
  have g: "g = y * R" by (simp add: g_def ideal_gain_def y_def d_def)
  have g0: "0 \<le> g" using y R by (simp add: g)
  have "tiny * R \<le> tiny * 2 ^ 20" using R tiny_pos by (intro mult_left_mono) simp_all
  then have tR: "tiny * R \<le> 1 / 2 ^ 80" by (simp add: tiny_def)
  have "x1 * R \<le> (y + (y / 2 ^ 53 + tiny)) * R" using x1b(2) R by (intro mult_right_mono) simp_all
  also have "\<dots> = g + g / 2 ^ 53 + tiny * R" by (simp add: g distrib_right)
  finally have up: "x1 * R \<le> g + g / 2 ^ 53 + 1 / 2 ^ 80" using tR by linarith
  have "(y - (y / 2 ^ 53 + tiny)) * R \<le> x1 * R" using x1b(1) R by (intro mult_right_mono) simp_all
  moreover have "(y - (y / 2 ^ 53 + tiny)) * R = g - g / 2 ^ 53 - tiny * R" by (simp add: g left_diff_distrib distrib_right)
  ultimately have lo: "g - g / 2 ^ 53 - 1 / 2 ^ 80 \<le> x1 * R" using tR by linarith
  have x2b: "x1 * R - (x1 * R / 2 ^ 53 + tiny) \<le> x2" "x2 \<le> x1 * R + (x1 * R / 2 ^ 53 + tiny)"
    using x2(2) xR0 by (simp_all only: abs_le_iff abs_of_nonneg) linarith+
  obtain z where z: "x1 * R = z" by blast
  have "x2 - g \<le> g / 2 ^ 51 + 1 / 2 ^ 70" "- (x2 - g) \<le> g / 2 ^ 51 + 1 / 2 ^ 70"
    using x2b up lo g0 unfolding z by (simp_all add: tiny_def)
  then have near: "\<bar>x2 - g\<bar> \<le> g / 2 ^ 51 + 1 / 2 ^ 70" by (simp only: abs_le_iff)
  have "0 \<le> x2" using js_le_0_fl [OF xR0] x2(1) by simp
  moreover have "x2 \<le> 2 ^ 79" using x2b(2) xR(2) unfolding z by (simp add: tiny_def)
  ultimately show ?thesis using that [of x1 x2] pos x1(1) x2(1) near
    by (simp add: g_def [symmetric] y_def d_def)
qed

lemma refill_near:
  assumes C: "budget_ok C R" and b: "bucket_at C R T t0 b"
    and t: "t0 \<le> t" "\<bar>t0\<bar> \<le> 2 ^ 52" "\<bar>t\<bar> \<le> 2 ^ 52"
  obtains T' where "bucket_at C R T' t (refill (Num (of_int t)) b)" "T \<le> T'"
    "T' \<le> T + ideal_gain R t0 t * (1 + 1 / 2 ^ 51) + 1 / 2 ^ 31"
    "min C (T + ideal_gain R t0 t * (1 - 1 / 2 ^ 51) - 1 / 2 ^ 31) \<le> T'"
proof (cases "t = t0")
  case True
  then have "refill (Num (of_int t)) b = b"
    using b by (simp add: refill_def Let_def bucket_at_def js_sub_def)
  then show ?thesis using that [of T] b True by (simp add: bucket_at_def ideal_gain_def)
next
  case False
  then have lt: "t0 < t" using t(1) by simp
  have dd: "\<bar>t - t0\<bar> \<le> 2 ^ 53" using t(2,3) by (simp add: abs_le_iff)
  then have sub: "js_sub (Num (of_int t)) (Num (of_int t0)) = Num (of_int (t - t0))"
    using fl_of_int [OF dd] by (simp add: js_sub_def)
  have dd': "t - t0 \<le> 2 ^ 53" using dd by simp
  obtain x1 x2 where x: "js_div (Num (of_int (t - t0))) (Num 1000) = Num x1" "0 < x1"
    "js_mul (Num x1) (Num R) = Num x2" "0 \<le> x2" "x2 \<le> 2 ^ 79"
    "\<bar>x2 - ideal_gain R t0 t\<bar> \<le> ideal_gain R t0 t / 2 ^ 51 + 1 / 2 ^ 70"
    using gain_rounded [OF C lt dd'] .
  define g where "g = ideal_gain R t0 t"
  have T: "finite_double T" "- (1 / 2 ^ 29) \<le> T" "T \<le> C" and Cb: "C \<le> 2 ^ 20" "0 < C" "finite_double C"
    using b C by (simp_all add: bucket_at_def budget_ok_def)
  have lo1: "- 1 \<le> T" using T(2) by (rule order_trans [rotated]) simp
  then have "\<bar>T + x2\<bar> \<le> 2 ^ 80" using T(3) Cb(1) x(4,5) by (simp add: abs_le_iff)
  then obtain r where r: "fl (T + x2) = Num r" "\<bar>r - (T + x2)\<bar> \<le> \<bar>T + x2\<bar> / 2 ^ 53 + tiny" by (rule fl_near)
  have "js_le (Num T) (fl (T + x2))" using x(4) finite_double_fl [OF T(1)] by (intro fl_ge_double) simp_all
  then have Tr: "T \<le> r" using r(1) by simp
  define T' where "T' = min C r"
  have "is_num (fl (T + x2))" by simp
  then have fr: "finite_double r" using r(1) by simp
  have "refill (Num (of_int t)) b = b\<lparr> tb_tokens := Num T', tb_lastRefillMs := Num (of_int t) \<rparr>"
    using b sub x(1,2,3) r(1) by (simp add: refill_def Let_def bucket_at_def js_min_def T'_def min_def not_le)
  then have at: "bucket_at C R T' t (refill (Num (of_int t)) b)"
    using b Tr T(2,3) fr Cb(3) by (auto simp add: bucket_at_def T'_def min_def)
  have abs: "\<bar>T + x2\<bar> \<le> T + x2 + 2" using lo1 x(4) by simp
  have abs53: "\<bar>T + x2\<bar> / 2 ^ 53 \<le> (T + x2 + 2) / 2 ^ 53" using abs by (intro divide_right_mono) simp_all
  have rb: "r \<le> T + x2 + ((T + x2 + 2) / 2 ^ 53 + tiny)" "T + x2 - ((T + x2 + 2) / 2 ^ 53 + tiny) \<le> r"
    using r(2) abs53 by (simp_all only: abs_le_iff) linarith+
  have xb: "x2 \<le> g + (g / 2 ^ 51 + 1 / 2 ^ 70)" "g - (g / 2 ^ 51 + 1 / 2 ^ 70) \<le> x2"
    using x(6) by (simp_all add: abs_le_iff g_def)
  have "T' \<le> C" "T' \<le> r" by (simp_all add: T'_def)
  have up: "T' \<le> T + x2 + (1 / 2 ^ 31 - 1 / 2 ^ 60)"
  proof (cases "T + x2 \<le> 2 ^ 20")
    case True
    then have "(T + x2 + 2) / 2 ^ 53 \<le> 2 ^ 21 / 2 ^ 53" by (intro divide_right_mono) simp_all
    also have "(2::rat) ^ 21 / 2 ^ 53 = 1 / 2 ^ 32" by simp
    finally have v32: "(T + x2 + 2) / 2 ^ 53 \<le> 1 / 2 ^ 32" .
    obtain v where v: "(T + x2 + 2) / 2 ^ 53 = v" by blast
    show ?thesis using v32 rb(1) \<open>T' \<le> r\<close> unfolding v by (simp add: tiny_def)
  next
    case False
    then show ?thesis using \<open>T' \<le> C\<close> Cb(1) by simp
  qed
  have lo: "min C (T + x2 - (1 / 2 ^ 31 - 1 / 2 ^ 60)) \<le> T'"
  proof (cases "T + x2 \<le> 2 ^ 21 - 2")
    case True
    then have "(T + x2 + 2) / 2 ^ 53 \<le> 2 ^ 21 / 2 ^ 53" by (intro divide_right_mono) simp_all
    also have "(2::rat) ^ 21 / 2 ^ 53 = 1 / 2 ^ 32" by simp
    finally have v32: "(T + x2 + 2) / 2 ^ 53 \<le> 1 / 2 ^ 32" .
    obtain v where v: "(T + x2 + 2) / 2 ^ 53 = v" by blast
    have "T + x2 - (1 / 2 ^ 31 - 1 / 2 ^ 60) \<le> r" using v32 rb(2) unfolding v by (simp add: tiny_def)
    then show ?thesis by (auto simp add: T'_def min_def)
  next
    case False
    then have "(T + x2 + 2) / 2 ^ 53 \<le> (T + x2 + 2) / 4" by (intro divide_left_mono) simp_all
    moreover obtain v where v: "(T + x2 + 2) / 2 ^ 53 = v" by blast
    ultimately have "2 ^ 20 \<le> r" using False rb(2) unfolding v by (simp add: tiny_def)
    then have "C \<le> r" using Cb(1) by linarith
    then show ?thesis by (simp add: T'_def)
  qed
  have "T' \<le> T + g * (1 + 1 / 2 ^ 51) + 1 / 2 ^ 31" using up xb(1) by (simp add: distrib_left)
  moreover have "min C (T + g * (1 - 1 / 2 ^ 51) - 1 / 2 ^ 31) \<le> min C (T + x2 - (1 / 2 ^ 31 - 1 / 2 ^ 60))"
    using xb(2) by (intro min.mono) (simp_all add: right_diff_distrib)
  then have "min C (T + g * (1 - 1 / 2 ^ 51) - 1 / 2 ^ 31) \<le> T'" using lo by (rule order_trans)
  moreover have "T \<le> T'" using Tr T(3) by (simp add: T'_def)
  ultimately show ?thesis using that [OF at] by (simp only: g_def)
qed

lemma take_near:
  assumes C: "budget_ok C R" and b: "bucket_at C R T t (refill now b)"
  shows "tryTake (Num 1) now b = (True, c) \<Longrightarrow> \<exists>T'. bucket_at C R T' t c \<and> T' \<le> T - 1 + 1 / 2 ^ 31"
    and "tryTake (Num 1) now b = (False, c) \<Longrightarrow> c = refill now b \<and> T < 1"
proof -
  obtain h where h: "EPSILON = Num h" "0 \<le> h" "h + 1 / 2 ^ 53 \<le> 1 / 2 ^ 29" by (rule epsilon_bounds)
  have T: "finite_double T" "- (1 / 2 ^ 29) \<le> T" "T \<le> C" "C \<le> 2 ^ 20"
    and s: "tb_tokens (refill now b) = Num T" using b C by (simp_all add: bucket_at_def budget_ok_def)
  define p where "p = 1 - 1 / (2::rat) ^ 53"
  have e53: "(2::rat) powi (- 53) = 1 / 2 ^ 53" and e29: "(2::rat) powi (- 29) = 1 / 2 ^ 29"
    by (simp_all only: power_int_minus power_int_numeral inverse_eq_divide)
  have "p = of_int (2 ^ 53 - 1) * 2 powi (- 53)" unfolding e53 by (simp add: p_def)
  moreover have "\<bar>2 ^ 53 - 1 :: int\<bar> < 2 ^ 53" by simp
  moreover have "- 1074 \<le> (- 53 :: int)" by simp
  ultimately have "is_double p" unfolding is_double_def by blast
  moreover have "\<bar>p\<bar> < 2 ^ 1024"
  proof -
    have "\<bar>p\<bar> < 1 + 1" by (simp add: p_def abs_less_iff)
    also have "(1 + 1 :: rat) \<le> 2 ^ 1024" using power_increasing [of 1 1024 "2::rat"] by simp
    finally show ?thesis .
  qed
  ultimately have fp: "fl p = Num p" by (rule fl_double)
  have take: "tryTake (Num 1) now b = (if js_lt (fl (T + h)) (Num 1) then (False, refill now b)
      else (True, (refill now b)\<lparr> tb_tokens := fl (T - 1) \<rparr>))"
    by (simp add: tryTake_def Let_def s h(1) js_sub_def)
  {
    assume "tryTake (Num 1) now b = (True, c)"
    then have nt: "\<not> js_lt (fl (T + h)) (Num 1)" and c: "c = (refill now b)\<lparr> tb_tokens := fl (T - 1) \<rparr>"
      unfolding take by (simp_all split: if_splits)
    have "p \<le> T + h"
    proof (rule ccontr)
      assume "\<not> p \<le> T + h"
      then have "js_le (fl (T + h)) (Num p)" using fp by (intro fl_le_double) simp_all
      moreover have "js_lt (Num p) (Num 1)" by (simp add: p_def)
      ultimately have "js_lt (fl (T + h)) (Num 1)" using js_le_lt_trans by blast
      then show False using nt by simp
    qed
    then have T1: "- (1 / 2 ^ 29) \<le> T - 1" using h(3) by (simp add: p_def)
    have "\<bar>T - 1\<bar> \<le> 2 ^ 20" using T1 T(3,4) by (simp add: abs_le_iff)
    moreover then have "\<bar>T - 1\<bar> \<le> 2 ^ 80" by simp
    then obtain r where r: "fl (T - 1) = Num r" "\<bar>r - (T - 1)\<bar> \<le> \<bar>T - 1\<bar> / 2 ^ 53 + tiny" by (rule fl_near)
    ultimately have "\<bar>T - 1\<bar> / 2 ^ 53 \<le> 2 ^ 20 / 2 ^ 53" by (intro divide_right_mono) simp_all
    then have "r - (T - 1) \<le> 2 ^ 20 / 2 ^ 53 + tiny"
      using r(2) abs_ge_self [of "r - (T - 1)"] by linarith
    then have up: "r \<le> T - 1 + 1 / 2 ^ 31" by (simp add: tiny_def)
    have "is_double (1 / 2 ^ 29)" unfolding is_double_def
      by (intro exI [of _ 1] exI [of _ "- 29"]) (simp add: e29)
    then have "is_double (- (1 / 2 ^ 29))" by (rule is_double_minus)
    moreover have "\<bar>- (1 / 2 ^ 29) :: rat\<bar> < 2 ^ 1024"
    proof -
      have "\<bar>- (1 / 2 ^ 29) :: rat\<bar> < 1 + 1" by simp
      also have "(1 + 1 :: rat) \<le> 2 ^ 1024" using power_increasing [of 1 1024 "2::rat"] by simp
      finally show ?thesis .
    qed
    ultimately have "fl (- (1 / 2 ^ 29)) = Num (- (1 / 2 ^ 29))" by (rule fl_double)
    with T1 have lo: "- (1 / 2 ^ 29) \<le> r" using fl_ge_double [of "- (1 / 2 ^ 29)" "T - 1"] r(1) by simp
    have "js_le (fl (T - 1)) (Num T)" using finite_double_fl [OF T(1)] by (intro fl_le_double) simp_all
    then have "r \<le> C" using r(1) T(3) by simp
    moreover have "is_num (fl (T - 1))" by simp
    ultimately have "bucket_at C R r t c" using b c r(1) lo by (simp add: bucket_at_def)
    then show "\<exists>T'. bucket_at C R T' t c \<and> T' \<le> T - 1 + 1 / 2 ^ 31" using up by blast
  next
    assume "tryTake (Num 1) now b = (False, c)"
    then have c: "c = refill now b" and lt: "js_lt (fl (T + h)) (Num 1)"
      unfolding take by (simp_all split: if_splits)
    have "T < 1"
    proof (rule ccontr)
      assume "\<not> T < 1"
      then have "js_le (Num 1) (fl (T + h))" using h(2) by (intro fl_ge_double) (simp_all add: js_eval)
      then show False using js_le_lt_trans [OF _ lt] by fastforce
    qed
    then show "c = refill now b \<and> T < 1" using c by simp
  }
qed

section \<open>Runs of requests\<close>

text \<open>A sequence of tryTake() calls at given clock readings: how many are admitted.\<close>

fun admit_run :: "int list \<Rightarrow> tokenBucket \<Rightarrow> nat \<times> tokenBucket" where
  "admit_run [] b = (0, b)"
| "admit_run (t # ts) b =
     (let (ok, b') = tryTake (Num 1) (Num (of_int t)) b; (k, c) = admit_run ts b'
      in (if ok then Suc k else k, c))"

lemma ideal_gain_add: "ideal_gain R t0 t + ideal_gain R t t' = ideal_gain R t0 t'"
  by (simp add: ideal_gain_def distrib_right [symmetric] add_divide_distrib [symmetric])

lemma admit_run_potential:
  assumes C: "budget_ok C R"
  shows "bucket_at C R T t0 b \<Longrightarrow> sorted (t0 # ts) \<Longrightarrow> \<forall>t \<in> set (t0 # ts). \<bar>t\<bar> \<le> 2 ^ 52 \<Longrightarrow>
    \<exists>T'. bucket_at C R T' (last (t0 # ts)) (snd (admit_run ts b)) \<and>
      of_nat (fst (admit_run ts b)) + T' \<le>
        T + ideal_gain R t0 (last (t0 # ts)) * (1 + 1 / 2 ^ 51) + of_nat (length ts) / 2 ^ 30"
proof (induction ts arbitrary: T t0 b)
  case Nil
  then show ?case by (auto simp add: ideal_gain_def)
next
  case (Cons t ts)
  have t: "t0 \<le> t" "\<bar>t0\<bar> \<le> 2 ^ 52" "\<bar>t\<bar> \<le> 2 ^ 52" using Cons.prems(2,3) by auto
  obtain T1 where T1: "bucket_at C R T1 t (refill (Num (of_int t)) b)"
    "T1 \<le> T + ideal_gain R t0 t * (1 + 1 / 2 ^ 51) + 1 / 2 ^ 31"
    using refill_near [OF C Cons.prems(1) t] by metis
  obtain ok c where tk: "tryTake (Num 1) (Num (of_int t)) b = (ok, c)" by fastforce
  obtain T2 where T2: "bucket_at C R T2 t c" "T2 + (if ok then 1 else 0) \<le> T1 + 1 / 2 ^ 31"
  proof (cases ok)
    case True
    then obtain T' where "bucket_at C R T' t c" "T' \<le> T1 - 1 + 1 / 2 ^ 31"
      using take_near(1) [OF C T1(1)] tk by auto
    then show ?thesis using that [of T'] True by simp
  next
    case False
    then have "c = refill (Num (of_int t)) b" using take_near(2) [OF C T1(1)] tk by auto
    then show ?thesis using that [of T1] T1(1) False by simp
  qed
  have "sorted (t # ts)" "\<forall>u \<in> set (t # ts). \<bar>u\<bar> \<le> 2 ^ 52" using Cons.prems(2,3) by auto
  from Cons.IH [OF T2(1) this] obtain T' where T':
    "bucket_at C R T' (last (t # ts)) (snd (admit_run ts c))"
    "of_nat (fst (admit_run ts c)) + T' \<le>
       T2 + ideal_gain R t (last (t # ts)) * (1 + 1 / 2 ^ 51) + of_nat (length ts) / 2 ^ 30" by blast
  have run: "fst (admit_run (t # ts) b) = (if ok then Suc (fst (admit_run ts c)) else fst (admit_run ts c))"
    "snd (admit_run (t # ts) b) = snd (admit_run ts c)"
    by (simp_all add: tk split_beta)
  define g1 where "g1 = ideal_gain R t0 t * (1 + 1 / 2 ^ 51)"
  define g2 where "g2 = ideal_gain R t (last (t # ts)) * (1 + 1 / 2 ^ 51)"
  have g: "ideal_gain R t0 (last (t0 # t # ts)) * (1 + 1 / 2 ^ 51) = g1 + g2"
    unfolding g1_def g2_def distrib_right [symmetric] ideal_gain_add by simp
  have n: "(of_nat (length (t # ts)) :: rat) / 2 ^ 30 = of_nat (length ts) / 2 ^ 30 + 1 / 2 ^ 31 + 1 / 2 ^ 31"
    by (simp add: add_divide_distrib)
  have "of_nat (fst (admit_run (t # ts) b)) + T' \<le> T + (g1 + g2) + of_nat (length (t # ts)) / 2 ^ 30"
  proof -
    obtain v :: rat where v: "(if ok then 1 else 0) = v" by blast
    have "(of_nat (fst (admit_run (t # ts) b)) :: rat) = of_nat (fst (admit_run ts c)) + v"
      unfolding run(1) v [symmetric] by simp
    then show ?thesis unfolding n using T'(2) [folded g2_def] T2(2) [unfolded v] T1(2) [folded g1_def] by linarith
  qed
  then show ?case using T'(1) run(2) unfolding g by auto
qed

lemma new_bucket_at:
  assumes "budget_ok C R" "new_bucket (Num C) (Num R) (Num (of_int t0)) = Inr b"
  shows "bucket_at C R C t0 b"
proof -
  have "- (1 / 2 ^ 29) \<le> (0::rat)" by simp
  moreover have "0 < C" using assms(1) by (simp add: budget_ok_def)
  ultimately have "- (1 / 2 ^ 29) \<le> C" by linarith
  then show ?thesis using assms by (auto simp add: new_bucket_def bucket_at_def budget_ok_def split: if_splits)
qed

text \<open>The shared request budget is kept in spite of floating point: whatever the clock readings of
  the calls, as long as they do not go back, the number of admitted requests is at most the
  capacity plus the rate times the elapsed seconds (up to one part in 2 ^ 51), plus a slack of
  2 ^ -30 for each call and 2 ^ -29; the stored tokens never exceed the capacity.\<close>

theorem admissions_within_budget:
  assumes "budget_ok C R" and "new_bucket (Num C) (Num R) (Num (of_int t0)) = Inr b"
    and "sorted (t0 # ts)" and "\<forall>t \<in> set (t0 # ts). \<bar>t\<bar> \<le> 2 ^ 52"
  shows "of_nat (fst (admit_run ts b)) \<le>
      C + ideal_gain R t0 (last (t0 # ts)) * (1 + 1 / 2 ^ 51) + of_nat (length ts) / 2 ^ 30 + 1 / 2 ^ 29 \<and>
    js_le (tb_tokens (snd (admit_run ts b))) (Num C)"
proof -
  from admit_run_potential [OF assms(1) new_bucket_at [OF assms(1,2)] assms(3,4)]
  obtain T' where T': "bucket_at C R T' (last (t0 # ts)) (snd (admit_run ts b))"
    "of_nat (fst (admit_run ts b)) + T' \<le>
      C + ideal_gain R t0 (last (t0 # ts)) * (1 + 1 / 2 ^ 51) + of_nat (length ts) / 2 ^ 30" by blast
  have "- (1 / 2 ^ 29) \<le> T'" "tb_tokens (snd (admit_run ts b)) = Num T'" "T' \<le> C"
    using T'(1) by (simp_all add: bucket_at_def)
  then show ?thesis using T'(2) by simp
qed

theorem admissions_within_budget_witness:
  "\<exists>b. new_bucket (Num 2) (Num 3) (Num (of_int 0)) = Inr b \<and> fst (admit_run [0, 0, 0, 0] b) \<le> 2"
proof -
  obtain b where b: "new_bucket (Num 2) (Num 3) (Num (of_int 0)) = Inr b" by (simp add: new_bucket_def)
  have "of_nat (fst (admit_run [0, 0, 0, 0] b)) \<le> (2::rat) + ideal_gain 3 0 0 * (1 + 1 / 2 ^ 51) + 4 / 2 ^ 30 + 1 / 2 ^ 29"
    using admissions_within_budget [of 2 3 0 b "[0, 0, 0, 0]"] b by (simp add: budget_ok_def)
  then have "of_nat (fst (admit_run [0, 0, 0, 0] b)) < (3::rat)" by (simp add: ideal_gain_def)
  then have "of_nat (fst (admit_run [0, 0, 0, 0] b)) < (of_nat 3 :: rat)" by simp
  then have "fst (admit_run [0, 0, 0, 0] b) < 3" by (simp only: of_nat_less_iff)
  then show ?thesis using b by auto
qed

text \<open>C34: No starvation: whatever requests came before, once the ideal refill since the last clock
  reading is a little more than one token (one part in a million more), a request is admitted, for
  any bucket that can hold a token.\<close>

theorem request_admitted_after_wait:
  assumes "budget_ok C R" and "1 \<le> C" and "new_bucket (Num C) (Num R) (Num (of_int t0)) = Inr b"
    and "sorted (t0 # ts @ [t])" and "\<forall>u \<in> set (t0 # ts @ [t]). \<bar>u\<bar> \<le> 2 ^ 52"
    and "1 + 1 / 2 ^ 20 \<le> ideal_gain R (last (t0 # ts)) t"
  shows "fst (tryTake (Num 1) (Num (of_int t)) (snd (admit_run ts b)))"
proof -
  let ?l = "last (t0 # ts)" and ?b = "snd (admit_run ts b)"
  have s: "sorted (t0 # ts)" "\<forall>u \<in> set (t0 # ts). \<bar>u\<bar> \<le> 2 ^ 52" using assms(4,5) by (auto simp add: sorted_append)
  from admit_run_potential [OF assms(1) new_bucket_at [OF assms(1,3)] s]
  obtain T where T: "bucket_at C R T ?l ?b" by blast
  have lin: "?l \<in> set (t0 # ts)" by (rule last_in_set) simp
  then have l: "?l \<le> t" "\<bar>?l\<bar> \<le> 2 ^ 52" "\<bar>t\<bar> \<le> 2 ^ 52"
    using assms(4,5) s(2) by (auto simp add: sorted_append)
  obtain T' where T': "bucket_at C R T' t (refill (Num (of_int t)) ?b)"
    "min C (T + ideal_gain R ?l t * (1 - 1 / 2 ^ 51) - 1 / 2 ^ 31) \<le> T'"
    using refill_near [OF assms(1) T l] by metis
  have "(1 + 1 / 2 ^ 20) * (1 - 1 / 2 ^ 51) \<le> ideal_gain R ?l t * (1 - 1 / 2 ^ 51)"
    using assms(6) by (intro mult_right_mono) simp_all
  moreover have "- (1 / 2 ^ 29) \<le> T" using T by (simp add: bucket_at_def)
  ultimately have "1 \<le> T + ideal_gain R ?l t * (1 - 1 / 2 ^ 51) - 1 / 2 ^ 31" by simp
  then have "1 \<le> T'" using T'(2) assms(2) by linarith
  moreover obtain ok c where tk: "tryTake (Num 1) (Num (of_int t)) ?b = (ok, c)" by fastforce
  ultimately show ?thesis using take_near(2) [OF assms(1) T'(1)] by (cases ok) auto
qed

theorem request_admitted_after_wait_witness:
  "\<exists>b. new_bucket (Num 1) (Num 2) (Num (of_int 0)) = Inr b \<and>
    fst (tryTake (Num 1) (Num (of_int 1000)) (snd (admit_run [0, 0] b)))"
proof -
  obtain b where b: "new_bucket (Num 1) (Num 2) (Num (of_int 0)) = Inr b" by (simp add: new_bucket_def)
  show ?thesis using request_admitted_after_wait [of 1 2 0 b "[0, 0]" 1000] b
    by (simp add: budget_ok_def ideal_gain_def)
qed

end
