(* ===== verification/BotScheduler.thy ===== *)
theory BotScheduler
  imports RpsBudget
begin

text \<open>
  services/stat-arb-bot: the time regimes (market-hours.ts), the quote scheduler with its shared
  request budget (quote-scheduler.ts) and its telemetry (scheduler-telemetry.ts). The scheduler reads
  the injected clock several times in one tick: the readings are a function clk of the number of
  readings made so far. The New York wall clock comes from Intl.DateTimeFormat and its time-zone
  data, which the host provides: it is the parameter ny of the regimes.
\<close>

section \<open>Market hours (market-hours.ts)\<close>

record nyClock =
  ny_weekday :: string
  ny_minutes :: nat

record timeRegimeOptions =
  tg_cryptoMoveBps :: "jsnum option"
  tg_cryptoHighVolMoveBps :: "jsnum option"
  tg_pythMarketSession :: "string option"

definition no_options :: timeRegimeOptions where
  "no_options = \<lparr> tg_cryptoMoveBps = None, tg_cryptoHighVolMoveBps = None, tg_pythMarketSession = None \<rparr>"

definition usEquityRegime :: "nyClock \<Rightarrow> timeRegime" where
  "usEquityRegime c =
    (if ny_weekday c = ''Sat'' \<or> ny_weekday c = ''Sun'' then US_EQUITY_WEEKEND
     else if 9 * 60 + 30 \<le> ny_minutes c \<and> ny_minutes c < 16 * 60 then US_EQUITY_REGULAR
     else if 4 * 60 \<le> ny_minutes c \<and> ny_minutes c < 9 * 60 + 30 then US_EQUITY_PREMARKET
     else if 16 * 60 \<le> ny_minutes c \<and> ny_minutes c < 20 * 60 then US_EQUITY_POSTMARKET
     else US_EQUITY_OVERNIGHT)"

definition equityRegimeFromPythSession :: "string option \<Rightarrow> nyClock \<Rightarrow> timeRegime option" where
  "equityRegimeFromPythSession session c =
    (if session = Some ''regular'' then Some US_EQUITY_REGULAR
     else if session = Some ''preMarket'' then Some US_EQUITY_PREMARKET
     else if session = Some ''postMarket'' then Some US_EQUITY_POSTMARKET
     else if session = Some ''overNight'' then Some US_EQUITY_OVERNIGHT
     else if session = Some ''closed'' then
       Some (if ny_weekday c = ''Sat'' \<or> ny_weekday c = ''Sun'' then US_EQUITY_WEEKEND else US_EQUITY_OVERNIGHT)
     else None)"

definition metalRegime :: "nyClock \<Rightarrow> timeRegime" where
  "metalRegime c =
    (if ny_weekday c = ''Sat'' then METAL_WEEKEND
     else if ny_weekday c = ''Sun'' \<and> ny_minutes c < 18 * 60 then METAL_WEEKEND
     else if ny_weekday c = ''Fri'' \<and> 17 * 60 \<le> ny_minutes c then METAL_WEEKEND
     else if 17 * 60 \<le> ny_minutes c \<and> ny_minutes c < 18 * 60 then METAL_MAINTENANCE
     else METAL_ACTIVE)"

definition timeRegimeFor :: "(jsnum \<Rightarrow> nyClock) \<Rightarrow> assetClass \<Rightarrow> jsnum \<Rightarrow> timeRegimeOptions \<Rightarrow> timeRegime option" where
  "timeRegimeFor ny cls nowMs opts = (case cls of
     Crypto \<Rightarrow>
      (let threshold = (case tg_cryptoHighVolMoveBps opts of Some t \<Rightarrow> t | None \<Rightarrow> Num 50);
           move = (case tg_cryptoMoveBps opts of Some m \<Rightarrow> m | None \<Rightarrow> Num 0)
       in Some (if js_ge move threshold then CRYPTO_HIGH_VOL else CRYPTO_NORMAL))
   | Equity \<Rightarrow> (case equityRegimeFromPythSession (tg_pythMarketSession opts) (ny nowMs) of
        Some r \<Rightarrow> Some r
      | None \<Rightarrow> Some (usEquityRegime (ny nowMs)))
   | Metal \<Rightarrow> Some (case tg_pythMarketSession opts of
        Some s \<Rightarrow> if s \<noteq> [] \<and> s \<noteq> ''closed'' then METAL_ACTIVE else metalRegime (ny nowMs)
      | None \<Rightarrow> metalRegime (ny nowMs))
   | _ \<Rightarrow> None)"

definition isExecutableTimeRegime :: "timeRegime option \<Rightarrow> bool" where
  "isExecutableTimeRegime r \<longleftrightarrow> r \<notin> {Some US_EQUITY_PREMARKET, Some US_EQUITY_POSTMARKET, Some US_EQUITY_OVERNIGHT,
     Some US_EQUITY_WEEKEND, Some METAL_MAINTENANCE, Some METAL_WEEKEND}"

definition isMarketOpen :: "(jsnum \<Rightarrow> nyClock) \<Rightarrow> assetClass \<Rightarrow> jsnum \<Rightarrow> bool" where
  "isMarketOpen ny cls nowMs \<longleftrightarrow> isExecutableTimeRegime (timeRegimeFor ny cls nowMs no_options)"

text \<open>The regimes of a class of assets.\<close>

fun regimes_of :: "assetClass \<Rightarrow> timeRegime option set" where
  "regimes_of Crypto = {Some CRYPTO_NORMAL, Some CRYPTO_HIGH_VOL}"
| "regimes_of Equity = {Some US_EQUITY_REGULAR, Some US_EQUITY_PREMARKET, Some US_EQUITY_POSTMARKET,
     Some US_EQUITY_OVERNIGHT, Some US_EQUITY_WEEKEND}"
| "regimes_of Metal = {Some METAL_ACTIVE, Some METAL_MAINTENANCE, Some METAL_WEEKEND}"
| "regimes_of _ = {None}"

text \<open>A regime always belongs to the class of the asset, whatever the clock and the session reported
  by Pyth: crypto gets a crypto regime, equities an equity regime, metals a metal regime, commodities
  and currencies none. Without a reported session the market is open exactly in the core hours:
  equities on weekdays from 9:30 to 16:00, metals outside the weekend window and the maintenance
  hour, every other class always.\<close>

theorem regime_of_class:
  "timeRegimeFor ny cls nowMs opts \<in> regimes_of cls \<and>
   (isMarketOpen ny cls nowMs \<longleftrightarrow> (case cls of
      Equity \<Rightarrow> ny_weekday (ny nowMs) \<noteq> ''Sat'' \<and> ny_weekday (ny nowMs) \<noteq> ''Sun'' \<and>
        570 \<le> ny_minutes (ny nowMs) \<and> ny_minutes (ny nowMs) < 960
    | Metal \<Rightarrow> ny_weekday (ny nowMs) \<noteq> ''Sat'' \<and>
        \<not> (ny_weekday (ny nowMs) = ''Sun'' \<and> ny_minutes (ny nowMs) < 1080) \<and>
        \<not> (ny_weekday (ny nowMs) = ''Fri'' \<and> 1020 \<le> ny_minutes (ny nowMs)) \<and>
        \<not> (1020 \<le> ny_minutes (ny nowMs) \<and> ny_minutes (ny nowMs) < 1080)
    | _ \<Rightarrow> True))"
proof
  show "timeRegimeFor ny cls nowMs opts \<in> regimes_of cls"
    by (cases cls) (auto simp add: timeRegimeFor_def Let_def equityRegimeFromPythSession_def usEquityRegime_def
        metalRegime_def split: option.splits)
next
  show "isMarketOpen ny cls nowMs \<longleftrightarrow> (case cls of
      Equity \<Rightarrow> ny_weekday (ny nowMs) \<noteq> ''Sat'' \<and> ny_weekday (ny nowMs) \<noteq> ''Sun'' \<and>
        570 \<le> ny_minutes (ny nowMs) \<and> ny_minutes (ny nowMs) < 960
    | Metal \<Rightarrow> ny_weekday (ny nowMs) \<noteq> ''Sat'' \<and>
        \<not> (ny_weekday (ny nowMs) = ''Sun'' \<and> ny_minutes (ny nowMs) < 1080) \<and>
        \<not> (ny_weekday (ny nowMs) = ''Fri'' \<and> 1020 \<le> ny_minutes (ny nowMs)) \<and>
        \<not> (1020 \<le> ny_minutes (ny nowMs) \<and> ny_minutes (ny nowMs) < 1080)
    | _ \<Rightarrow> True)"
    by (cases cls) (auto simp add: isMarketOpen_def isExecutableTimeRegime_def timeRegimeFor_def Let_def no_options_def
        equityRegimeFromPythSession_def usEquityRegime_def metalRegime_def split: if_splits)
qed

section \<open>The quote scheduler (quote-scheduler.ts)\<close>

record schedulerPair =
  sp_pairId :: string
  sp_lastPriceUsd :: jsnum
  sp_sides :: "pairDirection list"
  sp_sizesUsd :: "jsnum list"
  sp_quoteIntervalMs :: jsnum
  sp_minPriceMoveBps :: jsnum

record priceTickMetadata =
  tm_streamTimestampUs :: jsnum
  tm_feedUpdateTimestampUs :: jsnum
  tm_pythFreshnessLagMs :: jsnum
  tm_pythConfidenceBps :: "jsnum option"
  tm_pythMarketSession :: "string option"
  tm_timeRegime :: "timeRegime option"
  tm_allowSignals :: "bool option"

record workContext = priceTickMetadata +
  wc_workId :: string
  wc_queuedAtMs :: jsnum

text \<open>The calls of the configured callbacks, in their order.\<close>

datatype schedEvent = RpsRejected string pairDirection jsnum
  | Admitted string pairDirection jsnum
  | Work string schedulerPair pairDirection jsnum jsnum workContext

record quoteScheduler =
  qs_bucket :: tokenBucket
  qs_pairs :: "(string, schedulerPair) dict"
  qs_lastQuoteAt :: "(string, jsnum) dict"
  qs_lastQuotedPrice :: "(string, jsnum) dict"
  qs_reads :: nat

definition new_scheduler :: "(nat \<Rightarrow> jsnum) \<Rightarrow> jsnum \<Rightarrow> jsnum \<Rightarrow> (js_error, quoteScheduler) result" where
  "new_scheduler clk maxRps bucketCapacity = and_then (new_bucket bucketCapacity maxRps (clk 0)) (\<lambda>b.
     Inr \<lparr> qs_bucket = b, qs_pairs = [], qs_lastQuoteAt = [], qs_lastQuotedPrice = [], qs_reads = 1 \<rparr>)"

definition upsertPair :: "schedulerPair \<Rightarrow> quoteScheduler \<Rightarrow> quoteScheduler" where
  "upsertPair p s = s\<lparr> qs_pairs := dict_set (qs_pairs s) (sp_pairId p) p \<rparr>"

definition removePair :: "string \<Rightarrow> quoteScheduler \<Rightarrow> quoteScheduler" where
  "removePair pairId s =
    (let keys = filter (\<lambda>k. starts_with k (pairId @ ''|'')) (map fst (qs_lastQuoteAt s))
     in s\<lparr> qs_pairs := dict_del (qs_pairs s) pairId,
           qs_lastQuoteAt := foldl dict_del (qs_lastQuoteAt s) keys,
           qs_lastQuotedPrice := foldl dict_del (qs_lastQuotedPrice s) keys \<rparr>)"

definition activePairCount :: "quoteScheduler \<Rightarrow> nat" where
  "activePairCount s = length (qs_pairs s)"

text \<open>nowMs(): the next reading of the clock.\<close>

definition read_clock :: "(nat \<Rightarrow> jsnum) \<Rightarrow> quoteScheduler \<Rightarrow> jsnum \<times> quoteScheduler" where
  "read_clock clk s = (clk (qs_reads s), s\<lparr> qs_reads := Suc (qs_reads s) \<rparr>)"

definition budgetAvailable :: "(nat \<Rightarrow> jsnum) \<Rightarrow> quoteScheduler \<Rightarrow> jsnum \<times> quoteScheduler" where
  "budgetAvailable clk s = (let (now, s1) = read_clock clk s; (n, b) = available now (qs_bucket s1)
     in (n, s1\<lparr> qs_bucket := b \<rparr>))"

definition work_id :: "string \<Rightarrow> pairDirection \<Rightarrow> jsnum \<Rightarrow> string" where
  "work_id pairId side sz = pairId @ ''|'' @ direction_name side @ ''|'' @ show_num sz"

definition shouldQuote :: "(nat \<Rightarrow> jsnum) \<Rightarrow> string \<Rightarrow> schedulerPair \<Rightarrow> quoteScheduler \<Rightarrow> bool \<times> quoteScheduler" where
  "shouldQuote clk wid p s =
    (let lastAt = (case dict_get (qs_lastQuoteAt s) wid of Some t \<Rightarrow> t | None \<Rightarrow> NInf);
         (now, s1) = read_clock clk s;
         elapsed = js_sub now lastAt
     in (case dict_get (qs_lastQuotedPrice s) wid of
           None \<Rightarrow> True
         | Some lastPx \<Rightarrow> if js_le lastPx (Num 0) then True else \<not> js_lt elapsed (sp_quoteIntervalMs p), s1))"

definition take_token :: "(nat \<Rightarrow> jsnum) \<Rightarrow> quoteScheduler \<Rightarrow> bool \<times> quoteScheduler" where
  "take_token clk s = (let (now, s1) = read_clock clk s; (ok, b) = tryTake (Num 1) now (qs_bucket s1)
     in (ok, s1\<lparr> qs_bucket := b \<rparr>))"

definition mk_context :: "priceTickMetadata \<Rightarrow> string \<Rightarrow> jsnum \<Rightarrow> workContext" where
  "mk_context meta wid queuedAt = priceTickMetadata.extend meta \<lparr> wc_workId = wid, wc_queuedAtMs = queuedAt \<rparr>"

text \<open>One (side, size) of the loop of onPriceTick.\<close>

definition visit :: "(nat \<Rightarrow> jsnum) \<Rightarrow> schedulerPair \<Rightarrow> jsnum \<Rightarrow> priceTickMetadata \<Rightarrow> string \<Rightarrow> pairDirection \<times> jsnum \<Rightarrow>
    schedEvent list \<times> quoteScheduler \<Rightarrow> schedEvent list \<times> quoteScheduler" where
  "visit clk p price meta pairId x acc = (case acc of (evs, s) \<Rightarrow> case x of (side, sz) \<Rightarrow>
     let wid = work_id pairId side sz; (quote, s1) = shouldQuote clk wid p s in
     if \<not> quote then (evs, s1)
     else let (ok, s2) = take_token clk s1 in
       if \<not> ok then (evs @ [RpsRejected pairId side sz], s2)
       else let (queuedAt, s3) = read_clock clk s2;
                s4 = s3\<lparr> qs_lastQuoteAt := dict_set (qs_lastQuoteAt s3) wid queuedAt,
                        qs_lastQuotedPrice := dict_set (qs_lastQuotedPrice s3) wid price \<rparr>
         in (evs @ [Admitted pairId side sz, Work wid p side sz price (mk_context meta wid queuedAt)], s4))"

definition onPriceTick :: "(nat \<Rightarrow> jsnum) \<Rightarrow> string \<Rightarrow> jsnum \<Rightarrow> priceTickMetadata \<Rightarrow> quoteScheduler \<Rightarrow> schedEvent list \<times> quoteScheduler" where
  "onPriceTick clk pairId price meta s = (case dict_get (qs_pairs s) pairId of
     None \<Rightarrow> ([], s)
   | Some p0 \<Rightarrow>
      (let p = p0\<lparr> sp_lastPriceUsd := price \<rparr>;
           s1 = s\<lparr> qs_pairs := dict_set (qs_pairs s) pairId p \<rparr>
       in fold (visit clk p price meta pairId)
            (concat (map (\<lambda>side. map (Pair side) (sp_sizesUsd p)) (sp_sides p))) ([], s1)))"

section \<open>Telemetry (scheduler-telemetry.ts)\<close>

record pairCounters =
  ct_scheduled :: nat
  ct_admitted :: nat
  ct_droppedRps :: nat
  ct_droppedStalePyth :: nat
  ct_droppedMarketSession :: nat

record schedulerTelemetry =
  tl_windowMs :: jsnum
  tl_perPair :: "(string, pairCounters) dict"
  tl_windowStartMs :: jsnum

record telemetrySnapshot =
  tn_scheduled :: nat
  tn_admitted :: nat
  tn_droppedRps :: nat
  tn_droppedStalePyth :: nat
  tn_droppedMarketSession :: nat
  tn_perPair :: "(string \<times> pairCounters) list"

definition zero_counters :: pairCounters where
  "zero_counters = \<lparr> ct_scheduled = 0, ct_admitted = 0, ct_droppedRps = 0, ct_droppedStalePyth = 0, ct_droppedMarketSession = 0 \<rparr>"

definition new_telemetry :: "jsnum option \<Rightarrow> jsnum \<Rightarrow> schedulerTelemetry" where
  "new_telemetry windowMs now = \<lparr> tl_windowMs = (case windowMs of Some w \<Rightarrow> w | None \<Rightarrow> Num 60000), tl_perPair = [],
     tl_windowStartMs = now \<rparr>"

definition maybeReset :: "jsnum \<Rightarrow> schedulerTelemetry \<Rightarrow> schedulerTelemetry" where
  "maybeReset now t = (if js_lt (js_sub now (tl_windowStartMs t)) (tl_windowMs t) then t
     else t\<lparr> tl_perPair := [], tl_windowStartMs := now \<rparr>)"

definition counters :: "string \<Rightarrow> schedulerTelemetry \<Rightarrow> pairCounters" where
  "counters pairId t = (case dict_get (tl_perPair t) pairId of Some c \<Rightarrow> c | None \<Rightarrow> zero_counters)"

text \<open>The five record methods: reset, then bump one counter of the pair.\<close>

definition bump :: "(pairCounters \<Rightarrow> pairCounters) \<Rightarrow> jsnum \<Rightarrow> string \<Rightarrow> schedulerTelemetry \<Rightarrow> schedulerTelemetry" where
  "bump f now pairId t = (let t1 = maybeReset now t in
     t1\<lparr> tl_perPair := dict_set (tl_perPair t1) pairId (f (counters pairId t1)) \<rparr>)"

definition recordScheduled :: "jsnum \<Rightarrow> string \<Rightarrow> schedulerTelemetry \<Rightarrow> schedulerTelemetry" where
  "recordScheduled = bump (\<lambda>c. c\<lparr> ct_scheduled := Suc (ct_scheduled c) \<rparr>)"
definition recordAdmitted :: "jsnum \<Rightarrow> string \<Rightarrow> schedulerTelemetry \<Rightarrow> schedulerTelemetry" where
  "recordAdmitted = bump (\<lambda>c. c\<lparr> ct_admitted := Suc (ct_admitted c) \<rparr>)"
definition recordDroppedRps :: "jsnum \<Rightarrow> string \<Rightarrow> schedulerTelemetry \<Rightarrow> schedulerTelemetry" where
  "recordDroppedRps = bump (\<lambda>c. c\<lparr> ct_droppedRps := Suc (ct_droppedRps c) \<rparr>)"
definition recordDroppedStalePyth :: "jsnum \<Rightarrow> string \<Rightarrow> schedulerTelemetry \<Rightarrow> schedulerTelemetry" where
  "recordDroppedStalePyth = bump (\<lambda>c. c\<lparr> ct_droppedStalePyth := Suc (ct_droppedStalePyth c) \<rparr>)"
definition recordDroppedMarketSession :: "jsnum \<Rightarrow> string \<Rightarrow> schedulerTelemetry \<Rightarrow> schedulerTelemetry" where
  "recordDroppedMarketSession = bump (\<lambda>c. c\<lparr> ct_droppedMarketSession := Suc (ct_droppedMarketSession c) \<rparr>)"

definition telemetry_snapshot :: "(string \<Rightarrow> string \<Rightarrow> int) \<Rightarrow> jsnum \<Rightarrow> schedulerTelemetry \<Rightarrow> telemetrySnapshot \<times> schedulerTelemetry" where
  "telemetry_snapshot lc now t = (let t1 = maybeReset now t; cs = map snd (tl_perPair t1) in
     (\<lparr> tn_scheduled = sum_list (map ct_scheduled cs), tn_admitted = sum_list (map ct_admitted cs),
        tn_droppedRps = sum_list (map ct_droppedRps cs), tn_droppedStalePyth = sum_list (map ct_droppedStalePyth cs),
        tn_droppedMarketSession = sum_list (map ct_droppedMarketSession cs),
        tn_perPair = js_sort (\<lambda>a b. 0 < lc (fst a) (fst b)) (tl_perPair t1) \<rparr>, t1))"

text \<open>The telemetry window is tumbling, not rolling: a quote scheduled one millisecond before the
  window closes is no longer in a snapshot taken one millisecond later, while a snapshot taken at the
  moment of the recording shows it.\<close>

theorem telemetry_tumbles:
  "let t = recordScheduled (Num 59999) ''wbtc'' (new_telemetry None (Num 0)) in
    tn_scheduled (fst (telemetry_snapshot lc (Num 59999) t)) = 1 \<and>
    tn_scheduled (fst (telemetry_snapshot lc (Num 60000) t)) = 0"
  by (simp add: recordScheduled_def new_telemetry_def bump_def maybeReset_def telemetry_snapshot_def Let_def
      counters_def zero_counters_def js_sub_def js_eval)

section \<open>Runs of the scheduler\<close>

text \<open>The operations the bot performs on its scheduler, in any order.\<close>

datatype schedOp = UpsertPair schedulerPair | RemovePair string | ReadBudget | PriceTick string jsnum priceTickMetadata

fun sched_op :: "(nat \<Rightarrow> jsnum) \<Rightarrow> schedOp \<Rightarrow> schedEvent list \<times> quoteScheduler \<Rightarrow> schedEvent list \<times> quoteScheduler" where
  "sched_op clk (UpsertPair p) (evs, s) = (evs, upsertPair p s)"
| "sched_op clk (RemovePair pid) (evs, s) = (evs, removePair pid s)"
| "sched_op clk ReadBudget (evs, s) = (evs, snd (budgetAvailable clk s))"
| "sched_op clk (PriceTick pid price meta) (evs, s) =
     (let (new, s') = onPriceTick clk pid price meta s in (evs @ new, s'))"

definition sched_run :: "(nat \<Rightarrow> jsnum) \<Rightarrow> schedOp list \<Rightarrow> quoteScheduler \<Rightarrow> schedEvent list \<times> quoteScheduler" where
  "sched_run clk ops s = fold (sched_op clk) ops ([], s)"

definition admitted :: "schedEvent list \<Rightarrow> nat" where
  "admitted evs = length (filter (\<lambda>e. case e of Admitted _ _ _ \<Rightarrow> True | _ \<Rightarrow> False) evs)"

lemma admitted_simps [simp]: "admitted [] = 0" "admitted (xs @ ys) = admitted xs + admitted ys"
  "admitted [RpsRejected a b c] = 0" "admitted [Admitted a b c, Work d e f g h i] = 1"
  by (simp_all add: admitted_def)

text \<open>A tick never looks at the events already emitted, so a run may be followed event by event.\<close>

lemma visit_events: "visit clk p price meta pid x (evs, s) =
    (evs @ fst (visit clk p price meta pid x ([], s)), snd (visit clk p price meta pid x ([], s)))"
  by (simp add: visit_def Let_def split: prod.splits)

lemma fold_visit_events: "fold (visit clk p price meta pid) xs (evs, s) =
    (evs @ fst (fold (visit clk p price meta pid) xs ([], s)), snd (fold (visit clk p price meta pid) xs ([], s)))"
proof (induction xs arbitrary: evs s)
  case (Cons x xs)
  obtain e1 s1 where v: "visit clk p price meta pid x ([], s) = (e1, s1)" by fastforce
  show ?case using visit_events [of clk p price meta pid x evs s] Cons.IH [of "evs @ e1" s1] Cons.IH [of e1 s1] v by simp
qed simp

text \<open>A property of events and state that the visits, the other operations and the registration of
  the price keep is kept by every run.\<close>

locale sched_invariant =
  fixes clk :: "nat \<Rightarrow> jsnum" and okop :: "schedOp \<Rightarrow> bool" and I :: "schedEvent list \<Rightarrow> quoteScheduler \<Rightarrow> bool"
  assumes upsert: "I evs s \<Longrightarrow> okop (UpsertPair p) \<Longrightarrow> I evs (upsertPair p s)"
    and remove: "I evs s \<Longrightarrow> okop (RemovePair pid) \<Longrightarrow> I evs (removePair pid s)"
    and budget: "I evs s \<Longrightarrow> okop ReadBudget \<Longrightarrow> I evs (snd (budgetAvailable clk s))"
    and reprice: "I evs s \<Longrightarrow> I evs (s\<lparr> qs_pairs := d \<rparr>)"
    and visited: "I evs s \<Longrightarrow> okop (PriceTick pid price meta) \<Longrightarrow> visit clk p price meta pid x (evs, s) = (evs', s') \<Longrightarrow>
      I evs' s'"
begin

lemma fold_visit: "I evs s \<Longrightarrow> okop (PriceTick pid price meta) \<Longrightarrow> fold (visit clk p price meta pid) xs (evs, s) = (evs', s') \<Longrightarrow>
    I evs' s'"
proof (induction xs arbitrary: evs s)
  case (Cons x xs)
  obtain e1 s1 where v: "visit clk p price meta pid x (evs, s) = (e1, s1)" by fastforce
  show ?case using Cons.IH [OF visited [OF Cons.prems(1,2) v] Cons.prems(2)] Cons.prems(3) v by simp
qed simp

lemma tick: assumes "I evs s" "okop (PriceTick pid price meta)"
  shows "I (evs @ fst (onPriceTick clk pid price meta s)) (snd (onPriceTick clk pid price meta s))"
proof (cases "dict_get (qs_pairs s) pid")
  case None
  then show ?thesis using assms by (simp add: onPriceTick_def)
next
  case (Some p0)
  let ?p = "p0\<lparr> sp_lastPriceUsd := price \<rparr>"
  let ?s = "s\<lparr> qs_pairs := dict_set (qs_pairs s) pid ?p \<rparr>"
  let ?xs = "concat (map (\<lambda>side. map (Pair side) (sp_sizesUsd ?p)) (sp_sides ?p))"
  have o: "onPriceTick clk pid price meta s = fold (visit clk ?p price meta pid) ?xs ([], ?s)"
    by (simp add: onPriceTick_def Some Let_def)
  show ?thesis unfolding o
    using fold_visit [OF reprice [OF assms(1)] assms(2) fold_visit_events [of clk ?p price meta pid ?xs evs ?s]] .
qed

lemma op: "I evs s \<Longrightarrow> okop x \<Longrightarrow> sched_op clk x (evs, s) = (evs', s') \<Longrightarrow> I evs' s'"
  by (cases x) (use upsert remove budget tick in \<open>fastforce simp add: split_beta\<close>)+

lemma ops: "I evs s \<Longrightarrow> \<forall>x \<in> set xs. okop x \<Longrightarrow> fold (sched_op clk) xs (evs, s) = (evs', s') \<Longrightarrow> I evs' s'"
proof (induction xs arbitrary: evs s)
  case (Cons x xs)
  obtain e1 s1 where v: "sched_op clk x (evs, s) = (e1, s1)" by fastforce
  show ?case using Cons.IH [OF op [OF Cons.prems(1) _ v]] Cons.prems(2,3) v by simp
qed simp

lemma run: "I [] s \<Longrightarrow> \<forall>x \<in> set xs. okop x \<Longrightarrow> I (fst (sched_run clk xs s)) (snd (sched_run clk xs s))"
  unfolding sched_run_def using ops by (metis prod.collapse)

end

section \<open>The budget of a run\<close>

text \<open>The clock as whole milliseconds that never go back.\<close>

definition ms_clock :: "(nat \<Rightarrow> int) \<Rightarrow> nat \<Rightarrow> jsnum" where
  "ms_clock f i = Num (of_int (f i))"

definition clock_ok :: "(nat \<Rightarrow> int) \<Rightarrow> bool" where
  "clock_ok f \<longleftrightarrow> mono f \<and> (\<forall>i. \<bar>f i\<bar> \<le> 2 ^ 52)"

text \<open>The ideal allowance at the j-th reading, the rounding slack of r readings and of one rounding,
  and the debt a bucket may carry.\<close>

definition allowance :: "rat \<Rightarrow> rat \<Rightarrow> (nat \<Rightarrow> int) \<Rightarrow> nat \<Rightarrow> rat" where
  "allowance C R f j = C + ideal_gain R (f 0) (f j) * (1 + 1 / 2 ^ 51)"
definition slack :: "nat \<Rightarrow> rat" where "slack r = of_nat r / 2 ^ 30"
definition rounding :: rat where "rounding = 1 / 2 ^ 31"
definition debt :: rat where "debt = 1 / 2 ^ 29"

lemma slack_Suc: "slack (Suc r) = slack r + rounding + rounding"
  by (simp add: slack_def rounding_def add_divide_distrib)

lemma rounding_pos: "0 < rounding" by (simp add: rounding_def)

lemma allowance_add: "allowance C R f r = allowance C R f j + ideal_gain R (f j) (f r) * (1 + 1 / 2 ^ 51)"
  unfolding allowance_def ideal_gain_add [of R "f 0" "f j" "f r", symmetric] distrib_right by (simp only: add.assoc)

lemma allowance_mono: assumes "budget_ok C R" "clock_ok f" "j \<le> r" shows "allowance C R f j \<le> allowance C R f r"
proof -
  have "f j \<le> f r" using assms(2,3) by (simp add: clock_ok_def mono_def)
  then have "0 \<le> ideal_gain R (f j) (f r)" using assms(1) by (simp add: ideal_gain_def budget_ok_def)
  then have "0 \<le> ideal_gain R (f j) (f r) * (1 + 1 / 2 ^ 51)" by (rule mult_nonneg_nonneg) simp
  then show ?thesis unfolding allowance_add [of C R f r j] by (rule add_increasing2) (rule order_refl)
qed

text \<open>After r readings n tokens are spent, at most those of the ideal budget and the rounding slack.\<close>

definition spent :: "rat \<Rightarrow> rat \<Rightarrow> (nat \<Rightarrow> int) \<Rightarrow> nat \<Rightarrow> nat \<Rightarrow> tokenBucket \<Rightarrow> bool" where
  "spent C R f n r b \<longleftrightarrow> (\<exists>T j. j < r \<and> bucket_at C R T (f j) b \<and> of_nat n + T \<le> allowance C R f j + slack r)"

lemma spentI: "j < r \<Longrightarrow> bucket_at C R T (f j) b \<Longrightarrow> of_nat n + T \<le> allowance C R f j + slack r \<Longrightarrow> spent C R f n r b"
  unfolding spent_def by blast

lemma spentE:
  assumes "spent C R f n r b"
  obtains T j where "j < r" "bucket_at C R T (f j) b" "of_nat n + T \<le> allowance C R f j + slack r"
  using assms unfolding spent_def by blast

lemma spent_Suc: assumes "spent C R f n r b" shows "spent C R f n (Suc r) b"
  using assms
proof (rule spentE)
  fix T j assume T: "j < r" "bucket_at C R T (f j) b" "of_nat n + T \<le> allowance C R f j + slack r"
  show "spent C R f n (Suc r) b"
    by (rule spentI [of j _ C R T f, OF _ T(2)]) (use T(1,3) rounding_pos slack_Suc [of r] in linarith)+
qed

lemma spent_read:
  assumes C: "budget_ok C R" "clock_ok f" and s: "spent C R f n r b"
  obtains T' where "bucket_at C R T' (f r) (refill (Num (of_int (f r))) b)"
    "of_nat n + T' \<le> allowance C R f r + slack r + rounding"
proof -
  obtain T j where T: "j < r" "bucket_at C R T (f j) b" "of_nat n + T \<le> allowance C R f j + slack r"
    using s by (rule spentE)
  have f: "f j \<le> f r" "\<bar>f j\<bar> \<le> 2 ^ 52" "\<bar>f r\<bar> \<le> 2 ^ 52"
    using C(2) T(1) by (simp_all add: clock_ok_def mono_def)
  obtain T' where T': "bucket_at C R T' (f r) (refill (Num (of_int (f r))) b)"
    "T' \<le> T + ideal_gain R (f j) (f r) * (1 + 1 / 2 ^ 51) + rounding"
    using refill_near [OF C(1) T(2) f] unfolding rounding_def by metis
  show ?thesis
  proof (rule that [OF T'(1)])
    obtain g where g: "ideal_gain R (f j) (f r) * (1 + 1 / 2 ^ 51) = g" by blast
    show "of_nat n + T' \<le> allowance C R f r + slack r + rounding"
      using T(3) T'(2) unfolding allowance_add [of C R f r j] g by linarith
  qed
qed

lemma spent_available:
  assumes "budget_ok C R" "clock_ok f" "spent C R f n r b"
  shows "spent C R f n (Suc r) (refill (Num (of_int (f r))) b)"
proof -
  obtain T' where T': "bucket_at C R T' (f r) (refill (Num (of_int (f r))) b)"
    "of_nat n + T' \<le> allowance C R f r + slack r + rounding"
    using spent_read [OF assms] .
  show ?thesis by (rule spentI [of r _ C R T' f, OF lessI T'(1)]) (use T'(2) slack_Suc [of r] rounding_pos in linarith)
qed

lemma spent_take:
  assumes C: "budget_ok C R" "clock_ok f" "spent C R f n r b"
    and t: "tryTake (Num 1) (Num (of_int (f r))) b = (ok, c)"
  shows "spent C R f (if ok then Suc n else n) (Suc r) c"
proof (cases ok)
  case False
  then have "c = refill (Num (of_int (f r))) b" using t by (simp add: tryTake_def Let_def split: if_splits)
  then show ?thesis using False spent_available [OF C] by simp
next
  case True
  obtain T' where T': "bucket_at C R T' (f r) (refill (Num (of_int (f r))) b)"
    "of_nat n + T' \<le> allowance C R f r + slack r + rounding"
    using spent_read [OF C] .
  obtain U where U: "bucket_at C R U (f r) c" "U \<le> T' - 1 + rounding"
    using take_near(1) [OF C(1) T'(1), of c] t True unfolding rounding_def by auto
  have "of_nat (Suc n) + U \<le> allowance C R f r + slack (Suc r)"
    unfolding of_nat_Suc [of n] using T'(2) U(2) slack_Suc [of r] by linarith
  then show ?thesis using True by (simp only: if_True) (rule spentI [of r _ C R U f, OF lessI U(1)])
qed

lemma spent_bound:
  assumes "budget_ok C R" "clock_ok f" "spent C R f n r b"
  shows "of_nat n \<le> allowance C R f r + slack r + debt"
proof -
  obtain T j where T: "j < r" "bucket_at C R T (f j) b" "of_nat n + T \<le> allowance C R f j + slack r"
    using assms(3) by (rule spentE)
  have "- debt \<le> T" using T(2) by (simp add: bucket_at_def debt_def)
  moreover have "allowance C R f j \<le> allowance C R f r" using T(1) by (intro allowance_mono [OF assms(1,2)]) simp
  ultimately show ?thesis using T(3) by linarith
qed

definition budget_inv :: "rat \<Rightarrow> rat \<Rightarrow> (nat \<Rightarrow> int) \<Rightarrow> schedEvent list \<Rightarrow> quoteScheduler \<Rightarrow> bool" where
  "budget_inv C R f evs s \<longleftrightarrow> spent C R f (admitted evs) (qs_reads s) (qs_bucket s)"

lemma budget_inv_visit:
  assumes C: "budget_ok C R" "clock_ok f" and I: "budget_inv C R f evs s"
    and v: "visit (ms_clock f) p price meta pid x (evs, s) = (evs', s')"
  shows "budget_inv C R f evs' s'"
proof -
  let ?r = "qs_reads s"
  obtain side sz where x: "x = (side, sz)" by fastforce
  obtain ok b where t: "tryTake (Num 1) (ms_clock f (Suc ?r)) (qs_bucket s) = (ok, b)" by fastforce
  have s1: "spent C R f (admitted evs) (Suc ?r) (qs_bucket s)"
    using I by (auto simp add: budget_inv_def intro: spent_Suc)
  have s2: "spent C R f (if ok then Suc (admitted evs) else admitted evs) (Suc (Suc ?r)) b"
    using spent_take [OF C s1] t by (simp add: ms_clock_def)
  show ?thesis using v s1 s2 spent_Suc [OF s2]
    by (auto simp add: budget_inv_def visit_def x Let_def shouldQuote_def take_token_def read_clock_def t
        split: if_splits)
qed

definition paid :: "rat \<Rightarrow> rat \<Rightarrow> (nat \<Rightarrow> int) \<Rightarrow> schedEvent list \<Rightarrow> quoteScheduler \<Rightarrow> bool" where
  "paid C R f evs s \<longleftrightarrow> (budget_ok C R \<and> clock_ok f \<longrightarrow> budget_inv C R f evs s)"

interpretation payment: sched_invariant "ms_clock f" "\<lambda>_. True" "paid C R f" for f C R
proof
  fix evs s pid price meta p x evs' s'
  assume "paid C R f evs s" "visit (ms_clock f) p price meta pid x (evs, s) = (evs', s')"
  then show "paid C R f evs' s'" using budget_inv_visit by (simp add: paid_def) blast
next
  fix evs s
  assume "paid C R f evs s"
  then show "paid C R f evs (snd (budgetAvailable (ms_clock f) s))"
    using spent_available [of C R f "admitted evs" "qs_reads s" "qs_bucket s"]
    by (simp add: paid_def budget_inv_def budgetAvailable_def available_def read_clock_def ms_clock_def Let_def)
qed (simp_all add: paid_def budget_inv_def upsertPair_def removePair_def Let_def)

text \<open>C6: All pairs share one request budget: over any sequence of registrations, removals, readings of
  the budget and price ticks, and for any clock of whole milliseconds that never goes back, the number
  of quote requests admitted is at most the bucket capacity plus the refill of the elapsed time, up to
  a rounding slack below one token for the first half billion readings of the clock.\<close>

theorem scheduler_within_budget:
  assumes "budget_ok C R" and "clock_ok f"
    and "new_scheduler (ms_clock f) (Num R) (Num C) = Inr s0"
    and "sched_run (ms_clock f) ops s0 = (evs, s)"
  shows "of_nat (admitted evs) \<le>
    C + ideal_gain R (f 0) (f (qs_reads s)) * (1 + 1 / 2 ^ 51) + of_nat (qs_reads s) / 2 ^ 30 + 1 / 2 ^ 29"
proof -
  obtain b where b: "new_bucket (Num C) (Num R) (Num (of_int (f 0))) = Inr b" "qs_bucket s0 = b" "qs_reads s0 = 1"
    using assms(3) by (auto simp add: new_scheduler_def ms_clock_def result_simps)
  have "bucket_at C R C (f 0) b" by (rule new_bucket_at [OF assms(1) b(1)])
  then have "budget_inv C R f [] s0" unfolding budget_inv_def b(2,3)
    by (intro spentI [of 0 1 C R C f b]) (simp_all add: ideal_gain_def allowance_def slack_def)
  then have "budget_inv C R f evs s"
    using payment.run [of C R f s0 ops] assms(1,2,4) by (simp add: paid_def)
  then show ?thesis using spent_bound [OF assms(1,2)]
    unfolding budget_inv_def allowance_def slack_def debt_def by blast
qed

theorem scheduler_within_budget_witness:
  "\<exists>s0 evs s. new_scheduler (ms_clock (\<lambda>_. 0)) (Num 3) (Num 2) = Inr s0 \<and>
    sched_run (ms_clock (\<lambda>_. 0)) [] s0 = (evs, s) \<and> (of_nat (admitted evs) :: rat) < 3"
proof -
  obtain s0 where s0: "new_scheduler (ms_clock (\<lambda>_. 0)) (Num 3) (Num 2) = Inr s0" "qs_reads s0 = 1"
    by (simp add: new_scheduler_def new_bucket_def ms_clock_def)
  obtain evs s where r: "sched_run (ms_clock (\<lambda>_. 0)) [] s0 = (evs, s)" by fastforce
  then have n: "qs_reads s = 1" using s0(2) by (simp add: sched_run_def)
  have "of_nat (admitted evs) \<le> (2::rat) + ideal_gain 3 0 0 * (1 + 1 / 2 ^ 51) + of_nat (qs_reads s) / 2 ^ 30 + 1 / 2 ^ 29"
    by (rule scheduler_within_budget [of 2 3 "\<lambda>_. 0", OF _ _ s0(1) r])
      (simp_all add: budget_ok_def clock_ok_def mono_def)
  then have "(of_nat (admitted evs) :: rat) < 3" by (simp add: n ideal_gain_def)
  then show ?thesis using s0(1) r by blast
qed

section \<open>The cooldown of a run\<close>

definition spaced :: "schedEvent \<Rightarrow> schedEvent \<Rightarrow> bool" where
  "spaced e e' = (case (e, e') of
     (Work wid _ _ _ _ c, Work wid' p' _ _ _ c') \<Rightarrow>
       wid = wid' \<longrightarrow> \<not> js_lt (js_sub (wc_queuedAtMs c') (wc_queuedAtMs c)) (sp_quoteIntervalMs p')
   | _ \<Rightarrow> True)"

fun keeps_cooldown :: "schedOp \<Rightarrow> bool" where
  "keeps_cooldown (RemovePair _) = False"
| "keeps_cooldown (PriceTick _ price _) = js_lt (Num 0) price"
| "keeps_cooldown _ = True"

text \<open>What the scheduler remembers of a piece of work: its last start is not before the start of any
  event of this work, and the price it was quoted at is positive.\<close>

definition started :: "(nat \<Rightarrow> int) \<Rightarrow> quoteScheduler \<Rightarrow> schedEvent \<Rightarrow> bool" where
  "started f s e = (case e of Work wid _ _ _ _ c \<Rightarrow>
     (\<exists>i j px. i \<le> j \<and> j < qs_reads s \<and> wc_queuedAtMs c = Num (of_int (f i)) \<and>
       dict_get (qs_lastQuoteAt s) wid = Some (Num (of_int (f j))) \<and>
       dict_get (qs_lastQuotedPrice s) wid = Some px \<and> js_lt (Num 0) px) | _ \<Rightarrow> True)"

definition cool_inv :: "(nat \<Rightarrow> int) \<Rightarrow> schedEvent list \<Rightarrow> quoteScheduler \<Rightarrow> bool" where
  "cool_inv f evs s \<longleftrightarrow> (clock_ok f \<longrightarrow> sorted_wrt spaced evs \<and> (\<forall>e \<in> set evs. started f s e))"

lemma started_cong: "started f s e \<Longrightarrow> qs_reads s \<le> qs_reads s' \<Longrightarrow>
    qs_lastQuoteAt s' = qs_lastQuoteAt s \<Longrightarrow> qs_lastQuotedPrice s' = qs_lastQuotedPrice s \<Longrightarrow> started f s' e"
  unfolding started_def by (cases e) (simp, simp, clarsimp, metis order_less_le_trans)

lemma ms_sub: assumes "\<bar>a\<bar> \<le> 2 ^ 52" "\<bar>b\<bar> \<le> 2 ^ 52"
  shows "js_sub (Num (of_int a)) (Num (of_int b)) = Num (of_int (a - b))"
proof -
  have "\<bar>a - b\<bar> \<le> \<bar>a\<bar> + \<bar>b\<bar>" by simp
  also have "\<dots> \<le> 2 ^ 52 + 2 ^ 52" using assms by (rule add_mono)
  finally have "\<bar>a - b\<bar> \<le> 2 ^ 53" by simp
  then show ?thesis using fl_of_int [of "a - b"] by (simp add: js_sub_def)
qed

lemma spaced_next:
  assumes C: "clock_ok f" and e: "started f s e"
    and q: "shouldQuote (ms_clock f) wid p s = (True, s1)" and k: "qs_reads s \<le> k"
    and c: "wc_queuedAtMs c = Num (of_int (f k))"
  shows "spaced e (Work wid p side sz price c)"
proof (cases e)
  case (Work wid0 p0 side0 sz0 px0 c0)
  show ?thesis
  proof (cases "wid0 = wid")
    case True
    obtain i j px where ij: "i \<le> j" "j < qs_reads s" "wc_queuedAtMs c0 = Num (of_int (f i))"
      "dict_get (qs_lastQuoteAt s) wid = Some (Num (of_int (f j)))"
      "dict_get (qs_lastQuotedPrice s) wid = Some px" "js_lt (Num 0) px"
      using e True by (auto simp add: started_def Work)
    have le: "f (qs_reads s) - f j \<le> f k - f i" and b: "\<And>n. \<bar>f n\<bar> \<le> 2 ^ 52"
      using C ij(1) k by (auto simp add: clock_ok_def mono_def intro: diff_mono)
    have "\<not> js_le px (Num 0)" using ij(6) by (cases px) (auto simp add: js_le_def js_eq_def)
    then have "\<not> js_lt (Num (of_int (f (qs_reads s) - f j))) (sp_quoteIntervalMs p)"
      using q ij(4,5) ms_sub [OF b b] by (simp add: shouldQuote_def Let_def read_clock_def ms_clock_def)
    then have "\<not> js_lt (Num (of_int (f k - f i))) (sp_quoteIntervalMs p)"
      using le js_le_lt_trans [of "Num (of_int (f (qs_reads s) - f j))" "Num (of_int (f k - f i))" "sp_quoteIntervalMs p"] by auto
    then show ?thesis using ij(3) c ms_sub [OF b b] by (simp add: spaced_def Work)
  qed (simp add: spaced_def Work)
qed (simp_all add: spaced_def)


lemma read_conv: "read_clock (ms_clock f) s = (Num (of_int (f (qs_reads s))), s\<lparr> qs_reads := Suc (qs_reads s) \<rparr>)"
  by (simp add: read_clock_def ms_clock_def)

lemma shouldQuote_state: "shouldQuote clk wid p s = (q, s1) \<Longrightarrow> s1 = s\<lparr> qs_reads := Suc (qs_reads s) \<rparr>"
  by (simp add: shouldQuote_def read_clock_def Let_def)

text \<open>What one visit does: nothing, a rejection, or an admission that records the time and the price.\<close>

lemma visit_cases:
  assumes "visit (ms_clock f) p price meta pid (side, sz) (evs, s) = (evs', s')"
  obtains (quiet) "evs' = evs" "s' = s\<lparr> qs_reads := Suc (qs_reads s) \<rparr>"
    | (rejected) b where "evs' = evs @ [RpsRejected pid side sz]" "s' = s\<lparr> qs_reads := Suc (Suc (qs_reads s)), qs_bucket := b \<rparr>"
    | (admit) b s1 where "shouldQuote (ms_clock f) (work_id pid side sz) p s = (True, s1)"
        "evs' = evs @ [Admitted pid side sz, Work (work_id pid side sz) p side sz price
          (mk_context meta (work_id pid side sz) (Num (of_int (f (Suc (Suc (qs_reads s)))))))]"
        "s' = s\<lparr> qs_reads := Suc (Suc (Suc (qs_reads s))), qs_bucket := b,
          qs_lastQuoteAt := dict_set (qs_lastQuoteAt s) (work_id pid side sz) (Num (of_int (f (Suc (Suc (qs_reads s)))))),
          qs_lastQuotedPrice := dict_set (qs_lastQuotedPrice s) (work_id pid side sz) price \<rparr>"
proof -
  obtain q s1 where q: "shouldQuote (ms_clock f) (work_id pid side sz) p s = (q, s1)" by fastforce
  obtain ok b where t: "tryTake (Num 1) (ms_clock f (Suc (qs_reads s))) (qs_bucket s) = (ok, b)" by fastforce
  have s1: "s1 = s\<lparr> qs_reads := Suc (qs_reads s) \<rparr>" by (rule shouldQuote_state [OF q])
  have tk: "take_token (ms_clock f) s1 = (ok, s\<lparr> qs_reads := Suc (Suc (qs_reads s)), qs_bucket := b \<rparr>)"
    using t by (simp add: s1 take_token_def read_clock_def)
  show ?thesis
  proof (cases "q \<and> ok")
    case True
    then show ?thesis using assms q tk by (intro admit [of s1 b]) (auto simp add: visit_def Let_def read_conv)
  next
    case False
    then show ?thesis using quiet rejected [of b] assms q tk s1 by (cases q) (auto simp add: visit_def Let_def)
  qed
qed

lemma mk_context_queued [simp]: "wc_queuedAtMs (mk_context meta wid t) = t"
  by (simp add: mk_context_def priceTickMetadata.extend_def)

lemma started_record:
  assumes C: "clock_ok f" and e: "started f s e" and k: "qs_reads s \<le> k" and pr: "js_lt (Num 0) price"
    and s': "k < qs_reads s'" "qs_lastQuoteAt s' = dict_set (qs_lastQuoteAt s) wid (Num (of_int (f k)))"
      "qs_lastQuotedPrice s' = dict_set (qs_lastQuotedPrice s) wid price"
  shows "started f s' e"
proof (cases e)
  case (Work wid0 p0 side0 sz0 px0 c0)
  obtain i j px where ij: "i \<le> j" "j < qs_reads s" "wc_queuedAtMs c0 = Num (of_int (f i))"
    "dict_get (qs_lastQuoteAt s) wid0 = Some (Num (of_int (f j)))"
    "dict_get (qs_lastQuotedPrice s) wid0 = Some px" "js_lt (Num 0) px"
    using e by (auto simp add: started_def Work)
  show ?thesis
  proof (cases "wid0 = wid")
    case True
    have "i \<le> k" using ij(1,2) k by simp
    then show ?thesis using ij(3) s' pr True by (auto simp add: started_def Work dict_laws)
  next
    case False
    have "j < qs_reads s'" using ij(2) k s'(1) by simp
    then show ?thesis using ij s'(2,3) False by (auto simp add: started_def Work dict_laws)
  qed
qed (simp_all add: started_def)

lemma cool_visit:
  assumes I: "cool_inv f evs s" and pr: "js_lt (Num 0) price"
    and v: "visit (ms_clock f) p price meta pid x (evs, s) = (evs', s')"
  shows "cool_inv f evs' s'"
  unfolding cool_inv_def
proof
  assume C: "clock_ok f"
  have I': "sorted_wrt spaced evs" "\<And>e. e \<in> set evs \<Longrightarrow> started f s e" using I C by (auto simp add: cool_inv_def)
  obtain side sz where x: "x = (side, sz)" by fastforce
  from v [unfolded x] show "sorted_wrt spaced evs' \<and> (\<forall>e \<in> set evs'. started f s' e)"
  proof (cases rule: visit_cases)
    case quiet
    then show ?thesis using I' started_cong [of f s _ s'] by auto
  next
    case (rejected b)
    then show ?thesis using I' started_cong [of f s _ s'] by (auto simp add: sorted_wrt_append spaced_def started_def [of _ _ "RpsRejected _ _ _"] split: schedEvent.splits)
  next
    case (admit b s1)
    let ?k = "Suc (Suc (qs_reads s))"
    let ?w = "Work (work_id pid side sz) p side sz price (mk_context meta (work_id pid side sz) (Num (of_int (f ?k))))"
    have k: "qs_reads s \<le> ?k" "?k < qs_reads s'" using admit(3) by simp_all
    have sp: "spaced e ?w" if "e \<in> set evs" for e
      by (rule spaced_next [OF C I'(2) [OF that] admit(1) k(1)]) simp
    have ad: "spaced e (Admitted pid side sz)" "spaced (Admitted pid side sz) e" for e
      by (simp_all add: spaced_def split: schedEvent.splits)
    have "started f s' e" if "e \<in> set evs" for e
      by (rule started_record [OF C I'(2) [OF that] k(1) pr k(2)]) (simp_all add: admit(3))
    moreover have "started f s' ?w" using pr by (auto simp add: started_def admit(3) dict_laws)
    moreover have "started f s' (Admitted pid side sz)" by (simp add: started_def)
    ultimately show ?thesis using I'(1) sp ad by (auto simp add: admit(2) sorted_wrt_append)
  qed
qed

interpretation cooldown: sched_invariant "ms_clock f" keeps_cooldown "cool_inv f" for f
proof
  fix evs s pid price meta p x evs' s'
  assume "cool_inv f evs s" "keeps_cooldown (PriceTick pid price meta)"
    "visit (ms_clock f) p price meta pid x (evs, s) = (evs', s')"
  then show "cool_inv f evs' s'" using cool_visit by simp
qed (auto simp add: cool_inv_def upsertPair_def budgetAvailable_def read_clock_def Let_def split: prod.splits
    intro: started_cong)

text \<open>The cooldown is kept for every route: from any state of the scheduler and over any run of registrations, budget readings and ticks
  of positive prices (no removal), with any clock of whole milliseconds that never goes back, two
  requests of one pair, side and size are never started closer together than the quote interval the
  pair has at the later one.\<close>

theorem cooldown_kept:
  assumes "clock_ok f" and "\<forall>op \<in> set ops. keeps_cooldown op"
  shows "sorted_wrt spaced (fst (sched_run (ms_clock f) ops s0))"
  using cooldown.run [OF _ assms(2), of f s0] assms(1) by (simp add: cool_inv_def)

definition demo_pair :: schedulerPair where
  "demo_pair = \<lparr> sp_pairId = ''wbtc'', sp_lastPriceUsd = Num 0, sp_sides = [BuyTokenized], sp_sizesUsd = [Num 500],
     sp_quoteIntervalMs = Num 1000, sp_minPriceMoveBps = Num 5 \<rparr>"

definition plain_meta :: priceTickMetadata where
  "plain_meta = \<lparr> tm_streamTimestampUs = Num 0, tm_feedUpdateTimestampUs = Num 0, tm_pythFreshnessLagMs = Num 0,
     tm_pythConfidenceBps = None, tm_pythMarketSession = None, tm_timeRegime = None, tm_allowSignals = None \<rparr>"

text \<open>A full bucket and no history.\<close>

definition fresh :: quoteScheduler where
  "fresh = \<lparr> qs_bucket = \<lparr> tb_capacity = Num 5, tb_refillPerSec = Num 1, tb_tokens = Num 5, tb_lastRefillMs = Num 0 \<rparr>,
     qs_pairs = [], qs_lastQuoteAt = [], qs_lastQuotedPrice = [], qs_reads = 1 \<rparr>"

theorem cooldown_kept_witness:
  "clock_ok (\<lambda>_. 0) \<and> sorted_wrt spaced (fst (sched_run (ms_clock (\<lambda>_. 0))
     [UpsertPair demo_pair, PriceTick ''wbtc'' (Num 60000) plain_meta, PriceTick ''wbtc'' (Num 60001) plain_meta] fresh))"
  using cooldown_kept [of "\<lambda>_. 0" "[UpsertPair demo_pair, PriceTick ''wbtc'' (Num 60000) plain_meta,
    PriceTick ''wbtc'' (Num 60001) plain_meta]" fresh] by (simp add: clock_ok_def mono_def)

lemmas sched_eval = sched_run_def onPriceTick_def upsertPair_def visit_def Let_def shouldQuote_def read_clock_def
  take_token_def tryTake_def refill_def js_sub_def ms_clock_def fresh_def demo_pair_def dict_laws work_id_def

lemma enough_tokens: assumes "1 \<le> T" shows "\<not> js_lt (js_add (Num T) EPSILON) (Num 1)"
proof -
  obtain h where h: "EPSILON = Num h" "0 \<le> h" by (rule epsilon_bounds)
  have "js_le (Num 1) (fl (T + h))" using assms h(2) by (intro fl_ge_double) (simp_all add: js_eval)
  then show ?thesis using js_le_lt_trans [of "Num 1" "fl (T + h)" "Num 1"] by (auto simp add: h(1))
qed

text \<open>The cooldown is not the hard guardrail its comment calls it: a route last quoted at a price that is
  not positive is quoted again at once, in the same millisecond, whatever its interval.\<close>

theorem cooldown_bypassed:
  "let evs = fst (sched_run (ms_clock (\<lambda>_. 0))
     [UpsertPair demo_pair, PriceTick ''wbtc'' (Num 0) plain_meta, PriceTick ''wbtc'' (Num 0) plain_meta] fresh)
   in admitted evs = 2 \<and> \<not> sorted_wrt spaced evs"
  by (simp add: sched_eval admitted_def enough_tokens spaced_def js_eval)

end
