(* ===== verification/JupiterClient.thy ===== *)
theory JupiterClient
  imports MarketBase
begin

text \<open>
  services/stat-arb-bot/src/jupiter-client.ts: the client of Jupiter's order and execute endpoints,
  and the conversions of the language it uses on untyped JSON values: Number(text), BigInt(text).
  The network is a parameter: a reply, or the message of the exception fetch or the body's decoding
  throws. A reply has the type the client declares for it; its numbers and texts are arbitrary.
  Date.now() readings are numbered, the text of a date is read by the host's Date parser.
\<close>

section \<open>Numbers out of text\<close>

definition digit_val :: "char \<Rightarrow> nat option" where
  "digit_val c = (let n = of_char c :: nat in
     if 48 \<le> n \<and> n \<le> 57 then Some (n - 48)
     else if 97 \<le> n \<and> n \<le> 122 then Some (n - 87)
     else if 65 \<le> n \<and> n \<le> 90 then Some (n - 55) else None)"

fun read_radix_from :: "nat \<Rightarrow> nat \<Rightarrow> string \<Rightarrow> nat option" where
  "read_radix_from r acc [] = Some acc"
| "read_radix_from r acc (c # cs) = (case digit_val c of
     Some d \<Rightarrow> if d < r then read_radix_from r (acc * r + d) cs else None | None \<Rightarrow> None)"

definition read_radix :: "nat \<Rightarrow> string \<Rightarrow> nat option" where
  "read_radix r s = (if s = [] then None else read_radix_from r 0 s)"

text \<open>The literals 0x, 0o, 0b.\<close>

definition prefixed :: "string \<Rightarrow> nat option option" where
  "prefixed t = (if take 2 t \<in> {''0x'', ''0X''} then Some (read_radix 16 (drop 2 t))
     else if take 2 t \<in> {''0o'', ''0O''} then Some (read_radix 8 (drop 2 t))
     else if take 2 t \<in> {''0b'', ''0B''} then Some (read_radix 2 (drop 2 t)) else None)"

definition signed :: "string \<Rightarrow> bool \<times> string" where
  "signed t = (case t of CHR ''-'' # u \<Rightarrow> (True, u) | CHR ''+'' # u \<Rightarrow> (False, u) | _ \<Rightarrow> (False, t))"

text \<open>BigInt(text): white space around, an empty text is 0, else a SyntaxError (None).\<close>

definition bigint_of_string :: "string \<Rightarrow> int option" where
  "bigint_of_string s = (let t = trim s in
     if t = [] then Some 0
     else case prefixed t of Some r \<Rightarrow> map_option int r
     | None \<Rightarrow> (case signed t of (neg, u) \<Rightarrow> map_option (\<lambda>n. if neg then - int n else int n) (read_radix 10 u)))"

definition is_digit :: "char \<Rightarrow> bool" where
  "is_digit c \<longleftrightarrow> (48::nat) \<le> of_char c \<and> of_char c \<le> (57::nat)"

text \<open>A decimal literal without its sign: digits, an optional fraction, an optional exponent.\<close>

definition read_decimal :: "string \<Rightarrow> rat option" where
  "read_decimal t =
    (let a = takeWhile is_digit t; r = dropWhile is_digit t;
         (b, r2) = (case r of CHR ''.'' # u \<Rightarrow> (takeWhile is_digit u, dropWhile is_digit u) | _ \<Rightarrow> ([], r));
         ex = (case r2 of [] \<Rightarrow> Some (0::int)
           | c # u \<Rightarrow> if c = CHR ''e'' \<or> c = CHR ''E''
               then (case signed u of (neg, v) \<Rightarrow> map_option (\<lambda>n. if neg then - int n else int n) (read_radix 10 v))
               else None)
     in if a @ b = [] then None
        else map_option (\<lambda>k. of_nat (read_digits (a @ b)) * 10 powi (k - int (length b))) ex)"

text \<open>Number(text).\<close>

definition number_of_string :: "string \<Rightarrow> jsnum" where
  "number_of_string s = (let t = trim s in
     if t = [] then Num 0
     else case prefixed t of
       Some r \<Rightarrow> (case r of Some n \<Rightarrow> fl (of_nat n) | None \<Rightarrow> NaN)
     | None \<Rightarrow> (case signed t of (neg, u) \<Rightarrow>
         let x = (if u = ''Infinity'' then PInf else case read_decimal u of Some q \<Rightarrow> fl q | None \<Rightarrow> NaN)
         in if neg then js_neg x else x))"

section \<open>The untyped values\<close>

datatype textOrNumber = T string | N jsnum

definition firstString :: "string option list \<Rightarrow> string option" where
  "firstString values = (case find (\<lambda>v. v \<noteq> None \<and> v \<noteq> Some []) values of Some v \<Rightarrow> v | None \<Rightarrow> None)"

fun number_of :: "textOrNumber \<Rightarrow> jsnum" where
  "number_of (N x) = x"
| "number_of (T s) = number_of_string s"

fun text_of :: "textOrNumber \<Rightarrow> string" where
  "text_of (N x) = show_num x"
| "text_of (T s) = s"

definition parseFiniteNumber :: "textOrNumber option \<Rightarrow> jsnum option" where
  "parseFiniteNumber value = (case value of None \<Rightarrow> None
     | Some v \<Rightarrow> let n = number_of v in if is_finite n then Some n else None)"

definition firstFiniteNumber :: "textOrNumber option list \<Rightarrow> jsnum option" where
  "firstFiniteNumber values = (case find (\<lambda>v. parseFiniteNumber v \<noteq> None) values of
     Some v \<Rightarrow> parseFiniteNumber v | None \<Rightarrow> None)"

definition parseOptionalBigInt :: "string option \<Rightarrow> int option" where
  "parseOptionalBigInt value = (case value of None \<Rightarrow> None | Some [] \<Rightarrow> None | Some s \<Rightarrow> bigint_of_string s)"

text \<open>A Date is its time value, which is a whole number of milliseconds up to 8.64e15 in size.\<close>

definition date_of_ms :: "jsnum \<Rightarrow> jsnum option" where
  "date_of_ms ms = (case ms of
     Num q \<Rightarrow> if \<bar>q\<bar> \<le> 8640000000000000 then Some (Num (if 0 \<le> q then of_int \<lfloor>q\<rfloor> else of_int \<lceil>q\<rceil>)) else None
   | _ \<Rightarrow> None)"

definition parseDate :: "(string \<Rightarrow> jsnum option) \<Rightarrow> textOrNumber option \<Rightarrow> jsnum option" where
  "parseDate date_text value = (case value of None \<Rightarrow> None
     | Some (N x) \<Rightarrow> date_of_ms (if js_gt x (Num 10000000000) then x else js_mul x (Num 1000))
     | Some (T s) \<Rightarrow> if s = [] then None else date_text s)"

section \<open>Replies and results\<close>

datatype 'b httpReply = Throws string | Reply nat "string + 'b"

definition res_ok :: "nat \<Rightarrow> bool" where
  "res_ok st \<longleftrightarrow> 200 \<le> st \<and> st \<le> 299"

record orderRequest =
  rq_inputMint :: string
  rq_outputMint :: string
  rq_amount :: int
  rq_slippageBps :: "jsnum option"
  rq_taker :: "string option"
  rq_excludeRouters :: "string option"

record orderJson =
  oj_outAmount :: "string option"
  oj_inAmount :: "string option"
  oj_transaction :: "string option"
  oj_priceImpactPct :: "textOrNumber option"
  oj_priceImpact :: "textOrNumber option"
  oj_router :: "string option"
  oj_quoteId :: "string option"
  oj_requestId :: "string option"
  oj_id :: "string option"
  oj_lastValidBlockHeight :: "textOrNumber option"
  oj_mode :: "string option"
  oj_expiresAt :: "textOrNumber option"
  oj_expireAt :: "textOrNumber option"
  oj_contextSlot :: "textOrNumber option"

record okOrder =
  oo_outAmount :: int
  oo_inAmount :: int
  oo_priceImpactPct :: "jsnum option"
  oo_router :: "string option"
  oo_quoteId :: "string option"
  oo_requestId :: "string option"
  oo_transaction :: "string option"
  oo_lastValidBlockHeight :: "string option"
  oo_mode :: "string option"
  oo_expiresAt :: "jsnum option"
  oo_contextSlot :: "jsnum option"
  oo_requestMs :: jsnum
  oo_raw :: orderJson

datatype orderResult = OkOrder okOrder | OrderRateLimited jsnum | OrderError jsnum string

record executeJson =
  ej_status :: "string option"
  ej_signature :: "string option"
  ej_slot :: "textOrNumber option"
  ej_code :: "textOrNumber option"
  ej_inputAmountResult :: "string option"
  ej_outputAmountResult :: "string option"
  ej_totalOutputAmount :: "string option"
  ej_error :: "string option"

record okExecute =
  oe_swapStatus :: string
  oe_signature :: "string option"
  oe_slot :: "string option"
  oe_code :: "jsnum option"
  oe_inputAmountResult :: "int option"
  oe_outputAmountResult :: "int option"
  oe_error :: "string option"
  oe_requestMs :: jsnum
  oe_raw :: executeJson

datatype executeResult = OkExecute okExecute | ExecuteRateLimited jsnum | ExecuteError jsnum string

section \<open>The client\<close>

text \<open>An optional text that is present and not empty (truthiness).\<close>

definition present :: "string option \<Rightarrow> string option" where
  "present v = (if v = Some [] then None else v)"

definition client_headers :: "string option \<Rightarrow> (string \<times> string) list" where
  "client_headers apiKey = (''accept'', ''application/json'') #
     (case present apiKey of Some k \<Rightarrow> [(''x-api-key'', k)] | None \<Rightarrow> [])"

definition order_params :: "orderRequest \<Rightarrow> (string \<times> string) list" where
  "order_params r =
     [(''inputMint'', rq_inputMint r), (''outputMint'', rq_outputMint r), (''amount'', show_int (rq_amount r))] @
     (case rq_slippageBps r of Some b \<Rightarrow> [(''slippageBps'', show_num b)] | None \<Rightarrow> []) @
     (case present (rq_taker r) of Some t \<Rightarrow> [(''taker'', t)] | None \<Rightarrow> []) @
     (case present (rq_excludeRouters r) of Some t \<Rightarrow> [(''excludeRouters'', t)] | None \<Rightarrow> [])"

definition execute_body :: "string \<Rightarrow> string \<Rightarrow> string option \<Rightarrow> (string \<times> string) list" where
  "execute_body signedTransaction requestId lastValidBlockHeight =
     [(''signedTransaction'', signedTransaction), (''requestId'', requestId)] @
     (case present lastValidBlockHeight of Some h \<Rightarrow> [(''lastValidBlockHeight'', h)] | None \<Rightarrow> [])"

definition bigint_error :: "string \<Rightarrow> string" where
  "bigint_error s = ''Cannot convert '' @ s @ '' to a BigInt''"

definition decode_order :: "(string \<Rightarrow> jsnum option) \<Rightarrow> jsnum \<Rightarrow> orderJson \<Rightarrow> int \<Rightarrow> int \<Rightarrow> okOrder" where
  "decode_order date_text requestMs j outAmount inAmount = \<lparr>
     oo_outAmount = outAmount, oo_inAmount = inAmount,
     oo_priceImpactPct = firstFiniteNumber [oj_priceImpact j, oj_priceImpactPct j],
     oo_router = oj_router j,
     oo_quoteId = firstString [oj_quoteId j, oj_id j, oj_requestId j],
     oo_requestId = firstString [oj_requestId j],
     oo_transaction = present (oj_transaction j),
     oo_lastValidBlockHeight = map_option text_of (oj_lastValidBlockHeight j),
     oo_mode = oj_mode j,
     oo_expiresAt = parseDate date_text (if oj_expiresAt j = None then oj_expireAt j else oj_expiresAt j),
     oo_contextSlot = parseFiniteNumber (oj_contextSlot j),
     oo_requestMs = requestMs, oo_raw = j \<rparr>"

text \<open>The client's order call: the clock is read at its start (n) and when the reply is there, once more
  when decoding the body throws. The result and the number of the next reading.\<close>

definition client_order :: "(nat \<Rightarrow> jsnum) \<Rightarrow> (string \<Rightarrow> jsnum option) \<Rightarrow> orderJson httpReply \<Rightarrow> nat \<Rightarrow> orderResult \<times> nat" where
  "client_order clk date_text reply n =
    (let t0 = clk n; requestMs = js_sub (clk (n + 1)) t0; failMs = js_sub (clk (n + 2)) t0 in
     case reply of
       Throws m \<Rightarrow> (OrderError requestMs m, n + 2)
     | Reply st body \<Rightarrow>
         if st = 429 then (OrderRateLimited requestMs, n + 2)
         else if \<not> res_ok st then (OrderError requestMs (''HTTP '' @ show_nat st), n + 2)
         else (case body of Inl m \<Rightarrow> (OrderError failMs m, n + 3)
           | Inr j \<Rightarrow> (case (present (oj_outAmount j), present (oj_inAmount j)) of
               (Some a, Some b) \<Rightarrow> (case bigint_of_string a of
                  None \<Rightarrow> (OrderError failMs (bigint_error a), n + 3)
                | Some x \<Rightarrow> (case bigint_of_string b of
                    None \<Rightarrow> (OrderError failMs (bigint_error b), n + 3)
                  | Some y \<Rightarrow> (OkOrder (decode_order date_text requestMs j x y), n + 2)))
             | _ \<Rightarrow> (OrderError requestMs ''missing outAmount/inAmount'', n + 2))))"

definition decode_execute :: "jsnum \<Rightarrow> executeJson \<Rightarrow> okExecute" where
  "decode_execute requestMs j = \<lparr>
     oe_swapStatus = (case ej_status j of Some s \<Rightarrow> s
       | None \<Rightarrow> if present (ej_error j) \<noteq> None then ''Failed'' else ''Success''),
     oe_signature = firstString [ej_signature j],
     oe_slot = map_option text_of (ej_slot j),
     oe_code = parseFiniteNumber (ej_code j),
     oe_inputAmountResult = parseOptionalBigInt (ej_inputAmountResult j),
     oe_outputAmountResult = parseOptionalBigInt
       (if ej_outputAmountResult j = None then ej_totalOutputAmount j else ej_outputAmountResult j),
     oe_error = firstString [ej_error j],
     oe_requestMs = requestMs, oe_raw = j \<rparr>"

definition client_execute :: "(nat \<Rightarrow> jsnum) \<Rightarrow> executeJson httpReply \<Rightarrow> nat \<Rightarrow> executeResult \<times> nat" where
  "client_execute clk reply n =
    (let t0 = clk n; requestMs = js_sub (clk (n + 1)) t0; failMs = js_sub (clk (n + 2)) t0 in
     case reply of
       Throws m \<Rightarrow> (ExecuteError requestMs m, n + 2)
     | Reply st body \<Rightarrow>
         if st = 429 then (ExecuteRateLimited requestMs, n + 2)
         else if \<not> res_ok st then (ExecuteError requestMs (''HTTP '' @ show_nat st), n + 2)
         else (case body of Inl m \<Rightarrow> (ExecuteError failMs m, n + 3)
           | Inr j \<Rightarrow> (OkExecute (decode_execute requestMs j), n + 2)))"

section \<open>Amounts survive the wire\<close>

lemma is_digit_char: "d < 10 \<Longrightarrow> is_digit (digit_char d)"
  by (simp add: is_digit_def of_digit_char)

lemma show_nat_digits: "c \<in> set (show_nat n) \<Longrightarrow> is_digit c"
proof (induction n rule: show_nat.induct)
  case (1 n)
  then show ?case by (subst (asm) (2) show_nat.simps) (auto simp add: is_digit_char split: if_splits)
qed

lemma show_nat_not_Nil [simp]: "show_nat n \<noteq> []" "[] \<noteq> show_nat n"
  by (subst show_nat.simps, simp)+

lemma digit_value: "is_digit c \<Longrightarrow> digit_val c = Some (of_char c - 48) \<and> of_char c - 48 < (10::nat)"
  by (auto simp add: is_digit_def digit_val_def Let_def)

lemma read_radix_digits: "\<forall>c \<in> set s. is_digit c \<Longrightarrow>
    read_radix_from 10 acc s = Some (fold (\<lambda>c acc. 10 * acc + (of_char c - 48)) s acc)"
proof (induction s arbitrary: acc)
  case (Cons c s)
  then have "digit_val c = Some (of_char c - 48)" "of_char c - 48 < (10::nat)" using digit_value [of c] by auto
  then show ?case using Cons by (simp add: mult.commute)
qed simp

lemma read_radix_show: "read_radix 10 (show_nat n) = Some n"
  using read_radix_digits [of "show_nat n" 0] show_nat_digits [of _ n] read_show_nat [of n]
  by (simp add: read_radix_def read_digits_def)

lemma digit_not_space: "is_digit c \<Longrightarrow> \<not> is_space c"
  by (auto simp add: is_digit_def is_space_def)

lemma dropWhile_none: "\<forall>c \<in> set s. \<not> p c \<Longrightarrow> dropWhile p s = s"
  by (cases s) simp_all

lemma trim_plain: "\<forall>c \<in> set s. \<not> is_space c \<Longrightarrow> trim s = s"
  by (simp add: trim_def dropWhile_none)

lemma minus_not_space: "\<not> is_space (CHR ''-'')"
  by (simp add: is_space_def)

lemma sign_chars: "\<not> is_digit (CHR ''-'')" "\<not> is_digit (CHR ''+'')" "\<not> is_digit (CHR ''x'')" "\<not> is_digit (CHR ''X'')"
  "\<not> is_digit (CHR ''o'')" "\<not> is_digit (CHR ''O'')" "\<not> is_digit (CHR ''b'')" "\<not> is_digit (CHR ''B'')"
  by (simp_all add: is_digit_def)

lemma not_prefixed: "\<forall>c \<in> set (tl t). is_digit c \<Longrightarrow> prefixed t = None"
proof (cases t)
  case (Cons c u)
  assume "\<forall>c \<in> set (tl t). is_digit c"
  then show ?thesis using Cons sign_chars by (cases u) (auto simp add: prefixed_def)
qed (simp add: prefixed_def)

lemma signed_digits: "is_digit c \<Longrightarrow> signed (c # u) = (False, c # u)"
  using sign_chars by (auto simp add: signed_def split: list.splits char.splits bool.splits)

lemma bigint_of_show_int: "bigint_of_string (show_int n) = Some n"
proof (cases "n < 0")
  case True
  let ?d = "show_nat (nat (- n))"
  have d: "\<forall>c \<in> set ?d. is_digit c" using show_nat_digits by blast
  have t: "trim (''-'' @ ?d) = CHR ''-'' # ?d"
    using d digit_not_space minus_not_space by (subst trim_plain) auto
  have "prefixed (CHR ''-'' # ?d) = None" using d by (intro not_prefixed) simp
  then show ?thesis using True t by (simp add: bigint_of_string_def show_int_def Let_def signed_def read_radix_show)
next
  case False
  let ?d = "show_nat (nat n)"
  have d: "\<forall>c \<in> set ?d. is_digit c" using show_nat_digits by blast
  obtain c u where cu: "?d = c # u" by (cases ?d) simp_all
  have t: "trim ?d = ?d" using d digit_not_space by (intro trim_plain) blast
  have p: "prefixed ?d = None" using d cu by (intro not_prefixed) simp
  have "signed ?d = (False, ?d)" using d cu signed_digits [of c u] by simp
  then show ?thesis using False t p by (simp add: bigint_of_string_def show_int_def Let_def read_radix_show)
qed

lemma show_int_present: "present (Some (show_int n)) = Some (show_int n)"
  by (simp add: present_def show_int_def)

text \<open>Every reply of the order endpoint becomes a value, no exception leaves the client, and amounts
  survive the wire at any size: a successful reply whose amounts are the decimal texts of two
  integers is an order with exactly these integers, while a reply with status 429 is a rate limit and
  any other status outside 200 to 299 an error that names it.\<close>

theorem order_reply_decoded:
  "(\<forall>j. res_ok st \<longrightarrow> oj_outAmount j = Some (show_int a) \<longrightarrow> oj_inAmount j = Some (show_int b) \<longrightarrow>
      (\<exists>x. fst (client_order clk date_text (Reply st (Inr j)) n) = OkOrder x \<and>
        oo_outAmount x = a \<and> oo_inAmount x = b \<and> oo_transaction x = present (oj_transaction j))) \<and>
   (\<not> res_ok st \<longrightarrow> (fst (client_order clk date_text (Reply st body) n) =
      (let ms = js_sub (clk (n + 1)) (clk n) in
       if st = 429 then OrderRateLimited ms else OrderError ms (''HTTP '' @ show_nat st))))"
proof (intro conjI allI impI)
  fix j :: orderJson assume "res_ok st" "oj_outAmount j = Some (show_int a)" "oj_inAmount j = Some (show_int b)"
  then show "\<exists>x. fst (client_order clk date_text (Reply st (Inr j)) n) = OkOrder x \<and>
      oo_outAmount x = a \<and> oo_inAmount x = b \<and> oo_transaction x = present (oj_transaction j)"
    by (auto simp add: client_order_def res_ok_def show_int_present bigint_of_show_int decode_order_def)
qed (simp add: client_order_def Let_def)

definition plain_order :: "string \<Rightarrow> orderJson" where
  "plain_order amount = \<lparr> oj_outAmount = Some amount, oj_inAmount = Some ''1000'', oj_transaction = None,
     oj_priceImpactPct = None, oj_priceImpact = None, oj_router = None, oj_quoteId = None, oj_requestId = None,
     oj_id = None, oj_lastValidBlockHeight = None, oj_mode = None, oj_expiresAt = None, oj_expireAt = None,
     oj_contextSlot = None \<rparr>"

theorem order_reply_decoded_witness:
  "\<exists>x. fst (client_order (\<lambda>_. Num 0) (\<lambda>_. None) (Reply 200 (Inr (plain_order (show_int 9007199254740993)))) 0) = OkOrder x \<and>
     oo_outAmount x = 9007199254740993"
proof -
  have in_text: "show_int 1000 = ''1000''" by code_simp
  have "\<forall>j. oj_outAmount j = Some (show_int 9007199254740993) \<longrightarrow> oj_inAmount j = Some ''1000'' \<longrightarrow>
      (\<exists>x. fst (client_order (\<lambda>_. Num 0) (\<lambda>_. None) (Reply 200 (Inr j)) 0) = OkOrder x \<and> oo_outAmount x = 9007199254740993)"
    using order_reply_decoded [of 200 9007199254740993 1000 "\<lambda>_. Num 0" "\<lambda>_. None" 0] by (auto simp add: res_ok_def in_text)
  from this [rule_format, of "plain_order (show_int 9007199254740993)"] show ?thesis by (simp add: plain_order_def)
qed

end
