(* ===== verification/TradeExecutor.thy ===== *)
theory TradeExecutor
  imports JupiterClient "HOL-Library.Word"
begin

text \<open>
  services/stat-arb-bot/src/trade-executor.ts with the rows of packages/db/src/executions.ts: one
  execution of a trade, from the order to the recorded row, in each of the live modes. The network,
  the signer and the transaction library (@solana/kit) are the fields of a host record: replies are
  functions of the number of the call, readings of Date.now() of the number of the reading. The table
  trade_executions is a list of rows, the id of a row is its position counted from 1, and an insert never
  fails. A promise that is rejected is an Inl result, a loop that never ends the value None.
\<close>

section \<open>Types\<close>

datatype tradeExecutionMode = Paper | JupiterDryRun | JupiterManaged | HeliusSender

datatype tradeExecutionStatus = StDryRun | StSubmitted | StSuccess | StFailed | StError | StSkipped

datatype resultStatus = Recorded tradeExecutionStatus | OnCooldown | SwitchedOff

record tradeExecutionResult =
  tr_mode :: tradeExecutionMode
  tr_status :: resultStatus
  tr_executionId :: "nat option"
  tr_expectedOutAmount :: "int option"
  tr_actualOutAmount :: "int option"
  tr_message :: "string option"

datatype tradeAction = OpenTrade | CloseTrade

record tradeExecutionInput =
  ta_action :: tradeAction
  ta_pair :: pairConfig
  ta_side :: pairDirection
  ta_sizeUsd :: jsnum
  ta_basePriceUsd :: jsnum
  ta_tokenPriceUsd :: jsnum
  ta_edgeBps :: jsnum
  ta_inputAmount :: int
  ta_signalId :: "nat option"
  ta_dedupeKey :: string

record executorConfig =
  ec_mode :: tradeExecutionMode
  ec_taker :: "string option"
  ec_signer :: "string option"
  ec_minIntervalMs :: jsnum
  ec_retainRaw :: bool
  ec_heliusRpcUrl :: "string option"
  ec_tipLamports :: jsnum
  ec_excludeRouters :: string
  ec_confirmationTimeoutMs :: jsnum

datatype sendError = SendErrorText string | SendErrorObject "string option"

record sendJson =
  sj_result :: "string option"
  sj_error :: "sendError option"

record signatureStatus =
  ss_err :: "string option"
  ss_confirmationStatus :: "string option"

datatype accountRole = WRITABLE_SIGNER | WRITABLE

record instruction =
  in_programAddress :: string
  in_accounts :: "(string \<times> accountRole) list"
  in_data :: "8 word list"

record 'm execHost =
  h_clk :: "nat \<Rightarrow> jsnum"
  h_dateText :: "string \<Rightarrow> jsnum option"
  h_order :: "nat \<Rightarrow> (string \<times> string) list \<Rightarrow> orderJson httpReply"
  h_execute :: "nat \<Rightarrow> (string \<times> string) list \<Rightarrow> executeJson httpReply"
  h_send :: "nat \<Rightarrow> string \<Rightarrow> sendJson httpReply"
  h_status :: "nat \<Rightarrow> string \<Rightarrow> (string, signatureStatus option) result"
  h_sign :: "string \<Rightarrow> (string, string) result"
  h_decompile :: "nat \<Rightarrow> string \<Rightarrow> int option \<Rightarrow> (string, 'm) result"
  h_compileSign :: "'m \<Rightarrow> instruction \<Rightarrow> (string, string) result"

datatype rawReply = RawExecute executeJson | RawSend sendJson

text \<open>A row of trade_executions (executions.ts).\<close>

record tradeExecutionInsert =
  ti_pairId :: string
  ti_signalId :: "nat option"
  ti_action :: tradeAction
  ti_side :: pairDirection
  ti_sizeUsd :: jsnum
  ti_mode :: tradeExecutionMode
  ti_status :: tradeExecutionStatus
  ti_edgeBps :: jsnum
  ti_basePriceUsd :: jsnum
  ti_tokenPriceUsd :: jsnum
  ti_inMint :: string
  ti_outMint :: string
  ti_inAmount :: int
  ti_expectedOutAmount :: "int option"
  ti_actualOutAmount :: "int option"
  ti_router :: "string option"
  ti_orderRequestId :: "string option"
  ti_orderQuoteId :: "string option"
  ti_signature :: "string option"
  ti_slot :: "string option"
  ti_errorCode :: "jsnum option"
  ti_errorMessage :: "string option"
  ti_orderRequestMs :: "jsnum option"
  ti_signMs :: "jsnum option"
  ti_senderPrepareMs :: "jsnum option"
  ti_executeRequestMs :: "jsnum option"
  ti_requestStartedAt :: jsnum
  ti_orderResponseAt :: "jsnum option"
  ti_executeResponseAt :: "jsnum option"
  ti_rawOrder :: "orderJson option"
  ti_rawExecute :: "rawReply option"

record tradeExecutor =
  te_lastAttemptAt :: "(string, jsnum) dict"
  te_nextTipIndex :: nat
  te_rows :: "tradeExecutionInsert list"
  te_reads :: nat
  te_calls :: nat

definition insertTradeExecution :: "tradeExecutionInsert \<Rightarrow> tradeExecutor \<Rightarrow> nat \<times> tradeExecutor" where
  "insertTradeExecution row s = (Suc (length (te_rows s)), s\<lparr> te_rows := te_rows s @ [row] \<rparr>)"

definition attachTradeExecutionSignal :: "nat \<Rightarrow> nat \<Rightarrow> tradeExecutor \<Rightarrow> tradeExecutor" where
  "attachTradeExecutionSignal executionId signalId s =
     (if 0 < executionId \<and> executionId \<le> length (te_rows s)
      then s\<lparr> te_rows := (te_rows s)[executionId - 1 := (te_rows s ! (executionId - 1))\<lparr> ti_signalId := Some signalId \<rparr>] \<rparr>
      else s)"

section \<open>Configuration and small helpers\<close>

definition TIP_ACCOUNTS :: "string list" where
  "TIP_ACCOUNTS = [''4ACfpUFoaSD9bfPdeu6DBt89gB6ENTeHBXCAi87NhDEE'', ''D2L6yPZ2FmmmTKPgzaMKdhu6EWZcTpLy1Vhx8uvZe7NZ'',
     ''9bnz4RShgq1hAnLnZbP8kbgBg1kEmcJBYQq3gQbmnSta'', ''5VY91ws6B2hMmBFRsXkoAAdsPHBJwRfBht4DXox3xkwn'',
     ''2nyhqdwKcJZR2vcqCyrYsaPVdAnFoJjiksCXJ7hfEYgD'', ''2q5pghRs6arqVjRvT5gfgWfWcHWmw1ZuCzphgd5KfWGJ'',
     ''wyvPkWjVZz1M8fHQnMMCDTQDbkManefNNhweYk5WkcF'', ''3KCKozbAaF75qEU33jtzozcJ29yJuaLJTy2jFdzUY8bT'',
     ''4vieeGHPYPG2MmyPRcYjdiDmmhN3ww7hsFNap8pVN3Ey'', ''4TQLFNWK8AovT1gFvda5jfw2oJeRMKEmw7aH6MGBJ3or'']"

definition SYSTEM_PROGRAM_ADDRESS :: string where
  "SYSTEM_PROGRAM_ADDRESS = replicate 32 (CHR ''1'')"

definition new_executor :: "executorConfig \<Rightarrow> (js_error, tradeExecutor) result" where
  "new_executor cfg =
     (if ec_mode cfg = HeliusSender \<and> present (ec_heliusRpcUrl cfg) = None
      then Inl (ErrorMsg ''helius-sender requires HELIUS_RPC_URL'')
      else Inr \<lparr> te_lastAttemptAt = [], te_nextTipIndex = 0, te_rows = [], te_reads = 0, te_calls = 0 \<rparr>)"

definition senderRpc :: "executorConfig \<Rightarrow> bool" where
  "senderRpc cfg \<longleftrightarrow> ec_mode cfg = HeliusSender \<and> present (ec_heliusRpcUrl cfg) \<noteq> None"

definition enabled :: "executorConfig \<Rightarrow> bool" where
  "enabled cfg \<longleftrightarrow> ec_mode cfg \<noteq> Paper"

definition mode_name :: "tradeExecutionMode \<Rightarrow> string" where
  "mode_name m = (case m of Paper \<Rightarrow> ''paper'' | JupiterDryRun \<Rightarrow> ''jupiter-dry-run''
     | JupiterManaged \<Rightarrow> ''jupiter-managed'' | HeliusSender \<Rightarrow> ''helius-sender'')"

definition requiredSigner :: "executorConfig \<Rightarrow> (js_error, string) result" where
  "requiredSigner cfg = (case ec_signer cfg of Some k \<Rightarrow> Inr k
     | None \<Rightarrow> Inl (ErrorMsg (mode_name (ec_mode cfg) @ '' requires a signer'')))"

definition disabled_result :: tradeExecutionResult where
  "disabled_result = \<lparr> tr_mode = Paper, tr_status = SwitchedOff, tr_executionId = None, tr_expectedOutAmount = None,
     tr_actualOutAmount = None, tr_message = None \<rparr>"

text \<open>A decimals field as the exponent of a power of ten (the schema makes it a whole number).\<close>

definition decimals_of :: "jsnum \<Rightarrow> nat" where
  "decimals_of x = (case x of Num q \<Rightarrow> nat \<lfloor>q\<rfloor> | _ \<Rightarrow> 0)"

definition outputTokenUnits :: "tradeExecutionResult \<Rightarrow> pairConfig \<Rightarrow> jsnum option" where
  "outputTokenUnits r pair =
     (case (case tr_actualOutAmount r of Some a \<Rightarrow> Some a | None \<Rightarrow> tr_expectedOutAmount r) of
        None \<Rightarrow> None | Some a \<Rightarrow> Some (atomicToUi a (decimals_of (pc_tokDecimals pair))))"

definition parseLastValidBlockHeight :: "string option \<Rightarrow> int option" where
  "parseLastValidBlockHeight v = (case present v of None \<Rightarrow> None | Some t \<Rightarrow> bigint_of_string t)"

text \<open>An unsigned integer in k bytes, least significant first.\<close>

fun le_bytes :: "nat \<Rightarrow> nat \<Rightarrow> 8 word list" where
  "le_bytes 0 n = []"
| "le_bytes (Suc k) n = of_nat n # le_bytes k (n div 256)"

fun of_le_bytes :: "8 word list \<Rightarrow> nat" where
  "of_le_bytes [] = 0"
| "of_le_bytes (b # bs) = unat b + 256 * of_le_bytes bs"

definition isSafeInteger :: "jsnum \<Rightarrow> bool" where
  "isSafeInteger x \<longleftrightarrow> is_integer x \<and> js_le (js_abs x) (Num (2 ^ 53 - 1))"

definition createSystemTransferInstruction :: "string \<Rightarrow> string \<Rightarrow> jsnum \<Rightarrow> (js_error, instruction) result" where
  "createSystemTransferInstruction source destination lamports =
     (if \<not> isSafeInteger lamports \<or> js_lt lamports (Num 0)
      then Inl (ErrorMsg (''invalid Helius sender tip lamports: '' @ show_num lamports))
      else and_then (to_bigint lamports) (\<lambda>n. Inr \<lparr> in_programAddress = SYSTEM_PROGRAM_ADDRESS,
        in_accounts = [(source, WRITABLE_SIGNER), (destination, WRITABLE)],
        in_data = le_bytes 4 2 @ le_bytes 8 (nat n) \<rparr>))"

definition nextTipAccount :: "tradeExecutor \<Rightarrow> string \<times> tradeExecutor" where
  "nextTipAccount s = (TIP_ACCOUNTS ! (te_nextTipIndex s mod length TIP_ACCOUNTS),
     s\<lparr> te_nextTipIndex := te_nextTipIndex s + 1 \<rparr>)"

text \<open>Date.now().\<close>

definition read_now :: "'m execHost \<Rightarrow> tradeExecutor \<Rightarrow> jsnum \<times> tradeExecutor" where
  "read_now h s = (h_clk h (te_reads s), s\<lparr> te_reads := Suc (te_reads s) \<rparr>)"

section \<open>Recording\<close>

record recordInput =
  ri_args :: tradeExecutionInput
  ri_inputMint :: string
  ri_outputMint :: string
  ri_requestStartedAt :: jsnum
  ri_orderResponseAt :: "jsnum option"
  ri_executeResponseAt :: "jsnum option"
  ri_status :: tradeExecutionStatus
  ri_order :: "orderResult option"
  ri_expectedOutAmount :: "int option"
  ri_actualOutAmount :: "int option"
  ri_signMs :: "jsnum option"
  ri_senderPrepareMs :: "jsnum option"
  ri_executeRequestMs :: "jsnum option"
  ri_signature :: "string option"
  ri_slot :: "string option"
  ri_errorCode :: "jsnum option"
  ri_errorMessage :: "string option"
  ri_rawExecute :: "rawReply option"

definition order_ms :: "orderResult \<Rightarrow> jsnum" where
  "order_ms r = (case r of OkOrder x \<Rightarrow> oo_requestMs x | OrderRateLimited ms \<Rightarrow> ms | OrderError ms m \<Rightarrow> ms)"

definition record_row :: "executorConfig \<Rightarrow> recordInput \<Rightarrow> tradeExecutor \<Rightarrow> nat \<times> tradeExecutor" where
  "record_row cfg r =
    (let order = (case ri_order r of Some (OkOrder x) \<Rightarrow> Some x | _ \<Rightarrow> None); a = ri_args r in
     insertTradeExecution \<lparr>
       ti_pairId = pc_id (ta_pair a), ti_signalId = ta_signalId a, ti_action = ta_action a, ti_side = ta_side a,
       ti_sizeUsd = ta_sizeUsd a, ti_mode = ec_mode cfg, ti_status = ri_status r, ti_edgeBps = ta_edgeBps a,
       ti_basePriceUsd = ta_basePriceUsd a, ti_tokenPriceUsd = ta_tokenPriceUsd a,
       ti_inMint = ri_inputMint r, ti_outMint = ri_outputMint r, ti_inAmount = ta_inputAmount a,
       ti_expectedOutAmount = (case ri_expectedOutAmount r of Some v \<Rightarrow> Some v | None \<Rightarrow> map_option oo_outAmount order),
       ti_actualOutAmount = ri_actualOutAmount r,
       ti_router = (case order of Some x \<Rightarrow> oo_router x | None \<Rightarrow> None),
       ti_orderRequestId = (case order of Some x \<Rightarrow> oo_requestId x | None \<Rightarrow> None),
       ti_orderQuoteId = (case order of Some x \<Rightarrow> oo_quoteId x | None \<Rightarrow> None),
       ti_signature = ri_signature r, ti_slot = ri_slot r, ti_errorCode = ri_errorCode r,
       ti_errorMessage = ri_errorMessage r,
       ti_orderRequestMs = map_option order_ms (ri_order r),
       ti_signMs = ri_signMs r, ti_senderPrepareMs = ri_senderPrepareMs r,
       ti_executeRequestMs = ri_executeRequestMs r,
       ti_requestStartedAt = ri_requestStartedAt r, ti_orderResponseAt = ri_orderResponseAt r,
       ti_executeResponseAt = ri_executeResponseAt r,
       ti_rawOrder = (if ec_retainRaw cfg then map_option oo_raw order else None),
       ti_rawExecute = (if ec_retainRaw cfg then ri_rawExecute r else None) \<rparr>)"

text \<open>What an execution knows once the order has been answered.\<close>

record orderContext =
  oc_args :: tradeExecutionInput
  oc_inputMint :: string
  oc_outputMint :: string
  oc_requestStartedAt :: jsnum
  oc_orderResponseAt :: jsnum
  oc_order :: orderResult

definition base_input :: "orderContext \<Rightarrow> tradeExecutionStatus \<Rightarrow> int option \<Rightarrow> string option \<Rightarrow> recordInput" where
  "base_input c status expected message = \<lparr>
     ri_args = oc_args c, ri_inputMint = oc_inputMint c, ri_outputMint = oc_outputMint c,
     ri_requestStartedAt = oc_requestStartedAt c, ri_orderResponseAt = Some (oc_orderResponseAt c),
     ri_executeResponseAt = None, ri_status = status, ri_order = Some (oc_order c),
     ri_expectedOutAmount = expected, ri_actualOutAmount = None, ri_signMs = None, ri_senderPrepareMs = None,
     ri_executeRequestMs = None, ri_signature = None, ri_slot = None, ri_errorCode = None,
     ri_errorMessage = message, ri_rawExecute = None \<rparr>"

definition finish :: "executorConfig \<Rightarrow> recordInput \<Rightarrow> int option \<Rightarrow> tradeExecutor \<Rightarrow> tradeExecutionResult \<times> tradeExecutor" where
  "finish cfg r expected s = (case record_row cfg r s of (executionId, s') \<Rightarrow>
     (\<lparr> tr_mode = ec_mode cfg, tr_status = Recorded (ri_status r), tr_executionId = Some executionId,
        tr_expectedOutAmount = expected, tr_actualOutAmount = ri_actualOutAmount r,
        tr_message = ri_errorMessage r \<rparr>, s'))"

definition recordTerminal :: "executorConfig \<Rightarrow> orderContext \<Rightarrow> tradeExecutionStatus \<Rightarrow> int option \<Rightarrow> string option \<Rightarrow>
    tradeExecutor \<Rightarrow> tradeExecutionResult \<times> tradeExecutor" where
  "recordTerminal cfg c status expected message = finish cfg (base_input c status expected message) expected"

section \<open>Confirmation\<close>

definition settled :: "signatureStatus option \<Rightarrow> (bool \<times> string option) option" where
  "settled st = (case st of None \<Rightarrow> None
     | Some x \<Rightarrow> if ss_err x \<noteq> None then Some (False, ss_err x)
         else if ss_confirmationStatus x = Some ''confirmed'' \<or> ss_confirmationStatus x = Some ''finalized''
           then Some (True, None)
         else None)"

text \<open>The polling loop, with the numbers of the next reading and the next call.\<close>

partial_function (option) wait_loop :: "'m execHost \<Rightarrow> jsnum \<Rightarrow> string \<Rightarrow> nat \<Rightarrow> nat \<Rightarrow>
    ((js_error, bool \<times> string option) result \<times> nat \<times> nat) option" where
  "wait_loop h deadline sig n m =
     (if js_lt (h_clk h n) deadline then
        (case h_status h m sig of
           Inl e \<Rightarrow> Some (Inl (ErrorMsg e), Suc n, Suc m)
         | Inr st \<Rightarrow> (case settled st of Some r \<Rightarrow> Some (Inr r, Suc n, Suc m)
             | None \<Rightarrow> wait_loop h deadline sig (Suc n) (Suc m)))
      else Some (Inr (False, Some ''confirmation timeout''), Suc n, m))"

definition waitForConfirmation :: "'m execHost \<Rightarrow> executorConfig \<Rightarrow> string \<Rightarrow> tradeExecutor \<Rightarrow>
    ((js_error, bool \<times> string option) result \<times> tradeExecutor) option" where
  "waitForConfirmation h cfg sig s =
     (if \<not> senderRpc cfg then Some (Inr (False, Some ''missing Helius RPC connection''), s)
      else (case read_now h s of (t, s1) \<Rightarrow>
        map_option (\<lambda>(r, n, m). (r, s1\<lparr> te_reads := n, te_calls := m \<rparr>))
          (wait_loop h (js_add t (ec_confirmationTimeoutMs cfg)) sig (te_reads s1) (te_calls s1))))"

section \<open>The two routes of a live trade\<close>

definition executeViaJupiter :: "'m execHost \<Rightarrow> executorConfig \<Rightarrow> orderContext \<Rightarrow> okOrder \<Rightarrow> tradeExecutor \<Rightarrow>
    tradeExecutionResult \<times> tradeExecutor" where
  "executeViaJupiter h cfg c x s =
    (case read_now h s of (t0, s1) \<Rightarrow>
     case h_sign h (the (oo_transaction x)) of
       Inl m \<Rightarrow> recordTerminal cfg c StError (Some (oo_outAmount x)) (Some m) s1
     | Inr signed_tx \<Rightarrow> (case read_now h s1 of (t1, s2) \<Rightarrow>
        (case client_execute (h_clk h) (h_execute h (te_calls s2)
             (execute_body signed_tx (the (oo_requestId x)) (oo_lastValidBlockHeight x))) (te_reads s2) of (ex, n) \<Rightarrow>
         (case read_now h (s2\<lparr> te_reads := n, te_calls := Suc (te_calls s2) \<rparr>) of (respAt, s3) \<Rightarrow>
          let status = (case ex of OkExecute e \<Rightarrow> if oe_swapStatus e = ''Success'' then StSuccess else StFailed
                | ExecuteRateLimited ms \<Rightarrow> StSkipped | ExecuteError ms m \<Rightarrow> StError);
              actual = (case ex of OkExecute e \<Rightarrow> oe_outputAmountResult e | _ \<Rightarrow> None);
              message = (case ex of OkExecute e \<Rightarrow> oe_error e
                | ExecuteRateLimited ms \<Rightarrow> Some ''Jupiter execute was rate-limited'' | ExecuteError ms m \<Rightarrow> Some m)
          in finish cfg ((base_input c status (Some (oo_outAmount x)) message)\<lparr>
               ri_executeResponseAt := Some respAt, ri_actualOutAmount := actual,
               ri_signMs := Some (js_sub t1 t0),
               ri_executeRequestMs := Some (case ex of OkExecute e \<Rightarrow> oe_requestMs e | ExecuteRateLimited ms \<Rightarrow> ms | ExecuteError ms m \<Rightarrow> ms),
               ri_signature := (case ex of OkExecute e \<Rightarrow> oe_signature e | _ \<Rightarrow> None),
               ri_slot := (case ex of OkExecute e \<Rightarrow> oe_slot e | _ \<Rightarrow> None),
               ri_errorCode := (case ex of OkExecute e \<Rightarrow> oe_code e | _ \<Rightarrow> None),
               ri_rawExecute := (case ex of OkExecute e \<Rightarrow> Some (RawExecute (oe_raw e)) | _ \<Rightarrow> None) \<rparr>)
             (Some (oo_outAmount x)) s3))))"

record preparedTx =
  pt_signedTransaction :: string
  pt_prepareMs :: jsnum
  pt_signMs :: jsnum

definition js_error_message :: "js_error \<Rightarrow> string" where
  "js_error_message e = (case e of ErrorMsg m \<Rightarrow> m | RangeError \<Rightarrow> ''RangeError'' | TypeError \<Rightarrow> ''TypeError'')"

definition prepareSenderTransaction :: "'m execHost \<Rightarrow> executorConfig \<Rightarrow> string \<Rightarrow> string \<Rightarrow> string option \<Rightarrow> tradeExecutor \<Rightarrow>
    (string, preparedTx) result \<times> tradeExecutor" where
  "prepareSenderTransaction h cfg tx signer lastValidBlockHeight s =
    (if \<not> senderRpc cfg then
       (Inl ''helius-sender requires HELIUS_RPC_URL for lookup tables and confirmation'', s)
     else (case read_now h s of (t0, s1) \<Rightarrow>
       (case h_decompile h (te_calls s1) tx (parseLastValidBlockHeight lastValidBlockHeight) of
          Inl m \<Rightarrow> (Inl m, s1\<lparr> te_calls := Suc (te_calls s1) \<rparr>)
        | Inr decompiled \<Rightarrow> (case nextTipAccount (s1\<lparr> te_calls := Suc (te_calls s1) \<rparr>) of (tip, s2) \<Rightarrow>
            (case createSystemTransferInstruction signer tip (ec_tipLamports cfg) of
               Inl e \<Rightarrow> (Inl (js_error_message e), s2)
             | Inr ins \<Rightarrow> (case read_now h s2 of (signStart, s3) \<Rightarrow>
                 (case h_compileSign h decompiled ins of
                    Inl m \<Rightarrow> (Inl m, s3)
                  | Inr signed_tx \<Rightarrow> (case read_now h s3 of (t1, s4) \<Rightarrow>
                      (Inr \<lparr> pt_signedTransaction = signed_tx, pt_prepareMs = js_sub signStart t0,
                         pt_signMs = js_sub t1 signStart \<rparr>, s4)))))))))"

record sentTx =
  st_ok :: bool
  st_signature :: "string option"
  st_requestMs :: jsnum
  st_message :: "string option"
  st_raw :: "sendJson option"

definition send_error :: "sendJson \<Rightarrow> bool" where
  "send_error j \<longleftrightarrow> (case sj_error j of None \<Rightarrow> False | Some (SendErrorText t) \<Rightarrow> t \<noteq> [] | Some (SendErrorObject m) \<Rightarrow> True)"

text \<open>The clock is read at the start, for the id of the request, for the duration, and once more when
  decoding the body throws.\<close>

definition sendWithSender :: "'m execHost \<Rightarrow> string \<Rightarrow> tradeExecutor \<Rightarrow> sentTx \<times> tradeExecutor" where
  "sendWithSender h signed_tx s =
    (let n = te_reads s; t0 = h_clk h n; requestMs = js_sub (h_clk h (n + 2)) t0;
         s3 = s\<lparr> te_reads := n + 3, te_calls := Suc (te_calls s) \<rparr>;
         failed = (\<lambda>ms m j. \<lparr> st_ok = False, st_signature = None, st_requestMs = ms, st_message = Some m, st_raw = j \<rparr>)
     in case h_send h (te_calls s) signed_tx of
          Throws m \<Rightarrow> (failed requestMs m None, s3)
        | Reply st body \<Rightarrow> (case body of
            Inl m \<Rightarrow> (failed (js_sub (h_clk h (n + 3)) t0) m None, s3\<lparr> te_reads := n + 4 \<rparr>)
          | Inr j \<Rightarrow>
              if \<not> res_ok st \<or> send_error j then
                (failed requestMs (case sj_error j of Some (SendErrorText t) \<Rightarrow> t
                   | Some (SendErrorObject (Some m)) \<Rightarrow> m | _ \<Rightarrow> ''HTTP '' @ show_nat st) (Some j), s3)
              else (\<lparr> st_ok = True, st_signature = sj_result j, st_requestMs = requestMs, st_message = None,
                st_raw = Some j \<rparr>, s3)))"

definition executeViaHeliusSender :: "'m execHost \<Rightarrow> executorConfig \<Rightarrow> orderContext \<Rightarrow> okOrder \<Rightarrow> string \<Rightarrow> tradeExecutor \<Rightarrow>
    ((js_error, tradeExecutionResult) result \<times> tradeExecutor) option" where
  "executeViaHeliusSender h cfg c x signer s =
    (case prepareSenderTransaction h cfg (the (oo_transaction x)) signer (oo_lastValidBlockHeight x) s of
       (Inl m, s1) \<Rightarrow> (case recordTerminal cfg c StError (Some (oo_outAmount x)) (Some m) s1 of (r, s2) \<Rightarrow> Some (Inr r, s2))
     | (Inr p, s1) \<Rightarrow> (case sendWithSender h (pt_signedTransaction p) s1 of (sent, s2) \<Rightarrow>
         (case read_now h s2 of (respAt, s3) \<Rightarrow>
           Option.bind
             (case present (st_signature sent) of
                Some sig \<Rightarrow> if senderRpc cfg \<and> js_gt (ec_confirmationTimeoutMs cfg) (Num 0)
                  then map_option (\<lambda>(r, s'). (and_then r (\<lambda>v. Inr (Some v)), s')) (waitForConfirmation h cfg sig s3)
                  else Some (Inr None, s3)
              | None \<Rightarrow> Some (Inr None, s3))
             (\<lambda>(w, s4). case w of
                Inl e \<Rightarrow> Some (Inl e, s4)
              | Inr confirmed \<Rightarrow>
                 let status = (if st_ok sent then (case confirmed of Some (True, _) \<Rightarrow> StSuccess | _ \<Rightarrow> StSubmitted) else StError);
                     message = (case st_message sent of Some m \<Rightarrow> Some m
                       | None \<Rightarrow> (case confirmed of Some (_, m) \<Rightarrow> m | None \<Rightarrow> None))
                 in (case finish cfg ((base_input c status (Some (oo_outAmount x)) message)\<lparr>
                       ri_executeResponseAt := Some respAt, ri_signMs := Some (pt_signMs p),
                       ri_senderPrepareMs := Some (pt_prepareMs p), ri_executeRequestMs := Some (st_requestMs sent),
                       ri_signature := st_signature sent,
                       ri_rawExecute := map_option RawSend (st_raw sent) \<rparr>) (Some (oo_outAmount x)) s4 of
                     (r, s5) \<Rightarrow> Some (Inr r, s5))))))"

section \<open>One execution\<close>

definition cooldown_result :: "tradeExecutionMode \<Rightarrow> tradeExecutionResult" where
  "cooldown_result m = \<lparr> tr_mode = m, tr_status = OnCooldown, tr_executionId = None, tr_expectedOutAmount = None,
     tr_actualOutAmount = None, tr_message = Some ''execution cooldown active'' \<rparr>"

definition in_mint :: "tradeExecutionInput \<Rightarrow> string" where
  "in_mint a = (if ta_side a = BuyTokenized then pc_quoteMint (ta_pair a) else pc_tokMint (ta_pair a))"

definition out_mint :: "tradeExecutionInput \<Rightarrow> string" where
  "out_mint a = (if ta_side a = BuyTokenized then pc_tokMint (ta_pair a) else pc_quoteMint (ta_pair a))"

text \<open>After the order: the terminal outcomes, then the route of the mode.\<close>

definition after_order :: "'m execHost \<Rightarrow> executorConfig \<Rightarrow> orderContext \<Rightarrow> tradeExecutor \<Rightarrow>
    ((js_error, tradeExecutionResult) result \<times> tradeExecutor) option" where
  "after_order h cfg c s =
    (let terminal = (\<lambda>status expected message. case recordTerminal cfg c status expected message s of (r, s') \<Rightarrow> Some (Inr r, s'))
     in case oc_order c of
          OrderRateLimited ms \<Rightarrow> terminal StSkipped None (Some ''Jupiter execution order was rate-limited'')
        | OrderError ms m \<Rightarrow> terminal StError None (Some m)
        | OkOrder x \<Rightarrow>
            if oo_transaction x = None \<or> oo_requestId x = None
            then terminal StError (Some (oo_outAmount x)) (Some ''Jupiter order did not return transaction/requestId'')
            else if ec_mode cfg = JupiterDryRun then terminal StDryRun (Some (oo_outAmount x)) None
            else (case requiredSigner cfg of
                Inl e \<Rightarrow> Some (Inl e, s)
              | Inr signer \<Rightarrow>
                  if ec_mode cfg = JupiterManaged
                  then (case executeViaJupiter h cfg c x s of (r, s') \<Rightarrow> Some (Inr r, s'))
                  else executeViaHeliusSender h cfg c x signer s))"

definition order_request :: "executorConfig \<Rightarrow> tradeExecutionInput \<Rightarrow> orderRequest" where
  "order_request cfg a = \<lparr> rq_inputMint = in_mint a, rq_outputMint = out_mint a, rq_amount = ta_inputAmount a,
     rq_slippageBps = Some (pc_slippageBps (ta_pair a)), rq_taker = ec_taker cfg,
     rq_excludeRouters = (if ec_mode cfg = HeliusSender then present (Some (ec_excludeRouters cfg)) else None) \<rparr>"

definition execute :: "'m execHost \<Rightarrow> executorConfig \<Rightarrow> tradeExecutionInput \<Rightarrow> tradeExecutor \<Rightarrow>
    ((js_error, tradeExecutionResult) result \<times> tradeExecutor) option" where
  "execute h cfg a s =
    (if \<not> enabled cfg then Some (Inr disabled_result, s)
     else (case read_now h s of (t, s1) \<Rightarrow>
       let last_at = (case dict_get (te_lastAttemptAt s1) (ta_dedupeKey a) of Some v \<Rightarrow> v | None \<Rightarrow> Num 0) in
       if js_lt (js_sub t last_at) (ec_minIntervalMs cfg) then Some (Inr (cooldown_result (ec_mode cfg)), s1)
       else let s2 = s1\<lparr> te_lastAttemptAt := dict_set (te_lastAttemptAt s1) (ta_dedupeKey a) t \<rparr> in
         (case client_order (h_clk h) (h_dateText h) (h_order h (te_calls s2) (order_params (order_request cfg a)))
            (te_reads s2) of (order, n) \<Rightarrow>
          (case read_now h (s2\<lparr> te_reads := n, te_calls := Suc (te_calls s2) \<rparr>) of (respAt, s3) \<Rightarrow>
             after_order h cfg \<lparr> oc_args = a, oc_inputMint = in_mint a, oc_outputMint = out_mint a,
               oc_requestStartedAt = t, oc_orderResponseAt = respAt, oc_order = order \<rparr> s3))))"

section \<open>The tip transfer\<close>

lemma length_le_bytes [simp]: "length (le_bytes k n) = k"
  by (induction k arbitrary: n) simp_all

lemma of_le_bytes_le_bytes: "n < 256 ^ k \<Longrightarrow> of_le_bytes (le_bytes k n) = n"
proof (induction k arbitrary: n)
  case (Suc k)
  then have "n div 256 < 256 ^ k" by (simp add: less_mult_imp_div_less mult.commute)
  moreover have "unat (of_nat n :: 8 word) = n mod 256" by (simp add: unat_of_nat take_bit_eq_mod)
  ultimately show ?case using Suc.IH by simp
qed simp

text \<open>The transfer appended for the Sender is the system program's transfer: four bytes of its number
  2, then the lamports in eight bytes, least significant first, so that reading the bytes back gives
  exactly the configured tip, from the wallet (writable, signing) to the tip account; it is built for
  every safe non-negative integer and for nothing else.\<close>

theorem tip_transfer_decodes:
  "(case createSystemTransferInstruction source destination lamports of
      Inr ins \<Rightarrow> \<exists>n. lamports = Num (of_nat n) \<and> n \<le> 2 ^ 53 - 1 \<and> length (in_data ins) = 12 \<and>
        of_le_bytes (take 4 (in_data ins)) = 2 \<and> of_le_bytes (drop 4 (in_data ins)) = n \<and>
        in_accounts ins = [(source, WRITABLE_SIGNER), (destination, WRITABLE)]
    | Inl e \<Rightarrow> \<not> (\<exists>n. lamports = Num (of_nat n) \<and> n \<le> 2 ^ 53 - 1))"
proof (cases "isSafeInteger lamports \<and> \<not> js_lt lamports (Num 0)")
  case True
  obtain q where q: "lamports = Num q" "q = of_int \<lfloor>q\<rfloor>" "\<bar>q\<bar> \<le> 2 ^ 53 - 1" "0 \<le> q"
    using True by (cases lamports) (auto simp add: isSafeInteger_def is_integer_def)
  define n where "n = nat \<lfloor>q\<rfloor>"
  have n: "lamports = Num (of_nat n)" "to_bigint lamports = Inr (int n)"
    using q(1,2,4) by (simp_all add: n_def to_bigint_def)
  have "(of_nat n :: rat) \<le> 2 ^ 53 - 1" using q n(1) by simp
  then have "(of_nat n :: rat) \<le> of_nat (2 ^ 53 - 1)" by simp
  then have le: "n \<le> 2 ^ 53 - 1" by (simp only: of_nat_le_iff)
  have "n < 256 ^ 8" using le by simp
  then have b: "of_le_bytes (le_bytes 8 n) = n" by (rule of_le_bytes_le_bytes)
  have c: "of_le_bytes (le_bytes 4 2) = 2" by (rule of_le_bytes_le_bytes) simp
  have "createSystemTransferInstruction source destination lamports = Inr \<lparr> in_programAddress = SYSTEM_PROGRAM_ADDRESS,
      in_accounts = [(source, WRITABLE_SIGNER), (destination, WRITABLE)], in_data = le_bytes 4 2 @ le_bytes 8 n \<rparr>"
    using True n(2) by (simp add: createSystemTransferInstruction_def)
  then show ?thesis using b c n(1) le by simp
next
  case False
  have "isSafeInteger (Num (of_nat n)) \<and> \<not> js_lt (Num (of_nat n)) (Num 0)" if "n \<le> 2 ^ 53 - 1" for n
  proof -
    have "(of_nat n :: rat) \<le> of_nat (2 ^ 53 - 1)" using that by (simp only: of_nat_le_iff)
    then show ?thesis by (simp add: isSafeInteger_def is_integer_def)
  qed
  then show ?thesis using False by (auto simp add: createSystemTransferInstruction_def)
qed

section \<open>Waiting for the confirmation ends\<close>

text \<open>Readings from the n-th one that advance by at least the pause of the loop.\<close>

lemma wait_loop_ends:
  assumes c: "\<And>i. i \<le> k \<Longrightarrow> h_clk h (n + i) = Num (of_int (f i))" and late: "d \<le> f k"
  shows "\<exists>r n' m'. wait_loop h (Num (of_int d)) sig n m = Some (r, n', m') \<and> m' \<le> m + k"
  using c late
proof (induction k arbitrary: n m f)
  case 0
  then have "\<not> js_lt (h_clk h n) (Num (of_int d))" using 0(1) [of 0] by simp
  then show ?case by (subst wait_loop.simps) simp
next
  case (Suc k)
  have "\<And>i. i \<le> k \<Longrightarrow> h_clk h (Suc n + i) = Num (of_int (f (Suc i)))" using Suc.prems(1) [of "Suc _"] by simp
  from Suc.IH [OF this Suc.prems(2), of "Suc m"]
  obtain r n' m' where IH: "wait_loop h (Num (of_int d)) sig (Suc n) (Suc m) = Some (r, n', m')" "m' \<le> Suc m + k" by blast
  show ?case using IH by (subst wait_loop.simps) (auto split: sum.splits option.splits)
qed

text \<open>C26: Waiting for a confirmation always ends: if the clock advances by at least the 250 ms the loop
  sleeps between two of its readings, the wait returns (or rejects with the error of a poll) after at
  most one poll for each started 250 ms of the timeout and one more, whatever the polls answer.\<close>

theorem confirmation_wait_ends:
  assumes "senderRpc cfg" and "ec_confirmationTimeoutMs cfg = Num (of_int w)" and "0 \<le> w" and "w \<le> 2 ^ 50"
    and "\<forall>i. h_clk h (te_reads s + i) = Num (of_int (f i))" and "0 \<le> f 0" and "f 0 \<le> 2 ^ 50"
    and "\<forall>i. f 0 + 250 * int i \<le> f (Suc i)"
  shows "\<exists>r s'. waitForConfirmation h cfg sig s = Some (r, s') \<and> te_calls s' \<le> te_calls s + nat (w div 250) + 1"
proof -
  let ?k = "Suc (nat (w div 250))"
  have "\<bar>f 0 + w\<bar> \<le> 2 ^ 53" using assms(3,4,6,7) by simp
  then have d: "js_add (Num (of_int (f 0))) (Num (of_int w)) = Num (of_int (f 0 + w))"
    using fl_of_int [of "f 0 + w"] by simp
  have "w = 250 * (w div 250) + w mod 250" "w mod 250 < 250" by simp_all
  then have "w \<le> 250 * (w div 250) + 250" by linarith
  then have "w \<le> 250 * int ?k" using assms(3) by simp
  then have late: "f 0 + w \<le> f (Suc ?k)" using assms(8) [rule_format, of ?k] by linarith
  have "\<And>i. h_clk h (Suc (te_reads s) + i) = Num (of_int (f (Suc i)))"
    using assms(5) by (metis add_Suc add_Suc_right)
  from wait_loop_ends [of ?k h "Suc (te_reads s)" "\<lambda>i. f (Suc i)" "f 0 + w" sig "te_calls s", OF this late]
  obtain r n' m' where "wait_loop h (Num (of_int (f 0 + w))) sig (Suc (te_reads s)) (te_calls s) = Some (r, n', m')"
    "m' \<le> te_calls s + ?k" by blast
  moreover have "h_clk h (te_reads s) = Num (of_int (f 0))" using assms(5) by (metis add.right_neutral)
  ultimately show ?thesis using assms(1,2) d by (simp add: waitForConfirmation_def read_now_def)
qed

section \<open>Every completed execution is recorded once\<close>

definition logged :: "executorConfig \<Rightarrow> tradeExecutionInput \<Rightarrow> tradeExecutionResult \<Rightarrow>
    tradeExecutionInsert list \<Rightarrow> tradeExecutionInsert list \<Rightarrow> bool" where
  "logged cfg a res rows rows' \<longleftrightarrow> (\<exists>row. rows' = rows @ [row] \<and> tr_status res = Recorded (ti_status row) \<and>
     tr_executionId res = Some (length rows') \<and> ti_pairId row = pc_id (ta_pair a) \<and> ti_action row = ta_action a \<and>
     ti_side row = ta_side a \<and> ti_inMint row = in_mint a \<and> ti_outMint row = out_mint a \<and>
     ti_inAmount row = ta_inputAmount a \<and> ti_signalId row = ta_signalId a \<and> ti_mode row = ec_mode cfg \<and>
     tr_mode res = ec_mode cfg)"

lemma finish_logged:
  assumes "finish cfg r expected s = (res, s')" and "ri_args r = a" "ri_inputMint r = in_mint a" "ri_outputMint r = out_mint a"
  shows "logged cfg a res (te_rows s) (te_rows s')" "tr_status res = Recorded (ri_status r)"
  using assms by (auto simp add: finish_def record_row_def insertTradeExecution_def logged_def Let_def split: prod.splits)

lemma finish_attempts: "finish cfg r expected s = (res, s') \<Longrightarrow> te_lastAttemptAt s' = te_lastAttemptAt s"
  by (auto simp add: finish_def record_row_def insertTradeExecution_def Let_def split: prod.splits)

definition context_of :: "orderContext \<Rightarrow> tradeExecutionInput \<Rightarrow> bool" where
  "context_of c a \<longleftrightarrow> oc_args c = a \<and> oc_inputMint c = in_mint a \<and> oc_outputMint c = out_mint a"

lemma base_input_fields [simp]:
  "ri_args (base_input c st e m) = oc_args c" "ri_inputMint (base_input c st e m) = oc_inputMint c"
  "ri_outputMint (base_input c st e m) = oc_outputMint c" "ri_status (base_input c st e m) = st"
  by (simp_all add: base_input_def)

lemma terminal_logged: "recordTerminal cfg c st e m s = (res, s') \<Longrightarrow> context_of c a \<Longrightarrow>
    logged cfg a res (te_rows s) (te_rows s') \<and> tr_status res = Recorded st \<and> te_lastAttemptAt s' = te_lastAttemptAt s"
  unfolding recordTerminal_def context_of_def
  using finish_logged [of cfg "base_input c st e m" e s res s' a] finish_attempts by simp

lemma read_now_state [simp]: "fst (read_now h s) = h_clk h (te_reads s)" "te_rows (snd (read_now h s)) = te_rows s"
  "te_lastAttemptAt (snd (read_now h s)) = te_lastAttemptAt s" "te_reads (snd (read_now h s)) = Suc (te_reads s)"
  "te_calls (snd (read_now h s)) = te_calls s"
  by (simp_all add: read_now_def)

lemma prepare_rows: "prepareSenderTransaction h cfg tx signer lv s = (r, s') \<Longrightarrow>
    te_rows s' = te_rows s \<and> te_lastAttemptAt s' = te_lastAttemptAt s"
  by (auto simp add: prepareSenderTransaction_def nextTipAccount_def read_now_def split: if_splits sum.splits prod.splits)

lemma send_rows: "sendWithSender h tx s = (r, s') \<Longrightarrow> te_rows s' = te_rows s \<and> te_lastAttemptAt s' = te_lastAttemptAt s"
  by (auto simp add: sendWithSender_def Let_def split: if_splits sum.splits prod.splits httpReply.splits)

lemma wait_rows: "waitForConfirmation h cfg sig s = Some (r, s') \<Longrightarrow>
    te_rows s' = te_rows s \<and> te_lastAttemptAt s' = te_lastAttemptAt s"
  by (auto simp add: waitForConfirmation_def split: if_splits prod.splits)
    (metis read_now_state(2,3) snd_conv)+

lemma jupiter_logged:
  assumes "executeViaJupiter h cfg c x s = (res, s')" "context_of c a"
  shows "logged cfg a res (te_rows s) (te_rows s') \<and> te_lastAttemptAt s' = te_lastAttemptAt s"
proof (cases "h_sign h (the (oo_transaction x))")
  case (Inl m)
  then show ?thesis using assms(1)
    by (auto simp add: executeViaJupiter_def read_now_def split: prod.splits dest!: terminal_logged [OF _ assms(2)])
next
  case (Inr tx)
  let ?s2 = "s\<lparr> te_reads := Suc (Suc (te_reads s)) \<rparr>"
  obtain ex n where e: "client_execute (h_clk h) (h_execute h (te_calls s)
      (execute_body tx (the (oo_requestId x)) (oo_lastValidBlockHeight x))) (Suc (Suc (te_reads s))) = (ex, n)" by fastforce
  obtain r s3 where f: "finish cfg r (Some (oo_outAmount x)) s3 = (res, s')" "te_rows s3 = te_rows s"
    "te_lastAttemptAt s3 = te_lastAttemptAt s" "ri_args r = oc_args c" "ri_inputMint r = oc_inputMint c" "ri_outputMint r = oc_outputMint c"
    using assms(1) Inr e by (simp add: executeViaJupiter_def read_now_def Let_def)
  show ?thesis using finish_logged(1) [OF f(1), of a] finish_attempts [OF f(1)] f(2-) assms(2) by (simp add: context_of_def)
qed


lemma sender_logged:
  assumes "executeViaHeliusSender h cfg c x signer s = Some (r, s')" "context_of c a"
  shows "(case r of Inr res \<Rightarrow> logged cfg a res (te_rows s) (te_rows s') | Inl e \<Rightarrow> te_rows s' = te_rows s) \<and>
    te_lastAttemptAt s' = te_lastAttemptAt s"
proof -
  obtain p s1 where p: "prepareSenderTransaction h cfg (the (oo_transaction x)) signer (oo_lastValidBlockHeight x) s = (p, s1)"
    by fastforce
  note p1 = prepare_rows [OF p]
  show ?thesis
  proof (cases p)
    case (Inl m)
    then show ?thesis using assms(1) p p1
      by (auto simp add: executeViaHeliusSender_def split: prod.splits dest!: terminal_logged [OF _ assms(2)])
  next
    case (Inr t)
    obtain sent s2 where q: "sendWithSender h (pt_signedTransaction t) s1 = (sent, s2)" by fastforce
    note q1 = send_rows [OF q]
    let ?s3 = "s2\<lparr> te_reads := Suc (te_reads s2) \<rparr>"
    let ?w = "case present (st_signature sent) of
        Some sig \<Rightarrow> if senderRpc cfg \<and> js_gt (ec_confirmationTimeoutMs cfg) (Num 0)
          then map_option (\<lambda>(r, s'). (and_then r (\<lambda>v. Inr (Some v)), s')) (waitForConfirmation h cfg sig ?s3)
          else Some (Inr None, ?s3)
      | None \<Rightarrow> Some (Inr None, ?s3)"
    obtain w s4 where w: "?w = Some (w, s4)"
      using assms(1) p q Inr by (auto simp add: executeViaHeliusSender_def read_now_def bind_eq_Some_conv)
    have w1: "te_rows s4 = te_rows s2 \<and> te_lastAttemptAt s4 = te_lastAttemptAt s2"
      using w by (auto split: option.splits if_splits dest: wait_rows)
    show ?thesis
    proof (cases w)
      case (Inl e)
      then show ?thesis using assms(1) p q w w1 q1 p1 \<open>p = Inr t\<close>
        by (auto simp add: executeViaHeliusSender_def read_now_def)
    next
      case (Inr confirmed)
      obtain ri res where f: "finish cfg ri (Some (oo_outAmount x)) s4 = (res, s')" "r = Inr res"
        "ri_args ri = oc_args c" "ri_inputMint ri = oc_inputMint c" "ri_outputMint ri = oc_outputMint c"
        using assms(1) p q w Inr \<open>p = Inr t\<close>
        by (auto simp add: executeViaHeliusSender_def read_now_def Let_def split: prod.splits)
      show ?thesis using finish_logged(1) [OF f(1), of a] finish_attempts [OF f(1)] f(2-) assms(2) w1 q1 p1
        by (simp add: context_of_def)
    qed
  qed
qed

lemma after_order_logged:
  assumes "after_order h cfg c s = Some (r, s')" "context_of c a"
  shows "(case r of Inr res \<Rightarrow> logged cfg a res (te_rows s) (te_rows s') | Inl e \<Rightarrow> te_rows s' = te_rows s) \<and>
    te_lastAttemptAt s' = te_lastAttemptAt s"
  using assms(1)
  by (auto simp add: after_order_def Let_def split: orderResult.splits if_splits sum.splits prod.splits
      dest!: terminal_logged [OF _ assms(2)] jupiter_logged [OF _ assms(2)] sender_logged [OF _ assms(2)])

text \<open>The attempt of an execution past its cooldown.\<close>

lemma execute_attempt:
  assumes "execute h cfg a s = Some (r, s')" "enabled cfg"
  shows "(r = Inr (cooldown_result (ec_mode cfg)) \<and> s' = s\<lparr> te_reads := Suc (te_reads s) \<rparr>) \<or>
    (\<exists>c s2. after_order h cfg c s2 = Some (r, s') \<and> context_of c a \<and> te_rows s2 = te_rows s \<and>
      te_lastAttemptAt s2 = dict_set (te_lastAttemptAt s) (ta_dedupeKey a) (h_clk h (te_reads s)))"
proof -
  obtain order n where o: "client_order (h_clk h) (h_dateText h) (h_order h (te_calls s) (order_params (order_request cfg a)))
      (Suc (te_reads s)) = (order, n)" by fastforce
  let ?c = "\<lparr> oc_args = a, oc_inputMint = in_mint a, oc_outputMint = out_mint a, oc_requestStartedAt = h_clk h (te_reads s),
      oc_orderResponseAt = h_clk h n, oc_order = order \<rparr>"
  let ?s2 = "s\<lparr> te_lastAttemptAt := dict_set (te_lastAttemptAt s) (ta_dedupeKey a) (h_clk h (te_reads s)),
      te_calls := Suc (te_calls s), te_reads := Suc n \<rparr>"
  have c: "context_of ?c a" by (simp add: context_of_def)
  have "(r = Inr (cooldown_result (ec_mode cfg)) \<and> s' = s\<lparr> te_reads := Suc (te_reads s) \<rparr>) \<or>
      after_order h cfg ?c ?s2 = Some (r, s')"
    using assms o by (auto simp add: execute_def read_now_def Let_def split: if_splits)
  then show ?thesis using c by (elim disjE) (blast, rule disjI2, rule exI [of _ ?c], rule exI [of _ ?s2], simp)
qed

lemma execute_logged:
  assumes "execute h cfg a s = Some (r, s')"
  shows "(case r of
     Inr res \<Rightarrow> (case tr_status res of Recorded st \<Rightarrow> logged cfg a res (te_rows s) (te_rows s')
        | _ \<Rightarrow> te_rows s' = te_rows s \<and> tr_executionId res = None)
   | Inl e \<Rightarrow> te_rows s' = te_rows s)"
proof (cases "enabled cfg")
  case False
  then show ?thesis using assms by (auto simp add: execute_def disabled_result_def)
next
  case True
  from execute_attempt [OF assms True] show ?thesis
  proof
    assume "\<exists>c s2. after_order h cfg c s2 = Some (r, s') \<and> context_of c a \<and> te_rows s2 = te_rows s \<and>
      te_lastAttemptAt s2 = dict_set (te_lastAttemptAt s) (ta_dedupeKey a) (h_clk h (te_reads s))"
    then obtain c s2 where "after_order h cfg c s2 = Some (r, s')" "context_of c a" "te_rows s2 = te_rows s" by blast
    from after_order_logged [OF this(1,2)] this(3) show ?thesis by (auto simp add: logged_def split: sum.splits)
  qed (simp add: cooldown_result_def)
qed

text \<open>C22: Every execution leaves exactly the trace it should in trade_executions: a result that was recorded
  comes with one new row, whose status and id the result carries and whose pair, action, side, mints,
  amount and mode are those of the request (buying spends the quote token, selling the tokenized
  asset); a disabled executor, an active cooldown and a rejected promise leave the table alone.\<close>

theorem execution_recorded_once:
  assumes "execute h cfg a s = Some (r, s')"
  shows "(case r of
     Inr res \<Rightarrow> (case tr_status res of Recorded st \<Rightarrow> logged cfg a res (te_rows s) (te_rows s')
        | _ \<Rightarrow> te_rows s' = te_rows s \<and> tr_executionId res = None)
   | Inl e \<Rightarrow> te_rows s' = te_rows s)"
  using execute_logged [OF assms] .

section \<open>What a success means\<close>

text \<open>The order of an execution, and the state after it was answered.\<close>

definition order_of :: "'m execHost \<Rightarrow> executorConfig \<Rightarrow> tradeExecutionInput \<Rightarrow> tradeExecutor \<Rightarrow> orderResult \<times> nat" where
  "order_of h cfg a s = client_order (h_clk h) (h_dateText h)
     (h_order h (te_calls s) (order_params (order_request cfg a))) (Suc (te_reads s))"

definition context_at :: "'m execHost \<Rightarrow> executorConfig \<Rightarrow> tradeExecutionInput \<Rightarrow> tradeExecutor \<Rightarrow> orderContext" where
  "context_at h cfg a s = \<lparr> oc_args = a, oc_inputMint = in_mint a, oc_outputMint = out_mint a,
     oc_requestStartedAt = h_clk h (te_reads s), oc_orderResponseAt = h_clk h (snd (order_of h cfg a s)),
     oc_order = fst (order_of h cfg a s) \<rparr>"

definition state_at :: "'m execHost \<Rightarrow> executorConfig \<Rightarrow> tradeExecutionInput \<Rightarrow> tradeExecutor \<Rightarrow> tradeExecutor" where
  "state_at h cfg a s = s\<lparr> te_lastAttemptAt := dict_set (te_lastAttemptAt s) (ta_dedupeKey a) (h_clk h (te_reads s)),
     te_calls := Suc (te_calls s), te_reads := Suc (snd (order_of h cfg a s)) \<rparr>"

definition cooling :: "'m execHost \<Rightarrow> executorConfig \<Rightarrow> tradeExecutionInput \<Rightarrow> tradeExecutor \<Rightarrow> bool" where
  "cooling h cfg a s \<longleftrightarrow> js_lt (js_sub (h_clk h (te_reads s))
     (case dict_get (te_lastAttemptAt s) (ta_dedupeKey a) of Some v \<Rightarrow> v | None \<Rightarrow> Num 0)) (ec_minIntervalMs cfg)"

lemma execute_parts: "execute h cfg a s = (if \<not> enabled cfg then Some (Inr disabled_result, s)
    else if cooling h cfg a s then Some (Inr (cooldown_result (ec_mode cfg)), s\<lparr> te_reads := Suc (te_reads s) \<rparr>)
    else after_order h cfg (context_at h cfg a s) (state_at h cfg a s))"
  by (simp add: execute_def read_now_def cooling_def context_at_def state_at_def order_of_def Let_def split: prod.split)

lemma state_at_same: "te_calls (state_at h cfg a s) = Suc (te_calls s)" "te_rows (state_at h cfg a s) = te_rows s"
    "te_nextTipIndex (state_at h cfg a s) = te_nextTipIndex s"
  by (simp_all add: state_at_def)

lemma success_ordered:
  assumes "execute h cfg a s = Some (Inr res, s')" "tr_status res = Recorded StSuccess"
  shows "enabled cfg \<and> \<not> cooling h cfg a s \<and> after_order h cfg (context_at h cfg a s) (state_at h cfg a s) = Some (Inr res, s')"
  using assms by (auto simp add: execute_parts disabled_result_def cooldown_result_def split: if_splits)

lemma finish_row: "finish cfg r e s = (res, s') \<Longrightarrow> tr_status res = Recorded (ri_status r) \<and> tr_message res = ri_errorMessage r \<and>
    te_calls s' = te_calls s \<and> (\<exists>row. te_rows s' = te_rows s @ [row] \<and> ti_status row = ri_status r \<and>
      ti_signature row = ri_signature r \<and> ti_errorMessage row = ri_errorMessage r)"
  by (auto simp add: finish_def record_row_def insertTradeExecution_def Let_def split: prod.splits)

lemma finish_status: "finish cfg r e s = (res, s') \<Longrightarrow> tr_status res = Recorded (ri_status r)"
  using finish_row by blast

lemma terminal_status: "recordTerminal cfg c st e m s = (res, s') \<Longrightarrow> tr_status res = Recorded st"
  by (auto simp add: recordTerminal_def base_input_def dest: finish_status)

text \<open>Jupiter executed this order: the signed transaction of the order was sent with its request id, and the
  reply was read as a success - a good HTTP status with the swap status Success, or with neither a status
  nor an error, which the client takes for a success.\<close>

definition jupiter_landed :: "'m execHost \<Rightarrow> okOrder \<Rightarrow> nat \<Rightarrow> string option \<Rightarrow> bool" where
  "jupiter_landed h x call sig \<longleftrightarrow> (\<exists>signed_tx st j. h_sign h (the (oo_transaction x)) = Inr signed_tx \<and>
     h_execute h call (execute_body signed_tx (the (oo_requestId x)) (oo_lastValidBlockHeight x)) = Reply st (Inr j) \<and>
     res_ok st \<and> (ej_status j = Some ''Success'' \<or> ej_status j = None \<and> present (ej_error j) = None) \<and>
     sig = firstString [ej_signature j])"

text \<open>The poll with this number was the one that confirmed the signature.\<close>

definition confirmed_by :: "'m execHost \<Rightarrow> string \<Rightarrow> nat \<Rightarrow> nat \<Rightarrow> bool" where
  "confirmed_by h sig first_poll k \<longleftrightarrow> first_poll \<le> k \<and>
     (\<forall>i. first_poll \<le> i \<and> i < k \<longrightarrow> (\<exists>v. h_status h i sig = Inr v \<and> settled v = None)) \<and>
     (\<exists>v. h_status h k sig = Inr (Some v) \<and> ss_err v = None \<and> ss_confirmationStatus v \<in> {Some ''confirmed'', Some ''finalized''})"

text \<open>The Sender took the order's transaction, with the tip appended and signed, and answered with a
  signature. Three calls follow the order request: the lookup tables, the send and the polls.\<close>

definition sender_took :: "'m execHost \<Rightarrow> executorConfig \<Rightarrow> okOrder \<Rightarrow> string \<Rightarrow> tradeExecutor \<Rightarrow> string \<Rightarrow> bool" where
  "sender_took h cfg x signer s sig \<longleftrightarrow> (\<exists>m ins signed_tx st j.
     h_decompile h (Suc (te_calls s)) (the (oo_transaction x)) (parseLastValidBlockHeight (oo_lastValidBlockHeight x)) = Inr m \<and>
     createSystemTransferInstruction signer (fst (nextTipAccount s)) (ec_tipLamports cfg) = Inr ins \<and>
     h_compileSign h m ins = Inr signed_tx \<and> h_send h (te_calls s + 2) signed_tx = Reply st (Inr j) \<and>
     res_ok st \<and> \<not> send_error j \<and> sj_result j = Some sig \<and> sig \<noteq> [])"

lemma client_execute_ok: "client_execute clk reply n = (OkExecute e, n') \<Longrightarrow>
    \<exists>st j ms. reply = Reply st (Inr j) \<and> res_ok st \<and> e = decode_execute ms j"
  by (auto simp add: client_execute_def Let_def split: httpReply.splits if_splits sum.splits)

lemma decode_success: "oe_swapStatus (decode_execute ms j) = ''Success'' \<longleftrightarrow>
    ej_status j = Some ''Success'' \<or> ej_status j = None \<and> present (ej_error j) = None"
  by (simp add: decode_execute_def split: option.splits)

lemma jupiter_success:
  assumes "executeViaJupiter h cfg c x s = (res, s')" "tr_status res = Recorded StSuccess"
  shows "\<exists>row. te_rows s' = te_rows s @ [row] \<and> ti_status row = StSuccess \<and> jupiter_landed h x (te_calls s) (ti_signature row)"
proof (cases "h_sign h (the (oo_transaction x))")
  case (Inl m)
  then show ?thesis using assms
    by (auto simp add: executeViaJupiter_def read_now_def split: prod.splits dest!: terminal_status)
next
  case (Inr tx)
  let ?reply = "h_execute h (te_calls s) (execute_body tx (the (oo_requestId x)) (oo_lastValidBlockHeight x))"
  obtain ex n where e: "client_execute (h_clk h) ?reply (Suc (Suc (te_reads s))) = (ex, n)" by fastforce
  obtain r s3 where f: "finish cfg r (Some (oo_outAmount x)) s3 = (res, s')" "te_rows s3 = te_rows s"
    "ri_status r = (case ex of OkExecute e \<Rightarrow> if oe_swapStatus e = ''Success'' then StSuccess else StFailed
      | ExecuteRateLimited ms \<Rightarrow> StSkipped | ExecuteError ms m \<Rightarrow> StError)"
    "ri_signature r = (case ex of OkExecute e \<Rightarrow> oe_signature e | _ \<Rightarrow> None)"
    using assms(1) Inr e by (simp add: executeViaJupiter_def read_now_def Let_def base_input_def)
  have "ri_status r = StSuccess" using finish_status [OF f(1)] assms(2) by simp
  then obtain v where v: "ex = OkExecute v" "oe_swapStatus v = ''Success''"
    using f(3) by (auto split: executeResult.splits if_splits)
  obtain st j ms where j: "?reply = Reply st (Inr j)" "res_ok st" "v = decode_execute ms j"
    using client_execute_ok e v(1) by blast
  have "ri_signature r = firstString [ej_signature j]" using f(4) v(1) j(3) by (simp add: decode_execute_def)
  then have "jupiter_landed h x (te_calls s) (ri_signature r)"
    unfolding jupiter_landed_def using Inr j(1,2) v(2) unfolding j(3) decode_success by blast
  then show ?thesis using finish_row [OF f(1)] f(2) \<open>ri_status r = StSuccess\<close> by metis
qed

lemma wait_loop_confirmed:
  fixes h :: "'m execHost"
  assumes "wait_loop h d sig n m = Some (Inr (True, msg), n', m')"
  shows "\<exists>k. m' = Suc k \<and> confirmed_by h sig m k \<and> js_lt (h_clk h n) d"
proof -
  let ?P = "\<lambda>(h :: 'm execHost) d sig n m (y :: (js_error, bool \<times> string option) result \<times> nat \<times> nat). fst y = Inr (True, msg) \<longrightarrow> (\<exists>k. snd (snd y) = Suc k \<and> confirmed_by h sig m k \<and> js_lt (h_clk h n) d)"
  have "?P h d sig n m (Inr (True, msg), n', m')"
  proof (rule wait_loop.raw_induct [OF _ assms, where P = ?P], intro impI)
    fix f and h :: "'m execHost" and d sig n m y
    assume IH: "\<And>h d sig n m y. f h d sig n m = Some y \<Longrightarrow> ?P h d sig n m y"
      and b: "(if js_lt (h_clk h n) d then (case h_status h m sig of
           Inl e \<Rightarrow> Some (Inl (ErrorMsg e), Suc n, Suc m)
         | Inr st \<Rightarrow> (case settled st of Some r \<Rightarrow> Some (Inr r, Suc n, Suc m)
             | None \<Rightarrow> f h d sig (Suc n) (Suc m)))
        else Some (Inr (False, Some ''confirmation timeout''), Suc n, m)) = Some y"
      and y: "fst y = Inr (True, msg)"
    obtain st where st: "h_status h m sig = Inr st" "js_lt (h_clk h n) d"
      using b y by (auto split: if_splits sum.splits)
    show "\<exists>k. snd (snd y) = Suc k \<and> confirmed_by h sig m k \<and> js_lt (h_clk h n) d"
    proof (cases "settled st")
      case None
      then have "f h d sig (Suc n) (Suc m) = Some y" using b st by simp
      then obtain k where k: "snd (snd y) = Suc k" "confirmed_by h sig (Suc m) k" using IH y by blast
      have "\<exists>v. h_status h i sig = Inr v \<and> settled v = None" if "m \<le> i" "i < k" for i
        using that k(2) st(1) None unfolding confirmed_by_def by (cases "i = m") auto
      then show ?thesis using k st(2) unfolding confirmed_by_def by auto
    next
      case (Some r)
      then have "r = (True, msg)" "snd (snd y) = Suc m" using b y st by auto
      then show ?thesis using Some st unfolding confirmed_by_def settled_def
        by (auto split: option.splits if_splits)
    qed
  qed
  then show ?thesis by simp
qed

lemma wait_loop_open:
  fixes h :: "'m execHost"
  assumes "wait_loop h d sig n m = Some (r, n', m')" "h_status h = (\<lambda>_ _. Inr None)"
  shows "r = Inr (False, Some ''confirmation timeout'')"
proof -
  let ?P = "\<lambda>(h :: 'm execHost) d sig n m (y :: (js_error, bool \<times> string option) result \<times> nat \<times> nat). h_status h = (\<lambda>_ _. Inr None) \<longrightarrow> fst y = Inr (False, Some ''confirmation timeout'')"
  have "?P h d sig n m (r, n', m')"
  proof (rule wait_loop.raw_induct [OF _ assms(1), where P = ?P], intro impI)
    fix f and h :: "'m execHost" and d sig n m y
    assume IH: "\<And>h d sig n m y. f h d sig n m = Some y \<Longrightarrow> ?P h d sig n m y"
      and b: "(if js_lt (h_clk h n) d then (case h_status h m sig of
           Inl e \<Rightarrow> Some (Inl (ErrorMsg e), Suc n, Suc m)
         | Inr st \<Rightarrow> (case settled st of Some r \<Rightarrow> Some (Inr r, Suc n, Suc m)
             | None \<Rightarrow> f h d sig (Suc n) (Suc m)))
        else Some (Inr (False, Some ''confirmation timeout''), Suc n, m)) = Some y"
      and h: "h_status h = (\<lambda>_ _. Inr None)"
    show "fst y = Inr (False, Some ''confirmation timeout'')"
      using b h IH [of h d sig "Suc n" "Suc m" y] by (auto simp add: settled_def split: if_splits)
  qed
  then show ?thesis using assms(2) by simp
qed

text \<open>The end of the Sender route, once the transaction was sent.\<close>

definition await_record :: "'m execHost \<Rightarrow> executorConfig \<Rightarrow> orderContext \<Rightarrow> okOrder \<Rightarrow> preparedTx \<Rightarrow> sentTx \<Rightarrow> tradeExecutor \<Rightarrow>
    ((js_error, tradeExecutionResult) result \<times> tradeExecutor) option" where
  "await_record h cfg c x p sent s2 = (let s3 = s2\<lparr> te_reads := Suc (te_reads s2) \<rparr> in
     Option.bind
       (case present (st_signature sent) of
          Some sig \<Rightarrow> if senderRpc cfg \<and> js_gt (ec_confirmationTimeoutMs cfg) (Num 0)
            then map_option (\<lambda>(r, s'). (and_then r (\<lambda>v. Inr (Some v)), s')) (waitForConfirmation h cfg sig s3)
            else Some (Inr None, s3)
        | None \<Rightarrow> Some (Inr None, s3))
       (\<lambda>(w, s4). case w of
          Inl e \<Rightarrow> Some (Inl e, s4)
        | Inr confirmed \<Rightarrow>
           let status = (if st_ok sent then (case confirmed of Some (True, _) \<Rightarrow> StSuccess | _ \<Rightarrow> StSubmitted) else StError);
               message = (case st_message sent of Some m \<Rightarrow> Some m
                 | None \<Rightarrow> (case confirmed of Some (_, m) \<Rightarrow> m | None \<Rightarrow> None))
           in (case finish cfg ((base_input c status (Some (oo_outAmount x)) message)\<lparr>
                 ri_executeResponseAt := Some (h_clk h (te_reads s2)), ri_signMs := Some (pt_signMs p),
                 ri_senderPrepareMs := Some (pt_prepareMs p), ri_executeRequestMs := Some (st_requestMs sent),
                 ri_signature := st_signature sent,
                 ri_rawExecute := map_option RawSend (st_raw sent) \<rparr>) (Some (oo_outAmount x)) s4 of
               (r, s5) \<Rightarrow> Some (Inr r, s5))))"

lemma sender_parts: "executeViaHeliusSender h cfg c x signer s =
    (case prepareSenderTransaction h cfg (the (oo_transaction x)) signer (oo_lastValidBlockHeight x) s of
       (Inl m, s1) \<Rightarrow> (case recordTerminal cfg c StError (Some (oo_outAmount x)) (Some m) s1 of (r, s2) \<Rightarrow> Some (Inr r, s2))
     | (Inr p, s1) \<Rightarrow> (case sendWithSender h (pt_signedTransaction p) s1 of (sent, s2) \<Rightarrow> await_record h cfg c x p sent s2))"
  by (simp add: executeViaHeliusSender_def await_record_def read_now_def Let_def split: prod.split sum.split)

lemma await_waits:
  assumes "st_ok sent" "st_signature sent = Some sig" "sig \<noteq> []" "senderRpc cfg" "js_gt (ec_confirmationTimeoutMs cfg) (Num 0)"
    and "waitForConfirmation h cfg sig (s2\<lparr> te_reads := Suc (te_reads s2) \<rparr>) = Some (w, s4)"
  shows "(case w of Inl e \<Rightarrow> await_record h cfg c x p sent s2 = Some (Inl e, s4)
     | Inr (ok, m) \<Rightarrow> \<exists>res s' row. await_record h cfg c x p sent s2 = Some (Inr res, s') \<and>
         tr_status res = Recorded (if ok then StSuccess else StSubmitted) \<and> te_calls s' = te_calls s4 \<and>
         te_rows s' = te_rows s4 @ [row] \<and> ti_status row = (if ok then StSuccess else StSubmitted) \<and> ti_signature row = Some sig \<and>
         (st_message sent = None \<longrightarrow> ti_errorMessage row = m \<and> tr_message res = m))"
proof (cases w)
  case (Inl e)
  then show ?thesis using assms by (simp add: await_record_def present_def Let_def)
next
  case (Inr v)
  obtain ok m where v: "v = (ok, m)" by fastforce
  define ri where "ri = (base_input c (if ok then StSuccess else StSubmitted) (Some (oo_outAmount x))
      (case st_message sent of Some t \<Rightarrow> Some t | None \<Rightarrow> m))\<lparr> ri_executeResponseAt := Some (h_clk h (te_reads s2)),
      ri_signMs := Some (pt_signMs p), ri_senderPrepareMs := Some (pt_prepareMs p), ri_executeRequestMs := Some (st_requestMs sent),
      ri_signature := Some sig, ri_rawExecute := map_option RawSend (st_raw sent) \<rparr>"
  obtain res s' where f: "finish cfg ri (Some (oo_outAmount x)) s4 = (res, s')" by fastforce
  have "await_record h cfg c x p sent s2 = Some (Inr res, s')"
    using assms f unfolding Inr v ri_def
    by (cases ok; cases "st_message sent") (simp_all add: await_record_def present_def Let_def)
  moreover have "ri_status ri = (if ok then StSuccess else StSubmitted)" "ri_signature ri = Some sig"
    "st_message sent = None \<Longrightarrow> ri_errorMessage ri = m" by (simp_all add: ri_def base_input_def)
  ultimately show ?thesis using finish_row [OF f] by (auto simp add: Inr v)
qed

lemma await_success:
  assumes "await_record h cfg c x p sent s2 = Some (Inr res, s')" "tr_status res = Recorded StSuccess"
  shows "\<exists>sig msg s4. st_ok sent \<and> st_signature sent = Some sig \<and> sig \<noteq> [] \<and> senderRpc cfg \<and>
    js_gt (ec_confirmationTimeoutMs cfg) (Num 0) \<and>
    waitForConfirmation h cfg sig (s2\<lparr> te_reads := Suc (te_reads s2) \<rparr>) = Some (Inr (True, msg), s4)"
proof -
  let ?s3 = "s2\<lparr> te_reads := Suc (te_reads s2) \<rparr>"
  let ?w = "case present (st_signature sent) of
      Some sig \<Rightarrow> if senderRpc cfg \<and> js_gt (ec_confirmationTimeoutMs cfg) (Num 0)
        then map_option (\<lambda>(r, s'). (and_then r (\<lambda>v. Inr (Some v)), s')) (waitForConfirmation h cfg sig ?s3)
        else Some (Inr None, ?s3)
    | None \<Rightarrow> Some (Inr None, ?s3)"
  obtain w s4 where w: "?w = Some (w, s4)"
    using assms(1) by (auto simp add: await_record_def Let_def bind_eq_Some_conv)
  obtain confirmed where cf: "w = Inr confirmed"
    using assms(1) w by (cases w) (auto simp add: await_record_def Let_def)
  have "(if st_ok sent then (case confirmed of Some (True, _) \<Rightarrow> StSuccess | _ \<Rightarrow> StSubmitted) else StError) = StSuccess"
    using assms w cf
    by (auto simp add: await_record_def Let_def base_input_def split: prod.splits if_splits option.splits bool.splits
        dest!: finish_status)
  then obtain msg where "st_ok sent" "confirmed = Some (True, msg)" by (auto split: if_splits option.splits prod.splits bool.splits)
  then show ?thesis using w cf
    by (auto simp add: and_then_Inr_iff present_def split: option.splits if_splits)
qed

lemma prepare_ok: "prepareSenderTransaction h cfg tx signer lv s = (Inr p, s1) \<Longrightarrow>
    te_calls s1 = Suc (te_calls s) \<and> te_rows s1 = te_rows s \<and> (\<exists>m ins. h_decompile h (te_calls s) tx (parseLastValidBlockHeight lv) = Inr m \<and>
      createSystemTransferInstruction signer (fst (nextTipAccount s)) (ec_tipLamports cfg) = Inr ins \<and>
      h_compileSign h m ins = Inr (pt_signedTransaction p))"
  by (auto simp add: prepareSenderTransaction_def read_now_def nextTipAccount_def split: if_splits sum.splits)

lemma send_ok: "sendWithSender h tx s = (sent, s2) \<Longrightarrow> te_calls s2 = Suc (te_calls s) \<and> te_rows s2 = te_rows s \<and>
    (st_ok sent \<longrightarrow> st_message sent = None \<and>
       (\<exists>st j. h_send h (te_calls s) tx = Reply st (Inr j) \<and> res_ok st \<and> \<not> send_error j \<and> st_signature sent = sj_result j))"
  by (auto simp add: sendWithSender_def Let_def split: httpReply.splits sum.splits if_splits)

text \<open>Up to its confirmation a successful Sender execution does not depend on the polls.\<close>

lemma sender_execution:
  assumes "execute h cfg a s = Some (Inr res, s')" "tr_status res = Recorded StSuccess" "ec_mode cfg = HeliusSender"
  obtains signer x p sent s2 sig msg s4 where "ec_signer cfg = Some signer" "fst (order_of h cfg a s) = OkOrder x"
    "oo_transaction x \<noteq> None" "oo_requestId x \<noteq> None"
    "\<forall>f. execute (h\<lparr> h_status := f \<rparr>) cfg a s = await_record (h\<lparr> h_status := f \<rparr>) cfg (context_at h cfg a s) x p sent s2"
    "sender_took h cfg x signer s sig" "st_ok sent" "st_signature sent = Some sig" "sig \<noteq> []" "st_message sent = None" "senderRpc cfg"
    "js_gt (ec_confirmationTimeoutMs cfg) (Num 0)" "te_calls s2 = te_calls s + 3" "te_rows s2 = te_rows s"
    "waitForConfirmation h cfg sig (s2\<lparr> te_reads := Suc (te_reads s2) \<rparr>) = Some (Inr (True, msg), s4)"
proof -
  have o: "enabled cfg" "\<not> cooling h cfg a s" "after_order h cfg (context_at h cfg a s) (state_at h cfg a s) = Some (Inr res, s')"
    using success_ordered [OF assms(1,2)] by blast+
  obtain x signer where x: "fst (order_of h cfg a s) = OkOrder x" "oo_transaction x \<noteq> None" "oo_requestId x \<noteq> None"
      "ec_signer cfg = Some signer"
    and e: "executeViaHeliusSender h cfg (context_at h cfg a s) x signer (state_at h cfg a s) = Some (Inr res, s')"
    using o(3) assms(2,3)
    by (auto simp add: after_order_def Let_def requiredSigner_def context_at_def split: orderResult.splits if_splits prod.splits option.splits
        dest!: terminal_status)
  obtain p s1 where p: "prepareSenderTransaction h cfg (the (oo_transaction x)) signer (oo_lastValidBlockHeight x) (state_at h cfg a s) = (Inr p, s1)"
    using e assms(2) by (auto simp add: sender_parts split: prod.splits sum.splits dest!: terminal_status)
  obtain sent s2 where q: "sendWithSender h (pt_signedTransaction p) s1 = (sent, s2)" by fastforce
  have w: "await_record h cfg (context_at h cfg a s) x p sent s2 = Some (Inr res, s')" using e by (simp add: sender_parts p q)
  obtain sig msg s4 where ok: "st_ok sent" "st_signature sent = Some sig" "sig \<noteq> []" "senderRpc cfg"
      "js_gt (ec_confirmationTimeoutMs cfg) (Num 0)"
      "waitForConfirmation h cfg sig (s2\<lparr> te_reads := Suc (te_reads s2) \<rparr>) = Some (Inr (True, msg), s4)"
    using await_success [OF w assms(2)] by blast
  have took: "sender_took h cfg x signer s sig"
    using prepare_ok [OF p] send_ok [OF q] ok(1-3) unfolding sender_took_def
    by (auto simp add: state_at_same nextTipAccount_def)
  have s2: "te_calls s2 = te_calls s + 3" "te_rows s2 = te_rows s" "st_message sent = None"
    using prepare_ok [OF p] send_ok [OF q] ok(1) by (simp_all add: state_at_same)
  have e: "execute (h\<lparr> h_status := f \<rparr>) cfg a s = await_record (h\<lparr> h_status := f \<rparr>) cfg (context_at h cfg a s) x p sent s2" for f
  proof -
    let ?h = "h\<lparr> h_status := f \<rparr>"
    have same: "order_of ?h cfg a s = order_of h cfg a s" "context_at ?h cfg a s = context_at h cfg a s"
      "state_at ?h cfg a s = state_at h cfg a s" "cooling ?h cfg a s = cooling h cfg a s"
      by (simp_all add: order_of_def context_at_def state_at_def cooling_def)
    have "prepareSenderTransaction ?h cfg tx k lv z = prepareSenderTransaction h cfg tx k lv z" for tx k lv z
      by (simp add: prepareSenderTransaction_def read_now_def split: prod.split sum.split)
    moreover have "sendWithSender ?h tx z = sendWithSender h tx z" for tx z
      by (simp add: sendWithSender_def Let_def split: httpReply.split sum.split)
    ultimately have "executeViaHeliusSender ?h cfg (context_at h cfg a s) x signer (state_at h cfg a s) =
        await_record ?h cfg (context_at h cfg a s) x p sent s2"
      by (simp add: sender_parts p q)
    then show ?thesis using o(1,2) x assms(3)
      by (auto simp add: execute_parts same after_order_def requiredSigner_def context_at_def Let_def)
  qed
  show thesis by (rule that [OF x(4,1,2,3) allI [OF e] took ok(1-3) s2(3) ok(4,5) s2(1,2) ok(6)])
qed

text \<open>C21: A success is never claimed without proof: an execution ends with the status success only in one of the two
  live modes, with a signer and an order of its own that carries a transaction and a request id. Through
  Jupiter, the execute call of that order, the first call after the order request, sent the transaction
  signed and was answered with a good HTTP status and the swap status Success - or with neither a status
  nor an error, which the client reads as a success. Through the Sender, the order's transaction with the
  tip was signed, the Sender answered with a signature, every poll of this signature but the last left it
  open, and the last one returned confirmed or finalized and no error. Exactly one row is added, with the
  status success and that signature.\<close>

theorem success_is_confirmed:
  assumes "execute h cfg a s = Some (Inr res, s')" and "tr_status res = Recorded StSuccess"
  shows "\<exists>signer x row. ec_signer cfg = Some signer \<and> fst (order_of h cfg a s) = OkOrder x \<and>
    oo_transaction x \<noteq> None \<and> oo_requestId x \<noteq> None \<and> te_rows s' = te_rows s @ [row] \<and> ti_status row = StSuccess \<and>
    (ec_mode cfg = JupiterManaged \<and> jupiter_landed h x (Suc (te_calls s)) (ti_signature row) \<or>
     ec_mode cfg = HeliusSender \<and> (\<exists>sig k. ti_signature row = Some sig \<and> sender_took h cfg x signer s sig \<and>
       te_calls s' = Suc k \<and> confirmed_by h sig (te_calls s + 3) k))"
proof -
  have o: "enabled cfg" "after_order h cfg (context_at h cfg a s) (state_at h cfg a s) = Some (Inr res, s')"
    using success_ordered [OF assms] by blast+
  show ?thesis
  proof (cases "ec_mode cfg = HeliusSender")
    case True
    obtain signer x p sent s2 sig msg s4 where e: "ec_signer cfg = Some signer" "fst (order_of h cfg a s) = OkOrder x"
      "oo_transaction x \<noteq> None" "oo_requestId x \<noteq> None"
      "\<forall>f. execute (h\<lparr> h_status := f \<rparr>) cfg a s = await_record (h\<lparr> h_status := f \<rparr>) cfg (context_at h cfg a s) x p sent s2"
      and took: "sender_took h cfg x signer s sig" and ok: "st_ok sent" "st_signature sent = Some sig" "sig \<noteq> []" "st_message sent = None"
        "senderRpc cfg" "js_gt (ec_confirmationTimeoutMs cfg) (Num 0)"
      and s2: "te_calls s2 = te_calls s + 3" "te_rows s2 = te_rows s"
      and w: "waitForConfirmation h cfg sig (s2\<lparr> te_reads := Suc (te_reads s2) \<rparr>) = Some (Inr (True, msg), s4)"
      by (rule sender_execution [OF assms True]) blast
    have "\<exists>k. te_calls s4 = Suc k \<and> confirmed_by h sig (te_calls s + 3) k"
      using w ok(5) s2(1) by (auto simp add: waitForConfirmation_def read_now_def dest!: wait_loop_confirmed)
    moreover obtain row where "te_calls s' = te_calls s4" "te_rows s' = te_rows s4 @ [row]" "ti_status row = StSuccess" "ti_signature row = Some sig"
      using await_waits [OF ok(1-3,5,6) w, of "context_at h cfg a s" x p] spec [OF e(5), of "h_status h"] assms(1) by auto
    moreover have "te_rows s4 = te_rows s" using wait_rows [OF w] s2(2) by simp
    ultimately show ?thesis using e(1-4) took True by metis
  next
    case False
    obtain x signer where x: "fst (order_of h cfg a s) = OkOrder x" "oo_transaction x \<noteq> None" "oo_requestId x \<noteq> None"
        "ec_signer cfg = Some signer" "ec_mode cfg = JupiterManaged"
      and e: "executeViaJupiter h cfg (context_at h cfg a s) x (state_at h cfg a s) = (res, s')"
      using o assms(2) False
      by (cases "ec_mode cfg") (auto simp add: after_order_def Let_def requiredSigner_def enabled_def context_at_def
          split: orderResult.splits if_splits prod.splits option.splits dest!: terminal_status)
    show ?thesis using jupiter_success [OF e assms(2)] x by (auto simp add: state_at_same)
  qed
qed

text \<open>The cooldown of a trade is enforced before anything leaves the process: once an execution was
  attempted under a key, whatever became of it, a later execution under the same key whose clock
  reading is less than the minimal interval after the first one's returns the cooldown result, sends
  no order and records nothing, even if executions under other keys came between.\<close>

theorem attempt_then_cooldown:
  assumes "execute h cfg a s = Some (r, s1)" and "enabled cfg" and "r \<noteq> Inr (cooldown_result (ec_mode cfg))"
    and "dict_get (te_lastAttemptAt s2) (ta_dedupeKey b) = dict_get (te_lastAttemptAt s1) (ta_dedupeKey a)"
    and "js_lt (js_sub (h_clk h (te_reads s2)) (h_clk h (te_reads s))) (ec_minIntervalMs cfg)"
  shows "execute h cfg b s2 = Some (Inr (cooldown_result (ec_mode cfg)), s2\<lparr> te_reads := Suc (te_reads s2) \<rparr>)"
proof -
  obtain c s0 where c: "after_order h cfg c s0 = Some (r, s1)" "context_of c a"
    "te_lastAttemptAt s0 = dict_set (te_lastAttemptAt s) (ta_dedupeKey a) (h_clk h (te_reads s))"
    using execute_attempt [OF assms(1,2)] assms(3) by blast
  have "te_lastAttemptAt s1 = te_lastAttemptAt s0" using after_order_logged [OF c(1,2)] by simp
  then have "dict_get (te_lastAttemptAt s2) (ta_dedupeKey b) = Some (h_clk h (te_reads s))"
    using assms(4) c(3) by (simp add: dict_laws)
  then show ?thesis using assms(2,5) by (simp add: execute_def read_now_def Let_def)
qed

section \<open>A Sender trade on a concrete host\<close>

definition sample_pair :: pairConfig where
  "sample_pair = \<lparr> pc_id = ''wbtc'', pc_enabled = True, pc_label = ''WBTC'', pc_pythSymbol = ''Crypto.BTC/USD'',
     pc_pythLazerId = Num 1, pc_exponent = Num (- 8), pc_assetClass = Crypto, pc_baseMaxLagMs = None,
     pc_tokMint = ''3NZ9JMVBmGAqocybic2c7LQCJScmgsAZ6vQqTDzcqmJh'', pc_tokSymbol = ''WBTC'', pc_tokDecimals = Num 8,
     pc_quoteMint = ''EPjFWdd5AufqSSqeM2qN1xzybapC8G4wEGGkZwyTDt1v'', pc_quoteSymbol = ''USDC'', pc_quoteDecimals = Num 6,
     pc_sizesUsd = [Num 250], pc_directions = [BuyTokenized, SellTokenized], pc_quoteIntervalMs = Num 1000,
     pc_minPriceMoveBps = Num 5, pc_slippageBps = Num 20, pc_minNetEdgeBps = Num 25, pc_qualityGate = None \<rparr>"

definition sample_trade :: tradeExecutionInput where
  "sample_trade = \<lparr> ta_action = OpenTrade, ta_pair = sample_pair, ta_side = BuyTokenized, ta_sizeUsd = Num 250,
     ta_basePriceUsd = Num 100000, ta_tokenPriceUsd = Num 99000, ta_edgeBps = Num 100, ta_inputAmount = 250000000,
     ta_signalId = None, ta_dedupeKey = ''open:wbtc:250'' \<rparr>"

definition sample_config :: executorConfig where
  "sample_config = \<lparr> ec_mode = HeliusSender, ec_taker = Some ''W'', ec_signer = Some ''W'', ec_minIntervalMs = Num 0,
     ec_retainRaw = False, ec_heliusRpcUrl = Some ''https://rpc'', ec_tipLamports = Num 200000, ec_excludeRouters = ''jupiterz'',
     ec_confirmationTimeoutMs = Num 10000 \<rparr>"

text \<open>Every call succeeds, the Sender accepts the transaction, and polls answer with the given status.\<close>

definition sample_host :: "(string, signatureStatus option) result \<Rightarrow> string execHost" where
  "sample_host st = \<lparr> h_clk = (\<lambda>_. Num 0), h_dateText = (\<lambda>_. None),
     h_order = (\<lambda>_ _. Reply 200 (Inr ((plain_order ''1000'')\<lparr> oj_transaction := Some ''AQ=='', oj_requestId := Some ''r1'' \<rparr>))),
     h_execute = (\<lambda>_ _. Throws ''unused''),
     h_send = (\<lambda>_ _. Reply 200 (Inr \<lparr> sj_result = Some ''5sig'', sj_error = None \<rparr>)),
     h_status = (\<lambda>_ _. st), h_sign = (\<lambda>t. Inr t), h_decompile = (\<lambda>_ t _. Inr t), h_compileSign = (\<lambda>m _. Inr m) \<rparr>"

definition idle_executor :: tradeExecutor where
  "idle_executor = \<lparr> te_lastAttemptAt = [], te_nextTipIndex = 0, te_rows = [], te_reads = 0, te_calls = 0 \<rparr>"

definition status_of :: "string option \<Rightarrow> (string, signatureStatus option) result" where
  "status_of e = Inr (Some \<lparr> ss_err = e, ss_confirmationStatus = Some ''confirmed'' \<rparr>)"

lemma sample_amount: "bigint_of_string ''1000'' = Some 1000"
proof -
  have "show_int 1000 = ''1000''" by code_simp
  then show ?thesis using bigint_of_show_int by metis
qed

lemma sample_order: "\<exists>x n. client_order (h_clk (sample_host st)) (h_dateText (sample_host st))
    (h_order (sample_host st) k p) m = (OkOrder x, n) \<and> oo_transaction x = Some ''AQ=='' \<and> oo_requestId x = Some ''r1'' \<and>
    oo_lastValidBlockHeight x = None \<and> oo_outAmount x = 1000 \<and> n = m + 2"
  by (simp add: client_order_def sample_host_def res_ok_def plain_order_def present_def sample_amount decode_order_def
      firstString_def Let_def)

lemma sample_tip: "createSystemTransferInstruction a b (Num 200000) = Inr \<lparr> in_programAddress = SYSTEM_PROGRAM_ADDRESS,
    in_accounts = [(a, WRITABLE_SIGNER), (b, WRITABLE)], in_data = le_bytes 4 2 @ le_bytes 8 200000 \<rparr>"
  by (simp add: createSystemTransferInstruction_def isSafeInteger_def is_integer_def to_bigint_def)

lemma sample_wait_error: "waitForConfirmation (sample_host (Inl e)) sample_config sig s =
    Some (Inl (ErrorMsg e), s\<lparr> te_reads := te_reads s + 2, te_calls := Suc (te_calls s) \<rparr>)"
  by (subst waitForConfirmation_def, subst wait_loop.simps)
    (simp add: sample_config_def senderRpc_def present_def read_now_def sample_host_def js_eval)

lemma sample_wait_settled: "settled v = Some r \<Longrightarrow> waitForConfirmation (sample_host (Inr v)) sample_config sig s =
    Some (Inr r, s\<lparr> te_reads := te_reads s + 2, te_calls := Suc (te_calls s) \<rparr>)"
  by (subst waitForConfirmation_def, subst wait_loop.simps)
    (simp add: sample_config_def senderRpc_def present_def read_now_def sample_host_def js_eval)

lemma sample_send: "sendWithSender (sample_host st) tx s =
    (\<lparr> st_ok = True, st_signature = Some ''5sig'', st_requestMs = Num 0, st_message = None,
        st_raw = Some \<lparr> sj_result = Some ''5sig'', sj_error = None \<rparr> \<rparr>,
     s\<lparr> te_reads := te_reads s + 3, te_calls := Suc (te_calls s) \<rparr>)"
  by (simp add: sendWithSender_def sample_host_def Let_def res_ok_def send_error_def js_sub_def)

lemma sample_prepare: "\<exists>s'. prepareSenderTransaction (sample_host st) sample_config tx signer None s =
    (Inr \<lparr> pt_signedTransaction = tx, pt_prepareMs = Num 0, pt_signMs = Num 0 \<rparr>, s') \<and> te_rows s' = te_rows s"
  by (simp add: prepareSenderTransaction_def sample_config_def senderRpc_def present_def read_now_def
      sample_host_def parseLastValidBlockHeight_def nextTipAccount_def sample_tip js_sub_def)

lemma sample_rpc: "senderRpc sample_config" "js_gt (ec_confirmationTimeoutMs sample_config) (Num 0)"
  by (simp_all add: sample_config_def senderRpc_def present_def)

lemma sample_sender_error:
  assumes "oo_lastValidBlockHeight x = None"
  shows "\<exists>s'. executeViaHeliusSender (sample_host (Inl e)) sample_config c x signer s = Some (Inl (ErrorMsg e), s') \<and>
    te_rows s' = te_rows s"
proof -
  obtain s1 where p: "prepareSenderTransaction (sample_host (Inl e)) sample_config (the (oo_transaction x)) signer None s =
    (Inr \<lparr> pt_signedTransaction = the (oo_transaction x), pt_prepareMs = Num 0, pt_signMs = Num 0 \<rparr>, s1)" "te_rows s1 = te_rows s"
    using sample_prepare by blast
  show ?thesis using p(2)
    by (simp add: executeViaHeliusSender_def assms p(1) sample_send read_now_def present_def sample_rpc sample_wait_error)
qed

lemma sample_sender_settled:
  assumes "oo_lastValidBlockHeight x = None" "settled v = Some (ok, m)"
  shows "\<exists>res s'. executeViaHeliusSender (sample_host (Inr v)) sample_config c x signer s = Some (Inr res, s') \<and>
    tr_status res = Recorded (if ok then StSuccess else StSubmitted)"
proof -
  obtain s1 where p: "prepareSenderTransaction (sample_host (Inr v)) sample_config (the (oo_transaction x)) signer None s =
    (Inr \<lparr> pt_signedTransaction = the (oo_transaction x), pt_prepareMs = Num 0, pt_signMs = Num 0 \<rparr>, s1)"
    using sample_prepare by blast
  show ?thesis
    by (cases ok) (auto simp add: executeViaHeliusSender_def assms p(1) sample_send read_now_def present_def sample_rpc
      sample_wait_settled [OF assms(2)] Let_def split: prod.splits dest!: finish_status)
qed

lemma sample_execute:
  "\<exists>x c s. oo_lastValidBlockHeight x = None \<and> te_rows s = [] \<and>
    execute (sample_host st) sample_config a idle_executor =
      executeViaHeliusSender (sample_host st) sample_config c x ''W'' s"
proof -
  obtain x n where x: "client_order (h_clk (sample_host st)) (h_dateText (sample_host st))
      (h_order (sample_host st) 0 (order_params (order_request sample_config a))) 1 = (OkOrder x, n)"
    "oo_transaction x = Some ''AQ==''" "oo_requestId x = Some ''r1''" "oo_lastValidBlockHeight x = None"
    using sample_order by metis
  have c: "h_clk (sample_host st) k = Num 0" for k by (simp add: sample_host_def)
  have m: "enabled sample_config" "ec_mode sample_config = HeliusSender" "requiredSigner sample_config = Inr ''W''"
    "ec_minIntervalMs sample_config = Num 0"
    by (simp_all add: enabled_def sample_config_def requiredSigner_def)
  let ?c = "\<lparr> oc_args = a, oc_inputMint = in_mint a, oc_outputMint = out_mint a,
      oc_requestStartedAt = Num 0, oc_orderResponseAt = Num 0, oc_order = OkOrder x \<rparr>"
  let ?s = "idle_executor\<lparr> te_lastAttemptAt := dict_set [] (ta_dedupeKey a) (Num 0), te_reads := Suc n, te_calls := 1 \<rparr>"
  have "execute (sample_host st) sample_config a idle_executor =
      executeViaHeliusSender (sample_host st) sample_config ?c x ''W'' ?s"
    using x by (simp add: execute_def m c read_now_def idle_executor_def Let_def js_sub_def after_order_def)
  then show ?thesis using x(4) by (intro exI [of _ x] exI [of _ ?c] exI [of _ ?s]) (simp add: idle_executor_def)
qed

text \<open>C36: Two losses of the Sender route, for every execution that a poll would have confirmed. When instead the
  first poll fails (a rate limit of the RPC), the promise is rejected although the Sender has taken the
  transaction, and the trade is in no row. When instead the first poll reports that the transaction failed
  on the chain, the row and the result say submitted, not failed - the status that a confirmation that
  merely timed out gets, with another message.\<close>

theorem submitted_trade_lost:
  assumes "execute h cfg a s = Some (Inr res, s')" and "tr_status res = Recorded StSuccess" and "ec_mode cfg = HeliusSender"
  shows "(\<exists>signer x sig. fst (order_of h cfg a s) = OkOrder x \<and> sender_took h cfg x signer s sig \<and>
    (\<forall>f e. f (te_calls s + 3) sig = Inl e \<longrightarrow>
       (\<exists>s1. execute (h\<lparr> h_status := f \<rparr>) cfg a s = Some (Inl (ErrorMsg e), s1) \<and> te_rows s1 = te_rows s)) \<and>
    (\<forall>f v m. f (te_calls s + 3) sig = Inr (Some v) \<and> ss_err v = Some m \<longrightarrow>
       (\<exists>r s1 row. execute (h\<lparr> h_status := f \<rparr>) cfg a s = Some (Inr r, s1) \<and> tr_status r = Recorded StSubmitted \<and>
          te_rows s1 = te_rows s @ [row] \<and> ti_status row = StSubmitted \<and> ti_signature row = Some sig \<and> ti_errorMessage row = Some m)) \<and>
    (\<forall>y. execute (h\<lparr> h_status := \<lambda>_ _. Inr None \<rparr>) cfg a s = Some y \<longrightarrow>
       (\<exists>r s1 row. y = (Inr r, s1) \<and> tr_status r = Recorded StSubmitted \<and>
          te_rows s1 = te_rows s @ [row] \<and> ti_status row = StSubmitted \<and> ti_signature row = Some sig \<and>
          ti_errorMessage row = Some ''confirmation timeout'')))"
proof -
  obtain signer x p sent s2 sig msg s4 where x: "fst (order_of h cfg a s) = OkOrder x"
    and e: "\<forall>f. execute (h\<lparr> h_status := f \<rparr>) cfg a s = await_record (h\<lparr> h_status := f \<rparr>) cfg (context_at h cfg a s) x p sent s2"
    and took: "sender_took h cfg x signer s sig" and ok: "st_ok sent" "st_signature sent = Some sig" "sig \<noteq> []" "st_message sent = None"
      "senderRpc cfg" "js_gt (ec_confirmationTimeoutMs cfg) (Num 0)"
    and s2: "te_calls s2 = te_calls s + 3" "te_rows s2 = te_rows s"
    and w: "waitForConfirmation h cfg sig (s2\<lparr> te_reads := Suc (te_reads s2) \<rparr>) = Some (Inr (True, msg), s4)"
    by (rule sender_execution [OF assms]) blast
  let ?s3 = "s2\<lparr> te_reads := Suc (te_reads s2) \<rparr>"
  have due: "js_lt (h_clk h (Suc (Suc (te_reads s2)))) (js_add (h_clk h (Suc (te_reads s2))) (ec_confirmationTimeoutMs cfg))"
    using w ok(5) by (auto simp add: waitForConfirmation_def read_now_def dest!: wait_loop_confirmed)
  note wait = await_waits [OF ok(1-3,5,6), where c = "context_at h cfg a s" and x = x and p = p]
  have first: "\<exists>z. waitForConfirmation (h\<lparr> h_status := f \<rparr>) cfg sig ?s3 = Some (Inl (ErrorMsg b), z)"
    if "f (te_calls s + 3) sig = Inl b" for f b
    using that ok(5) due by (subst waitForConfirmation_def, subst wait_loop.simps) (simp add: read_now_def s2(1))
  have failed: "\<exists>z. waitForConfirmation (h\<lparr> h_status := f \<rparr>) cfg sig ?s3 = Some (Inr (False, Some m), z)"
    if "f (te_calls s + 3) sig = Inr (Some v)" "ss_err v = Some m" for f v m
    using that ok(5) due by (subst waitForConfirmation_def, subst wait_loop.simps) (simp add: read_now_def s2(1) settled_def)
  have "\<exists>s1. execute (h\<lparr> h_status := f \<rparr>) cfg a s = Some (Inl (ErrorMsg b), s1) \<and> te_rows s1 = te_rows s"
    if t: "f (te_calls s + 3) sig = Inl b" for f b
  proof -
    obtain z where z: "waitForConfirmation (h\<lparr> h_status := f \<rparr>) cfg sig ?s3 = Some (Inl (ErrorMsg b), z)" using first [of f b] t by blast
    show ?thesis using wait [OF z] wait_rows [OF z] s2(2) by (simp add: e)
  qed
  moreover have "\<exists>r s1 row. execute (h\<lparr> h_status := f \<rparr>) cfg a s = Some (Inr r, s1) \<and> tr_status r = Recorded StSubmitted \<and>
      te_rows s1 = te_rows s @ [row] \<and> ti_status row = StSubmitted \<and> ti_signature row = Some sig \<and> ti_errorMessage row = Some m"
    if t: "f (te_calls s + 3) sig = Inr (Some v) \<and> ss_err v = Some m" for f v m
  proof -
    obtain z where z: "waitForConfirmation (h\<lparr> h_status := f \<rparr>) cfg sig ?s3 = Some (Inr (False, Some m), z)" using failed [of f v m] t by blast
    show ?thesis using wait [OF z] wait_rows [OF z] s2(2) ok(4) by (auto simp add: e)
  qed
  moreover have "\<exists>r s1 row. y = (Inr r, s1) \<and> tr_status r = Recorded StSubmitted \<and>
      te_rows s1 = te_rows s @ [row] \<and> ti_status row = StSubmitted \<and> ti_signature row = Some sig \<and>
      ti_errorMessage row = Some ''confirmation timeout''"
    if y: "execute (h\<lparr> h_status := \<lambda>_ _. Inr None \<rparr>) cfg a s = Some y" for y
  proof -
    let ?h = "h\<lparr> h_status := \<lambda>_ _. Inr None \<rparr>"
    obtain v z where v: "waitForConfirmation ?h cfg sig ?s3 = Some (v, z)"
      using y ok(2,3,5,6) by (auto simp add: e await_record_def present_def Let_def bind_eq_Some_conv)
    have "v = Inr (False, Some ''confirmation timeout'')"
      using v ok(5) by (auto simp add: waitForConfirmation_def read_now_def dest!: wait_loop_open)
    then show ?thesis using wait [of ?h, OF v] wait_rows [OF v] s2(2) ok(4) y by (auto simp add: e)
  qed
  ultimately show ?thesis using x took by blast
qed

text \<open>A confirmed trade on the same host.\<close>

lemma sample_success:
  "\<exists>res s'. execute (sample_host (status_of None)) sample_config a idle_executor = Some (Inr res, s') \<and>
    tr_status res = Recorded StSuccess"
proof -
  let ?v = "Some \<lparr> ss_err = None, ss_confirmationStatus = Some ''confirmed'' \<rparr>"
  have "settled ?v = Some (True, None)" by (simp add: settled_def)
  then show ?thesis
    using sample_execute [of "Inr ?v" a] sample_sender_settled [of _ ?v True] unfolding status_of_def by fastforce
qed

theorem success_is_confirmed_witness:
  "\<exists>res s' row sig. execute (sample_host (status_of None)) sample_config sample_trade idle_executor = Some (Inr res, s') \<and>
     te_rows s' = [row] \<and> ti_status row = StSuccess \<and> ti_signature row = Some sig \<and>
     confirmed_by (sample_host (status_of None)) sig 3 (te_calls s' - 1)"
proof -
  obtain res s' where e: "execute (sample_host (status_of None)) sample_config sample_trade idle_executor = Some (Inr res, s')"
    "tr_status res = Recorded StSuccess" using sample_success by blast
  have "ec_mode sample_config = HeliusSender" "te_rows idle_executor = []" "te_calls idle_executor = 0"
    by (simp_all add: sample_config_def idle_executor_def)
  then show ?thesis using success_is_confirmed [OF e] e(1) by fastforce
qed

theorem submitted_trade_lost_witness:
  "\<exists>s1. execute (sample_host (Inl ''429'')) sample_config sample_trade idle_executor = Some (Inl (ErrorMsg ''429''), s1) \<and> te_rows s1 = []"
proof -
  obtain res s' where e: "execute (sample_host (status_of None)) sample_config sample_trade idle_executor = Some (Inr res, s')"
    "tr_status res = Recorded StSuccess" using sample_success by blast
  have m: "ec_mode sample_config = HeliusSender" "te_rows idle_executor = []" by (simp_all add: sample_config_def idle_executor_def)
  have h: "(sample_host (status_of None))\<lparr> h_status := \<lambda>_ _. Inl ''429'' \<rparr> = sample_host (Inl ''429'')"
    by (simp add: sample_host_def)
  show ?thesis using submitted_trade_lost [OF e m(1)] m(2) unfolding h [symmetric] by metis
qed

theorem execution_recorded_once_witness:
  "\<exists>res s'. execute (sample_host (status_of None)) sample_config sample_trade idle_executor = Some (Inr res, s') \<and>
    length (te_rows s') = 1"
proof -
  obtain res s' where e: "execute (sample_host (status_of None)) sample_config sample_trade idle_executor = Some (Inr res, s')"
    "tr_status res = Recorded StSuccess" using sample_success by blast
  then have "logged sample_config sample_trade res [] (te_rows s')"
    using execution_recorded_once [OF e(1)] by (simp add: idle_executor_def)
  then show ?thesis using e(1) by (auto simp add: logged_def)
qed

text \<open>The network is down: the attempt ends as an error, the next one is on cooldown.\<close>

definition down_host :: "string execHost" where
  "down_host = (sample_host (Inl ''none''))\<lparr> h_clk := (\<lambda>_. Num 10000), h_order := (\<lambda>_ _. Throws ''network'') \<rparr>"

theorem attempt_then_cooldown_witness:
  "\<exists>r s1. let cfg = sample_config\<lparr> ec_minIntervalMs := Num 5000 \<rparr> in
     execute down_host cfg sample_trade idle_executor = Some (r, s1) \<and> r \<noteq> Inr (cooldown_result HeliusSender) \<and>
     execute down_host cfg sample_trade s1 = Some (Inr (cooldown_result HeliusSender), s1\<lparr> te_reads := Suc (te_reads s1) \<rparr>)"
proof -
  let ?cfg = "sample_config\<lparr> ec_minIntervalMs := Num 5000 \<rparr>"
  have m: "enabled ?cfg" "ec_mode ?cfg = HeliusSender" "ec_minIntervalMs ?cfg = Num 5000"
    by (simp_all add: enabled_def sample_config_def)
  have h: "h_clk down_host k = Num 10000" "h_order down_host k p = Throws ''network''" for k p
    by (simp_all add: down_host_def)
  obtain res s1 where e: "execute down_host ?cfg sample_trade idle_executor = Some (Inr res, s1)" "tr_status res = Recorded StError"
    by (cases "execute down_host ?cfg sample_trade idle_executor")
      (auto simp add: execute_def m h read_now_def idle_executor_def Let_def js_sub_def js_eval client_order_def after_order_def
        recordTerminal_def finish_def base_input_def record_row_def insertTradeExecution_def)
  have "res \<noteq> cooldown_result HeliusSender" using e(2) by (auto simp add: cooldown_result_def)
  then show ?thesis
    using e(1) attempt_then_cooldown [OF e(1) m(1), of s1 sample_trade] by (auto simp add: m(2,3) h js_sub_def Let_def)
qed

theorem confirmation_wait_ends_witness:
  "\<exists>r s'. waitForConfirmation ((sample_host (Inr None))\<lparr> h_clk := (\<lambda>n. Num (of_int (250 * int n))) \<rparr>) sample_config ''5sig'' idle_executor =
      Some (r, s') \<and> te_calls s' \<le> 41"
proof -
  have c: "ec_confirmationTimeoutMs sample_config = Num (of_int 10000)" by (simp add: sample_config_def)
  have i: "te_reads idle_executor = 0" "te_calls idle_executor = 0" by (simp_all add: idle_executor_def)
  show ?thesis
    using confirmation_wait_ends [OF sample_rpc(1) c, of "(sample_host (Inr None))\<lparr> h_clk := (\<lambda>n. Num (of_int (250 * int n))) \<rparr>"
      idle_executor "\<lambda>i. 250 * int i" "''5sig''"] by (simp add: i)
qed

end
