(* ===== verification/SignalEngine.thy ===== *)
theory SignalEngine
  imports TradeExecutor QuoteQuality
begin

text \<open>
  services/stat-arb-bot/src/signal-engine.ts over the rows of packages/db/src/signals.ts: the spot-only
  lifecycle of a signal, from the observation that opens it to the one that closes it, with the trade
  executor of TradeExecutor.thy. The table paper_signals is a list of rows, the id of a row is its
  position counted from 1, a row without an exit is open, and an insert or an update never fails. A Date is its milliseconds. A promise that is
  rejected is an Inl result; None is a wait that never ends.
\<close>

section \<open>The table (signals.ts)\<close>

datatype exitReason = Converged | Stale
datatype signalOutcome = Win | Loss | Flat | StaleOut

record signalExit =
  sx_exitAt :: jsnum
  sx_exitEdgeBps :: jsnum
  sx_pnlUsd :: jsnum
  sx_outcome :: signalOutcome
  sx_exitSide :: pairDirection
  sx_exitTokenPriceUsd :: jsnum
  sx_exitBasePriceUsd :: jsnum
  sx_exitQuoteId :: "nat option"
  sx_exitBasisId :: "nat option"
  sx_exitObservedAt :: jsnum
  sx_exitQualityStatus :: quoteQualityStatus
  sx_exitQualityReason :: string
  sx_exitReason :: exitReason
  sx_exitExecutionId :: "nat option"

record signalRow =
  sg_pairId :: string
  sg_side :: pairDirection
  sg_sizeUsd :: jsnum
  sg_thresholdBps :: jsnum
  sg_entryEdgeBps :: jsnum
  sg_entryTokenPriceUsd :: "jsnum option"
  sg_entryBasePriceUsd :: "jsnum option"
  sg_entryQuoteId :: "nat option"
  sg_entryBasisId :: "nat option"
  sg_tokenUnits :: "jsnum option"
  sg_entryObservedAt :: jsnum
  sg_entryQualityStatus :: quoteQualityStatus
  sg_entryQualityReason :: string
  sg_entryAt :: jsnum
  sg_executionMode :: tradeExecutionMode
  sg_entryExecutionId :: "nat option"
  sg_exit :: "signalExit option"

record engineState =
  es_signals :: "signalRow list"
  es_exec :: tradeExecutor

text \<open>INSERT ... RETURNING id.\<close>

definition openSignal :: "signalRow \<Rightarrow> engineState \<Rightarrow> nat \<times> engineState" where
  "openSignal row s = (Suc (length (es_signals s)), s\<lparr> es_signals := es_signals s @ [row] \<rparr>)"

text \<open>UPDATE ... WHERE id = $1.\<close>

definition closeSignal :: "nat \<Rightarrow> signalExit \<Rightarrow> engineState \<Rightarrow> engineState" where
  "closeSignal i x s = (if 0 < i \<and> i \<le> length (es_signals s)
     then s\<lparr> es_signals := (es_signals s)[i - 1 := (es_signals s ! (i - 1))\<lparr> sg_exit := Some x \<rparr>] \<rparr> else s)"

definition open_for :: "string \<Rightarrow> pairDirection \<Rightarrow> jsnum \<Rightarrow> signalRow \<Rightarrow> bool" where
  "open_for pid side sz r \<longleftrightarrow> sg_pairId r = pid \<and> sg_side r = side \<and> sg_sizeUsd r = sz \<and> sg_exit r = None"

text \<open>The open rows of a key with their ids, by entry time.\<close>

definition openSignalsByKey :: "string \<Rightarrow> pairDirection \<Rightarrow> jsnum \<Rightarrow> engineState \<Rightarrow> (nat \<times> signalRow) list" where
  "openSignalsByKey pid side sz s = js_sort (gt_on (\<lambda>x. sg_entryAt (snd x)))
     (filter (\<lambda>x. open_for pid side sz (snd x)) (zip [1..<Suc (length (es_signals s))] (es_signals s)))"

section \<open>The engine\<close>

record 'm engineConfig =
  eg_staleAfterMs :: jsnum
  eg_transactionCostBps :: jsnum
  eg_executor :: "('m execHost \<times> executorConfig) option"

record observation =
  ob_pair :: pairConfig
  ob_side :: pairDirection
  ob_sizeUsd :: jsnum
  ob_basePriceUsd :: jsnum
  ob_tokenPriceUsd :: jsnum
  ob_netEdgeBps :: jsnum
  ob_quoteId :: nat
  ob_basisId :: nat
  ob_qualityStatus :: quoteQualityStatus
  ob_qualityReason :: string
  ob_observedAtMs :: jsnum
  ob_nowMs :: jsnum

definition signalExitPnlUsd :: "jsnum \<Rightarrow> jsnum \<Rightarrow> jsnum \<Rightarrow> jsnum \<Rightarrow> jsnum" where
  "signalExitPnlUsd sizeUsd tokenUnits exitTokenPriceUsd transactionCostBps =
    (let exitGross = js_mul tokenUnits exitTokenPriceUsd;
         entryCosts = js_mul sizeUsd (js_div transactionCostBps (Num 10000));
         exitCosts = js_mul exitGross (js_div transactionCostBps (Num 10000))
     in js_sub (js_sub (js_sub exitGross sizeUsd) entryCosts) exitCosts)"

definition live_mode :: "tradeExecutionMode \<Rightarrow> bool" where
  "live_mode m \<longleftrightarrow> m = JupiterManaged \<or> m = HeliusSender"

definition requiresLiveSuccess :: "'m engineConfig \<Rightarrow> bool" where
  "requiresLiveSuccess cfg = (case eg_executor cfg of None \<Rightarrow> False | Some (h, ec) \<Rightarrow> live_mode (ec_mode ec))"

definition run_trade :: "'m execHost \<Rightarrow> executorConfig \<Rightarrow> (js_error, tradeExecutionInput) result \<Rightarrow> engineState \<Rightarrow>
    ((js_error, tradeExecutionResult option) result \<times> engineState) option" where
  "run_trade h ec input s = (case input of Inl e \<Rightarrow> Some (Inl e, s)
     | Inr a \<Rightarrow> map_option (\<lambda>(r, x). (and_then r (\<lambda>v. Inr (Some v)), s\<lparr> es_exec := x \<rparr>)) (execute h ec a (es_exec s)))"

definition executeOpen :: "'m engineConfig \<Rightarrow> observation \<Rightarrow> engineState \<Rightarrow>
    ((js_error, tradeExecutionResult option) result \<times> engineState) option" where
  "executeOpen cfg a s = (case eg_executor cfg of None \<Rightarrow> Some (Inr None, s)
     | Some (h, ec) \<Rightarrow> if \<not> enabled ec then Some (Inr None, s)
         else run_trade h ec (and_then (uiToAtomic (ob_sizeUsd a) (decimals_of (pc_quoteDecimals (ob_pair a)))) (\<lambda>amount.
           Inr \<lparr> ta_action = OpenTrade, ta_pair = ob_pair a, ta_side = BuyTokenized, ta_sizeUsd = ob_sizeUsd a,
             ta_basePriceUsd = ob_basePriceUsd a, ta_tokenPriceUsd = ob_tokenPriceUsd a, ta_edgeBps = ob_netEdgeBps a,
             ta_inputAmount = amount, ta_signalId = None,
             ta_dedupeKey = ''open:'' @ pc_id (ob_pair a) @ '':'' @ show_num (ob_sizeUsd a) \<rparr>)) s)"

definition live_entry :: "signalRow \<Rightarrow> bool" where
  "live_entry p \<longleftrightarrow> sg_entryExecutionId p \<noteq> None \<and> sg_executionMode p \<noteq> Paper \<and> sg_executionMode p \<noteq> JupiterDryRun"

definition executeClose :: "'m engineConfig \<Rightarrow> observation \<Rightarrow> nat \<Rightarrow> signalRow \<Rightarrow> engineState \<Rightarrow>
    ((js_error, tradeExecutionResult option) result \<times> engineState) option" where
  "executeClose cfg a i p s = (case eg_executor cfg of None \<Rightarrow> Some (Inr None, s)
     | Some (h, ec) \<Rightarrow>
         if \<not> enabled ec then Some (Inr None, s)
         else if requiresLiveSuccess cfg \<and> (\<not> live_entry p \<or> sg_tokenUnits p = None) then Some (Inr None, s)
         else run_trade h ec (and_then (uiToAtomic (case sg_tokenUnits p of Some u \<Rightarrow> u | None \<Rightarrow> Num 0)
             (decimals_of (pc_tokDecimals (ob_pair a)))) (\<lambda>amount.
           Inr \<lparr> ta_action = CloseTrade, ta_pair = ob_pair a, ta_side = SellTokenized, ta_sizeUsd = ob_sizeUsd a,
             ta_basePriceUsd = ob_basePriceUsd a, ta_tokenPriceUsd = ob_tokenPriceUsd a, ta_edgeBps = ob_netEdgeBps a,
             ta_inputAmount = amount, ta_signalId = Some i, ta_dedupeKey = ''close:'' @ show_nat i \<rparr>)) s)"

definition succeeded :: "tradeExecutionResult option \<Rightarrow> bool" where
  "succeeded x \<longleftrightarrow> (case x of Some r \<Rightarrow> tr_status r = Recorded StSuccess | None \<Rightarrow> False)"

definition execution_id :: "tradeExecutionResult option \<Rightarrow> nat option" where
  "execution_id x = (case x of Some r \<Rightarrow> tr_executionId r | None \<Rightarrow> None)"

text \<open>The guards of an opening, up to and with the query of the open rows.\<close>

definition open_decision :: "observation \<Rightarrow> engineState \<Rightarrow> bool" where
  "open_decision a s \<longleftrightarrow> SellTokenized \<in> set (pc_directions (ob_pair a)) \<and> \<not> js_le (ob_tokenPriceUsd a) (Num 0) \<and>
     openSignalsByKey (pc_id (ob_pair a)) BuyTokenized (ob_sizeUsd a) s = [] \<and>
     \<not> js_lt (ob_netEdgeBps a) (pc_minNetEdgeBps (ob_pair a))"

definition entry_row :: "'m engineConfig \<Rightarrow> observation \<Rightarrow> tradeExecutionResult option \<Rightarrow> signalRow" where
  "entry_row cfg a x = \<lparr>
     sg_pairId = pc_id (ob_pair a), sg_side = BuyTokenized, sg_sizeUsd = ob_sizeUsd a,
     sg_thresholdBps = pc_minNetEdgeBps (ob_pair a), sg_entryEdgeBps = ob_netEdgeBps a,
     sg_entryTokenPriceUsd = Some (ob_tokenPriceUsd a), sg_entryBasePriceUsd = Some (ob_basePriceUsd a),
     sg_entryQuoteId = Some (ob_quoteId a), sg_entryBasisId = Some (ob_basisId a),
     sg_tokenUnits = Some (case x of
        Some r \<Rightarrow> (case outputTokenUnits r (ob_pair a) of Some u \<Rightarrow> u | None \<Rightarrow> js_div (ob_sizeUsd a) (ob_tokenPriceUsd a))
      | None \<Rightarrow> js_div (ob_sizeUsd a) (ob_tokenPriceUsd a)),
     sg_entryObservedAt = ob_observedAtMs a, sg_entryQualityStatus = ob_qualityStatus a,
     sg_entryQualityReason = ob_qualityReason a, sg_entryAt = ob_nowMs a,
     sg_executionMode = (case x of Some r \<Rightarrow> tr_mode r | None \<Rightarrow> Paper),
     sg_entryExecutionId = execution_id x, sg_exit = None \<rparr>"

text \<open>The row of an entry and its link to the execution.\<close>

definition opened :: "'m engineConfig \<Rightarrow> observation \<Rightarrow> tradeExecutionResult option \<Rightarrow> engineState \<Rightarrow> engineState" where
  "opened cfg a x s = (case openSignal (entry_row cfg a x) s of (signalId, s2) \<Rightarrow>
     (case execution_id x of None \<Rightarrow> s2
      | Some k \<Rightarrow> s2\<lparr> es_exec := attachTradeExecutionSignal k signalId (es_exec s2) \<rparr>))"

text \<open>What follows the guards of an opening: the trade, then the row.\<close>

definition open_commit :: "'m engineConfig \<Rightarrow> observation \<Rightarrow> engineState \<Rightarrow> ((js_error, unit) result \<times> engineState) option" where
  "open_commit cfg a s = Option.bind (executeOpen cfg a s) (\<lambda>(res, s1). case res of
     Inl e \<Rightarrow> Some (Inl e, s1)
   | Inr x \<Rightarrow>
       if requiresLiveSuccess cfg \<and> \<not> succeeded x then Some (Inr (), s1)
       else Some (Inr (), opened cfg a x s1))"

definition maybeOpenSpotInventory :: "'m engineConfig \<Rightarrow> observation \<Rightarrow> engineState \<Rightarrow>
    ((js_error, unit) result \<times> engineState) option" where
  "maybeOpenSpotInventory cfg a s = (if open_decision a s then open_commit cfg a s else Some (Inr (), s))"

definition exit_outcome :: "bool \<Rightarrow> jsnum \<Rightarrow> signalOutcome" where
  "exit_outcome stale pnl = (if stale \<and> js_le pnl (fl (1/100)) then StaleOut
     else if js_gt pnl (fl (1/100)) then Win
     else if js_lt pnl (fl (- 1/100)) then Loss else Flat)"

definition is_stale :: "'m engineConfig \<Rightarrow> observation \<Rightarrow> signalRow \<Rightarrow> bool" where
  "is_stale cfg a p \<longleftrightarrow> js_ge (js_sub (ob_nowMs a) (sg_entryAt p)) (eg_staleAfterMs cfg)"

definition exit_pnl :: "'m engineConfig \<Rightarrow> observation \<Rightarrow> signalRow \<Rightarrow> jsnum \<Rightarrow> jsnum" where
  "exit_pnl cfg a p units = signalExitPnlUsd (sg_sizeUsd p) units (ob_tokenPriceUsd a) (eg_transactionCostBps cfg)"

definition exit_row :: "'m engineConfig \<Rightarrow> observation \<Rightarrow> signalRow \<Rightarrow> jsnum \<Rightarrow> tradeExecutionResult option \<Rightarrow> signalExit" where
  "exit_row cfg a p units x = (let pnl = exit_pnl cfg a p units in \<lparr>
     sx_exitAt = ob_nowMs a, sx_exitEdgeBps = ob_netEdgeBps a,
     sx_pnlUsd = pnl, sx_outcome = exit_outcome (is_stale cfg a p) pnl, sx_exitSide = SellTokenized,
     sx_exitTokenPriceUsd = ob_tokenPriceUsd a, sx_exitBasePriceUsd = ob_basePriceUsd a,
     sx_exitQuoteId = Some (ob_quoteId a), sx_exitBasisId = Some (ob_basisId a),
     sx_exitObservedAt = ob_observedAtMs a, sx_exitQualityStatus = ob_qualityStatus a,
     sx_exitQualityReason = ob_qualityReason a,
     sx_exitReason = (if js_ge pnl (Num 0) then Converged else Stale),
     sx_exitExecutionId = execution_id x \<rparr>)"

text \<open>One position of the closing loop: the rest of the loop runs unless a promise is rejected.\<close>

fun close_loop :: "'m engineConfig \<Rightarrow> observation \<Rightarrow> (nat \<times> signalRow) list \<Rightarrow> engineState \<Rightarrow>
    ((js_error, unit) result \<times> engineState) option" where
  "close_loop cfg a [] s = Some (Inr (), s)"
| "close_loop cfg a ((i, p) # ps) s =
    (case (sg_tokenUnits p, sg_entryTokenPriceUsd p, sg_entryBasePriceUsd p) of
       (Some units, Some tp, Some bp) \<Rightarrow>
         if \<not> is_stale cfg a p \<and> \<not> js_ge (exit_pnl cfg a p units) (Num 0) then close_loop cfg a ps s
         else Option.bind (executeClose cfg a i p s) (\<lambda>(res, s1). case res of
             Inl e \<Rightarrow> Some (Inl e, s1)
           | Inr x \<Rightarrow>
               if requiresLiveSuccess cfg \<and> \<not> succeeded x then close_loop cfg a ps s1
               else close_loop cfg a ps (closeSignal i (exit_row cfg a p units x) s1))
     | _ \<Rightarrow> close_loop cfg a ps s)"

definition maybeCloseSpotInventory :: "'m engineConfig \<Rightarrow> observation \<Rightarrow> engineState \<Rightarrow>
    ((js_error, unit) result \<times> engineState) option" where
  "maybeCloseSpotInventory cfg a s =
     close_loop cfg a (openSignalsByKey (pc_id (ob_pair a)) BuyTokenized (ob_sizeUsd a) s) s"

definition onObservation :: "'m engineConfig \<Rightarrow> observation \<Rightarrow> engineState \<Rightarrow> ((js_error, unit) result \<times> engineState) option" where
  "onObservation cfg a s = (if ob_side a = BuyTokenized then maybeOpenSpotInventory cfg a s else maybeCloseSpotInventory cfg a s)"

section \<open>Runs of the engine\<close>

text \<open>The bot handles observations one after the other; a rejected promise is counted and the next
  observation goes on.\<close>

fun obs_run :: "'m engineConfig \<Rightarrow> observation list \<Rightarrow> engineState \<Rightarrow> engineState option" where
  "obs_run cfg [] s = Some s"
| "obs_run cfg (a # as) s = Option.bind (onObservation cfg a s) (\<lambda>(r, s'). obs_run cfg as s')"

lemma run_trade_signals: "run_trade h ec input s = Some (r, s1) \<Longrightarrow> es_signals s1 = es_signals s"
  by (auto simp add: run_trade_def split: sum.splits)

lemma trade_signals:
  "executeOpen cfg a s = Some (r, s1) \<Longrightarrow> es_signals s1 = es_signals s"
  "executeClose cfg a i p s = Some (r, s1) \<Longrightarrow> es_signals s1 = es_signals s"
  by (auto simp add: executeOpen_def executeClose_def split: option.splits if_splits prod.splits dest: run_trade_signals)

lemma zip_ids: "(i, p) \<in> set (zip [1..<Suc (length xs)] xs) \<longleftrightarrow> 0 < i \<and> i \<le> length xs \<and> xs ! (i - 1) = p"
proof
  assume "(i, p) \<in> set (zip [1..<Suc (length xs)] xs)"
  then obtain k where "k < length xs" "i = [1..<Suc (length xs)] ! k" "p = xs ! k" by (auto simp add: in_set_zip)
  then show "0 < i \<and> i \<le> length xs \<and> xs ! (i - 1) = p" by (simp add: nth_upt del: upt_Suc)
next
  assume a: "0 < i \<and> i \<le> length xs \<and> xs ! (i - 1) = p"
  then obtain k where k: "i = Suc k" "k < length xs" "xs ! k = p" by (cases i) auto
  then have "[1..<Suc (length xs)] ! k = i" by (simp add: nth_upt del: upt_Suc)
  then show "(i, p) \<in> set (zip [1..<Suc (length xs)] xs)"
    using k unfolding in_set_zip by (intro exI [of _ k]) (simp del: upt_Suc)
qed

lemma open_rows:
  "(i, p) \<in> set (openSignalsByKey pid side sz s) \<longleftrightarrow>
     open_for pid side sz p \<and> 0 < i \<and> i \<le> length (es_signals s) \<and> es_signals s ! (i - 1) = p"
  unfolding openSignalsByKey_def set_js_sort set_filter mem_Collect_eq zip_ids by auto

lemma distinct_open_ids: "distinct (map fst (openSignalsByKey pid side sz s))"
proof -
  let ?z = "zip [1..<Suc (length (es_signals s))] (es_signals s)"
  let ?f = "filter (\<lambda>x. open_for pid side sz (snd x)) ?z"
  have "distinct (map fst ?z)" by (simp add: map_fst_zip del: upt_Suc)
  then have "distinct (map fst ?f)" by (rule distinct_map_filter)
  moreover have "mset (map fst (openSignalsByKey pid side sz s)) = mset (map fst ?f)"
    by (simp add: openSignalsByKey_def)
  ultimately show ?thesis by (metis mset_eq_imp_distinct_iff)
qed

text \<open>The cut between a trade and a row that closes: what the loop knows of the position.\<close>

definition closable :: "'m engineConfig \<Rightarrow> observation \<Rightarrow> nat \<Rightarrow> signalRow \<Rightarrow> jsnum \<Rightarrow> engineState \<Rightarrow> bool" where
  "closable cfg a i p units s \<longleftrightarrow> 0 < i \<and> i \<le> length (es_signals s) \<and> es_signals s ! (i - 1) = p \<and>
     open_for (pc_id (ob_pair a)) BuyTokenized (ob_sizeUsd a) p \<and> sg_tokenUnits p = Some units \<and> (is_stale cfg a p \<or> js_ge (exit_pnl cfg a p units) (Num 0))"

definition settled_trade :: "'m engineConfig \<Rightarrow> tradeExecutionResult option \<Rightarrow> bool" where
  "settled_trade cfg x \<longleftrightarrow> (requiresLiveSuccess cfg \<longrightarrow> succeeded x)"

locale engine_invariant =
  fixes cfg :: "'m engineConfig" and admits :: "observation \<Rightarrow> bool" and I :: "engineState \<Rightarrow> bool"
  assumes trade_open: "I s \<Longrightarrow> executeOpen cfg a s = Some (r, s1) \<Longrightarrow> I s1"
    and trade_close: "I s \<Longrightarrow> executeClose cfg a i p s = Some (r, s1) \<Longrightarrow> I s1"
    and row_opened: "admits a \<Longrightarrow> ob_side a = BuyTokenized \<Longrightarrow> I s \<Longrightarrow> open_decision a s \<Longrightarrow> executeOpen cfg a s = Some (Inr x, s1) \<Longrightarrow> settled_trade cfg x \<Longrightarrow>
      I (opened cfg a x s1)"
    and row_closed: "admits a \<Longrightarrow> ob_side a = SellTokenized \<Longrightarrow> I s \<Longrightarrow> executeClose cfg a i p s = Some (Inr x, s1) \<Longrightarrow> settled_trade cfg x \<Longrightarrow>
      closable cfg a i p units s \<Longrightarrow> I (closeSignal i (exit_row cfg a p units x) s1)"
begin

lemma loop:
  assumes admitted: "admits a" "ob_side a = SellTokenized"
  shows "I s \<Longrightarrow> close_loop cfg a ps s = Some (r, s') \<Longrightarrow> distinct (map fst ps) \<Longrightarrow>
    \<forall>(i, p) \<in> set ps. open_for (pc_id (ob_pair a)) BuyTokenized (ob_sizeUsd a) p \<and>
      0 < i \<and> i \<le> length (es_signals s) \<and> es_signals s ! (i - 1) = p \<Longrightarrow> I s'"
proof (induction ps arbitrary: s)
  case (Cons q ps)
  obtain i p where q: "q = (i, p)" by fastforce
  have at: "0 < i" "i \<le> length (es_signals s)" "es_signals s ! (i - 1) = p"
    "open_for (pc_id (ob_pair a)) BuyTokenized (ob_sizeUsd a) p" using Cons.prems(4) q by auto
  show ?case
  proof (cases "\<exists>units tp bp. sg_tokenUnits p = Some units \<and> sg_entryTokenPriceUsd p = Some tp \<and> sg_entryBasePriceUsd p = Some bp \<and>
      (is_stale cfg a p \<or> js_ge (exit_pnl cfg a p units) (Num 0))")
    case False
    then have "close_loop cfg a (q # ps) s = close_loop cfg a ps s" by (auto simp add: q split: option.splits)
    then show ?thesis using Cons by auto
  next
    case True
    then obtain units tp bp where u: "sg_tokenUnits p = Some units" "sg_entryTokenPriceUsd p = Some tp"
      "sg_entryBasePriceUsd p = Some bp" "is_stale cfg a p \<or> js_ge (exit_pnl cfg a p units) (Num 0)" by blast
    then obtain res s1 where e: "executeClose cfg a i p s = Some (res, s1)"
      using Cons.prems(2) by (auto simp add: q bind_eq_Some_conv)
    have s1: "es_signals s1 = es_signals s" "I s1" using trade_signals(2) [OF e] trade_close [OF Cons.prems(1) e] by auto
    show ?thesis
    proof (cases res)
      case (Inl err)
      then show ?thesis using Cons.prems(2) u e s1(2) by (auto simp add: q)
    next
      case (Inr x)
      show ?thesis
      proof (cases "settled_trade cfg x")
        case False
        then have "close_loop cfg a ps s1 = Some (r, s')"
          using Cons.prems(2) u e Inr by (auto simp add: q settled_trade_def)
        then show ?thesis using Cons.IH [OF s1(2)] Cons.prems(3,4) s1(1) by auto
      next
        case True
        let ?s2 = "closeSignal i (exit_row cfg a p units x) s1"
        have go: "close_loop cfg a ps ?s2 = Some (r, s')"
          using Cons.prems(2) u e Inr True by (auto simp add: q settled_trade_def)
        have "closable cfg a i p units s" using at u by (simp add: closable_def)
        then have I2: "I ?s2" using row_closed [OF admitted Cons.prems(1)] e Inr True by simp
        have "\<forall>(j, p') \<in> set ps. open_for (pc_id (ob_pair a)) BuyTokenized (ob_sizeUsd a) p' \<and> 0 < j \<and> j \<le> length (es_signals ?s2) \<and> es_signals ?s2 ! (j - 1) = p'"
        proof clarify
          fix j p' assume jp: "(j, p') \<in> set ps"
          then have j: "0 < j" "j \<le> length (es_signals s)" "es_signals s ! (j - 1) = p'" "j \<noteq> i"
            "open_for (pc_id (ob_pair a)) BuyTokenized (ob_sizeUsd a) p'"
            using Cons.prems(3,4) q by (auto simp add: image_iff)
          have "i - 1 \<noteq> j - 1" using at(1) j(1,4) by simp
          then show "open_for (pc_id (ob_pair a)) BuyTokenized (ob_sizeUsd a) p' \<and> 0 < j \<and> j \<le> length (es_signals ?s2) \<and> es_signals ?s2 ! (j - 1) = p'"
            using j at by (simp add: closeSignal_def s1(1))
        qed
        then show ?thesis using Cons.IH [OF I2 go] Cons.prems(3) by simp
      qed
    qed
  qed
qed simp

lemma observation:
  assumes admitted: "admits a"
  shows "I s \<Longrightarrow> onObservation cfg a s = Some (r, s') \<Longrightarrow> I s'"
proof (cases "ob_side a = BuyTokenized")
  case True
  assume I: "I s" and o: "onObservation cfg a s = Some (r, s')"
  show "I s'"
  proof (cases "open_decision a s")
    case False
    then show ?thesis using I o True by (simp add: onObservation_def maybeOpenSpotInventory_def)
  next
    case d: True
    then obtain res s1 where e: "executeOpen cfg a s = Some (res, s1)"
      using o True by (auto simp add: onObservation_def maybeOpenSpotInventory_def open_commit_def bind_eq_Some_conv)
    have "I s1" by (rule trade_open [OF I e])
    then show ?thesis using o True d e row_opened [OF admitted True I d, of _ s1]
      by (auto simp add: onObservation_def maybeOpenSpotInventory_def open_commit_def settled_trade_def
          split: sum.splits if_splits)
  qed
next
  case False
  assume I: "I s" and o: "onObservation cfg a s = Some (r, s')"
  have sell: "ob_side a = SellTokenized" using False by (cases "ob_side a") simp_all
  show "I s'"
    using o False
    by (intro loop [OF admitted sell I, of "openSignalsByKey (pc_id (ob_pair a)) BuyTokenized (ob_sizeUsd a) s" r])
      (auto simp add: onObservation_def maybeCloseSpotInventory_def distinct_open_ids open_rows)
qed

lemma run: "I s \<Longrightarrow> obs_run cfg as s = Some s' \<Longrightarrow> list_all admits as \<Longrightarrow> I s'"
  by (induction as arbitrary: s) (auto simp add: bind_eq_Some_conv dest: observation)

end

section \<open>At most one open position\<close>

definition one_open :: "engineState \<Rightarrow> bool" where
  "one_open s \<longleftrightarrow> (\<forall>pid sz. length (filter (open_for pid BuyTokenized sz) (es_signals s)) \<le> 1)"

lemma no_open_rows: "openSignalsByKey pid side sz s = [] \<longleftrightarrow> filter (open_for pid side sz) (es_signals s) = []"
proof -
  have "openSignalsByKey pid side sz s = [] \<longleftrightarrow> (\<forall>i p. (i, p) \<notin> set (openSignalsByKey pid side sz s))"
    by (cases "openSignalsByKey pid side sz s") auto
  also have "\<dots> \<longleftrightarrow> (\<forall>i. 0 < i \<longrightarrow> i \<le> length (es_signals s) \<longrightarrow> \<not> open_for pid side sz (es_signals s ! (i - 1)))"
    unfolding open_rows by auto
  also have "\<dots> \<longleftrightarrow> (\<forall>k < length (es_signals s). \<not> open_for pid side sz (es_signals s ! k))"
    by (auto simp add: gr0_conv_Suc Suc_le_eq)
  also have "\<dots> \<longleftrightarrow> (\<forall>p \<in> set (es_signals s). \<not> open_for pid side sz p)" by (simp add: all_set_conv_all_nth)
  finally show ?thesis by (simp add: filter_empty_conv)
qed

lemma filter_update_closed: "i < length xs \<Longrightarrow> \<not> P y \<Longrightarrow> length (filter P (xs[i := y])) \<le> length (filter P xs)"
  by (induction xs arbitrary: i) (auto simp add: nth_Cons split: nat.splits)

lemma opened_signals: "es_signals (opened cfg a x s) = es_signals s @ [entry_row cfg a x]"
  by (simp add: opened_def openSignal_def split: option.splits)

lemma one_open_opened:
  assumes "one_open s" "open_decision a s" "es_signals s1 = es_signals s"
  shows "one_open (opened cfg a x s1)"
  unfolding one_open_def
proof clarify
  fix pid sz
  let ?f = "filter (open_for pid BuyTokenized sz)"
  have one: "length (?f (es_signals s)) \<le> 1" using assms(1) by (simp add: one_open_def)
  show "length (?f (es_signals (opened cfg a x s1))) \<le> 1"
  proof (cases "open_for pid BuyTokenized sz (entry_row cfg a x)")
    case True
    then have "pid = pc_id (ob_pair a)" "sz = ob_sizeUsd a" by (auto simp add: open_for_def entry_row_def)
    then have "?f (es_signals s) = []" using assms(2) no_open_rows by (simp add: open_decision_def)
    then show ?thesis by (simp add: opened_signals assms(3))
  qed (use one in \<open>simp add: opened_signals assms(3)\<close>)
qed

lemma one_open_closed:
  assumes "one_open s" "es_signals s1 = es_signals s"
  shows "one_open (closeSignal i x s1)"
proof (cases "0 < i \<and> i \<le> length (es_signals s)")
  case True
  let ?y = "(es_signals s ! (i - 1))\<lparr> sg_exit := Some x \<rparr>"
  have "i - 1 < length (es_signals s)" "\<not> open_for pid side sz ?y" for pid side sz
    using True by (auto simp add: open_for_def)
  then have "length (filter (open_for pid side sz) ((es_signals s)[i - 1 := ?y])) \<le> length (filter (open_for pid side sz) (es_signals s))" for pid side sz
    by (intro filter_update_closed)
  then have "length (filter (open_for pid BuyTokenized sz) (es_signals (closeSignal i x s1))) \<le>
      length (filter (open_for pid BuyTokenized sz) (es_signals s))" for pid sz
    using assms(2) True by (simp add: closeSignal_def)
  then show ?thesis using assms(1) unfolding one_open_def by (meson le_trans)
qed (use assms in \<open>auto simp add: closeSignal_def one_open_def\<close>)

interpretation single: engine_invariant cfg "\<lambda>_. True" one_open for cfg
proof
  fix s a r s1 assume "one_open s" "executeOpen cfg a s = Some (r, s1)"
  then show "one_open s1" using trade_signals(1) [of cfg a s r s1] by (simp add: one_open_def)
next
  fix s a i p r s1 assume "one_open s" "executeClose cfg a i p s = Some (r, s1)"
  then show "one_open s1" using trade_signals(2) [of cfg a i p s r s1] by (simp add: one_open_def)
next
  fix s a x s1 assume "one_open s" "open_decision a s" "executeOpen cfg a s = Some (Inr x, s1)"
  then show "one_open (opened cfg a x s1)" by (intro one_open_opened trade_signals(1))
next
  fix s a i p x s1 units assume "one_open s" "executeClose cfg a i p s = Some (Inr x, s1)"
  then show "one_open (closeSignal i (exit_row cfg a p units x) s1)" by (intro one_open_closed trade_signals(2))
qed

text \<open>C23: At most one position per pair and size: however the trades end, a bot that handles its
  observations one after the other never has two open signals of the same pair and size.\<close>

theorem one_open_position:
  assumes "obs_run cfg as s = Some s'" and "es_signals s = []"
  shows "length (openSignalsByKey pid BuyTokenized sz s') \<le> 1"
proof -
  have "one_open s'" by (rule single.run [OF _ assms(1)]) (simp_all add: one_open_def assms(2) list_all_iff)
  then have "length (filter (open_for pid BuyTokenized sz) (es_signals s')) \<le> 1" by (simp add: one_open_def)
  moreover have "length (openSignalsByKey pid BuyTokenized sz s') = length (filter (open_for pid BuyTokenized sz) (es_signals s'))"
  proof -
    let ?xs = "es_signals s'"
    have "filter (open_for pid BuyTokenized sz) ?xs = map snd (filter (\<lambda>x. open_for pid BuyTokenized sz (snd x)) (zip [1..<Suc (length ?xs)] ?xs))"
      using filter_map [of "open_for pid BuyTokenized sz" snd "zip [1..<Suc (length ?xs)] ?xs"]
      by (simp add: map_snd_zip comp_def del: upt_Suc)
    then show ?thesis by (simp add: openSignalsByKey_def del: upt_Suc)
  qed
  ultimately show ?thesis by simp
qed

section \<open>What a closed row says\<close>

definition exit_books :: "'m engineConfig \<Rightarrow> signalRow \<Rightarrow> bool" where
  "exit_books cfg r \<longleftrightarrow> (\<forall>x units. sg_exit r = Some x \<longrightarrow> sg_tokenUnits r = Some units \<longrightarrow>
     (let pnl = sx_pnlUsd x; stale = js_ge (js_sub (sx_exitAt x) (sg_entryAt r)) (eg_staleAfterMs cfg) in
      pnl = signalExitPnlUsd (sg_sizeUsd r) units (sx_exitTokenPriceUsd x) (eg_transactionCostBps cfg) \<and>
      (stale \<or> js_ge pnl (Num 0)) \<and> sx_exitReason x = (if js_ge pnl (Num 0) then Converged else Stale) \<and>
      sx_outcome x = exit_outcome stale pnl))"

lemma books_close:
  assumes "\<forall>r \<in> set (es_signals s). exit_books cfg r" "es_signals s1 = es_signals s" "closable cfg a i p units s"
  shows "\<forall>r \<in> set (es_signals (closeSignal i (exit_row cfg a p units x) s1)). exit_books cfg r"
proof -
  have i: "0 < i" "i \<le> length (es_signals s)" "es_signals s ! (i - 1) = p" using assms(3) by (auto simp add: closable_def)
  have "exit_books cfg (p\<lparr> sg_exit := Some (exit_row cfg a p units x) \<rparr>)"
    using assms(3) by (auto simp add: exit_books_def closable_def exit_row_def exit_pnl_def is_stale_def Let_def)
  then show ?thesis using assms(1) i set_update_subset_insert [of "es_signals s" "i - 1" "p\<lparr> sg_exit := Some (exit_row cfg a p units x) \<rparr>"]
    by (auto simp add: closeSignal_def assms(2))
qed

lemma books_entry: "exit_books cfg (entry_row cfg a x)"
  by (simp add: exit_books_def entry_row_def)

interpretation books: engine_invariant cfg "\<lambda>_. True" "\<lambda>s. \<forall>r \<in> set (es_signals s). exit_books cfg r" for cfg
proof
  fix s i p a x s1 units
  assume "\<forall>r \<in> set (es_signals s). exit_books cfg r" "executeClose cfg a i p s = Some (Inr x, s1)" "closable cfg a i p units s"
  then show "\<forall>r \<in> set (es_signals (closeSignal i (exit_row cfg a p units x) s1)). exit_books cfg r"
    using books_close trade_signals(2) by blast
next
  fix s a r s1 assume "\<forall>r \<in> set (es_signals s). exit_books cfg r" "executeOpen cfg a s = Some (r, s1)"
  then show "\<forall>r \<in> set (es_signals s1). exit_books cfg r" using trade_signals(1) by metis
next
  fix s a i p r s1 assume "\<forall>r \<in> set (es_signals s). exit_books cfg r" "executeClose cfg a i p s = Some (r, s1)"
  then show "\<forall>r \<in> set (es_signals s1). exit_books cfg r" using trade_signals(2) by metis
next
  fix s a x s1 assume "\<forall>r \<in> set (es_signals s). exit_books cfg r" "executeOpen cfg a s = Some (Inr x, s1)"
  then show "\<forall>r \<in> set (es_signals (opened cfg a x s1)). exit_books cfg r"
    using books_entry trade_signals(1) [of cfg a s "Inr x" s1] by (simp add: opened_signals)
qed

lemma cent: "js_lt (fl (- 1/100)) (Num 0)" "js_lt (Num 0) (fl (1/100))"
proof -
  define d :: rat where "d = 1 / 128"
  have "(2::rat) powi (- 7) = 1 / 128" by (simp only: power_int_minus power_int_numeral inverse_eq_divide) simp
  then have "is_double d" unfolding is_double_def d_def by (intro exI [of _ 1] exI [of _ "- 7"]) simp
  moreover have "\<bar>d\<bar> < 2 ^ 1024"
  proof -
    have "\<bar>d\<bar> < 1 + 1" by (simp add: d_def)
    also have "(1 + 1 :: rat) \<le> 2 ^ 1024" using power_increasing [of 1 1024 "2::rat"] by simp
    finally show ?thesis .
  qed
  ultimately have d: "fl d = Num d" "fl (- d) = Num (- d)" using fl_double is_double_minus by auto
  have "js_le (fl (- 1/100)) (Num (- d))" by (rule fl_le_double [OF _ d(2)]) (simp add: d_def)
  then show "js_lt (fl (- 1/100)) (Num 0)" using js_le_lt_trans [of _ "Num (- d)" "Num 0"] by (simp add: d_def)
  have "js_le (Num d) (fl (1/100))" by (rule fl_ge_double [OF _ d(1)]) (simp add: d_def)
  then show "js_lt (Num 0) (fl (1/100))" using js_lt_le_trans [of "Num 0" "Num d"] by (simp add: d_def)
qed

lemma exit_outcome_cases:
  assumes "stale \<or> js_ge pnl (Num 0)"
  shows "exit_outcome stale pnl = (if stale \<and> js_le pnl (fl (1/100)) then StaleOut else if js_gt pnl (fl (1/100)) then Win else Flat)"
proof -
  have "\<not> js_lt pnl (fl (- 1/100))" if "js_ge pnl (Num 0)"
    using js_le_lt_trans [OF that] cent(1) js_lt_le_trans by (metis js_lt.simps(4) js_lt_imp_le js_le_lt_trans that less_irrefl js_lt.simps)
  moreover have "js_le pnl (fl (1/100))" if "js_lt pnl (fl (- 1/100))"
    using that cent js_lt_imp_le js_le_trans by blast
  moreover have "\<not> js_gt pnl (fl (1/100))" if "js_le pnl (fl (1/100))"
    using that by (cases pnl; cases "fl (1/100)") (auto simp add: js_le_def js_eq_def)
  ultimately show ?thesis using assms by (auto simp add: exit_outcome_def)
qed

text \<open>C24: The books of every closed signal are exact, over any sequence of observations handled one after the
  other from an empty table: its profit is that of its own units at the exit price less the costs of both
  legs; it was closed because it had become stale or because the profit was not negative, and the reason is
  converged exactly in the second case; the outcome is closed_stale when it was stale with at most a cent of
  profit, else closed_win above a cent and closed_flat otherwise. The outcome closed_loss never occurs.\<close>

theorem closed_books_exact:
  assumes "obs_run cfg as s = Some s'" and "es_signals s = []" and "r \<in> set (es_signals s')" and "sg_exit r = Some x"
    and "sg_tokenUnits r = Some units"
  shows "(let gross = js_mul units (sx_exitTokenPriceUsd x); cost = js_div (eg_transactionCostBps cfg) (Num 10000);
      pnl = js_sub (js_sub (js_sub gross (sg_sizeUsd r)) (js_mul (sg_sizeUsd r) cost)) (js_mul gross cost);
      stale = js_ge (js_sub (sx_exitAt x) (sg_entryAt r)) (eg_staleAfterMs cfg)
    in sx_pnlUsd x = pnl \<and> (stale \<or> js_ge pnl (Num 0)) \<and>
      sx_exitReason x = (if js_ge pnl (Num 0) then Converged else Stale) \<and>
      sx_outcome x = (if stale \<and> js_le pnl (fl (1/100)) then StaleOut else if js_gt pnl (fl (1/100)) then Win else Flat))"
proof -
  have "\<forall>r \<in> set (es_signals s'). exit_books cfg r" by (rule books.run [OF _ assms(1)]) (simp_all add: assms(2) list_all_iff)
  then have b: "exit_books cfg r" using assms(3) by blast
  define pnl stale where "pnl = signalExitPnlUsd (sg_sizeUsd r) units (sx_exitTokenPriceUsd x) (eg_transactionCostBps cfg)"
    and "stale = js_ge (js_sub (sx_exitAt x) (sg_entryAt r)) (eg_staleAfterMs cfg)"
  have x: "sx_pnlUsd x = pnl" "stale \<or> js_ge pnl (Num 0)" "sx_exitReason x = (if js_ge pnl (Num 0) then Converged else Stale)"
    "sx_outcome x = exit_outcome stale pnl"
    using b assms(4,5) by (auto simp add: exit_books_def Let_def pnl_def stale_def)
  show ?thesis using x [unfolded exit_outcome_cases [OF x(2)]] unfolding pnl_def stale_def signalExitPnlUsd_def Let_def by blast
qed

section \<open>Live positions are backed by executions\<close>

text \<open>The k-th row of trade_executions is a success of this action for this signal.\<close>

definition backing :: "engineState \<Rightarrow> tradeAction \<Rightarrow> nat \<Rightarrow> nat option \<Rightarrow> bool" where
  "backing s act i k \<longleftrightarrow> (\<exists>n. k = Some (Suc n) \<and> n < length (te_rows (es_exec s)) \<and>
     (let row = te_rows (es_exec s) ! n in ti_status row = StSuccess \<and> ti_action row = act \<and> ti_signalId row = Some i))"

definition backed_row :: "engineState \<Rightarrow> nat \<Rightarrow> signalRow \<Rightarrow> bool" where
  "backed_row s i r \<longleftrightarrow> backing s OpenTrade i (sg_entryExecutionId r) \<and> live_entry r \<and>
     (\<forall>x. sg_exit r = Some x \<longrightarrow> backing s CloseTrade i (sx_exitExecutionId x))"

definition backed :: "engineState \<Rightarrow> bool" where
  "backed s \<longleftrightarrow> (\<forall>i < length (es_signals s). backed_row s (Suc i) (es_signals s ! i))"

lemma backing_grows:
  assumes "backing s act i k" "te_rows (es_exec s1) = te_rows (es_exec s) @ rows"
  shows "backing s1 act i k"
  using assms by (auto simp add: backing_def nth_append Let_def)

lemma backed_row_grows:
  "backed_row s i r \<Longrightarrow> te_rows (es_exec s1) = te_rows (es_exec s) @ rows \<Longrightarrow> backed_row s1 i r"
  unfolding backed_row_def using backing_grows by blast

lemma backed_grows:
  "backed s \<Longrightarrow> te_rows (es_exec s1) = te_rows (es_exec s) @ rows \<Longrightarrow> es_signals s1 = es_signals s \<Longrightarrow> backed s1"
  unfolding backed_def using backed_row_grows by metis

text \<open>A trade appends at most one row; a success appends exactly its own.\<close>

lemma run_trade_rows:
  assumes "run_trade h ec input s = Some (r, s1)"
  shows "\<exists>rows. te_rows (es_exec s1) = te_rows (es_exec s) @ rows"
    and "r = Inr (Some res) \<Longrightarrow> tr_status res = Recorded StSuccess \<Longrightarrow>
      \<exists>a row. input = Inr a \<and> te_rows (es_exec s1) = te_rows (es_exec s) @ [row] \<and> ti_status row = StSuccess \<and>
        ti_action row = ta_action a \<and> ti_signalId row = ta_signalId a \<and> tr_executionId res = Some (length (te_rows (es_exec s1))) \<and>
        tr_mode res = ec_mode ec"
proof -
  have "\<exists>rows. te_rows (es_exec s1) = te_rows (es_exec s) @ rows" if "input = Inl e" for e
    using assms that by (simp add: run_trade_def)
  moreover have "\<exists>rows. te_rows (es_exec s1) = te_rows (es_exec s) @ rows" if a: "input = Inr a" for a
  proof -
    obtain q x where q: "execute h ec a (es_exec s) = Some (q, x)" "s1 = s\<lparr> es_exec := x \<rparr>"
      using assms a by (auto simp add: run_trade_def)
    show ?thesis using execute_logged [OF q(1)] q(2)
      by (auto simp add: logged_def split: sum.splits resultStatus.splits)
  qed
  ultimately show "\<exists>rows. te_rows (es_exec s1) = te_rows (es_exec s) @ rows" by (cases input) blast+
next
  assume r: "r = Inr (Some res)" "tr_status res = Recorded StSuccess"
  obtain a q x where a: "input = Inr a" "execute h ec a (es_exec s) = Some (q, x)" "s1 = s\<lparr> es_exec := x \<rparr>"
    "and_then q (\<lambda>v. Inr (Some v)) = r"
    using assms r(1) by (auto simp add: run_trade_def split: sum.splits)
  then have "q = Inr res" using r(1) by (cases q) simp_all
  then have "logged ec a res (te_rows (es_exec s)) (te_rows x)" using execute_logged [OF a(2)] r(2) by simp
  then show "\<exists>a row. input = Inr a \<and> te_rows (es_exec s1) = te_rows (es_exec s) @ [row] \<and> ti_status row = StSuccess \<and>
        ti_action row = ta_action a \<and> ti_signalId row = ta_signalId a \<and> tr_executionId res = Some (length (te_rows (es_exec s1))) \<and>
        tr_mode res = ec_mode ec"
    using a(1,3) r(2) by (auto simp add: logged_def)
qed

lemma trade_rows:
  "executeOpen cfg a s = Some (r, s1) \<Longrightarrow> \<exists>rows. te_rows (es_exec s1) = te_rows (es_exec s) @ rows"
  "executeClose cfg a i p s = Some (r, s1) \<Longrightarrow> \<exists>rows. te_rows (es_exec s1) = te_rows (es_exec s) @ rows"
  by (auto simp add: executeOpen_def executeClose_def split: option.splits if_splits prod.splits dest: run_trade_rows(1))

lemma open_success:
  assumes "executeOpen cfg a s = Some (Inr (Some res), s1)" "tr_status res = Recorded StSuccess" "requiresLiveSuccess cfg"
  shows "\<exists>row. te_rows (es_exec s1) = te_rows (es_exec s) @ [row] \<and> ti_status row = StSuccess \<and> ti_action row = OpenTrade \<and>
    tr_executionId res = Some (length (te_rows (es_exec s1))) \<and> live_mode (tr_mode res)"
  using assms
  by (auto simp add: executeOpen_def and_then_Inr_iff requiresLiveSuccess_def split: option.splits if_splits prod.splits
      dest!: run_trade_rows(2) [OF _ refl])

lemma close_success:
  assumes "executeClose cfg a i p s = Some (Inr (Some res), s1)" "tr_status res = Recorded StSuccess"
  shows "\<exists>row. te_rows (es_exec s1) = te_rows (es_exec s) @ [row] \<and> ti_status row = StSuccess \<and> ti_action row = CloseTrade \<and>
    ti_signalId row = Some i \<and> tr_executionId res = Some (length (te_rows (es_exec s1)))"
  using assms
  by (auto simp add: executeClose_def and_then_Inr_iff split: option.splits if_splits prod.splits
      dest!: run_trade_rows(2) [OF _ refl])

lemma attach_last:
  "te_rows e = rows @ [row] \<Longrightarrow> te_rows (attachTradeExecutionSignal (Suc (length rows)) i e) = rows @ [row\<lparr> ti_signalId := Some i \<rparr>]"
  by (simp add: attachTradeExecutionSignal_def)

lemma backed_opened:
  assumes s: "backed s" and e: "executeOpen cfg a s = Some (Inr x, s1)" and l: "requiresLiveSuccess cfg" "succeeded x"
  shows "backed (opened cfg a x s1)"
proof -
  obtain res where x: "x = Some res" "tr_status res = Recorded StSuccess" using l(2) by (auto simp add: succeeded_def split: option.splits)
  obtain row where row: "te_rows (es_exec s1) = te_rows (es_exec s) @ [row]" "ti_status row = StSuccess"
    "ti_action row = OpenTrade" "tr_executionId res = Some (Suc (length (te_rows (es_exec s))))" "live_mode (tr_mode res)"
    using open_success [of cfg a s res s1] e x l(1) by auto
  have sg: "es_signals s1 = es_signals s" using trade_signals(1) [OF e] .
  let ?n = "Suc (length (es_signals s))"
  have o: "es_signals (opened cfg a x s1) = es_signals s @ [entry_row cfg a x]"
    "te_rows (es_exec (opened cfg a x s1)) = te_rows (es_exec s) @ [row\<lparr> ti_signalId := Some ?n \<rparr>]"
    using x(1) row(4) attach_last [OF row(1)] sg by (simp_all add: opened_signals opened_def openSignal_def execution_id_def)
  have "backed_row (opened cfg a x s1) (Suc i) (es_signals s ! i)" if "i < length (es_signals s)" for i
    using s that backed_row_grows [OF _ o(2)] by (simp add: backed_def)
  moreover have "backing (opened cfg a x s1) OpenTrade ?n (Some (Suc (length (te_rows (es_exec s)))))"
    unfolding backing_def o(2) using row by (simp add: nth_append Let_def)
  then have "backed_row (opened cfg a x s1) ?n (entry_row cfg a x)"
    using row(4,5) unfolding backed_row_def
    by (auto simp add: x(1) entry_row_def execution_id_def live_entry_def live_mode_def)
  ultimately show ?thesis unfolding backed_def o(1) by (auto simp add: nth_append less_Suc_eq)
qed

lemma backed_closed:
  assumes s: "backed s" and e: "executeClose cfg a i p s = Some (Inr x, s1)" and x: "succeeded x"
    and c: "closable cfg a i p units s"
  shows "backed (closeSignal i (exit_row cfg a p units x) s1)"
proof -
  obtain res where r: "x = Some res" "tr_status res = Recorded StSuccess" using x by (auto simp add: succeeded_def split: option.splits)
  obtain row where row: "te_rows (es_exec s1) = te_rows (es_exec s) @ [row]" "ti_status row = StSuccess"
    "ti_action row = CloseTrade" "ti_signalId row = Some i" "tr_executionId res = Some (Suc (length (te_rows (es_exec s))))"
    using close_success [of cfg a i p s res s1] e r by auto
  have i: "0 < i" "i \<le> length (es_signals s)" "es_signals s ! (i - 1) = p" using c by (auto simp add: closable_def)
  let ?x = "exit_row cfg a p units x" and ?s = "closeSignal i (exit_row cfg a p units x) s1"
  have o: "es_signals ?s = (es_signals s)[i - 1 := p\<lparr> sg_exit := Some ?x \<rparr>]" "te_rows (es_exec ?s) = te_rows (es_exec s) @ [row]"
    using i trade_signals(2) [OF e] row(1) by (simp_all add: closeSignal_def)
  have old: "backed_row ?s (Suc k) (es_signals s ! k)" if "k < length (es_signals s)" for k
    using s that backed_row_grows [OF _ o(2)] by (simp add: backed_def)
  have p: "backed_row ?s i p" using old [of "i - 1"] i by simp
  have b: "backing ?s CloseTrade i (sx_exitExecutionId ?x)"
    unfolding backing_def o(2) using row by (simp add: nth_append exit_row_def execution_id_def r(1) Let_def)
  have new: "backed_row ?s i (p\<lparr> sg_exit := Some ?x \<rparr>)" using p b by (auto simp add: backed_row_def live_entry_def)
  show ?thesis unfolding backed_def
  proof clarify
    fix k assume "k < length (es_signals ?s)"
    then have k: "k < length (es_signals s)" by (simp add: o(1))
    show "backed_row ?s (Suc k) (es_signals ?s ! k)"
    proof (cases "k = i - 1")
      case True
      then show ?thesis using new i k by (simp add: o(1))
    next
      case False
      then show ?thesis using old [OF k] k by (simp add: o(1))
    qed
  qed
qed

definition live_backed :: "'m engineConfig \<Rightarrow> engineState \<Rightarrow> bool" where
  "live_backed cfg s \<longleftrightarrow> (requiresLiveSuccess cfg \<longrightarrow> backed s)"

interpretation backing: engine_invariant cfg "\<lambda>_. True" "live_backed cfg" for cfg
proof
  fix s a r s1 assume "live_backed cfg s" "executeOpen cfg a s = Some (r, s1)"
  then show "live_backed cfg s1" using backed_grows trade_rows(1) trade_signals(1) unfolding live_backed_def by metis
next
  fix s a i p r s1 assume "live_backed cfg s" "executeClose cfg a i p s = Some (r, s1)"
  then show "live_backed cfg s1" using backed_grows trade_rows(2) trade_signals(2) unfolding live_backed_def by metis
next
  fix s a x s1 assume "live_backed cfg s" "executeOpen cfg a s = Some (Inr x, s1)" "settled_trade cfg x"
  then show "live_backed cfg (opened cfg a x s1)" using backed_opened unfolding live_backed_def settled_trade_def by blast
next
  fix s a i p x s1 units
  assume "live_backed cfg s" "executeClose cfg a i p s = Some (Inr x, s1)" "settled_trade cfg x" "closable cfg a i p units s"
  then show "live_backed cfg (closeSignal i (exit_row cfg a p units x) s1)"
    using backed_closed unfolding live_backed_def settled_trade_def by blast
qed

text \<open>C2: In the live modes every position rests on real trades: over any sequence of observations, whatever
  the network answers, each signal carries the id of a row of trade_executions that is a successful
  opening linked to this very signal, and each closed one also that of a successful closing made for it.\<close>

theorem live_positions_backed:
  assumes "obs_run cfg as s = Some s'" and "es_signals s = []" and "requiresLiveSuccess cfg"
    and "i < length (es_signals s')"
  shows "backing s' OpenTrade (Suc i) (sg_entryExecutionId (es_signals s' ! i)) \<and>
    (\<forall>x. sg_exit (es_signals s' ! i) = Some x \<longrightarrow> backing s' CloseTrade (Suc i) (sx_exitExecutionId x))"
proof -
  have "live_backed cfg s'" by (rule backing.run [OF _ assms(1)]) (simp_all add: live_backed_def backed_def assms(2) list_all_iff)
  then show ?thesis using assms(3,4) by (auto simp add: live_backed_def backed_def backed_row_def)
qed

section \<open>A pair of observations\<close>

definition paper_engine :: "string engineConfig" where
  "paper_engine = \<lparr> eg_staleAfterMs = Num 1800000, eg_transactionCostBps = Num 0, eg_executor = None \<rparr>"

definition live_engine :: "string engineConfig" where
  "live_engine = paper_engine\<lparr> eg_executor := Some (sample_host (status_of None), sample_config) \<rparr>"

definition buy_observation :: "jsnum \<Rightarrow> observation" where
  "buy_observation price = \<lparr> ob_pair = sample_pair, ob_side = BuyTokenized, ob_sizeUsd = Num 250, ob_basePriceUsd = Num 100000,
     ob_tokenPriceUsd = price, ob_netEdgeBps = Num 100, ob_quoteId = 1, ob_basisId = 1, ob_qualityStatus = LIVE_ELIGIBLE,
     ob_qualityReason = ''ok'', ob_observedAtMs = Num 1000, ob_nowMs = Num 1001 \<rparr>"

definition sell_observation :: "jsnum \<Rightarrow> observation" where
  "sell_observation price = (buy_observation price)\<lparr> ob_side := SellTokenized, ob_nowMs := Num 2000 \<rparr>"

definition empty_engine :: engineState where
  "empty_engine = \<lparr> es_signals = [], es_exec = idle_executor \<rparr>"

lemma paper_trades: "executeOpen paper_engine a s = Some (Inr None, s)" "executeClose paper_engine a i p s = Some (Inr None, s)"
  "\<not> requiresLiveSuccess paper_engine"
  by (simp_all add: executeOpen_def executeClose_def requiresLiveSuccess_def paper_engine_def)

lemma empty_open: "openSignalsByKey pid side sz empty_engine = []"
  by (simp add: no_open_rows empty_engine_def)

lemma buy_decision: "price = Num q \<Longrightarrow> 0 < q \<Longrightarrow> open_decision (buy_observation price) empty_engine"
  by (simp add: open_decision_def empty_open buy_observation_def sample_pair_def)

abbreviation paper_row :: signalRow where
  "paper_row \<equiv> entry_row paper_engine (buy_observation (Num 125)) None"

lemma paper_buy: "onObservation paper_engine (buy_observation (Num 125)) empty_engine =
    Some (Inr (), \<lparr> es_signals = [paper_row], es_exec = idle_executor \<rparr>)"
  using buy_decision [of "Num 125" 125]
  by (simp add: onObservation_def maybeOpenSpotInventory_def open_commit_def paper_trades opened_def openSignal_def
      execution_id_def empty_engine_def) (simp add: buy_observation_def)

lemma paper_row_fields: "sg_tokenUnits paper_row = Some (Num 2)" "sg_sizeUsd paper_row = Num 250" "sg_exit paper_row = None"
  "sg_pairId paper_row = ''wbtc''" "sg_side paper_row = BuyTokenized" "signalRow.sg_entryAt paper_row = Num 1001"
  "sg_entryTokenPriceUsd paper_row = Some (Num 125)" "sg_entryBasePriceUsd paper_row = Some (Num 100000)"
  by (simp_all add: entry_row_def buy_observation_def sample_pair_def js_eval)

lemma paper_open: "openSignalsByKey ''wbtc'' BuyTokenized (Num 250) \<lparr> es_signals = [paper_row], es_exec = e \<rparr> = [(1, paper_row)]"
proof -
  let ?s = "\<lparr> es_signals = [paper_row], es_exec = e \<rparr>"
  have "open_for ''wbtc'' BuyTokenized (Num 250) paper_row" by (simp add: open_for_def paper_row_fields)
  then show ?thesis by (simp add: openSignalsByKey_def js_sort_def)
qed

lemma paper_sell: "\<exists>s'. onObservation paper_engine (sell_observation (Num 150)) \<lparr> es_signals = [paper_row], es_exec = idle_executor \<rparr> =
    Some (Inr (), s') \<and> (\<exists>x. es_signals s' = [paper_row\<lparr> sg_exit := Some x \<rparr>] \<and> sx_pnlUsd x = Num 50)"
proof -
  let ?a = "sell_observation (Num 150)" and ?s = "\<lparr> es_signals = [paper_row], es_exec = idle_executor \<rparr>"
  have a: "ob_side ?a = SellTokenized" "pc_id (ob_pair ?a) = ''wbtc''" "ob_sizeUsd ?a = Num 250" "ob_tokenPriceUsd ?a = Num 150"
    by (simp_all add: sell_observation_def buy_observation_def sample_pair_def)
  have pnl: "exit_pnl paper_engine ?a paper_row (Num 2) = Num 50"
    unfolding exit_pnl_def a paper_row_fields
    by (simp add: paper_engine_def signalExitPnlUsd_def js_sub_def js_eval)
  have e: "onObservation paper_engine ?a ?s = Some (Inr (), closeSignal 1 (exit_row paper_engine ?a paper_row (Num 2) None) ?s)"
    by (simp add: onObservation_def maybeCloseSpotInventory_def a paper_open paper_row_fields pnl paper_trades)
  show ?thesis unfolding e by (auto simp add: closeSignal_def exit_row_def pnl Let_def)
qed

theorem one_open_position_witness:
  "\<exists>s'. obs_run paper_engine [buy_observation (Num 125)] empty_engine = Some s' \<and> es_signals s' \<noteq> [] \<and>
    length (openSignalsByKey ''wbtc'' BuyTokenized (Num 250) s') \<le> 1"
proof -
  obtain s' where r: "obs_run paper_engine [buy_observation (Num 125)] empty_engine = Some s'" "es_signals s' \<noteq> []"
    using paper_buy by simp
  then show ?thesis using one_open_position [OF r(1)] by (auto simp add: empty_engine_def)
qed

theorem closed_books_exact_witness:
  "\<exists>s' r x. obs_run paper_engine [buy_observation (Num 125), sell_observation (Num 150)] empty_engine = Some s' \<and>
    r \<in> set (es_signals s') \<and> sg_exit r = Some x \<and> sx_pnlUsd x = Num 50 \<and> sx_exitReason x = Converged"
proof -
  obtain s' x where s: "onObservation paper_engine (sell_observation (Num 150)) \<lparr> es_signals = [paper_row], es_exec = idle_executor \<rparr> =
    Some (Inr (), s')" "es_signals s' = [paper_row\<lparr> sg_exit := Some x \<rparr>]" "sx_pnlUsd x = Num 50" using paper_sell by blast
  have r: "obs_run paper_engine [buy_observation (Num 125), sell_observation (Num 150)] empty_engine = Some s'"
    by (simp add: paper_buy s(1))
  have "sx_exitReason x = Converged \<longleftrightarrow> js_ge (sx_pnlUsd x) (Num 0)"
    using closed_books_exact [OF r, of "paper_row\<lparr> sg_exit := Some x \<rparr>" x "Num 2"] s(2) paper_row_fields(1)
    by (simp add: empty_engine_def Let_def split: if_splits)
  then show ?thesis using r s(2,3) by (intro exI [of _ s'] exI [of _ "paper_row\<lparr> sg_exit := Some x \<rparr>"] exI [of _ x]) simp
qed

text \<open>The promise of one position per key rests on handling observations one at a time, which the code
  does not enforce: when a second observation of the same key passes its query before the first one's
  row is inserted, both insert, and the pair has two open positions of one size.\<close>

theorem interleaved_opens_double:
  "open_decision (buy_observation (Num 125)) empty_engine \<and>
   (\<exists>s1 s2. open_commit paper_engine (buy_observation (Num 125)) empty_engine = Some (Inr (), s1) \<and>
      open_commit paper_engine (buy_observation (Num 125)) s1 = Some (Inr (), s2) \<and>
      length (openSignalsByKey ''wbtc'' BuyTokenized (Num 250) s2) = 2)"
proof -
  have o: "open_for ''wbtc'' BuyTokenized (Num 250) paper_row" by (simp add: open_for_def paper_row_fields)
  show ?thesis
    using buy_decision [of "Num 125" 125]
    by (simp add: open_commit_def paper_trades opened_def openSignal_def execution_id_def empty_engine_def openSignalsByKey_def o)
qed

section \<open>A live position on the sample host\<close>

lemma live_trade: "\<exists>a. executeOpen live_engine (buy_observation (Num 99000)) s =
    run_trade (sample_host (status_of None)) sample_config (Inr a) s"
proof -
  have u: "uiToAtomic (Num 250) 6 = Inr 250000000"
    by (simp add: uiToAtomic_def bankersRound_def js_pow10_def to_bigint_def js_sub_def js_eval Let_def)
  have d: "decimals_of (Num 6) = 6" by (simp add: decimals_of_def)
  have o: "pc_quoteDecimals (ob_pair (buy_observation (Num 99000))) = Num 6" "ob_sizeUsd (buy_observation (Num 99000)) = Num 250"
    by (simp_all add: buy_observation_def sample_pair_def)
  have g: "eg_executor live_engine = Some (sample_host (status_of None), sample_config)" "enabled sample_config"
    by (simp_all add: live_engine_def paper_engine_def enabled_def sample_config_def)
  show ?thesis unfolding executeOpen_def g o d u by (auto simp add: g(2))
qed

theorem live_positions_backed_witness:
  "\<exists>s'. obs_run live_engine [buy_observation (Num 99000)] empty_engine = Some s' \<and> length (es_signals s') = 1 \<and>
    backing s' OpenTrade 1 (sg_entryExecutionId (es_signals s' ! 0))"
proof -
  let ?a = "buy_observation (Num 99000)"
  obtain a where a: "executeOpen live_engine ?a empty_engine = run_trade (sample_host (status_of None)) sample_config (Inr a) empty_engine"
    using live_trade by blast
  obtain res x where e: "execute (sample_host (status_of None)) sample_config a idle_executor = Some (Inr res, x)"
    "tr_status res = Recorded StSuccess" using sample_success by blast
  let ?s1 = "empty_engine\<lparr> es_exec := x \<rparr>"
  have t: "executeOpen live_engine ?a empty_engine = Some (Inr (Some res), ?s1)"
    unfolding a using e(1) by (simp add: run_trade_def empty_engine_def)
  have l: "requiresLiveSuccess live_engine"
    by (simp add: requiresLiveSuccess_def live_engine_def live_mode_def sample_config_def)
  have o: "obs_run live_engine [?a] empty_engine = Some (opened live_engine ?a (Some res) ?s1)"
    using buy_decision [of "Num 99000" 99000] e(2) t
    by (simp add: onObservation_def maybeOpenSpotInventory_def open_commit_def succeeded_def buy_observation_def)
  have n: "length (es_signals (opened live_engine ?a (Some res) ?s1)) = 1" by (simp add: opened_signals empty_engine_def)
  have e0: "es_signals empty_engine = []" by (simp add: empty_engine_def)
  have n0: "0 < length (es_signals (opened live_engine ?a (Some res) ?s1))" using n by simp
  have "backing (opened live_engine ?a (Some res) ?s1) OpenTrade 1 (sg_entryExecutionId (es_signals (opened live_engine ?a (Some res) ?s1) ! 0))"
    using live_positions_backed [OF o e0 l n0] unfolding One_nat_def by blast
  then show ?thesis using o n by blast
qed

end
