(* ===== verification/BotRuntime.thy ===== *)
theory BotRuntime
  imports BotScheduler SignalEngine
begin

text \<open>
  services/stat-arb-bot/src/index.ts with pair-loader.ts and basis-recorder.ts: the pairs the bot runs,
  their index by Pyth feed and their place in the scheduler, the loader that follows the database, the
  gate a price tick passes before it is scheduled, and the work a scheduled quote does, up to the
  observation handed to the signal engine. Effects that leave the process (warnings, snapshot probes)
  are events, in their order. A Set is the list of its members.
\<close>

section \<open>Helpers of index.ts\<close>

definition toSchedulerPair :: "pairConfig \<Rightarrow> jsnum \<Rightarrow> schedulerPair" where
  "toSchedulerPair p lastPriceUsd = \<lparr> sp_pairId = pc_id p, sp_lastPriceUsd = lastPriceUsd, sp_sides = pc_directions p,
     sp_sizesUsd = normalizeActiveQuoteSizes (pc_sizesUsd p), sp_quoteIntervalMs = pc_quoteIntervalMs p,
     sp_minPriceMoveBps = pc_minPriceMoveBps p \<rparr>"

definition maxFreshnessLagMsForPair :: "pairConfig \<Rightarrow> jsnum" where
  "maxFreshnessLagMsForPair p = (case pc_baseMaxLagMs p of Some m \<Rightarrow> m
     | None \<Rightarrow> (case pc_assetClass p of Crypto \<Rightarrow> Num 2500 | Equity \<Rightarrow> Num 10000
         | FX \<Rightarrow> Num 15000 | Metal \<Rightarrow> Num 15000 | Commodity \<Rightarrow> Num 15000))"

definition runtimeDecimalsVerified :: "pairConfig \<Rightarrow> bool" where
  "runtimeDecimalsVerified p \<longleftrightarrow> is_integer (pc_tokDecimals p) \<and> js_ge (pc_tokDecimals p) (Num 0) \<and>
     js_le (pc_tokDecimals p) (Num 18) \<and> pc_quoteDecimals p = Num 6"

definition runtimePair :: "pairConfig \<Rightarrow> pairConfig option" where
  "runtimePair p = (let sizes = normalizeActiveQuoteSizes (pc_sizesUsd p) in
     if sizes = [] then None else Some (p\<lparr> pc_sizesUsd := sizes \<rparr>))"

definition rps_pair :: "pairConfig \<Rightarrow> quoteRpsPair" where
  "rps_pair p = \<lparr> rp_directions = length (pc_directions p), rp_sizes = length (pc_sizesUsd p),
     rp_quoteIntervalMs = pc_quoteIntervalMs p \<rparr>"

definition assertRuntimeBudget :: "pairConfig list \<Rightarrow> jsnum \<Rightarrow> (js_error, unit) result" where
  "assertRuntimeBudget pairs maxRps =
     and_then (assertQuoteRpsBudget (map rps_pair pairs) maxRps (Some (fl (85/100)))) (\<lambda>_. Inr ())"

definition inputAtomicForOrder :: "pairConfig \<Rightarrow> pairDirection \<Rightarrow> jsnum \<Rightarrow> jsnum \<Rightarrow> (js_error, int) result" where
  "inputAtomicForOrder p side sizeUsd priceUsd =
     (if side = BuyTokenized then uiToAtomic sizeUsd (decimals_of (pc_quoteDecimals p))
      else if js_le priceUsd (Num 0) then Inl (ErrorMsg ''priceUsd must be > 0'')
      else uiToAtomic (js_div sizeUsd priceUsd) (decimals_of (pc_tokDecimals p)))"

section \<open>The pairs the bot runs\<close>

record botState =
  bt_lazerIdToPairs :: "(jsnum, string list) dict"
  bt_pairConfigs :: "(string, pairConfig) dict"
  bt_lastRegimePrice :: "(string, jsnum) dict"
  bt_lastStreamTickAt :: "(string, jsnum) dict"
  bt_lastStalePythWarn :: "(string, jsnum) dict"
  bt_lastSnapshotWarn :: "(string, jsnum) dict"
  bt_snapshotInFlight :: "string list"
  bt_scheduler :: quoteScheduler

text \<open>What the runtime tells the outside: telemetry calls, heartbeat counts, warnings, probes, and the
  callbacks of the scheduler.\<close>

datatype botEvent = NoActiveSize string | BudgetRejected string js_error | SnapshotProbe string
  | Scheduled string | StalePyth string | StaleWarned string | SessionClosed string | Sched schedEvent

definition set_add :: "'a \<Rightarrow> 'a list \<Rightarrow> 'a list" where
  "set_add x xs = (if x \<in> set xs then xs else xs @ [x])"

text \<open>set.delete(id), and the feed is forgotten with its last pair.\<close>

definition drop_feed :: "jsnum \<Rightarrow> string \<Rightarrow> (jsnum, string list) dict \<Rightarrow> (jsnum, string list) dict" where
  "drop_feed feed pid d = (case dict_get d feed of None \<Rightarrow> d
     | Some ids \<Rightarrow> let rest = removeAll pid ids in if rest = [] then dict_del d feed else dict_set d feed rest)"

definition unindexPair :: "string \<Rightarrow> botState \<Rightarrow> botState" where
  "unindexPair pid s = s\<lparr>
     bt_lazerIdToPairs := (case dict_get (bt_pairConfigs s) pid of
        Some p \<Rightarrow> drop_feed (pc_pythLazerId p) pid (bt_lazerIdToPairs s) | None \<Rightarrow> bt_lazerIdToPairs s),
     bt_pairConfigs := dict_del (bt_pairConfigs s) pid,
     bt_lastRegimePrice := dict_del (bt_lastRegimePrice s) pid,
     bt_lastStreamTickAt := dict_del (bt_lastStreamTickAt s) pid,
     bt_lastSnapshotWarn := dict_del (bt_lastSnapshotWarn s) pid,
     bt_snapshotInFlight := removeAll pid (bt_snapshotInFlight s),
     bt_scheduler := removePair pid (bt_scheduler s) \<rparr>"

definition indexPair :: "jsnum \<Rightarrow> pairConfig \<Rightarrow> botState \<Rightarrow> botEvent list \<times> botState" where
  "indexPair maxRps p s = (case runtimePair p of
     None \<Rightarrow> ([NoActiveSize (pc_id p)], unindexPair (pc_id p) s)
   | Some n \<Rightarrow>
      (let candidate = dict_set (bt_pairConfigs s) (pc_id n) n in
       case assertRuntimeBudget (map snd candidate) maxRps of
         Inl e \<Rightarrow> ([BudgetRejected (pc_id n) e], s)
       | Inr _ \<Rightarrow>
           (let feeds = (case dict_get (bt_pairConfigs s) (pc_id n) of
                   Some prev \<Rightarrow> if pc_pythLazerId prev \<noteq> pc_pythLazerId n
                     then drop_feed (pc_pythLazerId prev) (pc_id n) (bt_lazerIdToPairs s) else bt_lazerIdToPairs s
                 | None \<Rightarrow> bt_lazerIdToPairs s);
                ids = (case dict_get feeds (pc_pythLazerId n) of Some xs \<Rightarrow> xs | None \<Rightarrow> [])
            in ([SnapshotProbe (pc_id n)], s\<lparr> bt_pairConfigs := candidate,
                  bt_lazerIdToPairs := dict_set feeds (pc_pythLazerId n) (set_add (pc_id n) ids),
                  bt_scheduler := upsertPair (toSchedulerPair n (Num 0)) (bt_scheduler s) \<rparr>))))"

section \<open>The loader (pair-loader.ts)\<close>

datatype loaderAction = Added pairConfig | Updated pairConfig | Removed string

definition pairs_by_id :: "pairConfig list \<Rightarrow> (string, pairConfig) dict" where
  "pairs_by_id = foldl (\<lambda>d p. dict_set d (pc_id p) p) []"

text \<open>The handlers a refresh calls, and what it remembers.\<close>

definition refresh :: "pairConfig list \<Rightarrow> (string, pairConfig) dict \<Rightarrow> loaderAction list \<times> (string, pairConfig) dict" where
  "refresh next cur = (let nextById = pairs_by_id next in
     (map Removed (filter (\<lambda>k. dict_get nextById k = None) (map fst cur)) @
      concat (map (\<lambda>p. case dict_get cur (pc_id p) of None \<Rightarrow> [Added p]
        | Some prev \<Rightarrow> if prev \<noteq> p then [Updated p] else []) next), nextById))"

definition load_action :: "jsnum \<Rightarrow> loaderAction \<Rightarrow> botState \<Rightarrow> botEvent list \<times> botState" where
  "load_action maxRps act s = (case act of
     Added p \<Rightarrow> indexPair maxRps p s
   | Updated p \<Rightarrow> indexPair maxRps p s
   | Removed pid \<Rightarrow> ([], unindexPair pid s))"

section \<open>Polls\<close>

text \<open>One refresh of the loader with the rows the database returned, and the polls since the start.\<close>

definition run_actions :: "jsnum \<Rightarrow> loaderAction list \<Rightarrow> botEvent list \<times> botState \<Rightarrow> botEvent list \<times> botState" where
  "run_actions maxRps acts es = fold (\<lambda>a (evs, s). let (new, s') = load_action maxRps a s in (evs @ new, s')) acts es"

definition poll :: "jsnum \<Rightarrow> pairConfig list \<Rightarrow> (botEvent list \<times> botState) \<times> (string, pairConfig) dict \<Rightarrow>
    (botEvent list \<times> botState) \<times> (string, pairConfig) dict" where
  "poll maxRps next x = (let (acts, cur) = refresh next (snd x) in (run_actions maxRps acts (fst x), cur))"

definition fresh_bot :: "quoteScheduler \<Rightarrow> botState" where
  "fresh_bot sch = \<lparr> bt_lazerIdToPairs = [], bt_pairConfigs = [], bt_lastRegimePrice = [], bt_lastStreamTickAt = [],
     bt_lastStalePythWarn = [], bt_lastSnapshotWarn = [], bt_snapshotInFlight = [], bt_scheduler = sch \<rparr>"

definition polls :: "jsnum \<Rightarrow> pairConfig list list \<Rightarrow> quoteScheduler \<Rightarrow>
    (botEvent list \<times> botState) \<times> (string, pairConfig) dict" where
  "polls maxRps batches sch = fold (poll maxRps) batches (([], fresh_bot sch), [])"

section \<open>The workload of the indexed pairs\<close>

definition fits :: "jsnum \<Rightarrow> pairConfig list \<Rightarrow> bool" where
  "fits maxRps ps \<longleftrightarrow> \<not> js_gt (estimateQuoteRps (map rps_pair ps)) (js_add (js_mul maxRps (fl (85/100))) EPSILON)"

lemma budget_fits: "(\<exists>u. assertRuntimeBudget ps maxRps = Inr u) \<longleftrightarrow> fits maxRps ps"
  by (simp add: assertRuntimeBudget_def assertQuoteRpsBudget_def fits_def Let_def)

definition quote_rate :: "pairConfig \<Rightarrow> jsnum" where
  "quote_rate p = js_div (js_count (length (pc_directions p) * length (pc_sizesUsd p))) (js_div (pc_quoteIntervalMs p) (Num 1000))"

lemma quote_rate_nonneg:
  assumes "PairConfigSchema p" shows "js_le (Num 0) (quote_rate p) \<and> \<not> js_le (pc_quoteIntervalMs p) (Num 0)"
proof -
  obtain q where q: "pc_quoteIntervalMs p = Num q" "500 \<le> q"
    using assms by (cases "pc_quoteIntervalMs p") (auto simp add: PairConfigSchema_def is_integer_def)
  have half: "js_le (Num (1/2)) (fl (q / 1000))" using q(2)
    by (intro fl_ge_double half_exact) simp
  have "js_le (Num 0) (js_div (Num (of_nat n)) (fl (q / 1000)))" for n
    using half by (cases "fl (q / 1000)") (auto simp add: js_le_0_fl)
  then show ?thesis using q by (simp add: quote_rate_def js_count_def del: of_nat_mult)
qed

definition rate_sum :: "jsnum \<Rightarrow> pairConfig list \<Rightarrow> jsnum" where
  "rate_sum acc ps = foldl (\<lambda>a p. js_add a (quote_rate p)) acc ps"

lemma estimate_rate_sum:
  "list_all PairConfigSchema ps \<Longrightarrow> estimateQuoteRps (map rps_pair ps) = rate_sum (Num 0) ps"
proof -
  have "foldl (\<lambda>acc r. if js_le (rp_quoteIntervalMs r) (Num 0) then acc
      else js_add acc (js_div (js_count (rp_directions r * rp_sizes r)) (js_div (rp_quoteIntervalMs r) (Num 1000)))) a
      (map rps_pair ps) = rate_sum a ps" if "list_all PairConfigSchema ps" for a
    using that by (induction ps arbitrary: a) (simp_all add: rate_sum_def rps_pair_def quote_rate_def quote_rate_nonneg)
  then show "list_all PairConfigSchema ps \<Longrightarrow> ?thesis" by (simp add: estimateQuoteRps_def)
qed

lemma add_grows:
  assumes "js_le (Num 0) a" "is_num a" "js_le (Num 0) x"
  shows "js_le a (js_add a x) \<and> js_le (Num 0) (js_add a x) \<and> is_num (js_add a x)"
proof -
  have n: "js_add a x \<noteq> NaN" using assms(1,3) by (cases a; cases x) auto
  have "js_le a (js_add a x)" using assms
    by (cases a; cases x) (auto intro: fl_ge_double finite_double_fl)
  then show ?thesis using n js_add_nonneg [OF assms(1,3)] by simp
qed

text \<open>Leaving pairs out does not raise the estimate, in rounded arithmetic as well.\<close>

lemma rate_sum_filter:
  assumes "list_all PairConfigSchema ps" "js_le a b" "js_le (Num 0) a" "is_num a" "is_num b"
  shows "js_le (rate_sum a (filter P ps)) (rate_sum b ps)"
  using assms
proof (induction ps arbitrary: a b)
  case (Cons p ps)
  have r: "js_le (Num 0) (quote_rate p)" using Cons.prems(1) quote_rate_nonneg by simp
  have b0: "js_le (Num 0) b" using js_le_trans [OF Cons.prems(3,2)] .
  note ga = add_grows [OF Cons.prems(3,4) r] and gb = add_grows [OF b0 Cons.prems(5) r]
  have "js_le (js_add a (quote_rate p)) (js_add b (quote_rate p))"
    using js_add_mono [OF Cons.prems(2), of "quote_rate p"] ga gb by (metis is_num_simps(2))
  moreover have "js_le a (js_add b (quote_rate p))" using js_le_trans [OF Cons.prems(2)] gb by blast
  ultimately show ?case using Cons.IH Cons.prems ga gb by (simp add: rate_sum_def)
qed (simp add: rate_sum_def)

lemma fits_filter: "list_all PairConfigSchema ps \<Longrightarrow> fits maxRps ps \<Longrightarrow> fits maxRps (filter P ps)"
proof -
  assume s: "list_all PairConfigSchema ps" and f: "fits maxRps ps"
  have s': "list_all PairConfigSchema (filter P ps)" using s by (auto simp add: list_all_iff)
  have "js_le (rate_sum (Num 0) (filter P ps)) (rate_sum (Num 0) ps)"
    using rate_sum_filter [OF s, of "Num 0" "Num 0"] by simp
  then show ?thesis using f js_lt_le_trans unfolding fits_def estimate_rate_sum [OF s] estimate_rate_sum [OF s'] by blast
qed

section \<open>The index of the pairs\<close>

definition feed_has :: "(jsnum, string list) dict \<Rightarrow> jsnum \<Rightarrow> string \<Rightarrow> bool" where
  "feed_has d feed pid \<longleftrightarrow> (\<exists>ids. dict_get d feed = Some ids \<and> pid \<in> set ids)"

definition feed_sets :: "(jsnum, string list) dict \<Rightarrow> bool" where
  "feed_sets d \<longleftrightarrow> (\<forall>feed ids. dict_get d feed = Some ids \<longrightarrow> ids \<noteq> [] \<and> distinct ids)"

lemma drop_feed_has: "feed_has (drop_feed f pid d) g i \<longleftrightarrow> feed_has d g i \<and> \<not> (g = f \<and> i = pid)"
proof -
  have gone: "removeAll pid ids = [] \<Longrightarrow> i \<in> set ids \<Longrightarrow> i = pid" for ids
    by (metis empty_iff insert_Diff_single list.set(1) remove_code(1) set_removeAll singletonD insertE DiffI)
  show ?thesis
    by (cases "dict_get d f") (auto simp add: feed_has_def drop_feed_def Let_def dict_laws dest: gone)
qed

lemma drop_feed_sets: "feed_sets d \<Longrightarrow> feed_sets (drop_feed f pid d)"
  by (auto simp add: feed_sets_def drop_feed_def Let_def dict_laws distinct_removeAll split: option.splits)

lemma add_feed_has:
  "feed_has (dict_set d f (set_add pid (case dict_get d f of Some xs \<Rightarrow> xs | None \<Rightarrow> []))) g i \<longleftrightarrow>
     feed_has d g i \<or> g = f \<and> i = pid"
  by (cases "dict_get d f") (auto simp add: feed_has_def set_add_def dict_laws)

lemma add_feed_sets: "feed_sets d \<Longrightarrow> feed_sets (dict_set d f (set_add pid (case dict_get d f of Some xs \<Rightarrow> xs | None \<Rightarrow> [])))"
  by (auto simp add: feed_sets_def dict_laws set_add_def split: if_splits option.splits)

definition keyed_pairs :: "(string, pairConfig) dict \<Rightarrow> bool" where
  "keyed_pairs d \<longleftrightarrow> dict_ok d \<and> (\<forall>k p. dict_get d k = Some p \<longrightarrow> pc_id p = k \<and> PairConfigSchema p)"

text \<open>A scheduled pair is the configured one, up to the last price.\<close>

definition unpriced :: "schedulerPair \<Rightarrow> schedulerPair" where
  "unpriced p = p\<lparr> sp_lastPriceUsd := Num 0 \<rparr>"

definition index_inv :: "jsnum \<Rightarrow> botState \<Rightarrow> bool" where
  "index_inv maxRps s \<longleftrightarrow> keyed_pairs (bt_pairConfigs s) \<and> feed_sets (bt_lazerIdToPairs s) \<and>
     (\<forall>feed pid. feed_has (bt_lazerIdToPairs s) feed pid \<longleftrightarrow>
        (\<exists>p. dict_get (bt_pairConfigs s) pid = Some p \<and> pc_pythLazerId p = feed)) \<and>
     (\<forall>pid. map_option unpriced (dict_get (qs_pairs (bt_scheduler s)) pid) =
        map_option (\<lambda>p. toSchedulerPair p (Num 0)) (dict_get (bt_pairConfigs s) pid)) \<and>
     fits maxRps (map snd (bt_pairConfigs s))"

lemma keyed_schema: "keyed_pairs d \<Longrightarrow> list_all PairConfigSchema (map snd d)"
  unfolding keyed_pairs_def list_all_iff by (metis dict_values)

lemma runtimePair_schema:
  assumes "PairConfigSchema p" "runtimePair p = Some n"
  shows "PairConfigSchema n \<and> pc_id n = pc_id p \<and> pc_sizesUsd n = normalizeActiveQuoteSizes (pc_sizesUsd p)"
proof -
  have "list_all (\<lambda>s. s = Num 250 \<or> s = Num 1000) (normalizeActiveQuoteSizes xs)" for xs
    by (auto simp add: normalizeActiveQuoteSizes_def ACTIVE_QUOTE_SIZES_USD_def)
  moreover have "length (normalizeActiveQuoteSizes xs) \<le> length ACTIVE_QUOTE_SIZES_USD" for xs
    by (simp add: normalizeActiveQuoteSizes_def)
  ultimately show ?thesis using assms
    by (auto simp add: runtimePair_def Let_def PairConfigSchema_def split: if_splits)
qed

lemma index_inv_unindex: assumes "index_inv maxRps s" shows "index_inv maxRps (unindexPair pid s)"
proof -
  let ?d = "bt_pairConfigs s" and ?l = "bt_lazerIdToPairs s"
  let ?l' = "case dict_get ?d pid of Some p \<Rightarrow> drop_feed (pc_pythLazerId p) pid ?l | None \<Rightarrow> ?l"
  have k: "keyed_pairs ?d" and ne: "feed_sets ?l" and f: "fits maxRps (map snd ?d)"
    and has: "\<And>feed i. feed_has ?l feed i \<longleftrightarrow> (\<exists>p. dict_get ?d i = Some p \<and> pc_pythLazerId p = feed)"
    and sch: "\<And>i. map_option unpriced (dict_get (qs_pairs (bt_scheduler s)) i) =
        map_option (\<lambda>p. toSchedulerPair p (Num 0)) (dict_get ?d i)"
    using assms by (simp_all add: index_inv_def)
  have "keyed_pairs (dict_del ?d pid)" using k by (auto simp add: keyed_pairs_def dict_ok_del dict_laws split: if_splits)
  moreover have "feed_sets ?l'" using ne by (simp add: drop_feed_sets split: option.split)
  moreover have "feed_has ?l' feed i \<longleftrightarrow> (\<exists>p. dict_get (dict_del ?d pid) i = Some p \<and> pc_pythLazerId p = feed)" for feed i
    by (auto simp add: has drop_feed_has dict_laws split: option.split)
  moreover have "fits maxRps (map snd (dict_del ?d pid))"
  proof -
    have "map snd (dict_del ?d pid) = filter (\<lambda>p. pc_id p \<noteq> pid) (map snd ?d)"
    proof -
      have "fst x = pc_id (snd x)" if "x \<in> set ?d" for x
        using k that by (cases x) (auto simp add: keyed_pairs_def dict_ok_def dict_get_map_of)
      then show ?thesis unfolding dict_del_def filter_map comp_def
        by (intro arg_cong [where f = "map snd"] filter_cong) simp_all
    qed
    then show ?thesis using fits_filter [OF keyed_schema [OF k] f] by simp
  qed
  ultimately show ?thesis using sch unfolding index_inv_def unindexPair_def
    by (simp add: removePair_def Let_def dict_laws)
qed

lemma index_inv_index:
  assumes inv: "index_inv maxRps s" and p: "PairConfigSchema p" shows "index_inv maxRps (snd (indexPair maxRps p s))"
proof (cases "runtimePair p")
  case None
  then show ?thesis using index_inv_unindex [OF inv] by (simp add: indexPair_def)
next
  case (Some n)
  let ?d = "bt_pairConfigs s" and ?l = "bt_lazerIdToPairs s"
  let ?c = "dict_set ?d (pc_id n) n"
  note n = runtimePair_schema [OF p Some]
  show ?thesis
  proof (cases "assertRuntimeBudget (map snd ?c) maxRps")
    case (Inl e)
    then show ?thesis using Some inv by (simp add: indexPair_def Let_def)
  next
    case (Inr u)
    then have f: "fits maxRps (map snd ?c)" using budget_fits [of "map snd ?c" maxRps] by auto
    define feeds where "feeds = (case dict_get ?d (pc_id n) of
        Some prev \<Rightarrow> if pc_pythLazerId prev \<noteq> pc_pythLazerId n then drop_feed (pc_pythLazerId prev) (pc_id n) ?l else ?l
      | None \<Rightarrow> ?l)"
    have k: "keyed_pairs ?d" and ne: "feed_sets ?l"
      and has: "\<And>feed i. feed_has ?l feed i \<longleftrightarrow> (\<exists>p. dict_get ?d i = Some p \<and> pc_pythLazerId p = feed)"
      and sch: "\<And>i. map_option unpriced (dict_get (qs_pairs (bt_scheduler s)) i) =
        map_option (\<lambda>p. toSchedulerPair p (Num 0)) (dict_get ?d i)"
      using inv by (simp_all add: index_inv_def)
    have "keyed_pairs ?c" using k n by (auto simp add: keyed_pairs_def dict_ok_set dict_laws split: if_splits)
    moreover have "feed_sets feeds" using ne by (simp add: feeds_def drop_feed_sets split: option.split)
    moreover have "(feed_has feeds feed i \<or> feed = pc_pythLazerId n \<and> i = pc_id n) \<longleftrightarrow>
        (\<exists>p. dict_get ?c i = Some p \<and> pc_pythLazerId p = feed)" for feed i
      by (auto simp add: feeds_def has drop_feed_has dict_laws split: option.splits if_splits)
    moreover have "sp_pairId (toSchedulerPair n (Num 0)) = pc_id n" "unpriced (toSchedulerPair n (Num 0)) = toSchedulerPair n (Num 0)"
      by (simp_all add: toSchedulerPair_def unpriced_def)
    ultimately show ?thesis using Some Inr f sch unfolding index_inv_def
      by (simp add: indexPair_def Let_def add_feed_sets add_feed_has feeds_def [symmetric] upsertPair_def dict_laws)
  qed
qed

section \<open>The index over the polls\<close>

fun action_pair :: "loaderAction \<Rightarrow> pairConfig option" where
  "action_pair (Added p) = Some p"
| "action_pair (Updated p) = Some p"
| "action_pair (Removed pid) = None"

lemma run_actions_simps [simp]:
  "run_actions m [] es = es"
  "snd (run_actions m (a # acts) es) = snd (run_actions m acts (fst es @ fst (load_action m a (snd es)), snd (load_action m a (snd es))))"
  by (simp_all add: run_actions_def case_prod_beta Let_def)

lemma run_actions_inv:
  "index_inv m (snd es) \<Longrightarrow> (\<And>a p. a \<in> set acts \<Longrightarrow> action_pair a = Some p \<Longrightarrow> PairConfigSchema p) \<Longrightarrow>
     index_inv m (snd (run_actions m acts es))"
proof (induction acts arbitrary: es)
  case (Cons a acts)
  have "index_inv m (snd (load_action m a (snd es)))"
    using Cons.prems(1) Cons.prems(2) [of a] by (cases a) (simp_all add: load_action_def index_inv_index index_inv_unindex)
  moreover have "PairConfigSchema p" if "b \<in> set acts" "action_pair b = Some p" for b p
    using Cons.prems(2) [of b p] that by simp
  ultimately show ?case unfolding run_actions_simps by (intro Cons.IH) simp_all
qed simp

lemma load_action_dom:
  assumes "dict_get (bt_pairConfigs (snd (load_action m a s))) i \<noteq> None"
  shows "dict_get (bt_pairConfigs s) i \<noteq> None \<and> a \<noteq> Removed i \<or> (\<exists>p. action_pair a = Some p \<and> pc_id p = i)"
  using assms
  by (cases a) (auto simp add: load_action_def indexPair_def unindexPair_def runtimePair_def Let_def dict_laws
      split: option.splits sum.splits if_splits)

lemma run_actions_dom:
  "dict_get (bt_pairConfigs (snd (run_actions m acts es))) i \<noteq> None \<Longrightarrow>
     dict_get (bt_pairConfigs (snd es)) i \<noteq> None \<and> Removed i \<notin> set acts \<or> (\<exists>a \<in> set acts. \<exists>p. action_pair a = Some p \<and> pc_id p = i)"
proof (induction acts arbitrary: es)
  case (Cons a acts)
  let ?es = "(fst es @ fst (load_action m a (snd es)), snd (load_action m a (snd es)))"
  have "dict_get (bt_pairConfigs (snd (run_actions m acts ?es))) i \<noteq> None" using Cons.prems by simp
  from Cons.IH [OF this] show ?case using load_action_dom [of m a "snd es" i] by auto
qed simp

lemma pairs_by_id_get: "dict_get (pairs_by_id ps) i \<noteq> None \<longleftrightarrow> i \<in> pc_id ` set ps"
  unfolding pairs_by_id_def by (induction ps rule: rev_induct) (auto simp add: dict_laws)

lemma dict_keys: "i \<in> set (map fst d) \<longleftrightarrow> dict_get d i \<noteq> None"
  unfolding dict_get_map_of by (simp add: map_of_eq_None_iff)

lemma refresh_actions:
  assumes "refresh rows cur = (acts, cur')"
  shows "cur' = pairs_by_id rows" and "\<And>i. dict_get cur i \<noteq> None \<Longrightarrow> i \<notin> pc_id ` set rows \<Longrightarrow> Removed i \<in> set acts"
    and "\<And>a p. a \<in> set acts \<Longrightarrow> action_pair a = Some p \<Longrightarrow> p \<in> set rows"
proof -
  let ?gone = "filter (\<lambda>k. dict_get (pairs_by_id rows) k = None) (map fst cur)"
  have e: "acts = map Removed ?gone @ concat (map (\<lambda>p. case dict_get cur (pc_id p) of None \<Rightarrow> [Added p]
        | Some prev \<Rightarrow> if prev \<noteq> p then [Updated p] else []) rows)" and c: "cur' = pairs_by_id rows"
    using assms by (auto simp add: refresh_def Let_def)
  show "cur' = pairs_by_id rows" by (rule c)
  show "Removed i \<in> set acts" if "dict_get cur i \<noteq> None" "i \<notin> pc_id ` set rows" for i
  proof -
    have "dict_get (pairs_by_id rows) i = None" using pairs_by_id_get [of rows i] that(2) by blast
    then have "i \<in> set ?gone" using that(1) dict_keys [of i cur] by simp
    then show ?thesis unfolding e by simp
  qed
  show "p \<in> set rows" if "a \<in> set acts" "action_pair a = Some p" for a p
    using that unfolding e by (auto split: option.splits if_splits)
qed

text \<open>Between polls: the invariant, and every pair the bot runs is one the loader remembers.\<close>

definition poll_inv :: "jsnum \<Rightarrow> (botEvent list \<times> botState) \<times> (string, pairConfig) dict \<Rightarrow> bool" where
  "poll_inv m x \<longleftrightarrow> index_inv m (snd (fst x)) \<and>
     (\<forall>i. dict_get (bt_pairConfigs (snd (fst x))) i \<noteq> None \<longrightarrow> dict_get (snd x) i \<noteq> None)"

lemma poll_inv_poll:
  assumes "poll_inv m x" "\<And>p. p \<in> set rows \<Longrightarrow> PairConfigSchema p" shows "poll_inv m (poll m rows x)"
proof -
  obtain acts cur where r: "refresh rows (snd x) = (acts, cur)" by fastforce
  note R = refresh_actions [OF r]
  have "index_inv m (snd (run_actions m acts (fst x)))"
    using assms R(3) by (intro run_actions_inv) (auto simp add: poll_inv_def)
  moreover have "dict_get cur i \<noteq> None" if "dict_get (bt_pairConfigs (snd (run_actions m acts (fst x)))) i \<noteq> None" for i
    using run_actions_dom [OF that] R(2) [of i] R(3) assms(1) unfolding R(1) pairs_by_id_get poll_inv_def by blast
  ultimately show ?thesis by (simp add: poll_def r poll_inv_def)
qed

lemma fits_Nil:
  assumes "new_scheduler clk m cap = Inr sch" shows "fits m []"
proof -
  have "\<not> js_le m (Num 0)" using assms by (auto simp add: new_scheduler_def new_bucket_def split: if_splits)
  moreover have "js_le (Num (1/2)) (fl (85/100))" by (intro fl_ge_double half_exact) simp
  ultimately have "m = NaN \<or> js_le (Num 0) (js_mul m (fl (85/100)))"
    by (cases m; cases "fl (85/100)") (auto simp add: js_le_0_fl inf_of_sign_def)
  moreover have "js_le (Num 0) EPSILON" by (simp add: EPSILON_def js_le_0_fl)
  ultimately have "m = NaN \<or> js_le (Num 0) (js_add (js_mul m (fl (85/100))) EPSILON)"
    using js_add_nonneg by blast
  then have "\<not> js_lt (js_add (js_mul m (fl (85/100))) EPSILON) (Num 0)"
    by (cases "js_add (js_mul m (fl (85/100))) EPSILON") auto
  then show ?thesis by (simp add: fits_def estimateQuoteRps_def)
qed

lemma polls_inv:
  assumes "new_scheduler clk m cap = Inr sch" "\<And>ps p. ps \<in> set batches \<Longrightarrow> p \<in> set ps \<Longrightarrow> PairConfigSchema p"
  shows "poll_inv m (polls m batches sch)"
  using assms(2)
proof (induction batches rule: rev_induct)
  case Nil
  have "qs_pairs sch = []" using assms(1) by (auto simp add: new_scheduler_def result_simps)
  then show ?case using fits_Nil [OF assms(1)]
    by (simp add: polls_def poll_inv_def index_inv_def fresh_bot_def keyed_pairs_def feed_sets_def feed_has_def)
next
  case (snoc ps batches)
  have "poll_inv m (polls m batches sch)" by (rule snoc.IH) (use snoc.prems in auto)
  then have "poll_inv m (poll m ps (polls m batches sch))" by (rule poll_inv_poll) (use snoc.prems in auto)
  then show ?case by (simp add: polls_def)
qed

text \<open>C19: The bot's view of its pairs stays consistent over any sequence of polls of the database (rows
  that satisfy the schema): the index by Pyth feed holds exactly the pairs with that feed and no empty
  feed, the scheduler holds exactly these pairs with their sizes, sides and intervals, the estimated
  quote rate of the indexed pairs never exceeds 85 per cent of the Jupiter budget, and a pair that is
  not in the last list is no longer indexed.\<close>

theorem bot_index_kept:
  assumes "new_scheduler clk maxRps cap = Inr sch" and "\<forall>ps \<in> set batches. \<forall>p \<in> set ps. PairConfigSchema p"
    and "polls maxRps (batches @ [rows]) sch = ((evs, s), cur)" and "\<forall>p \<in> set rows. PairConfigSchema p"
  shows "(feed_has (bt_lazerIdToPairs s) feed pid \<longleftrightarrow> (\<exists>p. dict_get (bt_pairConfigs s) pid = Some p \<and> pc_pythLazerId p = feed)) \<and>
     dict_get (bt_lazerIdToPairs s) feed \<noteq> Some [] \<and>
     map_option unpriced (dict_get (qs_pairs (bt_scheduler s)) pid) =
       map_option (\<lambda>p. toSchedulerPair p (Num 0)) (dict_get (bt_pairConfigs s) pid) \<and>
     \<not> js_gt (estimateQuoteRps (map rps_pair (map snd (bt_pairConfigs s)))) (js_add (js_mul maxRps (fl (85/100))) EPSILON) \<and>
     (pid \<notin> pc_id ` set rows \<longrightarrow> dict_get (bt_pairConfigs s) pid = None)"
proof -
  have "PairConfigSchema p" if "ps \<in> set (batches @ [rows])" "p \<in> set ps" for ps p using assms(2,4) that by auto
  from polls_inv [OF assms(1) this] have "poll_inv maxRps (polls maxRps (batches @ [rows]) sch)" .
  then have inv: "index_inv maxRps s" and cur: "\<And>i. dict_get (bt_pairConfigs s) i \<noteq> None \<Longrightarrow> dict_get cur i \<noteq> None"
    by (simp_all add: poll_inv_def assms(3))
  have "((evs, s), cur) = poll maxRps rows (polls maxRps batches sch)" using assms(3) by (simp add: polls_def)
  then have "cur = pairs_by_id rows" by (auto simp add: poll_def refresh_def Let_def)
  then have "pid \<notin> pc_id ` set rows \<longrightarrow> dict_get (bt_pairConfigs s) pid = None" using cur pairs_by_id_get by blast
  moreover have "dict_get (bt_lazerIdToPairs s) feed \<noteq> Some []" using inv by (auto simp add: index_inv_def feed_sets_def)
  ultimately show ?thesis using inv by (simp add: index_inv_def fits_def)
qed

lemma sample_schema: "PairConfigSchema sample_pair"
  by (simp add: PairConfigSchema_def sample_pair_def nonneg_int_def nonneg_num_def opt_ok_def is_integer_def
      ACTIVE_QUOTE_SIZES_USD_def QualityGateSchema_def)

theorem bot_index_kept_witness:
  "\<exists>sch. new_scheduler (\<lambda>_. Num 0) (Num 10) (Num 10) = Inr sch \<and>
     dict_get (bt_pairConfigs (snd (fst (polls (Num 10) [[sample_pair], []] sch)))) ''wbtc'' = None"
proof -
  obtain sch where sch: "new_scheduler (\<lambda>_. Num 0) (Num 10) (Num 10) = Inr sch"
    by (simp add: new_scheduler_def new_bucket_def)
  obtain evs s cur where r: "polls (Num 10) ([[sample_pair]] @ [[]]) sch = ((evs, s), cur)"
    by (metis prod.exhaust)
  have "dict_get (bt_pairConfigs s) ''wbtc'' = None"
    using bot_index_kept [OF sch _ r, where pid = "''wbtc''"] by (simp add: sample_schema)
  then show ?thesis using sch r by simp
qed

section \<open>Rejected pairs\<close>

text \<open>Two pairs that fit the budget one at a time, and not together.\<close>

definition busy_pair :: "string \<Rightarrow> pairConfig" where
  "busy_pair i = sample_pair\<lparr> pc_id := i, pc_sizesUsd := [Num 250, Num 1000], pc_quoteIntervalMs := Num 500 \<rparr>"

lemma busy_facts:
  "PairConfigSchema (busy_pair i) \<longleftrightarrow> i \<noteq> []" "pc_id (busy_pair i) = i" "runtimePair (busy_pair i) = Some (busy_pair i)"
  "quote_rate (busy_pair i) = Num 8"
  using sample_schema
  by (auto simp add: PairConfigSchema_def busy_pair_def runtimePair_def normalizeActiveQuoteSizes_def nonneg_num_def
      ACTIVE_QUOTE_SIZES_USD_def quote_rate_def js_count_def sample_pair_def is_integer_def half_exact js_eval)

lemma allowed_ten:
  obtains a where "js_add (js_mul (Num 10) (fl (85/100))) EPSILON = Num a" "8 \<le> a" "a \<le> 10"
proof -
  obtain h where h: "fl (85/100) = Num h" "\<bar>h - 85/100\<bar> \<le> \<bar>85/100\<bar> / 2 ^ 53 + tiny"
    by (rule fl_near [of "85/100"]) simp
  have "\<bar>85/100\<bar> / 2 ^ 53 + tiny \<le> 1/100" by (simp add: tiny_def)
  then have "\<bar>h - 85/100\<bar> \<le> 1/100" using h(2) by (rule order_trans [rotated])
  then have "h - 85/100 \<le> 1/100" "- (h - 85/100) \<le> 1/100" unfolding abs_le_iff by blast+
  then have hb: "8/10 \<le> h" "h \<le> 9/10" by simp_all
  have "js_le (Num 8) (fl (10 * h))" "js_le (fl (10 * h)) (Num 9)"
    using hb by (auto intro!: fl_ge_double fl_le_double simp: fl_numeral)
  then obtain m where f: "fl (10 * h) = Num m" and mb: "8 \<le> m" "m \<le> 9" by (cases "fl (10 * h)") auto
  have m: "js_mul (Num 10) (fl (85/100)) = Num m" unfolding h(1) using f by simp
  obtain e where e: "EPSILON = Num e" "0 \<le> e" "e + 1 / 2 ^ 53 \<le> 1 / 2 ^ 29" by (rule epsilon_bounds)
  have "js_le (Num 8) (fl (m + e))" "js_le (fl (m + e)) (Num 10)"
    using mb e by (auto intro!: fl_ge_double fl_le_double simp: fl_numeral)
  then obtain a where a: "fl (m + e) = Num a" "8 \<le> a" "a \<le> 10" by (cases "fl (m + e)") auto
  have "js_add (js_mul (Num 10) (fl (85/100))) EPSILON = Num a" unfolding m e(1) using a(1) by simp
  then show ?thesis using that a(2,3) by blast
qed

lemma busy_fits:
  assumes "i \<noteq> []" "j \<noteq> []"
  shows "fits (Num 10) [busy_pair i]" "\<not> fits (Num 10) [busy_pair i, busy_pair j]"
proof -
  obtain a where a: "js_add (js_mul (Num 10) (fl (85/100))) EPSILON = Num a" "8 \<le> a" "a \<le> 10" by (rule allowed_ten)
  have "estimateQuoteRps (map rps_pair [busy_pair i]) = Num 8"
    "estimateQuoteRps (map rps_pair [busy_pair i, busy_pair j]) = Num 16"
    using estimate_rate_sum [of "[busy_pair i]"] estimate_rate_sum [of "[busy_pair i, busy_pair j]"] assms
    by (simp_all add: busy_facts rate_sum_def fl_numeral)
  then show "fits (Num 10) [busy_pair i]" "\<not> fits (Num 10) [busy_pair i, busy_pair j]"
    using a by (simp_all add: fits_def)
qed

lemma unchanged_poll: "poll m [p] (es, [(pc_id p, p)]) = (es, [(pc_id p, p)])"
  by (simp add: poll_def refresh_def pairs_by_id_def run_actions_def)

lemma index_configs:
  assumes "runtimePair p = Some p"
  shows "bt_pairConfigs (snd (indexPair m p s)) = (let c = dict_set (bt_pairConfigs s) (pc_id p) p in
     if fits m (map snd c) then c else bt_pairConfigs s)"
  using budget_fits [of "map snd (dict_set (bt_pairConfigs s) (pc_id p) p)" m] assms
  by (cases "assertRuntimeBudget (map snd (dict_set (bt_pairConfigs s) (pc_id p) p)) m")
    (auto simp add: indexPair_def Let_def)

lemma unchanged_polls: "fold (poll m) (replicate k [p]) (es, [(pc_id p, p)]) = (es, [(pc_id p, p)])"
  by (induction k) (simp_all add: unchanged_poll)

text \<open>A pair rejected for the budget stays out for good: of two pairs that fit the budget of 10
  requests per second one at a time but not together, the second is rejected while the first runs; when
  the first is removed from the database, the second fits, yet no later poll indexes it, because the
  loader remembers the rejected row and reports a row only when it is new or changed. The bot then runs
  no pair at all.\<close>

theorem budget_rejection_sticks:
  "fits (Num 10) [busy_pair ''b''] \<and> PairConfigSchema (busy_pair ''b'') \<and>
   map snd (bt_pairConfigs (snd (fst (polls (Num 10) [[busy_pair ''a'', busy_pair ''b'']] sch)))) = [busy_pair ''a''] \<and>
   bt_pairConfigs (snd (fst (polls (Num 10) ([busy_pair ''a'', busy_pair ''b''] # replicate (Suc k) [busy_pair ''b'']) sch))) = []"
proof -
  let ?a = "busy_pair ''a''" and ?b = "busy_pair ''b''"
  let ?x = "poll (Num 10) [?a, ?b] (([], fresh_bot sch), [])"
  have F: "fits (Num 10) [?a]" "fits (Num 10) [?b]" "\<not> fits (Num 10) [?a, ?b]" using busy_fits [of "''a''" "''b''"] busy_fits(1) [of "''b''" "''a''"] by simp_all
  have r: "refresh [?a, ?b] [] = ([Added ?a, Added ?b], [(''a'', ?a), (''b'', ?b)])"
    by (simp add: refresh_def pairs_by_id_def busy_facts)
  have x: "bt_pairConfigs (snd (fst ?x)) = [(''a'', ?a)]" "snd ?x = [(''a'', ?a), (''b'', ?b)]"
    using F by (simp_all add: poll_def r load_action_def index_configs busy_facts fresh_bot_def Let_def)
  let ?y = "poll (Num 10) [?b] ?x"
  have "refresh [?b] [(''a'', ?a), (''b'', ?b)] = ([Removed ''a''], [(''b'', ?b)])"
    by (simp add: refresh_def pairs_by_id_def busy_facts)
  then have y: "bt_pairConfigs (snd (fst ?y)) = []" "snd ?y = [(pc_id ?b, ?b)]"
    using x by (simp_all add: poll_def load_action_def unindexPair_def dict_del_def busy_facts Let_def)
  have "fold (poll (Num 10)) (replicate k [?b]) ?y = ?y" using unchanged_polls [of "Num 10" k ?b "fst ?y"] y(2) by (metis prod.collapse)
  then show ?thesis using F x y by (simp add: polls_def busy_facts)
qed

end
