(* ===== verification/PythFeed.thy ===== *)
theory PythFeed
  imports JupiterClient BotScheduler
begin

text \<open>
  services/stat-arb-bot/src/pyth-stream.ts and pyth-snapshot.ts: the price stream over three redundant
  web sockets, and the snapshot used when the stream is silent. The sockets of an endpoint are numbered in
  the order they were created; a socket is known by whether the stream still listens to it and by its
  phase. The library's events (open, message, close, error) and the timers are inputs of a state machine.
  Log output is left out. Back-off delays and counters are whole numbers far below 2 ^ 53 and natural
  numbers here.
\<close>

section \<open>Ticks\<close>

record pythTickEvent =
  pt_pythLazerId :: jsnum
  pt_priceUsd :: jsnum
  pt_confidenceUsd :: "jsnum option"
  pt_streamTimestampUs :: jsnum
  pt_feedUpdateTimestampUs :: jsnum
  pt_marketSession :: "string option"
  pt_freshnessLagMs :: jsnum
  pt_isFresh :: bool

text \<open>One element of priceFeeds; a field the message lacks, or null, is None.\<close>

record feedUpdate =
  fu_exponent :: "textOrNumber option"
  fu_price :: "textOrNumber option"
  fu_confidence :: "textOrNumber option"
  fu_feedUpdateTimestamp :: "textOrNumber option"
  fu_publishTime :: "textOrNumber option"
  fu_priceFeedId :: "textOrNumber option"
  fu_id :: "textOrNumber option"
  fu_marketSession :: "string option"

text \<open>a ?? b, and Number of a value that may be missing (NaN for undefined).\<close>

definition coalesce :: "'a option \<Rightarrow> 'a option \<Rightarrow> 'a option" where
  "coalesce a b = (case a of Some x \<Rightarrow> Some x | None \<Rightarrow> b)"

definition Number :: "textOrNumber option \<Rightarrow> jsnum" where
  "Number v = (case v of None \<Rightarrow> NaN | Some x \<Rightarrow> number_of x)"

definition finite_or_null :: "jsnum option \<Rightarrow> jsnum option" where
  "finite_or_null v = (case v of Some x \<Rightarrow> if is_finite x then Some x else None | None \<Rightarrow> None)"

text \<open>pow10 e stands for Math.pow(10, e).\<close>

definition toEvent :: "(jsnum \<Rightarrow> jsnum) \<Rightarrow> jsnum option \<Rightarrow> feedUpdate \<Rightarrow> jsnum \<Rightarrow> pythTickEvent option" where
  "toEvent pow10 maxLag f streamTimestampUs =
    (let expo = Number (coalesce (fu_exponent f) (Some (N (Num 0)))); priceRaw = Number (fu_price f) in
     if \<not> is_finite expo then None
     else if \<not> is_finite priceRaw \<or> priceRaw = Num 0 then None
     else let confidenceUsd = map_option (\<lambda>c. js_mul (number_of c) (pow10 expo)) (fu_confidence f);
              feedTs = Number (coalesce (coalesce (fu_feedUpdateTimestamp f) (fu_publishTime f)) (Some (N streamTimestampUs)));
              streamTs = (if is_finite streamTimestampUs \<and> js_gt streamTimestampUs (Num 0) then streamTimestampUs else feedTs);
              lag = js_max (Num 0) (js_round (js_div (js_sub streamTs feedTs) (Num 1000)))
          in Some \<lparr> pt_pythLazerId = Number (coalesce (coalesce (fu_priceFeedId f) (fu_id f)) (Some (N (Num 0)))),
               pt_priceUsd = js_mul priceRaw (pow10 expo), pt_confidenceUsd = finite_or_null confidenceUsd,
               pt_streamTimestampUs = streamTs, pt_feedUpdateTimestampUs = feedTs, pt_marketSession = fu_marketSession f,
               pt_freshnessLagMs = lag,
               pt_isFresh = js_le lag (case maxLag of Some m \<Rightarrow> m | None \<Rightarrow> Num 5000) \<rparr>)"

section \<open>The stream\<close>

datatype socketPhase = SockConnecting | SockOpen | SockClosing | SockClosed

record wsSocket =
  wk_listening :: bool
  wk_phase :: socketPhase
  wk_sent :: "jsnum list list"

record endpointState =
  ep_endpoint :: string
  ep_ws :: "nat option"
  ep_reconnectTimer :: "nat option"
  ep_keepaliveTimer :: bool
  ep_reconnectBackoffMs :: nat
  ep_reconnectCount :: nat
  ep_invalidFeedCount :: nat
  ep_lastUpdateAtMs :: "jsnum option"
  ep_connected :: bool
  ep_firstStreamUpdateLogged :: bool
  ep_sockets :: "wsSocket list"

record pythStream =
  ps_feedIds :: "jsnum list"
  ps_stopped :: bool
  ps_endpoints :: "endpointState list"
  ps_seen :: "(string, jsnum) dict"
  ps_reads :: nat

definition ENDPOINTS :: "string list" where
  "ENDPOINTS = [''wss://pyth-lazer-0.dourolabs.app/v1/stream'', ''wss://pyth-lazer-1.dourolabs.app/v1/stream'',
     ''wss://pyth-lazer-2.dourolabs.app/v1/stream'']"

definition DEDUPE_TTL_MS :: jsnum where "DEDUPE_TTL_MS = Num 60000"

definition createEndpointState :: "string \<Rightarrow> endpointState" where
  "createEndpointState e = \<lparr> ep_endpoint = e, ep_ws = None, ep_reconnectTimer = None, ep_keepaliveTimer = False,
     ep_reconnectBackoffMs = 1000, ep_reconnectCount = 0, ep_invalidFeedCount = 0, ep_lastUpdateAtMs = None,
     ep_connected = False, ep_firstStreamUpdateLogged = False, ep_sockets = [] \<rparr>"

definition new_stream :: "jsnum list \<Rightarrow> pythStream" where
  "new_stream ids = \<lparr> ps_feedIds = ids, ps_stopped = False, ps_endpoints = map createEndpointState ENDPOINTS,
     ps_seen = [], ps_reads = 0 \<rparr>"

text \<open>A timer is the delay it was set with.\<close>

definition scheduleReconnect :: "bool \<Rightarrow> endpointState \<Rightarrow> endpointState" where
  "scheduleReconnect stopped e = (if stopped \<or> ep_reconnectTimer e \<noteq> None then e
     else e\<lparr> ep_reconnectTimer := Some (min (ep_reconnectBackoffMs e) 60000),
             ep_reconnectBackoffMs := min (ep_reconnectBackoffMs e * 2) 60000,
             ep_reconnectCount := Suc (ep_reconnectCount e) \<rparr>)"

definition set_socket :: "nat \<Rightarrow> (wsSocket \<Rightarrow> wsSocket) \<Rightarrow> endpointState \<Rightarrow> endpointState" where
  "set_socket k f e = (if k < length (ep_sockets e) then e\<lparr> ep_sockets := (ep_sockets e)[k := f (ep_sockets e ! k)] \<rparr> else e)"

definition connect :: "bool \<Rightarrow> endpointState \<Rightarrow> endpointState" where
  "connect stopped e = (if stopped then e
     else e\<lparr> ep_ws := Some (length (ep_sockets e)),
             ep_sockets := ep_sockets e @ [\<lparr> wk_listening = True, wk_phase = SockConnecting, wk_sent = [] \<rparr>] \<rparr>)"

text \<open>terminate() and close() both leave the socket closing; its listeners are gone.\<close>

definition closeSocket :: "bool \<Rightarrow> endpointState \<Rightarrow> endpointState" where
  "closeSocket stopped e =
    (let e1 = e\<lparr> ep_keepaliveTimer := False \<rparr>;
         e2 = (case ep_ws e1 of None \<Rightarrow> e1
           | Some k \<Rightarrow> set_socket k (\<lambda>w. w\<lparr> wk_listening := False,
                 wk_phase := (if wk_phase w = SockClosed then SockClosed else SockClosing) \<rparr>) (e1\<lparr> ep_ws := None \<rparr>));
         e3 = e2\<lparr> ep_connected := False \<rparr>
     in if \<not> stopped then scheduleReconnect stopped e3 else e3)"

definition subscribe :: "jsnum list \<Rightarrow> endpointState \<Rightarrow> endpointState" where
  "subscribe feeds e = (case ep_ws e of None \<Rightarrow> e
     | Some k \<Rightarrow> if k < length (ep_sockets e) \<and> wk_phase (ep_sockets e ! k) = SockOpen \<and> feeds \<noteq> []
         then set_socket k (\<lambda>w. w\<lparr> wk_sent := wk_sent w @ [feeds] \<rparr>) e else e)"

definition setFeedIds :: "jsnum list \<Rightarrow> pythStream \<Rightarrow> pythStream" where
  "setFeedIds ids s = (let s1 = s\<lparr> ps_feedIds := ids \<rparr> in
     if ids = ps_feedIds s then s1
     else let eps = map (closeSocket (ps_stopped s)) (ps_endpoints s)
       in s1\<lparr> ps_endpoints := (if \<not> ps_stopped s \<and> ids \<noteq> []
            then map (\<lambda>e. if ep_ws e = None \<and> ep_reconnectTimer e = None then connect (ps_stopped s) e else e) eps else eps) \<rparr>)"

definition start_stream :: "pythStream \<Rightarrow> pythStream" where
  "start_stream s = (let s1 = s\<lparr> ps_stopped := False \<rparr> in
     if ps_feedIds s = [] then s1 else s1\<lparr> ps_endpoints := map (connect False) (ps_endpoints s) \<rparr>)"

definition stop_stream :: "pythStream \<Rightarrow> pythStream" where
  "stop_stream s = s\<lparr> ps_stopped := True,
     ps_endpoints := map (\<lambda>e. closeSocket True (e\<lparr> ep_reconnectTimer := None \<rparr>)) (ps_endpoints s) \<rparr>"

record lazerEndpointHealth =
  lh_endpoint :: string
  lh_connected :: bool
  lh_lastUpdateAgeMs :: "jsnum option"
  lh_reconnectCount :: nat
  lh_invalidFeedCount :: nat

definition health :: "jsnum \<Rightarrow> pythStream \<Rightarrow> nat \<times> lazerEndpointHealth list" where
  "health nowMs s = (let endpoints = map (\<lambda>e. \<lparr> lh_endpoint = ep_endpoint e, lh_connected = ep_connected e,
       lh_lastUpdateAgeMs = map_option (\<lambda>t. js_max (Num 0) (js_sub nowMs t)) (ep_lastUpdateAtMs e),
       lh_reconnectCount = ep_reconnectCount e, lh_invalidFeedCount = ep_invalidFeedCount e \<rparr>) (ps_endpoints s)
     in (length (filter lh_connected endpoints), endpoints))"

section \<open>Messages\<close>

text \<open>The messages of the server: only two kinds have an effect besides logging.\<close>

datatype lazerMessage = InvalidIgnored nat | StreamUpdated "textOrNumber option" "feedUpdate list" | OtherMessage

definition tick_key :: "pythTickEvent \<Rightarrow> string" where
  "tick_key ev = show_num (pt_pythLazerId ev) @ ''|'' @ show_num (pt_streamTimestampUs ev) @ ''|'' @
     show_num (pt_feedUpdateTimestampUs ev) @ ''|'' @ show_num (pt_priceUsd ev) @ ''|'' @
     (case pt_marketSession ev of Some m \<Rightarrow> m | None \<Rightarrow> '''')"

definition wasSeen :: "jsnum \<Rightarrow> pythTickEvent \<Rightarrow> (string, jsnum) dict \<Rightarrow> bool \<times> (string, jsnum) dict" where
  "wasSeen nowMs ev seen = (if dict_has seen (tick_key ev) then (True, seen)
     else let d = dict_set seen (tick_key ev) nowMs in
       (False, if length d > 10000 then filter (\<lambda>x. \<not> js_gt (js_sub nowMs (snd x)) DEDUPE_TTL_MS) d else d))"

text \<open>The loop over the feeds of an update; every call of wasSeen reads the clock.\<close>

definition deliver_feed :: "(nat \<Rightarrow> jsnum) \<Rightarrow> (jsnum \<Rightarrow> jsnum) \<Rightarrow> jsnum option \<Rightarrow> jsnum \<Rightarrow> feedUpdate \<Rightarrow>
    (pythTickEvent \<times> jsnum) list \<times> pythStream \<Rightarrow> (pythTickEvent \<times> jsnum) list \<times> pythStream" where
  "deliver_feed clk pow10 maxLag ts f x = (case toEvent pow10 maxLag f ts of
     None \<Rightarrow> x
   | Some ev \<Rightarrow> (let s = snd x; now = clk (ps_reads s); (dup, seen) = wasSeen now ev (ps_seen s);
           s' = s\<lparr> ps_seen := seen, ps_reads := Suc (ps_reads s) \<rparr>
       in (if dup then fst x else fst x @ [(ev, now)], s')))"

text \<open>One message. The entries of a message are taken as the schema of the feed has them: an entry on which the
  handler would throw is not represented.\<close>

definition handleMessage :: "(nat \<Rightarrow> jsnum) \<Rightarrow> (jsnum \<Rightarrow> jsnum) \<Rightarrow> jsnum option \<Rightarrow> nat \<Rightarrow> lazerMessage \<Rightarrow> pythStream \<Rightarrow>
    (pythTickEvent \<times> jsnum) list \<times> pythStream" where
  "handleMessage clk pow10 maxLag i msg s = (case msg of
     InvalidIgnored n \<Rightarrow> ([], s\<lparr> ps_endpoints := (ps_endpoints s)[i := (ps_endpoints s ! i)
         \<lparr> ep_invalidFeedCount := ep_invalidFeedCount (ps_endpoints s ! i) + n \<rparr>] \<rparr>)
   | StreamUpdated ts feeds \<Rightarrow>
       (let s1 = s\<lparr> ps_endpoints := (ps_endpoints s)[i := (ps_endpoints s ! i)
             \<lparr> ep_lastUpdateAtMs := Some (clk (ps_reads s)), ep_firstStreamUpdateLogged := True \<rparr>],
             ps_reads := Suc (ps_reads s) \<rparr>
        in fold (deliver_feed clk pow10 maxLag (Number (coalesce ts (Some (N (Num 0)))))) feeds ([], s1))
   | OtherMessage \<Rightarrow> ([], s))"

section \<open>The handlers of a socket\<close>

definition on_open :: "jsnum list \<Rightarrow> nat \<Rightarrow> endpointState \<Rightarrow> endpointState" where
  "on_open feeds k e = (let e1 = set_socket k (\<lambda>w. w\<lparr> wk_phase := SockOpen \<rparr>) e in
     if wk_listening (ep_sockets e ! k)
     then (subscribe feeds (e1\<lparr> ep_connected := True, ep_reconnectBackoffMs := 1000,
         ep_firstStreamUpdateLogged := False \<rparr>))\<lparr> ep_keepaliveTimer := True \<rparr>
     else e1)"

definition on_close :: "bool \<Rightarrow> nat \<Rightarrow> endpointState \<Rightarrow> endpointState" where
  "on_close stopped k e = (let e1 = set_socket k (\<lambda>w. w\<lparr> wk_phase := SockClosed \<rparr>) e in
     if wk_listening (ep_sockets e ! k)
     then scheduleReconnect stopped (e1\<lparr> ep_connected := False, ep_keepaliveTimer := False \<rparr>) else e1)"

definition on_error :: "nat \<Rightarrow> endpointState \<Rightarrow> endpointState" where
  "on_error k e = set_socket k (\<lambda>w. w\<lparr> wk_phase := SockClosing \<rparr>) e"

definition on_timer :: "bool \<Rightarrow> endpointState \<Rightarrow> endpointState" where
  "on_timer stopped e = connect stopped (e\<lparr> ep_reconnectTimer := None \<rparr>)"

section \<open>The snapshot client (pyth-snapshot.ts)\<close>

record lazerSymbolRow =
  ls_hermes_id :: "string option"
  ls_pyth_lazer_id :: "textOrNumber option option"
  ls_symbol :: "string option"
  ls_state :: "string option"

record hermesPrice =
  hp_price :: "string option"
  hp_conf :: "string option"
  hp_expo :: "jsnum option"
  hp_publish_time :: "jsnum option"

text \<open>Number of a field that may be missing (NaN) or null (0).\<close>

definition Number_field :: "textOrNumber option option \<Rightarrow> jsnum" where
  "Number_field v = (case v of None \<Rightarrow> NaN | Some None \<Rightarrow> Num 0 | Some (Some x) \<Rightarrow> number_of x)"

text \<open>The symbols promise, once settled, keeps its value or its error.\<close>

record snapshotClient =
  sc_hermesBaseUrl :: string
  sc_lazerSymbolsUrl :: string
  sc_symbols :: "(string, lazerSymbolRow list) result option"

text \<open>The network: the symbols reply (an array or another JSON value), the price reply of a URL (the first
  element of parsed and its price, where present), and encodeURIComponent. Each call of the symbols URL is
  numbered.\<close>

record snapshotHost =
  sh_symbols :: "nat \<Rightarrow> lazerSymbolRow list option httpReply"
  sh_latest :: "string \<Rightarrow> hermesPrice option httpReply"
  sh_encode :: "string \<Rightarrow> string"

definition stripTrailingSlash :: "string \<Rightarrow> string" where
  "stripTrailingSlash s = rev (dropWhile (\<lambda>c. c = CHR ''/'') (rev s))"

definition normalizeHermesId :: "string \<Rightarrow> string" where
  "normalizeHermesId i = (if starts_with i ''0x'' then drop 2 i else i)"

definition new_snapshot_client :: "string option \<Rightarrow> string option \<Rightarrow> snapshotClient" where
  "new_snapshot_client base syms = \<lparr>
     sc_hermesBaseUrl = stripTrailingSlash (case base of Some b \<Rightarrow> b | None \<Rightarrow> ''https://hermes.pyth.network''),
     sc_lazerSymbolsUrl = (case syms of Some u \<Rightarrow> u | None \<Rightarrow> ''https://history.pyth-lazer.dourolabs.app/v1/symbols''),
     sc_symbols = None \<rparr>"

definition symbolRows :: "snapshotHost \<Rightarrow> nat \<Rightarrow> snapshotClient \<Rightarrow> (string, lazerSymbolRow list) result \<times> snapshotClient" where
  "symbolRows H call c = (case sc_symbols c of
     Some r \<Rightarrow> (r, c)
   | None \<Rightarrow> (let r = (case sh_symbols H call of
            Throws m \<Rightarrow> Inl m
          | Reply st body \<Rightarrow> if \<not> res_ok st then Inl (''Pyth Lazer symbols returned HTTP '' @ show_nat st)
              else (case body of Inl m \<Rightarrow> Inl m | Inr rows \<Rightarrow> Inr (case rows of Some rs \<Rightarrow> rs | None \<Rightarrow> [])))
       in (r, c\<lparr> sc_symbols := Some r \<rparr>)))"

definition hermesIdForPair :: "lazerSymbolRow list \<Rightarrow> pairConfig \<Rightarrow> string option" where
  "hermesIdForPair rows p =
    (case find (\<lambda>r. present (ls_hermes_id r) \<noteq> None \<and> js_eq (Number_field (ls_pyth_lazer_id r)) (pc_pythLazerId p)) rows of
       Some r \<Rightarrow> ls_hermes_id r
     | None \<Rightarrow> Option.bind (find (\<lambda>r. present (ls_hermes_id r) \<noteq> None \<and> ls_symbol r = Some (pc_pythSymbol p) \<and>
           ls_state r = Some ''stable'') rows) ls_hermes_id)"

definition parsedToTick :: "(jsnum \<Rightarrow> jsnum) \<Rightarrow> hermesPrice option \<Rightarrow> jsnum \<Rightarrow> jsnum \<Rightarrow> jsnum \<Rightarrow> pythTickEvent option" where
  "parsedToTick pow10 parsed lazerId nowMs maxLag = Option.bind parsed (\<lambda>price.
    let rawPrice = Number (map_option T (hp_price price)); expo = Number (map_option N (hp_expo price));
        publishTimeSec = Number (map_option N (hp_publish_time price)) in
    if \<not> is_finite rawPrice \<or> \<not> is_finite expo \<or> \<not> is_finite publishTimeSec \<or> rawPrice = Num 0 \<or>
       js_le publishTimeSec (Num 0) then None
    else let scale = pow10 expo; lag = js_max (Num 0) (js_sub nowMs (js_mul publishTimeSec (Num 1000)))
      in Some \<lparr> pt_pythLazerId = lazerId, pt_priceUsd = js_mul rawPrice scale,
           pt_confidenceUsd = map_option (\<lambda>c. js_mul c scale) (finite_or_null (map_option number_of_string (hp_conf price))),
           pt_streamTimestampUs = js_round (js_mul nowMs (Num 1000)),
           pt_feedUpdateTimestampUs = js_round (js_mul publishTimeSec (Num 1000000)),
           pt_marketSession = None, pt_freshnessLagMs = lag, pt_isFresh = js_le lag maxLag \<rparr>)"

definition latestForPair :: "snapshotHost \<Rightarrow> (jsnum \<Rightarrow> jsnum) \<Rightarrow> nat \<Rightarrow> pairConfig \<Rightarrow> jsnum \<Rightarrow> jsnum \<Rightarrow> snapshotClient \<Rightarrow>
    (string, pythTickEvent option) result \<times> snapshotClient" where
  "latestForPair H pow10 call p nowMs maxLag c = (let (rows, c') = symbolRows H call c in
     (and_then rows (\<lambda>rs. case hermesIdForPair rs p of
        None \<Rightarrow> Inr None
      | Some i \<Rightarrow> (case sh_latest H (sc_hermesBaseUrl c' @ ''/v2/updates/price/latest'' @ ''?ids[]='' @
              sh_encode H (normalizeHermesId i) @ ''&parsed=true'') of
            Throws m \<Rightarrow> Inl m
          | Reply st body \<Rightarrow> if \<not> res_ok st then Inr None
              else (case body of Inl m \<Rightarrow> Inl m
                | Inr parsed \<Rightarrow> Inr (parsedToTick pow10 parsed (pc_pythLazerId p) nowMs maxLag)))), c'))"

text \<open>The snapshots a client takes one after the other, call by call.\<close>

fun snapshots :: "snapshotHost \<Rightarrow> (jsnum \<Rightarrow> jsnum) \<Rightarrow> nat \<Rightarrow> (pairConfig \<times> jsnum \<times> jsnum) list \<Rightarrow> snapshotClient \<Rightarrow>
    (string, pythTickEvent option) result list" where
  "snapshots H pow10 call [] c = []"
| "snapshots H pow10 call ((p, nowMs, maxLag) # qs) c =
     (let (r, c') = latestForPair H pow10 call p nowMs maxLag c in r # snapshots H pow10 (Suc call) qs c')"

lemma symbols_kept:
  "sc_symbols c = Some (Inl m) \<Longrightarrow> snapshots H pow10 call qs c = replicate (length qs) (Inl m)"
proof (induction qs arbitrary: call)
  case (Cons q qs)
  obtain p nowMs maxLag where q: "q = (p, nowMs, maxLag)" by (cases q)
  show ?case using Cons by (simp add: q latestForPair_def symbolRows_def Let_def)
qed simp

text \<open>One failure of the symbols request disables the snapshots for good: if the first request for the
  symbol list is answered with an HTTP error, every snapshot the client takes afterwards fails with that
  error, for every pair and whatever the network answers later, because the rejected promise is kept.\<close>

theorem snapshot_failure_sticks:
  assumes "sh_symbols H 0 = Reply st body" and "\<not> res_ok st"
  shows "snapshots H pow10 0 qs (new_snapshot_client base syms) =
    replicate (length qs) (Inl (''Pyth Lazer symbols returned HTTP '' @ show_nat st))"
proof (cases qs)
  case (Cons q rest)
  obtain p nowMs maxLag where q: "q = (p, nowMs, maxLag)" by (cases q)
  show ?thesis using assms
    by (simp add: Cons q latestForPair_def symbolRows_def new_snapshot_client_def symbols_kept Let_def)
qed simp

definition flaky_host :: snapshotHost where
  "flaky_host = \<lparr> sh_symbols = (\<lambda>n. if n = 0 then Reply 503 (Inl ''busy'') else Reply 200 (Inr (Some []))),
     sh_latest = (\<lambda>_. Reply 200 (Inr None)), sh_encode = id \<rparr>"

theorem snapshot_failure_sticks_witness:
  "\<exists>p. snapshots flaky_host id 0 [(p, Num 0, Num 0), (p, Num 1, Num 0)] (new_snapshot_client None None) =
     replicate 2 (Inl (''Pyth Lazer symbols returned HTTP '' @ show_nat 503))"
  using snapshot_failure_sticks [of flaky_host 503 "Inl ''busy''" id "[(p, Num 0, Num 0), (p, Num 1, Num 0)]" None None for p]
  by (auto simp add: flaky_host_def res_ok_def numeral_2_eq_2)

section \<open>Runs of the stream\<close>

text \<open>What can happen to the stream: the calls of the bot, the events of socket k of endpoint i, and the
  reconnect timer of endpoint i. The bot starts the stream before it has feeds, and again only after it has
  stopped it. A socket opens only while it connects, and ends once.\<close>

datatype lazerInput = SetFeedIds "jsnum list" | StartStream | StopStream | SocketOpens nat nat
  | SocketSends nat nat lazerMessage | SocketCloses nat nat | SocketFails nat nat | TimerFires nat

definition has_socket :: "nat \<Rightarrow> nat \<Rightarrow> pythStream \<Rightarrow> socketPhase set \<Rightarrow> bool" where
  "has_socket i k s ph \<longleftrightarrow> i < length (ps_endpoints s) \<and> k < length (ep_sockets (ps_endpoints s ! i)) \<and>
     wk_phase (ep_sockets (ps_endpoints s ! i) ! k) \<in> ph"

definition at_endpoint :: "nat \<Rightarrow> (endpointState \<Rightarrow> endpointState) \<Rightarrow> pythStream \<Rightarrow> pythStream" where
  "at_endpoint i f s = s\<lparr> ps_endpoints := (ps_endpoints s)[i := f (ps_endpoints s ! i)] \<rparr>"

fun lazer_input :: "(nat \<Rightarrow> jsnum) \<Rightarrow> (jsnum \<Rightarrow> jsnum) \<Rightarrow> jsnum option \<Rightarrow> lazerInput \<Rightarrow> pythStream \<Rightarrow>
    ((pythTickEvent \<times> jsnum) list \<times> pythStream) option" where
  "lazer_input clk pow10 maxLag (SetFeedIds ids) s = Some ([], setFeedIds ids s)"
| "lazer_input clk pow10 maxLag StartStream s =
     (if ps_feedIds s = [] \<or> ps_stopped s then Some ([], start_stream s) else None)"
| "lazer_input clk pow10 maxLag StopStream s = Some ([], stop_stream s)"
| "lazer_input clk pow10 maxLag (SocketOpens i k) s =
     (if has_socket i k s {SockConnecting} then Some ([], at_endpoint i (on_open (ps_feedIds s) k) s) else None)"
| "lazer_input clk pow10 maxLag (SocketSends i k msg) s =
     (if has_socket i k s {SockOpen, SockClosing}
      then Some (if wk_listening (ep_sockets (ps_endpoints s ! i) ! k) then handleMessage clk pow10 maxLag i msg s else ([], s)) else None)"
| "lazer_input clk pow10 maxLag (SocketCloses i k) s =
     (if has_socket i k s {SockConnecting, SockOpen, SockClosing} then Some ([], at_endpoint i (on_close (ps_stopped s) k) s) else None)"
| "lazer_input clk pow10 maxLag (SocketFails i k) s =
     (if has_socket i k s {SockConnecting, SockOpen, SockClosing} then Some ([], at_endpoint i (on_error k) s) else None)"
| "lazer_input clk pow10 maxLag (TimerFires i) s =
     (if i < length (ps_endpoints s) \<and> ep_reconnectTimer (ps_endpoints s ! i) \<noteq> None
      then Some ([], at_endpoint i (on_timer (ps_stopped s)) s) else None)"

text \<open>The runs from the constructor, as the bot calls it, with the ticks handed to the listeners and the
  time of each.\<close>

inductive lazer_run :: "(nat \<Rightarrow> jsnum) \<Rightarrow> (jsnum \<Rightarrow> jsnum) \<Rightarrow> jsnum option \<Rightarrow> (pythTickEvent \<times> jsnum) list \<Rightarrow> pythStream \<Rightarrow> bool"
  for clk pow10 maxLag where
  begins: "lazer_run clk pow10 maxLag [] (new_stream [])"
| steps: "lazer_run clk pow10 maxLag ticks s \<Longrightarrow> lazer_input clk pow10 maxLag x s = Some (new, s') \<Longrightarrow>
    lazer_run clk pow10 maxLag (ticks @ new) s'"

section \<open>The connections\<close>

text \<open>A socket the stream still listens to and that has not closed.\<close>

definition live_socket :: "endpointState \<Rightarrow> nat \<Rightarrow> bool" where
  "live_socket e k \<longleftrightarrow> k < length (ep_sockets e) \<and> wk_listening (ep_sockets e ! k) \<and> wk_phase (ep_sockets e ! k) \<noteq> SockClosed"

definition delay_ok :: "nat \<Rightarrow> bool" where "delay_ok d \<longleftrightarrow> 1000 \<le> d \<and> d \<le> 60000"

definition link_ok :: "bool \<Rightarrow> jsnum list \<Rightarrow> endpointState \<Rightarrow> bool" where
  "link_ok stopped feeds e \<longleftrightarrow> (\<forall>k. live_socket e k \<longrightarrow> ep_ws e = Some k) \<and>
     (ep_reconnectTimer e \<noteq> None \<longrightarrow> (\<forall>k. \<not> live_socket e k)) \<and>
     (stopped \<longrightarrow> ep_ws e = None \<and> ep_reconnectTimer e = None) \<and>
     (\<not> stopped \<and> feeds \<noteq> [] \<longrightarrow> ep_reconnectTimer e \<noteq> None \<or> (\<exists>k. live_socket e k)) \<and>
     delay_ok (ep_reconnectBackoffMs e) \<and> (\<forall>d. ep_reconnectTimer e = Some d \<longrightarrow> delay_ok d)"

lemma live_set_socket:
  "live_socket (set_socket k f e) j \<longleftrightarrow> (if j = k then k < length (ep_sockets e) \<and> wk_listening (f (ep_sockets e ! k)) \<and>
     wk_phase (f (ep_sockets e ! k)) \<noteq> SockClosed else live_socket e j)"
  by (auto simp add: live_socket_def set_socket_def nth_list_update)

lemma set_socket_fields [simp]:
  "ep_ws (set_socket k f e) = ep_ws e" "ep_reconnectTimer (set_socket k f e) = ep_reconnectTimer e"
  "ep_reconnectBackoffMs (set_socket k f e) = ep_reconnectBackoffMs e"
  "length (ep_sockets (set_socket k f e)) = length (ep_sockets e)"
  by (simp_all add: set_socket_def)

lemma live_field_updates [simp]:
  "live_socket (e\<lparr> ep_ws := w \<rparr>) = live_socket e" "live_socket (e\<lparr> ep_reconnectTimer := t \<rparr>) = live_socket e"
  "live_socket (e\<lparr> ep_keepaliveTimer := b \<rparr>) = live_socket e" "live_socket (e\<lparr> ep_connected := b \<rparr>) = live_socket e"
  "live_socket (e\<lparr> ep_reconnectBackoffMs := n \<rparr>) = live_socket e" "live_socket (e\<lparr> ep_reconnectCount := n \<rparr>) = live_socket e"
  "live_socket (e\<lparr> ep_firstStreamUpdateLogged := b \<rparr>) = live_socket e"
  "live_socket (e\<lparr> ep_invalidFeedCount := n \<rparr>) = live_socket e" "live_socket (e\<lparr> ep_lastUpdateAtMs := u \<rparr>) = live_socket e"
  by (simp_all add: live_socket_def fun_eq_iff)

lemma live_schedule [simp]: "live_socket (scheduleReconnect st e) = live_socket e" "ep_ws (scheduleReconnect st e) = ep_ws e"
  by (simp_all add: scheduleReconnect_def)

lemma schedule_timer:
  assumes "delay_ok (ep_reconnectBackoffMs e)" "\<forall>d. ep_reconnectTimer e = Some d \<longrightarrow> delay_ok d"
  shows "delay_ok (ep_reconnectBackoffMs (scheduleReconnect st e))"
    and "\<forall>d. ep_reconnectTimer (scheduleReconnect st e) = Some d \<longrightarrow> delay_ok d"
    and "\<not> st \<Longrightarrow> ep_reconnectTimer (scheduleReconnect st e) \<noteq> None"
    and "st \<Longrightarrow> scheduleReconnect st e = e"
  using assms by (auto simp add: scheduleReconnect_def delay_ok_def)

lemma close_facts:
  assumes "\<forall>k. live_socket e k \<longrightarrow> ep_ws e = Some k" "delay_ok (ep_reconnectBackoffMs e)"
    "\<forall>d. ep_reconnectTimer e = Some d \<longrightarrow> delay_ok d"
  shows "\<not> live_socket (closeSocket st e) k" and "ep_ws (closeSocket st e) = None"
    and "delay_ok (ep_reconnectBackoffMs (closeSocket st e))" and "\<forall>d. ep_reconnectTimer (closeSocket st e) = Some d \<longrightarrow> delay_ok d"
    and "\<not> st \<Longrightarrow> ep_reconnectTimer (closeSocket st e) \<noteq> None"
    and "st \<Longrightarrow> ep_reconnectTimer (closeSocket st e) = ep_reconnectTimer e"
proof -
  define e2 where "e2 = (case ep_ws e of None \<Rightarrow> e\<lparr> ep_keepaliveTimer := False \<rparr>
      | Some k \<Rightarrow> set_socket k (\<lambda>w. w\<lparr> wk_listening := False,
          wk_phase := (if wk_phase w = SockClosed then SockClosed else SockClosing) \<rparr>) (e\<lparr> ep_keepaliveTimer := False, ep_ws := None \<rparr>))"
  have c: "closeSocket st e = (if \<not> st then scheduleReconnect st (e2\<lparr> ep_connected := False \<rparr>) else e2\<lparr> ep_connected := False \<rparr>)"
    by (simp add: closeSocket_def e2_def Let_def)
  have l: "\<not> live_socket e2 k" for k using assms(1) by (auto simp add: e2_def live_set_socket split: option.splits)
  have w: "ep_ws e2 = None" "ep_reconnectTimer e2 = ep_reconnectTimer e" "ep_reconnectBackoffMs e2 = ep_reconnectBackoffMs e"
    by (auto simp add: e2_def split: option.splits)
  note S = schedule_timer [of "e2\<lparr> ep_connected := False \<rparr>" st]
  show "\<not> live_socket (closeSocket st e) k" "ep_ws (closeSocket st e) = None" using l w by (simp_all add: c)
  show "delay_ok (ep_reconnectBackoffMs (closeSocket st e))" using S(1) w assms(2,3) unfolding c by (cases st) simp_all
  show "\<forall>d. ep_reconnectTimer (closeSocket st e) = Some d \<longrightarrow> delay_ok d" using S(2) w assms(2,3) unfolding c by (cases st) simp_all
  show "\<not> st \<Longrightarrow> ep_reconnectTimer (closeSocket st e) \<noteq> None" using S(3) w assms(2,3) unfolding c by simp
  show "st \<Longrightarrow> ep_reconnectTimer (closeSocket st e) = ep_reconnectTimer e" using w unfolding c by simp
qed

lemma live_unchanged:
  assumes "wk_listening (f (ep_sockets e ! k)) \<and> wk_phase (f (ep_sockets e ! k)) \<noteq> SockClosed \<longleftrightarrow>
    wk_listening (ep_sockets e ! k) \<and> wk_phase (ep_sockets e ! k) \<noteq> SockClosed"
  shows "live_socket (set_socket k f e) = live_socket e"
proof
  fix j show "live_socket (set_socket k f e) j = live_socket e j"
    using assms unfolding live_set_socket by (auto simp add: live_socket_def)
qed

lemma link_closed:
  assumes "\<forall>k. live_socket e k \<longrightarrow> ep_ws e = Some k" "delay_ok (ep_reconnectBackoffMs e)"
    "\<forall>d. ep_reconnectTimer e = Some d \<longrightarrow> delay_ok d" "st \<longrightarrow> ep_reconnectTimer e = None"
  shows "link_ok st feeds (closeSocket st e)"
proof -
  obtain e' where e': "closeSocket st e = e'" by blast
  note C = close_facts [OF assms(1-3), of st, unfolded e']
  have "st \<longrightarrow> ep_reconnectTimer e' = None" using C(6) assms(4) by simp
  then show ?thesis unfolding e' link_ok_def using C(1-5) by blast
qed

lemma link_close: "link_ok st feeds e \<Longrightarrow> link_ok st feeds' (closeSocket st e)"
  by (rule link_closed) (simp_all add: link_ok_def)

lemma link_stop: "link_ok st feeds e \<Longrightarrow> link_ok True feeds' (closeSocket True (e\<lparr> ep_reconnectTimer := None \<rparr>))"
  by (rule link_closed) (simp_all add: link_ok_def)

lemma live_connect:
  "live_socket (connect False e) k \<longleftrightarrow> live_socket e k \<or> k = length (ep_sockets e)"
  by (auto simp add: live_socket_def connect_def nth_append)

lemma link_connect:
  assumes "delay_ok (ep_reconnectBackoffMs e)" "ep_reconnectTimer e = None" "\<And>k. \<not> live_socket e k"
  shows "link_ok False feeds (connect False e)"
proof -
  have "ep_ws (connect False e) = Some (length (ep_sockets e))" "ep_reconnectTimer (connect False e) = None"
    "ep_reconnectBackoffMs (connect False e) = ep_reconnectBackoffMs e"
    using assms(2) by (simp_all add: connect_def)
  then show ?thesis using assms by (simp add: link_ok_def live_connect)
qed

lemma link_schedule:
  assumes "link_ok st feeds e" "\<And>k. \<not> live_socket e' k" "ep_ws e' = ep_ws e" "ep_reconnectTimer e' = ep_reconnectTimer e"
    "ep_reconnectBackoffMs e' = ep_reconnectBackoffMs e"
  shows "link_ok st feeds (scheduleReconnect st e')"
  using assms schedule_timer [of e' st] unfolding link_ok_def by (cases st) simp_all

lemma subscribe_keeps:
  "live_socket (subscribe feeds e) = live_socket e" "ep_ws (subscribe feeds e) = ep_ws e"
  "ep_reconnectTimer (subscribe feeds e) = ep_reconnectTimer e" "ep_reconnectBackoffMs (subscribe feeds e) = ep_reconnectBackoffMs e"
  by (simp_all add: subscribe_def live_unchanged split: option.split)

lemma link_cong:
  assumes "live_socket e' = live_socket e" "ep_ws e' = ep_ws e" "ep_reconnectTimer e' = ep_reconnectTimer e"
    "delay_ok (ep_reconnectBackoffMs e')"
  shows "link_ok st feeds e \<Longrightarrow> link_ok st feeds e'"
  using assms by (simp add: link_ok_def)

lemma link_open:
  assumes "link_ok st feeds e" "k < length (ep_sockets e)" "wk_phase (ep_sockets e ! k) = SockConnecting"
  shows "link_ok st feeds (on_open feeds' k e)"
proof -
  let ?e1 = "set_socket k (\<lambda>w. w\<lparr> wk_phase := SockOpen \<rparr>) e"
  have "live_socket ?e1 = live_socket e" using assms(3) by (intro live_unchanged) simp
  moreover have "delay_ok 1000" "delay_ok (ep_reconnectBackoffMs e)" using assms(1) by (simp_all add: delay_ok_def link_ok_def)
  ultimately show ?thesis
    by (intro link_cong [OF _ _ _ _ assms(1)]) (simp_all add: on_open_def Let_def subscribe_keeps)
qed

lemma link_end:
  assumes "link_ok st feeds e" "k < length (ep_sockets e)" "wk_phase (ep_sockets e ! k) \<noteq> SockClosed"
  shows "link_ok st feeds (on_close st k e)"
proof -
  let ?e1 = "set_socket k (\<lambda>w. w\<lparr> wk_phase := SockClosed \<rparr>) e"
  have l: "live_socket ?e1 j \<longleftrightarrow> live_socket e j \<and> j \<noteq> k" for j by (simp add: live_set_socket)
  show ?thesis
  proof (cases "wk_listening (ep_sockets e ! k)")
    case True
    then have "live_socket e k" using assms by (simp add: live_socket_def)
    then have "\<not> live_socket ?e1 j" for j using assms(1) unfolding l link_ok_def by (metis option.inject)
    then show ?thesis using True unfolding on_close_def Let_def by (simp add: link_schedule [OF assms(1)])
  next
    case False
    then have "live_socket ?e1 = live_socket e" unfolding fun_eq_iff l by (auto simp add: live_socket_def)
    then show ?thesis using False assms(1)
      by (intro link_cong [OF _ _ _ _ assms(1)]) (simp_all add: on_close_def Let_def link_ok_def)
  qed
qed

lemma link_fail:
  assumes "link_ok st feeds e" "wk_phase (ep_sockets e ! k) \<noteq> SockClosed" shows "link_ok st feeds (on_error k e)"
proof -
  have "live_socket (on_error k e) = live_socket e"
    using assms(2) unfolding on_error_def by (intro live_unchanged) simp
  then show ?thesis using assms(1)
    by (intro link_cong [OF _ _ _ _ assms(1)]) (simp_all add: on_error_def link_ok_def)
qed

lemma link_timer:
  assumes "link_ok st feeds e" "ep_reconnectTimer e \<noteq> None" shows "link_ok st feeds (on_timer st e)"
proof -
  have "\<not> st" "\<And>k. \<not> live_socket e k" "delay_ok (ep_reconnectBackoffMs e)" using assms by (auto simp add: link_ok_def)
  then show ?thesis by (simp add: on_timer_def link_connect)
qed

definition links_ok :: "pythStream \<Rightarrow> bool" where
  "links_ok s \<longleftrightarrow> (\<forall>e \<in> set (ps_endpoints s). link_ok (ps_stopped s) (ps_feedIds s) e)"

lemma links_at:
  assumes "links_ok s" "link_ok (ps_stopped s) (ps_feedIds s) (ps_endpoints s ! i) \<Longrightarrow>
      link_ok (ps_stopped s) (ps_feedIds s) (f (ps_endpoints s ! i))"
  shows "links_ok (at_endpoint i f s)"
proof (cases "i < length (ps_endpoints s)")
  case True
  then have "link_ok (ps_stopped s) (ps_feedIds s) (f (ps_endpoints s ! i))" using assms by (simp add: links_ok_def)
  then show ?thesis using assms(1) set_update_subset_insert [of "ps_endpoints s" i]
    unfolding links_ok_def at_endpoint_def by fastforce
next
  case False
  then show ?thesis using assms(1) by (simp add: links_ok_def at_endpoint_def list_update_beyond)
qed

lemma fold_deliver_fields:
  "ps_endpoints (snd (fold (deliver_feed clk pow10 maxLag ts) feeds x)) = ps_endpoints (snd x) \<and>
   ps_feedIds (snd (fold (deliver_feed clk pow10 maxLag ts) feeds x)) = ps_feedIds (snd x) \<and>
   ps_stopped (snd (fold (deliver_feed clk pow10 maxLag ts) feeds x)) = ps_stopped (snd x)"
proof (induction feeds arbitrary: x)
  case (Cons f feeds)
  have "ps_endpoints (snd (deliver_feed clk pow10 maxLag ts f x)) = ps_endpoints (snd x)"
    "ps_feedIds (snd (deliver_feed clk pow10 maxLag ts f x)) = ps_feedIds (snd x)"
    "ps_stopped (snd (deliver_feed clk pow10 maxLag ts f x)) = ps_stopped (snd x)"
    by (simp_all add: deliver_feed_def Let_def split: option.split prod.split)
  then show ?case using Cons.IH by simp
qed simp

lemma links_message: assumes "links_ok s" shows "links_ok (snd (handleMessage clk pow10 maxLag i msg s))"
proof -
  have c: "link_ok st feeds e \<Longrightarrow> link_ok st feeds (e\<lparr> ep_invalidFeedCount := n \<rparr>)"
    "link_ok st feeds e \<Longrightarrow> link_ok st feeds (e\<lparr> ep_lastUpdateAtMs := u, ep_firstStreamUpdateLogged := b \<rparr>)" for st feeds e n u b
    by (simp_all add: link_ok_def)
  show ?thesis
  proof (cases msg)
    case (InvalidIgnored n)
    have "links_ok (at_endpoint i (\<lambda>e. e\<lparr> ep_invalidFeedCount := ep_invalidFeedCount e + n \<rparr>) s)"
      by (rule links_at [OF assms]) (rule c(1))
    then show ?thesis by (simp add: handleMessage_def InvalidIgnored at_endpoint_def)
  next
    case (StreamUpdated ts feeds)
    let ?u = "Some (clk (ps_reads s))"
    have "links_ok (at_endpoint i (\<lambda>e. e\<lparr> ep_lastUpdateAtMs := ?u, ep_firstStreamUpdateLogged := True \<rparr>) s)"
      by (rule links_at [OF assms]) (rule c(2))
    then show ?thesis
      by (simp add: handleMessage_def StreamUpdated at_endpoint_def links_ok_def Let_def fold_deliver_fields)
  next
    case OtherMessage
    then show ?thesis using assms by (simp add: handleMessage_def)
  qed
qed

lemma close_timer:
  assumes "link_ok False feeds e" obtains d where "ep_reconnectTimer (closeSocket False e) = Some d" "delay_ok d"
proof -
  have "\<forall>k. live_socket e k \<longrightarrow> ep_ws e = Some k" "delay_ok (ep_reconnectBackoffMs e)"
    "\<forall>d. ep_reconnectTimer e = Some d \<longrightarrow> delay_ok d" using assms by (simp_all add: link_ok_def)
  note C = close_facts [OF this, of False]
  show ?thesis using C(4,5) that by auto
qed

lemma links_setFeedIds: assumes "links_ok s" shows "links_ok (setFeedIds ids s)"
proof (cases "ids = ps_feedIds s")
  case True
  then show ?thesis using assms by (simp add: setFeedIds_def Let_def links_ok_def)
next
  case False
  let ?c = "closeSocket (ps_stopped s)"
  have l: "link_ok (ps_stopped s) ids (?c e)" if "e \<in> set (ps_endpoints s)" for e
    using assms that by (auto simp add: links_ok_def intro: link_close)
  have k: "(if ep_ws (?c e) = None \<and> ep_reconnectTimer (?c e) = None then connect (ps_stopped s) (?c e) else ?c e) = ?c e" if m: "e \<in> set (ps_endpoints s)" "\<not> ps_stopped s" for e
  proof -
    have "link_ok False (ps_feedIds s) e" using assms m by (auto simp add: links_ok_def)
    then obtain d where "ep_reconnectTimer (closeSocket False e) = Some d" by (rule close_timer)
    then show ?thesis using m(2) by simp
  qed
  have "map (\<lambda>e. if ep_ws e = None \<and> ep_reconnectTimer e = None then connect (ps_stopped s) e else e) (map ?c (ps_endpoints s)) =
      map ?c (ps_endpoints s)" if "\<not> ps_stopped s"
    unfolding map_map comp_def by (intro map_cong refl k that)
  then have "ps_endpoints (setFeedIds ids s) = map ?c (ps_endpoints s)" using False by (simp add: setFeedIds_def Let_def)
  moreover have "ps_stopped (setFeedIds ids s) = ps_stopped s" "ps_feedIds (setFeedIds ids s) = ids"
    by (simp_all add: setFeedIds_def Let_def)
  ultimately show ?thesis using l by (simp add: links_ok_def)
qed

lemma links_start:
  assumes "links_ok s" "ps_feedIds s = [] \<or> ps_stopped s" shows "links_ok (start_stream s)"
proof (cases "ps_feedIds s = []")
  case True
  have "link_ok False [] e" if "link_ok st [] e" for st e using that by (auto simp add: link_ok_def)
  then show ?thesis using assms(1) True by (auto simp add: start_stream_def links_ok_def Let_def)
next
  case False
  then have st: "ps_stopped s" using assms(2) by simp
  have "link_ok False feeds (connect False e)" if "e \<in> set (ps_endpoints s)" for e feeds
  proof (rule link_connect)
    have "link_ok True (ps_feedIds s) e" using assms(1) st that by (simp add: links_ok_def)
    then show "delay_ok (ep_reconnectBackoffMs e)" "ep_reconnectTimer e = None" "\<And>k. \<not> live_socket e k"
      by (auto simp add: link_ok_def)
  qed
  then show ?thesis using False by (simp add: start_stream_def links_ok_def Let_def)
qed

lemma links_stop: "links_ok s \<Longrightarrow> links_ok (stop_stream s)"
  by (auto simp add: links_ok_def stop_stream_def intro: link_stop)

lemma links_input:
  assumes "links_ok s" "lazer_input clk pow10 maxLag x s = Some (new, s')" shows "links_ok s'"
proof (cases x)
  case (SocketSends i k msg)
  then show ?thesis using assms links_message [of s clk pow10 maxLag i msg] by (auto split: if_splits)
next
  case (SocketCloses i k)
  then have "has_socket i k s {SockConnecting, SockOpen, SockClosing}" "s' = at_endpoint i (on_close (ps_stopped s) k) s"
    using assms(2) by (simp_all split: if_splits)
  then show ?thesis using links_at [OF assms(1)] link_end unfolding has_socket_def by fastforce
next
  case (SocketFails i k)
  then have "has_socket i k s {SockConnecting, SockOpen, SockClosing}" "s' = at_endpoint i (on_error k) s"
    using assms(2) by (simp_all split: if_splits)
  then show ?thesis using links_at [OF assms(1)] link_fail unfolding has_socket_def by fastforce
qed (use assms in \<open>auto simp add: has_socket_def links_setFeedIds links_start links_stop
      intro: links_at link_open link_timer split: if_splits\<close>)

lemma links_run: "lazer_run clk pow10 maxLag ticks s \<Longrightarrow> links_ok s"
proof (induction rule: lazer_run.induct)
  case begins
  show ?case by (auto simp add: links_ok_def new_stream_def ENDPOINTS_def createEndpointState_def link_ok_def
      live_socket_def delay_ok_def)
next
  case (steps ticks s x new s')
  then show ?case using links_input by blast
qed

text \<open>C18: The connections to the price feed, in every state the stream can reach under any order of socket
  events, timers, feed changes and stops: an endpoint has at most one socket that is listened to and not
  closed; while the stream runs with feeds it has such a socket or a pending reconnect timer and never
  both, so an endpoint is never given up and never connected twice; after a stop it has neither; and the
  reconnect delay stays between one second and one minute.\<close>

theorem lazer_connections:
  assumes "lazer_run clk pow10 maxLag ticks s" and "e \<in> set (ps_endpoints s)"
  shows "(\<forall>j k. live_socket e j \<longrightarrow> live_socket e k \<longrightarrow> j = k) \<and>
    (ep_reconnectTimer e \<noteq> None \<longrightarrow> (\<forall>k. \<not> live_socket e k)) \<and>
    (\<not> ps_stopped s \<and> ps_feedIds s \<noteq> [] \<longrightarrow> (ep_reconnectTimer e = None \<longleftrightarrow> (\<exists>k. live_socket e k))) \<and>
    (ps_stopped s \<longrightarrow> ep_reconnectTimer e = None \<and> (\<forall>k. \<not> live_socket e k)) \<and>
    (\<forall>d. ep_reconnectTimer e = Some d \<longrightarrow> 1000 \<le> d \<and> d \<le> 60000)"
proof -
  have L: "link_ok (ps_stopped s) (ps_feedIds s) e" using links_run [OF assms(1)] assms(2) by (simp add: links_ok_def)
  have "\<forall>j k. live_socket e j \<longrightarrow> live_socket e k \<longrightarrow> j = k" using L unfolding link_ok_def by (metis option.inject)
  moreover have "ps_stopped s \<longrightarrow> ep_reconnectTimer e = None \<and> (\<forall>k. \<not> live_socket e k)" using L unfolding link_ok_def by auto
  ultimately show ?thesis using L unfolding link_ok_def delay_ok_def by blast
qed

definition running_stream :: pythStream where
  "running_stream = setFeedIds [Num 7] (start_stream (new_stream []))"

lemma running_run: "lazer_run clk pow10 maxLag [] running_stream"
proof -
  have "lazer_run clk pow10 maxLag ([] @ []) (start_stream (new_stream []))"
    by (rule lazer_run.steps [OF lazer_run.begins, where x = StartStream]) (simp add: new_stream_def)
  then have "lazer_run clk pow10 maxLag (([] @ []) @ []) running_stream"
    unfolding running_stream_def by (rule lazer_run.steps [where x = "SetFeedIds [Num 7]"]) simp
  then show ?thesis by simp
qed

theorem lazer_connections_witness:
  "ep_reconnectTimer (hd (ps_endpoints running_stream)) \<noteq> None \<and> \<not> live_socket (hd (ps_endpoints running_stream)) 0"
proof -
  have "ep_reconnectTimer (hd (ps_endpoints running_stream)) = Some 1000"
    and m: "hd (ps_endpoints running_stream) \<in> set (ps_endpoints running_stream)"
    by (simp_all add: running_stream_def setFeedIds_def start_stream_def new_stream_def ENDPOINTS_def Let_def
        createEndpointState_def closeSocket_def scheduleReconnect_def)
  then show ?thesis using lazer_connections [OF running_run [of "\<lambda>_. Num 0" id None] m] by simp
qed

text \<open>C37: A change of the feeds always darkens the whole stream: in a running stream, setFeedIds with other
  ids leaves every endpoint without a listened socket and with a reconnect timer of at least one second,
  and opens no socket. The branch that would connect at once never runs, because closing a socket has just
  set the timer it tests for.\<close>

theorem feed_change_goes_dark:
  assumes "lazer_run clk pow10 maxLag ticks s" and "\<not> ps_stopped s" and "ids \<noteq> ps_feedIds s"
    and "i < length (ps_endpoints s)"
  shows "let e = ps_endpoints s ! i; e' = ps_endpoints (setFeedIds ids s) ! i in
    (\<forall>k. \<not> live_socket e' k) \<and> (\<exists>d \<ge> 1000. ep_reconnectTimer e' = Some d) \<and>
    length (ep_sockets e') = length (ep_sockets e)"
proof -
  let ?e = "ps_endpoints s ! i"
  have L: "link_ok False (ps_feedIds s) ?e" using links_run [OF assms(1)] assms(2,4) by (auto simp add: links_ok_def)
  then obtain d where d: "ep_reconnectTimer (closeSocket False ?e) = Some d" "delay_ok d" by (rule close_timer)
  have "link_ok False ids (closeSocket False ?e)" using L by (rule link_close)
  then have "\<forall>k. \<not> live_socket (closeSocket False ?e) k" using d(1) by (simp add: link_ok_def)
  moreover have "length (ep_sockets (closeSocket False ?e)) = length (ep_sockets ?e)"
    by (simp add: closeSocket_def scheduleReconnect_def Let_def split: option.split)
  moreover have "ps_endpoints (setFeedIds ids s) ! i = closeSocket False ?e"
    using assms(2-4) d(1) by (simp add: setFeedIds_def Let_def)
  ultimately show ?thesis using d by (simp add: delay_ok_def)
qed

theorem feed_change_goes_dark_witness:
  "\<exists>d \<ge> 1000. ep_reconnectTimer (ps_endpoints (setFeedIds [Num 8] running_stream) ! 0) = Some d"
proof -
  have "\<not> ps_stopped running_stream" "ps_feedIds running_stream = [Num 7]" "length (ps_endpoints running_stream) = 3"
    by (simp_all add: running_stream_def setFeedIds_def start_stream_def new_stream_def ENDPOINTS_def Let_def)
  then show ?thesis
    using feed_change_goes_dark [OF running_run [of "\<lambda>_. Num 0" id None], of "[Num 8]" 0] by (simp add: Let_def)
qed

section \<open>Duplicates\<close>

lemma dict_get_filter:
  "dict_ok d \<Longrightarrow> dict_get (filter P d) k = (case dict_get d k of Some v \<Rightarrow> if P (k, v) then Some v else None | None \<Rightarrow> None)"
proof (induction d)
  case (Cons x d)
  obtain j v where x: "x = (j, v)" by (cases x)
  have "dict_get d j = None" using Cons.prems by (simp add: dict_ok_def x dict_get_map_of map_of_eq_None_iff)
  then show ?case using Cons by (auto simp add: x dict_ok_def split: option.splits)
qed simp

lemma dict_ok_filter: "dict_ok d \<Longrightarrow> dict_ok (filter P d)"
  by (simp add: dict_ok_def distinct_map_filter)

text \<open>A tick delivered at the n-th reading: its key is still remembered with a time not before, or more
  than a minute has passed by one of the first r readings.\<close>

definition remembered :: "(nat \<Rightarrow> int) \<Rightarrow> nat \<Rightarrow> (string, jsnum) dict \<Rightarrow> pythTickEvent \<times> jsnum \<Rightarrow> bool" where
  "remembered f r seen x \<longleftrightarrow> (\<exists>n < r. snd x = ms_clock f n \<and>
     ((\<exists>m < r. n \<le> m \<and> dict_get seen (tick_key (fst x)) = Some (ms_clock f m)) \<or> (\<exists>m < r. 60000 < f m - f n)))"

definition apart :: "pythTickEvent \<times> jsnum \<Rightarrow> pythTickEvent \<times> jsnum \<Rightarrow> bool" where
  "apart x y \<longleftrightarrow> (tick_key (fst x) = tick_key (fst y) \<longrightarrow> js_gt (js_sub (snd y) (snd x)) DEDUPE_TTL_MS)"

definition fresh_inv :: "(nat \<Rightarrow> int) \<Rightarrow> (pythTickEvent \<times> jsnum) list \<Rightarrow> pythStream \<Rightarrow> bool" where
  "fresh_inv f ticks s \<longleftrightarrow> dict_ok (ps_seen s) \<and> (\<forall>x \<in> set ticks. remembered f (ps_reads s) (ps_seen s) x) \<and> sorted_wrt apart ticks"

lemma remembered_later: "remembered f r seen x \<Longrightarrow> r \<le> r' \<Longrightarrow> remembered f r' seen x"
  unfolding remembered_def by (meson less_le_trans)

lemma remembered_passed: "60000 < f r - f n \<Longrightarrow> n < r \<Longrightarrow> snd x = ms_clock f n \<Longrightarrow> remembered f (Suc r) seen x"
  unfolding remembered_def by (meson less_Suc_eq lessI)

lemma remembered_kept:
  assumes "n < r" "snd x = ms_clock f n" "m < r" "n \<le> m" "dict_get seen (tick_key (fst x)) = Some (ms_clock f m)"
  shows "remembered f (Suc r) seen x"
  using assms unfolding remembered_def by (meson less_SucI)

lemma ms_gap:
  assumes "clock_ok f" shows "js_gt (js_sub (ms_clock f m) (ms_clock f n)) DEDUPE_TTL_MS \<longleftrightarrow> 60000 < f m - f n"
proof -
  have "js_sub (ms_clock f m) (ms_clock f n) = Num (of_int (f m - f n))"
    using assms ms_sub [of "f m" "f n"] by (simp add: ms_clock_def clock_ok_def)
  then show ?thesis unfolding DEDUPE_TTL_MS_def by (simp del: of_int_diff)
qed

lemma fresh_seen:
  assumes f: "clock_ok f" and inv: "fresh_inv f ticks s" and w: "wasSeen (ms_clock f (ps_reads s)) ev (ps_seen s) = (dup, seen)"
  shows "fresh_inv f (if dup then ticks else ticks @ [(ev, ms_clock f (ps_reads s))])
    (s\<lparr> ps_seen := seen, ps_reads := Suc (ps_reads s) \<rparr>)"
proof (cases "dict_has (ps_seen s) (tick_key ev)")
  case True
  then have "dup" "seen = ps_seen s" using w by (simp_all add: wasSeen_def)
  then show ?thesis using inv by (auto simp add: fresh_inv_def intro: remembered_later)
next
  case False
  let ?r = "ps_reads s" and ?K = "tick_key ev"
  let ?d = "dict_set (ps_seen s) ?K (ms_clock f ?r)"
  let ?P = "\<lambda>x. \<not> js_gt (js_sub (ms_clock f ?r) (snd x)) DEDUPE_TTL_MS"
  have mono: "m \<le> ?r \<Longrightarrow> f m \<le> f ?r" for m using f by (simp add: clock_ok_def mono_def)
  have dup: "\<not> dup" and seen: "seen = (if length ?d > 10000 then filter ?P ?d else ?d)"
    using w False by (simp_all add: wasSeen_def Let_def)
  have ok: "dict_ok ?d" using inv by (simp add: fresh_inv_def dict_ok_set)
  have get: "dict_get seen k = (case dict_get ?d k of Some v \<Rightarrow> if length ?d > 10000 \<and> \<not> ?P (k, v) then None else Some v | None \<Rightarrow> None)" for k
    by (auto simp add: seen dict_get_filter [OF ok] split: option.split)
  have old: "remembered f (Suc ?r) seen x \<and> apart x (ev, ms_clock f ?r)" if x: "x \<in> set ticks" for x
  proof -
    obtain n where n: "n < ?r" "snd x = ms_clock f n" and c: "(\<exists>m < ?r. n \<le> m \<and> dict_get (ps_seen s) (tick_key (fst x)) = Some (ms_clock f m))
        \<or> (\<exists>m < ?r. 60000 < f m - f n)" using inv x unfolding fresh_inv_def remembered_def by blast
    have late: "60000 < f ?r - f n" if "m < ?r" "60000 < f m - f n" for m using that mono [of m] by simp
    show ?thesis
    proof (cases "tick_key (fst x) = ?K")
      case True
      then have "dict_get (ps_seen s) (tick_key (fst x)) = None" using False by (simp add: dict_has_def)
      then obtain m where "m < ?r" "60000 < f m - f n" using c by (metis option.distinct(1))
      then have g: "60000 < f ?r - f n" by (rule late)
      then have "remembered f (Suc ?r) seen x" using n by (rule remembered_passed)
      moreover have "apart x (ev, ms_clock f ?r)" using g n(2) by (simp add: apart_def ms_gap [OF f])
      ultimately show ?thesis by simp
    next
      case other: False
      have "remembered f (Suc ?r) seen x"
      proof (cases "\<exists>m < ?r. 60000 < f m - f n")
        case True
        then obtain m where "m < ?r" "60000 < f m - f n" by blast
        then have "60000 < f ?r - f n" by (rule late)
        then show ?thesis using n by (rule remembered_passed)
      next
        case no: False
        then obtain m where m: "m < ?r" "n \<le> m" "dict_get (ps_seen s) (tick_key (fst x)) = Some (ms_clock f m)" using c by blast
        have dx: "dict_get ?d (tick_key (fst x)) = Some (ms_clock f m)" using m(3) other by (simp add: dict_laws)
        show ?thesis
        proof (cases "length ?d > 10000 \<and> 60000 < f ?r - f m")
          case True
          moreover have "f n \<le> f m" using f m(2) by (simp add: clock_ok_def mono_def)
          ultimately have "60000 < f ?r - f n" by simp
          then show ?thesis using n by (rule remembered_passed)
        next
          case False
          then have "dict_get seen (tick_key (fst x)) = Some (ms_clock f m)" by (auto simp add: get dx ms_gap [OF f])
          then show ?thesis by (rule remembered_kept [OF n m(1,2)])
        qed
      qed
      then show ?thesis using other by (simp add: apart_def)
    qed
  qed
  have "dict_get seen ?K = Some (ms_clock f ?r)" by (simp add: get dict_laws ms_gap [OF f])
  then have "remembered f (Suc ?r) seen (ev, ms_clock f ?r)" unfolding remembered_def by auto
  moreover have "dict_ok seen" using ok by (simp add: seen dict_ok_filter)
  ultimately show ?thesis using dup old inv by (auto simp add: fresh_inv_def sorted_wrt_append)
qed

lemma fresh_feed:
  assumes "clock_ok f" "fresh_inv f (acc0 @ fst x) (snd x)"
  shows "fresh_inv f (acc0 @ fst (deliver_feed (ms_clock f) pow10 maxLag ts u x)) (snd (deliver_feed (ms_clock f) pow10 maxLag ts u x))"
proof (cases "toEvent pow10 maxLag u ts")
  case None
  then show ?thesis using assms(2) by (simp add: deliver_feed_def)
next
  case (Some ev)
  obtain dup seen where w: "wasSeen (ms_clock f (ps_reads (snd x))) ev (ps_seen (snd x)) = (dup, seen)" by fastforce
  show ?thesis using fresh_seen [OF assms w] by (cases dup) (simp_all add: deliver_feed_def Some Let_def w)
qed

lemma fresh_feeds:
  "clock_ok f \<Longrightarrow> fresh_inv f (acc0 @ fst x) (snd x) \<Longrightarrow>
    fresh_inv f (acc0 @ fst (fold (deliver_feed (ms_clock f) pow10 maxLag ts) us x)) (snd (fold (deliver_feed (ms_clock f) pow10 maxLag ts) us x))"
  by (induction us arbitrary: x) (simp_all add: fresh_feed)

lemma fresh_input:
  assumes f: "clock_ok f" and inv: "fresh_inv f ticks s" and i: "lazer_input (ms_clock f) pow10 maxLag x s = Some (new, s')"
  shows "fresh_inv f (ticks @ new) s'"
proof (cases "\<exists>i k msg. x = SocketSends i k msg \<and> wk_listening (ep_sockets (ps_endpoints s ! i) ! k)")
  case True
  then obtain i k msg where x: "x = SocketSends i k msg" and r: "(new, s') = handleMessage (ms_clock f) pow10 maxLag i msg s"
    using i by (auto split: if_splits)
  show ?thesis
  proof (cases msg)
    case (StreamUpdated ts us)
    have "fresh_inv f (ticks @ []) (s\<lparr> ps_endpoints := eps, ps_reads := Suc (ps_reads s) \<rparr>)" for eps
      using inv by (auto simp add: fresh_inv_def intro: remembered_later)
    then show ?thesis using fresh_feeds [OF f, where x = "([], s1)" for s1] r
      by (simp add: handleMessage_def StreamUpdated Let_def) (metis fst_conv snd_conv)
  qed (use inv r in \<open>simp_all add: handleMessage_def fresh_inv_def\<close>)
next
  case False
  then have "new = [] \<and> ps_seen s' = ps_seen s \<and> ps_reads s' = ps_reads s"
    using i by (cases x) (auto simp add: setFeedIds_def start_stream_def stop_stream_def at_endpoint_def Let_def split: if_splits)
  then show ?thesis using inv by (simp add: fresh_inv_def)
qed

text \<open>No tick reaches the listeners twice within a minute: with a clock of whole milliseconds that does
  not go back, in every run of the stream, over all endpoints, reconnects and purges of the memory, two
  deliveries at most 60 seconds apart differ in the feed, a time stamp, the price or the session.\<close>

theorem ticks_deduplicated:
  assumes "clock_ok f" and "lazer_run (ms_clock f) pow10 maxLag ticks s" and "i < j" and "j < length ticks"
    and "\<not> js_gt (js_sub (snd (ticks ! j)) (snd (ticks ! i))) (Num 60000)"
  shows "tick_key (fst (ticks ! i)) \<noteq> tick_key (fst (ticks ! j))"
proof -
  have "fresh_inv f ticks s" using assms(2)
  proof (induction rule: lazer_run.induct)
    case begins
    show ?case by (simp add: fresh_inv_def new_stream_def)
  next
    case (steps ticks s x new s')
    then show ?case using fresh_input [OF assms(1)] by blast
  qed
  then have "apart (ticks ! i) (ticks ! j)" using assms(3,4) by (simp add: fresh_inv_def sorted_wrt_nth_less)
  then show ?thesis using assms(5) by (auto simp add: apart_def DEDUPE_TTL_MS_def)
qed

definition two_feeds :: "feedUpdate list" where
  "two_feeds = (let u = \<lparr> fu_exponent = None, fu_price = Some (N (Num 5)), fu_confidence = None, fu_feedUpdateTimestamp = None,
     fu_publishTime = None, fu_priceFeedId = Some (N (Num 7)), fu_id = None, fu_marketSession = None \<rparr>
     in [u, u, u\<lparr> fu_marketSession := Some ''open'' \<rparr>])"

definition open_stream :: pythStream where
  "open_stream = at_endpoint 0 (on_open [Num 7] 0) (at_endpoint 0 (on_timer False) running_stream)"

definition two_ticks :: "(pythTickEvent \<times> jsnum) list" where
  "two_ticks = fst (handleMessage (ms_clock (\<lambda>_. 0)) (\<lambda>_. Num 1) None 0 (StreamUpdated (Some (N (Num 2000))) two_feeds) open_stream)"

lemma two_ticks_eval: "map snd two_ticks = [Num 0, Num 0]"
  by (simp add: two_ticks_def handleMessage_def two_feeds_def deliver_feed_def toEvent_def Let_def Number_def coalesce_def
      wasSeen_def tick_key_def dict_has_def ms_clock_def open_stream_def at_endpoint_def running_stream_def setFeedIds_def
      start_stream_def new_stream_def finite_or_null_def dict_laws del: show_num.simps)

lemma two_ticks_run: "\<exists>s. lazer_run (ms_clock (\<lambda>_. 0)) (\<lambda>_. Num 1) None two_ticks s"
proof -
  let ?clk = "ms_clock (\<lambda>_. 0)" and ?p = "\<lambda>_. Num 1"
  let ?m = "StreamUpdated (Some (N (Num 2000))) two_feeds"
  note defs = running_stream_def setFeedIds_def start_stream_def new_stream_def ENDPOINTS_def Let_def createEndpointState_def
    closeSocket_def scheduleReconnect_def at_endpoint_def on_timer_def connect_def on_open_def set_socket_def subscribe_def has_socket_def
  have t: "lazer_input ?clk ?p None (TimerFires 0) running_stream = Some ([], at_endpoint 0 (on_timer False) running_stream)"
    by (simp add: defs)
  have c: "lazer_input ?clk ?p None (SocketOpens 0 0) (at_endpoint 0 (on_timer False) running_stream) = Some ([], open_stream)"
    by (simp add: defs open_stream_def)
  have m: "lazer_input ?clk ?p None (SocketSends 0 0 ?m) open_stream = Some (two_ticks, snd (handleMessage ?clk ?p None 0 ?m open_stream))"
    unfolding two_ticks_def prod.collapse by (simp add: defs open_stream_def)
  show ?thesis
    using lazer_run.steps [OF lazer_run.steps [OF lazer_run.steps [OF running_run t] c] m] by auto
qed

theorem ticks_deduplicated_witness: "tick_key (fst (two_ticks ! 0)) \<noteq> tick_key (fst (two_ticks ! 1))"
proof -
  obtain s where r: "lazer_run (ms_clock (\<lambda>_. 0)) (\<lambda>_. Num 1) None two_ticks s" using two_ticks_run by blast
  have n: "length two_ticks = 2" using arg_cong [OF two_ticks_eval, of length] by simp
  have "snd (two_ticks ! 0) = Num 0" "snd (two_ticks ! 1) = Num 0"
    using n arg_cong [OF two_ticks_eval, of "\<lambda>xs. xs ! 0"] arg_cong [OF two_ticks_eval, of "\<lambda>xs. xs ! 1"] by simp_all
  moreover have "\<not> js_gt (js_sub (Num 0) (Num 0)) (Num 60000)" by (simp add: js_sub_def)
  ultimately show ?thesis using ticks_deduplicated [OF _ r, of 0 1] n by (simp add: clock_ok_def mono_def)
qed

end
