(* ===== verification/BotWork.thy ===== *)
theory BotWork
  imports BotRuntime PythFeed Readiness
begin

text \<open>
  services/stat-arb-bot/src/index.ts with heartbeat.ts and basis-recorder.ts: what happens to a Pyth tick
  (processPythTick), the fallback to snapshots, the work of one scheduled quote (onWork) with the rows it
  stores, and the heartbeat. The readings of Date.now during a tick are numbered by the scheduler's
  counter, those during a work by the counter of its state. Telemetry calls and warnings are events in
  their order; the reply of the order request and Math.random are parameters.
\<close>

section \<open>Heartbeat (heartbeat.ts)\<close>

record botHeartbeat =
  hb_http429 :: nat
  hb_errors :: nat
  hb_invalidFeeds :: nat
  hb_windowStartMs :: jsnum
  hb_lastStreamLagMs :: "jsnum option"
  hb_lastQuoteLagMs :: "jsnum option"
  hb_lastLazerHealth :: "(nat \<times> lazerEndpointHealth list) option"

record heartbeatRow =
  hr_streamLagMs :: "jsnum option"
  hr_quoteLagMs :: "jsnum option"
  hr_activePairCount :: nat
  hr_currentRps :: jsnum
  hr_http429Count1m :: nat
  hr_errorCount1m :: nat
  hr_activeLazerEndpointCount :: "nat option"
  hr_lazerEndpointHealth :: "(nat \<times> lazerEndpointHealth list) option"
  hr_invalidFeedCount1m :: nat

definition new_heartbeat :: "jsnum \<Rightarrow> botHeartbeat" where
  "new_heartbeat nowMs = \<lparr> hb_http429 = 0, hb_errors = 0, hb_invalidFeeds = 0, hb_windowStartMs = nowMs,
     hb_lastStreamLagMs = None, hb_lastQuoteLagMs = None, hb_lastLazerHealth = None \<rparr>"

definition countHttp429 :: "botHeartbeat \<Rightarrow> botHeartbeat" where
  "countHttp429 h = h\<lparr> hb_http429 := Suc (hb_http429 h) \<rparr>"

definition countError :: "botHeartbeat \<Rightarrow> botHeartbeat" where
  "countError h = h\<lparr> hb_errors := Suc (hb_errors h) \<rparr>"

definition countInvalidFeed :: "botHeartbeat \<Rightarrow> botHeartbeat" where
  "countInvalidFeed h = h\<lparr> hb_invalidFeeds := Suc (hb_invalidFeeds h) \<rparr>"

text \<open>The row of a beat, and the counters after it.\<close>

definition beat :: "jsnum \<Rightarrow> nat \<Rightarrow> jsnum \<Rightarrow> botHeartbeat \<Rightarrow> heartbeatRow \<times> botHeartbeat" where
  "beat now activePairs currentRps h =
    (let h1 = (if js_ge (js_sub now (hb_windowStartMs h)) (Num 60000)
         then h\<lparr> hb_http429 := 0, hb_errors := 0, hb_invalidFeeds := 0, hb_windowStartMs := now \<rparr> else h)
     in (\<lparr> hr_streamLagMs = hb_lastStreamLagMs h1, hr_quoteLagMs = hb_lastQuoteLagMs h1, hr_activePairCount = activePairs,
          hr_currentRps = currentRps, hr_http429Count1m = hb_http429 h1, hr_errorCount1m = hb_errors h1,
          hr_activeLazerEndpointCount = map_option fst (hb_lastLazerHealth h1),
          hr_lazerEndpointHealth = hb_lastLazerHealth h1, hr_invalidFeedCount1m = hb_invalidFeeds h1 \<rparr>, h1))"

section \<open>Ticks (index.ts, processPythTick)\<close>

datatype tickSource = FromStream | FromSnapshot

definition get_or_0 :: "(string, jsnum) dict \<Rightarrow> string \<Rightarrow> jsnum" where
  "get_or_0 d k = (case dict_get d k of Some v \<Rightarrow> v | None \<Rightarrow> Num 0)"

text \<open>The move since the last accepted price, in basis points.\<close>

definition crypto_move :: "jsnum option \<Rightarrow> jsnum \<Rightarrow> jsnum" where
  "crypto_move previous price = (case previous of
     Some p \<Rightarrow> if js_gt p (Num 0) then js_abs (js_mul (js_sub (js_div price p) (Num 1)) (Num 10000)) else Num 0
   | None \<Rightarrow> Num 0)"

definition tick_regime :: "(jsnum \<Rightarrow> nyClock) \<Rightarrow> jsnum \<Rightarrow> pairConfig \<Rightarrow> jsnum \<Rightarrow> jsnum option \<Rightarrow> pythTickEvent \<Rightarrow> timeRegime option" where
  "tick_regime ny highVolBps pair nowMs previous t = timeRegimeFor ny (pc_assetClass pair) nowMs
     \<lparr> tg_cryptoMoveBps = Some (crypto_move previous (pt_priceUsd t)), tg_cryptoHighVolMoveBps = Some highVolBps,
       tg_pythMarketSession = pt_marketSession t \<rparr>"

definition pyth_stale :: "pairConfig \<Rightarrow> pythTickEvent \<Rightarrow> bool" where
  "pyth_stale pair t \<longleftrightarrow> js_gt (pt_freshnessLagMs t) (maxFreshnessLagMsForPair pair)"

definition tick_metadata :: "pythTickEvent \<Rightarrow> timeRegime option \<Rightarrow> bool \<Rightarrow> priceTickMetadata" where
  "tick_metadata t regime stale = \<lparr> tm_streamTimestampUs = pt_streamTimestampUs t,
     tm_feedUpdateTimestampUs = pt_feedUpdateTimestampUs t, tm_pythFreshnessLagMs = pt_freshnessLagMs t,
     tm_pythConfidenceBps = (case pt_confidenceUsd t of None \<Rightarrow> None
        | Some c \<Rightarrow> if js_le (pt_priceUsd t) (Num 0) then None else Some (js_mul (js_div c (pt_priceUsd t)) (Num 10000))),
     tm_pythMarketSession = pt_marketSession t, tm_timeRegime = regime,
     tm_allowSignals = Some (isExecutableTimeRegime regime \<and> \<not> stale) \<rparr>"

text \<open>One pair of the feed.\<close>

definition tick_pair :: "(nat \<Rightarrow> jsnum) \<Rightarrow> (jsnum \<Rightarrow> nyClock) \<Rightarrow> jsnum \<Rightarrow> pythTickEvent \<Rightarrow> tickSource \<Rightarrow> jsnum \<Rightarrow> string \<Rightarrow>
    botEvent list \<times> botState \<times> botHeartbeat \<Rightarrow> botEvent list \<times> botState \<times> botHeartbeat" where
  "tick_pair clk ny highVolBps t source nowMs pairId x = (case x of (evs, s, h) \<Rightarrow>
     case dict_get (bt_pairConfigs s) pairId of None \<Rightarrow> (evs, s, h)
     | Some pair \<Rightarrow>
        (let s1 = (if source = FromStream then s\<lparr> bt_lastStreamTickAt := dict_set (bt_lastStreamTickAt s) pairId nowMs \<rparr> else s);
             evs1 = evs @ [Scheduled pairId];
             stale = pyth_stale pair t
         in if stale \<and> source = FromStream then
              (if js_ge (js_sub nowMs (get_or_0 (bt_lastStalePythWarn s1) pairId)) (Num 30000)
               then (evs1 @ [StalePyth pairId, StaleWarned pairId],
                     s1\<lparr> bt_lastStalePythWarn := dict_set (bt_lastStalePythWarn s1) pairId nowMs \<rparr>, countInvalidFeed h)
               else (evs1 @ [StalePyth pairId], s1, countInvalidFeed h))
            else
              (let regime = tick_regime ny highVolBps pair nowMs (dict_get (bt_lastRegimePrice s1) pairId) t;
                   s2 = s1\<lparr> bt_lastRegimePrice := dict_set (bt_lastRegimePrice s1) pairId (pt_priceUsd t) \<rparr>;
                   evs2 = (if isExecutableTimeRegime regime then evs1 else evs1 @ [SessionClosed pairId]);
                   (sevs, sch) = onPriceTick clk pairId (pt_priceUsd t) (tick_metadata t regime stale) (bt_scheduler s2)
               in (evs2 @ map Sched sevs, s2\<lparr> bt_scheduler := sch \<rparr>, h))))"

definition processPythTick :: "(nat \<Rightarrow> jsnum) \<Rightarrow> (jsnum \<Rightarrow> nyClock) \<Rightarrow> jsnum \<Rightarrow> pythTickEvent \<Rightarrow> tickSource \<Rightarrow>
    botState \<times> botHeartbeat \<Rightarrow> botEvent list \<times> botState \<times> botHeartbeat" where
  "processPythTick clk ny highVolBps t source x = (case x of (s, h) \<Rightarrow>
     case dict_get (bt_lazerIdToPairs s) (pt_pythLazerId t) of None \<Rightarrow> ([], s, h)
     | Some pairs \<Rightarrow>
        (let (nowMs, sch) = read_clock clk (bt_scheduler s);
             s1 = s\<lparr> bt_scheduler := sch \<rparr>;
             h1 = (if source = FromStream
               then h\<lparr> hb_lastStreamLagMs := Some (js_max (Num 0) (js_sub nowMs (js_floor (js_div (pt_streamTimestampUs t) (Num 1000))))) \<rparr>
               else h)
         in fold (tick_pair clk ny highVolBps t source nowMs) pairs ([], s1, h1)))"

section \<open>Snapshots (index.ts)\<close>

definition shouldProbeSnapshot :: "jsnum \<Rightarrow> pairConfig \<Rightarrow> jsnum \<Rightarrow> botState \<Rightarrow> bool" where
  "shouldProbeSnapshot silenceMs pair nowMs s \<longleftrightarrow> pc_assetClass pair \<noteq> Crypto \<and>
     js_ge (js_sub nowMs (get_or_0 (bt_lastStreamTickAt s) (pc_id pair))) silenceMs"

text \<open>The start of queueSnapshotProbe, up to the request; and what follows its reply (None: the promise was
  rejected, Some None: no tick).\<close>

definition probe_start :: "jsnum \<Rightarrow> pairConfig \<Rightarrow> jsnum \<Rightarrow> botState \<Rightarrow> bool \<times> botState" where
  "probe_start silenceMs pair nowMs s =
    (if shouldProbeSnapshot silenceMs pair nowMs s \<and> pc_id pair \<notin> set (bt_snapshotInFlight s)
     then (True, s\<lparr> bt_snapshotInFlight := set_add (pc_id pair) (bt_snapshotInFlight s) \<rparr>) else (False, s))"

definition warnSnapshot :: "string \<Rightarrow> jsnum \<Rightarrow> botState \<Rightarrow> bool \<times> botState" where
  "warnSnapshot pairId nowMs s = (if js_lt (js_sub nowMs (get_or_0 (bt_lastSnapshotWarn s) pairId)) (Num 60000) then (False, s)
     else (True, s\<lparr> bt_lastSnapshotWarn := dict_set (bt_lastSnapshotWarn s) pairId nowMs \<rparr>))"

definition probe_end :: "(nat \<Rightarrow> jsnum) \<Rightarrow> (jsnum \<Rightarrow> nyClock) \<Rightarrow> jsnum \<Rightarrow> pairConfig \<Rightarrow> pythTickEvent option option \<Rightarrow>
    botState \<times> botHeartbeat \<Rightarrow> botEvent list \<times> botState \<times> botHeartbeat" where
  "probe_end clk ny highVolBps pair reply x = (case x of (s, h) \<Rightarrow>
     let ending = (\<lambda>s. s\<lparr> bt_snapshotInFlight := removeAll (pc_id pair) (bt_snapshotInFlight s) \<rparr>) in
     case reply of
       Some (Some t) \<Rightarrow> (let (evs, s1, h1) = processPythTick clk ny highVolBps t FromSnapshot (s, h) in (evs, ending s1, h1))
     | _ \<Rightarrow> (let (nowMs, sch) = read_clock clk (bt_scheduler s)
         in ([], ending (snd (warnSnapshot (pc_id pair) nowMs (s\<lparr> bt_scheduler := sch \<rparr>))), if reply = None then countError h else h)))"

section \<open>The rows of a quote (basis-recorder.ts, quotes.ts, basis.ts)\<close>

text \<open>The id of a row is its position counted from 1; a Date is its milliseconds.\<close>

record quoteRow =
  jq_pairId :: string
  jq_side :: pairDirection
  jq_sizeUsd :: jsnum
  jq_router :: "string option"
  jq_inMint :: string
  jq_outMint :: string
  jq_inAmount :: int
  jq_outAmount :: int
  jq_priceImpactPct :: "jsnum option"
  jq_quoteId :: "string option"
  jq_expiresAt :: "jsnum option"
  jq_contextSlot :: "jsnum option"
  jq_requestMs :: jsnum
  jq_status :: quoteRowStatus
  jq_raw :: "orderJson option"

record quoteTiming =
  qm_pythStreamTimestampUs :: jsnum
  qm_pythFeedUpdateTimestampUs :: jsnum
  qm_pythFreshnessLagMs :: jsnum
  qm_pythConfidenceBps :: "jsnum option"
  qm_pythMarketSession :: "string option"
  qm_quoteRequestStartedAt :: jsnum
  qm_quoteResponseAt :: jsnum
  qm_quoteRequestMs :: jsnum
  qm_basisAgeMs :: jsnum
  qm_quality :: observationQuality
  qm_qualityStatus :: quoteQualityStatus
  qm_qualityReason :: string
  qm_timeRegime :: "timeRegime option"

record basisRow =
  br_pairId :: string
  br_side :: pairDirection
  br_sizeUsd :: jsnum
  br_basePriceUsd :: jsnum
  br_tokenPriceUsd :: jsnum
  br_grossBps :: jsnum
  br_netBps :: jsnum
  br_tickId :: "nat option"
  br_quoteId :: "nat option"
  br_timing :: quoteTiming

record botDb =
  db_quotes :: "quoteRow list"
  db_basis :: "basisRow list"

definition insertJupiterQuote :: "quoteRow \<Rightarrow> botDb \<Rightarrow> nat \<times> botDb" where
  "insertJupiterQuote row d = (Suc (length (db_quotes d)), d\<lparr> db_quotes := db_quotes d @ [row] \<rparr>)"

definition insertBasisObservation :: "basisRow \<Rightarrow> botDb \<Rightarrow> nat \<times> botDb" where
  "insertBasisObservation row d = (Suc (length (db_basis d)), d\<lparr> db_basis := db_basis d @ [row] \<rparr>)"

record recordedOk =
  rk_tokenPriceUsd :: jsnum
  rk_grossBps :: jsnum
  rk_netBps :: jsnum
  rk_qualityStatus :: quoteQualityStatus
  rk_qualityReason :: string
  rk_quoteId :: nat
  rk_basisId :: nat

datatype recordedQuote = RecordedOk recordedOk | RecordedRateLimited | RecordedError | RecordedStale

definition input_mint :: "pairConfig \<Rightarrow> pairDirection \<Rightarrow> string" where
  "input_mint pair side = (if side = BuyTokenized then pc_quoteMint pair else pc_tokMint pair)"

definition output_mint :: "pairConfig \<Rightarrow> pairDirection \<Rightarrow> string" where
  "output_mint pair side = (if side = BuyTokenized then pc_tokMint pair else pc_quoteMint pair)"

text \<open>The row of a quote without amounts.\<close>

definition failed_quote :: "pairConfig \<Rightarrow> pairDirection \<Rightarrow> jsnum \<Rightarrow> jsnum \<Rightarrow> quoteRowStatus \<Rightarrow> quoteRow" where
  "failed_quote pair side sizeUsd requestMs status = \<lparr> jq_pairId = pc_id pair, jq_side = side, jq_sizeUsd = sizeUsd,
     jq_router = None, jq_inMint = input_mint pair side, jq_outMint = output_mint pair side, jq_inAmount = 0, jq_outAmount = 0,
     jq_priceImpactPct = None, jq_quoteId = None, jq_expiresAt = None, jq_contextSlot = None, jq_requestMs = requestMs,
     jq_status = status, jq_raw = None \<rparr>"

definition quote_price :: "pairConfig \<Rightarrow> pairDirection \<Rightarrow> jsnum \<Rightarrow> okOrder \<Rightarrow> (js_error, jsnum) result" where
  "quote_price pair side sizeUsd qo = (if side = BuyTokenized
     then effectiveBuyPriceUsd sizeUsd (oo_outAmount qo) (decimals_of (pc_tokDecimals pair))
     else effectiveSellPriceUsd (oo_inAmount qo) (decimals_of (pc_tokDecimals pair)) (oo_outAmount qo) (decimals_of (pc_quoteDecimals pair)))"

definition gross_edge :: "pairDirection \<Rightarrow> jsnum \<Rightarrow> jsnum \<Rightarrow> (js_error, jsnum) result" where
  "gross_edge side basePriceUsd tokenPriceUsd =
     (if side = BuyTokenized then buyEdgeBps basePriceUsd tokenPriceUsd else sellEdgeBps basePriceUsd tokenPriceUsd)"

text \<open>A quote whose price and edge are known. random is what Math.random returns.\<close>

definition record_ok :: "jsnum \<Rightarrow> jsnum \<Rightarrow> costInputsBps \<Rightarrow> pairConfig \<Rightarrow> pairDirection \<Rightarrow> jsnum \<Rightarrow> jsnum \<Rightarrow> okOrder \<Rightarrow>
    quoteTiming \<Rightarrow> jsnum \<Rightarrow> jsnum \<Rightarrow> botDb \<Rightarrow> recordedOk \<times> botDb" where
  "record_ok random sampleRate costs pair side sizeUsd basePriceUsd qo timing tokenPriceUsd grossBps d =
    (let netBps = netEdgeBps grossBps costs;
         retainRaw = (js_ge (js_abs netBps) (pc_minNetEdgeBps pair) \<or> js_lt random sampleRate);
         (quoteId, d1) = insertJupiterQuote \<lparr> jq_pairId = pc_id pair, jq_side = side, jq_sizeUsd = sizeUsd,
            jq_router = oo_router qo, jq_inMint = input_mint pair side, jq_outMint = output_mint pair side,
            jq_inAmount = oo_inAmount qo, jq_outAmount = oo_outAmount qo, jq_priceImpactPct = oo_priceImpactPct qo,
            jq_quoteId = oo_quoteId qo, jq_expiresAt = oo_expiresAt qo, jq_contextSlot = oo_contextSlot qo,
            jq_requestMs = oo_requestMs qo, jq_status = QOk, jq_raw = (if retainRaw then Some (oo_raw qo) else None) \<rparr> d;
         (basisId, d2) = insertBasisObservation \<lparr> br_pairId = pc_id pair, br_side = side, br_sizeUsd = sizeUsd,
            br_basePriceUsd = basePriceUsd, br_tokenPriceUsd = tokenPriceUsd, br_grossBps = grossBps, br_netBps = netBps,
            br_tickId = None, br_quoteId = Some quoteId, br_timing = timing \<rparr> d1
     in (\<lparr> rk_tokenPriceUsd = tokenPriceUsd, rk_grossBps = grossBps, rk_netBps = netBps,
           rk_qualityStatus = qm_qualityStatus timing, rk_qualityReason = qm_qualityReason timing,
           rk_quoteId = quoteId, rk_basisId = basisId \<rparr>, d2))"

definition recordQuote :: "jsnum \<Rightarrow> jsnum \<Rightarrow> costInputsBps \<Rightarrow> pairConfig \<Rightarrow> pairDirection \<Rightarrow> jsnum \<Rightarrow> jsnum \<Rightarrow> orderResult \<Rightarrow>
    quoteTiming \<Rightarrow> botDb \<Rightarrow> (js_error, recordedQuote) result \<times> botDb" where
  "recordQuote random sampleRate costs pair side sizeUsd basePriceUsd r timing d = (case r of
     OrderRateLimited ms \<Rightarrow> (Inr RecordedRateLimited, snd (insertJupiterQuote (failed_quote pair side sizeUsd ms QRateLimited) d))
   | OrderError ms m \<Rightarrow> (Inr RecordedError, snd (insertJupiterQuote (failed_quote pair side sizeUsd ms QError) d))
   | OkOrder qo \<Rightarrow> (case quote_price pair side sizeUsd qo of Inl e \<Rightarrow> (Inl e, d)
      | Inr tokenPriceUsd \<Rightarrow> (case gross_edge side basePriceUsd tokenPriceUsd of Inl e \<Rightarrow> (Inl e, d)
         | Inr grossBps \<Rightarrow> (let (k, d1) = record_ok random sampleRate costs pair side sizeUsd basePriceUsd qo timing tokenPriceUsd grossBps d
             in (Inr (RecordedOk k), d1)))))"

section \<open>The work of a scheduled quote (index.ts, onWork)\<close>

record workEnv =
  we_clk :: "nat \<Rightarrow> jsnum"
  we_dateText :: "string \<Rightarrow> jsnum option"
  we_reply :: "orderRequest \<Rightarrow> nat \<Rightarrow> orderJson httpReply"
  we_random :: "nat \<Rightarrow> jsnum"

record workSettings =
  wg_thresholds :: quoteQualityThresholds
  wg_costs :: costInputsBps
  wg_sampleRate :: jsnum

record workState =
  ws_reads :: nat
  ws_heartbeat :: botHeartbeat
  ws_db :: botDb
  ws_engine :: engineState

definition result_ms :: "orderResult \<Rightarrow> jsnum" where
  "result_ms r = (case r of OkOrder qo \<Rightarrow> oo_requestMs qo | OrderRateLimited ms \<Rightarrow> ms | OrderError ms m \<Rightarrow> ms)"

definition note_result :: "orderResult \<Rightarrow> botHeartbeat \<Rightarrow> botHeartbeat" where
  "note_result r h = (case r of OrderRateLimited ms \<Rightarrow> countHttp429 h | OrderError ms m \<Rightarrow> countError h
     | OkOrder qo \<Rightarrow> h\<lparr> hb_lastQuoteLagMs := Some (oo_requestMs qo) \<rparr>)"

definition basis_age :: "jsnum \<Rightarrow> workContext \<Rightarrow> jsnum" where
  "basis_age respondedAt ctx = (if js_gt (tm_streamTimestampUs ctx) (Num 0)
     then js_max (Num 0) (js_sub respondedAt (js_floor (js_div (tm_streamTimestampUs ctx) (Num 1000))))
     else js_max (Num 0) (js_sub respondedAt (wc_queuedAtMs ctx)))"

text \<open>The spread of the pair's gate, with the freshness bound filled in.\<close>

definition pair_gate :: "pairConfig \<Rightarrow> qualityGate" where
  "pair_gate pair = (case pc_qualityGate pair of
     Some g \<Rightarrow> g\<lparr> qg_maxPythFreshnessLagMs := Some (case qg_maxPythFreshnessLagMs g of Some m \<Rightarrow> m | None \<Rightarrow> maxFreshnessLagMsForPair pair) \<rparr>
   | None \<Rightarrow> \<lparr> qg_maxPythFreshnessLagMs = Some (maxFreshnessLagMsForPair pair), qg_maxQuoteLatencyMs = None, qg_maxBasisAgeMs = None,
       qg_maxPriceImpactBps = None, qg_maxPythConfidenceBps = None, qg_allowedRouters = None, qg_allowedMarketSessions = None \<rparr>)"

definition pair_thresholds :: "workSettings \<Rightarrow> pairConfig \<Rightarrow> quoteQualityThresholds" where
  "pair_thresholds cfg pair = buildQuoteQualityThresholds (Some (pair_gate pair)) (wg_thresholds cfg)"

definition quality_input :: "pairConfig \<Rightarrow> workContext \<Rightarrow> jsnum \<Rightarrow> okOrder \<Rightarrow> quoteQualityInput" where
  "quality_input pair ctx basisAgeMs qo = \<lparr> qi_pythFreshnessLagMs = Some (tm_pythFreshnessLagMs ctx),
     qi_quoteRequestMs = Some (oo_requestMs qo), qi_basisAgeMs = Some basisAgeMs, qi_priceImpactPct = oo_priceImpactPct qo,
     qi_pythConfidenceBps = tm_pythConfidenceBps ctx, qi_router = oo_router qo, qi_timeRegime = tm_timeRegime ctx,
     qi_decimalsVerified = runtimeDecimalsVerified pair, qi_hasExitQuote = None, qi_routeStable = None \<rparr>"

definition work_quality :: "workSettings \<Rightarrow> pairConfig \<Rightarrow> workContext \<Rightarrow> jsnum \<Rightarrow> orderResult \<Rightarrow> quoteQualityResult" where
  "work_quality cfg pair ctx basisAgeMs r = (case r of
     OkOrder qo \<Rightarrow> classifyQuoteQuality (quality_input pair ctx basisAgeMs qo) (pair_thresholds cfg pair)
   | _ \<Rightarrow> reason STALE_BASIS ''Jupiter quote did not return executable amounts'')"

definition work_timing :: "workContext \<Rightarrow> jsnum \<Rightarrow> jsnum \<Rightarrow> orderResult \<Rightarrow> jsnum \<Rightarrow> quoteQualityResult \<Rightarrow> quoteTiming" where
  "work_timing ctx startedAt respondedAt r basisAgeMs q = \<lparr> qm_pythStreamTimestampUs = tm_streamTimestampUs ctx,
     qm_pythFeedUpdateTimestampUs = tm_feedUpdateTimestampUs ctx, qm_pythFreshnessLagMs = tm_pythFreshnessLagMs ctx,
     qm_pythConfidenceBps = tm_pythConfidenceBps ctx, qm_pythMarketSession = tm_pythMarketSession ctx,
     qm_quoteRequestStartedAt = startedAt, qm_quoteResponseAt = respondedAt, qm_quoteRequestMs = result_ms r,
     qm_basisAgeMs = basisAgeMs, qm_quality = observationQualityFromStatus (qr_qualityStatus q),
     qm_qualityStatus = qr_qualityStatus q, qm_qualityReason = qr_qualityReason q, qm_timeRegime = tm_timeRegime ctx \<rparr>"

definition work_observation :: "pairConfig \<Rightarrow> pairDirection \<Rightarrow> jsnum \<Rightarrow> jsnum \<Rightarrow> recordedOk \<Rightarrow> jsnum \<Rightarrow> jsnum \<Rightarrow> observation" where
  "work_observation pair side sizeUsd priceUsd k observedAtMs nowMs = \<lparr> ob_pair = pair, ob_side = side, ob_sizeUsd = sizeUsd,
     ob_basePriceUsd = priceUsd, ob_tokenPriceUsd = rk_tokenPriceUsd k, ob_netEdgeBps = rk_netBps k, ob_quoteId = rk_quoteId k,
     ob_basisId = rk_basisId k, ob_qualityStatus = rk_qualityStatus k, ob_qualityReason = rk_qualityReason k,
     ob_observedAtMs = observedAtMs, ob_nowMs = nowMs \<rparr>"

text \<open>None: the promise of the work never settles.\<close>

definition onWork :: "workEnv \<Rightarrow> workSettings \<Rightarrow> 'm engineConfig \<Rightarrow> (string, pairConfig) dict \<Rightarrow> schedulerPair \<Rightarrow> pairDirection \<Rightarrow>
    jsnum \<Rightarrow> jsnum \<Rightarrow> workContext \<Rightarrow> workState \<Rightarrow> ((js_error, unit) result \<times> workState) option" where
  "onWork env cfg ecfg pairs schedPair side sizeUsd priceUsd ctx w = (case dict_get pairs (sp_pairId schedPair) of
     None \<Rightarrow> Some (Inr (), w)
   | Some pair \<Rightarrow> (case inputAtomicForOrder pair side sizeUsd priceUsd of
       Inl e \<Rightarrow> Some (Inl e, w)
     | Inr amount \<Rightarrow>
        (let n = ws_reads w;
             startedAt = we_clk env n;
             request = \<lparr> rq_inputMint = input_mint pair side, rq_outputMint = output_mint pair side, rq_amount = amount,
               rq_slippageBps = Some (pc_slippageBps pair), rq_taker = None, rq_excludeRouters = None \<rparr>;
             (r, n1) = client_order (we_clk env) (we_dateText env) (we_reply env request n) (n + 1);
             respondedAt = we_clk env n1;
             basisAgeMs = basis_age respondedAt ctx;
             q = work_quality cfg pair ctx basisAgeMs r;
             (recorded, d) = recordQuote (we_random env n) (wg_sampleRate cfg) (wg_costs cfg) pair side sizeUsd priceUsd r
               (work_timing ctx startedAt respondedAt r basisAgeMs q) (ws_db w);
             w1 = w\<lparr> ws_reads := n1 + 2, ws_heartbeat := note_result r (ws_heartbeat w), ws_db := d \<rparr>
         in case recorded of
              Inl e \<Rightarrow> Some (Inl e, w1)
            | Inr (RecordedOk k) \<Rightarrow>
                if tm_allowSignals ctx \<noteq> Some False \<and> rk_qualityStatus k = LIVE_ELIGIBLE
                then map_option (\<lambda>(x, e). (x, w1\<lparr> ws_engine := e \<rparr>))
                  (onObservation ecfg (work_observation pair side sizeUsd priceUsd k respondedAt (we_clk env (n1 + 1))) (ws_engine w1))
                else Some (Inr (), w1)
            | Inr _ \<Rightarrow> Some (Inr (), w1))))"

text \<open>A rejected work is counted (onError).\<close>

definition run_work :: "workEnv \<Rightarrow> workSettings \<Rightarrow> 'm engineConfig \<Rightarrow> (string, pairConfig) dict \<Rightarrow> schedulerPair \<Rightarrow> pairDirection \<Rightarrow>
    jsnum \<Rightarrow> jsnum \<Rightarrow> workContext \<Rightarrow> workState \<Rightarrow> workState option" where
  "run_work env cfg ecfg pairs schedPair side sizeUsd priceUsd ctx w =
     map_option (\<lambda>(r, w1). case r of Inl e \<Rightarrow> w1\<lparr> ws_heartbeat := countError (ws_heartbeat w1) \<rparr> | Inr u \<Rightarrow> w1)
       (onWork env cfg ecfg pairs schedPair side sizeUsd priceUsd ctx w)"

section \<open>What a work does\<close>

text \<open>The reply of the order request of a work, the time it was read, and the quality of the quote.\<close>

definition work_reply :: "workEnv \<Rightarrow> pairConfig \<Rightarrow> pairDirection \<Rightarrow> int \<Rightarrow> nat \<Rightarrow> orderResult \<times> nat" where
  "work_reply env pair side amount n = client_order (we_clk env) (we_dateText env)
     (we_reply env \<lparr> rq_inputMint = input_mint pair side, rq_outputMint = output_mint pair side, rq_amount = amount,
        rq_slippageBps = Some (pc_slippageBps pair), rq_taker = None, rq_excludeRouters = None \<rparr> n) (n + 1)"

text \<open>The rows of a recorded quote, appended to the tables.\<close>

definition appended :: "pairConfig \<Rightarrow> pairDirection \<Rightarrow> jsnum \<Rightarrow> jsnum \<Rightarrow> quoteTiming \<Rightarrow> recordedOk \<Rightarrow> botDb \<Rightarrow> botDb \<Rightarrow> bool" where
  "appended pair side sizeUsd basePriceUsd timing k d d' \<longleftrightarrow> (\<exists>x b.
     db_quotes d' = db_quotes d @ [x] \<and> db_basis d' = db_basis d @ [b] \<and>
     jq_status x = QOk \<and> jq_pairId x = pc_id pair \<and> jq_side x = side \<and> jq_sizeUsd x = sizeUsd \<and>
     rk_quoteId k = length (db_quotes d') \<and> rk_basisId k = length (db_basis d') \<and>
     b = \<lparr> br_pairId = pc_id pair, br_side = side, br_sizeUsd = sizeUsd, br_basePriceUsd = basePriceUsd,
       br_tokenPriceUsd = rk_tokenPriceUsd k, br_grossBps = rk_grossBps k, br_netBps = rk_netBps k, br_tickId = None,
       br_quoteId = Some (rk_quoteId k), br_timing = timing \<rparr> \<and>
     rk_qualityStatus k = qm_qualityStatus timing \<and> rk_qualityReason k = qm_qualityReason timing)"

lemma recordQuote_ok:
  assumes "recordQuote random rate costs pair side sizeUsd base r timing d = (Inr (RecordedOk k), d')"
  shows "\<exists>qo. r = OkOrder qo \<and> quote_price pair side sizeUsd qo = Inr (rk_tokenPriceUsd k) \<and>
    gross_edge side base (rk_tokenPriceUsd k) = Inr (rk_grossBps k) \<and> rk_netBps k = netEdgeBps (rk_grossBps k) costs \<and>
    appended pair side sizeUsd base timing k d d'"
proof -
  obtain qo where r: "r = OkOrder qo" using assms by (cases r) (auto simp add: recordQuote_def)
  then obtain p g where p: "quote_price pair side sizeUsd qo = Inr p" "gross_edge side base p = Inr g"
    using assms by (auto simp add: recordQuote_def split: sum.splits prod.splits)
  have "record_ok random rate costs pair side sizeUsd base qo timing p g d = (k, d')"
    using assms by (simp add: recordQuote_def r p split: prod.splits)
  then have k: "rk_tokenPriceUsd k = p" "rk_grossBps k = g" "rk_netBps k = netEdgeBps g costs"
    and a: "appended pair side sizeUsd base timing k d d'"
    by (auto simp add: record_ok_def Let_def insertJupiterQuote_def insertBasisObservation_def appended_def)
  show ?thesis using r p k a by simp
qed

lemma recordQuote_other:
  assumes "recordQuote random rate costs pair side sizeUsd base r timing d = (x, d')" and "\<forall>k. x \<noteq> Inr (RecordedOk k)"
  shows "db_basis d' = db_basis d \<and> (\<exists>rows. db_quotes d' = db_quotes d @ rows \<and> length rows \<le> 1)"
  using assms by (auto simp add: recordQuote_def insertJupiterQuote_def split: orderResult.splits sum.splits prod.splits)

text \<open>What a work leaves behind: nothing new but perhaps one row of a failed quote; or both rows of a quote,
  and, for a live-eligible one whose tick allows signals, an observation handed to the engine.\<close>

lemma work_effect:
  assumes "onWork env cfg ecfg pairs sp side sizeUsd price ctx w = Some (x, w')"
  shows "(ws_engine w' = ws_engine w \<and> db_basis (ws_db w') = db_basis (ws_db w) \<and>
      (\<exists>rows. db_quotes (ws_db w') = db_quotes (ws_db w) @ rows)) \<or>
    (\<exists>pair amount qo n1 k timing now. dict_get pairs (sp_pairId sp) = Some pair \<and>
       work_reply env pair side amount (ws_reads w) = (OkOrder qo, n1) \<and>
       qm_qualityStatus timing = qr_qualityStatus (classifyQuoteQuality
         (quality_input pair ctx (basis_age (we_clk env n1) ctx) qo) (pair_thresholds cfg pair)) \<and>
       qm_timeRegime timing = tm_timeRegime ctx \<and> qm_pythFreshnessLagMs timing = tm_pythFreshnessLagMs ctx \<and>
       appended pair side sizeUsd price timing k (ws_db w) (ws_db w') \<and>
       (ws_engine w' = ws_engine w \<or> tm_allowSignals ctx \<noteq> Some False \<and> qm_qualityStatus timing = LIVE_ELIGIBLE \<and>
         onObservation ecfg (work_observation pair side sizeUsd price k (we_clk env n1) now) (ws_engine w) = Some (x, ws_engine w')))"
proof (cases "dict_get pairs (sp_pairId sp)")
  case None
  then show ?thesis using assms by (simp add: onWork_def)
next
  case (Some pair)
  show ?thesis
  proof (cases "inputAtomicForOrder pair side sizeUsd price")
    case (Inl e)
    then show ?thesis using assms Some by (simp add: onWork_def)
  next
    case (Inr amount)
    obtain r n1 where r: "work_reply env pair side amount (ws_reads w) = (r, n1)" by fastforce
    let ?age = "basis_age (we_clk env n1) ctx"
    define timing where "timing = work_timing ctx (we_clk env (ws_reads w)) (we_clk env n1) r ?age (work_quality cfg pair ctx ?age r)"
    obtain rec d where rec: "recordQuote (we_random env (ws_reads w)) (wg_sampleRate cfg) (wg_costs cfg) pair side sizeUsd price r
        timing (ws_db w) = (rec, d)" by fastforce
    define w1 where "w1 = w\<lparr> ws_reads := Suc (Suc n1), ws_heartbeat := note_result r (ws_heartbeat w), ws_db := d \<rparr>"
    have w1: "ws_db w1 = d" "ws_engine w1 = ws_engine w" by (simp_all add: w1_def)
    have go: "(case rec of Inl e \<Rightarrow> Some (Inl e, w1)
            | Inr (RecordedOk k) \<Rightarrow>
                if tm_allowSignals ctx \<noteq> Some False \<and> rk_qualityStatus k = LIVE_ELIGIBLE
                then map_option (\<lambda>(x, e). (x, w1\<lparr> ws_engine := e \<rparr>))
                  (onObservation ecfg (work_observation pair side sizeUsd price k (we_clk env n1) (we_clk env (n1 + 1))) (ws_engine w1))
                else Some (Inr (), w1)
            | Inr _ \<Rightarrow> Some (Inr (), w1)) = Some (x, w')"
      using assms r rec unfolding w1_def timing_def by (simp add: onWork_def Some Inr work_reply_def Let_def)
    show ?thesis
    proof (cases "\<exists>k. rec = Inr (RecordedOk k)")
      case False
      then have "w' = w1" using go by (auto split: sum.splits recordedQuote.splits)
      then show ?thesis using recordQuote_other [OF rec] False w1 by blast
    next
      case True
      then obtain k where k: "rec = Inr (RecordedOk k)" by blast
      obtain qo where q: "r = OkOrder qo" "appended pair side sizeUsd price timing k (ws_db w) d"
        using recordQuote_ok [OF rec [unfolded k]] by blast
      have t: "qm_qualityStatus timing = qr_qualityStatus (classifyQuoteQuality (quality_input pair ctx ?age qo) (pair_thresholds cfg pair))"
        "qm_timeRegime timing = tm_timeRegime ctx" "qm_pythFreshnessLagMs timing = tm_pythFreshnessLagMs ctx"
        by (simp_all add: timing_def work_timing_def work_quality_def q(1))
      have s: "rk_qualityStatus k = qm_qualityStatus timing" using q(2) by (auto simp add: appended_def)
      have "ws_db w' = d \<and> (ws_engine w' = ws_engine w \<or> tm_allowSignals ctx \<noteq> Some False \<and> qm_qualityStatus timing = LIVE_ELIGIBLE \<and>
         onObservation ecfg (work_observation pair side sizeUsd price k (we_clk env n1) (we_clk env (n1 + 1))) (ws_engine w) = Some (x, ws_engine w'))"
        using go w1 by (auto simp add: k s split: if_splits)
      then show ?thesis using Some r q t by blast
    qed
  qed
qed

section \<open>The trail of a signal\<close>

text \<open>One scheduled quote, with the pairs configured when it runs; and the works of the bot, one after the
  other. None: the promise of one of them never settles.\<close>

record workItem =
  wi_pairs :: "(string, pairConfig) dict"
  wi_pair :: schedulerPair
  wi_side :: pairDirection
  wi_sizeUsd :: jsnum
  wi_priceUsd :: jsnum
  wi_context :: workContext

fun works :: "workEnv \<Rightarrow> workSettings \<Rightarrow> 'm engineConfig \<Rightarrow> workItem list \<Rightarrow> workState \<Rightarrow> workState option" where
  "works env cfg ecfg [] w = Some w"
| "works env cfg ecfg (i # is) w = Option.bind
     (run_work env cfg ecfg (wi_pairs i) (wi_pair i) (wi_side i) (wi_sizeUsd i) (wi_priceUsd i) (wi_context i) w)
     (works env cfg ecfg is)"

text \<open>The basis row of an id records a live-eligible quote of this key, edge and price, and the row of its
  quote is a successful one of the same key.\<close>

definition basis_says :: "botDb \<Rightarrow> string \<Rightarrow> pairDirection \<Rightarrow> jsnum \<Rightarrow> nat option \<Rightarrow> nat option \<Rightarrow> jsnum \<Rightarrow> jsnum \<Rightarrow> bool" where
  "basis_says D pid side sizeUsd quoteId basisId edgeBps price \<longleftrightarrow> (\<exists>i j b x.
     basisId = Some (Suc i) \<and> i < length (db_basis D) \<and> b = db_basis D ! i \<and>
     quoteId = Some (Suc j) \<and> j < length (db_quotes D) \<and> x = db_quotes D ! j \<and>
     br_pairId b = pid \<and> br_side b = side \<and> br_sizeUsd b = sizeUsd \<and> br_quoteId b = quoteId \<and>
     br_netBps b = edgeBps \<and> br_tokenPriceUsd b = price \<and> qm_qualityStatus (br_timing b) = LIVE_ELIGIBLE \<and>
     jq_status x = QOk \<and> jq_pairId x = pid \<and> jq_side x = side \<and> jq_sizeUsd x = sizeUsd)"

definition traced :: "botDb \<Rightarrow> signalRow \<Rightarrow> bool" where
  "traced D r \<longleftrightarrow> (\<exists>price. sg_entryTokenPriceUsd r = Some price \<and>
       basis_says D (sg_pairId r) BuyTokenized (sg_sizeUsd r) (sg_entryQuoteId r) (sg_entryBasisId r) (sg_entryEdgeBps r) price) \<and>
     (\<forall>x. sg_exit r = Some x \<longrightarrow> basis_says D (sg_pairId r) SellTokenized (sg_sizeUsd r)
        (sx_exitQuoteId x) (sx_exitBasisId x) (sx_exitEdgeBps x) (sx_exitTokenPriceUsd x))"

definition obs_stored :: "botDb \<Rightarrow> observation \<Rightarrow> bool" where
  "obs_stored D a \<longleftrightarrow> basis_says D (pc_id (ob_pair a)) (ob_side a) (ob_sizeUsd a) (Some (ob_quoteId a)) (Some (ob_basisId a))
     (ob_netEdgeBps a) (ob_tokenPriceUsd a)"

lemma trace_close:
  assumes "obs_stored D a" "ob_side a = SellTokenized" "\<forall>r \<in> set (es_signals s). traced D r" "es_signals s1 = es_signals s"
    and "closable cfg a i p units s"
  shows "\<forall>r \<in> set (es_signals (closeSignal i (exit_row cfg a p units x) s1)). traced D r"
proof -
  have i: "0 < i" "i \<le> length (es_signals s)" "es_signals s ! (i - 1) = p"
    and o: "open_for (pc_id (ob_pair a)) BuyTokenized (ob_sizeUsd a) p" using assms(5) by (auto simp add: closable_def)
  have "p \<in> set (es_signals s)" using i by (metis One_nat_def Suc_pred nth_mem Suc_le_lessD)
  then have "traced D (p\<lparr> sg_exit := Some (exit_row cfg a p units x) \<rparr>)"
    using assms(1-3) o by (auto simp add: traced_def obs_stored_def open_for_def exit_row_def Let_def)
  then show ?thesis using assms(3) i set_update_subset_insert [of "es_signals s" "i - 1" "p\<lparr> sg_exit := Some (exit_row cfg a p units x) \<rparr>"]
    by (auto simp add: closeSignal_def assms(4))
qed

interpretation trail: engine_invariant cfg "obs_stored D" "\<lambda>s. \<forall>r \<in> set (es_signals s). traced D r" for cfg D
proof
  fix s a r s1 assume "\<forall>r \<in> set (es_signals s). traced D r" "executeOpen cfg a s = Some (r, s1)"
  then show "\<forall>r \<in> set (es_signals s1). traced D r" using trade_signals(1) [of cfg a s r s1] by simp
next
  fix s a i p r s1 assume "\<forall>r \<in> set (es_signals s). traced D r" "executeClose cfg a i p s = Some (r, s1)"
  then show "\<forall>r \<in> set (es_signals s1). traced D r" using trade_signals(2) [of cfg a i p s r s1] by simp
next
  fix s a x s1
  assume "obs_stored D a" "ob_side a = BuyTokenized" "\<forall>r \<in> set (es_signals s). traced D r" "executeOpen cfg a s = Some (Inr x, s1)"
  then show "\<forall>r \<in> set (es_signals (opened cfg a x s1)). traced D r"
    using trade_signals(1) [of cfg a s "Inr x" s1] by (auto simp add: opened_signals traced_def entry_row_def obs_stored_def)
next
  fix s a i p x s1 units
  assume "obs_stored D a" "ob_side a = SellTokenized" "\<forall>r \<in> set (es_signals s). traced D r"
    "executeClose cfg a i p s = Some (Inr x, s1)" "closable cfg a i p units s"
  then show "\<forall>r \<in> set (es_signals (closeSignal i (exit_row cfg a p units x) s1)). traced D r"
    using trade_signals(2) [of cfg a i p s "Inr x" s1] by (intro trace_close)
qed

lemma basis_says_later:
  assumes "basis_says D pid side sz qi bi e p" "db_basis D' = db_basis D @ bs" "db_quotes D' = db_quotes D @ qs"
  shows "basis_says D' pid side sz qi bi e p"
  using assms unfolding basis_says_def by (auto simp add: nth_append)

lemma traced_later:
  "traced D r \<Longrightarrow> db_basis D' = db_basis D @ bs \<Longrightarrow> db_quotes D' = db_quotes D @ qs \<Longrightarrow> traced D' r"
  unfolding traced_def by (meson basis_says_later)

lemma appended_grows:
  "appended pair side sz price timing k d d' \<Longrightarrow> \<exists>bs qs. db_basis d' = db_basis d @ bs \<and> db_quotes d' = db_quotes d @ qs"
  unfolding appended_def by blast

lemma appended_stored:
  assumes "appended pair side sz price timing k d d'" "qm_qualityStatus timing = LIVE_ELIGIBLE"
  shows "obs_stored d' (work_observation pair side sz price k respondedAt now)"
proof -
  obtain x b where d: "db_quotes d' = db_quotes d @ [x]" "db_basis d' = db_basis d @ [b]"
    and k: "rk_quoteId k = length (db_quotes d')" "rk_basisId k = length (db_basis d')"
    and x: "jq_status x = QOk" "jq_pairId x = pc_id pair" "jq_side x = side" "jq_sizeUsd x = sz"
    and b: "b = \<lparr> br_pairId = pc_id pair, br_side = side, br_sizeUsd = sz, br_basePriceUsd = price,
       br_tokenPriceUsd = rk_tokenPriceUsd k, br_grossBps = rk_grossBps k, br_netBps = rk_netBps k, br_tickId = None,
       br_quoteId = Some (rk_quoteId k), br_timing = timing \<rparr>"
    and s: "rk_qualityStatus k = qm_qualityStatus timing"
    using assms(1) unfolding appended_def by blast
  show ?thesis unfolding obs_stored_def basis_says_def
    using d k x b assms(2) by (intro exI [of _ "length (db_basis d)"] exI [of _ "length (db_quotes d)"]) (simp add: work_observation_def)
qed

definition signals_traced :: "workState \<Rightarrow> bool" where
  "signals_traced w \<longleftrightarrow> (\<forall>r \<in> set (es_signals (ws_engine w)). traced (ws_db w) r)"

lemma work_traced:
  assumes "signals_traced w" "onWork env cfg ecfg pairs sp side sz price ctx w = Some (x, w')" shows "signals_traced w'"
  using work_effect [OF assms(2)]
proof (elim disjE exE conjE)
  fix rows assume "ws_engine w' = ws_engine w" "db_basis (ws_db w') = db_basis (ws_db w)" "db_quotes (ws_db w') = db_quotes (ws_db w) @ rows"
  then show ?thesis using assms(1) traced_later [of "ws_db w" _ "ws_db w'" "[]" rows] by (simp add: signals_traced_def)
next
  fix pair amount qo n1 k timing now
  assume a: "appended pair side sz price timing k (ws_db w) (ws_db w')" and "ws_engine w' = ws_engine w"
  then show ?thesis using assms(1) unfolding signals_traced_def by (metis appended_grows traced_later)
next
  fix pair amount qo n1 k timing now
  assume a: "appended pair side sz price timing k (ws_db w) (ws_db w')" and q: "qm_qualityStatus timing = LIVE_ELIGIBLE"
    and o: "onObservation ecfg (work_observation pair side sz price k (we_clk env n1) now) (ws_engine w) = Some (x, ws_engine w')"
  have "\<forall>r \<in> set (es_signals (ws_engine w)). traced (ws_db w') r"
    using assms(1) a unfolding signals_traced_def by (metis appended_grows traced_later)
  then show ?thesis using trail.observation [OF appended_stored [OF a q] _ o] by (simp add: signals_traced_def)
qed

lemma works_traced: "signals_traced w \<Longrightarrow> works env cfg ecfg is w = Some w' \<Longrightarrow> signals_traced w'"
proof (induction "is" arbitrary: w)
  case (Cons i "is")
  then obtain x w1 where w1: "onWork env cfg ecfg (wi_pairs i) (wi_pair i) (wi_side i) (wi_sizeUsd i) (wi_priceUsd i) (wi_context i) w = Some (x, w1)"
    and r: "works env cfg ecfg is (case x of Inl e \<Rightarrow> w1\<lparr> ws_heartbeat := countError (ws_heartbeat w1) \<rparr> | Inr u \<Rightarrow> w1) = Some w'"
    by (auto simp add: run_work_def bind_eq_Some_conv)
  have "signals_traced w1" by (rule work_traced [OF Cons.prems(1) w1])
  then show ?case using Cons.IH [OF _ r] by (cases x) (simp_all add: signals_traced_def)
qed simp

text \<open>C4: Every signal leaves a trail in the tables: after any works of the bot, from empty tables and however
  the quotes, the trades and the waits ended, the entry of each signal names a stored basis observation
  of the same pair and size on the buying side, live-eligible, with the same edge and price, whose quote
  row is a successful one of the same key; and so does the exit of each closed signal, on the selling side.\<close>

theorem signals_leave_a_trail:
  assumes "works env cfg ecfg is w = Some w'" and "es_signals (ws_engine w) = []" and "r \<in> set (es_signals (ws_engine w'))"
  shows "basis_says (ws_db w') (sg_pairId r) BuyTokenized (sg_sizeUsd r) (sg_entryQuoteId r) (sg_entryBasisId r)
      (sg_entryEdgeBps r) (the (sg_entryTokenPriceUsd r)) \<and>
    (case sg_exit r of None \<Rightarrow> True | Some x \<Rightarrow> basis_says (ws_db w') (sg_pairId r) SellTokenized (sg_sizeUsd r)
      (sx_exitQuoteId x) (sx_exitBasisId x) (sx_exitEdgeBps x) (sx_exitTokenPriceUsd x))"
proof -
  have "signals_traced w'" by (rule works_traced [OF _ assms(1)]) (simp add: signals_traced_def assms(2))
  then have "traced (ws_db w') r" using assms(3) by (simp add: signals_traced_def)
  then show ?thesis by (auto simp add: traced_def split: option.split)
qed

definition demo_order :: orderJson where
  "demo_order = (plain_order (show_int 100000000))\<lparr> oj_inAmount := Some (show_int 250000000), oj_router := Some ''iris'',
     oj_priceImpact := Some (N (Num 0)) \<rparr>"

definition demo_env :: workEnv where
  "demo_env = \<lparr> we_clk = \<lambda>_. Num 1000, we_dateText = \<lambda>_. None, we_reply = \<lambda>_ _. Reply 200 (Inr demo_order), we_random = \<lambda>_. Num 0 \<rparr>"

definition demo_settings :: workSettings where
  "demo_settings = \<lparr> wg_thresholds = DEFAULT_QUOTE_QUALITY_THRESHOLDS,
     wg_costs = \<lparr> ci_slippageBufferBps = Num 0, ci_landingCostBps = Num 0, ci_failureBufferBps = Num 0, ci_minProfitBps = Num 0 \<rparr>,
     wg_sampleRate = Num 0 \<rparr>"

definition demo_tick :: pythTickEvent where
  "demo_tick = \<lparr> pt_pythLazerId = Num 1, pt_priceUsd = Num 500, pt_confidenceUsd = Some (Num 0), pt_streamTimestampUs = Num 1000000,
     pt_feedUpdateTimestampUs = Num 1000000, pt_marketSession = None, pt_freshnessLagMs = Num 0, pt_isFresh = True \<rparr>"

definition demo_context :: workContext where
  "demo_context = mk_context (tick_metadata demo_tick (Some CRYPTO_NORMAL) False) (work_id ''wbtc'' BuyTokenized (Num 250)) (Num 1000)"

definition demo_work :: workState where
  "demo_work = \<lparr> ws_reads = 0, ws_heartbeat = new_heartbeat (Num 0), ws_db = \<lparr> db_quotes = [], db_basis = [] \<rparr>, ws_engine = empty_engine \<rparr>"

lemma demo_context_fields: "tm_allowSignals demo_context = Some True" "tm_timeRegime demo_context = Some CRYPTO_NORMAL"
  "tm_pythFreshnessLagMs demo_context = Num 0" "tm_streamTimestampUs demo_context = Num 1000000"
  "tm_pythConfidenceBps demo_context = Some (Num 0)"
  by (simp_all add: demo_context_def mk_context_def tick_metadata_def demo_tick_def priceTickMetadata.defs
      isExecutableTimeRegime_def js_eval)

lemma sub_self: "js_sub (Num q) (Num q) = Num 0"
  by (simp add: js_sub_def)

lemma demo_reply: "\<exists>qo. client_order (we_clk demo_env) (we_dateText demo_env) (Reply 200 (Inr demo_order)) 1 = (OkOrder qo, 3) \<and>
    oo_outAmount qo = 100000000 \<and> oo_router qo = Some ''iris'' \<and> oo_priceImpactPct qo = Some (Num 0) \<and> oo_requestMs qo = Num 0"
  by (simp add: client_order_def demo_env_def demo_order_def plain_order_def res_ok_def show_int_present bigint_of_show_int
      decode_order_def firstFiniteNumber_def parseFiniteNumber_def sub_self)

lemma demo_amount: "inputAtomicForOrder demo_pair BuyTokenized (Num 250) (Num 500) = Inr 250000000"
proof -
  have "js_mul (Num 250) (js_pow10 6) = Num 250000000" by (simp add: js_pow10_def js_eval)
  then have "uiToAtomic (Num 250) 6 = Inr 250000000" using rne_of_int [of 250000000]
    by (simp add: uiToAtomic_def bankersRound_def to_bigint_def Let_def sub_self js_eval)
  then show ?thesis by (simp add: inputAtomicForOrder_def demo_pair_def decimals_of_def)
qed

lemma demo_live:
  assumes "oo_router qo = Some ''iris''" "oo_priceImpactPct qo = Some (Num 0)" "oo_requestMs qo = Num 0"
  shows "qr_qualityStatus (classifyQuoteQuality (quality_input demo_pair demo_context (Num 0) qo) (pair_thresholds demo_settings demo_pair)) = LIVE_ELIGIBLE"
  unfolding eligible_gates using assms
  by (simp add: quality_input_def demo_context_fields pair_thresholds_def pair_gate_def demo_pair_def demo_settings_def
      buildQuoteQualityThresholds_def override_def DEFAULT_QUOTE_QUALITY_THRESHOLDS_def beyond_def maxFreshnessLagMsForPair_def
      DEFAULT_ALLOWED_MARKET_SESSIONS_def priceImpactBps_def router_blocked_def runtimeDecimalsVerified_def is_integer_def)

definition demo_item :: workItem where
  "demo_item = \<lparr> wi_pairs = [(''wbtc'', demo_pair)], wi_pair = toSchedulerPair demo_pair (Num 500), wi_side = BuyTokenized,
     wi_sizeUsd = Num 250, wi_priceUsd = Num 500, wi_context = demo_context \<rparr>"

lemma demo_price: "oo_outAmount qo = 100000000 \<Longrightarrow> quote_price demo_pair BuyTokenized (Num 250) qo = Inr (Num 250)"
  by (simp add: quote_price_def demo_pair_def effectiveBuyPriceUsd_def atomicToUi_def js_pow10_def decimals_of_def Let_def js_eval)

lemma demo_edge: "gross_edge BuyTokenized (Num 500) (Num 250) = Inr (Num 10000)"
  "netEdgeBps (Num 10000) (wg_costs demo_settings) = Num 10000"
  by (simp_all add: gross_edge_def buyEdgeBps_def ratio_bps_def netEdgeBps_def demo_settings_def js_sub_def js_eval)

lemma demo_opens:
  assumes "ob_pair a = demo_pair" "ob_side a = BuyTokenized" "ob_tokenPriceUsd a = Num 250" "ob_netEdgeBps a = Num 10000"
  shows "\<exists>e r. onObservation paper_engine a empty_engine = Some (Inr (), e) \<and> es_signals e = [r]"
proof -
  have "open_decision a empty_engine" by (simp add: open_decision_def empty_open assms) (simp add: demo_pair_def)
  then show ?thesis using assms(2)
    by (simp add: onObservation_def maybeOpenSpotInventory_def open_commit_def paper_trades opened_signals) (simp add: empty_engine_def)
qed

lemma demo_run: "\<exists>w' r. works demo_env demo_settings paper_engine [demo_item] demo_work = Some w' \<and> es_signals (ws_engine w') = [r]"
proof -
  obtain qo where c: "client_order (we_clk demo_env) (we_dateText demo_env) (Reply 200 (Inr demo_order)) 1 = (OkOrder qo, 3)"
    and q: "oo_outAmount qo = 100000000" "oo_router qo = Some ''iris''" "oo_priceImpactPct qo = Some (Num 0)" "oo_requestMs qo = Num 0"
    using demo_reply by blast
  have clk: "we_clk demo_env n = Num 1000" "we_reply demo_env x n = Reply 200 (Inr demo_order)" for n x
    by (simp_all add: demo_env_def)
  have age: "basis_age (Num 1000) demo_context = Num 0"
    by (simp add: basis_age_def demo_context_fields sub_self js_max_def js_eval)
  define timing where "timing = work_timing demo_context (Num 1000) (Num 1000) (OkOrder qo) (Num 0)
    (classifyQuoteQuality (quality_input demo_pair demo_context (Num 0) qo) (pair_thresholds demo_settings demo_pair))"
  obtain k d where k: "record_ok (we_random demo_env 0) (wg_sampleRate demo_settings) (wg_costs demo_settings) demo_pair BuyTokenized (Num 250) (Num 500) qo
      timing (Num 250) (Num 10000) (ws_db demo_work) = (k, d)" by fastforce
  have kf: "rk_tokenPriceUsd k = Num 250" "rk_netBps k = Num 10000" "rk_qualityStatus k = LIVE_ELIGIBLE"
    using k demo_live [OF q(2-4)]
    by (auto simp add: record_ok_def Let_def insertJupiterQuote_def insertBasisObservation_def demo_edge(2) timing_def work_timing_def)
  have rec: "recordQuote (we_random demo_env 0) (wg_sampleRate demo_settings) (wg_costs demo_settings) demo_pair BuyTokenized (Num 250) (Num 500)
      (OkOrder qo) timing (ws_db demo_work) = (Inr (RecordedOk k), d)"
    by (simp add: recordQuote_def demo_price [OF q(1)] demo_edge(1) k)
  obtain e r where e: "onObservation paper_engine (work_observation demo_pair BuyTokenized (Num 250) (Num 500) k (Num 1000) (Num 1000)) empty_engine = Some (Inr (), e)"
    "es_signals e = [r]" using demo_opens [of "work_observation demo_pair BuyTokenized (Num 250) (Num 500) k (Num 1000) (Num 1000)"]
    by (auto simp add: work_observation_def kf)
  have pairs: "sp_pairId (toSchedulerPair demo_pair (Num 500)) = ''wbtc''" "dict_get [(''wbtc'', demo_pair)] ''wbtc'' = Some demo_pair"
    by (simp_all add: toSchedulerPair_def demo_pair_def)
  have w: "ws_reads demo_work = 0" "ws_engine demo_work = empty_engine" by (simp_all add: demo_work_def)
  have "work_quality demo_settings demo_pair demo_context (Num 0) (OkOrder qo) =
      classifyQuoteQuality (quality_input demo_pair demo_context (Num 0) qo) (pair_thresholds demo_settings demo_pair)"
    by (simp add: work_quality_def)
  then show ?thesis
    by (simp add: demo_item_def run_work_def onWork_def pairs demo_amount clk c [unfolded One_nat_def] w age Let_def timing_def [symmetric] rec kf demo_context_fields e)
qed

theorem signals_leave_a_trail_witness:
  "\<exists>(w' :: workState) r. es_signals (ws_engine w') = [r] \<and> basis_says (ws_db w') (sg_pairId r) BuyTokenized (sg_sizeUsd r) (sg_entryQuoteId r)
      (sg_entryBasisId r) (sg_entryEdgeBps r) (the (sg_entryTokenPriceUsd r))"
proof -
  obtain w' r where w: "works demo_env demo_settings paper_engine [demo_item] demo_work = Some w'" "es_signals (ws_engine w') = [r]"
    using demo_run by blast
  have "es_signals (ws_engine demo_work) = []" by (simp add: demo_work_def empty_engine_def)
  then have "basis_says (ws_db w') (sg_pairId r) BuyTokenized (sg_sizeUsd r) (sg_entryQuoteId r)
      (sg_entryBasisId r) (sg_entryEdgeBps r) (the (sg_entryTokenPriceUsd r))"
    using signals_leave_a_trail [OF w(1), of r] w(2) by simp
  then show ?thesis using w(2) by blast
qed

section \<open>From a tick to a signal\<close>

text \<open>The work of a tick, and what the scheduler keeps of its pairs.\<close>

definition work_of :: "schedulerPair \<Rightarrow> jsnum \<Rightarrow> priceTickMetadata \<Rightarrow> schedEvent \<Rightarrow> bool" where
  "work_of p price meta e = (case e of
     Work wid sp side sz pr ctx \<Rightarrow> sp = p \<and> pr = price \<and> side \<in> set (sp_sides p) \<and> sz \<in> set (sp_sizesUsd p) \<and> (\<exists>t. ctx = mk_context meta wid t)
   | _ \<Rightarrow> True)"

lemma work_of_simps [simp]: "work_of p price meta (RpsRejected i sd sz)" "work_of p price meta (Admitted i sd sz)"
  "work_of p price meta (Work wid p side sz price (mk_context meta wid n)) \<longleftrightarrow> side \<in> set (sp_sides p) \<and> sz \<in> set (sp_sizesUsd p)"
  unfolding work_of_def by auto

lemma visit_work:
  assumes "visit clk p price meta pid x (evs, s) = (evs', s')" "\<forall>e \<in> set evs. work_of p price meta e"
    and "fst x \<in> set (sp_sides p)" "snd x \<in> set (sp_sizesUsd p)"
  shows "qs_pairs s' = qs_pairs s \<and> (\<forall>e \<in> set evs'. work_of p price meta e)"
  using assms by (cases x) (auto simp add: visit_def shouldQuote_def take_token_def read_clock_def Let_def
      split: prod.splits if_splits)

lemma visits_work:
  "\<forall>e \<in> set (fst es). work_of p price meta e \<Longrightarrow> \<forall>x \<in> set xs. fst x \<in> set (sp_sides p) \<and> snd x \<in> set (sp_sizesUsd p) \<Longrightarrow>
     qs_pairs (snd (fold (visit clk p price meta pid) xs es)) = qs_pairs (snd es) \<and>
     (\<forall>e \<in> set (fst (fold (visit clk p price meta pid) xs es)). work_of p price meta e)"
proof (induction xs arbitrary: es)
  case (Cons x xs)
  obtain evs s where es: "es = (evs, s)" by fastforce
  obtain evs' s' where v: "visit clk p price meta pid x (evs, s) = (evs', s')" by fastforce
  have "qs_pairs s' = qs_pairs s \<and> (\<forall>e \<in> set evs'. work_of p price meta e)"
    using Cons.prems by (intro visit_work [OF v]) (simp_all add: es)
  then show ?case using Cons.IH [of "(evs', s')"] Cons.prems(2) by (simp add: es v)
qed simp

lemma tick_work:
  assumes "onPriceTick clk pid price meta s = (evs, s')"
  shows "(\<forall>i. map_option unpriced (dict_get (qs_pairs s') i) = map_option unpriced (dict_get (qs_pairs s) i)) \<and>
    (\<forall>e \<in> set evs. \<exists>p0. dict_get (qs_pairs s) pid = Some p0 \<and> work_of (p0\<lparr> sp_lastPriceUsd := price \<rparr>) price meta e)"
proof (cases "dict_get (qs_pairs s) pid")
  case None
  then show ?thesis using assms by (simp add: onPriceTick_def)
next
  case (Some p0)
  let ?p = "p0\<lparr> sp_lastPriceUsd := price \<rparr>"
  let ?es = "([] :: schedEvent list, s\<lparr> qs_pairs := dict_set (qs_pairs s) pid ?p \<rparr>)"
  let ?xs = "concat (map (\<lambda>side. map (Pair side) (sp_sizesUsd ?p)) (sp_sides ?p))"
  have "qs_pairs (snd (fold (visit clk ?p price meta pid) ?xs ?es)) = qs_pairs (snd ?es) \<and>
     (\<forall>e \<in> set (fst (fold (visit clk ?p price meta pid) ?xs ?es)). work_of ?p price meta e)"
    by (rule visits_work) auto
  moreover have "fold (visit clk ?p price meta pid) ?xs ?es = (evs, s')" using assms Some by (simp add: onPriceTick_def Let_def)
  ultimately show ?thesis using Some by (auto simp add: dict_laws unpriced_def)
qed

text \<open>A work event and the pair of the index it belongs to.\<close>

definition gated :: "botState \<Rightarrow> (jsnum \<Rightarrow> nyClock) \<Rightarrow> jsnum \<Rightarrow> pythTickEvent \<Rightarrow> tickSource \<Rightarrow> jsnum \<Rightarrow> botEvent \<Rightarrow> bool" where
  "gated s ny highVolBps t source nowMs ev = (case ev of
     Sched (Work wid sp side sz price ctx) \<Rightarrow> (\<exists>p. dict_get (bt_pairConfigs s) (sp_pairId sp) = Some p \<and>
       price = pt_priceUsd t \<and> side \<in> set (pc_directions p) \<and> sz \<in> set (normalizeActiveQuoteSizes (pc_sizesUsd p)) \<and>
       (source = FromStream \<longrightarrow> \<not> pyth_stale p t) \<and>
       tm_timeRegime ctx = tick_regime ny highVolBps p nowMs (dict_get (bt_lastRegimePrice s) (sp_pairId sp)) t \<and>
       tm_pythFreshnessLagMs ctx = pt_freshnessLagMs t \<and>
       tm_allowSignals ctx = Some (isExecutableTimeRegime (tm_timeRegime ctx) \<and> \<not> pyth_stale p t))
   | _ \<Rightarrow> True)"

lemma gated_simps [simp]: "gated s ny hv t source nowMs (Scheduled i)" "gated s ny hv t source nowMs (StalePyth i)"
  "gated s ny hv t source nowMs (StaleWarned i)" "gated s ny hv t source nowMs (SessionClosed i)"
  by (simp_all add: gated_def)

definition same_pairs :: "botState \<Rightarrow> botState \<Rightarrow> bool" where
  "same_pairs s s1 \<longleftrightarrow> bt_pairConfigs s1 = bt_pairConfigs s \<and> bt_lazerIdToPairs s1 = bt_lazerIdToPairs s \<and>
     (\<forall>i. map_option unpriced (dict_get (qs_pairs (bt_scheduler s1)) i) = map_option unpriced (dict_get (qs_pairs (bt_scheduler s)) i))"

lemma index_inv_same: "index_inv m s \<Longrightarrow> same_pairs s s1 \<Longrightarrow> index_inv m s1"
  by (simp add: index_inv_def same_pairs_def)

lemma tick_pair_gated:
  assumes inv: "index_inv m s" and same: "same_pairs s (fst (snd x))" and old: "\<forall>e \<in> set (fst x). gated s ny hv t source nowMs e"
    and before: "dict_get (bt_lastRegimePrice (fst (snd x))) pid = dict_get (bt_lastRegimePrice s) pid"
    and r: "tick_pair clk ny hv t source nowMs pid x = r"
  shows "same_pairs s (fst (snd r)) \<and> (\<forall>e \<in> set (fst r). gated s ny hv t source nowMs e) \<and>
    (\<forall>i. i \<noteq> pid \<longrightarrow> dict_get (bt_lastRegimePrice (fst (snd r))) i = dict_get (bt_lastRegimePrice (fst (snd x))) i)"
proof -
  obtain evs s1 h where x: "x = (evs, s1, h)" by (cases x)
  have c: "bt_pairConfigs s1 = bt_pairConfigs s" using same by (simp add: x same_pairs_def)
  show ?thesis
  proof (cases "dict_get (bt_pairConfigs s1) pid")
    case None
    then show ?thesis using r same old by (simp add: tick_pair_def x)
  next
    case (Some p)
    show ?thesis
    proof (cases "pyth_stale p t \<and> source = FromStream")
      case True
      then show ?thesis using r same old Some by (auto simp add: tick_pair_def x Let_def same_pairs_def split: if_splits)
    next
      case live: False
      define prev where "prev = dict_get (bt_lastRegimePrice s1) pid"
      define regime where "regime = tick_regime ny hv p nowMs prev t"
      obtain sevs sch where o: "onPriceTick clk pid (pt_priceUsd t) (tick_metadata t regime (pyth_stale p t)) (bt_scheduler s1) = (sevs, sch)"
        by fastforce
      note W = tick_work [OF o]
      obtain s2 where s2: "snd r = (s2, h)" "bt_scheduler s2 = sch" "bt_pairConfigs s2 = bt_pairConfigs s1"
          "bt_lazerIdToPairs s2 = bt_lazerIdToPairs s1" "bt_lastRegimePrice s2 = dict_set (bt_lastRegimePrice s1) pid (pt_priceUsd t)"
        and e: "fst r = (evs @ [Scheduled pid]) @ (if isExecutableTimeRegime regime then [] else [SessionClosed pid]) @ map Sched sevs"
        using r live o Some by (auto simp add: tick_pair_def x Let_def prev_def regime_def split: prod.splits if_splits)
      have "same_pairs s (fst (snd r))" using W same s2 by (simp add: same_pairs_def x)
      moreover have "\<forall>i. i \<noteq> pid \<longrightarrow> dict_get (bt_lastRegimePrice (fst (snd r))) i = dict_get (bt_lastRegimePrice (fst (snd x))) i"
        using s2(1,5) by (simp add: x dict_laws)
      moreover have "prev = dict_get (bt_lastRegimePrice s) pid" using before by (simp add: prev_def x)
      note prev = this
      moreover have "gated s ny hv t source nowMs (Sched e)" if m: "e \<in> set sevs" for e
      proof -
        obtain p0 where p0: "dict_get (qs_pairs (bt_scheduler s1)) pid = Some p0"
          "work_of (p0\<lparr> sp_lastPriceUsd := pt_priceUsd t \<rparr>) (pt_priceUsd t) (tick_metadata t regime (pyth_stale p t)) e"
          using W m by blast
        have "map_option unpriced (dict_get (qs_pairs (bt_scheduler s)) pid) = Some (toSchedulerPair p (Num 0))"
          using inv Some c by (simp add: index_inv_def)
        moreover have "map_option unpriced (dict_get (qs_pairs (bt_scheduler s1)) pid) = map_option unpriced (dict_get (qs_pairs (bt_scheduler s)) pid)"
          using same unfolding same_pairs_def x by simp
        ultimately have u: "unpriced p0 = toSchedulerPair p (Num 0)" using p0(1) by (metis option.inject option.map(2))
        have "pc_id p = pid" using inv Some c by (simp add: index_inv_def keyed_pairs_def)
        then have f: "sp_pairId p0 = pid" "sp_sides p0 = pc_directions p" "sp_sizesUsd p0 = normalizeActiveQuoteSizes (pc_sizesUsd p)"
          using arg_cong [OF u, of sp_pairId] arg_cong [OF u, of sp_sides] arg_cong [OF u, of sp_sizesUsd]
          by (simp_all add: unpriced_def toSchedulerPair_def)
        have q: "p' = p" if "dict_get (bt_pairConfigs s) pid = Some p'" for p' using that Some c by simp
        show ?thesis
        proof (cases e)
          case (Work wid sp side sz price ctx)
          then obtain n where "sp = p0\<lparr> sp_lastPriceUsd := pt_priceUsd t \<rparr>" "price = pt_priceUsd t"
            "ctx = mk_context (tick_metadata t regime (pyth_stale p t)) wid n" "side \<in> set (sp_sides p0)" "sz \<in> set (sp_sizesUsd p0)"
            using p0(2) by (auto simp add: work_of_def)
          then show ?thesis using live Some c f by (auto simp add: gated_def Work mk_context_def priceTickMetadata.defs tick_metadata_def regime_def prev)
        qed (simp_all add: gated_def)
      qed
      ultimately show ?thesis using old unfolding e by (auto simp add: x)
    qed
  qed
qed

lemma tick_pairs_gated:
  assumes "index_inv m s"
  shows "same_pairs s (fst (snd x)) \<Longrightarrow> \<forall>e \<in> set (fst x). gated s ny hv t source nowMs e \<Longrightarrow> distinct ids \<Longrightarrow>
    \<forall>i \<in> set ids. dict_get (bt_lastRegimePrice (fst (snd x))) i = dict_get (bt_lastRegimePrice s) i \<Longrightarrow>
    same_pairs s (fst (snd (fold (tick_pair clk ny hv t source nowMs) ids x))) \<and>
    (\<forall>e \<in> set (fst (fold (tick_pair clk ny hv t source nowMs) ids x)). gated s ny hv t source nowMs e)"
proof (induction ids arbitrary: x)
  case (Cons i ids)
  let ?y = "tick_pair clk ny hv t source nowMs i x"
  have "same_pairs s (fst (snd ?y)) \<and> (\<forall>e \<in> set (fst ?y). gated s ny hv t source nowMs e) \<and>
      (\<forall>j. j \<noteq> i \<longrightarrow> dict_get (bt_lastRegimePrice (fst (snd ?y))) j = dict_get (bt_lastRegimePrice (fst (snd x))) j)"
    using Cons.prems by (intro tick_pair_gated [OF assms Cons.prems(1,2) _ refl]) simp
  moreover have "distinct ids" "i \<notin> set ids" using Cons.prems(3) by simp_all
  ultimately show ?case using Cons.IH [of ?y] Cons.prems(4) by (metis fold_simps(2) list.set_intros(2))
qed simp

text \<open>The instant of a tick is the reading of the clock at its start, the previous price the one accepted last.\<close>

lemma ticks_gated:
  assumes inv: "index_inv m s" and r: "processPythTick clk ny hv t source (s, h) = (evs, s', h')"
  shows "same_pairs s s' \<and> (\<forall>e \<in> set evs. gated s ny hv t source (clk (qs_reads (bt_scheduler s))) e)"
proof (cases "dict_get (bt_lazerIdToPairs s) (pt_pythLazerId t)")
  case None
  then show ?thesis using r by (simp add: processPythTick_def same_pairs_def)
next
  case (Some ids)
  let ?now = "clk (qs_reads (bt_scheduler s))"
  let ?s = "s\<lparr> bt_scheduler := snd (read_clock clk (bt_scheduler s)) \<rparr>"
  obtain h1 where "fold (tick_pair clk ny hv t source ?now) ids ([], ?s, h1) = (evs, s', h')"
    using r Some by (auto simp add: processPythTick_def read_clock_def Let_def)
  moreover have "distinct ids" using inv Some by (auto simp add: index_inv_def feed_sets_def)
  moreover have "same_pairs s ?s" by (simp add: same_pairs_def read_clock_def)
  ultimately show ?thesis
    using tick_pairs_gated [OF inv, of "([], ?s, h1)" ny hv t source ?now ids clk] by simp
qed

lemma classless_regime: "pc_assetClass p = FX \<or> pc_assetClass p = Commodity \<Longrightarrow> tick_regime ny hv p nowMs previous t = None"
  by (auto simp add: tick_regime_def timeRegimeFor_def)

text \<open>C3: Only a fresh tick of an open market moves the signal engine: when the work that a Pyth tick scheduled
  changes the engine, the tick was no staler than its pair allows, whether it came from the stream or from a
  snapshot; the regime of its asset class, at the clock reading that opened the tick, with its market session
  and its move from the price accepted before, was an executable one, is the regime the work carries and
  the row stores, and is among the sessions allowed for the pair as configured when the work ran; the asset
  is neither a currency nor a commodity, the work was priced with the tick's price, and a live-eligible basis
  observation was stored first, for a lag within the bound of the pair.\<close>

theorem only_fresh_ticks_signal:
  assumes "index_inv maxRps s" and "processPythTick clk ny highVolBps t source (s, h) = (evs, s', h')"
    and "Sched (Work wid sp side sizeUsd price ctx) \<in> set evs"
    and "onWork env cfg ecfg pairs sp side sizeUsd price ctx w = Some (x, w')" and "ws_engine w' \<noteq> ws_engine w"
  shows "\<exists>p q regime b. dict_get (bt_pairConfigs s) (sp_pairId sp) = Some p \<and>
    \<not> js_gt (pt_freshnessLagMs t) (maxFreshnessLagMsForPair p) \<and>
    pc_assetClass p \<notin> {FX, Commodity} \<and> price = pt_priceUsd t \<and>
    timeRegimeFor ny (pc_assetClass p) (clk (qs_reads (bt_scheduler s)))
      \<lparr> tg_cryptoMoveBps = Some (crypto_move (dict_get (bt_lastRegimePrice s) (sp_pairId sp)) (pt_priceUsd t)),
        tg_cryptoHighVolMoveBps = Some highVolBps, tg_pythMarketSession = pt_marketSession t \<rparr> = Some regime \<and>
    regime \<in> {CRYPTO_NORMAL, CRYPTO_HIGH_VOL, US_EQUITY_REGULAR, METAL_ACTIVE} \<and> tm_timeRegime ctx = Some regime \<and>
    dict_get pairs (sp_pairId sp) = Some q \<and> regime \<in> set (qt_allowedMarketSessions (pair_thresholds cfg q)) \<and>
    \<not> js_gt (pt_freshnessLagMs t) (qt_maxPythFreshnessLagMs (pair_thresholds cfg q)) \<and>
    db_basis (ws_db w') = db_basis (ws_db w) @ [b] \<and> qm_qualityStatus (br_timing b) = LIVE_ELIGIBLE \<and>
    qm_timeRegime (br_timing b) = Some regime \<and> br_basePriceUsd b = price"
proof -
  let ?now = "clk (qs_reads (bt_scheduler s))" and ?before = "dict_get (bt_lastRegimePrice s) (sp_pairId sp)"
  have "gated s ny highVolBps t source ?now (Sched (Work wid sp side sizeUsd price ctx))"
    using ticks_gated [OF assms(1,2)] assms(3) by blast
  then obtain p where p: "dict_get (bt_pairConfigs s) (sp_pairId sp) = Some p" "price = pt_priceUsd t"
      "tm_timeRegime ctx = tick_regime ny highVolBps p ?now ?before t" "tm_pythFreshnessLagMs ctx = pt_freshnessLagMs t"
      "tm_allowSignals ctx = Some (isExecutableTimeRegime (tm_timeRegime ctx) \<and> \<not> pyth_stale p t)"
    by (auto simp add: gated_def)
  obtain q amount qo n1 k timing where q: "dict_get pairs (sp_pairId sp) = Some q"
      "qm_qualityStatus timing = qr_qualityStatus (classifyQuoteQuality
         (quality_input q ctx (basis_age (we_clk env n1) ctx) qo) (pair_thresholds cfg q))"
      "appended q side sizeUsd price timing k (ws_db w) (ws_db w')" "tm_allowSignals ctx \<noteq> Some False"
      "qm_qualityStatus timing = LIVE_ELIGIBLE" "qm_timeRegime timing = tm_timeRegime ctx"
    using work_effect [OF assms(4)] assms(5) by blast
  have gates: "qr_qualityStatus (classifyQuoteQuality (quality_input q ctx (basis_age (we_clk env n1) ctx) qo) (pair_thresholds cfg q)) = LIVE_ELIGIBLE"
    using q(2,5) by simp
  obtain regime where r: "tm_timeRegime ctx = Some regime" "regime \<in> set (qt_allowedMarketSessions (pair_thresholds cfg q))"
    and lag: "\<not> js_gt (pt_freshnessLagMs t) (qt_maxPythFreshnessLagMs (pair_thresholds cfg q))"
    using gates unfolding eligible_gates by (auto simp add: quality_input_def beyond_def p(4))
  obtain b where b: "db_basis (ws_db w') = db_basis (ws_db w) @ [b]" "br_timing b = timing" "br_basePriceUsd b = price"
    using q(3) unfolding appended_def by (metis basisRow.select_convs(4,10))
  have "\<not> pyth_stale p t" "isExecutableTimeRegime (Some regime)" using q(4) p(5) r(1) by auto
  moreover from this(2) have "regime \<in> {CRYPTO_NORMAL, CRYPTO_HIGH_VOL, US_EQUITY_REGULAR, METAL_ACTIVE}"
    by (cases regime) (simp_all add: isExecutableTimeRegime_def)
  moreover have "pc_assetClass p \<notin> {FX, Commodity}" using classless_regime [of p] r(1) p(3) by auto
  moreover have "tick_regime ny highVolBps p ?now ?before t = Some regime" using p(3) r(1) by simp
  moreover have "qm_qualityStatus (br_timing b) = LIVE_ELIGIBLE" "qm_timeRegime (br_timing b) = Some regime" using q(5,6) b(2) r(1) by simp_all
  ultimately show ?thesis using p(1,2) q(1) r lag b(1,3) unfolding pyth_stale_def tick_regime_def by blast
qed

definition demo_bot :: botState where
  "demo_bot = (fresh_bot (fresh\<lparr> qs_pairs := [(''wbtc'', toSchedulerPair demo_pair (Num 0))] \<rparr>))
     \<lparr> bt_lazerIdToPairs := [(Num 1, [''wbtc''])], bt_pairConfigs := [(''wbtc'', demo_pair)] \<rparr>"

lemma demo_fits: "fits (Num 10) [demo_pair]"
proof -
  obtain a where a: "js_add (js_mul (Num 10) (fl (85/100))) EPSILON = Num a" "8 \<le> a" "a \<le> 10" by (rule allowed_ten)
  have e: "estimateQuoteRps (map rps_pair [demo_pair]) = js_add (Num 0) (fl (2 / 5))"
    by (simp add: estimateQuoteRps_def rps_pair_def demo_pair_def js_count_def js_eval)
  have one: "js_le (fl q) (Num 1)" if "q \<le> 1" for q using that by (intro fl_le_double) (simp_all add: js_eval)
  have "js_le (js_add (Num 0) (fl (2 / 5))) (Num 1)"
    using one [of "2 / 5"] one by (cases "fl (2 / 5)") simp_all
  then show ?thesis using a unfolding fits_def e by (cases "js_add (Num 0) (fl (2 / 5))") auto
qed

lemma demo_inv: "index_inv (Num 10) demo_bot"
proof -
  have "PairConfigSchema demo_pair"
    by (simp add: PairConfigSchema_def demo_pair_def nonneg_int_def nonneg_num_def opt_ok_def is_integer_def
        ACTIVE_QUOTE_SIZES_USD_def QualityGateSchema_def)
  moreover have "pc_id demo_pair = ''wbtc''" "pc_pythLazerId demo_pair = Num 1" by (simp_all add: demo_pair_def)
  ultimately show ?thesis using demo_fits
    by (auto simp add: index_inv_def demo_bot_def fresh_bot_def keyed_pairs_def dict_ok_def feed_sets_def feed_has_def
        unpriced_def toSchedulerPair_def fresh_def split: if_splits)
qed

lemma demo_event: "\<exists>rest s' h'. processPythTick (\<lambda>_. Num 1000) ny (Num 50) demo_tick FromStream (demo_bot, h) =
    (Scheduled ''wbtc'' # Sched (Admitted ''wbtc'' BuyTokenized (Num 250)) #
       Sched (Work (work_id ''wbtc'' BuyTokenized (Num 250)) (toSchedulerPair demo_pair (Num 500)) BuyTokenized (Num 250) (Num 500) demo_context) # rest, s', h')"
proof -
  have r: "tick_regime ny (Num 50) demo_pair (Num 1000) None demo_tick = Some CRYPTO_NORMAL" "\<not> pyth_stale demo_pair demo_tick"
    by (simp_all add: tick_regime_def demo_pair_def timeRegimeFor_def crypto_move_def pyth_stale_def demo_tick_def maxFreshnessLagMsForPair_def)
  let ?p = "toSchedulerPair demo_pair (Num 500)"
  have p: "sp_sides ?p = [BuyTokenized, SellTokenized]" "sp_sizesUsd ?p = [Num 250]"
    "toSchedulerPair demo_pair (Num 0)\<lparr> sp_lastPriceUsd := Num 500 \<rparr> = ?p"
    by (simp_all add: toSchedulerPair_def demo_pair_def normalizeActiveQuoteSizes_def ACTIVE_QUOTE_SIZES_USD_def)
  let ?m = "tick_metadata demo_tick (Some CRYPTO_NORMAL) False"
  let ?s = "fresh\<lparr> qs_reads := Suc (qs_reads fresh), qs_pairs := [(''wbtc'', ?p)] \<rparr>"
  obtain s1 where v: "visit (\<lambda>_. Num 1000) ?p (Num 500) ?m ''wbtc'' (BuyTokenized, Num 250) ([], ?s) =
      ([Admitted ''wbtc'' BuyTokenized (Num 250), Work (work_id ''wbtc'' BuyTokenized (Num 250)) ?p BuyTokenized (Num 250) (Num 500) demo_context], s1)"
    by (simp add: visit_def shouldQuote_def take_token_def read_clock_def tryTake_def refill_def fresh_def sub_self js_sub_def
        enough_tokens demo_context_def js_min_def Let_def js_eval del: show_num.simps)
  obtain es s2 where w: "visit (\<lambda>_. Num 1000) ?p (Num 500) ?m ''wbtc'' (SellTokenized, Num 250) ([], s1) = (es, s2)" by fastforce
  let ?e1 = "[Admitted ''wbtc'' BuyTokenized (Num 250), Work (work_id ''wbtc'' BuyTokenized (Num 250)) ?p BuyTokenized (Num 250) (Num 500) demo_context]"
  have w': "visit (\<lambda>_. Num 1000) ?p (Num 500) ?m ''wbtc'' (SellTokenized, Num 250) (?e1, s1) = (?e1 @ es, s2)"
    using visit_events [of "\<lambda>_. Num 1000" ?p "Num 500" ?m "''wbtc''" "(SellTokenized, Num 250)" ?e1 s1] w by simp
  have "onPriceTick (\<lambda>_. Num 1000) ''wbtc'' (Num 500) ?m (fresh\<lparr> qs_pairs := [(''wbtc'', toSchedulerPair demo_pair (Num 0))], qs_reads := Suc (qs_reads fresh) \<rparr>) =
      (?e1 @ es, s2)"
    using v w' by (simp add: onPriceTick_def p Let_def)
  then show ?thesis using r
    by (simp add: processPythTick_def demo_bot_def fresh_bot_def read_clock_def tick_pair_def Let_def demo_tick_def isExecutableTimeRegime_def)
qed

lemma demo_onWork: "\<exists>w' x. onWork demo_env demo_settings paper_engine [(''wbtc'', demo_pair)] (toSchedulerPair demo_pair (Num 500)) BuyTokenized
    (Num 250) (Num 500) demo_context demo_work = Some (x, w') \<and> ws_engine w' \<noteq> ws_engine demo_work"
proof -
  obtain w' r where w: "works demo_env demo_settings paper_engine [demo_item] demo_work = Some w'" "es_signals (ws_engine w') = [r]"
    using demo_run by blast
  then obtain x w1 where o: "onWork demo_env demo_settings paper_engine [(''wbtc'', demo_pair)] (toSchedulerPair demo_pair (Num 500)) BuyTokenized
    (Num 250) (Num 500) demo_context demo_work = Some (x, w1)" and c: "w' = (case x of Inl e \<Rightarrow> w1\<lparr> ws_heartbeat := countError (ws_heartbeat w1) \<rparr> | Inr u \<Rightarrow> w1)"
    by (auto simp add: demo_item_def run_work_def bind_eq_Some_conv)
  have e: "ws_engine w' = ws_engine w1" unfolding c by (cases x) simp_all
  have "es_signals (ws_engine demo_work) = []" by (simp add: demo_work_def empty_engine_def)
  then show ?thesis using o e w(2) by (intro exI [of _ w1] exI [of _ x]) auto
qed

theorem only_fresh_ticks_signal_witness:
  "\<exists>w' :: workState. \<exists>q b. dict_get [(''wbtc'', demo_pair)] ''wbtc'' = Some q \<and> ws_engine w' \<noteq> ws_engine demo_work \<and>
     db_basis (ws_db w') = [b] \<and> qm_qualityStatus (br_timing b) = LIVE_ELIGIBLE \<and> br_basePriceUsd b = Num 500"
proof -
  obtain w' x where o: "onWork demo_env demo_settings paper_engine [(''wbtc'', demo_pair)] (toSchedulerPair demo_pair (Num 500)) BuyTokenized
    (Num 250) (Num 500) demo_context demo_work = Some (x, w')" and n: "ws_engine w' \<noteq> ws_engine demo_work" using demo_onWork by blast
  obtain rest s' h' where p: "processPythTick (\<lambda>_. Num 1000) (\<lambda>_. \<lparr> ny_weekday = ''Mon'', ny_minutes = 600 \<rparr>) (Num 50) demo_tick FromStream (demo_bot, new_heartbeat (Num 0)) =
    (Scheduled ''wbtc'' # Sched (Admitted ''wbtc'' BuyTokenized (Num 250)) #
       Sched (Work (work_id ''wbtc'' BuyTokenized (Num 250)) (toSchedulerPair demo_pair (Num 500)) BuyTokenized (Num 250) (Num 500) demo_context) # rest, s', h')"
    using demo_event by blast
  have "db_basis (ws_db demo_work) = []" "sp_pairId (toSchedulerPair demo_pair (Num 500)) = ''wbtc''"
    by (simp_all add: demo_work_def toSchedulerPair_def demo_pair_def)
  moreover have "Sched (Work (work_id ''wbtc'' BuyTokenized (Num 250)) (toSchedulerPair demo_pair (Num 500)) BuyTokenized (Num 250) (Num 500) demo_context)
      \<in> set (Scheduled ''wbtc'' # Sched (Admitted ''wbtc'' BuyTokenized (Num 250)) #
       Sched (Work (work_id ''wbtc'' BuyTokenized (Num 250)) (toSchedulerPair demo_pair (Num 500)) BuyTokenized (Num 250) (Num 500) demo_context) # rest)"
    by simp
  ultimately obtain q b where "dict_get [(''wbtc'', demo_pair)] ''wbtc'' = Some q" "db_basis (ws_db w') = [b]"
      "qm_qualityStatus (br_timing b) = LIVE_ELIGIBLE" "br_basePriceUsd b = Num 500"
    using only_fresh_ticks_signal [OF demo_inv p _ o n] by (metis append_Nil)
  then show ?thesis using n by blast
qed

end
