(* ===== verification/ApiViews.thy ===== *)
theory ApiViews
  imports Verdict RpsBudget
begin

text \<open>
  services/stat-arb-bot/src/api: the views the read API builds from the rows of the database (builders/,
  orientation.ts), and the rows as packages/db/src/basis.ts reads them back. A Date, and the ISO text made from it, is its milliseconds; localeCompare is the parameter lc.
\<close>

section \<open>Rows read back\<close>

record basisObs =
  bo_id :: nat
  bo_pairId :: string
  bo_side :: pairDirection
  bo_sizeUsd :: jsnum
  bo_basePriceUsd :: jsnum
  bo_tokenPriceUsd :: jsnum
  bo_grossBps :: jsnum
  bo_netBps :: jsnum
  bo_tickId :: "nat option"
  bo_quoteId :: "nat option"
  bo_pythStreamTimestampUs :: "jsnum option"
  bo_pythFeedUpdateTimestampUs :: "jsnum option"
  bo_pythFreshnessLagMs :: "jsnum option"
  bo_pythConfidenceBps :: "jsnum option"
  bo_pythMarketSession :: "string option"
  bo_quoteRequestStartedAt :: "jsnum option"
  bo_quoteResponseAt :: "jsnum option"
  bo_quoteRequestMs :: "jsnum option"
  bo_basisAgeMs :: "jsnum option"
  bo_quality :: "observationQuality option"
  bo_qualityStatus :: "quoteQualityStatus option"
  bo_qualityReason :: "string option"
  bo_timeRegime :: "timeRegime option"
  bo_observedAt :: jsnum

text \<open>A row of basis_observations is the same record with NULL as None.\<close>

definition mapBasisObservation :: "basisObs \<Rightarrow> basisObs" where
  "mapBasisObservation r = r\<lparr> bo_quality := Some (option_or (bo_quality r) QLive),
     bo_qualityStatus := Some (option_or (bo_qualityStatus r) LIVE_ELIGIBLE),
     bo_qualityReason := Some (option_or (bo_qualityReason r) ''legacy row before quality gate'') \<rparr>"

text \<open>
  SELECT the rows of a key from a time on, ORDER BY observed_at DESC LIMIT n, then ascending; rows of the same
  instant keep the order of the table. The clock of the rows is in whole milliseconds.
\<close>

definition basisHistory :: "string \<Rightarrow> pairDirection \<Rightarrow> jsnum \<Rightarrow> jsnum \<Rightarrow> nat option \<Rightarrow> basisObs list \<Rightarrow> basisObs list" where
  "basisHistory pairId side sizeUsd sinceMs maxRows tab =
    (let rows = js_sort (gt_on bo_observedAt) (filter (\<lambda>b. bo_pairId b = pairId \<and> bo_side b = side \<and> bo_sizeUsd b = sizeUsd \<and>
           js_ge (bo_observedAt b) sinceMs) tab);
         n = (case maxRows of Some k \<Rightarrow> k | None \<Rightarrow> 2147483647)
     in map mapBasisObservation (drop (length rows - n) rows))"

definition bo_live :: "basisObs \<Rightarrow> bool" where
  "bo_live b \<longleftrightarrow> bo_qualityStatus b = Some LIVE_ELIGIBLE"

definition toReadinessObservation :: "basisObs \<Rightarrow> pairReadinessObservation" where
  "toReadinessObservation b = \<lparr> po_side = bo_side b, po_sizeUsd = bo_sizeUsd b, po_observedAtMs = bo_observedAt b,
     po_pythFeedUpdateTimestampUs = bo_pythFeedUpdateTimestampUs b, po_quoteRequestMs = bo_quoteRequestMs b,
     po_basisAgeMs = bo_basisAgeMs b, po_timeRegime = bo_timeRegime b, po_qualityStatus = bo_qualityStatus b \<rparr>"

definition toBacktestObservation :: "basisObs \<Rightarrow> backtestObservation" where
  "toBacktestObservation b = \<lparr> ob_side = bo_side b, ob_sizeUsd = bo_sizeUsd b, ob_observedAtMs = bo_observedAt b,
     ob_basePriceUsd = bo_basePriceUsd b, ob_tokenPriceUsd = bo_tokenPriceUsd b, ob_netBps = bo_netBps b,
     ob_qualityStatus = bo_qualityStatus b \<rparr>"

text \<open>The observation of the hold-horizon replay has the same fields.\<close>

definition toHoldHorizonObservation :: "basisObs \<Rightarrow> backtestObservation" where
  "toHoldHorizonObservation b = \<lparr> ob_side = bo_side b, ob_sizeUsd = bo_sizeUsd b, ob_observedAtMs = bo_observedAt b,
     ob_basePriceUsd = bo_basePriceUsd b, ob_tokenPriceUsd = bo_tokenPriceUsd b, ob_netBps = bo_netBps b,
     ob_qualityStatus = bo_qualityStatus b \<rparr>"

definition toStatObservation :: "basisObs \<Rightarrow> statObservation" where
  "toStatObservation b = \<lparr> so_side = bo_side b, so_sizeUsd = bo_sizeUsd b, so_observedAtMs = bo_observedAt b,
     so_basePriceUsd = bo_basePriceUsd b, so_tokenPriceUsd = bo_tokenPriceUsd b, so_qualityStatus = bo_qualityStatus b,
     so_timeRegime = bo_timeRegime b \<rparr>"

section \<open>Best sides (best-side.ts)\<close>

datatype bestKind = BestBuy | BestSell

record bestSideDto =
  bd_ratio :: jsnum
  bd_side :: pairDirection
  bd_sizeUsd :: jsnum
  bd_netBps :: jsnum
  bd_basePriceUsd :: jsnum
  bd_tokenPriceUsd :: jsnum
  bd_observedAt :: jsnum
  bd_timeRegime :: "timeRegime option"
  bd_quality :: "observationQuality option"
  bd_qualityStatus :: "quoteQualityStatus option"
  bd_qualityReason :: "string option"
  bd_pythFreshnessLagMs :: "jsnum option"
  bd_pythConfidenceBps :: "jsnum option"
  bd_basisAgeMs :: "jsnum option"
  bd_displayBasisBps :: "jsnum option"
  bd_displayBasisInterpretation :: "displayBasisInterpretation option"

definition bo_basis :: "basisObs \<Rightarrow> displayBasis" where
  "bo_basis b = describeDisplayBasis (Some (bo_tokenPriceUsd b)) (Some (bo_basePriceUsd b)) None"

definition toBestSideDto :: "basisObs \<Rightarrow> jsnum \<Rightarrow> bestSideDto" where
  "toBestSideDto row ratio = \<lparr> bd_ratio = ratio, bd_side = bo_side row, bd_sizeUsd = bo_sizeUsd row, bd_netBps = bo_netBps row,
     bd_basePriceUsd = bo_basePriceUsd row, bd_tokenPriceUsd = bo_tokenPriceUsd row, bd_observedAt = bo_observedAt row,
     bd_timeRegime = bo_timeRegime row, bd_quality = bo_quality row, bd_qualityStatus = bo_qualityStatus row,
     bd_qualityReason = bo_qualityReason row, bd_pythFreshnessLagMs = bo_pythFreshnessLagMs row,
     bd_pythConfidenceBps = bo_pythConfidenceBps row, bd_basisAgeMs = bo_basisAgeMs row,
     bd_displayBasisBps = db_basisBps (bo_basis row), bd_displayBasisInterpretation = db_interpretation (bo_basis row) \<rparr>"

definition better :: "bestKind \<Rightarrow> jsnum \<Rightarrow> jsnum \<Rightarrow> bool" where
  "better kind r best = (case kind of BestBuy \<Rightarrow> js_lt r best | BestSell \<Rightarrow> js_gt r best)"

definition row_ratio :: "basisObs \<Rightarrow> jsnum" where
  "row_ratio row = js_div (bo_tokenPriceUsd row) (bo_basePriceUsd row)"

definition best_step :: "bestKind \<Rightarrow> (basisObs \<Rightarrow> bool) \<Rightarrow> bestSideDto option \<Rightarrow> basisObs \<Rightarrow> bestSideDto option" where
  "best_step kind P best row =
    (if \<not> P row \<or> js_le (bo_basePriceUsd row) (Num 0) \<or> js_le (bo_tokenPriceUsd row) (Num 0) then best
     else case best of None \<Rightarrow> Some (toBestSideDto row (row_ratio row))
       | Some b \<Rightarrow> if better kind (row_ratio row) (bd_ratio b) then Some (toBestSideDto row (row_ratio row)) else best)"

definition pickBest :: "basisObs list \<Rightarrow> bestKind \<Rightarrow> (basisObs \<Rightarrow> bool) \<Rightarrow> bestSideDto option" where
  "pickBest rows kind P = foldl (best_step kind P) None rows"

definition pickBestLive :: "basisObs list \<Rightarrow> bestKind \<Rightarrow> bestSideDto option" where
  "pickBestLive rows kind = pickBest rows kind bo_live"

definition pickBestDiagnostic :: "basisObs list \<Rightarrow> bestKind \<Rightarrow> bestSideDto option" where
  "pickBestDiagnostic rows kind = pickBest rows kind (\<lambda>_. True)"

section \<open>Round trips (synchronized-spread.ts)\<close>

record bestSpreadDto =
  sd_spreadBps :: jsnum
  sd_sizeUsd :: jsnum
  sd_buyTokenPriceUsd :: jsnum
  sd_sellTokenPriceUsd :: jsnum
  sd_observedAt :: jsnum
  sd_synchronized :: bool
  sd_maxAgeGapMs :: jsnum

definition buildSpread :: "basisObs \<Rightarrow> basisObs \<Rightarrow> jsnum \<Rightarrow> bool \<Rightarrow> bestSpreadDto option" where
  "buildSpread buyRow sellRow ageGapMs sync =
    (let mid = js_div (js_add (bo_tokenPriceUsd buyRow) (bo_tokenPriceUsd sellRow)) (Num 2) in
     if js_le mid (Num 0) then None
     else Some \<lparr> sd_spreadBps = js_mul (js_div (js_sub (bo_tokenPriceUsd buyRow) (bo_tokenPriceUsd sellRow)) mid) (Num 10000),
       sd_sizeUsd = bo_sizeUsd buyRow, sd_buyTokenPriceUsd = bo_tokenPriceUsd buyRow, sd_sellTokenPriceUsd = bo_tokenPriceUsd sellRow,
       sd_observedAt = js_max (bo_observedAt buyRow) (bo_observedAt sellRow), sd_synchronized = sync, sd_maxAgeGapMs = ageGapMs \<rparr>)"

definition age_gap :: "basisObs \<Rightarrow> basisObs \<Rightarrow> jsnum" where
  "age_gap a b = js_abs (js_sub (bo_observedAt a) (bo_observedAt b))"

definition keep_narrower :: "bestSpreadDto option \<Rightarrow> bestSpreadDto option \<Rightarrow> bestSpreadDto option" where
  "keep_narrower best candidate = (case candidate of None \<Rightarrow> best
     | Some c \<Rightarrow> (case best of None \<Rightarrow> candidate
        | Some b \<Rightarrow> if js_lt (js_abs (sd_spreadBps c)) (js_abs (sd_spreadBps b)) then candidate else best))"

text \<open>One size of the loop, for the live and for the diagnostic selector.\<close>

definition sync_candidate :: "jsnum \<Rightarrow> (jsnum, basisObs) dict \<Rightarrow> jsnum \<times> basisObs \<Rightarrow> bestSpreadDto option" where
  "sync_candidate maxAgeGapMs sellBySize x = (case dict_get sellBySize (fst x) of None \<Rightarrow> None
     | Some sellRow \<Rightarrow>
        if \<not> bo_live (snd x) \<or> \<not> bo_live sellRow then None
        else let gap = age_gap (snd x) sellRow in
          if js_gt gap maxAgeGapMs then None else buildSpread (snd x) sellRow gap True)"

definition pickSynchronizedSpread :: "(jsnum, basisObs) dict \<Rightarrow> (jsnum, basisObs) dict \<Rightarrow> jsnum \<Rightarrow> bestSpreadDto option" where
  "pickSynchronizedSpread buyBySize sellBySize maxAgeGapMs =
     foldl (\<lambda>best x. keep_narrower best (sync_candidate maxAgeGapMs sellBySize x)) None buyBySize"

definition diagnostic_candidate :: "(jsnum, basisObs) dict \<Rightarrow> jsnum \<times> basisObs \<Rightarrow> bestSpreadDto option" where
  "diagnostic_candidate sellBySize x = (case dict_get sellBySize (fst x) of None \<Rightarrow> None
     | Some sellRow \<Rightarrow> buildSpread (snd x) sellRow (age_gap (snd x) sellRow) False)"

definition pickDiagnosticSpread :: "(jsnum, basisObs) dict \<Rightarrow> (jsnum, basisObs) dict \<Rightarrow> bestSpreadDto option" where
  "pickDiagnosticSpread buyBySize sellBySize =
     foldl (\<lambda>best x. keep_narrower best (diagnostic_candidate sellBySize x)) None buyBySize"


section \<open>The panel of a pair (panel.ts)\<close>

record pairBuckets =
  buyBySize :: "(jsnum, basisObs) dict"
  sellBySize :: "(jsnum, basisObs) dict"

definition empty_buckets :: pairBuckets where
  "empty_buckets = \<lparr> buyBySize = [], sellBySize = [] \<rparr>"

definition group_step :: "(string, pairBuckets) dict \<Rightarrow> basisObs \<Rightarrow> (string, pairBuckets) dict" where
  "group_step out b = (let cur = option_or (dict_get out (bo_pairId b)) empty_buckets in
     dict_set out (bo_pairId b)
       (if bo_side b = BuyTokenized then cur\<lparr> buyBySize := dict_set (buyBySize cur) (bo_sizeUsd b) b \<rparr>
        else cur\<lparr> sellBySize := dict_set (sellBySize cur) (bo_sizeUsd b) b \<rparr>))"

definition groupBasisByPair :: "basisObs list \<Rightarrow> (string, pairBuckets) dict" where
  "groupBasisByPair basis = foldl group_step [] basis"

record pairOrientation =
  or_pairClass :: pairClass
  or_displayLabel :: string
  or_referenceStatus :: referenceStatus

definition deriveOrientation :: "pairConfig \<Rightarrow> timeRegime option \<Rightarrow> jsnum option \<Rightarrow> jsnum option \<Rightarrow> pairOrientation" where
  "deriveOrientation pair regime lag maxLag = \<lparr> or_pairClass = inferPairClass pair, or_displayLabel = pairDisplayLabel pair,
     or_referenceStatus = referenceStatusFor (inferPairClass pair) regime lag maxLag \<rparr>"

record currentOpportunityDto =
  co_hasLiveOpportunity :: bool
  co_bestBuy :: "bestSideDto option"
  co_bestSell :: "bestSideDto option"
  co_roundTripSpread :: "bestSpreadDto option"
  co_quoteAgeMs :: "jsnum option"
  co_notExecutableReason :: "string option"

record panelCore =
  pn_orientation :: pairOrientation
  pn_currentOpportunity :: currentOpportunityDto
  pn_bestDiagnosticBuy :: "bestSideDto option"
  pn_bestDiagnosticSell :: "bestSideDto option"
  pn_bestBuy :: "bestSideDto option"
  pn_bestSell :: "bestSideDto option"
  pn_bestSpread :: "bestSpreadDto option"
  pn_quoteAgeMs :: "jsnum option"

definition MAX_SYNC_AGE_GAP_MS :: jsnum where "MAX_SYNC_AGE_GAP_MS = Num 30000"
definition EM_DASH :: string where "EM_DASH = [CHR 0xE2, CHR 0x80, CHR 0x94]"

text \<open>Math.min over the ages; of an empty array there is none.\<close>

definition minAgeMs :: "jsnum \<Rightarrow> jsnum list \<Rightarrow> jsnum option" where
  "minAgeMs nowMs instants = (case map (js_sub nowMs) instants of [] \<Rightarrow> None | a # rest \<Rightarrow> Some (foldl js_min a rest))"

fun or_else :: "'a option \<Rightarrow> 'a option \<Rightarrow> 'a option" where
  "or_else (Some x) _ = Some x"
| "or_else None y = y"

definition reasonForNoLiveRow :: "bestSideDto option \<Rightarrow> bestSideDto option \<Rightarrow> string" where
  "reasonForNoLiveRow diagnosticBuy diagnosticSell = (case or_else diagnosticBuy diagnosticSell of
     None \<Rightarrow> ''No quotes have been collected for this pair yet.''
   | Some row \<Rightarrow> (case bd_qualityStatus row of
       Some STALE_PYTH \<Rightarrow> ''Pyth reference is stale '' @ EM_DASH @ '' onchain quote remains, but no executable basis.''
     | Some STALE_BASIS \<Rightarrow> ''Basis observation is stale '' @ EM_DASH @ '' last quote landed too late to act on.''
     | Some QUOTE_LATENCY_TOO_HIGH \<Rightarrow> ''Jupiter quote latency exceeded the live-eligibility threshold.''
     | Some MARKET_SESSION_INVALID \<Rightarrow> ''Off-session for the underlying reference '' @ EM_DASH @ '' closed-market basis only.''
     | Some PRICE_IMPACT_TOO_HIGH \<Rightarrow> ''Last quote'' @ [CHR 0x27] @ ''s price impact exceeded the live-eligibility threshold.''
     | Some PYTH_CONFIDENCE_TOO_WIDE \<Rightarrow> ''Pyth confidence band is wider than the live-eligibility threshold.''
     | Some UNKNOWN_ROUTER \<Rightarrow> ''Jupiter returned an unknown router; awaiting allowlist before flagging live.''
     | Some ROUTE_UNSTABLE \<Rightarrow> ''Route is currently unstable; the live opportunity slot is gated.''
     | Some MISSING_EXIT_QUOTE \<Rightarrow> ''Opposite-side exit quote is missing '' @ EM_DASH @ '' no synchronized round-trip.''
     | Some DECIMALS_UNVERIFIED \<Rightarrow> ''Token mint decimals have not been verified on-chain.''
     | _ \<Rightarrow> ''No live-eligible quote in the latest window.''))"

definition buildPanelCore :: "pairConfig \<Rightarrow> pairBuckets \<Rightarrow> jsnum \<Rightarrow> jsnum option \<Rightarrow> panelCore" where
  "buildPanelCore pair buckets nowMs maxPythFreshnessLagMs =
    (let buys = map snd (buyBySize buckets); sells = map snd (sellBySize buckets);
         liveBuy = pickBestLive buys BestBuy; liveSell = pickBestLive sells BestSell;
         diagnosticBuy = pickBestDiagnostic buys BestBuy; diagnosticSell = pickBestDiagnostic sells BestSell;
         liveSpread = pickSynchronizedSpread (buyBySize buckets) (sellBySize buckets) MAX_SYNC_AGE_GAP_MS;
         diagnosticSpread = pickDiagnosticSpread (buyBySize buckets) (sellBySize buckets);
         quoteAgeMs = minAgeMs nowMs (List.map_filter (map_option bd_observedAt) [liveBuy, liveSell]);
         orientation = deriveOrientation pair
           (or_else (Option.bind liveBuy bd_timeRegime)
             (or_else (Option.bind liveSell bd_timeRegime) (Option.bind diagnosticBuy bd_timeRegime)))
           (or_else (Option.bind liveBuy bd_pythFreshnessLagMs)
             (or_else (Option.bind liveSell bd_pythFreshnessLagMs) (Option.bind diagnosticBuy bd_pythFreshnessLagMs)))
           maxPythFreshnessLagMs;
         hasLive = liveBuy \<noteq> None \<or> liveSell \<noteq> None
     in \<lparr> pn_orientation = orientation,
          pn_currentOpportunity = \<lparr> co_hasLiveOpportunity = hasLive, co_bestBuy = liveBuy, co_bestSell = liveSell,
            co_roundTripSpread = liveSpread, co_quoteAgeMs = quoteAgeMs,
            co_notExecutableReason = (if hasLive then None else Some (reasonForNoLiveRow diagnosticBuy diagnosticSell)) \<rparr>,
          pn_bestDiagnosticBuy = diagnosticBuy, pn_bestDiagnosticSell = diagnosticSell,
          pn_bestBuy = diagnosticBuy, pn_bestSell = diagnosticSell,
          pn_bestSpread = or_else liveSpread diagnosticSpread, pn_quoteAgeMs = quoteAgeMs \<rparr>)"

section \<open>The series of the detail page (quote-surface.ts)\<close>

record quoteSurfaceRowDto =
  qf_side :: pairDirection
  qf_sizeUsd :: jsnum
  qf_basePriceUsd :: jsnum
  qf_tokenPriceUsd :: jsnum
  qf_grossBps :: jsnum
  qf_netBps :: jsnum
  qf_observedAt :: jsnum
  qf_timeRegime :: "timeRegime option"
  qf_quality :: observationQuality
  qf_qualityStatus :: quoteQualityStatus
  qf_qualityReason :: string
  qf_pythFreshnessLagMs :: "jsnum option"
  qf_pythConfidenceBps :: "jsnum option"
  qf_quoteRequestMs :: "jsnum option"
  qf_basisAgeMs :: "jsnum option"
  qf_displayBasisBps :: "jsnum option"
  qf_displayBasisInterpretation :: "displayBasisInterpretation option"

text \<open>The comparator a.sizeUsd - b.sizeUsd || a.side.localeCompare(b.side): a difference of 0 or NaN is falsy.\<close>

definition surface_gt :: "(string \<Rightarrow> string \<Rightarrow> int) \<Rightarrow> basisObs \<Rightarrow> basisObs \<Rightarrow> bool" where
  "surface_gt lc a b = (let d = js_sub (bo_sizeUsd a) (bo_sizeUsd b) in
     if d = NaN \<or> js_eq d (Num 0) then 0 < lc (direction_name (bo_side a)) (direction_name (bo_side b)) else js_lt (Num 0) d)"

definition surface_row :: "basisObs \<Rightarrow> quoteSurfaceRowDto" where
  "surface_row b = \<lparr> qf_side = bo_side b, qf_sizeUsd = bo_sizeUsd b, qf_basePriceUsd = bo_basePriceUsd b,
     qf_tokenPriceUsd = bo_tokenPriceUsd b, qf_grossBps = bo_grossBps b, qf_netBps = bo_netBps b,
     qf_observedAt = bo_observedAt b, qf_timeRegime = bo_timeRegime b, qf_quality = option_or (bo_quality b) QLive,
     qf_qualityStatus = option_or (bo_qualityStatus b) LIVE_ELIGIBLE,
     qf_qualityReason = option_or (bo_qualityReason b) ''legacy row before quality gate'',
     qf_pythFreshnessLagMs = bo_pythFreshnessLagMs b, qf_pythConfidenceBps = bo_pythConfidenceBps b,
     qf_quoteRequestMs = bo_quoteRequestMs b, qf_basisAgeMs = bo_basisAgeMs b,
     qf_displayBasisBps = db_basisBps (bo_basis b), qf_displayBasisInterpretation = db_interpretation (bo_basis b) \<rparr>"

definition toQuoteSurface :: "(string \<Rightarrow> string \<Rightarrow> int) \<Rightarrow> basisObs list \<Rightarrow> quoteSurfaceRowDto list" where
  "toQuoteSurface lc rows = map surface_row (js_sort (surface_gt lc) rows)"

record basisSeriesPointDto =
  sp_side :: pairDirection
  sp_sizeUsd :: jsnum
  sp_netBps :: jsnum
  sp_tokenPriceUsd :: jsnum
  sp_quality :: observationQuality
  sp_qualityStatus :: quoteQualityStatus
  sp_timeRegime :: "timeRegime option"
  sp_observedAt :: jsnum
  sp_displayBasisBps :: "jsnum option"

definition toBasisSeriesPoint :: "basisObs \<Rightarrow> basisSeriesPointDto" where
  "toBasisSeriesPoint b = \<lparr> sp_side = bo_side b, sp_sizeUsd = bo_sizeUsd b, sp_netBps = bo_netBps b,
     sp_tokenPriceUsd = bo_tokenPriceUsd b, sp_quality = option_or (bo_quality b) QLive,
     sp_qualityStatus = option_or (bo_qualityStatus b) LIVE_ELIGIBLE, sp_timeRegime = bo_timeRegime b,
     sp_observedAt = bo_observedAt b, sp_displayBasisBps = db_basisBps (bo_basis b) \<rparr>"

definition toQualityDistribution :: "qualityShare list \<Rightarrow> qualityShare list" where
  "toQualityDistribution rows = map (\<lambda>row. \<lparr> qs_qualityStatus = qs_qualityStatus row,
     qs_observationCount = qs_observationCount row, qs_observationPct = qs_observationPct row \<rparr>) rows"

record timeRegimeSummaryRow =
  tg_timeRegime :: timeRegime
  tg_observationCount :: nat
  tg_liveCount :: nat
  tg_livePct :: jsnum
  tg_avgGrossBps :: "jsnum option"
  tg_avgNetBps :: "jsnum option"
  tg_maxNetBps :: "jsnum option"
  tg_minNetBps :: "jsnum option"
  tg_buyCount :: nat
  tg_sellCount :: nat
  tg_avgQuoteRequestMs :: "jsnum option"
  tg_avgPythFreshnessLagMs :: "jsnum option"
  tg_avgBasisAgeMs :: "jsnum option"

fun regimesForAssetClass :: "assetClass \<Rightarrow> timeRegime list" where
  "regimesForAssetClass Equity = [US_EQUITY_REGULAR, US_EQUITY_PREMARKET, US_EQUITY_POSTMARKET, US_EQUITY_OVERNIGHT, US_EQUITY_WEEKEND]"
| "regimesForAssetClass Metal = [METAL_ACTIVE, METAL_MAINTENANCE, METAL_WEEKEND]"
| "regimesForAssetClass Crypto = [CRYPTO_NORMAL, CRYPTO_HIGH_VOL]"
| "regimesForAssetClass _ = []"

definition zero_regime :: "timeRegime \<Rightarrow> timeRegimeSummaryRow" where
  "zero_regime r = \<lparr> tg_timeRegime = r, tg_observationCount = 0, tg_liveCount = 0, tg_livePct = Num 0, tg_avgGrossBps = None,
     tg_avgNetBps = None, tg_maxNetBps = None, tg_minNetBps = None, tg_buyCount = 0, tg_sellCount = 0,
     tg_avgQuoteRequestMs = None, tg_avgPythFreshnessLagMs = None, tg_avgBasisAgeMs = None \<rparr>"

definition toTimeRegimeSummary :: "assetClass \<Rightarrow> timeRegimeSummaryRow list \<Rightarrow> timeRegimeSummaryRow list" where
  "toTimeRegimeSummary assetClass rows =
    (let byRegime = foldl (\<lambda>d row. dict_set d (tg_timeRegime row) row) [] rows in
     map (\<lambda>r. option_or (dict_get byRegime r) (zero_regime r)) (regimesForAssetClass assetClass))"

text \<open>rows[Math.floor(i * step)]; the step is rounded.\<close>

fun array_index :: "jsnum \<Rightarrow> nat option" where
  "array_index (Num q) = (if 0 \<le> q \<and> q = of_int \<lfloor>q\<rfloor> then Some (nat \<lfloor>q\<rfloor>) else None)"
| "array_index _ = None"

definition sample_index :: "nat \<Rightarrow> nat \<Rightarrow> nat \<Rightarrow> nat option" where
  "sample_index len limit i = array_index (js_floor (js_mul (js_count i) (js_div (js_count len) (js_count limit))))"

definition downsample :: "'a list \<Rightarrow> nat \<Rightarrow> 'a option list" where
  "downsample rows limit = (if length rows \<le> limit then map Some rows
     else map (\<lambda>i. Option.bind (sample_index (length rows) limit i) (nth_opt rows)) [0..<limit])"


section \<open>Token validation and the two verdicts (verdict.ts, lite-verdict.ts)\<close>

definition deriveTokenValidation :: "pairConfig \<Rightarrow> tokenValidationSnapshot" where
  "deriveTokenValidation pair =
    (let d = pc_tokDecimals pair;
         decimalsValid = is_integer d \<and> js_ge d (Num 0) \<and> js_le d (Num 18) \<and> js_eq (pc_quoteDecimals pair) (Num 6)
     in if \<not> decimalsValid then
          \<lparr> tk_status = REJECTED, tk_mint = pc_tokMint pair, tk_decimals = d, tk_tokenProgram = None,
            tk_reason = ''Configured decimals are out of range '' @ EM_DASH @ '' token mint cannot be safely quoted.'' \<rparr>
        else \<lparr> tk_status = DECIMALS_CONFIG_ONLY, tk_mint = pc_tokMint pair, tk_decimals = d, tk_tokenProgram = None,
            tk_reason = ''Decimals match config but mint account has not been fetched on-chain (Solana RPC integration pending).'' \<rparr>)"

definition buildVerdictFor :: "pairConfig \<Rightarrow> pairReadinessMatrix \<Rightarrow> qualityShare list \<Rightarrow> holdHorizonReplayRow list \<Rightarrow>
    pairStatSummary list \<Rightarrow> routeStabilitySummary \<Rightarrow> jsnum \<Rightarrow> pairResearchVerdict \<times> tokenValidationSnapshot" where
  "buildVerdictFor pair readiness distribution replay stats route cleanWindowMs =
    (let tokenValidation = deriveTokenValidation pair in
     (buildResearchVerdict \<lparr> vi_pair = pair, vi_pairReadiness = readiness, vi_qualityDistribution = distribution,
        vi_holdHorizonReplay = replay, vi_statSummary = stats, vi_routeStability = route, vi_tokenValidation = tokenValidation,
        vi_costScenarioName = ''BASE'', vi_cleanWindowMs = cleanWindowMs, vi_minCleanSamples = None,
        vi_candidateMinClosedTrades = None, vi_candidateMinPositiveHorizons = None \<rparr>, tokenValidation))"

definition primaryBlockerSummary :: "pairResearchVerdict \<Rightarrow> string option" where
  "primaryBlockerSummary v = map_option vr_detail (first_of (vd_blockers v))"

definition liveEligibleCount :: "qualityShare list \<Rightarrow> nat" where
  "liveEligibleCount distribution =
     (case first_of (filter (\<lambda>r. qs_qualityStatus r = LIVE_ELIGIBLE) distribution) of Some r \<Rightarrow> qs_observationCount r | None \<Rightarrow> 0)"

definition LITE_MIN_CLEAN_SAMPLES :: jsnum where "LITE_MIN_CLEAN_SAMPLES = Num 200"

definition lite_mint :: "tokenValidationSnapshot \<Rightarrow> pairResearchVerdictReason list \<times> pairResearchVerdictReason list" where
  "lite_mint t = (case tk_status t of
     REJECTED \<Rightarrow> ([mk_reason ''TOKEN_MINT_REJECTED'' (tk_reason t)], [])
   | VERIFIED_ONCHAIN \<Rightarrow> ([], [mk_reason ''TOKEN_MINT_VERIFIED'' (''mint verified on-chain (decimals '' @ show_num (tk_decimals t) @ '')'')])
   | _ \<Rightarrow> ([mk_reason ''TOKEN_MINT_UNVERIFIED'' (tk_reason t)], []))"

definition buildLiteVerdict :: "pairConfig \<Rightarrow> qualityShare list \<Rightarrow> tokenValidationSnapshot \<Rightarrow> bool \<Rightarrow> jsnum option \<Rightarrow> jsnum \<Rightarrow>
    pairResearchVerdict" where
  "buildLiteVerdict pair distribution t hasEdge minClean cleanWindowMs =
    (let need = option_or minClean LITE_MIN_CLEAN_SAMPLES; clean = liveEligibleCount distribution;
         blockers = fst (lite_mint t) @
           (if clean = 0 then [mk_reason ''NO_LIVE_SAMPLES'' ''no live-eligible observations in the window''] else []);
         verdict = (\<lambda>status confidence summary nextAction. \<lparr> vd_status = status, vd_confidence = confidence, vd_summary = summary,
           vd_blockers = blockers, vd_positives = snd (lite_mint t), vd_cleanSampleCount = clean, vd_cleanWindowMs = cleanWindowMs,
           vd_costScenarioName = ''BASE'', vd_recommendedNextAction = nextAction \<rparr>)
     in if \<exists>b \<in> set blockers. vr_code b = ''TOKEN_MINT_REJECTED'' then
          verdict V_NOT_READY HIGH (option_or (map_option vr_detail (first_of blockers)) [])
            ''Replace the tokenized mint or document the exception before re-enabling.''
        else if clean = 0 then
          verdict V_NOT_READY LOW (''No live-eligible quotes yet '' @ EM_DASH @ '' confirm feeds and routes.'')
            ''Verify Pyth + Jupiter reachability for this pair.''
        else if js_lt (js_count clean) need then
          verdict COLLECT_MORE LOW (show_num (js_count clean) @ '' live-eligible samples (need '' @ show_num need @ '').'')
            ''Keep streaming; recheck in 24h.''
        else if \<not> hasEdge then
          verdict NO_EDGE MEDIUM (''No live row clears the '' @ show_num (pc_minNetEdgeBps pair) @ '' bps net-edge threshold '' @ EM_DASH @
              '' the latest ratios are sitting inside the natural Jupiter bid/ask spread.'')
            ''Wait for a dislocation past the spread; consider widening size ladders if liquidity allows.''
        else verdict PAPER_EDGE LOW (''At least one live row clears the net-edge threshold '' @ EM_DASH @
              '' open pair detail for replay + route confirmation.'')
            ''Open pair detail for hold-horizon, stat, and route evidence.'')"

section \<open>Choosing the best of a list\<close>

definition keep_best :: "('a \<Rightarrow> 'a \<Rightarrow> bool) \<Rightarrow> 'a option \<Rightarrow> 'a option \<Rightarrow> 'a option" where
  "keep_best beats best candidate = (case candidate of None \<Rightarrow> best
     | Some c \<Rightarrow> (case best of None \<Rightarrow> candidate | Some b \<Rightarrow> if beats c b then candidate else best))"

lemma keep_best_simps [simp]:
  "keep_best beats best None = best" "keep_best beats None (Some c) = Some c"
  "keep_best beats (Some b) (Some c) = Some (if beats c b then c else b)"
  by (simp_all add: keep_best_def)

context comparator
begin

text \<open>The kept element is a candidate, and no candidate beats it.\<close>

lemma keep_fold:
  assumes "\<forall>x \<in> set xs. \<forall>c. cand x = Some c \<longrightarrow> ok c"
  shows "case foldl (\<lambda>best x. keep_best gt best (cand x)) None xs of
      None \<Rightarrow> \<forall>x \<in> set xs. cand x = None
    | Some d \<Rightarrow> (\<exists>x \<in> set xs. cand x = Some d) \<and> (\<forall>x \<in> set xs. \<forall>c. cand x = Some c \<longrightarrow> \<not> gt c d)"
  using assms
proof (induction xs rule: rev_induct)
  case (snoc y ys)
  let ?best = "foldl (\<lambda>best x. keep_best gt best (cand x)) None ys"
  from snoc have IH: "case ?best of None \<Rightarrow> \<forall>x \<in> set ys. cand x = None
      | Some d \<Rightarrow> (\<exists>x \<in> set ys. cand x = Some d) \<and> (\<forall>x \<in> set ys. \<forall>c. cand x = Some c \<longrightarrow> \<not> gt c d)" by simp
  have refl: "ok c \<Longrightarrow> \<not> gt c c" for c using gt_asym by blast
  show ?case
  proof (cases "cand y")
    case None
    then show ?thesis using IH by (auto split: option.splits)
  next
    case (Some c)
    then have c: "ok c" using snoc.prems by simp
    show ?thesis
    proof (cases ?best)
      case None
      then show ?thesis using IH Some refl [OF c] by auto
    next
      case (Some b)
      with IH obtain x where x: "x \<in> set ys" "cand x = Some b"
        and all: "\<forall>x \<in> set ys. \<forall>c. cand x = Some c \<longrightarrow> \<not> gt c b" by auto
      have b: "ok b" using x snoc.prems by simp
      show ?thesis
      proof (cases "gt c b")
        case True
        have "\<not> gt e c" if "z \<in> set ys" "cand z = Some e" for z e
          using gt_neg_trans [of e b c] gt_asym [OF c b True] all that b c snoc.prems True
          by (metis Un_iff gt_asym gt_neg_trans set_append)
        then show ?thesis using \<open>cand y = Some c\<close> Some True refl [OF c] by auto
      next
        case False
        then show ?thesis using \<open>cand y = Some c\<close> Some x all by auto
      qed
    qed
  qed
qed simp

end

definition ratio_beats :: "bestKind \<Rightarrow> bestSideDto \<Rightarrow> bestSideDto \<Rightarrow> bool" where
  "ratio_beats kind c b = better kind (bd_ratio c) (bd_ratio b)"

definition narrower :: "bestSpreadDto \<Rightarrow> bestSpreadDto \<Rightarrow> bool" where
  "narrower c b = js_lt (js_abs (sd_spreadBps c)) (js_abs (sd_spreadBps b))"

interpretation by_ratio: comparator "ratio_beats kind" "\<lambda>d. bd_ratio d \<noteq> NaN" for kind :: bestKind
proof unfold_locales
  fix x y assume "bd_ratio x \<noteq> NaN" "bd_ratio y \<noteq> NaN" "ratio_beats kind x y"
  then show "\<not> ratio_beats kind y x"
    by (cases kind; cases "bd_ratio x"; cases "bd_ratio y") (auto simp add: ratio_beats_def better_def)
next
  fix x y z assume "bd_ratio x \<noteq> NaN" "bd_ratio y \<noteq> NaN" "bd_ratio z \<noteq> NaN" "\<not> ratio_beats kind x y" "\<not> ratio_beats kind y z"
  then show "\<not> ratio_beats kind x z"
    by (cases kind; cases "bd_ratio x"; cases "bd_ratio y"; cases "bd_ratio z") (auto simp add: ratio_beats_def better_def)
qed

interpretation by_width: comparator narrower "\<lambda>s. sd_spreadBps s \<noteq> NaN"
proof unfold_locales
  fix x y assume "sd_spreadBps x \<noteq> NaN" "sd_spreadBps y \<noteq> NaN" "narrower x y"
  then show "\<not> narrower y x"
    by (cases "sd_spreadBps x"; cases "sd_spreadBps y") (auto simp add: narrower_def)
next
  fix x y z assume "sd_spreadBps x \<noteq> NaN" "sd_spreadBps y \<noteq> NaN" "sd_spreadBps z \<noteq> NaN" "\<not> narrower x y" "\<not> narrower y z"
  then show "\<not> narrower x z"
    by (cases "sd_spreadBps x"; cases "sd_spreadBps y"; cases "sd_spreadBps z") (auto simp add: narrower_def)
qed

definition side_candidate :: "(basisObs \<Rightarrow> bool) \<Rightarrow> basisObs \<Rightarrow> bestSideDto option" where
  "side_candidate P row = (if \<not> P row \<or> js_le (bo_basePriceUsd row) (Num 0) \<or> js_le (bo_tokenPriceUsd row) (Num 0) then None
     else Some (toBestSideDto row (row_ratio row)))"

lemma toBestSideDto_ratio [simp]: "bd_ratio (toBestSideDto row r) = r"
  by (simp add: toBestSideDto_def)

lemma best_step_keep: "best_step kind P = (\<lambda>best row. keep_best (ratio_beats kind) best (side_candidate P row))"
  by (intro ext) (simp add: best_step_def side_candidate_def keep_best_def ratio_beats_def split: option.splits)

lemma keep_narrower_keep: "keep_narrower = keep_best narrower"
  by (intro ext) (simp add: keep_narrower_def keep_best_def narrower_def split: option.splits)

text \<open>A row that can be shown: finite prices above zero.\<close>

definition priced :: "basisObs \<Rightarrow> bool" where
  "priced row \<longleftrightarrow> js_gt (bo_basePriceUsd row) (Num 0) \<and> js_gt (bo_tokenPriceUsd row) (Num 0)"

definition finite_prices :: "basisObs \<Rightarrow> bool" where
  "finite_prices row \<longleftrightarrow> is_finite (bo_basePriceUsd row) \<and> is_finite (bo_tokenPriceUsd row)"

lemma side_candidate_iff:
  "finite_prices row \<Longrightarrow> side_candidate P row = (if P row \<and> priced row then Some (toBestSideDto row (row_ratio row)) else None)"
  by (cases "bo_basePriceUsd row"; cases "bo_tokenPriceUsd row")
    (auto simp add: side_candidate_def priced_def finite_prices_def)

lemma row_ratio_num: "finite_prices row \<Longrightarrow> priced row \<Longrightarrow> row_ratio row \<noteq> NaN"
  by (cases "bo_basePriceUsd row"; cases "bo_tokenPriceUsd row")
    (auto simp add: row_ratio_def priced_def finite_prices_def)

lemma pickBest_best:
  assumes "\<forall>row \<in> set rows. finite_prices row"
  shows "case pickBest rows kind P of
      None \<Rightarrow> \<forall>row \<in> set rows. \<not> (P row \<and> priced row)
    | Some d \<Rightarrow> (\<exists>row \<in> set rows. P row \<and> priced row \<and> d = toBestSideDto row (row_ratio row)) \<and>
        (\<forall>row \<in> set rows. P row \<and> priced row \<longrightarrow> \<not> better kind (row_ratio row) (bd_ratio d))"
proof -
  have "\<forall>row \<in> set rows. \<forall>c. side_candidate P row = Some c \<longrightarrow> bd_ratio c \<noteq> NaN"
    using assms row_ratio_num by (auto simp add: side_candidate_iff split: if_splits)
  note f = by_ratio.keep_fold [of rows "side_candidate P" kind, OF this]
  have c: "side_candidate P row = (if P row \<and> priced row then Some (toBestSideDto row (row_ratio row)) else None)"
    if "row \<in> set rows" for row using assms that by (simp add: side_candidate_iff)
  show ?thesis
  proof (cases "pickBest rows kind P")
    case None
    then have "\<forall>row \<in> set rows. side_candidate P row = None" using f by (simp add: pickBest_def best_step_keep)
    then show ?thesis using None c by (auto split: if_splits)
  next
    case (Some d)
    then have "(\<exists>x \<in> set rows. side_candidate P x = Some d)"
      and n: "\<forall>x \<in> set rows. \<forall>c. side_candidate P x = Some c \<longrightarrow> \<not> ratio_beats kind c d"
      using f by (simp_all add: pickBest_def best_step_keep)
    then obtain x where x: "x \<in> set rows" "side_candidate P x = Some d" by blast
    have "P x \<and> priced x \<and> d = toBestSideDto x (row_ratio x)" using c [OF x(1)] x(2) by (auto split: if_splits)
    moreover have "\<not> better kind (row_ratio row) (bd_ratio d)" if "row \<in> set rows" "P row" "priced row" for row
      using n c [OF that(1)] that by (auto simp add: ratio_beats_def)
    ultimately show ?thesis using Some x(1) by auto
  qed
qed

section \<open>What the panel promises\<close>

lemma dict_get_fold_set:
  "dict_get (foldl (\<lambda>d x. dict_set d (f x) x) d0 xs) k =
     (case filter (\<lambda>x. f x = k) xs of [] \<Rightarrow> dict_get d0 k | _ \<Rightarrow> Some (last (filter (\<lambda>x. f x = k) xs)))"
proof (induction xs rule: rev_induct)
  case (snoc x xs)
  then show ?case by (cases "filter (\<lambda>x. f x = k) xs") (auto simp add: dict_laws)
qed simp

lemma panel_slots:
  "co_bestBuy (pn_currentOpportunity (buildPanelCore pair b nowMs lag)) = pickBestLive (map snd (buyBySize b)) BestBuy"
  "co_bestSell (pn_currentOpportunity (buildPanelCore pair b nowMs lag)) = pickBestLive (map snd (sellBySize b)) BestSell"
  "co_roundTripSpread (pn_currentOpportunity (buildPanelCore pair b nowMs lag)) =
     pickSynchronizedSpread (buyBySize b) (sellBySize b) MAX_SYNC_AGE_GAP_MS"
  "co_hasLiveOpportunity (pn_currentOpportunity (buildPanelCore pair b nowMs lag)) \<longleftrightarrow>
     pickBestLive (map snd (buyBySize b)) BestBuy \<noteq> None \<or> pickBestLive (map snd (sellBySize b)) BestSell \<noteq> None"
  "co_notExecutableReason (pn_currentOpportunity (buildPanelCore pair b nowMs lag)) = None \<longleftrightarrow>
     co_hasLiveOpportunity (pn_currentOpportunity (buildPanelCore pair b nowMs lag))"
  by (simp_all add: buildPanelCore_def Let_def)

definition shown_buy :: "basisObs list \<Rightarrow> bestSideDto option \<Rightarrow> bool" where
  "shown_buy rows slot = (case slot of
      None \<Rightarrow> \<forall>row \<in> set rows. \<not> (bo_live row \<and> priced row)
    | Some d \<Rightarrow> (\<exists>row \<in> set rows. bo_live row \<and> priced row \<and> d = toBestSideDto row (row_ratio row)) \<and>
        (\<forall>row \<in> set rows. bo_live row \<and> priced row \<longrightarrow> \<not> js_lt (row_ratio row) (bd_ratio d)))"

definition shown_sell :: "basisObs list \<Rightarrow> bestSideDto option \<Rightarrow> bool" where
  "shown_sell rows slot = (case slot of
      None \<Rightarrow> \<forall>row \<in> set rows. \<not> (bo_live row \<and> priced row)
    | Some d \<Rightarrow> (\<exists>row \<in> set rows. bo_live row \<and> priced row \<and> d = toBestSideDto row (row_ratio row)) \<and>
        (\<forall>row \<in> set rows. bo_live row \<and> priced row \<longrightarrow> \<not> js_gt (row_ratio row) (bd_ratio d)))"

lemma better_simps: "better BestBuy r best = js_lt r best" "better BestSell r best = js_gt r best"
  by (simp_all add: better_def)

lemma pickBestLive_shown:
  assumes "\<forall>row \<in> set rows. finite_prices row"
  shows "shown_buy rows (pickBestLive rows BestBuy)" "shown_sell rows (pickBestLive rows BestSell)"
  using pickBest_best [OF assms, where kind = BestBuy and P = bo_live] pickBest_best [OF assms, where kind = BestSell and P = bo_live]
  unfolding shown_buy_def shown_sell_def pickBestLive_def better_simps by simp_all

text \<open>
  The current opportunity of a panel: its buy slot is a live row of the buy bucket with positive prices and the
  lowest ratio of token to base price, its sell slot one of the sell bucket with the highest; a slot is empty
  only when the bucket has no such row, and a reason for no opportunity is given exactly when both are empty.
\<close>

theorem live_slots:
  fixes b :: pairBuckets and pair :: pairConfig and nowMs :: jsnum and lag :: "jsnum option"
  assumes "\<forall>row \<in> set (map snd (buyBySize b)) \<union> set (map snd (sellBySize b)). finite_prices row"
  defines "co \<equiv> pn_currentOpportunity (buildPanelCore pair b nowMs lag)"
  shows "shown_buy (map snd (buyBySize b)) (co_bestBuy co) \<and> shown_sell (map snd (sellBySize b)) (co_bestSell co) \<and>
    (co_notExecutableReason co = None \<longleftrightarrow> co_bestBuy co \<noteq> None \<or> co_bestSell co \<noteq> None)"
  using assms(1) pickBestLive_shown unfolding co_def panel_slots(5) by (simp add: panel_slots)

definition demo_obs :: "pairDirection \<Rightarrow> rat \<Rightarrow> quoteQualityStatus \<Rightarrow> rat \<Rightarrow> basisObs" where
  "demo_obs side price status seenAt = \<lparr> bo_id = 1, bo_pairId = ''p'', bo_side = side, bo_sizeUsd = Num 250, bo_basePriceUsd = Num 100,
     bo_tokenPriceUsd = Num price, bo_grossBps = Num 0, bo_netBps = Num 60, bo_tickId = None, bo_quoteId = None,
     bo_pythStreamTimestampUs = None, bo_pythFeedUpdateTimestampUs = None, bo_pythFreshnessLagMs = None,
     bo_pythConfidenceBps = None, bo_pythMarketSession = None, bo_quoteRequestStartedAt = None, bo_quoteResponseAt = None,
     bo_quoteRequestMs = None, bo_basisAgeMs = None, bo_quality = Some QLive, bo_qualityStatus = Some status,
     bo_qualityReason = None, bo_timeRegime = None, bo_observedAt = Num seenAt \<rparr>"

theorem live_slots_witness:
  "let b = \<lparr> buyBySize = [(Num 250, demo_obs BuyTokenized 50 STALE_PYTH 0), (Num 1000, demo_obs BuyTokenized 200 LIVE_ELIGIBLE 5)],
             sellBySize = [(Num 250, demo_obs SellTokenized 150 UNKNOWN_ROUTER 0)] \<rparr>;
       co = pn_currentOpportunity (buildPanelCore demo_pair b (Num 9) None)
   in shown_buy (map snd (buyBySize b)) (co_bestBuy co) \<and> map_option bd_ratio (co_bestBuy co) = Some (Num 2) \<and>
      co_bestSell co = None \<and> co_notExecutableReason co = None"
proof -
  let ?b = "\<lparr> buyBySize = [(Num 250, demo_obs BuyTokenized 50 STALE_PYTH 0), (Num 1000, demo_obs BuyTokenized 200 LIVE_ELIGIBLE 5)],
             sellBySize = [(Num 250, demo_obs SellTokenized 150 UNKNOWN_ROUTER 0)] \<rparr>"
  let ?co = "pn_currentOpportunity (buildPanelCore demo_pair ?b (Num 9) None)"
  have s: "co_bestBuy ?co = Some (toBestSideDto (demo_obs BuyTokenized 200 LIVE_ELIGIBLE 5) (Num 2))" "co_bestSell ?co = None"
    by (simp_all add: panel_slots pickBestLive_def pickBest_def best_step_def bo_live_def demo_obs_def row_ratio_def js_eval)
  show ?thesis using live_slots [of ?b demo_pair "Num 9" None] s
    by (simp add: finite_prices_def demo_obs_def Let_def)
qed

section \<open>The round trip\<close>

lemma foldl_keep_narrower:
  "foldl (\<lambda>best x. keep_narrower best (cand x)) None xs = Some s \<Longrightarrow> \<exists>x \<in> set xs. cand x = Some s"
proof (induction xs arbitrary: s rule: rev_induct)
  case (snoc x xs)
  then show ?case by (auto simp add: keep_narrower_def split: option.splits if_splits)
qed simp

lemma sync_candidate_Some:
  "sync_candidate g sells x = Some s \<longleftrightarrow> (\<exists>sellRow. dict_get sells (fst x) = Some sellRow \<and> bo_live (snd x) \<and> bo_live sellRow \<and>
     \<not> js_gt (age_gap (snd x) sellRow) g \<and> buildSpread (snd x) sellRow (age_gap (snd x) sellRow) True = Some s)"
  by (auto simp add: sync_candidate_def Let_def split: option.splits if_splits)

section \<open>Sampling a series\<close>

text \<open>The rounded position of sample i is within a small distance of i times the exact step.\<close>

lemma sample_position:
  assumes L: "0 < L" "L < n" "n \<le> 2 ^ 20" and i: "i < L"
  obtains r where "js_mul (js_count i) (js_div (js_count n) (js_count L)) = Num r"
    "\<bar>r - of_nat i * (of_nat n / of_nat L)\<bar> \<le> 1 / 2 ^ 30"
proof -
  define x :: rat where "x = of_nat n / of_nat L"
  have n: "(of_nat n :: rat) \<le> 2 ^ 20" using L(3) by (metis of_nat_le_iff of_nat_numeral of_nat_power)
  have "1 \<le> (of_nat L :: rat)" using L(1) by (metis One_nat_def Suc_leI of_nat_1 of_nat_le_iff)
  then have "of_nat n * 1 \<le> of_nat n * (of_nat L :: rat)" by (intro mult_left_mono) simp_all
  then have "x \<le> of_nat n" using L(1) by (simp add: x_def divide_le_eq)
  then have x: "0 \<le> x" "x \<le> 2 ^ 20" using n by (simp_all add: x_def)
  have xi: "of_nat i * x \<le> 2 ^ 20"
  proof -
    have "of_nat i * x \<le> of_nat L * x" using i x by (intro mult_right_mono) simp_all
    also have "\<dots> = of_nat n" using L(1) by (simp add: x_def)
    finally show ?thesis using n by simp
  qed
  have "(of_nat i :: rat) \<le> of_nat n" using i L by simp
  then have ii: "0 \<le> (of_nat i :: rat)" "(of_nat i :: rat) \<le> 2 ^ 20" using n by simp_all
  have "\<bar>x\<bar> \<le> 2 ^ 80" using x by simp
  then obtain s where s: "fl x = Num s" "\<bar>s - x\<bar> \<le> \<bar>x\<bar> / 2 ^ 53 + tiny" by (rule fl_near)
  have e: "\<bar>s - x\<bar> \<le> x / 2 ^ 53 + tiny" using s(2) x by simp
  have "\<bar>of_nat i * s - of_nat i * x\<bar> = of_nat i * \<bar>s - x\<bar>" using ii
    by (simp add: abs_mult right_diff_distrib [symmetric])
  also have "\<dots> \<le> of_nat i * (x / 2 ^ 53 + tiny)" using e ii by (intro mult_left_mono)
  also have "\<dots> = of_nat i * x / 2 ^ 53 + of_nat i * tiny" by (simp add: algebra_simps)
  also have "\<dots> \<le> 2 ^ 20 / 2 ^ 53 + 2 ^ 20 * tiny"
    using xi ii tiny_pos by (intro add_mono divide_right_mono mult_right_mono) simp_all
  finally have y: "\<bar>of_nat i * s - of_nat i * x\<bar> \<le> 1 / 2 ^ 32" by (simp add: tiny_def)
  have b: "\<bar>of_nat i * s\<bar> \<le> 2 ^ 21" 
  proof -
    have "0 \<le> of_nat i * x" using x ii by simp
    then show ?thesis using y [unfolded abs_diff_le_iff] xi by (intro abs_leI) simp_all
  qed
  then have "\<bar>of_nat i * s\<bar> \<le> 2 ^ 80" by simp
  then obtain r where r: "fl (of_nat i * s) = Num r" "\<bar>r - of_nat i * s\<bar> \<le> \<bar>of_nat i * s\<bar> / 2 ^ 53 + tiny" by (rule fl_near)
  have "\<bar>of_nat i * s\<bar> / 2 ^ 53 + tiny \<le> 2 ^ 21 / 2 ^ 53 + tiny" using b by (intro add_mono divide_right_mono) simp_all
  then have "\<bar>r - of_nat i * s\<bar> \<le> 1 / 2 ^ 31" using r(2) by (simp add: tiny_def)
  then have "\<bar>r - of_nat i * x\<bar> \<le> 1 / 2 ^ 30" using y unfolding abs_diff_le_iff by simp
  moreover have "js_mul (js_count i) (js_div (js_count n) (js_count L)) = Num r"
    using L(1) s(1) r(1) by (simp add: js_count_def x_def)
  ultimately show ?thesis using that by (simp add: x_def)
qed

lemma sample_indices:
  assumes L: "0 < L" "L < n" "n \<le> 2 ^ 20"
  obtains k where "\<forall>i < L. sample_index n L i = Some (k i)" "k 0 = (0::nat)" "\<forall>i. Suc i < L \<longrightarrow> k i < k (Suc i)"
    "\<forall>i < L. k i < n - 1"
proof -
  define x :: rat where "x = of_nat n / of_nat L"
  have "\<exists>r. i < L \<longrightarrow> js_mul (js_count i) (js_div (js_count n) (js_count L)) = Num r \<and> \<bar>r - of_nat i * x\<bar> \<le> 1 / 2 ^ 30" for i
    using sample_position [OF L, of i] unfolding x_def by blast
  then obtain p where P: "\<forall>i. i < L \<longrightarrow> js_mul (js_count i) (js_div (js_count n) (js_count L)) = Num (p i) \<and>
      \<bar>p i - of_nat i * x\<bar> \<le> 1 / 2 ^ 30"
    using choice [of "\<lambda>i r. i < L \<longrightarrow> js_mul (js_count i) (js_div (js_count n) (js_count L)) = Num r \<and>
      \<bar>r - of_nat i * x\<bar> \<le> 1 / 2 ^ 30"] by blast
  then have p: "js_mul (js_count i) (js_div (js_count n) (js_count L)) = Num (p i)" "\<bar>p i - of_nat i * x\<bar> \<le> 1 / 2 ^ 30" if "i < L" for i
    using that by simp_all
  have L20: "(of_nat L :: rat) \<le> 2 ^ 20"
    using L by (metis (mono_tags, lifting) less_imp_le_nat of_nat_le_iff of_nat_numeral of_nat_power order_trans)
  have "of_nat (Suc L) \<le> (of_nat n :: rat)" using L(2) by (simp only: of_nat_le_iff Suc_leI)
  then have "(of_nat L + 1) / of_nat L \<le> x" unfolding x_def by (intro divide_right_mono) simp_all
  then have "1 + 1 / of_nat L \<le> x" using L(1) by (simp add: add_divide_distrib)
  moreover have "1 / 2 ^ 20 \<le> 1 / (of_nat L :: rat)" using L20 L(1) by (intro divide_left_mono) simp_all
  ultimately have x: "1 + 1 / 2 ^ 20 \<le> x" by simp
  have z: "p 0 = 0" using p(1) [of 0] L(1)
    by (cases "fl (of_nat n / of_nat L)") (simp_all add: js_count_def inf_of_sign_def)
  have nonneg: "0 \<le> p i" if "i < L" for i
  proof (cases i)
    case 0
    then show ?thesis using z by simp
  next
    case (Suc j)
    have "1 * 1 \<le> of_nat i * x" using x Suc by (intro mult_mono) simp_all
    then show ?thesis using p(2) [OF that, unfolded abs_diff_le_iff] by simp
  qed
  define k where "k i = nat \<lfloor>p i\<rfloor>" for i
  have idx: "sample_index n L i = Some (k i)" if "i < L" for i
    using nonneg [OF that] by (simp add: sample_index_def p(1) [OF that] k_def)
  have up: "k i < k (Suc i)" if "Suc i < L" for i
  proof -
    have "of_nat (Suc i) * x = of_nat i * x + x" by (simp add: algebra_simps)
    then have "p i + 1 \<le> p (Suc i)" using p(2) [of i, unfolded abs_diff_le_iff] p(2) [of "Suc i", unfolded abs_diff_le_iff] that x
      by simp
    then have "\<lfloor>p i\<rfloor> + 1 \<le> \<lfloor>p (Suc i)\<rfloor>" using floor_mono [of "p i + 1" "p (Suc i)"] by simp
    moreover have "0 \<le> \<lfloor>p i\<rfloor>" using nonneg [of i] that by simp
    ultimately show ?thesis unfolding k_def by linarith
  qed
  have top: "k i < n - 1" if "i < L" for i
  proof -
    have "of_nat i \<le> (of_nat L :: rat) - 1" using that by (simp add: le_diff_eq)
    then have "of_nat i * x \<le> (of_nat L - 1) * x" using x by (intro mult_right_mono) simp_all
    also have "\<dots> = of_nat L * x - x" by (simp add: algebra_simps)
    also have "of_nat L * x = of_nat n" using L(1) by (simp add: x_def)
    finally have "p i < of_nat n - 1" using p(2) [OF that, unfolded abs_diff_le_iff] x by simp
    then have "\<lfloor>p i\<rfloor> < int n - 1" using L by (simp add: floor_less_iff of_nat_diff)
    then show ?thesis using nonneg [OF that] L by (simp add: k_def)
  qed
  have "k 0 = 0" by (simp add: k_def z)
  then show ?thesis using that idx up top by blast
qed

text \<open>
  The chart of a pair: when there are more rows than the limit (and at most 2 ^ 20), the sampled series has one
  row per position, in order, without a repetition and without a hole, starting with the oldest; the newest
  row is never among them.
\<close>

theorem downsample_picks:
  assumes "0 < limit" "limit < length rows" "length rows \<le> 2 ^ 20"
  shows "\<exists>k. downsample rows limit = map (\<lambda>i. Some (rows ! k i)) [0..<limit] \<and> k 0 = 0 \<and>
    (\<forall>i. Suc i < limit \<longrightarrow> k i < k (Suc i)) \<and> (\<forall>i < limit. k i < length rows - 1)"
proof -
  obtain k where k: "\<forall>i < limit. sample_index (length rows) limit i = Some (k i)" "k 0 = (0::nat)"
    "\<forall>i. Suc i < limit \<longrightarrow> k i < k (Suc i)" "\<forall>i < limit. k i < length rows - 1"
    using sample_indices [OF assms] by blast
  have "k i < length rows" if "i < limit" for i using k(4) that by fastforce
  then have "nth_opt rows (k i) = Some (rows ! k i)" if "i < limit" for i using that by (simp add: nth_opt_conv)
  then have "downsample rows limit = map (\<lambda>i. Some (rows ! k i)) [0..<limit]"
    using assms(2) k(1) by (simp add: downsample_def)
  then show ?thesis using k by blast
qed

theorem downsample_picks_witness:
  "downsample [10, 20, 30, 40 :: nat] 2 = [Some 10, Some 30] \<and>
   (\<exists>k. downsample [10, 20, 30, 40 :: nat] 2 = map (\<lambda>i. Some ([10, 20, 30, 40] ! k i)) [0..<2])"
proof -
  have "downsample [10, 20, 30, 40 :: nat] 2 = [Some 10, Some 30]"
    by (simp add: downsample_def sample_index_def js_count_def js_eval upt_rec nth_opt_conv)
  then show ?thesis using downsample_picks [of 2 "[10, 20, 30, 40 :: nat]"] by auto
qed

end
