(* ===== verification/ApiCache.thy ===== *)
theory ApiCache
  imports Verdict
begin

text \<open>
  services/stat-arb-bot/src/api/cache.ts: the cache with a fresh and a stale age band. A call of memo is two
  steps, before and after the awaited computation, and the calls of a run overlap in any order; the run keeps
  the calls in flight, the answers and, as a ghost, the values computed.
\<close>

section \<open>The cache (cache.ts)\<close>

record 'v ttlEntry =
  ce_value :: 'v
  ce_freshUntilMs :: jsnum
  ce_staleUntilMs :: jsnum
  ce_storedAtMs :: jsnum

record 'v ttlCache =
  tc_store :: "(string, 'v ttlEntry) dict"
  tc_defaultTtlMs :: jsnum
  tc_defaultStaleTtlMs :: jsnum

definition new_cache :: "jsnum \<Rightarrow> jsnum option \<Rightarrow> (js_error, 'v ttlCache) result" where
  "new_cache ttl stale = (let s = (case stale of Some x \<Rightarrow> x | None \<Rightarrow> js_mul ttl (Num 10)) in
     if js_le ttl (Num 0) then Inl (ErrorMsg ''defaultTtlMs must be > 0'')
     else if js_lt s (Num 0) then Inl (ErrorMsg ''defaultStaleTtlMs must be >= 0'')
     else Inr \<lparr> tc_store = [], tc_defaultTtlMs = ttl, tc_defaultStaleTtlMs = s \<rparr>)"

text \<open>memo up to the await: the value of a fresh entry, or the entry seen before the computation starts.\<close>

definition memo_start :: "string \<Rightarrow> jsnum \<Rightarrow> 'v ttlCache \<Rightarrow> 'v ttlEntry option + 'v" where
  "memo_start key now c = (case dict_get (tc_store c) key of
     Some e \<Rightarrow> if js_gt (ce_freshUntilMs e) now then Inr (ce_value e) else Inl (Some e)
   | None \<Rightarrow> Inl None)"

text \<open>memo from the settled computation on; now is the time of the call.\<close>

definition memo_end :: "jsnum option \<Rightarrow> jsnum option \<Rightarrow> string \<Rightarrow> jsnum \<Rightarrow> 'v ttlEntry option \<Rightarrow> (string, 'v) result \<Rightarrow> 'v ttlCache \<Rightarrow>
    (string, 'v) result \<times> 'v ttlCache" where
  "memo_end ttlOpt staleOpt key now entry computed c = (case computed of
     Inr v \<Rightarrow>
      (let ttl = option_or ttlOpt (tc_defaultTtlMs c); stale = option_or staleOpt (tc_defaultStaleTtlMs c) in
       (Inr v, c\<lparr> tc_store := dict_set (tc_store c) key \<lparr> ce_value = v, ce_freshUntilMs = js_add now ttl,
          ce_staleUntilMs = js_add (js_add now ttl) stale, ce_storedAtMs = now \<rparr> \<rparr>))
   | Inl err \<Rightarrow> (case entry of
        Some e \<Rightarrow> if js_gt (ce_staleUntilMs e) now then (Inr (ce_value e), c) else (Inl err, c)
      | None \<Rightarrow> (Inl err, c)))"

definition invalidate :: "string \<Rightarrow> 'v ttlCache \<Rightarrow> 'v ttlCache" where
  "invalidate key c = c\<lparr> tc_store := dict_del (tc_store c) key \<rparr>"

definition clear_cache :: "'v ttlCache \<Rightarrow> 'v ttlCache" where
  "clear_cache c = c\<lparr> tc_store := [] \<rparr>"

section \<open>Runs of overlapping calls\<close>

record 'v memoCall =
  mc_key :: string
  mc_now :: jsnum
  mc_entry :: "'v ttlEntry option"

datatype answerSource = FreshEntry | OwnComputation | StaleEntry

record 'v answer =
  an_key :: string
  an_now :: jsnum
  an_value :: 'v
  an_storedAt :: jsnum
  an_source :: answerSource

record 'v cacheRun =
  cn_cache :: "'v ttlCache"
  cn_calls :: "'v memoCall list"
  cn_answers :: "'v answer list"
  cn_errors :: "(string \<times> string) list"
  cn_computed :: "(string \<times> jsnum \<times> 'v) list"

datatype 'v cacheEvent = Asked string jsnum | Settled nat "(string, 'v) result" | Invalidated string | Cleared

definition start_run :: "'v ttlCache \<Rightarrow> 'v cacheRun" where
  "start_run c = \<lparr> cn_cache = c, cn_calls = [], cn_answers = [], cn_errors = [], cn_computed = [] \<rparr>"

definition ask :: "string \<Rightarrow> jsnum \<Rightarrow> 'v cacheRun \<Rightarrow> 'v cacheRun" where
  "ask key now r = (case memo_start key now (cn_cache r) of
     Inl entry \<Rightarrow> r\<lparr> cn_calls := cn_calls r @ [\<lparr> mc_key = key, mc_now = now, mc_entry = entry \<rparr>] \<rparr>
   | Inr v \<Rightarrow> r\<lparr> cn_answers := cn_answers r @ [\<lparr> an_key = key, an_now = now, an_value = v,
       an_storedAt = (case dict_get (tc_store (cn_cache r)) key of Some e \<Rightarrow> ce_storedAtMs e | None \<Rightarrow> now),
       an_source = FreshEntry \<rparr>] \<rparr>)"

definition settle :: "jsnum option \<Rightarrow> jsnum option \<Rightarrow> nat \<Rightarrow> (string, 'v) result \<Rightarrow> 'v cacheRun \<Rightarrow> 'v cacheRun" where
  "settle ttlOpt staleOpt i computed r = (case nth_opt (cn_calls r) i of None \<Rightarrow> r
     | Some m \<Rightarrow>
        (case memo_end ttlOpt staleOpt (mc_key m) (mc_now m) (mc_entry m) computed (cn_cache r) of (out, cache) \<Rightarrow>
          r\<lparr> cn_cache := cache, cn_calls := take i (cn_calls r) @ drop (Suc i) (cn_calls r),
             cn_computed := cn_computed r @ (case computed of Inr v \<Rightarrow> [(mc_key m, mc_now m, v)] | Inl _ \<Rightarrow> []),
             cn_answers := cn_answers r @ (case out of Inl _ \<Rightarrow> []
               | Inr v \<Rightarrow> [\<lparr> an_key = mc_key m, an_now = mc_now m, an_value = v,
                   an_storedAt = (case computed of Inr _ \<Rightarrow> mc_now m
                     | Inl _ \<Rightarrow> (case mc_entry m of Some e \<Rightarrow> ce_storedAtMs e | None \<Rightarrow> mc_now m)),
                   an_source = (case computed of Inr _ \<Rightarrow> OwnComputation | Inl _ \<Rightarrow> StaleEntry) \<rparr>]),
             cn_errors := cn_errors r @ (case out of Inl e \<Rightarrow> [(mc_key m, e)] | Inr _ \<Rightarrow> []) \<rparr>))"

fun cache_event :: "jsnum option \<Rightarrow> jsnum option \<Rightarrow> 'v cacheRun \<Rightarrow> 'v cacheEvent \<Rightarrow> 'v cacheRun" where
  "cache_event ttlOpt staleOpt r (Asked key now) = ask key now r"
| "cache_event ttlOpt staleOpt r (Settled i computed) = settle ttlOpt staleOpt i computed r"
| "cache_event ttlOpt staleOpt r (Invalidated key) = r\<lparr> cn_cache := invalidate key (cn_cache r) \<rparr>"
| "cache_event ttlOpt staleOpt r Cleared = r\<lparr> cn_cache := clear_cache (cn_cache r) \<rparr>"

text \<open>What is true of a stored entry: its value was computed by a call of the key that began at its time.\<close>

definition entry_ok :: "jsnum \<Rightarrow> jsnum \<Rightarrow> (string \<times> jsnum \<times> 'v) list \<Rightarrow> string \<Rightarrow> 'v ttlEntry \<Rightarrow> bool" where
  "entry_ok ttl stale computed key e \<longleftrightarrow> (key, ce_storedAtMs e, ce_value e) \<in> set computed \<and>
     ce_freshUntilMs e = js_add (ce_storedAtMs e) ttl \<and> ce_staleUntilMs e = js_add (js_add (ce_storedAtMs e) ttl) stale"

definition answer_ok :: "jsnum \<Rightarrow> jsnum \<Rightarrow> (string \<times> jsnum \<times> 'v) list \<Rightarrow> 'v answer \<Rightarrow> bool" where
  "answer_ok ttl stale computed a \<longleftrightarrow> (an_key a, an_storedAt a, an_value a) \<in> set computed \<and>
     (case an_source a of
        OwnComputation \<Rightarrow> an_storedAt a = an_now a
      | FreshEntry \<Rightarrow> js_lt (an_now a) (js_add (an_storedAt a) ttl)
      | StaleEntry \<Rightarrow> js_lt (an_now a) (js_add (js_add (an_storedAt a) ttl) stale))"

definition run_ok :: "jsnum \<Rightarrow> jsnum \<Rightarrow> 'v cacheRun \<Rightarrow> bool" where
  "run_ok ttl stale r \<longleftrightarrow>
     (\<forall>key e. dict_get (tc_store (cn_cache r)) key = Some e \<longrightarrow> entry_ok ttl stale (cn_computed r) key e) \<and>
     (\<forall>m \<in> set (cn_calls r). \<forall>e. mc_entry m = Some e \<longrightarrow> entry_ok ttl stale (cn_computed r) (mc_key m) e) \<and>
     (\<forall>a \<in> set (cn_answers r). answer_ok ttl stale (cn_computed r) a)"

lemma entry_ok_mono: "entry_ok ttl stale c key e \<Longrightarrow> set c \<subseteq> set c' \<Longrightarrow> entry_ok ttl stale c' key e"
  by (auto simp add: entry_ok_def)

lemma answer_ok_mono: "answer_ok ttl stale c a \<Longrightarrow> set c \<subseteq> set c' \<Longrightarrow> answer_ok ttl stale c' a"
  by (auto simp add: answer_ok_def)

lemma ask_ok: assumes "run_ok ttl stale r" shows "run_ok ttl stale (ask key now r)"
proof (cases "dict_get (tc_store (cn_cache r)) key")
  case None
  then show ?thesis using assms by (auto simp add: ask_def memo_start_def run_ok_def)
next
  case (Some e)
  then have "entry_ok ttl stale (cn_computed r) key e" using assms by (simp add: run_ok_def)
  then show ?thesis using assms Some by (auto simp add: ask_def memo_start_def run_ok_def answer_ok_def entry_ok_def)
qed

lemma settle_ok:
  assumes ok: "run_ok ttl stale r" and defaults: "ttl = option_or ttlOpt (tc_defaultTtlMs (cn_cache r))"
    "stale = option_or staleOpt (tc_defaultStaleTtlMs (cn_cache r))"
  shows "run_ok ttl stale (settle ttlOpt staleOpt i computed r)"
proof (cases "nth_opt (cn_calls r) i")
  case (Some m)
  have keep: "m' \<in> set (cn_calls r)" if "m' \<in> set (take i (cn_calls r)) \<or> m' \<in> set (drop (Suc i) (cn_calls r))" for m'
    using that by (auto dest: in_set_takeD in_set_dropD)
  have entry: "entry_ok ttl stale (cn_computed r) (mc_key m) e" if "mc_entry m = Some e" for e
    using ok Some that by (auto simp add: run_ok_def nth_opt_Some_iff)
  show ?thesis
  proof (cases computed)
    case (Inr v)
    define c' where "c' = cn_computed r @ [(mc_key m, mc_now m, v)]"
    have sub: "set (cn_computed r) \<subseteq> set c'" by (auto simp add: c'_def)
    note mono = entry_ok_mono [OF _ sub] answer_ok_mono [OF _ sub]
    have new: "entry_ok ttl stale c' (mc_key m)
        \<lparr> ce_value = v, ce_freshUntilMs = js_add (mc_now m) ttl, ce_staleUntilMs = js_add (js_add (mc_now m) ttl) stale,
          ce_storedAtMs = mc_now m \<rparr>"
      by (simp add: entry_ok_def c'_def)
    have own: "answer_ok ttl stale c' \<lparr> an_key = mc_key m, an_now = mc_now m, an_value = v, an_storedAt = mc_now m,
        an_source = OwnComputation \<rparr>"
      by (simp add: answer_ok_def c'_def)
    show ?thesis using ok Some Inr keep new own mono
      by (auto simp add: settle_def memo_end_def run_ok_def defaults [symmetric] Let_def dict_laws c'_def [symmetric])
  next
    case (Inl err)
    then show ?thesis using ok Some keep entry
      by (auto simp add: settle_def memo_end_def run_ok_def answer_ok_def entry_ok_def split: option.splits)
  qed
qed (use ok in \<open>simp add: settle_def\<close>)

lemma cache_event_defaults:
  "tc_defaultTtlMs (cn_cache (cache_event t s r e)) = tc_defaultTtlMs (cn_cache r)"
  "tc_defaultStaleTtlMs (cn_cache (cache_event t s r e)) = tc_defaultStaleTtlMs (cn_cache r)"
  by (cases e; auto simp add: ask_def settle_def memo_end_def Let_def invalidate_def clear_cache_def split: sum.splits option.splits)+

lemma cache_event_ok:
  assumes "run_ok ttl stale r" "ttl = option_or t (tc_defaultTtlMs (cn_cache r))"
    "stale = option_or s (tc_defaultStaleTtlMs (cn_cache r))"
  shows "run_ok ttl stale (cache_event t s r e)"
proof (cases e)
  case (Invalidated key)
  then show ?thesis using assms(1) by (auto simp add: run_ok_def invalidate_def dict_laws split: if_splits)
next
  case Cleared
  then show ?thesis using assms(1) by (auto simp add: run_ok_def clear_cache_def)
next
  case (Settled i computed)
  then show ?thesis using settle_ok [OF assms] by simp
qed (use assms(1) ask_ok in simp)

lemma cache_run_ok:
  assumes "run_ok ttl stale r" "ttl = option_or t (tc_defaultTtlMs (cn_cache r))"
    "stale = option_or s (tc_defaultStaleTtlMs (cn_cache r))"
  shows "run_ok ttl stale (foldl (cache_event t s) r evs)"
  using assms
proof (induction evs arbitrary: r)
  case (Cons e evs)
  have "run_ok ttl stale (cache_event t s r e)" by (rule cache_event_ok [OF Cons.prems])
  then show ?case using Cons.IH [of "cache_event t s r e"] Cons.prems(2,3) by (simp add: cache_event_defaults)
qed simp

lemma run_ok_start: "tc_store c = [] \<Longrightarrow> run_ok ttl stale (start_run c)"
  by (simp add: run_ok_def start_run_def)

lemma new_cache_Inr:
  "new_cache ttl stale = Inr c \<longleftrightarrow> \<not> js_le ttl (Num 0) \<and> \<not> js_lt (option_or stale (js_mul ttl (Num 10))) (Num 0) \<and>
     c = \<lparr> tc_store = [], tc_defaultTtlMs = ttl, tc_defaultStaleTtlMs = option_or stale (js_mul ttl (Num 10)) \<rparr>"
  by (auto simp add: new_cache_def option_or_def Let_def split: option.splits)

text \<open>C17: 
  In every run of overlapping memo calls, invalidations and clears on a cache the constructor accepts, a value
  that is answered was computed for its key by a call that began at the time the answer records; it is the
  caller's own value, or that call began less than the time to live before the caller, or - only when the
  caller's own computation failed - less than the time to live plus the stale band before it.
\<close>

theorem cached_answers_are_recent:
  assumes "new_cache ttl stale = Inr c" and "a \<in> set (cn_answers (foldl (cache_event ttlOpt staleOpt) (start_run c) evs))"
  shows "answer_ok (option_or ttlOpt ttl) (option_or staleOpt (option_or stale (js_mul ttl (Num 10))))
    (cn_computed (foldl (cache_event ttlOpt staleOpt) (start_run c) evs)) a"
proof -
  have c: "tc_store c = []" "tc_defaultTtlMs c = ttl" "tc_defaultStaleTtlMs c = option_or stale (js_mul ttl (Num 10))"
    using assms(1) by (simp_all add: new_cache_Inr)
  then have "run_ok (option_or ttlOpt ttl) (option_or staleOpt (option_or stale (js_mul ttl (Num 10))))
      (foldl (cache_event ttlOpt staleOpt) (start_run c) evs)"
    by (intro cache_run_ok run_ok_start) (simp_all add: start_run_def)
  then show ?thesis using assms(2) by (simp add: run_ok_def)
qed

definition demo_run :: "nat cacheEvent list" where
  "demo_run = [Asked ''k'' (Num 0), Settled 0 (Inr 7), Asked ''k'' (Num 50), Asked ''k'' (Num 100), Settled 0 (Inl ''db down'')]"

theorem cached_answers_are_recent_witness:
  "let c = \<lparr> tc_store = [], tc_defaultTtlMs = Num 100, tc_defaultStaleTtlMs = Num 1000 \<rparr>;
       r = foldl (cache_event None None) (start_run c) demo_run;
       a = \<lparr> an_key = ''k'', an_now = Num 100, an_value = 7, an_storedAt = Num 0, an_source = StaleEntry \<rparr>
   in a \<in> set (cn_answers r) \<and> answer_ok (Num 100) (Num 1000) (cn_computed r) a"
proof -
  let ?c = "\<lparr> tc_store = [], tc_defaultTtlMs = Num 100, tc_defaultStaleTtlMs = Num 1000 \<rparr> :: nat ttlCache"
  let ?a = "\<lparr> an_key = ''k'', an_now = Num 100, an_value = 7, an_storedAt = Num 0, an_source = StaleEntry \<rparr> :: nat answer"
  have n: "new_cache (Num 100) None = Inr ?c" by (simp add: new_cache_def js_eval)
  have a: "?a \<in> set (cn_answers (foldl (cache_event None None) (start_run ?c) demo_run))"
    by (simp add: demo_run_def start_run_def ask_def settle_def memo_start_def memo_end_def option_or_def Let_def js_eval)
  show ?thesis using a cached_answers_are_recent [OF n a] by (simp add: Let_def option_or_def js_eval)
qed

end
