(* ===== verification/ApiHandlers.thy ===== *)
theory ApiHandlers
  imports ApiViews ApiCache BotWork
begin

text \<open>
  services/stat-arb-bot/src/api: the handlers of the dashboard, of the dossier of a pair and of the health
  check, the request routing of server.ts, and the queries of packages/db they run. The tables are lists in
  the order of insertion; a database error is a text. Math.sqrt, Math.LN2 and localeCompare are parameters.
\<close>

section \<open>The tables\<close>

record apiDb =
  ad_pairs :: "pairConfig list"
  ad_heartbeats :: "(jsnum \<times> heartbeatRow) list"
  ad_basis :: "basisObs list"
  ad_quotes :: "(jsnum \<times> quoteRow) list"
  ad_signals :: "signalRow list"

definition latestHeartbeat :: "apiDb \<Rightarrow> (jsnum \<times> heartbeatRow) option" where
  "latestHeartbeat db = first_of (js_sort (\<lambda>a b. js_lt (fst a) (fst b)) (ad_heartbeats db))"

definition getPair :: "string \<Rightarrow> apiDb \<Rightarrow> pairConfig option" where
  "getPair i db = first_of (filter (\<lambda>p. pc_id p = i) (ad_pairs db))"

text \<open>The closed signals of a pair with their ids, by exit time.\<close>

definition closed_row :: "string \<Rightarrow> jsnum \<Rightarrow> nat \<times> signalRow \<Rightarrow> (nat \<times> signalRow \<times> signalExit) option" where
  "closed_row pairId sinceMs x = (case x of (i, s) \<Rightarrow> (case sg_exit s of None \<Rightarrow> None
     | Some e \<Rightarrow> if sg_pairId s = pairId \<and> js_ge (sx_exitAt e) sinceMs then Some (i, s, e) else None))"

definition closedSignals :: "string \<Rightarrow> jsnum \<Rightarrow> apiDb \<Rightarrow> (nat \<times> signalRow \<times> signalExit) list" where
  "closedSignals pairId sinceMs db = js_sort (gt_on (\<lambda>s. sx_exitAt (snd (snd s))))
     (List.map_filter (closed_row pairId sinceMs) (zip [1..<Suc (length (ad_signals db))] (ad_signals db)))"

text \<open>ORDER BY received_at DESC LIMIT 5000.\<close>

definition recentQuotesForPair :: "string \<Rightarrow> jsnum \<Rightarrow> nat option \<Rightarrow> apiDb \<Rightarrow> (jsnum \<times> quoteRow) list" where
  "recentQuotesForPair pairId sinceMs maxRows db = take (option_or maxRows 5000)
     (js_sort (\<lambda>a b. js_lt (fst a) (fst b)) (filter (\<lambda>q. jq_pairId (snd q) = pairId \<and> js_ge (fst q) sinceMs) (ad_quotes db)))"

section \<open>Constants (constants.ts)\<close>

definition LATEST_WITHIN_MS :: jsnum where "LATEST_WITHIN_MS = Num 300000"
definition HISTORY_WINDOW_MS :: jsnum where "HISTORY_WINDOW_MS = Num 86400000"
definition SIGNAL_WINDOW_MS :: jsnum where "SIGNAL_WINDOW_MS = Num 604800000"
definition BASIS_SERIES_LIMIT :: nat where "BASIS_SERIES_LIMIT = 720"
definition DASHBOARD_HISTORY_LIMIT_PER_BUCKET :: nat where "DASHBOARD_HISTORY_LIMIT_PER_BUCKET = 250"
definition PAIR_DETAIL_HISTORY_LIMIT_PER_BUCKET :: nat where "PAIR_DETAIL_HISTORY_LIMIT_PER_BUCKET = 5000"
definition HEARTBEAT_STALE_MS :: jsnum where "HEARTBEAT_STALE_MS = Num 30000"
definition HOLD_HORIZONS_MS :: "jsnum list" where
  "HOLD_HORIZONS_MS = [Num 60000, Num 300000, Num 900000, Num 1800000, Num 3600000, Num 7200000, Num 21600000, Num 86400000]"
definition STAT_OPPORTUNITY_THRESHOLD_BPS :: jsnum where "STAT_OPPORTUNITY_THRESHOLD_BPS = Num 50"
definition STAT_WINDOWS_MS :: "jsnum list" where "STAT_WINDOWS_MS = [HISTORY_WINDOW_MS]"

section \<open>Heartbeat and health (heartbeat.ts, health.ts)\<close>

record heartbeatDto =
  hd_observedAt :: jsnum
  hd_activePairs :: nat
  hd_currentRps :: jsnum
  hd_http429Count1m :: nat
  hd_errorCount1m :: nat
  hd_streamLagMs :: "jsnum option"
  hd_quoteLagMs :: "jsnum option"
  hd_activeLazerEndpointCount :: "nat option"
  hd_lazerEndpointHealth :: "(nat \<times> lazerEndpointHealth list) option"
  hd_invalidFeedCount1m :: nat
  hd_schedulerTelemetry :: "telemetrySnapshot option"

definition toHeartbeatDto :: "jsnum \<times> heartbeatRow \<Rightarrow> telemetrySnapshot option \<Rightarrow> heartbeatDto" where
  "toHeartbeatDto hb telemetry = (case hb of (seen, h) \<Rightarrow>
     \<lparr> hd_observedAt = seen, hd_activePairs = hr_activePairCount h, hd_currentRps = hr_currentRps h,
       hd_http429Count1m = hr_http429Count1m h, hd_errorCount1m = hr_errorCount1m h, hd_streamLagMs = hr_streamLagMs h,
       hd_quoteLagMs = hr_quoteLagMs h, hd_activeLazerEndpointCount = hr_activeLazerEndpointCount h,
       hd_lazerEndpointHealth = hr_lazerEndpointHealth h, hd_invalidFeedCount1m = hr_invalidFeedCount1m h,
       hd_schedulerTelemetry = telemetry \<rparr>)"

record healthResponseDto =
  he_ok :: bool
  he_heartbeatAgeMs :: "jsnum option"
  he_heartbeat :: "heartbeatDto option"

definition health_body :: "jsnum \<Rightarrow> (jsnum \<times> heartbeatRow) option \<Rightarrow> telemetrySnapshot option \<Rightarrow> nat \<times> healthResponseDto" where
  "health_body nowMs hb telemetry =
    (let ageMs = map_option (\<lambda>h. js_sub nowMs (fst h)) hb;
         healthy = (case ageMs of Some a \<Rightarrow> js_le a HEARTBEAT_STALE_MS | None \<Rightarrow> False)
     in (if healthy then 200 else 503, \<lparr> he_ok = healthy, he_heartbeatAgeMs = ageMs,
           he_heartbeat = map_option (\<lambda>h. toHeartbeatDto h telemetry) hb \<rparr>))"

section \<open>The dashboard (dashboard.ts)\<close>

record pairPanelDto =
  pp_pair :: pairConfig
  pp_orientation :: pairOrientation
  pp_currentOpportunity :: currentOpportunityDto
  pp_bestDiagnosticBuy :: "bestSideDto option"
  pp_bestDiagnosticSell :: "bestSideDto option"
  pp_verdict :: pairResearchVerdict
  pp_liveSampleCount24h :: nat
  pp_primaryBlocker :: "string option"
  pp_bestBuy :: "bestSideDto option"
  pp_bestSell :: "bestSideDto option"
  pp_bestSpread :: "bestSpreadDto option"
  pp_quoteAgeMs :: "jsnum option"

record dashboardSnapshotDto =
  ds_panels :: "pairPanelDto list"
  ds_heartbeat :: "heartbeatDto option"
  ds_schedulerTelemetry :: "telemetrySnapshot option"

definition side_size_key :: "basisObs \<Rightarrow> string" where
  "side_size_key b = direction_name (bo_side b) @ ''|'' @ show_num (bo_sizeUsd b)"

definition pair_side_size_key :: "basisObs \<Rightarrow> string" where
  "pair_side_size_key b = bo_pairId b @ ''|'' @ side_size_key b"

text \<open>[...byKey.values()]: the last row of each key, at the place of the first.\<close>

definition latest_by :: "(basisObs \<Rightarrow> string) \<Rightarrow> basisObs list \<Rightarrow> basisObs list" where
  "latest_by key rows = map snd (foldl (\<lambda>d row. dict_set d (key row) row) [] rows)"

definition latestRowsByPairSideSize :: "basisObs list \<Rightarrow> basisObs list" where
  "latestRowsByPairSideSize rows = latest_by pair_side_size_key rows"

definition latestRowsBySideSize :: "basisObs list \<Rightarrow> basisObs list" where
  "latestRowsBySideSize rows = latest_by side_size_key rows"

definition liveEligibleCountsByPair :: "basisObs list \<Rightarrow> (string, nat) dict" where
  "liveEligibleCountsByPair rows = foldl (\<lambda>counts row.
     if option_or (bo_qualityStatus row) LIVE_ELIGIBLE \<noteq> LIVE_ELIGIBLE then counts
     else dict_set counts (bo_pairId row) (Suc (option_or (dict_get counts (bo_pairId row)) 0))) [] rows"

definition bucket_rows :: "pairBuckets \<Rightarrow> basisObs list" where
  "bucket_rows b = map snd (buyBySize b) @ map snd (sellBySize b)"

definition buildPanel :: "pairConfig \<Rightarrow> (string, pairBuckets) dict \<Rightarrow> nat \<Rightarrow> jsnum \<Rightarrow> pairPanelDto" where
  "buildPanel pair groupedLatest liveSampleCount24h nowMs =
    (let buckets = option_or (dict_get groupedLatest (pc_id pair)) empty_buckets;
         core = buildPanelCore pair buckets nowMs None;
         hasEdge = (\<exists>row \<in> set (bucket_rows buckets). bo_live row \<and> js_ge (bo_netBps row) (pc_minNetEdgeBps pair));
         distribution = (if 0 < liveSampleCount24h
           then [\<lparr> qs_qualityStatus = LIVE_ELIGIBLE, qs_observationCount = liveSampleCount24h, qs_observationPct = Num 1 \<rparr>] else []);
         verdict = buildLiteVerdict pair distribution (deriveTokenValidation pair) hasEdge None HISTORY_WINDOW_MS
     in \<lparr> pp_pair = pair, pp_orientation = pn_orientation core, pp_currentOpportunity = pn_currentOpportunity core,
          pp_bestDiagnosticBuy = pn_bestDiagnosticBuy core, pp_bestDiagnosticSell = pn_bestDiagnosticSell core,
          pp_verdict = verdict, pp_liveSampleCount24h = liveSampleCount24h, pp_primaryBlocker = primaryBlockerSummary verdict,
          pp_bestBuy = pn_bestBuy core, pp_bestSell = pn_bestSell core, pp_bestSpread = pn_bestSpread core,
          pp_quoteAgeMs = pn_quoteAgeMs core \<rparr>)"

definition dashboard_rows :: "apiDb \<Rightarrow> jsnum \<Rightarrow> basisObs list" where
  "dashboard_rows db nowMs = concat (map (\<lambda>pair. concat (map (\<lambda>sizeUsd. concat (map (\<lambda>side.
     basisHistory (pc_id pair) side sizeUsd (js_sub nowMs HISTORY_WINDOW_MS) (Some DASHBOARD_HISTORY_LIMIT_PER_BUCKET) (ad_basis db))
       (pc_directions pair))) (pc_sizesUsd pair))) (ad_pairs db))"

definition buildSnapshot :: "apiDb \<Rightarrow> jsnum \<Rightarrow> telemetrySnapshot option \<Rightarrow> dashboardSnapshotDto" where
  "buildSnapshot db nowMs telemetry =
    (let basisRows = dashboard_rows db nowMs;
         latest = latestRowsByPairSideSize (filter (\<lambda>row. js_ge (bo_observedAt row) (js_sub nowMs LATEST_WITHIN_MS)) basisRows);
         grouped = groupBasisByPair latest; counts = liveEligibleCountsByPair basisRows
     in \<lparr> ds_panels = map (\<lambda>pair. buildPanel pair grouped (option_or (dict_get counts (pc_id pair)) 0) nowMs) (ad_pairs db),
          ds_heartbeat = map_option (\<lambda>h. toHeartbeatDto h telemetry) (latestHeartbeat db),
          ds_schedulerTelemetry = telemetry \<rparr>)"

definition overlay_telemetry :: "telemetrySnapshot option \<Rightarrow> dashboardSnapshotDto \<Rightarrow> dashboardSnapshotDto" where
  "overlay_telemetry telemetry s = s\<lparr> ds_schedulerTelemetry := telemetry,
     ds_heartbeat := map_option (\<lambda>h. h\<lparr> hd_schedulerTelemetry := telemetry \<rparr>) (ds_heartbeat s) \<rparr>"

section \<open>What the overview shows\<close>

lemma dict_set_values: "set (map snd (dict_set d k v)) \<subseteq> insert v (set (map snd d))"
  by (induction d k v rule: dict_set.induct) auto

lemma latest_by_subset: "set (latest_by key rows) \<subseteq> set rows"
proof -
  have "set (map snd (foldl (\<lambda>d row. dict_set d (key row) row) d0 rows)) \<subseteq> set (map snd d0) \<union> set rows" for d0
  proof (induction rows arbitrary: d0)
    case (Cons r rows)
    show ?case using Cons.IH [of "dict_set d0 (key r) r"] dict_set_values [of d0 "key r" r] by auto
  qed simp
  from this [of "[]"] show ?thesis by (simp add: latest_by_def)
qed

definition bucket_ok :: "basisObs set \<Rightarrow> string \<Rightarrow> pairBuckets \<Rightarrow> bool" where
  "bucket_ok R i b \<longleftrightarrow> (\<forall>row \<in> set (map snd (buyBySize b)). row \<in> R \<and> bo_pairId row = i \<and> bo_side row = BuyTokenized) \<and>
     (\<forall>row \<in> set (map snd (sellBySize b)). row \<in> R \<and> bo_pairId row = i \<and> bo_side row = SellTokenized)"

lemma bucket_ok_empty [simp]: "bucket_ok R i empty_buckets"
  by (simp add: bucket_ok_def empty_buckets_def)

lemma group_step_ok:
  assumes "\<forall>i b. dict_get d i = Some b \<longrightarrow> bucket_ok R i b" "row \<in> R" "dict_get (group_step d row) i = Some b"
  shows "bucket_ok R i b"
proof (cases "bo_pairId row = i")
  case False
  then show ?thesis using assms by (simp add: group_step_def Let_def dict_laws)
next
  case True
  define cur where "cur = option_or (dict_get d i) empty_buckets"
  have cur: "bucket_ok R i cur" using assms(1) by (simp add: cur_def option_or_def split: option.splits)
  have b: "b = (if bo_side row = BuyTokenized then cur\<lparr> buyBySize := dict_set (buyBySize cur) (bo_sizeUsd row) row \<rparr>
      else cur\<lparr> sellBySize := dict_set (sellBySize cur) (bo_sizeUsd row) row \<rparr>)"
    using assms(3) unfolding group_step_def Let_def True cur_def [symmetric] dict_get_set by simp
  have set: "r = row \<or> r \<in> set (map snd d)" if "r \<in> set (map snd (dict_set d (bo_sizeUsd row) row))" for d r
    using subsetD [OF dict_set_values that] by simp
  show ?thesis
  proof (cases "bo_side row")
    case BuyTokenized
    then have e: "buyBySize b = dict_set (buyBySize cur) (bo_sizeUsd row) row" "sellBySize b = sellBySize cur" by (simp_all add: b)
    show ?thesis using cur assms(2) True BuyTokenized set [of _ "buyBySize cur"] unfolding bucket_ok_def e by blast
  next
    case SellTokenized
    then have e: "sellBySize b = dict_set (sellBySize cur) (bo_sizeUsd row) row" "buyBySize b = buyBySize cur" by (simp_all add: b)
    show ?thesis using cur assms(2) True SellTokenized set [of _ "sellBySize cur"] unfolding bucket_ok_def e by blast
  qed
qed

lemma groupBasisByPair_ok:
  assumes "dict_get (groupBasisByPair rows) i = Some b" shows "bucket_ok (set rows) i b"
proof -
  have "dict_get (foldl group_step [] xs) i = Some b \<Longrightarrow> set xs \<subseteq> R \<Longrightarrow> bucket_ok R i b" for xs R i b
  proof (induction xs arbitrary: i b rule: rev_induct)
    case (snoc x xs)
    then have "\<forall>i b. dict_get (foldl group_step [] xs) i = Some b \<longrightarrow> bucket_ok R i b" by auto
    then show ?case using group_step_ok [of "foldl group_step [] xs" R x i b] snoc.prems by simp
  qed simp
  then show ?thesis using assms by (simp add: groupBasisByPair_def)
qed

lemma bucket_of_ok: "bucket_ok (set rows) i (option_or (dict_get (groupBasisByPair rows) i) empty_buckets)"
  using groupBasisByPair_ok by (simp add: option_or_def split: option.splits)


lemma basisHistory_row:
  assumes "row \<in> set (basisHistory i side sz since n tab)"
  shows "\<exists>r \<in> set tab. row = mapBasisObservation r \<and> bo_pairId r = i \<and> bo_side r = side \<and> bo_sizeUsd r = sz \<and> js_ge (bo_observedAt r) since"
  using assms by (auto simp add: basisHistory_def Let_def dest!: in_set_dropD)

lemma mapBasisObservation_simps [simp]:
  "bo_pairId (mapBasisObservation r) = bo_pairId r" "bo_side (mapBasisObservation r) = bo_side r"
  "bo_sizeUsd (mapBasisObservation r) = bo_sizeUsd r" "bo_observedAt (mapBasisObservation r) = bo_observedAt r"
  "bo_netBps (mapBasisObservation r) = bo_netBps r" "bo_tokenPriceUsd (mapBasisObservation r) = bo_tokenPriceUsd r"
  "bo_basePriceUsd (mapBasisObservation r) = bo_basePriceUsd r"
  "bo_live (mapBasisObservation r) \<longleftrightarrow> option_or (bo_qualityStatus r) LIVE_ELIGIBLE = LIVE_ELIGIBLE"
  "bo_qualityStatus (mapBasisObservation r) = Some (option_or (bo_qualityStatus r) LIVE_ELIGIBLE)"
  by (simp_all add: mapBasisObservation_def bo_live_def)

lemma live_count:
  "option_or (dict_get (liveEligibleCountsByPair rows) i) 0 =
     length (filter (\<lambda>r. bo_pairId r = i \<and> option_or (bo_qualityStatus r) LIVE_ELIGIBLE = LIVE_ELIGIBLE) rows)"
  unfolding liveEligibleCountsByPair_def
  by (induction rows rule: rev_induct) (auto simp add: dict_laws option_or_def split: option.splits)

lemma lite_status:
  "vd_status (buildLiteVerdict p shares t e mc w) =
     (if tk_status t = REJECTED \<or> liveEligibleCount shares = 0 then V_NOT_READY
      else if js_lt (js_count (liveEligibleCount shares)) (option_or mc LITE_MIN_CLEAN_SAMPLES) then COLLECT_MORE
      else if e then PAPER_EDGE else NO_EDGE)"
  by (cases "tk_status t") (simp_all add: buildLiteVerdict_def lite_mint_def Let_def)

lemma lite_first_blocker:
  "primaryBlockerSummary (buildLiteVerdict p shares t e mc w) =
     (if tk_status t \<noteq> VERIFIED_ONCHAIN then Some (tk_reason t)
      else if liveEligibleCount shares = 0 then Some ''no live-eligible observations in the window'' else None)"
  by (cases "tk_status t") (simp_all add: buildLiteVerdict_def lite_mint_def Let_def primaryBlockerSummary_def mk_reason_def)

lemma derived_never_verified: "tk_status (deriveTokenValidation p) \<noteq> VERIFIED_ONCHAIN"
  by (simp add: deriveTokenValidation_def Let_def)

lemma synthetic_count:
  "liveEligibleCount (if 0 < n then [\<lparr> qs_qualityStatus = LIVE_ELIGIBLE, qs_observationCount = n, qs_observationPct = Num 1 \<rparr>] else []) = n"
  by (simp add: liveEligibleCount_def)

text \<open>
  The buckets of a pair on the dashboard.
\<close>

definition dashboard_latest :: "apiDb \<Rightarrow> jsnum \<Rightarrow> basisObs list" where
  "dashboard_latest db nowMs = latestRowsByPairSideSize
     (filter (\<lambda>row. js_ge (bo_observedAt row) (js_sub nowMs LATEST_WITHIN_MS)) (dashboard_rows db nowMs))"

definition dashboard_bucket :: "apiDb \<Rightarrow> jsnum \<Rightarrow> string \<Rightarrow> pairBuckets" where
  "dashboard_bucket db nowMs i = option_or (dict_get (groupBasisByPair (dashboard_latest db nowMs)) i) empty_buckets"

definition recent_row :: "apiDb \<Rightarrow> jsnum \<Rightarrow> string \<Rightarrow> basisObs \<Rightarrow> bool" where
  "recent_row db nowMs i row \<longleftrightarrow> bo_pairId row = i \<and> js_ge (bo_observedAt row) (js_sub nowMs LATEST_WITHIN_MS) \<and>
     row \<in> mapBasisObservation ` set (ad_basis db)"

lemma dashboard_rows_from: "row \<in> set (dashboard_rows db nowMs) \<Longrightarrow> row \<in> mapBasisObservation ` set (ad_basis db)"
  by (auto simp add: dashboard_rows_def dest!: basisHistory_row)

lemma dashboard_bucket_recent:
  "row \<in> set (bucket_rows (dashboard_bucket db nowMs i)) \<Longrightarrow> recent_row db nowMs i row"
  using bucket_of_ok [of "dashboard_latest db nowMs" i] dashboard_rows_from [of row db nowMs]
    subsetD [OF latest_by_subset, of row pair_side_size_key "filter (\<lambda>row. js_ge (bo_observedAt row) (js_sub nowMs LATEST_WITHIN_MS)) (dashboard_rows db nowMs)"]
  by (auto simp add: bucket_ok_def bucket_rows_def dashboard_bucket_def dashboard_latest_def latestRowsByPairSideSize_def recent_row_def)

lemma snapshot_panels:
  "ds_panels (buildSnapshot db nowMs telemetry) = map (\<lambda>pair. buildPanel pair (groupBasisByPair (dashboard_latest db nowMs))
     (length (filter (\<lambda>r. bo_pairId r = pc_id pair \<and> option_or (bo_qualityStatus r) LIVE_ELIGIBLE = LIVE_ELIGIBLE)
       (dashboard_rows db nowMs))) nowMs) (ad_pairs db)"
  by (simp add: buildSnapshot_def Let_def live_count dashboard_latest_def)





lemma panel_verdict:
  assumes "p \<in> set (ds_panels (buildSnapshot db nowMs telemetry))"
  obtains n e where
    "n = length (filter (\<lambda>r. bo_pairId r = pc_id (pp_pair p) \<and> option_or (bo_qualityStatus r) LIVE_ELIGIBLE = LIVE_ELIGIBLE)
       (dashboard_rows db nowMs))"
    "e = (\<exists>row \<in> set (bucket_rows (dashboard_bucket db nowMs (pc_id (pp_pair p)))). bo_live row \<and> js_ge (bo_netBps row) (pc_minNetEdgeBps (pp_pair p)))"
    "pp_verdict p = buildLiteVerdict (pp_pair p)
       (if 0 < n then [\<lparr> qs_qualityStatus = LIVE_ELIGIBLE, qs_observationCount = n, qs_observationPct = Num 1 \<rparr>] else [])
       (deriveTokenValidation (pp_pair p)) e None HISTORY_WINDOW_MS" "pp_primaryBlocker p = primaryBlockerSummary (pp_verdict p)"
    "pp_liveSampleCount24h p = n"
proof -
  obtain q where q: "p = buildPanel q (groupBasisByPair (dashboard_latest db nowMs))
     (length (filter (\<lambda>r. bo_pairId r = pc_id q \<and> option_or (bo_qualityStatus r) LIVE_ELIGIBLE = LIVE_ELIGIBLE)
       (dashboard_rows db nowMs))) nowMs"
    using assms by (auto simp add: snapshot_panels)
  then have "pp_pair p = q" by (simp add: buildPanel_def Let_def)
  with q that show ?thesis by (simp add: buildPanel_def Let_def dashboard_bucket_def)
qed

text \<open>
  What the verdict of a panel rests on: PAPER_EDGE is claimed exactly when the decimals are sane, at least 200
  live-eligible rows of the pair were among the rows of the last day, and a live row of its latest ones clears
  the pair's own net-edge threshold - a row of the table that was observed within five minutes. No panel is
  ever a CANDIDATE.
\<close>

theorem overview_verdict:
  assumes "p \<in> set (ds_panels (buildSnapshot db nowMs telemetry))"
  shows "vd_status (pp_verdict p) \<noteq> CANDIDATE \<and>
    (vd_status (pp_verdict p) = PAPER_EDGE \<longrightarrow> tk_status (deriveTokenValidation (pp_pair p)) \<noteq> REJECTED \<and>
      200 \<le> length (filter (\<lambda>r. bo_pairId r = pc_id (pp_pair p) \<and> bo_live r) (dashboard_rows db nowMs)) \<and>
      (\<exists>r \<in> set (ad_basis db). bo_pairId r = pc_id (pp_pair p) \<and> bo_live (mapBasisObservation r) \<and>
        js_ge (bo_observedAt r) (js_sub nowMs LATEST_WITHIN_MS) \<and> js_ge (bo_netBps r) (pc_minNetEdgeBps (pp_pair p))))"
proof -
  obtain n e where n: "n = length (filter (\<lambda>r. bo_pairId r = pc_id (pp_pair p) \<and> option_or (bo_qualityStatus r) LIVE_ELIGIBLE = LIVE_ELIGIBLE)
       (dashboard_rows db nowMs))"
    and e: "e = (\<exists>row \<in> set (bucket_rows (dashboard_bucket db nowMs (pc_id (pp_pair p)))). bo_live row \<and> js_ge (bo_netBps row) (pc_minNetEdgeBps (pp_pair p)))"
    and v: "pp_verdict p = buildLiteVerdict (pp_pair p)
       (if 0 < n then [\<lparr> qs_qualityStatus = LIVE_ELIGIBLE, qs_observationCount = n, qs_observationPct = Num 1 \<rparr>] else [])
       (deriveTokenValidation (pp_pair p)) e None HISTORY_WINDOW_MS"
    by (rule panel_verdict [OF assms])
  have s: "vd_status (pp_verdict p) = (if tk_status (deriveTokenValidation (pp_pair p)) = REJECTED \<or> n = 0 then V_NOT_READY
      else if js_lt (js_count n) (Num 200) then COLLECT_MORE else if e then PAPER_EDGE else NO_EDGE)"
    unfolding v lite_status synthetic_count by (simp add: option_or_def LITE_MIN_CLEAN_SAMPLES_def)
  have live: "option_or (bo_qualityStatus r) LIVE_ELIGIBLE = LIVE_ELIGIBLE \<longleftrightarrow> bo_live r" if "r \<in> set (dashboard_rows db nowMs)" for r
    using dashboard_rows_from [OF that] by (auto simp add: option_or_def split: option.splits)
  have n': "n = length (filter (\<lambda>r. bo_pairId r = pc_id (pp_pair p) \<and> bo_live r) (dashboard_rows db nowMs))"
    unfolding n using live by (intro arg_cong [where f = length] filter_cong) auto
  have "200 \<le> n" if "\<not> js_lt (js_count n) (Num 200)"
  proof -
    have "\<not> (of_nat n :: rat) < of_nat 200" using that by (simp add: js_count_def)
    then show ?thesis by (simp only: of_nat_less_iff not_less)
  qed
  moreover have "\<exists>r \<in> set (ad_basis db). bo_pairId r = pc_id (pp_pair p) \<and> bo_live (mapBasisObservation r) \<and>
        js_ge (bo_observedAt r) (js_sub nowMs LATEST_WITHIN_MS) \<and> js_ge (bo_netBps r) (pc_minNetEdgeBps (pp_pair p))" if e
  proof -
    obtain row where row: "row \<in> set (bucket_rows (dashboard_bucket db nowMs (pc_id (pp_pair p))))" "bo_live row"
      "js_ge (bo_netBps row) (pc_minNetEdgeBps (pp_pair p))" using \<open>e\<close> e by blast
    from dashboard_bucket_recent [OF row(1)] obtain r where "r \<in> set (ad_basis db)" "row = mapBasisObservation r"
      "bo_pairId row = pc_id (pp_pair p)" "js_ge (bo_observedAt row) (js_sub nowMs LATEST_WITHIN_MS)"
      by (auto simp add: recent_row_def)
    then show ?thesis using row(2,3) by auto
  qed
  moreover have "tk_status (deriveTokenValidation (pp_pair p)) \<noteq> REJECTED \<and> \<not> js_lt (js_count n) (Num 200) \<and> e"
    if "vd_status (pp_verdict p) = PAPER_EDGE" using that s by (simp split: if_splits)
  moreover have "vd_status (pp_verdict p) \<noteq> CANDIDATE" using s by simp
  ultimately show ?thesis unfolding n' by blast
qed

text \<open>
  The card of every pair shows one and the same kind of blocker, the state of the token mint: the mint is never
  verified on this path, its blocker comes first, and so a pair without any live sample, one with an edge and
  one without show the same line.
\<close>

theorem overview_blocker_is_the_mint:
  "list_all (\<lambda>p. pp_primaryBlocker p = Some (tk_reason (deriveTokenValidation (pp_pair p)))) (ds_panels (buildSnapshot db nowMs telemetry))"
  unfolding list_all_iff
proof
  fix p assume "p \<in> set (ds_panels (buildSnapshot db nowMs telemetry))"
  then obtain shares e where v: "pp_verdict p = buildLiteVerdict (pp_pair p) shares (deriveTokenValidation (pp_pair p)) e None HISTORY_WINDOW_MS"
    "pp_primaryBlocker p = primaryBlockerSummary (pp_verdict p)" by (rule panel_verdict)
  show "pp_primaryBlocker p = Some (tk_reason (deriveTokenValidation (pp_pair p)))"
    unfolding v(2) unfolding v(1) lite_first_blocker by (simp add: derived_never_verified)
qed

definition one_size :: pairConfig where
  "one_size = Readiness.demo_pair\<lparr> pc_id := ''p'', pc_sizesUsd := [Num 250], pc_directions := [BuyTokenized], pc_minNetEdgeBps := Num 50 \<rparr>"

definition one_row_db :: "basisObs \<Rightarrow> apiDb" where
  "one_row_db r = \<lparr> ad_pairs = [one_size], ad_heartbeats = [], ad_basis = [r], ad_quotes = [], ad_signals = [] \<rparr>"

lemma one_row_dashboard:
  "ds_panels (buildSnapshot (one_row_db (demo_obs BuyTokenized 200 LIVE_ELIGIBLE 86400000)) (Num 86400009) None) =
     [buildPanel one_size (groupBasisByPair [mapBasisObservation (demo_obs BuyTokenized 200 LIVE_ELIGIBLE 86400000)]) 1 (Num 86400009)]"
  by (simp add: snapshot_panels dashboard_latest_def dashboard_rows_def one_row_db_def one_size_def basisHistory_def
      demo_obs_def HISTORY_WINDOW_MS_def LATEST_WITHIN_MS_def latestRowsByPairSideSize_def latest_by_def js_sort_def
      DASHBOARD_HISTORY_LIMIT_PER_BUCKET_def option_or_def mapBasisObservation_def js_sub_def js_eval Let_def)

definition demo_panel :: pairPanelDto where
  "demo_panel = buildPanel one_size (groupBasisByPair [mapBasisObservation (demo_obs BuyTokenized 200 LIVE_ELIGIBLE 86400000)]) 1 (Num 86400009)"




theorem overview_verdict_witness:
  "vd_status (pp_verdict demo_panel) = COLLECT_MORE \<and> vd_status (pp_verdict demo_panel) \<noteq> CANDIDATE"
proof -
  let ?db = "one_row_db (demo_obs BuyTokenized 200 LIVE_ELIGIBLE 86400000)"
  have p: "demo_panel \<in> set (ds_panels (buildSnapshot ?db (Num 86400009) None))" by (simp add: one_row_dashboard demo_panel_def)
  have "vd_status (pp_verdict demo_panel) = COLLECT_MORE"
    by (simp add: demo_panel_def buildPanel_def Let_def lite_status liveEligibleCount_def deriveTokenValidation_def one_size_def
      Readiness.demo_pair_def option_or_def LITE_MIN_CLEAN_SAMPLES_def js_count_def is_integer_def)
  then show ?thesis using overview_verdict [OF p] by simp
qed

end
