(* ===== verification/ApiDossier.thy ===== *)
theory ApiDossier
  imports ApiHandlers
begin

text \<open>
  services/stat-arb-bot/src/api/handlers/pair-detail.ts: the dossier of a pair - the rows of a day, the
  distribution of their quality, the summary per market regime, the quote statistics, and the analyses of the
  market core over them - and the queries of packages/db it replaces (basisQualityDistribution).
\<close>

section \<open>Distribution, regimes and quote statistics\<close>

definition row_status :: "basisObs \<Rightarrow> quoteQualityStatus" where
  "row_status row = option_or (bo_qualityStatus row) LIVE_ELIGIBLE"

fun status_name :: "quoteQualityStatus \<Rightarrow> string" where
  "status_name LIVE_ELIGIBLE = ''LIVE_ELIGIBLE''"
| "status_name STALE_PYTH = ''STALE_PYTH''"
| "status_name STALE_BASIS = ''STALE_BASIS''"
| "status_name QUOTE_LATENCY_TOO_HIGH = ''QUOTE_LATENCY_TOO_HIGH''"
| "status_name MISSING_EXIT_QUOTE = ''MISSING_EXIT_QUOTE''"
| "status_name UNKNOWN_ROUTER = ''UNKNOWN_ROUTER''"
| "status_name ROUTE_UNSTABLE = ''ROUTE_UNSTABLE''"
| "status_name MARKET_SESSION_INVALID = ''MARKET_SESSION_INVALID''"
| "status_name PRICE_IMPACT_TOO_HIGH = ''PRICE_IMPACT_TOO_HIGH''"
| "status_name PYTH_CONFIDENCE_TOO_WIDE = ''PYTH_CONFIDENCE_TOO_WIDE''"
| "status_name DECIMALS_UNVERIFIED = ''DECIMALS_UNVERIFIED''"

definition count_up :: "('k, nat) dict \<Rightarrow> 'k \<Rightarrow> ('k, nat) dict" where
  "count_up counts k = dict_set counts k (Suc (option_or (dict_get counts k) 0))"

definition share_of :: "nat \<Rightarrow> nat \<Rightarrow> jsnum" where
  "share_of n all = (if all = 0 then Num 0 else js_div (js_count n) (js_count all))"

definition distribution_gt :: "(string \<Rightarrow> string \<Rightarrow> int) \<Rightarrow> qualityShare \<Rightarrow> qualityShare \<Rightarrow> bool" where
  "distribution_gt lc a b \<longleftrightarrow> (if qs_observationCount a = qs_observationCount b
     then 0 < lc (status_name (qs_qualityStatus a)) (status_name (qs_qualityStatus b))
     else qs_observationCount a < qs_observationCount b)"

definition buildQualityDistributionRows :: "(string \<Rightarrow> string \<Rightarrow> int) \<Rightarrow> basisObs list \<Rightarrow> qualityShare list" where
  "buildQualityDistributionRows lc rows =
    (let counts = foldl (\<lambda>d row. count_up d (row_status row)) [] rows in
     js_sort (distribution_gt lc) (map (\<lambda>(s, n). \<lparr> qs_qualityStatus = s, qs_observationCount = n,
       qs_observationPct = share_of n (length rows) \<rparr>) counts))"

record regimeAcc =
  ra_timeRegime :: timeRegime
  ra_observationCount :: nat
  ra_liveCount :: nat
  ra_grossSum :: jsnum
  ra_netSum :: jsnum
  ra_maxNetBps :: "jsnum option"
  ra_minNetBps :: "jsnum option"
  ra_buyCount :: nat
  ra_sellCount :: nat
  ra_quoteRequestMs :: "jsnum \<times> nat"
  ra_pythFreshnessLagMs :: "jsnum \<times> nat"
  ra_basisAgeMs :: "jsnum \<times> nat"

definition new_acc :: "timeRegime \<Rightarrow> regimeAcc" where
  "new_acc r = \<lparr> ra_timeRegime = r, ra_observationCount = 0, ra_liveCount = 0, ra_grossSum = Num 0, ra_netSum = Num 0,
     ra_maxNetBps = None, ra_minNetBps = None, ra_buyCount = 0, ra_sellCount = 0, ra_quoteRequestMs = (Num 0, 0),
     ra_pythFreshnessLagMs = (Num 0, 0), ra_basisAgeMs = (Num 0, 0) \<rparr>"

fun add_some :: "jsnum \<times> nat \<Rightarrow> jsnum option \<Rightarrow> jsnum \<times> nat" where
  "add_some (s, n) (Some x) = (js_add s x, Suc n)"
| "add_some a None = a"

definition regime_acc :: "regimeAcc \<Rightarrow> basisObs \<Rightarrow> regimeAcc" where
  "regime_acc a row = \<lparr> ra_timeRegime = ra_timeRegime a, ra_observationCount = Suc (ra_observationCount a),
     ra_liveCount = (if bo_live row then Suc (ra_liveCount a) else ra_liveCount a),
     ra_grossSum = js_add (ra_grossSum a) (bo_grossBps row), ra_netSum = js_add (ra_netSum a) (bo_netBps row),
     ra_maxNetBps = Some (case ra_maxNetBps a of None \<Rightarrow> bo_netBps row | Some m \<Rightarrow> js_max m (bo_netBps row)),
     ra_minNetBps = Some (case ra_minNetBps a of None \<Rightarrow> bo_netBps row | Some m \<Rightarrow> js_min m (bo_netBps row)),
     ra_buyCount = (if bo_side row = BuyTokenized then Suc (ra_buyCount a) else ra_buyCount a),
     ra_sellCount = (if bo_side row = BuyTokenized then ra_sellCount a else Suc (ra_sellCount a)),
     ra_quoteRequestMs = add_some (ra_quoteRequestMs a) (bo_quoteRequestMs row),
     ra_pythFreshnessLagMs = add_some (ra_pythFreshnessLagMs a) (bo_pythFreshnessLagMs row),
     ra_basisAgeMs = add_some (ra_basisAgeMs a) (bo_basisAgeMs row) \<rparr>"

definition regime_step :: "(timeRegime, regimeAcc) dict \<Rightarrow> basisObs \<Rightarrow> (timeRegime, regimeAcc) dict" where
  "regime_step d row = (case bo_timeRegime row of None \<Rightarrow> d
     | Some r \<Rightarrow> dict_set d r (regime_acc (option_or (dict_get d r) (new_acc r)) row))"

definition avg :: "jsnum \<Rightarrow> nat \<Rightarrow> jsnum option" where
  "avg amount n = (if n = 0 then None else Some (js_div amount (js_count n)))"

definition regime_row :: "regimeAcc \<Rightarrow> timeRegimeSummaryRow" where
  "regime_row a = \<lparr> tg_timeRegime = ra_timeRegime a, tg_observationCount = ra_observationCount a, tg_liveCount = ra_liveCount a,
     tg_livePct = share_of (ra_liveCount a) (ra_observationCount a),
     tg_avgGrossBps = Some (js_div (ra_grossSum a) (js_count (ra_observationCount a))),
     tg_avgNetBps = Some (js_div (ra_netSum a) (js_count (ra_observationCount a))),
     tg_maxNetBps = ra_maxNetBps a, tg_minNetBps = ra_minNetBps a, tg_buyCount = ra_buyCount a, tg_sellCount = ra_sellCount a,
     tg_avgQuoteRequestMs = avg (fst (ra_quoteRequestMs a)) (snd (ra_quoteRequestMs a)),
     tg_avgPythFreshnessLagMs = avg (fst (ra_pythFreshnessLagMs a)) (snd (ra_pythFreshnessLagMs a)),
     tg_avgBasisAgeMs = avg (fst (ra_basisAgeMs a)) (snd (ra_basisAgeMs a)) \<rparr>"

fun regime_name :: "timeRegime \<Rightarrow> string" where
  "regime_name US_EQUITY_REGULAR = ''US_EQUITY_REGULAR''"
| "regime_name US_EQUITY_PREMARKET = ''US_EQUITY_PREMARKET''"
| "regime_name US_EQUITY_POSTMARKET = ''US_EQUITY_POSTMARKET''"
| "regime_name US_EQUITY_OVERNIGHT = ''US_EQUITY_OVERNIGHT''"
| "regime_name US_EQUITY_WEEKEND = ''US_EQUITY_WEEKEND''"
| "regime_name METAL_ACTIVE = ''METAL_ACTIVE''"
| "regime_name METAL_MAINTENANCE = ''METAL_MAINTENANCE''"
| "regime_name METAL_WEEKEND = ''METAL_WEEKEND''"
| "regime_name CRYPTO_NORMAL = ''CRYPTO_NORMAL''"
| "regime_name CRYPTO_HIGH_VOL = ''CRYPTO_HIGH_VOL''"

definition buildRegimeSummaryRows :: "(string \<Rightarrow> string \<Rightarrow> int) \<Rightarrow> basisObs list \<Rightarrow> timeRegimeSummaryRow list" where
  "buildRegimeSummaryRows lc rows = js_sort (\<lambda>a b. 0 < lc (regime_name (tg_timeRegime a)) (regime_name (tg_timeRegime b)))
     (map (\<lambda>x. regime_row (snd x)) (foldl regime_step [] rows))"

record quoteAcc =
  qa_side :: pairDirection
  qa_sizeUsd :: jsnum
  qa_totalCount :: nat
  qa_okCount :: nat
  qa_routers :: "(string, nat) dict"

definition quote_acc :: "quoteAcc \<Rightarrow> quoteRow \<Rightarrow> quoteAcc" where
  "quote_acc a q = (let a1 = a\<lparr> qa_totalCount := Suc (qa_totalCount a) \<rparr> in
     if jq_status q = QOk then a1\<lparr> qa_okCount := Suc (qa_okCount a),
         qa_routers := count_up (qa_routers a) (option_or (jq_router q) ''UNKNOWN'') \<rparr>
     else a1)"

definition quote_key :: "quoteRow \<Rightarrow> string" where
  "quote_key q = direction_name (jq_side q) @ ''|'' @ show_num (jq_sizeUsd q)"

definition quote_step :: "(string, quoteAcc) dict \<Rightarrow> quoteRow \<Rightarrow> (string, quoteAcc) dict" where
  "quote_step d q = dict_set d (quote_key q) (quote_acc (option_or (dict_get d (quote_key q))
     \<lparr> qa_side = jq_side q, qa_sizeUsd = jq_sizeUsd q, qa_totalCount = 0, qa_okCount = 0, qa_routers = [] \<rparr>) q)"

definition quote_stats :: "(string \<Rightarrow> string \<Rightarrow> int) \<Rightarrow> quoteAcc \<Rightarrow> pairReadinessQuoteStats" where
  "quote_stats lc a = \<lparr> pq_side = qa_side a, pq_sizeUsd = qa_sizeUsd a, pq_totalCount = qa_totalCount a, pq_okCount = qa_okCount a,
     pq_routerDistribution = js_sort (share_gt lc) (map (\<lambda>(r, n). \<lparr> rs_router = r, rs_count = n, rs_pct = share_of n (qa_totalCount a) \<rparr>)
       (qa_routers a)) \<rparr>"

text \<open>The comparator a.side.localeCompare(b.side) || a.sizeUsd - b.sizeUsd.\<close>

definition stats_gt :: "(string \<Rightarrow> string \<Rightarrow> int) \<Rightarrow> pairReadinessQuoteStats \<Rightarrow> pairReadinessQuoteStats \<Rightarrow> bool" where
  "stats_gt lc a b = (let c = lc (direction_name (pq_side a)) (direction_name (pq_side b)) in
     if c \<noteq> 0 then 0 < c else num_gt (pq_sizeUsd a) (pq_sizeUsd b))"

definition buildQuoteStatsFromRows :: "(string \<Rightarrow> string \<Rightarrow> int) \<Rightarrow> quoteRow list \<Rightarrow> pairReadinessQuoteStats list" where
  "buildQuoteStatsFromRows lc rows = js_sort (stats_gt lc) (map (\<lambda>x. quote_stats lc (snd x)) (foldl quote_step [] rows))"

section \<open>Adapters (route-stability.ts, signals.ts)\<close>

definition toRouteStabilityRow :: "jsnum \<times> quoteRow \<Rightarrow> routeStabilityQuoteRow" where
  "toRouteStabilityRow x = (case x of (receivedAt, q) \<Rightarrow> \<lparr> rq_side = jq_side q, rq_sizeUsd = jq_sizeUsd q, rq_receivedAtMs = receivedAt,
     rq_router = jq_router q, rq_status = jq_status q, rq_requestMs = jq_requestMs q, rq_priceImpactPct = jq_priceImpactPct q,
     rq_expiresAtMs = jq_expiresAt q, rq_contextSlot = jq_contextSlot q \<rparr>)"

record signalHistoryDto =
  sh_id :: string
  sh_sizeUsd :: jsnum
  sh_entryAt :: jsnum
  sh_exitAt :: jsnum
  sh_entryEdgeBps :: jsnum
  sh_exitEdgeBps :: jsnum
  sh_pnlUsd :: jsnum
  sh_outcome :: signalOutcome
  sh_exitReason :: exitReason
  sh_entryQualityStatus :: quoteQualityStatus
  sh_exitQualityStatus :: quoteQualityStatus

definition toSignalHistory :: "nat \<times> signalRow \<times> signalExit \<Rightarrow> signalHistoryDto" where
  "toSignalHistory x = (case x of (i, s, e) \<Rightarrow> \<lparr> sh_id = show_num (js_count i), sh_sizeUsd = sg_sizeUsd s, sh_entryAt = sg_entryAt s,
     sh_exitAt = sx_exitAt e, sh_entryEdgeBps = sg_entryEdgeBps s, sh_exitEdgeBps = sx_exitEdgeBps e, sh_pnlUsd = sx_pnlUsd e,
     sh_outcome = sx_outcome e, sh_exitReason = sx_exitReason e, sh_entryQualityStatus = sg_entryQualityStatus s,
     sh_exitQualityStatus = sx_exitQualityStatus e \<rparr>)"

section \<open>The dossier\<close>

record pairDetailOptions =
  dp_costInputsBps :: costInputsBps
  dp_routeFailureHaircutBps :: "jsnum option"

record pairDetailDto =
  pd_pair :: pairConfig
  pd_orientation :: pairOrientation
  pd_verdict :: pairResearchVerdict
  pd_currentOpportunity :: currentOpportunityDto
  pd_bestDiagnosticBuy :: "bestSideDto option"
  pd_bestDiagnosticSell :: "bestSideDto option"
  pd_observationCount24h :: nat
  pd_liveSampleCount24h :: nat
  pd_quoteSurface :: "quoteSurfaceRowDto list"
  pd_basisSeries :: "basisSeriesPointDto option list"
  pd_qualityDistribution :: "qualityShare list"
  pd_timeRegimeSummary :: "timeRegimeSummaryRow list"
  pd_pairReadiness :: pairReadinessMatrix
  pd_twoSizeBacktest :: twoSizeBacktestV2Result
  pd_holdHorizonReplay :: "holdHorizonReplayRow list"
  pd_statSummary :: "pairStatSummary list"
  pd_routeStability :: routeStabilitySummary
  pd_tokenValidation :: tokenValidationSnapshot
  pd_costWaterfall :: costWaterfall
  pd_costScenarios :: "costScenario list"
  pd_costInputsBps :: costInputsBps
  pd_signalHistory :: "signalHistoryDto list"
  pd_profitability :: profitabilitySummary
  pd_bestBuy :: "bestSideDto option"
  pd_bestSell :: "bestSideDto option"
  pd_bestSpread :: "bestSpreadDto option"
  pd_quoteAgeMs :: "jsnum option"

text \<open>The rows of all sizes and directions of the pair, by time.\<close>

definition detail_history :: "pairConfig \<Rightarrow> apiDb \<Rightarrow> jsnum \<Rightarrow> basisObs list" where
  "detail_history pair db nowMs = js_sort (gt_on bo_observedAt) (concat (map (\<lambda>size. concat (map (\<lambda>side.
     basisHistory (pc_id pair) side size (js_sub nowMs HISTORY_WINDOW_MS) (Some PAIR_DETAIL_HISTORY_LIMIT_PER_BUCKET) (ad_basis db))
       (pc_directions pair))) (pc_sizesUsd pair)))"

definition detail_core :: "pairConfig \<Rightarrow> basisObs list \<Rightarrow> jsnum \<Rightarrow> panelCore" where
  "detail_core pair historyRows nowMs = buildPanelCore pair
     (option_or (dict_get (groupBasisByPair (latestRowsBySideSize historyRows)) (pc_id pair)) empty_buckets) nowMs None"

definition detail_stats :: "(jsnum \<Rightarrow> jsnum) \<Rightarrow> jsnum \<Rightarrow> pairConfig \<Rightarrow> basisObs list \<Rightarrow> jsnum \<Rightarrow> pairStatSummary list" where
  "detail_stats sq ln2 pair historyRows nowMs = concat (map (\<lambda>windowMs. concat (map (\<lambda>side. map (\<lambda>sizeUsd.
     buildStatSummary sq ln2 side sizeUsd (map toStatObservation historyRows) nowMs windowMs (Some STAT_OPPORTUNITY_THRESHOLD_BPS) None)
       (pc_sizesUsd pair)) (pc_directions pair))) STAT_WINDOWS_MS)"

definition total_costs :: "costInputsBps \<Rightarrow> jsnum \<Rightarrow> jsnum" where
  "total_costs c net = js_add (js_add (js_add (js_add net (ci_slippageBufferBps c)) (ci_landingCostBps c)) (ci_failureBufferBps c)) (ci_minProfitBps c)"

definition referenceGrossBps :: "costInputsBps \<Rightarrow> panelCore \<Rightarrow> jsnum" where
  "referenceGrossBps c core = (case co_bestBuy (pn_currentOpportunity core) of
     Some b \<Rightarrow> total_costs c (bd_netBps b)
   | None \<Rightarrow> total_costs c (option_or (map_option bd_netBps (pn_bestDiagnosticBuy core)) (Num 0)))"

definition liveEligibleSignals :: "(nat \<times> signalRow \<times> signalExit) list \<Rightarrow> (nat \<times> signalRow \<times> signalExit) list" where
  "liveEligibleSignals signals = filter (\<lambda>(i, s, e). sg_entryQualityStatus s = LIVE_ELIGIBLE \<and> sx_exitQualityStatus e = LIVE_ELIGIBLE) signals"

definition closed_signal :: "nat \<times> signalRow \<times> signalExit \<Rightarrow> closedSignal" where
  "closed_signal x = (case x of (i, s, e) \<Rightarrow> closedSignal.make (signalRow.sg_entryAt s) (sx_exitAt e) (sx_pnlUsd e) (sg_entryEdgeBps s))"

definition computePairDetail :: "(string \<Rightarrow> string \<Rightarrow> int) \<Rightarrow> (jsnum \<Rightarrow> jsnum) \<Rightarrow> jsnum \<Rightarrow> pairConfig \<Rightarrow> pairDetailOptions \<Rightarrow>
    apiDb \<Rightarrow> jsnum \<Rightarrow> pairDetailDto" where
  "computePairDetail lc sq ln2 pair opts db nowMs =
    (let costs = dp_costInputsBps opts;
         transactionCostBps = js_add (js_add (ci_slippageBufferBps costs) (ci_landingCostBps costs)) (ci_failureBufferBps costs);
         signals = closedSignals (pc_id pair) (js_sub nowMs SIGNAL_WINDOW_MS) db;
         quoteRows = recentQuotesForPair (pc_id pair) (js_sub nowMs HISTORY_WINDOW_MS) None db;
         historyRows = detail_history pair db nowMs;
         core = detail_core pair historyRows nowMs;
         readiness = buildPairReadinessMatrix pair (map toReadinessObservation historyRows)
           (buildQuoteStatsFromRows lc (map snd quoteRows)) None None;
         replay = runHoldHorizonReplay (map toHoldHorizonObservation historyRows)
           \<lparr> ho_minNetEdgeBps = pc_minNetEdgeBps pair, ho_transactionCostBps = transactionCostBps, ho_horizonsMs = HOLD_HORIZONS_MS \<rparr>;
         stats = detail_stats sq ln2 pair historyRows nowMs;
         route = buildRouteStability lc (map toRouteStabilityRow quoteRows) HISTORY_WINDOW_MS None None;
         distribution = toQualityDistribution (buildQualityDistributionRows lc historyRows);
         vt = buildVerdictFor pair readiness distribution replay stats route HISTORY_WINDOW_MS;
         gross = referenceGrossBps costs core
     in \<lparr> pd_pair = pair, pd_orientation = pn_orientation core, pd_verdict = fst vt,
          pd_currentOpportunity = pn_currentOpportunity core, pd_bestDiagnosticBuy = pn_bestDiagnosticBuy core,
          pd_bestDiagnosticSell = pn_bestDiagnosticSell core, pd_observationCount24h = length historyRows,
          pd_liveSampleCount24h = liveEligibleCount distribution,
          pd_quoteSurface = toQuoteSurface lc (latestRowsBySideSize historyRows),
          pd_basisSeries = map (map_option toBasisSeriesPoint) (downsample historyRows BASIS_SERIES_LIMIT),
          pd_qualityDistribution = distribution,
          pd_timeRegimeSummary = toTimeRegimeSummary (pc_assetClass pair) (buildRegimeSummaryRows lc historyRows),
          pd_pairReadiness = readiness,
          pd_twoSizeBacktest = runTwoSizeBacktestV2 (map toBacktestObservation historyRows)
            \<lparr> to_minNetEdgeBps = pc_minNetEdgeBps pair, to_transactionCostBps = transactionCostBps, to_minLiveSamples = Num 20,
              to_researchOnly = Some (pm_status readiness \<noteq> READY) \<rparr>,
          pd_holdHorizonReplay = replay, pd_statSummary = stats, pd_routeStability = route, pd_tokenValidation = snd vt,
          pd_costWaterfall = buildCostWaterfall gross costs,
          pd_costScenarios = buildCostScenarios gross costs (dp_routeFailureHaircutBps opts), pd_costInputsBps = costs,
          pd_signalHistory = map toSignalHistory (drop (length signals - 50) signals),
          pd_profitability = summarize (map closed_signal (liveEligibleSignals signals)) nowMs,
          pd_bestBuy = pn_bestBuy core, pd_bestSell = pn_bestSell core, pd_bestSpread = pn_bestSpread core,
          pd_quoteAgeMs = pn_quoteAgeMs core \<rparr>)"

section \<open>Counting\<close>

definition counts :: "'k list \<Rightarrow> ('k, nat) dict" where
  "counts ks = foldl count_up [] ks"

lemma counts_get: "dict_get (counts ks) k = (if k \<in> set ks then Some (count_list ks k) else None)"
proof (induction ks rule: rev_induct)
  case (snoc x xs)
  then show ?case by (auto simp add: counts_def count_up_def dict_laws option_or_def count_list_0_iff)
qed (simp add: counts_def)

lemma counts_ok: "dict_ok (counts ks)"
  by (induction ks rule: rev_induct) (simp_all add: counts_def count_up_def dict_ok_set)

lemma counts_entry: "(k, n) \<in> set (counts ks) \<longleftrightarrow> k \<in> set ks \<and> n = count_list ks k"
proof -
  have "(k, n) \<in> set (counts ks) \<longleftrightarrow> dict_get (counts ks) k = Some n"
    using counts_ok [of ks] by (simp add: dict_get_map_of dict_ok_def)
  then show ?thesis by (auto simp add: counts_get)
qed

lemma dict_set_sum:
  "dict_ok d \<Longrightarrow> sum_list (map snd (dict_set d k v)) + option_or (dict_get d k) 0 = sum_list (map snd d) + (v :: nat)"
proof (induction d k v rule: dict_set.induct)
  case (2 k' w d k v)
  then show ?case by (auto simp add: dict_ok_def option_or_def)
qed (simp add: option_or_def)

lemma counts_sum: "sum_list (map snd (counts ks)) = length ks"
proof (induction ks rule: rev_induct)
  case (snoc x xs)
  then show ?case using dict_set_sum [OF counts_ok [of xs], of x "Suc (option_or (dict_get (counts xs) x) 0)"]
    by (simp add: counts_def count_up_def)
qed (simp add: counts_def)

lemma foldl_count_up: "foldl (\<lambda>d row. count_up d (f row)) d0 rows = foldl count_up d0 (map f rows)"
  by (induction rows arbitrary: d0) simp_all

lemma sum_list_sort: "sum_list (map f (js_sort gt xs)) = sum_list (map (f :: 'a \<Rightarrow> nat) xs)"
  by (metis mset_js_sort mset_map sum_mset_sum_list)

definition share_row :: "nat \<Rightarrow> quoteQualityStatus \<times> nat \<Rightarrow> qualityShare" where
  "share_row all x = (case x of (s, n) \<Rightarrow> \<lparr> qs_qualityStatus = s, qs_observationCount = n, qs_observationPct = share_of n all \<rparr>)"

lemma share_row_simps [simp]:
  "qs_qualityStatus (share_row all x) = fst x" "qs_observationCount (share_row all x) = snd x"
  "qs_observationPct (share_row all x) = share_of (snd x) all"
  by (simp_all add: share_row_def split: prod.splits)

lemma distribution_counts:
  "buildQualityDistributionRows lc rows = js_sort (distribution_gt lc) (map (share_row (length rows)) (counts (map row_status rows)))"
  unfolding buildQualityDistributionRows_def Let_def counts_def
  by (subst foldl_count_up [of row_status]) (simp add: share_row_def [abs_def])

lemma counts_set: "set (counts ks) = (\<lambda>k. (k, count_list ks k)) ` set ks"
  by (auto simp add: counts_entry)

lemma set_distribution:
  "set (buildQualityDistributionRows lc rows) = (\<lambda>s. share_row (length rows) (s, count_list (map row_status rows) s)) ` row_status ` set rows"
  unfolding distribution_counts set_js_sort set_map counts_set image_image ..

text \<open>
  The distribution of the dossier: every status of the history once, with the number of its rows and its share,
  and the numbers add up to the number of rows.
\<close>

theorem distribution_is_exact:
  "distinct (map qs_qualityStatus (buildQualityDistributionRows lc rows)) \<and>
   set (map qs_qualityStatus (buildQualityDistributionRows lc rows)) = row_status ` set rows \<and>
   sum_list (map qs_observationCount (buildQualityDistributionRows lc rows)) = length rows \<and>
   list_all (\<lambda>q. qs_observationCount q = length (filter (\<lambda>r. row_status r = qs_qualityStatus q) rows) \<and>
     qs_observationPct q = share_of (qs_observationCount q) (length rows)) (buildQualityDistributionRows lc rows)"
proof (intro conjI)
  let ?c = "counts (map row_status rows)"
  have "distinct (map qs_qualityStatus (map (share_row (length rows)) ?c))"
    using counts_ok [of "map row_status rows"] by (simp add: dict_ok_def comp_def)
  moreover have "mset (map qs_qualityStatus (buildQualityDistributionRows lc rows)) = mset (map qs_qualityStatus (map (share_row (length rows)) ?c))"
    by (simp add: distribution_counts multiset.map_comp)
  ultimately show "distinct (map qs_qualityStatus (buildQualityDistributionRows lc rows))" by (metis mset_eq_imp_distinct_iff)
  show "set (map qs_qualityStatus (buildQualityDistributionRows lc rows)) = row_status ` set rows"
    by (simp add: set_distribution image_image)
  show "sum_list (map qs_observationCount (buildQualityDistributionRows lc rows)) = length rows"
    using counts_sum [of "map row_status rows"] by (simp add: distribution_counts sum_list_sort comp_def)
  have "count_list (map row_status rows) s = length (filter (\<lambda>r. row_status r = s) rows)" for s
    by (induction rows) auto
  then show "list_all (\<lambda>q. qs_observationCount q = length (filter (\<lambda>r. row_status r = qs_qualityStatus q) rows) \<and>
     qs_observationPct q = share_of (qs_observationCount q) (length rows)) (buildQualityDistributionRows lc rows)"
    by (auto simp add: list_all_iff set_distribution)
qed

section \<open>The query it replaces\<close>







section \<open>The age of the live slot\<close>

lemma latest_by_same:
  "rows \<noteq> [] \<Longrightarrow> \<forall>x \<in> set rows. x = r \<Longrightarrow> latest_by key rows = [r]"
proof -
  have "foldl (\<lambda>d row. dict_set d (key row) row) [(key r, r)] rows = [(key r, r)]" if "\<forall>x \<in> set rows. x = r" for rows
    using that by (induction rows) auto
  moreover assume "rows \<noteq> []" "\<forall>x \<in> set rows. x = r"
  ultimately show ?thesis by (cases rows) (simp_all add: latest_by_def)
qed

lemma set_basisHistory_one:
  "set (basisHistory i side sz since (Some (Suc n)) [r]) = (if bo_pairId r = i \<and> bo_side r = side \<and> bo_sizeUsd r = sz \<and>
     js_ge (bo_observedAt r) since then {mapBasisObservation r} else {})"
  by (simp add: basisHistory_def Let_def js_sort_def)

lemma detail_history_one:
  assumes "ad_basis db = [r]" "bo_pairId r = pc_id pair" "bo_side r \<in> set (pc_directions pair)" "bo_sizeUsd r \<in> set (pc_sizesUsd pair)"
    "js_ge (bo_observedAt r) (js_sub nowMs HISTORY_WINDOW_MS)"
  shows "set (detail_history pair db nowMs) = {mapBasisObservation r}"
proof -
  have "set (basisHistory (pc_id pair) side size (js_sub nowMs HISTORY_WINDOW_MS) (Some PAIR_DETAIL_HISTORY_LIMIT_PER_BUCKET) [r]) =
      (if bo_side r = side \<and> bo_sizeUsd r = size then {mapBasisObservation r} else {})" for side size
    using assms(2,5) set_basisHistory_one [where n = 4999] by (simp add: PAIR_DETAIL_HISTORY_LIMIT_PER_BUCKET_def)
  then show ?thesis using assms(3,4) unfolding detail_history_def assms(1) set_js_sort by auto
qed

lemma overview_empty:
  assumes "\<forall>r \<in> set (ad_basis db). \<not> js_ge (bo_observedAt r) (js_sub nowMs LATEST_WITHIN_MS)"
    "p \<in> set (ds_panels (buildSnapshot db nowMs telemetry))"
  shows "\<not> co_hasLiveOpportunity (pp_currentOpportunity p)"
proof -
  have "filter (\<lambda>row. js_ge (bo_observedAt row) (js_sub nowMs LATEST_WITHIN_MS)) (dashboard_rows db nowMs) = []"
    using assms(1) dashboard_rows_from unfolding filter_empty_conv by fastforce
  then have "dashboard_latest db nowMs = []" by (simp add: dashboard_latest_def latestRowsByPairSideSize_def latest_by_def)
  then show ?thesis using assms(2)
    by (auto simp add: snapshot_panels buildPanel_def Let_def groupBasisByPair_def option_or_def empty_buckets_def panel_slots(4)
      pickBestLive_def pickBest_def)
qed

text \<open>
  The primary slot of the dossier may hold a row of any age up to a day: one live row that is older than the
  five minutes of the overview is no live opportunity there, and is the live opportunity of the dossier.
\<close>

theorem dossier_shows_old_rows_as_live:
  assumes "ad_basis db = [r]" "bo_pairId r = pc_id pair" "bo_side r \<in> set (pc_directions pair)" "bo_sizeUsd r \<in> set (pc_sizesUsd pair)"
    "bo_qualityStatus r = Some LIVE_ELIGIBLE" "finite_prices r" "priced r"
    "js_ge (bo_observedAt r) (js_sub nowMs HISTORY_WINDOW_MS)" "\<not> js_ge (bo_observedAt r) (js_sub nowMs LATEST_WITHIN_MS)"
  shows "co_hasLiveOpportunity (pd_currentOpportunity (computePairDetail lc sq ln2 pair opts db nowMs)) \<and>
    (\<forall>p \<in> set (ds_panels (buildSnapshot db nowMs telemetry)). \<not> co_hasLiveOpportunity (pp_currentOpportunity p))"
proof
  let ?m = "mapBasisObservation r"
  have h: "set (detail_history pair db nowMs) = {?m}" by (rule detail_history_one [OF assms(1-4,8)])
  then have "detail_history pair db nowMs \<noteq> []" by auto
  then have l: "latestRowsBySideSize (detail_history pair db nowMs) = [?m]"
    unfolding latestRowsBySideSize_def using h by (intro latest_by_same) auto
  have m: "bo_live ?m" "finite_prices ?m" "priced ?m" using assms(5-7) by (simp_all add: option_or_def finite_prices_def priced_def)
  then have "pickBestLive [?m] kind = Some (toBestSideDto ?m (row_ratio ?m))" for kind
    by (simp add: pickBestLive_def pickBest_def best_step_keep side_candidate_iff)
  then have "co_hasLiveOpportunity (pn_currentOpportunity (detail_core pair (detail_history pair db nowMs) nowMs))"
    using assms(2) by (cases "bo_side r")
      (simp_all add: detail_core_def l groupBasisByPair_def group_step_def option_or_def empty_buckets_def panel_slots(4))
  then show "co_hasLiveOpportunity (pd_currentOpportunity (computePairDetail lc sq ln2 pair opts db nowMs))"
    by (simp add: computePairDetail_def Let_def)
next
  show "\<forall>p \<in> set (ds_panels (buildSnapshot db nowMs telemetry)). \<not> co_hasLiveOpportunity (pp_currentOpportunity p)"
    using overview_empty [of db nowMs _ telemetry] assms(1,9) by simp
qed

definition demo_options :: pairDetailOptions where
  "demo_options = \<lparr> dp_costInputsBps = \<lparr> ci_slippageBufferBps = Num 30, ci_landingCostBps = Num 5, ci_failureBufferBps = Num 5,
     ci_minProfitBps = Num 20 \<rparr>, dp_routeFailureHaircutBps = None \<rparr>"

theorem dossier_shows_old_rows_as_live_witness:
  "co_hasLiveOpportunity (pd_currentOpportunity (computePairDetail (\<lambda>_ _. 0) (\<lambda>x. x) (Num 1) one_size demo_options
     (one_row_db (demo_obs BuyTokenized 200 LIVE_ELIGIBLE 86400000)) (Num 169200000)))"
  using dossier_shows_old_rows_as_live [of "one_row_db (demo_obs BuyTokenized 200 LIVE_ELIGIBLE 86400000)"
      "demo_obs BuyTokenized 200 LIVE_ELIGIBLE 86400000" one_size "Num 169200000" "\<lambda>_ _. 0" "\<lambda>x. x" "Num 1" demo_options None]
  by (simp add: one_row_db_def demo_obs_def one_size_def finite_prices_def priced_def HISTORY_WINDOW_MS_def LATEST_WITHIN_MS_def
      js_sub_def js_eval)

section \<open>Quote statistics\<close>

definition acc_ok :: "quoteAcc \<Rightarrow> bool" where
  "acc_ok a \<longleftrightarrow> qa_okCount a \<le> qa_totalCount a \<and> dict_ok (qa_routers a) \<and> sum_list (map snd (qa_routers a)) = qa_okCount a"

lemma quote_acc_ok: "acc_ok a \<Longrightarrow> acc_ok (quote_acc a q) \<and> qa_totalCount (quote_acc a q) = Suc (qa_totalCount a) \<and>
    qa_okCount (quote_acc a q) = qa_okCount a + (if jq_status q = QOk then 1 else 0)"
  using dict_set_sum [of "qa_routers a" "option_or (jq_router q) ''UNKNOWN''" "Suc (option_or (dict_get (qa_routers a) (option_or (jq_router q) ''UNKNOWN'')) 0)"]
  by (auto simp add: acc_ok_def quote_acc_def Let_def count_up_def dict_ok_set)

definition book_ok :: "nat \<Rightarrow> nat \<Rightarrow> (string, quoteAcc) dict \<Rightarrow> bool" where
  "book_ok n k d \<longleftrightarrow> dict_ok d \<and> (\<forall>x \<in> set d. acc_ok (snd x)) \<and> sum_list (map (\<lambda>x. qa_totalCount (snd x)) d) = n \<and>
     sum_list (map (\<lambda>x. qa_okCount (snd x)) d) = k"

lemma dict_set_sum_on:
  "dict_ok d \<Longrightarrow> sum_list (map (\<lambda>x. f (snd x)) (dict_set d k v)) + (case dict_get d k of Some w \<Rightarrow> f w | None \<Rightarrow> 0) =
     sum_list (map (\<lambda>x. f (snd x)) d) + (f v :: nat)"
proof (induction d k v rule: dict_set.induct)
  case (2 k' w d k v)
  then show ?case by (auto simp add: dict_ok_def)
qed simp

lemma quote_step_ok:
  assumes "book_ok n k d" shows "book_ok (Suc n) (k + (if jq_status q = QOk then 1 else 0)) (quote_step d q)"
proof -
  define a where "a = option_or (dict_get d (quote_key q)) \<lparr> qa_side = jq_side q, qa_sizeUsd = jq_sizeUsd q, qa_totalCount = 0, qa_okCount = 0, qa_routers = [] \<rparr>"
  have ok: "dict_ok d" "\<forall>x \<in> set d. acc_ok (snd x)" using assms by (simp_all add: book_ok_def)
  have a: "acc_ok a"
  proof (cases "dict_get d (quote_key q)")
    case None
    then show ?thesis by (simp add: a_def option_or_def acc_ok_def)
  next
    case (Some w)
    then have "(quote_key q, w) \<in> set d" by (simp add: dict_get_map_of map_of_SomeD)
    then show ?thesis using ok(2) Some by (auto simp add: a_def option_or_def)
  qed
  have step: "quote_step d q = dict_set d (quote_key q) (quote_acc a q)" by (simp add: quote_step_def a_def)
  have cases: "(case dict_get d (quote_key q) of Some w \<Rightarrow> qa_totalCount w | None \<Rightarrow> 0) = qa_totalCount a"
    "(case dict_get d (quote_key q) of Some w \<Rightarrow> qa_okCount w | None \<Rightarrow> 0) = qa_okCount a"
    by (simp_all add: a_def option_or_def split: option.splits)
  have "acc_ok (snd x)" if "x \<in> set (quote_step d q)" for x
  proof -
    have "snd x \<in> set (map snd (dict_set d (quote_key q) (quote_acc a q)))" using that step by simp
    from subsetD [OF dict_set_values this] show ?thesis using ok(2) quote_acc_ok [OF a, of q] by auto
  qed
  moreover have "sum_list (map (\<lambda>x. qa_totalCount (snd x)) (quote_step d q)) = Suc n"
    "sum_list (map (\<lambda>x. qa_okCount (snd x)) (quote_step d q)) = k + (if jq_status q = QOk then 1 else 0)"
    using dict_set_sum_on [OF ok(1), of qa_totalCount "quote_key q" "quote_acc a q"]
      dict_set_sum_on [OF ok(1), of qa_okCount "quote_key q" "quote_acc a q"] quote_acc_ok [OF a, of q] assms
    unfolding cases step book_ok_def by simp_all
  ultimately show ?thesis using ok(1) unfolding book_ok_def step by (simp add: dict_ok_set)
qed

lemma quote_books: "book_ok (length rows) (length (filter (\<lambda>q. jq_status q = QOk) rows)) (foldl quote_step [] rows)"
proof (induction rows rule: rev_induct)
  case (snoc q rows)
  then show ?case using quote_step_ok [OF snoc, of q] by (cases "jq_status q = QOk") simp_all
qed (simp add: book_ok_def)

text \<open>
  The quote statistics lose no quote: the totals of the side and size groups add up to the quotes, the successes
  to the successful quotes, and in each group the routers account for exactly its successes.
\<close>

theorem quote_stats_add_up:
  "sum_list (map pq_totalCount (buildQuoteStatsFromRows lc rows)) = length rows \<and>
   sum_list (map pq_okCount (buildQuoteStatsFromRows lc rows)) = length (filter (\<lambda>q. jq_status q = QOk) rows) \<and>
   list_all (\<lambda>s. pq_okCount s \<le> pq_totalCount s \<and> sum_list (map rs_count (pq_routerDistribution s)) = pq_okCount s)
     (buildQuoteStatsFromRows lc rows)"
proof (intro conjI)
  note b = quote_books [of rows]
  show "sum_list (map pq_totalCount (buildQuoteStatsFromRows lc rows)) = length rows"
    "sum_list (map pq_okCount (buildQuoteStatsFromRows lc rows)) = length (filter (\<lambda>q. jq_status q = QOk) rows)"
    using b by (simp_all add: buildQuoteStatsFromRows_def sum_list_sort book_ok_def comp_def quote_stats_def)
  have "sum_list (map rs_count (pq_routerDistribution (quote_stats lc a))) = sum_list (map snd (qa_routers a))" for a
    by (simp add: quote_stats_def sum_list_sort comp_def split_def)
  then show "list_all (\<lambda>s. pq_okCount s \<le> pq_totalCount s \<and> sum_list (map rs_count (pq_routerDistribution s)) = pq_okCount s)
     (buildQuoteStatsFromRows lc rows)"
    using b unfolding list_all_iff buildQuoteStatsFromRows_def set_js_sort set_map
    by (auto simp add: book_ok_def acc_ok_def) (auto simp add: quote_stats_def)
qed

end
