(* ===== verification/ApiServer.thy ===== *)
theory ApiServer
  imports ApiDossier
begin

text \<open>
  services/stat-arb-bot/src/api/server.ts, http.ts and the request side of the handlers: the routes, the status
  codes, the two caches of the process, and what is answered while the database is down. The clock is the time
  of the request; a database that is down is a text. Strings are their UTF-8 bytes.
\<close>

section \<open>Percent encoding\<close>

definition HEX :: string where "HEX = ''0123456789ABCDEF''"

definition hex_digit :: "nat \<Rightarrow> char" where "hex_digit n = HEX ! n"

definition hex_value :: "char \<Rightarrow> nat option" where
  "hex_value c = (let n = of_char c :: nat in
     if 48 \<le> n \<and> n \<le> 57 then Some (n - 48)
     else if 65 \<le> n \<and> n \<le> 70 then Some (n - 55)
     else if 97 \<le> n \<and> n \<le> 102 then Some (n - 87) else None)"

datatype uriToken = Plain char | Escaped nat

fun uri_tokens :: "string \<Rightarrow> uriToken list option" where
  "uri_tokens [] = Some []"
| "uri_tokens (c # cs) = (if c \<noteq> CHR ''%'' then map_option ((#) (Plain c)) (uri_tokens cs)
     else (case cs of a # b # rest \<Rightarrow> (case (hex_value a, hex_value b) of
          (Some x, Some y) \<Rightarrow> map_option ((#) (Escaped (16 * x + y))) (uri_tokens rest) | _ \<Rightarrow> None) | _ \<Rightarrow> None))"

text \<open>
  The bytes of a UTF-8 sequence: after a lead byte so many continuation bytes are due, the next one in the
  range lo to hi; an unescaped character may not stand inside a sequence.
\<close>

fun lead_byte :: "nat \<Rightarrow> (nat \<times> nat \<times> nat) option" where
  "lead_byte b = (if b < 128 then Some (0, 128, 191) else if b < 194 then None else if b < 224 then Some (1, 128, 191)
     else if b = 224 then Some (2, 160, 191) else if b = 237 then Some (2, 128, 159) else if b < 240 then Some (2, 128, 191)
     else if b = 240 then Some (3, 144, 191) else if b < 244 then Some (3, 128, 191) else if b = 244 then Some (3, 128, 143) else None)"

fun uri_decode :: "nat \<times> nat \<times> nat \<Rightarrow> uriToken list \<Rightarrow> string option" where
  "uri_decode (due, lo, hi) [] = (if due = 0 then Some [] else None)"
| "uri_decode (due, lo, hi) (Plain c # ts) = (if due = 0 then map_option ((#) c) (uri_decode (0, 128, 191) ts) else None)"
| "uri_decode (due, lo, hi) (Escaped b # ts) =
    (if due = 0 then (case lead_byte b of None \<Rightarrow> None | Some next \<Rightarrow> map_option ((#) (char_of b)) (uri_decode next ts))
     else if lo \<le> b \<and> b \<le> hi then map_option ((#) (char_of b)) (uri_decode (due - 1, 128, 191) ts) else None)"

definition decodeURIComponent :: "string \<Rightarrow> string option" where
  "decodeURIComponent s = Option.bind (uri_tokens s) (uri_decode (0, 128, 191))"

definition unreserved :: "char \<Rightarrow> bool" where
  "unreserved c \<longleftrightarrow> (let n = of_char c :: nat in 48 \<le> n \<and> n \<le> 57 \<or> 65 \<le> n \<and> n \<le> 90 \<or> 97 \<le> n \<and> n \<le> 122) \<or>
     c \<in> set ''-_.!~*()'' \<or> c = CHR 0x27"

definition encode_char :: "char \<Rightarrow> string" where
  "encode_char c = (if unreserved c then [c]
     else [CHR ''%'', hex_digit ((of_char c :: nat) div 16), hex_digit ((of_char c :: nat) mod 16)])"

definition encodeURIComponent :: "string \<Rightarrow> string" where
  "encodeURIComponent s = concat (map encode_char s)"

definition well_formed :: "string \<Rightarrow> bool" where
  "well_formed s \<longleftrightarrow> uri_decode (0, 128, 191) (map (\<lambda>c. Escaped (of_char c)) s) \<noteq> None"

section \<open>Requests and responses (server.ts, http.ts)\<close>

record apiRequest =
  rx_method :: string
  rx_pathname :: string

datatype apiBody = HealthBody healthResponseDto | DashboardBody dashboardSnapshotDto | DossierBody pairDetailDto
  | ErrorBody string | PairNotFound string | PathNotFound string | NoBody

record apiResponse =
  rs_status :: nat
  rs_headers :: "(string \<times> string) list"
  rs_body :: apiBody

record apiOptions =
  ao_corsOrigin :: "string option"
  ao_costInputsBps :: costInputsBps
  ao_routeFailureHaircutBps :: "jsnum option"

record apiEnv =
  av_now :: jsnum
  av_db :: "string + apiDb"
  av_telemetry :: "telemetrySnapshot option"
  av_localeCompare :: "string \<Rightarrow> string \<Rightarrow> int"
  av_sqrt :: "jsnum \<Rightarrow> jsnum"
  av_ln2 :: jsnum

record apiState =
  as_snapshotCache :: "dashboardSnapshotDto ttlCache"
  as_pairDetailCache :: "pairDetailDto ttlCache"

definition DEFAULT_CACHE_TTL_MS :: jsnum where "DEFAULT_CACHE_TTL_MS = Num 60000"
definition DEFAULT_PAIR_DETAIL_TTL_MS :: jsnum where "DEFAULT_PAIR_DETAIL_TTL_MS = Num 300000"

definition fresh_api :: apiState where
  "fresh_api = \<lparr> as_snapshotCache = \<lparr> tc_store = [], tc_defaultTtlMs = DEFAULT_CACHE_TTL_MS, tc_defaultStaleTtlMs = js_mul DEFAULT_CACHE_TTL_MS (Num 10) \<rparr>,
     as_pairDetailCache = \<lparr> tc_store = [], tc_defaultTtlMs = DEFAULT_PAIR_DETAIL_TTL_MS, tc_defaultStaleTtlMs = js_mul DEFAULT_PAIR_DETAIL_TTL_MS (Num 10) \<rparr> \<rparr>"

text \<open>A call of memo that no other call overlaps.\<close>

definition memo :: "string \<Rightarrow> jsnum \<Rightarrow> (string, 'v) result \<Rightarrow> 'v ttlCache \<Rightarrow> (string, 'v) result \<times> 'v ttlCache" where
  "memo key now computed c = (case memo_start key now c of
     Inr v \<Rightarrow> (Inr v, c)
   | Inl entry \<Rightarrow> memo_end None None key now entry computed c)"

definition commonHeaders :: "string \<Rightarrow> (string \<times> string) list" where
  "commonHeaders corsOrigin = [(''Access-Control-Allow-Origin'', corsOrigin), (''Access-Control-Allow-Methods'', ''GET, OPTIONS''),
     (''Access-Control-Allow-Headers'', ''content-type''), (''Cache-Control'', ''no-store'')]"

text \<open>Trailing slashes are dropped; the empty path is the root.\<close>

definition normalizePath :: "string \<Rightarrow> string" where
  "normalizePath pathname = (let p = rev (dropWhile (\<lambda>c. c = CHR ''/'') (rev pathname)) in if p = [] then ''/'' else p)"

definition PAIR_PREFIX :: string where "PAIR_PREFIX = ''/api/pairs/''"

definition pair_segment :: "string \<Rightarrow> string option" where
  "pair_segment path = (let seg = drop (length PAIR_PREFIX) path in
     if take (length PAIR_PREFIX) path = PAIR_PREFIX \<and> seg \<noteq> [] \<and> CHR ''/'' \<notin> set seg then Some seg else None)"

definition handleHealth :: "apiEnv \<Rightarrow> (string, nat \<times> apiBody) result" where
  "handleHealth e = (case av_db e of Inl err \<Rightarrow> Inl err
     | Inr db \<Rightarrow> (case health_body (av_now e) (latestHeartbeat db) (av_telemetry e) of (code, body) \<Rightarrow> Inr (code, HealthBody body)))"

definition handleDashboard :: "apiEnv \<Rightarrow> apiState \<Rightarrow> (string, nat \<times> apiBody) result \<times> apiState" where
  "handleDashboard e s =
    (case memo ''snapshot'' (av_now e) (case av_db e of Inl err \<Rightarrow> Inl err | Inr db \<Rightarrow> Inr (buildSnapshot db (av_now e) (av_telemetry e)))
       (as_snapshotCache s) of (out, c) \<Rightarrow>
      ((case out of Inl err \<Rightarrow> Inl err | Inr snapshot \<Rightarrow> Inr (200, DashboardBody (overlay_telemetry (av_telemetry e) snapshot))),
       s\<lparr> as_snapshotCache := c \<rparr>))"

definition handlePairDetail :: "apiOptions \<Rightarrow> apiEnv \<Rightarrow> string \<Rightarrow> apiState \<Rightarrow> (string, nat \<times> apiBody) result \<times> apiState" where
  "handlePairDetail o' e i s = (case av_db e of Inl err \<Rightarrow> (Inl err, s)
     | Inr db \<Rightarrow> (case getPair i db of None \<Rightarrow> (Inr (404, PairNotFound i), s)
        | Some pair \<Rightarrow> (case memo (''pair:'' @ i) (av_now e)
              (Inr (computePairDetail (av_localeCompare e) (av_sqrt e) (av_ln2 e) pair
                \<lparr> dp_costInputsBps = ao_costInputsBps o', dp_routeFailureHaircutBps = ao_routeFailureHaircutBps o' \<rparr> db (av_now e)))
              (as_pairDetailCache s) of (out, c) \<Rightarrow>
            (map_sum id (\<lambda>body. (200, DossierBody body)) out, s\<lparr> as_pairDetailCache := c \<rparr>))))"

text \<open>The handler of a request; a throw is answered with status 500 by createApiServer.\<close>

definition handleRequest :: "apiOptions \<Rightarrow> apiEnv \<Rightarrow> apiRequest \<Rightarrow> apiState \<Rightarrow> (string, nat \<times> apiBody) result \<times> apiState" where
  "handleRequest o' e rq s =
    (if rx_method rq = ''OPTIONS'' then (Inr (204, NoBody), s)
     else if rx_method rq \<noteq> ''GET'' then (Inr (405, ErrorBody ''method not allowed''), s)
     else let path = normalizePath (rx_pathname rq) in
       if path = ''/api/health'' then (handleHealth e, s)
       else if path = ''/api/dashboard'' then handleDashboard e s
       else (case pair_segment path of
           Some seg \<Rightarrow> (case decodeURIComponent seg of
               Some i \<Rightarrow> handlePairDetail o' e i s
             | None \<Rightarrow> (Inl ''URI malformed'', s))
         | None \<Rightarrow> (Inr (404, PathNotFound path), s)))"

definition createApiServer :: "apiOptions \<Rightarrow> apiEnv \<Rightarrow> apiRequest \<Rightarrow> apiState \<Rightarrow> apiResponse \<times> apiState" where
  "createApiServer o' e rq s = (case handleRequest o' e rq s of (out, s') \<Rightarrow>
     (\<lparr> rs_status = (case out of Inr (code, _) \<Rightarrow> code | Inl _ \<Rightarrow> 500),
        rs_headers = commonHeaders (option_or (ao_corsOrigin o') ''*''),
        rs_body = (case out of Inr (_, body) \<Rightarrow> body | Inl err \<Rightarrow> ErrorBody err) \<rparr>, s'))"

section \<open>Percent encoding is undone\<close>

lemma hex_value_digit: "n < 16 \<Longrightarrow> hex_value (hex_digit n) = Some n"
proof -
  have "list_all (\<lambda>n. hex_value (hex_digit n) = Some n) [0..<16]" by code_simp
  then show "n < 16 \<Longrightarrow> ?thesis" by (simp add: list_all_iff)
qed

lemma uri_tokens_unreserved: "c \<noteq> CHR ''%'' \<Longrightarrow> uri_tokens (c # cs) = map_option ((#) (Plain c)) (uri_tokens cs)"
  by simp

lemma uri_tokens_escape:
  "uri_tokens (CHR ''%'' # hex_digit ((of_char c :: nat) div 16) # hex_digit ((of_char c :: nat) mod 16) # cs) =
     map_option ((#) (Escaped (of_char c))) (uri_tokens cs)"
proof -
  have "(of_char c :: nat) < 256" by simp
  then have "(of_char c :: nat) div 16 < 16" by (simp only: div_less_iff_less_mult)
  then show ?thesis by (simp add: hex_value_digit)
qed

definition encoded_token :: "char \<Rightarrow> uriToken" where
  "encoded_token c = (if unreserved c then Plain c else Escaped (of_char c))"

lemma unreserved_facts: "unreserved c \<Longrightarrow> c \<noteq> CHR ''%'' \<and> c \<noteq> CHR ''/'' \<and> (of_char c :: nat) < 128"
  by (auto simp add: unreserved_def Let_def)

lemma tokens_encoded: "uri_tokens (encodeURIComponent s @ t) = map_option ((@) (map encoded_token s)) (uri_tokens t)"
proof (induction s)
  case (Cons c s)
  show ?case
  proof (cases "unreserved c")
    case True
    then have "encode_char c = [c]" "encoded_token c = Plain c" "c \<noteq> CHR ''%''"
      using unreserved_facts [of c] by (simp_all add: encode_char_def encoded_token_def)
    then show ?thesis using Cons.IH by (simp add: encodeURIComponent_def option.map_comp comp_def del: uri_tokens.simps(2))
        (simp add: option.map_comp comp_def)
  next
    case False
    then have "encode_char c = [CHR ''%'', hex_digit ((of_char c :: nat) div 16), hex_digit ((of_char c :: nat) mod 16)]"
      "encoded_token c = Escaped (of_char c)" by (simp_all add: encode_char_def encoded_token_def)
    then show ?thesis using Cons.IH
      by (simp add: encodeURIComponent_def uri_tokens_escape option.map_comp comp_def del: uri_tokens.simps(2))
  qed
qed (simp add: encodeURIComponent_def option.map_ident)


lemma decode_encoded:
  "128 \<le> lo \<Longrightarrow> uri_decode (due, lo, hi) (map encoded_token s) = uri_decode (due, lo, hi) (map (\<lambda>c. Escaped (of_char c)) s)"
proof (induction s arbitrary: due lo hi)
  case (Cons c s)
  show ?case
  proof (cases "unreserved c")
    case True
    then have "(of_char c :: nat) < 128" by (simp add: unreserved_facts)
    then show ?thesis using True Cons by (simp add: encoded_token_def)
  next
    case False
    have "uri_decode st (map encoded_token s) = uri_decode st (map (\<lambda>c. Escaped (of_char c)) s)"
      if "lead_byte b = Some st" for b st
      using that Cons.IH by (cases st) (auto split: if_splits)
    moreover have "encoded_token c = Escaped (of_char c)" using False by (simp add: encoded_token_def)
    ultimately show ?thesis using Cons.IH by (simp del: lead_byte.simps split: option.splits)
  qed
qed simp

lemma decode_bytes: "uri_decode st (map (\<lambda>c. Escaped (of_char c)) s) = Some t \<Longrightarrow> t = s"
proof (induction s arbitrary: st t)
  case Nil
  then show ?case by (cases st) (simp split: if_splits)
next
  case (Cons c s)
  then show ?case by (cases st) (auto simp del: lead_byte.simps split: if_splits option.splits)
qed

lemma decode_encode: "well_formed s \<Longrightarrow> decodeURIComponent (encodeURIComponent s) = Some s"
  using tokens_encoded [of s "[]"] decode_encoded [of 128 0 191 s] decode_bytes
  by (auto simp add: decodeURIComponent_def well_formed_def)

lemma encode_no_slash: "CHR ''/'' \<notin> set (encodeURIComponent s)"
proof -
  have "list_all (\<lambda>n. hex_digit n \<noteq> CHR ''/'') [0..<16]" by code_simp
  then have h: "hex_digit n \<noteq> CHR ''/''" if "n < 16" for n using that by (simp add: list_all_iff)
  have "CHR ''/'' \<notin> set (encode_char c)" for c
  proof -
    have "(of_char c :: nat) < 256" by simp
    then have "(of_char c :: nat) div 16 < 16" by (simp only: div_less_iff_less_mult)
    then show ?thesis using h [of "(of_char c :: nat) div 16"] h [of "(of_char c :: nat) mod 16"] unreserved_facts [of c]
      by (auto simp add: encode_char_def)
  qed
  then show ?thesis by (simp add: encodeURIComponent_def)
qed

lemma encode_nonempty: "s \<noteq> [] \<Longrightarrow> encodeURIComponent s \<noteq> []"
  by (cases s) (auto simp add: encodeURIComponent_def encode_char_def)

lemma normalize_no_slash:
  "xs \<noteq> [] \<Longrightarrow> last xs \<noteq> CHR ''/'' \<Longrightarrow> normalizePath xs = xs"
  by (cases xs rule: rev_cases) (simp_all add: normalizePath_def Let_def)

definition pair_request :: "string \<Rightarrow> apiRequest" where
  "pair_request i = \<lparr> rx_method = ''GET'', rx_pathname = PAIR_PREFIX @ encodeURIComponent i \<rparr>"

definition dashboard_request :: apiRequest where
  "dashboard_request = \<lparr> rx_method = ''GET'', rx_pathname = ''/api/dashboard'' \<rparr>"

lemma pair_request_routed:
  assumes "i \<noteq> []" "well_formed i"
  shows "handleRequest o' e (pair_request i) s = handlePairDetail o' e i s"
proof -
  let ?seg = "encodeURIComponent i"
  have ne: "?seg \<noteq> []" using assms(1) by (rule encode_nonempty)
  then have "last ?seg \<noteq> CHR ''/''" using encode_no_slash [of i] last_in_set by metis
  then have n: "normalizePath (PAIR_PREFIX @ ?seg) = PAIR_PREFIX @ ?seg" using ne by (intro normalize_no_slash) simp_all
  have seg: "pair_segment (PAIR_PREFIX @ ?seg) = Some ?seg" using ne encode_no_slash [of i] by (simp add: pair_segment_def)
  have other: "PAIR_PREFIX @ ?seg \<noteq> ''/api/health''" "PAIR_PREFIX @ ?seg \<noteq> ''/api/dashboard''" by (simp_all add: PAIR_PREFIX_def)
  show ?thesis unfolding handleRequest_def pair_request_def
    by (simp add: n seg other decode_encode [OF assms(2)] Let_def)
qed

lemma dashboard_request_routed: "handleRequest o' e dashboard_request s = handleDashboard e s"
  by (simp add: handleRequest_def dashboard_request_def normalizePath_def Let_def)

text \<open>
  Every pair can be asked for: the path the front end builds with encodeURIComponent is routed to the dossier of
  exactly that id, whatever bytes a well-formed id holds, slashes and percent signs included.
\<close>

theorem pair_ids_round_trip:
  assumes "i \<noteq> []" "well_formed i"
  shows "decodeURIComponent (encodeURIComponent i) = Some i \<and> pair_segment (normalizePath (rx_pathname (pair_request i))) = Some (encodeURIComponent i) \<and>
    handleRequest o' e (pair_request i) s = handlePairDetail o' e i s"
proof -
  let ?seg = "encodeURIComponent i"
  have ne: "?seg \<noteq> []" using assms(1) by (rule encode_nonempty)
  then have "last ?seg \<noteq> CHR ''/''" using encode_no_slash [of i] last_in_set by metis
  then have "normalizePath (PAIR_PREFIX @ ?seg) = PAIR_PREFIX @ ?seg" using ne by (intro normalize_no_slash) simp_all
  then show ?thesis using ne encode_no_slash [of i] decode_encode [OF assms(2)] pair_request_routed [OF assms]
    by (simp add: pair_request_def pair_segment_def)
qed

section \<open>While the database is down\<close>

text \<open>
  The stale band of the cache covers the overview only. While the database is down the overview is answered from
  its entry as long as the entry is fresh or stale, the dossier of every pair fails at once with 500 - the pair
  is looked up before the cache is asked, so a fresh body does not help - and so does the health check.
\<close>

theorem outage:
  assumes "av_db e = Inl err" and "i \<noteq> []" "well_formed i"
  shows "rs_status (fst (createApiServer o' e (pair_request i) s)) = 500 \<and>
    rs_status (fst (createApiServer o' e dashboard_request s)) =
      (case dict_get (tc_store (as_snapshotCache s)) ''snapshot'' of
         Some entry \<Rightarrow> if js_gt (ce_freshUntilMs entry) (av_now e) \<or> js_gt (ce_staleUntilMs entry) (av_now e) then 200 else 500
       | None \<Rightarrow> 500)"
  using assms unfolding createApiServer_def pair_request_routed [OF assms(2,3)] dashboard_request_routed
  by (auto simp add: handlePairDetail_def handleDashboard_def memo_def memo_start_def memo_end_def split: option.splits)

definition down :: apiEnv where
  "down = \<lparr> av_now = Num 90000, av_db = Inl ''connection refused'', av_telemetry = None, av_localeCompare = (\<lambda>_ _. 0), av_sqrt = (\<lambda>x. x),
     av_ln2 = Num 1 \<rparr>"

definition demo_api_options :: apiOptions where
  "demo_api_options = \<lparr> ao_corsOrigin = None, ao_costInputsBps = dp_costInputsBps demo_options, ao_routeFailureHaircutBps = None \<rparr>"

definition demo_api :: apiState where
  "demo_api = fresh_api\<lparr> as_snapshotCache := \<lparr> tc_store = [(''snapshot'', \<lparr> ce_value = \<lparr> ds_panels = [], ds_heartbeat = None, ds_schedulerTelemetry = None \<rparr>,
     ce_freshUntilMs = Num 60000, ce_staleUntilMs = Num 660000, ce_storedAtMs = Num 0 \<rparr>)],
     tc_defaultTtlMs = Num 60000, tc_defaultStaleTtlMs = Num 600000 \<rparr> \<rparr>"

lemma demo_id: "well_formed ''a/b%''"
  by (simp add: well_formed_def)

theorem pair_ids_round_trip_witness:
  "encodeURIComponent ''a/b%'' = ''a%2Fb%25'' \<and> decodeURIComponent (encodeURIComponent ''a/b%'') = Some ''a/b%''"
  using pair_ids_round_trip [of "''a/b%''" demo_api_options down demo_api] demo_id
  by (simp add: encodeURIComponent_def encode_char_def unreserved_def hex_digit_def HEX_def)

theorem outage_witness:
  "rs_status (fst (createApiServer demo_api_options down (pair_request ''a/b%'') demo_api)) = 500 \<and>
   rs_status (fst (createApiServer demo_api_options down dashboard_request demo_api)) = 200"
  using outage [of down "''connection refused''" "''a/b%''" demo_api_options demo_api] demo_id
  by (simp add: down_def demo_api_def)

end
