(* ===== verification/CloseFlow.thy ===== *)
theory CloseFlow
  imports Program Chains
begin

text \<open>
  src/src/lib/close-automation.ts: closing an automation on-chain - the checks before it, the close instruction
  for the kind of its first action, the token accounts of the owner created beside it, the leftover token
  accounts of the automation that are drained with it, and the transaction sent. The connection and the wallet
  are the fields of closeHost; the mint of a token account is the first 32 bytes of its data.
\<close>

section \<open>The connection and the wallet\<close>

record accountMeta =
  am_pubkey :: pubkey
  am_isSigner :: bool
  am_isWritable :: bool

text \<open>An instruction of the transaction with its remaining accounts.\<close>

record txStep =
  st_ix :: instruction
  st_remaining :: "accountMeta list"

record closeHost =
  ch_accountInfo :: account_info
  ch_treasury :: "(js_error, pubkey) result"
  ch_tokenAccounts :: "pubkey \<Rightarrow> pubkey \<Rightarrow> (js_error, (pubkey \<times> pubkey) list) result"
  ch_blockhash :: "(js_error, string) result"
  ch_sign :: "txStep list \<Rightarrow> (js_error, txStep list) result"
  ch_send :: "txStep list \<Rightarrow> (js_error, string) result"
  ch_confirm :: "string \<Rightarrow> (js_error, string option) result"

datatype closeError = CloseFailed js_error | OrphanedAutomationError string string string

definition step_of :: "instruction \<Rightarrow> txStep" where
  "step_of ix = \<lparr> st_ix = ix, st_remaining = [] \<rparr>"

definition prependOwnerAtaCreate :: "pubkey \<Rightarrow> pubkey \<Rightarrow> pubkey \<Rightarrow> pubkey \<Rightarrow> txStep" where
  "prependOwnerAtaCreate own ownerAta mint tokenProgram = step_of (IxCreateAta own ownerAta own mint tokenProgram)"

text \<open>new PublicKey of a text may throw; an empty cached program is not used.\<close>

definition new_pubkey :: "solana \<Rightarrow> string \<Rightarrow> (js_error, pubkey) result" where
  "new_pubkey S s = opt_or_throw (ErrorMsg ''Invalid public key input'') (parse_pubkey S s)"

definition pickTokenProgram :: "solana \<Rightarrow> closeHost \<Rightarrow> string option \<Rightarrow> pubkey \<Rightarrow> (js_error, pubkey) result" where
  "pickTokenProgram S H cached mint = (if str_truthy cached then new_pubkey S (case cached of Some c \<Rightarrow> c | None \<Rightarrow> [])
     else resolveMintTokenProgram (ch_accountInfo H) mint)"

section \<open>Leftover token accounts\<close>

record dustAta =
  du_pdaAta :: pubkey
  du_mint :: pubkey
  du_tokenProgram :: pubkey

text \<open>The canonical account of the automation for a mint other than the input mint.\<close>

definition is_dust :: "solana \<Rightarrow> pubkey \<Rightarrow> pubkey \<Rightarrow> pubkey \<Rightarrow> pubkey \<times> pubkey \<Rightarrow> bool" where
  "is_dust S pda inputMint tokenProgram a \<longleftrightarrow> snd a \<noteq> inputMint \<and>
     associatedTokenAddressForProgram S pda (snd a) tokenProgram = fst a"

definition dust_of :: "solana \<Rightarrow> pubkey \<Rightarrow> pubkey \<Rightarrow> pubkey \<Rightarrow> (pubkey \<times> pubkey) list \<Rightarrow> dustAta list" where
  "dust_of S pda inputMint tokenProgram accs = map (\<lambda>a. \<lparr> du_pdaAta = fst a, du_mint = snd a, du_tokenProgram = tokenProgram \<rparr>)
     (filter (is_dust S pda inputMint tokenProgram) accs)"

definition collectPdaDustAtas :: "solana \<Rightarrow> closeHost \<Rightarrow> pubkey \<Rightarrow> pubkey \<Rightarrow> (js_error, dustAta list) result" where
  "collectPdaDustAtas S H pda inputMint =
     and_then (ch_tokenAccounts H pda SPL_TOKEN_PROGRAM_ID) (\<lambda>spl.
     and_then (ch_tokenAccounts H pda TOKEN_2022_PROGRAM_ID) (\<lambda>t22.
     Inr (dust_of S pda inputMint SPL_TOKEN_PROGRAM_ID spl @ dust_of S pda inputMint TOKEN_2022_PROGRAM_ID t22)))"

definition owner_dust_ata :: "solana \<Rightarrow> pubkey \<Rightarrow> dustAta \<Rightarrow> pubkey" where
  "owner_dust_ata S own d = associatedTokenAddressForProgram S own (du_mint d) (du_tokenProgram d)"

definition dust_triple :: "solana \<Rightarrow> pubkey \<Rightarrow> dustAta \<Rightarrow> accountMeta list" where
  "dust_triple S own d =
     [\<lparr> am_pubkey = du_pdaAta d, am_isSigner = False, am_isWritable = True \<rparr>,
      \<lparr> am_pubkey = owner_dust_ata S own d, am_isSigner = False, am_isWritable = True \<rparr>,
      \<lparr> am_pubkey = du_mint d, am_isSigner = False, am_isWritable = False \<rparr>]"

definition dust_create :: "solana \<Rightarrow> pubkey \<Rightarrow> dustAta \<Rightarrow> txStep" where
  "dust_create S own d = prependOwnerAtaCreate own (owner_dust_ata S own d) (du_mint d) (du_tokenProgram d)"

section \<open>The transaction\<close>

definition swap_close_steps ::
  "solana \<Rightarrow> anchor \<Rightarrow> closeHost \<Rightarrow> pubkey \<Rightarrow> pubkey \<Rightarrow> pubkey \<Rightarrow> pubkey \<Rightarrow> swapAction \<Rightarrow> (js_error, txStep list) result" where
  "swap_close_steps S A H prog own automation treasury sw =
     and_then (new_pubkey S (tr_mint (sw_inputToken sw))) (\<lambda>inputMint.
     and_then (pickTokenProgram S H (tr_tokenProgram (sw_inputToken sw)) inputMint) (\<lambda>tp.
     and_then (buildCloseAutomationSwapIx S A prog own automation inputMint treasury (Some tp)) (\<lambda>(ix, ownerAta, automationAta).
     and_then (collectPdaDustAtas S H automation inputMint) (\<lambda>dust.
     let remaining = concat (map (dust_triple S own) dust);
         before = prependOwnerAtaCreate own ownerAta inputMint tp # map (dust_create S own) dust
     in if remaining = [] then Inr (before @ [step_of ix])
        else and_then (encode_ix A (IxCloseAutomationSwap [(''owner'', own), (''automation'', automation),
            (''config'', configPda S prog), (''treasury'', treasury), (''inputMint'', inputMint),
            (''ownerInputAta'', ownerAta), (''automationInputAta'', automationAta), (''tokenProgram'', tp)])) (\<lambda>ix2.
          Inr (before @ [\<lparr> st_ix = ix2, st_remaining = remaining \<rparr>]))))))"

definition spl_close_steps ::
  "solana \<Rightarrow> anchor \<Rightarrow> closeHost \<Rightarrow> pubkey \<Rightarrow> pubkey \<Rightarrow> pubkey \<Rightarrow> pubkey \<Rightarrow> tokenRef \<Rightarrow> (js_error, txStep list) result" where
  "spl_close_steps S A H prog own automation treasury token =
     and_then (new_pubkey S (tr_mint token)) (\<lambda>mint.
     and_then (pickTokenProgram S H (tr_tokenProgram token) mint) (\<lambda>tp.
     and_then (buildCloseAutomationSplIx S A prog own automation mint treasury (Some tp)) (\<lambda>(ix, ownerAta, _).
     Inr [prependOwnerAtaCreate own ownerAta mint tp, step_of ix])))"

definition close_steps ::
  "solana \<Rightarrow> anchor \<Rightarrow> closeHost \<Rightarrow> pubkey \<Rightarrow> pubkey \<Rightarrow> pubkey \<Rightarrow> pubkey \<Rightarrow> action \<Rightarrow> (js_error, txStep list) result" where
  "close_steps S A H prog own automation treasury act = (case act of
     Transfer token _ _ \<Rightarrow>
       if tr_mint token \<noteq> SOL_MINT_STR then spl_close_steps S A H prog own automation treasury token
       else and_then (buildCloseAutomationIx S A prog own automation treasury) (\<lambda>ix. Inr [step_of ix])
   | Swap sw \<Rightarrow> swap_close_steps S A H prog own automation treasury sw)"

text \<open>The outcome of the confirmation is not read: an error the cluster reports does not throw.\<close>

definition submit_close :: "closeHost \<Rightarrow> txStep list \<Rightarrow> (js_error, string) result" where
  "submit_close H tx =
     and_then (ch_blockhash H) (\<lambda>_.
     and_then (ch_sign H tx) (\<lambda>signed.
     and_then (ch_send H signed) (\<lambda>sig.
     and_then (ch_confirm H sig) (\<lambda>_. Inr sig))))"

definition as_failure :: "(js_error, 'a) result \<Rightarrow> (closeError, 'a) result" where
  "as_failure r = map_sum CloseFailed id r"

definition DEMO_CLOSE_SIG :: string where
  "DEMO_CLOSE_SIG = ''DemoCloseSig1111111111111111111111111111111111111111111111111111111111''"

definition closeAutomationOnChain ::
  "bool \<Rightarrow> solana \<Rightarrow> anchor \<Rightarrow> closeHost \<Rightarrow> pubkey option \<Rightarrow> pubkey option \<Rightarrow> automation \<Rightarrow> (closeError, string) result" where
  "closeAutomationOnChain demo S A H prog wallet target = (case wallet of
     None \<Rightarrow> Inl (CloseFailed (ErrorMsg ''wallet not connected''))
   | Some own \<Rightarrow>
      if \<not> str_truthy (au_pubkey target) then Inl (CloseFailed (ErrorMsg (''automation has no on-chain pubkey '' @ [CHR 0xE2, CHR 0x80, CHR 0x94] @ '' nothing to close'')))
      else if demo then Inr DEMO_CLOSE_SIG
      else (case au_actions target of
        [] \<Rightarrow> Inl (CloseFailed (ErrorMsg ''automation has no actions''))
      | act # _ \<Rightarrow>
         let pk = (case au_pubkey target of Some p \<Rightarrow> p | None \<Rightarrow> []) in
         and_then (as_failure (new_pubkey S pk)) (\<lambda>automation.
         case prog of None \<Rightarrow> Inl (CloseFailed (ErrorMsg ''Sotama program ID is not configured''))
         | Some expected \<Rightarrow>
           and_then (as_failure (ch_accountInfo H automation)) (\<lambda>info. case info of
             None \<Rightarrow> Inl (OrphanedAutomationError pk ''(account does not exist)'' expected)
           | Some actual \<Rightarrow>
              if actual \<noteq> expected then Inl (OrphanedAutomationError pk actual expected)
              else and_then (as_failure (ch_treasury H)) (\<lambda>treasury.
                and_then (as_failure (close_steps S A H expected own automation treasury act)) (\<lambda>tx.
                as_failure (submit_close H tx)))))))"


section \<open>Lemmas\<close>

lemma as_failure_Inr [result_simps]: "as_failure r = Inr x \<longleftrightarrow> r = Inr x"
  by (cases r) (simp_all add: as_failure_def)

lemma submit_close_Inr [result_simps]: "submit_close H tx = Inr sig \<longleftrightarrow>
   (\<exists>blockhash signed outcome. ch_blockhash H = Inr blockhash \<and> ch_sign H tx = Inr signed \<and> ch_send H signed = Inr sig \<and>
      ch_confirm H sig = Inr outcome)"
  by (auto simp add: submit_close_def result_simps)

lemma dust_of_iff: "d \<in> set (dust_of S pda inputMint tp accs) \<longleftrightarrow>
   (\<exists>a \<in> set accs. is_dust S pda inputMint tp a \<and> d = \<lparr> du_pdaAta = fst a, du_mint = snd a, du_tokenProgram = tp \<rparr>)"
  by (auto simp add: dust_of_def)

text \<open>The transaction that closes a swap: every create comes first, the close instruction is last and carries the
  triples of exactly the collected accounts, in their order.\<close>

lemma swap_close_shape:
  assumes "swap_close_steps S A H prog own automation treasury sw = Inr steps"
  shows "\<exists>inputMint tp dust ownerAta ix. parse_pubkey S (tr_mint (sw_inputToken sw)) = Some inputMint \<and>
     collectPdaDustAtas S H automation inputMint = Inr dust \<and>
     (\<exists>rest. ix = IxCloseAutomationSwap ((''owner'', own) # (''automation'', automation) # rest)) \<and>
     steps = prependOwnerAtaCreate own ownerAta inputMint tp # map (dust_create S own) dust @
       [\<lparr> st_ix = ix, st_remaining = concat (map (dust_triple S own) dust) \<rparr>]"
proof -
  from assms show ?thesis
    unfolding swap_close_steps_def Let_def new_pubkey_def
    by (auto simp add: result_simps step_of_def buildCloseAutomationSwapIx_def Let_def split: option.splits if_splits prod.splits) blast+
qed

section \<open>Properties\<close>

text \<open>C8: Only accounts of the program are closed. Outside the demo mode a close that returns a signature has read the
  account of the rule and found it owned by the configured program; the transaction it built from the first action
  for that account, signed by the wallet of the owner, is the one sent, and the signature is the one of the cluster.\<close>

theorem close_only_own_accounts:
  assumes "closeAutomationOnChain False S A H prog wallet target = Inr sig"
  shows "\<exists>own pk automation expected act rest treasury tx signed.
     wallet = Some own \<and> au_pubkey target = Some pk \<and> pk \<noteq> [] \<and> parse_pubkey S pk = Some automation \<and>
     prog = Some expected \<and> ch_accountInfo H automation = Inr (Some expected) \<and> ch_treasury H = Inr treasury \<and>
     au_actions target = act # rest \<and> close_steps S A H expected own automation treasury act = Inr tx \<and>
     ch_sign H tx = Inr signed \<and> ch_send H signed = Inr sig"
  using assms
  by (auto simp add: closeAutomationOnChain_def Let_def result_simps new_pubkey_def str_truthy_def
      split: option.splits list.splits if_splits)

text \<open>C9: No leftover is stranded. When a swap rule is closed, every token account the rule holds under either token
  program, of another mint than the input and at its canonical address, is in the transaction: the owner's account
  for that mint is created before the last instruction, which closes the rule for its owner and names the two
  accounts and the mint side by side.\<close>

theorem close_drains_dust:
  assumes "swap_close_steps S A H prog own automation treasury sw = Inr steps"
    and "parse_pubkey S (tr_mint (sw_inputToken sw)) = Some inputMint"
    and "tokenProgram = SPL_TOKEN_PROGRAM_ID \<or> tokenProgram = TOKEN_2022_PROGRAM_ID"
    and "ch_tokenAccounts H automation tokenProgram = Inr accs" "(ata, mint) \<in> set accs"
    and "mint \<noteq> inputMint" "ata = associatedTokenAddressForProgram S automation mint tokenProgram"
  shows "\<exists>rest pre post. st_ix (last steps) = IxCloseAutomationSwap ((''owner'', own) # (''automation'', automation) # rest) \<and>
     st_remaining (last steps) = pre @
       [\<lparr> am_pubkey = ata, am_isSigner = False, am_isWritable = True \<rparr>,
        \<lparr> am_pubkey = associatedTokenAddressForProgram S own mint tokenProgram, am_isSigner = False, am_isWritable = True \<rparr>,
        \<lparr> am_pubkey = mint, am_isSigner = False, am_isWritable = False \<rparr>] @ post \<and>
     step_of (IxCreateAta own (associatedTokenAddressForProgram S own mint tokenProgram) own mint tokenProgram) \<in> set (butlast steps)"
proof -
  obtain tp dust ownerAta ix where dust: "collectPdaDustAtas S H automation inputMint = Inr dust"
    and close: "\<exists>rest. ix = IxCloseAutomationSwap ((''owner'', own) # (''automation'', automation) # rest)"
    and steps: "steps = prependOwnerAtaCreate own ownerAta inputMint tp # map (dust_create S own) dust @
       [\<lparr> st_ix = ix, st_remaining = concat (map (dust_triple S own) dust) \<rparr>]"
    using swap_close_shape [OF assms(1)] assms(2) by auto
  let ?d = "\<lparr> du_pdaAta = ata, du_mint = mint, du_tokenProgram = tokenProgram \<rparr>"
  have "?d \<in> set (dust_of S automation inputMint tokenProgram accs)"
    using assms(5-7) by (auto simp add: dust_of_iff is_dust_def intro!: bexI [of _ "(ata, mint)"])
  then have "?d \<in> set dust" using dust assms(3,4) by (auto simp add: collectPdaDustAtas_def result_simps)
  then obtain a b where d: "dust = a @ ?d # b" by (meson split_list)
  have "steps = (prependOwnerAtaCreate own ownerAta inputMint tp # map (dust_create S own) dust) @
       [\<lparr> st_ix = ix, st_remaining = concat (map (dust_triple S own) dust) \<rparr>]" using steps by simp
  then have "last steps = \<lparr> st_ix = ix, st_remaining = concat (map (dust_triple S own) dust) \<rparr>"
    "butlast steps = prependOwnerAtaCreate own ownerAta inputMint tp # map (dust_create S own) dust"
    by (simp_all only: last_snoc butlast_snoc)
  moreover obtain rest where "ix = IxCloseAutomationSwap ((''owner'', own) # (''automation'', automation) # rest)" using close by blast
  ultimately show ?thesis
    by (intro exI [of _ rest] exI [of _ "concat (map (dust_triple S own) a)"] exI [of _ "concat (map (dust_triple S own) b)"])
      (simp add: d dust_triple_def dust_create_def owner_dust_ata_def prependOwnerAtaCreate_def)
qed


section \<open>An instance\<close>

text \<open>A rule that swaps token I, with a leftover account of token D under Token-2022; the cluster refuses the
  transaction when it is confirmed.\<close>

definition demo_leftover :: pubkey where
  "demo_leftover = associatedTokenAddressForProgram demo_solana ''rule'' ''D'' TOKEN_2022_PROGRAM_ID"

definition demo_close_host :: closeHost where
  "demo_close_host = \<lparr> ch_accountInfo = (\<lambda>k. Inr (Some (if k = ''rule'' then ''prog'' else SPL_TOKEN_PROGRAM_ID))),
     ch_treasury = Inr ''treasury'',
     ch_tokenAccounts = (\<lambda>_ p. Inr (if p = TOKEN_2022_PROGRAM_ID then [(demo_leftover, ''D'')] else [])),
     ch_blockhash = Inr ''hash'', ch_sign = Inr, ch_send = (\<lambda>_. Inr ''sig''), ch_confirm = (\<lambda>_. Inr (Some ''custom program error'')) \<rparr>"

definition demo_close_swap :: swapAction where
  "demo_close_swap = (let t = (\<lambda>m. \<lparr>tr_mint = m, tr_symbol = m, tr_name = m, tr_logo = None, tr_decimals = 6,
       tr_metadataSource = Manual, tr_tokenProgram = None\<rparr>) in
     \<lparr>sw_inputToken = t ''I'', sw_outputToken = t ''D'', sw_amount = Num 1, sw_linkedDownstream = None,
       sw_consumeUpstreamOutput = None\<rparr>)"

definition demo_close_rule :: automation where
  "demo_close_rule = \<lparr>au_id = ''d'', au_schemaVersion = 3, au_triggers = [], au_triggerOperators = [],
     au_actions = [Swap demo_close_swap], au_actionOperators = [], au_cadence = Once, au_minIntervalSecs = Num 60,
     au_running = True, au_runs = Num 0, au_lastCheck = ''now'', au_createdAt = ''now'', au_pubkey = Some ''rule'',
     au_signature = None, au_nonce = None, au_executedAt = None, au_closedAt = None, au_link = None\<rparr>"

lemmas demo_close_defs = demo_close_host_def demo_close_rule_def demo_close_swap_def Let_def str_truthy_def

lemma demo_close_steps: "\<exists>tx. swap_close_steps demo_solana (\<lambda>_. None) demo_close_host ''prog'' ''own'' ''rule'' ''treasury'' demo_close_swap = Inr tx"
  by (simp add: swap_close_steps_def demo_close_defs new_pubkey_def pickTokenProgram_def resolveMintTokenProgram_def
      isKnownTokenProgram_def collectPdaDustAtas_def buildCloseAutomationSwapIx_def encode_ix_def demo_solana_def
      split: prod.split)

lemma demo_host_fields:
  "ch_accountInfo demo_close_host ''rule'' = Inr (Some ''prog'')" "ch_treasury demo_close_host = Inr ''treasury''"
  "ch_blockhash demo_close_host = Inr ''hash''" "ch_sign demo_close_host tx = Inr tx" "ch_send demo_close_host tx = Inr ''sig''"
  "ch_confirm demo_close_host sig = Inr (Some ''custom program error'')" "parse_pubkey demo_solana ''rule'' = Some ''rule''"
  by (simp_all add: demo_close_host_def demo_solana_def)

lemma demo_close_ok: "closeAutomationOnChain False demo_solana (\<lambda>_. None) demo_close_host (Some ''prog'') (Some ''own'') demo_close_rule = Inr ''sig''"
proof -
  obtain tx where tx: "swap_close_steps demo_solana (\<lambda>_. None) demo_close_host ''prog'' ''own'' ''rule'' ''treasury'' demo_close_swap = Inr tx"
    using demo_close_steps by blast
  show ?thesis
    by (simp add: closeAutomationOnChain_def demo_close_rule_def str_truthy_def close_steps_def new_pubkey_def demo_host_fields
      as_failure_def submit_close_def tx)
qed

theorem close_only_own_accounts_witness:
  "\<exists>tx. close_steps demo_solana (\<lambda>_. None) demo_close_host ''prog'' ''own'' ''rule'' ''treasury'' (Swap demo_close_swap) = Inr tx \<and>
     ch_sign demo_close_host tx = Inr tx"
  using close_only_own_accounts [OF demo_close_ok]
  by (auto simp add: demo_close_rule_def demo_close_host_def demo_solana_def)

theorem close_drains_dust_witness:
  "\<exists>steps pre post. swap_close_steps demo_solana (\<lambda>_. None) demo_close_host ''prog'' ''own'' ''rule'' ''treasury'' demo_close_swap = Inr steps \<and>
     st_remaining (last steps) = pre @ [\<lparr> am_pubkey = demo_leftover, am_isSigner = False, am_isWritable = True \<rparr>] @ post"
proof -
  obtain tx where tx: "swap_close_steps demo_solana (\<lambda>_. None) demo_close_host ''prog'' ''own'' ''rule'' ''treasury'' demo_close_swap = Inr tx"
    using demo_close_steps by blast
  have "\<exists>rest pre post. st_ix (last tx) = IxCloseAutomationSwap ((''owner'', ''own'') # (''automation'', ''rule'') # rest) \<and>
     st_remaining (last tx) = pre @
       [\<lparr> am_pubkey = demo_leftover, am_isSigner = False, am_isWritable = True \<rparr>,
        \<lparr> am_pubkey = associatedTokenAddressForProgram demo_solana ''own'' ''D'' TOKEN_2022_PROGRAM_ID, am_isSigner = False, am_isWritable = True \<rparr>,
        \<lparr> am_pubkey = ''D'', am_isSigner = False, am_isWritable = False \<rparr>] @ post \<and>
     step_of (IxCreateAta ''own'' (associatedTokenAddressForProgram demo_solana ''own'' ''D'' TOKEN_2022_PROGRAM_ID) ''own'' ''D'' TOKEN_2022_PROGRAM_ID) \<in> set (butlast tx)"
    by (rule close_drains_dust [OF tx, where inputMint = "''I''" and accs = "[(demo_leftover, ''D'')]"])
      (simp_all add: demo_close_defs demo_solana_def demo_leftover_def)
  with tx show ?thesis by auto
qed

end
