(* ===== verification/Workspace.thy ===== *)
theory Workspace
  imports CloseFlow Automations Router OnChain
begin

text \<open>
  src/src/components/AutomationWorkspace.tsx and src/src/hooks/useOnChainAutomationSync.ts: the list of
  automations of the page, scoped to the connected wallet, and every handler that changes it. A handler reads
  the list of the render it was made in (snap) and updates the current one; where it awaits, the update meets a
  later state. The calls to the keeper API are best effort: their outcome is not read.
\<close>

section \<open>State\<close>

datatype cascadeIntent = DeleteChain | PauseChain | ResumeChain

record pendingCascade =
  pk_intent :: cascadeIntent
  pk_targetId :: string
  pk_siblingIds :: "string list"

record chainSaveData =
  cd_nodes :: "chainNodeDraft list"
  cd_loopMode :: "loopMode option"

record workspace =
  wk_walletOwner :: "string option"
  wk_automationsOwner :: "string option"
  wk_automations :: "automation list"
  wk_loads :: nat
  wk_storage :: "string \<Rightarrow> automation list"
  wk_editingId :: "string option"
  wk_pendingDeposit :: "builderResult option"
  wk_pendingChain :: "chainSaveData option"
  wk_pendingCascade :: "pendingCascade option"
  wk_toast :: string

record walletView =
  wl_connected :: bool
  wl_publicKey :: "pubkey option"
  wl_canSign :: bool

record workspaceEnv =
  wv_demo :: bool
  wv_solana :: solana
  wv_anchor :: anchor
  wv_host :: closeHost
  wv_prog :: "pubkey option"
  wv_wallet :: walletView
  wv_nowIso :: string
  wv_errorText :: "js_error \<Rightarrow> string"

definition MID_DOT :: string where "MID_DOT = '' '' @ [CHR 0xC2, CHR 0xB7] @ '' ''"
definition LONG_DASH :: string where "LONG_DASH = '' '' @ [CHR 0xE2, CHR 0x80, CHR 0x94] @ '' ''"

definition find_rule :: "string \<Rightarrow> automation list \<Rightarrow> automation option" where
  "find_rule i xs = find (\<lambda>a. au_id a = i) xs"

section \<open>Siblings and toggles\<close>

definition chainSiblings :: "automation list \<Rightarrow> string \<Rightarrow> string list" where
  "chainSiblings snap i = (case find_rule i snap of None \<Rightarrow> [i]
     | Some t \<Rightarrow> if \<not> str_truthy (link_chainId t) then [i]
         else map au_id (filter (\<lambda>a. link_chainId a = link_chainId t) snap))"

definition map_rules :: "(automation \<Rightarrow> automation) \<Rightarrow> workspace \<Rightarrow> workspace" where
  "map_rules f ws = ws\<lparr> wk_automations := map f (wk_automations ws) \<rparr>"

definition togglePure :: "string \<Rightarrow> workspace \<Rightarrow> workspace" where
  "togglePure i ws = map_rules (\<lambda>a. if au_id a \<noteq> i then a else if isTerminal a then a else a\<lparr> au_running := \<not> au_running a \<rparr>) ws"

definition togglePureMany :: "string list \<Rightarrow> bool \<Rightarrow> workspace \<Rightarrow> workspace" where
  "togglePureMany ids nextRunning ws =
     map_rules (\<lambda>a. if au_id a \<notin> set ids then a else if isTerminal a then a else a\<lparr> au_running := nextRunning \<rparr>) ws"

definition handleToggle :: "automation list \<Rightarrow> string \<Rightarrow> workspace \<Rightarrow> workspace" where
  "handleToggle snap i ws = (case find_rule i snap of None \<Rightarrow> ws
     | Some t \<Rightarrow> let sibs = chainSiblings snap i in
         if length sibs \<le> 1 then togglePure i ws
         else ws\<lparr> wk_pendingCascade := Some \<lparr> pk_intent = (if au_running t then PauseChain else ResumeChain), pk_targetId = i, pk_siblingIds = sibs \<rparr> \<rparr>)"

section \<open>The on-chain sync (useOnChainAutomationSync.ts)\<close>

record autoPatch =
  ap_executedAt :: "string option"
  ap_closedAt :: "string option"
  ap_running :: "bool option"
  ap_runs :: "jsnum option"
  ap_lastCheck :: "string option"

definition keep_or :: "'a \<Rightarrow> 'a option \<Rightarrow> 'a" where
  "keep_or d x = (case x of Some y \<Rightarrow> y | None \<Rightarrow> d)"

definition apply_patch :: "autoPatch \<Rightarrow> automation \<Rightarrow> automation" where
  "apply_patch p a = a\<lparr> au_executedAt := (case ap_executedAt p of Some t \<Rightarrow> Some t | None \<Rightarrow> au_executedAt a),
     au_closedAt := (case ap_closedAt p of Some t \<Rightarrow> Some t | None \<Rightarrow> au_closedAt a),
     au_running := keep_or (au_running a) (ap_running p), au_runs := keep_or (au_runs a) (ap_runs p),
     au_lastCheck := keep_or (au_lastCheck a) (ap_lastCheck p) \<rparr>"

text \<open>Writing the same values again is no change, so the comparison of the five fields is not observable.\<close>

definition patchAutomation :: "string \<Rightarrow> autoPatch \<Rightarrow> workspace \<Rightarrow> workspace" where
  "patchAutomation i p ws = map_rules (\<lambda>a. if au_id a \<noteq> i then a else apply_patch p a) ws"

record remoteAccount =
  rm_finished :: bool
  rm_executions :: "int option"
  rm_executedAt :: "int option"

definition sync_patch :: "(jsnum \<Rightarrow> string option) \<Rightarrow> string \<Rightarrow> automation \<Rightarrow> remoteAccount option \<Rightarrow> (js_error, autoPatch) result" where
  "sync_patch toIso now local remote = (case remote of
     None \<Rightarrow> Inr \<lparr> ap_executedAt = None, ap_closedAt = Some now, ap_running = Some False, ap_runs = None, ap_lastCheck = Some now \<rparr>
   | Some r \<Rightarrow>
      let onChainRuns = (case rm_executions r of Some n \<Rightarrow> num_bn n | None \<Rightarrow> Num 0) in
      if rm_finished r then
        and_then (case rm_executedAt r of
            Some n \<Rightarrow> if js_gt (num_bn n) (Num 0) then opt_or_throw RangeError (toIso (js_mul (num_bn n) (Num 1000))) else Inr now
          | None \<Rightarrow> Inr now) (\<lambda>executedAtIso.
        Inr \<lparr> ap_executedAt = Some executedAtIso, ap_closedAt = None, ap_running = Some False,
          ap_runs = Some (js_max (au_runs local) (if js_eq onChainRuns (Num 0) then Num 1 else onChainRuns)), ap_lastCheck = Some now \<rparr>)
      else Inr \<lparr> ap_executedAt = None, ap_closedAt = None, ap_running = None, ap_runs = Some (js_max (au_runs local) onChainRuns),
        ap_lastCheck = Some now \<rparr>)"

definition sync_items :: "automation list \<Rightarrow> automation list" where
  "sync_items snap = filter (\<lambda>a. str_truthy (au_pubkey a) \<and> \<not> isTerminal a) snap"

text \<open>The patches of the loop, up to the first item that throws.\<close>

fun patch_loop :: "(jsnum \<Rightarrow> string option) \<Rightarrow> string \<Rightarrow> (automation \<times> remoteAccount option) list \<Rightarrow> workspace \<Rightarrow> workspace" where
  "patch_loop toIso now [] ws = ws"
| "patch_loop toIso now ((local, remote) # rest) ws = (case sync_patch toIso now local remote of
     Inl e \<Rightarrow> ws
   | Inr p \<Rightarrow> patch_loop toIso now rest (patchAutomation (au_id local) p ws))"

definition sync_tick :: "bool \<Rightarrow> pubkey option \<Rightarrow> solana \<Rightarrow> (jsnum \<Rightarrow> string option) \<Rightarrow> string \<Rightarrow> automation list \<Rightarrow>
    (js_error, remoteAccount option list) result \<Rightarrow> workspace \<Rightarrow> workspace" where
  "sync_tick demo prog S toIso now snap fetched ws =
    (if demo \<or> \<not> isProgramConfigured prog then ws
     else let items = sync_items snap in
       if items = [] then ws
       else if \<exists>a \<in> set items. parse_pubkey S (case au_pubkey a of Some p \<Rightarrow> p | None \<Rightarrow> []) = None then ws
       else (case fetched of Inl e \<Rightarrow> ws | Inr accounts \<Rightarrow> patch_loop toIso now (zip items accounts) ws))"

section \<open>Closing\<close>

definition drop_rule :: "string \<Rightarrow> workspace \<Rightarrow> workspace" where
  "drop_rule i ws = ws\<lparr> wk_automations := filter (\<lambda>a. au_id a \<noteq> i) (wk_automations ws) \<rparr>"

definition say :: "string \<Rightarrow> workspace \<Rightarrow> workspace" where
  "say t ws = ws\<lparr> wk_toast := t \<rparr>"

definition mark_closed :: "string \<Rightarrow> string \<Rightarrow> workspace \<Rightarrow> workspace" where
  "mark_closed now i ws = map_rules (\<lambda>a. if au_id a = i then a\<lparr> au_closedAt := Some now, au_running := False \<rparr> else a) ws"

definition needs_close :: "automation \<Rightarrow> bool" where
  "needs_close t \<longleftrightarrow> str_truthy (au_pubkey t) \<and> \<not> str_truthy (au_closedAt t)"

definition wallet_ready :: "walletView \<Rightarrow> bool" where
  "wallet_ready w \<longleftrightarrow> wl_connected w \<and> wl_publicKey w \<noteq> None \<and> wl_canSign w"

definition rule_close :: "workspaceEnv \<Rightarrow> automation \<Rightarrow> (closeError, string) result" where
  "rule_close e t = closeAutomationOnChain (wv_demo e) (wv_solana e) (wv_anchor e) (wv_host e) (wv_prog e) (wl_publicKey (wv_wallet e)) t"

definition closeOneRule :: "workspaceEnv \<Rightarrow> automation list \<Rightarrow> string \<Rightarrow> workspace \<Rightarrow> bool \<times> workspace" where
  "closeOneRule e snap i ws = (case find_rule i snap of
     None \<Rightarrow> (True, ws)
   | Some t \<Rightarrow>
      if needs_close t then
        if \<not> wallet_ready (wv_wallet e) then (False, say ''Connect wallet to close on-chain and refund deposit'' ws)
        else (case rule_close e t of
            Inl (OrphanedAutomationError pk actual expected) \<Rightarrow>
              (True, drop_rule i (say (''Removed stale rule from prior program version'' @ LONG_DASH @ ''funds (if any) require manual recovery'') ws))
          | Inl (CloseFailed err) \<Rightarrow>
              (False, say (''Close tx failed: '' @ take 80 (let m = wv_errorText e err in if m = [] then ''close failed'' else m)) ws)
          | Inr sig \<Rightarrow> (True, mark_closed (wv_nowIso e) i ws))
      else (True, drop_rule i ws))"

definition handleDelete :: "workspaceEnv \<Rightarrow> automation list \<Rightarrow> string \<Rightarrow> workspace \<Rightarrow> workspace" where
  "handleDelete e snap i ws = (let sibs = chainSiblings snap i in
     if length sibs \<le> 1 then
       (case closeOneRule e snap i ws of (done, ws') \<Rightarrow>
         if done then say (if (case find_rule i snap of Some t \<Rightarrow> needs_close t | None \<Rightarrow> False)
             then ''Automation closed and deposit refunded'' else ''Automation deleted'') ws'
         else ws')
     else ws\<lparr> wk_pendingCascade := Some \<lparr> pk_intent = DeleteChain, pk_targetId = i, pk_siblingIds = sibs \<rparr> \<rparr>)"

text \<open>The siblings are closed one after the other; the count is of those that did not fail.\<close>

fun close_all :: "workspaceEnv \<Rightarrow> automation list \<Rightarrow> string list \<Rightarrow> workspace \<Rightarrow> nat \<times> workspace" where
  "close_all e snap [] ws = (0, ws)"
| "close_all e snap (i # is) ws = (case closeOneRule e snap i ws of (done, ws') \<Rightarrow>
     case close_all e snap is ws' of (n, ws'') \<Rightarrow> ((if done then Suc n else n), ws''))"

definition executeCascade :: "workspaceEnv \<Rightarrow> automation list \<Rightarrow> workspace \<Rightarrow> workspace" where
  "executeCascade e snap ws = (case wk_pendingCascade ws of None \<Rightarrow> ws
     | Some c \<Rightarrow> let ws1 = ws\<lparr> wk_pendingCascade := None \<rparr>; n = length (pk_siblingIds c) in
        if pk_intent c = DeleteChain then
          (case close_all e snap (pk_siblingIds c) ws1 of (okCount, ws2) \<Rightarrow>
            say (if okCount = n then ''Chain closed'' @ MID_DOT @ show_nat okCount @ '' rules refunded''
                 else ''Chain partially closed ('' @ show_nat okCount @ ''/'' @ show_nat n @ '')'' @ LONG_DASH @ ''see console'') ws2)
        else let nextRunning = (pk_intent c = ResumeChain) in
          say ((if nextRunning then ''Resumed '' else ''Paused '') @ show_nat n @ ''-rule chain'')
            (togglePureMany (pk_siblingIds c) nextRunning ws1))"

section \<open>Saving new rules\<close>

record onChainResult =
  oc_pubkey :: string
  oc_signature :: string
  oc_nonce :: string

definition no_overrides :: overrides where
  "no_overrides = \<lparr> ov_id = None, ov_running = None, ov_runs = None, ov_lastCheck = None, ov_createdAt = None, ov_pubkey = None,
     ov_signature = None, ov_nonce = None, ov_executedAt = None, ov_closedAt = None \<rparr>"

definition made_rule :: "clock_env \<Rightarrow> builderResult \<Rightarrow> string option \<Rightarrow> onChainResult option \<Rightarrow> automation" where
  "made_rule C data editing result = makeAutomation C (br_triggers data) (br_actions data) (br_triggerOperators data)
     (br_actionOperators data) (br_cadence data) (br_minIntervalSecs data)
     (no_overrides\<lparr> ov_id := editing, ov_running := Some True, ov_runs := (if editing = None then Some (Num 0) else None),
        ov_pubkey := map_option oc_pubkey result, ov_signature := map_option oc_signature result, ov_nonce := map_option oc_nonce result \<rparr>)"

text \<open>handleDepositConfirm from the settled submission on; data and editing are those of its render.\<close>

definition deposit_confirmed :: "clock_env \<Rightarrow> builderResult \<Rightarrow> string option \<Rightarrow> onChainResult option \<Rightarrow> workspace \<Rightarrow> workspace" where
  "deposit_confirmed C data editing result ws =
    (let auto = made_rule C data editing result in
     case editing of
       Some i \<Rightarrow> ws\<lparr> wk_automations := map (\<lambda>a. if au_id a = i then auto else a) (wk_automations ws), wk_editingId := None,
          wk_toast := (if result \<noteq> None then ''Automation funded on-chain'' else ''Automation updated''), wk_pendingDeposit := None \<rparr>
     | None \<Rightarrow> ws\<lparr> wk_automations := auto # wk_automations ws,
          wk_toast := (case result of Some r \<Rightarrow> ''Funded'' @ MID_DOT @ take 8 (oc_signature r) @ [CHR 0xE2, CHR 0x80, CHR 0xA6]
            | None \<Rightarrow> ''Saved'' @ MID_DOT @ ''pending on-chain support''), wk_pendingDeposit := None \<rparr>)"

record chainNodeReceipt =
  cn_pubkey :: string
  cn_nonce :: string
  cn_seedAmount :: string

record chainOnChainResult =
  co_signature :: string
  co_nodes :: "chainNodeReceipt list"

definition effective_cadence :: "loopMode option \<Rightarrow> chainNodeDraft \<Rightarrow> cadence" where
  "effective_cadence loop n = (case loop of
     Some (Frequency cycles) \<Rightarrow> Repeat cycles
   | Some Infinite \<Rightarrow> Until (Num 4102444800)
   | None \<Rightarrow> br_cadence (nd_result n))"

definition patched_action :: "string option \<Rightarrow> nat \<Rightarrow> action \<Rightarrow> action" where
  "patched_action downstream k act = (case act of
     Swap sw \<Rightarrow> if k = 0 \<and> str_truthy downstream then Swap (sw\<lparr> sw_linkedDownstream := downstream \<rparr>) else act
   | _ \<Rightarrow> act)"

definition downstream_pubkey :: "chainOnChainResult \<Rightarrow> chainNodeDraft \<Rightarrow> string option" where
  "downstream_pubkey r n = Option.bind (nd_next n) (\<lambda>i. map_option cn_pubkey (nth_int (co_nodes r) i))"

definition chain_rule :: "(nat \<Rightarrow> clock_env) \<Rightarrow> loopMode option \<Rightarrow> chainOnChainResult \<Rightarrow> nat \<Rightarrow> chainNodeDraft \<Rightarrow> automation" where
  "chain_rule Cs loop r i n = makeAutomation (Cs i) (br_triggers (nd_result n))
     (map (\<lambda>(k, act). patched_action (downstream_pubkey r n) k act) (zip [0..<length (br_actions (nd_result n))] (br_actions (nd_result n))))
     (br_triggerOperators (nd_result n)) (br_actionOperators (nd_result n)) (effective_cadence loop n) (br_minIntervalSecs (nd_result n))
     (no_overrides\<lparr> ov_running := Some True, ov_runs := Some (Num 0), ov_pubkey := map_option cn_pubkey (nth_opt (co_nodes r) i),
        ov_signature := Some (co_signature r), ov_nonce := map_option cn_nonce (nth_opt (co_nodes r) i) \<rparr>)"

definition linked_rule :: "string \<Rightarrow> automation list \<Rightarrow> nat \<Rightarrow> chainNodeDraft \<Rightarrow> automation \<Rightarrow> automation" where
  "linked_rule chainId created i n a = a\<lparr> au_link := Some \<lparr> cl_chainId = chainId, cl_position = i, cl_total = length created,
     cl_next = Option.bind (nd_next n) (\<lambda>k. Option.bind (nth_int created k) (\<lambda>t. if au_id t = [] then None else Some (RuleTarget (au_id t)))),
     cl_isHead = (i = 0), cl_fundingError = None \<rparr> \<rparr>"

definition created_rules :: "(nat \<Rightarrow> clock_env) \<Rightarrow> chainSaveData \<Rightarrow> chainOnChainResult \<Rightarrow> automation list" where
  "created_rules Cs d r = map (\<lambda>(i, n). chain_rule Cs (cd_loopMode d) r i n) (zip [0..<length (cd_nodes d)] (cd_nodes d))"

text \<open>The final automations; chainId is chain_ and the fresh id without its first two characters.\<close>

definition final_rules :: "clock_env \<Rightarrow> (nat \<Rightarrow> clock_env) \<Rightarrow> chainSaveData \<Rightarrow> chainOnChainResult \<Rightarrow> automation list" where
  "final_rules C Cs d r = (let chainId = ''chain_'' @ drop 2 (fresh_id C); created = created_rules Cs d r in
     map (\<lambda>(i, n, a). linked_rule chainId created i n a) (zip [0..<length created] (zip (cd_nodes d) created)))"

definition chain_confirmed :: "clock_env \<Rightarrow> (nat \<Rightarrow> clock_env) \<Rightarrow> chainSaveData \<Rightarrow> chainOnChainResult option \<Rightarrow> workspace \<Rightarrow> workspace" where
  "chain_confirmed C Cs d result ws = (case result of
     None \<Rightarrow> ws\<lparr> wk_pendingChain := None \<rparr>
   | Some r \<Rightarrow> ws\<lparr> wk_automations := final_rules C Cs d r @ wk_automations ws,
       wk_toast := ''Chain funded'' @ MID_DOT @ take 8 (co_signature r) @ [CHR 0xE2, CHR 0x80, CHR 0xA6] @ MID_DOT @
         show_nat (length (cd_nodes d)) @ '' rules'', wk_pendingChain := None \<rparr>)"

section \<open>The wallet and the storage\<close>

text \<open>
  The storage maps a wallet to the records loadAutomations reads for it; without a wallet nothing is loaded or
  saved. A change of the wallet is rendered before the load effect runs, and the save effect runs after every
  render. Each run of the load effect starts a hydration and cancels the one before: the remote records of a
  hydration are dropped when a later run has begun.
\<close>

definition loaded :: "(string \<Rightarrow> automation list) \<Rightarrow> string option \<Rightarrow> automation list" where
  "loaded store own = (case own of None \<Rightarrow> [] | Some w \<Rightarrow> if w = [] then [] else store w)"

definition wallet_changes :: "string option \<Rightarrow> workspace \<Rightarrow> workspace" where
  "wallet_changes own ws = ws\<lparr> wk_walletOwner := own \<rparr>"

definition load_effect :: "workspace \<Rightarrow> workspace" where
  "load_effect ws = ws\<lparr> wk_automationsOwner := wk_walletOwner ws, wk_automations := loaded (wk_storage ws) (wk_walletOwner ws),
     wk_loads := Suc (wk_loads ws) \<rparr>"

definition save_effect :: "workspace \<Rightarrow> workspace" where
  "save_effect ws = (if wk_automationsOwner ws \<noteq> wk_walletOwner ws then ws
     else case wk_walletOwner ws of None \<Rightarrow> ws
       | Some w \<Rightarrow> if w = [] then ws else ws\<lparr> wk_storage := (wk_storage ws)(w := wk_automations ws) \<rparr>)"

definition hydrated :: "chainReads \<Rightarrow> nat \<Rightarrow> automation list \<Rightarrow> workspace \<Rightarrow> workspace" where
  "hydrated R run remote ws = (if run \<noteq> wk_loads ws then ws
     else ws\<lparr> wk_automations := mergeOnChainAutomations R (wk_automations ws) remote \<rparr>)"

definition handleSave :: "builderResult \<Rightarrow> workspace \<Rightarrow> workspace" where
  "handleSave data ws = ws\<lparr> wk_pendingDeposit := Some data \<rparr>"

definition handleSaveChain :: "chainSaveData \<Rightarrow> workspace \<Rightarrow> workspace" where
  "handleSaveChain data ws = ws\<lparr> wk_pendingChain := Some data \<rparr>"

definition handleDepositCancel :: "workspace \<Rightarrow> workspace" where
  "handleDepositCancel ws = ws\<lparr> wk_pendingDeposit := None \<rparr>"

definition handleChainDepositCancel :: "workspace \<Rightarrow> workspace" where
  "handleChainDepositCancel ws = ws\<lparr> wk_pendingChain := None \<rparr>"

definition handleDepositConfirm :: "clock_env \<Rightarrow> workspace \<Rightarrow> onChainResult option \<Rightarrow> workspace \<Rightarrow> workspace" where
  "handleDepositConfirm C render result ws = (case wk_pendingDeposit render of None \<Rightarrow> ws
     | Some data \<Rightarrow> deposit_confirmed C data (wk_editingId render) result ws)"

definition handleChainDepositConfirm ::
  "clock_env \<Rightarrow> (nat \<Rightarrow> clock_env) \<Rightarrow> workspace \<Rightarrow> chainOnChainResult option \<Rightarrow> workspace \<Rightarrow> workspace" where
  "handleChainDepositConfirm C Cs render result ws = (case wk_pendingChain render of None \<Rightarrow> ws
     | Some d \<Rightarrow> chain_confirmed C Cs d result ws)"

section \<open>The page as a state machine\<close>

inductive wk_step :: "workspace \<Rightarrow> workspace \<Rightarrow> bool" where
  toggle: "wk_step ws (handleToggle snap i ws)"
| delete: "wk_step ws (handleDelete e snap i ws)"
| cascade: "wk_step ws (executeCascade e snap ws)"
| cancel: "wk_step ws (ws\<lparr> wk_pendingCascade := None \<rparr>)"
| save: "wk_step ws (handleSave data ws)"
| save_chain: "wk_step ws (handleSaveChain cdata ws)"
| deposit_cancel: "wk_step ws (handleDepositCancel ws)"
| chain_cancel: "wk_step ws (handleChainDepositCancel ws)"
| deposit: "wk_step ws (handleDepositConfirm C render result ws)"
| chain: "wk_step ws (handleChainDepositConfirm C Cs render cresult ws)"
| sync: "wk_step ws (sync_tick demo prog S toIso now snap fetched ws)"
| wallet: "wk_step ws (wallet_changes own ws)"
| load: "wk_step ws (load_effect ws)"
| store: "wk_step ws (save_effect ws)"
| hydrate: "fetchOwnedOnChainAutomations R False [] configured rows = Inr remote \<Longrightarrow> wk_step ws (hydrated R run remote ws)"

definition fresh_workspace :: "(string \<Rightarrow> automation list) \<Rightarrow> workspace" where
  "fresh_workspace stored = \<lparr> wk_walletOwner = None, wk_automationsOwner = None, wk_automations = [], wk_loads = 0,
     wk_storage = stored, wk_editingId = None, wk_pendingDeposit = None, wk_pendingChain = None, wk_pendingCascade = None,
     wk_toast = [] \<rparr>"

inductive wk_reach :: "(string \<Rightarrow> automation list) \<Rightarrow> workspace \<Rightarrow> bool" for stored where
  start: "wk_reach stored (fresh_workspace stored)"
| step: "wk_reach stored ws \<Longrightarrow> wk_step ws ws' \<Longrightarrow> wk_reach stored ws'"


section \<open>Lemmas: terminal rules\<close>

text \<open>A rule that has executed or is closed does not run.\<close>

definition stopped :: "automation \<Rightarrow> bool" where
  "stopped a \<longleftrightarrow> \<not> (isTerminal a \<and> au_running a)"

definition all_stopped :: "workspace \<Rightarrow> bool" where
  "all_stopped ws \<longleftrightarrow> list_all stopped (wk_automations ws) \<and> (\<forall>w. list_all stopped (wk_storage ws w))"

named_theorems wk_kept

lemma list_all_stopped_map: "list_all stopped xs \<Longrightarrow> (\<And>a. stopped a \<Longrightarrow> stopped (f a)) \<Longrightarrow> list_all stopped (map f xs)"
  by (induction xs) auto

lemma map_rules_kept: "(\<And>a. stopped a \<Longrightarrow> stopped (f a)) \<Longrightarrow> all_stopped ws \<Longrightarrow> all_stopped (map_rules f ws)"
  by (simp add: all_stopped_def map_rules_def list_all_stopped_map)

lemma rules_unchanged: "wk_automations ws' = wk_automations ws \<Longrightarrow> wk_storage ws' = wk_storage ws \<Longrightarrow> all_stopped ws' = all_stopped ws"
  by (simp add: all_stopped_def)

lemma toggle_kept [wk_kept]: "all_stopped ws \<Longrightarrow> all_stopped (togglePure i ws)" "all_stopped ws \<Longrightarrow> all_stopped (togglePureMany ids b ws)"
  unfolding togglePure_def togglePureMany_def
  by (rule map_rules_kept; simp add: stopped_def isTerminal_def isCompleted_def isClosed_def)+

lemma say_kept [wk_kept]: "all_stopped (say t ws) = all_stopped ws"
  by (rule rules_unchanged) (simp_all add: say_def)

lemma drop_kept [wk_kept]: "all_stopped ws \<Longrightarrow> all_stopped (drop_rule i ws)"
  by (auto simp add: all_stopped_def drop_rule_def list_all_iff)

lemma closed_kept [wk_kept]: "all_stopped ws \<Longrightarrow> all_stopped (mark_closed now i ws)"
  unfolding mark_closed_def by (rule map_rules_kept) (simp_all add: stopped_def)

lemma sync_patch_stops: "sync_patch toIso now l r = Inr p \<Longrightarrow> stopped a \<Longrightarrow> stopped (apply_patch p a)"
  by (auto simp add: sync_patch_def apply_patch_def stopped_def keep_or_def isTerminal_def isCompleted_def isClosed_def
      Let_def result_simps split: option.splits if_splits)

lemma patch_loop_kept: "all_stopped ws \<Longrightarrow> all_stopped (patch_loop toIso now items ws)"
proof (induction toIso now items ws rule: patch_loop.induct)
  case (2 toIso now l r rest ws)
  show ?case
  proof (cases "sync_patch toIso now l r")
    case (Inr p)
    then have "all_stopped (patchAutomation (au_id l) p ws)"
      unfolding patchAutomation_def by (intro map_rules_kept 2(2)) (simp add: sync_patch_stops)
    with 2(1) Inr show ?thesis by simp
  qed (use 2 in simp)
qed simp

lemma sync_kept [wk_kept]: "all_stopped ws \<Longrightarrow> all_stopped (sync_tick demo prog S toIso now snap fetched ws)"
  by (simp add: sync_tick_def Let_def patch_loop_kept split: sum.split)

lemma close_one_kept [wk_kept]: "all_stopped ws \<Longrightarrow> closeOneRule e snap i ws = (ok, ws') \<Longrightarrow> all_stopped ws'"
  by (auto simp add: closeOneRule_def wk_kept split: option.splits if_splits sum.splits closeError.splits)

lemma close_all_kept: "all_stopped ws \<Longrightarrow> close_all e snap is ws = (n, ws') \<Longrightarrow> all_stopped ws'"
  by (induction "is" arbitrary: ws n ws') (auto split: prod.splits dest: close_one_kept)

lemma made_stopped: "stopped (made_rule C data editing r)" "stopped (chain_rule Cs loop cr i n)"
  by (simp_all add: made_rule_def chain_rule_def makeAutomation_def no_overrides_def stopped_def isTerminal_def
      isCompleted_def isClosed_def str_truthy_def)

lemma linked_stopped: "stopped (linked_rule c created i n a) = stopped a"
  by (simp add: linked_rule_def stopped_def isTerminal_def isCompleted_def isClosed_def)

lemma final_stopped: "list_all stopped (final_rules C Cs d r)"
proof -
  have "stopped a" if "a \<in> set (created_rules Cs d r)" for a
    using that by (auto simp add: created_rules_def made_stopped)
  then show ?thesis
    by (auto simp add: final_rules_def Let_def list_all_iff linked_stopped dest!: set_zip_rightD)
qed

lemma deposit_kept [wk_kept]: "all_stopped ws \<Longrightarrow> all_stopped (deposit_confirmed C data editing r ws)"
  by (auto simp add: deposit_confirmed_def Let_def all_stopped_def list_all_iff made_stopped split: option.split)

lemma chain_kept [wk_kept]: "all_stopped ws \<Longrightarrow> all_stopped (chain_confirmed C Cs d r ws)"
  by (simp add: chain_confirmed_def all_stopped_def final_stopped split: option.split)

section \<open>Lemmas: hydration\<close>

lemma account_stopped: "automationFromOnChain R row = Inr (Some a) \<Longrightarrow> stopped a"
  by (auto simp add: automationFromOnChain_def Let_def result_simps stopped_def isTerminal_def isCompleted_def
      isClosed_def str_truthy_def split: option.splits if_splits)

lemma patched_stopped: "patched_from M item b \<Longrightarrow> stopped b = stopped item"
  by (auto simp add: patched_from_def stopped_def isTerminal_def isCompleted_def isClosed_def)

lemma reconstruct_stopped:
  assumes "list_all stopped items" shows "list_all stopped (reconstructChainLinks items)"
proof -
  let ?M = "link_maps items" and ?B = "by_id items"
  let ?p = "patch_components ?M ?B (sort_ids ?B (map fst ?B)) [] ?B"
  have key: "dict_get ?B i = Some a \<Longrightarrow> au_id a = i" for i a using by_id_keyed by blast
  have "patched_inv ?M ?B ?B" by (auto simp add: patched_inv_def patched_from_def)
  from patch_components_inv [OF key this] have inv: "patched_inv ?M ?B ?p" .
  have "stopped b" if "dict_get ?p i = Some b" for i b
  proof -
    from inv that obtain item where "dict_get ?B i = Some item" "patched_from ?M item b" unfolding patched_inv_def by blast
    with assms by_id_keyed [of items i item] show ?thesis by (auto simp add: patched_stopped list_all_iff)
  qed
  with assms show ?thesis
    by (auto simp add: reconstructChainLinks_def Let_def list_all_iff split: option.splits)
qed

lemma fetched_stopped:
  assumes "fetchOwnedOnChainAutomations R False [] configured rows = Inr remote" shows "list_all stopped remote"
proof (cases configured)
  case True
  with assms obtain rs built where b: "map_result (automationFromOnChain R) rs = Inr built"
    and r: "remote = reconstructChainLinks (newest_first R (map the (filter (\<lambda>b. b \<noteq> None) built)))"
    by (auto simp add: fetchOwnedOnChainAutomations_def result_simps)
  have "stopped a" if "Some a \<in> set built" for a
    using b that by (auto simp add: result_simps list_all2_conv_all_nth in_set_conv_nth dest!: account_stopped)
  then show ?thesis unfolding r by (intro reconstruct_stopped) (auto simp add: newest_first_def list_all_iff)
qed (use assms in \<open>simp add: fetchOwnedOnChainAutomations_def\<close>)

lemma put_stopped: "list_all (stopped \<circ> snd) d \<Longrightarrow> stopped a \<Longrightarrow> list_all (stopped \<circ> snd) (dict_set d k a)"
  by (induction d k a rule: dict_set.induct) auto

lemma get_stopped: "list_all (stopped \<circ> snd) d \<Longrightarrow> dict_get d k = Some a \<Longrightarrow> stopped a"
  by (auto simp add: list_all_iff dest!: dict_get_snd)

lemma merge_pair_stopped: "stopped r \<Longrightarrow> stopped (merge_pair r l)"
  by (auto simp add: merge_pair_def stopped_def isTerminal_def isCompleted_def isClosed_def str_truthy_def)

lemma merge_local_stopped: "stopped l \<Longrightarrow> list_all (stopped \<circ> snd) d \<Longrightarrow> list_all (stopped \<circ> snd) (merge_local l d)"
  by (auto simp add: merge_local_def intro!: put_stopped merge_pair_stopped dest: get_stopped split: option.split)

lemma merge_stopped:
  assumes "list_all stopped ls" "list_all stopped rs" shows "list_all stopped (mergeOnChainAutomations R ls rs)"
proof -
  have remotes: "list_all (stopped \<circ> snd) d \<Longrightarrow> list_all (stopped \<circ> snd) (fold (\<lambda>a d. dict_set d (key_for a) a) rs d)" for d
    using assms(2) by (induction rs arbitrary: d) (simp_all add: put_stopped)
  have locals: "list_all (stopped \<circ> snd) d \<Longrightarrow> list_all (stopped \<circ> snd) (fold merge_local ls d)" for d
    using assms(1) by (induction ls arbitrary: d) (simp_all add: merge_local_stopped)
  show ?thesis using locals [OF remotes [of "[]"]]
    by (auto simp add: mergeOnChainAutomations_def newest_first_def list_all_iff)
qed

lemma step_kept: "wk_step ws ws' \<Longrightarrow> all_stopped ws \<Longrightarrow> all_stopped ws'"
proof (induction rule: wk_step.induct)
  case (toggle ws snap i)
  then show ?case
    by (auto simp add: handleToggle_def Let_def wk_kept split: option.split) (simp_all add: all_stopped_def)
next
  case (delete ws e snap i)
  then show ?case
    by (auto simp add: handleDelete_def Let_def wk_kept dest: close_one_kept split: prod.split) (simp_all add: all_stopped_def)
next
  case (cascade ws e snap)
  have c: "all_stopped (ws\<lparr> wk_pendingCascade := None \<rparr>)" using cascade by (simp add: all_stopped_def)
  then show ?case using cascade
    by (auto simp add: executeCascade_def Let_def wk_kept dest: close_all_kept split: prod.split option.split)
next
  case (hydrate R configured rows remote ws run)
  then show ?case by (simp add: hydrated_def all_stopped_def merge_stopped fetched_stopped)
qed (auto simp add: handleSave_def handleSaveChain_def handleDepositCancel_def handleChainDepositCancel_def
    handleDepositConfirm_def handleChainDepositConfirm_def wallet_changes_def wk_kept load_effect_def save_effect_def
    loaded_def split: option.split | simp add: all_stopped_def)+


section \<open>Lemmas: created chains and closing\<close>

lemma length_created: "length (created_rules Cs d r) = length (cd_nodes d)"
  by (simp add: created_rules_def)

lemma length_final: "length (final_rules C Cs d r) = length (cd_nodes d)"
  by (simp add: final_rules_def Let_def length_created)

lemma created_nth: "i < length (cd_nodes d) \<Longrightarrow> created_rules Cs d r ! i = chain_rule Cs (cd_loopMode d) r i (cd_nodes d ! i)"
  by (simp add: created_rules_def)

lemma final_nth: "i < length (cd_nodes d) \<Longrightarrow> final_rules C Cs d r ! i =
   linked_rule (''chain_'' @ drop 2 (fresh_id C)) (created_rules Cs d r) i (cd_nodes d ! i) (created_rules Cs d r ! i)"
  by (simp add: final_rules_def Let_def length_created)

lemma linked_id: "au_id (linked_rule c created i n a) = au_id a" "au_pubkey (linked_rule c created i n a) = au_pubkey a"
  "au_actions (linked_rule c created i n a) = au_actions a"
  by (simp_all add: linked_rule_def)

lemma final_chain: "a \<in> set (final_rules C Cs d r) \<Longrightarrow> link_chainId a = Some (''chain_'' @ drop 2 (fresh_id C))"
  by (auto simp add: in_set_conv_nth length_final final_nth linked_rule_def link_chainId_def)

lemma find_append: "find P (xs @ ys) = (case find P xs of Some x \<Rightarrow> Some x | None \<Rightarrow> find P ys)"
  by (induction xs) auto

lemma patched_later: "patched_action p (Suc k) act = act"
  by (simp add: patched_action_def split: action.split)

lemma later_actions: "map (\<lambda>(j, act). patched_action p j act) (zip [Suc m..<Suc m + length acts] acts) = acts"
  by (rule nth_equalityI) (simp_all add: patched_later del: upt_Suc)

text \<open>The outcome of the confirmation is only asked for, never read.\<close>

lemma steps_confirm:
  "close_steps S A (H\<lparr> ch_confirm := c \<rparr>) prog own automation treasury act = close_steps S A H prog own automation treasury act"
  by (simp add: close_steps_def spl_close_steps_def swap_close_steps_def pickTokenProgram_def collectPdaDustAtas_def cong: if_cong action.case_cong)

lemma submit_confirm: "submit_close (H\<lparr> ch_confirm := (\<lambda>_. Inr x) \<rparr>) tx = submit_close (H\<lparr> ch_confirm := (\<lambda>_. Inr y) \<rparr>) tx"
  by (simp add: submit_close_def)

lemma close_confirm:
  "closeAutomationOnChain demo S A (H\<lparr> ch_confirm := (\<lambda>_. Inr x) \<rparr>) prog wallet t =
   closeAutomationOnChain demo S A (H\<lparr> ch_confirm := (\<lambda>_. Inr y) \<rparr>) prog wallet t"
  by (simp add: closeAutomationOnChain_def steps_confirm submit_confirm [where x = x and y = y] cong: if_cong option.case_cong list.case_cong)

definition with_outcome :: "string option \<Rightarrow> workspaceEnv \<Rightarrow> workspaceEnv" where
  "with_outcome x e = e\<lparr> wv_host := (wv_host e)\<lparr> ch_confirm := (\<lambda>_. Inr x) \<rparr> \<rparr>"

lemma rule_close_outcome: "rule_close (with_outcome x e) t = rule_close (with_outcome y e) t"
  unfolding rule_close_def with_outcome_def by (simp add: close_confirm [where x = x and y = y])

section \<open>Properties\<close>

text \<open>C7: Terminal rules stay stopped. Whatever the user, the polling, the wallet and the pending transactions do, and
  in whichever order, no rule of the page or of the storage of any wallet is executed or closed and still running, provided
  that none is so in the storage when the page is opened.\<close>

theorem terminal_rules_stay_stopped:
  assumes "wk_reach stored ws" "\<And>w. list_all stopped (stored w)"
  shows "list_all stopped (wk_automations ws) \<and> list_all stopped (wk_storage ws w)"
proof -
  from assms(1) have "all_stopped ws"
  proof (induction rule: wk_reach.induct)
    case start
    then show ?case using assms(2) by (simp add: all_stopped_def fresh_workspace_def)
  qed (simp add: step_kept)
  then show ?thesis by (simp add: all_stopped_def)
qed

text \<open>A confirmed chain is one chain. Deleting or pausing any of its rules cascades over exactly the rules created
  with it, when no older rule has the new chain id; and the link shown on a rule agrees with the chain: the downstream
  account stored in its swap is the account of the rule its link names.\<close>

theorem created_chain_is_one_chain:
  assumes "list_all (\<lambda>a. link_chainId a \<noteq> Some (''chain_'' @ drop 2 (fresh_id C))) old"
    and "a \<in> set (final_rules C Cs d r)"
    and "i < length (cd_nodes d)" "nd_next (cd_nodes d ! i) = Some (int k)" "k < length (cd_nodes d)" "k < length (co_nodes r)"
    and "cn_pubkey (co_nodes r ! k) \<noteq> []" "fresh_id (Cs k) \<noteq> []"
    and "br_actions (nd_result (cd_nodes d ! i)) = Swap sw # acts"
  shows "chainSiblings (final_rules C Cs d r @ old) (au_id a) = map au_id (final_rules C Cs d r) \<and>
    Option.bind (au_link (final_rules C Cs d r ! i)) cl_next = Some (RuleTarget (au_id (final_rules C Cs d r ! k))) \<and>
    au_pubkey (final_rules C Cs d r ! k) = Some (cn_pubkey (co_nodes r ! k)) \<and>
    au_actions (final_rules C Cs d r ! i) = Swap (sw\<lparr> sw_linkedDownstream := au_pubkey (final_rules C Cs d r ! k) \<rparr>) # acts"
proof (intro conjI)
  let ?f = "final_rules C Cs d r" and ?id = "Some (''chain_'' @ drop 2 (fresh_id C))"
  have "find_rule (au_id a) ?f \<noteq> None" using assms(2) by (auto simp add: find_rule_def find_None_iff)
  then obtain t where t: "find_rule (au_id a) ?f = Some t" by blast
  then have "t \<in> set ?f" unfolding find_rule_def by (auto simp add: find_Some_iff)
  then have "link_chainId t = ?id" by (rule final_chain)
  moreover have "find_rule (au_id a) (?f @ old) = Some t" using t by (simp add: find_rule_def find_append)
  moreover have "filter (\<lambda>a. link_chainId a = ?id) ?f = ?f" by (simp add: filter_id_conv final_chain)
  moreover have "filter (\<lambda>a. link_chainId a = ?id) old = []" using assms(1) by (auto simp add: filter_empty_conv list_all_iff)
  ultimately show "chainSiblings (?f @ old) (au_id a) = map au_id ?f" by (simp add: chainSiblings_def str_truthy_def)
  show pk: "au_pubkey (?f ! k) = Some (cn_pubkey (co_nodes r ! k))"
    using assms(5,6) by (simp add: final_nth linked_id created_nth chain_rule_def makeAutomation_def nth_opt_conv no_overrides_def)
  have "au_id (created_rules Cs d r ! k) = fresh_id (Cs k)"
    using assms(5) by (simp add: created_nth chain_rule_def makeAutomation_def no_overrides_def or_else_def)
  then show "Option.bind (au_link (?f ! i)) cl_next = Some (RuleTarget (au_id (?f ! k)))"
    using assms(3-5,8) by (simp add: final_nth linked_id length_created nth_int_def nth_opt_conv linked_rule_def)
  show "au_actions (?f ! i) = Swap (sw\<lparr> sw_linkedDownstream := au_pubkey (?f ! k) \<rparr>) # acts"
  proof -
    have "map (\<lambda>(j, act). patched_action (Some p) j act) (zip [Suc 0..<Suc (length acts)] acts) = acts" for p
      using later_actions [of "Some p" 0 acts] by simp
    then show ?thesis unfolding pk
      using assms(3-7,9) by (simp add: final_nth linked_id created_nth chain_rule_def makeAutomation_def downstream_pubkey_def
        nth_int_def nth_opt_conv patched_action_def str_truthy_def upt_conv_Cons del: upt_Suc)
  qed
qed

text \<open>C38: A close that fails on the chain is recorded as done. When the owner deletes a rule on its own, with the wallet
  ready, then, where a close with a good outcome would have returned, a close whose confirmed transaction carries an error has the same effect on the page: the rule is marked closed, leaves
  the rules that are polled, and the owner is told that the deposit is refunded.\<close>

theorem failed_close_recorded_as_done:
  assumes "find_rule i snap = Some t" "needs_close t" "wallet_ready (wv_wallet e)"
    and "rule_close (with_outcome None e) t = Inr sig" "length (chainSiblings snap i) \<le> 1"
  shows "handleDelete (with_outcome (Some err) e) snap i ws =
    say ''Automation closed and deposit refunded'' (mark_closed (wv_nowIso e) i ws)"
proof -
  have "rule_close (with_outcome (Some err) e) t = Inr sig" using assms(4) rule_close_outcome by metis
  then show ?thesis using assms(1-3,5) by (simp add: handleDelete_def closeOneRule_def with_outcome_def Let_def)
qed

text \<open>C40: A switch of the wallet does not stop a deposit. When the wallet changes while a deposit of the previous wallet
  is being confirmed, the new rule ends at the head of the list of the next wallet and is saved under that wallet;
  nothing is saved for the wallet that paid.\<close>

theorem deposit_lands_in_next_wallet:
  assumes "b \<noteq> []" "a \<noteq> b" "wk_pendingDeposit render = Some data" "wk_editingId render = None"
  shows "wk_storage (save_effect (handleDepositConfirm C render (Some r) (load_effect (wallet_changes (Some b) ws)))) b =
      made_rule C data None (Some r) # wk_storage ws b \<and>
    wk_storage (save_effect (handleDepositConfirm C render (Some r) (load_effect (wallet_changes (Some b) ws)))) a = wk_storage ws a"
  using assms by (simp add: save_effect_def handleDepositConfirm_def deposit_confirmed_def load_effect_def wallet_changes_def
      loaded_def Let_def)


section \<open>Instances\<close>

definition demo_workspace_env :: workspaceEnv where
  "demo_workspace_env = \<lparr> wv_demo = False, wv_solana = demo_solana, wv_anchor = (\<lambda>_. None), wv_host = demo_close_host,
     wv_prog = Some ''prog'', wv_wallet = \<lparr> wl_connected = True, wl_publicKey = Some ''own'', wl_canSign = True \<rparr>,
     wv_nowIso = ''later'', wv_errorText = (\<lambda>_. []) \<rparr>"

definition demo_page :: workspace where
  "demo_page = load_effect (wallet_changes (Some ''own'') (fresh_workspace (\<lambda>_. [demo_close_rule])))"

definition demo_closed_page :: workspace where
  "demo_closed_page = handleDelete demo_workspace_env [demo_close_rule] ''d'' demo_page"

lemma demo_rule_found: "find_rule ''d'' [demo_close_rule] = Some demo_close_rule" "needs_close demo_close_rule"
  "wallet_ready (wv_wallet demo_workspace_env)" "chainSiblings [demo_close_rule] ''d'' = [''d'']"
  by (simp_all add: find_rule_def demo_close_rule_def needs_close_def str_truthy_def wallet_ready_def demo_workspace_env_def
      chainSiblings_def link_chainId_def)

lemma demo_rule_close: "rule_close demo_workspace_env demo_close_rule = Inr ''sig''"
  by (simp add: rule_close_def demo_workspace_env_def demo_close_ok)

lemma demo_outcome: "rule_close (with_outcome x demo_workspace_env) demo_close_rule = Inr ''sig''"
proof -
  have "with_outcome (Some ''custom program error'') demo_workspace_env = demo_workspace_env"
    by (simp add: with_outcome_def demo_workspace_env_def demo_close_host_def)
  then show ?thesis using demo_rule_close rule_close_outcome by metis
qed

lemma demo_page_reached: "wk_reach (\<lambda>_. [demo_close_rule]) demo_closed_page"
proof -
  let ?s = "\<lambda>_. [demo_close_rule]"
  have "wk_reach ?s (wallet_changes (Some ''own'') (fresh_workspace ?s))" by (rule wk_reach.step [OF wk_reach.start wallet])
  then have "wk_reach ?s demo_page" unfolding demo_page_def by (rule wk_reach.step [OF _ load])
  then show ?thesis unfolding demo_closed_page_def by (rule wk_reach.step [OF _ delete])
qed

lemma demo_page_rules: "wk_automations demo_closed_page = [demo_close_rule\<lparr> au_closedAt := Some ''later'', au_running := False \<rparr>]"
proof -
  have "wk_automations demo_page = [demo_close_rule]"
    by (simp add: demo_page_def load_effect_def wallet_changes_def fresh_workspace_def loaded_def)
  moreover have "closeOneRule demo_workspace_env [demo_close_rule] ''d'' demo_page = (True, mark_closed ''later'' ''d'' demo_page)"
    by (simp add: closeOneRule_def demo_rule_found demo_rule_close) (simp add: demo_workspace_env_def)
  moreover have "au_id demo_close_rule = ''d''" by (simp add: demo_close_rule_def)
  ultimately show ?thesis
    by (simp add: demo_closed_page_def handleDelete_def demo_rule_found Let_def say_def mark_closed_def map_rules_def)
qed

theorem terminal_rules_stay_stopped_witness:
  "wk_automations demo_closed_page = [demo_close_rule\<lparr> au_closedAt := Some ''later'', au_running := False \<rparr>] \<and>
   list_all stopped (wk_automations demo_closed_page)"
proof -
  have "list_all stopped [demo_close_rule]"
    by (simp add: stopped_def isTerminal_def isCompleted_def isClosed_def str_truthy_def demo_close_rule_def)
  with terminal_rules_stay_stopped [OF demo_page_reached] demo_page_rules show ?thesis by simp
qed

theorem failed_close_recorded_as_done_witness:
  "handleDelete (with_outcome (Some ''custom program error'') demo_workspace_env) [demo_close_rule] ''d'' demo_page =
     say ''Automation closed and deposit refunded'' (mark_closed ''later'' ''d'' demo_page)"
  using failed_close_recorded_as_done [OF demo_rule_found(1,2,3) demo_outcome, of "''custom program error''" demo_page] demo_rule_found(4)
  by (simp add: demo_workspace_env_def)

definition demo_deposit_rule :: builderResult where
  "demo_deposit_rule = \<lparr> br_triggers = [TimeElapsed (Num 5) Minutes], br_triggerOperators = [],
     br_actions = [Swap demo_close_swap], br_actionOperators = [], br_cadence = Once, br_minIntervalSecs = Num 0 \<rparr>"

definition demo_receipt :: onChainResult where
  "demo_receipt = \<lparr> oc_pubkey = ''rule2'', oc_signature = ''sig2'', oc_nonce = ''7'' \<rparr>"

definition demo_next_page :: workspace where
  "demo_next_page = save_effect (handleDepositConfirm demo_clock (handleSave demo_deposit_rule demo_page) (Some demo_receipt)
     (load_effect (wallet_changes (Some ''B'') demo_page)))"

theorem deposit_lands_in_next_wallet_witness:
  "wk_storage demo_next_page ''B'' = [made_rule demo_clock demo_deposit_rule None (Some demo_receipt), demo_close_rule] \<and>
   wk_storage demo_next_page ''own'' = [demo_close_rule]"
proof -
  have s: "wk_storage demo_page w = [demo_close_rule]" for w
    by (simp add: demo_page_def load_effect_def wallet_changes_def fresh_workspace_def)
  have "wk_editingId (handleSave demo_deposit_rule demo_page) = None"
    by (simp add: handleSave_def demo_page_def load_effect_def wallet_changes_def fresh_workspace_def)
  moreover have "wk_pendingDeposit (handleSave demo_deposit_rule demo_page) = Some demo_deposit_rule"
    by (simp add: handleSave_def)
  ultimately show ?thesis unfolding demo_next_page_def
    using deposit_lands_in_next_wallet [of "''B''" "''own''" "handleSave demo_deposit_rule demo_page" demo_deposit_rule
        demo_clock demo_receipt demo_page] by (simp add: s)
qed

definition demo_chain :: chainSaveData where
  "demo_chain = \<lparr> cd_nodes = [\<lparr> nd_result = demo_deposit_rule, nd_next = Some 1 \<rparr>, \<lparr> nd_result = demo_deposit_rule, nd_next = None \<rparr>],
     cd_loopMode = None \<rparr>"

definition demo_chain_receipt :: chainOnChainResult where
  "demo_chain_receipt = \<lparr> co_signature = ''sig3'', co_nodes = [\<lparr> cn_pubkey = ''r0'', cn_nonce = ''0'', cn_seedAmount = ''5'' \<rparr>, \<lparr> cn_pubkey = ''r1'', cn_nonce = ''1'', cn_seedAmount = ''0'' \<rparr>] \<rparr>"

theorem created_chain_is_one_chain_witness:
  "chainSiblings (final_rules demo_clock (\<lambda>_. demo_clock) demo_chain demo_chain_receipt @ [demo_close_rule])
     (au_id (hd (final_rules demo_clock (\<lambda>_. demo_clock) demo_chain demo_chain_receipt))) =
     map au_id (final_rules demo_clock (\<lambda>_. demo_clock) demo_chain demo_chain_receipt)"
proof -
  let ?f = "final_rules demo_clock (\<lambda>_. demo_clock) demo_chain demo_chain_receipt"
  have "length ?f = 2" by (simp add: length_final demo_chain_def)
  then have "hd ?f \<in> set ?f" by (cases ?f) simp_all
  moreover have "list_all (\<lambda>a. link_chainId a \<noteq> Some (''chain_'' @ drop 2 (fresh_id demo_clock))) [demo_close_rule]"
    by (simp add: link_chainId_def demo_close_rule_def)
  ultimately show ?thesis
    by (intro created_chain_is_one_chain [where i = 0 and k = 1, THEN conjunct1])
      (simp_all add: demo_chain_def demo_chain_receipt_def demo_clock_def demo_deposit_rule_def)
qed

end
