(* ===== verification/Deposit.thy ===== *)
theory Deposit
  imports Workspace ChainCreate
begin

text \<open>
  src/src/components/DepositSheet.tsx: publishing a single rule. The rule is mapped to its on-chain form when the
  sheet opens, asynchronously; on confirmation the transaction that creates and funds it is built, signed, sent and
  confirmed, and the result is handed to the page. The connection and the wallet are the fields of createHost.
\<close>

section \<open>The deposit shown\<close>

text \<open>An object of totals per symbol; a missing entry counts zero. Symbols of decimal digits, which an object
  would enumerate first, do not occur.\<close>

definition add_total :: "string \<Rightarrow> jsnum \<Rightarrow> (string, jsnum) dict \<Rightarrow> (string, jsnum) dict" where
  "add_total k x d = dict_set d k (js_add (case dict_get d k of Some t \<Rightarrow> if truthy t then t else Num 0 | None \<Rightarrow> Num 0) x)"

definition depositByToken :: "action list \<Rightarrow> (string, jsnum) dict" where
  "depositByToken acts = foldl (\<lambda>d a. case a of
       Transfer token amount _ \<Rightarrow> add_total (tr_symbol token) amount d
     | Swap s \<Rightarrow> add_total (tr_symbol (sw_inputToken s)) (sw_amount s) d) [] acts"

section \<open>The on-chain form of a rule\<close>

definition DEFAULT_PYTH_EXPO :: int where "DEFAULT_PYTH_EXPO = - 8"

datatype onChainSpec =
  SolSpec onChainTriggerSpec pubkey int
| SplSpec onChainTriggerSpec pubkey pubkey int pubkey pubkey pubkey
| SwapSpec onChainTriggerSpec swapSpec pubkey pubkey pubkey pubkey

text \<open>The price branch of this copy of buildTriggerSpec; None in the inner option is the early return of null.\<close>

definition sheet_feed :: "solana \<Rightarrow> oracleSource \<Rightarrow> (pubkey \<times> int \<times> int \<times> bool) option" where
  "sheet_feed S orc = (case orc of
       OraclePyth feedId symb flip \<Rightarrow> (case feedIdToPubkey S feedId of None \<Rightarrow> None | Some f \<Rightarrow> Some (f, 0, DEFAULT_PYTH_EXPO, flip = Some True))
     | OracleJupiter mint symb \<Rightarrow> (case tryPubkey S (Some mint) of None \<Rightarrow> None | Some m \<Rightarrow> Some (m, 1, - 6, False))
     | OracleSwitchboard symb \<Rightarrow> None)"

definition sheet_quote :: "hermes \<Rightarrow> solana \<Rightarrow> oracleSource \<Rightarrow> int \<Rightarrow> quoteRef \<Rightarrow> (pubkey option \<times> int) option" where
  "sheet_quote H S orc defaultExpo quote = (case quote of
       QuoteUsd \<Rightarrow> Some (None, defaultExpo)
     | QuoteAsset q \<Rightarrow>
        let quoteTicker = to_upper (as_displaySymbol q);
            pairResolved = (case orc of OraclePyth feedId symb flip \<Rightarrow>
                str_includes (to_upper symb) (''/'' @ quoteTicker) \<or> str_includes (to_upper symb) (quoteTicker @ ''/'')
              | _ \<Rightarrow> False) in
        if pairResolved then Some (None, defaultExpo)
        else if str_truthy (as_mint q) then (case tryPubkey S (as_mint q) of None \<Rightarrow> None | Some m \<Rightarrow> Some (Some m, - 6))
        else (case lookupFeedForAsset H q of None \<Rightarrow> None
          | Some quotePyth \<Rightarrow> (case feedIdToPubkey S (ff_feedId quotePyth) of None \<Rightarrow> None | Some m \<Rightarrow> Some (Some m, - 6))))"

definition sheet_price_spec :: "hermes \<Rightarrow> solana \<Rightarrow> quoteRef \<Rightarrow> comparator \<Rightarrow> jsnum \<Rightarrow> oracleSource
    \<Rightarrow> (js_error, onChainTriggerSpec option) result" where
  "sheet_price_spec H S quote cmp threshold orc = (case sheet_feed S orc of
       None \<Rightarrow> Inr None
     | Some (feed, source, defaultExpo, inverted) \<Rightarrow>
        let userIntent = (if cmp = Below then 0 else 1 :: int);
            comparator = (if inverted then (if userIntent = 0 then 1 else 0) else userIntent) in
        (case sheet_quote H S orc defaultExpo quote of
           None \<Rightarrow> Inr None
         | Some (quoteMint, ex) \<Rightarrow>
             if inverted \<and> js_le threshold (Num 0) then Inr None
             else let targetValue = (if inverted then js_div (Num 1) threshold else threshold);
                      scaled = js_round (js_mul targetValue (js_pow10_int (- ex))) in
               and_then (new_bn S scaled) (\<lambda>bn. Inr (Some (OcAssetPrice
                 \<lparr> op_feed = feed, op_quoteMint = quoteMint, op_comparator = comparator, op_threshold = bn, op_expo = ex, op_source = source \<rparr>)))))"

definition sheetTriggerSpec :: "hermes \<Rightarrow> solana \<Rightarrow> trigger \<Rightarrow> (js_error, onChainTriggerSpec option) result" where
  "sheetTriggerSpec H S t = (case t of
       AccountTransfer account token \<Rightarrow> Inr (case tryPubkey S (Some account) of None \<Rightarrow> None
         | Some a \<Rightarrow> Some (OcAccountActivity a (case token of Specific r \<Rightarrow> tryPubkey S (Some (tr_mint r)) | AnyValue \<Rightarrow> None) 0))
     | AccountSwap account token amount direction \<Rightarrow> Inr (case tryPubkey S (Some account) of None \<Rightarrow> None
         | Some a \<Rightarrow> Some (OcAccountActivity a (case token of Specific r \<Rightarrow> tryPubkey S (Some (tr_mint r)) | AnyValue \<Rightarrow> None) 1))
     | AssetPrice asset quote cmp threshold orc \<Rightarrow> sheet_price_spec H S quote cmp threshold orc
     | TimeElapsed v u \<Rightarrow> (let secs = timeElapsedToSecs v u in
         if \<not> js_gt secs (Num 0) \<or> js_gt secs MAX_TIME_ELAPSED_SECS then Inr None else Inr (Some (OcTimeElapsed secs)))
     | PriceRelativeToFill upstream direction bps \<Rightarrow>
         if upstream = [] \<or> \<not> js_gt bps (Num 0) then Inr None
         else Inr (Some (OcPriceRelativeToFill upstream (if direction = Grow then 1 else 0) bps)))"

text \<open>The kind of the result is the constructor of the action.\<close>

definition buildActionSpec :: "solana \<Rightarrow> pubkey \<Rightarrow> action \<Rightarrow> (js_error, onChainActionSpec option) result" where
  "buildActionSpec S own a = (case a of
     Transfer token amount destination \<Rightarrow> (case tryPubkey S (Some destination) of
         None \<Rightarrow> Inr None
       | Some dest \<Rightarrow>
          if \<not> js_gt amount (Num 0) then Inr None
          else if tr_mint token = SOL_MINT_STR then
            and_then (new_bn S (js_round (js_mul amount (Num (of_int LAMPORTS_PER_SOL))))) (\<lambda>n. Inr (Some (OcTransferSol dest n)))
          else (case tryPubkey S (Some (tr_mint token)) of
              None \<Rightarrow> Inr None
            | Some mint \<Rightarrow> and_then (new_bn S (js_round (js_mul amount (js_pow10 (tr_decimals token))))) (\<lambda>n.
                Inr (Some (OcTransferSpl dest mint n)))))
   | Swap s \<Rightarrow> (case (tryPubkey S (Some (in_mint s)), tryPubkey S (Some (out_mint s))) of
         (Some i, Some out) \<Rightarrow>
           and_then (new_bn S (js_round (js_mul (sw_amount s) (js_pow10 (tr_decimals (sw_inputToken s)))))) (\<lambda>amountIn.
           Inr (Some (OcSwap \<lparr> os_inputMint = i, os_outputMint = out, os_destination = own, os_amountIn = amountIn,
             os_minAmountOut = 0, os_linkedDownstream = tryPubkey S (sw_linkedDownstream s), os_linkFeeDeposit = 0,
             os_consumeUpstreamOutput = False \<rparr>)))
       | _ \<Rightarrow> Inr None))"

definition unsupportedActivationReason :: "trigger list \<Rightarrow> action list \<Rightarrow> cadence \<Rightarrow> string option" where
  "unsupportedActivationReason ts acts cad =
    (if length ts \<noteq> 1 then Some ''Only one trigger can be activated on-chain right now.''
     else if length acts \<noteq> 1 then Some ''Only one action can be activated on-chain right now.''
     else if (case ts ! 0 of AccountSwap _ _ amount direction \<Rightarrow> amount \<noteq> AnyValue \<or> direction \<noteq> AtLeast | _ \<Rightarrow> False)
       then Some ''Account-swap amount filters need parsed token deltas and are not safe to activate yet.''
     else if (case (acts ! 0, cad) of (Swap _, Until _) \<Rightarrow> True | _ \<Rightarrow> False)
       then Some ''Swap actions cannot use an unbounded While cadence because the PDA must be prefunded.''
     else None)"

text \<open>The token program of a token: legacy SPL when the token does not say; new PublicKey may throw.\<close>

definition sheet_token_program :: "solana \<Rightarrow> tokenRef \<Rightarrow> (js_error, pubkey) result" where
  "sheet_token_program S t = (if str_truthy (tr_tokenProgram t)
     then new_pubkey S (case tr_tokenProgram t of Some p \<Rightarrow> p | None \<Rightarrow> []) else Inr SPL_TOKEN_PROGRAM_ID)"

definition spec_of_action :: "solana \<Rightarrow> pubkey \<Rightarrow> onChainTriggerSpec \<Rightarrow> action \<Rightarrow> onChainActionSpec \<Rightarrow> (js_error, onChainSpec option) result" where
  "spec_of_action S own trig a act = (case act of
     OcTransferSol dest n \<Rightarrow> Inr (Some (SolSpec trig dest n))
   | OcTransferSpl dest mint n \<Rightarrow> (case a of
       Transfer token _ _ \<Rightarrow> and_then (sheet_token_program S token) (\<lambda>tp.
         Inr (Some (SplSpec trig dest mint n (associatedTokenAddressForProgram S own mint tp)
           (associatedTokenAddressForProgram S dest mint tp) tp)))
     | Swap _ \<Rightarrow> Inr None)
   | OcSwap sp \<Rightarrow> (case a of
       Swap s \<Rightarrow> and_then (sheet_token_program S (sw_inputToken s)) (\<lambda>inTp.
         and_then (sheet_token_program S (sw_outputToken s)) (\<lambda>outTp.
         Inr (Some (SwapSpec trig sp (associatedTokenAddressForProgram S own (os_inputMint sp) inTp)
           (associatedTokenAddressForProgram S (os_destination sp) (os_outputMint sp) outTp) inTp outTp))))
     | Transfer _ _ _ \<Rightarrow> Inr None))"

definition getOnChainSpec :: "hermes \<Rightarrow> solana \<Rightarrow> pubkey \<Rightarrow> trigger list \<Rightarrow> action list \<Rightarrow> cadence \<Rightarrow> (js_error, onChainSpec option) result" where
  "getOnChainSpec H S own ts acts cad =
    (if unsupportedActivationReason ts acts cad \<noteq> None \<or> ts = [] \<or> acts = [] then Inr None
     else and_then (sheetTriggerSpec H S (hd ts)) (\<lambda>t. case t of None \<Rightarrow> Inr None
       | Some trig \<Rightarrow> and_then (buildActionSpec S own (hd acts)) (\<lambda>a. case a of None \<Rightarrow> Inr None
         | Some act \<Rightarrow> spec_of_action S own trig (hd acts) act)))"

section \<open>Creating the rule\<close>

text \<open>The config fetch, the blockhash, the wallet's signature, the send, the outcome of the confirmation, and the logs
  of the transaction (none when it is not found).\<close>

record createHost =
  rh_config :: "(js_error, programConfig) result"
  rh_blockhash :: "(js_error, string) result"
  rh_sign :: "instruction list \<Rightarrow> (js_error, instruction list) result"
  rh_send :: "instruction list \<Rightarrow> (js_error, string) result"
  rh_confirm :: "string \<Rightarrow> (js_error, string option) result"
  rh_logs :: "string \<Rightarrow> (js_error, string list option) result"

definition total_fires :: "cadence \<Rightarrow> jsnum" where
  "total_fires cad = (case cad of Once \<Rightarrow> Num 1 | Repeat n \<Rightarrow> n | Until _ \<Rightarrow> Num 1)"

text \<open>The native mint is wrapped, enough for every fire; any other input mint only gets the owner's account.\<close>

definition fund_ixs :: "solana \<Rightarrow> pubkey \<Rightarrow> cadence \<Rightarrow> swapSpec \<Rightarrow> pubkey \<Rightarrow> pubkey \<Rightarrow> (js_error, instruction list) result" where
  "fund_ixs S own cad sp ownerInputAta inTp =
    (if os_inputMint sp \<noteq> SOL_MINT_STR then Inr [IxCreateAta own ownerInputAta own (os_inputMint sp) inTp]
     else and_then (to_bigint (total_fires cad)) (\<lambda>totalFires.
       let ownerWsolAta = associatedTokenAddressForProgram S own SOL_MINT_STR SPL_TOKEN_PROGRAM_ID in
       Inr [IxCreateAta own ownerWsolAta own SOL_MINT_STR SPL_TOKEN_PROGRAM_ID,
            IxSystemTransfer own ownerWsolAta (os_amountIn sp * totalFires),
            IxSyncNative ownerWsolAta SPL_TOKEN_PROGRAM_ID]))"

definition sheet_args :: "onChainTriggerSpec \<Rightarrow> onChainActionSpec \<Rightarrow> onChainCadence \<Rightarrow> jsnum \<Rightarrow> createArgs" where
  "sheet_args trig act cad mini = \<lparr> ca_trigger = trig, ca_action = act, ca_cadence = cad, ca_minIntervalSecs = mini \<rparr>"

definition create_tx ::
  "solana \<Rightarrow> anchor \<Rightarrow> pubkey \<Rightarrow> pubkey \<Rightarrow> programConfig \<Rightarrow> onChainSpec \<Rightarrow> cadence \<Rightarrow> jsnum \<Rightarrow> (js_error, instruction list \<times> pubkey) result" where
  "create_tx S A prog own config spec cad mini =
    and_then (cadenceToOnChain S cad) (\<lambda>ocad.
    let keeper = pc_keeper config; nonce = pc_automationCount config in
    case spec of
      SolSpec trig dest n \<Rightarrow>
        and_then (buildCreateAutomationIx S A prog own keeper (sheet_args trig (OcTransferSol dest n) ocad mini) nonce) (\<lambda>(ix, automation).
        Inr ([ix], automation))
    | SplSpec trig dest mint n ownerAta destinationAta tp \<Rightarrow>
        and_then (buildCreateAutomationSplIx S A prog own keeper (sheet_args trig (OcTransferSpl dest mint n) ocad mini) mint nonce (Some tp)) (\<lambda>bt.
        Inr ([IxCreateAta own ownerAta own mint tp, IxCreateAta own destinationAta dest mint tp,
              IxCreateAta own (bt_automationAta bt) (bt_automation bt) mint tp, bt_ix bt], bt_automation bt))
    | SwapSpec trig sp ownerInputAta destinationOutputAta inTp outTp \<Rightarrow>
        and_then (buildCreateAutomationSwapIx S A prog own keeper (sheet_args trig (OcSwap sp) ocad mini) (os_inputMint sp) nonce (Some inTp)) (\<lambda>bt.
        and_then (fund_ixs S own cad sp ownerInputAta inTp) (\<lambda>fund.
        Inr (fund @ [IxCreateAta own (bt_automationAta bt) (bt_automation bt) (os_inputMint sp) inTp,
              IxCreateAta own destinationOutputAta (os_destination sp) (os_outputMint sp) outTp,
              IxCreateAta own (associatedTokenAddressForProgram S (pc_treasury config) (os_outputMint sp) outTp) (pc_treasury config) (os_outputMint sp) outTp,
              bt_ix bt], bt_automation bt))))"

definition sendCreateAutomation ::
  "solana \<Rightarrow> anchor \<Rightarrow> createHost \<Rightarrow> pubkey option \<Rightarrow> pubkey option \<Rightarrow> onChainSpec \<Rightarrow> cadence \<Rightarrow> jsnum \<Rightarrow> (js_error, onChainResult) result" where
  "sendCreateAutomation S A H prog wallet spec cad mini = (case wallet of
     None \<Rightarrow> Inl (ErrorMsg ''wallet not connected'')
   | Some own \<Rightarrow>
      and_then (mustProgramId prog) (\<lambda>programId.
      and_then (rh_config H) (\<lambda>config.
      and_then (create_tx S A programId own config spec cad mini) (\<lambda>(tx, automation).
      and_then (rh_blockhash H) (\<lambda>_.
      and_then (rh_sign H tx) (\<lambda>signed.
      and_then (rh_send H signed) (\<lambda>sig.
      and_then (rh_confirm H sig) (\<lambda>_.
      and_then (rh_logs H sig) (\<lambda>logs.
      let evt = parseAutomationCreated S (case logs of Some ls \<Rightarrow> ls | None \<Rightarrow> []) in
      Inr \<lparr> oc_pubkey = (case evt of Some (p, _) \<Rightarrow> p | None \<Rightarrow> automation), oc_signature = sig,
        oc_nonce = (case evt of Some (_, n) \<Rightarrow> n | None \<Rightarrow> show_int (pc_automationCount config)) \<rparr>)))))))))"

section \<open>The sheet\<close>

record depositSheet =
  ds_confirming :: bool
  ds_errorMsg :: "string option"
  ds_onChainSpec :: "onChainSpec option"
  ds_run :: nat

text \<open>The effect on a change of the rule or of the wallet: without either there is no form, otherwise a new run of
  the mapping starts and the form of before is kept until it resolves. A run that is no longer the last is dropped, and
  so is one that throws.\<close>

definition spec_effect :: "builderResult option \<Rightarrow> pubkey option \<Rightarrow> depositSheet \<Rightarrow> depositSheet" where
  "spec_effect rule own d = (if rule = None \<or> own = None then d\<lparr> ds_onChainSpec := None, ds_run := Suc (ds_run d) \<rparr>
     else d\<lparr> ds_run := Suc (ds_run d) \<rparr>)"

definition spec_resolved :: "nat \<Rightarrow> (js_error, onChainSpec option) result \<Rightarrow> depositSheet \<Rightarrow> depositSheet" where
  "spec_resolved run r d = (if run \<noteq> ds_run d then d else case r of Inl e \<Rightarrow> d | Inr spec \<Rightarrow> d\<lparr> ds_onChainSpec := spec \<rparr>)"

definition open_effect :: "bool \<Rightarrow> depositSheet \<Rightarrow> depositSheet" where
  "open_effect opened d = (if opened then d\<lparr> ds_confirming := False, ds_errorMsg := None \<rparr> else d)"

text \<open>What a confirmation ends in: the page is given a result (or none), or the sheet shows an error.\<close>

datatype confirmEnd = OnConfirm "onChainResult option" | SheetError string

definition handleConfirm ::
  "bool \<Rightarrow> onChainResult \<Rightarrow> (js_error \<Rightarrow> string) \<Rightarrow> solana \<Rightarrow> anchor \<Rightarrow> createHost \<Rightarrow> pubkey option \<Rightarrow> walletView \<Rightarrow> builderResult
    \<Rightarrow> depositSheet \<Rightarrow> confirmEnd" where
  "handleConfirm demo demoResult msg S A H prog w rule d =
    (case unsupportedActivationReason (br_triggers rule) (br_actions rule) (br_cadence rule) of
       Some reason \<Rightarrow> SheetError reason
     | None \<Rightarrow>
        if demo then OnConfirm (Some demoResult)
        else (case ds_onChainSpec d of
          None \<Rightarrow> OnConfirm None
        | Some spec \<Rightarrow>
           if \<not> isProgramConfigured prog then
             SheetError ''Sotama program ID is not configured. Set NEXT_PUBLIC_SOTAMA_PROGRAM_ID in your environment.''
           else if \<not> wl_connected w \<or> wl_publicKey w = None then SheetError ''Connect a Solana wallet to fund this automation.''
           else if \<not> wl_canSign w then SheetError (''This wallet doesn'' @ [CHR 0x27] @ ''t support signing.'')
           else (case sendCreateAutomation S A H prog (wl_publicKey w) spec (br_cadence rule) (br_minIntervalSecs rule) of
               Inr r \<Rightarrow> OnConfirm (Some r)
             | Inl e \<Rightarrow> SheetError (if msg e = [] then ''Transaction failed. Check console.'' else msg e))))"

definition sheet_after :: "confirmEnd \<Rightarrow> depositSheet \<Rightarrow> depositSheet" where
  "sheet_after c d = (case c of OnConfirm _ \<Rightarrow> d\<lparr> ds_confirming := True, ds_errorMsg := None \<rparr>
     | SheetError m \<Rightarrow> d\<lparr> ds_confirming := False, ds_errorMsg := Some m \<rparr>)"


section \<open>Lemmas\<close>

lemma bind_case: "Option.bind x f = (case x of None \<Rightarrow> None | Some y \<Rightarrow> f y)"
  by (cases x) simp_all

lemma sheet_feed_in_sync: "sheet_feed S orc = oracle_feed S orc"
  unfolding sheet_feed_def oracle_feed_def DEFAULT_PYTH_EXPO_def bind_case by (rule refl)

lemma sheet_quote_in_sync: "sheet_quote H S orc ex quote = quote_leg H S orc ex quote"
  unfolding sheet_quote_def quote_leg_def pair_resolved_def Let_def bind_case by (rule refl)

lemma sheet_price_in_sync: "sheet_price_spec H S quote cmp threshold orc = buildPriceSpec H S quote cmp threshold orc"
  unfolding sheet_price_spec_def sheet_feed_in_sync sheet_quote_in_sync buildPriceSpec_def encoded_threshold_def
    encoded_comparator_def Let_def by (rule refl)

lemma token_mint_case: "(case token of Specific r \<Rightarrow> tryPubkey S (Some (tr_mint r)) | AnyValue \<Rightarrow> None) = token_mint S token"
  by (cases token) simp_all

lemma confirm_send:
  assumes "unsupportedActivationReason (br_triggers rule) (br_actions rule) (br_cadence rule) = None"
    and "ds_onChainSpec d = Some spec" "prog = Some p" "wl_connected w" "wl_publicKey w = Some own" "wl_canSign w"
    and "sendCreateAutomation S A H prog (Some own) spec (br_cadence rule) (br_minIntervalSecs rule) = Inr r"
  shows "handleConfirm False dr msg S A H prog w rule d = OnConfirm (Some r)"
  using assms by (simp add: handleConfirm_def isProgramConfigured_def)

section \<open>Properties\<close>

text \<open>C15: A single rule and a rule of a chain are encoded alike. The two copies of the trigger encoding - the one of the
  deposit sheet and the one of the chain library, which a comment asks to be kept in sync - give the same on-chain trigger
  for every trigger, and a swap that does not consume an upstream output gives the same on-chain action.\<close>

theorem encodings_in_sync:
  assumes "sw_consumeUpstreamOutput s \<noteq> Some True"
  shows "sheetTriggerSpec H S t = buildTriggerSpec H S t \<and>
    buildActionSpec S own (Swap s) = map_sum id (map_option OcSwap) (buildSwapAction S own (Swap s) (tryPubkey S (sw_linkedDownstream s)))"
proof
  show "sheetTriggerSpec H S t = buildTriggerSpec H S t"
    by (simp add: sheetTriggerSpec_def buildTriggerSpec_def sheet_price_in_sync token_mint_case bind_case Let_def cong: option.case_cong split: trigger.split)
  show "buildActionSpec S own (Swap s) = map_sum id (map_option OcSwap) (buildSwapAction S own (Swap s) (tryPubkey S (sw_linkedDownstream s)))"
  proof (cases "new_bn S (js_round (js_mul (sw_amount s) (js_pow10 (tr_decimals (sw_inputToken s)))))")
    case (Inl e)
    then show ?thesis using assms by (simp add: buildActionSpec_def buildSwapAction_def Let_def split: option.split)
  next
    case (Inr n)
    then show ?thesis using assms by (simp add: buildActionSpec_def buildSwapAction_def Let_def split: option.split)
  qed
qed


section \<open>The accounts a create instruction names\<close>

definition create_account :: "instruction \<Rightarrow> string \<Rightarrow> pubkey option" where
  "create_account ix k = (case ix of IxCreateAutomation args acc \<Rightarrow> dict_get acc k | IxCreateAutomationSpl args acc \<Rightarrow> dict_get acc k
     | IxCreateAutomationSwap args pre acc \<Rightarrow> dict_get acc k | _ \<Rightarrow> None)"

text \<open>The spec of a swap derives its accounts from the owner, the mints and the token programs it carries.\<close>

lemma built_swap_destination: "buildActionSpec S own a = Inr (Some (OcSwap sp)) \<Longrightarrow> os_destination sp = own"
  by (cases a) (auto simp add: buildActionSpec_def result_simps split: if_splits option.splits)

lemma swap_spec_of_action:
  "spec_of_action S own trig a act = Inr (Some (SwapSpec trig' sp oAta dAta inTp outTp)) \<Longrightarrow> act = OcSwap sp \<and>
     oAta = associatedTokenAddressForProgram S own (os_inputMint sp) inTp \<and>
     dAta = associatedTokenAddressForProgram S (os_destination sp) (os_outputMint sp) outTp"
  by (cases act; cases a) (auto simp add: spec_of_action_def result_simps)

lemma swap_spec_accounts:
  assumes "getOnChainSpec H S own ts acts cad = Inr (Some (SwapSpec trig sp oAta dAta inTp outTp))"
  shows "oAta = associatedTokenAddressForProgram S own (os_inputMint sp) inTp \<and>
    dAta = associatedTokenAddressForProgram S own (os_outputMint sp) outTp \<and> os_destination sp = own"
proof -
  from assms obtain t act where b: "buildActionSpec S own (hd acts) = Inr (Some act)"
    and s: "spec_of_action S own t (hd acts) act = Inr (Some (SwapSpec trig sp oAta dAta inTp outTp))"
    by (simp add: getOnChainSpec_def result_simps split: if_splits option.splits) blast
  from swap_spec_of_action [OF s] built_swap_destination [of S own "hd acts" sp] b show ?thesis by simp
qed

lemma swap_tx_shape:
  assumes "create_tx S A prog own config (SwapSpec trig sp oAta dAta inTp outTp) cad mini = Inr (tx, automation)"
  obtains fund ix where "fund_ixs S own cad sp oAta inTp = Inr fund"
    "tx = fund @ [IxCreateAta own (associatedTokenAddressForProgram S automation (os_inputMint sp) inTp) automation (os_inputMint sp) inTp,
       IxCreateAta own dAta (os_destination sp) (os_outputMint sp) outTp,
       IxCreateAta own (associatedTokenAddressForProgram S (pc_treasury config) (os_outputMint sp) outTp) (pc_treasury config) (os_outputMint sp) outTp, ix]"
    "create_account ix ''ownerInputAta'' = Some (associatedTokenAddressForProgram S own (os_inputMint sp) inTp)"
    "create_account ix ''automationInputAta'' = Some (associatedTokenAddressForProgram S automation (os_inputMint sp) inTp)"
    "create_account ix ''automation'' = Some automation"
  using assms
  by (auto simp add: create_tx_def Let_def result_simps buildCreateAutomationSwapIx_def create_account_def swap_accounts_def token_accounts_def)

text \<open>C14: A deposit can be taken. In the transaction that publishes a swap, the instruction that creates the rule is the
  last one; before it the owner's account and the rule's account for the input token - the ones this instruction
  names - and the owner's account for the output token are created. A native input is wrapped first: the owner's account
  receives the amount of every fire of the cadence and is synchronised. (The native mint is taken to belong to the classic
  token program, as it does on the cluster.)\<close>

theorem deposit_accounts_ready:
  assumes "getOnChainSpec H S own ts acts cad = Inr (Some (SwapSpec trig sp oAta dAta inTp outTp))"
    and "create_tx S A prog own config (SwapSpec trig sp oAta dAta inTp outTp) cad mini = Inr (tx, automation)"
    and "os_inputMint sp \<noteq> SOL_MINT_STR \<or> inTp = SPL_TOKEN_PROGRAM_ID"
  shows "\<exists>aAta. create_account (last tx) ''automation'' = Some automation \<and>
    create_account (last tx) ''ownerInputAta'' = Some oAta \<and> IxCreateAta own oAta own (os_inputMint sp) inTp \<in> set (butlast tx) \<and>
    create_account (last tx) ''automationInputAta'' = Some aAta \<and> IxCreateAta own aAta automation (os_inputMint sp) inTp \<in> set (butlast tx) \<and>
    IxCreateAta own dAta own (os_outputMint sp) outTp \<in> set (butlast tx) \<and>
    (if os_inputMint sp = SOL_MINT_STR then \<exists>fires rest. to_bigint (total_fires cad) = Inr fires \<and>
       tx = IxCreateAta own oAta own SOL_MINT_STR inTp # IxSystemTransfer own oAta (os_amountIn sp * fires) #
         IxSyncNative oAta inTp # rest else True)"
proof -
  obtain fund ix where f: "fund_ixs S own cad sp oAta inTp = Inr fund"
    and tx: "tx = fund @ [IxCreateAta own (associatedTokenAddressForProgram S automation (os_inputMint sp) inTp) automation (os_inputMint sp) inTp,
       IxCreateAta own dAta (os_destination sp) (os_outputMint sp) outTp,
       IxCreateAta own (associatedTokenAddressForProgram S (pc_treasury config) (os_outputMint sp) outTp) (pc_treasury config) (os_outputMint sp) outTp, ix]"
    and ix: "create_account ix ''ownerInputAta'' = Some (associatedTokenAddressForProgram S own (os_inputMint sp) inTp)"
      "create_account ix ''automationInputAta'' = Some (associatedTokenAddressForProgram S automation (os_inputMint sp) inTp)"
      "create_account ix ''automation'' = Some automation"
    by (rule swap_tx_shape [OF assms(2)])
  note acc = swap_spec_accounts [OF assms(1)]
  show ?thesis
  proof (cases "os_inputMint sp = SOL_MINT_STR")
    case True
    then have tp: "inTp = SPL_TOKEN_PROGRAM_ID" using assms(3) by simp
    obtain fires where "to_bigint (total_fires cad) = Inr fires"
      "fund = [IxCreateAta own oAta own SOL_MINT_STR inTp, IxSystemTransfer own oAta (os_amountIn sp * fires), IxSyncNative oAta inTp]"
      using f True acc tp by (auto simp add: fund_ixs_def Let_def result_simps)
    then show ?thesis using ix acc True by (simp add: tx butlast_append)
  next
    case False
    then have "fund = [IxCreateAta own oAta own (os_inputMint sp) inTp]" using f by (simp add: fund_ixs_def)
    then show ?thesis using ix acc False by (simp add: tx butlast_append)
  qed
qed

text \<open>C39: A create that fails on the chain is kept as a funded rule. When the confirmed transaction carries an error - it
  then has no creation event in its logs - the sheet still hands the page the address derived for the rule, and the page
  adds a running rule under that address and reports it as funded.\<close>

theorem failed_create_kept_as_funded:
  assumes "unsupportedActivationReason (br_triggers rule) (br_actions rule) (br_cadence rule) = None"
    and "ds_onChainSpec d = Some spec" "wl_connected w" "wl_publicKey w = Some own" "wl_canSign w"
    and "rh_config H = Inr config" "rh_blockhash H = Inr blockhash"
    and "create_tx S A prog own config spec (br_cadence rule) (br_minIntervalSecs rule) = Inr (tx, automation)"
    and "rh_sign H tx = Inr signedTx" "rh_send H signedTx = Inr sig" "rh_confirm H sig = Inr (Some err)"
    and "rh_logs H sig = Inr (Some logs)" "parseAutomationCreated S logs = None"
    and "wk_pendingDeposit render = Some rule" "wk_editingId render = None"
  shows "\<exists>r a. handleConfirm False dr msg S A H (Some prog) w rule d = OnConfirm (Some r) \<and>
    wk_automations (handleDepositConfirm C render (Some r) ws) = a # wk_automations ws \<and> au_pubkey a = Some automation \<and> au_running a \<and>
    wk_toast (handleDepositConfirm C render (Some r) ws) = ''Funded'' @ MID_DOT @ take 8 sig @ [CHR 0xE2, CHR 0x80, CHR 0xA6]"
proof -
  let ?r = "\<lparr> oc_pubkey = automation, oc_signature = sig, oc_nonce = show_int (pc_automationCount config) \<rparr>"
  have "sendCreateAutomation S A H (Some prog) (Some own) spec (br_cadence rule) (br_minIntervalSecs rule) = Inr ?r"
    using assms(6-13) by (simp add: sendCreateAutomation_def mustProgramId_def Let_def)
  from confirm_send [OF assms(1,2) refl assms(3-5) this]
  have "handleConfirm False dr msg S A H (Some prog) w rule d = OnConfirm (Some ?r)" .
  then show ?thesis using assms(14,15)
    by (intro exI [of _ ?r] exI [of _ "made_rule C rule None (Some ?r)"])
      (simp add: handleDepositConfirm_def deposit_confirmed_def Let_def made_rule_def makeAutomation_def no_overrides_def or_else_def)
qed

text \<open>Confirming too early saves the rule unfunded. Until the mapping of a rule has resolved, a confirmation ends
  without a transaction and the page saves the rule as running without an account, although the mapping, once resolved,
  yields an on-chain form and the same confirmation would have funded it.\<close>

theorem early_confirm_is_unfunded:
  assumes "getOnChainSpec HM S own (br_triggers rule) (br_actions rule) (br_cadence rule) = Inr (Some spec)"
    and "ds_onChainSpec d = None" "wk_pendingDeposit render = Some rule" "wk_editingId render = None"
  shows "handleConfirm False dr msg S A H prog w rule (spec_effect (Some rule) (Some own) d) = OnConfirm None \<and>
    (\<exists>a. wk_automations (handleDepositConfirm C render None ws) = a # wk_automations ws \<and> au_pubkey a = None \<and> au_running a) \<and>
    ds_onChainSpec (spec_resolved (Suc (ds_run d)) (getOnChainSpec HM S own (br_triggers rule) (br_actions rule) (br_cadence rule))
      (spec_effect (Some rule) (Some own) d)) = Some spec"
proof -
  have "unsupportedActivationReason (br_triggers rule) (br_actions rule) (br_cadence rule) = None"
    using assms(1) by (auto simp add: getOnChainSpec_def split: if_splits)
  then show ?thesis using assms
    by (simp add: handleConfirm_def spec_effect_def spec_resolved_def handleDepositConfirm_def deposit_confirmed_def Let_def
        made_rule_def makeAutomation_def no_overrides_def or_else_def)
qed


section \<open>Instances\<close>

text \<open>A rule that swaps wrapped SOL after five minutes; the cluster refuses the transaction when it is confirmed.\<close>

definition demo_sheet_swap :: swapAction where
  "demo_sheet_swap = demo_close_swap\<lparr> sw_inputToken := (sw_inputToken demo_close_swap)\<lparr> tr_mint := SOL_MINT_STR \<rparr> \<rparr>"

definition demo_sheet_rule :: builderResult where
  "demo_sheet_rule = demo_deposit_rule\<lparr> br_actions := [Swap demo_sheet_swap] \<rparr>"

definition demo_create_host :: createHost where
  "demo_create_host = \<lparr> rh_config = Inr \<lparr> pc_keeper = ''K'', pc_treasury = ''Y'', pc_automationCount = 7, pc_timeFeeLamportsPerDay = 1000 \<rparr>,
     rh_blockhash = Inr ''hash'', rh_sign = Inr, rh_send = (\<lambda>_. Inr ''sig''), rh_confirm = (\<lambda>_. Inr (Some ''custom program error'')),
     rh_logs = (\<lambda>_. Inr (Some [])) \<rparr>"

definition demo_closed_sheet :: depositSheet where
  "demo_closed_sheet = \<lparr> ds_confirming = False, ds_errorMsg = None, ds_onChainSpec = None, ds_run = 0 \<rparr>"

definition demo_swap_spec :: swapSpec where
  "demo_swap_spec = \<lparr> os_inputMint = SOL_MINT_STR, os_outputMint = ''D'', os_destination = ''own'', os_amountIn = 1000000,
     os_minAmountOut = 0, os_linkedDownstream = None, os_linkFeeDeposit = 0, os_consumeUpstreamOutput = False \<rparr>"

definition demo_spec :: onChainSpec where
  "demo_spec = SwapSpec (OcTimeElapsed (Num 300)) demo_swap_spec
     (associatedTokenAddressForProgram demo_solana ''own'' SOL_MINT_STR SPL_TOKEN_PROGRAM_ID)
     (associatedTokenAddressForProgram demo_solana ''own'' ''D'' SPL_TOKEN_PROGRAM_ID) SPL_TOKEN_PROGRAM_ID SPL_TOKEN_PROGRAM_ID"

lemma demo_sheet_spec:
  "getOnChainSpec (\<lambda>_. None) demo_solana ''own'' (br_triggers demo_sheet_rule) (br_actions demo_sheet_rule) (br_cadence demo_sheet_rule) =
     Inr (Some demo_spec)"
proof -
  have "sheetTriggerSpec (\<lambda>_. None) demo_solana (TimeElapsed (Num 5) Minutes) = Inr (Some (OcTimeElapsed (Num 300)))"
    by (simp add: sheetTriggerSpec_def timeElapsedToSecs_def MAX_TIME_ELAPSED_SECS_def unit_secs_def Let_def js_eval)
  moreover have "\<lfloor>(2000001 / 2 :: rat)\<rfloor> = 1000000" by (rule floor_unique) simp_all
  then have "buildActionSpec demo_solana ''own'' (Swap demo_sheet_swap) = Inr (Some (OcSwap demo_swap_spec))"
    by (simp add: buildActionSpec_def demo_sheet_swap_def demo_close_swap_def Let_def tryPubkey_def demo_solana_def demo_bn_def
        SOL_MINT_STR_def demo_swap_spec_def js_pow10_def js_eval)
  moreover have "spec_of_action demo_solana ''own'' (OcTimeElapsed (Num 300)) (Swap demo_sheet_swap) (OcSwap demo_swap_spec) = Inr (Some demo_spec)"
    by (simp add: spec_of_action_def sheet_token_program_def demo_sheet_swap_def demo_close_swap_def Let_def str_truthy_def
        demo_spec_def demo_swap_spec_def)
  ultimately show ?thesis
    by (simp add: getOnChainSpec_def unsupportedActivationReason_def demo_sheet_rule_def demo_deposit_rule_def)
qed

lemma demo_supported:
  "unsupportedActivationReason (br_triggers demo_sheet_rule) (br_actions demo_sheet_rule) (br_cadence demo_sheet_rule) = None"
  by (simp add: unsupportedActivationReason_def demo_sheet_rule_def demo_deposit_rule_def)

lemma demo_create_tx: "\<exists>tx automation. create_tx demo_solana (\<lambda>_. None) ''prog'' ''own''
     \<lparr> pc_keeper = ''K'', pc_treasury = ''Y'', pc_automationCount = 7, pc_timeFeeLamportsPerDay = 1000 \<rparr> demo_spec
     (br_cadence demo_sheet_rule) (br_minIntervalSecs demo_sheet_rule) = Inr (tx, automation)"
  by (simp add: create_tx_def demo_sheet_rule_def demo_deposit_rule_def cadenceToOnChain_def demo_spec_def Let_def
      buildCreateAutomationSwapIx_def encode_ix_def automationPda_def fund_ixs_def total_fires_def to_bigint_def)

theorem encodings_in_sync_witness:
  "sheetTriggerSpec (\<lambda>_. None) demo_solana (AccountTransfer ''A'' AnyValue) = Inr (Some (OcAccountActivity ''A'' None 0)) \<and>
   buildTriggerSpec (\<lambda>_. None) demo_solana (AccountTransfer ''A'' AnyValue) = Inr (Some (OcAccountActivity ''A'' None 0))"
proof -
  have "sw_consumeUpstreamOutput demo_close_swap \<noteq> Some True" by (simp add: demo_close_swap_def Let_def)
  from encodings_in_sync [OF this, of "\<lambda>_. None" demo_solana "AccountTransfer ''A'' AnyValue" "''own''"]
  show ?thesis by (simp add: sheetTriggerSpec_def tryPubkey_def demo_solana_def)
qed

theorem deposit_accounts_ready_witness:
  "\<exists>tx automation. create_account (last tx) ''automation'' = Some automation \<and>
     (\<exists>rest. tx = IxCreateAta ''own'' (associatedTokenAddressForProgram demo_solana ''own'' SOL_MINT_STR SPL_TOKEN_PROGRAM_ID) ''own'' SOL_MINT_STR SPL_TOKEN_PROGRAM_ID #
       IxSystemTransfer ''own'' (associatedTokenAddressForProgram demo_solana ''own'' SOL_MINT_STR SPL_TOKEN_PROGRAM_ID) 1000000 #
       IxSyncNative (associatedTokenAddressForProgram demo_solana ''own'' SOL_MINT_STR SPL_TOKEN_PROGRAM_ID) SPL_TOKEN_PROGRAM_ID # rest)"
proof -
  obtain tx automation where tx: "create_tx demo_solana (\<lambda>_. None) ''prog'' ''own''
     \<lparr> pc_keeper = ''K'', pc_treasury = ''Y'', pc_automationCount = 7, pc_timeFeeLamportsPerDay = 1000 \<rparr> demo_spec
     (br_cadence demo_sheet_rule) (br_minIntervalSecs demo_sheet_rule) = Inr (tx, automation)" using demo_create_tx by blast
  have c: "br_cadence demo_sheet_rule = Once" by (simp add: demo_sheet_rule_def demo_deposit_rule_def)
  have m: "os_inputMint demo_swap_spec = SOL_MINT_STR" "os_amountIn demo_swap_spec = 1000000" by (simp_all add: demo_swap_spec_def)
  have one: "to_bigint (total_fires Once) = Inr n \<Longrightarrow> n = 1" for n by (simp add: total_fires_def to_bigint_def)
  show ?thesis
    using deposit_accounts_ready [OF demo_sheet_spec [unfolded demo_spec_def] tx [unfolded demo_spec_def]] m
    by (auto simp add: c dest!: one)
qed

lemma demo_early_page:
  "wk_pendingDeposit (handleSave demo_sheet_rule demo_page) = Some demo_sheet_rule"
  "wk_editingId (handleSave demo_sheet_rule demo_page) = None"
  by (simp_all add: handleSave_def demo_page_def load_effect_def wallet_changes_def fresh_workspace_def)

theorem failed_create_kept_as_funded_witness:
  "\<exists>r a. handleConfirm False demo_receipt (\<lambda>_. []) demo_solana (\<lambda>_. None) demo_create_host (Some ''prog'')
      \<lparr> wl_connected = True, wl_publicKey = Some ''own'', wl_canSign = True \<rparr> demo_sheet_rule (demo_closed_sheet\<lparr> ds_onChainSpec := Some demo_spec \<rparr>) =
        OnConfirm (Some r) \<and>
     wk_automations (handleDepositConfirm demo_clock (handleSave demo_sheet_rule demo_page) (Some r) demo_page) = a # wk_automations demo_page \<and>
     au_running a"
proof -
  obtain tx automation where tx: "create_tx demo_solana (\<lambda>_. None) ''prog'' ''own''
     \<lparr> pc_keeper = ''K'', pc_treasury = ''Y'', pc_automationCount = 7, pc_timeFeeLamportsPerDay = 1000 \<rparr> demo_spec
     (br_cadence demo_sheet_rule) (br_minIntervalSecs demo_sheet_rule) = Inr (tx, automation)" using demo_create_tx by blast
  have "parseAutomationCreated demo_solana [] = None" by (simp add: parseAutomationCreated_def demo_solana_def)
  with failed_create_kept_as_funded [OF demo_supported, where d = "demo_closed_sheet\<lparr> ds_onChainSpec := Some demo_spec \<rparr>" and
      w = "\<lparr> wl_connected = True, wl_publicKey = Some ''own'', wl_canSign = True \<rparr>" and H = demo_create_host and sig = "''sig''"
      and signedTx = tx and logs = "[]" and render = "handleSave demo_sheet_rule demo_page" and ws = demo_page and C = demo_clock
      and dr = demo_receipt and msg = "\<lambda>_. []", OF _ _ _ _ _ _ tx] demo_early_page
  show ?thesis by (force simp add: demo_create_host_def)
qed

theorem early_confirm_is_unfunded_witness:
  "handleConfirm False demo_receipt (\<lambda>_. []) demo_solana (\<lambda>_. None) demo_create_host (Some ''prog'')
     \<lparr> wl_connected = True, wl_publicKey = Some ''own'', wl_canSign = True \<rparr> demo_sheet_rule
     (spec_effect (Some demo_sheet_rule) (Some ''own'') demo_closed_sheet) = OnConfirm None"
  using early_confirm_is_unfunded [OF demo_sheet_spec, of demo_closed_sheet "handleSave demo_sheet_rule demo_page"] demo_early_page
  by (simp add: demo_closed_sheet_def)

end
