(* ===== verification/ChainBuilder.thy ===== *)
theory ChainBuilder
  imports Deposit
begin

text \<open>
  src/src/components/builder/LinkedChainBuilder.tsx: composing a chain. The builder keeps up to five cards, each
  with a rule under construction and a link, the loop mode, and two pending questions (the mode of a loop, and
  whether cards that hold work may be deleted). Its events are the controls it renders; while a question is open
  it covers the cards, which can then only report their rules.
\<close>

section \<open>State\<close>

record cardState =
  cs_id :: string
  cs_initial :: "automation option"
  cs_result :: "builderResult option"
  cs_link :: "int option"

record backLink =
  bl_cardIndex :: nat
  bl_targetRuleIndex :: int
  bl_prevLink :: "int option"
  bl_prevLoopMode :: "loopMode option"

record killCascade =
  kc_cardIndex :: nat
  kc_downstreamCount :: nat
  kc_filledCount :: nat

record chainBuilder =
  lb_cards :: "cardState list"
  lb_loopMode :: "loopMode option"
  lb_pendingBackLink :: "backLink option"
  lb_pendingKillCascade :: "killCascade option"
  lb_cardIdCounter :: nat

definition card_id :: "nat \<Rightarrow> string" where
  "card_id n = ''card_'' @ show_nat n"

definition new_builder :: "automation option \<Rightarrow> nat \<Rightarrow> chainBuilder" where
  "new_builder initial n = \<lparr> lb_cards = [\<lparr> cs_id = card_id (Suc n), cs_initial = initial, cs_result = None, cs_link = None \<rparr>],
     lb_loopMode = None, lb_pendingBackLink = None, lb_pendingKillCascade = None, lb_cardIdCounter = Suc n \<rparr>"

definition isChain :: "chainBuilder \<Rightarrow> bool" where
  "isChain s \<longleftrightarrow> length (lb_cards s) > 1 \<or> lb_loopMode s \<noteq> None"

section \<open>Handlers\<close>

text \<open>Replacing the link of one card; an index out of range replaces nothing.\<close>

definition link_at :: "nat \<Rightarrow> int option \<Rightarrow> cardState list \<Rightarrow> cardState list" where
  "link_at i l cards = cards[i := (cards ! i)\<lparr> cs_link := l \<rparr>]"

definition addNewCard :: "chainBuilder \<Rightarrow> chainBuilder" where
  "addNewCard s = (if length (lb_cards s) \<ge> MAX_CHAIN_LENGTH then s
     else let nextIdx = length (lb_cards s) in
       s\<lparr> lb_cards := link_at (nextIdx - 1) (Some (int nextIdx)) (lb_cards s) @
            [\<lparr> cs_id = card_id (Suc (lb_cardIdCounter s)), cs_initial = None, cs_result = None, cs_link = None \<rparr>],
          lb_cardIdCounter := Suc (lb_cardIdCounter s) \<rparr>)"

definition relink :: "nat \<Rightarrow> nat \<Rightarrow> cardState \<Rightarrow> cardState" where
  "relink n i c = (case cs_link c of
       None \<Rightarrow> c
     | Some target \<Rightarrow>
         if i \<noteq> n - 1 then c\<lparr> cs_link := Some (int (i + 1)) \<rparr>
         else if target \<ge> int n then c\<lparr> cs_link := None \<rparr> else c)"

definition removeCardAt :: "nat \<Rightarrow> chainBuilder \<Rightarrow> chainBuilder" where
  "removeCardAt index s = (if length (lb_cards s) = 1 \<or> index = 0 then s
     else let filtered = take index (lb_cards s) @ drop (Suc index) (lb_cards s) in
       s\<lparr> lb_cards := map (\<lambda>(i, c). relink (length filtered) i c) (enumerate 0 filtered) \<rparr>)"

definition setCardLink :: "nat \<Rightarrow> int option \<Rightarrow> chainBuilder \<Rightarrow> chainBuilder" where
  "setCardLink index l s = s\<lparr> lb_cards := link_at index l (lb_cards s) \<rparr>"

definition setCardResult :: "nat \<Rightarrow> builderResult option \<Rightarrow> chainBuilder \<Rightarrow> chainBuilder" where
  "setCardResult index result s = (case nth_opt (lb_cards s) index of
       None \<Rightarrow> s
     | Some cur \<Rightarrow> s\<lparr> lb_cards := (lb_cards s)[index := cur\<lparr> cs_result := result \<rparr>] \<rparr>)"

definition setLoopOnly :: "loopMode option \<Rightarrow> chainBuilder \<Rightarrow> chainBuilder" where
  "setLoopOnly mode s = s\<lparr> lb_loopMode := mode \<rparr>"

definition stageBackLink :: "nat \<Rightarrow> int \<Rightarrow> chainBuilder \<Rightarrow> chainBuilder" where
  "stageBackLink cardIndex target s = (case nth_opt (lb_cards s) cardIndex of
       None \<Rightarrow> s
     | Some cur \<Rightarrow> s\<lparr>
         lb_pendingBackLink := Some \<lparr> bl_cardIndex = cardIndex, bl_targetRuleIndex = target,
           bl_prevLink = cs_link cur, bl_prevLoopMode = lb_loopMode s \<rparr>,
         lb_cards := link_at cardIndex (Some target) (lb_cards s),
         lb_loopMode := (case lb_loopMode s of None \<Rightarrow> Some (Frequency DEFAULT_LOOP_CYCLES) | Some m \<Rightarrow> Some m) \<rparr>)"

definition cancelBackLink :: "chainBuilder \<Rightarrow> chainBuilder" where
  "cancelBackLink s = (case lb_pendingBackLink s of
       None \<Rightarrow> s
     | Some cur \<Rightarrow> s\<lparr> lb_cards := link_at (bl_cardIndex cur) (bl_prevLink cur) (lb_cards s),
         lb_loopMode := bl_prevLoopMode cur, lb_pendingBackLink := None \<rparr>)"

definition applyBackLinkLoop :: "loopMode \<Rightarrow> chainBuilder \<Rightarrow> chainBuilder" where
  "applyBackLinkLoop mode s = s\<lparr> lb_pendingBackLink := None, lb_loopMode := Some mode \<rparr>"

text \<open>The answer of the loop question: the number of cycles is at least one.\<close>

definition loop_choice :: "bool \<Rightarrow> jsnum \<Rightarrow> loopMode" where
  "loop_choice frequency cycles = (if frequency then Frequency (js_max (Num 1) (js_floor cycles)) else Infinite)"

text \<open>Typing a number of cycles; what does not parse, or is below one, is ignored.\<close>

definition type_cycles :: "jsnum \<Rightarrow> jsnum \<Rightarrow> jsnum" where
  "type_cycles v cycles = (if \<not> is_finite v \<or> js_lt v (Num 1) then cycles else v)"

definition cut_after :: "nat \<Rightarrow> cardState list \<Rightarrow> cardState list" where
  "cut_after i cards = link_at i None (take (Suc i) cards)"

definition killLink :: "nat \<Rightarrow> chainBuilder \<Rightarrow> chainBuilder" where
  "killLink cardIndex s = (case Option.bind (nth_opt (lb_cards s) cardIndex) cs_link of
       None \<Rightarrow> s
     | Some ruleIndex \<Rightarrow>
         if ruleIndex \<le> int cardIndex then
           s\<lparr> lb_cards := link_at cardIndex None (lb_cards s), lb_loopMode := None \<rparr>
         else let downstream = drop (cardIndex + 1) (lb_cards s);
                  filled = length (filter (\<lambda>c. cs_result c \<noteq> None) downstream) in
           if filled = 0 then s\<lparr> lb_cards := cut_after cardIndex (lb_cards s) \<rparr>
           else s\<lparr> lb_pendingKillCascade := Some \<lparr> kc_cardIndex = cardIndex, kc_downstreamCount = length downstream,
             kc_filledCount = filled \<rparr> \<rparr>)"

definition confirmKillCascade :: "chainBuilder \<Rightarrow> chainBuilder" where
  "confirmKillCascade s = (case lb_pendingKillCascade s of
       None \<Rightarrow> s
     | Some k \<Rightarrow> s\<lparr> lb_cards := cut_after (kc_cardIndex k) (lb_cards s),
         lb_loopMode := (if kc_cardIndex k = 0 then None else lb_loopMode s), lb_pendingKillCascade := None \<rparr>)"

definition cancelKillCascade :: "chainBuilder \<Rightarrow> chainBuilder" where
  "cancelKillCascade s = s\<lparr> lb_pendingKillCascade := None \<rparr>"

section \<open>What is derived from the cards\<close>

definition draftNodes :: "chainBuilder \<Rightarrow> chainNodeDraft list option" where
  "draftNodes s = (if list_all (\<lambda>c. cs_result c \<noteq> None) (lb_cards s)
     then Some (map (\<lambda>c. \<lparr> nd_result = the (cs_result c), nd_next = cs_link c \<rparr>) (lb_cards s)) else None)"

definition chainError :: "chainBuilder \<Rightarrow> chainValidationError option" where
  "chainError s = (if \<not> isChain s then None else Option.bind (draftNodes s) validateChainDraft)"

definition chainReady :: "chainBuilder \<Rightarrow> bool" where
  "chainReady s \<longleftrightarrow> isChain s \<and> list_all (\<lambda>c. cs_result c \<noteq> None) (lb_cards s) \<and> chainError s = None"

definition linkClasses :: "chainBuilder \<Rightarrow> chainLinkClass list" where
  "linkClasses s = map (\<lambda>i. case (cs_result (lb_cards s ! i), cs_result (lb_cards s ! (i + 1))) of
       (Some up, Some down) \<Rightarrow> classifyChainLink up down
     | _ \<Rightarrow> MatchedMints) [0..<length (lb_cards s) - 1]"

definition backLinkTarget :: "chainBuilder \<Rightarrow> (nat \<times> int) option" where
  "backLinkTarget s = (if lb_loopMode s = None then None
     else if length (lb_cards s) = 1 then Some (0, 0)
     else let lastIdx = length (lb_cards s) - 1 in
       (case Option.bind (nth_opt (lb_cards s) lastIdx) cs_link of
          None \<Rightarrow> None
        | Some target \<Rightarrow> if target > int lastIdx then None else Some (lastIdx, target)))"

text \<open>What saving the chain hands to the page, if anything.\<close>

definition saveChain :: "chainBuilder \<Rightarrow> chainSaveData option" where
  "saveChain s = (if \<not> chainReady s then None
     else (case draftNodes s of None \<Rightarrow> None | Some nodes \<Rightarrow> Some \<lparr> cd_nodes = nodes, cd_loopMode = lb_loopMode s \<rparr>))"

section \<open>Events\<close>

definition covered :: "chainBuilder \<Rightarrow> bool" where
  "covered s \<longleftrightarrow> lb_pendingBackLink s \<noteq> None \<or> lb_pendingKillCascade s \<noteq> None"

abbreviation last_card :: "chainBuilder \<Rightarrow> nat" where "last_card s \<equiv> length (lb_cards s) - 1"

inductive builder_step :: "chainBuilder \<Rightarrow> chainBuilder \<Rightarrow> bool" where
  report: "builder_step s (setCardResult i r s)"
| add_card: "\<not> covered s \<Longrightarrow> length (lb_cards s) < MAX_CHAIN_LENGTH \<Longrightarrow> builder_step s (addNewCard s)"
| close_card: "\<not> covered s \<Longrightarrow> isChain s \<Longrightarrow> 0 < i \<Longrightarrow> i < length (lb_cards s) \<Longrightarrow> builder_step s (removeCardAt i s)"
| pick_back: "\<not> covered s \<Longrightarrow> t \<le> last_card s \<Longrightarrow> builder_step s (stageBackLink (last_card s) (int t) s)"
| clear_link: "\<not> covered s \<Longrightarrow> builder_step s (setLoopOnly None (setCardLink (last_card s) None s))"
| kill: "\<not> covered s \<Longrightarrow> i < length (lb_cards s) \<Longrightarrow> builder_step s (killLink i s)"
| cancel_loop: "lb_pendingBackLink s \<noteq> None \<Longrightarrow> builder_step s (cancelBackLink s)"
| apply_loop: "lb_pendingBackLink s \<noteq> None \<Longrightarrow> is_finite n \<Longrightarrow> builder_step s (applyBackLinkLoop (loop_choice f n) s)"
| confirm_kill: "lb_pendingKillCascade s \<noteq> None \<Longrightarrow> builder_step s (confirmKillCascade s)"
| cancel_kill: "lb_pendingKillCascade s \<noteq> None \<Longrightarrow> builder_step s (cancelKillCascade s)"


section \<open>The shape of the links\<close>

text \<open>Every card but the last is linked to the next one; the last card is terminal or linked back.\<close>

definition last_ok :: "nat \<Rightarrow> int option \<Rightarrow> bool" where
  "last_ok n l = (case l of None \<Rightarrow> True | Some t \<Rightarrow> 0 \<le> t \<and> t < int n)"

definition shape :: "int option list \<Rightarrow> bool" where
  "shape ls \<longleftrightarrow> ls \<noteq> [] \<and> length ls \<le> MAX_CHAIN_LENGTH \<and> (\<forall>i. Suc i < length ls \<longrightarrow> ls ! i = Some (int (Suc i))) \<and>
     last_ok (length ls) (ls ! (length ls - 1))"

definition links :: "chainBuilder \<Rightarrow> int option list" where
  "links s = map cs_link (lb_cards s)"

definition mode_ok :: "loopMode option \<Rightarrow> bool" where
  "mode_ok m = (case m of Some (Frequency n) \<Rightarrow> js_ge n (Num 1) | _ \<Rightarrow> True)"

definition builder_ok :: "chainBuilder \<Rightarrow> bool" where
  "builder_ok s \<longleftrightarrow> shape (links s) \<and> mode_ok (lb_loopMode s) \<and>
     (links s ! (length (links s) - 1) \<noteq> None \<longrightarrow> lb_loopMode s \<noteq> None) \<and>
     (case lb_pendingBackLink s of None \<Rightarrow> True | Some b \<Rightarrow> bl_cardIndex b = length (links s) - 1 \<and>
        last_ok (length (links s)) (bl_prevLink b) \<and> mode_ok (bl_prevLoopMode b) \<and> (bl_prevLink b \<noteq> None \<longrightarrow> bl_prevLoopMode b \<noteq> None)) \<and>
     (case lb_pendingKillCascade s of None \<Rightarrow> True | Some k \<Rightarrow> kc_cardIndex k < length (links s)) \<and>
     (lb_pendingBackLink s = None \<or> lb_pendingKillCascade s = None)"

lemma links_link_at: "map cs_link (link_at i l cards) = (map cs_link cards)[i := l]"
  by (simp add: link_at_def map_update)

lemma links_cut_after: "map cs_link (cut_after i cards) = (take (Suc i) (map cs_link cards))[i := None]"
  by (simp add: cut_after_def links_link_at take_map)

lemma length_link_at [simp]: "length (link_at i l cards) = length cards"
  by (simp add: link_at_def)

lemma shape_last: "shape ls \<Longrightarrow> last_ok (length ls) l \<Longrightarrow> shape (ls[length ls - 1 := l])"
  by (auto simp add: shape_def nth_list_update)

lemma shape_snoc:
  assumes "shape ls" "length ls < MAX_CHAIN_LENGTH"
  shows "shape (ls[length ls - 1 := Some (int (length ls))] @ [None])"
  using assms by (auto simp add: shape_def nth_append nth_list_update last_ok_def less_Suc_eq)

lemma shape_cut:
  assumes "shape ls" "i < length ls"
  shows "shape ((take (Suc i) ls)[i := None])"
proof -
  have "length ((take (Suc i) ls)[i := None]) = Suc i" using assms(2) by simp
  then show ?thesis using assms unfolding shape_def by (auto simp add: nth_list_update last_ok_def)
qed

lemma links_remove:
  fixes i :: nat and cards :: "cardState list"
  defines "f \<equiv> take i cards @ drop (Suc i) cards"
  defines "ls \<equiv> map cs_link (map (\<lambda>(k, c). relink (length f) k c) (enumerate 0 f))"
  assumes "shape (map cs_link cards)" "0 < i" "i < length cards"
  shows "shape ls"
    and "ls ! (length ls - 1) \<noteq> None \<Longrightarrow> map cs_link cards ! (length cards - 1) \<noteq> None"
proof -
  have f: "length f = length cards - 1" "length f = length ls" using assms(5) by (simp_all add: f_def ls_def)
  have at: "ls ! k = cs_link (relink (length f) k (f ! k))" if "k < length f" for k
    using that unfolding ls_def by (simp add: nth_enumerate_eq)
  have fk: "cs_link (f ! k) = map cs_link cards ! (if k < i then k else Suc k)" if "k < length f" for k
    using that assms(5) unfolding f_def by (auto simp add: nth_append min_def)
  have mid: "map cs_link cards ! k = Some (int (Suc k))" if "Suc k < length cards" for k
    using assms(3) that by (simp add: shape_def)
  have last: "last_ok (length cards) (map cs_link cards ! (length cards - 1))"
    using assms(3) unfolding shape_def length_map by blast
  let ?n = "length f"
  have n: "0 < ?n" using f assms(4,5) by simp
  have end_: "ls ! (?n - 1) = (case cs_link (f ! (?n - 1)) of None \<Rightarrow> None | Some t \<Rightarrow> if t \<ge> int ?n then None else Some t)"
    using at [of "?n - 1"] n by (auto simp add: relink_def split: option.split)
  have lastlink: "cs_link (f ! (?n - 1)) = (if i = ?n then Some (int ?n) else map cs_link cards ! (length cards - 1))"
  proof (cases "i = ?n")
    case True
    then show ?thesis using fk [of "?n - 1"] n mid [of "?n - 1"] f(1) by simp
  next
    case False
    then have "\<not> ?n - 1 < i" "Suc (?n - 1) = length cards - 1" using n f(1) assms(5) by linarith+
    then show ?thesis using fk [of "?n - 1"] n False by simp
  qed
  have "ls ! k = Some (int (Suc k))" if "Suc k < length ls" for k
  proof -
    have k: "Suc k < ?n" using that f by simp
    have "cs_link (f ! k) \<noteq> None"
      using fk [of k] mid [of k] mid [of "Suc k"] k f(1) by (auto split: if_splits)
    then show ?thesis using at [of k] k by (auto simp add: relink_def split: option.split)
  qed
  moreover have "last_ok ?n (ls ! (?n - 1))"
    using end_ lastlink last by (auto simp add: last_ok_def split: option.splits if_splits)
  moreover have "?n \<le> MAX_CHAIN_LENGTH" using assms(3) f(1) unfolding shape_def length_map by linarith
  moreover have "ls \<noteq> []" using n f(2) by auto
  ultimately show "shape ls" using f(2) unfolding shape_def by simp
  assume "ls ! (length ls - 1) \<noteq> None"
  then show "map cs_link cards ! (length cards - 1) \<noteq> None"
    using end_ lastlink f(2) by (auto split: option.splits if_splits)
qed


section \<open>Every event keeps the shape\<close>

lemma last_None: "shape (ls @ [l]) \<Longrightarrow> (ls @ [l]) ! (length (ls @ [l]) - 1) = l"
  by simp

lemma length_links [simp]: "length (links s) = length (lb_cards s)"
  by (simp add: links_def)

lemma ok_new: "builder_ok (new_builder initial n)"
  by (simp add: builder_ok_def new_builder_def links_def shape_def last_ok_def mode_ok_def MAX_CHAIN_LENGTH_def)

lemma ok_links: "builder_ok s \<Longrightarrow> shape (links s)" by (simp add: builder_ok_def)

lemma nth_opt_links: "nth_opt (lb_cards s) i = Some c \<Longrightarrow> i < length (links s) \<and> links s ! i = cs_link c"
  by (auto simp add: nth_opt_Some_iff links_def)

lemma ok_setCardResult: "builder_ok s \<Longrightarrow> builder_ok (setCardResult i r s)"
proof -
  assume "builder_ok s"
  moreover have "links (setCardResult i r s) = links s"
  proof (cases "nth_opt (lb_cards s) i")
    case (Some c)
    then have "links (setCardResult i r s) = (links s)[i := cs_link c]"
      by (simp add: setCardResult_def links_def map_update)
    also have "cs_link c = links s ! i" using nth_opt_links [OF Some] by simp
    finally show ?thesis by simp
  qed (simp add: setCardResult_def)
  ultimately show ?thesis by (simp add: builder_ok_def setCardResult_def split: option.split_asm option.split)
qed

lemma ok_addNewCard:
  assumes "builder_ok s" "\<not> covered s" "length (lb_cards s) < MAX_CHAIN_LENGTH"
  shows "builder_ok (addNewCard s)"
proof -
  have l: "links (addNewCard s) = (links s)[length (links s) - 1 := Some (int (length (links s)))] @ [None]"
    using assms(3) by (simp add: addNewCard_def links_def links_link_at Let_def)
  have "shape (links (addNewCard s))"
    unfolding l using shape_snoc [OF ok_links [OF assms(1)]] assms(3) by (simp add: links_def)
  moreover have "lb_loopMode (addNewCard s) = lb_loopMode s" "lb_pendingBackLink (addNewCard s) = None" "lb_pendingKillCascade (addNewCard s) = None"
    using assms(2) by (simp_all add: addNewCard_def covered_def Let_def)
  ultimately show ?thesis using assms(1) unfolding builder_ok_def l by (simp add: nth_append)
qed

lemma ok_removeCardAt:
  assumes "builder_ok s" "\<not> covered s" "0 < i" "i < length (lb_cards s)"
  shows "builder_ok (removeCardAt i s)"
proof -
  define f where "f = take i (lb_cards s) @ drop (Suc i) (lb_cards s)"
  define ls where "ls = map cs_link (map (\<lambda>(k, c). relink (length f) k c) (enumerate 0 f))"
  have l: "links (removeCardAt i s) = ls"
    using assms(3,4) by (simp add: removeCardAt_def links_def Let_def ls_def f_def)
  note r = links_remove [OF ok_links [OF assms(1), unfolded links_def] assms(3,4), folded f_def, folded ls_def, folded links_def]
  have "lb_loopMode (removeCardAt i s) = lb_loopMode s" "lb_pendingBackLink (removeCardAt i s) = None" "lb_pendingKillCascade (removeCardAt i s) = None"
    using assms(2) by (simp_all add: removeCardAt_def covered_def Let_def)
  moreover have "length (lb_cards s) = length (links s)" by (simp add: links_def)
  ultimately show ?thesis using assms(1) r unfolding builder_ok_def l by auto
qed

lemma ok_links_nonempty: "builder_ok s \<Longrightarrow> length (links s) - 1 < length (links s)"
  by (simp add: builder_ok_def shape_def links_def)

lemma ok_stageBackLink:
  assumes "builder_ok s" "\<not> covered s" "t \<le> last_card s"
  shows "builder_ok (stageBackLink (last_card s) (int t) s)"
proof -
  have n: "last_card s = length (links s) - 1" by (simp add: links_def)
  obtain c where c: "nth_opt (lb_cards s) (last_card s) = Some c"
    using ok_links_nonempty [OF assms(1)] by (auto simp add: nth_opt_conv links_def)
  have cl: "cs_link c = links s ! (length (links s) - 1)" using nth_opt_links [OF c] n by simp
  have l: "links (stageBackLink (last_card s) (int t) s) = (links s)[length (links s) - 1 := Some (int t)]"
    using c n by (simp add: stageBackLink_def links_def links_link_at)
  have t: "last_ok (length (links s)) (Some (int t))"
    using assms(3) ok_links_nonempty [OF assms(1)] n by (simp add: last_ok_def)
  have "shape (links (stageBackLink (last_card s) (int t) s))"
    unfolding l by (rule shape_last [OF ok_links [OF assms(1)] t])
  then show ?thesis using assms(1,2) c ok_links_nonempty [OF assms(1)] unfolding builder_ok_def l
    by (auto simp add: stageBackLink_def cl n covered_def shape_def mode_ok_def DEFAULT_LOOP_CYCLES_def js_eval split: option.splits)
qed

lemma ok_cancelBackLink:
  assumes "builder_ok s"
  shows "builder_ok (cancelBackLink s)"
proof (cases "lb_pendingBackLink s")
  case None
  then show ?thesis using assms by (simp add: cancelBackLink_def)
next
  case (Some b)
  have l: "links (cancelBackLink s) = (links s)[length (links s) - 1 := bl_prevLink b]"
    using assms Some by (simp add: cancelBackLink_def links_def links_link_at builder_ok_def)
  have "shape (links (cancelBackLink s))"
    unfolding l using assms Some by (intro shape_last) (simp_all add: builder_ok_def)
  then show ?thesis using assms Some ok_links_nonempty [OF assms] unfolding builder_ok_def l
    by (simp add: cancelBackLink_def split: option.split option.split_asm)
qed

lemma loop_choice_ok: "is_finite n \<Longrightarrow> mode_ok (Some (loop_choice f n))"
  by (cases n) (simp_all add: loop_choice_def mode_ok_def js_max_def js_eval)

lemma ok_setLoop: "builder_ok s \<Longrightarrow> mode_ok (Some m) \<Longrightarrow> builder_ok (applyBackLinkLoop m s)"
  by (simp add: builder_ok_def applyBackLinkLoop_def links_def split: option.split option.split_asm)

lemma ok_clear: "builder_ok s \<Longrightarrow> \<not> covered s \<Longrightarrow> builder_ok (setLoopOnly None (setCardLink (last_card s) None s))"
  using shape_last [of "links s" None] ok_links_nonempty [of s]
  by (simp add: builder_ok_def setLoopOnly_def setCardLink_def links_def links_link_at covered_def last_ok_def mode_ok_def)

lemma ok_cut:
  assumes "builder_ok s" "i < length (links s)" "map cs_link (lb_cards s') = (take (Suc i) (links s))[i := None]"
    and "mode_ok (lb_loopMode s')" "lb_pendingBackLink s' = None" "lb_pendingKillCascade s' = None"
  shows "builder_ok s'"
  using shape_cut [OF ok_links [OF assms(1)] assms(2)] assms(2-6)
  by (simp add: builder_ok_def links_def [of s'])

lemma ok_killLink:
  assumes "builder_ok s" "\<not> covered s" "i < length (lb_cards s)"
  shows "builder_ok (killLink i s)"
proof (cases "cs_link (lb_cards s ! i)")
  case None
  then show ?thesis using assms by (simp add: killLink_def nth_opt_conv)
next
  case (Some r)
  have i: "i < length (links s)" "links s ! i = Some r" using assms(3) Some by (simp_all add: links_def)
  show ?thesis
  proof (cases "r \<le> int i")
    case True
    then have "i = length (links s) - 1"
      using ok_links [OF assms(1)] i by (cases "Suc i < length (links s)") (auto simp add: shape_def)
    moreover have "killLink i s = setLoopOnly None (setCardLink i None s)"
      using True Some assms(3) by (simp add: killLink_def nth_opt_conv setLoopOnly_def setCardLink_def)
    ultimately show ?thesis using ok_clear [OF assms(1,2)] by (simp add: links_def)
  next
    case False
    let ?filled = "length (filter (\<lambda>c. cs_result c \<noteq> None) (drop (i + 1) (lb_cards s)))"
    show ?thesis
    proof (cases "?filled = 0")
      case True
      have k: "killLink i s = s\<lparr> lb_cards := cut_after i (lb_cards s) \<rparr>"
        using False True Some assms(3) by (simp add: killLink_def nth_opt_conv Let_def)
      show ?thesis unfolding k
        by (rule ok_cut [OF assms(1) i(1)]) (use assms(1,2) in \<open>simp_all add: links_cut_after links_def covered_def builder_ok_def\<close>)
    next
      case F: False
      have k: "killLink i s = s\<lparr> lb_pendingKillCascade := Some \<lparr> kc_cardIndex = i,
          kc_downstreamCount = length (drop (i + 1) (lb_cards s)), kc_filledCount = ?filled \<rparr> \<rparr>"
        using False F Some assms(3) by (simp add: killLink_def nth_opt_conv Let_def)
      show ?thesis using assms unfolding k builder_ok_def by (simp add: links_def covered_def split: option.split option.split_asm)
    qed
  qed
qed


lemma builder_step_ok: "builder_step s s' \<Longrightarrow> builder_ok s \<Longrightarrow> builder_ok s'"
proof (induction rule: builder_step.induct)
  case (report s i r)
  then show ?case by (rule ok_setCardResult)
next
  case (apply_loop s n f)
  then show ?case by (intro ok_setLoop loop_choice_ok)
next
  case (confirm_kill s)
  then obtain k where k: "lb_pendingKillCascade s = Some k" by blast
  have i: "kc_cardIndex k < length (links s)" using confirm_kill(2) k by (simp add: builder_ok_def)
  have n: "lb_pendingBackLink s = None" using confirm_kill(2) k by (simp add: builder_ok_def)
  show ?case
    by (rule ok_cut [OF confirm_kill(2) i]) (use confirm_kill(2) k n in
      \<open>simp_all add: confirmKillCascade_def links_cut_after links_def builder_ok_def mode_ok_def\<close>)
next
  case (cancel_kill s)
  then show ?case by (simp add: builder_ok_def cancelKillCascade_def links_def split: option.split option.split_asm)
qed (blast intro: ok_addNewCard ok_removeCardAt ok_stageBackLink ok_clear ok_killLink ok_cancelBackLink)+

lemma reachable_ok: "builder_step\<^sup>*\<^sup>* (new_builder initial n) s \<Longrightarrow> builder_ok s"
  by (induction rule: rtranclp_induct) (auto simp add: ok_new intro: builder_step_ok)

section \<open>What is saved\<close>

lemma iter_next_increasing:
  assumes "\<And>i j. next_of nodes i = Some j \<Longrightarrow> i < j"
  shows "iter_next nodes n i = Some j \<Longrightarrow> i + int n \<le> j"
proof (induction n arbitrary: i)
  case (Suc n)
  then obtain k where "next_of nodes i = Some k" "iter_next nodes n k = Some j"
    by (auto simp add: bind_eq_Some_conv)
  then show ?case using assms [of i k] Suc.IH [of k] by simp
qed simp

lemma findCycleNodes_terminal:
  assumes f: "forward_chain nodes" and last: "nodes \<noteq> [] \<longrightarrow> nd_next (last nodes) = None"
  shows "findCycleNodes nodes = []"
proof (rule ccontr)
  assume "findCycleNodes nodes \<noteq> []"
  then obtain i where "i \<in> set (findCycleNodes nodes)" by (cases "findCycleNodes nodes") auto
  then obtain n where n: "0 < n" "iter_next nodes n i = Some i"
    using cycle_from_sound unfolding findCycleNodes_def on_cycle_def by blast
  have "i < j" if "next_of nodes i = Some j" for i j
  proof -
    have i: "0 \<le> i" "nat i < length nodes" using next_of_in_range [OF that] by auto
    then have nx: "nd_next (nodes ! nat i) = Some j" using that next_of_nat [of "nat i" nodes] by simp
    have "nat i \<noteq> length nodes - 1" using nx last i(2) by (auto simp add: last_conv_nth)
    then have "Suc (nat i) < length nodes" using i(2) by linarith
    then show ?thesis using f nx i by (auto simp add: forward_chain_def)
  qed
  from iter_next_increasing [OF this n(2)] n(1) show False by simp
qed

lemma saveChain_Some:
  assumes "saveChain s = Some d"
  shows "map nd_next (cd_nodes d) = links s \<and> cd_loopMode d = lb_loopMode s \<and> isChain s \<and> validateChainDraft (cd_nodes d) = None"
proof -
  have r: "chainReady s" using assms by (simp add: saveChain_def split: if_splits)
  then obtain nodes where n: "draftNodes s = Some nodes" "map nd_next nodes = links s"
    by (auto simp add: chainReady_def draftNodes_def links_def)
  have "d = \<lparr> cd_nodes = nodes, cd_loopMode = lb_loopMode s \<rparr>" using assms r n(1) by (simp add: saveChain_def)
  then show ?thesis using r n by (simp add: chainReady_def chainError_def split: if_splits)
qed

lemma saved_forward:
  assumes "builder_step\<^sup>*\<^sup>* (new_builder initial n) s" and "saveChain s = Some d"
  shows "cd_nodes d \<noteq> [] \<and> length (cd_nodes d) = length (links s) \<and> forward_chain (cd_nodes d) \<and>
    nd_next (last (cd_nodes d)) = links s ! (length (links s) - 1)"
proof -
  have sh: "shape (links s)" using reachable_ok [OF assms(1)] by (simp add: builder_ok_def)
  note d = saveChain_Some [OF assms(2)]
  have len: "length (cd_nodes d) = length (links s)" using d by (metis length_map)
  have ne: "cd_nodes d \<noteq> []" using sh len by (auto simp add: shape_def links_def)
  have nx: "nd_next (cd_nodes d ! i) = links s ! i" if "i < length (cd_nodes d)" for i
    using that d by (metis nth_map)
  have "length (cd_nodes d) - 1 < length (cd_nodes d)" using ne by simp
  from nx [OF this] have "nd_next (last (cd_nodes d)) = links s ! (length (links s) - 1)"
    using ne len by (simp add: last_conv_nth)
  moreover have "forward_chain (cd_nodes d)"
    using sh nx len unfolding forward_chain_def shape_def by simp
  ultimately show ?thesis using ne len by simp
qed

lemma saved_cycle:
  assumes "builder_step\<^sup>*\<^sup>* (new_builder initial n) s" and "saveChain s = Some d"
  shows "case nd_next (last (cd_nodes d)) of
       None \<Rightarrow> findCycleNodes (cd_nodes d) = []
     | Some t \<Rightarrow> 0 \<le> t \<and> findCycleNodes (cd_nodes d) = map int [nat t..<length (cd_nodes d)]"
proof -
  note f = saved_forward [OF assms]
  show ?thesis
  proof (cases "nd_next (last (cd_nodes d))")
    case None
    have "findCycleNodes (cd_nodes d) = []" using f None by (intro findCycleNodes_terminal) blast+
    then show ?thesis using None by simp
  next
    case (Some t)
    then have t: "0 \<le> t" "nat t < length (cd_nodes d)"
      using f reachable_ok [OF assms(1)] by (auto simp add: builder_ok_def shape_def last_ok_def)
    have "findCycleNodes (cd_nodes d) = map int [nat t..<length (cd_nodes d)]"
      using f Some t by (intro findCycleNodes_forward) simp_all
    then show ?thesis using Some t(1) by simp
  qed
qed

section \<open>Properties\<close>

text \<open>C10: What the builder saves. However the cards were added, closed, linked back, cut and reported, a saved chain has
  between one and five rules, passes the validation, links every rule but the last to the next one, and ends terminal -
  then no rule is on a cycle - or linked back - then it carries a loop mode, of at least one cycle, and the rules from the
  target on are the cycle. A single rule is saved as a chain only with a loop mode.\<close>

theorem saved_chain_shape:
  assumes "builder_step\<^sup>*\<^sup>* (new_builder initial n) s" and "saveChain s = Some d"
  shows "cd_nodes d \<noteq> [] \<and> length (cd_nodes d) \<le> 5 \<and> forward_chain (cd_nodes d) \<and> validateChainDraft (cd_nodes d) = None \<and>
    (case nd_next (last (cd_nodes d)) of
       None \<Rightarrow> findCycleNodes (cd_nodes d) = []
     | Some t \<Rightarrow> cd_loopMode d \<noteq> None \<and> 0 \<le> t \<and> findCycleNodes (cd_nodes d) = map int [nat t..<length (cd_nodes d)]) \<and>
    (case cd_loopMode d of Some (Frequency k) \<Rightarrow> js_ge k (Num 1) | Some Infinite \<Rightarrow> True | None \<Rightarrow> length (cd_nodes d) \<noteq> 1)"
proof -
  have ok: "builder_ok s" by (rule reachable_ok [OF assms(1)])
  note d = saveChain_Some [OF assms(2)] and f = saved_forward [OF assms]
  have m: "mode_ok (cd_loopMode d)" "nd_next (last (cd_nodes d)) \<noteq> None \<longrightarrow> cd_loopMode d \<noteq> None"
    using ok d f unfolding builder_ok_def by simp_all
  have one: "cd_loopMode d = None \<longrightarrow> length (cd_nodes d) \<noteq> 1" using d f unfolding isChain_def by auto
  have five: "length (cd_nodes d) \<le> 5" using ok f by (simp add: builder_ok_def shape_def MAX_CHAIN_LENGTH_def)
  show ?thesis using saved_cycle [OF assms] f d five m one
    by (auto simp add: mode_ok_def split: option.splits loopMode.splits)
qed

text \<open>A loop is recorded for rules that do not loop. When a chain carries a loop mode, the page records the cadence
  of the loop for every rule, but the transaction gives it to the rules on the cycle only: a rule before the target of the
  back link, and every rule when a card was added below the one that linked back, is published with its own cadence.\<close>

theorem loop_cadence_recorded_for_all:
  assumes "builder_step\<^sup>*\<^sup>* (new_builder initial n) s" and "saveChain s = Some d" and "cd_loopMode d = Some m"
    and "2 \<le> length (cd_nodes d)" and "cx_nodes C = cd_nodes d" "cx_loopMode C = Some m"
    and "case nd_next (last (cd_nodes d)) of None \<Rightarrow> True | Some t \<Rightarrow> int i < t"
  shows "Workspace.effective_cadence (cd_loopMode d) (cd_nodes d ! i) = loopModeToCadence m \<and>
    ChainCreate.effective_cadence C i (br_cadence (nd_result (cd_nodes d ! i))) = br_cadence (nd_result (cd_nodes d ! i))"
proof
  show "Workspace.effective_cadence (cd_loopMode d) (cd_nodes d ! i) = loopModeToCadence m"
    by (cases m) (simp_all add: assms(3) Workspace.effective_cadence_def INFINITE_LOOP_UNIX_DEADLINE_def)
  have "int i \<notin> set (cycle_members C)"
    using saved_cycle [OF assms(1,2)] assms(4-7) by (auto simp add: cycle_members_def split: option.splits)
  then show "ChainCreate.effective_cadence C i (br_cadence (nd_result (cd_nodes d ! i))) = br_cadence (nd_result (cd_nodes d ! i))"
    by (simp add: ChainCreate.effective_cadence_def assms(6))
qed

text \<open>Cutting a loop leaves a self-loop. When a loop of two cards is cut at the first one and the second holds no rule
  yet, the card goes but the loop mode stays: the remaining rule is saved as a loop of its own, and its deposit is the
  amount times the cycles of the loop that was cut. When the second card holds a rule, the same cut clears the mode.\<close>

theorem cut_leaves_a_self_loop:
  assumes "\<not> covered s" and "lb_cards s = [c, e]" and "cs_link c = Some 1" and "cs_result c = Some r" and "cs_result e = None"
    and "lb_loopMode s = Some (Frequency k)" and "validateChainDraft [\<lparr> nd_result = r, nd_next = None \<rparr>] = None"
  shows "(\<exists>d. saveChain (killLink 0 s) = Some d \<and> cd_nodes d = [\<lparr> nd_result = r, nd_next = None \<rparr>] \<and>
      seed_amount S (C\<lparr> cx_nodes := cd_nodes d, cx_loopMode := cd_loopMode d \<rparr>) 0 amount = and_then (new_bn S k) (\<lambda>n. Inr (amount * n))) \<and>
    saveChain (confirmKillCascade (killLink 0 (setCardResult 1 (Some q) s))) = None"
proof -
  have "lb_cards (killLink 0 s) = [c\<lparr> cs_link := None \<rparr>]" "lb_loopMode (killLink 0 s) = Some (Frequency k)"
    using assms(2-6) by (simp_all add: killLink_def nth_opt_conv cut_after_def link_at_def)
  then have "saveChain (killLink 0 s) = Some \<lparr> cd_nodes = [\<lparr> nd_result = r, nd_next = None \<rparr>], cd_loopMode = Some (Frequency k) \<rparr>"
    using assms(4,7) by (simp add: saveChain_def chainReady_def chainError_def isChain_def draftNodes_def)
  moreover have "killLink 0 (setCardResult 1 (Some q) s) = s\<lparr> lb_cards := [c, e\<lparr> cs_result := Some q \<rparr>],
      lb_pendingKillCascade := Some \<lparr> kc_cardIndex = 0, kc_downstreamCount = 1, kc_filledCount = 1 \<rparr> \<rparr>"
    using assms(2,3) by (simp add: killLink_def setCardResult_def nth_opt_conv)
  then have "saveChain (confirmKillCascade (killLink 0 (setCardResult 1 (Some q) s))) = None"
    by (simp add: confirmKillCascade_def cut_after_def link_at_def saveChain_def chainReady_def isChain_def)
  ultimately show ?thesis by (simp add: seed_amount_def)
qed

text \<open>Closing the target of a loop makes the last rule loop on itself. The last card keeps its link when the card it
  names is closed; the index then names the last card itself, and the saved cycle is that one rule.\<close>

theorem removed_target_becomes_self_link:
  assumes "builder_step\<^sup>*\<^sup>* (new_builder initial n) s" and "\<not> covered s" and "0 < t" and "Suc t = last_card s"
    and "cs_link (lb_cards s ! last_card s) = Some (int t)" and "saveChain (removeCardAt t s) = Some d"
  shows "length (cd_nodes d) = Suc t \<and> nd_next (last (cd_nodes d)) = Some (int t) \<and> findCycleNodes (cd_nodes d) = [int t]"
proof -
  have len: "length (lb_cards s) = Suc (Suc t)" using assms(4) by simp
  have "builder_step s (removeCardAt t s)"
    by (rule builder_step.close_card) (use assms(2-4) len in \<open>simp_all add: isChain_def\<close>)
  with assms(1) have r: "builder_step\<^sup>*\<^sup>* (new_builder initial n) (removeCardAt t s)" by (rule rtranclp.rtrancl_into_rtrancl)
  let ?f = "take t (lb_cards s) @ drop (Suc t) (lb_cards s)"
  have f: "length ?f = Suc t" "?f ! t = lb_cards s ! last_card s" using len assms(4) by (simp_all add: nth_append)
  have "lb_cards (removeCardAt t s) = map (\<lambda>(i, c). relink (length ?f) i c) (enumerate 0 ?f)"
    using len assms(3) by (simp add: removeCardAt_def Let_def)
  then have l: "length (links (removeCardAt t s)) = Suc t" "links (removeCardAt t s) ! t = Some (int t)"
    using f assms(5) by (simp_all add: links_def nth_enumerate_eq relink_def del: length_append)
  note g = saved_forward [OF r assms(6)]
  then show ?thesis using saved_cycle [OF r assms(6)] l by simp
qed


section \<open>Instances\<close>

definition demo_card :: "nat \<Rightarrow> builderResult option \<Rightarrow> int option \<Rightarrow> cardState" where
  "demo_card i r l = \<lparr> cs_id = card_id i, cs_initial = None, cs_result = r, cs_link = l \<rparr>"

definition demo_builder :: "cardState list \<Rightarrow> loopMode option \<Rightarrow> chainBuilder" where
  "demo_builder cards m = \<lparr> lb_cards = cards, lb_loopMode = m, lb_pendingBackLink = None, lb_pendingKillCascade = None,
     lb_cardIdCounter = length cards \<rparr>"

abbreviation demo_loop :: "loopMode option" where "demo_loop \<equiv> Some (Frequency (Num 10))"

lemma demo_start: "new_builder None 0 = demo_builder [demo_card 1 None None] None"
  by (simp add: new_builder_def demo_builder_def demo_card_def)

lemma demo_uncovered: "\<not> covered (demo_builder cards m)"
  by (simp add: covered_def demo_builder_def)

lemma demo_add:
  assumes "length cards < 5" "cards \<noteq> []"
  shows "builder_step (demo_builder cards m) (demo_builder (link_at (length cards - 1) (Some (int (length cards))) cards @
      [demo_card (Suc (length cards)) None None]) m)"
proof -
  have "addNewCard (demo_builder cards m) = demo_builder (link_at (length cards - 1) (Some (int (length cards))) cards @
      [demo_card (Suc (length cards)) None None]) m"
    using assms(1) by (simp add: addNewCard_def demo_builder_def MAX_CHAIN_LENGTH_def Let_def demo_card_def)
  then show ?thesis using builder_step.add_card [OF demo_uncovered, of cards m] assms(1)
    by (simp add: demo_builder_def MAX_CHAIN_LENGTH_def)
qed

lemma demo_report:
  "i < length cards \<Longrightarrow> builder_step (demo_builder cards m) (demo_builder (cards[i := (cards ! i)\<lparr> cs_result := r \<rparr>]) m)"
  using builder_step.report [of "demo_builder cards m" i r] by (simp add: setCardResult_def nth_opt_conv demo_builder_def)

lemma demo_pick:
  assumes "t < length cards"
  shows "builder_step\<^sup>*\<^sup>* (demo_builder cards None) (demo_builder (link_at (length cards - 1) (Some (int t)) cards) demo_loop)"
proof -
  let ?s = "stageBackLink (length cards - 1) (int t) (demo_builder cards None)"
  have "builder_step (demo_builder cards None) ?s"
    using builder_step.pick_back [OF demo_uncovered, of t cards None] assms by (simp add: demo_builder_def)
  moreover have p: "lb_pendingBackLink ?s \<noteq> None"
    using assms by (simp add: stageBackLink_def nth_opt_conv demo_builder_def)
  have "builder_step ?s (applyBackLinkLoop (loop_choice True (Num 10)) ?s)"
    by (rule builder_step.apply_loop [OF p]) simp
  moreover have "loop_choice True (Num 10) = Frequency (Num 10)" by (simp add: loop_choice_def js_max_def js_eval)
  then have "applyBackLinkLoop (loop_choice True (Num 10)) ?s = demo_builder (link_at (length cards - 1) (Some (int t)) cards) demo_loop"
    using assms by (cases cards) (simp_all add: applyBackLinkLoop_def stageBackLink_def nth_opt_conv demo_builder_def)
  ultimately show ?thesis by auto
qed

lemma demo_two: "builder_step\<^sup>*\<^sup>* (new_builder None 0) (demo_builder [demo_card 1 None (Some 1), demo_card 2 None None] None)"
  unfolding demo_start using demo_add [of "[demo_card 1 None None]" None] by (auto simp add: link_at_def demo_card_def numeral_2_eq_2)

lemma demo_two_looped:
  "builder_step\<^sup>*\<^sup>* (new_builder None 0) (demo_builder [demo_card 1 r (Some 1), demo_card 2 q (Some 0)] demo_loop)"
proof -
  have "builder_step\<^sup>*\<^sup>* (new_builder None 0) (demo_builder [demo_card 1 None (Some 1), demo_card 2 None (Some 0)] demo_loop)"
    using rtranclp_trans [OF demo_two demo_pick [of 0]] by (simp add: link_at_def demo_card_def)
  moreover have "builder_step (demo_builder [demo_card 1 None (Some 1), demo_card 2 None (Some 0)] demo_loop)
      (demo_builder [demo_card 1 r (Some 1), demo_card 2 None (Some 0)] demo_loop)"
    using demo_report [of 0 "[demo_card 1 None (Some 1), demo_card 2 None (Some 0)]" demo_loop r] by (simp add: demo_card_def)
  moreover have "builder_step (demo_builder [demo_card 1 r (Some 1), demo_card 2 None (Some 0)] demo_loop)
      (demo_builder [demo_card 1 r (Some 1), demo_card 2 q (Some 0)] demo_loop)"
    using demo_report [of 1 "[demo_card 1 r (Some 1), demo_card 2 None (Some 0)]" demo_loop q] by (simp add: demo_card_def)
  ultimately show ?thesis by auto
qed

lemma demo_third:
  "builder_step\<^sup>*\<^sup>* (demo_builder [demo_card 1 r (Some 1), demo_card 2 q l] m)
     (demo_builder [demo_card 1 r (Some 1), demo_card 2 q (Some 2), demo_card 3 p None] m)"
proof -
  have "builder_step (demo_builder [demo_card 1 r (Some 1), demo_card 2 q l] m)
     (demo_builder [demo_card 1 r (Some 1), demo_card 2 q (Some 2), demo_card 3 None None] m)"
    using demo_add [of "[demo_card 1 r (Some 1), demo_card 2 q l]" m] by (simp add: link_at_def demo_card_def numeral_3_eq_3)
  moreover have "builder_step (demo_builder [demo_card 1 r (Some 1), demo_card 2 q (Some 2), demo_card 3 None None] m)
     (demo_builder [demo_card 1 r (Some 1), demo_card 2 q (Some 2), demo_card 3 p None] m)"
    using demo_report [of 2 "[demo_card 1 r (Some 1), demo_card 2 q (Some 2), demo_card 3 None None]" m p] by (simp add: demo_card_def)
  ultimately show ?thesis by auto
qed


lemma demo_valid:
  "validateChainDraft [\<lparr> nd_result = demo_rule a b, nd_next = l \<rparr>] = None"
  "validateChainDraft [\<lparr> nd_result = demo_rule a b, nd_next = l \<rparr>, \<lparr> nd_result = demo_rule c d, nd_next = k \<rparr>] = None"
  "validateChainDraft [\<lparr> nd_result = demo_rule a b, nd_next = l \<rparr>, \<lparr> nd_result = demo_rule c d, nd_next = k \<rparr>,
     \<lparr> nd_result = demo_rule e f, nd_next = j \<rparr>] = None"
  by (simp_all add: validateChainDraft_def demo_rule_def is_prtf_def as_swap_def first_action_def first_trigger_def)

lemmas save_simps = saveChain_def chainReady_def chainError_def draftNodes_def isChain_def demo_builder_def demo_card_def demo_valid

theorem saved_chain_shape_witness:
  "\<exists>d. saveChain (demo_builder [demo_card 1 (Some (demo_rule ''U'' ''T'')) (Some 1), demo_card 2 (Some (demo_rule ''T'' ''U'')) (Some 0)] demo_loop) = Some d \<and>
     findCycleNodes (cd_nodes d) = [0, 1]"
proof -
  let ?s = "demo_builder [demo_card 1 (Some (demo_rule ''U'' ''T'')) (Some 1), demo_card 2 (Some (demo_rule ''T'' ''U'')) (Some 0)] demo_loop"
  let ?d = "\<lparr> cd_nodes = [\<lparr> nd_result = demo_rule ''U'' ''T'', nd_next = Some 1 \<rparr>, \<lparr> nd_result = demo_rule ''T'' ''U'', nd_next = Some 0 \<rparr>],
    cd_loopMode = demo_loop \<rparr>"
  have d: "saveChain ?s = Some ?d" by (simp add: save_simps)
  from saved_chain_shape [OF demo_two_looped this] show ?thesis using d by (simp add: upt_rec)
qed

definition demo_ctx :: "chainSaveData \<Rightarrow> chainCtx" where
  "demo_ctx d = \<lparr> cx_owner = ''O'', cx_programId = ''P'', cx_config = \<lparr> pc_keeper = ''K'', pc_treasury = ''Y'', pc_automationCount = 7,
     pc_timeFeeLamportsPerDay = 1000 \<rparr>, cx_startNonce = 7, cx_nodes = cd_nodes d, cx_loopMode = cd_loopMode d, cx_nodePdas = [] \<rparr>"

theorem loop_cadence_recorded_for_all_witness:
  "\<exists>d. saveChain (demo_builder [demo_card 1 (Some (demo_rule ''U'' ''T'')) (Some 1), demo_card 2 (Some (demo_rule ''T'' ''U'')) (Some 2),
       demo_card 3 (Some (demo_rule ''U'' ''T'')) None] demo_loop) = Some d \<and>
     Workspace.effective_cadence (cd_loopMode d) (cd_nodes d ! 0) = Repeat (Num 10) \<and>
     ChainCreate.effective_cadence (demo_ctx d) 0 (br_cadence (nd_result (cd_nodes d ! 0))) = br_cadence (nd_result (cd_nodes d ! 0))"
proof -
  let ?d = "\<lparr> cd_nodes = [\<lparr> nd_result = demo_rule ''U'' ''T'', nd_next = Some 1 \<rparr>, \<lparr> nd_result = demo_rule ''T'' ''U'', nd_next = Some 2 \<rparr>,
    \<lparr> nd_result = demo_rule ''U'' ''T'', nd_next = None \<rparr>], cd_loopMode = demo_loop \<rparr>"
  have d: "saveChain (demo_builder [demo_card 1 (Some (demo_rule ''U'' ''T'')) (Some 1), demo_card 2 (Some (demo_rule ''T'' ''U'')) (Some 2),
       demo_card 3 (Some (demo_rule ''U'' ''T'')) None] demo_loop) = Some ?d" by (simp add: save_simps)
  from loop_cadence_recorded_for_all [OF rtranclp_trans [OF demo_two_looped demo_third] this, of "Frequency (Num 10)" "demo_ctx ?d" 0]
  show ?thesis using d by (simp add: demo_ctx_def)
qed

theorem removed_target_becomes_self_link_witness:
  "\<exists>d. saveChain (removeCardAt 1 (demo_builder [demo_card 1 (Some (demo_rule ''U'' ''T'')) (Some 1), demo_card 2 (Some (demo_rule ''T'' ''U'')) (Some 2),
       demo_card 3 (Some (demo_rule ''U'' ''T'')) (Some 1)] demo_loop)) = Some d \<and> findCycleNodes (cd_nodes d) = [1]"
proof -
  let ?cards = "\<lambda>l. [demo_card 1 (Some (demo_rule ''U'' ''T'')) (Some 1), demo_card 2 (Some (demo_rule ''T'' ''U'')) (Some 2),
       demo_card 3 (Some (demo_rule ''U'' ''T'')) l]"
  have "builder_step\<^sup>*\<^sup>* (demo_builder [demo_card 1 None (Some 1), demo_card 2 None None] None)
      (demo_builder [demo_card 1 (Some (demo_rule ''U'' ''T'')) (Some 1), demo_card 2 (Some (demo_rule ''T'' ''U'')) None] None)"
    using demo_report [of 0 "[demo_card 1 None (Some 1), demo_card 2 None None]" None "Some (demo_rule ''U'' ''T'')"]
      demo_report [of 1 "[demo_card 1 (Some (demo_rule ''U'' ''T'')) (Some 1), demo_card 2 None None]" None "Some (demo_rule ''T'' ''U'')"]
    by (auto simp add: demo_card_def)
  then have "builder_step\<^sup>*\<^sup>* (new_builder None 0) (demo_builder (?cards None) None)"
    by (rule rtranclp_trans [OF rtranclp_trans [OF demo_two] demo_third])
  moreover have "link_at 2 (Some 1) (?cards None) = ?cards (Some 1)" by (simp add: link_at_def demo_card_def numeral_2_eq_2)
  ultimately have r: "builder_step\<^sup>*\<^sup>* (new_builder None 0) (demo_builder (?cards (Some 1)) demo_loop)"
    using rtranclp_trans [OF _ demo_pick [of 1 "?cards None"]] by (simp add: numeral_2_eq_2)
  let ?d = "\<lparr> cd_nodes = [\<lparr> nd_result = demo_rule ''U'' ''T'', nd_next = Some 1 \<rparr>, \<lparr> nd_result = demo_rule ''U'' ''T'', nd_next = Some 1 \<rparr>],
    cd_loopMode = demo_loop \<rparr>"
  have d: "saveChain (removeCardAt 1 (demo_builder (?cards (Some 1)) demo_loop)) = Some ?d"
    by (simp add: removeCardAt_def relink_def Let_def save_simps)
  from removed_target_becomes_self_link [OF r demo_uncovered, of 1 ?d] show ?thesis using d
    by (simp add: demo_builder_def demo_card_def numeral_2_eq_2)
qed

theorem cut_leaves_a_self_loop_witness:
  "\<exists>d. saveChain (killLink 0 (demo_builder [demo_card 1 (Some (demo_rule ''U'' ''T'')) (Some 1), demo_card 2 None (Some 0)] demo_loop)) = Some d \<and>
     cd_nodes d = [\<lparr> nd_result = demo_rule ''U'' ''T'', nd_next = None \<rparr>]"
  using cut_leaves_a_self_loop [OF demo_uncovered, of "[demo_card 1 (Some (demo_rule ''U'' ''T'')) (Some 1), demo_card 2 None (Some 0)]" demo_loop
      "demo_card 1 (Some (demo_rule ''U'' ''T'')) (Some 1)" "demo_card 2 None (Some 0)" "demo_rule ''U'' ''T''" "Num 10"] demo_valid(1)
  by (fastforce simp add: demo_builder_def demo_card_def)

end
