(* ===== verification/ChainSheet.thy ===== *)
theory ChainSheet
  imports ChainBuilder JsNumeric
begin

text \<open>
  summarizeChain of src/src/lib/linked-chains.ts and src/src/components/ChainDepositSheet.tsx: the deposit a chain asks
  for, as the sheet shows it, and the confirmation that runs sendChainCreate and hands its result to the page. Text
  outside ASCII is its UTF-8 bytes.
\<close>

section \<open>The summary of a chain\<close>

record summaryNode =
  sn_label :: string
  sn_triggerSummary :: string
  sn_actionSummary :: string
  sn_seedAmount :: jsnum
  sn_seedToken :: string
  sn_isHead :: bool
  sn_linkSummary :: string

record chainDepositSummary =
  sm_totalsByToken :: "(string, jsnum) dict"
  sm_networkFeeSol :: jsnum
  sm_nodes :: "summaryNode list"
  sm_token2022MintsInChain :: "string list"

definition DASH :: string where "DASH = [CHR 0xE2, CHR 0x80, CHR 0x94]"
definition ARROW :: string where "ARROW = [CHR 0xE2, CHR 0x86, CHR 0x92]"
definition BACK_ARROW :: string where "BACK_ARROW = [CHR 0xE2, CHR 0x86, CHR 0xA9]"

definition network_fee :: "nat \<Rightarrow> jsnum" where
  "network_fee n = js_add (fl (5 / 1000000)) (js_mul (Num (of_nat n)) (fl (5 / 100000)))"

definition headCyclesToFund :: "nat \<Rightarrow> loopMode option \<Rightarrow> jsnum" where
  "headCyclesToFund n loop = (case loop of
       Some m \<Rightarrow> if n = 1 then (case m of Frequency cycles \<Rightarrow> cycles | Infinite \<Rightarrow> SELF_LOOP_INFINITE_FUND_CYCLES) else Num 1
     | None \<Rightarrow> Num 1)"

text \<open>The seed a card contributes: its amount if it is the head, nothing otherwise.\<close>

definition seed_of :: "nat \<Rightarrow> loopMode option \<Rightarrow> nat \<Rightarrow> chainNodeDraft \<Rightarrow> string \<times> jsnum" where
  "seed_of n loop i node = (case as_swap (first_action (nd_result node)) of
       Some s \<Rightarrow> (tr_symbol (sw_inputToken s), if i = 0 then js_mul (sw_amount s) (headCyclesToFund n loop) else Num 0)
     | None \<Rightarrow> ([], Num 0))"

definition action_summary :: "chainNodeDraft \<Rightarrow> string" where
  "action_summary node = (case as_swap (first_action (nd_result node)) of
       None \<Rightarrow> DASH
     | Some s \<Rightarrow> ''swap '' @ (if sw_consumeUpstreamOutput s = Some True then ''upstream output'' else show_num (sw_amount s)) @
         '' '' @ tr_symbol (sw_inputToken s) @ '' '' @ ARROW @ '' '' @ tr_symbol (sw_outputToken s))"

fun unit_text :: "timeUnit \<Rightarrow> string" where
  "unit_text Minutes = ''minutes''"
| "unit_text Hours = ''hours''"
| "unit_text Days = ''days''"

definition trigger_summary :: "chainNodeDraft \<Rightarrow> string" where
  "trigger_summary node = (case first_trigger (nd_result node) of
       None \<Rightarrow> DASH
     | Some (AssetPrice asset quote cmp threshold orc) \<Rightarrow>
         as_symbol asset @ '' '' @ (if cmp = Above then ''above'' else ''below'') @ '' '' @ show_num threshold
     | Some (TimeElapsed v u) \<Rightarrow> ''after '' @ show_num v @ '' '' @ unit_text u
     | Some (PriceRelativeToFill upstream direction bps) \<Rightarrow>
         (if direction = Grow then ''grew'' else ''dropped'') @ '' '' @ show_num (js_div bps (Num 100)) @ ''% from fill''
     | Some (AccountTransfer _ _) \<Rightarrow> ''account transfer''
     | Some (AccountSwap _ _ _ _) \<Rightarrow> ''account swap'')"

definition link_summary :: "nat \<Rightarrow> loopMode option \<Rightarrow> nat \<Rightarrow> chainNodeDraft \<Rightarrow> string" where
  "link_summary n loop i node = (case (if n = 1 then loop else None) of
       Some Infinite \<Rightarrow> ''self-link'' @ MID_DOT @ ''until depleted''
     | Some (Frequency cycles) \<Rightarrow> ''self-link'' @ MID_DOT @ show_num cycles @ '' cycles''
     | None \<Rightarrow> (case nd_next node of
           None \<Rightarrow> ''terminal''
         | Some targetIdx \<Rightarrow> if targetIdx \<le> int i then BACK_ARROW @ '' link back to rule '' @ show_int (targetIdx + 1)
             else ARROW @ '' rule '' @ show_int (targetIdx + 1)))"

definition summary_node :: "nat \<Rightarrow> loopMode option \<Rightarrow> nat \<Rightarrow> chainNodeDraft \<Rightarrow> summaryNode" where
  "summary_node n loop i node = \<lparr> sn_label = ''Rule '' @ show_nat (i + 1), sn_triggerSummary = trigger_summary node,
     sn_actionSummary = action_summary node, sn_seedAmount = snd (seed_of n loop i node), sn_seedToken = fst (seed_of n loop i node),
     sn_isHead = (i = 0), sn_linkSummary = link_summary n loop i node \<rparr>"

definition add_seed :: "(string, jsnum) dict \<Rightarrow> summaryNode \<Rightarrow> (string, jsnum) dict" where
  "add_seed totals b = (if js_gt (sn_seedAmount b) (Num 0) then add_total (sn_seedToken b) (sn_seedAmount b) totals else totals)"

text \<open>Every swap of a rule is looked at here, the input token before the output token.\<close>

definition mints2022 :: "action \<Rightarrow> string list" where
  "mints2022 a = (case a of Transfer _ _ _ \<Rightarrow> []
     | Swap s \<Rightarrow> map tr_symbol (filter (\<lambda>t. tr_tokenProgram t = Some TOKEN_2022_PROGRAM_ID) [sw_inputToken s, sw_outputToken s]))"

definition summarizeChain :: "chainNodeDraft list \<Rightarrow> loopMode option \<Rightarrow> chainDepositSummary" where
  "summarizeChain nodes loop = (let breakdown = map (\<lambda>(i, node). summary_node (length nodes) loop i node) (enumerate 0 nodes) in
     \<lparr> sm_totalsByToken = foldl add_seed [] breakdown, sm_networkFeeSol = network_fee (length nodes), sm_nodes = breakdown,
       sm_token2022MintsInChain = foldl (\<lambda>out x. OnChain.set_add x out) []
         (concat (map (\<lambda>node. concat (map mints2022 (br_actions (nd_result node)))) nodes)) \<rparr>)"

section \<open>Confirming\<close>

datatype chainConfirmEnd = ChainConfirm chainOnChainResult | ChainError string

definition receipt_of :: "chainCreateResult \<Rightarrow> chainOnChainResult" where
  "receipt_of r = \<lparr> co_signature = cc_signature r, co_nodes = map (\<lambda>n. \<lparr> chainNodeReceipt.cn_pubkey = createdNode.cn_pubkey n,
     chainNodeReceipt.cn_nonce = createdNode.cn_nonce n, chainNodeReceipt.cn_seedAmount = createdNode.cn_seedAmount n \<rparr>) (cc_nodes r) \<rparr>"

text \<open>In demo mode the keys are generated; otherwise the transactions sent are the trace of sendChainCreate.\<close>

definition confirmChain ::
  "bool \<Rightarrow> string \<Rightarrow> (nat \<Rightarrow> pubkey) \<Rightarrow> (chainError \<Rightarrow> string) \<Rightarrow> hermes \<Rightarrow> solana \<Rightarrow> anchor \<Rightarrow> rpc \<Rightarrow> pubkey option \<Rightarrow> walletView \<Rightarrow> chainSaveData
    \<Rightarrow> instruction list list \<times> chainConfirmEnd" where
  "confirmChain demo demoKey demoKeys msg H S A R prog w d =
    (if demo then ([], ChainConfirm \<lparr> co_signature = ''Demo'' @ demoKey, co_nodes = map (\<lambda>i. \<lparr> chainNodeReceipt.cn_pubkey = demoKeys i,
        chainNodeReceipt.cn_nonce = show_nat (60 + i), chainNodeReceipt.cn_seedAmount = ''0'' \<rparr>) [0..<length (cd_nodes d)] \<rparr>)
     else if \<not> wl_connected w then ([], ChainError ''Connect a Solana wallet to fund this chain.'')
     else (case wl_publicKey w of
         None \<Rightarrow> ([], ChainError ''Connect a Solana wallet to fund this chain.'')
       | Some own \<Rightarrow>
          if \<not> wl_canSign w then ([], ChainError (''This wallet doesn'' @ [CHR 0x27] @ ''t support signing.''))
          else (case sendChainCreate H S A R prog own (cd_nodes d) (cd_loopMode d) of
              (sent, Inr r) \<Rightarrow> (sent, ChainConfirm (receipt_of r))
            | (sent, Inl e) \<Rightarrow> (sent, ChainError (if msg e = [] then ''Chain transaction failed. Check console.'' else msg e)))))"

section \<open>Lemmas\<close>

lemma summary_nodes_nth:
  "i < length nodes \<Longrightarrow> sm_nodes (summarizeChain nodes loop) ! i = summary_node (length nodes) loop i (nodes ! i)"
  by (simp add: summarizeChain_def Let_def nth_enumerate_eq)

lemma foldl_keep: "list_all (\<lambda>b. f a b = a) bs \<Longrightarrow> foldl f a bs = a"
  by (induction bs) auto

lemma later_seed: "0 < i \<Longrightarrow> add_seed totals (summary_node n loop i node) = totals"
  by (simp add: add_seed_def summary_node_def seed_of_def js_eval split: option.split)

lemma totals_of_head:
  "sm_totalsByToken (summarizeChain (node # nodes) loop) = add_seed [] (summary_node (Suc (length nodes)) loop 0 node)"
proof -
  let ?n = "Suc (length nodes)"
  have "list_all (\<lambda>b. add_seed t b = t) (map (\<lambda>(i, nd). summary_node ?n loop i nd) (enumerate 1 nodes))" for t
    by (auto simp add: list_all_iff in_set_enumerate_eq later_seed)
  then have "foldl add_seed t (map (\<lambda>(i, nd). summary_node ?n loop i nd) (enumerate 1 nodes)) = t" for t
    by (intro foldl_keep)
  then show ?thesis by (simp add: summarizeChain_def)
qed

lemma head_swap_amount:
  assumes "buildSwapAction S d (Swap (safe_swap 0 sw)) l = Inr (Some sp)"
  shows "new_bn S (js_round (js_mul (sw_amount sw) (js_pow10 (tr_decimals (sw_inputToken sw))))) = Inr (os_amountIn sp)"
  using assms by (auto simp add: buildSwapAction_def safe_swap_def Let_def result_simps split: option.splits if_splits)

section \<open>Properties\<close>

text \<open>C11: The deposit shown is the deposit moved. For every planned rule of a chain, the row of the sheet and the plan
  agree: the head shows its amount times the cycles it pre-funds, and its seed is that amount in base units times the same
  cycles; every later rule shows zero and has a zero seed; and the total is the head's seed under its input token, or
  nothing.\<close>

theorem deposit_shown_is_deposit_moved:
  assumes "plan_chain H S A R prog own nodes loop = Inr (C, ps)" and "i < length nodes"
    and "sm = summarizeChain nodes loop"
  shows "\<exists>sw amountIn. as_swap (first_action (nd_result (nodes ! i))) = Some sw \<and>
    sn_seedToken (sm_nodes sm ! i) = tr_symbol (sw_inputToken sw) \<and>
    (if i = 0 then
       new_bn S (js_round (js_mul (sw_amount sw) (js_pow10 (tr_decimals (sw_inputToken sw))))) = Inr amountIn \<and>
       sn_seedAmount (sm_nodes sm ! 0) = js_mul (sw_amount sw) (headCyclesToFund (length nodes) loop) \<and>
       (if length nodes = 1 \<and> loop \<noteq> None
        then \<exists>n. new_bn S (headCyclesToFund (length nodes) loop) = Inr n \<and> np_seed (ps ! i) = amountIn * n
        else np_seed (ps ! i) = amountIn \<and> headCyclesToFund (length nodes) loop = Num 1) \<and>
       sm_totalsByToken sm = (if js_gt (sn_seedAmount (sm_nodes sm ! 0)) (Num 0)
         then [(tr_symbol (sw_inputToken sw), js_add (Num 0) (sn_seedAmount (sm_nodes sm ! 0)))] else [])
     else sn_seedAmount (sm_nodes sm ! i) = Num 0 \<and> np_seed (ps ! i) = 0)"
proof -
  obtain trig sw sp dest ocad inTp outTp where f: "node_facts H S R C i (nodes ! i) (ps ! i) trig sw sp dest ocad inTp outTp"
    by (rule plan_chain_node [OF assms(1,2)])
  have c: "cx_nodes C = nodes" "cx_loopMode C = loop"
    using make_ctx_facts [OF plan_chain_parts(1) [OF assms(1)]] by simp_all
  from f have e: "encode_node H S C i (nodes ! i) = Inr (trig, sw, sp)"
    and seed: "seed_amount S C i (os_amountIn sp) = Inr (np_seed (ps ! i))" by (simp_all add: node_facts_def)
  note ef = encode_node_facts [OF e]
  have row: "sm_nodes sm ! i = summary_node (length nodes) loop i (nodes ! i)"
    by (simp add: assms(3) summary_nodes_nth [OF assms(2)])
  show ?thesis
  proof (cases i)
    case 0
    obtain nds where nds: "nodes = (nodes ! 0) # nds" using assms(2) by (cases "nodes") auto
    have amount: "new_bn S (js_round (js_mul (sw_amount sw) (js_pow10 (tr_decimals (sw_inputToken sw))))) = Inr (os_amountIn sp)"
      using ef(3) 0 by (intro head_swap_amount) simp
    have total: "sm_totalsByToken sm = add_seed [] (sm_nodes sm ! 0)"
      using totals_of_head [of "nodes ! 0" nds loop] nds row 0 assms(3) by (metis length_Cons)
    show ?thesis
      using ef(1) row seed 0 amount
      by (intro exI [of _ sw] exI [of _ "os_amountIn sp"])
        (auto simp add: total add_seed_def add_total_def summary_node_def seed_of_def seed_amount_def c headCyclesToFund_def result_simps
          split: option.splits loopMode.splits if_splits bool.splits)
  next
    case (Suc k)
    then have "np_seed (ps ! i) = 0" using seed seed_amount_downstream by blast
    then show ?thesis using ef(1) row Suc by (simp add: summary_node_def seed_of_def)
  qed
qed

theorem deposit_shown_is_deposit_moved_witness:
  "\<exists>C ps. plan_chain demo_hermes demo_solana demo_anchor demo_rpc (Some ''P'') ''O'' demo_nodes (Some (Frequency (Num 3))) = Inr (C, ps) \<and>
     sn_seedAmount (sm_nodes (summarizeChain demo_nodes (Some (Frequency (Num 3)))) ! 1) = Num 0 \<and> np_seed (ps ! 1) = 0"
proof -
  obtain C ps where p: "plan_chain demo_hermes demo_solana demo_anchor demo_rpc (Some ''P'') ''O'' demo_nodes
     (Some (Frequency (Num 3))) = Inr (C, ps)" using demo_plan by blast
  have "1 < length demo_nodes" by (simp add: demo_nodes_def)
  from deposit_shown_is_deposit_moved [OF p this refl] show ?thesis using p by auto
qed

end
