(* ===== verification/RuleBuilder.thy ===== *)
theory RuleBuilder
  imports Catalog Automations
begin

text \<open>
  src/src/components/builder/ConditionalBuilder.tsx: composing one rule. The builder keeps the draft triggers and
  actions with the operators between them, which slot is open and at which stage, and reports the finished rule
  whenever all slots are ready. The editors of the slots hand back whole drafts.
\<close>

section \<open>State\<close>

datatype side = IfSide | ThenSide
datatype stage = ListStage | EditStage

record ruleBuilder =
  rb_initial :: "automation option"
  rb_triggers :: "draftTrigger list"
  rb_actions :: "draftAction list"
  rb_triggerOps :: "triggerOperator list"
  rb_actionOps :: "actionOperator list"
  rb_open :: "(side \<times> nat) option"
  rb_stage :: stage
  rb_browsingCategory :: "triggerCategoryMeta option"

definition MAX_SLOTS :: nat where "MAX_SLOTS = 5"

text \<open>A finished trigger or action read as a draft.\<close>

fun present :: "'a specificOrAny \<Rightarrow> 'a option specificOrAny" where
  "present AnyValue = AnyValue"
| "present (Specific x) = Specific (Some x)"

fun draft_of_trigger :: "trigger \<Rightarrow> draftTrigger" where
  "draft_of_trigger (AssetPrice a q c t orc) = DAssetPrice (Some a) q c (Some t) (Some orc)"
| "draft_of_trigger (AccountTransfer acct tok) = DAccountTransfer (Some acct) (present tok)"
| "draft_of_trigger (AccountSwap acct tok amt d) = DAccountSwap (Some acct) (present tok) (present amt) d"
| "draft_of_trigger (TimeElapsed v u) = DTimeElapsed (Some v) u"
| "draft_of_trigger (PriceRelativeToFill up d bps) = DPriceRelativeToFill (Some up) d (Some bps)"

fun draft_of_action :: "action \<Rightarrow> draftAction" where
  "draft_of_action (Transfer tok amt dest) = DTransfer (Some tok) (Some amt) (Some dest)"
| "draft_of_action (Swap s) = DSwap \<lparr> ds_inputToken = Some (sw_inputToken s), ds_outputToken = Some (sw_outputToken s),
     ds_amount = Some (sw_amount s), ds_linkedDownstream = sw_linkedDownstream s, ds_consumeUpstreamOutput = sw_consumeUpstreamOutput s \<rparr>"

definition seedTriggers :: "automation option \<Rightarrow> draftTrigger list" where
  "seedTriggers initial = (case initial of
       Some a \<Rightarrow> if au_triggers a \<noteq> [] then map draft_of_trigger (au_triggers a) else [EMPTY_TRIGGER]
     | None \<Rightarrow> [EMPTY_TRIGGER])"

definition seedActions :: "automation option \<Rightarrow> draftAction list" where
  "seedActions initial = (case initial of
       Some a \<Rightarrow> if au_actions a \<noteq> [] then map draft_of_action (au_actions a) else [EMPTY_ACTION]
     | None \<Rightarrow> [EMPTY_ACTION])"

definition seedTriggerOps :: "automation option \<Rightarrow> triggerOperator list" where
  "seedTriggerOps initial = (case initial of
       Some a \<Rightarrow> if au_triggerOperators a \<noteq> [] then au_triggerOperators a
         else if au_triggers a \<noteq> [] then replicate (max 0 (length (au_triggers a) - 1)) DEFAULT_TRIGGER_OP else []
     | None \<Rightarrow> [])"

definition seedActionOps :: "automation option \<Rightarrow> actionOperator list" where
  "seedActionOps initial = (case initial of
       Some a \<Rightarrow> if au_actionOperators a \<noteq> [] then au_actionOperators a
         else if au_actions a \<noteq> [] then replicate (max 0 (length (au_actions a) - 1)) DEFAULT_ACTION_OP else []
     | None \<Rightarrow> [])"

definition new_rule :: "automation option \<Rightarrow> ruleBuilder" where
  "new_rule initial = \<lparr> rb_initial = initial, rb_triggers = seedTriggers initial, rb_actions = seedActions initial,
     rb_triggerOps = seedTriggerOps initial, rb_actionOps = seedActionOps initial, rb_open = None, rb_stage = ListStage,
     rb_browsingCategory = None \<rparr>"

section \<open>Readiness\<close>

text \<open>The readiness of a slot repeats the completeness guards of types.ts, without the bound on a duration, and
  takes a swap of an upstream output without an amount.\<close>

fun triggerReady :: "draftTrigger \<Rightarrow> bool" where
  "triggerReady DEmptyTrigger = False"
| "triggerReady (DAssetPrice asset q c threshold orc) = (asset \<noteq> None \<and> positive threshold \<and> orc \<noteq> None)"
| "triggerReady (DAccountTransfer acct tok) = (str_truthy acct \<and> any_or_present tok)"
| "triggerReady (DAccountSwap acct tok amount d) = (str_truthy acct \<and> any_or_present tok \<and> any_or_positive amount)"
| "triggerReady (DTimeElapsed v u) = positive v"
| "triggerReady (DPriceRelativeToFill up d bps) = (up \<noteq> None \<and> positive bps)"

fun actionReady :: "draftAction \<Rightarrow> bool" where
  "actionReady DEmptyAction = False"
| "actionReady (DTransfer tok amount dest) = (tok \<noteq> None \<and> positive amount \<and> str_truthy dest)"
| "actionReady (DSwap d) = (ds_inputToken d \<noteq> None \<and> ds_outputToken d \<noteq> None \<and>
     (ds_consumeUpstreamOutput d = Some True \<or> positive (ds_amount d)))"

fun draft_trigger_kind :: "draftTrigger \<Rightarrow> triggerKind option" where
  "draft_trigger_kind DEmptyTrigger = None"
| "draft_trigger_kind (DAssetPrice _ _ _ _ _) = Some KAssetPrice"
| "draft_trigger_kind (DAccountTransfer _ _) = Some KAccountTransfer"
| "draft_trigger_kind (DAccountSwap _ _ _ _) = Some KAccountSwap"
| "draft_trigger_kind (DTimeElapsed _ _) = Some KTimeElapsed"
| "draft_trigger_kind (DPriceRelativeToFill _ _ _) = Some KPriceRelativeToFill"

fun draft_action_kind :: "draftAction \<Rightarrow> actionKind option" where
  "draft_action_kind DEmptyAction = None"
| "draft_action_kind (DTransfer _ _ _) = Some KTransfer"
| "draft_action_kind (DSwap _) = Some KSwap"

definition completedTriggerKinds :: "ruleBuilder \<Rightarrow> triggerKind list" where
  "completedTriggerKinds s = List.map_filter draft_trigger_kind (filter triggerReady (rb_triggers s))"

definition availableActions :: "ruleBuilder \<Rightarrow> actionKindMeta list" where
  "availableActions s = actionsForTriggers (completedTriggerKinds s)"

definition allActionsCompatible :: "ruleBuilder \<Rightarrow> bool" where
  "allActionsCompatible s = actionsAreCompatible (completedTriggerKinds s) (List.map_filter draft_action_kind (rb_actions s))"

definition rule_ready :: "ruleBuilder \<Rightarrow> bool" where
  "rule_ready s \<longleftrightarrow> length (rb_triggers s) > 0 \<and> length (rb_actions s) > 0 \<and> list_all triggerReady (rb_triggers s) \<and>
     list_all actionReady (rb_actions s) \<and> allActionsCompatible s"

section \<open>Handlers\<close>

definition closePopover :: "ruleBuilder \<Rightarrow> ruleBuilder" where
  "closePopover s = s\<lparr> rb_open := None, rb_stage := ListStage, rb_browsingCategory := None \<rparr>"

definition slot_picked :: "side \<Rightarrow> nat \<Rightarrow> ruleBuilder \<Rightarrow> bool" where
  "slot_picked sd i s = (case sd of
       IfSide \<Rightarrow> Option.bind (nth_opt (rb_triggers s) i) draft_trigger_kind \<noteq> None
     | ThenSide \<Rightarrow> Option.bind (nth_opt (rb_actions s) i) draft_action_kind \<noteq> None)"

definition openSlot :: "side \<Rightarrow> nat \<Rightarrow> ruleBuilder \<Rightarrow> ruleBuilder" where
  "openSlot sd i s = s\<lparr> rb_open := Some (sd, i), rb_browsingCategory := None,
     rb_stage := (if slot_picked sd i s then EditStage else ListStage) \<rparr>"

definition updateTriggerAt :: "nat \<Rightarrow> draftTrigger \<Rightarrow> ruleBuilder \<Rightarrow> ruleBuilder" where
  "updateTriggerAt i t s = s\<lparr> rb_triggers := (rb_triggers s)[i := t] \<rparr>"

definition updateActionAt :: "nat \<Rightarrow> draftAction \<Rightarrow> ruleBuilder \<Rightarrow> ruleBuilder" where
  "updateActionAt i a s = s\<lparr> rb_actions := (rb_actions s)[i := a] \<rparr>"

definition pickTriggerKind :: "nat \<Rightarrow> triggerKind \<Rightarrow> ruleBuilder \<Rightarrow> ruleBuilder" where
  "pickTriggerKind i k s = (if \<not> isTriggerSupported k then s
     else (case findTriggerMeta k of None \<Rightarrow> s
       | Some m \<Rightarrow> s\<lparr> rb_triggers := (rb_triggers s)[i := tk_empty m], rb_stage := EditStage, rb_browsingCategory := None \<rparr>))"

text \<open>The chain context of the card: the index of the rule before it, and whether it consumes that rule's output.\<close>

definition chainQualified :: "(int \<times> bool) option \<Rightarrow> bool" where
  "chainQualified ctx = (case ctx of Some (upstreamIndex, consumeUpstream) \<Rightarrow> upstreamIndex \<ge> 0 \<and> consumeUpstream | None \<Rightarrow> False)"

definition supported_kinds :: "(int \<times> bool) option \<Rightarrow> triggerCategoryMeta \<Rightarrow> triggerKindMeta list" where
  "supported_kinds ctx c = filter (\<lambda>k. isTriggerSupported (tk_kind k) \<and> (tk_kind k \<noteq> KPriceRelativeToFill \<or> chainQualified ctx)) (tc_kinds c)"

definition pickTriggerCategory :: "(int \<times> bool) option \<Rightarrow> nat \<Rightarrow> triggerCategoryMeta \<Rightarrow> ruleBuilder \<Rightarrow> ruleBuilder" where
  "pickTriggerCategory ctx i c s = (if \<not> isTriggerCategorySupported c then s
     else (case supported_kinds ctx c of
         [k] \<Rightarrow> pickTriggerKind i (tk_kind k) s
       | _ \<Rightarrow> s\<lparr> rb_browsingCategory := Some c \<rparr>))"

definition goBackFromEditor :: "(int \<times> bool) option \<Rightarrow> side \<Rightarrow> nat \<Rightarrow> ruleBuilder \<Rightarrow> ruleBuilder" where
  "goBackFromEditor ctx sd i s = (case sd of
       ThenSide \<Rightarrow> s\<lparr> rb_stage := ListStage \<rparr>
     | IfSide \<Rightarrow> (case nth_opt (rb_triggers s) i of None \<Rightarrow> s
         | Some cur \<Rightarrow> (let cat = Option.bind (draft_trigger_kind cur) findTriggerCategoryForKind in
             s\<lparr> rb_browsingCategory := (case cat of Some c \<Rightarrow> if length (supported_kinds ctx c) > 1 then Some c else None | None \<Rightarrow> None),
               rb_stage := ListStage \<rparr>)))"

definition pickActionKind :: "nat \<Rightarrow> actionKind \<Rightarrow> ruleBuilder \<Rightarrow> ruleBuilder" where
  "pickActionKind i k s = (if \<not> isActionSupported k then s
     else (case findActionMeta k of None \<Rightarrow> s
       | Some m \<Rightarrow> s\<lparr> rb_actions := (rb_actions s)[i := ak_empty m], rb_stage := EditStage \<rparr>))"

definition addTrigger :: "ruleBuilder \<Rightarrow> ruleBuilder" where
  "addTrigger s = (if length (rb_triggers s) \<ge> MAX_SLOTS then s
     else s\<lparr> rb_triggers := rb_triggers s @ [EMPTY_TRIGGER], rb_triggerOps := rb_triggerOps s @ [DEFAULT_TRIGGER_OP],
       rb_open := Some (IfSide, length (rb_triggers s)), rb_stage := ListStage, rb_browsingCategory := None \<rparr>)"

definition addAction :: "ruleBuilder \<Rightarrow> ruleBuilder" where
  "addAction s = (if length (rb_actions s) \<ge> MAX_SLOTS then s
     else s\<lparr> rb_actions := rb_actions s @ [EMPTY_ACTION], rb_actionOps := rb_actionOps s @ [DEFAULT_ACTION_OP],
       rb_open := Some (ThenSide, length (rb_actions s)), rb_stage := ListStage, rb_browsingCategory := None \<rparr>)"

definition drop_at :: "nat \<Rightarrow> 'a list \<Rightarrow> 'a list" where
  "drop_at i xs = take i xs @ drop (Suc i) xs"

text \<open>The operator before the slot goes with it, the one after it for the first slot.\<close>

definition drop_op :: "nat \<Rightarrow> 'a list \<Rightarrow> 'a list" where
  "drop_op i ops = (if ops = [] then ops else drop_at (if i = 0 then 0 else i - 1) ops)"

definition removeSlot :: "side \<Rightarrow> nat \<Rightarrow> ruleBuilder \<Rightarrow> ruleBuilder" where
  "removeSlot sd i s =
    (let s' = (case sd of
         IfSide \<Rightarrow> s\<lparr> rb_triggers := (if length (rb_triggers s) = 1 then [EMPTY_TRIGGER] else drop_at i (rb_triggers s)),
           rb_triggerOps := drop_op i (rb_triggerOps s) \<rparr>
       | ThenSide \<Rightarrow> s\<lparr> rb_actions := (if length (rb_actions s) = 1 then [EMPTY_ACTION] else drop_at i (rb_actions s)),
           rb_actionOps := drop_op i (rb_actionOps s) \<rparr>)
     in if rb_open s = Some (sd, i) then closePopover s' else s')"

definition setTriggerOp :: "nat \<Rightarrow> triggerOperator \<Rightarrow> ruleBuilder \<Rightarrow> ruleBuilder" where
  "setTriggerOp i x s = s\<lparr> rb_triggerOps := (rb_triggerOps s)[i := x] \<rparr>"

definition setActionOp :: "nat \<Rightarrow> actionOperator \<Rightarrow> ruleBuilder \<Rightarrow> ruleBuilder" where
  "setActionOp i x s = s\<lparr> rb_actionOps := (rb_actionOps s)[i := x] \<rparr>"

text \<open>The cadence and the interval of the rule that is edited are kept.\<close>

definition rule_result :: "ruleBuilder \<Rightarrow> trigger list \<Rightarrow> action list \<Rightarrow> builderResult" where
  "rule_result s t a = \<lparr> br_triggers = t, br_triggerOperators = rb_triggerOps s, br_actions = a, br_actionOperators = rb_actionOps s,
     br_cadence = (case rb_initial s of Some x \<Rightarrow> au_cadence x | None \<Rightarrow> DEFAULT_CADENCE),
     br_minIntervalSecs = (case rb_initial s of Some x \<Rightarrow> au_minIntervalSecs x | None \<Rightarrow> DEFAULT_MIN_INTERVAL_SECS) \<rparr>"

definition saveRule :: "ruleBuilder \<Rightarrow> builderResult option" where
  "saveRule s = (case (freezeTriggers (rb_triggers s), freezeActions (rb_actions s)) of
       (Some t, Some a) \<Rightarrow> Some (rule_result s t a)
     | _ \<Rightarrow> None)"

text \<open>What the parent is told after every change.\<close>

definition reported :: "ruleBuilder \<Rightarrow> builderResult option" where
  "reported s = (case (freezeTriggers (rb_triggers s), freezeActions (rb_actions s)) of
       (Some t, Some a) \<Rightarrow> if rule_ready s then Some (rule_result s t a) else None
     | _ \<Rightarrow> None)"

section \<open>Clusters\<close>

record cluster =
  cl_slotIndices :: "nat list"
  cl_internalAndOpIndices :: "nat list"

fun cluster_loop :: "nat \<Rightarrow> triggerOperator list \<Rightarrow> cluster \<Rightarrow> cluster list \<times> nat list" where
  "cluster_loop i [] cur = ([cur], [])"
| "cluster_loop i (x # ops) cur =
     (if x = TOr then (let (clusters, ors) = cluster_loop (Suc i) ops \<lparr> cl_slotIndices = [i + 1], cl_internalAndOpIndices = [] \<rparr>
        in (cur # clusters, i # ors))
      else cluster_loop (Suc i) ops (cur\<lparr> cl_slotIndices := cl_slotIndices cur @ [i + 1],
        cl_internalAndOpIndices := cl_internalAndOpIndices cur @ [i] \<rparr>))"

definition computeTriggerClusters :: "triggerOperator list \<Rightarrow> cluster list \<times> nat list" where
  "computeTriggerClusters ops = cluster_loop 0 ops \<lparr> cl_slotIndices = [0], cl_internalAndOpIndices = [] \<rparr>"

section \<open>Events\<close>

text \<open>A slot is removed only where another remains; an editor hands back any draft.\<close>

inductive rule_step :: "(int \<times> bool) option \<Rightarrow> ruleBuilder \<Rightarrow> ruleBuilder \<Rightarrow> bool" for ctx where
  close: "rule_step ctx s (closePopover s)"
| open_slot: "rule_step ctx s (openSlot sd i s)"
| edit_trigger: "rule_step ctx s (updateTriggerAt i t s)"
| edit_action: "rule_step ctx s (updateActionAt i a s)"
| pick_trigger: "rule_step ctx s (pickTriggerKind i k s)"
| pick_category: "c \<in> set TRIGGER_CATEGORIES \<Longrightarrow> rule_step ctx s (pickTriggerCategory ctx i c s)"
| go_back: "rule_step ctx s (goBackFromEditor ctx sd i s)"
| pick_action: "m \<in> set (availableActions s) \<Longrightarrow> rule_step ctx s (pickActionKind i (ak_kind m) s)"
| add_trigger: "rule_step ctx s (addTrigger s)"
| add_action: "rule_step ctx s (addAction s)"
| remove_trigger: "i < length (rb_triggers s) \<Longrightarrow> 1 < length (rb_triggers s) \<Longrightarrow> rule_step ctx s (removeSlot IfSide i s)"
| remove_action: "i < length (rb_actions s) \<Longrightarrow> 1 < length (rb_actions s) \<Longrightarrow> rule_step ctx s (removeSlot ThenSide i s)"
| set_trigger_op: "rule_step ctx s (setTriggerOp i x s)"
| set_action_op: "rule_step ctx s (setActionOp i y s)"


section \<open>Lemmas\<close>

definition rule_ok :: "ruleBuilder \<Rightarrow> bool" where
  "rule_ok s \<longleftrightarrow> 0 < length (rb_triggers s) \<and> length (rb_triggers s) \<le> MAX_SLOTS \<and> length (rb_triggerOps s) = length (rb_triggers s) - 1 \<and>
     0 < length (rb_actions s) \<and> length (rb_actions s) \<le> MAX_SLOTS \<and> length (rb_actionOps s) = length (rb_actions s) - 1"

definition initial_ok :: "automation option \<Rightarrow> bool" where
  "initial_ok initial = (case initial of Some a \<Rightarrow> record_wf a \<and> length (au_triggers a) \<le> MAX_SLOTS \<and> length (au_actions a) \<le> MAX_SLOTS | None \<Rightarrow> True)"

lemma ok_new_rule: "initial_ok initial \<Longrightarrow> rule_ok (new_rule initial)"
  by (auto simp add: rule_ok_def new_rule_def initial_ok_def record_wf_def seedTriggers_def seedActions_def seedTriggerOps_def
      seedActionOps_def MAX_SLOTS_def split: option.splits)

lemma length_drop_at: "length (drop_at i xs) = (if i < length xs then length xs - 1 else length xs)"
  by (simp add: drop_at_def)

lemma drop_at_keeps: "1 < length xs \<Longrightarrow> drop_at i xs \<noteq> []"
  using length_drop_at [of i xs] by (auto split: if_splits)

lemma length_drop_op: "i < n \<Longrightarrow> length ops = n - 1 \<Longrightarrow> length (drop_op i ops) = n - 2"
  by (auto simp add: drop_op_def length_drop_at)

lemmas rule_handler_defs = closePopover_def openSlot_def updateTriggerAt_def updateActionAt_def pickTriggerKind_def
  pickTriggerCategory_def goBackFromEditor_def pickActionKind_def addTrigger_def addAction_def setTriggerOp_def setActionOp_def

lemma rule_step_ok: "rule_step ctx s s' \<Longrightarrow> rule_ok s \<Longrightarrow> rule_ok s' \<and> rb_initial s' = rb_initial s"
proof (induction rule: rule_step.induct)
  case (remove_trigger i s)
  then show ?case using length_drop_op [of i "length (rb_triggers s)" "rb_triggerOps s"]
    by (auto simp add: rule_ok_def removeSlot_def Let_def closePopover_def length_drop_at drop_at_keeps)
next
  case (remove_action i s)
  then show ?case using length_drop_op [of i "length (rb_actions s)" "rb_actionOps s"]
    by (auto simp add: rule_ok_def removeSlot_def Let_def closePopover_def length_drop_at drop_at_keeps)
qed (auto simp add: rule_ok_def rule_handler_defs Let_def split: option.split list.split side.split)

lemma reachable_rule:
  assumes "initial_ok initial" and "(rule_step ctx)\<^sup>*\<^sup>* (new_rule initial) s"
  shows "rule_ok s \<and> rb_initial s = initial"
  using assms(2) by (induction rule: rtranclp_induct) (use ok_new_rule [OF assms(1)] rule_step_ok in \<open>auto simp add: new_rule_def\<close>)

text \<open>The guards of types.ts imply the readiness of the slots.\<close>

lemma complete_ready: "isTriggerComplete d \<Longrightarrow> triggerReady d" "isActionComplete e \<Longrightarrow> actionReady e"
proof -
  have "js_gt x (Num 0)" if "\<not> js_le x (Num 0)" "js_le y z" "js_gt y (Num 0)" "y = timeElapsedToSecs x u" for x y z u
    using that by (cases x; cases u) (auto simp add: timeElapsedToSecs_def unit_secs_def)
  then show "isTriggerComplete d \<Longrightarrow> triggerReady d"
    by (cases d) (auto simp add: positive_def Let_def split: option.splits if_splits)
  show "isActionComplete e \<Longrightarrow> actionReady e" by (cases e) auto
qed


text \<open>A finished trigger or action, read as a draft, passes its guard and resolves to itself.\<close>

lemma resolved_present: "resolved_selector (present x) = Some x" "any_or_present (present x)"
  by (cases x; simp)+

lemma positive_present: "specific_all (js_lt (Num 0)) x \<Longrightarrow> any_or_positive (present x)"
  by (cases x) (simp_all add: positive_def)

lemma trigger_redraft: "trigger_of_draft (draft_of_trigger t) = Some t" "action_of_draft (draft_of_action a) = Some a"
  by (cases t; simp add: resolved_present) (cases a; simp)

lemma secs_positive: "js_le (Num 1) (timeElapsedToSecs v u) \<Longrightarrow> \<not> js_le v (Num 0)"
proof
  assume a: "js_le (Num 1) (timeElapsedToSecs v u)" and v: "js_le v (Num 0)"
  obtain k where k: "unit_secs u = Num k" "0 < k" by (cases u) (auto simp add: unit_secs_def)
  show False
  proof (cases v)
    case (Num q)
    then have "js_le (fl (q * k)) (Num 0)" using v k(2) by (intro js_fl_le_0) (simp add: mult_nonpos_nonneg)
    then show False using a Num k by (cases "fl (q * k)") (auto simp add: timeElapsedToSecs_def)
  qed (use v a k in \<open>auto simp add: timeElapsedToSecs_def inf_of_sign_def\<close>)
qed

lemma redraft_complete: "trigger_wf t \<Longrightarrow> isTriggerComplete (draft_of_trigger t)" "action_wf a \<Longrightarrow> isActionComplete (draft_of_action a)"
proof -
  have "js_gt secs (Num 0)" if "js_le (Num 1) secs" for secs using that by (cases secs) auto
  then show "trigger_wf t \<Longrightarrow> isTriggerComplete (draft_of_trigger t)"
    using secs_positive by (cases t) (auto simp add: positive_def str_truthy_def resolved_present positive_present Let_def)
  show "action_wf a \<Longrightarrow> isActionComplete (draft_of_action a)"
    by (cases a) (auto simp add: positive_def str_truthy_def)
qed

lemma redraft_kind: "draft_trigger_kind (draft_of_trigger t) = Some (trigger_kind t)" "draft_action_kind (draft_of_action a) = Some (action_kind a)"
  by (cases t; simp) (cases a; simp)

lemma draft_kind_resolved:
  "trigger_of_draft d = Some t \<Longrightarrow> draft_trigger_kind d = Some (trigger_kind t)"
  "action_of_draft e = Some a \<Longrightarrow> draft_action_kind e = Some (action_kind a)"
  by (cases d; auto simp add: bind_eq_Some_conv) (cases e; auto simp add: bind_eq_Some_conv)

lemma map_filter_total: "list_all (\<lambda>d. f d = Some (g d)) ds \<Longrightarrow> List.map_filter f ds = map g ds"
  by (induction ds) (auto simp add: map_filter_simps)

lemma frozen:
  "freezeTriggers ds = Some ts \<longleftrightarrow> ds \<noteq> [] \<and> list_all isTriggerComplete ds \<and> ts = map (\<lambda>d. the (trigger_of_draft d)) ds"
  "freezeActions es = Some as \<longleftrightarrow> es \<noteq> [] \<and> list_all isActionComplete es \<and> as = map (\<lambda>d. the (action_of_draft d)) es"
  using freeze_exact [of ds es] by auto

lemma frozen_kinds:
  "list_all isTriggerComplete ds \<Longrightarrow> List.map_filter draft_trigger_kind (filter triggerReady ds) = map (\<lambda>d. trigger_kind (the (trigger_of_draft d))) ds"
  "list_all isActionComplete es \<Longrightarrow> List.map_filter draft_action_kind es = map (\<lambda>d. action_kind (the (action_of_draft d))) es"
proof -
  assume t: "list_all isTriggerComplete ds"
  then have "filter triggerReady ds = ds" by (auto simp add: list_all_iff filter_id_conv complete_ready)
  moreover have "list_all (\<lambda>d. draft_trigger_kind d = Some (trigger_kind (the (trigger_of_draft d)))) ds"
    using t isTriggerComplete_resolves draft_kind_resolved(1) by (fastforce simp add: list_all_iff)
  ultimately show "List.map_filter draft_trigger_kind (filter triggerReady ds) = map (\<lambda>d. trigger_kind (the (trigger_of_draft d))) ds"
    by (simp add: map_filter_total)
next
  assume "list_all isActionComplete es"
  then have "list_all (\<lambda>d. draft_action_kind d = Some (action_kind (the (action_of_draft d)))) es"
    using isActionComplete_resolves draft_kind_resolved(2) by (fastforce simp add: list_all_iff)
  then show "List.map_filter draft_action_kind es = map (\<lambda>d. action_kind (the (action_of_draft d))) es"
    by (rule map_filter_total)
qed

lemma reported_Some:
  assumes "reported s = Some r"
  obtains ts as where "freezeTriggers (rb_triggers s) = Some ts" "freezeActions (rb_actions s) = Some as" "rule_ready s" "r = rule_result s ts as"
  using assms by (auto simp add: reported_def split: option.splits if_splits)

text \<open>The clusters of a list of operators.\<close>



text \<open>The clusters of a list of operators.\<close>

lemma cluster_loop_spec:
  "cl_slotIndices cur \<noteq> [] \<Longrightarrow> cl_internalAndOpIndices cur = butlast (cl_slotIndices cur) \<Longrightarrow> last (cl_slotIndices cur) = i \<Longrightarrow>
   cluster_loop i ops cur = (cs, ors) \<Longrightarrow>
     concat (map cl_slotIndices cs) = cl_slotIndices cur @ [Suc i..<Suc (i + length ops)] \<and>
     ors = filter (\<lambda>k. ops ! (k - i) = TOr) [i..<i + length ops] \<and>
     list_all (\<lambda>c. cl_slotIndices c \<noteq> [] \<and> cl_internalAndOpIndices c = butlast (cl_slotIndices c)) cs"
proof (induction i ops cur arbitrary: cs ors rule: cluster_loop.induct)
  case (2 i x ops cur)
  have shift: "filter (\<lambda>k. (x # ops) ! (k - i) = TOr) [i..<i + length (x # ops)] =
      (if x = TOr then [i] else []) @ filter (\<lambda>k. ops ! (k - Suc i) = TOr) [Suc i..<Suc i + length ops]"
  proof -
    have "filter (\<lambda>k. (x # ops) ! (k - i) = TOr) [Suc i..<Suc i + length ops] = filter (\<lambda>k. ops ! (k - Suc i) = TOr) [Suc i..<Suc i + length ops]"
      by (rule filter_cong [OF refl]) (auto simp add: nth_Cons')
    moreover have "[i..<i + length (x # ops)] = i # [Suc i..<Suc i + length ops]" by (simp add: upt_conv_Cons del: upt_Suc)
    ultimately show ?thesis by (cases "x = TOr") (simp_all del: upt_Suc)
  qed
  have slots: "[Suc i..<Suc (i + length (x # ops))] = Suc i # [Suc (Suc i)..<Suc (Suc i + length ops)]" by (simp add: upt_conv_Cons del: upt_Suc)
  show ?case
  proof (cases "x = TOr")
    case True
    obtain cs' ors' where r: "cluster_loop (Suc i) ops \<lparr> cl_slotIndices = [i + 1], cl_internalAndOpIndices = [] \<rparr> = (cs', ors')" by fastforce
    have "cs = cur # cs'" "ors = i # ors'" using 2(6) True r by simp_all
    then show ?thesis using 2(1) [OF True _ _ _ r] 2(3,4) True unfolding shift slots by (simp del: upt_Suc)
  next
    case False
    have "cluster_loop (Suc i) ops (cur\<lparr> cl_slotIndices := cl_slotIndices cur @ [i + 1],
        cl_internalAndOpIndices := cl_internalAndOpIndices cur @ [i] \<rparr>) = (cs, ors)" using 2(6) False by simp
    from 2(2) [OF False _ _ _ this] show ?thesis using 2(3,4,5) False unfolding shift slots
      by (simp add: snoc_eq_iff_butlast del: upt_Suc)
  qed
qed auto

lemma compatible_lists: "actionsAreCompatible (map trigger_kind ts) (map action_kind as) =
    list_all (\<lambda>a. list_all (\<lambda>t. \<not> (action_kind a = KTransfer \<and> trigger_kind t = KPriceRelativeToFill)) ts) as"
proof -
  have "actionsAreCompatible (map trigger_kind ts) (map action_kind as) =
      list_all (\<lambda>a. list_all (\<lambda>t. \<not> (a = KTransfer \<and> t = KPriceRelativeToFill)) (map trigger_kind ts)) (map action_kind as)"
    using compatibility_exact by blast
  then show ?thesis by (simp only: list.pred_map comp_def)
qed

section \<open>Properties\<close>

text \<open>C12: What the builder of a rule reports. Opened on nothing or on a stored rule with at most five triggers and actions
  and the operators they need, whatever was picked, edited, added and removed, a reported rule has between
  one and five triggers and as many actions, one operator between two neighbours, every trigger and action well formed, no
  transfer under a trigger relative to an earlier fill, and the cadence of the rule that is edited.\<close>

theorem reported_rule:
  assumes "initial_ok initial" and "(rule_step ctx)\<^sup>*\<^sup>* (new_rule initial) s" and "reported s = Some r"
  shows "br_triggers r \<noteq> [] \<and> length (br_triggers r) \<le> 5 \<and> length (br_triggerOperators r) = length (br_triggers r) - 1 \<and>
    br_actions r \<noteq> [] \<and> length (br_actions r) \<le> 5 \<and> length (br_actionOperators r) = length (br_actions r) - 1 \<and>
    list_all trigger_wf (br_triggers r) \<and> list_all action_wf (br_actions r) \<and>
    list_all (\<lambda>a. list_all (\<lambda>t. \<not> (action_kind a = KTransfer \<and> trigger_kind t = KPriceRelativeToFill)) (br_triggers r)) (br_actions r) \<and>
    br_cadence r = (case initial of Some a \<Rightarrow> au_cadence a | None \<Rightarrow> DEFAULT_CADENCE)"
proof -
  obtain ts as where f: "freezeTriggers (rb_triggers s) = Some ts" "freezeActions (rb_actions s) = Some as" and ready: "rule_ready s"
    and r: "r = rule_result s ts as" by (rule reported_Some [OF assms(3)])
  note ok = reachable_rule [OF assms(1,2)]
  note t = f(1) [unfolded frozen(1)] and a = f(2) [unfolded frozen(2)]
  have wf: "list_all trigger_wf ts" "list_all action_wf as"
    using freeze_exact [of "rb_triggers s" "rb_actions s"] f by simp_all
  have "actionsAreCompatible (map trigger_kind ts) (map action_kind as)"
    using ready t a frozen_kinds(1) [of "rb_triggers s"] frozen_kinds(2) [of "rb_actions s"]
    by (simp add: rule_ready_def allActionsCompatible_def completedTriggerKinds_def comp_def)
  then have "list_all (\<lambda>a. list_all (\<lambda>t. \<not> (action_kind a = KTransfer \<and> trigger_kind t = KPriceRelativeToFill)) ts) as"
    by (simp only: compatible_lists)
  then show ?thesis using ok t a wf by (simp add: r rule_result_def rule_ok_def MAX_SLOTS_def)
qed

text \<open>C13: Editing a rule without a change reports the same rule: triggers, actions, operators, cadence and interval, for
  every well-formed stored rule that does not pair a transfer with a trigger relative to an earlier fill.\<close>

theorem edit_round_trip:
  assumes "record_wf a" "au_triggers a \<noteq> []" "au_actions a \<noteq> []" "list_all trigger_wf (au_triggers a)" "list_all action_wf (au_actions a)"
    and "list_all (\<lambda>x. list_all (\<lambda>t. \<not> (action_kind x = KTransfer \<and> trigger_kind t = KPriceRelativeToFill)) (au_triggers a)) (au_actions a)"
  shows "reported (new_rule (Some a)) = Some \<lparr> br_triggers = au_triggers a, br_triggerOperators = au_triggerOperators a,
    br_actions = au_actions a, br_actionOperators = au_actionOperators a, br_cadence = au_cadence a, br_minIntervalSecs = au_minIntervalSecs a \<rparr>"
proof -
  let ?s = "new_rule (Some a)"
  have d: "rb_triggers ?s = map draft_of_trigger (au_triggers a)" "rb_actions ?s = map draft_of_action (au_actions a)"
    using assms(2,3) by (simp_all add: new_rule_def seedTriggers_def seedActions_def)
  have c: "list_all isTriggerComplete (rb_triggers ?s)" "list_all isActionComplete (rb_actions ?s)"
    using assms(4,5) by (auto simp add: d list_all_iff redraft_complete)
  have ft: "freezeTriggers (rb_triggers ?s) = Some (au_triggers a)" "freezeActions (rb_actions ?s) = Some (au_actions a)"
    unfolding frozen using c assms(2,3) by (simp_all add: d trigger_redraft comp_def)
  have "actionsAreCompatible (map trigger_kind (au_triggers a)) (map action_kind (au_actions a))"
    unfolding compatible_lists by (rule assms(6))
  then have "allActionsCompatible ?s" using frozen_kinds(1) [OF c(1)] frozen_kinds(2) [OF c(2)]
    by (simp add: allActionsCompatible_def completedTriggerKinds_def d trigger_redraft comp_def)
  then have "rule_ready ?s" using c assms(2,3) by (auto simp add: rule_ready_def list_all_iff complete_ready d)
  moreover have "rb_triggerOps ?s = au_triggerOperators a" "rb_actionOps ?s = au_actionOperators a"
    using assms(1-3) by (auto simp add: new_rule_def seedTriggerOps_def seedActionOps_def record_wf_def)
  ultimately show ?thesis using ft by (simp add: reported_def rule_result_def) (simp add: new_rule_def)
qed

text \<open>The grouping of triggers. The clusters list every slot once, in order; the separators are the places of the or
  operators; and inside a cluster every operator is an and.\<close>

theorem clusters_partition:
  "concat (map cl_slotIndices (fst (computeTriggerClusters ops))) = [0..<Suc (length ops)] \<and>
   snd (computeTriggerClusters ops) = filter (\<lambda>k. ops ! k = TOr) [0..<length ops] \<and>
   list_all (\<lambda>c. cl_internalAndOpIndices c = butlast (cl_slotIndices c)) (fst (computeTriggerClusters ops))"
proof -
  obtain cs ors where c: "computeTriggerClusters ops = (cs, ors)" by fastforce
  have "concat (map cl_slotIndices cs) = [0] @ [Suc 0..<Suc (0 + length ops)] \<and> ors = filter (\<lambda>k. ops ! (k - 0) = TOr) [0..<0 + length ops] \<and>
      list_all (\<lambda>c. cl_slotIndices c \<noteq> [] \<and> cl_internalAndOpIndices c = butlast (cl_slotIndices c)) cs"
    using cluster_loop_spec [OF _ _ _ c [unfolded computeTriggerClusters_def]] by (simp del: upt_Suc)
  moreover have "[0] @ [Suc 0..<Suc (0 + length ops)] = [0..<Suc (length ops)]" by (simp add: upt_conv_Cons del: upt_Suc)
  ultimately show ?thesis using c by (simp add: list_all_iff del: upt_Suc)
qed

section \<open>Instances\<close>

definition demo_paid :: tokenRef where
  "demo_paid = \<lparr> tr_mint = ''So1'', tr_symbol = ''SOL'', tr_name = ''Solana'', tr_logo = None, tr_decimals = 9, tr_metadataSource = Canonical, tr_tokenProgram = None \<rparr>"

definition demo_edited :: automation where
  "demo_edited = \<lparr> au_id = ''a1'', au_schemaVersion = 3, au_triggers = [TimeElapsed (Num 5) Minutes, AccountTransfer ''K'' AnyValue],
     au_triggerOperators = [TOr], au_actions = [Transfer demo_paid (Num 2) ''D''],
     au_actionOperators = [], au_cadence = Repeat (Num 3), au_minIntervalSecs = Num 60, au_running = True, au_runs = Num 0,
     au_lastCheck = [], au_createdAt = [], au_pubkey = None, au_signature = None, au_nonce = None, au_executedAt = None,
     au_closedAt = None, au_link = None \<rparr>"

lemma demo_edited_wf: "record_wf demo_edited" "initial_ok (Some demo_edited)"
  by (simp_all add: demo_edited_def record_wf_def initial_ok_def MAX_SLOTS_def)

lemma demo_drafts:
  "new_rule (Some demo_edited) = \<lparr> rb_initial = Some demo_edited, rb_triggers = [DTimeElapsed (Some (Num 5)) Minutes, DAccountTransfer (Some ''K'') AnyValue],
     rb_actions = [DTransfer (Some demo_paid) (Some (Num 2)) (Some ''D'')], rb_triggerOps = [TOr], rb_actionOps = [], rb_open = None,
     rb_stage = ListStage, rb_browsingCategory = None \<rparr>"
  by (simp add: new_rule_def demo_edited_def seedTriggers_def seedActions_def seedTriggerOps_def seedActionOps_def)

lemma demo_reported: "\<exists>r. reported (new_rule (Some demo_edited)) = Some r \<and> length (br_triggers r) = 2 \<and> br_triggerOperators r = [TOr]"
  unfolding demo_drafts
  by (simp add: reported_def rule_result_def freezeTriggers_def freezeActions_def rule_ready_def allActionsCompatible_def completedTriggerKinds_def
      map_filter_simps positive_def str_truthy_def timeElapsedToSecs_def unit_secs_def MAX_TIME_ELAPSED_SECS_def Let_def js_eval
      conjunct1 [OF compatibility_exact])

theorem reported_rule_witness:
  "\<exists>r. reported (new_rule (Some demo_edited)) = Some r \<and> list_all trigger_wf (br_triggers r) \<and> length (br_triggerOperators r) = length (br_triggers r) - 1"
  using demo_reported reported_rule [OF demo_edited_wf(2) rtranclp.rtrancl_refl] by blast

theorem edit_round_trip_witness:
  "map_option br_triggers (reported (new_rule (Some demo_edited))) = Some (au_triggers demo_edited)"
proof -
  have "au_triggers demo_edited \<noteq> []" "au_actions demo_edited \<noteq> []" by (simp_all add: demo_edited_def)
  moreover have "list_all trigger_wf (au_triggers demo_edited)" "list_all action_wf (au_actions demo_edited)"
    by (simp_all add: demo_edited_def timeElapsedToSecs_def unit_secs_def MAX_TIME_ELAPSED_SECS_def js_eval)
  moreover have "list_all (\<lambda>x. list_all (\<lambda>t. \<not> (action_kind x = KTransfer \<and> trigger_kind t = KPriceRelativeToFill)) (au_triggers demo_edited)) (au_actions demo_edited)"
    by (simp add: demo_edited_def)
  ultimately show ?thesis using edit_round_trip [OF demo_edited_wf(1)] by simp
qed

end
