(* ===== verification/Spec2Isabelle.thy ===== *)
theory Spec2Isabelle
  imports Catalog Automations Router ChainCreate ChainLinks Verdict BotWork ApiServer ChainSheet RuleBuilder
begin

text \<open>
  Verification development for the TypeScript core of Sotama, a builder of automated rules on Solana, and of the
  bot that watches tokenized assets for a price edge.

  The client. A user composes rules: a trigger (a price, a watched account, a duration, a move relative to an
  earlier fill) and an action (a transfer or a swap), with a cadence. Drafts become frozen rules once they are
  complete, are stored per wallet, and are published: a single rule goes to a keeper or to the Jupiter venue, and a
  chain of linked swaps becomes one program account per rule, created in batches. Later the accounts are read
  back, decoded, linked up again and merged with the local records, and closed with a refund. The sources are
  src/src/lib and the stateful components of its user interface.

  The bot. Price ticks of a feed (three sockets, or polled snapshots) reach a scheduler, which admits quote requests
  to Jupiter under a rate budget and a cooldown per route. A quote is graded and recorded with the basis between
  token and reference; a live one goes to the signal engine, which opens and closes positions, on paper or through
  the trade executor. A read API serves health, an overview and a dossier per pair from the rows. The sources are
  src/services/stat-arb-bot/src, src/packages/market-core/src and src/packages/db/src.

  Theories of the client, in the order of their imports:
  Prelude: results with a thrown error on the left, array lookups, the insertion-ordered dictionary of
  JavaScript (locale dictionary, interpreted on the model of Map), decimal rendering.
  JsNumber, JsNumeric: the JavaScript number as IEEE-754 binary64 (rationals with explicit rounding, infinities,
  NaN), its operations, their monotonicity, error bounds and comparison laws.
  JsString: the string methods the code calls, on ASCII text.
  Types: types.ts, the schema of rules, drafts, links, the completeness guards and the duration helpers.
  Catalog: catalog.ts and support.ts, the menus in terms of the compatible actions.
  Automations: automations.ts, the migrations of stored JSON, operator back-filling, load and save, freezing.
  Router: jupiter-trigger-router.ts and keeper.ts, eligibility of a rule for the venue.
  Oracles: assets.ts, oracles.ts and the prices of jupiter.ts; the price stream is a state machine.
  Program: program.ts, the addresses derived from seeds, the on-chain forms and the instruction builders.
  Chains: the pure part of linked-chains.ts: classification, validation, cycles, fee, encoding.
  ChainCreate: sendChainCreate: the plan, the balance check, the batches with their trace, partial failures.
  Tokens: tokens.ts: the scan of a mint for the transfer hook on 8-bit words, the caches, the resolution order.
  OnChain, ChainLinks: on-chain-automations.ts: decoding, reconstruction of links, merge, and their correctness.
  CloseFlow: close-automation.ts: the checks, the transaction and the leftover accounts of a close.
  Workspace: AutomationWorkspace.tsx and useOnChainAutomationSync.ts: every handler of the page that changes the
  list of rules, as a state machine with wallet changes, pending confirmations and polling in any order.
  Deposit: DepositSheet.tsx: the on-chain form of a single rule, its create transaction, the states of the sheet.
  RuleBuilder: ConditionalBuilder.tsx: the slots and operators of one rule, and the rule it reports.
  ChainBuilder: LinkedChainBuilder.tsx: the cards of a chain, their links and the loop mode under the events of the user.
  ChainSheet: summarizeChain and ChainDepositSheet.tsx: the deposit a chain asks for, and its confirmation.

  Theories of the bot:
  MarketBase: pair-config.ts, time-regime.ts, amount.ts, effective-price.ts, edge.ts, cost-model.ts,
  cost-waterfall.ts, display-orientation.ts, pair-class.ts, thresholds.ts, profitability.ts.
  RpsBudget: rps-budget.ts, the token bucket and the estimate of the request rate.
  QuoteQuality: quote-quality.ts. Backtests: two-size-backtest.ts and hold-horizon.ts.
  Readiness: pair-readiness.ts and route-stability.ts. StatSummary: stat-summary.ts. Verdict: research-verdict.ts.
  BotScheduler: market-hours.ts, quote-scheduler.ts, scheduler-telemetry.ts.
  JupiterClient: jupiter-client.ts. TradeExecutor: trade-executor.ts and the execution rows of executions.ts.
  SignalEngine: signal-engine.ts and the positions of signals.ts.
  BotRuntime: pair-loader.ts and the index of pairs by feed of index.ts.
  PythFeed: pyth-stream.ts and pyth-snapshot.ts, sockets and timers as a state machine.
  BotWork: the path of a tick to its rows: index.ts, basis-recorder.ts, heartbeat.ts, quotes.ts, basis.ts.
  ApiCache: api/cache.ts, with runs of overlapping calls. ApiViews: the builders of the read API.
  ApiHandlers: health and overview with their queries. ApiDossier: the dossier of a pair. ApiServer: the routing,
  the percent encoding of a pair id in a path, and the answers when the database is down.

  Correspondence. Definitions carry the names of the functions and types of the source; a helper without a name
  in the source (a closure, a loop, a group of statements) has a name of its own. A public key is its base58
  text, an absent or null field is None, an exception is a left result, a JavaScript Map is an association list
  in insertion order, a Set the list of its members. Numbers of the language are JsNumber values, bigint and
  BN values integers, counters natural numbers, a Date its time in milliseconds. Asynchronous calls are sequenced in
  the order of their awaits; where the interleaving matters - the price stream, the sockets, the cache, the opening
  of positions, the page of rules - every completion is an event of its own. A table of the database is the list
  of its rows in the order of their ids; a query is a filter, a sort and a limit on it.

  Parameters. Code outside the repository is an argument: the Solana libraries (record solana), the RPC connection
  (records rpc, execHost, closeHost, createHost), the Anchor client (type anchor), the price registry (type hermes), the price
  service, the caches' environment (record tokenEnv), the reads of the chain (record chainReads), the clock (record
  clock_env, or a time given with the event), the New York clock of market hours, HTTP replies of Jupiter and Pyth
  (workEnv, snapshotHost), random values, localeCompare, Math.sqrt, Math.log, Math.pow and the storage parser. What
  is assumed of them is named: bn_documented (BN construction is exact below 2 to the 53 and throws from there),
  pda_documented (derived addresses of one owner differ for different nonces). The demo definitions are concrete
  instances on which the witnesses evaluate.

  Bounds and termination. No definition uses fuel. Loops whose recursion is not structural terminate by a measure:
  the walk over next pointers and the search of a component by the nodes not yet visited, the scan of extensions by
  the bytes left, operator padding by the missing length, the wait for a confirmation by its deadline. The swap round
  trip is stated up to 2 to the 49 base units and 15 decimals, where scaling and unscaling in binary64 loses less
  than half a unit; the rate budget for clock readings up to 2 to the 52 milliseconds, with the slack its rounding
  needs written out; the sampling of a chart up to 2 to the 20 rows, where the rounded step still separates indices.

  Simplifications. The statements that write to the database never fail, though the code awaits them and they can
  reject. The works of the scheduler are run one after the other, though onWork is asynchronous and the bot does not
  serialise it; TradeExecutor and SignalEngine keep to that order, and SignalEngine.interleaved_opens_double shows what
  two interleaved openings do. All rules of one chain are estimated and encoded at one reading of the clock in seconds.
  In the merge of two records an explicit undefined counts as an absent field. Messages of the price feed have the shape
  of its schema; entries on which the handler would throw are not represented. An HTTP reply of Jupiter's execute call
  with a good status and neither a swap status nor an error is a success, as in the code.

  Properties. Chains: wiring, hand-over, order of submission, the reconstruction from the accounts. The page: stopped
  rules stay stopped, a close touches only accounts of the program and takes the leftovers, the merge of local and chain
  records loses nothing, a decoded swap is published again as it was.
  Deposits: a reported rule and a saved chain are well formed whatever the user did, the deposit shown is the one moved, the accounts of a
  single rule are created before it, and the two copies of the trigger encoding agree.
  The bot: the budget as a refinement of a sliding window, one open position per route, positions backed by confirmed
  trades, a success only with its own confirmation, only fresh ticks of an open market raise signals, every signal has
  its rows, exact books of closed signals, the invariants of the sockets and of the index. The market core: exact
  characterisations of grades, verdicts and routing, and the hold-horizon replay against the ledger of each size. The
  read API: the overview is recent, cached answers have a bounded age, the dossier counts what the query would count.
  Several state a defect: failed closes and creates recorded as done, a deposit that lands in the next wallet, trades
  lost between two calls, feeds that go dark on a change; others are theorems beside them: a rule saved unfunded because
  it was confirmed early, a loop mode that outlives its loop, old rows shown as live, an outage answered with status 500.

  Not modelled: the presence checks on untyped accounts, the rendering of React components, the editors of a single
  trigger or action (whose drafts are inputs of the rule builder) and the pickers they use, the demo data, the generated
  program interface, the environment parsing of the bot, the writes of pairs and the aggregate queries no handler calls,
  the backtest web application, and the keeper and program written in Rust.
\<close>

end
